(* ===== verification/Gov_Prelude.thy ===== *)
theory Gov_Prelude
  imports Complex_Main "HOL-Library.Char_ord" "HOL-Library.List_Lexorder" "HOL-Library.Multiset"
    "HOL-Library.AList"
begin

text \<open>
  The prelude of the development: the result type of fallible code, the byte-string functions of
  the Rust standard library that the sources use, the sort-and-deduplicate idiom, and the interface
  of the standard library's hash maps.

  A Rust \<open>String\<close>, \<open>&str\<close> or \<open>Vec<u8>\<close> is a \<^typ>\<open>string\<close>, a list of 8-bit characters: one element
  per byte of the UTF-8 text, so every offset and length of the model counts bytes as the sources
  do. The order on strings is the lexicographic order on bytes, which is Rust's \<open>Ord\<close>.
\<close>

section \<open>Results\<close>

text \<open>\<open>Result<T, E>\<close> is \<^typ>\<open>'e + 'a\<close> with the error on the left; the \<open>?\<close> operator is \<open>res_bind\<close>.\<close>

named_theorems res_simps \<open>evaluation of result combinators\<close>
named_theorems str_simps \<open>laws of the byte-string functions\<close>

definition res_bind :: "'e + 'a \<Rightarrow> ('a \<Rightarrow> 'e + 'b) \<Rightarrow> 'e + 'b" where
  "res_bind r f = (case r of Inl e \<Rightarrow> Inl e | Inr a \<Rightarrow> f a)"

definition res_map_err :: "('e \<Rightarrow> 'f) \<Rightarrow> 'e + 'a \<Rightarrow> 'f + 'a" where
  "res_map_err g r = (case r of Inl e \<Rightarrow> Inl (g e) | Inr a \<Rightarrow> Inr a)"

lemma res_bind_simps [simp, res_simps]:
  "res_bind (Inl e) f = Inl e"
  "res_bind (Inr a) f = f a"
  by (simp_all add: res_bind_def)

lemma res_map_err_simps [simp, res_simps]:
  "res_map_err g (Inl e) = Inl (g e)"
  "res_map_err g (Inr a) = Inr a"
  by (simp_all add: res_map_err_def)

lemma res_bind_eq_Inr:
  "res_bind r f = Inr b \<longleftrightarrow> (\<exists>a. r = Inr a \<and> f a = Inr b)"
  by (cases r) auto

lemma res_bind_eq_Inl:
  "res_bind r f = Inl e \<longleftrightarrow> r = Inl e \<or> (\<exists>a. r = Inr a \<and> f a = Inl e)"
  by (cases r) auto

section \<open>Byte strings\<close>

abbreviation newline :: char where
  "newline \<equiv> CHR 0x0A"

abbreviation carriage_return :: char where
  "carriage_return \<equiv> CHR 0x0D"

text \<open>A byte \<open>0x80 .. 0xBF\<close> continues a code point; \<open>str::is_char_boundary\<close> holds at 0, at the
  length, and before every byte that is not a continuation byte.\<close>

definition is_continuation :: "char \<Rightarrow> bool" where
  "is_continuation c \<longleftrightarrow> 128 \<le> (of_char c :: nat) \<and> (of_char c :: nat) < 192"

definition is_char_boundary :: "string \<Rightarrow> nat \<Rightarrow> bool" where
  "is_char_boundary s i =
     (if i = 0 then True
      else if i \<ge> length s then i = length s
      else \<not> is_continuation (s ! i))"

lemma is_char_boundary_ends [simp]:
  "is_char_boundary s 0" "is_char_boundary s (length s)"
  by (simp_all add: is_char_boundary_def)

lemma is_char_boundary_le: "is_char_boundary s i \<Longrightarrow> i \<le> length s"
  by (auto simp: is_char_boundary_def split: if_splits)

definition starts_with :: "string \<Rightarrow> string \<Rightarrow> bool" where
  "starts_with p s \<longleftrightarrow> take (length p) s = p"

definition strip_prefix :: "string \<Rightarrow> string \<Rightarrow> string option" where
  "strip_prefix p s = (if starts_with p s then Some (drop (length p) s) else None)"

lemma starts_with_append [simp, str_simps]: "starts_with p (p @ s)"
  by (simp add: starts_with_def)

lemma starts_with_iff: "starts_with p s \<longleftrightarrow> (\<exists>r. s = p @ r)"
  by (metis append_eq_conv_conj append_take_drop_id starts_with_def)

lemma strip_prefix_Some: "strip_prefix p s = Some r \<longleftrightarrow> s = p @ r"
  by (auto simp: strip_prefix_def starts_with_iff)

definition trim_end_matches :: "(char \<Rightarrow> bool) \<Rightarrow> string \<Rightarrow> string" where
  "trim_end_matches P s = rev (dropWhile P (rev s))"

text \<open>
  \<open>str::trim\<close> strips Unicode white space. The white-space code points are, in UTF-8, six ASCII
  bytes, the two-byte \<open>U+0085\<close> and \<open>U+00A0\<close>, and the three-byte \<open>U+1680\<close>, \<open>U+2000..U+200A\<close>,
  \<open>U+2028\<close>, \<open>U+2029\<close>, \<open>U+202F\<close>, \<open>U+205F\<close> and \<open>U+3000\<close>.
\<close>

definition ascii_ws :: "nat \<Rightarrow> bool" where
  "ascii_ws c \<longleftrightarrow> c \<in> {9, 10, 11, 12, 13, 32}"

definition ws2 :: "nat \<Rightarrow> nat \<Rightarrow> bool" where
  "ws2 a b \<longleftrightarrow> a = 194 \<and> (b = 133 \<or> b = 160)"

definition ws3 :: "nat \<Rightarrow> nat \<Rightarrow> nat \<Rightarrow> bool" where
  "ws3 a b c \<longleftrightarrow>
     a = 225 \<and> b = 154 \<and> c = 128 \<or>
     a = 226 \<and> b = 128 \<and> (128 \<le> c \<and> c \<le> 138 \<or> c = 168 \<or> c = 169 \<or> c = 175) \<or>
     a = 226 \<and> b = 129 \<and> c = 159 \<or>
     a = 227 \<and> b = 128 \<and> c = 128"

fun trim_start :: "string \<Rightarrow> string" where
  "trim_start (a # b # c # s) =
     (if ascii_ws (of_char a) then trim_start (b # c # s)
      else if ws2 (of_char a) (of_char b) then trim_start (c # s)
      else if ws3 (of_char a) (of_char b) (of_char c) then trim_start s
      else a # b # c # s)"
| "trim_start [a, b] =
     (if ascii_ws (of_char a) then trim_start [b]
      else if ws2 (of_char a) (of_char b) then []
      else [a, b])"
| "trim_start [a] = (if ascii_ws (of_char a) then [] else [a])"
| "trim_start [] = []"

fun trim_end_rev :: "string \<Rightarrow> string" where
  "trim_end_rev (c # b # a # s) =
     (if ascii_ws (of_char c) then trim_end_rev (b # a # s)
      else if ws2 (of_char b) (of_char c) then trim_end_rev (a # s)
      else if ws3 (of_char a) (of_char b) (of_char c) then trim_end_rev s
      else c # b # a # s)"
| "trim_end_rev [c, b] =
     (if ascii_ws (of_char c) then trim_end_rev [b]
      else if ws2 (of_char b) (of_char c) then []
      else [c, b])"
| "trim_end_rev [c] = (if ascii_ws (of_char c) then [] else [c])"
| "trim_end_rev [] = []"

definition str_trim :: "string \<Rightarrow> string" where
  "str_trim s = rev (trim_end_rev (rev (trim_start s)))"

text \<open>\<open>str::find('\n')\<close> together with the split after it, and \<open>str::split_inclusive\<close>.\<close>

fun break_line :: "string \<Rightarrow> (string \<times> string) option" where
  "break_line [] = None"
| "break_line (c # cs) =
     (if c = newline then Some ([c], cs)
      else map_option (\<lambda>(l, r). (c # l, r)) (break_line cs))"

fun split_inclusive :: "string \<Rightarrow> string list" where
  "split_inclusive [] = []"
| "split_inclusive (c # cs) =
     (if c = newline then [c] # split_inclusive cs
      else (case split_inclusive cs of [] \<Rightarrow> [[c]] | l # ls \<Rightarrow> (c # l) # ls))"

lemma break_line_None: "break_line s = None \<longleftrightarrow> newline \<notin> set s"
  by (induction s) auto

lemma break_line_Some:
  "break_line s = Some (l, r) \<Longrightarrow>
     s = l @ r \<and> (\<exists>l'. l = l' @ [newline] \<and> newline \<notin> set l')"
proof (induction s arbitrary: l)
  case Nil
  then show ?case by simp
next
  case (Cons c cs)
  show ?case
  proof (cases "c = newline")
    case True
    with Cons.prems show ?thesis by auto
  next
    case False
    with Cons.prems obtain l0 where b: "break_line cs = Some (l0, r)" and l: "l = c # l0"
      by auto
    from Cons.IH [OF b] obtain l' where "cs = l0 @ r" "l0 = l' @ [newline]" "newline \<notin> set l'"
      by blast
    with False l show ?thesis
      by (intro conjI exI [of _ "c # l'"]) auto
  qed
qed

lemma break_line_shorter: "break_line s = Some (l, r) \<Longrightarrow> length r < length s"
  using break_line_Some by fastforce

lemma break_line_append:
  "break_line s = Some (l, r) \<Longrightarrow> break_line (s @ t) = Some (l, r @ t)"
  by (induction s arbitrary: l) (auto split: if_splits)

lemma concat_split_inclusive [simp, str_simps]: "concat (split_inclusive s) = s"
  by (induction s) (auto split: list.splits)

lemma split_inclusive_break_line:
  "split_inclusive s =
     (case break_line s of
        None \<Rightarrow> (if s = [] then [] else [s])
      | Some (l, r) \<Rightarrow> l # split_inclusive r)"
  by (induction s) (auto split: option.splits list.splits if_splits)

text \<open>\<open>[T]::join\<close> and the ASCII case functions.\<close>

fun join_with :: "string \<Rightarrow> string list \<Rightarrow> string" where
  "join_with sep [] = []"
| "join_with sep [x] = x"
| "join_with sep (x # y # ys) = x @ sep @ join_with sep (y # ys)"

definition to_ascii_lower :: "char \<Rightarrow> char" where
  "to_ascii_lower c =
     (if 65 \<le> (of_char c :: nat) \<and> (of_char c :: nat) \<le> 90
      then char_of ((of_char c :: nat) + 32) else c)"

definition to_ascii_lowercase :: "string \<Rightarrow> string" where
  "to_ascii_lowercase s = map to_ascii_lower s"

definition eq_ignore_ascii_case :: "string \<Rightarrow> string \<Rightarrow> bool" where
  "eq_ignore_ascii_case a b \<longleftrightarrow> to_ascii_lowercase a = to_ascii_lowercase b"

section \<open>Numbers\<close>

text \<open>\<open>Display\<close> of a natural number and of an integer, and \<open>u64::saturating_add\<close>.\<close>

fun show_nat :: "nat \<Rightarrow> string" where
  "show_nat n =
     (if n < 10 then [char_of (48 + n)] else show_nat (n div 10) @ [char_of (48 + n mod 10)])"

declare show_nat.simps [simp del]

definition show_int :: "int \<Rightarrow> string" where
  "show_int i = (if i < 0 then CHR ''-'' # show_nat (nat (- i)) else show_nat (nat i))"

definition U64_MAX :: nat where
  "U64_MAX = 18446744073709551615"

definition sat_add :: "nat \<Rightarrow> nat \<Rightarrow> nat" where
  "sat_add a b = min (a + b) U64_MAX"

lemma sat_add_le [simp]: "sat_add a b \<le> U64_MAX"
  by (simp add: sat_add_def)

lemma sat_add_assoc: "sat_add (sat_add a b) c = sat_add a (sat_add b c)"
  by (simp add: sat_add_def min_def)

lemma sat_add_commute: "sat_add a b = sat_add b a"
  by (simp add: sat_add_def add.commute)

lemma sat_add_left_commute: "sat_add a (sat_add b c) = sat_add b (sat_add a c)"
  by (simp add: sat_add_def min_def)

lemmas sat_add_ac = sat_add_assoc sat_add_commute sat_add_left_commute

lemma sat_add_0: "a \<le> U64_MAX \<Longrightarrow> sat_add a 0 = a" "a \<le> U64_MAX \<Longrightarrow> sat_add 0 a = a"
  by (simp_all add: sat_add_def)

lemma sat_add_pos: "sat_add a b > 0 \<longleftrightarrow> a > 0 \<or> b > 0"
  by (auto simp: sat_add_def U64_MAX_def)

lemma sat_add_0_iff [simp]: "sat_add a b = 0 \<longleftrightarrow> a = 0 \<and> b = 0"
  by (auto simp: sat_add_def U64_MAX_def min_def split: if_splits)

lemma sat_add_exact: "a + b \<le> U64_MAX \<Longrightarrow> sat_add a b = a + b"
  by (simp add: sat_add_def)

text \<open>A digit of the last place distinguishes two numbers, so printing is injective.\<close>

lemma show_nat_nonempty [simp]: "show_nat n \<noteq> []" "[] \<noteq> show_nat n"
  by (subst show_nat.simps, simp)+

lemma char_of_digit_inj: "a < 10 \<Longrightarrow> c < 10 \<Longrightarrow> char_of (48 + a :: nat) = char_of (48 + c) \<Longrightarrow> a = c"
  by (drule arg_cong [of _ _ "of_char :: char \<Rightarrow> nat"]) simp

lemma show_nat_inj: "show_nat m = show_nat n \<Longrightarrow> m = n"
proof (induction m arbitrary: n rule: show_nat.induct)
  case (1 m)
  have m: "show_nat m = (if m < 10 then [char_of (48 + m)] else show_nat (m div 10) @ [char_of (48 + m mod 10)])"
    and n: "show_nat n = (if n < 10 then [char_of (48 + n)] else show_nat (n div 10) @ [char_of (48 + n mod 10)])"
    by (subst show_nat.simps, simp)+
  show ?case
  proof (cases "m < 10 \<or> n < 10")
    case True
    with "1.prems" m n show ?thesis
      by (auto split: if_splits dest: char_of_digit_inj)
  next
    case False
    with "1.prems" m n have "show_nat (m div 10) = show_nat (n div 10)"
      and d: "char_of (48 + m mod 10) = (char_of (48 + n mod 10) :: char)"
      by simp_all
    with False "1.IH" have "m div 10 = n div 10" by simp
    moreover have "m mod 10 = n mod 10"
      using d by (rule char_of_digit_inj [rotated 2]) simp_all
    ultimately show ?thesis by (metis mult_div_mod_eq)
  qed
qed

section \<open>Sort and deduplicate\<close>

text \<open>\<open>v.sort_unstable(); v.dedup()\<close>: equal strings are indistinguishable, so the unstable sort
  has one result.\<close>

definition sort_dedup :: "string list \<Rightarrow> string list" where
  "sort_dedup xs = remdups_adj (sort xs)"

lemma distinct_remdups_adj_sorted: "sorted xs \<Longrightarrow> distinct (remdups_adj xs)"
proof (induction xs rule: remdups_adj.induct)
  case (3 x y xs)
  then show ?case
    by (cases "x = y") (auto simp: le_less)
qed simp_all

lemma sort_dedup_eq: "sort_dedup xs = sorted_list_of_set (set xs)"
proof -
  have "sorted (sort_dedup xs)" "distinct (sort_dedup xs)" "set (sort_dedup xs) = set xs"
    by (simp_all add: sort_dedup_def distinct_remdups_adj_sorted)
  then show ?thesis
    by (metis sorted_list_of_set.idem_if_sorted_distinct)
qed

lemma set_sort_dedup [simp]: "set (sort_dedup xs) = set xs"
  by (simp add: sort_dedup_eq)

lemma sort_dedup_sorted_distinct: "sorted (sort_dedup xs)" "distinct (sort_dedup xs)"
  by (simp_all add: sort_dedup_eq)

lemma sort_dedup_Nil_iff [simp]: "sort_dedup xs = [] \<longleftrightarrow> xs = []"
  by (metis set_empty set_sort_dedup)

lemma sort_dedup_append:
  "sort_dedup (sort_dedup xs @ ys) = sort_dedup (xs @ ys)"
  by (simp add: sort_dedup_eq)

lemma sort_dedup_idem [simp]: "sort_dedup (sort_dedup xs) = sort_dedup xs"
  by (simp add: sort_dedup_eq)

section \<open>Hash maps\<close>

text \<open>
  \<open>std::collections::HashMap\<close> is an association list without repeated keys. What the sources use
  of it is the interface below: a lookup, an insertion that replaces, a removal, and a set of keys.
  The order in which a hash map is iterated is arbitrary, so every definition that iterates one
  takes the order as a parameter, a function \<open>hord\<close> that permutes the list of keys
  (\<open>visits_each_key_once\<close>).
\<close>

locale hash_map =
  fixes get :: "'m \<Rightarrow> 'k \<Rightarrow> 'v option"
    and ins :: "'k \<Rightarrow> 'v \<Rightarrow> 'm \<Rightarrow> 'm"
    and rem :: "'k \<Rightarrow> 'm \<Rightarrow> 'm"
    and keys_of :: "'m \<Rightarrow> 'k set"
  assumes get_ins: "get (ins k v m) j = (if j = k then Some v else get m j)"
    and get_rem: "get (rem k m) j = (if j = k then None else get m j)"
    and keys_get: "k \<in> keys_of m \<longleftrightarrow> get m k \<noteq> None"
begin

lemma keys_ins: "keys_of (ins k v m) = insert k (keys_of m)"
  by (auto simp: keys_get get_ins split: if_splits)

lemma keys_rem: "keys_of (rem k m) = keys_of m - {k}"
  by (auto simp: keys_get get_rem split: if_splits)

lemma get_rem_ins: "get (rem k (ins k v m)) j = get (rem k m) j"
  by (simp add: get_rem get_ins)

end

type_synonym ('k, 'v) hmap = "('k \<times> 'v) list"

definition hm_keys :: "('k, 'v) hmap \<Rightarrow> 'k list" where
  "hm_keys m = map fst m"

definition visits_each_key_once :: "('k list \<Rightarrow> 'k list) \<Rightarrow> bool" where
  "visits_each_key_once hord \<longleftrightarrow> (\<forall>ks. mset (hord ks) = mset ks)"

interpretation hm: hash_map map_of AList.update AList.delete "\<lambda>m. set (hm_keys m)"
  by unfold_locales
    (simp_all add: update_conv' delete_conv' hm_keys_def map_of_eq_None_iff)

lemma distinct_hm_update [simp]:
  "distinct (hm_keys m) \<Longrightarrow> distinct (hm_keys (AList.update k v m))"
  by (simp add: hm_keys_def distinct_update)

lemma distinct_hm_delete [simp]:
  "distinct (hm_keys m) \<Longrightarrow> distinct (hm_keys (AList.delete k m))"
  by (simp add: hm_keys_def distinct_delete)

end
