(* ===== verification/Utf8.thy ===== *)
theory Utf8
  imports Gov_Prelude
begin

text \<open>
  \<open>core::str::from_utf8\<close>: validation of a byte sequence, and what a failed validation reports. The
  proxies decode a chunked response with it, carrying an incomplete trailing code point over to the
  next chunk.

  \<open>next_code_point\<close> reads one code point off the front of a byte sequence; \<open>from_utf8\<close> repeats it.
  The error value of the standard library has two fields: \<open>valid_up_to\<close>, the length of the longest
  valid prefix, and \<open>error_len\<close>, which is \<open>None\<close> when the input ends in the middle of a code point
  that more bytes could complete, and \<open>Some\<close> of a length from 1 to 3 when it cannot be completed.
\<close>

section \<open>One code point\<close>

definition in_range :: "nat \<Rightarrow> nat \<Rightarrow> char \<Rightarrow> bool" where
  "in_range lo hi c \<longleftrightarrow> lo \<le> (of_char c :: nat) \<and> (of_char c :: nat) \<le> hi"

definition utf8_char_width :: "char \<Rightarrow> nat" where
  "utf8_char_width c =
     (if in_range 0 127 c then 1
      else if in_range 194 223 c then 2
      else if in_range 224 239 c then 3
      else if in_range 240 244 c then 4
      else 0)"

text \<open>The second byte of a three- or four-byte code point has a narrower range after some lead
  bytes: no overlong forms, no surrogates, nothing above \<open>U+10FFFF\<close>.\<close>

definition second_ok :: "char \<Rightarrow> char \<Rightarrow> bool" where
  "second_ok a b =
     (if in_range 224 224 a then in_range 160 191 b
      else if in_range 237 237 a then in_range 128 159 b
      else if in_range 240 240 a then in_range 144 191 b
      else if in_range 244 244 a then in_range 128 143 b
      else is_continuation b)"

datatype code_point =
    End_of_input
  | Code_point nat
  | Incomplete
  | Malformed nat

fun next_code_point :: "string \<Rightarrow> code_point" where
  "next_code_point [] = End_of_input"
| "next_code_point (a # s) =
     (if utf8_char_width a = 1 then Code_point 1
      else if utf8_char_width a = 0 then Malformed 1
      else (case s of
              [] \<Rightarrow> Incomplete
            | b # s' \<Rightarrow>
                (if \<not> second_ok a b then Malformed 1
                 else if utf8_char_width a = 2 then Code_point 2
                 else (case s' of
                         [] \<Rightarrow> Incomplete
                       | c # s'' \<Rightarrow>
                           (if \<not> is_continuation c then Malformed 2
                            else if utf8_char_width a = 3 then Code_point 3
                            else (case s'' of
                                    [] \<Rightarrow> Incomplete
                                  | d # _ \<Rightarrow>
                                      (if \<not> is_continuation d then Malformed 3
                                       else Code_point 4)))))))"

lemma next_code_point_bounds:
  "next_code_point s = Code_point n \<Longrightarrow> 0 < n \<and> n \<le> length s"
  by (induction s rule: next_code_point.induct) (auto split: if_splits list.splits)

lemma next_code_point_append:
  "next_code_point s = Code_point n \<Longrightarrow> next_code_point (s @ t) = Code_point n"
  by (induction s rule: next_code_point.induct) (auto split: if_splits list.splits)

lemma next_code_point_take:
  assumes "next_code_point s = Code_point n"
  shows "next_code_point (take n s) = Code_point n"
proof (cases s)
  case (Cons a s')
  show ?thesis
  proof (cases "utf8_char_width a = 1")
    case True
    with assms Cons have "n = 1" by auto
    with True Cons show ?thesis by simp
  next
    case False
    with assms Cons show ?thesis
      by (auto split: if_splits list.splits)
  qed
qed (use assms in simp)

lemma next_code_point_malformed_append:
  "next_code_point s = Malformed k \<Longrightarrow> next_code_point (s @ t) = Malformed k"
  by (induction s rule: next_code_point.induct) (auto split: if_splits list.splits)

lemma next_code_point_incomplete_length:
  "next_code_point s = Incomplete \<Longrightarrow> 0 < length s \<and> length s \<le> 3"
  by (induction s rule: next_code_point.induct) (auto split: if_splits list.splits)

lemma next_code_point_End: "next_code_point s = End_of_input \<longleftrightarrow> s = []"
  by (induction s rule: next_code_point.induct) (auto split: if_splits list.splits)

section \<open>Validation\<close>

record utf8_error =
  valid_up_to :: nat
  error_len :: "nat option"

function from_utf8 :: "string \<Rightarrow> utf8_error + string" where
  "from_utf8 s =
     (case next_code_point s of
        End_of_input \<Rightarrow> Inr []
      | Incomplete \<Rightarrow> Inl \<lparr>valid_up_to = 0, error_len = None\<rparr>
      | Malformed k \<Rightarrow> Inl \<lparr>valid_up_to = 0, error_len = Some k\<rparr>
      | Code_point n \<Rightarrow>
          (case from_utf8 (drop n s) of
             Inr rest \<Rightarrow> Inr (take n s @ rest)
           | Inl e \<Rightarrow> Inl (e\<lparr>valid_up_to := n + valid_up_to e\<rparr>)))"
  by pat_completeness auto
termination
  by (relation "measure length") (auto dest: next_code_point_bounds)

declare from_utf8.simps [simp del]

definition valid_utf8 :: "string \<Rightarrow> bool" where
  "valid_utf8 s \<longleftrightarrow> from_utf8 s = Inr s"

lemma from_utf8_Nil [simp]: "from_utf8 [] = Inr []"
  by (simp add: from_utf8.simps)

lemma from_utf8_Inr: "from_utf8 s = Inr t \<Longrightarrow> t = s"
proof (induction s arbitrary: t rule: from_utf8.induct)
  case (1 s)
  show ?case
  proof (cases "next_code_point s")
    case (Code_point n)
    with "1.prems" obtain r where "from_utf8 (drop n s) = Inr r" "t = take n s @ r"
      by (subst (asm) from_utf8.simps) (auto split: sum.splits)
    with "1.IH" [OF Code_point] show ?thesis by simp
  qed (use "1.prems" in \<open>simp_all add: from_utf8.simps [of s] next_code_point_End\<close>)
qed

lemma from_utf8_Inr_iff: "from_utf8 s = Inr t \<longleftrightarrow> t = s \<and> valid_utf8 s"
  by (auto simp: valid_utf8_def dest: from_utf8_Inr)

text \<open>A validated prefix does not influence how the rest is read.\<close>

lemma from_utf8_append:
  "valid_utf8 s \<Longrightarrow>
     from_utf8 (s @ t) =
       (case from_utf8 t of
          Inr r \<Rightarrow> Inr (s @ r)
        | Inl e \<Rightarrow> Inl (e\<lparr>valid_up_to := length s + valid_up_to e\<rparr>))"
proof (induction s rule: from_utf8.induct)
  case (1 s)
  show ?case
  proof (cases "next_code_point s")
    case End_of_input
    then show ?thesis
      by (auto simp: next_code_point_End split: sum.splits)
  next
    case (Code_point n)
    from Code_point "1.prems" have v: "valid_utf8 (drop n s)"
      unfolding valid_utf8_def
      by (subst (asm) from_utf8.simps) (auto split: sum.splits dest: from_utf8_Inr)
    from next_code_point_bounds [OF Code_point] have n: "n \<le> length s" by simp
    have "from_utf8 (s @ t) =
        (case from_utf8 (drop n s @ t) of
           Inr rest \<Rightarrow> Inr (take n s @ rest)
         | Inl e \<Rightarrow> Inl (e\<lparr>valid_up_to := n + valid_up_to e\<rparr>))"
      using n by (simp add: from_utf8.simps [of "s @ t"] next_code_point_append [OF Code_point]
          split: sum.split)
    also have "\<dots> = (case from_utf8 t of
          Inr r \<Rightarrow> Inr (s @ r)
        | Inl e \<Rightarrow> Inl (e\<lparr>valid_up_to := length s + valid_up_to e\<rparr>))"
      using "1.IH" [OF Code_point v] n by (auto split: sum.splits)
    finally show ?thesis .
  qed (use "1.prems" in \<open>simp_all add: valid_utf8_def from_utf8.simps [of s]\<close>)
qed

lemma valid_utf8_Nil [simp]: "valid_utf8 []"
  by (simp add: valid_utf8_def)

lemma valid_utf8_append: "valid_utf8 s \<Longrightarrow> valid_utf8 t \<Longrightarrow> valid_utf8 (s @ t)"
  by (simp add: valid_utf8_def from_utf8_append)

lemma valid_utf8_appendD: "valid_utf8 s \<Longrightarrow> valid_utf8 (s @ t) \<Longrightarrow> valid_utf8 t"
  by (simp add: from_utf8_append valid_utf8_def split: sum.splits)

text \<open>What a failed validation reports: the input splits at \<open>valid_up_to\<close> into a valid prefix and a
  rest that starts with an incomplete or a malformed code point.\<close>

lemma from_utf8_Inl:
  "from_utf8 s = Inl e \<Longrightarrow>
     valid_up_to e \<le> length s \<and> valid_utf8 (take (valid_up_to e) s) \<and>
     next_code_point (drop (valid_up_to e) s) =
       (case error_len e of None \<Rightarrow> Incomplete | Some k \<Rightarrow> Malformed k)"
proof (induction s arbitrary: e rule: from_utf8.induct)
  case (1 s)
  show ?case
  proof (cases "next_code_point s")
    case (Code_point n)
    from next_code_point_bounds [OF Code_point] have n: "0 < n" "n \<le> length s" by simp_all
    from Code_point "1.prems" obtain e' where
      e': "from_utf8 (drop n s) = Inl e'" and e: "e = e'\<lparr>valid_up_to := n + valid_up_to e'\<rparr>"
      by (subst (asm) from_utf8.simps) (auto split: sum.splits)
    note ih = "1.IH" [OF Code_point e']
    from next_code_point_take [OF Code_point] have "valid_utf8 (take n s)"
      by (simp add: valid_utf8_def from_utf8.simps [of "take n s"])
    moreover have "take (n + valid_up_to e') s = take n s @ take (valid_up_to e') (drop n s)"
      by (simp add: take_add)
    ultimately show ?thesis
      using ih e n by (auto simp: valid_utf8_append add.commute)
  qed (use "1.prems" in \<open>auto simp: from_utf8.simps [of s] next_code_point_End\<close>)
qed

lemma from_utf8_Inl_not_completable:
  assumes "from_utf8 s = Inl e" and "error_len e = Some k"
  shows "\<not> valid_utf8 (s @ t)"
proof
  assume v: "valid_utf8 (s @ t)"
  define p where "p = take (valid_up_to e) s"
  define q where "q = drop (valid_up_to e) s"
  have s: "s = p @ q" by (simp add: p_def q_def)
  from from_utf8_Inl [OF assms(1)] assms(2) have "valid_utf8 p" and q: "next_code_point q = Malformed k"
    by (simp_all add: p_def q_def)
  with v s have "valid_utf8 (q @ t)"
    by (metis append.assoc valid_utf8_appendD)
  with next_code_point_malformed_append [OF q, of t] show False
    by (simp add: valid_utf8_def from_utf8.simps [of "q @ t"])
qed

section \<open>Lossy decoding\<close>

text \<open>\<open>String::from_utf8_lossy\<close>: every malformed sequence becomes one replacement character.\<close>

definition replacement_char :: string where
  "replacement_char = [CHR 0xEF, CHR 0xBF, CHR 0xBD]"

function from_utf8_lossy :: "string \<Rightarrow> string" where
  "from_utf8_lossy s =
     (case from_utf8 s of
        Inr t \<Rightarrow> t
      | Inl er \<Rightarrow>
          take (valid_up_to er) s @ replacement_char @
          (case error_len er of
             None \<Rightarrow> []
           | Some k \<Rightarrow> (if k = 0 \<or> s = [] then [] else from_utf8_lossy (drop (valid_up_to er + k) s))))"
  by pat_completeness auto
termination
  by (relation "measure length") auto

declare from_utf8_lossy.simps [simp del]

lemma from_utf8_lossy_valid [simp]: "valid_utf8 s \<Longrightarrow> from_utf8_lossy s = s"
  by (simp add: from_utf8_lossy.simps [of s] valid_utf8_def)

end
