(* ===== verification/Daemon_Tail.thy ===== *)
theory Daemon_Tail
  imports Gov_Prelude Utf8
begin

text \<open>
  What the telemetry daemon of \<open>app/governance-auth\<close> shares with the Copilot drain: the tail of an
  append-only file from a byte offset (\<open>copilot/spool/mod.rs\<close>), the identity that says which file an
  offset was measured against (\<open>copilot/spool/identity.rs\<close>), the verdicts of a collector (\<open>copilot/push.rs\<close>), and the table of
  refused records (\<open>copilot/quarantine.rs\<close>).

  A file is its inode and its bytes. \<open>sha\<close> stands for the hexadecimal SHA-256 digest. The file calls of
  a tail run under one lock, so they see one state of the file; a failing call is the branch on
  \<open>io\<close>, the outcome of each kind of file call.
\<close>

section \<open>Files\<close>

type_synonym disk_file = "nat \<times> string"

text \<open>The kinds of file calls, and whether each succeeds. Storing a state file is two of them, the write
  and rename (\<open>IO_store\<close>) and the sync of its directory (\<open>IO_store_sync\<close>); \<open>IO_again\<close> is the second call of a
  kind in one operation.\<close>

datatype io_op =
    IO_stat | IO_read | IO_append | IO_sync | IO_store | IO_open | IO_truncate | IO_tmp_write
  | IO_rename | IO_sync_dir | IO_store_sync | IO_again io_op

type_synonym io = "io_op \<Rightarrow> bool"

datatype spool_error =
    Io_failed io_op
  | Record_too_large nat
  | Spool_full nat
  | Clock_failed
  | Encode_failed
  | Cancelled

section \<open>Identity\<close>

record identity =
  id_inode :: "nat option"
  id_device :: "nat option"
  id_head :: string
  id_head_len :: nat

datatype restart = Truncated | Replaced

definition HEAD_BYTES :: nat where
  "HEAD_BYTES = 4096"

text \<open>All files are on one device.\<close>

definition identity_read :: "(string \<Rightarrow> string) \<Rightarrow> disk_file \<Rightarrow> nat \<Rightarrow> identity" where
  "identity_read sha f head_len =
     (let head = take head_len (snd f)
      in \<lparr>id_inode = Some (fst f), id_device = Some 0, id_head = sha head, id_head_len = length head\<rparr>)"

definition identity_of :: "(string \<Rightarrow> string) \<Rightarrow> disk_file \<Rightarrow> identity" where
  "identity_of sha f = identity_read sha f (min HEAD_BYTES (length (snd f)))"

definition agree :: "nat option \<Rightarrow> nat option \<Rightarrow> bool" where
  "agree recorded current =
     (case (recorded, current) of (Some before, Some now) \<Rightarrow> before = now | _ \<Rightarrow> True)"

definition same :: "(string \<Rightarrow> string) \<Rightarrow> identity \<Rightarrow> disk_file \<Rightarrow> bool" where
  "same sha recorded f =
     (if length (snd f) < id_head_len recorded then False
      else let current = identity_read sha f (id_head_len recorded)
           in agree (id_inode recorded) (id_inode current) \<and> agree (id_device recorded) (id_device current) \<and>
              id_head_len current = id_head_len recorded \<and> id_head current = id_head recorded)"

definition identity_restart ::
  "(string \<Rightarrow> string) \<Rightarrow> identity option \<Rightarrow> disk_file \<Rightarrow> nat \<Rightarrow> restart option" where
  "identity_restart sha known f offset =
     (if length (snd f) < offset then Some Truncated
      else case known of
             Some recorded \<Rightarrow> (if \<not> same sha recorded f then Some Replaced else None)
           | None \<Rightarrow> None)"

lemma same_identity_of [simp]: "same sha (identity_of sha f) f"
  by (simp add: same_def identity_of_def identity_read_def agree_def Let_def min_def)

lemma same_append:
  "same sha r (ino, b) \<Longrightarrow> same sha r (ino, b @ c)"
  by (auto simp: same_def identity_read_def Let_def split: if_splits)

section \<open>The tail\<close>

definition MAX_READ :: nat where
  "MAX_READ = 8388608"

record tail_line =
  tl_offset :: nat
  tl_text :: string

record drain =
  dr_lines :: "tail_line list"
  next_offset :: nat
  restarted :: "restart option"
  missing :: bool
  dr_size :: nat
  dr_identity :: "identity option"

text \<open>\<open>split(|b| b == b'\n')\<close>, \<open>rposition\<close> of the newline.\<close>

fun split_nl :: "string \<Rightarrow> string list" where
  "split_nl [] = [[]]"
| "split_nl (c # s) =
     (if c = newline then [] # split_nl s
      else case split_nl s of [] \<Rightarrow> [[c]] | l # ls \<Rightarrow> (c # l) # ls)"

fun rposition_nl :: "string \<Rightarrow> nat option" where
  "rposition_nl [] = None"
| "rposition_nl (c # s) =
     (case rposition_nl s of
        Some i \<Rightarrow> Some (Suc i)
      | None \<Rightarrow> if c = newline then Some 0 else None)"

text \<open>The loop over the segments: each line with the offset at which it starts, blank lines dropped.\<close>

fun collect_lines :: "nat \<Rightarrow> string list \<Rightarrow> tail_line list" where
  "collect_lines pos [] = []"
| "collect_lines pos (seg # segs) =
     (let t = str_trim (from_utf8_lossy seg);
          rest = collect_lines (pos + length seg + 1) segs
      in if t = [] then rest else \<lparr>tl_offset = pos, tl_text = t\<rparr> # rest)"

definition tail_drain ::
  "io \<Rightarrow> (string \<Rightarrow> string) \<Rightarrow> disk_file option \<Rightarrow> nat \<Rightarrow> identity option \<Rightarrow> spool_error + drain" where
  "tail_drain io sha path offset known =
     (if \<not> io IO_stat then Inl (Io_failed IO_stat)
      else case path of
        None \<Rightarrow>
          Inr \<lparr>dr_lines = [], next_offset = offset, restarted = None, missing = True, dr_size = 0,
               dr_identity = None\<rparr>
      | Some f \<Rightarrow>
          (if \<not> io IO_read then Inl (Io_failed IO_read)
           else let size = length (snd f);
                    ident = Some (identity_of sha f);
                    rst = identity_restart sha known f offset;
                    off = (if rst \<noteq> None then 0 else offset);
                    buffer = take MAX_READ (drop off (snd f))
                in case rposition_nl buffer of
                     None \<Rightarrow>
                       (if length buffer \<ge> MAX_READ then Inl (Record_too_large off)
                        else Inr \<lparr>dr_lines = [], next_offset = off, restarted = rst, missing = False,
                                  dr_size = size, dr_identity = ident\<rparr>)
                   | Some last_newline \<Rightarrow>
                       Inr \<lparr>dr_lines = collect_lines off (split_nl (take (Suc last_newline) buffer)),
                            next_offset = off + last_newline + 1, restarted = rst, missing = False,
                            dr_size = size, dr_identity = ident\<rparr>))"

lemma split_nl_lengths: "sum_list (map (\<lambda>seg. length seg + 1) (split_nl b)) = length b + 1"
proof (induction b)
  case (Cons c b)
  then show ?case by (cases "split_nl b") auto
qed simp

lemma rposition_nl_bound: "rposition_nl b = Some i \<Longrightarrow> i < length b"
  by (induction b arbitrary: i) (auto split: option.splits if_splits)

section \<open>Verdicts of the collector\<close>

datatype verdict = Accepted | Refused nat

definition is_success :: "nat \<Rightarrow> bool" where
  "is_success status \<longleftrightarrow> 200 \<le> status \<and> status < 300"

definition is_permanent :: "nat \<Rightarrow> bool" where
  "is_permanent status \<longleftrightarrow> status = 400 \<or> status = 413 \<or> status = 422"

section \<open>Refused records\<close>

definition REFUSALS_BEFORE_DISCARD :: nat where
  "REFUSALS_BEFORE_DISCARD = 2"

definition TTL_SECONDS :: nat where
  "TTL_SECONDS = 604800"

definition MAX_ENTRIES :: nat where
  "MAX_ENTRIES = 64"

record entry =
  refusals :: nat
  last_seen_unix :: nat

text \<open>A \<open>BTreeMap\<close> is the list of its entries in the order of their keys.\<close>

type_synonym quarantine = "(string \<times> entry) list"

fun bt_insert :: "string \<Rightarrow> 'v \<Rightarrow> (string \<times> 'v) list \<Rightarrow> (string \<times> 'v) list" where
  "bt_insert k v [] = [(k, v)]"
| "bt_insert k v ((j, w) # m) =
     (if k = j then (k, v) # m else if k < j then (k, v) # (j, w) # m else (j, w) # bt_insert k v m)"

definition bt_remove :: "string \<Rightarrow> (string \<times> 'v) list \<Rightarrow> (string \<times> 'v) list" where
  "bt_remove k m = filter (\<lambda>p. fst p \<noteq> k) m"

lemma bt_insert_keys: "fst ` set (bt_insert k v m) = insert k (fst ` set m)"
  by (induction k v m rule: bt_insert.induct) (simp_all add: insert_commute)

definition quarantine_key :: "(string \<Rightarrow> string) \<Rightarrow> string \<Rightarrow> string" where
  "quarantine_key sha t = take 32 (sha t)"

definition refused :: "string \<Rightarrow> nat \<Rightarrow> nat \<Rightarrow> quarantine \<Rightarrow> quarantine \<times> bool" where
  "refused key now min_separation_secs q =
     (let en = (case map_of q key of
                  Some en \<Rightarrow> en
                | None \<Rightarrow> \<lparr>refusals = 0, last_seen_unix = now - min_separation_secs\<rparr>);
          en' = (if now - last_seen_unix en \<ge> min_separation_secs
                 then \<lparr>refusals = min (refusals en + 1) 4294967295, last_seen_unix = now\<rparr> else en)
      in (bt_insert key en' q, refusals en' \<ge> REFUSALS_BEFORE_DISCARD))"

definition forget :: "string \<Rightarrow> quarantine \<Rightarrow> quarantine" where
  "forget key q = bt_remove key q"

text \<open>The first entry with the least time.\<close>

fun oldest :: "quarantine \<Rightarrow> (string \<times> entry) option" where
  "oldest [] = None"
| "oldest (p # q) =
     (case oldest q of
        None \<Rightarrow> Some p
      | Some r \<Rightarrow> if last_seen_unix (snd r) < last_seen_unix (snd p) then Some r else Some p)"

lemma oldest_in: "oldest q = Some p \<Longrightarrow> p \<in> set q"
  by (induction q arbitrary: p) (auto split: option.splits if_splits)

lemma bt_remove_shorter: "p \<in> set m \<Longrightarrow> length (bt_remove (fst p) m) < length m"
  by (auto simp: bt_remove_def intro: length_filter_less)

function drop_oldest :: "quarantine \<Rightarrow> quarantine" where
  "drop_oldest q =
     (if length q > MAX_ENTRIES
      then (case oldest q of None \<Rightarrow> q | Some p \<Rightarrow> drop_oldest (bt_remove (fst p) q))
      else q)"
  by pat_completeness auto
termination
  by (relation "measure length") (auto dest: oldest_in bt_remove_shorter)

declare drop_oldest.simps [simp del]

definition prune :: "nat \<Rightarrow> quarantine \<Rightarrow> quarantine" where
  "prune now q = drop_oldest (filter (\<lambda>p. now - last_seen_unix (snd p) \<le> TTL_SECONDS) q)"

text \<open>\<open>max_by_key\<close> returns the last of the greatest.\<close>

fun most_refused :: "quarantine \<Rightarrow> entry option" where
  "most_refused [] = None"
| "most_refused (p # q) =
     (case most_refused q of
        None \<Rightarrow> Some (snd p)
      | Some en \<Rightarrow> if refusals (snd p) > refusals en then Some (snd p) else Some en)"

definition held :: "quarantine \<Rightarrow> (nat \<times> nat \<times> nat) option" where
  "held q = map_option (\<lambda>en. (length q, refusals en, last_seen_unix en)) (most_refused q)"

end
