(* ===== verification/Json.thy ===== *)
theory Json
  imports Gov_Prelude
begin

text \<open>
  The JSON document type the sources work on, \<open>serde_json::Value\<close>, with the accessors they call.
  The workspace builds \<open>serde_json\<close> with \<open>preserve_order\<close>, so an object is its list of entries in
  insertion order. Parsing and printing are not modelled: wherever the sources call
  \<open>serde_json::from_str\<close>, \<open>from_slice\<close>, \<open>to_string\<close> or \<open>to_vec\<close>, the definitions take the parser or
  the printer as a parameter.
\<close>

section \<open>Documents\<close>

text \<open>A number is an unsigned or a negative integer, or a floating-point literal, which no modelled
  operation inspects.\<close>

datatype json_number = PosInt nat | NegInt int | Float string

datatype json =
    JNull
  | JBool bool
  | JNumber json_number
  | JString string
  | JArray "json list"
  | JObject "(string \<times> json) list"

text \<open>\<open>Value::get\<close> with a string key, and the typed accessors.\<close>

definition json_get :: "string \<Rightarrow> json \<Rightarrow> json option" where
  "json_get k v = (case v of JObject es \<Rightarrow> map_of es k | _ \<Rightarrow> None)"

definition as_array :: "json \<Rightarrow> json list option" where
  "as_array v = (case v of JArray xs \<Rightarrow> Some xs | _ \<Rightarrow> None)"

definition as_str_val :: "json \<Rightarrow> string option" where
  "as_str_val v = (case v of JString s \<Rightarrow> Some s | _ \<Rightarrow> None)"

definition as_bool :: "json \<Rightarrow> bool option" where
  "as_bool v = (case v of JBool b \<Rightarrow> Some b | _ \<Rightarrow> None)"

definition as_u64 :: "json \<Rightarrow> nat option" where
  "as_u64 v = (case v of JNumber (PosInt n) \<Rightarrow> Some n | _ \<Rightarrow> None)"

definition is_string :: "json \<Rightarrow> bool" where
  "is_string v = (case v of JString _ \<Rightarrow> True | _ \<Rightarrow> False)"

text \<open>A write through \<open>get_mut(k)\<close>: the entry keeps its position. It is only used where the entry
  exists.\<close>

definition json_put :: "string \<Rightarrow> json \<Rightarrow> json \<Rightarrow> json" where
  "json_put k c v = (case v of JObject es \<Rightarrow> JObject (AList.update k c es) | _ \<Rightarrow> v)"

text \<open>Parsing and printing are the record of functions the definitions take.\<close>

record json_codec =
  from_str :: "string \<Rightarrow> string + json"
  to_str :: "json \<Rightarrow> string option"

definition render :: "json_codec \<Rightarrow> json \<Rightarrow> string" where
  "render cd v = (case to_str cd v of None \<Rightarrow> [] | Some s \<Rightarrow> s)"

section \<open>Laws\<close>

lemma json_get_simps [simp]:
  "json_get k (JObject es) = map_of es k"
  "json_get k JNull = None" "json_get k (JBool b) = None" "json_get k (JNumber n) = None"
  "json_get k (JString s) = None" "json_get k (JArray xs) = None"
  by (simp_all add: json_get_def)

lemma accessor_simps [simp]:
  "as_array (JArray xs) = Some xs" "as_str_val (JString s) = Some s"
  "as_u64 (JNumber (PosInt n)) = Some n" "as_bool (JBool b) = Some b"
  "is_string (JString s)"
  by (simp_all add: as_array_def as_str_val_def as_u64_def as_bool_def is_string_def)

lemma as_array_Some: "as_array v = Some xs \<longleftrightarrow> v = JArray xs"
  by (auto simp: as_array_def split: json.splits)

lemma as_str_val_Some: "as_str_val v = Some s \<longleftrightarrow> v = JString s"
  by (auto simp: as_str_val_def split: json.splits)

lemma is_string_iff: "is_string v \<longleftrightarrow> (\<exists>s. v = JString s)"
  by (auto simp: is_string_def split: json.splits)

lemma json_get_put_same:
  "json_get k v = Some c \<Longrightarrow> json_get k (json_put k c' v) = Some c'"
  by (cases v) (auto simp: json_put_def update_conv')

lemma json_get_put_other:
  "k \<noteq> j \<Longrightarrow> json_get j (json_put k c v) = json_get j v"
  by (cases v) (auto simp: json_put_def update_conv')

lemma alist_update_same: "map_of es k = Some c \<Longrightarrow> AList.update k c es = es"
  by (induction es) (auto split: if_splits)

lemma json_put_same: "json_get k v = Some c \<Longrightarrow> json_put k c v = v"
  by (cases v) (auto simp: json_put_def alist_update_same)

lemma json_put_twice: "json_put k c (json_put k d v) = json_put k c v"
  by (cases v) (auto simp: json_put_def update_last)

lemma json_put_swap:
  assumes "k \<noteq> j" and "json_get k v \<noteq> None" and "json_get j v \<noteq> None"
  shows "json_put k c (json_put j d v) = json_put j d (json_put k c v)"
proof (cases v)
  case (JObject es)
  have "map_of es k \<noteq> None \<Longrightarrow> map_of es j \<noteq> None \<Longrightarrow>
      AList.update k c (AList.update j d es) = AList.update j d (AList.update k c es)" for es
    using assms(1) by (induction es) auto
  with assms JObject show ?thesis by (simp add: json_put_def)
qed (simp_all add: json_put_def)

end
