(* ===== verification/Daemon_Receive.thy ===== *)
theory Daemon_Receive
  imports Json "HOL-Library.Word"
begin

text \<open>
  The admission side of the telemetry daemon of \<open>app/governance-auth\<close>: signals and wire formats
  (\<open>otel_daemon/signal.rs\<close>, \<open>receive/mod.rs\<close>), classification (\<open>classify.rs\<close>, \<open>protobuf.rs\<close>), the two
  enrichments applied before a payload is retained (\<open>source_stamp.rs\<close>, \<open>source_stamp/metrics.rs\<close>,
  \<open>codex_cost.rs\<close>), and the identity stamp applied before it is forwarded (\<open>normalize/mod.rs\<close>,
  \<open>otel/settings.rs\<close>).

  The OTLP message types and their decoders belong to the \<open>opentelemetry-proto\<close> crate. The records
  below have the fields the sources read or write, and one opaque field for the rest; the decoders
  and encoders are the record \<open>otlp_lib\<close>.
\<close>

section \<open>Signals and formats\<close>

datatype signal = Logs | Metrics | Traces

definition signal_path :: "signal \<Rightarrow> string" where
  "signal_path s = (case s of Logs \<Rightarrow> ''/v1/logs'' | Metrics \<Rightarrow> ''/v1/metrics'' | Traces \<Rightarrow> ''/v1/traces'')"

definition json_key :: "signal \<Rightarrow> string" where
  "json_key s =
     (case s of Logs \<Rightarrow> ''resourceLogs'' | Metrics \<Rightarrow> ''resourceMetrics'' | Traces \<Rightarrow> ''resourceSpans'')"

definition ends_with :: "string \<Rightarrow> string \<Rightarrow> bool" where
  "ends_with suf s \<longleftrightarrow> length suf \<le> length s \<and> drop (length s - length suf) s = suf"

definition from_path :: "string \<Rightarrow> signal option" where
  "from_path path = find (\<lambda>s. ends_with (signal_path s) path) [Logs, Metrics, Traces]"

definition signal_name :: "signal \<Rightarrow> string" where
  "signal_name s = (case s of Logs \<Rightarrow> ''logs'' | Metrics \<Rightarrow> ''metrics'' | Traces \<Rightarrow> ''traces'')"

datatype wire_format = Fmt_Json | Fmt_Protobuf

definition format_content_type :: "wire_format \<Rightarrow> string" where
  "format_content_type f =
     (case f of Fmt_Json \<Rightarrow> ''application/json'' | Fmt_Protobuf \<Rightarrow> ''application/x-protobuf'')"

section \<open>OTLP messages\<close>

datatype any_value = AV_String string | AV_Int int | AV_Other string

record key_value =
  kv_key :: string
  kv_value :: "any_value option option"
  kv_rest :: string

record resource =
  res_attributes :: "key_value list"
  res_rest :: string

record log_record =
  lr_time_unix_nano :: nat
  lr_observed_time_unix_nano :: nat
  lr_body :: "string option"
  lr_attributes :: "key_value list"
  lr_rest :: string

record scope_logs =
  log_records :: "log_record list"
  sl_rest :: string

record resource_logs =
  rl_resource :: "resource option"
  scope_logs_of :: "scope_logs list"
  rl_rest :: string

type_synonym logs_request = "resource_logs list"

record metric =
  metric_name :: string
  metric_data :: "string option"
  metric_rest :: string

record scope_metrics =
  metrics_of :: "metric list"
  sm_rest :: string

record resource_metrics =
  rm_resource :: "resource option"
  scope_metrics_of :: "scope_metrics list"
  rm_rest :: string

type_synonym metrics_request = "resource_metrics list"

record otlp_span =
  span_name :: string
  trace_id :: string

type_synonym traces_request = "otlp_span list list list"

record otlp_lib =
  json_doc :: json_codec
  logs_from_json :: "string \<Rightarrow> logs_request option"
  logs_decode :: "string \<Rightarrow> logs_request option"
  logs_to_json :: "logs_request \<Rightarrow> string option"
  logs_encode :: "logs_request \<Rightarrow> string"
  metrics_from_json :: "string \<Rightarrow> metrics_request option"
  metrics_decode :: "string \<Rightarrow> metrics_request option"
  metrics_to_json :: "metrics_request \<Rightarrow> string option"
  metrics_encode :: "metrics_request \<Rightarrow> string"
  traces_decode :: "string \<Rightarrow> traces_request option"

section \<open>Classification\<close>

definition protobuf_signal :: "otlp_lib \<Rightarrow> string \<Rightarrow> signal option" where
  "protobuf_signal lib body =
     (let logs = (case logs_decode lib body of
                    None \<Rightarrow> False
                  | Some request \<Rightarrow>
                      list_ex (\<lambda>r. lr_time_unix_nano r \<noteq> 0 \<or> lr_observed_time_unix_nano r \<noteq> 0 \<or> lr_body r \<noteq> None)
                        (concat (map log_records (concat (map scope_logs_of request)))));
          metrics = (case metrics_decode lib body of
                       None \<Rightarrow> False
                     | Some request \<Rightarrow>
                         list_ex (\<lambda>m. metric_name m \<noteq> [] \<and> metric_data m \<noteq> None)
                           (concat (map metrics_of (concat (map scope_metrics_of request)))));
          traces = (case traces_decode lib body of
                      None \<Rightarrow> False
                    | Some request \<Rightarrow>
                        list_ex (\<lambda>s. span_name s \<noteq> [] \<and> trace_id s \<noteq> []) (concat (concat request)))
      in if logs \<and> \<not> metrics \<and> \<not> traces then Some Logs
         else if \<not> logs \<and> metrics \<and> \<not> traces then Some Metrics
         else if \<not> logs \<and> \<not> metrics \<and> traces then Some Traces
         else None)"

definition classify_signal :: "otlp_lib \<Rightarrow> string \<Rightarrow> wire_format \<Rightarrow> string \<Rightarrow> signal option" where
  "classify_signal lib body fmt path =
     (let declared = from_path path
      in case fmt of
           Fmt_Json \<Rightarrow>
             (case from_str (json_doc lib) body of
                Inl _ \<Rightarrow> None
              | Inr value \<Rightarrow>
                  (case filter (\<lambda>s. json_get (json_key s) value \<noteq> None) [Logs, Metrics, Traces] of
                     [] \<Rightarrow> None
                   | found # others \<Rightarrow>
                       (if others \<noteq> [] \<or> (case declared of None \<Rightarrow> False | Some s \<Rightarrow> s \<noteq> found) then None
                        else Some found)))
         | Fmt_Protobuf \<Rightarrow>
             (let inferred = protobuf_signal lib body
              in case (declared, inferred) of
                   (Some a, Some b) \<Rightarrow> if a \<noteq> b then None else Some a
                 | (Some a, None) \<Rightarrow> Some a
                 | (None, i) \<Rightarrow> i))"

section \<open>Admission checks\<close>

type_synonym headers = "(string \<times> string) list"

text \<open>\<open>HeaderValue::to_str\<close>: visible ASCII and tabs only.\<close>

definition header_to_str :: "string \<Rightarrow> string option" where
  "header_to_str v =
     (if list_all (\<lambda>c. (32 \<le> (of_char c :: nat) \<and> (of_char c :: nat) < 127) \<or> (of_char c :: nat) = 9) v
      then Some v else None)"

definition TRUSTED_HOSTS :: "string list" where
  "TRUSTED_HOSTS = [''127.0.0.1:17457'', ''localhost:17457'']"

definition host_is_trusted :: "headers \<Rightarrow> bool" where
  "host_is_trusted hs =
     (case Option.bind (map_of hs ''host'') header_to_str of
        None \<Rightarrow> False
      | Some host \<Rightarrow> to_ascii_lowercase (str_trim host) \<in> set TRUSTED_HOSTS)"

definition content_type_is_otlp :: "headers \<Rightarrow> wire_format option" where
  "content_type_is_otlp hs =
     (case Option.bind (map_of hs ''content-type'') header_to_str of
        None \<Rightarrow> None
      | Some content_type \<Rightarrow>
          (let essence = to_ascii_lowercase (str_trim (takeWhile (\<lambda>c. c \<noteq> CHR '';'') content_type))
           in if essence = ''application/json'' then Some Fmt_Json
              else if essence = ''application/x-protobuf'' then Some Fmt_Protobuf
              else None))"

record incoming =
  in_method :: string
  in_path :: string
  in_body :: string
  in_format :: wire_format

datatype receive_error = UntrustedHost | UnsupportedContentType | Body_error

text \<open>A request; its body is \<open>None\<close> when the transport fails to deliver it.\<close>

record http_request =
  hr_method :: string
  hr_path :: string
  hr_headers :: headers
  hr_body :: "string option"

definition receive_build :: "nat \<Rightarrow> http_request \<Rightarrow> receive_error + incoming" where
  "receive_build max_body req =
     (if \<not> host_is_trusted (hr_headers req) then Inl UntrustedHost
      else case content_type_is_otlp (hr_headers req) of
             None \<Rightarrow> Inl UnsupportedContentType
           | Some fmt \<Rightarrow>
               (case hr_body req of
                  None \<Rightarrow> Inl Body_error
                | Some bytes \<Rightarrow>
                    (if length bytes > max_body then Inl Body_error
                     else Inr \<lparr>in_method = hr_method req, in_path = hr_path req, in_body = bytes,
                               in_format = fmt\<rparr>)))"

section \<open>The source stamp\<close>

definition SOURCE_ATTRIBUTE :: string where
  "SOURCE_ATTRIBUTE = ''governance.source''"

definition CLAUDE_CODE_EVENTS :: "string list" where
  "CLAUDE_CODE_EVENTS =
     [''user_prompt'', ''assistant_response'', ''api_request'', ''api_error'', ''api_refusal'',
      ''tool_decision'', ''tool_result'', ''auth'', ''mcp_server_connection'']"

text \<open>The single value of an attribute: none when it is missing, empty or repeated.\<close>

definition unique_value :: "log_record \<Rightarrow> string \<Rightarrow> any_value option" where
  "unique_value r key =
     (case filter (\<lambda>a. kv_key a = key) (lr_attributes r) of
        [a] \<Rightarrow> (case kv_value a of Some (Some v) \<Rightarrow> Some v | _ \<Rightarrow> None)
      | _ \<Rightarrow> None)"

definition event_source :: "log_record \<Rightarrow> string option" where
  "event_source r =
     (case unique_value r ''event.name'' of
        Some (AV_String name) \<Rightarrow>
          (if starts_with ''codex.'' name then Some ''codex''
           else if name \<in> set CLAUDE_CODE_EVENTS \<or> starts_with ''plugin_'' name then Some ''claude-code''
           else None)
      | _ \<Rightarrow> None)"

text \<open>\<open>find_map\<close>.\<close>

fun find_map :: "('a \<Rightarrow> 'b option) \<Rightarrow> 'a list \<Rightarrow> 'b option" where
  "find_map f [] = None"
| "find_map f (x # xs) = (case f x of Some y \<Rightarrow> Some y | None \<Rightarrow> find_map f xs)"

definition set_source :: "string \<Rightarrow> resource option \<Rightarrow> resource" where
  "set_source source res =
     (let r = (case res of None \<Rightarrow> \<lparr>res_attributes = [], res_rest = []\<rparr> | Some r \<Rightarrow> r)
      in r\<lparr>res_attributes := filter (\<lambda>a. kv_key a \<noteq> SOURCE_ATTRIBUTE) (res_attributes r) @
             [\<lparr>kv_key = SOURCE_ATTRIBUTE, kv_value = Some (Some (AV_String source)), kv_rest = []\<rparr>]\<rparr>)"

definition stamp_logs :: "resource_logs \<Rightarrow> bool \<times> resource_logs" where
  "stamp_logs rl =
     (case find_map event_source (concat (map log_records (scope_logs_of rl))) of
        None \<Rightarrow> (False, rl)
      | Some source \<Rightarrow> (True, rl\<lparr>rl_resource := Some (set_source source (rl_resource rl))\<rparr>))"

definition parse_logs :: "otlp_lib \<Rightarrow> wire_format \<Rightarrow> string \<Rightarrow> logs_request option" where
  "parse_logs lib fmt body =
     (case fmt of Fmt_Json \<Rightarrow> logs_from_json lib body | Fmt_Protobuf \<Rightarrow> logs_decode lib body)"

definition print_logs :: "otlp_lib \<Rightarrow> wire_format \<Rightarrow> string \<Rightarrow> logs_request \<Rightarrow> string" where
  "print_logs lib fmt body request =
     (case fmt of
        Fmt_Json \<Rightarrow> (case logs_to_json lib request of Some s \<Rightarrow> s | None \<Rightarrow> body)
      | Fmt_Protobuf \<Rightarrow> logs_encode lib request)"

definition source_enrich :: "otlp_lib \<Rightarrow> string \<Rightarrow> wire_format \<Rightarrow> string" where
  "source_enrich lib body fmt =
     (case parse_logs lib fmt body of
        None \<Rightarrow> body
      | Some request \<Rightarrow>
          (let stamped = map stamp_logs request
           in if \<not> list_ex fst stamped then body else print_logs lib fmt body (map snd stamped)))"

definition metric_source :: "metric \<Rightarrow> string option" where
  "metric_source m = (if starts_with ''copilot_chat.'' (metric_name m) then Some ''github-copilot'' else None)"

definition stamp_metrics :: "resource_metrics \<Rightarrow> bool \<times> resource_metrics" where
  "stamp_metrics rm =
     (case find_map metric_source (concat (map metrics_of (scope_metrics_of rm))) of
        None \<Rightarrow> (False, rm)
      | Some source \<Rightarrow> (True, rm\<lparr>rm_resource := Some (set_source source (rm_resource rm))\<rparr>))"

definition enrich_metrics :: "otlp_lib \<Rightarrow> string \<Rightarrow> wire_format \<Rightarrow> string" where
  "enrich_metrics lib body fmt =
     (case (case fmt of Fmt_Json \<Rightarrow> metrics_from_json lib body | Fmt_Protobuf \<Rightarrow> metrics_decode lib body) of
        None \<Rightarrow> body
      | Some request \<Rightarrow>
          (let stamped = map stamp_metrics request
           in if \<not> list_ex fst stamped then body
              else case fmt of
                     Fmt_Json \<Rightarrow> (case metrics_to_json lib (map snd stamped) of Some s \<Rightarrow> s | None \<Rightarrow> body)
                   | Fmt_Protobuf \<Rightarrow> metrics_encode lib (map snd stamped)))"

section \<open>The cost estimate\<close>

definition PREFIX :: string where
  "PREFIX = ''governance.estimate.''"

definition RATE_CARD :: string where
  "RATE_CARD = ''openai-standard-us-2026-09-12''"

definition record_string :: "log_record \<Rightarrow> string \<Rightarrow> string option" where
  "record_string r key = (case unique_value r key of Some (AV_String v) \<Rightarrow> Some v | _ \<Rightarrow> None)"

text \<open>\<open>str::parse::<u64>\<close>: an optional plus sign and at least one decimal digit, in range.\<close>

definition digit_value :: "char \<Rightarrow> nat option" where
  "digit_value c =
     (let n = (of_char c :: nat) in if 48 \<le> n \<and> n \<le> 57 then Some (n - 48) else None)"

fun parse_digits :: "nat \<Rightarrow> string \<Rightarrow> nat option" where
  "parse_digits acc [] = Some acc"
| "parse_digits acc (c # s) =
     (case digit_value c of
        None \<Rightarrow> None
      | Some d \<Rightarrow> (if acc * 10 + d < 2 ^ 64 then parse_digits (acc * 10 + d) s else None))"

definition parse_u64 :: "string \<Rightarrow> 64 word option" where
  "parse_u64 s =
     (let ds = (case s of c # t \<Rightarrow> if c = CHR ''+'' then t else s | [] \<Rightarrow> s)
      in if ds = [] then None else map_option of_nat (parse_digits 0 ds))"

definition record_integer :: "log_record \<Rightarrow> string \<Rightarrow> 64 word option" where
  "record_integer r key =
     (case unique_value r key of
        Some (AV_Int v) \<Rightarrow> (if v < 0 then None else Some (of_int v))
      | Some (AV_String v) \<Rightarrow> parse_u64 v
      | _ \<Rightarrow> None)"

text \<open>The arithmetic is on 128-bit words, the result must fit a signed 64-bit integer.\<close>

definition price :: "64 word \<Rightarrow> 64 word \<Rightarrow> 64 word \<Rightarrow> 64 word \<Rightarrow> int option" where
  "price input cached writes output =
     (if writes \<noteq> 0 then None
      else if input < cached then None
      else let uncached = input - cached;
               (input_rate, cache_rate, output_rate) =
                 (if input > 272000 then (20 :: 128 word, 2 :: 128 word, 75 :: 128 word) else (10, 1, 50));
               total = ucast uncached * input_rate + ucast cached * cache_rate + ucast output * output_rate
           in if uint total < 2 ^ 63 then Some (uint total) else None)"

definition estimate :: "log_record \<Rightarrow> int option" where
  "estimate r =
     (if record_string r ''model'' \<noteq> Some ''gpt-6-astra'' then None
      else case (record_integer r ''input_token_count'', record_integer r ''cached_token_count'',
                 record_integer r ''cache_write_token_count'', record_integer r ''output_token_count'') of
             (Some input, Some cached, Some writes, Some output) \<Rightarrow> price input cached writes output
           | _ \<Rightarrow> None)"

definition attr :: "string \<Rightarrow> any_value \<Rightarrow> log_record \<Rightarrow> log_record" where
  "attr suffix v r =
     r\<lparr>lr_attributes := lr_attributes r @
         [\<lparr>kv_key = PREFIX @ suffix, kv_value = Some (Some v), kv_rest = []\<rparr>]\<rparr>"

definition cost_record :: "log_record \<Rightarrow> bool \<times> log_record" where
  "cost_record r =
     (if record_string r ''event.name'' \<noteq> Some ''codex.sse_event'' \<or>
         record_string r ''event.kind'' \<noteq> Some ''response.completed'' then (False, r)
      else let r1 = r\<lparr>lr_attributes := filter (\<lambda>a. \<not> starts_with PREFIX (kv_key a)) (lr_attributes r)\<rparr>;
               est = estimate r1;
               r2 = attr ''status'' (AV_String (if est \<noteq> None then ''priced'' else ''unpriced'')) r1;
               r3 = attr ''rate_card'' (AV_String RATE_CARD) r2
           in (True, case est of None \<Rightarrow> r3 | Some cost \<Rightarrow> attr ''micro_usd'' (AV_Int cost) r3))"

definition cost_scope :: "scope_logs \<Rightarrow> bool \<times> scope_logs" where
  "cost_scope s =
     (let rs = map cost_record (log_records s)
      in (list_ex fst rs, s\<lparr>log_records := map snd rs\<rparr>))"

definition cost_resource :: "resource_logs \<Rightarrow> bool \<times> resource_logs" where
  "cost_resource r =
     (let ss = map cost_scope (scope_logs_of r)
      in (list_ex fst ss, r\<lparr>scope_logs_of := map snd ss\<rparr>))"

definition cost_enrich :: "otlp_lib \<Rightarrow> string \<Rightarrow> wire_format \<Rightarrow> string" where
  "cost_enrich lib body fmt =
     (case parse_logs lib fmt body of
        None \<Rightarrow> body
      | Some request \<Rightarrow>
          (let rs = map cost_resource request
           in if \<not> list_ex fst rs then body else print_logs lib fmt body (map snd rs)))"

text \<open>The payload that is retained for an admitted request.\<close>

definition admitted_body :: "otlp_lib \<Rightarrow> signal \<Rightarrow> incoming \<Rightarrow> string" where
  "admitted_body lib s inc =
     (case s of
        Logs \<Rightarrow> cost_enrich lib (source_enrich lib (in_body inc) (in_format inc)) (in_format inc)
      | Metrics \<Rightarrow> enrich_metrics lib (in_body inc) (in_format inc)
      | Traces \<Rightarrow> in_body inc)"

section \<open>The price does not overflow\<close>

text \<open>A product with a rate of the card, and the sum of three of them, are exact on 128 bits.\<close>

lemma weighed:
  fixes a :: "64 word"
  assumes "r \<le> 75" and that: "0 \<le> r"
  shows "uint (ucast a * (word_of_int r :: 128 word)) = uint a * r" "uint a * r \<le> 2 ^ 64 * 75"
proof -
  have "uint a \<le> 2 ^ 64" using uint_lt2p [of a] by simp
  then show le: "uint a * r \<le> 2 ^ 64 * 75" using assms that by (intro mult_mono) simp_all
  have u: "uint (ucast a :: 128 word) = uint a" by (simp add: uint_up_ucast is_up)
  have r: "uint (word_of_int r :: 128 word) = r" using assms that by (simp add: uint_word_of_int_eq take_bit_int_eq_self)
  have "uint (ucast a :: 128 word) * uint (word_of_int r :: 128 word) < 2 ^ LENGTH(128)" using le u r by simp
  then show "uint (ucast a * (word_of_int r :: 128 word)) = uint a * r"
    using uint_mult_lem [of "ucast a :: 128 word" "word_of_int r"] u r by simp
qed

lemma price_total:
  fixes a b c :: "64 word"
  assumes "0 \<le> r1" "r1 \<le> 75" "0 \<le> r2" "r2 \<le> 75" "0 \<le> r3" "r3 \<le> 75"
  shows "uint (ucast a * (word_of_int r1 :: 128 word) + ucast b * word_of_int r2 + ucast c * word_of_int r3) =
    uint a * r1 + uint b * r2 + uint c * r3"
proof -
  note w = weighed [OF assms(2,1), of a] weighed [OF assms(4,3), of b] weighed [OF assms(6,5), of c]
  have ab: "uint (ucast a * (word_of_int r1 :: 128 word) + ucast b * word_of_int r2) = uint a * r1 + uint b * r2"
    using w uint_add_lem [of "ucast a * (word_of_int r1 :: 128 word)" "ucast b * word_of_int r2"] by simp
  show ?thesis
    using w ab uint_add_lem [of "ucast a * (word_of_int r1 :: 128 word) + ucast b * word_of_int r2" "ucast c * word_of_int r3"]
    by simp
qed

end
