(* ===== verification/Daemon_Spool.thy ===== *)
theory Daemon_Spool
  imports Daemon_Tail Daemon_Receive "HOL-Library.Monad_Syntax"
begin

text \<open>
  The durable spool of the telemetry daemon (\<open>otel_daemon/spool/*.rs\<close>, \<open>checkpoint.rs\<close>): payloads are
  appended to a file as one line each, a checkpoint records how far the file has been delivered, and
  the delivered prefix is reclaimed by truncation or by compaction.

  The state has a durable part (the file and the stored checkpoint) and a volatile part (the
  checkpoint in memory and the identity of the file as last read); \<open>DurableSpool_open\<close> rebuilds the
  volatile part from the durable one, which is what a restart after a crash does. The digest, base64
  and the generated (de)serialisation of an envelope are the record \<open>spool_lib\<close>. A failing call leaves
  what the calls before it did.
\<close>

section \<open>Envelopes\<close>

record envelope =
  env_signal :: signal
  env_body :: string
  env_format :: "wire_format option"

record spool_lib =
  sha_hex :: "string \<Rightarrow> string"
  b64_encode :: "string \<Rightarrow> string"
  b64_decode :: "string \<Rightarrow> string option"
  envelope_to_string :: "envelope \<Rightarrow> string option"
  envelope_from_str :: "string \<Rightarrow> envelope option"
  otlp :: otlp_lib

definition envelope_encode :: "spool_lib \<Rightarrow> signal \<Rightarrow> string \<Rightarrow> wire_format \<Rightarrow> string option" where
  "envelope_encode lib sig payload fmt =
     envelope_to_string lib \<lparr>env_signal = sig, env_body = b64_encode lib payload, env_format = Some fmt\<rparr>"

definition envelope_decode :: "spool_lib \<Rightarrow> string \<Rightarrow> (signal \<times> string \<times> wire_format) option" where
  "envelope_decode lib t =
     (case envelope_from_str lib t of
        None \<Rightarrow> None
      | Some env \<Rightarrow>
          (case b64_decode lib (env_body env) of
             None \<Rightarrow> None
           | Some body \<Rightarrow>
               (let fmt = (case env_format env of
                             Some f \<Rightarrow> f
                           | None \<Rightarrow>
                               (case from_str (json_doc (otlp lib)) body of
                                  Inr _ \<Rightarrow> Fmt_Json | Inl _ \<Rightarrow> Fmt_Protobuf));
                    sig = (if env_signal env = Logs
                           then (case classify_signal (otlp lib) body fmt ''/'' of
                                   Some s \<Rightarrow> s | None \<Rightarrow> env_signal env)
                           else env_signal env)
                in Some (sig, body, fmt))))"

section \<open>The checkpoint\<close>

record checkpoint =
  ck_offset :: nat
  ck_spool :: "identity option"
  discarded_total :: nat
  last_discard_unix :: "nat option"
  ck_quarantine :: quarantine

definition Checkpoint_default :: checkpoint where
  "Checkpoint_default =
     \<lparr>ck_offset = 0, ck_spool = None, discarded_total = 0, last_discard_unix = None, ck_quarantine = []\<rparr>"

definition Checkpoint_restart :: "checkpoint \<Rightarrow> checkpoint" where
  "Checkpoint_restart c = c\<lparr>ck_offset := 0\<rparr>"

text \<open>The clock is \<open>None\<close> when it cannot be read.\<close>

definition record_discard :: "nat option \<Rightarrow> nat \<Rightarrow> checkpoint \<Rightarrow> checkpoint \<times> (spool_error + unit)" where
  "record_discard clock n c =
     (if n = 0 then (c, Inr ())
      else let c1 = c\<lparr>discarded_total := min (discarded_total c + n) (2 ^ 64 - 1)\<rparr>
           in case clock of
                None \<Rightarrow> (c1, Inl Clock_failed)
              | Some now \<Rightarrow> (c1\<lparr>last_discard_unix := Some now\<rparr>, Inr ()))"

section \<open>The spool\<close>

definition CAPACITY :: nat where
  "CAPACITY = 16777216"

definition ENVELOPE_OVERHEAD :: nat where
  "ENVELOPE_OVERHEAD = 64"

definition MAX_RETAINABLE_PAYLOAD :: nat where
  "MAX_RETAINABLE_PAYLOAD = (MAX_READ - ENVELOPE_OVERHEAD) div 4 * 3"

definition RECLAIM_ABOVE :: nat where
  "RECLAIM_ABOVE = 1048576"

definition MIN_SEPARATION_SECONDS :: nat where
  "MIN_SEPARATION_SECONDS = 60"

record pending =
  p_signal :: signal
  p_payload :: string
  p_format :: wire_format
  p_key :: string
  p_boundary :: nat

record dspool =
  sp_file :: "disk_file option"
  sp_inode :: nat
  sp_stored :: "checkpoint option"
  sp_ckpt :: checkpoint
  sp_pending_identity :: "identity option"

definition checkpoint_load :: "checkpoint option \<Rightarrow> checkpoint" where
  "checkpoint_load stored = (case stored of None \<Rightarrow> Checkpoint_default | Some c \<Rightarrow> c)"

text \<open>The new checkpoint is in place once it is renamed, also when the sync of the directory then fails.\<close>

definition checkpoint_store :: "io \<Rightarrow> dspool \<Rightarrow> dspool \<times> (spool_error + unit)" where
  "checkpoint_store io s =
     (if \<not> io IO_store then (s, Inl (Io_failed IO_store))
      else let s1 = s\<lparr>sp_stored := Some (sp_ckpt s)\<rparr>
           in if \<not> io IO_store_sync then (s1, Inl (Io_failed IO_store_sync)) else (s1, Inr ()))"

definition DurableSpool_open :: "dspool \<Rightarrow> dspool" where
  "DurableSpool_open s = s\<lparr>sp_ckpt := checkpoint_load (sp_stored s), sp_pending_identity := None\<rparr>"

definition file_size :: "disk_file option \<Rightarrow> nat" where
  "file_size f = (case f of None \<Rightarrow> 0 | Some (ino, b) \<Rightarrow> length b)"

definition append_line :: "io \<Rightarrow> string \<Rightarrow> dspool \<Rightarrow> dspool \<times> (spool_error + unit)" where
  "append_line io l s =
     (if \<not> io IO_append then (s, Inl (Io_failed IO_append))
      else let s1 = (case sp_file s of
                       None \<Rightarrow> s\<lparr>sp_file := Some (sp_inode s, l @ [newline]), sp_inode := Suc (sp_inode s)\<rparr>
                     | Some (ino, b) \<Rightarrow> s\<lparr>sp_file := Some (ino, b @ l @ [newline])\<rparr>)
           in if \<not> io IO_sync then (s1, Inl (Io_failed IO_sync))
              else if \<not> io IO_sync_dir then (s1, Inl (Io_failed IO_sync_dir))
              else (s1, Inr ()))"

definition retain ::
  "spool_lib \<Rightarrow> io \<Rightarrow> signal \<Rightarrow> string \<Rightarrow> wire_format \<Rightarrow> dspool \<Rightarrow> dspool \<times> (spool_error + unit)" where
  "retain lib io sig payload fmt s =
     (case envelope_encode lib sig payload fmt of
        None \<Rightarrow> (s, Inl Encode_failed)
      | Some l \<Rightarrow>
          (if \<not> io IO_stat then (s, Inl (Io_failed IO_stat))
           else let n = file_size (sp_file s) - ck_offset (sp_ckpt s);
                    added = length l + 1
                in if n + added > CAPACITY then (s, Inl (Spool_full n)) else append_line io l s))"

section \<open>Advancing\<close>

definition try_reclaim :: "io \<Rightarrow> dspool \<Rightarrow> dspool \<times> (spool_error + unit)" where
  "try_reclaim io s =
     (if ck_offset (sp_ckpt s) \<le> RECLAIM_ABOVE then (s, Inr ())
      else if \<not> io IO_open then (s, Inl (Io_failed IO_open))
      else case sp_file s of
             None \<Rightarrow> (s, Inr ())
           | Some (ino, b) \<Rightarrow>
               (if \<not> io IO_stat then (s, Inl (Io_failed IO_stat))
                else if length b \<noteq> ck_offset (sp_ckpt s) then (s, Inr ())
                else if \<not> io IO_truncate then (s, Inl (Io_failed IO_truncate))
                else let s1 = s\<lparr>sp_file := Some (ino, [])\<rparr>
                     in if \<not> io IO_sync then (s1, Inl (Io_failed IO_sync))
                        else checkpoint_store (\<lambda>op. io (IO_again op))
                               (s1\<lparr>sp_ckpt := (Checkpoint_restart (sp_ckpt s1))\<lparr>ck_spool := None\<rparr>\<rparr>)))"

definition commit_past ::
  "io \<Rightarrow> nat option \<Rightarrow> nat \<Rightarrow> nat \<Rightarrow> dspool \<Rightarrow> dspool \<times> (spool_error + unit)" where
  "commit_past io clock boundary lost s =
     (let c = (sp_ckpt s)\<lparr>ck_spool := sp_pending_identity s, ck_offset := boundary\<rparr>
      in case record_discard clock lost c of
           (c', Inl e) \<Rightarrow> (s\<lparr>sp_ckpt := c'\<rparr>, Inl e)
         | (c', Inr _) \<Rightarrow>
             (case checkpoint_store io (s\<lparr>sp_ckpt := c'\<rparr>) of
                (s', Inl e) \<Rightarrow> (s', Inl e)
              | (s', Inr _) \<Rightarrow> try_reclaim io s'))"

definition advance :: "io \<Rightarrow> nat option \<Rightarrow> pending \<Rightarrow> dspool \<Rightarrow> dspool \<times> (spool_error + unit)" where
  "advance io clock p s = commit_past io clock (p_boundary p) 0 s"

definition refusal_key :: "pending \<Rightarrow> string" where
  "refusal_key p = signal_name (p_signal p) @ '':'' @ p_key p"

definition record_refusal :: "io \<Rightarrow> pending \<Rightarrow> nat \<Rightarrow> dspool \<Rightarrow> dspool \<times> (spool_error + bool)" where
  "record_refusal io p now s =
     (let (q, eligible) = refused (refusal_key p) now MIN_SEPARATION_SECONDS (ck_quarantine (sp_ckpt s));
          s1 = s\<lparr>sp_ckpt := (sp_ckpt s)\<lparr>ck_quarantine := q\<rparr>\<rparr>
      in case checkpoint_store io s1 of
           (s2, Inl e) \<Rightarrow> (s2, Inl e)
         | (s2, Inr _) \<Rightarrow> (s2, Inr eligible))"

definition discard_confirmed ::
  "io \<Rightarrow> nat option \<Rightarrow> pending \<Rightarrow> nat \<Rightarrow> pending \<Rightarrow> dspool \<Rightarrow> dspool \<times> (spool_error + unit)" where
  "discard_confirmed io clock stuck lost probe s =
     commit_past io clock (p_boundary probe) lost
       (s\<lparr>sp_ckpt := (sp_ckpt s)\<lparr>ck_quarantine := forget (refusal_key stuck) (ck_quarantine (sp_ckpt s))\<rparr>\<rparr>)"

section \<open>Reading\<close>

datatype peeked = Peek_Empty | Peek_Restarted | Peek_Undecodable nat | Peek_Decoded pending

definition peek_at ::
  "spool_lib \<Rightarrow> io \<Rightarrow> nat \<Rightarrow> dspool \<Rightarrow> spool_error + peeked \<times> identity option" where
  "peek_at lib io offset s =
     (case tail_drain io (sha_hex lib) (sp_file s) offset (ck_spool (sp_ckpt s)) of
        Inl e \<Rightarrow> Inl e
      | Inr d \<Rightarrow>
          (if restarted d \<noteq> None then Inr (Peek_Restarted, dr_identity d)
           else case dr_lines d of
                  [] \<Rightarrow> Inr (Peek_Empty, dr_identity d)
                | first # rest \<Rightarrow>
                    (let boundary = (case rest of [] \<Rightarrow> next_offset d | second # _ \<Rightarrow> tl_offset second)
                     in Inr (case envelope_decode lib (tl_text first) of
                               Some (sig, payload, fmt) \<Rightarrow>
                                 Peek_Decoded
                                   \<lparr>p_signal = sig, p_payload = payload, p_format = fmt,
                                    p_key = quarantine_key (sha_hex lib) (tl_text first),
                                    p_boundary = boundary\<rparr>
                             | None \<Rightarrow> Peek_Undecodable boundary,
                             dr_identity d))))"

text \<open>The loop of \<open>next\<close>: one turn returns (\<open>Inl\<close>) or goes round again (\<open>Inr\<close>); the value \<open>None\<close> of the
  loop would be a loop that never ends.\<close>

definition next_turn ::
  "spool_lib \<Rightarrow> io \<Rightarrow> nat option \<Rightarrow> dspool \<Rightarrow> (dspool \<times> (spool_error + pending option)) + dspool" where
  "next_turn lib io clock s =
     (case peek_at lib io (ck_offset (sp_ckpt s)) s of
        Inl e \<Rightarrow> Inl (s, Inl e)
      | Inr (peeked, ident) \<Rightarrow>
          (let s1 = s\<lparr>sp_pending_identity := ident\<rparr>
           in case peeked of
                Peek_Empty \<Rightarrow> Inl (s1, Inr None)
              | Peek_Restarted \<Rightarrow>
                  Inr (s1\<lparr>sp_ckpt := (Checkpoint_restart (sp_ckpt s1))\<lparr>ck_spool := sp_pending_identity s1\<rparr>\<rparr>)
              | Peek_Undecodable boundary \<Rightarrow>
                  (case commit_past io clock boundary 1 s1 of
                     (s2, Inl e) \<Rightarrow> Inl (s2, Inl e)
                   | (s2, Inr _) \<Rightarrow> Inr s2)
              | Peek_Decoded p \<Rightarrow> Inl (s1, Inr (Some p))))"

partial_function (option) next_loop ::
  "spool_lib \<Rightarrow> io \<Rightarrow> nat option \<Rightarrow> dspool \<Rightarrow> (dspool \<times> (spool_error + pending option)) option" where
  "next_loop lib io clock s =
     (case next_turn lib io clock s of Inl r \<Rightarrow> Some r | Inr s' \<Rightarrow> next_loop lib io clock s')"

declare next_loop.simps [code]

definition next_pending ::
  "spool_lib \<Rightarrow> io \<Rightarrow> nat option \<Rightarrow> dspool \<Rightarrow> (dspool \<times> (spool_error + pending option)) option" where
  "next_pending lib io clock s =
     (case clock of
        None \<Rightarrow> Some (s, Inl Clock_failed)
      | Some now \<Rightarrow>
          next_loop lib io clock
            (s\<lparr>sp_ckpt := (sp_ckpt s)\<lparr>ck_quarantine := prune now (ck_quarantine (sp_ckpt s))\<rparr>\<rparr>))"

definition is_caught_up :: "spool_lib \<Rightarrow> io \<Rightarrow> dspool \<Rightarrow> spool_error + bool" where
  "is_caught_up lib io s =
     (case peek_at lib io (ck_offset (sp_ckpt s)) s of
        Inl e \<Rightarrow> Inl e
      | Inr (p, _) \<Rightarrow> Inr (p = Peek_Empty))"

definition peek_next :: "spool_lib \<Rightarrow> io \<Rightarrow> pending \<Rightarrow> dspool \<Rightarrow> spool_error + pending option" where
  "peek_next lib io after s =
     (case peek_at lib io (p_boundary after) s of
        Inl e \<Rightarrow> Inl e
      | Inr (Peek_Decoded p, _) \<Rightarrow> Inr (Some p)
      | Inr _ \<Rightarrow> Inr None)"

section \<open>Compaction\<close>

definition compact_if_stuck :: "io \<Rightarrow> dspool \<Rightarrow> dspool \<times> (spool_error + bool)" where
  "compact_if_stuck io s =
     (if ck_offset (sp_ckpt s) \<le> RECLAIM_ABOVE then (s, Inr False)
      else if \<not> io IO_read then (s, Inl (Io_failed IO_read))
      else case sp_file s of
             None \<Rightarrow> (s, Inr False)
           | Some (ino, b) \<Rightarrow>
               (if ck_offset (sp_ckpt s) > length b then (s, Inr False)
                else if \<not> io IO_tmp_write then (s, Inl (Io_failed IO_tmp_write))
                else if \<not> io IO_rename then (s, Inl (Io_failed IO_rename))
                else let s1 = s\<lparr>sp_file := Some (sp_inode s, drop (ck_offset (sp_ckpt s)) b),
                                sp_inode := Suc (sp_inode s)\<rparr>
                     in if \<not> io IO_sync_dir then (s1, Inl (Io_failed IO_sync_dir))
                        else case checkpoint_store io
                                    (s1\<lparr>sp_ckpt := (sp_ckpt s1)\<lparr>ck_offset := 0, ck_spool := None\<rparr>\<rparr>) of
                               (s2, Inl e) \<Rightarrow> (s2, Inl e)
                             | (s2, Inr _) \<Rightarrow> (s2, Inr True)))"

end
