(* ===== verification/Daemon_Normalize.thy ===== *)
theory Daemon_Normalize
  imports Daemon_Tail Json
begin

text \<open>
  The identity a forwarded payload carries (\<open>otel_daemon/normalize/mod.rs\<close>, and
  \<open>identity_attributes\<close> of \<open>otel/settings.rs\<close>): attributes under the keys the ingest side trusts are
  removed from what the client sent, then the attributes read from the access token and the retry key
  are added. The decoder of unpadded URL-safe base64 is a parameter.
\<close>

section \<open>The identity in a token\<close>

text \<open>\<open>str::split\<close> with a character.\<close>

fun split_char :: "char \<Rightarrow> string \<Rightarrow> string list" where
  "split_char d [] = [[]]"
| "split_char d (c # s) =
     (if c = d then [] # split_char d s
      else case split_char d s of [] \<Rightarrow> [[c]] | l # ls \<Rightarrow> (c # l) # ls)"

type_synonym attributes = "(string \<times> string) list"

definition IDENTITY_CLAIMS :: "(string \<times> string) list" where
  "IDENTITY_CLAIMS = [(''sub'', ''user.id''), (''email'', ''user.email''), (''preferred_username'', ''user.name'')]"

definition add_claim :: "json \<Rightarrow> string \<times> string \<Rightarrow> attributes \<Rightarrow> attributes" where
  "add_claim claims ca as =
     (case Option.bind (json_get (fst ca) claims) as_str_val of
        Some v \<Rightarrow> if v \<noteq> [] then bt_insert (snd ca) v as else as
      | None \<Rightarrow> as)"

definition identity_attributes ::
  "(string \<Rightarrow> string option) \<Rightarrow> json_codec \<Rightarrow> string \<Rightarrow> attributes" where
  "identity_attributes url_safe_decode cd access_token =
     (case split_char CHR ''.'' access_token of
        _ # payload # _ \<Rightarrow>
          (case url_safe_decode payload of
             None \<Rightarrow> []
           | Some decoded \<Rightarrow>
               (case from_str cd decoded of
                  Inl _ \<Rightarrow> []
                | Inr claims \<Rightarrow> fold (add_claim claims) IDENTITY_CLAIMS []))
      | _ \<Rightarrow> [])"

section \<open>Stamping\<close>

definition FORGEABLE_IDENTITY_KEYS :: "string list" where
  "FORGEABLE_IDENTITY_KEYS =
     [''user.id'', ''user.email'', ''user.name'', ''account_id'', ''api_key_id'', ''azp'']"

definition RETRY_KEY_ATTRIBUTE :: string where
  "RETRY_KEY_ATTRIBUTE = ''governance.retry_key''"

definition attribute_key :: "json \<Rightarrow> string option" where
  "attribute_key a = (case a of JObject es \<Rightarrow> Option.bind (map_of es ''key'') as_str_val | _ \<Rightarrow> None)"

definition reserved_key :: "string \<Rightarrow> bool" where
  "reserved_key k \<longleftrightarrow> k \<in> set FORGEABLE_IDENTITY_KEYS \<or> k = RETRY_KEY_ATTRIBUTE"

definition is_reserved :: "json \<Rightarrow> bool" where
  "is_reserved a = (case attribute_key a of Some k \<Rightarrow> reserved_key k | None \<Rightarrow> False)"

definition own_attribute :: "string \<times> string \<Rightarrow> json" where
  "own_attribute kv =
     JObject [(''key'', JString (fst kv)), (''value'', JObject [(''stringValue'', JString (snd kv))])]"

definition stamp_resource :: "attributes \<Rightarrow> json \<Rightarrow> bool \<times> json" where
  "stamp_resource attributes resource =
     (case json_get ''resource'' resource of
        Some (JObject es) \<Rightarrow>
          (let es1 = (if map_of es ''attributes'' = None then es @ [(''attributes'', JArray [])] else es)
           in case map_of es1 ''attributes'' of
                Some (JArray attrs) \<Rightarrow>
                  (let kept = filter (\<lambda>a. \<not> is_reserved a) attrs
                   in (length kept \<noteq> length attrs \<or> attributes \<noteq> [],
                       json_put ''resource''
                         (JObject (AList.update ''attributes'' (JArray (kept @ map own_attribute attributes)) es1))
                         resource))
              | _ \<Rightarrow> (False, resource))
      | _ \<Rightarrow> (False, resource))"

definition stamp_key :: "attributes \<Rightarrow> string \<Rightarrow> bool \<times> json \<Rightarrow> bool \<times> json" where
  "stamp_key attributes key cv =
     (case Option.bind (json_get key (snd cv)) as_array of
        None \<Rightarrow> cv
      | Some resources \<Rightarrow>
          (let rs = map (stamp_resource attributes) resources
           in (fst cv \<or> list_ex fst rs, json_put key (JArray (map snd rs)) (snd cv))))"

definition RESOURCE_KEYS :: "string list" where
  "RESOURCE_KEYS = [''resourceMetrics'', ''resourceLogs'', ''resourceSpans'']"

definition stamp_attributes ::
  "(string \<Rightarrow> string option) \<Rightarrow> json_codec \<Rightarrow> string \<Rightarrow> string option \<Rightarrow> attributes" where
  "stamp_attributes url_safe_decode cd access_token idempotency_key =
     (let attributes = identity_attributes url_safe_decode cd access_token
      in case idempotency_key of
           Some key \<Rightarrow> bt_insert RETRY_KEY_ATTRIBUTE key attributes
         | None \<Rightarrow> attributes)"

text \<open>\<open>None\<close> is a document that cannot be printed.\<close>

definition stamp ::
  "(string \<Rightarrow> string option) \<Rightarrow> json_codec \<Rightarrow> json option \<Rightarrow> string \<Rightarrow> string \<Rightarrow> string option \<Rightarrow> string option" where
  "stamp url_safe_decode cd parsed body access_token idempotency_key =
     (let attributes = stamp_attributes url_safe_decode cd access_token idempotency_key
      in case parsed of
           None \<Rightarrow> Some body
         | Some v \<Rightarrow>
             (let (changed, v') = fold (stamp_key attributes) RESOURCE_KEYS (False, v)
              in if \<not> changed then Some body else to_str cd v'))"

section \<open>What is stamped\<close>

text \<open>The attribute lists of a document: one for each resource that has one.\<close>

definition resource_attributes :: "json \<Rightarrow> json list option" where
  "resource_attributes r =
     (case json_get ''resource'' r of
        Some (JObject es) \<Rightarrow> Option.bind (map_of es ''attributes'') as_array
      | _ \<Rightarrow> None)"

definition resources_at :: "string \<Rightarrow> json \<Rightarrow> json list" where
  "resources_at key v = (case Option.bind (json_get key v) as_array of Some rs \<Rightarrow> rs | None \<Rightarrow> [])"

text \<open>The attributes under a reserved key.\<close>

definition reserved_attributes :: "json list \<Rightarrow> json list" where
  "reserved_attributes attrs = filter is_reserved attrs"

lemma add_claim_keys: "fst ` set (add_claim claims ca as) \<subseteq> insert (snd ca) (fst ` set as)"
  using bt_insert_keys [of "snd ca" _ as] by (auto simp: add_claim_def split: option.split)

lemma add_claims_keys: "fst ` set (fold (add_claim claims) cas as) \<subseteq> snd ` set cas \<union> fst ` set as"
proof (induction cas arbitrary: as)
  case (Cons ca cas)
  from Cons.IH [of "add_claim claims ca as"] add_claim_keys [of claims ca as] show ?case by auto
qed simp

lemma identity_attributes_keys:
  "fst ` set (identity_attributes dec cd token) \<subseteq> {''user.id'', ''user.email'', ''user.name''}"
proof (cases "identity_attributes dec cd token = []")
  case False
  then obtain claims where "identity_attributes dec cd token = fold (add_claim claims) IDENTITY_CLAIMS []"
    by (auto simp: identity_attributes_def split: list.splits option.splits sum.splits)
  then show ?thesis using add_claims_keys [of claims IDENTITY_CLAIMS "[]"] by (simp add: IDENTITY_CLAIMS_def)
qed simp

lemma stamp_attributes_reserved:
  assumes "kv \<in> set (stamp_attributes dec cd token key)"
  shows "reserved_key (fst kv)"
proof -
  have "fst kv \<in> fst ` set (stamp_attributes dec cd token key)" using assms by (rule imageI)
  then have "fst kv \<in> insert RETRY_KEY_ATTRIBUTE (fst ` set (identity_attributes dec cd token))"
    by (cases key) (simp_all add: stamp_attributes_def bt_insert_keys)
  then have "fst kv \<in> {RETRY_KEY_ATTRIBUTE, ''user.id'', ''user.email'', ''user.name''}"
    using identity_attributes_keys [of dec cd token] by blast
  then show ?thesis by (auto simp: reserved_key_def FORGEABLE_IDENTITY_KEYS_def)
qed

lemma own_attribute_reserved [simp]: "is_reserved (own_attribute kv) \<longleftrightarrow> reserved_key (fst kv)"
  by (simp add: is_reserved_def attribute_key_def own_attribute_def)

lemma filter_own: "(\<And>kv. kv \<in> set own \<Longrightarrow> reserved_key (fst kv)) \<Longrightarrow>
    filter is_reserved (map own_attribute own) = map own_attribute own"
  by (simp add: filter_id_conv)

lemma stamp_resource_attributes:
  "stamp_resource own r =
     (case json_get ''resource'' r of
        Some (JObject es) \<Rightarrow>
          (case (case map_of es ''attributes'' of None \<Rightarrow> Some [] | Some a \<Rightarrow> as_array a) of
             Some attrs \<Rightarrow>
               (length (filter (\<lambda>a. \<not> is_reserved a) attrs) \<noteq> length attrs \<or> own \<noteq> [],
                json_put ''resource''
                  (JObject (AList.update ''attributes''
                     (JArray (filter (\<lambda>a. \<not> is_reserved a) attrs @ map own_attribute own))
                     (if map_of es ''attributes'' = None then es @ [(''attributes'', JArray [])] else es))) r)
           | None \<Rightarrow> (False, r))
      | _ \<Rightarrow> (False, r))"
  by (auto simp: stamp_resource_def Let_def as_array_def map_add_def
      split: option.splits json.splits)

lemma stamp_resource_reserved:
  assumes own: "\<And>kv. kv \<in> set own \<Longrightarrow> reserved_key (fst kv)"
    and out: "resource_attributes (snd (stamp_resource own r)) = Some attrs"
  shows "reserved_attributes attrs = map own_attribute own"
proof (cases "json_get ''resource'' r")
  case (Some v)
  show ?thesis
  proof (cases v)
    case (JObject es)
    let ?as = "case map_of es ''attributes'' of None \<Rightarrow> Some [] | Some a \<Rightarrow> as_array a"
    show ?thesis
    proof (cases ?as)
      case None
      with Some JObject out show ?thesis
        by (auto simp: stamp_resource_attributes resource_attributes_def split: option.splits)
    next
      case (Some as)
      with \<open>json_get ''resource'' r = Some v\<close> JObject out
      have "attrs = filter (\<lambda>a. \<not> is_reserved a) as @ map own_attribute own"
        by (auto simp: stamp_resource_attributes resource_attributes_def json_get_put_same [of _ _ v]
            update_conv' split: option.splits if_splits)
      then show ?thesis using filter_own [OF own] by (simp add: reserved_attributes_def)
    qed
  qed (use Some out in \<open>auto simp: stamp_resource_def resource_attributes_def\<close>)
qed (use out in \<open>auto simp: stamp_resource_def resource_attributes_def\<close>)

lemma stamp_key_resources:
  "resources_at k (snd (stamp_key own key cv)) =
     (if k = key then map (snd \<circ> stamp_resource own) (resources_at k (snd cv)) else resources_at k (snd cv))"
proof (cases "Option.bind (json_get key (snd cv)) as_array")
  case None
  then show ?thesis by (auto simp: stamp_key_def resources_at_def)
next
  case (Some rs)
  then obtain w where "json_get key (snd cv) = Some w" by (auto simp: bind_eq_Some_conv)
  with Some show ?thesis
    by (auto simp: stamp_key_def resources_at_def Let_def json_get_put_same json_get_put_other)
qed

lemma stamp_fold_resources:
  "k \<in> set RESOURCE_KEYS \<Longrightarrow>
     resources_at k (snd (fold (stamp_key own) RESOURCE_KEYS cv)) =
       map (snd \<circ> stamp_resource own) (resources_at k (snd cv))"
  by (auto simp: RESOURCE_KEYS_def stamp_key_resources)

lemma stamp_key_changed:
  "fst (stamp_key own key cv) \<longleftrightarrow> fst cv \<or> (\<exists>r \<in> set (resources_at key (snd cv)). fst (stamp_resource own r))"
  by (auto simp: stamp_key_def resources_at_def Let_def list_ex_iff split: option.split)

lemma stamp_fold_changed:
  "fst (fold (stamp_key own) RESOURCE_KEYS cv) \<longleftrightarrow>
     fst cv \<or> (\<exists>k \<in> set RESOURCE_KEYS. \<exists>r \<in> set (resources_at k (snd cv)). fst (stamp_resource own r))"
  by (auto simp: RESOURCE_KEYS_def stamp_key_changed stamp_key_resources)

lemma stamp_resource_unchanged:
  assumes "own \<noteq> []" and "\<not> fst (stamp_resource own r)"
  shows "resource_attributes r = None"
  using assms
  by (auto simp: stamp_resource_attributes resource_attributes_def split: option.splits json.splits)

lemma stamp_attributes_nonempty: "stamp_attributes dec cd token (Some key) \<noteq> []"
proof -
  have "fst ` set (stamp_attributes dec cd token (Some key)) \<noteq> {}"
    by (simp add: stamp_attributes_def bt_insert_keys del: image_is_empty)
  then show ?thesis by auto
qed

lemma stamp_cases:
  assumes "stamp dec cd (Some v) body token (Some key) = Some out"
  defines "own \<equiv> stamp_attributes dec cd token (Some key)"
  shows "(out = body \<and> (\<forall>k \<in> set RESOURCE_KEYS. \<forall>r \<in> set (resources_at k v). resource_attributes r = None)) \<or>
    (\<exists>v'. to_str cd v' = Some out \<and>
       (\<forall>k \<in> set RESOURCE_KEYS. resources_at k v' = map (snd \<circ> stamp_resource own) (resources_at k v)))"
proof -
  obtain ch v' where f: "fold (stamp_key own) RESOURCE_KEYS (False, v) = (ch, v')" by fastforce
  show ?thesis
  proof (cases ch)
    case True
    with assms(1) f have "to_str cd v' = Some out" by (simp add: stamp_def own_def Let_def)
    moreover have "resources_at k v' = map (snd \<circ> stamp_resource own) (resources_at k v)" if "k \<in> set RESOURCE_KEYS" for k
      using stamp_fold_resources [OF that, of own "(False, v)"] f by simp
    ultimately show ?thesis by blast
  next
    case False
    with assms(1) f have "out = body" by (simp add: stamp_def own_def Let_def)
    moreover have "\<not> fst (stamp_resource own r)" if "k \<in> set RESOURCE_KEYS" "r \<in> set (resources_at k v)" for k r
      using stamp_fold_changed [of own "(False, v)"] f False that by auto
    then have "\<forall>k \<in> set RESOURCE_KEYS. \<forall>r \<in> set (resources_at k v). resource_attributes r = None"
      using stamp_resource_unchanged [OF stamp_attributes_nonempty] unfolding own_def by blast
    ultimately show ?thesis by blast
  qed
qed

end
