(* ===== verification/Daemon_Drain.thy ===== *)
theory Daemon_Drain
  imports Daemon_Spool Daemon_Normalize
begin

text \<open>
  The drain of the telemetry daemon (\<open>otel_daemon/drain/*.rs\<close>), the outbound POST
  (\<open>otel_daemon/forward.rs\<close>), and the request handler
  (\<open>otel_daemon/request.rs\<close>).

  Everything outside is the record \<open>outside\<close>, a function of the number of interactions so far: what
  minting a credential yields, what the collector answers, what the clock reads, which file calls
  succeed, whether a spool call is cancelled, and what the other tasks (admission, compaction) do to
  the spool before a spool call gets the lock. The spool is not locked across a POST, so they may run
  between any two spool calls of the drain. The log records what the drain did.
\<close>

section \<open>The outside\<close>

record minted =
  mt_bearer :: string
  mt_access_token :: string

record post_request =
  rq_url :: string
  rq_content_type :: string
  rq_bearer :: string
  rq_payload :: string

record outside =
  o_mint :: "nat \<Rightarrow> minted option"
  o_send :: "nat \<Rightarrow> post_request \<Rightarrow> nat option"
  o_clock :: "nat \<Rightarrow> nat option"
  o_io :: "nat \<Rightarrow> io"
  o_cancel :: "nat \<Rightarrow> bool"
  o_between :: "nat \<Rightarrow> dspool \<Rightarrow> dspool"

datatype event =
    Posted post_request "nat option"
  | Advance_called pending
  | Refusal_recorded pending nat bool
  | Discard_called pending nat pending

record daemon =
  d_spool :: dspool
  d_now :: nat
  d_log :: "event list"
  d_wake :: bool

record drain_config =
  otel_endpoint :: "string option"
  url_safe_decode :: "string \<Rightarrow> string option"

definition logged :: "event list \<Rightarrow> daemon \<Rightarrow> daemon" where
  "logged es d = d\<lparr>d_log := d_log d @ es\<rparr>"

text \<open>\<open>with_spool\<close>: a spool call under the lock, after whatever the other tasks did; a cancelled call
  did not run.\<close>

definition with_spool ::
  "outside \<Rightarrow> (io \<Rightarrow> nat option \<Rightarrow> dspool \<Rightarrow> dspool \<times> (spool_error + 'a)) \<Rightarrow> daemon \<Rightarrow>
     daemon \<times> (spool_error + 'a)" where
  "with_spool out f d =
     (let n = d_now d;
          s = o_between out n (d_spool d);
          d1 = d\<lparr>d_now := Suc n, d_spool := s\<rparr>
      in if o_cancel out n then (d1, Inl Cancelled)
         else let (s', r) = f (o_io out n) (o_clock out n) s in (d1\<lparr>d_spool := s'\<rparr>, r))"

definition with_spool_next ::
  "outside \<Rightarrow> spool_lib \<Rightarrow> daemon \<Rightarrow> (daemon \<times> (spool_error + pending option)) option" where
  "with_spool_next out lib d =
     (let n = d_now d;
          s = o_between out n (d_spool d);
          d1 = d\<lparr>d_now := Suc n, d_spool := s\<rparr>
      in if o_cancel out n then Some (d1, Inl Cancelled)
         else map_option (\<lambda>(s', r). (d1\<lparr>d_spool := s'\<rparr>, r)) (next_pending lib (o_io out n) (o_clock out n) s))"

definition do_mint :: "outside \<Rightarrow> daemon \<Rightarrow> daemon \<times> minted option" where
  "do_mint out d = (d\<lparr>d_now := Suc (d_now d)\<rparr>, o_mint out (d_now d))"

section \<open>Forwarding\<close>

datatype post_error = No_collector | Unreachable | Rejected nat

definition forward_post ::
  "outside \<Rightarrow> drain_config \<Rightarrow> string \<Rightarrow> signal \<Rightarrow> string \<Rightarrow> bool \<Rightarrow> daemon \<Rightarrow> daemon \<times> (post_error + verdict)" where
  "forward_post out cfg bearer sig payload is_json d =
     (case otel_endpoint cfg of
        None \<Rightarrow> (d, Inl No_collector)
      | Some base \<Rightarrow>
          (let rq = \<lparr>rq_url = trim_end_matches (\<lambda>c. c = CHR ''/'') base @ signal_path sig,
                     rq_content_type = (if is_json then ''application/json'' else ''application/x-protobuf''),
                     rq_bearer = bearer, rq_payload = payload\<rparr>;
               res = o_send out (d_now d) rq;
               d1 = logged [Posted rq res] (d\<lparr>d_now := Suc (d_now d)\<rparr>)
           in case res of
                None \<Rightarrow> (d1, Inl Unreachable)
              | Some status \<Rightarrow>
                  (d1, if is_success status then Inr Accepted
                       else if is_permanent status then Inr (Refused status)
                       else Inl (Rejected status))))"

text \<open>The document a record is stamped from: the payload of a JSON record, when it parses.\<close>

definition parsed_payload :: "spool_lib \<Rightarrow> pending \<Rightarrow> json option" where
  "parsed_payload lib p =
     (if p_format p = Fmt_Json
      then (case from_str (json_doc (otlp lib)) (p_payload p) of Inr v \<Rightarrow> Some v | Inl _ \<Rightarrow> None) else None)"

definition stamp_pending :: "spool_lib \<Rightarrow> drain_config \<Rightarrow> minted \<Rightarrow> pending \<Rightarrow> string option" where
  "stamp_pending lib cfg m p =
     stamp (url_safe_decode cfg) (json_doc (otlp lib)) (parsed_payload lib p) (p_payload p)
       (mt_access_token m) (Some (p_key p))"

section \<open>The drain\<close>

datatype outcome = Empty | Advanced | Stopped

datatype probe_result = Probe_Accepted | Probe_Refused | Probe_Unknown

definition probe_outcome ::
  "outside \<Rightarrow> spool_lib \<Rightarrow> drain_config \<Rightarrow> minted \<Rightarrow> pending \<Rightarrow> daemon \<Rightarrow> daemon \<times> probe_result" where
  "probe_outcome out lib cfg m probe d =
     (case stamp_pending lib cfg m probe of
        None \<Rightarrow> (d, Probe_Unknown)
      | Some stamped \<Rightarrow>
          (case forward_post out cfg (mt_bearer m) (p_signal probe) stamped (p_format probe = Fmt_Json) d of
             (d1, Inr Accepted) \<Rightarrow> (d1, Probe_Accepted)
           | (d1, Inr (Refused _)) \<Rightarrow> (d1, Probe_Refused)
           | (d1, Inl _) \<Rightarrow> (d1, Probe_Unknown)))"

definition MAX_LOOKAHEAD :: nat where
  "MAX_LOOKAHEAD = 20"

text \<open>The \<open>for\<close> loop of \<open>walk\<close>, with the number of turns left.\<close>

fun walk_loop ::
  "outside \<Rightarrow> spool_lib \<Rightarrow> drain_config \<Rightarrow> minted \<Rightarrow> pending \<Rightarrow> nat \<Rightarrow> pending \<Rightarrow> nat \<Rightarrow> daemon \<Rightarrow>
     daemon \<times> outcome" where
  "walk_loop out lib cfg m stuck 0 cursor lost d = (d, Stopped)"
| "walk_loop out lib cfg m stuck (Suc n) cursor lost d =
     (case with_spool out (\<lambda>io clock s. (s, peek_next lib io cursor s)) d of
        (d1, Inl e) \<Rightarrow> (d1, Stopped)
      | (d1, Inr None) \<Rightarrow> (d1, Stopped)
      | (d1, Inr (Some probe)) \<Rightarrow>
          (case probe_outcome out lib cfg m probe d1 of
             (d2, Probe_Accepted) \<Rightarrow>
               (case with_spool out (\<lambda>io clock s. discard_confirmed io clock stuck lost probe s)
                       (logged [Discard_called stuck lost probe] d2) of
                  (d3, Inr _) \<Rightarrow> (d3, Advanced)
                | (d3, Inl _) \<Rightarrow> (d3, Stopped))
           | (d2, Probe_Refused) \<Rightarrow> walk_loop out lib cfg m stuck n probe (lost + 1) d2
           | (d2, Probe_Unknown) \<Rightarrow> (d2, Stopped)))"

definition walk ::
  "outside \<Rightarrow> spool_lib \<Rightarrow> drain_config \<Rightarrow> pending \<Rightarrow> daemon \<Rightarrow> daemon \<times> outcome" where
  "walk out lib cfg stuck d =
     (case do_mint out d of
        (d1, None) \<Rightarrow> (d1, Stopped)
      | (d1, Some m) \<Rightarrow> walk_loop out lib cfg m stuck MAX_LOOKAHEAD stuck 1 d1)"

definition handle_refusal ::
  "outside \<Rightarrow> spool_lib \<Rightarrow> drain_config \<Rightarrow> pending \<Rightarrow> daemon \<Rightarrow> daemon \<times> outcome" where
  "handle_refusal out lib cfg p d =
     (let d0 = d\<lparr>d_now := Suc (d_now d)\<rparr>
      in case o_clock out (d_now d) of
           None \<Rightarrow> (d0, Stopped)
         | Some now \<Rightarrow>
             (case with_spool out (\<lambda>io clock s. record_refusal io p now s) d0 of
                (d1, Inl e) \<Rightarrow> (d1, Stopped)
              | (d1, Inr eligible) \<Rightarrow>
                  (let d2 = logged [Refusal_recorded p now eligible] d1
                   in if \<not> eligible then (d2, Stopped) else walk out lib cfg p d2)))"

definition advance_one ::
  "outside \<Rightarrow> spool_lib \<Rightarrow> drain_config \<Rightarrow> daemon \<Rightarrow> (daemon \<times> outcome) option" where
  "advance_one out lib cfg d =
     do { (d1, r) \<leftarrow> with_spool_next out lib d;
          case r of
            Inl e \<Rightarrow> Some (d1, Stopped)
          | Inr None \<Rightarrow> Some (d1, Empty)
          | Inr (Some p) \<Rightarrow>
              (case do_mint out d1 of
                 (d2, None) \<Rightarrow> Some (d2, Stopped)
               | (d2, Some m) \<Rightarrow>
                   (case stamp_pending lib cfg m p of
                      None \<Rightarrow> Some (d2, Stopped)
                    | Some stamped \<Rightarrow>
                        (case forward_post out cfg (mt_bearer m) (p_signal p) stamped (p_format p = Fmt_Json) d2 of
                           (d3, Inr Accepted) \<Rightarrow>
                             (case with_spool out (\<lambda>io clock s. advance io clock p s) (logged [Advance_called p] d3) of
                                (d4, Inr _) \<Rightarrow> Some (d4, Advanced)
                              | (d4, Inl _) \<Rightarrow> Some (d4, Stopped))
                         | (d3, Inr (Refused status)) \<Rightarrow> Some (handle_refusal out lib cfg p d3)
                         | (d3, Inl _) \<Rightarrow> Some (d3, Stopped)))) }"

datatype pass = Idle | Pass_Stopped | BudgetExhausted

definition DRAIN_BUDGET_PER_PASS :: nat where
  "DRAIN_BUDGET_PER_PASS = 32"

fun drain_loop ::
  "outside \<Rightarrow> spool_lib \<Rightarrow> drain_config \<Rightarrow> nat \<Rightarrow> daemon \<Rightarrow> (daemon \<times> pass) option" where
  "drain_loop out lib cfg 0 d = Some (d, BudgetExhausted)"
| "drain_loop out lib cfg (Suc n) d =
     (case with_spool out (\<lambda>io clock s. (s, is_caught_up lib io s)) d of
        (d1, Inl e) \<Rightarrow> Some (d1, Pass_Stopped)
      | (d1, Inr True) \<Rightarrow> Some (d1, Idle)
      | (d1, Inr False) \<Rightarrow>
          (case advance_one out lib cfg d1 of
             None \<Rightarrow> None
           | Some (d2, Advanced) \<Rightarrow> drain_loop out lib cfg n d2
           | Some (d2, Empty) \<Rightarrow> Some (d2, Idle)
           | Some (d2, Stopped) \<Rightarrow> Some (d2, Pass_Stopped)))"

definition drain_retained ::
  "outside \<Rightarrow> spool_lib \<Rightarrow> drain_config \<Rightarrow> daemon \<Rightarrow> (daemon \<times> pass) option" where
  "drain_retained out lib cfg d = drain_loop out lib cfg DRAIN_BUDGET_PER_PASS d"

text \<open>What the pump waits for after a pass.\<close>

datatype pump_wait = Wait_nothing | Wait_tick_or_wake | Wait_tick

definition pump_next :: "pass \<Rightarrow> pump_wait" where
  "pump_next p =
     (case p of BudgetExhausted \<Rightarrow> Wait_nothing | Idle \<Rightarrow> Wait_tick_or_wake | Pass_Stopped \<Rightarrow> Wait_tick)"

section \<open>Admission\<close>

definition drain_retain ::
  "outside \<Rightarrow> spool_lib \<Rightarrow> signal \<Rightarrow> string \<Rightarrow> wire_format \<Rightarrow> daemon \<Rightarrow> daemon \<times> bool" where
  "drain_retain out lib sig payload fmt d =
     (case with_spool out (\<lambda>io clock s. retain lib io sig payload fmt s) d of
        (d1, Inr _) \<Rightarrow> (d1\<lparr>d_wake := True\<rparr>, True)
      | (d1, Inl _) \<Rightarrow> (d1, False))"

record response =
  rs_status :: nat
  rs_content_type :: "string option"
  rs_retry_after :: "string option"
  rs_body :: string

definition status_only :: "nat \<Rightarrow> response" where
  "status_only n = \<lparr>rs_status = n, rs_content_type = None, rs_retry_after = None, rs_body = []\<rparr>"

definition retained_response ::
  "outside \<Rightarrow> spool_lib \<Rightarrow> signal \<Rightarrow> string \<Rightarrow> wire_format \<Rightarrow> daemon \<Rightarrow> daemon \<times> response" where
  "retained_response out lib sig payload fmt d =
     (case drain_retain out lib sig payload fmt d of
        (d1, True) \<Rightarrow>
          (d1, \<lparr>rs_status = 200, rs_content_type = Some (format_content_type fmt), rs_retry_after = None,
                rs_body = (case fmt of Fmt_Json \<Rightarrow> ''{}'' | Fmt_Protobuf \<Rightarrow> [])\<rparr>)
      | (d1, False) \<Rightarrow> (d1, (status_only 503)\<lparr>rs_retry_after := Some ''5''\<rparr>))"

definition handle_request ::
  "outside \<Rightarrow> spool_lib \<Rightarrow> http_request \<Rightarrow> daemon \<Rightarrow> daemon \<times> response" where
  "handle_request out lib req d =
     (case receive_build MAX_RETAINABLE_PAYLOAD req of
        Inl UntrustedHost \<Rightarrow> (d, status_only 403)
      | Inl UnsupportedContentType \<Rightarrow> (d, status_only 415)
      | Inl Body_error \<Rightarrow> (d, status_only 413)
      | Inr inc \<Rightarrow>
          (case classify_signal (otlp lib) (in_body inc) (in_format inc) (in_path inc) of
             None \<Rightarrow> (d, status_only 400)
           | Some sig \<Rightarrow>
               retained_response out lib sig (admitted_body (otlp lib) sig inc) (in_format inc) d))"

end
