(* ===== verification/Daemon_Spool_Correct.thy ===== *)
theory Daemon_Spool_Correct
  imports Daemon_Spool
begin

text \<open>
  Correctness of the durable spool. The file is the rendering of a list of lines; a checkpoint, read
  against the file, stands for the queue of the lines behind its effective offset. Every operation
  refines the operation of a queue: \<open>retain\<close> appends, \<open>next\<close> skips undecodable heads and returns the
  first record, \<open>advance\<close> removes it, and compaction, reclaiming and reopening change nothing.
\<close>

section \<open>Lines in a file\<close>

definition render_lines :: "string list \<Rightarrow> string" where
  "render_lines ls = concat (map (\<lambda>l. l @ [newline]) ls)"

definition good_line :: "string \<Rightarrow> bool" where
  "good_line l \<longleftrightarrow> newline \<notin> set l \<and> valid_utf8 l \<and> str_trim l = l \<and> l \<noteq> [] \<and> length l < MAX_READ"

lemma render_lines_simps [simp]:
  "render_lines [] = []" "render_lines (l # ls) = l @ newline # render_lines ls"
  "render_lines (ls @ ms) = render_lines ls @ render_lines ms"
  by (simp_all add: render_lines_def)

lemma good_lineD:
  assumes "good_line l"
  shows "newline \<notin> set l" "str_trim (from_utf8_lossy l) = l" "l \<noteq> []" "length l < MAX_READ"
  using assms by (simp_all add: good_line_def)

lemma split_nl_line: "newline \<notin> set l \<Longrightarrow> split_nl (l @ newline # s) = l # split_nl s"
  by (induction l) auto

lemma split_nl_render: "list_all good_line ls \<Longrightarrow> split_nl (render_lines ls) = ls @ [[]]"
  by (induction ls) (simp_all add: split_nl_line good_lineD)

lemma rposition_nl_append:
  "rposition_nl (a @ b) =
     (case rposition_nl b of Some i \<Rightarrow> Some (length a + i) | None \<Rightarrow> rposition_nl a)"
  by (induction a) (auto split: option.split)

lemma rposition_nl_None: "rposition_nl s = None \<longleftrightarrow> newline \<notin> set s"
  by (induction s) (auto split: option.split)

text \<open>The lines that fit into a bounded read.\<close>

fun fit :: "nat \<Rightarrow> string list \<Rightarrow> string list" where
  "fit n [] = []"
| "fit n (l # ls) = (if length l < n then l # fit (n - length l - 1) ls else [])"

lemma fit_prefix: "\<exists>ms. ls = fit n ls @ ms"
  by (induction n ls rule: fit.induct) auto

lemma render_fit_le: "length (render_lines (fit n ls)) \<le> n"
  by (induction n ls rule: fit.induct) auto

lemma take_render_fit: "take (length (render_lines (fit n ls))) (render_lines ls) = render_lines (fit n ls)"
proof -
  obtain ms where "ls = fit n ls @ ms" using fit_prefix by blast
  then have "render_lines ls = render_lines (fit n ls) @ render_lines ms" by (metis render_lines_simps(3))
  then show ?thesis by simp
qed

lemma rposition_take_render:
  "list_all good_line ls \<Longrightarrow>
     rposition_nl (take n (render_lines ls)) =
       (if fit n ls = [] then None else Some (length (render_lines (fit n ls)) - 1))"
proof (induction n ls rule: fit.induct)
  case (2 n l ls)
  show ?case
  proof (cases "length l < n")
    case False
    then show ?thesis using "2.prems" by (simp add: rposition_nl_None good_lineD)
        (metis good_lineD(1) in_set_takeD)
  next
    case True
    then have eq: "take n (render_lines (l # ls)) = (l @ [newline]) @ take (n - length l - 1) (render_lines ls)"
      by (simp add: take_Cons')
    have "rposition_nl (l @ [newline]) = Some (length l)" by (simp add: rposition_nl_append)
    with True "2.IH" "2.prems" show ?thesis
      unfolding eq rposition_nl_append by (cases "fit (n - length l - 1) ls") auto
  qed
qed simp

fun line_offsets :: "nat \<Rightarrow> string list \<Rightarrow> tail_line list" where
  "line_offsets pos [] = []"
| "line_offsets pos (l # ls) = \<lparr>tl_offset = pos, tl_text = l\<rparr> # line_offsets (pos + length l + 1) ls"

lemma str_trim_Nil [simp]: "str_trim [] = []"
  by (simp add: str_trim_def)

lemma collect_lines_good:
  "list_all good_line ls \<Longrightarrow> collect_lines pos (ls @ [[]]) = line_offsets pos ls"
  by (induction ls arbitrary: pos) (simp_all add: Let_def good_lineD)

section \<open>Reading at an offset\<close>

text \<open>Under a file that renders \<open>ds @ qs\<close>, an accepted offset behind \<open>ds\<close> reads the first line of
  \<open>qs\<close>, and the next record starts right behind it.\<close>

definition io_ok :: io where
  "io_ok = (\<lambda>_. True)"

lemma io_ok_simps [simp]:
  "io_ok IO_stat" "io_ok IO_read" "io_ok IO_append" "io_ok IO_sync" "io_ok IO_store" "io_ok IO_open" "io_ok IO_truncate" "io_ok IO_tmp_write" "io_ok IO_rename" "io_ok IO_sync_dir"
  "io_ok IO_store_sync" "io_ok (IO_again op)"
  by (simp_all add: io_ok_def)

lemma tail_drain_at:
  assumes "list_all good_line (ds @ qs)" and "f = (ino, render_lines (ds @ qs))"
    and "off = length (render_lines ds)" and "identity_restart sha known f off = None"
  shows "tail_drain io_ok sha (Some f) off known =
    Inr \<lparr>dr_lines = line_offsets off (fit MAX_READ qs), next_offset = off + length (render_lines (fit MAX_READ qs)),
         restarted = None, missing = False, dr_size = length (snd f), dr_identity = Some (identity_of sha f)\<rparr>"
proof -
  let ?b = "take MAX_READ (render_lines qs)"
  have good: "list_all good_line qs" "list_all good_line (fit MAX_READ qs)"
    using assms(1) fit_prefix [of qs MAX_READ] by auto (metis list_all_append)
  have drop: "drop off (snd f) = render_lines qs" using assms(2,3) by simp
  show ?thesis
  proof (cases "fit MAX_READ qs = []")
    case True
    then have "qs = []" using good(1) by (cases qs) (auto simp: good_lineD split: if_splits)
    then show ?thesis using assms(4) drop by (simp add: tail_drain_def Let_def MAX_READ_def)
  next
    case False
    let ?n = "length (render_lines (fit MAX_READ qs))"
    have pos: "0 < ?n" using False by (cases "fit MAX_READ qs") auto
    have r: "rposition_nl ?b = Some (?n - 1)" using rposition_take_render [OF good(1)] False by simp
    have "take (Suc (?n - 1)) ?b = render_lines (fit MAX_READ qs)"
      using pos take_render_fit [of MAX_READ qs] render_fit_le [of MAX_READ qs]
      by (simp add: take_take min_def)
    with r pos assms(4) drop show ?thesis
      by (simp add: tail_drain_def Let_def split_nl_render [OF good(2)] collect_lines_good [OF good(2)])
  qed
qed

text \<open>What a record read from a line carries.\<close>

definition pending_of :: "spool_lib \<Rightarrow> string \<Rightarrow> nat \<Rightarrow> pending option" where
  "pending_of lib l boundary =
     map_option (\<lambda>(sig, payload, fmt).
       \<lparr>p_signal = sig, p_payload = payload, p_format = fmt,
        p_key = quarantine_key (sha_hex lib) l, p_boundary = boundary\<rparr>) (envelope_decode lib l)"

definition peek_line :: "spool_lib \<Rightarrow> nat \<Rightarrow> string list \<Rightarrow> peeked" where
  "peek_line lib off qs =
     (case qs of
        [] \<Rightarrow> Peek_Empty
      | l # _ \<Rightarrow>
          (case pending_of lib l (off + length l + 1) of
             Some p \<Rightarrow> Peek_Decoded p
           | None \<Rightarrow> Peek_Undecodable (off + length l + 1)))"

lemma peek_at_lines:
  assumes "list_all good_line (ds @ qs)" and "sp_file s = Some f" and "f = (ino, render_lines (ds @ qs))"
    and "off = length (render_lines ds)"
    and "identity_restart (sha_hex lib) (ck_spool (sp_ckpt s)) f off = None"
  shows "peek_at lib io_ok off s = Inr (peek_line lib off qs, Some (identity_of (sha_hex lib) f))"
proof (cases qs)
  case Nil
  then show ?thesis
    using tail_drain_at [OF assms(1,3,4,5)] assms(2) by (simp add: peek_at_def peek_line_def)
next
  case (Cons l ls)
  then have "length l < MAX_READ" using assms(1) by (simp add: good_lineD)
  with Cons show ?thesis
    using tail_drain_at [OF assms(1,3,4,5)] assms(2)
    by (cases "fit (MAX_READ - length l - 1) ls")
      (auto simp: peek_at_def peek_line_def pending_of_def split: option.split)
qed

section \<open>The queue\<close>

text \<open>The offset a checkpoint stands for once it is read against the file, and the lines behind it.\<close>

definition effective :: "spool_lib \<Rightarrow> disk_file \<Rightarrow> checkpoint \<Rightarrow> nat" where
  "effective lib f c =
     (if identity_restart (sha_hex lib) (ck_spool c) f (ck_offset c) \<noteq> None then 0 else ck_offset c)"

definition queue :: "spool_lib \<Rightarrow> disk_file option \<Rightarrow> checkpoint \<Rightarrow> string list" where
  "queue lib file c =
     (case file of None \<Rightarrow> [] | Some f \<Rightarrow> butlast (split_nl (drop (effective lib f c) (snd f))))"

text \<open>The file renders good lines, and the checkpoint is at the end of one of them.\<close>

definition at_line :: "spool_lib \<Rightarrow> disk_file option \<Rightarrow> checkpoint \<Rightarrow> bool" where
  "at_line lib file c =
     (case file of
        None \<Rightarrow> ck_offset c = 0 \<and> ck_spool c = None
      | Some f \<Rightarrow>
          (\<exists>ds qs. list_all good_line (ds @ qs) \<and> snd f = render_lines (ds @ qs) \<and>
             effective lib f c = length (render_lines ds)))"

lemma at_line_Some:
  assumes "at_line lib (Some f) c"
  obtains ds where "list_all good_line (ds @ queue lib (Some f) c)"
    "snd f = render_lines (ds @ queue lib (Some f) c)" "effective lib f c = length (render_lines ds)"
proof -
  from assms obtain ds qs where d: "list_all good_line (ds @ qs)" "snd f = render_lines (ds @ qs)"
    "effective lib f c = length (render_lines ds)" by (auto simp: at_line_def)
  then have "queue lib (Some f) c = qs" by (simp add: queue_def split_nl_render)
  with d that show ?thesis by metis
qed

lemma at_lineI:
  assumes "list_all good_line (ds @ qs)" and "snd f = render_lines (ds @ qs)"
    and "effective lib f c = length (render_lines ds)"
  shows "at_line lib (Some f) c" and "queue lib (Some f) c = qs"
  using assms by (auto simp: at_line_def queue_def split_nl_render)

lemma queue_None [simp]: "queue lib None c = []"
  by (simp add: queue_def)

text \<open>A checkpoint whose identity names the file and whose offset lies within it is taken as it is.\<close>

definition settled_on :: "spool_lib \<Rightarrow> disk_file \<Rightarrow> checkpoint \<Rightarrow> bool" where
  "settled_on lib f c \<longleftrightarrow> identity_restart (sha_hex lib) (ck_spool c) f (ck_offset c) = None"

lemma effective_settled [simp]: "settled_on lib f c \<Longrightarrow> effective lib f c = ck_offset c"
  by (simp add: settled_on_def effective_def)

lemma settled_onI:
  "ck_offset c \<le> length (snd f) \<Longrightarrow> (\<And>i. ck_spool c = Some i \<Longrightarrow> same (sha_hex lib) i f) \<Longrightarrow> settled_on lib f c"
  by (auto simp: settled_on_def identity_restart_def split: option.split)

lemma settled_on_append:
  "settled_on lib (ino, b) c \<Longrightarrow> settled_on lib (ino, b @ x) c"
  by (auto simp: settled_on_def identity_restart_def same_append split: option.splits if_splits)

lemma at_line_settled:
  assumes "at_line lib (Some f) c" and "settled_on lib f c" and "queue lib (Some f) c = qs"
  obtains ds where "list_all good_line (ds @ qs)" "snd f = render_lines (ds @ qs)"
    "ck_offset c = length (render_lines ds)"
  using at_line_Some [OF assms(1)] assms(2,3) effective_settled by metis

subsection \<open>Retaining\<close>

text \<open>A file that was not recognised must not be mistaken for the recorded one after an append.\<close>

definition no_lookalike :: "spool_lib \<Rightarrow> disk_file option \<Rightarrow> string \<Rightarrow> checkpoint \<Rightarrow> bool" where
  "no_lookalike lib file x c =
     (case file of
        None \<Rightarrow> True
      | Some (ino, b) \<Rightarrow> settled_on lib (ino, b @ x) c \<longrightarrow> settled_on lib (ino, b) c)"

definition appended :: "disk_file option \<Rightarrow> nat \<Rightarrow> string \<Rightarrow> disk_file" where
  "appended file fresh x = (case file of None \<Rightarrow> (fresh, x) | Some (ino, b) \<Rightarrow> (ino, b @ x))"

lemma queue_append:
  assumes "at_line lib file c" and "good_line l" and "no_lookalike lib file (l @ [newline]) c"
  shows "at_line lib (Some (appended file fresh (l @ [newline]))) c"
    and "queue lib (Some (appended file fresh (l @ [newline]))) c = queue lib file c @ [l]"
proof -
  let ?f = "appended file fresh (l @ [newline])"
  have "at_line lib (Some ?f) c \<and> queue lib (Some ?f) c = queue lib file c @ [l]"
  proof (cases "file")
    case None
    with assms(1) have "settled_on lib ?f c" by (intro settled_onI) (auto simp: at_line_def)
    with None assms(1,2) show ?thesis
      using at_lineI [of "[]" "[l]" ?f lib c] by (auto simp: at_line_def appended_def)
  next
    case (Some f)
    obtain ino b where f: "f = (ino, b)" by fastforce
    define q where "q = queue lib (Some f) c"
    from assms(1) Some obtain ds where ds: "list_all good_line (ds @ q)"
      "snd f = render_lines (ds @ q)" "effective lib f c = length (render_lines ds)"
      using at_line_Some unfolding q_def by metis
    have "settled_on lib ?f c \<longleftrightarrow> settled_on lib f c"
      using assms(3) settled_on_append [of lib ino b c "l @ [newline]"] Some f
      by (auto simp: no_lookalike_def appended_def)
    then have "effective lib ?f c = effective lib f c" by (auto simp: effective_def settled_on_def)
    with ds(3) have "effective lib ?f c = length (render_lines ds)" by simp
    moreover have "list_all good_line (ds @ q @ [l])" "snd ?f = render_lines (ds @ q @ [l])"
      using ds(1,2) assms(2) Some f by (simp_all add: appended_def)
    ultimately show ?thesis using at_lineI [of ds "q @ [l]" ?f lib c] Some unfolding q_def by blast
  qed
  then show "at_line lib (Some ?f) c" and "queue lib (Some ?f) c = queue lib file c @ [l]" by blast+
qed

subsection \<open>Committing\<close>

text \<open>The position behind a record that was read and not yet committed: the file still renders the
  lines up to it, then \<open>qs\<close>, and the identity that was read still names the file.\<close>

definition held_at :: "spool_lib \<Rightarrow> dspool \<Rightarrow> nat \<Rightarrow> string list \<Rightarrow> bool" where
  "held_at lib s n qs \<longleftrightarrow>
     (\<exists>ds f i. sp_file s = Some f \<and> list_all good_line (ds @ qs) \<and> snd f = render_lines (ds @ qs) \<and>
        n = length (render_lines ds) \<and> sp_pending_identity s = Some i \<and> same (sha_hex lib) i f)"

text \<open>What a commit establishes: the queue in memory and the durable one, both settled on the file.\<close>

definition committed :: "spool_lib \<Rightarrow> dspool \<Rightarrow> dspool \<Rightarrow> string list \<Rightarrow> bool" where
  "committed lib s s' qs \<longleftrightarrow>
     sp_stored s' = Some (sp_ckpt s') \<and> sp_inode s' = sp_inode s \<and>
     (\<exists>f. sp_file s' = Some f \<and> settled_on lib f (sp_ckpt s') \<and> at_line lib (Some f) (sp_ckpt s') \<and>
        queue lib (Some f) (sp_ckpt s') = qs)"

lemma render_lines_Nil_iff: "render_lines qs = [] \<longleftrightarrow> qs = []"
  by (cases qs) auto

lemma commit_past_spec:
  assumes "held_at lib s n qs"
  obtains s' where "commit_past io_ok (Some now) n lost s = (s', Inr ())" "committed lib s s' qs"
    "discarded_total (sp_ckpt s') = (if lost = 0 then discarded_total (sp_ckpt s)
       else min (discarded_total (sp_ckpt s) + lost) (2 ^ 64 - 1))"
    "ck_quarantine (sp_ckpt s') = ck_quarantine (sp_ckpt s)"
proof -
  from assms obtain ds ino b i where h: "sp_file s = Some (ino, b)" "list_all good_line (ds @ qs)"
    "b = render_lines (ds @ qs)" "n = length (render_lines ds)" "sp_pending_identity s = Some i"
    "same (sha_hex lib) i (ino, b)" unfolding held_at_def by auto
  define c0 where "c0 = (sp_ckpt s)\<lparr>ck_spool := Some i, ck_offset := n\<rparr>"
  define c where "c = fst (record_discard (Some now) lost c0)"
  have rd: "record_discard (Some now) lost c0 = (c, Inr ())"
    by (simp add: c_def record_discard_def Let_def)
  have c: "ck_offset c = n" "ck_spool c = Some i" "ck_quarantine c = ck_quarantine (sp_ckpt s)"
    "discarded_total c = (if lost = 0 then discarded_total (sp_ckpt s)
       else min (discarded_total (sp_ckpt s) + lost) (2 ^ 64 - 1))"
    by (simp_all add: c_def c0_def record_discard_def Let_def)
  have set: "settled_on lib (ino, b) c" using c h(3,4,6) by (intro settled_onI) auto
  have q: "at_line lib (Some (ino, b)) c" "queue lib (Some (ino, b)) c = qs"
    using at_lineI [of ds qs "(ino, b)" lib c] h(2,3,4) set c(1) by simp_all
  define s1 where "s1 = s\<lparr>sp_ckpt := c, sp_stored := Some c\<rparr>"
  have step: "commit_past io_ok (Some now) n lost s = try_reclaim io_ok s1"
    using rd h(5) by (simp add: commit_past_def c0_def [symmetric] checkpoint_store_def s1_def)
  show ?thesis
  proof (cases "n \<le> RECLAIM_ABOVE \<or> length b \<noteq> n")
    case True
    then have "try_reclaim io_ok s1 = (s1, Inr ())" using h(1) c(1) by (auto simp: try_reclaim_def s1_def)
    moreover have "committed lib s s1 qs" using q set h(1) by (auto simp: committed_def s1_def)
    ultimately show ?thesis using that [of s1] step c by (simp add: s1_def)
  next
    case False
    then have "render_lines qs = []" using h(3,4) by simp
    then have qs: "qs = []" by (simp add: render_lines_Nil_iff)
    define c' where "c' = (Checkpoint_restart c)\<lparr>ck_spool := None\<rparr>"
    define s2 where "s2 = s1\<lparr>sp_file := Some (ino, []), sp_ckpt := c', sp_stored := Some c'\<rparr>"
    have "try_reclaim io_ok s1 = (s2, Inr ())"
      using False h(1) c(1)
      by (simp add: try_reclaim_def s1_def s2_def c'_def checkpoint_store_def Let_def)
    moreover have set': "settled_on lib (ino, []) c'"
      by (intro settled_onI) (simp_all add: c'_def Checkpoint_restart_def)
    then have "at_line lib (Some (ino, [])) c'" "queue lib (Some (ino, [])) c' = []"
      using at_lineI [of "[]" "[]" "(ino, [])" lib c'] by (simp_all add: c'_def Checkpoint_restart_def)
    with set' have "committed lib s s2 qs" by (simp add: committed_def s2_def s1_def qs)
    ultimately show ?thesis using that [of s2] step c by (simp add: s2_def c'_def Checkpoint_restart_def)
  qed
qed

subsection \<open>Reading the next record\<close>

definition undecodable :: "spool_lib \<Rightarrow> string \<Rightarrow> bool" where
  "undecodable lib l \<longleftrightarrow> envelope_decode lib l = None"

text \<open>What \<open>next\<close> returns, and the state it leaves.\<close>

definition next_ok :: "spool_lib \<Rightarrow> dspool \<Rightarrow> string list \<Rightarrow> dspool \<Rightarrow> pending option \<Rightarrow> bool" where
  "next_ok lib s qs s' r \<longleftrightarrow>
     sp_inode s' = sp_inode s \<and> at_line lib (sp_file s') (sp_ckpt s') \<and>
     queue lib (sp_file s') (sp_ckpt s') = qs \<and>
     (case qs of
        [] \<Rightarrow> r = None
      | l # ls \<Rightarrow> (\<exists>n. r = pending_of lib l n \<and> r \<noteq> None \<and> held_at lib s' n ls))"

lemma pending_of_None: "pending_of lib l n = None \<longleftrightarrow> undecodable lib l"
  by (simp add: pending_of_def undecodable_def)

lemma pending_of_boundary: "pending_of lib l n = Some p \<Longrightarrow> p_boundary p = n"
  by (auto simp: pending_of_def)

lemma next_loop_settled:
  "sp_file s = Some f \<Longrightarrow> settled_on lib f (sp_ckpt s) \<Longrightarrow> at_line lib (Some f) (sp_ckpt s) \<Longrightarrow>
     queue lib (Some f) (sp_ckpt s) = qs \<Longrightarrow>
     \<exists>s' r. next_loop lib io_ok (Some now) s = Some (s', Inr r) \<and>
       next_ok lib s (dropWhile (undecodable lib) qs) s' r"
proof (induction qs arbitrary: s f)
  case (Nil s f)
  obtain ino b where f: "f = (ino, b)" by fastforce
  from at_line_settled [OF Nil.prems(3,2,4)] f obtain ds where ds: "list_all good_line (ds @ [])"
    "b = render_lines (ds @ [])" "ck_offset (sp_ckpt s) = length (render_lines ds)" by (metis snd_conv)
  have "peek_at lib io_ok (ck_offset (sp_ckpt s)) s = Inr (Peek_Empty, Some (identity_of (sha_hex lib) f))"
    using peek_at_lines [OF ds(1) Nil.prems(1), of ino] ds Nil.prems(2) f
    by (simp add: settled_on_def peek_line_def)
  then have "next_loop lib io_ok (Some now) s =
      Some (s\<lparr>sp_pending_identity := Some (identity_of (sha_hex lib) f)\<rparr>, Inr None)"
    by (simp add: next_loop.simps next_turn_def)
  with Nil.prems show ?case by (auto simp: next_ok_def)
next
  case (Cons l ls s f)
  obtain ino b where f: "f = (ino, b)" by fastforce
  from at_line_settled [OF Cons.prems(3,2,4)] f obtain ds where ds: "list_all good_line (ds @ l # ls)"
    "b = render_lines (ds @ l # ls)" "ck_offset (sp_ckpt s) = length (render_lines ds)" by (metis snd_conv)
  let ?n = "ck_offset (sp_ckpt s) + length l + 1"
  define s1 where "s1 = s\<lparr>sp_pending_identity := Some (identity_of (sha_hex lib) f)\<rparr>"
  have peek: "peek_at lib io_ok (ck_offset (sp_ckpt s)) s =
      Inr (case pending_of lib l ?n of Some p \<Rightarrow> Peek_Decoded p | None \<Rightarrow> Peek_Undecodable ?n,
           Some (identity_of (sha_hex lib) f))"
    using peek_at_lines [OF ds(1) Cons.prems(1), of ino "ck_offset (sp_ckpt s)" lib] ds(2,3) Cons.prems(2) f
    by (auto simp: settled_on_def peek_line_def split: option.split)
  have held: "held_at lib s1 ?n ls"
    unfolding held_at_def
    using ds Cons.prems(1) f
    by (intro exI [of _ "ds @ [l]"] exI [of _ f] exI [of _ "identity_of (sha_hex lib) f"]) (simp add: s1_def)
  show ?case
  proof (cases "pending_of lib l ?n")
    case (Some p)
    then have "next_loop lib io_ok (Some now) s = Some (s1, Inr (Some p))"
      using peek by (simp add: next_loop.simps next_turn_def s1_def)
    moreover have "\<not> undecodable lib l" using Some by (metis option.distinct(1) pending_of_None)
    ultimately show ?thesis
      using held Some Cons.prems by (auto simp: next_ok_def s1_def intro!: exI [of _ ?n])
  next
    case None
    obtain s2 where s2: "commit_past io_ok (Some now) ?n 1 s1 = (s2, Inr ())" "committed lib s1 s2 ls"
      using commit_past_spec [OF held] by metis
    then obtain f2 where f2: "sp_file s2 = Some f2" "settled_on lib f2 (sp_ckpt s2)"
      "at_line lib (Some f2) (sp_ckpt s2)" "queue lib (Some f2) (sp_ckpt s2) = ls" "sp_inode s2 = sp_inode s"
      by (auto simp: committed_def s1_def)
    have "next_loop lib io_ok (Some now) s = next_loop lib io_ok (Some now) s2"
      using peek None s2(1) by (subst next_loop.simps) (simp add: next_turn_def s1_def)
    moreover have "undecodable lib l" using None by (simp add: pending_of_None)
    ultimately show ?thesis using Cons.IH [OF f2(1-4)] f2(5) by (auto simp: next_ok_def)
  qed
qed

section \<open>The loop ends\<close>

text \<open>The records a tail returns lie behind its offset and within the file, for every file and every
  outcome of the file calls; so each turn of the loop of \<open>next\<close> either returns, or moves the offset
  forward on the file, after at most one restart.\<close>

lemma collect_lines_bounds:
  "l \<in> set (collect_lines pos segs) \<Longrightarrow>
     pos \<le> tl_offset l \<and> tl_offset l < pos + sum_list (map (\<lambda>seg. length seg + 1) segs)"
  by (induction pos segs rule: collect_lines.induct) (fastforce simp: Let_def split: if_splits)+

lemma collect_lines_second:
  "collect_lines pos segs = x # y # zs \<Longrightarrow> pos < tl_offset y"
proof (induction pos segs rule: collect_lines.induct)
  case (2 pos seg segs)
  then show ?case
    using collect_lines_bounds [of y "pos + length seg + 1" segs] by (force simp: Let_def split: if_splits)
qed simp

lemma tail_drain_boundary:
  assumes "tail_drain io sha (Some f) off known = Inr d" and "restarted d = None"
    and "dr_lines d = first # rest"
    and "n = (case rest of [] \<Rightarrow> next_offset d | second # _ \<Rightarrow> tl_offset second)"
  shows "off < n \<and> n \<le> length (snd f)"
proof -
  define b where "b = take MAX_READ (drop off (snd f))"
  from assms(1-3) obtain i where i: "rposition_nl b = Some i"
    and d: "dr_lines d = collect_lines off (split_nl (take (Suc i) b))" "next_offset d = off + i + 1"
    by (auto simp: tail_drain_def Let_def b_def split: option.splits if_splits)
  have "i < length b" by (rule rposition_nl_bound [OF i])
  then have i': "off + i + 1 \<le> length (snd f)" unfolding b_def by (simp, linarith)
  show ?thesis
  proof (cases rest)
    case Nil
    with assms(4) d(2) i' show ?thesis by simp
  next
    case (Cons second more_lines)
    with assms(3) d(1) have "off < tl_offset second" using collect_lines_second by metis
    moreover have "tl_offset second < off + (length (take (Suc i) b) + 1)"
      using collect_lines_bounds [of second off "split_nl (take (Suc i) b)"] assms(3) d(1) Cons
      unfolding split_nl_lengths by simp
    ultimately show ?thesis using Cons assms(4) i' by simp
  qed
qed

lemma tail_drain_identity:
  "tail_drain io sha (Some f) off known = Inr d \<Longrightarrow>
     dr_identity d = Some (identity_of sha f) \<and> restarted d = identity_restart sha known f off"
  by (auto simp: tail_drain_def Let_def split: option.splits if_splits)

lemma peek_at_undecodable:
  assumes "peek_at lib io off s = Inr (Peek_Undecodable n, ident)" and "sp_file s = Some f"
  shows "off < n \<and> n \<le> length (snd f) \<and> ident = Some (identity_of (sha_hex lib) f)"
proof -
  from assms obtain d first rest where d: "tail_drain io (sha_hex lib) (Some f) off (ck_spool (sp_ckpt s)) = Inr d"
    "restarted d = None" "dr_lines d = first # rest" "ident = dr_identity d"
    and n: "n = (case rest of [] \<Rightarrow> next_offset d | second # _ \<Rightarrow> tl_offset second)"
    by (auto simp: peek_at_def Let_def split: sum.splits list.splits option.splits if_splits prod.splits)
  show ?thesis using tail_drain_boundary [OF d(1-3) n] tail_drain_identity [OF d(1)] d(4) by simp
qed

lemma peek_at_restarted:
  assumes "peek_at lib io off s = Inr (Peek_Restarted, ident)"
  obtains f where "sp_file s = Some f" "identity_restart (sha_hex lib) (ck_spool (sp_ckpt s)) f off \<noteq> None"
    "ident = Some (identity_of (sha_hex lib) f)"
proof (cases "sp_file s")
  case None
  with assms show ?thesis by (auto simp: peek_at_def tail_drain_def split: if_splits)
next
  case (Some f)
  with assms that show ?thesis
    by (auto simp: peek_at_def Let_def dest!: tail_drain_identity
        split: sum.splits list.splits option.splits if_splits)
qed

lemma peek_at_no_file: "sp_file s = None \<Longrightarrow> peek_at lib io off s = Inr (pk, ident) \<Longrightarrow> pk = Peek_Empty"
  by (auto simp: peek_at_def tail_drain_def split: if_splits)

text \<open>The checkpoint a commit moves to, before it is stored and whether or not the clock can be read.\<close>

definition committed_ckpt :: "nat option \<Rightarrow> nat \<Rightarrow> nat \<Rightarrow> dspool \<Rightarrow> checkpoint" where
  "committed_ckpt clock n lost s =
     fst (record_discard clock lost ((sp_ckpt s)\<lparr>ck_spool := sp_pending_identity s, ck_offset := n\<rparr>))"

lemma committed_ckpt_simps [simp]:
  "ck_offset (committed_ckpt clock n lost s) = n"
  "ck_spool (committed_ckpt clock n lost s) = sp_pending_identity s"
  by (auto simp: committed_ckpt_def record_discard_def Let_def split: option.split)

lemma commit_past_cases:
  "commit_past io clock n lost s =
     (let s1 = s\<lparr>sp_ckpt := committed_ckpt clock n lost s\<rparr>
      in if lost \<noteq> 0 \<and> clock = None then (s1, Inl Clock_failed)
         else if \<not> io IO_store then (s1, Inl (Io_failed IO_store))
         else if \<not> io IO_store_sync
              then (s1\<lparr>sp_stored := Some (sp_ckpt s1)\<rparr>, Inl (Io_failed IO_store_sync))
         else try_reclaim io (s1\<lparr>sp_stored := Some (sp_ckpt s1)\<rparr>))"
  by (auto simp: commit_past_def committed_ckpt_def record_discard_def checkpoint_store_def Let_def
      split: option.split)

text \<open>A commit that succeeds leaves the checkpoint settled, and fewer bytes behind it.\<close>

lemma commit_past_progress:
  assumes "commit_past io clock n lost s = (s', Inr u)" and "sp_file s = Some f"
    and "sp_pending_identity s = Some (identity_of (sha_hex lib) f)"
    and "ck_offset (sp_ckpt s) < n" and "n \<le> length (snd f)"
  obtains f' where "sp_file s' = Some f'" "settled_on lib f' (sp_ckpt s')"
    "length (snd f') - ck_offset (sp_ckpt s') < length (snd f) - ck_offset (sp_ckpt s)"
proof -
  define c where "c = committed_ckpt clock n lost s"
  have c: "ck_offset c = n" "ck_spool c = Some (identity_of (sha_hex lib) f)"
    using assms(3) by (simp_all add: c_def)
  have step: "try_reclaim io (s\<lparr>sp_ckpt := c, sp_stored := Some c\<rparr>) = (s', Inr u)"
    using assms(1) by (auto simp: commit_past_cases c_def Let_def split: if_splits)
  have "(sp_file s' = Some f \<and> sp_ckpt s' = c) \<or>
        (\<exists>ino. sp_file s' = Some (ino, []) \<and> ck_offset (sp_ckpt s') = 0 \<and> ck_spool (sp_ckpt s') = None)"
    using step assms(2)
    by (auto simp: try_reclaim_def checkpoint_store_def Checkpoint_restart_def Let_def
        split: if_splits prod.splits)
  then show ?thesis
  proof
    assume a: "sp_file s' = Some f \<and> sp_ckpt s' = c"
    with c assms(5) have "settled_on lib f (sp_ckpt s')" by (intro settled_onI) auto
    with a c assms(4,5) show ?thesis by (intro that [of f]) auto
  next
    assume "\<exists>ino. sp_file s' = Some (ino, []) \<and> ck_offset (sp_ckpt s') = 0 \<and> ck_spool (sp_ckpt s') = None"
    then obtain ino where a: "sp_file s' = Some (ino, [])" "ck_offset (sp_ckpt s') = 0" "ck_spool (sp_ckpt s') = None"
      by blast
    then have "settled_on lib (ino, []) (sp_ckpt s')" by (intro settled_onI) auto
    with a assms(4,5) show ?thesis by (intro that [of "(ino, [])"]) auto
  qed
qed

lemma next_loop_ends_settled:
  "sp_file s = Some f \<Longrightarrow> settled_on lib f (sp_ckpt s) \<Longrightarrow> \<exists>r. next_loop lib io clock s = Some r"
proof (induction "length (snd f) - ck_offset (sp_ckpt s)" arbitrary: s f rule: less_induct)
  case less
  show ?case
  proof (cases "peek_at lib io (ck_offset (sp_ckpt s)) s")
    case (Inl e)
    then show ?thesis by (simp add: next_loop.simps next_turn_def)
  next
    case (Inr a)
    obtain pk ident where a: "a = (pk, ident)" by fastforce
    show ?thesis
    proof (cases pk)
      case Peek_Restarted
      with Inr a less.prems show ?thesis by (metis option.inject peek_at_restarted settled_on_def)
    next
      case (Peek_Undecodable n)
      let ?s1 = "s\<lparr>sp_pending_identity := ident\<rparr>"
      from Inr a Peek_Undecodable less.prems(1)
      have n: "ck_offset (sp_ckpt s) < n" "n \<le> length (snd f)" "ident = Some (identity_of (sha_hex lib) f)"
        using peek_at_undecodable by blast+
      show ?thesis
      proof (cases "snd (commit_past io clock n 1 ?s1)")
        case (Inr u)
        then obtain s2 where s2: "commit_past io clock n 1 ?s1 = (s2, Inr u)" by (metis prod.collapse)
        then obtain f2 where "sp_file s2 = Some f2" "settled_on lib f2 (sp_ckpt s2)"
          "length (snd f2) - ck_offset (sp_ckpt s2) < length (snd f) - ck_offset (sp_ckpt ?s1)"
          using commit_past_progress [of io clock n 1 ?s1 s2 u f lib] n less.prems(1) by auto
        with less.hyps obtain r where "next_loop lib io clock s2 = Some r" by fastforce
        with \<open>peek_at lib io (ck_offset (sp_ckpt s)) s = Inr a\<close> a Peek_Undecodable s2 show ?thesis
          by (subst next_loop.simps) (simp add: next_turn_def)
      qed (use Inr a Peek_Undecodable in \<open>subst next_loop.simps, auto simp: next_turn_def split: prod.splits sum.splits\<close>)
    qed (use Inr a in \<open>simp_all add: next_loop.simps [of lib io clock s] next_turn_def\<close>)
  qed
qed

lemma next_loop_total: "\<exists>r. next_loop lib io clock s = Some r"
proof (cases "\<exists>ident. peek_at lib io (ck_offset (sp_ckpt s)) s = Inr (Peek_Restarted, ident)")
  case True
  then obtain ident where pk: "peek_at lib io (ck_offset (sp_ckpt s)) s = Inr (Peek_Restarted, ident)" ..
  then obtain f where f: "sp_file s = Some f" "ident = Some (identity_of (sha_hex lib) f)"
    by (rule peek_at_restarted)
  define s1 where "s1 = s\<lparr>sp_pending_identity := ident, sp_ckpt := (Checkpoint_restart (sp_ckpt s))\<lparr>ck_spool := ident\<rparr>\<rparr>"
  have "settled_on lib f (sp_ckpt s1)" using f(2) by (intro settled_onI) (auto simp: s1_def Checkpoint_restart_def)
  moreover have "sp_file s1 = Some f" using f(1) by (simp add: s1_def)
  ultimately obtain r where "next_loop lib io clock s1 = Some r" using next_loop_ends_settled by blast
  moreover have "next_loop lib io clock s = next_loop lib io clock s1"
    using pk by (subst next_loop.simps) (simp add: next_turn_def s1_def Let_def)
  ultimately show ?thesis by simp
next
  case False
  show ?thesis
  proof (cases "sp_file s")
    case None
    then have "\<exists>y. next_turn lib io clock s = Inl y"
      using peek_at_no_file [OF None, of lib io "ck_offset (sp_ckpt s)"]
      by (cases "peek_at lib io (ck_offset (sp_ckpt s)) s") (auto simp: next_turn_def)
    then show ?thesis by (subst next_loop.simps) auto
  next
    case (Some f)
    show ?thesis
    proof (cases "settled_on lib f (sp_ckpt s)")
      case unsettled: False
      then have "\<exists>r. identity_restart (sha_hex lib) (ck_spool (sp_ckpt s)) f (ck_offset (sp_ckpt s)) = Some r"
        by (auto simp: settled_on_def)
      then have "\<exists>e. peek_at lib io (ck_offset (sp_ckpt s)) s = Inl e"
        using False Some
        by (auto simp: peek_at_def Let_def dest!: tail_drain_identity split: sum.splits)
      then show ?thesis by (auto simp: next_loop.simps next_turn_def)
    qed (use Some next_loop_ends_settled in blast)
  qed
qed

end
