(* ===== verification/Daemon_Spool_Safety.thy ===== *)
theory Daemon_Spool_Safety
  imports Daemon_Spool_Correct
begin

text \<open>
  The durable spool as a state machine: retaining, reading, peeking ahead, advancing, recording a
  refusal, discarding, compacting and crashing, in any order and with any outcome of the file calls
  and of the clock. A crash in the middle of an operation is a failing call followed by a reopening:
  a failing call leaves what the calls before it did.

  Two ghost components say what the machine has promised: the lines that were written, in order,
  and the positions the drain has settled (delivered or given up on). The invariant is that every
  written line is settled, or cannot be decoded, or is still in the queue, both of the checkpoint in
  memory and of the stored one.
\<close>

section \<open>The invariant\<close>

text \<open>A position up to which every line is accounted for.\<close>

definition accounted :: "spool_lib \<Rightarrow> string list \<Rightarrow> nat set \<Rightarrow> nat \<Rightarrow> bool" where
  "accounted lib ws D n \<longleftrightarrow> n \<le> length ws \<and> (\<forall>k<n. k \<in> D \<or> undecodable lib (ws ! k))"

text \<open>Inodes are never reused: every recorded one is below the next fresh one.\<close>

definition known_id :: "nat \<Rightarrow> identity option \<Rightarrow> bool" where
  "known_id fresh i = (case i of None \<Rightarrow> True | Some r \<Rightarrow> (\<exists>j<fresh. id_inode r = Some j))"

definition ckpt_ok ::
  "spool_lib \<Rightarrow> string list \<Rightarrow> nat set \<Rightarrow> disk_file option \<Rightarrow> nat \<Rightarrow> checkpoint \<Rightarrow> bool" where
  "ckpt_ok lib ws D file fresh c \<longleftrightarrow>
     known_id fresh (ck_spool c) \<and> (ck_spool c = None \<longrightarrow> ck_offset c = 0) \<and>
     at_line lib file c \<and> (\<exists>n. accounted lib ws D n \<and> queue lib file c = drop n ws)"

definition spool_inv :: "spool_lib \<Rightarrow> string list \<Rightarrow> nat set \<Rightarrow> dspool \<Rightarrow> bool" where
  "spool_inv lib ws D s \<longleftrightarrow>
     ckpt_ok lib ws D (sp_file s) (sp_inode s) (sp_ckpt s) \<and>
     ckpt_ok lib ws D (sp_file s) (sp_inode s) (checkpoint_load (sp_stored s)) \<and>
     known_id (sp_inode s) (sp_pending_identity s) \<and>
     (\<forall>f. sp_file s = Some f \<longrightarrow> fst f < sp_inode s)"

lemma accounted_mono: "accounted lib ws D n \<Longrightarrow> D \<subseteq> D' \<Longrightarrow> accounted lib ws D' n"
  by (auto simp: accounted_def)

lemma accounted_append: "accounted lib ws D n \<Longrightarrow> accounted lib (ws @ [l]) D n"
  by (auto simp: accounted_def nth_append)

lemma ckpt_ok_mono: "ckpt_ok lib ws D file fresh c \<Longrightarrow> D \<subseteq> D' \<Longrightarrow> ckpt_ok lib ws D' file fresh c"
  by (auto simp: ckpt_ok_def intro: accounted_mono)

lemma spool_inv_mono: "spool_inv lib ws D s \<Longrightarrow> D \<subseteq> D' \<Longrightarrow> spool_inv lib ws D' s"
  by (auto simp: spool_inv_def intro: ckpt_ok_mono)

lemma known_id_mono: "known_id fresh i \<Longrightarrow> fresh \<le> fresh' \<Longrightarrow> known_id fresh' i"
  by (auto simp: known_id_def split: option.splits)

lemma known_id_of [simp]: "known_id fresh (Some (identity_of sha f)) \<longleftrightarrow> fst f < fresh"
  by (simp add: known_id_def identity_of_def identity_read_def Let_def)

text \<open>What the queue of a checkpoint depends on.\<close>

lemma same_view:
  assumes "ck_offset c' = ck_offset c" and "ck_spool c' = ck_spool c"
  shows "settled_on lib f c' = settled_on lib f c" "at_line lib file c' = at_line lib file c"
    "queue lib file c' = queue lib file c" "ckpt_ok lib ws D file fresh c' = ckpt_ok lib ws D file fresh c"
  unfolding settled_on_def at_line_def queue_def effective_def ckpt_ok_def assms by (rule refl)+

lemma ckpt_okI:
  assumes "list_all good_line (ds @ drop n ws)" and "b = render_lines (ds @ drop n ws)"
    and "effective lib (ino, b) c = length (render_lines ds)" and "accounted lib ws D n"
    and "known_id fresh (ck_spool c)" and "ck_spool c = None \<Longrightarrow> ck_offset c = 0"
  shows "ckpt_ok lib ws D (Some (ino, b)) fresh c"
  using at_lineI [of ds "drop n ws" "(ino, b)" lib c] assms by (auto simp: ckpt_ok_def)

section \<open>Commits\<close>

text \<open>A commit to a position up to which everything is accounted for keeps the invariant, whatever
  fails on the way.\<close>

lemma effective_truncated: "0 < ck_offset c \<Longrightarrow> effective lib (ino, []) c = 0"
  by (simp add: effective_def identity_restart_def)

lemma try_reclaim_inv:
  assumes inv: "spool_inv lib ws D s" and st: "sp_stored s = Some (sp_ckpt s)"
    and f: "sp_file s = Some (ino, b)" and set: "settled_on lib (ino, b) (sp_ckpt s)"
    and step: "try_reclaim io s = (s', r)"
  shows "spool_inv lib ws D s'"
proof (cases "sp_file s' = Some (ino, []) \<and> ck_offset (sp_ckpt s) = length b \<and> 0 < ck_offset (sp_ckpt s)")
  case True
  let ?c = "sp_ckpt s"
  from inv f have ok: "ckpt_ok lib ws D (Some (ino, b)) (sp_inode s) ?c" "ino < sp_inode s"
    by (auto simp: spool_inv_def)
  from ok(1) obtain n where n: "accounted lib ws D n" "queue lib (Some (ino, b)) ?c = drop n ws"
    by (auto simp: ckpt_ok_def)
  have "drop n ws = []" using n(2) set True by (simp add: queue_def)
  have ck: "ckpt_ok lib ws D (Some (ino, [])) (sp_inode s) c"
    if "effective lib (ino, []) c = 0" "known_id (sp_inode s) (ck_spool c)" "ck_spool c = None \<Longrightarrow> ck_offset c = 0" for c
    using ckpt_okI [of "[]" n ws "[]" lib ino c D "sp_inode s"] that n(1) \<open>drop n ws = []\<close> by simp
  have stale: "ckpt_ok lib ws D (Some (ino, [])) (sp_inode s) ?c"
    using ok(1) True by (intro ck) (auto simp: effective_truncated ckpt_ok_def)
  have fresh: "ckpt_ok lib ws D (Some (ino, [])) (sp_inode s) ((Checkpoint_restart ?c)\<lparr>ck_spool := None\<rparr>)"
    by (intro ck) (auto simp: effective_def Checkpoint_restart_def identity_restart_def known_id_def)
  from step True f stale fresh ok(2) inv st show ?thesis
    by (auto simp: try_reclaim_def checkpoint_store_def Let_def spool_inv_def checkpoint_load_def
        split: if_splits)
next
  case False
  then have "s' = s" using step f
    by (auto simp: try_reclaim_def checkpoint_store_def Let_def RECLAIM_ABOVE_def split: if_splits)
  with inv show ?thesis by simp
qed

lemma commit_past_inv:
  assumes inv: "spool_inv lib ws D s" and held: "held_at lib s n (drop j ws)"
    and acc: "accounted lib ws D j" and step: "commit_past io clock n lost s = (s', r)"
  shows "spool_inv lib ws D s'"
proof -
  from held obtain ds ino b i where h: "sp_file s = Some (ino, b)" "list_all good_line (ds @ drop j ws)"
    "b = render_lines (ds @ drop j ws)" "n = length (render_lines ds)" "sp_pending_identity s = Some i"
    "same (sha_hex lib) i (ino, b)" unfolding held_at_def by auto
  define c where "c = committed_ckpt clock n lost s"
  have c: "ck_offset c = n" "ck_spool c = Some i" using h(5) by (simp_all add: c_def)
  have set: "settled_on lib (ino, b) c" using c h(3,4,6) by (intro settled_onI) auto
  have ok: "ckpt_ok lib ws D (Some (ino, b)) (sp_inode s) c"
    using inv h c set acc by (intro ckpt_okI [of ds j]) (auto simp: spool_inv_def)
  define s1 where "s1 = s\<lparr>sp_ckpt := c\<rparr>"
  have inv1: "spool_inv lib ws D s1" using inv ok h(1) by (auto simp: spool_inv_def s1_def)
  then have inv2: "spool_inv lib ws D (s1\<lparr>sp_stored := Some c\<rparr>)"
    by (simp add: spool_inv_def s1_def checkpoint_load_def)
  show ?thesis
  proof (cases "s' = s1 \<or> s' = s1\<lparr>sp_stored := Some c\<rparr>")
    case False
    then have "try_reclaim io (s1\<lparr>sp_stored := Some c\<rparr>) = (s', r)"
      using step by (auto simp: commit_past_cases Let_def s1_def c_def split: if_splits)
    then show ?thesis
      using try_reclaim_inv [OF inv2, of ino b io s' r] h(1) set by (simp add: s1_def)
  qed (use inv1 inv2 in auto)
qed

section \<open>Reading\<close>

text \<open>The record in flight: the one that was read and not yet settled, the last record of the walk
  that looks ahead of it, and the positions of both.\<close>

record flight =
  fl_stuck :: pending
  fl_cursor :: pending
  fl_from :: nat
  fl_to :: nat

definition flight_ok :: "spool_lib \<Rightarrow> string list \<Rightarrow> nat set \<Rightarrow> dspool \<Rightarrow> flight \<Rightarrow> bool" where
  "flight_ok lib ws D s fl \<longleftrightarrow>
     fl_from fl \<le> fl_to fl \<and> fl_to fl < length ws \<and> accounted lib ws D (fl_from fl) \<and>
     pending_of lib (ws ! fl_from fl) (p_boundary (fl_stuck fl)) = Some (fl_stuck fl) \<and>
     pending_of lib (ws ! fl_to fl) (p_boundary (fl_cursor fl)) = Some (fl_cursor fl) \<and>
     held_at lib s (p_boundary (fl_cursor fl)) (drop (Suc (fl_to fl)) ws) \<and>
     (\<forall>f. sp_file s = Some f \<longrightarrow> settled_on lib f (sp_ckpt s))"

text \<open>What a tail that succeeds returns, whatever the other calls do: the read does not depend on
  which other calls would fail.\<close>

lemma tail_drain_io_ok:
  "tail_drain io sha file off known = Inr d \<Longrightarrow> tail_drain io_ok sha file off known = Inr d"
  by (cases "file") (auto simp: tail_drain_def split: if_splits)

lemma peek_at_io_ok: "peek_at lib io off s = Inr r \<Longrightarrow> peek_at lib io_ok off s = Inr r"
  by (auto simp: peek_at_def dest: tail_drain_io_ok split: sum.splits)

text \<open>A read at a line boundary of a file the checkpoint is settled on.\<close>

lemma peek_at_held:
  assumes "list_all good_line (ds @ qs)" and "sp_file s = Some (ino, render_lines (ds @ qs))"
    and "settled_on lib (ino, render_lines (ds @ qs)) (sp_ckpt s)"
    and "peek_at lib io (length (render_lines ds)) s = Inr (pk, ident)"
  shows "pk = peek_line lib (length (render_lines ds)) qs"
    "ident = Some (identity_of (sha_hex lib) (ino, render_lines (ds @ qs)))"
proof -
  have "identity_restart (sha_hex lib) (ck_spool (sp_ckpt s)) (ino, render_lines (ds @ qs)) (length (render_lines ds)) = None"
    using assms(3) by (auto simp: settled_on_def identity_restart_def split: option.splits if_splits)
  from peek_at_lines [OF assms(1,2) refl refl this] peek_at_io_ok [OF assms(4)]
  show "pk = peek_line lib (length (render_lines ds)) qs"
    "ident = Some (identity_of (sha_hex lib) (ino, render_lines (ds @ qs)))" by auto
qed

text \<open>Where the checkpoint in memory stands in the lines that were written.\<close>

lemma ckpt_at:
  assumes "ckpt_ok lib ws D (Some (ino, b)) fresh c" and "settled_on lib (ino, b) c"
  obtains ds n where "accounted lib ws D n" "list_all good_line (ds @ drop n ws)"
    "b = render_lines (ds @ drop n ws)" "ck_offset c = length (render_lines ds)"
proof -
  from assms(1) obtain n where n: "accounted lib ws D n" "queue lib (Some (ino, b)) c = drop n ws"
    "at_line lib (Some (ino, b)) c" by (auto simp: ckpt_ok_def)
  from at_line_settled [OF n(3) assms(2) n(2)] n(1) that show ?thesis by (metis snd_conv)
qed

lemma peek_line_Nil: "peek_line lib off [] = Peek_Empty"
  by (simp add: peek_line_def)

lemma peek_at_identity:
  assumes "peek_at lib io off s = Inr (pk, ident)"
  shows "ident = map_option (identity_of (sha_hex lib)) (sp_file s)"
proof (cases "sp_file s")
  case None
  with assms show ?thesis by (auto simp: peek_at_def tail_drain_def split: if_splits)
next
  case (Some f)
  with assms show ?thesis
    by (auto simp: peek_at_def Let_def dest!: tail_drain_identity split: sum.splits list.splits if_splits)
qed

lemma spool_inv_identity:
  "spool_inv lib ws D s \<Longrightarrow> peek_at lib io off s = Inr (pk, ident) \<Longrightarrow>
     spool_inv lib ws D (s\<lparr>sp_pending_identity := ident\<rparr>)"
  using peek_at_identity [of lib io off s pk ident]
  by (cases "sp_file s") (auto simp: spool_inv_def known_id_def [of _ None])

text \<open>A read at the checkpoint that finds a line finds the first line of the queue.\<close>

lemma current_read:
  assumes inv: "spool_inv lib ws D s" and pk: "peek_at lib io (ck_offset (sp_ckpt s)) s = Inr (pk, ident)"
    and ne: "pk \<noteq> Peek_Restarted" "pk \<noteq> Peek_Empty"
  obtains n m where "n < length ws" "accounted lib ws D n" "queue lib (sp_file s) (sp_ckpt s) = drop n ws"
    "pk = (case pending_of lib (ws ! n) m of Some p \<Rightarrow> Peek_Decoded p | None \<Rightarrow> Peek_Undecodable m)"
    "held_at lib (s\<lparr>sp_pending_identity := ident\<rparr>) m (drop (Suc n) ws)"
    "\<And>f. sp_file s = Some f \<Longrightarrow> settled_on lib f (sp_ckpt s)"
proof -
  obtain ino b where f: "sp_file s = Some (ino, b)" using pk ne(2) peek_at_no_file by fastforce
  have set: "settled_on lib (ino, b) (sp_ckpt s)"
  proof (rule ccontr)
    assume "\<not> settled_on lib (ino, b) (sp_ckpt s)"
    with pk f ne(1) show False
      by (auto simp: settled_on_def peek_at_def Let_def dest!: tail_drain_identity split: sum.splits list.splits)
  qed
  have ck: "ckpt_ok lib ws D (Some (ino, b)) (sp_inode s) (sp_ckpt s)" using inv f by (simp add: spool_inv_def)
  from ckpt_at [OF ck set] obtain ds n where d: "accounted lib ws D n" "list_all good_line (ds @ drop n ws)"
    "b = render_lines (ds @ drop n ws)" "ck_offset (sp_ckpt s) = length (render_lines ds)" by metis
  have r: "pk = peek_line lib (length (render_lines ds)) (drop n ws)"
    "ident = Some (identity_of (sha_hex lib) (ino, b))"
    using peek_at_held [OF d(2), of s ino lib io pk ident] f set pk d(3,4) by simp_all
  with ne(2) have n: "n < length ws" using peek_line_Nil [of lib "length (render_lines ds)"] by (metis drop_all leI)
  then have dr: "drop n ws = ws ! n # drop (Suc n) ws" by (simp add: Cons_nth_drop_Suc)
  let ?m = "length (render_lines ds) + length (ws ! n) + 1"
  have "held_at lib (s\<lparr>sp_pending_identity := ident\<rparr>) ?m (drop (Suc n) ws)"
    unfolding held_at_def
    using d(2,3) dr f r(2)
    by (intro exI [of _ "ds @ [ws ! n]"] exI [of _ "(ino, b)"] exI [of _ "identity_of (sha_hex lib) (ino, b)"]) simp
  moreover have "pk = (case pending_of lib (ws ! n) ?m of Some p \<Rightarrow> Peek_Decoded p | None \<Rightarrow> Peek_Undecodable ?m)"
    using r(1) dr by (simp add: peek_line_def)
  moreover have "queue lib (sp_file s) (sp_ckpt s) = drop n ws"
    using at_lineI(2) [of ds "drop n ws" "(ino, b)" lib "sp_ckpt s"] d set f by simp
  ultimately show ?thesis using n d(1) f set by (intro that [of n ?m]) auto
qed

definition read_ok :: "spool_lib \<Rightarrow> string list \<Rightarrow> nat set \<Rightarrow> dspool \<Rightarrow> spool_error + pending option \<Rightarrow> bool" where
  "read_ok lib ws D s r \<longleftrightarrow> spool_inv lib ws D s \<and>
     (\<forall>p. r = Inr (Some p) \<longrightarrow>
       (\<exists>n. flight_ok lib ws D s \<lparr>fl_stuck = p, fl_cursor = p, fl_from = n, fl_to = n\<rparr> \<and>
            queue lib (sp_file s) (sp_ckpt s) = drop n ws))"

lemma restart_inv:
  assumes inv: "spool_inv lib ws D s" and pk: "peek_at lib io (ck_offset (sp_ckpt s)) s = Inr (Peek_Restarted, ident)"
  shows "spool_inv lib ws D (s\<lparr>sp_pending_identity := ident,
           sp_ckpt := (Checkpoint_restart (sp_ckpt s))\<lparr>ck_spool := ident\<rparr>\<rparr>)"
proof -
  from pk obtain f where f: "sp_file s = Some f" "ident = Some (identity_of (sha_hex lib) f)"
    and rs: "identity_restart (sha_hex lib) (ck_spool (sp_ckpt s)) f (ck_offset (sp_ckpt s)) \<noteq> None"
    by (rule peek_at_restarted)
  let ?c = "(Checkpoint_restart (sp_ckpt s))\<lparr>ck_spool := ident\<rparr>"
  have "settled_on lib f ?c" using f(2) by (intro settled_onI) (auto simp: Checkpoint_restart_def)
  then have "effective lib f ?c = effective lib f (sp_ckpt s)"
    using rs by (auto simp: effective_def settled_on_def Checkpoint_restart_def)
  then have "ckpt_ok lib ws D (Some f) (sp_inode s) ?c"
    using inv f by (auto simp: spool_inv_def ckpt_ok_def at_line_def queue_def)
  then show ?thesis using inv f by (auto simp: spool_inv_def)
qed

text \<open>The rule of invariants for the loop.\<close>

lemma next_loop_invariant:
  assumes "next_loop lib io clock s = Some y" and "I s"
    and turn: "\<And>s s'. I s \<Longrightarrow> next_turn lib io clock s = Inr s' \<Longrightarrow> I s'"
    and exit: "\<And>s y. I s \<Longrightarrow> next_turn lib io clock s = Inl y \<Longrightarrow> Q y"
  shows "Q y"
proof -
  have "lib' = lib \<longrightarrow> io' = io \<longrightarrow> clock' = clock \<longrightarrow> I s \<longrightarrow> Q y"
    if "next_loop lib' io' clock' s = Some y" for lib' io' clock' s y
    using that
    by (rule next_loop.raw_induct [where P = "\<lambda>l i c s y. l = lib \<longrightarrow> i = io \<longrightarrow> c = clock \<longrightarrow> I s \<longrightarrow> Q y", rotated])
      (auto dest: turn exit split: sum.splits)
  with assms(1,2) show ?thesis by blast
qed

lemma next_turn_inv:
  assumes inv: "spool_inv lib ws D s"
  shows next_turn_round: "next_turn lib io clock s = Inr s' \<Longrightarrow> spool_inv lib ws D s'"
    and next_turn_exit: "next_turn lib io clock s = Inl y \<Longrightarrow> read_ok lib ws D (fst y) (snd y)"
proof -
  have "(next_turn lib io clock s = Inr s' \<longrightarrow> spool_inv lib ws D s') \<and>
        (next_turn lib io clock s = Inl y \<longrightarrow> read_ok lib ws D (fst y) (snd y))"
  proof (cases "peek_at lib io (ck_offset (sp_ckpt s)) s")
    case (Inl e)
    with inv show ?thesis by (auto simp: next_turn_def read_ok_def)
  next
    case (Inr a)
    obtain pk ident where a: "a = (pk, ident)" by fastforce
    let ?s1 = "s\<lparr>sp_pending_identity := ident\<rparr>"
    have inv1: "spool_inv lib ws D ?s1" using spool_inv_identity [OF inv] Inr a by simp
    show ?thesis
    proof (cases "pk = Peek_Restarted \<or> pk = Peek_Empty")
      case True
      with inv1 Inr a restart_inv [OF inv, of io ident] show ?thesis
        by (auto simp: next_turn_def read_ok_def)
    next
      case False
      with Inr a obtain n m where n: "n < length ws" "accounted lib ws D n"
        "queue lib (sp_file s) (sp_ckpt s) = drop n ws"
        "pk = (case pending_of lib (ws ! n) m of Some p \<Rightarrow> Peek_Decoded p | None \<Rightarrow> Peek_Undecodable m)"
        "held_at lib ?s1 m (drop (Suc n) ws)" "\<And>f. sp_file s = Some f \<Longrightarrow> settled_on lib f (sp_ckpt s)"
        using current_read [OF inv, of io pk ident] by metis
      show ?thesis
      proof (cases "pending_of lib (ws ! n) m")
        case None
        then have "undecodable lib (ws ! n)" by (simp add: pending_of_None)
        then have "accounted lib ws D (Suc n)" using n(1,2) by (auto simp: accounted_def less_Suc_eq)
        then have c: "spool_inv lib ws D (fst (commit_past io clock m 1 ?s1))"
          using commit_past_inv [OF inv1 n(5)] by (metis prod.collapse)
        with Inr a n(4) None show ?thesis
          by (auto simp: next_turn_def read_ok_def split: prod.splits sum.splits)
      next
        case (Some p)
        then have b: "p_boundary p = m" by (rule pending_of_boundary)
        have "flight_ok lib ws D ?s1 \<lparr>fl_stuck = p, fl_cursor = p, fl_from = n, fl_to = n\<rparr>"
          using n Some b by (simp add: flight_ok_def)
        with Inr a n(3,4) Some inv1 show ?thesis by (auto simp: next_turn_def read_ok_def)
      qed
    qed
  qed
  then show "next_turn lib io clock s = Inr s' \<Longrightarrow> spool_inv lib ws D s'"
    and "next_turn lib io clock s = Inl y \<Longrightarrow> read_ok lib ws D (fst y) (snd y)" by blast+
qed

lemma next_pending_inv:
  assumes "next_pending lib io clock s = Some (s', r)" and inv: "spool_inv lib ws D s"
  shows "read_ok lib ws D s' r"
proof (cases clock)
  case None
  with assms show ?thesis by (auto simp: next_pending_def read_ok_def)
next
  case (Some now)
  let ?s = "s\<lparr>sp_ckpt := (sp_ckpt s)\<lparr>ck_quarantine := prune now (ck_quarantine (sp_ckpt s))\<rparr>\<rparr>"
  have "spool_inv lib ws D ?s"
    using inv by (simp add: spool_inv_def same_view [of "(sp_ckpt s)\<lparr>ck_quarantine := q\<rparr>" "sp_ckpt s" for q])
  moreover have "next_loop lib io clock ?s = Some (s', r)" using assms(1) Some by (simp add: next_pending_def)
  ultimately have "read_ok lib ws D (fst (s', r)) (snd (s', r))"
    using next_loop_invariant [of lib io clock ?s "(s', r)" "spool_inv lib ws D"
        "\<lambda>y. read_ok lib ws D (fst y) (snd y)"] next_turn_inv by metis
  then show ?thesis by simp
qed

section \<open>Reading and advancing refine a queue\<close>

text \<open>With every file call succeeding, \<open>next\<close> drops the undecodable head of the queue and returns the
  first record of what is left, and \<open>advance\<close> removes it.\<close>

lemma tail_drain_restart:
  assumes "list_all good_line ls" and "identity_restart sha known (ino, render_lines ls) off = Some r"
  shows "\<exists>d. tail_drain io_ok sha (Some (ino, render_lines ls)) off known = Inr d"
proof (cases "fit MAX_READ ls = []")
  case True
  then have "ls = []" using assms(1) by (cases ls) (auto simp: good_lineD split: if_splits)
  with assms(2) show ?thesis by (simp add: tail_drain_def MAX_READ_def Let_def)
next
  case False
  then have "rposition_nl (take MAX_READ (render_lines ls)) = Some (length (render_lines (fit MAX_READ ls)) - 1)"
    using rposition_take_render [OF assms(1)] by simp
  with assms(2) show ?thesis by (simp add: tail_drain_def Let_def)
qed

lemma next_turn_restart:
  assumes f: "sp_file s = Some (ino, render_lines ls)" and good: "list_all good_line ls"
    and unset: "\<not> settled_on lib (ino, render_lines ls) (sp_ckpt s)"
  defines "i \<equiv> Some (identity_of (sha_hex lib) (ino, render_lines ls))"
  shows "next_turn lib io_ok clock s =
    Inr (s\<lparr>sp_pending_identity := i, sp_ckpt := (Checkpoint_restart (sp_ckpt s))\<lparr>ck_spool := i\<rparr>\<rparr>)"
proof -
  from unset obtain r where r: "identity_restart (sha_hex lib) (ck_spool (sp_ckpt s)) (ino, render_lines ls)
      (ck_offset (sp_ckpt s)) = Some r" by (auto simp: settled_on_def)
  from tail_drain_restart [OF good r] obtain d where
    d: "tail_drain io_ok (sha_hex lib) (Some (ino, render_lines ls)) (ck_offset (sp_ckpt s)) (ck_spool (sp_ckpt s)) = Inr d"
    by blast
  from tail_drain_identity [OF d] r f d show ?thesis by (simp add: next_turn_def peek_at_def i_def)
qed

lemma next_loop_refines:
  assumes "at_line lib (sp_file s) (sp_ckpt s)"
  shows "\<exists>s' r. next_loop lib io_ok (Some now) s = Some (s', Inr r) \<and>
    next_ok lib s (dropWhile (undecodable lib) (queue lib (sp_file s) (sp_ckpt s))) s' r"
proof (cases "sp_file s")
  case None
  then have "next_turn lib io_ok (Some now) s = Inl (s\<lparr>sp_pending_identity := None\<rparr>, Inr None)"
    by (simp add: next_turn_def peek_at_def tail_drain_def)
  with None assms show ?thesis by (simp add: next_loop.simps next_ok_def)
next
  case (Some f)
  define qs where "qs = queue lib (Some f) (sp_ckpt s)"
  from assms Some obtain ds where d: "list_all good_line (ds @ qs)" "snd f = render_lines (ds @ qs)"
    "effective lib f (sp_ckpt s) = length (render_lines ds)" unfolding qs_def using at_line_Some by metis
  show ?thesis
  proof (cases "settled_on lib f (sp_ckpt s)")
    case True
    with next_loop_settled [OF Some True _ qs_def [symmetric]] assms Some show ?thesis by (simp add: qs_def)
  next
    case False
    define i where "i = Some (identity_of (sha_hex lib) f)"
    define s1 where "s1 = s\<lparr>sp_pending_identity := i, sp_ckpt := (Checkpoint_restart (sp_ckpt s))\<lparr>ck_spool := i\<rparr>\<rparr>"
    obtain ino where f: "f = (ino, render_lines (ds @ qs))" using d(2) by (metis prod.collapse)
    have turn: "next_turn lib io_ok (Some now) s = Inr s1"
      using next_turn_restart [of s ino "ds @ qs" lib "Some now"] Some False f d(1) by (simp add: s1_def i_def)
    have set: "settled_on lib f (sp_ckpt s1)" by (intro settled_onI) (auto simp: s1_def i_def Checkpoint_restart_def)
    have "effective lib f (sp_ckpt s1) = effective lib f (sp_ckpt s)"
      using False effective_settled [OF set] by (auto simp: effective_def settled_on_def s1_def Checkpoint_restart_def)
    then have "at_line lib (Some f) (sp_ckpt s1)" "queue lib (Some f) (sp_ckpt s1) = qs"
      using at_lineI [OF d(1,2), of lib "sp_ckpt s1"] d(3) by simp_all
    with next_loop_settled [of s1 f lib qs now] set Some obtain s' r where
      n: "next_loop lib io_ok (Some now) s1 = Some (s', Inr r)" "next_ok lib s1 (dropWhile (undecodable lib) qs) s' r"
      by (auto simp: s1_def)
    have "next_loop lib io_ok (Some now) s = Some (s', Inr r)" using turn n(1) by (subst next_loop.simps) simp
    with n(2) Some show ?thesis by (auto simp: next_ok_def s1_def qs_def)
  qed
qed

lemma next_pending_refines:
  assumes "at_line lib (sp_file s) (sp_ckpt s)"
  shows "\<exists>s' r. next_pending lib io_ok (Some now) s = Some (s', Inr r) \<and>
    next_ok lib s (dropWhile (undecodable lib) (queue lib (sp_file s) (sp_ckpt s))) s' r"
proof -
  let ?s = "s\<lparr>sp_ckpt := (sp_ckpt s)\<lparr>ck_quarantine := prune now (ck_quarantine (sp_ckpt s))\<rparr>\<rparr>"
  have "at_line lib (sp_file ?s) (sp_ckpt ?s)"
    "queue lib (sp_file ?s) (sp_ckpt ?s) = queue lib (sp_file s) (sp_ckpt s)"
    using assms by (simp_all add: same_view [of "(sp_ckpt s)\<lparr>ck_quarantine := q\<rparr>" "sp_ckpt s" for q])
  with next_loop_refines [of lib ?s now] show ?thesis by (simp add: next_pending_def next_ok_def)
qed

section \<open>The other operations\<close>

lemma ckpt_ok_append:
  assumes "ckpt_ok lib ws D file fresh c" and "good_line l" and "no_lookalike lib file (l @ [newline]) c"
    and "fresh \<le> fresh'"
  shows "ckpt_ok lib (ws @ [l]) D (Some (appended file ino (l @ [newline]))) fresh' c"
proof -
  from assms(1) obtain n where n: "accounted lib ws D n" "queue lib file c = drop n ws" "at_line lib file c"
    by (auto simp: ckpt_ok_def)
  have "accounted lib (ws @ [l]) D n" "drop n (ws @ [l]) = drop n ws @ [l]"
    using n(1) by (auto simp: accounted_append) (simp add: accounted_def)
  then have "\<exists>n. accounted lib (ws @ [l]) D n \<and>
      queue lib (Some (appended file ino (l @ [newline]))) c = drop n (ws @ [l])"
    using queue_append(2) [OF n(3) assms(2,3), of ino] n(2) by (intro exI [of _ n]) simp
  with queue_append(1) [OF n(3) assms(2,3), of ino] assms(1,4) show ?thesis
    by (auto simp: ckpt_ok_def intro: known_id_mono)
qed

lemma held_at_append:
  assumes "held_at lib s n qs" and "sp_file s = Some (ino, b)" and "good_line l"
    and "sp_pending_identity s' = sp_pending_identity s" and "sp_file s' = Some (ino, b @ l @ [newline])"
  shows "held_at lib s' n (qs @ [l])"
proof -
  from assms(1,2) obtain ds i where h: "list_all good_line (ds @ qs)" "b = render_lines (ds @ qs)"
    "n = length (render_lines ds)" "sp_pending_identity s = Some i" "same (sha_hex lib) i (ino, b)"
    unfolding held_at_def by auto
  moreover have "same (sha_hex lib) i (ino, b @ l @ [newline])" using h(5) by (rule same_append)
  ultimately show ?thesis
    unfolding held_at_def using assms(3-5)
    by (intro exI [of _ ds] exI [of _ "(ino, b @ l @ [newline])"] exI [of _ i]) simp
qed

lemma append_line_file:
  assumes "append_line io l s = (s', r)"
  shows "(s' = s \<and> r \<noteq> Inr ()) \<or>
    (sp_file s' = Some (appended (sp_file s) (sp_inode s) (l @ [newline])) \<and>
     sp_inode s' = (if sp_file s = None then Suc (sp_inode s) else sp_inode s) \<and>
     sp_ckpt s' = sp_ckpt s \<and> sp_stored s' = sp_stored s \<and> sp_pending_identity s' = sp_pending_identity s)"
  using assms by (auto simp: append_line_def appended_def Let_def split: if_splits option.splits)

lemma retain_file:
  assumes "retain lib io sig payload fmt s = (s', r)" and "envelope_encode lib sig payload fmt = Some l"
  shows "(s' = s \<and> r \<noteq> Inr ()) \<or> append_line io l s = (s', r)"
  using assms by (auto simp: retain_def Let_def split: if_splits)

lemma retain_inv:
  assumes inv: "spool_inv lib ws D s" and l: "envelope_encode lib sig payload fmt = Some l" "good_line l"
    and look: "no_lookalike lib (sp_file s) (l @ [newline]) (sp_ckpt s)"
      "no_lookalike lib (sp_file s) (l @ [newline]) (checkpoint_load (sp_stored s))"
    and step: "retain lib io sig payload fmt s = (s', r)"
  shows "(s' = s \<and> r \<noteq> Inr ()) \<or>
    (sp_file s' \<noteq> sp_file s \<and> spool_inv lib (ws @ [l]) D s' \<and>
     (\<forall>fl. flight_ok lib ws D s fl \<longrightarrow> flight_ok lib (ws @ [l]) D s' fl))"
proof (cases "s' = s \<and> r \<noteq> Inr ()")
  case False
  with retain_file [OF step l(1)] have "append_line io l s = (s', r)" by blast
  with append_line_file False
  have s': "sp_file s' = Some (appended (sp_file s) (sp_inode s) (l @ [newline]))"
    "sp_inode s' = (if sp_file s = None then Suc (sp_inode s) else sp_inode s)"
    "sp_ckpt s' = sp_ckpt s" "sp_stored s' = sp_stored s" "sp_pending_identity s' = sp_pending_identity s"
    by blast+
  have inv': "spool_inv lib (ws @ [l]) D s'"
    using inv ckpt_ok_append [OF _ l(2) look(1)] ckpt_ok_append [OF _ l(2) look(2)] s'
    by (auto simp: spool_inv_def appended_def intro: known_id_mono split: option.splits)
  have "flight_ok lib (ws @ [l]) D s' fl" if fl: "flight_ok lib ws D s fl" for fl
  proof -
    from fl obtain ino b where f: "sp_file s = Some (ino, b)" by (auto simp: flight_ok_def held_at_def)
    then have f': "sp_file s' = Some (ino, b @ l @ [newline])" using s'(1) by (simp add: appended_def)
    from fl have lt: "fl_to fl < length ws" "fl_from fl \<le> fl_to fl" by (simp_all add: flight_ok_def)
    have "held_at lib s' (p_boundary (fl_cursor fl)) (drop (Suc (fl_to fl)) ws @ [l])"
      using held_at_append [OF _ f l(2) s'(5) f'] fl by (simp add: flight_ok_def)
    with fl lt f f' s'(3) show ?thesis
      by (auto simp: flight_ok_def accounted_append nth_append intro: settled_on_append)
  qed
  with inv' s'(1) show ?thesis by (auto simp: appended_def split: option.splits)
qed simp

lemma record_refusal_inv:
  assumes inv: "spool_inv lib ws D s" and step: "record_refusal io p now s = (s', r)"
  shows "spool_inv lib ws D s'" and "flight_ok lib ws D s fl \<Longrightarrow> flight_ok lib ws D s' fl"
proof -
  let ?c = "(sp_ckpt s)\<lparr>ck_quarantine := q\<rparr>"
  from step obtain q where s': "sp_ckpt s' = (sp_ckpt s)\<lparr>ck_quarantine := q\<rparr>" "sp_file s' = sp_file s"
    "sp_inode s' = sp_inode s" "sp_pending_identity s' = sp_pending_identity s"
    "sp_stored s' = sp_stored s \<or> sp_stored s' = Some (sp_ckpt s')"
    by (auto simp: record_refusal_def checkpoint_store_def Let_def split: prod.splits if_splits)
  have v: "settled_on lib f (sp_ckpt s') = settled_on lib f (sp_ckpt s)"
    "ckpt_ok lib ws D file fresh (sp_ckpt s') = ckpt_ok lib ws D file fresh (sp_ckpt s)" for f "file" fresh
    using s'(1) by (auto intro!: same_view)
  show "spool_inv lib ws D s'" using inv s' v(2) by (auto simp: spool_inv_def checkpoint_load_def)
  show "flight_ok lib ws D s' fl" if "flight_ok lib ws D s fl"
    using that s' v(1) by (auto simp: flight_ok_def held_at_def)
qed

lemma peek_next_flight:
  assumes fl: "flight_ok lib ws D s fl" and step: "peek_next lib io (fl_cursor fl) s = Inr (Some p)"
  shows "flight_ok lib ws D s (fl\<lparr>fl_cursor := p, fl_to := Suc (fl_to fl)\<rparr>)"
proof -
  let ?qs = "drop (Suc (fl_to fl)) ws"
  from fl obtain ds ino b i where h: "sp_file s = Some (ino, b)" "list_all good_line (ds @ ?qs)"
    "b = render_lines (ds @ ?qs)" "p_boundary (fl_cursor fl) = length (render_lines ds)"
    "sp_pending_identity s = Some i" "same (sha_hex lib) i (ino, b)"
    unfolding flight_ok_def held_at_def by auto
  from fl h(1) have set: "settled_on lib (ino, b) (sp_ckpt s)" by (simp add: flight_ok_def)
  from step obtain ident where pk: "peek_at lib io (length (render_lines ds)) s = Inr (Peek_Decoded p, ident)"
    using h(4) by (auto simp: peek_next_def split: sum.splits peeked.splits prod.splits)
  have pl: "Peek_Decoded p = peek_line lib (length (render_lines ds)) ?qs"
    using peek_at_held(1) [OF h(2), of s ino lib io _ ident] h(1,3) set pk by simp
  then have lt: "Suc (fl_to fl) < length ws" using peek_line_Nil by (metis drop_all leI peeked.distinct(5))
  let ?j = "Suc (fl_to fl)"
  have dr: "?qs = ws ! ?j # drop (Suc ?j) ws" using lt by (simp add: Cons_nth_drop_Suc)
  let ?m = "length (render_lines ds) + length (ws ! ?j) + 1"
  from pl dr have po: "pending_of lib (ws ! ?j) ?m = Some p" by (simp add: peek_line_def split: option.splits)
  then have m: "p_boundary p = ?m" by (rule pending_of_boundary)
  have "held_at lib s (p_boundary p) (drop (Suc ?j) ws)"
    unfolding held_at_def m
    using h dr by (intro exI [of _ "ds @ [ws ! ?j]"] exI [of _ "(ino, b)"] exI [of _ i]) simp
  with fl lt po m show ?thesis by (simp add: flight_ok_def)
qed

text \<open>A settled stretch of lines.\<close>

lemma accounted_settle:
  "accounted lib ws D i \<Longrightarrow> j < length ws \<Longrightarrow> accounted lib ws (D \<union> {i..j}) (Suc j)"
  by (fastforce simp: accounted_def not_less)

lemma flight_commit_inv:
  assumes inv: "spool_inv lib ws D s" and fl: "flight_ok lib ws D s fl"
    and step: "commit_past io clock (p_boundary (fl_cursor fl)) lost s = (s', r)"
  shows "spool_inv lib ws (D \<union> {fl_from fl..fl_to fl}) s'"
proof -
  have "accounted lib ws (D \<union> {fl_from fl..fl_to fl}) (Suc (fl_to fl))"
    using fl accounted_settle unfolding flight_ok_def by blast
  moreover have "spool_inv lib ws (D \<union> {fl_from fl..fl_to fl}) s" using inv by (rule spool_inv_mono) simp
  ultimately show ?thesis using commit_past_inv fl step unfolding flight_ok_def by blast
qed

lemma open_inv: "spool_inv lib ws D s \<Longrightarrow> spool_inv lib ws D (DurableSpool_open s)"
  by (simp add: spool_inv_def DurableSpool_open_def known_id_def)

text \<open>A file that replaces another is new to every checkpoint, which then reads it from its start.\<close>

lemma effective_fresh:
  "known_id fresh (ck_spool c) \<Longrightarrow> (ck_spool c = None \<Longrightarrow> ck_offset c = 0) \<Longrightarrow> effective lib (fresh, b) c = 0"
  by (auto simp: effective_def identity_restart_def known_id_def same_def identity_read_def agree_def Let_def
      split: option.splits if_splits)

lemma compact_inv:
  assumes inv: "spool_inv lib ws D s" and set: "\<And>f. sp_file s = Some f \<Longrightarrow> settled_on lib f (sp_ckpt s)"
    and step: "compact_if_stuck io s = (s', r)"
  shows "spool_inv lib ws D s'"
proof (cases "s' = s")
  case False
  then obtain ino b where f: "sp_file s = Some (ino, b)"
    using step by (cases "sp_file s") (auto simp: compact_if_stuck_def split: if_splits)
  have ck: "ckpt_ok lib ws D (Some (ino, b)) (sp_inode s) (sp_ckpt s)" using inv f by (simp add: spool_inv_def)
  from ckpt_at [OF ck set [OF f]] obtain ds n where d: "accounted lib ws D n" "list_all good_line (ds @ drop n ws)"
    "b = render_lines (ds @ drop n ws)" "ck_offset (sp_ckpt s) = length (render_lines ds)" by metis
  define tail where "tail = drop (ck_offset (sp_ckpt s)) b"
  have t: "tail = render_lines (drop n ws)" using d by (simp add: tail_def)
  have ok: "ckpt_ok lib ws D (Some (sp_inode s, tail)) (Suc (sp_inode s)) c"
    if "known_id (sp_inode s) (ck_spool c)" "ck_spool c = None \<Longrightarrow> ck_offset c = 0" for c
    using that d(1,2) t
    by (intro ckpt_okI [of "[]" n]) (auto simp: effective_fresh intro: known_id_mono)
  have old: "ckpt_ok lib ws D (Some (sp_inode s, tail)) (Suc (sp_inode s)) (sp_ckpt s)"
    "ckpt_ok lib ws D (Some (sp_inode s, tail)) (Suc (sp_inode s)) (checkpoint_load (sp_stored s))"
    using inv by (intro ok; simp add: spool_inv_def ckpt_ok_def)+
  have new: "ckpt_ok lib ws D (Some (sp_inode s, tail)) (Suc (sp_inode s)) ((sp_ckpt s)\<lparr>ck_offset := 0, ck_spool := None\<rparr>)"
    by (rule ok) (simp_all add: known_id_def)
  have "known_id (Suc (sp_inode s)) (sp_pending_identity s)"
    using inv known_id_mono by (auto simp: spool_inv_def)
  with old new step False f show ?thesis
    by (auto simp: compact_if_stuck_def checkpoint_store_def checkpoint_load_def spool_inv_def tail_def Let_def
        split: if_splits)
qed (use inv in simp)

section \<open>The machine\<close>

record machine =
  mc_spool :: dspool
  mc_written :: "string list"
  mc_settled :: "nat set"
  mc_flight :: "flight option"

definition machine_init :: machine where
  "machine_init =
     \<lparr>mc_spool = \<lparr>sp_file = None, sp_inode = 0, sp_stored = None, sp_ckpt = Checkpoint_default,
                 sp_pending_identity = None\<rparr>,
      mc_written = [], mc_settled = {}, mc_flight = None\<rparr>"

text \<open>A compaction runs while no record is in flight and on a checkpoint that was read against the
  file; the two excluded cases are treated at the end of this theory.\<close>

definition compactable :: "spool_lib \<Rightarrow> machine \<Rightarrow> bool" where
  "compactable lib m \<longleftrightarrow>
     mc_flight m = None \<and> (\<forall>f. sp_file (mc_spool m) = Some f \<longrightarrow> settled_on lib f (sp_ckpt (mc_spool m)))"

definition flight_of :: "string list \<Rightarrow> string list \<Rightarrow> spool_error + pending option \<Rightarrow> flight option" where
  "flight_of ws qs r =
     (case r of
        Inr (Some p) \<Rightarrow>
          Some \<lparr>fl_stuck = p, fl_cursor = p, fl_from = length ws - length qs, fl_to = length ws - length qs\<rparr>
      | _ \<Rightarrow> None)"

inductive spool_step :: "spool_lib \<Rightarrow> machine \<Rightarrow> machine \<Rightarrow> bool" for lib where
  step_retain:
    "\<lbrakk>envelope_encode lib sig payload fmt = Some l; good_line l;
      no_lookalike lib (sp_file (mc_spool m)) (l @ [newline]) (sp_ckpt (mc_spool m));
      no_lookalike lib (sp_file (mc_spool m)) (l @ [newline]) (checkpoint_load (sp_stored (mc_spool m)));
      retain lib io sig payload fmt (mc_spool m) = (s', r)\<rbrakk> \<Longrightarrow>
     spool_step lib m
       (m\<lparr>mc_spool := s',
          mc_written := (if sp_file s' = sp_file (mc_spool m) then mc_written m else mc_written m @ [l])\<rparr>)"
| step_next:
    "next_pending lib io clock (mc_spool m) = Some (s', r) \<Longrightarrow>
     spool_step lib m
       (m\<lparr>mc_spool := s', mc_flight := flight_of (mc_written m) (queue lib (sp_file s') (sp_ckpt s')) r\<rparr>)"
| step_peek:
    "\<lbrakk>mc_flight m = Some fl; peek_next lib io (fl_cursor fl) (mc_spool m) = Inr (Some p)\<rbrakk> \<Longrightarrow>
     spool_step lib m (m\<lparr>mc_flight := Some (fl\<lparr>fl_cursor := p, fl_to := Suc (fl_to fl)\<rparr>)\<rparr>)"
| step_advance:
    "\<lbrakk>mc_flight m = Some fl; fl_cursor fl = fl_stuck fl; fl_to fl = fl_from fl;
      advance io clock (fl_stuck fl) (mc_spool m) = (s', r)\<rbrakk> \<Longrightarrow>
     spool_step lib m
       (m\<lparr>mc_spool := s', mc_settled := insert (fl_from fl) (mc_settled m), mc_flight := None\<rparr>)"
| step_refusal:
    "record_refusal io p now (mc_spool m) = (s', r) \<Longrightarrow> spool_step lib m (m\<lparr>mc_spool := s'\<rparr>)"
| step_discard:
    "\<lbrakk>mc_flight m = Some fl; discard_confirmed io clock (fl_stuck fl) lost (fl_cursor fl) (mc_spool m) = (s', r)\<rbrakk> \<Longrightarrow>
     spool_step lib m
       (m\<lparr>mc_spool := s', mc_settled := mc_settled m \<union> {fl_from fl..fl_to fl}, mc_flight := None\<rparr>)"
| step_compact:
    "\<lbrakk>compactable lib m; compact_if_stuck io (mc_spool m) = (s', r)\<rbrakk> \<Longrightarrow> spool_step lib m (m\<lparr>mc_spool := s'\<rparr>)"
| step_reopen:
    "spool_step lib m (m\<lparr>mc_spool := DurableSpool_open (mc_spool m), mc_flight := None\<rparr>)"

inductive_cases spool_stepE: "spool_step lib m m'"

definition spool_reachable :: "spool_lib \<Rightarrow> machine \<Rightarrow> bool" where
  "spool_reachable lib m = (spool_step lib)\<^sup>*\<^sup>* machine_init m"

definition machine_inv :: "spool_lib \<Rightarrow> machine \<Rightarrow> bool" where
  "machine_inv lib m \<longleftrightarrow>
     spool_inv lib (mc_written m) (mc_settled m) (mc_spool m) \<and>
     (\<forall>fl. mc_flight m = Some fl \<longrightarrow> flight_ok lib (mc_written m) (mc_settled m) (mc_spool m) fl)"

lemma machine_inv_init: "machine_inv lib machine_init"
  by (auto simp: machine_inv_def machine_init_def spool_inv_def ckpt_ok_def checkpoint_load_def
      Checkpoint_default_def known_id_def at_line_def accounted_def)

lemma machine_inv_step:
  assumes "spool_step lib m m'" and "machine_inv lib m"
  shows "machine_inv lib m'"
  using assms
proof (cases rule: spool_step.cases)
  case (step_retain sig payload fmt l io s' r)
  with assms(2) retain_inv [OF _ step_retain(2-6)] show ?thesis
    by (fastforce simp: machine_inv_def)
next
  case (step_next io clock s' r)
  have "read_ok lib (mc_written m) (mc_settled m) s' r"
    using next_pending_inv [OF step_next(2)] assms(2) by (simp add: machine_inv_def)
  then show ?thesis using step_next(1)
    by (auto simp: machine_inv_def read_ok_def flight_of_def flight_ok_def split: sum.splits option.splits)
next
  case (step_peek fl io p)
  with assms(2) peek_next_flight [OF _ step_peek(3)] show ?thesis by (simp add: machine_inv_def)
next
  case (step_advance fl io clock s' r)
  with assms(2) flight_commit_inv [of lib "mc_written m" "mc_settled m" "mc_spool m" fl io clock 0 s' r]
  show ?thesis by (simp add: machine_inv_def advance_def)
next
  case (step_refusal io p now s' r)
  with assms(2) record_refusal_inv [OF _ step_refusal(2)] show ?thesis by (simp add: machine_inv_def)
next
  case (step_discard fl io clock lost s' r)
  let ?s = "mc_spool m"
  let ?s1 = "?s\<lparr>sp_ckpt := (sp_ckpt ?s)\<lparr>ck_quarantine := forget (refusal_key (fl_stuck fl)) (ck_quarantine (sp_ckpt ?s))\<rparr>\<rparr>"
  note v = same_view [of "(sp_ckpt ?s)\<lparr>ck_quarantine := q\<rparr>" "sp_ckpt ?s" for q]
  have "spool_inv lib (mc_written m) (mc_settled m) ?s1" "flight_ok lib (mc_written m) (mc_settled m) ?s1 fl"
    using assms(2) step_discard(2) by (simp_all add: machine_inv_def spool_inv_def flight_ok_def held_at_def v)
  with step_discard flight_commit_inv [of lib "mc_written m" "mc_settled m" ?s1 fl io clock lost s' r]
  show ?thesis by (simp add: machine_inv_def discard_confirmed_def)
next
  case (step_compact io s' r)
  with assms(2) compact_inv [OF _ _ step_compact(3)] show ?thesis
    by (auto simp: machine_inv_def compactable_def)
next
  case step_reopen
  with assms(2) show ?thesis by (simp add: machine_inv_def open_inv)
qed

lemma machine_inv_reachable:
  assumes "spool_reachable lib m"
  shows "machine_inv lib m"
  using assms unfolding spool_reachable_def
  by (induction rule: rtranclp_induct) (auto intro: machine_inv_init machine_inv_step)

section \<open>Compactions the machine excludes\<close>

text \<open>A compaction takes the offset of the checkpoint at its word. After a crash between the rename
  and the store of an earlier compaction the stored offset was measured against the file that was
  replaced; when the new file is at least as long, a compaction that runs before the first read drops
  as many bytes of lines that were never delivered.\<close>

definition crash_after_rename :: "dspool \<Rightarrow> dspool" where
  "crash_after_rename s = DurableSpool_open (fst (compact_if_stuck (io_ok(IO_sync_dir := False)) s))"

lemma compact_after_crash:
  assumes f: "sp_file s = Some (ino, render_lines (ds @ qs))" and good: "list_all good_line (ds @ qs)"
    and st: "sp_stored s = Some (sp_ckpt s)" and off: "ck_offset (sp_ckpt s) = length (render_lines ds)"
    and big: "RECLAIM_ABOVE < length (render_lines ds)" and len: "length (render_lines ds) \<le> length (render_lines qs)"
    and id: "known_id (sp_inode s) (ck_spool (sp_ckpt s))" "ck_spool (sp_ckpt s) \<noteq> None"
    and s1: "s1 = crash_after_rename s" and s2: "s2 = fst (compact_if_stuck io_ok s1)"
  shows "queue lib (sp_file s1) (sp_ckpt s1) = qs"
    and "snd (compact_if_stuck io_ok s1) = Inr True"
    and "sp_file s2 = Some (sp_inode s1, drop (length (render_lines ds)) (render_lines qs))"
    and "ck_offset (sp_ckpt s2) = 0" and "ck_spool (sp_ckpt s2) = None"
    and "qs = ps @ rs \<Longrightarrow> length (render_lines ps) = length (render_lines ds) \<Longrightarrow>
      queue lib (sp_file s2) (sp_ckpt s2) = rs"
proof -
  have s1': "sp_file s1 = Some (sp_inode s, render_lines qs)" "sp_ckpt s1 = sp_ckpt s"
    using f st off big
    by (simp_all add: s1 crash_after_rename_def compact_if_stuck_def DurableSpool_open_def checkpoint_load_def Let_def)
  have "effective lib (sp_inode s, render_lines qs) (sp_ckpt s) = 0"
    using id by (intro effective_fresh) auto
  then show "queue lib (sp_file s1) (sp_ckpt s1) = qs"
    using s1' good at_lineI(2) [of "[]" qs "(sp_inode s, render_lines qs)" lib "sp_ckpt s"] by simp
  show s2': "sp_file s2 = Some (sp_inode s1, drop (length (render_lines ds)) (render_lines qs))"
    "ck_offset (sp_ckpt s2) = 0" "ck_spool (sp_ckpt s2) = None" "snd (compact_if_stuck io_ok s1) = Inr True"
    using s1' off big len by (simp_all add: s2 compact_if_stuck_def checkpoint_store_def Let_def)
  show "queue lib (sp_file s2) (sp_ckpt s2) = rs"
    if "qs = ps @ rs" "length (render_lines ps) = length (render_lines ds)"
    using s2'(1-3) that good at_lineI(2) [of "[]" rs "(sp_inode s1, render_lines rs)" lib "sp_ckpt s2"]
    by (simp add: effective_def identity_restart_def)
qed

text \<open>A compaction between \<open>next\<close> and \<open>advance\<close> moves the lines under the boundary of the record in
  flight; when the compacted file happens to end there, the advance reclaims lines that were never
  delivered.\<close>

lemma compact_in_flight:
  assumes f: "sp_file s = Some (ino, render_lines (ds @ l # qs))"
    and off: "ck_offset (sp_ckpt s) = length (render_lines ds)" and big: "RECLAIM_ABOVE < length (render_lines ds)"
    and p: "p_boundary p = length (render_lines (ds @ [l]))"
    and len: "length (render_lines qs) = length (render_lines ds)"
    and s1: "s1 = fst (compact_if_stuck io_ok s)" and s2: "s2 = fst (advance io_ok (Some now) p s1)"
  shows "sp_file s1 = Some (sp_inode s, render_lines (l # qs))" and "sp_file s2 = Some (sp_inode s, [])"
    and "snd (advance io_ok (Some now) p s1) = Inr ()"
proof -
  show s1': "sp_file s1 = Some (sp_inode s, render_lines (l # qs))"
    using f off big by (simp add: s1 compact_if_stuck_def checkpoint_store_def Let_def)
  have "length (render_lines (l # qs)) = p_boundary p" using p len by simp
  then show "sp_file s2 = Some (sp_inode s, [])" "snd (advance io_ok (Some now) p s1) = Inr ()"
    using s1' big p
    by (simp_all add: s2 advance_def commit_past_cases try_reclaim_def checkpoint_store_def Let_def)
qed

end
