(* ===== verification/Daemon_Quarantine.thy ===== *)
theory Daemon_Quarantine
  imports Daemon_Spool
begin

text \<open>
  The table of refused records (\<open>copilot/quarantine.rs\<close>) under the operations the spool performs on it.
  It is a map with canonical representation: a list in the strict order of its keys. It stays within
  its bound, and an entry says a record may be given up on only when two of its refusals were at least
  the required time apart.
\<close>

section \<open>An ordered map\<close>

text \<open>A \<open>BTreeMap\<close>: the laws of a map, and a representation in which equal maps are equal.\<close>

locale ordered_map = hash_map get ins rem keys_of
  for get :: "'m \<Rightarrow> 'k \<Rightarrow> 'v option" and ins rem keys_of +
  fixes wf :: "'m \<Rightarrow> bool"
  assumes wf_ins: "wf m \<Longrightarrow> wf (ins k v m)"
    and wf_rem: "wf m \<Longrightarrow> wf (rem k m)"
    and canonical: "wf m \<Longrightarrow> wf n \<Longrightarrow> (\<And>k. get m k = get n k) \<Longrightarrow> m = n"
begin

lemma ins_commute: "wf m \<Longrightarrow> j \<noteq> k \<Longrightarrow> ins j v (ins k w m) = ins k w (ins j v m)"
  by (rule canonical) (auto simp: wf_ins get_ins)

lemma ins_overwrite: "wf m \<Longrightarrow> ins k v (ins k w m) = ins k v m"
  by (rule canonical) (auto simp: wf_ins get_ins)

lemma rem_ins: "wf m \<Longrightarrow> get m k = None \<Longrightarrow> rem k (ins k v m) = m"
  by (rule canonical) (auto simp: wf_ins wf_rem get_ins get_rem)

end

definition bt_wf :: "(string \<times> 'v) list \<Rightarrow> bool" where
  "bt_wf m = sorted_wrt (<) (map fst m)"

lemma bt_get_ins: "map_of (bt_insert k v m) j = (if j = k then Some v else map_of m j)"
  by (induction k v m rule: bt_insert.induct) auto

lemma bt_get_rem: "map_of (bt_remove k m) j = (if j = k then None else map_of m j)"
  by (induction m) (auto simp: bt_remove_def)

lemma bt_wf_Cons: "bt_wf ((j, w) # m) \<longleftrightarrow> (\<forall>k \<in> fst ` set m. j < k) \<and> bt_wf m"
  by (simp add: bt_wf_def)

lemma bt_wf_insert: "bt_wf m \<Longrightarrow> bt_wf (bt_insert k v m)"
proof (induction k v m rule: bt_insert.induct)
  case (2 k v j w m)
  show ?case
  proof (cases k j rule: linorder_cases)
    case greater
    then have "k \<noteq> j" "\<not> k < j" by (auto dest: less_asym)
    then have "bt_insert k v ((j, w) # m) = (j, w) # bt_insert k v m" by simp
    with 2 greater \<open>k \<noteq> j\<close> \<open>\<not> k < j\<close> show ?thesis by (simp only: bt_wf_Cons bt_insert_keys) auto
  next
    case less
    with 2 show ?thesis by (auto simp: bt_wf_Cons dest: less_trans)
  next
    case equal
    with 2 show ?thesis by (simp add: bt_wf_Cons)
  qed
qed (simp add: bt_wf_def)

lemma bt_wf_filter: "bt_wf m \<Longrightarrow> bt_wf (filter P m)"
  by (induction m) (auto simp: bt_wf_def)

lemma bt_wf_remove: "bt_wf m \<Longrightarrow> bt_wf (bt_remove k m)"
  by (simp add: bt_remove_def bt_wf_filter)

lemma map_of_rebuild: "distinct (map fst m) \<Longrightarrow> m = map (\<lambda>k. (k, the (map_of m k))) (map fst m)"
proof (rule nth_equalityI)
  fix i
  assume d: "distinct (map fst m)" and i: "i < length m"
  then have "map_of m (fst (m ! i)) = Some (snd (m ! i))" by (simp add: map_of_eq_Some_iff)
  with i show "m ! i = map (\<lambda>k. (k, the (map_of m k))) (map fst m) ! i" by (simp add: prod_eq_iff)
qed simp

lemma bt_canonical:
  assumes "bt_wf m" "bt_wf n" and eq: "\<And>k. map_of m k = map_of n k"
  shows "m = n"
proof -
  have s: "sorted (map fst m)" "distinct (map fst m)" "sorted (map fst n)" "distinct (map fst n)"
    using assms(1,2) by (simp_all add: bt_wf_def strict_sorted_iff)
  have "map_of m = map_of n" using eq by (rule ext)
  then have "set (map fst m) = set (map fst n)" by (metis dom_map_of_conv_image_fst list.set_map)
  then have "map fst m = map fst n" using s sorted_distinct_set_unique by blast
  then show ?thesis using map_of_rebuild [OF s(2)] map_of_rebuild [OF s(4)] \<open>map_of m = map_of n\<close> by metis
qed

interpretation bt: ordered_map map_of bt_insert bt_remove "\<lambda>m. fst ` set m" bt_wf
  by unfold_locales
    (simp_all add: bt_get_ins bt_get_rem bt_wf_insert bt_wf_remove map_of_eq_None_iff bt_canonical)

section \<open>The operations of the spool on the table\<close>

datatype q_op = Q_refused string nat | Q_forget string | Q_prune nat

definition q_apply :: "q_op \<Rightarrow> quarantine \<Rightarrow> quarantine" where
  "q_apply op q =
     (case op of
        Q_refused k t \<Rightarrow> fst (refused k t MIN_SEPARATION_SECONDS q)
      | Q_forget k \<Rightarrow> forget k q
      | Q_prune t \<Rightarrow> prune t q)"

definition q_run :: "q_op list \<Rightarrow> quarantine" where
  "q_run ops = fold q_apply ops []"

text \<open>When the record was refused.\<close>

definition refusal_times :: "string \<Rightarrow> q_op list \<Rightarrow> nat set" where
  "refusal_times k ops = {t. Q_refused k t \<in> set ops}"

text \<open>Two refusals that are far enough apart to count as separate evidence.\<close>

definition separated :: "nat set \<Rightarrow> bool" where
  "separated T \<longleftrightarrow> (\<exists>a\<in>T. \<exists>b\<in>T. a + MIN_SEPARATION_SECONDS \<le> b)"

definition evidence :: "nat set \<Rightarrow> entry \<Rightarrow> bool" where
  "evidence T en \<longleftrightarrow>
     (0 < refusals en \<longrightarrow> last_seen_unix en \<in> T) \<and> (2 \<le> refusals en \<longrightarrow> separated T)"

lemma separated_mono: "separated T \<Longrightarrow> T \<subseteq> T' \<Longrightarrow> separated T'"
  by (auto simp: separated_def)

lemma evidence_mono: "evidence T en \<Longrightarrow> T \<subseteq> T' \<Longrightarrow> evidence T' en"
  using separated_mono by (auto simp: evidence_def)

lemma oldest_Some: "q \<noteq> [] \<Longrightarrow> \<exists>p. oldest q = Some p"
  by (cases q) (simp_all split: option.split)

lemma drop_oldest_bounded: "length (drop_oldest q) \<le> MAX_ENTRIES"
proof (induction q rule: drop_oldest.induct)
  case (1 q)
  show ?case
  proof (cases "length q > MAX_ENTRIES")
    case True
    then obtain p where "oldest q = Some p" using oldest_Some [of q] by fastforce
    with True 1 show ?thesis by (subst drop_oldest.simps) simp
  qed (simp add: drop_oldest.simps)
qed

lemma drop_oldest_sub: "map_of (drop_oldest q) \<subseteq>\<^sub>m map_of q"
proof (induction q rule: drop_oldest.induct)
  case (1 q)
  show ?case
  proof (cases "length q > MAX_ENTRIES")
    case True
    then obtain p where p: "oldest q = Some p" using oldest_Some [of q] by fastforce
    have "map_of (bt_remove (fst p) q) \<subseteq>\<^sub>m map_of q" by (auto simp: map_le_def bt_get_rem split: if_splits)
    with True p 1 show ?thesis by (subst drop_oldest.simps) (auto intro: map_le_trans)
  qed (simp add: drop_oldest.simps)
qed

lemma drop_oldest_wf: "bt_wf q \<Longrightarrow> bt_wf (drop_oldest q)"
proof (induction q rule: drop_oldest.induct)
  case (1 q)
  show ?case
  proof (cases "length q > MAX_ENTRIES")
    case True
    then obtain p where p: "oldest q = Some p" using oldest_Some [of q] by fastforce
    with True 1 bt_wf_remove have "bt_wf (drop_oldest (bt_remove (fst p) q))" by blast
    with True p show ?thesis by (subst drop_oldest.simps) simp
  qed (use 1 in \<open>simp add: drop_oldest.simps\<close>)
qed

lemma prune_bounded: "length (prune now q) \<le> MAX_ENTRIES"
  by (simp add: prune_def drop_oldest_bounded)

lemma map_of_filter_sub:
  assumes "distinct (map fst q)" and "map_of (filter P q) k = Some v"
  shows "map_of q k = Some v"
  using map_of_SomeD [OF assms(2)] assms(1) by (simp add: map_of_eq_Some_iff)

lemma prune_sub:
  assumes "bt_wf q" and "map_of (prune now q) k = Some en"
  shows "map_of q k = Some en"
proof -
  have d: "distinct (map fst q)" using assms(1) by (simp add: bt_wf_def strict_sorted_iff)
  define f where "f = filter (\<lambda>p. now - last_seen_unix (snd p) \<le> TTL_SECONDS) q"
  have get: "map_of (drop_oldest f) k = Some en" using assms(2) by (simp add: prune_def f_def)
  then have "k \<in> dom (map_of (drop_oldest f))" by blast
  with drop_oldest_sub have "map_of (drop_oldest f) k = map_of f k" unfolding map_le_def by blast
  with get have "map_of (filter (\<lambda>p. now - last_seen_unix (snd p) \<le> TTL_SECONDS) q) k = Some en"
    by (simp add: f_def)
  then show ?thesis by (rule map_of_filter_sub [OF d])
qed

lemma q_apply_wf: "bt_wf q \<Longrightarrow> bt_wf (q_apply op q)"
  by (cases op) (auto simp: q_apply_def refused_def forget_def prune_def Let_def bt_wf_insert bt_wf_remove
      intro: drop_oldest_wf bt_wf_filter)

lemma q_run_snoc: "q_run (ops @ [op]) = q_apply op (q_run ops)"
  by (simp add: q_run_def)

lemma q_run_wf: "bt_wf (q_run ops)"
  by (induction ops rule: rev_induct) (simp_all add: q_run_snoc q_apply_wf, simp add: q_run_def bt_wf_def)

text \<open>The entry a refusal leaves.\<close>

definition refused_entry :: "string \<Rightarrow> nat \<Rightarrow> quarantine \<Rightarrow> entry" where
  "refused_entry k t q =
     (let en = (case map_of q k of
                  Some en \<Rightarrow> en
                | None \<Rightarrow> \<lparr>refusals = 0, last_seen_unix = t - MIN_SEPARATION_SECONDS\<rparr>)
      in if t - last_seen_unix en \<ge> MIN_SEPARATION_SECONDS
         then \<lparr>refusals = min (refusals en + 1) 4294967295, last_seen_unix = t\<rparr> else en)"

lemma refused_eq:
  "refused k t MIN_SEPARATION_SECONDS q =
     (bt_insert k (refused_entry k t q) q, 2 \<le> refusals (refused_entry k t q))"
  by (simp add: refused_def refused_entry_def REFUSALS_BEFORE_DISCARD_def Let_def)

lemma refused_entry_evidence:
  assumes "\<And>en. map_of q k = Some en \<Longrightarrow> evidence T en"
  shows "evidence (insert t T) (refused_entry k t q)"
proof (cases "map_of q k")
  case None
  then show ?thesis by (auto simp: evidence_def refused_entry_def Let_def)
next
  case (Some en)
  with assms have ev: "evidence T en" by simp
  show ?thesis
  proof (cases "t - last_seen_unix en \<ge> MIN_SEPARATION_SECONDS")
    case False
    with Some ev show ?thesis by (auto simp: refused_entry_def intro: evidence_mono)
  next
    case True
    then have gap: "last_seen_unix en + MIN_SEPARATION_SECONDS \<le> t" by (simp add: MIN_SEPARATION_SECONDS_def)
    have "separated (insert t T)" if "1 \<le> refusals en"
      using ev that gap by (auto simp: evidence_def separated_def)
    with True Some show ?thesis by (simp add: refused_entry_def evidence_def)
  qed
qed

lemma q_run_evidence: "map_of (q_run ops) k = Some en \<Longrightarrow> evidence (refusal_times k ops) en"
proof (induction ops arbitrary: k en rule: rev_induct)
  case Nil
  then show ?case by (simp add: q_run_def)
next
  case (snoc op ops)
  have mono: "refusal_times k ops \<subseteq> refusal_times k (ops @ [op])" by (auto simp: refusal_times_def)
  have old: "evidence (refusal_times k (ops @ [op])) en" if "map_of (q_run ops) k = Some en"
    using snoc.IH [OF that] mono by (rule evidence_mono)
  show ?case
  proof (cases op)
    case (Q_refused j t)
    show ?thesis
    proof (cases "j = k")
      case True
      have "refusal_times k (ops @ [op]) = insert t (refusal_times k ops)"
        using Q_refused True by (auto simp: refusal_times_def)
      moreover have "en = refused_entry k t (q_run ops)"
        using snoc.prems Q_refused True by (simp add: q_run_snoc q_apply_def refused_eq bt_get_ins)
      ultimately show ?thesis using refused_entry_evidence snoc.IH by metis
    qed (use snoc.prems Q_refused old in \<open>simp add: q_run_snoc q_apply_def refused_eq bt_get_ins\<close>)
  next
    case (Q_forget j)
    with snoc.prems old show ?thesis
      by (auto simp: q_run_snoc q_apply_def forget_def bt_get_rem split: if_splits)
  next
    case (Q_prune t)
    with snoc.prems old prune_sub [OF q_run_wf] show ?thesis by (simp add: q_run_snoc q_apply_def)
  qed
qed

lemma record_refusal_evidence:
  assumes "record_refusal io p now s = (s', Inr True)" and "ck_quarantine (sp_ckpt s) = q_run ops"
  shows "separated (insert now (refusal_times (refusal_key p) ops))"
proof -
  have "2 \<le> refusals (refused_entry (refusal_key p) now (q_run ops))"
    using assms by (auto simp: record_refusal_def refused_eq checkpoint_store_def Let_def split: if_splits)
  then show ?thesis
    using refused_entry_evidence [of "q_run ops" "refusal_key p" _ now, OF q_run_evidence]
    by (simp add: evidence_def)
qed

end
