(* ===== verification/Daemon_Drain_Correct.thy ===== *)
theory Daemon_Drain_Correct
  imports Daemon_Drain Daemon_Spool_Safety Daemon_Quarantine
begin

text \<open>
  Correctness of the drain: which events a pass can produce, how many requests it can send, that it
  always returns, and what an answered request says about the spool.
\<close>

section \<open>The events of a pass\<close>

text \<open>The request that offers a record to the collector: the record's stamped payload, under some minted
  credential, to the endpoint of the record's signal.\<close>

definition offers :: "spool_lib \<Rightarrow> drain_config \<Rightarrow> pending \<Rightarrow> post_request \<Rightarrow> bool" where
  "offers lib cfg p rq \<longleftrightarrow>
     (\<exists>m stamped base. stamp_pending lib cfg m p = Some stamped \<and> otel_endpoint cfg = Some base \<and>
        rq = \<lparr>rq_url = trim_end_matches (\<lambda>c. c = CHR ''/'') base @ signal_path (p_signal p),
              rq_content_type = (if p_format p = Fmt_Json then ''application/json'' else ''application/x-protobuf''),
              rq_bearer = mt_bearer m, rq_payload = stamped\<rparr>)"

definition posted_ok :: "spool_lib \<Rightarrow> drain_config \<Rightarrow> pending \<Rightarrow> event \<Rightarrow> bool" where
  "posted_ok lib cfg p e =
     (case e of Posted rq (Some status) \<Rightarrow> offers lib cfg p rq \<and> is_success status | _ \<Rightarrow> False)"

definition posted_refused :: "spool_lib \<Rightarrow> drain_config \<Rightarrow> pending \<Rightarrow> event \<Rightarrow> bool" where
  "posted_refused lib cfg p e =
     (case e of Posted rq (Some status) \<Rightarrow> offers lib cfg p rq \<and> \<not> is_success status \<and> is_permanent status
      | _ \<Rightarrow> False)"

text \<open>\<open>b\<close> is the record that the spool held behind \<open>a\<close> when it was read.\<close>

definition read_behind :: "spool_lib \<Rightarrow> pending \<Rightarrow> pending \<Rightarrow> bool" where
  "read_behind lib a b \<longleftrightarrow> p_boundary a < p_boundary b \<and> (\<exists>io s. peek_next lib io a s = Inr (Some b))"

lemma peek_next_behind:
  assumes "peek_next lib io a s = Inr (Some b)"
  shows "read_behind lib a b"
proof -
  obtain ident where p: "peek_at lib io (p_boundary a) s = Inr (Peek_Decoded b, ident)"
    using assms by (auto simp: peek_next_def split: sum.splits prod.splits peeked.splits)
  then obtain f where f: "sp_file s = Some f" using peek_at_no_file by (cases "sp_file s") blast+
  from p obtain d first rest where
    d: "tail_drain io (sha_hex lib) (Some f) (p_boundary a) (ck_spool (sp_ckpt s)) = Inr d"
      "restarted d = None" "dr_lines d = first # rest"
    and n: "p_boundary b = (case rest of [] \<Rightarrow> next_offset d | second # _ \<Rightarrow> tl_offset second)"
    by (auto simp: peek_at_def f Let_def split: sum.splits list.splits option.splits if_splits prod.splits)
  from tail_drain_boundary [OF d n] assms show ?thesis unfolding read_behind_def by blast
qed

definition posted_other :: "event \<Rightarrow> bool" where
  "posted_other e =
     (case e of Posted rq res \<Rightarrow> \<forall>status. res = Some status \<longrightarrow> \<not> is_success status \<and> \<not> is_permanent status
      | _ \<Rightarrow> False)"

lemmas posted_defs = posted_ok_def posted_refused_def posted_other_def

lemma with_spool_log [simp]: "with_spool out f d = (d', r) \<Longrightarrow> d_log d' = d_log d"
  by (auto simp: with_spool_def Let_def split: if_splits prod.splits)

lemma with_spool_next_log: "with_spool_next out lib d = Some (d', r) \<Longrightarrow> d_log d' = d_log d"
  by (auto simp: with_spool_next_def Let_def split: if_splits)

lemma do_mint_log: "do_mint out d = (d', r) \<Longrightarrow> d_log d' = d_log d"
  by (auto simp: do_mint_def)

lemma logged_log [simp]: "d_log (logged es d) = d_log d @ es"
  by (simp add: logged_def)

text \<open>A POST logs one event, of the kind of its verdict; without a collector nothing is sent.\<close>

lemma forward_post_log:
  assumes "forward_post out cfg (mt_bearer m) (p_signal p) st (p_format p = Fmt_Json) d = (d', r)"
    and "stamp_pending lib cfg m p = Some st"
  shows "case r of
      Inr Accepted \<Rightarrow> \<exists>e. d_log d' = d_log d @ [e] \<and> posted_ok lib cfg p e
    | Inr (Refused _) \<Rightarrow> \<exists>e. d_log d' = d_log d @ [e] \<and> posted_refused lib cfg p e
    | Inl _ \<Rightarrow> d_log d' = d_log d \<or> (\<exists>e. d_log d' = d_log d @ [e] \<and> posted_other e)"
proof (cases "otel_endpoint cfg")
  case None
  with assms(1) show ?thesis by (auto simp: forward_post_def)
next
  case (Some base)
  let ?rq = "\<lparr>rq_url = trim_end_matches (\<lambda>c. c = CHR ''/'') base @ signal_path (p_signal p),
      rq_content_type = (if p_format p = Fmt_Json then ''application/json'' else ''application/x-protobuf''),
      rq_bearer = mt_bearer m, rq_payload = st\<rparr>"
  have "offers lib cfg p ?rq" unfolding offers_def using assms(2) Some by blast
  with assms(1) Some show ?thesis
    by (auto simp: forward_post_def Let_def posted_defs split: option.splits if_splits)
qed

lemma probe_outcome_log:
  assumes "probe_outcome out lib cfg m p d = (d', r)"
  shows "case r of
      Probe_Accepted \<Rightarrow> \<exists>e. d_log d' = d_log d @ [e] \<and> posted_ok lib cfg p e
    | Probe_Refused \<Rightarrow> \<exists>e. d_log d' = d_log d @ [e] \<and> posted_refused lib cfg p e
    | Probe_Unknown \<Rightarrow> d_log d' = d_log d \<or> (\<exists>e. d_log d' = d_log d @ [e] \<and> posted_other e)"
proof (cases "stamp_pending lib cfg m p")
  case None
  with assms show ?thesis by (auto simp: probe_outcome_def)
next
  case (Some st)
  obtain d1 v where v: "forward_post out cfg (mt_bearer m) (p_signal p) st (p_format p = Fmt_Json) d = (d1, v)"
    by fastforce
  from forward_post_log [OF v Some] assms Some v show ?thesis
    by (auto simp: probe_outcome_def split: sum.splits verdict.splits)
qed

text \<open>The events of a walk behind \<open>cursor\<close>: refused probes of the records behind it, one after the other,
  then nothing, an inconclusive probe, or an accepted probe of the record behind them and the discard of
  all the records before that.\<close>

definition walk_events ::
  "spool_lib \<Rightarrow> drain_config \<Rightarrow> pending \<Rightarrow> nat \<Rightarrow> pending \<Rightarrow> nat \<Rightarrow> event list \<Rightarrow> bool" where
  "walk_events lib cfg stuck n cursor lost es \<longleftrightarrow>
     (\<exists>ps rs. list_all2 (posted_refused lib cfg) ps rs \<and> successively (read_behind lib) (cursor # ps) \<and>
       (es = rs \<and> length rs \<le> n \<or>
        (\<exists>e. es = rs @ [e] \<and> posted_other e \<and> length rs < n) \<or>
        (\<exists>e probe. es = rs @ [e, Discard_called stuck (lost + length rs) probe] \<and> posted_ok lib cfg probe e \<and>
           successively (read_behind lib) (cursor # ps @ [probe]) \<and> length rs < n)))"

lemma walk_events_Nil: "walk_events lib cfg stuck n cursor lost []"
  unfolding walk_events_def by (intro exI [of _ "[]"]) simp

lemma walk_events_discard:
  "posted_ok lib cfg probe e \<Longrightarrow> read_behind lib cursor probe \<Longrightarrow>
     walk_events lib cfg stuck (Suc n) cursor lost [e, Discard_called stuck lost probe]"
  unfolding walk_events_def by (intro exI [of _ "[]"]) simp

lemma walk_events_other: "posted_other e \<Longrightarrow> walk_events lib cfg stuck (Suc n) cursor lost [e]"
  unfolding walk_events_def by (intro exI [of _ "[]"]) simp

lemma walk_events_Cons:
  assumes "posted_refused lib cfg probe e" and "read_behind lib cursor probe"
    and "walk_events lib cfg stuck n probe (lost + 1) es"
  shows "walk_events lib cfg stuck (Suc n) cursor lost (e # es)"
proof -
  from assms(3) obtain ps rs where "list_all2 (posted_refused lib cfg) ps rs"
    "successively (read_behind lib) (probe # ps)"
    "es = rs \<and> length rs \<le> n \<or>
     (\<exists>e. es = rs @ [e] \<and> posted_other e \<and> length rs < n) \<or>
     (\<exists>e p. es = rs @ [e, Discard_called stuck (lost + 1 + length rs) p] \<and> posted_ok lib cfg p e \<and>
        successively (read_behind lib) (probe # ps @ [p]) \<and> length rs < n)"
    unfolding walk_events_def by blast
  then show ?thesis
    unfolding walk_events_def using assms(1,2) by (intro exI [of _ "probe # ps"] exI [of _ "e # rs"]) auto
qed

lemma walk_loop_events:
  "walk_loop out lib cfg m stuck n cursor lost d = (d', r) \<Longrightarrow>
     \<exists>es. d_log d' = d_log d @ es \<and> walk_events lib cfg stuck n cursor lost es"
proof (induction n arbitrary: cursor lost d)
  case 0
  then show ?case by (auto simp: walk_events_Nil)
next
  case (Suc n)
  obtain d1 pk where pk: "with_spool out (\<lambda>io clock s. (s, peek_next lib io cursor s)) d = (d1, pk)" by fastforce
  note log1 = with_spool_log [OF pk]
  show ?case
  proof (cases "\<exists>probe. pk = Inr (Some probe)")
    case False
    then have "d' = d1" using Suc.prems pk by (auto split: sum.splits option.splits)
    then show ?thesis using log1 walk_events_Nil by auto
  next
    case True
    then obtain probe where pk': "pk = Inr (Some probe)" ..
    then have beh: "read_behind lib cursor probe"
      using pk peek_next_behind by (fastforce simp: with_spool_def Let_def split: if_splits)
    obtain d2 pr where pr: "probe_outcome out lib cfg m probe d1 = (d2, pr)" by fastforce
    note log2 = probe_outcome_log [OF pr]
    show ?thesis
    proof (cases pr)
      case Probe_Accepted
      with Suc.prems pk pk' pr have "d_log d' = d_log (logged [Discard_called stuck lost probe] d2)"
        by (auto dest: with_spool_log split: prod.splits sum.splits)
      with Probe_Accepted log1 log2 beh show ?thesis
        by (auto intro: walk_events_discard)
    next
      case Probe_Refused
      with log2 obtain e where e: "d_log d2 = d_log d1 @ [e]" "posted_refused lib cfg probe e" by auto
      from Suc.prems pk pk' pr Probe_Refused have "walk_loop out lib cfg m stuck n probe (lost + 1) d2 = (d', r)"
        by simp
      from Suc.IH [OF this] obtain es where
        "d_log d' = d_log d2 @ es" "walk_events lib cfg stuck n probe (lost + 1) es" by blast
      with e log1 walk_events_Cons [OF e(2) beh] show ?thesis by fastforce
    next
      case Probe_Unknown
      with Suc.prems pk pk' pr have "d' = d2" by simp
      with Probe_Unknown log1 log2 show ?thesis
        by (auto intro: walk_events_other walk_events_Nil)
    qed
  qed
qed

text \<open>The events of one attempt at the record \<open>p\<close>.\<close>

definition attempt_events :: "spool_lib \<Rightarrow> drain_config \<Rightarrow> pending \<Rightarrow> event list \<Rightarrow> bool" where
  "attempt_events lib cfg p es \<longleftrightarrow>
     es = [] \<or> (\<exists>e. es = [e] \<and> (posted_other e \<or> posted_refused lib cfg p e)) \<or>
     (\<exists>e. es = [e, Advance_called p] \<and> posted_ok lib cfg p e) \<or>
     (\<exists>e now. es = [e, Refusal_recorded p now False] \<and> posted_refused lib cfg p e) \<or>
     (\<exists>e now ws. es = [e, Refusal_recorded p now True] @ ws \<and> posted_refused lib cfg p e \<and>
        walk_events lib cfg p MAX_LOOKAHEAD p 1 ws)"

lemma walk_log:
  "walk out lib cfg p d = (d', r) \<Longrightarrow>
     \<exists>es. d_log d' = d_log d @ es \<and> walk_events lib cfg p MAX_LOOKAHEAD p 1 es"
  using walk_events_Nil
  by (fastforce simp: walk_def do_mint_def dest: walk_loop_events split: option.splits)

lemma handle_refusal_log:
  assumes "handle_refusal out lib cfg p d = (d', r)"
  shows "\<exists>es. d_log d' = d_log d @ es \<and>
    (es = [] \<or> (\<exists>now. es = [Refusal_recorded p now False]) \<or>
     (\<exists>now ws. es = Refusal_recorded p now True # ws \<and> walk_events lib cfg p MAX_LOOKAHEAD p 1 ws))"
proof (cases "o_clock out (d_now d)")
  case None
  with assms show ?thesis by (auto simp: handle_refusal_def)
next
  case (Some now)
  obtain d1 er where e: "with_spool out (\<lambda>io clock s. record_refusal io p now s) (d\<lparr>d_now := Suc (d_now d)\<rparr>) = (d1, er)"
    by fastforce
  have log1: "d_log d1 = d_log d" using with_spool_log [OF e] by simp
  show ?thesis
  proof (cases er)
    case (Inl a)
    with assms Some e log1 show ?thesis by (auto simp: handle_refusal_def)
  next
    case (Inr eligible)
    with assms Some e log1 walk_log [of out lib cfg p "logged [Refusal_recorded p now True] d1" d' r]
    show ?thesis by (cases eligible) (auto simp: handle_refusal_def)
  qed
qed

lemma advance_one_log:
  assumes "advance_one out lib cfg d = Some (d', r)"
  shows "\<exists>es. d_log d' = d_log d @ es \<and>
    (es = [] \<or> (\<exists>d1 p. with_spool_next out lib d = Some (d1, Inr (Some p)) \<and> attempt_events lib cfg p es))"
proof -
  from assms obtain d1 nr where nx: "with_spool_next out lib d = Some (d1, nr)"
    by (auto simp: advance_one_def bind_eq_Some_conv)
  note log1 = with_spool_next_log [OF nx]
  show ?thesis
  proof (cases "\<exists>p. nr = Inr (Some p)")
    case False
    with assms nx have "d' = d1" by (auto simp: advance_one_def split: sum.splits option.splits)
    with log1 show ?thesis by simp
  next
    case True
    then obtain p where p: "nr = Inr (Some p)" ..
    obtain d2 mo where mo: "do_mint out d1 = (d2, mo)" by fastforce
    note log2 = do_mint_log [OF mo]
    have "\<exists>es. d_log d' = d_log d @ es \<and> attempt_events lib cfg p es"
    proof (cases "\<exists>m st. mo = Some m \<and> stamp_pending lib cfg m p = Some st")
      case False
      with assms nx p mo have "d' = d2" by (auto simp: advance_one_def split: option.splits)
      with log1 log2 show ?thesis by (auto simp: attempt_events_def)
    next
      case True
      then obtain m st where m: "mo = Some m" "stamp_pending lib cfg m p = Some st" by blast
      obtain d3 v where v: "forward_post out cfg (mt_bearer m) (p_signal p) st (p_format p = Fmt_Json) d2 = (d3, v)"
        by fastforce
      note log3 = forward_post_log [OF v m(2)]
      have eq: "advance_one out lib cfg d =
          (case v of
             Inr Accepted \<Rightarrow>
               (case with_spool out (\<lambda>io clock s. advance io clock p s) (logged [Advance_called p] d3) of
                  (d4, Inr _) \<Rightarrow> Some (d4, Advanced) | (d4, Inl _) \<Rightarrow> Some (d4, Stopped))
           | Inr (Refused _) \<Rightarrow> Some (handle_refusal out lib cfg p d3)
           | Inl _ \<Rightarrow> Some (d3, Stopped))"
        using nx p mo m v by (simp add: advance_one_def)
      show ?thesis
      proof (cases v)
        case (Inl e)
        with eq assms have "d' = d3" by simp
        with Inl log1 log2 log3 show ?thesis by (auto simp: attempt_events_def)
      next
        case (Inr w)
        show ?thesis
        proof (cases w)
          case Accepted
          with eq Inr assms have "d_log d' = d_log (logged [Advance_called p] d3)"
            by (auto dest: with_spool_log split: prod.splits sum.splits)
          with Accepted Inr log1 log2 log3 show ?thesis by (auto simp: attempt_events_def)
        next
          case (Refused status)
          with eq Inr assms have "handle_refusal out lib cfg p d3 = (d', r)" by simp
          from handle_refusal_log [OF this] Refused Inr log1 log2 log3 show ?thesis
            by (fastforce simp: attempt_events_def)
        qed
      qed
    qed
    with nx p show ?thesis by auto
  qed
qed

text \<open>A discard, and what came before it in the same attempt.\<close>

lemma attempt_discard:
  assumes "attempt_events lib cfg q es" and "Discard_called p lost probe \<in> set es"
  shows "p = q \<and> (\<exists>e now ps rs e'. es = [e, Refusal_recorded p now True] @ rs @ [e', Discard_called p lost probe] \<and>
    posted_refused lib cfg p e \<and> list_all2 (posted_refused lib cfg) ps rs \<and> posted_ok lib cfg probe e' \<and>
    successively (read_behind lib) (p # ps @ [probe]) \<and> lost = Suc (length ps) \<and> length ps < MAX_LOOKAHEAD)"
proof -
  have no: "\<not> posted_refused lib cfg x (Discard_called p lost probe)" "\<not> posted_other (Discard_called p lost probe)"
    "\<not> posted_ok lib cfg x (Discard_called p lost probe)" for x by (simp_all add: posted_defs)
  from assms no obtain e now ws where es: "es = [e, Refusal_recorded q now True] @ ws" "posted_refused lib cfg q e"
    "walk_events lib cfg q MAX_LOOKAHEAD q 1 ws" "Discard_called p lost probe \<in> set ws"
    unfolding attempt_events_def by auto
  from es(3) obtain ps rs where rs: "list_all2 (posted_refused lib cfg) ps rs" and
    ws: "ws = rs \<and> length rs \<le> MAX_LOOKAHEAD \<or>
       (\<exists>e. ws = rs @ [e] \<and> posted_other e \<and> length rs < MAX_LOOKAHEAD) \<or>
       (\<exists>e probe. ws = rs @ [e, Discard_called q (1 + length rs) probe] \<and> posted_ok lib cfg probe e \<and>
          successively (read_behind lib) (q # ps @ [probe]) \<and> length rs < MAX_LOOKAHEAD)"
    unfolding walk_events_def by blast
  have "Discard_called p lost probe \<notin> set rs"
    using rs no(1) by (metis in_set_conv_nth list_all2_conv_all_nth)
  with ws es(4) no obtain e' where
    w: "ws = rs @ [e', Discard_called q (1 + length rs) probe]" "posted_ok lib cfg probe e'" "length rs < MAX_LOOKAHEAD"
    "successively (read_behind lib) (q # ps @ [probe])" "p = q" "lost = 1 + length rs" by auto
  have "length ps = length rs" by (rule list_all2_lengthD [OF rs])
  with es rs w show ?thesis by auto
qed

section \<open>A pass is bounded and returns\<close>

definition is_post :: "event \<Rightarrow> bool" where
  "is_post e = (case e of Posted _ _ \<Rightarrow> True | _ \<Rightarrow> False)"

definition posts :: "event list \<Rightarrow> nat" where
  "posts es = length (filter is_post es)"

lemma posts_append [simp]: "posts (es @ fs) = posts es + posts fs"
  by (simp add: posts_def)

lemma posts_le: "posts es \<le> length es"
  by (simp add: posts_def)

lemma posts_simps [simp]:
  "posts [] = 0" "posts (Discard_called a b c # es) = posts es"
  "posts (Refusal_recorded p now el # es) = posts es" "posts (Advance_called p # es) = posts es"
  by (simp_all add: posts_def is_post_def)

lemma posts_Cons_le: "posts (e # es) \<le> Suc (posts es)"
  by (simp add: posts_def)

lemma walk_posts: "walk_events lib cfg q n c l es \<Longrightarrow> posts es \<le> n"
  unfolding walk_events_def
proof (elim exE conjE disjE)
  fix rs e probe
  assume "es = rs @ [e, Discard_called q (l + length rs) probe]" "length rs < n"
  then show "posts es \<le> n" using posts_le [of rs] posts_Cons_le [of e "[Discard_called q (l + length rs) probe]"] by simp
next
  fix rs e
  assume "es = rs @ [e]" "length rs < n"
  then show "posts es \<le> n" using posts_le [of rs] posts_Cons_le [of e "[]"] by simp
next
  fix rs
  assume "es = rs" "length rs \<le> n"
  then show "posts es \<le> n" using posts_le [of rs] by simp
qed

lemma attempt_posts:
  assumes "attempt_events lib cfg p es"
  shows "posts es \<le> Suc MAX_LOOKAHEAD"
proof -
  consider (short) "posts es \<le> 1" |
    (long) e now ws where "es = [e, Refusal_recorded p now True] @ ws" "walk_events lib cfg p MAX_LOOKAHEAD p 1 ws"
    using assms unfolding attempt_events_def by (auto simp: posts_def is_post_def)
  then show ?thesis
  proof cases
    case long
    then show ?thesis using walk_posts [OF long(2)] posts_Cons_le [of e "Refusal_recorded p now True # ws"] by simp
  qed simp
qed

lemma advance_one_total: "\<exists>r. advance_one out lib cfg d = Some r"
proof -
  have "\<exists>r. next_pending lib io clock s = Some r" for io clock s
    using next_loop_total by (auto simp: next_pending_def split: option.split)
  then have "\<exists>r. with_spool_next out lib d = Some r"
    by (auto simp: with_spool_next_def Let_def map_option_case split: option.split) (metis option.distinct(1))
  then obtain d1 r where "with_spool_next out lib d = Some (d1, r)" by fastforce
  then show ?thesis
    by (auto simp: advance_one_def do_mint_def split: sum.split option.split prod.split verdict.split)
qed

lemma drain_loop_posts:
  "drain_loop out lib cfg n d = Some (d', r) \<Longrightarrow>
     \<exists>es. d_log d' = d_log d @ es \<and> posts es \<le> n * Suc MAX_LOOKAHEAD"
proof (induction n arbitrary: d)
  case 0
  then show ?case by (simp add: posts_def)
next
  case (Suc n)
  obtain d1 er where e: "with_spool out (\<lambda>io clock s. (s, is_caught_up lib io s)) d = (d1, er)" by fastforce
  note log1 = with_spool_log [OF e]
  show ?case
  proof (cases "er = Inr False")
    case False
    with Suc.prems e have "d' = d1" by (auto split: sum.splits bool.splits)
    with log1 show ?thesis by (simp add: posts_def)
  next
    case True
    from advance_one_total obtain d2 oc where a: "advance_one out lib cfg d1 = Some (d2, oc)" by fastforce
    from advance_one_log [OF a] log1 obtain es where es: "d_log d2 = d_log d @ es" "posts es \<le> Suc MAX_LOOKAHEAD"
      using attempt_posts by fastforce
    show ?thesis
    proof (cases "oc = Advanced")
      case False
      with Suc.prems e True a have "d' = d2" by (auto split: outcome.splits)
      with es show ?thesis by auto
    next
      case adv: True
      with Suc.prems e True a have "drain_loop out lib cfg n d2 = Some (d', r)" by simp
      from Suc.IH [OF this] obtain fs where "d_log d' = d_log d2 @ fs" "posts fs \<le> n * Suc MAX_LOOKAHEAD" by blast
      with es show ?thesis by (intro exI [of _ "es @ fs"]) simp
    qed
  qed
qed

lemma drain_loop_total: "\<exists>r. drain_loop out lib cfg n d = Some r"
proof (induction n arbitrary: d)
  case (Suc n)
  obtain d1 er where e: "with_spool out (\<lambda>io clock s. (s, is_caught_up lib io s)) d = (d1, er)" by fastforce
  from advance_one_total obtain d2 oc where "advance_one out lib cfg d1 = Some (d2, oc)" by fastforce
  with e Suc.IH show ?case by (auto split: sum.split bool.split outcome.split)
qed simp

section \<open>Admission\<close>

text \<open>What the answer to a request says about the spool.\<close>

lemma retain_ok:
  assumes "retain lib io sig payload fmt s = (s', Inr u)"
  obtains l where "envelope_encode lib sig payload fmt = Some l"
    "sp_file s' = Some (appended (sp_file s) (sp_inode s) (l @ [newline]))"
    "sp_ckpt s' = sp_ckpt s" "sp_stored s' = sp_stored s"
proof -
  from assms obtain l where l: "envelope_encode lib sig payload fmt = Some l"
    by (auto simp: retain_def split: option.splits)
  have "append_line io l s = (s', Inr u)" using retain_file [OF assms l] by auto
  from append_line_file [OF this] l show ?thesis by (intro that [of l]) auto
qed

lemma handle_request_cases:
  assumes "handle_request out lib req d = (d', resp)"
  shows "(d' = d \<and> rs_status resp \<in> {400, 403, 413, 415}) \<or>
    (\<exists>inc sig. receive_build MAX_RETAINABLE_PAYLOAD req = Inr inc \<and>
       classify_signal (otlp lib) (in_body inc) (in_format inc) (in_path inc) = Some sig \<and>
       retained_response out lib sig (admitted_body (otlp lib) sig inc) (in_format inc) d = (d', resp))"
  using assms by (auto simp: handle_request_def status_only_def split: sum.splits receive_error.splits option.splits)

lemma retained_response_ok:
  assumes "retained_response out lib sig payload fmt d = (d', resp)" and "rs_status resp = 200"
  obtains l where "envelope_encode lib sig payload fmt = Some l" "d_wake d'"
    "sp_file (d_spool d') =
       (let s = o_between out (d_now d) (d_spool d) in Some (appended (sp_file s) (sp_inode s) (l @ [newline])))"
proof -
  define s where "s = o_between out (d_now d) (d_spool d)"
  from assms obtain s' u where r: "retain lib (o_io out (d_now d)) sig payload fmt s = (s', Inr u)"
    and d': "d_spool d' = s'" "d_wake d'"
    by (auto simp: retained_response_def drain_retain_def with_spool_def status_only_def s_def Let_def
        split: prod.splits sum.splits bool.splits if_splits)
  show ?thesis using retain_ok [OF r] d' that unfolding s_def Let_def by metis
qed

lemma retained_response_log: "retained_response out lib sig payload fmt d = (d', resp) \<Longrightarrow> d_log d' = d_log d"
  by (auto simp: retained_response_def drain_retain_def dest: with_spool_log split: prod.splits sum.splits bool.splits)

lemma retained_response_status:
  "retained_response out lib sig payload fmt d = (d', resp) \<Longrightarrow> rs_status resp = 200 \<or> rs_status resp = 503"
  by (auto simp: retained_response_def status_only_def split: prod.splits bool.splits)

subsection \<open>Envelopes\<close>

text \<open>What the code relies on of base64 and of the generated (de)serialisation of an envelope.\<close>

definition codec_laws :: "spool_lib \<Rightarrow> bool" where
  "codec_laws lib \<longleftrightarrow>
     (\<forall>x. b64_decode lib (b64_encode lib x) = Some x) \<and>
     (\<forall>en l. envelope_to_string lib en = Some l \<longrightarrow> envelope_from_str lib l = Some en)"

definition size_laws :: "spool_lib \<Rightarrow> bool" where
  "size_laws lib \<longleftrightarrow>
     (\<forall>x. length (b64_encode lib x) = 4 * ((length x + 2) div 3)) \<and>
     (\<forall>en l. envelope_to_string lib en = Some l \<longrightarrow> length l < length (env_body en) + ENVELOPE_OVERHEAD)"

lemma envelope_decode_encode:
  assumes "codec_laws lib" and "envelope_encode lib sig body fmt = Some l"
  shows "envelope_decode lib l =
    Some (if sig = Logs then (case classify_signal (otlp lib) body fmt ''/'' of Some s \<Rightarrow> s | None \<Rightarrow> sig) else sig,
          body, fmt)"
  using assms by (auto simp: codec_laws_def envelope_encode_def envelope_decode_def split: option.split)

text \<open>A body that was admitted under some path keeps its signal without the path.\<close>

lemma from_path_root: "from_path ''/'' = None"
  by (simp add: from_path_def ends_with_def signal_path_def)

lemma classify_root:
  "classify_signal lib body fmt path = Some sig \<Longrightarrow>
     classify_signal lib body fmt ''/'' = None \<or> classify_signal lib body fmt ''/'' = Some sig"
  by (cases fmt)
    (auto simp: classify_signal_def from_path_root Let_def split: sum.splits list.splits option.splits if_splits)

lemma retainable_line_fits:
  assumes "size_laws lib" and "length payload \<le> MAX_RETAINABLE_PAYLOAD"
    and "envelope_encode lib sig payload fmt = Some l"
  shows "length l < MAX_READ"
proof -
  have "length l < 4 * ((length payload + 2) div 3) + ENVELOPE_OVERHEAD"
    using assms(1,3) by (fastforce simp: size_laws_def envelope_encode_def)
  moreover have "(length payload + 2) div 3 \<le> 2097136"
    using assms(2) by (simp add: MAX_RETAINABLE_PAYLOAD_def MAX_READ_def ENVELOPE_OVERHEAD_def)
  ultimately show ?thesis by (simp add: MAX_READ_def ENVELOPE_OVERHEAD_def)
qed

section \<open>Lines that block the drain\<close>

text \<open>A line as long as the tail's buffer is retained, and every read at it fails.\<close>

lemma rposition_nl_clean: "newline \<notin> set s \<Longrightarrow> rposition_nl s = None"
  by (simp add: rposition_nl_None)

lemma tail_drain_oversized:
  assumes "newline \<notin> set l" and "MAX_READ \<le> length l"
    and "identity_restart sha known (ino, pre @ l @ b) (length pre) = None"
    and "tail_drain io sha (Some (ino, pre @ l @ b)) (length pre) known = r"
  shows "\<exists>e. r = Inl e" and "io = io_ok \<Longrightarrow> r = Inl (Record_too_large (length pre))"
proof -
  have "take MAX_READ (l @ b) = take MAX_READ l" using assms(2) by simp
  moreover have "newline \<notin> set (take MAX_READ l)" using assms(1) by (meson in_set_takeD)
  ultimately show "\<exists>e. r = Inl e" and "io = io_ok \<Longrightarrow> r = Inl (Record_too_large (length pre))"
    using assms(2-4) by (auto simp: tail_drain_def rposition_nl_clean Let_def)
qed

text \<open>Everything in the file lies before the checkpoint; the checkpoint stands at the line \<open>l\<close>; and the two
  calls that go on while it does.\<close>

definition delivered_all :: "spool_lib \<Rightarrow> dspool \<Rightarrow> bool" where
  "delivered_all lib s \<longleftrightarrow>
     (case sp_file s of
        None \<Rightarrow> ck_offset (sp_ckpt s) = 0 \<and> ck_spool (sp_ckpt s) = None
      | Some f \<Rightarrow> settled_on lib f (sp_ckpt s) \<and> ck_offset (sp_ckpt s) = length (snd f))"

definition stuck_at :: "spool_lib \<Rightarrow> string \<Rightarrow> nat \<Rightarrow> dspool \<Rightarrow> bool" where
  "stuck_at lib l n s \<longleftrightarrow> newline \<notin> set l \<and> MAX_READ \<le> length l \<and> ck_offset (sp_ckpt s) = n \<and>
     (\<exists>ino pre b. sp_file s = Some (ino, pre @ l @ b) \<and> length pre = n \<and>
        settled_on lib (ino, pre @ l @ b) (sp_ckpt s))"

inductive retain_or_read :: "spool_lib \<Rightarrow> dspool \<Rightarrow> dspool \<Rightarrow> bool" for lib where
  rr_retain: "retain lib io sig payload fmt s = (s', r) \<Longrightarrow> retain_or_read lib s s'"
| rr_read: "next_pending lib io clock s = Some (s', r) \<Longrightarrow> retain_or_read lib s s'"

lemma retain_oversized:
  assumes "envelope_encode lib sig payload fmt = Some l" and "newline \<notin> set l"
    and "MAX_READ \<le> length l" and "length l + 1 \<le> CAPACITY" and "delivered_all lib s"
  shows "\<exists>s1. retain lib io_ok sig payload fmt s = (s1, Inr ()) \<and> stuck_at lib l (ck_offset (sp_ckpt s)) s1"
proof (cases "sp_file s")
  case None
  with assms have "settled_on lib (sp_inode s, l @ [newline]) (sp_ckpt s)"
    by (intro settled_onI) (simp_all add: delivered_all_def)
  with None assms show ?thesis
    by (intro exI [of _ "s\<lparr>sp_file := Some (sp_inode s, l @ [newline]), sp_inode := Suc (sp_inode s)\<rparr>"])
      (auto simp: retain_def append_line_def file_size_def delivered_all_def stuck_at_def intro: exI [of _ "[newline]"])
next
  case (Some f)
  obtain ino b where f: "f = (ino, b)" by fastforce
  with Some assms(5) have c: "settled_on lib (ino, b) (sp_ckpt s)" "ck_offset (sp_ckpt s) = length b"
    by (simp_all add: delivered_all_def)
  from settled_on_append [OF c(1), of "l @ [newline]"] c(2) Some f assms(1-4) show ?thesis
    by (intro exI [of _ "s\<lparr>sp_file := Some (ino, b @ l @ [newline])\<rparr>"])
      (simp add: retain_def append_line_def file_size_def stuck_at_def, blast)
qed

lemma next_stuck:
  assumes "stuck_at lib l n s"
  shows "\<exists>s' e. next_pending lib io clock s = Some (s', Inl e)"
    and "\<exists>s'. next_pending lib io_ok (Some now) s = Some (s', Inl (Record_too_large n))"
    and "next_pending lib io clock s = Some (s', r) \<Longrightarrow> stuck_at lib l n s'"
proof -
  from assms obtain ino pre b where f: "sp_file s = Some (ino, pre @ l @ b)" "length pre = n" "ck_offset (sp_ckpt s) = n"
    and l: "newline \<notin> set l" "MAX_READ \<le> length l"
    and set: "identity_restart (sha_hex lib) (ck_spool (sp_ckpt s)) (ino, pre @ l @ b) n = None"
    unfolding stuck_at_def settled_on_def by auto
  let ?s = "\<lambda>now. s\<lparr>sp_ckpt := (sp_ckpt s)\<lparr>ck_quarantine := prune now (ck_quarantine (sp_ckpt s))\<rparr>\<rparr>"
  note td = tail_drain_oversized [OF l set [folded f(2)] refl, unfolded f(2)]
  have turn: "\<exists>e. next_loop lib io clock (?s now) = Some (?s now, Inl e)" for io clock now
    using td(1) [of io] f by (subst next_loop.simps) (auto simp: next_turn_def peek_at_def)
  have "next_loop lib io_ok (Some now) (?s now) = Some (?s now, Inl (Record_too_large n))"
    using td(2) [of io_ok] f by (subst next_loop.simps) (simp add: next_turn_def peek_at_def)
  then show "\<exists>s'. next_pending lib io_ok (Some now) s = Some (s', Inl (Record_too_large n))"
    by (simp add: next_pending_def)
  show "\<exists>s' e. next_pending lib io clock s = Some (s', Inl e)"
  proof (cases clock)
    case (Some now)
    from turn [of io clock now] Some show ?thesis by (auto simp: next_pending_def)
  qed (simp add: next_pending_def)
  show "stuck_at lib l n s'" if "next_pending lib io clock s = Some (s', r)"
  proof (cases clock)
    case None
    with that assms show ?thesis by (simp add: next_pending_def)
  next
    case (Some now)
    with that turn [of io clock now] have "s' = ?s now" by (auto simp: next_pending_def)
    with assms show ?thesis unfolding stuck_at_def settled_on_def by auto
  qed
qed

lemma stuck_at_step: "stuck_at lib l n s \<Longrightarrow> retain_or_read lib s s' \<Longrightarrow> stuck_at lib l n s'"
proof (erule retain_or_read.cases)
  fix io sig payload fmt sa s'a r
  assume st: "stuck_at lib l n s" "s = sa" "s' = s'a" and r: "retain lib io sig payload fmt sa = (s'a, r)"
  from st obtain ino pre b where f: "sp_file s = Some (ino, pre @ l @ b)" "length pre = n" "ck_offset (sp_ckpt s) = n"
    "settled_on lib (ino, pre @ l @ b) (sp_ckpt s)" "newline \<notin> set l" "MAX_READ \<le> length l"
    unfolding stuck_at_def by auto
  from r st(2,3) have "s' = s \<or> (\<exists>x. sp_file s' = Some (appended (sp_file s) (sp_inode s) x) \<and> sp_ckpt s' = sp_ckpt s)"
    by (auto simp: retain_def Let_def dest: append_line_file split: option.splits if_splits)
  then show "stuck_at lib l n s'"
  proof
    assume "\<exists>x. sp_file s' = Some (appended (sp_file s) (sp_inode s) x) \<and> sp_ckpt s' = sp_ckpt s"
    then obtain x where "sp_file s' = Some (ino, pre @ l @ b @ x)" "sp_ckpt s' = sp_ckpt s"
      using f(1) by (auto simp: appended_def)
    with f settled_on_append [OF f(4), of x] show ?thesis unfolding stuck_at_def by auto
  qed (use st in simp)
next
  fix io clock sa s'a r
  assume "stuck_at lib l n s" "s = sa" "s' = s'a" "next_pending lib io clock sa = Some (s'a, r)"
  with next_stuck(3) show "stuck_at lib l n s'" by blast
qed

text \<open>A record that is refused for good is not given up on while the line behind it cannot be decoded,
  whatever is retained after that line and whatever the collector would accept.\<close>

lemma peek_next_undecodable:
  assumes "held_at lib s (p_boundary p) (l # qs)" and "undecodable lib l"
    and "\<And>f. sp_file s = Some f \<Longrightarrow> settled_on lib f (sp_ckpt s)"
  shows "peek_next lib io p s \<noteq> Inr (Some q)"
proof
  assume "peek_next lib io p s = Inr (Some q)"
  then obtain ident where pk: "peek_at lib io (p_boundary p) s = Inr (Peek_Decoded q, ident)"
    by (auto simp: peek_next_def split: sum.splits peeked.splits prod.splits)
  from assms(1) obtain ds f where h: "sp_file s = Some f" "list_all good_line (ds @ l # qs)"
    "snd f = render_lines (ds @ l # qs)" "p_boundary p = length (render_lines ds)" unfolding held_at_def by blast
  obtain ino where f: "f = (ino, render_lines (ds @ l # qs))" using h(3) by (metis prod.collapse)
  have "Peek_Decoded q = peek_line lib (length (render_lines ds)) (l # qs)"
    using peek_at_held(1) [OF h(2), of s ino lib io "Peek_Decoded q" ident] h(1,4) f assms(3) pk by simp
  with assms(2) show False by (auto simp: peek_line_def pending_of_def undecodable_def split: option.splits)
qed

lemma walk_blocked:
  assumes "\<And>io q. peek_next lib io p (o_between out n (d_spool d)) \<noteq> Inr (Some q)"
    and "n = Suc (d_now d)"
  shows "\<exists>d'. walk out lib cfg p d = (d', Stopped) \<and> d_log d' = d_log d \<and>
    (d_spool d' = d_spool d \<or> d_spool d' = o_between out n (d_spool d))"
proof (cases "o_mint out (d_now d)")
  case None
  then show ?thesis by (simp add: walk_def do_mint_def)
next
  case (Some m)
  let ?d1 = "d\<lparr>d_now := Suc (d_now d)\<rparr>"
  obtain d2 r where w: "with_spool out (\<lambda>io clock s. (s, peek_next lib io p s)) ?d1 = (d2, r)" by fastforce
  then have r: "d_spool d2 = o_between out n (d_spool d)" "\<nexists>q. r = Inr (Some q)"
    using assms by (auto simp: with_spool_def Let_def split: if_splits)
  have "walk_loop out lib cfg m p MAX_LOOKAHEAD p 1 ?d1 = (d2, Stopped)"
    using w r(2) by (auto simp: MAX_LOOKAHEAD_def eval_nat_numeral split: sum.splits option.splits)
  with Some w r(1) show ?thesis using with_spool_log [OF w] by (simp add: walk_def do_mint_def)
qed

end
