(* ===== verification/Daemon_Props.thy ===== *)
theory Daemon_Props
  imports Daemon_Drain_Correct
begin

text \<open>
  The properties of the telemetry daemon, with their witnesses on a small concrete instance of the
  library functions: base64 is the identity, and an envelope is printed as one letter for its signal,
  one for its format, and its body.
\<close>

section \<open>A concrete instance\<close>

definition smp_otlp :: otlp_lib where
  "smp_otlp =
     \<lparr>json_doc = \<lparr>from_str = (\<lambda>_. Inl []), to_str = (\<lambda>_. Some [])\<rparr>,
      logs_from_json = (\<lambda>_. None), logs_decode = (\<lambda>_. None), logs_to_json = (\<lambda>_. None), logs_encode = (\<lambda>_. []),
      metrics_from_json = (\<lambda>_. None), metrics_decode = (\<lambda>_. None), metrics_to_json = (\<lambda>_. None),
      metrics_encode = (\<lambda>_. []), traces_decode = (\<lambda>_. None)\<rparr>"

definition smp_print :: "envelope \<Rightarrow> string option" where
  "smp_print en =
     (case env_format en of
        None \<Rightarrow> None
      | Some f \<Rightarrow>
          Some ((case env_signal en of Logs \<Rightarrow> CHR ''L'' | Metrics \<Rightarrow> CHR ''M'' | Traces \<Rightarrow> CHR ''T'') #
                (case f of Fmt_Json \<Rightarrow> CHR ''J'' | Fmt_Protobuf \<Rightarrow> CHR ''P'') # env_body en))"

definition smp_parse :: "string \<Rightarrow> envelope option" where
  "smp_parse t =
     (case t of
        a # b # body \<Rightarrow>
          (let sig = (if a = CHR ''L'' then Some Logs else if a = CHR ''M'' then Some Metrics
                      else if a = CHR ''T'' then Some Traces else None);
               fmt = (if b = CHR ''J'' then Some Fmt_Json else if b = CHR ''P'' then Some Fmt_Protobuf else None)
           in case (sig, fmt) of
                (Some s, Some f) \<Rightarrow> Some \<lparr>env_signal = s, env_body = body, env_format = Some f\<rparr>
              | _ \<Rightarrow> None)
      | _ \<Rightarrow> None)"

definition smp_lib :: spool_lib where
  "smp_lib =
     \<lparr>sha_hex = (\<lambda>s. s), b64_encode = (\<lambda>s. s), b64_decode = Some, envelope_to_string = smp_print,
      envelope_from_str = smp_parse, otlp = smp_otlp\<rparr>"

lemmas smp_defs = smp_lib_def smp_otlp_def smp_print_def smp_parse_def

lemma smp_codec_laws: "codec_laws smp_lib"
  by (auto simp: codec_laws_def smp_defs split: option.splits signal.splits wire_format.splits)

text \<open>Three lines of it.\<close>

definition smp_line :: string where "smp_line = ''MPab''"
definition smp_line2 :: string where "smp_line2 = ''MPcd''"
definition smp_torn :: string where "smp_torn = ''XY''"

lemma smp_good: "good_line smp_line" "good_line smp_line2" "good_line smp_torn"
proof -
  have "valid_utf8 smp_line \<and> str_trim smp_line = smp_line \<and> valid_utf8 smp_line2 \<and> str_trim smp_line2 = smp_line2 \<and>
      valid_utf8 smp_torn \<and> str_trim smp_torn = smp_torn" by code_simp
  then show "good_line smp_line" "good_line smp_line2" "good_line smp_torn"
    by (simp_all add: good_line_def) (simp_all add: smp_line_def smp_line2_def smp_torn_def MAX_READ_def)
qed

lemma smp_encode:
  "envelope_encode smp_lib Metrics ''ab'' Fmt_Protobuf = Some smp_line"
  "envelope_encode smp_lib Metrics ''cd'' Fmt_Protobuf = Some smp_line2"
  by (simp_all add: envelope_encode_def smp_defs smp_line_def smp_line2_def)

lemma smp_decode:
  "envelope_decode smp_lib smp_line = Some (Metrics, ''ab'', Fmt_Protobuf)"
  "envelope_decode smp_lib smp_line2 = Some (Metrics, ''cd'', Fmt_Protobuf)"
  "envelope_decode smp_lib smp_torn = None"
  by (simp_all add: envelope_decode_def smp_defs smp_line_def smp_line2_def smp_torn_def)

lemma smp_decodable: "\<not> undecodable smp_lib smp_line" "\<not> undecodable smp_lib smp_line2" "undecodable smp_lib smp_torn"
  by (simp_all add: undecodable_def smp_decode)

definition smp_spool :: dspool where
  "smp_spool =
     \<lparr>sp_file = Some (0, render_lines [smp_line]), sp_inode = 1, sp_stored = None, sp_ckpt = Checkpoint_default,
      sp_pending_identity = None\<rparr>"


lemma smp_retain:
  "retain smp_lib io_ok Metrics ''ab'' Fmt_Protobuf (mc_spool machine_init) = (smp_spool, Inr ())"
  by (simp add: retain_def smp_encode append_line_def machine_init_def smp_spool_def file_size_def
      Checkpoint_default_def CAPACITY_def smp_line_def render_lines_def)


section \<open>No record is lost\<close>



text \<open>C28: reading the next record always returns, for every spool, every outcome of the file calls and
  every clock: the loop that skips undecodable lines restarts at most once and otherwise moves forward.\<close>

theorem next_always_returns: "\<exists>s' r. next_pending lib io clock s = Some (s', r)"
proof (cases clock)
  case (Some now)
  then show ?thesis
    using next_loop_total [of lib io clock "s\<lparr>sp_ckpt := (sp_ckpt s)\<lparr>ck_quarantine := prune now (ck_quarantine (sp_ckpt s))\<rparr>\<rparr>"]
    by (auto simp: next_pending_def)
qed (simp add: next_pending_def)

text \<open>C27: on a spool whose checkpoint is at the end of a line, with every file call succeeding, \<open>next\<close>
  drops the undecodable head of the queue and returns the record of the first line that is left, and
  \<open>advance\<close> then removes exactly that line, from the queue in memory and from the one a restart reads.\<close>

theorem next_then_advance_pops:
  assumes "at_line lib (sp_file s) (sp_ckpt s)"
    and "dropWhile (undecodable lib) (queue lib (sp_file s) (sp_ckpt s)) = l # ls"
  shows "\<exists>s1 p s2. next_pending lib io_ok (Some now) s = Some (s1, Inr (Some p)) \<and>
    pending_of lib l (p_boundary p) = Some p \<and> queue lib (sp_file s1) (sp_ckpt s1) = l # ls \<and>
    advance io_ok (Some now) p s1 = (s2, Inr ()) \<and>
    queue lib (sp_file s2) (sp_ckpt s2) = ls \<and>
    queue lib (sp_file s2) (sp_ckpt (DurableSpool_open s2)) = ls"
proof -
  from next_pending_refines [OF assms(1), of now] assms(2) obtain s1 r where
    n: "next_pending lib io_ok (Some now) s = Some (s1, Inr r)" "next_ok lib s (l # ls) s1 r" by auto
  then obtain k p where p: "r = Some p" "pending_of lib l k = Some p" "held_at lib s1 k ls"
    "queue lib (sp_file s1) (sp_ckpt s1) = l # ls" by (auto simp: next_ok_def)
  have k: "p_boundary p = k" using p(2) by (rule pending_of_boundary)
  obtain s2 where s2: "commit_past io_ok (Some now) k 0 s1 = (s2, Inr ())" "committed lib s1 s2 ls"
    using commit_past_spec [OF p(3), of now 0] by metis
  then have "queue lib (sp_file s2) (sp_ckpt s2) = ls"
    "queue lib (sp_file s2) (sp_ckpt (DurableSpool_open s2)) = ls"
    by (auto simp: committed_def DurableSpool_open_def checkpoint_load_def)
  with n(1) p k s2(1) show ?thesis by (auto simp: advance_def)
qed

lemma smp_spool_at: "at_line smp_lib (sp_file smp_spool) (sp_ckpt smp_spool)"
  and smp_spool_queue: "queue smp_lib (sp_file smp_spool) (sp_ckpt smp_spool) = [smp_line]"
proof -
  have "settled_on smp_lib (0, render_lines [smp_line]) Checkpoint_default"
    by (intro settled_onI) (simp_all add: Checkpoint_default_def)
  then have e: "effective smp_lib (0, render_lines [smp_line]) Checkpoint_default = 0"
    by (simp add: Checkpoint_default_def)
  show "at_line smp_lib (sp_file smp_spool) (sp_ckpt smp_spool)"
    "queue smp_lib (sp_file smp_spool) (sp_ckpt smp_spool) = [smp_line]"
    using at_lineI [of "[]" "[smp_line]" "(0, render_lines [smp_line])" smp_lib Checkpoint_default] smp_good(1) e
    by (simp_all add: smp_spool_def)
qed

theorem next_then_advance_pops_witness:
  "\<exists>s1 p s2. next_pending smp_lib io_ok (Some 0) smp_spool = Some (s1, Inr (Some p)) \<and>
     p_payload p = ''ab'' \<and> advance io_ok (Some 0) p s1 = (s2, Inr ()) \<and>
     queue smp_lib (sp_file s2) (sp_ckpt s2) = []"
proof -
  from next_then_advance_pops [OF smp_spool_at, of smp_line "[]" 0] obtain s1 p s2 where
    "next_pending smp_lib io_ok (Some 0) smp_spool = Some (s1, Inr (Some p))"
    "pending_of smp_lib smp_line (p_boundary p) = Some p" "advance io_ok (Some 0) p s1 = (s2, Inr ())"
    "queue smp_lib (sp_file s2) (sp_ckpt s2) = []"
    by (auto simp: smp_spool_queue smp_decodable)
  moreover from this(2) have "p_payload p = ''ab''"
    by (simp add: pending_of_def smp_decode) (metis pending.select_convs(2))
  ultimately show ?thesis by blast
qed

section \<open>What is discarded\<close>

text \<open>C6: when an attempt of the drain discards a record \<open>p\<close>, \<open>p\<close> is the record the attempt took from the
  head of the spool; its own offer to the collector was refused for good and the table of refusals called
  it eligible; then the records read behind it, one after the other, each offered once, were refused for
  good too; and the record \<open>probe\<close> read behind all of those was offered and accepted. The number of
  records charged as lost is the number of refused ones, at most \<open>MAX_LOOKAHEAD\<close>.\<close>

theorem discards_need_evidence:
  assumes "advance_one out lib cfg d = Some (d', r)" and "d_log d' = d_log d @ es"
    and "Discard_called p lost probe \<in> set es"
  shows "\<exists>d1 e now ps rs e'. with_spool_next out lib d = Some (d1, Inr (Some p)) \<and>
    es = [e, Refusal_recorded p now True] @ rs @ [e', Discard_called p lost probe] \<and>
    posted_refused lib cfg p e \<and> list_all2 (posted_refused lib cfg) ps rs \<and> posted_ok lib cfg probe e' \<and>
    successively (read_behind lib) (p # ps @ [probe]) \<and> lost = Suc (length ps) \<and> length ps < MAX_LOOKAHEAD"
proof -
  from advance_one_log [OF assms(1)] assms(2,3) obtain d1 q where
    "with_spool_next out lib d = Some (d1, Inr (Some q))" "attempt_events lib cfg q es" by auto
  then show ?thesis using attempt_discard [of lib cfg q es p lost probe] assms(3) by blast
qed

text \<open>A spool with two records of which the first was refused once, and an outside that refuses the
  first and accepts the second.\<close>

definition smp_key :: string where "smp_key = ''metrics:MPab''"

definition smp_refused_once :: dspool where
  "smp_refused_once =
     \<lparr>sp_file = Some (0, render_lines [smp_line, smp_line2]), sp_inode = 1, sp_stored = None,
      sp_ckpt = Checkpoint_default\<lparr>ck_quarantine := [(smp_key, \<lparr>refusals = 1, last_seen_unix = 0\<rparr>)]\<rparr>,
      sp_pending_identity = None\<rparr>"

definition smp_outside :: outside where
  "smp_outside =
     \<lparr>o_mint = (\<lambda>_. Some \<lparr>mt_bearer = ''b'', mt_access_token = ''t''\<rparr>),
      o_send = (\<lambda>_ rq. Some (if rq_payload rq = ''ab'' then 400 else 200)),
      o_clock = (\<lambda>_. Some 100), o_io = (\<lambda>_. io_ok), o_cancel = (\<lambda>_. False), o_between = (\<lambda>_ s. s)\<rparr>"

definition smp_cfg :: drain_config where
  "smp_cfg = \<lparr>otel_endpoint = Some ''http://c/'', url_safe_decode = (\<lambda>_. None)\<rparr>"

definition smp_daemon :: daemon where
  "smp_daemon = \<lparr>d_spool = smp_refused_once, d_now = 0, d_log = [], d_wake = False\<rparr>"

definition smp_pending :: pending where
  "smp_pending = \<lparr>p_signal = Metrics, p_payload = ''ab'', p_format = Fmt_Protobuf, p_key = smp_line, p_boundary = 5\<rparr>"

definition smp_pending2 :: pending where
  "smp_pending2 = \<lparr>p_signal = Metrics, p_payload = ''cd'', p_format = Fmt_Protobuf, p_key = smp_line2, p_boundary = 10\<rparr>"

lemma smp_peeks:
  assumes "sp_file s = Some (0, render_lines [smp_line, smp_line2])" and "ck_spool (sp_ckpt s) = None"
  shows "peek_at smp_lib io_ok 0 s = Inr (Peek_Decoded smp_pending, Some (identity_of (sha_hex smp_lib) (0, render_lines [smp_line, smp_line2])))"
    and "peek_next smp_lib io_ok smp_pending s = Inr (Some smp_pending2)"
proof -
  have l: "length (render_lines [smp_line]) = 5" "length smp_line = 4" "length smp_line2 = 4"
    by (simp_all add: smp_line_def smp_line2_def)
  have k: "quarantine_key (sha_hex smp_lib) smp_line = smp_line" "quarantine_key (sha_hex smp_lib) smp_line2 = smp_line2"
    by (simp_all add: quarantine_key_def smp_lib_def smp_line_def smp_line2_def)
  show "peek_at smp_lib io_ok 0 s = Inr (Peek_Decoded smp_pending, Some (identity_of (sha_hex smp_lib) (0, render_lines [smp_line, smp_line2])))"
    using peek_at_lines [of "[]" "[smp_line, smp_line2]" s _ 0 0 smp_lib] smp_good assms k l
    by (simp add: identity_restart_def peek_line_def pending_of_def smp_decode smp_pending_def)
  have "peek_at smp_lib io_ok 5 s = Inr (Peek_Decoded smp_pending2, Some (identity_of (sha_hex smp_lib) (0, render_lines [smp_line, smp_line2])))"
    using peek_at_lines [of "[smp_line]" "[smp_line2]" s _ 0 5 smp_lib] smp_good assms k l
    by (simp add: identity_restart_def peek_line_def pending_of_def smp_decode smp_pending2_def)
  then show "peek_next smp_lib io_ok smp_pending s = Inr (Some smp_pending2)"
    by (simp add: peek_next_def smp_pending_def)
qed

definition smp_post :: "string \<Rightarrow> post_request" where
  "smp_post payload = \<lparr>rq_url = ''http://c/v1/metrics'', rq_content_type = ''application/x-protobuf'',
     rq_bearer = ''b'', rq_payload = payload\<rparr>"

lemma smp_forward:
  "forward_post smp_outside smp_cfg ''b'' Metrics payload False d =
     (let st = (if payload = ''ab'' then 400 else 200)
      in (logged [Posted (smp_post payload) (Some st)] (d\<lparr>d_now := Suc (d_now d)\<rparr>),
          if payload = ''ab'' then Inr (Refused 400) else Inr Accepted))"
  by (simp add: forward_post_def smp_cfg_def smp_outside_def smp_post_def trim_end_matches_def signal_path_def
      is_success_def is_permanent_def)

lemma smp_stamp:
  "stamp_pending smp_lib smp_cfg m smp_pending = Some ''ab''"
  "stamp_pending smp_lib smp_cfg m smp_pending2 = Some ''cd''"
  by (simp_all add: stamp_pending_def parsed_payload_def stamp_def smp_pending_def smp_pending2_def)

lemma smp_prune: "prune 100 [(smp_key, \<lparr>refusals = 1, last_seen_unix = 0\<rparr>)] = [(smp_key, \<lparr>refusals = 1, last_seen_unix = 0\<rparr>)]"
  by (simp add: prune_def TTL_SECONDS_def drop_oldest.simps MAX_ENTRIES_def)

lemma smp_next:
  "next_pending smp_lib io_ok (Some 100) smp_refused_once =
     Some (smp_refused_once\<lparr>sp_pending_identity := Some (identity_of (sha_hex smp_lib) (0, render_lines [smp_line, smp_line2]))\<rparr>,
           Inr (Some smp_pending))"
proof -
  have "next_turn smp_lib io_ok (Some 100) smp_refused_once =
     Inl (smp_refused_once\<lparr>sp_pending_identity := Some (identity_of (sha_hex smp_lib) (0, render_lines [smp_line, smp_line2]))\<rparr>,
          Inr (Some smp_pending))"
    using smp_peeks(1) [of smp_refused_once] by (simp add: next_turn_def smp_refused_once_def Checkpoint_default_def)
  moreover have "smp_refused_once\<lparr>sp_ckpt := (sp_ckpt smp_refused_once)\<lparr>ck_quarantine := prune 100 (ck_quarantine (sp_ckpt smp_refused_once))\<rparr>\<rparr> = smp_refused_once"
    by (simp add: smp_refused_once_def smp_prune [simplified])
  ultimately show ?thesis by (simp add: next_pending_def next_loop.simps)
qed

lemma smp_walk:
  assumes "sp_file (d_spool d) = Some (0, render_lines [smp_line, smp_line2])" and "ck_spool (sp_ckpt (d_spool d)) = None"
  shows "d_log (fst (walk smp_outside smp_lib smp_cfg smp_pending d)) =
    d_log d @ [Posted (smp_post ''cd'') (Some 200), Discard_called smp_pending 1 smp_pending2]"
proof -
  let ?m = "\<lparr>mt_bearer = ''b'', mt_access_token = ''t''\<rparr>"
  let ?d1 = "d\<lparr>d_now := Suc (d_now d)\<rparr>"
  have pk: "with_spool smp_outside (\<lambda>io clock s. (s, peek_next smp_lib io smp_pending s)) ?d1 =
      (?d1\<lparr>d_now := Suc (Suc (d_now d))\<rparr>, Inr (Some smp_pending2))"
    using smp_peeks(2) [OF assms] by (simp add: with_spool_def smp_outside_def Let_def)
  have pr: "probe_outcome smp_outside smp_lib smp_cfg ?m smp_pending2 e =
      (logged [Posted (smp_post ''cd'') (Some 200)] (e\<lparr>d_now := Suc (d_now e)\<rparr>), Probe_Accepted)" for e
    by (simp add: probe_outcome_def smp_stamp smp_forward) (simp add: smp_pending2_def smp_forward)
  have "walk smp_outside smp_lib smp_cfg smp_pending d =
      walk_loop smp_outside smp_lib smp_cfg ?m smp_pending (Suc 19) smp_pending 1 ?d1"
    by (simp add: walk_def do_mint_def smp_outside_def MAX_LOOKAHEAD_def)
  also have "\<dots> =
      (let d3 = with_spool smp_outside (\<lambda>io clock s. discard_confirmed io clock smp_pending 1 smp_pending2 s)
                  (logged [Posted (smp_post ''cd'') (Some 200), Discard_called smp_pending 1 smp_pending2]
                     (d\<lparr>d_now := Suc (Suc (Suc (d_now d)))\<rparr>))
       in (fst d3, case snd d3 of Inr _ \<Rightarrow> Advanced | Inl _ \<Rightarrow> Stopped))"
    by (subst walk_loop.simps(2)) (simp add: pk pr logged_def Let_def del: One_nat_def split: prod.split sum.split)
  finally show ?thesis by (simp add: Let_def with_spool_log [OF surjective_pairing])
qed

lemma smp_attempt:
  "\<exists>d' r. advance_one smp_outside smp_lib smp_cfg smp_daemon = Some (d', r) \<and>
     d_log d' = d_log smp_daemon @ [Posted (smp_post ''ab'') (Some 400), Refusal_recorded smp_pending 100 True,
       Posted (smp_post ''cd'') (Some 200), Discard_called smp_pending 1 smp_pending2]"
proof -
  define s1 where "s1 = smp_refused_once\<lparr>sp_pending_identity :=
    Some (identity_of (sha_hex smp_lib) (0, render_lines [smp_line, smp_line2]))\<rparr>"
  define d1 where "d1 = smp_daemon\<lparr>d_now := 1, d_spool := s1\<rparr>"
  define d3 where "d3 = logged [Posted (smp_post ''ab'') (Some 400)] (d1\<lparr>d_now := 3\<rparr>)"
  have "with_spool_next smp_outside smp_lib smp_daemon = Some (d1, Inr (Some smp_pending))"
    using smp_next by (simp add: with_spool_next_def smp_outside_def smp_daemon_def d1_def s1_def)
  then have adv: "advance_one smp_outside smp_lib smp_cfg smp_daemon = Some (handle_refusal smp_outside smp_lib smp_cfg smp_pending d3)"
    by (simp add: advance_one_def do_mint_def smp_outside_def [THEN arg_cong, of o_mint] smp_stamp)
      (simp add: smp_pending_def smp_forward d3_def d1_def eval_nat_numeral)
  obtain d4 where d4: "with_spool smp_outside (\<lambda>io clock s. record_refusal io smp_pending 100 s) (d3\<lparr>d_now := 4\<rparr>) = (d4, Inr True)"
    "sp_file (d_spool d4) = Some (0, render_lines [smp_line, smp_line2])" "ck_spool (sp_ckpt (d_spool d4)) = None"
    by (simp add: with_spool_def smp_outside_def record_refusal_def refusal_key_def refused_def
        checkpoint_store_def d3_def d1_def s1_def smp_daemon_def smp_refused_once_def logged_def smp_pending_def smp_key_def
        smp_line_def signal_name_def MIN_SEPARATION_SECONDS_def REFUSALS_BEFORE_DISCARD_def Checkpoint_default_def Let_def)
  have "d_log d4 = d_log smp_daemon @ [Posted (smp_post ''ab'') (Some 400)]"
    using with_spool_log [OF d4(1)] by (simp add: d3_def d1_def)
  moreover have "handle_refusal smp_outside smp_lib smp_cfg smp_pending d3 =
      walk smp_outside smp_lib smp_cfg smp_pending (logged [Refusal_recorded smp_pending 100 True] d4)"
    using d4(1) by (simp add: handle_refusal_def d3_def d1_def smp_outside_def logged_def)
  ultimately show ?thesis
    using adv smp_walk [of "logged [Refusal_recorded smp_pending 100 True] d4"] d4(2,3)
    by (auto simp: logged_def intro: prod.collapse [symmetric])
qed

theorem discards_need_evidence_witness:
  "\<exists>d' r es e e'. advance_one smp_outside smp_lib smp_cfg smp_daemon = Some (d', r) \<and> d_log d' = d_log smp_daemon @ es \<and>
     es = [e, Refusal_recorded smp_pending 100 True, e', Discard_called smp_pending 1 smp_pending2] \<and>
     posted_refused smp_lib smp_cfg smp_pending e \<and> posted_ok smp_lib smp_cfg smp_pending2 e' \<and>
     read_behind smp_lib smp_pending smp_pending2"
proof -
  from smp_attempt obtain d' r where a: "advance_one smp_outside smp_lib smp_cfg smp_daemon = Some (d', r)"
    "d_log d' = d_log smp_daemon @ [Posted (smp_post ''ab'') (Some 400), Refusal_recorded smp_pending 100 True,
       Posted (smp_post ''cd'') (Some 200), Discard_called smp_pending 1 smp_pending2]" by blast
  from discards_need_evidence [OF a, of smp_pending 1 smp_pending2] obtain ps rs e e' where
    r: "[Posted (smp_post ''ab'') (Some 400), Refusal_recorded smp_pending 100 True,
        Posted (smp_post ''cd'') (Some 200), Discard_called smp_pending 1 smp_pending2] =
      [e, Refusal_recorded smp_pending 100 True] @ rs @ [e', Discard_called smp_pending 1 smp_pending2]"
    "posted_refused smp_lib smp_cfg smp_pending e" "posted_ok smp_lib smp_cfg smp_pending2 e'"
    "successively (read_behind smp_lib) (smp_pending # ps @ [smp_pending2])" "ps = []" by auto
  with a show ?thesis by (intro exI [of _ d'] exI [of _ r]) auto
qed

text \<open>The table of refusals calls a record eligible for being discarded only when two of its refusals,
  the present one included, are at least a minute apart, whatever the other records, the pruning and the
  forgetting did to the table in between.\<close>

theorem eligible_after_separate_refusals:
  assumes "record_refusal io p now s = (s', Inr True)" and "ck_quarantine (sp_ckpt s) = q_run ops"
  shows "\<exists>a b. a \<in> insert now (refusal_times (refusal_key p) ops) \<and>
    b \<in> insert now (refusal_times (refusal_key p) ops) \<and> a + MIN_SEPARATION_SECONDS \<le> b"
  using record_refusal_evidence [OF assms] unfolding separated_def by blast

lemma smp_table: "q_run [Q_refused smp_key 60] = [(smp_key, \<lparr>refusals = 1, last_seen_unix = 60\<rparr>)]"
  by (simp add: q_run_def q_apply_def refused_def MIN_SEPARATION_SECONDS_def)

theorem eligible_after_separate_refusals_witness:
  "\<exists>s' a b. record_refusal io_ok smp_pending 130
       (smp_spool\<lparr>sp_ckpt := Checkpoint_default\<lparr>ck_quarantine := q_run [Q_refused smp_key 60]\<rparr>\<rparr>) = (s', Inr True) \<and>
     a \<in> {60, 130::nat} \<and> b \<in> {60, 130} \<and> a + MIN_SEPARATION_SECONDS \<le> b"
proof -
  let ?s = "smp_spool\<lparr>sp_ckpt := Checkpoint_default\<lparr>ck_quarantine := q_run [Q_refused smp_key 60]\<rparr>\<rparr>"
  have key: "refusal_key smp_pending = smp_key"
    by (simp add: refusal_key_def smp_pending_def smp_key_def signal_name_def smp_line_def)
  obtain s' where r: "record_refusal io_ok smp_pending 130 ?s = (s', Inr True)"
    by (simp add: record_refusal_def key smp_table refused_def checkpoint_store_def
        MIN_SEPARATION_SECONDS_def REFUSALS_BEFORE_DISCARD_def)
  from eligible_after_separate_refusals [OF r, of "[Q_refused smp_key 60]"] obtain a b where
    "a \<in> insert 130 (refusal_times smp_key [Q_refused smp_key 60])"
    "b \<in> insert 130 (refusal_times smp_key [Q_refused smp_key 60])" "a + MIN_SEPARATION_SECONDS \<le> b"
    by (auto simp: key)
  moreover have "refusal_times smp_key [Q_refused smp_key 60] = {60}" by (auto simp: refusal_times_def)
  ultimately show ?thesis using r by auto
qed

text \<open>Whatever refusals, forgettings and prunings were applied to it, the table of refusals keeps its
  keys in strict order, and after a pruning it has at most \<open>MAX_ENTRIES\<close> entries.\<close>

theorem refusal_table_ordered_and_bounded:
  "sorted_wrt (<) (map fst (q_run ops)) \<and> length (q_run (ops @ [Q_prune now])) \<le> MAX_ENTRIES"
  using q_run_wf [of ops] prune_bounded by (simp add: bt_wf_def q_run_snoc q_apply_def)

text \<open>A pass of the drain always returns, and offers at most 672 records to the collector: 32 attempts
  of one record and a walk of twenty.\<close>

theorem pass_is_bounded:
  "\<exists>d' r es. drain_retained out lib cfg d = Some (d', r) \<and> d_log d' = d_log d @ es \<and> posts es \<le> 672"
proof -
  obtain d' r where p: "drain_loop out lib cfg DRAIN_BUDGET_PER_PASS d = Some (d', r)"
    using drain_loop_total by (metis surj_pair)
  from drain_loop_posts [OF p] show ?thesis
    using p by (auto simp: drain_retained_def DRAIN_BUDGET_PER_PASS_def MAX_LOOKAHEAD_def)
qed

section \<open>Admission\<close>

text \<open>A request is answered with 200 only when it came with a trusted host and an OTLP content type, its
  signal was recognised, and the line of its payload has been appended to the spool; nothing is sent to
  the collector while it is answered.\<close>

theorem success_means_retained:
  assumes "handle_request out lib req d = (d', resp)" and "rs_status resp = 200"
  shows "host_is_trusted (hr_headers req) \<and> d_log d' = d_log d \<and> d_wake d' \<and>
    (\<exists>inc sig l. receive_build MAX_RETAINABLE_PAYLOAD req = Inr inc \<and>
       classify_signal (otlp lib) (in_body inc) (in_format inc) (in_path inc) = Some sig \<and>
       envelope_encode lib sig (admitted_body (otlp lib) sig inc) (in_format inc) = Some l \<and>
       sp_file (d_spool d') =
         (let s = o_between out (d_now d) (d_spool d)
          in Some (appended (sp_file s) (sp_inode s) (l @ [newline]))))"
proof -
  from handle_request_cases [OF assms(1)] assms(2) obtain inc sig where
    r: "receive_build MAX_RETAINABLE_PAYLOAD req = Inr inc"
    "classify_signal (otlp lib) (in_body inc) (in_format inc) (in_path inc) = Some sig"
    "retained_response out lib sig (admitted_body (otlp lib) sig inc) (in_format inc) d = (d', resp)" by auto
  have "host_is_trusted (hr_headers req)" using r(1) by (auto simp: receive_build_def split: if_splits)
  moreover obtain l where
    "envelope_encode lib sig (admitted_body (otlp lib) sig inc) (in_format inc) = Some l" "d_wake d'"
    "sp_file (d_spool d') =
       (let s = o_between out (d_now d) (d_spool d) in Some (appended (sp_file s) (sp_inode s) (l @ [newline])))"
    by (rule retained_response_ok [OF r(3) assms(2)])
  ultimately show ?thesis using r(1,2) retained_response_log [OF r(3)] by blast
qed

definition smp_request :: http_request where
  "smp_request =
     \<lparr>hr_method = ''POST'', hr_path = ''/v1/metrics'',
      hr_headers = [(''host'', ''localhost:17457''), (''content-type'', ''application/x-protobuf'')],
      hr_body = Some ''ab''\<rparr>"

definition smp_empty :: daemon where
  "smp_empty = \<lparr>d_spool = mc_spool machine_init, d_now = 0, d_log = [], d_wake = False\<rparr>"

lemma smp_receive:
  "receive_build MAX_RETAINABLE_PAYLOAD smp_request =
     Inr \<lparr>in_method = ''POST'', in_path = ''/v1/metrics'', in_body = ''ab'', in_format = Fmt_Protobuf\<rparr>"
proof -
  have "host_is_trusted (hr_headers smp_request) \<and> content_type_is_otlp (hr_headers smp_request) = Some Fmt_Protobuf"
    by code_simp
  then show ?thesis
    by (simp add: receive_build_def smp_request_def MAX_RETAINABLE_PAYLOAD_def MAX_READ_def ENVELOPE_OVERHEAD_def)
qed

lemma smp_classify: "classify_signal smp_otlp ''ab'' Fmt_Protobuf ''/v1/metrics'' = Some Metrics"
  by code_simp

lemma smp_handle:
  "\<exists>d' resp. handle_request smp_outside smp_lib smp_request smp_empty = (d', resp) \<and> rs_status resp = 200"
proof -
  have "otlp smp_lib = smp_otlp" "admitted_body smp_otlp Metrics
      \<lparr>in_method = ''POST'', in_path = ''/v1/metrics'', in_body = ''ab'', in_format = Fmt_Protobuf\<rparr> = ''ab''"
    by (simp_all add: smp_lib_def smp_otlp_def admitted_body_def enrich_metrics_def)
  then show ?thesis
    using smp_retain
    by (simp add: handle_request_def smp_receive smp_classify retained_response_def drain_retain_def with_spool_def
        smp_outside_def smp_empty_def)
qed

theorem success_means_retained_witness:
  "\<exists>d' resp. handle_request smp_outside smp_lib smp_request smp_empty = (d', resp) \<and> rs_status resp = 200 \<and>
     sp_file (d_spool d') = Some (0, smp_line @ [newline])"
proof -
  from smp_handle obtain d' resp where h: "handle_request smp_outside smp_lib smp_request smp_empty = (d', resp)"
    "rs_status resp = 200" by blast
  from success_means_retained [OF h] obtain inc sig l where
    "receive_build MAX_RETAINABLE_PAYLOAD smp_request = Inr inc"
    "classify_signal (otlp smp_lib) (in_body inc) (in_format inc) (in_path inc) = Some sig"
    "envelope_encode smp_lib sig (admitted_body (otlp smp_lib) sig inc) (in_format inc) = Some l"
    "sp_file (d_spool d') = Some (0, l @ [newline])"
    by (auto simp: smp_outside_def smp_empty_def machine_init_def appended_def Let_def)
  then have "sp_file (d_spool d') = Some (0, smp_line @ [newline])"
    by (auto simp: smp_receive smp_classify smp_lib_def [THEN arg_cong, of otlp] admitted_body_def enrich_metrics_def
        smp_encode smp_otlp_def [THEN arg_cong, of metrics_decode])
  with h show ?thesis by blast
qed

text \<open>Given the laws of base64 and of the generated serialisation, a payload that was admitted under any
  path comes back from the line of its envelope with the same signal, bytes and format.\<close>

theorem admitted_payload_round_trips:
  assumes "codec_laws lib" and "classify_signal (otlp lib) body fmt path = Some sig"
    and "envelope_encode lib sig body fmt = Some l"
  shows "envelope_decode lib l = Some (sig, body, fmt)"
  using envelope_decode_encode [OF assms(1,3)] classify_root [OF assms(2)] by (auto split: option.split)

theorem admitted_payload_round_trips_witness:
  "codec_laws smp_lib \<and> classify_signal (otlp smp_lib) ''ab'' Fmt_Protobuf ''/v1/metrics'' = Some Metrics \<and>
   envelope_decode smp_lib smp_line = Some (Metrics, ''ab'', Fmt_Protobuf)"
proof -
  have "classify_signal (otlp smp_lib) ''ab'' Fmt_Protobuf ''/v1/metrics'' = Some Metrics"
    using smp_classify by (simp add: smp_lib_def)
  then show ?thesis using admitted_payload_round_trips [OF smp_codec_laws _ smp_encode(1)] smp_codec_laws by blast
qed

text \<open>Given the length of base64 and the size of an envelope around its body, the line of a payload within
  the admission limit is shorter than the buffer of the tail and fits the capacity of an empty spool.\<close>

theorem retainable_payload_fits:
  assumes "size_laws lib" and "length payload \<le> MAX_RETAINABLE_PAYLOAD"
    and "envelope_encode lib sig payload fmt = Some l"
  shows "length l + 1 \<le> MAX_READ \<and> length l + 1 \<le> CAPACITY"
  using retainable_line_fits [OF assms] by (simp add: MAX_READ_def CAPACITY_def)

definition smp_sized :: spool_lib where
  "smp_sized = smp_lib\<lparr>b64_encode := (\<lambda>x. replicate (4 * ((length x + 2) div 3)) CHR ''A'')\<rparr>"

lemma smp_size_laws: "size_laws smp_sized"
  by (auto simp: size_laws_def smp_sized_def smp_lib_def smp_print_def ENVELOPE_OVERHEAD_def
      split: option.splits)

theorem retainable_payload_fits_witness:
  "size_laws smp_sized \<and> envelope_encode smp_sized Logs ''abc'' Fmt_Json = Some ''LJAAAA'' \<and>
   length ''LJAAAA'' + 1 \<le> MAX_READ"
proof -
  have e: "envelope_encode smp_sized Logs ''abc'' Fmt_Json = Some ''LJAAAA''"
    by code_simp
  have "length ''abc'' \<le> MAX_RETAINABLE_PAYLOAD"
    by (simp add: MAX_RETAINABLE_PAYLOAD_def MAX_READ_def ENVELOPE_OVERHEAD_def)
  from retainable_payload_fits [OF smp_size_laws this e] e smp_size_laws show ?thesis by blast
qed

section \<open>Stamps\<close>

text \<open>C29: in a forwarded JSON payload the attributes under the keys the ingest side trusts are exactly those
  this machine's credential and the retry key give, in every resource that has a list of attributes: none
  a client supplied is left. A payload is forwarded unchanged only when no resource has such a list.\<close>

theorem forged_identity_is_stripped:
  assumes "stamp dec cd (Some v) body token (Some key) = Some out"
  shows "(out = body \<and> (\<forall>k \<in> set RESOURCE_KEYS. \<forall>r \<in> set (resources_at k v). resource_attributes r = None)) \<or>
    (\<exists>v'. to_str cd v' = Some out \<and>
       (\<forall>k \<in> set RESOURCE_KEYS. length (resources_at k v') = length (resources_at k v) \<and>
          (\<forall>r \<in> set (resources_at k v'). \<forall>attrs. resource_attributes r = Some attrs \<longrightarrow>
             reserved_attributes attrs = map own_attribute (stamp_attributes dec cd token (Some key)))))"
proof -
  let ?own = "stamp_attributes dec cd token (Some key)"
  have "reserved_attributes attrs = map own_attribute ?own"
    if "resource_attributes (snd (stamp_resource ?own r)) = Some attrs" for r attrs
    using stamp_resource_reserved [OF stamp_attributes_reserved that] .
  with stamp_cases [OF assms] show ?thesis by fastforce
qed

definition smp_doc :: json where
  "smp_doc = JObject [(''resourceLogs'', JArray [JObject [(''resource'', JObject [(''attributes'',
     JArray [own_attribute (''user.id'', ''mallory''), own_attribute (''service.name'', ''x'')])])]])]"

definition smp_stamped :: json where
  "smp_stamped = JObject [(''resourceLogs'', JArray [JObject [(''resource'', JObject [(''attributes'',
     JArray [own_attribute (''service.name'', ''x''), own_attribute (''governance.retry_key'', ''k'')])])]])]"

definition smp_codec :: json_codec where
  "smp_codec = \<lparr>from_str = (\<lambda>_. Inl []), to_str = (\<lambda>v. if v = smp_stamped then Some ''stamped'' else None)\<rparr>"

theorem forged_identity_is_stripped_witness:
  "stamp (\<lambda>_. None) smp_codec (Some smp_doc) ''body'' ''opaque'' (Some ''k'') = Some ''stamped'' \<and>
   (\<exists>v'. to_str smp_codec v' = Some ''stamped'' \<and> length (resources_at ''resourceLogs'' v') = 1)"
proof -
  have st: "stamp (\<lambda>_. None) smp_codec (Some smp_doc) ''body'' ''opaque'' (Some ''k'') = Some ''stamped''" by code_simp
  have one: "length (resources_at ''resourceLogs'' smp_doc) = 1" by code_simp
  have "''resourceLogs'' \<in> set RESOURCE_KEYS" by (simp add: RESOURCE_KEYS_def)
  with forged_identity_is_stripped [OF st] one st show ?thesis by fastforce
qed

text \<open>A cost estimate is the exact sum of the three products of the rate card, with no wrap-around, on
  token counts in which nothing was written to the cache and the cached tokens are among the input; the
  long-context rates apply exactly above 272000 input tokens.\<close>

theorem price_is_exact:
  assumes "price input cached writes outp = Some n"
  shows "writes = 0 \<and> uint cached \<le> uint input \<and> 0 \<le> n \<and> n < 2 ^ 63 \<and>
    n = (if uint input > 272000
         then (uint input - uint cached) * 20 + uint cached * 2 + uint outp * 75
         else (uint input - uint cached) * 10 + uint cached * 1 + uint outp * 50)"
proof -
  have w: "writes = 0" "\<not> input < cached" using assms by (auto simp: price_def split: if_splits)
  then have le: "uint cached \<le> uint input" by (simp add: word_less_def not_less)
  then have sub: "uint (input - cached) = uint input - uint cached" by (simp add: uint_sub_if')
  have big: "input > 272000 \<longleftrightarrow> uint input > 272000" by (simp add: word_less_def)
  show ?thesis
    using assms w le sub big price_total [of 20 2 75 "input - cached" cached outp] price_total [of 10 1 50 "input - cached" cached outp]
    by (auto simp: price_def Let_def split: if_splits)
qed

theorem price_is_exact_witness:
  "price 300000 100000 0 10 = Some 4200750 \<and> uint (100000 :: 64 word) \<le> uint (300000 :: 64 word)"
proof -
  have p: "price 300000 100000 0 10 = Some 4200750" by (simp add: price_def)
  from price_is_exact [OF p] p show ?thesis by blast
qed

section \<open>Where the code falls short\<close>

text \<open>C36: take a spool whose checkpoint is stored, stands behind more than \<open>RECLAIM_ABOVE\<close> bytes of delivered
  lines, and whose undelivered lines are at least that long; let the process crash between the rename and
  the store of a compaction. After the restart the queue is still all of the undelivered lines. But a
  compaction that runs before the first read takes the offset, which was measured in the replaced file,
  for one of the new file and reports success: the file loses as many bytes off the front of the
  undelivered lines as had been delivered before, and the checkpoint is at the start of the rest. Where
  those bytes end with a line, the lines they hold are gone from the queue.\<close>

theorem compaction_after_crash_loses_records:
  assumes "sp_file s = Some (ino, render_lines (ds @ qs))" and "list_all good_line (ds @ qs)"
    and "sp_stored s = Some (sp_ckpt s)" and "ck_offset (sp_ckpt s) = length (render_lines ds)"
    and "RECLAIM_ABOVE < length (render_lines ds)" and "length (render_lines ds) \<le> length (render_lines qs)"
    and "known_id (sp_inode s) (ck_spool (sp_ckpt s))" and "ck_spool (sp_ckpt s) \<noteq> None"
  shows "queue lib (sp_file (crash_after_rename s)) (sp_ckpt (crash_after_rename s)) = qs \<and>
    (let (s2, r) = compact_if_stuck io_ok (crash_after_rename s)
     in r = Inr True \<and>
        map_option snd (sp_file s2) = Some (drop (length (render_lines ds)) (render_lines qs)) \<and>
        ck_offset (sp_ckpt s2) = 0 \<and> ck_spool (sp_ckpt s2) = None \<and>
        (\<forall>ps rs. qs = ps @ rs \<and> length (render_lines ps) = length (render_lines ds) \<longrightarrow>
           queue lib (sp_file s2) (sp_ckpt s2) = rs))"
  using compact_after_crash [OF assms(1-8) refl refl] by (simp add: case_prod_beta)

text \<open>A line of one mebibyte.\<close>

definition smp_long :: string where "smp_long = replicate 1048576 CHR ''a''"

lemma trim_letter:
  "trim_start (CHR ''a'' # s) = CHR ''a'' # s" "trim_end_rev (CHR ''a'' # s) = CHR ''a'' # s"
  by (cases s; cases "tl s"; simp add: ascii_ws_def ws2_def ws3_def)+

lemma trim_letters: "str_trim (replicate n CHR ''a'') = replicate n CHR ''a''"
proof (cases n)
  case (Suc k)
  have "trim_start (replicate n CHR ''a'') = replicate n CHR ''a''"
    "trim_end_rev (replicate n CHR ''a'') = replicate n CHR ''a''"
    using trim_letter [of "replicate k CHR ''a''"] Suc by simp_all
  then show ?thesis by (simp add: str_trim_def)
qed simp

lemma valid_letters: "valid_utf8 (replicate n CHR ''a'')"
proof (induction n)
  case (Suc n)
  have "valid_utf8 [CHR ''a'']" by code_simp
  from valid_utf8_append [OF this Suc.IH] show ?case by simp
qed simp

lemma smp_long_good: "good_line smp_long"
  using trim_letters [of 1048576] valid_letters [of 1048576] by (simp add: good_line_def smp_long_def MAX_READ_def)

lemma smp_long_length: "length (render_lines [smp_long]) = 1048577"
  by (simp add: smp_long_def)

definition smp_stale :: dspool where
  "smp_stale =
     (let f = (0, render_lines ([smp_long] @ [smp_long] @ [smp_line]));
          c = Checkpoint_default\<lparr>ck_offset := length (render_lines [smp_long]), ck_spool := Some (identity_of (\<lambda>s. s) f)\<rparr>
      in \<lparr>sp_file = Some f, sp_inode = 1, sp_stored = Some c, sp_ckpt = c, sp_pending_identity = None\<rparr>)"

theorem compaction_after_crash_loses_records_witness:
  "queue smp_lib (sp_file (crash_after_rename smp_stale)) (sp_ckpt (crash_after_rename smp_stale)) = [smp_long, smp_line] \<and>
   (let (s2, r) = compact_if_stuck io_ok (crash_after_rename smp_stale)
    in r = Inr True \<and> queue smp_lib (sp_file s2) (sp_ckpt s2) = [smp_line])"
proof -
  have "RECLAIM_ABOVE < length (render_lines [smp_long])" unfolding smp_long_length by (simp add: RECLAIM_ABOVE_def)
  moreover have "list_all good_line ([smp_long] @ [smp_long, smp_line])" using smp_long_good smp_good(1) by simp
  moreover have "length (render_lines [smp_long]) \<le> length (render_lines [smp_long, smp_line])" by simp
  moreover have "sp_file smp_stale = Some (0, render_lines ([smp_long] @ [smp_long, smp_line]))"
    "sp_stored smp_stale = Some (sp_ckpt smp_stale)"
    "ck_offset (sp_ckpt smp_stale) = length (render_lines [smp_long])"
    "known_id (sp_inode smp_stale) (ck_spool (sp_ckpt smp_stale))" "ck_spool (sp_ckpt smp_stale) \<noteq> None"
    by (simp_all add: smp_stale_def Let_def del: render_lines_simps)
  ultimately show ?thesis
    using compaction_after_crash_loses_records [of smp_stale 0 "[smp_long]" "[smp_long, smp_line]" smp_lib]
    by (simp add: case_prod_beta del: render_lines_simps)
qed

text \<open>A compaction between reading a record and advancing past it leaves the boundary of the record
  pointing into the old file; when the compacted file ends exactly there, the advance empties the file,
  and the lines behind the record are lost although only the record was delivered.\<close>

theorem compaction_in_flight_loses_records:
  assumes "sp_file s = Some (ino, render_lines (ds @ l # qs))"
    and "ck_offset (sp_ckpt s) = length (render_lines ds)" and "RECLAIM_ABOVE < length (render_lines ds)"
    and "p_boundary p = length (render_lines (ds @ [l]))" and "length (render_lines qs) = length (render_lines ds)"
  shows "let s1 = fst (compact_if_stuck io_ok s); (s2, r) = advance io_ok (Some now) p s1
    in sp_file s1 = Some (sp_inode s, render_lines (l # qs)) \<and> r = Inr () \<and> sp_file s2 = Some (sp_inode s, [])"
  using compact_in_flight [where now = now, OF assms refl refl] by (auto simp: Let_def split: prod.split)

theorem compaction_in_flight_loses_records_witness:
  "\<exists>s p s1 s2. fst (compact_if_stuck io_ok s) = s1 \<and> sp_file s1 = Some (1, render_lines [smp_line, smp_long]) \<and>
     advance io_ok (Some 0) p s1 = (s2, Inr ()) \<and> sp_file s2 = Some (1, [])"
proof -
  let ?s = "smp_stale\<lparr>sp_file := Some (0, render_lines ([smp_long] @ smp_line # [smp_long]))\<rparr>"
  let ?p = "smp_pending\<lparr>p_boundary := length (render_lines ([smp_long] @ [smp_line]))\<rparr>"
  have "RECLAIM_ABOVE < length (render_lines [smp_long])" unfolding smp_long_length by (simp add: RECLAIM_ABOVE_def)
  then have "let s1 = fst (compact_if_stuck io_ok ?s); (s2, r) = advance io_ok (Some 0) ?p s1
    in sp_file s1 = Some (sp_inode ?s, render_lines (smp_line # [smp_long])) \<and> r = Inr () \<and> sp_file s2 = Some (sp_inode ?s, [])"
    by (intro compaction_in_flight_loses_records) (simp_all add: smp_stale_def Let_def del: render_lines_simps)
  moreover have "sp_inode ?s = 1" by (simp add: smp_stale_def Let_def)
  moreover obtain s2 r where "advance io_ok (Some 0) ?p (fst (compact_if_stuck io_ok ?s)) = (s2, r)" by fastforce
  ultimately show ?thesis by (intro exI [of _ ?s] exI [of _ ?p] exI [of _ "fst (compact_if_stuck io_ok ?s)"] exI [of _ s2]) (simp add: Let_def)
qed

text \<open>When the checkpoint cannot be stored after a delivered record, the drain is told that the advance
  failed, but the queue in memory has moved past the record all the same: the next read does not offer it
  again, and only a restart would.\<close>

theorem failed_store_still_advances:
  assumes "held_at lib s (p_boundary p) ls"
  shows "\<exists>s'. advance (io_ok(IO_store := False)) clock p s = (s', Inl (Io_failed IO_store)) \<and>
    queue lib (sp_file s') (sp_ckpt s') = ls \<and> sp_stored s' = sp_stored s"
proof -
  from assms obtain ds f i where h: "sp_file s = Some f" "list_all good_line (ds @ ls)" "snd f = render_lines (ds @ ls)"
    "p_boundary p = length (render_lines ds)" "sp_pending_identity s = Some i" "same (sha_hex lib) i f"
    unfolding held_at_def by blast
  let ?c = "committed_ckpt clock (p_boundary p) 0 s"
  have "settled_on lib f ?c" using h by (intro settled_onI) auto
  then have "queue lib (Some f) ?c = ls" using at_lineI(2) [OF h(2,3), of lib ?c] h(4) by simp
  with h(1) show ?thesis by (simp add: advance_def commit_past_cases Let_def)
qed

theorem failed_store_still_advances_witness:
  "\<exists>s1 p s'. next_pending smp_lib io_ok (Some 0) smp_spool = Some (s1, Inr (Some p)) \<and>
     advance (io_ok(IO_store := False)) (Some 0) p s1 = (s', Inl (Io_failed IO_store)) \<and>
     queue smp_lib (sp_file s') (sp_ckpt s') = []"
proof -
  from next_pending_refines [OF smp_spool_at, of 0] obtain s1 r where
    n: "next_pending smp_lib io_ok (Some 0) smp_spool = Some (s1, Inr r)" "next_ok smp_lib smp_spool [smp_line] s1 r"
    by (auto simp: smp_spool_queue smp_decodable)
  then obtain p where p: "r = Some p" "held_at smp_lib s1 (p_boundary p) []"
    by (auto simp: next_ok_def) (metis pending_of_boundary)
  from failed_store_still_advances [OF p(2), of "Some 0"] n(1) p(1) show ?thesis by blast
qed

text \<open>A spool from which everything has been delivered retains any line that fits its capacity. When
  that line is as long as the buffer of the tail, it stays at the head of the queue: after any number of
  further retained payloads and reads, whatever their file calls and clocks do, the checkpoint is where
  it was, no read returns a record, and a read all of whose calls succeed reports the oversized record.\<close>

theorem oversized_line_blocks_the_spool:
  assumes "envelope_encode lib sig payload fmt = Some l" and "newline \<notin> set l"
    and "MAX_READ \<le> length l" and "length l + 1 \<le> CAPACITY" and "delivered_all lib s"
  shows "\<exists>s1. retain lib io_ok sig payload fmt s = (s1, Inr ()) \<and>
    (\<forall>s2. (retain_or_read lib)\<^sup>*\<^sup>* s1 s2 \<longrightarrow> ck_offset (sp_ckpt s2) = ck_offset (sp_ckpt s) \<and>
       (\<forall>io clock. \<exists>s3 e. next_pending lib io clock s2 = Some (s3, Inl e)) \<and>
       (\<exists>s3. next_pending lib io_ok (Some now) s2 = Some (s3, Inl (Record_too_large (ck_offset (sp_ckpt s))))))"
proof -
  from retain_oversized [OF assms] obtain s1 where
    r: "retain lib io_ok sig payload fmt s = (s1, Inr ())" "stuck_at lib l (ck_offset (sp_ckpt s)) s1" by blast
  have "stuck_at lib l (ck_offset (sp_ckpt s)) s2" if "(retain_or_read lib)\<^sup>*\<^sup>* s1 s2" for s2
    using that r(2) by (induction rule: rtranclp_induct) (auto intro: stuck_at_step)
  then have "ck_offset (sp_ckpt s2) = ck_offset (sp_ckpt s)" "\<forall>io clock. \<exists>s3 e. next_pending lib io clock s2 = Some (s3, Inl e)"
    "\<exists>s3. next_pending lib io_ok (Some now) s2 = Some (s3, Inl (Record_too_large (ck_offset (sp_ckpt s))))"
    if "(retain_or_read lib)\<^sup>*\<^sup>* s1 s2" for s2
    using that next_stuck(1,2) [of lib l "ck_offset (sp_ckpt s)" s2] by (auto simp: stuck_at_def)
  with r(1) show ?thesis by blast
qed

definition smp_huge :: string where "smp_huge = replicate 8388608 CHR ''a''"

theorem oversized_line_blocks_the_spool_witness:
  "\<exists>s1 s2 s3. retain smp_lib io_ok Metrics smp_huge Fmt_Protobuf (mc_spool machine_init) = (s1, Inr ()) \<and>
     next_pending smp_lib io_ok (Some 0) s1 = Some (s2, Inl (Record_too_large 0)) \<and>
     next_pending smp_lib io_ok (Some 0) s2 = Some (s3, Inl (Record_too_large 0))"
proof -
  let ?l = "CHR ''M'' # CHR ''P'' # smp_huge"
  have e: "envelope_encode smp_lib Metrics smp_huge Fmt_Protobuf = Some ?l"
    by (simp add: envelope_encode_def smp_lib_def smp_print_def)
  have "length ?l = 8388610" by (simp add: smp_huge_def)
  then have len: "MAX_READ \<le> length ?l" "length ?l + 1 \<le> CAPACITY"
    by (simp_all only: MAX_READ_def CAPACITY_def)
  have nl: "newline \<notin> set ?l" by (simp add: smp_huge_def)
  have "delivered_all smp_lib (mc_spool machine_init)" and off: "ck_offset (sp_ckpt (mc_spool machine_init)) = 0"
    by (simp_all add: delivered_all_def machine_init_def Checkpoint_default_def)
  from oversized_line_blocks_the_spool [OF e nl len this(1), of 0] obtain s1 where
    s1: "retain smp_lib io_ok Metrics smp_huge Fmt_Protobuf (mc_spool machine_init) = (s1, Inr ())"
    and all: "\<And>s2. (retain_or_read smp_lib)\<^sup>*\<^sup>* s1 s2 \<Longrightarrow>
      \<exists>s3. next_pending smp_lib io_ok (Some 0) s2 = Some (s3, Inl (Record_too_large 0))" unfolding off by blast
  from all [of s1] obtain s2 where s2: "next_pending smp_lib io_ok (Some 0) s1 = Some (s2, Inl (Record_too_large 0))" by blast
  then have "retain_or_read smp_lib s1 s2" by (rule rr_read)
  with all [of s2] s1 s2 show ?thesis by blast
qed

text \<open>While the line behind a record that is refused for good cannot be decoded, the walk stops without
  offering anything and without discarding, whatever is retained behind that line and whatever the
  collector would accept: the drain stays at the record.\<close>

theorem undecodable_line_blocks_the_walk:
  assumes "held_at lib (d_spool d) (p_boundary p) (l # qs)" and "undecodable lib l"
    and "\<And>f. sp_file (d_spool d) = Some f \<Longrightarrow> settled_on lib f (sp_ckpt (d_spool d))"
    and "o_between out (Suc (d_now d)) (d_spool d) = d_spool d"
  shows "\<exists>d'. walk out lib cfg p d = (d', Stopped) \<and> d_log d' = d_log d \<and> d_spool d' = d_spool d"
  using walk_blocked [of lib p out "Suc (d_now d)" d cfg] peek_next_undecodable [OF assms(1-3)] assms(4) by auto

definition smp_blocked :: daemon where
  "smp_blocked =
     \<lparr>d_spool = \<lparr>sp_file = Some (0, render_lines [smp_line, smp_torn, smp_line2]), sp_inode = 1, sp_stored = None,
                 sp_ckpt = Checkpoint_default,
                 sp_pending_identity = Some (identity_of (\<lambda>s. s) (0, render_lines [smp_line, smp_torn, smp_line2]))\<rparr>,
      d_now = 0, d_log = [], d_wake = False\<rparr>"

theorem undecodable_line_blocks_the_walk_witness:
  "\<exists>d'. walk smp_outside smp_lib smp_cfg smp_pending smp_blocked = (d', Stopped) \<and> d_log d' = [] \<and>
     d_spool d' = d_spool smp_blocked"
proof -
  let ?f = "(0, render_lines [smp_line, smp_torn, smp_line2])"
  have "held_at smp_lib (d_spool smp_blocked) (p_boundary smp_pending) [smp_torn, smp_line2]"
    unfolding held_at_def using smp_good
    by (intro exI [of _ "[smp_line]"] exI [of _ ?f] exI [of _ "identity_of (\<lambda>s. s) ?f"])
      (simp add: smp_blocked_def smp_pending_def smp_line_def smp_lib_def)
  moreover have "settled_on smp_lib f (sp_ckpt (d_spool smp_blocked))" for f
    by (intro settled_onI) (simp_all add: smp_blocked_def Checkpoint_default_def)
  ultimately show ?thesis
    using undecodable_line_blocks_the_walk [of smp_lib smp_blocked smp_pending smp_torn "[smp_line2]" smp_outside smp_cfg]
      smp_decodable(3) by (auto simp: smp_outside_def smp_blocked_def)
qed

end
