(* ===== verification/Redact_Engine.thy ===== *)
theory Redact_Engine
  imports Redact_Profile
begin

text \<open>
  \<open>crates/governance-redact/src/engine.rs\<close>: an engine locates entities (\<open>Engine_detect\<close>) and decides
  about a string (\<open>Engine_scan\<close>). The analyzer and the anonymizer of the \<open>pii\<close> crate are fields of the
  engine record. The locale \<open>detector\<close> is the contract the streaming components rely on: how the two
  answers about one string agree.
\<close>

section \<open>Data\<close>

datatype verdict =
    Clean
  | Redacted string nat
  | Blocked "string list"

definition Verdict_is_blocked :: "verdict \<Rightarrow> bool" where
  "Verdict_is_blocked v = (case v of Blocked _ \<Rightarrow> True | _ \<Rightarrow> False)"

record span =
  s_start :: nat
  s_end :: nat
  entity :: string
  s_action :: action

record engine =
  analyzer :: "string \<Rightarrow> string \<Rightarrow> string + detection list"
  engine_profile :: profile
  salt :: string
  language :: string
  lib_as_str :: "entity_type \<Rightarrow> string"
  lib_anonymize :: "string \<Rightarrow> detection list \<Rightarrow> anonymize_config \<Rightarrow> string + anonymized"

section \<open>Operations\<close>

definition Engine_new :: "'r pii_lib \<Rightarrow> profile \<Rightarrow> string \<Rightarrow> error + engine" where
  "Engine_new lib p slt =
     (let secrets = secret_recognizers lib;
          expected = pattern_count
      in if length secrets \<noteq> expected then Inl (RecognizerBuild expected (length secrets))
         else Inr \<lparr>analyzer = analyzer_new lib (default_recognizers lib @ secrets) (policy p),
                   engine_profile = p,
                   salt = slt,
                   language = ''en'',
                   lib_as_str = as_str lib,
                   lib_anonymize = anonymizer lib\<rparr>)"

definition action_of :: "engine \<Rightarrow> detection \<Rightarrow> action" where
  "action_of e d = action_for (lib_as_str e) (engine_profile e) (entity_type d)"

definition span_of :: "engine \<Rightarrow> detection \<Rightarrow> span" where
  "span_of e d =
     \<lparr>s_start = d_start d, s_end = d_end d, entity = lib_as_str e (entity_type d),
      s_action = action_of e d\<rparr>"

definition Engine_analyze :: "engine \<Rightarrow> string \<Rightarrow> error + detection list" where
  "Engine_analyze e text = res_map_err Analyze (analyzer e text (language e))"

text \<open>\<open>sort_unstable_by_key\<close> leaves the order of spans with the same start open; the model takes the
  order in which the analyzer listed them.\<close>

definition Engine_detect :: "engine \<Rightarrow> string \<Rightarrow> error + span list" where
  "Engine_detect e text =
     (if text = [] then Inr []
      else res_bind (Engine_analyze e text) (\<lambda>ents.
        Inr (sort_key s_start (filter (\<lambda>s. s_action s \<noteq> Allow) (map (span_of e) ents)))))"

text \<open>The operator table handed to the anonymizer: one entry per entity type, written by the first
  detection of that type.\<close>

definition add_operator :: "engine \<Rightarrow> detection \<Rightarrow> (string \<rightharpoonup> operator) \<Rightarrow> (string \<rightharpoonup> operator)" where
  "add_operator e d m =
     (let key = lib_as_str e (entity_type d)
      in if m key \<noteq> None then m
         else (case Action_operator (action_of e d) (salt e) of
                 None \<Rightarrow> m
               | Some op \<Rightarrow> m(key \<mapsto> op)))"

definition operator_table :: "engine \<Rightarrow> detection list \<Rightarrow> anonymize_config" where
  "operator_table e ds =
     \<lparr>default_op =
        (case Action_operator (default_action (engine_profile e)) (salt e) of
           None \<Rightarrow> Op_Redact | Some op \<Rightarrow> op),
      per_entity = fold (add_operator e) ds Map.empty\<rparr>"

definition Engine_scan :: "engine \<Rightarrow> string \<Rightarrow> error + verdict" where
  "Engine_scan e text =
     (if text = [] then Inr Clean
      else res_bind (Engine_analyze e text) (\<lambda>ents.
        if ents = [] then Inr Clean
        else let blocking = map (\<lambda>d. lib_as_str e (entity_type d))
                              (filter (\<lambda>d. action_of e d = Block) ents)
             in if blocking \<noteq> [] then Inr (Blocked (sort_dedup blocking))
                else let transformable = filter (\<lambda>d. action_of e d \<noteq> Allow) ents
                     in if transformable = [] then Inr Clean
                        else res_bind
                          (res_map_err Anonymize
                            (lib_anonymize e text transformable (operator_table e transformable)))
                          (\<lambda>r. Inr (Redacted (anon_text r) (items r)))))"

section \<open>The contract between locating and deciding\<close>

definition blocking_entities :: "span list \<Rightarrow> string list" where
  "blocking_entities ss = sort_dedup (map entity (filter (\<lambda>s. s_action s = Block) ss))"

definition has_block :: "span list \<Rightarrow> bool" where
  "has_block ss \<longleftrightarrow> (\<exists>s \<in> set ss. s_action s = Block)"

lemma blocking_entities_Nil [simp]: "blocking_entities ss = [] \<longleftrightarrow> \<not> has_block ss"
  by (auto simp: blocking_entities_def has_block_def filter_empty_conv)

locale detector =
  fixes detect :: "string \<Rightarrow> error + span list"
    and scan :: "string \<Rightarrow> error + verdict"
  assumes detect_empty: "detect [] = Inr []"
    and scan_empty: "scan [] = Inr Clean"
    and detect_sorted: "detect t = Inr ss \<Longrightarrow> sorted (map s_start ss)"
    and detect_no_allow: "detect t = Inr ss \<Longrightarrow> s \<in> set ss \<Longrightarrow> s_action s \<noteq> Allow"
    and scan_error: "detect t = Inl er \<Longrightarrow> scan t = Inl er"
    and scan_block: "detect t = Inr ss \<Longrightarrow> has_block ss \<Longrightarrow> scan t = Inr (Blocked (blocking_entities ss))"
    and scan_clean: "detect t = Inr [] \<Longrightarrow> scan t = Inr Clean"
    and scan_rewrite: "detect t = Inr ss \<Longrightarrow> ss \<noteq> [] \<Longrightarrow> \<not> has_block ss \<Longrightarrow>
           (\<exists>m. scan t = Inl (Anonymize m)) \<or> (\<exists>u n. scan t = Inr (Redacted u n))"
begin

lemma scan_Blocked_iff:
  "scan t = Inr (Blocked es) \<longleftrightarrow>
     (\<exists>ss. detect t = Inr ss \<and> has_block ss \<and> es = blocking_entities ss)"
proof (cases "detect t")
  case (Inl er)
  then show ?thesis by (simp add: scan_error)
next
  case (Inr ss)
  then show ?thesis
    using scan_block [of t ss] scan_clean [of t] scan_rewrite [of t ss]
    by (cases "has_block ss"; cases ss) (auto simp: has_block_def)
qed

lemma scan_Clean_iff: "scan t = Inr Clean \<longleftrightarrow> detect t = Inr []"
proof (cases "detect t")
  case (Inl er)
  then show ?thesis by (simp add: scan_error)
next
  case (Inr ss)
  then show ?thesis
    using scan_block [of t ss] scan_clean [of t] scan_rewrite [of t ss]
    by (cases "has_block ss"; cases ss) auto
qed

lemma scan_not_blocked:
  "detect t = Inr ss \<Longrightarrow> \<not> has_block ss \<Longrightarrow> scan t \<noteq> Inr (Blocked es)"
  by (simp add: scan_Blocked_iff)

end

lemma filter_map_span_of:
  "filter (\<lambda>s. s_action s \<noteq> Allow) (map (span_of e) ds) =
     map (span_of e) (filter (\<lambda>d. action_of e d \<noteq> Allow) ds)"
  by (induction ds) (simp_all add: span_of_def)

lemma detect_Inr:
  "Engine_detect e t = Inr ss \<Longrightarrow> t \<noteq> [] \<Longrightarrow>
     \<exists>ents. Engine_analyze e t = Inr ents \<and>
       ss = sort_key s_start (map (span_of e) (filter (\<lambda>d. action_of e d \<noteq> Allow) ents))"
  by (auto simp: Engine_detect_def res_bind_eq_Inr filter_map_span_of)

lemma has_block_detect:
  "has_block (sort_key s_start (map (span_of e) (filter (\<lambda>d. action_of e d \<noteq> Allow) ents))) \<longleftrightarrow>
     filter (\<lambda>d. action_of e d = Block) ents \<noteq> []"
  by (auto simp: has_block_def span_of_def filter_empty_conv)

lemma blocking_entities_detect:
  "blocking_entities (sort_key s_start (map (span_of e) (filter (\<lambda>d. action_of e d \<noteq> Allow) ents))) =
     sort_dedup (map (\<lambda>d. lib_as_str e (entity_type d)) (filter (\<lambda>d. action_of e d = Block) ents))"
proof -
  have "set (map entity (filter (\<lambda>s. s_action s = Block)
          (sort_key s_start (map (span_of e) (filter (\<lambda>d. action_of e d \<noteq> Allow) ents))))) =
        set (map (\<lambda>d. lib_as_str e (entity_type d)) (filter (\<lambda>d. action_of e d = Block) ents))"
    by (force simp: span_of_def)
  then show ?thesis by (simp add: blocking_entities_def sort_dedup_eq)
qed

lemma Engine_scan_analyzed:
  assumes "t \<noteq> []" and "Engine_analyze e t = Inr ents"
  shows "Engine_scan e t =
     (if filter (\<lambda>d. action_of e d = Block) ents \<noteq> []
      then Inr (Blocked (sort_dedup (map (\<lambda>d. lib_as_str e (entity_type d))
                                       (filter (\<lambda>d. action_of e d = Block) ents))))
      else let transformable = filter (\<lambda>d. action_of e d \<noteq> Allow) ents
           in if transformable = [] then Inr Clean
              else res_bind
                (res_map_err Anonymize
                  (lib_anonymize e t transformable (operator_table e transformable)))
                (\<lambda>r. Inr (Redacted (anon_text r) (items r))))"
  using assms by (cases ents) (simp_all add: Engine_scan_def Let_def)

interpretation eng: detector "Engine_detect e" "Engine_scan e" for e
proof unfold_locales
  fix t er
  assume "Engine_detect e t = Inl er"
  then show "Engine_scan e t = Inl er"
    by (auto simp: Engine_detect_def Engine_scan_def res_bind_eq_Inl split: if_splits)
next
  fix t ss
  assume d: "Engine_detect e t = Inr ss" and b: "has_block ss"
  then have t: "t \<noteq> []" by (auto simp: Engine_detect_def has_block_def)
  from detect_Inr [OF d t] obtain ents where a: "Engine_analyze e t = Inr ents"
    and ss: "ss = sort_key s_start (map (span_of e) (filter (\<lambda>d. action_of e d \<noteq> Allow) ents))"
    by blast
  from b show "Engine_scan e t = Inr (Blocked (blocking_entities ss))"
    unfolding ss has_block_detect blocking_entities_detect
    by (simp add: Engine_scan_analyzed [OF t a])
next
  fix t
  assume d: "Engine_detect e t = Inr []"
  show "Engine_scan e t = Inr Clean"
  proof (cases "t = []")
    case False
    from detect_Inr [OF d False] obtain ents where a: "Engine_analyze e t = Inr ents"
      and "[] = sort_key s_start (map (span_of e) (filter (\<lambda>d. action_of e d \<noteq> Allow) ents))"
      by blast
    then have "filter (\<lambda>d. action_of e d \<noteq> Allow) ents = []"
      by (metis length_0_conv length_map length_sort)
    moreover from this have "filter (\<lambda>d. action_of e d = Block) ents = []"
      by (auto simp: filter_empty_conv)
    ultimately show ?thesis by (simp add: Engine_scan_analyzed [OF False a])
  qed (simp add: Engine_scan_def)
next
  fix t ss
  assume d: "Engine_detect e t = Inr ss" and ne: "ss \<noteq> []" and nb: "\<not> has_block ss"
  then have t: "t \<noteq> []" by (auto simp: Engine_detect_def)
  from detect_Inr [OF d t] obtain ents where a: "Engine_analyze e t = Inr ents"
    and ss: "ss = sort_key s_start (map (span_of e) (filter (\<lambda>d. action_of e d \<noteq> Allow) ents))"
    by blast
  from ne ss have ne': "filter (\<lambda>d. action_of e d \<noteq> Allow) ents \<noteq> []" by auto
  from nb have "filter (\<lambda>d. action_of e d = Block) ents = []"
    unfolding ss has_block_detect by simp
  with ne' show "(\<exists>m. Engine_scan e t = Inl (Anonymize m)) \<or>
      (\<exists>u n. Engine_scan e t = Inr (Redacted u n))"
    by (simp add: Engine_scan_analyzed [OF t a] Let_def res_map_err_def res_bind_def
        split: sum.splits)
qed (auto simp: Engine_detect_def Engine_scan_def res_bind_eq_Inr split: if_splits)

section \<open>The operator table\<close>

lemma add_operator_keeps: "m k \<noteq> None \<Longrightarrow> add_operator e d m k = m k"
  by (auto simp: add_operator_def Let_def split: option.splits)

lemma fold_add_operator_keeps: "m k \<noteq> None \<Longrightarrow> fold (add_operator e) ds m k = m k"
proof (induction ds arbitrary: m)
  case (Cons d ds)
  then have "add_operator e d m k \<noteq> None" by (simp add: add_operator_keeps)
  with Cons show ?case by (simp add: add_operator_keeps)
qed simp

text \<open>Every binding the table holds is the operator of the action its entity type resolves to.\<close>

definition table_ok :: "engine \<Rightarrow> (string \<rightharpoonup> operator) \<Rightarrow> bool" where
  "table_ok e m \<longleftrightarrow>
     (\<forall>t op. m (lib_as_str e t) = Some op \<longrightarrow>
        Action_operator (action_for (lib_as_str e) (engine_profile e) t) (salt e) = Some op)"

lemma table_ok_add: "table_ok e m \<Longrightarrow> table_ok e (add_operator e d m)"
  by (auto simp: table_ok_def add_operator_def Let_def action_of_def action_for_def
      split: option.splits if_splits)

lemma table_ok_fold: "table_ok e m \<Longrightarrow> table_ok e (fold (add_operator e) ds m)"
  by (induction ds arbitrary: m) (simp_all add: table_ok_add)

lemma fold_add_operator_covers:
  "d \<in> set ds \<Longrightarrow> Action_operator (action_of e d) (salt e) = Some op \<Longrightarrow>
     fold (add_operator e) ds m (lib_as_str e (entity_type d)) \<noteq> None"
proof (induction ds arbitrary: m)
  case (Cons d' ds)
  show ?case
  proof (cases "d = d'")
    case True
    with Cons.prems have "add_operator e d m (lib_as_str e (entity_type d)) \<noteq> None"
      by (auto simp: add_operator_def Let_def)
    with True show ?thesis by (simp add: fold_add_operator_keeps)
  next
    case False
    with Cons show ?thesis by simp
  qed
qed simp

lemma Action_operator_Some:
  "a \<noteq> Allow \<Longrightarrow> a \<noteq> Block \<Longrightarrow> \<exists>op. Action_operator a s = Some op"
  by (cases a) (auto simp: Action_operator_def)

end
