(* ===== verification/Redact_HoldBack.thy ===== *)
theory Redact_HoldBack
  imports Redact_Engine
begin

text \<open>
  \<open>crates/governance-redact/src/holdback.rs\<close>: the hold-back buffer that redacts a growing text
  stream, and the cut-selection rule \<open>safe_prefix\<close> it shares with the SSE redactor.

  A call that fails still leaves the buffer changed (the released head is drained before it is
  scanned), so the operations return the new buffer beside the result.
\<close>

section \<open>The cut\<close>

definition DEFAULT_WINDOW :: nat where
  "DEFAULT_WINDOW = 4096"

fun walk_back :: "span list \<Rightarrow> nat \<Rightarrow> nat" where
  "walk_back [] c = c"
| "walk_back (s # ss) c =
     walk_back ss (if s_start s < c \<and> s_end s > c then s_start s else c)"

fun floor_boundary :: "string \<Rightarrow> nat \<Rightarrow> nat" where
  "floor_boundary p 0 = 0"
| "floor_boundary p (Suc n) = (if is_char_boundary p (Suc n) then Suc n else floor_boundary p n)"

definition safe_prefix :: "string \<Rightarrow> span list \<Rightarrow> nat \<Rightarrow> nat \<Rightarrow> nat" where
  "safe_prefix pending spans window ceil =
     (let cut = min (length pending - window) ceil
      in if cut = 0 then 0 else floor_boundary pending (walk_back spans cut))"

section \<open>The buffer\<close>

datatype emit =
    Emit_Nothing
  | Emit_Release string
  | Emit_Blocked "string list"

record holdback =
  hb_window :: nat
  hb_pending :: string
  hb_released :: nat
  hb_redactions :: nat

definition HoldBack_with_window :: "nat \<Rightarrow> holdback" where
  "HoldBack_with_window w = \<lparr>hb_window = w, hb_pending = [], hb_released = 0, hb_redactions = 0\<rparr>"

definition HoldBack_new :: holdback where
  "HoldBack_new = HoldBack_with_window DEFAULT_WINDOW"

definition HoldBack_safe_cut :: "holdback \<Rightarrow> span list \<Rightarrow> nat" where
  "HoldBack_safe_cut h spans =
     safe_prefix (hb_pending h) spans (hb_window h) (length (hb_pending h))"

text \<open>The tail of \<open>advance\<close>, from the chosen cut on: drain the head, scan it, account for it.\<close>

definition HoldBack_release :: "engine \<Rightarrow> nat \<Rightarrow> holdback \<Rightarrow> holdback \<times> (error + emit)" where
  "HoldBack_release e c h =
     (let head = take c (hb_pending h);
          h1 = h\<lparr>hb_pending := drop c (hb_pending h)\<rparr>
      in case Engine_scan e head of
           Inl er \<Rightarrow> (h1, Inl er)
         | Inr Clean \<Rightarrow>
             (h1\<lparr>hb_released := hb_released h1 + length head\<rparr>, Inr (Emit_Release head))
         | Inr (Redacted text n) \<Rightarrow>
             (h1\<lparr>hb_redactions := hb_redactions h1 + n,
                 hb_released := hb_released h1 + length text\<rparr>,
              Inr (Emit_Release text))
         | Inr (Blocked entities) \<Rightarrow>
             (h1\<lparr>hb_pending := []\<rparr>, Inr (Emit_Blocked entities)))"

definition HoldBack_advance :: "engine \<Rightarrow> bool \<Rightarrow> holdback \<Rightarrow> holdback \<times> (error + emit)" where
  "HoldBack_advance e final_chunk h =
     (if hb_pending h = [] then (h, Inr Emit_Nothing)
      else case Engine_detect e (hb_pending h) of
        Inl er \<Rightarrow> (h, Inl er)
      | Inr spans \<Rightarrow>
          (let blocking = map entity (filter (\<lambda>s. s_action s = Block) spans)
           in if blocking \<noteq> []
              then (h\<lparr>hb_pending := []\<rparr>, Inr (Emit_Blocked (sort_dedup blocking)))
              else let c = (if final_chunk then length (hb_pending h)
                            else HoldBack_safe_cut h spans)
                   in if c = 0 then (h, Inr Emit_Nothing) else HoldBack_release e c h))"

definition HoldBack_push :: "engine \<Rightarrow> holdback \<Rightarrow> string \<Rightarrow> holdback \<times> (error + emit)" where
  "HoldBack_push e h text = HoldBack_advance e False (h\<lparr>hb_pending := hb_pending h @ text\<rparr>)"

definition HoldBack_flush :: "engine \<Rightarrow> holdback \<Rightarrow> holdback \<times> (error + emit)" where
  "HoldBack_flush e h = HoldBack_advance e True h"

section \<open>Properties of the cut\<close>

definition straddles :: "span \<Rightarrow> nat \<Rightarrow> bool" where
  "straddles s c \<longleftrightarrow> s_start s < c \<and> c < s_end s"

text \<open>What the cut rule relies on: spans are non-empty, lie within the text, start and end on code
  point boundaries and do not overlap.\<close>

definition spans_ok :: "string \<Rightarrow> span list \<Rightarrow> bool" where
  "spans_ok p ss \<longleftrightarrow>
     sorted_wrt (\<lambda>a b. s_end a \<le> s_start b) ss \<and>
     (\<forall>s \<in> set ss. s_start s < s_end s \<and> s_end s \<le> length p \<and>
        is_char_boundary p (s_start s) \<and> is_char_boundary p (s_end s))"

text \<open>A cut is safe when it falls on a code point boundary and inside no span.\<close>

definition safe_cut_at :: "string \<Rightarrow> span list \<Rightarrow> nat \<Rightarrow> bool" where
  "safe_cut_at p ss c \<longleftrightarrow> is_char_boundary p c \<and> (\<forall>s \<in> set ss. \<not> straddles s c)"

lemma walk_back_le: "walk_back ss c \<le> c"
proof (induction ss arbitrary: c)
  case (Cons s ss)
  have "walk_back (s # ss) c \<le> (if s_start s < c \<and> s_end s > c then s_start s else c)"
    unfolding walk_back.simps by (rule Cons.IH)
  also have "\<dots> \<le> c" by simp
  finally show ?case .
qed simp

lemma walk_back_none: "\<forall>s \<in> set ss. \<not> straddles s c \<Longrightarrow> walk_back ss c = c"
  by (induction ss) (auto simp: straddles_def)

lemma walk_back_straddle:
  assumes "sorted_wrt (\<lambda>a b. s_end a \<le> s_start b) ss"
    and "\<forall>s \<in> set ss. s_start s < s_end s"
    and "s \<in> set ss" and "straddles s c"
  shows "walk_back ss c = s_start s"
  using assms
proof (induction ss)
  case (Cons x ss)
  show ?case
  proof (cases "x = s")
    case True
    have "\<forall>t \<in> set ss. \<not> straddles t (s_start s)"
      using Cons.prems True by (auto simp: straddles_def)
    with True Cons.prems(4) show ?thesis
      by (simp add: straddles_def walk_back_none)
  next
    case False
    with Cons.prems have s: "s \<in> set ss" by simp
    with Cons.prems have "\<not> straddles x c" by (fastforce simp: straddles_def)
    moreover from Cons s have "walk_back ss c = s_start s" by simp
    ultimately show ?thesis by (auto simp: straddles_def)
  qed
qed simp

lemma floor_boundary_le: "floor_boundary p c \<le> c"
  by (induction p c rule: floor_boundary.induct) auto

lemma floor_boundary_is: "is_char_boundary p (floor_boundary p c)"
  by (induction p c rule: floor_boundary.induct) auto

lemma floor_boundary_greatest: "is_char_boundary p b \<Longrightarrow> b \<le> c \<Longrightarrow> b \<le> floor_boundary p c"
  by (induction p c rule: floor_boundary.induct) (auto simp: le_Suc_eq)

lemma floor_boundary_id: "is_char_boundary p c \<Longrightarrow> floor_boundary p c = c"
  by (simp add: antisym floor_boundary_greatest floor_boundary_le)

lemma floor_boundary_no_straddle:
  assumes "spans_ok p ss" and "\<forall>s \<in> set ss. \<not> straddles s c" and "s \<in> set ss"
  shows "\<not> straddles s (floor_boundary p c)"
proof
  assume st: "straddles s (floor_boundary p c)"
  from st assms(2,3) floor_boundary_le [of p c] have "s_end s \<le> c"
    by (auto simp: straddles_def dest!: bspec)
  with assms(1,3) have "s_end s \<le> floor_boundary p c"
    by (auto simp: spans_ok_def intro: floor_boundary_greatest)
  with st show False by (simp add: straddles_def)
qed

lemma safe_prefix_le: "safe_prefix p ss w c \<le> min (length p - w) c"
proof -
  let ?m = "min (length p - w) c"
  have "floor_boundary p (walk_back ss ?m) \<le> ?m"
    by (rule order_trans [OF floor_boundary_le walk_back_le])
  then show ?thesis unfolding safe_prefix_def Let_def by auto
qed

lemma safe_prefix_le_length: "safe_prefix p ss w c \<le> length p"
  using safe_prefix_le [of p ss w c] by linarith

text \<open>The cut is the furthest safe one below the window and the ceiling.\<close>

lemma safe_prefix_spec:
  assumes ok: "spans_ok p ss"
  shows "safe_cut_at p ss (safe_prefix p ss w c)"
    and "safe_cut_at p ss b \<Longrightarrow> b \<le> min (length p - w) c \<Longrightarrow> b \<le> safe_prefix p ss w c"
proof -
  define m where "m = min (length p - w) c"
  have eq: "safe_prefix p ss w c = (if m = 0 then 0 else floor_boundary p (walk_back ss m))"
    unfolding safe_prefix_def m_def Let_def by (rule refl)
  have zero: "safe_cut_at p ss 0" by (simp add: safe_cut_at_def straddles_def)
  show "safe_cut_at p ss (safe_prefix p ss w c)"
  proof (cases "\<exists>s \<in> set ss. straddles s m")
    case True
    then obtain s where s: "s \<in> set ss" "straddles s m" by blast
    with ok have wb: "walk_back ss m = s_start s"
      by (intro walk_back_straddle) (auto simp: spans_ok_def)
    from ok s have "is_char_boundary p (s_start s)" by (auto simp: spans_ok_def)
    moreover have "\<not> straddles t (s_start s)" if "t \<in> set ss" for t
    proof
      assume t: "straddles t (s_start s)"
      then have "straddles t m \<or> s_end t \<le> m" using s by (auto simp: straddles_def)
      then show False
      proof
        assume "straddles t m"
        with ok that have "walk_back ss m = s_start t"
          by (intro walk_back_straddle) (auto simp: spans_ok_def)
        with wb t show False by (simp add: straddles_def)
      next
        assume "s_end t \<le> m"
        from ok have "sorted_wrt (\<lambda>a b. s_end a \<le> s_start b) ss" by (simp add: spans_ok_def)
        moreover have "t \<noteq> s" using t by (auto simp: straddles_def)
        ultimately have "s_end t \<le> s_start s \<or> s_end s \<le> s_start t"
          using that s(1) by (induction ss) auto
        with t s show False by (auto simp: straddles_def)
      qed
    qed
    ultimately show ?thesis
      using zero by (simp add: eq wb floor_boundary_id safe_cut_at_def)
  next
    case False
    then have "walk_back ss m = m" by (simp add: walk_back_none)
    with False ok zero show ?thesis
      by (auto simp: eq safe_cut_at_def floor_boundary_is floor_boundary_no_straddle)
  qed
  show "b \<le> safe_prefix p ss w c" if b: "safe_cut_at p ss b" "b \<le> min (length p - w) c"
  proof -
    from b(2) have bm: "b \<le> m" by (simp add: m_def)
    have "b \<le> walk_back ss m"
    proof (cases "\<exists>s \<in> set ss. straddles s m")
      case True
      then obtain s where s: "s \<in> set ss" "straddles s m" by blast
      with ok have "walk_back ss m = s_start s"
        by (intro walk_back_straddle) (auto simp: spans_ok_def)
      moreover from b(1) s(1) have "\<not> straddles s b" by (simp add: safe_cut_at_def)
      ultimately show ?thesis using s(2) bm by (auto simp: straddles_def)
    next
      case False
      with bm show ?thesis by (simp add: walk_back_none)
    qed
    with b(1) bm show ?thesis
      by (auto simp: eq safe_cut_at_def intro: floor_boundary_greatest)
  qed
qed

text \<open>With no window and no ceiling below the length, nothing is held back.\<close>

lemma safe_prefix_whole:
  assumes "\<forall>s \<in> set ss. s_end s \<le> length p"
  shows "safe_prefix p ss 0 (length p) = length p"
proof -
  from assms have "walk_back ss (length p) = length p"
    by (intro walk_back_none) (auto simp: straddles_def)
  then show ?thesis by (simp add: safe_prefix_def floor_boundary_id)
qed

section \<open>One step of the buffer\<close>

text \<open>The text that replaces a scanned segment: the rewrite, or the segment itself.\<close>

definition rewritten :: "engine \<Rightarrow> string \<Rightarrow> string" where
  "rewritten e seg = (case Engine_scan e seg of Inr (Redacted t n) \<Rightarrow> t | _ \<Rightarrow> seg)"

definition scanned_ok :: "engine \<Rightarrow> string \<Rightarrow> bool" where
  "scanned_ok e seg \<longleftrightarrow> (\<exists>v. Engine_scan e seg = Inr v \<and> \<not> Verdict_is_blocked v)"

lemma release_cases:
  assumes "HoldBack_release e c h = (h', r)"
  shows "r \<noteq> Inr Emit_Nothing"
    and "r = Inr (Emit_Blocked es) \<Longrightarrow> hb_pending h' = []"
    and "r = Inr (Emit_Release t) \<Longrightarrow>
      hb_pending h' = drop c (hb_pending h) \<and> scanned_ok e (take c (hb_pending h)) \<and>
      t = rewritten e (take c (hb_pending h)) \<and> hb_released h' = hb_released h + length t \<and>
      hb_window h' = hb_window h"
  using assms
  by (auto simp: HoldBack_release_def Let_def scanned_ok_def rewritten_def Verdict_is_blocked_def
      split: sum.splits verdict.splits)

lemma advance_Nothing: "HoldBack_advance e f h = (h', Inr Emit_Nothing) \<Longrightarrow> h' = h"
  by (auto simp: HoldBack_advance_def Let_def dest: release_cases(1) split: if_splits sum.splits)

lemma advance_Blocked:
  "HoldBack_advance e f h = (h', Inr (Emit_Blocked es)) \<Longrightarrow> hb_pending h' = []"
  by (auto simp: HoldBack_advance_def Let_def dest: release_cases(2) split: if_splits sum.splits)

lemma advance_Release:
  assumes "HoldBack_advance e f h = (h', Inr (Emit_Release t))"
  obtains spans c where "Engine_detect e (hb_pending h) = Inr spans" and "\<not> has_block spans"
    and "c = (if f then length (hb_pending h) else HoldBack_safe_cut h spans)"
    and "0 < c" and "c \<le> length (hb_pending h)"
    and "hb_pending h' = drop c (hb_pending h)"
    and "scanned_ok e (take c (hb_pending h))"
    and "t = rewritten e (take c (hb_pending h))"
    and "hb_released h' = hb_released h + length t"
    and "hb_window h' = hb_window h"
proof -
  from assms obtain spans where d: "Engine_detect e (hb_pending h) = Inr spans"
    and nb: "filter (\<lambda>s. s_action s = Block) spans = []"
    and ne: "hb_pending h \<noteq> []"
    by (auto simp: HoldBack_advance_def Let_def split: if_splits sum.splits)
  define c where "c = (if f then length (hb_pending h) else HoldBack_safe_cut h spans)"
  from nb have nb': "\<not> has_block spans"
    by (auto simp: has_block_def filter_empty_conv)
  have le: "c \<le> length (hb_pending h)"
    by (simp add: c_def HoldBack_safe_cut_def safe_prefix_le_length)
  from assms d nb ne have pos: "0 < c" and rel: "HoldBack_release e c h = (h', Inr (Emit_Release t))"
    by (simp_all add: HoldBack_advance_def Let_def c_def [symmetric] split: if_splits)
  from release_cases(3) [OF rel refl] show thesis
    using that [OF d nb' c_def pos le] by simp
qed

lemma flush_leaves_nothing:
  "HoldBack_flush e h = (h', Inr em) \<Longrightarrow> hb_pending h' = []"
  by (auto simp: HoldBack_flush_def HoldBack_advance_def HoldBack_release_def Let_def
      split: if_splits sum.splits verdict.splits)

section \<open>A whole stream\<close>

text \<open>
  Feeding a list of chunks and flushing at the end, as a caller of the buffer does: it stops at an
  error or at a block, and otherwise collects what each call emits.
\<close>

fun hb_drive :: "engine \<Rightarrow> holdback \<Rightarrow> string list \<Rightarrow> error + emit list" where
  "hb_drive e h [] = map_sum id (\<lambda>em. [em]) (snd (HoldBack_flush e h))"
| "hb_drive e h (c # cs) =
     (case HoldBack_push e h c of
        (h', Inl er) \<Rightarrow> Inl er
      | (h', Inr (Emit_Blocked es)) \<Rightarrow> Inr [Emit_Blocked es]
      | (h', Inr em) \<Rightarrow> map_sum id ((#) em) (hb_drive e h' cs))"

definition emit_text :: "emit \<Rightarrow> string" where
  "emit_text em = (case em of Emit_Release t \<Rightarrow> t | _ \<Rightarrow> [])"

definition is_emit_blocked :: "emit \<Rightarrow> bool" where
  "is_emit_blocked em = (case em of Emit_Blocked _ \<Rightarrow> True | _ \<Rightarrow> False)"

text \<open>
  Where a segment may end. \<open>cut_safe e w fin seg rest\<close>: the cut between \<open>seg\<close> and the text \<open>rest\<close> after
  it was chosen on a detection over \<open>seg\<close> followed by \<open>ahead\<close>, the text already read behind it. That
  is at least a window of text, unless the stream is over (\<open>fin\<close>) and \<open>ahead\<close> is all that is left.
  The detection blocked nothing, and where its spans are well formed the cut falls on a code point
  boundary and inside no detected entity.
\<close>

definition cut_safe :: "engine \<Rightarrow> nat \<Rightarrow> bool \<Rightarrow> string \<Rightarrow> string \<Rightarrow> bool" where
  "cut_safe e w fin seg rest \<longleftrightarrow>
     (\<exists>ahead later spans. rest = ahead @ later \<and> (w \<le> length ahead \<or> fin \<and> later = []) \<and>
        Engine_detect e (seg @ ahead) = Inr spans \<and> \<not> has_block spans \<and>
        (spans_ok (seg @ ahead) spans \<longrightarrow> safe_cut_at (seg @ ahead) spans (length seg)))"

fun cuts_safe :: "engine \<Rightarrow> nat \<Rightarrow> bool \<Rightarrow> string list \<Rightarrow> string \<Rightarrow> bool" where
  "cuts_safe e w fin [] later \<longleftrightarrow> True"
| "cuts_safe e w fin (seg # segs) later \<longleftrightarrow>
     cut_safe e w fin seg (concat segs @ later) \<and> cuts_safe e w fin segs later"

text \<open>\<open>segmented e w fin input later out\<close>: \<open>out\<close> is the redaction of a segmentation of \<open>input\<close>, which
  \<open>later\<close> follows in the stream: every segment was scanned and replaced by its rewriting, and every
  segment ends at a safe cut.\<close>

definition segmented :: "engine \<Rightarrow> nat \<Rightarrow> bool \<Rightarrow> string \<Rightarrow> string \<Rightarrow> string \<Rightarrow> bool" where
  "segmented e w fin input later out \<longleftrightarrow>
     (\<exists>segs. concat segs = input \<and> out = concat (map (rewritten e) segs) \<and>
        (\<forall>seg \<in> set segs. seg \<noteq> [] \<and> scanned_ok e seg) \<and> cuts_safe e w fin segs later)"

lemma cut_safe_grow: "cut_safe e w False seg rest \<Longrightarrow> cut_safe e w False seg (rest @ t)"
  unfolding cut_safe_def by (metis append.assoc)

lemma cut_safe_fin: "cut_safe e w False seg rest \<Longrightarrow> cut_safe e w fin seg rest"
  unfolding cut_safe_def by blast

lemma cuts_safe_grow: "cuts_safe e w False segs later \<Longrightarrow> cuts_safe e w False segs (later @ t)"
  by (induction segs) (use cut_safe_grow in fastforce)+

lemma cuts_safe_fin: "cuts_safe e w False segs later \<Longrightarrow> cuts_safe e w fin segs later"
  by (induction segs) (use cut_safe_fin in fastforce)+

lemma cuts_safe_snoc:
  "cuts_safe e w fin (segs @ [seg]) later \<longleftrightarrow>
     cuts_safe e w fin segs (seg @ later) \<and> cut_safe e w fin seg later"
  by (induction segs) auto

lemma segmented_Nil: "segmented e w fin [] later []"
  unfolding segmented_def by (intro exI [of _ "[]"]) simp

lemma segmented_Cons:
  assumes "seg \<noteq> []" and "scanned_ok e seg" and "cut_safe e w fin seg (input @ later)"
    and "segmented e w fin input later out"
  shows "segmented e w fin (seg @ input) later (rewritten e seg @ out)"
proof -
  from assms(4) obtain segs where "concat segs = input" "out = concat (map (rewritten e) segs)"
    "\<forall>s \<in> set segs. s \<noteq> [] \<and> scanned_ok e s" "cuts_safe e w fin segs later"
    unfolding segmented_def by blast
  with assms(1-3) show ?thesis
    unfolding segmented_def by (intro exI [of _ "seg # segs"]) simp
qed

lemma segmented_snoc:
  assumes "seg \<noteq> []" and "scanned_ok e seg" and "cut_safe e w fin seg later"
    and "segmented e w fin input (seg @ later) out"
  shows "segmented e w fin (input @ seg) later (out @ rewritten e seg)"
proof -
  from assms(4) obtain segs where "concat segs = input" "out = concat (map (rewritten e) segs)"
    "\<forall>s \<in> set segs. s \<noteq> [] \<and> scanned_ok e s" "cuts_safe e w fin segs (seg @ later)"
    unfolding segmented_def by blast
  with assms(1-3) show ?thesis
    unfolding segmented_def by (intro exI [of _ "segs @ [seg]"]) (auto simp: cuts_safe_snoc)
qed

lemma segmented_grow:
  "segmented e w False input later out \<Longrightarrow> segmented e w False input (later @ t) out"
  unfolding segmented_def using cuts_safe_grow by blast

lemma segmented_fin: "segmented e w False input later out \<Longrightarrow> segmented e w fin input later out"
  unfolding segmented_def using cuts_safe_fin by blast

text \<open>A release of the buffer ends at a safe cut: in a push a window of text stays behind it, in a
  flush nothing does.\<close>

lemma advance_cut_safe:
  assumes "Engine_detect e (hb_pending h) = Inr spans" and "\<not> has_block spans"
    and "c = (if f then length (hb_pending h) else HoldBack_safe_cut h spans)"
    and "0 < c" and "c \<le> length (hb_pending h)" and "f \<Longrightarrow> rest = []"
  shows "cut_safe e (hb_window h) True (take c (hb_pending h)) (drop c (hb_pending h) @ rest)"
proof -
  let ?p = "hb_pending h"
  have safe: "safe_cut_at ?p spans c" if "spans_ok ?p spans"
    using that safe_prefix_spec(1) [OF that, of "hb_window h" "length ?p"]
    by (auto simp: assms(3) HoldBack_safe_cut_def safe_cut_at_def spans_ok_def straddles_def)
  have "hb_window h \<le> length (drop c ?p) \<or> rest = []"
  proof (cases f)
    case False
    then have "c \<le> length ?p - hb_window h"
      using safe_prefix_le [of ?p spans "hb_window h" "length ?p"] by (simp add: assms(3) HoldBack_safe_cut_def)
    with assms(4) have "hb_window h \<le> length ?p - c" by linarith
    then show ?thesis by simp
  qed (use assms(6) in simp)
  with safe assms(1,2,5) show ?thesis
    unfolding cut_safe_def
    by (intro exI [of _ "drop c ?p"] exI [of _ rest] exI [of _ spans]) (simp add: min_absorb2)
qed

lemma advance_segmented:
  assumes "HoldBack_advance e f h = (h', Inr em)" and "\<not> is_emit_blocked em" and "f \<Longrightarrow> rest = []"
    and "segmented e (hb_window h) True (hb_pending h' @ rest) [] out"
  shows "segmented e (hb_window h) True (hb_pending h @ rest) [] (emit_text em @ out)"
proof (cases em)
  case Emit_Nothing
  with assms advance_Nothing show ?thesis by (fastforce simp: emit_text_def)
next
  case (Emit_Release t)
  with assms(1) obtain spans c where d: "Engine_detect e (hb_pending h) = Inr spans" "\<not> has_block spans"
      "c = (if f then length (hb_pending h) else HoldBack_safe_cut h spans)"
      "0 < c" "c \<le> length (hb_pending h)"
    and p: "hb_pending h' = drop c (hb_pending h)"
    and s: "scanned_ok e (take c (hb_pending h))" and t: "t = rewritten e (take c (hb_pending h))"
    by (metis advance_Release)
  have cut: "cut_safe e (hb_window h) True (take c (hb_pending h)) ((hb_pending h' @ rest) @ [])"
    using advance_cut_safe [OF d assms(3)] p by simp
  from d(4,5) have "take c (hb_pending h) \<noteq> []" by auto
  from segmented_Cons [OF this s cut assms(4)] p t Emit_Release show ?thesis
    by (simp add: emit_text_def flip: append.assoc)
next
  case (Emit_Blocked es)
  with assms(2) show ?thesis by (simp add: is_emit_blocked_def)
qed

lemma advance_window:
  "HoldBack_advance e f h = (h', Inr em) \<Longrightarrow> hb_window h' = hb_window h"
  by (auto simp: HoldBack_advance_def HoldBack_release_def Let_def
      split: if_splits sum.splits verdict.splits)

lemma hb_drive_segmented:
  assumes "hb_drive e h chunks = Inr ems" and "\<forall>em \<in> set ems. \<not> is_emit_blocked em"
  shows "segmented e (hb_window h) True (hb_pending h @ concat chunks) [] (concat (map emit_text ems))"
  using assms
proof (induction e h chunks arbitrary: ems rule: hb_drive.induct)
  case (1 e h)
  then obtain h' em where f: "HoldBack_flush e h = (h', Inr em)" and ems: "ems = [em]"
    by (cases "HoldBack_flush e h"; cases "snd (HoldBack_flush e h)") auto
  from flush_leaves_nothing [OF f] have "segmented e (hb_window h) True (hb_pending h' @ []) [] []"
    by (simp add: segmented_Nil)
  with advance_segmented [of e True h h' em "[]" "[]"] f ems "1.prems" show ?case
    by (simp add: HoldBack_flush_def)
next
  case (2 e h c cs)
  obtain h' r where push: "HoldBack_push e h c = (h', r)" by fastforce
  with "2.prems" obtain em where r: "r = Inr em" by (cases r) auto
  from "2.prems" push r have nb: "\<not> is_emit_blocked em"
    by (cases em) (auto simp: is_emit_blocked_def)
  with "2.prems" push r obtain ems' where d: "hb_drive e h' cs = Inr ems'" and ems: "ems = em # ems'"
    by (cases em; cases "hb_drive e h' cs") (auto simp: is_emit_blocked_def)
  have w: "hb_window h' = hb_window h"
    using push r advance_window by (fastforce simp: HoldBack_push_def)
  have "segmented e (hb_window h') True (hb_pending h' @ concat cs) [] (concat (map emit_text ems'))"
    using "2.IH" push r nb d ems "2.prems"(2) by (cases em) (auto simp: is_emit_blocked_def)
  with advance_segmented [of e False "h\<lparr>hb_pending := hb_pending h @ c\<rparr>" h' em] push r nb ems w
  show ?case by (simp add: HoldBack_push_def)
qed

end
