(* ===== verification/Redact_Payload.thy ===== *)
theory Redact_Payload
  imports Redact_HoldBack
begin

text \<open>
  \<open>crates/governance-redact/src/payload.rs\<close> (and \<open>ScanReport::merge_verdict\<close> of
  \<open>streaming/mod.rs\<close>): which strings of an OpenAI request or response body are handed to the engine,
  and how the body is rewritten in place.

  An in-place walk over a \<open>&mut Value\<close> with a \<open>&mut ScanReport\<close> is a function from the document and
  the report to an error or to the new document and report. When the walk fails, its callers drop
  the document, so the error carries no document.

  Every walk of the module meets one contract, the locale \<open>walker\<close>: it scans a fixed list of text
  slots in order, stops at the first error, rewrites exactly these slots and merges their verdicts
  into the report.
\<close>

section \<open>The report\<close>

record scan_report =
  sr_blocked :: "string list"
  sr_redactions :: nat
  scanned_fields :: nat

definition ScanReport_default :: scan_report where
  "ScanReport_default = \<lparr>sr_blocked = [], sr_redactions = 0, scanned_fields = 0\<rparr>"

definition ScanReport_is_blocked :: "scan_report \<Rightarrow> bool" where
  "ScanReport_is_blocked r \<longleftrightarrow> sr_blocked r \<noteq> []"

definition merge_verdict :: "scan_report \<Rightarrow> verdict \<Rightarrow> scan_report \<times> string option" where
  "merge_verdict r v =
     (let r1 = r\<lparr>scanned_fields := scanned_fields r + 1\<rparr>
      in case v of
           Clean \<Rightarrow> (r1, None)
         | Redacted text n \<Rightarrow> (r1\<lparr>sr_redactions := sr_redactions r1 + n\<rparr>, Some text)
         | Blocked entities \<Rightarrow> (r1\<lparr>sr_blocked := sort_dedup (sr_blocked r1 @ entities)\<rparr>, None))"

section \<open>Walking a document\<close>

type_synonym walk = "json \<Rightarrow> scan_report \<Rightarrow> error + json \<times> scan_report"

text \<open>\<open>for x in xs.iter_mut() { w(x)? }\<close>, on an array; \<open>if let Some(c) = v.get_mut(k) { w(c)? }\<close>.\<close>

fun scan_items :: "walk \<Rightarrow> json list \<Rightarrow> scan_report \<Rightarrow> error + json list \<times> scan_report" where
  "scan_items w [] r = Inr ([], r)"
| "scan_items w (x # xs) r =
     res_bind (w x r) (\<lambda>(x', r').
       res_bind (scan_items w xs r') (\<lambda>(xs', r''). Inr (x' # xs', r'')))"

definition each_item :: "walk \<Rightarrow> walk" where
  "each_item w v r =
     (case v of
        JArray xs \<Rightarrow> res_bind (scan_items w xs r) (\<lambda>(xs', r'). Inr (JArray xs', r'))
      | _ \<Rightarrow> Inr (v, r))"

definition at_key :: "string \<Rightarrow> walk \<Rightarrow> walk" where
  "at_key k w v r =
     (case json_get k v of
        None \<Rightarrow> Inr (v, r)
      | Some c \<Rightarrow> res_bind (w c r) (\<lambda>(c', r'). Inr (json_put k c' v, r')))"

definition then_walk :: "walk \<Rightarrow> walk \<Rightarrow> walk" where
  "then_walk w1 w2 v r = res_bind (w1 v r) (\<lambda>(v', r'). w2 v' r')"

section \<open>The walks of the sources\<close>

definition scan_slot :: "engine \<Rightarrow> walk" where
  "scan_slot e slot r =
     (case as_str_val slot of
        None \<Rightarrow> Inr (slot, r)
      | Some text \<Rightarrow>
          res_bind (Engine_scan e text) (\<lambda>v.
            case merge_verdict r v of
              (r', Some new) \<Rightarrow> Inr (JString new, r')
            | (r', None) \<Rightarrow> Inr (slot, r')))"

definition scan_content :: "engine \<Rightarrow> walk" where
  "scan_content e content r =
     (case content of
        JArray parts \<Rightarrow> each_item (at_key ''text'' (scan_slot e)) content r
      | _ \<Rightarrow> scan_slot e content r)"

definition scan_string_or_array :: "engine \<Rightarrow> walk" where
  "scan_string_or_array e field r =
     (case field of
        JArray xs \<Rightarrow> each_item (scan_slot e) field r
      | _ \<Rightarrow> scan_slot e field r)"

definition scan_message :: "engine \<Rightarrow> walk" where
  "scan_message e =
     then_walk
       (at_key ''content'' (scan_content e))
       (at_key ''tool_calls''
         (each_item (at_key ''function'' (at_key ''arguments'' (scan_slot e)))))"

definition scan_request :: "engine \<Rightarrow> json \<Rightarrow> error + json \<times> scan_report" where
  "scan_request e body =
     then_walk
       (at_key ''messages'' (each_item (scan_message e)))
       (then_walk
         (at_key ''input'' (scan_string_or_array e))
         (at_key ''prompt'' (scan_string_or_array e)))
       body ScanReport_default"

definition scan_choice :: "engine \<Rightarrow> walk" where
  "scan_choice e =
     then_walk (at_key ''message'' (scan_message e)) (at_key ''text'' (scan_string_or_array e))"

definition scan_response :: "engine \<Rightarrow> json \<Rightarrow> error + json \<times> scan_report" where
  "scan_response e body =
     at_key ''choices'' (each_item (scan_choice e)) body ScanReport_default"

section \<open>The contract of a walk\<close>

fun scan_all :: "(string \<Rightarrow> error + verdict) \<Rightarrow> string list \<Rightarrow> error + verdict list" where
  "scan_all scan [] = Inr []"
| "scan_all scan (t # ts) =
     res_bind (scan t) (\<lambda>v. res_bind (scan_all scan ts) (\<lambda>vs. Inr (v # vs)))"

definition merge_all :: "scan_report \<Rightarrow> verdict list \<Rightarrow> scan_report" where
  "merge_all r vs = foldl (\<lambda>r v. fst (merge_verdict r v)) r vs"

definition rewrite_by :: "(string \<Rightarrow> error + verdict) \<Rightarrow> string \<Rightarrow> string" where
  "rewrite_by scan t = (case scan t of Inr (Redacted u n) \<Rightarrow> u | _ \<Rightarrow> t)"

lemma rewrite_by_Engine: "rewrite_by (Engine_scan e) = rewritten e"
  by (rule ext) (simp add: rewrite_by_def rewritten_def)

lemma scan_all_append:
  "scan_all scan (ts @ us) =
     res_bind (scan_all scan ts) (\<lambda>vs. res_bind (scan_all scan us) (\<lambda>ws. Inr (vs @ ws)))"
  by (induction ts) (auto simp: res_bind_def split: sum.splits)

lemma merge_all_append: "merge_all r (vs @ ws) = merge_all (merge_all r vs) ws"
  by (simp add: merge_all_def)

lemma scan_all_length: "scan_all scan ts = Inr vs \<Longrightarrow> length vs = length ts"
  by (induction ts arbitrary: vs) (auto simp: res_bind_eq_Inr)

definition entities_of :: "verdict list \<Rightarrow> string list" where
  "entities_of vs = concat (map (\<lambda>v. case v of Blocked es \<Rightarrow> es | _ \<Rightarrow> []) vs)"

definition rewrites_of :: "verdict list \<Rightarrow> nat" where
  "rewrites_of vs = sum_list (map (\<lambda>v. case v of Redacted t n \<Rightarrow> n | _ \<Rightarrow> 0) vs)"

lemma set_entities_of: "set (entities_of vs) = (\<Union>es \<in> {es. Blocked es \<in> set vs}. set es)"
  by (fastforce simp: entities_of_def split: verdict.splits)

text \<open>The report after merging: counts add up, and the blocking entities are the sorted set of all
  of them.\<close>

lemma merge_all_fields:
  "scanned_fields (merge_all r vs) = scanned_fields r + length vs"
  "sr_redactions (merge_all r vs) = sr_redactions r + rewrites_of vs"
  "set (sr_blocked (merge_all r vs)) = set (sr_blocked r) \<union> set (entities_of vs)"
  by (induction vs arbitrary: r)
    (auto simp: merge_all_def merge_verdict_def rewrites_of_def entities_of_def Let_def
      split: verdict.splits)

lemma merge_all_blocked_sorted:
  "sorted (sr_blocked r) \<Longrightarrow> distinct (sr_blocked r) \<Longrightarrow>
     sorted (sr_blocked (merge_all r vs)) \<and> distinct (sr_blocked (merge_all r vs))"
  by (induction vs arbitrary: r)
    (auto simp: merge_all_def merge_verdict_def Let_def sort_dedup_sorted_distinct
      split: verdict.splits)

locale walker =
  fixes walk :: walk
    and scan :: "string \<Rightarrow> error + verdict"
    and slots :: "json \<Rightarrow> string list"
    and mapped :: "(string \<Rightarrow> string) \<Rightarrow> json \<Rightarrow> json"
  assumes walk_spec:
      "walk v r = res_bind (scan_all scan (slots v))
                    (\<lambda>vs. Inr (mapped (rewrite_by scan) v, merge_all r vs))"
    and slots_mapped: "slots (mapped f v) = map f (slots v)"
    and mapped_id: "(\<And>t. t \<in> set (slots v) \<Longrightarrow> f t = t) \<Longrightarrow> mapped f v = v"
begin

lemma walk_Inr:
  "walk v r = Inr (v', r') \<longleftrightarrow>
     (\<exists>vs. scan_all scan (slots v) = Inr vs \<and> v' = mapped (rewrite_by scan) v \<and> r' = merge_all r vs)"
  by (auto simp: walk_spec res_bind_eq_Inr)

lemma walk_clean:
  assumes "\<And>t. t \<in> set (slots v) \<Longrightarrow> scan t = Inr Clean"
  shows "walk v r = Inr (v, r\<lparr>scanned_fields := scanned_fields r + length (slots v)\<rparr>)"
proof -
  have all: "scan_all scan ts = Inr (replicate (length ts) Clean)"
    if "\<And>t. t \<in> set ts \<Longrightarrow> scan t = Inr Clean" for ts
    using that by (induction ts) simp_all
  have merge: "merge_all r (replicate n Clean) = r\<lparr>scanned_fields := scanned_fields r + n\<rparr>" for r n
    by (induction n arbitrary: r) (simp_all add: merge_all_def merge_verdict_def)
  show ?thesis
    using all [of "slots v"] assms by (simp add: walk_spec merge mapped_id rewrite_by_def)
qed

lemma walk_rewrites:
  "walk v r = Inr (v', r') \<Longrightarrow> slots v' = map (rewrite_by scan) (slots v)"
  by (auto simp: walk_Inr slots_mapped)

lemma walk_blocked_iff:
  assumes "walk v r = Inr (v', r')" and "sr_blocked r = []"
  shows "ScanReport_is_blocked r' \<longleftrightarrow>
    (\<exists>t \<in> set (slots v). \<exists>es. scan t = Inr (Blocked es) \<and> es \<noteq> [])"
proof -
  from assms(1) obtain vs where vs: "scan_all scan (slots v) = Inr vs" and r': "r' = merge_all r vs"
    by (auto simp: walk_Inr)
  have "set vs = {x. \<exists>t \<in> set ts. scan t = Inr x}" if "scan_all scan ts = Inr vs" for ts vs
    using that by (induction ts arbitrary: vs) (auto simp: res_bind_eq_Inr)
  with vs have set_vs: "set vs = {x. \<exists>t \<in> set (slots v). scan t = Inr x}" by blast
  have "ScanReport_is_blocked r' \<longleftrightarrow> set (sr_blocked r') \<noteq> {}"
    by (simp add: ScanReport_is_blocked_def)
  also have "\<dots> \<longleftrightarrow> (\<exists>es. Blocked es \<in> set vs \<and> es \<noteq> [])"
    using assms(2) by (auto simp: r' merge_all_fields set_entities_of)
  also have "\<dots> \<longleftrightarrow> (\<exists>t \<in> set (slots v). \<exists>es. scan t = Inr (Blocked es) \<and> es \<noteq> [])"
    by (auto simp: set_vs)
  finally show ?thesis .
qed

end

section \<open>The walks meet the contract\<close>

definition slot_text :: "json \<Rightarrow> string list" where
  "slot_text v = (case v of JString t \<Rightarrow> [t] | _ \<Rightarrow> [])"

definition slots_each :: "(json \<Rightarrow> string list) \<Rightarrow> json \<Rightarrow> string list" where
  "slots_each s v = (case v of JArray xs \<Rightarrow> concat (map s xs) | _ \<Rightarrow> [])"

definition slots_key :: "string \<Rightarrow> (json \<Rightarrow> string list) \<Rightarrow> json \<Rightarrow> string list" where
  "slots_key k s v = (case json_get k v of None \<Rightarrow> [] | Some c \<Rightarrow> s c)"

definition map_slot :: "(string \<Rightarrow> string) \<Rightarrow> json \<Rightarrow> json" where
  "map_slot f v = (case v of JString t \<Rightarrow> JString (f t) | _ \<Rightarrow> v)"

definition map_each :: "((string \<Rightarrow> string) \<Rightarrow> json \<Rightarrow> json) \<Rightarrow> (string \<Rightarrow> string) \<Rightarrow> json \<Rightarrow> json" where
  "map_each m f v = (case v of JArray xs \<Rightarrow> JArray (map (m f) xs) | _ \<Rightarrow> v)"

definition map_key :: "string \<Rightarrow> ((string \<Rightarrow> string) \<Rightarrow> json \<Rightarrow> json) \<Rightarrow> (string \<Rightarrow> string) \<Rightarrow> json \<Rightarrow> json" where
  "map_key k m f v = (case json_get k v of None \<Rightarrow> v | Some c \<Rightarrow> json_put k (m f c) v)"

lemma walker_slot: "walker (scan_slot e) (Engine_scan e) slot_text map_slot"
proof unfold_locales
  fix v r
  show "scan_slot e v r = res_bind (scan_all (Engine_scan e) (slot_text v))
          (\<lambda>vs. Inr (map_slot (rewrite_by (Engine_scan e)) v, merge_all r vs))"
    by (cases v)
      (auto simp: scan_slot_def slot_text_def map_slot_def as_str_val_def res_bind_def rewrite_by_def
        merge_all_def merge_verdict_def Let_def split: sum.splits verdict.splits)
qed (auto simp: slot_text_def map_slot_def split: json.splits)

lemma walker_each:
  assumes "walker w scan s m"
  shows "walker (each_item w) scan (slots_each s) (map_each m)"
proof -
  have items: "scan_items w xs r = res_bind (scan_all scan (concat (map s xs)))
      (\<lambda>vs. Inr (map (m (rewrite_by scan)) xs, merge_all r vs))" for xs r
  proof (induction xs arbitrary: r)
    case (Cons x xs)
    then show ?case
      by (auto simp: walker.walk_spec [OF assms] scan_all_append merge_all_append res_bind_def
          split: sum.splits)
  qed (simp add: merge_all_def)
  show ?thesis
  proof unfold_locales
    fix v r
    show "each_item w v r = res_bind (scan_all scan (slots_each s v))
            (\<lambda>vs. Inr (map_each m (rewrite_by scan) v, merge_all r vs))"
      by (cases v)
        (auto simp: each_item_def slots_each_def map_each_def items res_bind_def merge_all_def
          split: sum.splits)
  next
    fix f v
    show "slots_each s (map_each m f v) = map f (slots_each s v)"
      by (cases v)
        (simp_all add: slots_each_def map_each_def map_concat walker.slots_mapped [OF assms] comp_def)
  next
    fix f v
    assume "\<And>t. t \<in> set (slots_each s v) \<Longrightarrow> f t = t"
    then show "map_each m f v = v"
      by (cases v)
        (auto simp: slots_each_def map_each_def intro!: map_idI walker.mapped_id [OF assms])
  qed
qed

lemma walker_key:
  assumes "walker w scan s m"
  shows "walker (at_key k w) scan (slots_key k s) (map_key k m)"
proof unfold_locales
  fix v r
  show "at_key k w v r = res_bind (scan_all scan (slots_key k s v))
          (\<lambda>vs. Inr (map_key k m (rewrite_by scan) v, merge_all r vs))"
    by (cases "json_get k v")
      (auto simp: at_key_def slots_key_def map_key_def walker.walk_spec [OF assms] res_bind_def
        merge_all_def split: sum.splits)
next
  fix f v
  show "slots_key k s (map_key k m f v) = map f (slots_key k s v)"
    by (cases "json_get k v")
      (simp_all add: slots_key_def map_key_def json_get_put_same walker.slots_mapped [OF assms])
next
  fix f v
  assume "\<And>t. t \<in> set (slots_key k s v) \<Longrightarrow> f t = t"
  then show "map_key k m f v = v"
    by (cases "json_get k v")
      (auto simp: slots_key_def map_key_def walker.mapped_id [OF assms] json_put_same)
qed

text \<open>Two walks one after the other, where neither changes what the other scans.\<close>

lemma walker_then:
  assumes w1: "walker w1 scan s1 m1" and w2: "walker w2 scan s2 m2"
    and ind: "\<And>f v. s2 (m1 f v) = s2 v" "\<And>f v. s1 (m2 f v) = s1 v"
  shows "walker (then_walk w1 w2) scan (\<lambda>v. s1 v @ s2 v) (\<lambda>f v. m2 f (m1 f v))"
proof unfold_locales
  fix v r
  show "then_walk w1 w2 v r = res_bind (scan_all scan (s1 v @ s2 v))
          (\<lambda>vs. Inr (m2 (rewrite_by scan) (m1 (rewrite_by scan) v), merge_all r vs))"
    by (simp add: then_walk_def walker.walk_spec [OF w1] walker.walk_spec [OF w2] ind
        scan_all_append merge_all_append res_bind_def split: sum.splits)
next
  fix f v
  show "s1 (m2 f (m1 f v)) @ s2 (m2 f (m1 f v)) = map f (s1 v @ s2 v)"
    by (simp add: ind walker.slots_mapped [OF w1] walker.slots_mapped [OF w2])
next
  fix f v
  assume "\<And>t. t \<in> set (s1 v @ s2 v) \<Longrightarrow> f t = t"
  then show "m2 f (m1 f v) = v"
    by (simp add: walker.mapped_id [OF w1] walker.mapped_id [OF w2])
qed

lemma slots_key_map_key_other: "k \<noteq> j \<Longrightarrow> slots_key j s (map_key k m f v) = slots_key j s v"
  by (auto simp: slots_key_def map_key_def json_get_put_other split: option.splits)

lemma walker_then_keys:
  assumes "walker w1 scan s1 m1" and "walker w2 scan s2 m2" and "k \<noteq> j"
  shows "walker (then_walk (at_key k w1) (at_key j w2)) scan
           (\<lambda>v. slots_key k s1 v @ slots_key j s2 v)
           (\<lambda>f v. map_key j m2 f (map_key k m1 f v))"
  using assms by (intro walker_then walker_key) (simp_all add: slots_key_map_key_other)

definition content_slots :: "json \<Rightarrow> string list" where
  "content_slots v =
     (case v of JArray _ \<Rightarrow> slots_each (slots_key ''text'' slot_text) v | _ \<Rightarrow> slot_text v)"

definition field_slots :: "json \<Rightarrow> string list" where
  "field_slots v = (case v of JArray _ \<Rightarrow> slots_each slot_text v | _ \<Rightarrow> slot_text v)"

definition map_content :: "(string \<Rightarrow> string) \<Rightarrow> json \<Rightarrow> json" where
  "map_content f v =
     (case v of JArray _ \<Rightarrow> map_each (map_key ''text'' map_slot) f v | _ \<Rightarrow> map_slot f v)"

definition map_field :: "(string \<Rightarrow> string) \<Rightarrow> json \<Rightarrow> json" where
  "map_field f v = (case v of JArray _ \<Rightarrow> map_each map_slot f v | _ \<Rightarrow> map_slot f v)"

lemma case_not_array: "\<forall>zs. v \<noteq> JArray zs \<Longrightarrow> (case v of JArray _ \<Rightarrow> P | _ \<Rightarrow> Q) = Q"
  by (cases v) auto

text \<open>A walk that treats arrays one way and everything else another.\<close>

lemma walker_array_or:
  assumes a: "walker wa scan sa ma" and o: "walker wo scan so mo"
    and arr: "\<And>f xs. \<exists>ys. ma f (JArray xs) = JArray ys"
    and oth: "\<And>f v. \<forall>zs. v \<noteq> JArray zs \<Longrightarrow> \<forall>zs. mo f v \<noteq> JArray zs"
  shows "walker (\<lambda>v r. case v of JArray _ \<Rightarrow> wa v r | _ \<Rightarrow> wo v r) scan
           (\<lambda>v. case v of JArray _ \<Rightarrow> sa v | _ \<Rightarrow> so v)
           (\<lambda>f v. case v of JArray _ \<Rightarrow> ma f v | _ \<Rightarrow> mo f v)"
proof unfold_locales
  fix v r
  show "(case v of JArray _ \<Rightarrow> wa v r | _ \<Rightarrow> wo v r) =
      res_bind (scan_all scan (case v of JArray _ \<Rightarrow> sa v | _ \<Rightarrow> so v))
        (\<lambda>vs. Inr (case v of JArray _ \<Rightarrow> ma (rewrite_by scan) v | _ \<Rightarrow> mo (rewrite_by scan) v,
                   merge_all r vs))"
    by (cases v) (simp_all add: walker.walk_spec [OF a] walker.walk_spec [OF o])
next
  fix f v
  show "(case (case v of JArray _ \<Rightarrow> ma f v | _ \<Rightarrow> mo f v) of
           JArray _ \<Rightarrow> sa (case v of JArray _ \<Rightarrow> ma f v | _ \<Rightarrow> mo f v)
         | _ \<Rightarrow> so (case v of JArray _ \<Rightarrow> ma f v | _ \<Rightarrow> mo f v)) =
        map f (case v of JArray _ \<Rightarrow> sa v | _ \<Rightarrow> so v)"
  proof (cases "\<exists>xs. v = JArray xs")
    case True
    then obtain xs ys where v: "v = JArray xs" and m: "ma f v = JArray ys" using arr by blast
    from walker.slots_mapped [OF a, of f v] show ?thesis by (simp add: v m [unfolded v])
  next
    case False
    then have "\<forall>zs. v \<noteq> JArray zs" by blast
    moreover from this have "\<forall>zs. mo f v \<noteq> JArray zs" by (rule oth)
    ultimately show ?thesis
      using walker.slots_mapped [OF o, of f v] by (simp add: case_not_array)
  qed
next
  fix f v
  assume "\<And>t. t \<in> set (case v of JArray _ \<Rightarrow> sa v | _ \<Rightarrow> so v) \<Longrightarrow> f t = t"
  then show "(case v of JArray _ \<Rightarrow> ma f v | _ \<Rightarrow> mo f v) = v"
    by (cases v) (auto intro: walker.mapped_id [OF a] walker.mapped_id [OF o])
qed

lemma array_not_slot: "\<forall>zs. v \<noteq> JArray zs \<Longrightarrow> \<forall>zs. map_slot f v \<noteq> JArray zs"
  by (cases v) (simp_all add: map_slot_def)

lemma walker_content: "walker (scan_content e) (Engine_scan e) content_slots map_content"
proof -
  have "walker (\<lambda>v r. case v of JArray _ \<Rightarrow> each_item (at_key ''text'' (scan_slot e)) v r
                              | _ \<Rightarrow> scan_slot e v r) (Engine_scan e)
      (\<lambda>v. case v of JArray _ \<Rightarrow> slots_each (slots_key ''text'' slot_text) v | _ \<Rightarrow> slot_text v)
      (\<lambda>f v. case v of JArray _ \<Rightarrow> map_each (map_key ''text'' map_slot) f v | _ \<Rightarrow> map_slot f v)"
    by (intro walker_array_or walker_each walker_key walker_slot array_not_slot)
      (simp_all add: map_each_def)
  then show ?thesis
    unfolding scan_content_def [abs_def] content_slots_def [abs_def] map_content_def [abs_def] .
qed

lemma walker_field: "walker (scan_string_or_array e) (Engine_scan e) field_slots map_field"
proof -
  have "walker (\<lambda>v r. case v of JArray _ \<Rightarrow> each_item (scan_slot e) v r | _ \<Rightarrow> scan_slot e v r)
      (Engine_scan e)
      (\<lambda>v. case v of JArray _ \<Rightarrow> slots_each slot_text v | _ \<Rightarrow> slot_text v)
      (\<lambda>f v. case v of JArray _ \<Rightarrow> map_each map_slot f v | _ \<Rightarrow> map_slot f v)"
    by (intro walker_array_or walker_each walker_slot array_not_slot) (simp_all add: map_each_def)
  then show ?thesis
    unfolding scan_string_or_array_def [abs_def] field_slots_def [abs_def] map_field_def [abs_def] .
qed

definition call_slots :: "json \<Rightarrow> string list" where
  "call_slots = slots_each (slots_key ''function'' (slots_key ''arguments'' slot_text))"

definition map_calls :: "(string \<Rightarrow> string) \<Rightarrow> json \<Rightarrow> json" where
  "map_calls = map_each (map_key ''function'' (map_key ''arguments'' map_slot))"

definition message_slots :: "json \<Rightarrow> string list" where
  "message_slots v = slots_key ''content'' content_slots v @ slots_key ''tool_calls'' call_slots v"

definition map_message :: "(string \<Rightarrow> string) \<Rightarrow> json \<Rightarrow> json" where
  "map_message f v = map_key ''tool_calls'' map_calls f (map_key ''content'' map_content f v)"

lemma walker_message: "walker (scan_message e) (Engine_scan e) message_slots map_message"
proof -
  have "walker (each_item (at_key ''function'' (at_key ''arguments'' (scan_slot e))))
      (Engine_scan e) call_slots map_calls"
    unfolding call_slots_def map_calls_def by (intro walker_each walker_key walker_slot)
  from walker_then_keys [OF walker_content this, of "''content''" "''tool_calls''"]
  show ?thesis
    by (simp add: scan_message_def message_slots_def [abs_def] map_message_def [abs_def])
qed

definition request_slots :: "json \<Rightarrow> string list" where
  "request_slots v =
     slots_key ''messages'' (slots_each message_slots) v @
     slots_key ''input'' field_slots v @ slots_key ''prompt'' field_slots v"

definition map_request :: "(string \<Rightarrow> string) \<Rightarrow> json \<Rightarrow> json" where
  "map_request f v =
     map_key ''prompt'' map_field f (map_key ''input'' map_field f
       (map_key ''messages'' (map_each map_message) f v))"

definition response_slots :: "json \<Rightarrow> string list" where
  "response_slots =
     slots_key ''choices'' (slots_each (\<lambda>v.
       slots_key ''message'' message_slots v @ slots_key ''text'' field_slots v))"

definition map_response :: "(string \<Rightarrow> string) \<Rightarrow> json \<Rightarrow> json" where
  "map_response =
     map_key ''choices'' (map_each (\<lambda>f v.
       map_key ''text'' map_field f (map_key ''message'' map_message f v)))"

definition walk_request :: "engine \<Rightarrow> walk" where
  "walk_request e =
     then_walk
       (at_key ''messages'' (each_item (scan_message e)))
       (then_walk
         (at_key ''input'' (scan_string_or_array e))
         (at_key ''prompt'' (scan_string_or_array e)))"

lemma scan_request_walk: "scan_request e body = walk_request e body ScanReport_default"
  by (simp add: scan_request_def walk_request_def)

definition walk_response :: "engine \<Rightarrow> walk" where
  "walk_response e = at_key ''choices'' (each_item (scan_choice e))"

lemma scan_response_walk: "scan_response e body = walk_response e body ScanReport_default"
  by (simp add: scan_response_def walk_response_def)

interpretation req: walker "walk_request e" "Engine_scan e" request_slots map_request for e
proof -
  have inner: "walker (then_walk (at_key ''input'' (scan_string_or_array e))
                                 (at_key ''prompt'' (scan_string_or_array e))) (Engine_scan e)
      (\<lambda>v. slots_key ''input'' field_slots v @ slots_key ''prompt'' field_slots v)
      (\<lambda>f v. map_key ''prompt'' map_field f (map_key ''input'' map_field f v))"
    by (rule walker_then_keys [OF walker_field walker_field]) simp
  have "walker (walk_request e) (Engine_scan e)
      (\<lambda>v. slots_key ''messages'' (slots_each message_slots) v @
           (slots_key ''input'' field_slots v @ slots_key ''prompt'' field_slots v))
      (\<lambda>f v. map_key ''prompt'' map_field f (map_key ''input'' map_field f
           (map_key ''messages'' (map_each map_message) f v)))"
    unfolding walk_request_def
    by (rule walker_then [OF walker_key [OF walker_each [OF walker_message]] inner])
      (simp_all add: slots_key_map_key_other)
  then show "walker (walk_request e) (Engine_scan e) request_slots map_request"
    by (simp add: request_slots_def [abs_def] map_request_def [abs_def])
qed

interpretation resp: walker "walk_response e" "Engine_scan e" response_slots map_response for e
proof -
  have "walker (scan_choice e) (Engine_scan e)
      (\<lambda>v. slots_key ''message'' message_slots v @ slots_key ''text'' field_slots v)
      (\<lambda>f v. map_key ''text'' map_field f (map_key ''message'' map_message f v))"
    unfolding scan_choice_def by (rule walker_then_keys [OF walker_message walker_field]) simp
  then show "walker (walk_response e) (Engine_scan e) response_slots map_response"
    unfolding walk_response_def response_slots_def map_response_def
    by (intro walker_key walker_each)
qed

end
