(* ===== verification/Redact_Streaming.thy ===== *)
theory Redact_Streaming
  imports Redact_Payload
begin

text \<open>
  \<open>crates/governance-redact/src/streaming/mod.rs\<close>: redaction of a complete SSE completion stream, and
  the line classification and delta access that it shares with the incremental redactor.

  The parser and the printer of \<open>serde_json\<close> are the fields of the record \<open>json_codec\<close>. Where a hash
  map is iterated, the order is the parameter \<open>hord\<close>.
\<close>

section \<open>Lines\<close>

definition DONE :: string where
  "DONE = ''[DONE]''"

datatype content_field = Content | ToolCallArguments nat

type_synonym content_key = "nat \<times> content_field"

datatype line = L_Data nat | L_Passthrough string

datatype classified_line = CL_Data json | CL_Passthrough | CL_Opaque

definition classify_line :: "json_codec \<Rightarrow> string \<Rightarrow> classified_line" where
  "classify_line cd raw =
     (let trimmed = trim_end_matches (\<lambda>c. c = newline \<or> c = carriage_return) raw;
          payload = map_option str_trim (strip_prefix ''data:'' trimmed)
      in case payload of
           Some p \<Rightarrow>
             (if p \<noteq> DONE \<and> p \<noteq> []
              then (case from_str cd p of Inl _ \<Rightarrow> CL_Opaque | Inr v \<Rightarrow> CL_Data v)
              else CL_Passthrough)
         | None \<Rightarrow> CL_Passthrough)"

section \<open>Deltas\<close>

definition json_index :: "json \<Rightarrow> nat" where
  "json_index v = (case Option.bind (json_get ''index'' v) as_u64 of None \<Rightarrow> 0 | Some n \<Rightarrow> n)"

definition call_args :: "json \<Rightarrow> string option" where
  "call_args call =
     Option.bind (Option.bind (json_get ''function'' call) (json_get ''arguments'')) as_str_val"

definition call_contents :: "nat \<Rightarrow> json list \<Rightarrow> (content_key \<times> string) list" where
  "call_contents i calls =
     List.map_filter
       (\<lambda>call. map_option (\<lambda>args. ((i, ToolCallArguments (json_index call)), args)) (call_args call))
       calls"

definition choice_contents :: "json \<Rightarrow> (content_key \<times> string) list" where
  "choice_contents choice =
     (let i = json_index choice
      in case json_get ''delta'' choice of
           None \<Rightarrow> []
         | Some delta \<Rightarrow>
             (case Option.bind (json_get ''content'' delta) as_str_val of
                None \<Rightarrow> [] | Some content \<Rightarrow> [((i, Content), content)]) @
             (case Option.bind (json_get ''tool_calls'' delta) as_array of
                None \<Rightarrow> [] | Some calls \<Rightarrow> call_contents i calls))"

definition delta_contents :: "json \<Rightarrow> (content_key \<times> string) list" where
  "delta_contents chunk =
     (case Option.bind (json_get ''choices'' chunk) as_array of
        None \<Rightarrow> []
      | Some choices \<Rightarrow> concat (map choice_contents choices))"

text \<open>\<open>field_slot_mut\<close> returns a mutable reference. The model has its two uses: reading the slot, and
  writing it.\<close>

fun update_first :: "('a \<Rightarrow> bool) \<Rightarrow> ('a \<Rightarrow> 'a) \<Rightarrow> 'a list \<Rightarrow> 'a list" where
  "update_first P f [] = []"
| "update_first P f (x # xs) = (if P x then f x # xs else x # update_first P f xs)"

definition field_slot :: "json \<Rightarrow> content_field \<Rightarrow> json option" where
  "field_slot choice field =
     Option.bind (json_get ''delta'' choice) (\<lambda>delta.
       case field of
         Content \<Rightarrow> json_get ''content'' delta
       | ToolCallArguments ci \<Rightarrow>
           Option.bind (Option.bind (json_get ''tool_calls'' delta) as_array) (\<lambda>calls.
             Option.bind (find (\<lambda>c. json_index c = ci) calls) (\<lambda>call.
               Option.bind (json_get ''function'' call) (json_get ''arguments''))))"

definition put_args :: "json \<Rightarrow> json \<Rightarrow> json" where
  "put_args v call =
     (case json_get ''function'' call of
        None \<Rightarrow> call
      | Some fn \<Rightarrow> json_put ''function'' (json_put ''arguments'' v fn) call)"

definition set_field_slot :: "json \<Rightarrow> content_field \<Rightarrow> json \<Rightarrow> json" where
  "set_field_slot choice field v =
     (case json_get ''delta'' choice of
        None \<Rightarrow> choice
      | Some delta \<Rightarrow>
          json_put ''delta''
            (case field of
               Content \<Rightarrow> json_put ''content'' v delta
             | ToolCallArguments ci \<Rightarrow>
                 (case Option.bind (json_get ''tool_calls'' delta) as_array of
                    None \<Rightarrow> delta
                  | Some calls \<Rightarrow>
                      json_put ''tool_calls''
                        (JArray (update_first (\<lambda>c. json_index c = ci) (put_args v) calls)) delta))
            choice)"

text \<open>One key of the loop body of \<open>rewrite_deltas\<close>, the loop over a choice's keys, and the loop over
  the choices.\<close>

definition rewrite_key ::
  "(content_key, string) hmap \<Rightarrow> content_key \<Rightarrow> json \<times> (content_key, bool) hmap \<Rightarrow>
     json \<times> (content_key, bool) hmap" where
  "rewrite_key redacted key = (\<lambda>(choice, written).
     (case map_of redacted key of
        None \<Rightarrow> (choice, written)
      | Some replacement \<Rightarrow>
          (case field_slot choice (snd key) of
             None \<Rightarrow> (choice, written)
           | Some slot \<Rightarrow>
               (if \<not> is_string slot then (choice, written)
                else if map_of written key = Some True
                then (set_field_slot choice (snd key) (JString []), written)
                else (set_field_slot choice (snd key) (JString replacement),
                      AList.update key True written)))))"

definition rewrite_choice ::
  "(content_key list \<Rightarrow> content_key list) \<Rightarrow> (content_key, string) hmap \<Rightarrow>
     json \<Rightarrow> (content_key, bool) hmap \<Rightarrow> json \<times> (content_key, bool) hmap" where
  "rewrite_choice hord redacted choice written =
     (let keys = filter (\<lambda>k. fst k = json_index choice) (hord (hm_keys redacted))
      in fold (rewrite_key redacted) keys (choice, written))"

fun rewrite_choices ::
  "(content_key list \<Rightarrow> content_key list) \<Rightarrow> (content_key, string) hmap \<Rightarrow>
     json list \<Rightarrow> (content_key, bool) hmap \<Rightarrow> json list \<times> (content_key, bool) hmap" where
  "rewrite_choices hord redacted [] written = ([], written)"
| "rewrite_choices hord redacted (c # cs) written =
     (let (c', written') = rewrite_choice hord redacted c written;
          (cs', written'') = rewrite_choices hord redacted cs written'
      in (c' # cs', written''))"

definition rewrite_deltas ::
  "(content_key list \<Rightarrow> content_key list) \<Rightarrow> (content_key, string) hmap \<Rightarrow>
     json \<Rightarrow> (content_key, bool) hmap \<Rightarrow> json \<times> (content_key, bool) hmap" where
  "rewrite_deltas hord redacted chunk written =
     (case Option.bind (json_get ''choices'' chunk) as_array of
        None \<Rightarrow> (chunk, written)
      | Some choices \<Rightarrow>
          (let (choices', written') = rewrite_choices hord redacted choices written
           in (json_put ''choices'' (JArray choices') chunk, written')))"

fun rewrite_chunks ::
  "(content_key list \<Rightarrow> content_key list) \<Rightarrow> (content_key, string) hmap \<Rightarrow>
     json list \<Rightarrow> (content_key, bool) hmap \<Rightarrow> json list" where
  "rewrite_chunks hord redacted [] written = []"
| "rewrite_chunks hord redacted (c # cs) written =
     (let (c', written') = rewrite_deltas hord redacted c written
      in c' # rewrite_chunks hord redacted cs written')"

text \<open>\<open>set_delta_content\<close> writes into the first choice with the key's index, and answers whether it
  wrote.\<close>

fun set_choice_content :: "json list \<Rightarrow> content_key \<Rightarrow> string \<Rightarrow> json list \<times> bool" where
  "set_choice_content [] key text = ([], False)"
| "set_choice_content (c # cs) key text =
     (if json_index c \<noteq> fst key
      then (let (cs', did) = set_choice_content cs key text in (c # cs', did))
      else (case field_slot c (snd key) of
              None \<Rightarrow> (c # cs, False)
            | Some slot \<Rightarrow>
                (if is_string slot then (set_field_slot c (snd key) (JString text) # cs, True)
                 else (c # cs, False))))"

definition set_delta_content :: "json \<Rightarrow> content_key \<Rightarrow> string \<Rightarrow> json \<times> bool" where
  "set_delta_content chunk key text =
     (case Option.bind (json_get ''choices'' chunk) as_array of
        None \<Rightarrow> (chunk, False)
      | Some choices \<Rightarrow>
          (let (choices', did) = set_choice_content choices key text
           in (json_put ''choices'' (JArray choices') chunk, did)))"

section \<open>The buffered scan\<close>

record stream_outcome =
  so_body :: string
  so_report :: scan_report

fun sse_lines ::
  "json_codec \<Rightarrow> engine \<Rightarrow> string list \<Rightarrow> json list \<Rightarrow> line list \<Rightarrow> scan_report \<Rightarrow>
     error + json list \<times> line list \<times> scan_report" where
  "sse_lines cd e [] chunks lines r = Inr (chunks, lines, r)"
| "sse_lines cd e (raw # raws) chunks lines r =
     (case classify_line cd raw of
        CL_Data parsed \<Rightarrow>
          sse_lines cd e raws (chunks @ [parsed])
            (lines @ [L_Data (length (chunks @ [parsed]) - 1)]) r
      | CL_Passthrough \<Rightarrow> sse_lines cd e raws chunks (lines @ [L_Passthrough raw]) r
      | CL_Opaque \<Rightarrow>
          res_bind (Engine_scan e raw) (\<lambda>v.
            let (r', new) = merge_verdict r v;
                rewritten_line = (case new of Some t \<Rightarrow> t | None \<Rightarrow> raw)
            in sse_lines cd e raws chunks (lines @ [L_Passthrough rewritten_line]) r'))"

definition push_content ::
  "content_key \<times> string \<Rightarrow> (content_key, string) hmap \<Rightarrow> (content_key, string) hmap" where
  "push_content = (\<lambda>(key, content) m.
     AList.update key ((case map_of m key of None \<Rightarrow> [] | Some t \<Rightarrow> t) @ content) m)"

definition coalesce :: "json list \<Rightarrow> (content_key, string) hmap" where
  "coalesce chunks = fold (\<lambda>chunk m. fold push_content (delta_contents chunk) m) chunks []"

fun scan_coalesced ::
  "engine \<Rightarrow> (content_key, string) hmap \<Rightarrow> content_key list \<Rightarrow> (content_key, string) hmap \<Rightarrow>
     scan_report \<Rightarrow> error + (content_key, string) hmap \<times> scan_report" where
  "scan_coalesced e m [] redacted r = Inr (redacted, r)"
| "scan_coalesced e m (key # keys) redacted r =
     (case map_of m key of
        None \<Rightarrow> scan_coalesced e m keys redacted r
      | Some text \<Rightarrow>
          (if text = [] then scan_coalesced e m keys redacted r
           else res_bind (Engine_scan e text) (\<lambda>v.
             case merge_verdict r v of
               (r', Some new) \<Rightarrow> scan_coalesced e m keys (AList.update key new redacted) r'
             | (r', None) \<Rightarrow> scan_coalesced e m keys redacted r')))"

definition render_data :: "json_codec \<Rightarrow> json \<Rightarrow> string" where
  "render_data cd chunk = ''data: '' @ render cd chunk @ [newline]"

definition render_line :: "json_codec \<Rightarrow> json list \<Rightarrow> line \<Rightarrow> string" where
  "render_line cd chunks l =
     (case l of
        L_Passthrough raw \<Rightarrow> raw
      | L_Data i \<Rightarrow>
          (if i < length chunks then render_data cd (chunks ! i) else ''data: '' @ [newline]))"

definition scan_sse ::
  "(content_key list \<Rightarrow> content_key list) \<Rightarrow> json_codec \<Rightarrow> engine \<Rightarrow> string \<Rightarrow>
     error + stream_outcome" where
  "scan_sse hord cd e body =
     res_bind (sse_lines cd e (split_inclusive body) [] [] ScanReport_default)
       (\<lambda>(chunks, lines, r).
          let coalesced = coalesce chunks
          in res_bind (scan_coalesced e coalesced (hord (hm_keys coalesced)) [] r)
               (\<lambda>(redacted, r').
                  if ScanReport_is_blocked r' then Inr \<lparr>so_body = [], so_report = r'\<rparr>
                  else let chunks' = rewrite_chunks hord redacted chunks []
                       in Inr \<lparr>so_body = concat (map (render_line cd chunks') lines),
                               so_report = r'\<rparr>))"

section \<open>Well-shaped chunks\<close>

text \<open>
  A chunk in which no two choices share an index and no two tool calls of a choice share an index.
  Every slot then has its own key.
\<close>

definition choice_calls :: "json \<Rightarrow> json list" where
  "choice_calls choice =
     (case Option.bind (Option.bind (json_get ''delta'' choice) (json_get ''tool_calls'')) as_array of
        None \<Rightarrow> [] | Some calls \<Rightarrow> calls)"

definition chunk_choices :: "json \<Rightarrow> json list" where
  "chunk_choices chunk =
     (case Option.bind (json_get ''choices'' chunk) as_array of None \<Rightarrow> [] | Some cs \<Rightarrow> cs)"

definition choice_ok :: "json \<Rightarrow> bool" where
  "choice_ok choice \<longleftrightarrow> distinct (map json_index (choice_calls choice))"

definition chunk_ok :: "json \<Rightarrow> bool" where
  "chunk_ok chunk \<longleftrightarrow>
     distinct (map json_index (chunk_choices chunk)) \<and>
     list_all choice_ok (chunk_choices chunk)"

definition set_key :: "content_key \<Rightarrow> string \<Rightarrow> (content_key \<times> string) list \<Rightarrow> (content_key \<times> string) list" where
  "set_key key t = map (\<lambda>(k, x). (k, if k = key then t else x))"

lemma fst_set_key [simp]: "map fst (set_key key t xs) = map fst xs"
  by (induction xs) (auto simp: set_key_def)

lemma set_key_absent: "key \<notin> fst ` set xs \<Longrightarrow> set_key key t xs = xs"
  by (induction xs) (auto simp: set_key_def)

lemma set_key_append: "set_key key t (xs @ ys) = set_key key t xs @ set_key key t ys"
  by (simp add: set_key_def)

lemma set_key_simps [simp]:
  "set_key key t [] = []"
  "set_key key t ((k, x) # xs) = (k, if k = key then t else x) # set_key key t xs"
  by (simp_all add: set_key_def)

lemma json_index_put: "k \<noteq> ''index'' \<Longrightarrow> json_index (json_put k c v) = json_index v"
  by (simp add: json_index_def json_get_put_other)

lemma put_args_index [simp]: "json_index (put_args v call) = json_index call"
  by (simp add: put_args_def json_index_put split: option.split)

lemma put_args_args:
  "Option.bind (json_get ''function'' call) (json_get ''arguments'') \<noteq> None \<Longrightarrow>
     call_args (put_args (JString t) call) = Some t"
  by (cases "json_get ''function'' call") (auto simp: call_args_def put_args_def json_get_put_same)

lemma choice_contents_keys: "(k, x) \<in> set (choice_contents choice) \<Longrightarrow> fst k = json_index choice"
  by (auto simp: choice_contents_def call_contents_def map_filter_def Let_def split: option.splits)

lemma map_index_update_first:
  "(\<And>x. json_index (f x) = json_index x) \<Longrightarrow>
     map json_index (update_first P f xs) = map json_index xs"
  by (induction xs) auto

lemma call_contents_Cons:
  "call_contents i (c # cs) =
     (case call_args c of None \<Rightarrow> [] | Some a \<Rightarrow> [((i, ToolCallArguments (json_index c)), a)]) @
     call_contents i cs"
  by (simp add: call_contents_def map_filter_simps split: option.split)

lemma call_contents_keys: "k \<in> fst ` set (call_contents i cs) \<Longrightarrow>
    \<exists>c \<in> set cs. k = (i, ToolCallArguments (json_index c))"
  by (force simp: call_contents_def map_filter_def)

text \<open>Writing the arguments of the first call with an index changes exactly the contribution under
  its key.\<close>

lemma call_contents_update_first:
  assumes "distinct (map json_index calls)"
    and "find (\<lambda>c. json_index c = ci) calls = Some call" and "call_args call \<noteq> None"
  shows "call_contents i (update_first (\<lambda>c. json_index c = ci) (put_args (JString t)) calls) =
    set_key (i, ToolCallArguments ci) t (call_contents i calls)"
  using assms
proof (induction calls)
  case (Cons c cs)
  show ?case
  proof (cases "json_index c = ci")
    case True
    with Cons.prems have call: "call = c" by simp
    have "(i, ToolCallArguments ci) \<notin> fst ` set (call_contents i cs)"
      using Cons.prems(1) True by (auto dest!: call_contents_keys)
    moreover have "call_args (put_args (JString t) c) = Some t"
      using Cons.prems(3) call
      by (intro put_args_args) (auto simp: call_args_def split: Option.bind_splits)
    ultimately show ?thesis
      using True Cons.prems(3) call
      by (auto simp: call_contents_Cons set_key_append set_key_absent)
  next
    case False
    with Cons show ?thesis
      by (auto simp: call_contents_Cons set_key_append split: option.splits)
  qed
qed simp

lemma find_distinct_index:
  "distinct (map json_index cs) \<Longrightarrow> c \<in> set cs \<Longrightarrow>
     find (\<lambda>x. json_index x = json_index c) cs = Some c"
  by (induction cs) (auto simp: image_iff)

lemma call_contents_iff:
  assumes "distinct (map json_index calls)"
  shows "(i, ToolCallArguments ci) \<in> fst ` set (call_contents i calls) \<longleftrightarrow>
    (\<exists>call s. find (\<lambda>c. json_index c = ci) calls = Some call \<and> call_args call = Some s)"
proof
  assume "(i, ToolCallArguments ci) \<in> fst ` set (call_contents i calls)"
  then obtain call s where "call \<in> set calls" "json_index call = ci" "call_args call = Some s"
    by (force simp: call_contents_def map_filter_def)
  with find_distinct_index [OF assms]
  show "\<exists>call s. find (\<lambda>c. json_index c = ci) calls = Some call \<and> call_args call = Some s"
    by blast
next
  assume "\<exists>call s. find (\<lambda>c. json_index c = ci) calls = Some call \<and> call_args call = Some s"
  then obtain call s where "call \<in> set calls" "json_index call = ci" "call_args call = Some s"
    by (auto simp: find_Some_iff intro: nth_mem)
  then show "(i, ToolCallArguments ci) \<in> fst ` set (call_contents i calls)"
    by (force simp: call_contents_def map_filter_def)
qed

lemma no_content_key_in_calls: "(i, Content) \<notin> fst ` set (call_contents j cs)"
  by (auto dest!: call_contents_keys)

lemma no_content_entry_in_calls [simp]: "((i, Content), x) \<notin> set (call_contents j cs)"
  using no_content_key_in_calls [of i j cs] by force

text \<open>A key contributes text exactly when its slot holds a string.\<close>

lemma choice_contents_iff:
  assumes "choice_ok choice"
  shows "(json_index choice, field) \<in> fst ` set (choice_contents choice) \<longleftrightarrow>
    (\<exists>s. field_slot choice field = Some (JString s))"
proof (cases "json_get ''delta'' choice")
  case (Some delta)
  show ?thesis
  proof (cases field)
    case Content
    with Some show ?thesis
      by (cases "json_get ''content'' delta";
          cases "Option.bind (json_get ''tool_calls'' delta) as_array")
        (auto simp: choice_contents_def field_slot_def as_str_val_def Let_def image_iff
          split: json.splits)
  next
    case (ToolCallArguments ci)
    show ?thesis
    proof (cases "Option.bind (json_get ''tool_calls'' delta) as_array")
      case None
      with Some ToolCallArguments show ?thesis
        by (cases "json_get ''tool_calls'' delta")
          (auto simp: choice_contents_def field_slot_def split: option.splits)
    next
      case (Some calls)
      with \<open>json_get ''delta'' choice = Some delta\<close> assms
      have d: "distinct (map json_index calls)" by (simp add: choice_ok_def choice_calls_def)
      with Some \<open>json_get ''delta'' choice = Some delta\<close> ToolCallArguments
      show ?thesis
        using call_contents_iff [OF d, of "json_index choice" ci]
        by (auto simp: choice_contents_def field_slot_def call_args_def as_str_val_Some image_Un
            Let_def bind_eq_Some_conv split: option.splits)
    qed
  qed
qed (simp add: choice_contents_def field_slot_def)

lemma choice_contents_set:
  assumes "choice_ok choice" and "field_slot choice field = Some (JString s)"
  shows "choice_contents (set_field_slot choice field (JString t)) =
    set_key (json_index choice, field) t (choice_contents choice)"
proof -
  from assms(2) obtain delta where delta: "json_get ''delta'' choice = Some delta"
    by (auto simp: field_slot_def bind_eq_Some_conv)
  show ?thesis
  proof (cases field)
    case Content
    with assms(2) delta have "json_get ''content'' delta = Some (JString s)"
      by (simp add: field_slot_def)
    with Content delta show ?thesis
      using no_content_key_in_calls
      by (auto simp: choice_contents_def set_field_slot_def json_get_put_same json_get_put_other
          json_index_put set_key_absent Let_def split: option.split)
  next
    case (ToolCallArguments ci)
    with assms(2) delta obtain calls call where calls: "json_get ''tool_calls'' delta = Some (JArray calls)"
      and call: "find (\<lambda>c. json_index c = ci) calls = Some call" "call_args call \<noteq> None"
      by (auto simp: field_slot_def bind_eq_Some_conv as_array_Some call_args_def)
    from assms(1) delta calls have "distinct (map json_index calls)"
      by (simp add: choice_ok_def choice_calls_def)
    from call_contents_update_first [OF this call] ToolCallArguments delta calls show ?thesis
      by (auto simp: choice_contents_def set_field_slot_def json_get_put_same json_get_put_other
          json_index_put set_key_append Let_def split: option.split)
  qed
qed

lemma json_index_set_field [simp]: "json_index (set_field_slot c f v) = json_index c"
  by (simp add: set_field_slot_def json_index_put split: option.split)

lemma choice_ok_set_field:
  assumes "choice_ok c" and "field_slot c f \<noteq> None"
  shows "choice_ok (set_field_slot c f v)"
proof (cases f)
  case Content
  with assms show ?thesis
    by (auto simp: choice_ok_def choice_calls_def set_field_slot_def field_slot_def
        json_get_put_same json_get_put_other bind_eq_Some_conv split: option.splits)
next
  case (ToolCallArguments ci)
  with assms show ?thesis
    by (auto simp: choice_ok_def choice_calls_def set_field_slot_def field_slot_def as_array_Some
        json_get_put_same map_index_update_first bind_eq_Some_conv split: option.splits)
qed

section \<open>The rewrite replaces each key's text once\<close>

text \<open>\<open>rw redacted W K\<close> is what the rewrite does to one contribution: for a key of \<open>K\<close> with a
  replacement, the replacement the first time and the empty string afterwards.\<close>

definition rw ::
  "(content_key \<rightharpoonup> string) \<Rightarrow> (content_key \<Rightarrow> bool) \<Rightarrow> content_key set \<Rightarrow>
     content_key \<times> string \<Rightarrow> content_key \<times> string" where
  "rw red W K = (\<lambda>(k, x). (k, if k \<in> K then (case red k of None \<Rightarrow> x | Some r \<Rightarrow> if W k then [] else r) else x))"

definition done_keys :: "(content_key, bool) hmap \<Rightarrow> content_key \<Rightarrow> bool" where
  "done_keys written k \<longleftrightarrow> map_of written k = Some True"

lemma fst_rw [simp]: "fst (rw red W K p) = fst p"
  by (cases p) (simp add: rw_def)

lemma keys_rw [simp]: "fst ` set (map (rw red W K) xs) = fst ` set xs"
  by (simp add: image_image)

lemma rw_absent: "(\<And>k. k \<in> fst ` set xs \<Longrightarrow> k \<in> K \<Longrightarrow> red k = None) \<Longrightarrow> map (rw red W K) xs = xs"
  by (induction xs) (auto simp: rw_def split: option.splits)

lemma set_key_rw: "red key = Some r \<Longrightarrow> set_key key (if W key then [] else r) xs = map (rw red W {key}) xs"
  by (induction xs) (auto simp: rw_def)

lemma rewrite_key_spec:
  assumes "choice_ok c" and "fst key = json_index c" and "rewrite_key red key (c, w) = (c', w')"
  shows "choice_ok c' \<and> json_index c' = json_index c \<and>
    choice_contents c' = map (rw (map_of red) (done_keys w) {key}) (choice_contents c) \<and>
    done_keys w' = (\<lambda>k. done_keys w k \<or>
      (k = key \<and> map_of red k \<noteq> None \<and> k \<in> fst ` set (choice_contents c)))"
proof (cases "\<exists>r s. map_of red key = Some r \<and> field_slot c (snd key) = Some (JString s)")
  case True
  then obtain r s where r: "map_of red key = Some r" and s: "field_slot c (snd key) = Some (JString s)"
    by blast
  have key: "key = (json_index c, snd key)" using assms(2) by (cases key) simp
  have mem: "key \<in> fst ` set (choice_contents c)"
    using choice_contents_iff [OF assms(1), of "snd key"] s key by auto
  have c': "c' = set_field_slot c (snd key) (JString (if done_keys w key then [] else r))"
    and w': "w' = (if done_keys w key then w else AList.update key True w)"
    using assms(3) r s by (auto simp: rewrite_key_def done_keys_def split: if_splits)
  have "choice_contents c' = map (rw (map_of red) (done_keys w) {key}) (choice_contents c)"
    using choice_contents_set [OF assms(1) s, of "if done_keys w key then [] else r"] c' key
      set_key_rw [of "map_of red" key r "done_keys w" "choice_contents c", OF r] by simp
  moreover have "choice_ok c'" using choice_ok_set_field [OF assms(1)] s c' by simp
  moreover have "done_keys w' = (\<lambda>k. done_keys w k \<or>
      (k = key \<and> map_of red k \<noteq> None \<and> k \<in> fst ` set (choice_contents c)))"
    using w' r mem by (auto simp: done_keys_def fun_eq_iff update_conv')
  ultimately show ?thesis using c' by simp
next
  case False
  then have same: "c' = c" "w' = w"
    using assms(3) by (auto simp: rewrite_key_def is_string_iff split: option.splits if_splits)
  have "map_of red key = None \<or> key \<notin> fst ` set (choice_contents c)"
    using False choice_contents_iff [OF assms(1), of "snd key"] assms(2) by (cases key) auto
  with same show ?thesis
    using assms(1) by (auto intro!: rw_absent [symmetric] simp: fun_eq_iff)
qed

lemma rw_rw:
  assumes "key \<notin> K" and "\<And>k. k \<noteq> key \<Longrightarrow> W' k = W k"
  shows "map (rw red W' K) (map (rw red W {key}) xs) = map (rw red W (insert key K)) xs"
  using assms by (auto simp: rw_def split: option.splits)

lemma fold_rewrite_key_spec:
  assumes "distinct ks" and "\<forall>k \<in> set ks. fst k = json_index c" and "choice_ok c"
    and "fold (rewrite_key red) ks (c, w) = (c', w')"
  shows "choice_ok c' \<and> json_index c' = json_index c \<and>
    choice_contents c' = map (rw (map_of red) (done_keys w) (set ks)) (choice_contents c) \<and>
    done_keys w' = (\<lambda>k. done_keys w k \<or>
      (k \<in> set ks \<and> map_of red k \<noteq> None \<and> k \<in> fst ` set (choice_contents c)))"
  using assms
proof (induction ks arbitrary: c w)
  case Nil
  then show ?case by (simp add: rw_def map_idI)
next
  case (Cons key ks)
  obtain c1 w1 where s1: "rewrite_key red key (c, w) = (c1, w1)" by fastforce
  have s: "choice_ok c1" "json_index c1 = json_index c"
    "choice_contents c1 = map (rw (map_of red) (done_keys w) {key}) (choice_contents c)"
    "done_keys w1 = (\<lambda>k. done_keys w k \<or>
      (k = key \<and> map_of red k \<noteq> None \<and> k \<in> fst ` set (choice_contents c)))"
    using rewrite_key_spec [OF Cons.prems(3) _ s1] Cons.prems(2) by simp_all
  from Cons.prems have IH: "choice_ok c'" "json_index c' = json_index c1"
    "choice_contents c' = map (rw (map_of red) (done_keys w1) (set ks)) (choice_contents c1)"
    "done_keys w' = (\<lambda>k. done_keys w1 k \<or>
      (k \<in> set ks \<and> map_of red k \<noteq> None \<and> k \<in> fst ` set (choice_contents c1)))"
    using Cons.IH [of c1 w1] s s1 by simp_all
  have k1: "fst ` set (choice_contents c1) = fst ` set (choice_contents c)" by (simp only: s(3) keys_rw)
  have "choice_contents c' = map (rw (map_of red) (done_keys w) (set (key # ks))) (choice_contents c)"
    unfolding IH(3) s(3)
    using rw_rw [of key "set ks" "done_keys w1" "done_keys w"] Cons.prems(1) s(4) by simp
  moreover have "done_keys w' = (\<lambda>k. done_keys w k \<or>
      (k \<in> set (key # ks) \<and> map_of red k \<noteq> None \<and> k \<in> fst ` set (choice_contents c)))"
    unfolding IH(4) s(4) k1 by (rule ext) auto
  ultimately show ?case using IH(1,2) s(2) by (intro conjI) simp_all
qed

lemma choice_keys_index: "k \<in> fst ` set (choice_contents c) \<Longrightarrow> fst k = json_index c"
  by (auto dest: choice_contents_keys)

lemma rw_cong:
  "(\<And>k. k \<in> fst ` set xs \<Longrightarrow> red k \<noteq> None \<Longrightarrow> (k \<in> K \<longleftrightarrow> k \<in> K') \<and> W k = W' k) \<Longrightarrow>
     map (rw red W K) xs = map (rw red W' K') xs"
  by (induction xs) (auto simp: rw_def split: option.splits)

lemma rewrite_choice_spec:
  assumes "visits_each_key_once hord" and "distinct (hm_keys red)" and "choice_ok c"
    and "rewrite_choice hord red c w = (c', w')"
  shows "choice_ok c' \<and> json_index c' = json_index c \<and>
    choice_contents c' = map (rw (map_of red) (done_keys w) UNIV) (choice_contents c) \<and>
    done_keys w' = (\<lambda>k. done_keys w k \<or>
      (map_of red k \<noteq> None \<and> k \<in> fst ` set (choice_contents c)))"
proof -
  define ks where "ks = filter (\<lambda>k. fst k = json_index c) (hord (hm_keys red))"
  have perm: "mset (hord (hm_keys red)) = mset (hm_keys red)"
    using assms(1) by (simp add: visits_each_key_once_def)
  have d: "distinct ks"
    unfolding ks_def using assms(2) mset_eq_imp_distinct_iff [OF perm] by simp
  have in_ks: "k \<in> set ks \<longleftrightarrow> fst k = json_index c \<and> map_of red k \<noteq> None" for k
    unfolding ks_def using mset_eq_setD [OF perm] hm.keys_get [of _ red] by auto
  have f: "fold (rewrite_key red) ks (c, w) = (c', w')"
    using assms(4) by (simp add: rewrite_choice_def ks_def)
  have spec: "choice_ok c' \<and> json_index c' = json_index c \<and>
    choice_contents c' = map (rw (map_of red) (done_keys w) (set ks)) (choice_contents c) \<and>
    done_keys w' = (\<lambda>k. done_keys w k \<or>
      (k \<in> set ks \<and> map_of red k \<noteq> None \<and> k \<in> fst ` set (choice_contents c)))"
    using fold_rewrite_key_spec [OF d _ assms(3) f] in_ks by blast
  moreover have "map (rw (map_of red) (done_keys w) (set ks)) (choice_contents c) =
      map (rw (map_of red) (done_keys w) UNIV) (choice_contents c)"
    by (rule rw_cong) (use in_ks choice_keys_index in blast)
  moreover have "k \<in> set ks \<and> map_of red k \<noteq> None \<and> k \<in> fst ` set (choice_contents c) \<longleftrightarrow>
      map_of red k \<noteq> None \<and> k \<in> fst ` set (choice_contents c)" for k
    using in_ks choice_keys_index by blast
  ultimately show ?thesis by simp
qed

definition choices_contents :: "json list \<Rightarrow> (content_key \<times> string) list" where
  "choices_contents cs = concat (map choice_contents cs)"

lemma choices_contents_simps [simp]:
  "choices_contents [] = []"
  "choices_contents (c # cs) = choice_contents c @ choices_contents cs"
  by (simp_all add: choices_contents_def)

lemma choices_keys_index: "k \<in> fst ` set (choices_contents cs) \<Longrightarrow> fst k \<in> json_index ` set cs"
  by (induction cs) (auto dest: choice_contents_keys)

lemma choice_keys_apart:
  assumes "json_index c \<notin> json_index ` set cs" and "k \<in> fst ` set (choices_contents cs)"
  shows "k \<notin> fst ` set (choice_contents c)"
proof
  assume "k \<in> fst ` set (choice_contents c)"
  from choice_keys_index [OF this] choices_keys_index [OF assms(2)] assms(1) show False by simp
qed

lemma rewrite_choices_spec:
  assumes "visits_each_key_once hord" and "distinct (hm_keys red)" and "list_all choice_ok cs"
    and "distinct (map json_index cs)" and "rewrite_choices hord red cs w = (cs', w')"
  shows "list_all choice_ok cs' \<and> map json_index cs' = map json_index cs \<and>
    choices_contents cs' = map (rw (map_of red) (done_keys w) UNIV) (choices_contents cs) \<and>
    done_keys w' = (\<lambda>k. done_keys w k \<or>
      (map_of red k \<noteq> None \<and> k \<in> fst ` set (choices_contents cs)))"
  using assms(3-)
proof (induction cs arbitrary: w cs')
  case (Cons c cs)
  obtain c1 w1 where r1: "rewrite_choice hord red c w = (c1, w1)" by fastforce
  obtain cs1 w2 where r2: "rewrite_choices hord red cs w1 = (cs1, w2)" by fastforce
  have eq: "cs' = c1 # cs1" "w' = w2" using Cons.prems(3) r1 r2 by simp_all
  have s1: "choice_ok c1" "json_index c1 = json_index c"
    "choice_contents c1 = map (rw (map_of red) (done_keys w) UNIV) (choice_contents c)"
    "done_keys w1 = (\<lambda>k. done_keys w k \<or>
      (map_of red k \<noteq> None \<and> k \<in> fst ` set (choice_contents c)))"
    using rewrite_choice_spec [OF assms(1,2) _ r1] Cons.prems(1) by simp_all
  have s2: "list_all choice_ok cs1" "map json_index cs1 = map json_index cs"
    "choices_contents cs1 = map (rw (map_of red) (done_keys w1) UNIV) (choices_contents cs)"
    "done_keys w2 = (\<lambda>k. done_keys w1 k \<or>
      (map_of red k \<noteq> None \<and> k \<in> fst ` set (choices_contents cs)))"
    using Cons.IH [OF _ _ r2 [folded eq(2)]] Cons.prems(1,2) eq by simp_all
  have apart: "k \<in> fst ` set (choices_contents cs) \<Longrightarrow> k \<notin> fst ` set (choice_contents c)" for k
    using Cons.prems(2) choice_keys_apart [of c cs k] by simp
  have "map (rw (map_of red) (done_keys w1) UNIV) (choices_contents cs) =
      map (rw (map_of red) (done_keys w) UNIV) (choices_contents cs)"
    by (rule rw_cong) (use apart s1(4) in auto)
  with s1 s2 eq show ?case by (auto simp: fun_eq_iff image_Un)
qed simp

lemma delta_contents_choices: "delta_contents chunk = choices_contents (chunk_choices chunk)"
  by (simp add: delta_contents_def chunk_choices_def choices_contents_def split: option.split)

lemma chunk_choices_put:
  "Option.bind (json_get ''choices'' chunk) as_array = Some cs \<Longrightarrow>
     chunk_choices (json_put ''choices'' (JArray cs') chunk) = cs'"
  by (auto simp: chunk_choices_def bind_eq_Some_conv json_get_put_same)

lemma rewrite_deltas_spec:
  assumes "visits_each_key_once hord" and "distinct (hm_keys red)" and "chunk_ok chunk"
    and "rewrite_deltas hord red chunk w = (chunk', w')"
  shows "chunk_ok chunk' \<and>
    delta_contents chunk' = map (rw (map_of red) (done_keys w) UNIV) (delta_contents chunk) \<and>
    done_keys w' = (\<lambda>k. done_keys w k \<or>
      (map_of red k \<noteq> None \<and> k \<in> fst ` set (delta_contents chunk)))"
proof (cases "Option.bind (json_get ''choices'' chunk) as_array")
  case None
  with assms(3,4) show ?thesis by (simp add: rewrite_deltas_def delta_contents_def)
next
  case (Some cs)
  then have cs: "chunk_choices chunk = cs" by (simp add: chunk_choices_def)
  obtain cs' w1 where r: "rewrite_choices hord red cs w = (cs', w1)" by fastforce
  with assms(4) Some have eq: "chunk' = json_put ''choices'' (JArray cs') chunk" "w' = w1"
    by (simp_all add: rewrite_deltas_def)
  have cs': "chunk_choices chunk' = cs'" unfolding eq by (rule chunk_choices_put [OF Some])
  show ?thesis
    using rewrite_choices_spec [OF assms(1,2) _ _ r] assms(3) cs cs' eq(2)
    by (simp add: chunk_ok_def delta_contents_choices)
qed

text \<open>\<open>set_delta_content\<close> replaces the contribution under its key and nothing else.\<close>

lemma set_choice_content_spec:
  assumes "list_all choice_ok cs" and "distinct (map json_index cs)"
    and "key \<in> fst ` set (choices_contents cs)" and "set_choice_content cs key t = (cs', did)"
  shows "list_all choice_ok cs' \<and> map json_index cs' = map json_index cs \<and> did \<and>
    choices_contents cs' = set_key key t (choices_contents cs)"
  using assms
proof (induction cs arbitrary: cs' did)
  case (Cons c cs)
  show ?case
  proof (cases "json_index c = fst key")
    case False
    obtain cs1 did1 where r: "set_choice_content cs key t = (cs1, did1)" by fastforce
    with False Cons.prems(4) have eq: "cs' = c # cs1" "did = did1" by simp_all
    have absent: "key \<notin> fst ` set (choice_contents c)"
      using False choice_keys_index [of key c] by auto
    then have "key \<in> fst ` set (choices_contents cs)"
      using Cons.prems(3) by (simp add: image_Un)
    with Cons.IH [OF _ _ _ r] Cons.prems eq absent show ?thesis
      by (simp add: set_key_append set_key_absent)
  next
    case True
    have "key \<notin> fst ` set (choices_contents cs)"
      using choices_keys_index [of key cs] True Cons.prems(2) by auto
    moreover from this have "key \<in> fst ` set (choice_contents c)"
      using Cons.prems(3) by (simp add: image_Un)
    moreover from this obtain s where "field_slot c (snd key) = Some (JString s)"
      using choice_contents_iff [of c "snd key"] True Cons.prems(1) by (cases key) auto
    ultimately show ?thesis
      using True Cons.prems choice_contents_set [of c "snd key" s t] choice_ok_set_field [of c "snd key"]
      by (cases key) (auto simp: set_key_append set_key_absent)
  qed
qed simp

lemma set_delta_content_spec:
  assumes "chunk_ok chunk" and "key \<in> fst ` set (delta_contents chunk)"
  shows "delta_contents (fst (set_delta_content chunk key t)) = set_key key t (delta_contents chunk)"
    and "chunk_ok (fst (set_delta_content chunk key t))"
    and "snd (set_delta_content chunk key t)"
proof -
  from assms(2) obtain cs where cs: "Option.bind (json_get ''choices'' chunk) as_array = Some cs"
    by (cases "Option.bind (json_get ''choices'' chunk) as_array") (auto simp: delta_contents_def)
  then have cc: "chunk_choices chunk = cs" by (simp add: chunk_choices_def)
  obtain cs' did where r: "set_choice_content cs key t = (cs', did)" by fastforce
  have spec: "list_all choice_ok cs' \<and> map json_index cs' = map json_index cs \<and> did \<and>
    choices_contents cs' = set_key key t (choices_contents cs)"
    using set_choice_content_spec [OF _ _ _ r] assms cc by (simp add: chunk_ok_def delta_contents_choices)
  have eq: "set_delta_content chunk key t = (json_put ''choices'' (JArray cs') chunk, did)"
    using cs r by (simp add: set_delta_content_def)
  have "chunk_choices (fst (set_delta_content chunk key t)) = cs'"
    unfolding eq by (simp add: chunk_choices_put [OF cs])
  with spec eq cc assms(1) show "delta_contents (fst (set_delta_content chunk key t)) =
      set_key key t (delta_contents chunk)"
    and "chunk_ok (fst (set_delta_content chunk key t))" and "snd (set_delta_content chunk key t)"
    by (simp_all add: chunk_ok_def delta_contents_choices)
qed

text \<open>The text a list of contributions holds for a key.\<close>

definition text_of :: "content_key \<Rightarrow> (content_key \<times> string) list \<Rightarrow> string" where
  "text_of k xs = concat (map snd (filter (\<lambda>p. fst p = k) xs))"

definition stream_contents :: "json list \<Rightarrow> (content_key \<times> string) list" where
  "stream_contents chunks = concat (map delta_contents chunks)"

lemma text_of_simps [simp]:
  "text_of k [] = []"
  "text_of k ((k', x) # xs) = (if k' = k then x else []) @ text_of k xs"
  "text_of k (xs @ ys) = text_of k xs @ text_of k ys"
  by (simp_all add: text_of_def)

lemma stream_contents_simps [simp]:
  "stream_contents [] = []"
  "stream_contents (c # cs) = delta_contents c @ stream_contents cs"
  by (simp_all add: stream_contents_def)

lemma text_of_absent: "k \<notin> fst ` set xs \<Longrightarrow> text_of k xs = []"
  by (induction xs) auto

lemma distinct_call_contents:
  "distinct (map json_index cs) \<Longrightarrow> distinct (map fst (call_contents i cs))"
proof (induction cs)
  case (Cons c cs)
  have "(i, ToolCallArguments (json_index c)) \<notin> fst ` set (call_contents i cs)"
    using Cons.prems by (auto dest!: call_contents_keys)
  with Cons show ?case by (simp add: call_contents_Cons split: option.split)
qed (simp add: call_contents_def map_filter_simps)

lemma distinct_choice_contents: "choice_ok c \<Longrightarrow> distinct (map fst (choice_contents c))"
  by (auto simp: choice_contents_def choice_ok_def choice_calls_def Let_def
      no_content_key_in_calls distinct_call_contents split: option.splits)

lemma distinct_choices_contents:
  "list_all choice_ok cs \<Longrightarrow> distinct (map json_index cs) \<Longrightarrow>
     distinct (map fst (choices_contents cs))"
proof (induction cs)
  case (Cons c cs)
  then have "k \<in> fst ` set (choices_contents cs) \<Longrightarrow> k \<notin> fst ` set (choice_contents c)" for k
    using choice_keys_apart [of c cs k] by simp
  with Cons show ?case by (auto simp: distinct_choice_contents)
qed simp

lemma distinct_delta_contents: "chunk_ok c \<Longrightarrow> distinct (map fst (delta_contents c))"
  by (simp add: chunk_ok_def delta_contents_choices distinct_choices_contents)

lemma text_of_rw:
  assumes "distinct (map fst xs)"
  shows "text_of k (map (rw red W UNIV) xs) =
    (case red k of None \<Rightarrow> text_of k xs
     | Some r \<Rightarrow> if k \<in> fst ` set xs \<and> \<not> W k then r else [])"
  using assms
proof (induction xs)
  case (Cons p xs)
  then show ?case
    by (cases p) (auto simp: rw_def text_of_absent split: option.splits)
qed (simp split: option.split)

text \<open>Across the chunks of a stream, a key with a replacement carries the replacement exactly once,
  and a key without one keeps its text.\<close>

lemma rewrite_chunks_text:
  assumes "visits_each_key_once hord" and "distinct (hm_keys red)" and "list_all chunk_ok chunks"
  shows "text_of k (stream_contents (rewrite_chunks hord red chunks w)) =
    (case map_of red k of None \<Rightarrow> text_of k (stream_contents chunks)
     | Some r \<Rightarrow> if k \<in> fst ` set (stream_contents chunks) \<and> \<not> done_keys w k then r else [])"
  using assms(3)
proof (induction chunks arbitrary: w)
  case (Cons c cs)
  obtain c' w' where r: "rewrite_deltas hord red c w = (c', w')" by fastforce
  have ok: "chunk_ok c" using Cons.prems by simp
  note d = rewrite_deltas_spec [OF assms(1,2) ok r]
  have "text_of k (delta_contents c') =
      (case map_of red k of None \<Rightarrow> text_of k (delta_contents c)
       | Some r \<Rightarrow> if k \<in> fst ` set (delta_contents c) \<and> \<not> done_keys w k then r else [])"
    using d text_of_rw [OF distinct_delta_contents [OF ok]] by simp
  with Cons r d show ?case by (auto split: option.split)
qed (simp split: option.split)

lemma rewrite_chunks_length: "length (rewrite_chunks hord red chunks w) = length chunks"
  by (induction chunks arbitrary: w) (auto simp: case_prod_beta)

section \<open>Coalescing\<close>

lemma fold_push_content:
  "map_of (fold push_content xs m) k =
     (if k \<in> fst ` set xs \<or> map_of m k \<noteq> None
      then Some ((case map_of m k of None \<Rightarrow> [] | Some t \<Rightarrow> t) @ text_of k xs) else None)"
proof (induction xs arbitrary: m)
  case (Cons p xs)
  then show ?case by (cases p) (auto simp: push_content_def update_conv' split: option.splits)
qed (auto split: option.split)

lemma coalesce_fold: "coalesce chunks = fold push_content (stream_contents chunks) []"
proof -
  have "fold (\<lambda>chunk m. fold push_content (delta_contents chunk) m) chunks m =
      fold push_content (stream_contents chunks) m" for m
    by (induction chunks arbitrary: m) simp_all
  then show ?thesis by (simp add: coalesce_def)
qed

lemma coalesce_lookup:
  "map_of (coalesce chunks) k =
     (if k \<in> fst ` set (stream_contents chunks)
      then Some (text_of k (stream_contents chunks)) else None)"
  by (simp add: coalesce_fold fold_push_content)

lemma distinct_fold_push: "distinct (hm_keys m) \<Longrightarrow> distinct (hm_keys (fold push_content xs m))"
  by (induction xs arbitrary: m) (auto simp: push_content_def case_prod_beta)

lemma distinct_coalesce: "distinct (hm_keys (coalesce chunks))"
  by (simp add: coalesce_fold) (rule distinct_fold_push, simp add: hm_keys_def)

text \<open>What the scan of the coalesced texts collects: a replacement for every non-empty text the
  engine rewrites, and a blocked report as soon as one of them is blocked.\<close>

definition replacement :: "engine \<Rightarrow> string \<Rightarrow> string option" where
  "replacement e t =
     (if t = [] then None
      else case Engine_scan e t of Inr (Redacted u n) \<Rightarrow> Some u | _ \<Rightarrow> None)"

definition blocks :: "engine \<Rightarrow> string \<Rightarrow> bool" where
  "blocks e t \<longleftrightarrow> (\<exists>es. Engine_scan e t = Inr (Blocked es))"

lemma blocks_code [code]:
  "blocks e t = (case Engine_scan e t of Inr v \<Rightarrow> (case v of Blocked _ \<Rightarrow> True | _ \<Rightarrow> False) | Inl _ \<Rightarrow> False)"
  by (auto simp: blocks_def split: sum.split verdict.split)

lemma replacement_empty [simp]: "replacement e [] = None"
  by (simp add: replacement_def)

lemma blocks_empty [simp]: "\<not> blocks e []"
  by (simp add: blocks_def eng.scan_empty)

lemma Engine_scan_Blocked_nonempty: "Engine_scan e t = Inr (Blocked es) \<Longrightarrow> es \<noteq> []"
  by (auto simp: eng.scan_Blocked_iff)

lemma merge_verdict_scanned:
  assumes "Engine_scan e t = Inr v" and "t \<noteq> []"
  shows "snd (merge_verdict r v) = replacement e t"
    "ScanReport_is_blocked (fst (merge_verdict r v)) \<longleftrightarrow> ScanReport_is_blocked r \<or> blocks e t"
  using assms Engine_scan_Blocked_nonempty [of e t]
  by (auto simp: merge_verdict_def replacement_def ScanReport_is_blocked_def blocks_def Let_def
      split: verdict.splits)

lemma rewritten_replacement:
  "rewritten e t = (case replacement e t of None \<Rightarrow> t | Some u \<Rightarrow> u)"
  by (auto simp: rewritten_def replacement_def eng.scan_empty split: sum.splits verdict.splits)

lemma scan_coalesced_spec:
  assumes "distinct ks" and "scan_coalesced e m ks red r = Inr (red', r')"
  shows "map_of red' k =
      (case (if k \<in> set ks then Option.bind (map_of m k) (replacement e) else None) of
         None \<Rightarrow> map_of red k | Some u \<Rightarrow> Some u)"
    and "distinct (hm_keys red) \<Longrightarrow> distinct (hm_keys red')"
    and "ScanReport_is_blocked r' \<longleftrightarrow>
      ScanReport_is_blocked r \<or> (\<exists>k \<in> set ks. \<exists>t. map_of m k = Some t \<and> blocks e t)"
proof -
  have "map_of red' k =
      (case (if k \<in> set ks then Option.bind (map_of m k) (replacement e) else None) of
         None \<Rightarrow> map_of red k | Some u \<Rightarrow> Some u) \<and>
    (distinct (hm_keys red) \<longrightarrow> distinct (hm_keys red')) \<and>
    (ScanReport_is_blocked r' \<longleftrightarrow>
      ScanReport_is_blocked r \<or> (\<exists>k \<in> set ks. \<exists>t. map_of m k = Some t \<and> blocks e t))"
    using assms
  proof (induction ks arbitrary: red r)
    case (Cons key ks)
    show ?case
    proof (cases "\<exists>t. map_of m key = Some t \<and> t \<noteq> []")
      case False
      then have "scan_coalesced e m ks red r = Inr (red', r')"
        using Cons.prems(2) by (auto split: option.splits)
      with Cons False show ?thesis
        by (auto split: if_splits option.splits)
    next
      case True
      then obtain t where t: "map_of m key = Some t" "t \<noteq> []" by blast
      then obtain v where v: "Engine_scan e t = Inr v"
        using Cons.prems(2) by (cases "Engine_scan e t") simp_all
      obtain r1 where m: "merge_verdict r v = (r1, replacement e t)"
        using merge_verdict_scanned(1) [OF v t(2), of r] by (cases "merge_verdict r v") simp
      define red1 where
        "red1 = (case replacement e t of None \<Rightarrow> red | Some u \<Rightarrow> AList.update key u red)"
      have "scan_coalesced e m ks red1 r1 = Inr (red', r')"
        using Cons.prems(2) t v m by (simp add: red1_def split: option.splits)
      moreover have "ScanReport_is_blocked r1 \<longleftrightarrow> ScanReport_is_blocked r \<or> blocks e t"
        using merge_verdict_scanned(2) [OF v t(2), of r] m by simp
      moreover have "map_of red1 k =
          (case (if k = key then replacement e t else None) of None \<Rightarrow> map_of red k | Some u \<Rightarrow> Some u)"
        by (simp add: red1_def update_conv' split: option.split)
      moreover have "distinct (hm_keys red) \<longrightarrow> distinct (hm_keys red1)"
        by (simp add: red1_def split: option.split)
      ultimately show ?thesis
        using Cons.IH [of red1 r1] Cons.prems(1) t by (auto split: option.splits if_splits)
    qed
  qed simp
  then show "map_of red' k =
      (case (if k \<in> set ks then Option.bind (map_of m k) (replacement e) else None) of
         None \<Rightarrow> map_of red k | Some u \<Rightarrow> Some u)"
    and "distinct (hm_keys red) \<Longrightarrow> distinct (hm_keys red')"
    and "ScanReport_is_blocked r' \<longleftrightarrow>
      ScanReport_is_blocked r \<or> (\<exists>k \<in> set ks. \<exists>t. map_of m k = Some t \<and> blocks e t)"
    by blast+
qed

section \<open>The scan of a whole stream\<close>

text \<open>What the first loop of \<open>scan_sse\<close> computes, line by line: the parsed chunks, the opaque lines
  it has the engine scan, and the plan of the output.\<close>

fun data_of :: "json_codec \<Rightarrow> string list \<Rightarrow> json list" where
  "data_of cd [] = []"
| "data_of cd (raw # raws) =
     (case classify_line cd raw of CL_Data v \<Rightarrow> v # data_of cd raws | _ \<Rightarrow> data_of cd raws)"

definition opaque_of :: "json_codec \<Rightarrow> string list \<Rightarrow> string list" where
  "opaque_of cd raws = filter (\<lambda>raw. classify_line cd raw = CL_Opaque) raws"

fun line_plan :: "json_codec \<Rightarrow> engine \<Rightarrow> nat \<Rightarrow> string list \<Rightarrow> line list" where
  "line_plan cd e n [] = []"
| "line_plan cd e n (raw # raws) =
     (case classify_line cd raw of
        CL_Data v \<Rightarrow> L_Data n # line_plan cd e (Suc n) raws
      | CL_Passthrough \<Rightarrow> L_Passthrough raw # line_plan cd e n raws
      | CL_Opaque \<Rightarrow> L_Passthrough (rewritten e raw) # line_plan cd e n raws)"

lemma merge_verdict_rewritten:
  "Engine_scan e t = Inr v \<Longrightarrow>
     (case snd (merge_verdict r v) of Some u \<Rightarrow> u | None \<Rightarrow> t) = rewritten e t"
  by (simp add: merge_verdict_def rewritten_def Let_def split: verdict.split)

lemma sse_lines_spec:
  "sse_lines cd e raws chunks lines r =
     res_bind (scan_all (Engine_scan e) (opaque_of cd raws))
       (\<lambda>vs. Inr (chunks @ data_of cd raws, lines @ line_plan cd e (length chunks) raws,
                  merge_all r vs))"
proof (induction raws arbitrary: chunks lines r)
  case Nil
  then show ?case by (simp add: opaque_of_def merge_all_def)
next
  case (Cons raw raws)
  show ?case
  proof (cases "classify_line cd raw")
    case CL_Opaque
    show ?thesis
    proof (cases "Engine_scan e raw")
      case (Inr v)
      then show ?thesis
        using CL_Opaque Cons merge_verdict_rewritten [OF Inr, of r]
        by (cases "scan_all (Engine_scan e) (opaque_of cd raws)")
          (simp_all add: opaque_of_def merge_all_def case_prod_beta Let_def)
    qed (simp add: CL_Opaque opaque_of_def)
  qed (simp_all add: Cons opaque_of_def)
qed

lemma not_blocked_default [simp]: "\<not> ScanReport_is_blocked ScanReport_default"
  by (simp add: ScanReport_is_blocked_def ScanReport_default_def)

lemma merge_all_is_blocked:
  "ScanReport_is_blocked (merge_all r vs) \<longleftrightarrow> ScanReport_is_blocked r \<or> entities_of vs \<noteq> []"
proof -
  have "set (sr_blocked (merge_all r vs)) = {} \<longleftrightarrow> set (sr_blocked r) \<union> set (entities_of vs) = {}"
    by (simp only: merge_all_fields)
  then show ?thesis by (auto simp: ScanReport_is_blocked_def)
qed

lemma entities_of_Cons: "entities_of (v # vs) = (case v of Blocked es \<Rightarrow> es | _ \<Rightarrow> []) @ entities_of vs"
  by (simp add: entities_of_def)

lemma entities_of_scan_all:
  "scan_all (Engine_scan e) ts = Inr vs \<Longrightarrow> entities_of vs \<noteq> [] \<longleftrightarrow> (\<exists>t \<in> set ts. blocks e t)"
proof (induction ts arbitrary: vs)
  case (Cons t ts)
  then obtain v ws where v: "Engine_scan e t = Inr v" and ws: "scan_all (Engine_scan e) ts = Inr ws"
    and vs: "vs = v # ws" by (auto simp: res_bind_eq_Inr)
  have "(case v of Blocked es \<Rightarrow> es | _ \<Rightarrow> []) \<noteq> [] \<longleftrightarrow> blocks e t"
    using v Engine_scan_Blocked_nonempty [of e t] by (auto simp: blocks_def split: verdict.split)
  with Cons.IH [OF ws] show ?case by (simp add: vs entities_of_Cons)
qed (simp add: entities_of_def)

text \<open>The outcome of \<open>scan_sse\<close>. It is blocked exactly when the engine blocks an opaque line or the
  coalesced text of a key, and then carries no body. Otherwise each key's text in the output is the
  redaction of its text in the input, and nothing else changes.\<close>

definition sse_blocks :: "json_codec \<Rightarrow> engine \<Rightarrow> string \<Rightarrow> bool" where
  "sse_blocks cd e body \<longleftrightarrow>
     (\<exists>raw \<in> set (opaque_of cd (split_inclusive body)). blocks e raw) \<or>
     (\<exists>k. blocks e (text_of k (stream_contents (data_of cd (split_inclusive body)))))"

lemma scan_sse_outcome:
  assumes "visits_each_key_once hord" and "scan_sse hord cd e body = Inr out"
  defines "raws \<equiv> split_inclusive body"
  shows "ScanReport_is_blocked (so_report out) \<longleftrightarrow> sse_blocks cd e body"
    and "sse_blocks cd e body \<Longrightarrow> so_body out = []"
    and "\<not> sse_blocks cd e body \<Longrightarrow> \<exists>red.
      distinct (hm_keys red) \<and>
      (\<forall>k. map_of red k = replacement e (text_of k (stream_contents (data_of cd raws)))) \<and>
      so_body out = concat (map (render_line cd (rewrite_chunks hord red (data_of cd raws) []))
                             (line_plan cd e 0 raws))"
proof -
  define chunks where "chunks = data_of cd raws"
  from assms(2) obtain vs red r' where
    vs: "scan_all (Engine_scan e) (opaque_of cd raws) = Inr vs" and
    sc: "scan_coalesced e (coalesce chunks) (hord (hm_keys (coalesce chunks))) []
           (merge_all ScanReport_default vs) = Inr (red, r')" and
    out: "out = (if ScanReport_is_blocked r' then \<lparr>so_body = [], so_report = r'\<rparr>
                 else \<lparr>so_body = concat (map (render_line cd (rewrite_chunks hord red chunks []))
                         (line_plan cd e 0 raws)), so_report = r'\<rparr>)"
    by (auto simp: scan_sse_def sse_lines_spec res_bind_eq_Inr Let_def chunks_def raws_def
        split: if_splits)
  have perm: "mset (hord (hm_keys (coalesce chunks))) = mset (hm_keys (coalesce chunks))"
    using assms(1) by (simp add: visits_each_key_once_def)
  have d: "distinct (hord (hm_keys (coalesce chunks)))"
    using distinct_coalesce mset_eq_imp_distinct_iff [OF perm] by blast
  have mem: "k \<in> set (hord (hm_keys (coalesce chunks))) \<longleftrightarrow>
      k \<in> fst ` set (stream_contents chunks)" for k
    using mset_eq_setD [OF perm] hm.keys_get [of k "coalesce chunks"] coalesce_lookup [of chunks k]
    by auto
  note spec = scan_coalesced_spec [OF d sc]
  have blk: "ScanReport_is_blocked r' \<longleftrightarrow> sse_blocks cd e body"
  proof -
    have "(\<exists>k \<in> set (hord (hm_keys (coalesce chunks))). \<exists>t. map_of (coalesce chunks) k = Some t \<and> blocks e t)
        \<longleftrightarrow> (\<exists>k. blocks e (text_of k (stream_contents chunks)))"
    proof -
      have "k \<in> fst ` set (stream_contents chunks)"
        if "blocks e (text_of k (stream_contents chunks))" for k
        using that text_of_absent [of k "stream_contents chunks"] by (cases "k \<in> fst ` set (stream_contents chunks)") auto
      then show ?thesis unfolding Bex_def mem coalesce_lookup by (metis option.inject)
    qed
    then show ?thesis
      using spec(3) entities_of_scan_all [OF vs]
      by (simp add: sse_blocks_def merge_all_is_blocked not_blocked_default chunks_def raws_def)
  qed
  then show "ScanReport_is_blocked (so_report out) \<longleftrightarrow> sse_blocks cd e body"
    and "sse_blocks cd e body \<Longrightarrow> so_body out = []"
    by (simp_all add: out)
  have "map_of red k = replacement e (text_of k (stream_contents chunks))" for k
    using spec(1) [of k] mem [of k] text_of_absent [of k "stream_contents chunks"]
    by (auto simp: coalesce_lookup split: option.splits)
  moreover have "distinct (hm_keys red)" using spec(2) by (simp add: hm_keys_def)
  ultimately show "\<not> sse_blocks cd e body \<Longrightarrow> \<exists>red.
      distinct (hm_keys red) \<and>
      (\<forall>k. map_of red k = replacement e (text_of k (stream_contents (data_of cd raws)))) \<and>
      so_body out = concat (map (render_line cd (rewrite_chunks hord red (data_of cd raws) []))
                             (line_plan cd e 0 raws))"
    using blk out by (auto simp: chunks_def)
qed

end
