(* ===== verification/Redact_Sse.thy ===== *)
theory Redact_Sse
  imports Redact_Streaming
begin

text \<open>
  \<open>crates/governance-redact/src/sse/mod.rs\<close>: the incremental, frame-aware redactor \<open>SseHoldBack\<close>.

  The model keeps the fields of the Rust structs. Every operation takes the state and returns the new
  state beside an error or a result, because a failing call leaves the redactor in a definite state
  that later calls may see. The frame counter \<open>frame_seq\<close> is a natural number: the 64-bit counter
  of the code would need \<open>2 ^ 64\<close> lines to wrap.
\<close>

section \<open>The redactor of one field\<close>

record choice_redactor =
  cr_pending :: string
  boundaries :: "(nat \<times> nat) list"
  cr_redactions :: nat

definition ChoiceRedactor_default :: choice_redactor where
  "ChoiceRedactor_default = \<lparr>cr_pending = [], boundaries = [], cr_redactions = 0\<rparr>"

datatype choice_push =
    CP_Nothing
  | CP_Release string "nat list"
  | CP_Blocked "string list"

text \<open>The inner loop of the search for a cut: the last boundary offset at or below \<open>safe\<close>.\<close>

fun last_boundary :: "(nat \<times> nat) list \<Rightarrow> nat \<Rightarrow> nat \<Rightarrow> nat" where
  "last_boundary [] safe b = b"
| "last_boundary ((offset, fid) # bs) safe b =
     (if offset \<le> safe then last_boundary bs safe offset else b)"

lemma last_boundary_le: "b \<le> safe \<Longrightarrow> last_boundary bs safe b \<le> safe"
  by (induction bs safe b rule: last_boundary.induct) auto

function frame_cut ::
  "string \<Rightarrow> span list \<Rightarrow> nat \<Rightarrow> (nat \<times> nat) list \<Rightarrow> nat \<Rightarrow> nat" where
  "frame_cut pending spans window bs candidate =
     (let safe = safe_prefix pending spans window candidate;
          boundary = last_boundary bs safe 0
      in if boundary = candidate \<or> boundary = 0 then boundary
         else frame_cut pending spans window bs boundary)"
  by auto

termination
proof (relation "measure (\<lambda>(p, ss, w, bs, c). c)")
  fix pending :: string and spans window and bs :: "(nat \<times> nat) list" and candidate safe boundary
  assume safe: "safe = safe_prefix pending spans window candidate"
    and boundary: "boundary = last_boundary bs safe 0"
    and neq: "\<not> (boundary = candidate \<or> boundary = 0)"
  have "boundary \<le> safe" unfolding boundary by (simp add: last_boundary_le)
  moreover have "safe \<le> candidate"
    using safe_prefix_le [of pending spans window candidate] by (simp add: safe)
  ultimately have "boundary < candidate" using neq by simp
  then show "((pending, spans, window, bs, boundary), pending, spans, window, bs, candidate)
      \<in> measure (\<lambda>(p, ss, w, bs, c). c)" by simp
qed simp

declare frame_cut.simps [simp del]

text \<open>The tail of \<open>advance\<close>, from a positive cut on.\<close>

definition ChoiceRedactor_release ::
  "engine \<Rightarrow> nat \<Rightarrow> choice_redactor \<Rightarrow> choice_redactor \<times> (error + choice_push)" where
  "ChoiceRedactor_release e c cr =
     (let covered = takeWhile (\<lambda>b. fst b \<le> c) (boundaries cr);
          frame_ids = map snd covered;
          head = take c (cr_pending cr);
          cr1 = cr\<lparr>boundaries := map (\<lambda>(o', fid). (o' - c, fid)) (drop (length covered) (boundaries cr)),
                   cr_pending := drop c (cr_pending cr)\<rparr>
      in case Engine_scan e head of
           Inl er \<Rightarrow> (cr1, Inl er)
         | Inr Clean \<Rightarrow> (cr1, Inr (CP_Release head frame_ids))
         | Inr (Redacted text n) \<Rightarrow>
             (cr1\<lparr>cr_redactions := cr_redactions cr1 + n\<rparr>, Inr (CP_Release text frame_ids))
         | Inr (Blocked entities) \<Rightarrow>
             (cr1\<lparr>cr_pending := [], boundaries := []\<rparr>, Inr (CP_Blocked entities)))"

definition ChoiceRedactor_advance ::
  "engine \<Rightarrow> nat \<Rightarrow> bool \<Rightarrow> choice_redactor \<Rightarrow> choice_redactor \<times> (error + choice_push)" where
  "ChoiceRedactor_advance e window final_chunk cr =
     (if cr_pending cr = [] then (cr, Inr CP_Nothing)
      else case Engine_detect e (cr_pending cr) of
             Inl er \<Rightarrow> (cr, Inl er)
           | Inr spans \<Rightarrow>
               (let blocking = map entity (filter (\<lambda>s. s_action s = Block) spans)
                in if blocking \<noteq> []
                   then (cr\<lparr>cr_pending := [], boundaries := []\<rparr>,
                         Inr (CP_Blocked (sort_dedup blocking)))
                   else let effective_window = (if final_chunk then 0 else window);
                            c = frame_cut (cr_pending cr) spans effective_window (boundaries cr)
                                  (length (cr_pending cr))
                        in if c = 0 then (cr, Inr CP_Nothing)
                           else ChoiceRedactor_release e c cr))"

definition ChoiceRedactor_push ::
  "engine \<Rightarrow> nat \<Rightarrow> nat \<Rightarrow> string \<Rightarrow> choice_redactor \<Rightarrow>
     choice_redactor \<times> (error + choice_push)" where
  "ChoiceRedactor_push e window frame_id text cr =
     (let p = cr_pending cr @ text
      in ChoiceRedactor_advance e window False
           (cr\<lparr>cr_pending := p, boundaries := boundaries cr @ [(length p, frame_id)]\<rparr>))"

definition ChoiceRedactor_flush ::
  "engine \<Rightarrow> nat \<Rightarrow> choice_redactor \<Rightarrow> choice_redactor \<times> (error + choice_push)" where
  "ChoiceRedactor_flush e window cr = ChoiceRedactor_advance e window True cr"

section \<open>The redactor of a stream\<close>

datatype sse_emit =
    SE_Nothing
  | SE_Release string
  | SE_Blocked "string list"

datatype frame = F_Passthrough string | F_Data json

record sse_holdback =
  sse_window :: nat
  line_buf :: string
  frame_seq :: nat
  order :: "nat list"
  frames :: "(nat, frame) hmap"
  awaiting :: "(nat, nat) hmap"
  choices :: "(content_key, choice_redactor) hmap"
  opaque_redactions :: nat
  sse_blocked :: bool

definition SseHoldBack_with_window :: "nat \<Rightarrow> sse_holdback" where
  "SseHoldBack_with_window window =
     \<lparr>sse_window = window, line_buf = [], frame_seq = 0, order = [], frames = [], awaiting = [],
      choices = [], opaque_redactions = 0, sse_blocked = False\<rparr>"

definition SseHoldBack_redactions :: "sse_holdback \<Rightarrow> nat" where
  "SseHoldBack_redactions s = sum_list (map (\<lambda>(k, c). cr_redactions c) (choices s)) + opaque_redactions s"

definition SseHoldBack_emit :: "string \<Rightarrow> sse_emit" where
  "SseHoldBack_emit out = (if out = [] then SE_Nothing else SE_Release out)"

definition SseHoldBack_block :: "sse_holdback \<Rightarrow> sse_holdback" where
  "SseHoldBack_block s =
     s\<lparr>sse_blocked := True, order := [], frames := [], awaiting := [], choices := [], line_buf := []\<rparr>"

definition release_frame ::
  "content_key \<Rightarrow> string \<Rightarrow> nat \<Rightarrow> sse_holdback \<Rightarrow> sse_holdback" where
  "release_frame key new fid s =
     (let s1 = (case map_of (frames s) fid of
                  Some (F_Data chunk) \<Rightarrow>
                    s\<lparr>frames := AList.update fid (F_Data (fst (set_delta_content chunk key new)))
                                 (frames s)\<rparr>
                | _ \<Rightarrow> s)
      in case map_of (awaiting s1) fid of
           Some n \<Rightarrow> s1\<lparr>awaiting := AList.update fid (n - 1) (awaiting s1)\<rparr>
         | None \<Rightarrow> s1)"

definition apply_release ::
  "content_key \<Rightarrow> string \<Rightarrow> nat list \<Rightarrow> sse_holdback \<Rightarrow> sse_holdback" where
  "apply_release key text frame_ids s =
     (case frame_ids of
        [] \<Rightarrow> s
      | fid # fids \<Rightarrow> fold (release_frame key []) fids (release_frame key text fid s))"

definition frame_ready :: "sse_holdback \<Rightarrow> nat \<Rightarrow> bool" where
  "frame_ready s fid \<longleftrightarrow> (case map_of (awaiting s) fid of None \<Rightarrow> 0 | Some n \<Rightarrow> n) = 0"

definition render_frame :: "json_codec \<Rightarrow> frame option \<Rightarrow> string" where
  "render_frame cd fr =
     (case fr of
        None \<Rightarrow> []
      | Some (F_Passthrough raw) \<Rightarrow> raw
      | Some (F_Data chunk) \<Rightarrow> render_data cd chunk)"

definition pop_frame :: "sse_holdback \<Rightarrow> sse_holdback" where
  "pop_frame s =
     (case order s of
        [] \<Rightarrow> s
      | fid # fids \<Rightarrow>
          s\<lparr>order := fids, awaiting := AList.delete fid (awaiting s),
            frames := AList.delete fid (frames s)\<rparr>)"

function drain_ready :: "json_codec \<Rightarrow> sse_holdback \<Rightarrow> sse_holdback \<times> string" where
  "drain_ready cd s =
     (case order s of
        [] \<Rightarrow> (s, [])
      | fid # fids \<Rightarrow>
          (if \<not> frame_ready s fid then (s, [])
           else let (s', out) = drain_ready cd (pop_frame s)
                in (s', render_frame cd (map_of (frames s) fid) @ out)))"
  by auto

termination
  by (relation "measure (\<lambda>(cd, s). length (order s))") (auto simp: pop_frame_def)

declare drain_ready.simps [simp del]

definition get_choice :: "sse_holdback \<Rightarrow> content_key \<Rightarrow> choice_redactor" where
  "get_choice s key =
     (case map_of (choices s) key of None \<Rightarrow> ChoiceRedactor_default | Some c \<Rightarrow> c)"

definition put_choice :: "content_key \<Rightarrow> choice_redactor \<Rightarrow> sse_holdback \<Rightarrow> sse_holdback" where
  "put_choice key c s = s\<lparr>choices := AList.update key c (choices s)\<rparr>"

fun ingest_contents ::
  "engine \<Rightarrow> nat \<Rightarrow> (content_key \<times> string) list \<Rightarrow> sse_holdback \<Rightarrow>
     sse_holdback \<times> (error + string list option)" where
  "ingest_contents e frame_id [] s = (s, Inr None)"
| "ingest_contents e frame_id ((key, content) # cs) s =
     (let (c', res) = ChoiceRedactor_push e (sse_window s) frame_id content (get_choice s key);
          s1 = put_choice key c' s
      in case res of
           Inl er \<Rightarrow> (s1, Inl er)
         | Inr CP_Nothing \<Rightarrow> ingest_contents e frame_id cs s1
         | Inr (CP_Blocked entities) \<Rightarrow> (s1, Inr (Some entities))
         | Inr (CP_Release text frame_ids) \<Rightarrow>
             ingest_contents e frame_id cs (apply_release key text frame_ids s1))"

definition queue_frame :: "nat \<Rightarrow> frame \<Rightarrow> sse_holdback \<Rightarrow> sse_holdback" where
  "queue_frame fid fr s = s\<lparr>frames := AList.update fid fr (frames s), order := order s @ [fid]\<rparr>"

definition ingest_line ::
  "json_codec \<Rightarrow> engine \<Rightarrow> string \<Rightarrow> sse_holdback \<Rightarrow>
     sse_holdback \<times> (error + string list option)" where
  "ingest_line cd e raw s0 =
     (let frame_id = frame_seq s0;
          s = s0\<lparr>frame_seq := frame_id + 1\<rparr>
      in case classify_line cd raw of
           CL_Passthrough \<Rightarrow> (queue_frame frame_id (F_Passthrough raw) s, Inr None)
         | CL_Opaque \<Rightarrow>
             (case Engine_scan e raw of
                Inl er \<Rightarrow> (s, Inl er)
              | Inr Clean \<Rightarrow> (queue_frame frame_id (F_Passthrough raw) s, Inr None)
              | Inr (Redacted text n) \<Rightarrow>
                  (queue_frame frame_id (F_Passthrough text)
                     (s\<lparr>opaque_redactions := opaque_redactions s + n\<rparr>), Inr None)
              | Inr (Blocked entities) \<Rightarrow> (s, Inr (Some entities)))
         | CL_Data chunk \<Rightarrow>
             (let contributions = delta_contents chunk;
                  s1 = queue_frame frame_id (F_Data chunk) s
              in if contributions = [] then (s1, Inr None)
                 else ingest_contents e frame_id contributions
                        (s1\<lparr>awaiting := AList.update frame_id (length contributions) (awaiting s1)\<rparr>)))"

section \<open>Pushing and flushing\<close>

lemma release_frame_buf [simp]: "line_buf (release_frame key t fid s) = line_buf s"
  by (simp add: release_frame_def Let_def split: option.split frame.split)

lemma fold_release_frame_buf [simp]: "line_buf (fold (release_frame key t) fids s) = line_buf s"
  by (induction fids arbitrary: s) simp_all

lemma apply_release_buf [simp]: "line_buf (apply_release key t fids s) = line_buf s"
  by (simp add: apply_release_def split: list.split)

lemma ingest_contents_buf: "line_buf (fst (ingest_contents e fid cs s)) = line_buf s"
  by (induction cs arbitrary: s)
    (auto simp: put_choice_def case_prod_beta Let_def split: sum.split choice_push.split)

lemma ingest_line_buf: "line_buf (fst (ingest_line cd e raw s)) = line_buf s"
  by (auto simp: ingest_line_def queue_frame_def ingest_contents_buf Let_def
      split: classified_line.split sum.split verdict.split)

text \<open>The loop of \<open>push\<close> over the complete lines of the buffer. It ends with the blocking entities
  of a line, or with none.\<close>

function push_lines ::
  "json_codec \<Rightarrow> engine \<Rightarrow> sse_holdback \<Rightarrow> sse_holdback \<times> (error + string list option)" where
  "push_lines cd e s =
     (case break_line (line_buf s) of
        None \<Rightarrow> (s, Inr None)
      | Some (raw, rest) \<Rightarrow>
          (case ingest_line cd e raw (s\<lparr>line_buf := rest\<rparr>) of
             (s', Inl er) \<Rightarrow> (s', Inl er)
           | (s', Inr (Some entities)) \<Rightarrow> (s', Inr (Some entities))
           | (s', Inr None) \<Rightarrow> push_lines cd e s'))"
  by pat_completeness auto

termination
proof (relation "measure (\<lambda>(cd, e, s). length (line_buf s))", goal_cases)
  case (2 cd e s x raw rest s' y)
  then have "ingest_line cd e raw (s\<lparr>line_buf := rest\<rparr>) = (s', Inr None)" by simp
  then have "line_buf s' = rest" using ingest_line_buf [of cd e raw "s\<lparr>line_buf := rest\<rparr>"] by simp
  with 2 break_line_shorter [of "line_buf s" raw rest] show ?case by simp
qed simp

declare push_lines.simps [simp del]

definition SseHoldBack_push ::
  "json_codec \<Rightarrow> engine \<Rightarrow> sse_holdback \<Rightarrow> string \<Rightarrow> sse_holdback \<times> (error + sse_emit)" where
  "SseHoldBack_push cd e s text =
     (if sse_blocked s then (s, Inr SE_Nothing)
      else case push_lines cd e (s\<lparr>line_buf := line_buf s @ text\<rparr>) of
             (s', Inl er) \<Rightarrow> (s', Inl er)
           | (s', Inr (Some entities)) \<Rightarrow> (SseHoldBack_block s', Inr (SE_Blocked entities))
           | (s', Inr None) \<Rightarrow>
               (let (s'', out) = drain_ready cd s' in (s'', Inr (SseHoldBack_emit out))))"

lemma frame_cut_le: "frame_cut p ss w bs c \<le> c"
proof (induction p ss w bs c rule: frame_cut.induct)
  case (1 p ss w bs c)
  have "last_boundary bs (safe_prefix p ss w c) 0 \<le> c"
    using last_boundary_le [of 0 "safe_prefix p ss w c" bs] safe_prefix_le [of p ss w c] by simp
  with 1 show ?case by (subst frame_cut.simps) (auto simp: Let_def intro: le_trans)
qed

lemma release_shrinks:
  assumes "ChoiceRedactor_advance e w f cr = (cr', Inr (CP_Release t fids))"
  shows "length (cr_pending cr') < length (cr_pending cr)"
proof -
  obtain c where "0 < c" "cr_pending cr \<noteq> []" "ChoiceRedactor_release e c cr = (cr', Inr (CP_Release t fids))"
    using assms by (auto simp: ChoiceRedactor_advance_def Let_def split: if_splits sum.splits)
  then show ?thesis
    by (auto simp: ChoiceRedactor_release_def Let_def split: sum.splits verdict.splits)
qed

lemma release_frame_choices [simp]: "choices (release_frame key t fid s) = choices s"
  by (simp add: release_frame_def Let_def split: option.split frame.split)

lemma fold_release_frame_choices [simp]: "choices (fold (release_frame key t) fids s) = choices s"
  by (induction fids arbitrary: s) simp_all

lemma apply_release_choices [simp]: "choices (apply_release key t fids s) = choices s"
  by (simp add: apply_release_def split: list.split)

text \<open>The inner loop of \<open>flush\<close>, for one key, and the outer loop over the keys.\<close>

function flush_key ::
  "engine \<Rightarrow> content_key \<Rightarrow> sse_holdback \<Rightarrow> sse_holdback \<times> (error + string list option)" where
  "flush_key e key s =
     (case map_of (choices s) key of
        None \<Rightarrow> (s, Inr None)
      | Some c \<Rightarrow>
          (case ChoiceRedactor_flush e (sse_window s) c of
             (c', Inl er) \<Rightarrow> (put_choice key c' s, Inl er)
           | (c', Inr CP_Nothing) \<Rightarrow> (put_choice key c' s, Inr None)
           | (c', Inr (CP_Blocked entities)) \<Rightarrow> (put_choice key c' s, Inr (Some entities))
           | (c', Inr (CP_Release text frame_ids)) \<Rightarrow>
               flush_key e key (apply_release key text frame_ids (put_choice key c' s))))"
  by pat_completeness auto

termination
proof (relation "measure (\<lambda>(e, key, s). length (cr_pending (get_choice s key)))", goal_cases)
  case (2 e key s c c' y z t fids)
  then show ?case
    using release_shrinks [of e "sse_window s" True c c' t fids]
    by (simp add: ChoiceRedactor_flush_def get_choice_def put_choice_def update_conv')
qed simp

declare flush_key.simps [simp del]

fun flush_keys ::
  "engine \<Rightarrow> content_key list \<Rightarrow> sse_holdback \<Rightarrow> sse_holdback \<times> (error + string list option)" where
  "flush_keys e [] s = (s, Inr None)"
| "flush_keys e (key # ks) s =
     (case flush_key e key s of
        (s', Inr None) \<Rightarrow> flush_keys e ks s'
      | stop \<Rightarrow> stop)"

text \<open>The trailing line of \<open>flush\<close>.\<close>

definition flush_tail ::
  "json_codec \<Rightarrow> engine \<Rightarrow> sse_holdback \<Rightarrow> sse_holdback \<times> (error + string list option)" where
  "flush_tail cd e s =
     (if line_buf s \<noteq> [] then ingest_line cd e (line_buf s) (s\<lparr>line_buf := []\<rparr>) else (s, Inr None))"

definition SseHoldBack_flush ::
  "(content_key list \<Rightarrow> content_key list) \<Rightarrow> json_codec \<Rightarrow> engine \<Rightarrow> sse_holdback \<Rightarrow>
     sse_holdback \<times> (error + sse_emit)" where
  "SseHoldBack_flush hord cd e s =
     (if sse_blocked s then (s, Inr SE_Nothing)
      else case flush_tail cd e s of
             (s', Inl er) \<Rightarrow> (s', Inl er)
           | (s', Inr (Some entities)) \<Rightarrow> (SseHoldBack_block s', Inr (SE_Blocked entities))
           | (s', Inr None) \<Rightarrow>
               (case flush_keys e (hord (hm_keys (choices s'))) s' of
                  (s'', Inl er) \<Rightarrow> (s'', Inl er)
                | (s'', Inr (Some entities)) \<Rightarrow> (SseHoldBack_block s'', Inr (SE_Blocked entities))
                | (s'', Inr None) \<Rightarrow>
                    (let (s3, out) = drain_ready cd s'' in (s3, Inr (SseHoldBack_emit out)))))"

section \<open>The cut of a field\<close>

lemma last_boundary_in: "last_boundary bs safe b \<in> insert b (fst ` set bs)"
  by (induction bs safe b rule: last_boundary.induct) auto

text \<open>A cut is zero, or both the end of a queued frame and a cut that the span walk-back accepts.\<close>

lemma frame_cut_fixed:
  "frame_cut p ss w bs c = 0 \<or>
     (frame_cut p ss w bs c \<in> fst ` set bs \<and>
      safe_prefix p ss w (frame_cut p ss w bs c) = frame_cut p ss w bs c)"
proof (induction p ss w bs c rule: frame_cut.induct)
  case (1 p ss w bs c)
  define safe where "safe = safe_prefix p ss w c"
  define b where "b = last_boundary bs safe 0"
  have eq: "frame_cut p ss w bs c = (if b = c \<or> b = 0 then b else frame_cut p ss w bs b)"
    by (subst frame_cut.simps) (simp add: b_def safe_def Let_def)
  show ?case
  proof (cases "b = c \<or> b = 0")
    case True
    then have cut: "frame_cut p ss w bs c = b" using eq by simp
    have "b \<le> safe" and "safe \<le> c"
      using last_boundary_le [of 0 safe bs] safe_prefix_le [of p ss w c] by (simp_all add: b_def safe_def)
    with True have "b \<noteq> 0 \<Longrightarrow> safe_prefix p ss w b = b" by (auto simp: safe_def)
    with cut show ?thesis using last_boundary_in [of bs safe 0] by (auto simp: b_def)
  next
    case False
    with eq 1 show ?thesis by (simp add: b_def safe_def)
  qed
qed

end
