(* ===== verification/Redact_Sse_Correct.thy ===== *)
theory Redact_Sse_Correct
  imports Redact_Sse
begin

text \<open>
  Correctness of the incremental redactor (\<open>crates/governance-redact/src/sse/mod.rs\<close>).

  The central invariant \<open>sse_inv\<close> relates a state to what was read and what was emitted. For every
  field (a choice's content, or the arguments of one of its tool calls) the text read so far is a
  part that is done followed by the pending text of its redactor, and the emitted frames followed by
  the resolved frames of the queue carry exactly the segmentwise redaction of the done part. A frame
  leaves the queue only when it is resolved for every field, so no raw text leaves.
\<close>

section \<open>One field\<close>

text \<open>A redactor is well-formed when its boundaries ascend in offset and in frame, and the last one is
  the end of the pending text.\<close>

definition cr_ok :: "choice_redactor \<Rightarrow> bool" where
  "cr_ok cr \<longleftrightarrow>
     sorted (map fst (boundaries cr)) \<and> sorted_wrt (<) (map snd (boundaries cr)) \<and>
     (if boundaries cr = [] then cr_pending cr = []
      else fst (last (boundaries cr)) = length (cr_pending cr))"

lemma cr_ok_default [simp]: "cr_ok ChoiceRedactor_default"
  by (simp add: cr_ok_def ChoiceRedactor_default_def)

lemma cr_ok_offset_le: "cr_ok cr \<Longrightarrow> b \<in> set (boundaries cr) \<Longrightarrow> fst b \<le> length (cr_pending cr)"
proof -
  assume ok: "cr_ok cr" and b: "b \<in> set (boundaries cr)"
  then obtain ys z where bs: "boundaries cr = ys @ [z]" by (cases "boundaries cr" rule: rev_cases) auto
  with ok have "\<forall>y \<in> set ys. fst y \<le> fst z" "fst z = length (cr_pending cr)"
    by (auto simp: cr_ok_def sorted_append)
  with b bs show ?thesis by auto
qed

lemma cr_ok_snoc:
  assumes "cr_ok cr" and "\<forall>b \<in> set (boundaries cr). snd b < fid"
  shows "cr_ok (cr\<lparr>cr_pending := cr_pending cr @ t,
                   boundaries := boundaries cr @ [(length (cr_pending cr @ t), fid)]\<rparr>)"
  using assms cr_ok_offset_le [OF assms(1)]
  by (auto simp: cr_ok_def sorted_append sorted_wrt_append trans_le_add1)

lemma takeWhile_sorted_last:
  assumes "sorted (map fst bs)" and "(c :: nat) \<in> fst ` set bs"
  shows "takeWhile (\<lambda>b. fst b \<le> c) bs \<noteq> []" "fst (last (takeWhile (\<lambda>b. fst b \<le> c) bs)) = c"
proof -
  have "takeWhile (\<lambda>b. fst b \<le> c) bs \<noteq> [] \<and> fst (last (takeWhile (\<lambda>b. fst b \<le> c) bs)) = c"
    using assms
  proof (induction bs)
    case (Cons b bs)
    show ?case
    proof (cases "c \<in> fst ` set bs")
      case True
      with Cons show ?thesis by auto
    next
      case False
      with Cons.prems have "fst b = c" by auto
      moreover have "takeWhile (\<lambda>b. fst b \<le> c) bs = []"
      proof (cases bs)
        case (Cons b' bs')
        with Cons.prems False \<open>fst b = c\<close> have "c < fst b'" by (auto simp: less_le)
        with Cons show ?thesis by simp
      qed simp
      ultimately show ?thesis by simp
    qed
  qed simp
  then show "takeWhile (\<lambda>b. fst b \<le> c) bs \<noteq> []" "fst (last (takeWhile (\<lambda>b. fst b \<le> c) bs)) = c"
    by blast+
qed

lemma release_result:
  assumes "ChoiceRedactor_release e c cr = (cr', Inr (CP_Release t fids))"
  shows "cr_pending cr' = drop c (cr_pending cr)"
    and "boundaries cr' = map (\<lambda>(o', fid). (o' - c, fid)) (dropWhile (\<lambda>b. fst b \<le> c) (boundaries cr))"
    and "fids = map snd (takeWhile (\<lambda>b. fst b \<le> c) (boundaries cr))"
    and "scanned_ok e (take c (cr_pending cr))" and "t = rewritten e (take c (cr_pending cr))"
  using assms
  by (auto simp: ChoiceRedactor_release_def Let_def scanned_ok_def rewritten_def
      Verdict_is_blocked_def dropWhile_eq_drop split: sum.splits verdict.splits)

lemma frame_cut_window: "frame_cut p ss w bs c \<le> length p - w"
  using frame_cut_fixed [of p ss w bs c] safe_prefix_le [of p ss w "frame_cut p ss w bs c"] by auto

lemma release_cut_safe:
  assumes "Engine_detect e p = Inr spans" and "\<not> has_block spans"
    and "c = frame_cut p spans (if f then 0 else w) bs (length p)" and "c \<noteq> 0" and "c \<le> length p"
  shows "cut_safe e w f (take c p) (drop c p)"
proof -
  let ?w = "if f then 0 else w"
  have "safe_prefix p spans ?w c = c"
    using frame_cut_fixed [of p spans ?w bs "length p"] assms(3,4) by auto
  then have "safe_cut_at p spans c" if "spans_ok p spans"
    using safe_prefix_spec(1) [OF that, of ?w c] by simp
  moreover have "w \<le> length (drop c p) \<or> f"
    using frame_cut_window [of p spans ?w bs "length p"] assms(3,4) by (cases f) auto
  ultimately show ?thesis
    unfolding cut_safe_def using assms(1,2,5)
    by (intro exI [of _ "drop c p"] exI [of _ "[]"] exI [of _ spans]) (auto simp: min_absorb2)
qed

text \<open>What a release does: it takes a non-empty run of boundaries off the front, and hands out the
  redaction of the text they cover.\<close>

lemma advance_release_spec:
  assumes "cr_ok cr" and "ChoiceRedactor_advance e w f cr = (cr', Inr (CP_Release t fids))"
  obtains head covered rest where "cr_pending cr = head @ cr_pending cr'" and "head \<noteq> []"
    and "scanned_ok e head" and "t = rewritten e head"
    and "boundaries cr = covered @ rest" and "fids = map snd covered" and "covered \<noteq> []"
    and "map snd (boundaries cr') = map snd rest" and "cr_ok cr'"
    and "cut_safe e w f head (cr_pending cr')"
proof -
  obtain spans c where det: "Engine_detect e (cr_pending cr) = Inr spans" "\<not> has_block spans" and
    c_def: "c = frame_cut (cr_pending cr) spans (if f then 0 else w) (boundaries cr) (length (cr_pending cr))"
    and c0: "c \<noteq> 0" and rel: "ChoiceRedactor_release e c cr = (cr', Inr (CP_Release t fids))"
    using assms(2)
    by (auto simp: ChoiceRedactor_advance_def Let_def has_block_def filter_empty_conv
        split: if_splits sum.splits)
  define covered where "covered = takeWhile (\<lambda>b. fst b \<le> c) (boundaries cr)"
  define rest where "rest = dropWhile (\<lambda>b. fst b \<le> c) (boundaries cr)"
  have bs: "boundaries cr = covered @ rest" by (simp add: covered_def rest_def)
  have sorted: "sorted (map fst (boundaries cr))" using assms(1) by (simp add: cr_ok_def)
  note fixed = frame_cut_fixed [of "cr_pending cr" spans "if f then 0 else w" "boundaries cr"
      "length (cr_pending cr)", folded c_def]
  have c_in: "c \<in> fst ` set (boundaries cr)" using c0 fixed by simp
  have cov: "covered \<noteq> []" using takeWhile_sorted_last(1) [OF sorted c_in] by (simp add: covered_def)
  have c_le: "c \<le> length (cr_pending cr)"
    using cr_ok_offset_le [OF assms(1)] c_in by auto
  have cr': "cr_pending cr' = drop c (cr_pending cr)"
    "boundaries cr' = map (\<lambda>(o', fid). (o' - c, fid)) rest"
    "fids = map snd covered" "scanned_ok e (take c (cr_pending cr))"
    "t = rewritten e (take c (cr_pending cr))"
    using release_result [OF rel] by (simp_all add: covered_def rest_def)
  have rest_gt: "\<forall>b \<in> set rest. c < fst b"
  proof (cases rest)
    case (Cons b bs')
    then have "c < fst b" using hd_dropWhile [of "\<lambda>b. fst b \<le> c" "boundaries cr"]
      by (simp add: rest_def not_le)
    moreover have "\<forall>x \<in> set bs'. fst b \<le> fst x" using sorted bs Cons by (simp add: sorted_append)
    ultimately show ?thesis using Cons by auto
  qed simp
  have "cr_ok cr'"
  proof (cases "rest = []")
    case True
    then have "last (boundaries cr) = last covered" using bs by simp
    moreover have "fst (last covered) = c"
      using takeWhile_sorted_last(2) [OF sorted c_in] by (simp add: covered_def)
    ultimately have "length (cr_pending cr) = c"
      using assms(1) bs cov by (simp add: cr_ok_def)
    with True show ?thesis by (simp add: cr_ok_def cr')
  next
    case False
    have "sorted (map fst rest)" "sorted_wrt (<) (map snd rest)"
      using assms(1) bs by (simp_all add: cr_ok_def sorted_append sorted_wrt_append)
    moreover have "sorted (map (\<lambda>b. fst b - c) rest)"
      using \<open>sorted (map fst rest)\<close> by (induction rest) (auto intro: diff_le_mono)
    moreover have "fst (last rest) = length (cr_pending cr)"
      using assms(1) bs False by (simp add: cr_ok_def)
    ultimately show ?thesis
      using False by (simp add: cr_ok_def cr' comp_def case_prod_beta last_map)
  qed
  moreover have "cut_safe e w f (take c (cr_pending cr)) (cr_pending cr')"
    unfolding cr' using release_cut_safe [OF det c_def c0 c_le] .
  moreover have "take c (cr_pending cr) \<noteq> []" using c0 c_le by (auto simp: c_def)
  moreover have "map snd (boundaries cr') = map snd rest" by (simp add: cr' comp_def case_prod_beta)
  ultimately show thesis
    using that [of "take c (cr_pending cr)" covered rest] cr' bs cov by simp
qed

lemma advance_nothing: "ChoiceRedactor_advance e w f cr = (cr', Inr CP_Nothing) \<Longrightarrow> cr' = cr"
  by (auto simp: ChoiceRedactor_advance_def ChoiceRedactor_release_def Let_def
      split: if_splits sum.splits verdict.splits)

section \<open>Releasing into the queue\<close>

definition aw :: "sse_holdback \<Rightarrow> nat \<Rightarrow> nat" where
  "aw s fid = (case map_of (awaiting s) fid of None \<Rightarrow> 0 | Some n \<Rightarrow> n)"

definition put_text :: "content_key \<Rightarrow> string \<Rightarrow> frame option \<Rightarrow> frame option" where
  "put_text key t fr =
     (case fr of Some (F_Data chunk) \<Rightarrow> Some (F_Data (fst (set_delta_content chunk key t))) | _ \<Rightarrow> fr)"

lemma release_frame_order [simp]:
  "order (release_frame key t fid s) = order s" "frame_seq (release_frame key t fid s) = frame_seq s"
  "sse_window (release_frame key t fid s) = sse_window s"
  "sse_blocked (release_frame key t fid s) = sse_blocked s"
  by (simp_all add: release_frame_def Let_def split: option.split frame.split)

lemma release_frame_frames:
  "map_of (frames (release_frame key t fid s)) f =
     (if f = fid then put_text key t (map_of (frames s) fid) else map_of (frames s) f)"
  by (auto simp: release_frame_def put_text_def Let_def update_conv' split: option.split frame.split)

lemma release_frame_aw: "aw (release_frame key t fid s) f = (if f = fid then aw s f - 1 else aw s f)"
  by (auto simp: release_frame_def aw_def Let_def update_conv' split: option.split frame.split)

lemma fold_release_frame:
  "order (fold (release_frame key t) fids s) = order s"
  "frame_seq (fold (release_frame key t) fids s) = frame_seq s"
  "sse_window (fold (release_frame key t) fids s) = sse_window s"
  "sse_blocked (fold (release_frame key t) fids s) = sse_blocked s"
  by (induction fids arbitrary: s) simp_all

lemma fold_release_frame_at:
  "distinct fids \<Longrightarrow> map_of (frames (fold (release_frame key t) fids s)) f =
     (if f \<in> set fids then put_text key t (map_of (frames s) f) else map_of (frames s) f)"
  "distinct fids \<Longrightarrow> aw (fold (release_frame key t) fids s) f = (if f \<in> set fids then aw s f - 1 else aw s f)"
  by (induction fids arbitrary: s) (auto simp: release_frame_frames release_frame_aw)

lemma apply_release_same [simp]:
  "order (apply_release key t fids s) = order s"
  "frame_seq (apply_release key t fids s) = frame_seq s"
  "sse_window (apply_release key t fids s) = sse_window s"
  "sse_blocked (apply_release key t fids s) = sse_blocked s"
  by (simp_all add: apply_release_def fold_release_frame split: list.split)

lemma apply_release_at:
  assumes "distinct fids"
  shows "map_of (frames (apply_release key t fids s)) f =
      (if f \<in> set fids then put_text key (if f = hd fids then t else []) (map_of (frames s) f)
       else map_of (frames s) f)"
    and "aw (apply_release key t fids s) f = (if f \<in> set fids then aw s f - 1 else aw s f)"
  using assms
  by (auto simp: apply_release_def fold_release_frame_at release_frame_frames release_frame_aw
      split: list.split)

lemma get_put_choice [simp]: "get_choice (put_choice key c s) k = (if k = key then c else get_choice s k)"
  by (simp add: get_choice_def put_choice_def update_conv')

lemma get_choice_cong: "choices s' = choices s \<Longrightarrow> get_choice s' = get_choice s"
  by (simp add: fun_eq_iff get_choice_def)

lemma put_choice_same [simp]:
  "order (put_choice key c s) = order s" "frame_seq (put_choice key c s) = frame_seq s"
  "frames (put_choice key c s) = frames s" "awaiting (put_choice key c s) = awaiting s"
  "sse_window (put_choice key c s) = sse_window s" "sse_blocked (put_choice key c s) = sse_blocked s"
  "line_buf (put_choice key c s) = line_buf s"
  by (simp_all add: put_choice_def)

lemma aw_put_choice [simp]: "aw (put_choice key c s) = aw s"
  by (simp add: aw_def fun_eq_iff)

lemma text_of_set_key:
  "distinct (map fst xs) \<Longrightarrow> key \<in> fst ` set xs \<Longrightarrow> text_of key (set_key key t xs) = t"
  "k \<noteq> key \<Longrightarrow> text_of k (set_key key t xs) = text_of k xs"
proof -
  show "distinct (map fst xs) \<Longrightarrow> key \<in> fst ` set xs \<Longrightarrow> text_of key (set_key key t xs) = t"
  proof (induction xs)
    case (Cons p xs)
    then show ?case by (cases p) (auto simp: set_key_absent text_of_absent)
  qed simp
  show "k \<noteq> key \<Longrightarrow> text_of k (set_key key t xs) = text_of k xs"
    by (induction xs) (auto simp: set_key_def)
qed

section \<open>The invariant\<close>

text \<open>\<open>unres s T fid k\<close>: frame \<open>fid\<close> waits for field \<open>k\<close>. The set \<open>T\<close> holds the fields of the frame being
  read that have not reached their redactor yet.\<close>

definition unres :: "sse_holdback \<Rightarrow> (nat \<times> content_key) set \<Rightarrow> nat \<Rightarrow> content_key \<Rightarrow> bool" where
  "unres s T fid k \<longleftrightarrow> fid \<in> set (map snd (boundaries (get_choice s k))) \<or> (fid, k) \<in> T"

definition frame_text :: "content_key \<Rightarrow> frame option \<Rightarrow> string" where
  "frame_text k fr = (case fr of Some (F_Data chunk) \<Rightarrow> text_of k (delta_contents chunk) | _ \<Rightarrow> [])"

definition has_key :: "content_key \<Rightarrow> frame option \<Rightarrow> bool" where
  "has_key k fr \<longleftrightarrow> (\<exists>chunk. fr = Some (F_Data chunk) \<and> k \<in> fst ` set (delta_contents chunk))"

definition frame_ok :: "frame option \<Rightarrow> bool" where
  "frame_ok fr \<longleftrightarrow> (\<forall>chunk. fr = Some (F_Data chunk) \<longrightarrow> chunk_ok chunk)"

definition resolved :: "sse_holdback \<Rightarrow> (nat \<times> content_key) set \<Rightarrow> content_key \<Rightarrow> nat \<Rightarrow> string" where
  "resolved s T k fid = (if unres s T fid k then [] else frame_text k (map_of (frames s) fid))"

definition resolved_text :: "sse_holdback \<Rightarrow> (nat \<times> content_key) set \<Rightarrow> content_key \<Rightarrow> string" where
  "resolved_text s T k = concat (map (resolved s T k) (order s))"

definition emitted_text :: "frame list \<Rightarrow> content_key \<Rightarrow> string" where
  "emitted_text E k = concat (map (\<lambda>fr. frame_text k (Some fr)) E)"

definition queue_inv :: "(nat \<times> content_key) set \<Rightarrow> sse_holdback \<Rightarrow> bool" where
  "queue_inv T s \<longleftrightarrow>
     sorted_wrt (<) (order s) \<and> (\<forall>fid \<in> set (order s). fid < frame_seq s) \<and>
     (\<forall>fid. map_of (frames s) fid \<noteq> None \<longleftrightarrow> fid \<in> set (order s)) \<and>
     (\<forall>fid. frame_ok (map_of (frames s) fid)) \<and>
     (\<forall>fid k. unres s T fid k \<longrightarrow> has_key k (map_of (frames s) fid)) \<and>
     (\<forall>fid. aw s fid = card {k. unres s T fid k}) \<and>
     (\<forall>k fid fid'. unres s T fid k \<and> fid \<le> fid' \<and> has_key k (map_of (frames s) fid') \<longrightarrow>
        unres s T fid' k) \<and>
     (\<forall>k. cr_ok (get_choice s k))"

definition text_inv ::
  "nat \<Rightarrow> bool \<Rightarrow> engine \<Rightarrow> (content_key \<Rightarrow> string) \<Rightarrow> (nat \<times> content_key) set \<Rightarrow> frame list \<Rightarrow> sse_holdback \<Rightarrow>
     content_key \<Rightarrow> bool" where
  "text_inv W fin e R T E s k \<longleftrightarrow>
     (\<exists>d. R k = d @ cr_pending (get_choice s k) \<and>
          segmented e W fin d (cr_pending (get_choice s k)) (emitted_text E k @ resolved_text s T k))"

definition sse_inv ::
  "nat \<Rightarrow> bool \<Rightarrow> engine \<Rightarrow> (content_key \<Rightarrow> string) \<Rightarrow> (nat \<times> content_key) set \<Rightarrow> frame list \<Rightarrow> sse_holdback \<Rightarrow> bool" where
  "sse_inv W fin e R T E s \<longleftrightarrow> queue_inv T s \<and> (\<forall>k. text_inv W fin e R T E s k)"

lemma queue_invD:
  assumes "queue_inv T s"
  shows "sorted_wrt (<) (order s)" and "\<And>fid. fid \<in> set (order s) \<Longrightarrow> fid < frame_seq s"
    and "\<And>fid. map_of (frames s) fid \<noteq> None \<longleftrightarrow> fid \<in> set (order s)"
    and "\<And>fid. frame_ok (map_of (frames s) fid)"
    and "\<And>fid k. unres s T fid k \<Longrightarrow> has_key k (map_of (frames s) fid)"
    and "\<And>fid. aw s fid = card {k. unres s T fid k}"
    and "\<And>k fid fid'. unres s T fid k \<Longrightarrow> fid \<le> fid' \<Longrightarrow> has_key k (map_of (frames s) fid') \<Longrightarrow>
           unres s T fid' k"
    and "\<And>k. cr_ok (get_choice s k)"
  using assms unfolding queue_inv_def by blast+

lemma queue_invI:
  assumes "sorted_wrt (<) (order s)" and "\<And>fid. fid \<in> set (order s) \<Longrightarrow> fid < frame_seq s"
    and "\<And>fid. map_of (frames s) fid \<noteq> None \<longleftrightarrow> fid \<in> set (order s)"
    and "\<And>fid. frame_ok (map_of (frames s) fid)"
    and "\<And>fid k. unres s T fid k \<Longrightarrow> has_key k (map_of (frames s) fid)"
    and "\<And>fid. aw s fid = card {k. unres s T fid k}"
    and "\<And>k fid fid'. unres s T fid k \<Longrightarrow> fid \<le> fid' \<Longrightarrow> has_key k (map_of (frames s) fid') \<Longrightarrow>
           unres s T fid' k"
    and "\<And>k. cr_ok (get_choice s k)"
  shows "queue_inv T s"
  using assms unfolding queue_inv_def by blast

lemma unres_queued: "queue_inv T s \<Longrightarrow> unres s T fid k \<Longrightarrow> fid \<in> set (order s)"
  using queue_invD(3,5) unfolding has_key_def by blast

lemma put_text_props:
  assumes "frame_ok fr" and "has_key key fr"
  shows "frame_ok (put_text key t fr)" and "frame_text key (put_text key t fr) = t"
    and "k \<noteq> key \<Longrightarrow> frame_text k (put_text key t fr) = frame_text k fr"
    and "has_key k (put_text key t fr) \<longleftrightarrow> has_key k fr" and "put_text key t fr \<noteq> None"
proof -
  from assms(2) obtain chunk where fr: "fr = Some (F_Data chunk)"
    and key: "key \<in> fst ` set (delta_contents chunk)" by (auto simp: has_key_def)
  with assms(1) have ok: "chunk_ok chunk" by (simp add: frame_ok_def)
  note spec = set_delta_content_spec [OF ok key, of t]
  have keys: "fst ` set (set_key key t xs) = fst ` set xs" for xs
    by (metis fst_set_key list.set_map)
  show "frame_ok (put_text key t fr)" "put_text key t fr \<noteq> None"
    and "has_key k (put_text key t fr) \<longleftrightarrow> has_key k fr"
    using fr spec by (auto simp: put_text_def frame_ok_def has_key_def keys)
  show "frame_text key (put_text key t fr) = t"
    using fr spec text_of_set_key(1) [OF distinct_delta_contents [OF ok] key]
    by (simp add: put_text_def frame_text_def)
  show "k \<noteq> key \<Longrightarrow> frame_text k (put_text key t fr) = frame_text k fr"
    using fr spec text_of_set_key(2) [of k key t] by (simp add: put_text_def frame_text_def)
qed

lemma no_key_no_text: "\<not> has_key k fr \<Longrightarrow> frame_text k fr = []"
  by (auto simp: has_key_def frame_text_def text_of_absent split: option.split frame.split)

section \<open>A release keeps the invariant\<close>

text \<open>The effect of a release of \<open>key\<close> on what the invariant mentions.\<close>

definition released ::
  "(nat \<times> content_key) set \<Rightarrow> content_key \<Rightarrow> string \<Rightarrow> nat list \<Rightarrow> sse_holdback \<Rightarrow> sse_holdback \<Rightarrow> bool" where
  "released T key t fids s s2 \<longleftrightarrow>
     order s2 = order s \<and> frame_seq s2 = frame_seq s \<and>
     (\<forall>f. map_of (frames s2) f =
        (if f \<in> set fids then put_text key (if f = hd fids then t else []) (map_of (frames s) f)
         else map_of (frames s) f)) \<and>
     (\<forall>f. aw s2 f = (if f \<in> set fids then aw s f - 1 else aw s f)) \<and>
     (\<forall>f k. unres s2 T f k \<longleftrightarrow> unres s T f k \<and> \<not> (k = key \<and> f \<in> set fids)) \<and>
     sorted_wrt (<) fids \<and> fids \<noteq> [] \<and> (\<forall>f \<in> set fids. unres s T f key) \<and>
     (\<forall>f. unres s T f key \<longrightarrow> hd fids \<le> f) \<and>
     (\<forall>f \<in> set fids. \<forall>f'. unres s2 T f' key \<longrightarrow> f < f')"

lemma releasedD:
  assumes "released T key t fids s s2"
  shows "order s2 = order s" and "frame_seq s2 = frame_seq s"
    and "\<And>f. map_of (frames s2) f =
        (if f \<in> set fids then put_text key (if f = hd fids then t else []) (map_of (frames s) f)
         else map_of (frames s) f)"
    and "\<And>f. aw s2 f = (if f \<in> set fids then aw s f - 1 else aw s f)"
    and "\<And>f k. unres s2 T f k \<longleftrightarrow> unres s T f k \<and> \<not> (k = key \<and> f \<in> set fids)"
    and "fids \<noteq> []" and "\<And>f. f \<in> set fids \<Longrightarrow> unres s T f key"
    and "\<And>f. unres s T f key \<Longrightarrow> hd fids \<le> f"
    and "\<And>f f'. f \<in> set fids \<Longrightarrow> unres s2 T f' key \<Longrightarrow> f < f'"
  using assms unfolding released_def by blast+

lemma sorted_wrt_less_distinct: "sorted_wrt (<) (xs :: nat list) \<Longrightarrow> distinct xs"
  by (simp add: strict_sorted_iff)

lemma released_frame:
  assumes "queue_inv T s" and "released T key t fids s s2"
  shows "frame_ok (map_of (frames s2) f)"
    and "has_key k (map_of (frames s2) f) \<longleftrightarrow> has_key k (map_of (frames s) f)"
    and "map_of (frames s2) f \<noteq> None \<longleftrightarrow> map_of (frames s) f \<noteq> None"
    and "k \<noteq> key \<Longrightarrow> frame_text k (map_of (frames s2) f) = frame_text k (map_of (frames s) f)"
    and "f \<in> set fids \<Longrightarrow> frame_text key (map_of (frames s2) f) = (if f = hd fids then t else [])"
proof -
  have ok: "frame_ok (map_of (frames s) f)" by (rule queue_invD(4) [OF assms(1)])
  have hk: "f \<in> set fids \<Longrightarrow> has_key key (map_of (frames s) f)"
    by (rule queue_invD(5) [OF assms(1) releasedD(7) [OF assms(2)]])
  have fr: "map_of (frames s2) f =
      (if f \<in> set fids then put_text key (if f = hd fids then t else []) (map_of (frames s) f)
       else map_of (frames s) f)"
    by (rule releasedD(3) [OF assms(2)])
  note pt = put_text_props [OF ok hk]
  show "frame_ok (map_of (frames s2) f)" unfolding fr using ok pt(1) by simp
  show "has_key k (map_of (frames s2) f) \<longleftrightarrow> has_key k (map_of (frames s) f)"
    unfolding fr using pt(4) by simp
  show "map_of (frames s2) f \<noteq> None \<longleftrightarrow> map_of (frames s) f \<noteq> None"
    unfolding fr using pt(5) hk by (auto simp: has_key_def)
  show "k \<noteq> key \<Longrightarrow> frame_text k (map_of (frames s2) f) = frame_text k (map_of (frames s) f)"
    unfolding fr using pt(3) by simp
  show "f \<in> set fids \<Longrightarrow> frame_text key (map_of (frames s2) f) = (if f = hd fids then t else [])"
    unfolding fr using pt(2) by simp
qed

lemma finite_unres:
  assumes "queue_inv T s"
  shows "finite {k. unres s T f k}"
proof (cases "\<exists>k. unres s T f k")
  case True
  then obtain chunk where "map_of (frames s) f = Some (F_Data chunk)"
    using queue_invD(5) [OF assms] unfolding has_key_def by blast
  then have "{k. unres s T f k} \<subseteq> fst ` set (delta_contents chunk)"
    using queue_invD(5) [OF assms] unfolding has_key_def by fastforce
  then show ?thesis by (rule finite_subset) simp
next
  case False
  then have none: "{k. unres s T f k} = {}" by blast
  show ?thesis by (subst none) simp
qed

lemma released_queue:
  assumes "queue_inv T s" and "released T key t fids s s2" and "\<And>k. cr_ok (get_choice s2 k)"
  shows "queue_inv T s2"
proof (rule queue_invI)
  note inv = queue_invD [OF assms(1)] and rel = releasedD [OF assms(2)]
  note fr = released_frame [OF assms(1,2)]
  show "sorted_wrt (<) (order s2)" "\<And>fid. fid \<in> set (order s2) \<Longrightarrow> fid < frame_seq s2"
    "\<And>fid. (map_of (frames s2) fid \<noteq> None) = (fid \<in> set (order s2))"
    using inv(1-3) rel(1,2) fr(3) by simp_all
  show "frame_ok (map_of (frames s2) fid)" "cr_ok (get_choice s2 k)" for fid k
    by (rule fr(1), rule assms(3))
  show "has_key k (map_of (frames s2) fid)" if "unres s2 T fid k" for fid k
    using that inv(5) rel(5) fr(2) by blast
  show "aw s2 f = card {k. unres s2 T f k}" for f
  proof (cases "f \<in> set fids")
    case True
    then have "{k. unres s2 T f k} = {k. unres s T f k} - {key}" and "key \<in> {k. unres s T f k}"
      using rel(5,7) by blast+
    then have "card {k. unres s2 T f k} = card {k. unres s T f k} - 1"
      by (simp add: card_Diff_singleton)
    with True show ?thesis using inv(6) rel(4) by simp
  next
    case False
    then have "{k. unres s2 T f k} = {k. unres s T f k}" using rel(5) by blast
    with False show ?thesis using inv(6) rel(4) by simp
  qed
  show "unres s2 T f' k" if "unres s2 T f k" "f \<le> f'" "has_key k (map_of (frames s2) f')" for k f f'
  proof -
    have "unres s T f k" using that(1) rel(5) by blast
    then have "unres s T f' k" using that(2,3) inv(7) [of f k f'] fr(2) by blast
    moreover have "\<not> (k = key \<and> f' \<in> set fids)" using that(1,2) rel(9) [of f' f] by auto
    ultimately show ?thesis using rel(5) by blast
  qed
qed

lemma concat_map_Nil: "concat (map (\<lambda>x. []) ys) = []"
  by (induction ys) simp_all

lemma released_text:
  assumes "queue_inv T s" and "released T key t fids s s2"
  shows "resolved_text s2 T key = resolved_text s T key @ t"
    and "k \<noteq> key \<Longrightarrow> resolved_text s2 T k = resolved_text s T k"
proof -
  note inv = queue_invD [OF assms(1)] and rel = releasedD [OF assms(2)]
  note fr = released_frame [OF assms(1,2)]
  show "k \<noteq> key \<Longrightarrow> resolved_text s2 T k = resolved_text s T k"
    using fr(4) rel(5)
    by (simp add: resolved_text_def rel(1) resolved_def [abs_def] cong: if_cong)
  define f0 where "f0 = hd fids"
  have f0: "f0 \<in> set fids" "unres s T f0 key" using rel(6,7) by (simp_all add: f0_def)
  then have "f0 \<in> set (order s)" by (intro unres_queued [OF assms(1)])
  then obtain xs ys where split: "order s = xs @ f0 # ys" by (meson split_list)
  with inv(1) have lt: "\<forall>x \<in> set xs. x < f0" "\<forall>y \<in> set ys. f0 < y"
    by (simp_all add: sorted_wrt_append)
  have same: "resolved s2 T key x = resolved s T key x" if "x \<notin> set fids" for x
    using that rel(3,5) by (simp add: resolved_def)
  have xs: "resolved s2 T key x = resolved s T key x" if "x \<in> set xs" for x
    using that lt(1) rel(7,8) f0_def by (intro same) (metis leD)
  have ys1: "resolved s T key y = []" if "y \<in> set ys" for y
    using that lt(2) f0(2) inv(7) no_key_no_text unfolding resolved_def by (metis less_imp_le)
  have ys2: "resolved s2 T key y = []" if "y \<in> set ys" for y
  proof (cases "y \<in> set fids")
    case True
    with that lt(2) fr(5) show ?thesis by (auto simp: resolved_def f0_def)
  qed (use same ys1 that in simp)
  have "resolved s T key f0 = []" "resolved s2 T key f0 = t"
    using f0 fr(5) [of f0] rel(5) [of f0 key] by (simp_all add: resolved_def f0_def)
  with xs ys1 ys2 show "resolved_text s2 T key = resolved_text s T key @ t"
    by (simp add: resolved_text_def rel(1) split concat_map_Nil cong: map_cong)
qed

lemma released_step:
  assumes "queue_inv T s" and "\<And>f. (f, key) \<notin> T"
    and "ChoiceRedactor_advance e w f (get_choice s key) = (cr', Inr (CP_Release t fids))"
  obtains head where "released T key t fids s (apply_release key t fids (put_choice key cr' s))"
    and "cr_pending (get_choice s key) = head @ cr_pending cr'" and "head \<noteq> []"
    and "scanned_ok e head" and "t = rewritten e head" and "cr_ok cr'"
    and "cut_safe e w f head (cr_pending cr')"
proof -
  let ?s2 = "apply_release key t fids (put_choice key cr' s)"
  note inv = queue_invD [OF assms(1)]
  from advance_release_spec [OF inv(8) assms(3)] obtain head covered rest where
    head: "cr_pending (get_choice s key) = head @ cr_pending cr'" "head \<noteq> []" "scanned_ok e head"
      "t = rewritten e head" and
    bs: "boundaries (get_choice s key) = covered @ rest" "fids = map snd covered" "covered \<noteq> []"
      "map snd (boundaries cr') = map snd rest" and ok: "cr_ok cr'" and
    cut: "cut_safe e w f head (cr_pending cr')" by metis
  have sorted: "sorted_wrt (<) (fids @ map snd rest)"
    using inv(8) [of key] bs(1,2) by (simp add: cr_ok_def)
  have gc: "get_choice ?s2 = (get_choice s)(key := cr')"
    by (rule ext) (simp add: get_choice_cong [OF apply_release_choices])
  have un: "unres s T g key \<longleftrightarrow> g \<in> set fids \<or> g \<in> set (map snd rest)" for g
    using assms(2) bs(1,2) by (auto simp: unres_def)
  have un2: "unres ?s2 T g k \<longleftrightarrow> (if k = key then g \<in> set (map snd rest) else unres s T g k)" for g k
    using assms(2) by (simp add: unres_def gc bs(4) del: set_map)
  have lt: "\<forall>x \<in> set fids. \<forall>y \<in> set (map snd rest). x < y" and "sorted_wrt (<) fids"
    using sorted by (simp_all add: sorted_wrt_append)
  have ne: "fids \<noteq> []" using bs(2,3) by simp
  have hd: "hd fids \<le> g" if "g \<in> set fids \<or> g \<in> set (map snd rest)" for g
  proof -
    from ne obtain a l where "fids = a # l" by (cases fids) simp_all
    with that sorted have "g = a \<or> a < g" by auto
    with \<open>fids = a # l\<close> show ?thesis by auto
  qed
  have d: "distinct fids" using \<open>sorted_wrt (<) fids\<close> by (rule sorted_wrt_less_distinct)
  have "released T key t fids s ?s2"
    unfolding released_def
  proof (intro conjI allI)
    show "unres ?s2 T g k = (unres s T g k \<and> \<not> (k = key \<and> g \<in> set fids))" for g k
    proof (cases "k = key")
      case True
      have "g \<in> set fids \<Longrightarrow> g \<notin> set (map snd rest)" using lt by blast
      with True un2 [of g key] un [of g] show ?thesis by (simp only: if_True simp_thms) blast
    qed (simp add: un2)
    show "\<forall>g \<in> set fids. \<forall>g'. unres ?s2 T g' key \<longrightarrow> g < g'" using un2 lt by auto
    show "\<forall>g \<in> set fids. unres s T g key" using un by blast
    show "unres s T g key \<longrightarrow> hd fids \<le> g" for g using un hd by blast
  qed (use ne \<open>sorted_wrt (<) fids\<close> apply_release_at [OF d] in simp_all)
  with head ok cut that show thesis by blast
qed

text \<open>A release moves a segment of the pending text, redacted, to the resolved text.\<close>

lemma release_inv:
  assumes "sse_inv W fin e R T E s" and "\<And>f. (f, key) \<notin> T"
    and "ChoiceRedactor_advance e W f (get_choice s key) = (cr', Inr (CP_Release t fids))"
    and "f \<Longrightarrow> fin"
  shows "sse_inv W fin e R T E (apply_release key t fids (put_choice key cr' s))"
proof -
  let ?s2 = "apply_release key t fids (put_choice key cr' s)"
  have q: "queue_inv T s" using assms(1) by (simp add: sse_inv_def)
  obtain head where rel: "released T key t fids s ?s2"
    and head: "cr_pending (get_choice s key) = head @ cr_pending cr'" "head \<noteq> []" "scanned_ok e head"
      "t = rewritten e head" and ok: "cr_ok cr'"
    and cut: "cut_safe e W f head (cr_pending cr')"
    using released_step [OF q assms(2,3)] by blast
  have cut': "cut_safe e W fin head (cr_pending cr')"
    using cut assms(4) cut_safe_fin by (cases f) simp_all
  have gc: "get_choice ?s2 k = (if k = key then cr' else get_choice s k)" for k
    by (simp add: get_choice_cong [OF apply_release_choices])
  have "queue_inv T ?s2"
    by (rule released_queue [OF q rel]) (simp add: gc ok queue_invD(8) [OF q])
  moreover have "text_inv W fin e R T E ?s2 k" for k
  proof (cases "k = key")
    case True
    from assms(1) obtain d where d: "R key = d @ cr_pending (get_choice s key)"
      "segmented e W fin d (cr_pending (get_choice s key)) (emitted_text E key @ resolved_text s T key)"
      unfolding sse_inv_def text_inv_def by blast
    from segmented_snoc [OF head(2,3) cut' d(2) [unfolded head(1)]] d(1) head(1) True show ?thesis
      unfolding text_inv_def head(4) [symmetric]
      by (intro exI [of _ "d @ head"]) (simp add: gc released_text(1) [OF q rel])
  next
    case False
    have "text_inv W fin e R T E s k" using assms(1) unfolding sse_inv_def by blast
    with False show ?thesis
      by (simp add: text_inv_def gc released_text(2) [OF q rel False])
  qed
  ultimately show ?thesis by (simp add: sse_inv_def)
qed

text \<open>A release keeps the frames in place: passthrough frames as they are, data frames with the same
  fields.\<close>

definition same_kind :: "frame option \<Rightarrow> frame option \<Rightarrow> bool" where
  "same_kind a b \<longleftrightarrow>
     (case a of
        Some (F_Data chunk) \<Rightarrow>
          (\<exists>chunk'. b = Some (F_Data chunk') \<and>
             fst ` set (delta_contents chunk') = fst ` set (delta_contents chunk))
      | _ \<Rightarrow> b = a)"

definition kept :: "sse_holdback \<Rightarrow> sse_holdback \<Rightarrow> bool" where
  "kept s s' \<longleftrightarrow> order s' = order s \<and> (\<forall>f. same_kind (map_of (frames s) f) (map_of (frames s') f))"

lemma same_kind_refl: "same_kind a a"
  by (simp add: same_kind_def split: option.split frame.split)

lemma same_kind_trans: "same_kind a b \<Longrightarrow> same_kind b c \<Longrightarrow> same_kind a c"
  by (auto simp: same_kind_def split: option.splits frame.splits)

lemma kept_trans: "kept s s' \<Longrightarrow> kept s' s'' \<Longrightarrow> kept s s''"
  unfolding kept_def by (metis same_kind_trans)

lemma kept_same: "order s' = order s \<Longrightarrow> frames s' = frames s \<Longrightarrow> kept s s'"
  by (simp add: kept_def same_kind_refl)

lemma put_text_same_kind: "frame_ok fr \<Longrightarrow> has_key key fr \<Longrightarrow> same_kind fr (put_text key t fr)"
proof -
  assume "frame_ok fr" and "has_key key fr"
  then obtain chunk where fr: "fr = Some (F_Data chunk)" "chunk_ok chunk"
    "key \<in> fst ` set (delta_contents chunk)" by (auto simp: has_key_def frame_ok_def)
  from set_delta_content_spec(1) [OF fr(2,3), of t]
  have "map fst (delta_contents (fst (set_delta_content chunk key t))) = map fst (delta_contents chunk)"
    by simp
  then have "set (map fst (delta_contents (fst (set_delta_content chunk key t)))) =
      set (map fst (delta_contents chunk))" by (rule arg_cong)
  with fr(1) show ?thesis by (simp add: same_kind_def put_text_def)
qed

lemma release_kept:
  assumes "sse_inv W fin e R T E s" and "\<And>f. (f, key) \<notin> T"
    and "ChoiceRedactor_advance e w f (get_choice s key) = (cr', Inr (CP_Release t fids))"
  shows "kept s (apply_release key t fids (put_choice key cr' s))"
proof -
  let ?s2 = "apply_release key t fids (put_choice key cr' s)"
  have q: "queue_inv T s" using assms(1) by (simp add: sse_inv_def)
  obtain head where rel: "released T key t fids s ?s2" using released_step [OF q assms(2,3)] by blast
  note r = releasedD [OF rel] and inv = queue_invD [OF q]
  have "same_kind (map_of (frames s) g) (map_of (frames ?s2) g)" for g
    unfolding r(3) using put_text_same_kind [OF inv(4) inv(5) [OF r(7)]]
    by (cases "g \<in> set fids") (simp_all add: same_kind_refl)
  then show ?thesis by (simp add: kept_def)
qed

section \<open>Reading a line keeps the invariant\<close>

lemma put_choice_twice: "put_choice key c (put_choice key c0 s) = put_choice key c s"
  by (simp add: put_choice_def update_last)

lemma snoc_inv:
  fixes t :: string
  assumes "sse_inv W False e R (insert (fid, key) T) E s" and "\<And>f. (f, key) \<notin> T"
    and "fid \<notin> set (map snd (boundaries (get_choice s key)))" and "frame_seq s = Suc fid"
  defines "cr \<equiv> get_choice s key"
  defines "s1 \<equiv> put_choice key (cr\<lparr>cr_pending := cr_pending cr @ t,
       boundaries := boundaries cr @ [(length (cr_pending cr @ t), fid)]\<rparr>) s"
  shows "sse_inv W False e (R(key := R key @ t)) T E s1"
proof -
  note q = assms(1) [unfolded sse_inv_def, THEN conjunct1]
  note inv = queue_invD [OF q]
  have un: "unres s1 T f k \<longleftrightarrow> unres s (insert (fid, key) T) f k" for f k
    using assms(2) by (auto simp: unres_def cr_def s1_def)
  have lt: "\<forall>b \<in> set (boundaries cr). snd b < fid"
  proof
    fix b assume b: "b \<in> set (boundaries cr)"
    then have "unres s (insert (fid, key) T) (snd b) key" by (simp add: unres_def cr_def)
    then have "snd b < Suc fid" using unres_queued [OF q] inv(2) assms(4) by metis
    moreover have "snd b \<noteq> fid" using b assms(3) by (auto simp: cr_def)
    ultimately show "snd b < fid" by simp
  qed
  have ok: "cr_ok (get_choice s1 k)" for k
    using cr_ok_snoc [OF inv(8) [of key] lt [unfolded cr_def]] inv(8) [of k] by (simp add: cr_def s1_def)
  have same: "frames s1 = frames s" "order s1 = order s" "frame_seq s1 = frame_seq s" "aw s1 = aw s"
    by (simp_all add: s1_def)
  have "queue_inv T s1"
    by (rule queue_invI, unfold un same) (fact inv(1-7) ok)+
  moreover have "text_inv W False e (R(key := R key @ t)) T E s1 k" for k
  proof -
    have "resolved_text s1 T k = resolved_text s (insert (fid, key) T) k"
      by (simp add: resolved_text_def resolved_def [abs_def] un same cong: if_cong)
    moreover have "text_inv W False e R (insert (fid, key) T) E s k" using assms(1) unfolding sse_inv_def by blast
    ultimately show ?thesis
      using segmented_grow by (auto simp: text_inv_def cr_def s1_def)
  qed
  ultimately show ?thesis by (simp add: sse_inv_def)
qed

lemma ingest_contents_inv:
  assumes "ingest_contents e fid cs s = (s', Inr None)" and "distinct (map fst cs)"
    and "sse_inv W False e R ({fid} \<times> fst ` set cs) E s" and "frame_seq s = Suc fid"
    and "sse_window s = W"
    and "\<And>k. k \<in> fst ` set cs \<Longrightarrow> fid \<notin> set (map snd (boundaries (get_choice s k)))"
  shows "sse_inv W False e (\<lambda>k. R k @ text_of k cs) {} E s' \<and> kept s s'"
  using assms
proof (induction cs arbitrary: s R)
  case Nil
  then show ?case by (simp add: kept_same)
next
  case (Cons p cs)
  obtain key t where p: "p = (key, t)" by fastforce
  define T where "T = {fid} \<times> fst ` set cs"
  define cr where "cr = get_choice s key"
  define cr1 where "cr1 = cr\<lparr>cr_pending := cr_pending cr @ t,
      boundaries := boundaries cr @ [(length (cr_pending cr @ t), fid)]\<rparr>"
  define R1 where "R1 = R(key := R key @ t)"
  have noT: "(f, key) \<notin> T" for f using Cons.prems(2) p by (auto simp: T_def)
  have ins: "{fid} \<times> fst ` set (p # cs) = insert (fid, key) T" by (auto simp: p T_def)
  have i1: "sse_inv W False e R1 T E (put_choice key cr1 s)"
    using snoc_inv [of W e R fid key T E s t] Cons.prems(3,4,6) noT p
    unfolding ins by (simp add: cr_def cr1_def R1_def)
  obtain c' res where push: "ChoiceRedactor_advance e (sse_window s) False cr1 = (c', res)" by fastforce
  then have push': "ChoiceRedactor_push e (sse_window s) fid t (get_choice s key) = (c', res)"
    by (simp add: ChoiceRedactor_push_def Let_def cr1_def cr_def)
  have R: "(\<lambda>k. R1 k @ text_of k cs) = (\<lambda>k. R k @ text_of k (p # cs))"
    by (auto simp: R1_def p)
  have fresh: "fid \<notin> set (map snd (boundaries (get_choice s k)))" "k \<noteq> key" if "k \<in> fst ` set cs" for k
    using that Cons.prems(2) Cons.prems(6) [of k] p by auto
  consider "res = Inr CP_Nothing" | t' fids where "res = Inr (CP_Release t' fids)"
    using Cons.prems(1) push' p by (cases res; cases "projr res") auto
  then show ?case
  proof cases
    case 1
    with push have "c' = cr1" using advance_nothing by blast
    with 1 Cons.prems(1) push' p have "ingest_contents e fid cs (put_choice key cr1 s) = (s', Inr None)"
      by simp
    from Cons.IH [OF this _ i1 [unfolded T_def]] Cons.prems(2,4,5) fresh p
    have "sse_inv W False e (\<lambda>k. R1 k @ text_of k cs) {} E s' \<and> kept (put_choice key cr1 s) s'" by simp
    then show ?thesis
      using kept_trans [OF kept_same, of "put_choice key cr1 s" s s'] by (simp add: R)
  next
    case 2
    define s2 where "s2 = apply_release key t' fids (put_choice key c' s)"
    have "sse_inv W False e R1 T E s2"
      using release_inv [OF i1 noT, of False c' t' fids] push 2 Cons.prems(5)
      by (simp add: s2_def put_choice_twice)
    moreover have "kept s s2"
      using release_kept [OF i1 noT, of "sse_window s" False c' t' fids] push 2
        kept_trans [OF kept_same, of "put_choice key cr1 s" s s2]
      by (simp add: s2_def put_choice_twice)
    moreover have "ingest_contents e fid cs s2 = (s', Inr None)"
      using Cons.prems(1) push' p 2 by (simp add: s2_def)
    moreover have "get_choice s2 k = get_choice s k" if "k \<noteq> key" for k
      using that by (simp add: s2_def get_choice_cong [OF apply_release_choices])
    ultimately show ?thesis
      using Cons.IH [of s2 R1] Cons.prems(2,4,5) fresh p kept_trans [of s s2 s']
      by (simp add: R T_def s2_def)
  qed
qed

text \<open>Queueing a frame with its count of open fields.\<close>

definition frame_keys :: "frame \<Rightarrow> content_key set" where
  "frame_keys fr = (case fr of F_Data chunk \<Rightarrow> fst ` set (delta_contents chunk) | _ \<Rightarrow> {})"

lemma has_key_frame: "has_key k (Some fr) \<longleftrightarrow> k \<in> frame_keys fr"
  by (simp add: has_key_def frame_keys_def split: frame.split)

lemma finite_frame_keys [simp]: "finite (frame_keys fr)"
  by (simp add: frame_keys_def split: frame.split)

lemma queued_inv:
  assumes "sse_inv W fin e R {} E s" and "frame_ok (Some fr)"
    and "order s1 = order s @ [frame_seq s]" and "frame_seq s1 = Suc (frame_seq s)"
    and "frames s1 = AList.update (frame_seq s) fr (frames s)" and "choices s1 = choices s"
    and "\<And>f. aw s1 f = (if f = frame_seq s then card (frame_keys fr) else aw s f)"
  shows "sse_inv W fin e R ({frame_seq s} \<times> frame_keys fr) E s1" (is "sse_inv W fin e R ?T E s1")
proof -
  let ?n = "frame_seq s"
  have q: "queue_inv {} s" using assms(1) by (simp add: sse_inv_def)
  note inv = queue_invD [OF q]
  note gc = get_choice_cong [OF assms(6)]
  have new: "?n \<notin> set (order s)" using inv(2) by blast
  have none: "\<not> unres s {} ?n k" for k using unres_queued [OF q] new by blast
  have fr: "map_of (frames s1) f = (if f = ?n then Some fr else map_of (frames s) f)" for f
    by (simp add: assms(5) update_conv')
  have un: "unres s1 ?T f k \<longleftrightarrow> (if f = ?n then k \<in> frame_keys fr else unres s {} f k)" for f k
    using none [of k] by (auto simp: unres_def gc)
  have "queue_inv ?T s1"
  proof (rule queue_invI)
    show "unres s1 ?T f' k" if "unres s1 ?T f k" "f \<le> f'" "has_key k (map_of (frames s1) f')" for k f f'
    proof (cases "f' = ?n")
      case True
      with that(3) show ?thesis by (simp add: un fr has_key_frame)
    next
      case False
      with that(3) have old: "has_key k (map_of (frames s) f')" by (simp add: fr)
      then have "f' < ?n" using inv(2,3) unfolding has_key_def by blast
      with that(1,2) have "unres s {} f k" by (simp add: un split: if_splits)
      with False inv(7) [OF _ that(2) old] show ?thesis by (simp add: un)
    qed
    show "aw s1 f = card {k. unres s1 ?T f k}" for f
      using inv(6) [of f] assms(7) [of f] by (simp add: un)
    show "has_key k (map_of (frames s1) f)" if "unres s1 ?T f k" for f k
      using that inv(5) [of f k] by (simp add: un fr has_key_frame split: if_splits)
    show "sorted_wrt (<) (order s1)" using inv(1,2) by (simp add: assms(3) sorted_wrt_append)
    show "f < frame_seq s1" if "f \<in> set (order s1)" for f
      using that inv(2) [of f] by (auto simp: assms(3,4))
    show "(map_of (frames s1) f \<noteq> None) = (f \<in> set (order s1))" for f
      using inv(3) [of f] by (auto simp: fr assms(3))
    show "frame_ok (map_of (frames s1) f)" "cr_ok (get_choice s1 k)" for f k
      using inv(4) [of f] inv(8) [of k] assms(2) by (simp_all add: fr gc)
  qed
  moreover have "text_inv W fin e R ?T E s1 k" for k
  proof -
    have "resolved s1 ?T k ?n = []"
      using no_key_no_text [of k "Some fr"] by (simp add: resolved_def un fr has_key_frame)
    moreover have "resolved s1 ?T k f = resolved s {} k f" if "f \<in> set (order s)" for f
      using that new by (auto simp: resolved_def un fr)
    ultimately have "resolved_text s1 ?T k = resolved_text s {} k"
      by (simp add: resolved_text_def assms(3) cong: map_cong)
    moreover have "text_inv W fin e R {} E s k" using assms(1) unfolding sse_inv_def by blast
    ultimately show ?thesis by (simp add: text_inv_def gc)
  qed
  ultimately show ?thesis by (simp add: sse_inv_def)
qed

definition line_text :: "json_codec \<Rightarrow> string \<Rightarrow> content_key \<Rightarrow> string" where
  "line_text cd raw k = text_of k (stream_contents (data_of cd [raw]))"

definition line_ok :: "json_codec \<Rightarrow> string \<Rightarrow> bool" where
  "line_ok cd raw \<longleftrightarrow> list_all chunk_ok (data_of cd [raw])"

lemma aw_queue_frame [simp]: "aw (queue_frame fid fr s) = aw s"
  by (simp add: aw_def fun_eq_iff queue_frame_def)

lemma aw_frame_seq [simp]: "aw (s\<lparr>frame_seq := n\<rparr>) = aw s" "aw (s\<lparr>opaque_redactions := m\<rparr>) = aw s"
  by (simp_all add: aw_def fun_eq_iff)

lemma aw_new: "sse_inv W fin e R {} E s \<Longrightarrow> aw s (frame_seq s) = 0"
proof -
  assume "sse_inv W fin e R {} E s"
  then have q: "queue_inv {} s" by (simp add: sse_inv_def)
  have "{k. unres s {} (frame_seq s) k} = {}"
    using unres_queued [OF q] queue_invD(2) [OF q] by blast
  then show ?thesis using queue_invD(6) [OF q, of "frame_seq s"] by (simp only: card.empty)
qed

lemma queued_passthrough:
  assumes "sse_inv W fin e R {} E s" and "order s1 = order s @ [frame_seq s]"
    and "frame_seq s1 = Suc (frame_seq s)" and "choices s1 = choices s"
    and "frames s1 = AList.update (frame_seq s) (F_Passthrough raw) (frames s)" and "aw s1 = aw s"
  shows "sse_inv W fin e R {} E s1"
  using queued_inv [OF assms(1) _ assms(2,3,5,4)] assms(6) aw_new [OF assms(1)]
  by (simp add: frame_keys_def frame_ok_def)

text \<open>How a queued frame corresponds to the line it came from.\<close>

definition line_frame :: "json_codec \<Rightarrow> engine \<Rightarrow> string \<Rightarrow> frame \<Rightarrow> bool" where
  "line_frame cd e raw fr \<longleftrightarrow>
     (case classify_line cd raw of
        CL_Passthrough \<Rightarrow> fr = F_Passthrough raw
      | CL_Opaque \<Rightarrow> scanned_ok e raw \<and> fr = F_Passthrough (rewritten e raw)
      | CL_Data chunk \<Rightarrow> same_kind (Some (F_Data chunk)) (Some fr))"

definition queued :: "sse_holdback \<Rightarrow> frame list" where
  "queued s = map (\<lambda>f. the (map_of (frames s) f)) (order s)"

lemma kept_queued:
  assumes "kept s s'" and "list_all2 (line_frame cd e) L (E @ queued s)"
    and "\<And>f. f \<in> set (order s) \<Longrightarrow> map_of (frames s) f \<noteq> None"
  shows "list_all2 (line_frame cd e) L (E @ queued s')"
proof -
  have step: "line_frame cd e raw (the (map_of (frames s') f))"
    if f: "f \<in> set (order s)" and raw: "line_frame cd e raw (the (map_of (frames s) f))" for raw f
  proof -
    from assms(3) [OF f] obtain fr where fr: "map_of (frames s) f = Some fr" by blast
    have kind: "same_kind (Some fr) (map_of (frames s') f)" using assms(1) fr unfolding kept_def by metis
    then obtain fr' where fr': "map_of (frames s') f = Some fr'"
      by (auto simp: same_kind_def split: frame.splits)
    show ?thesis
    proof (cases fr)
      case (F_Passthrough x)
      with kind fr' have "fr' = fr" by (simp add: same_kind_def)
      with raw fr fr' show ?thesis by simp
    next
      case (F_Data chunk)
      with raw fr fr' kind show ?thesis
        by (auto simp: line_frame_def split: classified_line.splits intro: same_kind_trans)
    qed
  qed
  from assms(2) obtain L1 L2 where L: "L = L1 @ L2" "list_all2 (line_frame cd e) L1 E"
    "list_all2 (line_frame cd e) L2 (queued s)" by (auto simp: list_all2_append2)
  have "list_all2 (line_frame cd e) L2 (queued s')"
    using L(3) assms(1) step unfolding queued_def kept_def
    by (auto simp: list_all2_conv_all_nth)
  with L show ?thesis by (simp add: list_all2_appendI)
qed

lemma queued_snoc:
  assumes "sse_inv W fin e R T E s" and "order s1 = order s @ [frame_seq s]"
    and "frames s1 = AList.update (frame_seq s) fr (frames s)"
  shows "queued s1 = queued s @ [fr]"
proof -
  have "f \<noteq> frame_seq s" if "f \<in> set (order s)" for f
    using that assms(1) queue_invD(2) [of T s f] unfolding sse_inv_def by blast
  then show ?thesis by (auto simp: queued_def assms(2,3) update_conv')
qed

text \<open>The invariant of a run: \<open>L\<close> are the lines read, \<open>E\<close> the frames emitted.\<close>

definition read_text :: "json_codec \<Rightarrow> string list \<Rightarrow> content_key \<Rightarrow> string" where
  "read_text cd L k = text_of k (stream_contents (data_of cd L))"

definition run_inv ::
  "nat \<Rightarrow> bool \<Rightarrow> json_codec \<Rightarrow> engine \<Rightarrow> string list \<Rightarrow> frame list \<Rightarrow> sse_holdback \<Rightarrow> bool" where
  "run_inv W fin cd e L E s \<longleftrightarrow>
     sse_inv W fin e (read_text cd L) {} E s \<and> list_all2 (line_frame cd e) L (E @ queued s) \<and>
     sse_window s = W"

lemma data_of_append: "data_of cd (L @ M) = data_of cd L @ data_of cd M"
  by (induction L) (auto split: classified_line.split)

lemma read_text_snoc: "read_text cd (L @ [raw]) = (\<lambda>k. read_text cd L k @ line_text cd raw k)"
  by (simp add: fun_eq_iff read_text_def line_text_def data_of_append stream_contents_def)

lemma queued_some: "sse_inv W fin e R T E s \<Longrightarrow> f \<in> set (order s) \<Longrightarrow> map_of (frames s) f \<noteq> None"
  using queue_invD(3) [of T s f] by (simp add: sse_inv_def)

lemma ingest_contents_same:
  "sse_window (fst (ingest_contents e fid cs s)) = sse_window s \<and>
   sse_blocked (fst (ingest_contents e fid cs s)) = sse_blocked s"
proof (induction cs arbitrary: s)
  case (Cons p cs)
  then show ?case
    by (cases p) (simp add: case_prod_beta Let_def split: sum.split choice_push.split)
qed simp

lemma ingest_data_inv:
  assumes "run_inv W False cd e L E s" and "classify_line cd raw = CL_Data chunk" and "chunk_ok chunk"
    and "ingest_line cd e raw s = (s', Inr None)"
  shows "run_inv W False cd e (L @ [raw]) E s'"
proof -
  let ?cs = "delta_contents chunk" and ?n = "frame_seq s"
  let ?s1 = "queue_frame ?n (F_Data chunk) (s\<lparr>frame_seq := Suc ?n\<rparr>)"
  have inv: "sse_inv W False e (read_text cd L) {} E s" using assms(1) by (simp add: run_inv_def)
  then have q: "queue_inv {} s" by (simp add: sse_inv_def)
  have d: "distinct (map fst ?cs)" by (rule distinct_delta_contents [OF assms(3)])
  define s2 where "s2 = (if ?cs = [] then ?s1
      else ?s1\<lparr>awaiting := AList.update ?n (length ?cs) (awaiting ?s1)\<rparr>)"
  have s2: "order s2 = order s @ [?n]" "frames s2 = AList.update ?n (F_Data chunk) (frames s)"
    "frame_seq s2 = Suc ?n" "choices s2 = choices s" "sse_window s2 = W"
    using assms(1) by (simp_all add: s2_def queue_frame_def run_inv_def)
  have "card (fst ` set ?cs) = length ?cs" using distinct_card [OF d] by simp
  then have i2: "sse_inv W False e (read_text cd L) ({?n} \<times> fst ` set ?cs) E s2"
    using queued_inv [OF inv, of "F_Data chunk" s2] aw_new [OF inv] assms(3)
    by (auto simp: s2_def queue_frame_def frame_keys_def frame_ok_def aw_def update_conv')
  moreover have ing: "ingest_contents e ?n ?cs s2 = (s', Inr None)"
    using assms(2,4) by (auto simp: ingest_line_def s2_def Let_def)
  moreover have "?n \<notin> set (map snd (boundaries (get_choice s2 k)))" for k
    using unres_queued [OF q, of ?n k] queue_invD(2) [OF q, of ?n] get_choice_cong [OF s2(4)]
    by (auto simp: unres_def)
  ultimately have res: "sse_inv W False e (\<lambda>k. read_text cd L k @ text_of k ?cs) {} E s'" "kept s2 s'"
    using ingest_contents_inv [OF _ d] s2(3,5) by blast+
  have w: "sse_window s' = W" using ingest_contents_same [of e ?n ?cs s2] ing s2(5) by simp
  have "list_all2 (line_frame cd e) (L @ [raw]) ((E @ queued s) @ [F_Data chunk])"
    using assms(1,2) by (intro list_all2_appendI) (simp_all add: run_inv_def line_frame_def same_kind_refl)
  then have "list_all2 (line_frame cd e) (L @ [raw]) (E @ queued s2)"
    using queued_snoc [OF inv s2(1,2)] by simp
  from kept_queued [OF res(2) this queued_some [OF i2]] res(1) assms(2) w show ?thesis
    by (simp add: run_inv_def read_text_snoc line_text_def)
qed

lemma ingest_passthrough_inv:
  assumes "run_inv W False cd e L E s" and "line_frame cd e raw (F_Passthrough x)" and "data_of cd [raw] = []"
    and "order s' = order s @ [frame_seq s]" and "frame_seq s' = Suc (frame_seq s)"
    and "choices s' = choices s"
    and "frames s' = AList.update (frame_seq s) (F_Passthrough x) (frames s)" and "aw s' = aw s"
    and "sse_window s' = sse_window s"
  shows "run_inv W False cd e (L @ [raw]) E s'"
proof -
  have inv: "sse_inv W False e (read_text cd L) {} E s" using assms(1) by (simp add: run_inv_def)
  have "list_all2 (line_frame cd e) (L @ [raw]) ((E @ queued s) @ [F_Passthrough x])"
    using assms(1,2) by (intro list_all2_appendI) (simp_all add: run_inv_def)
  then show ?thesis
    using queued_passthrough [OF inv assms(4-8)] queued_snoc [OF inv assms(4,7)] assms(1,3,9)
    by (simp add: run_inv_def read_text_snoc line_text_def)
qed

lemma ingest_line_inv:
  assumes "run_inv W False cd e L E s" and "line_ok cd raw" and "ingest_line cd e raw s = (s', Inr None)"
  shows "run_inv W False cd e (L @ [raw]) E s'"
proof (cases "classify_line cd raw")
  case (CL_Data chunk)
  then show ?thesis
    using ingest_data_inv [OF assms(1) CL_Data _ assms(3)] assms(2) by (simp add: line_ok_def)
next
  case CL_Passthrough
  then have "s' = queue_frame (frame_seq s) (F_Passthrough raw) (s\<lparr>frame_seq := Suc (frame_seq s)\<rparr>)"
    using assms(3) by (simp add: ingest_line_def Let_def)
  then show ?thesis
    by (intro ingest_passthrough_inv [OF assms(1), of raw raw])
      (simp_all add: line_frame_def CL_Passthrough queue_frame_def aw_def fun_eq_iff)
next
  case CL_Opaque
  then obtain x where "order s' = order s @ [frame_seq s]" "frame_seq s' = Suc (frame_seq s)"
    "choices s' = choices s" "frames s' = AList.update (frame_seq s) (F_Passthrough x) (frames s)"
    "aw s' = aw s" "scanned_ok e raw" "x = rewritten e raw" "sse_window s' = sse_window s"
    using assms(3) by (auto simp: ingest_line_def queue_frame_def Let_def aw_def fun_eq_iff
        scanned_ok_def rewritten_def Verdict_is_blocked_def split: sum.splits verdict.splits)
  then show ?thesis
    by (intro ingest_passthrough_inv [OF assms(1), of raw x]) (simp_all add: line_frame_def CL_Opaque)
qed

section \<open>Draining the queue\<close>

lemma pop_frame_same [simp]:
  "choices (pop_frame s) = choices s" "line_buf (pop_frame s) = line_buf s"
  "sse_window (pop_frame s) = sse_window s" "sse_blocked (pop_frame s) = sse_blocked s"
  by (simp_all add: pop_frame_def split: list.split)

lemma pop_inv:
  assumes "run_inv W fin cd e L E s" and "order s = fid # fids" and "frame_ready s fid"
  obtains fr where "map_of (frames s) fid = Some fr" and "run_inv W fin cd e L (E @ [fr]) (pop_frame s)"
proof -
  let ?s = "pop_frame s"
  have inv: "sse_inv W fin e (read_text cd L) {} E s" using assms(1) by (simp add: run_inv_def)
  then have q: "queue_inv {} s" by (simp add: sse_inv_def)
  note i = queue_invD [OF q]
  from i(3) [of fid] assms(2) obtain fr where fr: "map_of (frames s) fid = Some fr" by auto
  have new: "fid \<notin> set fids" using i(1) assms(2) by auto
  have pop: "order ?s = fids" "frames ?s = AList.delete fid (frames s)" "choices ?s = choices s"
    "frame_seq ?s = frame_seq s"
    by (simp_all add: pop_frame_def assms(2))
  have frs: "map_of (frames ?s) f = (if f = fid then None else map_of (frames s) f)" for f
    by (simp add: pop(2) delete_conv')
  have aws: "aw ?s f = (if f = fid then 0 else aw s f)" for f
    by (simp add: aw_def pop_frame_def assms(2) delete_conv')
  have un: "unres ?s {} f k \<longleftrightarrow> unres s {} f k" for f k
    by (simp add: unres_def get_choice_cong [OF pop(3)])
  have "aw s fid = 0" using assms(3) by (simp add: frame_ready_def aw_def)
  then have none: "{k. unres s {} fid k} = {}"
    using i(6) [of fid] finite_unres [OF q, of fid] by (simp only: card_0_eq)
  then have free: "\<not> unres s {} fid k" for k by blast
  have "queue_inv {} ?s"
  proof (rule queue_invI)
    show "aw ?s f = card {k. unres ?s {} f k}" for f
      unfolding aws un using none i(6) [of f] by (cases "f = fid") (simp_all only: if_cancel if_False card.empty)
    show "unres ?s {} f' k" if "unres ?s {} f k" "f \<le> f'" "has_key k (map_of (frames ?s) f')" for k f f'
      using that i(7) [of f k f'] by (simp add: un frs has_key_def split: if_splits)
    show "has_key k (map_of (frames ?s) f)" if "unres ?s {} f k" for f k
      using that i(5) [of f k] free [of k] by (auto simp: un frs)
    show "(map_of (frames ?s) f \<noteq> None) = (f \<in> set (order ?s))" for f
      using i(3) [of f] new by (auto simp: frs pop(1) assms(2))
  qed (use i(1,2,4,8) assms(2) in \<open>simp_all add: pop(1,4) frs frame_ok_def get_choice_cong [OF pop(3)]\<close>)
  moreover have "text_inv W fin e (read_text cd L) {} (E @ [fr]) ?s k" for k
  proof -
    have "resolved s {} k fid = frame_text k (Some fr)" using free fr by (simp add: resolved_def)
    moreover have "resolved ?s {} k f = resolved s {} k f" if "f \<in> set fids" for f
      using that new by (auto simp: resolved_def un frs)
    ultimately have "resolved_text s {} k = frame_text k (Some fr) @ resolved_text ?s {} k"
      by (simp add: resolved_text_def assms(2) pop(1) cong: map_cong)
    moreover have "text_inv W fin e (read_text cd L) {} E s k" using inv unfolding sse_inv_def by blast
    ultimately show ?thesis
      by (simp add: text_inv_def emitted_text_def get_choice_cong [OF pop(3)])
  qed
  moreover have "queued s = fr # queued ?s"
    using new fr by (auto simp: queued_def assms(2) pop(1) frs)
  ultimately have "run_inv W fin cd e L (E @ [fr]) ?s"
    using assms(1) by (simp add: run_inv_def sse_inv_def)
  with fr that show thesis by blast
qed

definition render_frames :: "json_codec \<Rightarrow> frame list \<Rightarrow> string" where
  "render_frames cd E = concat (map (\<lambda>fr. render_frame cd (Some fr)) E)"

text \<open>Draining emits frames off the front of the queue until the queue is empty or its front frame
  still waits.\<close>

lemma drain_inv:
  assumes "run_inv W fin cd e L E s" and "drain_ready cd s = (s', out)"
  shows "\<exists>E'. out = render_frames cd E' \<and> run_inv W fin cd e L (E @ E') s' \<and>
    (order s' = [] \<or> \<not> frame_ready s' (hd (order s'))) \<and>
    choices s' = choices s \<and> line_buf s' = line_buf s \<and> sse_window s' = sse_window s \<and>
    sse_blocked s' = sse_blocked s"
  using assms
proof (induction cd s arbitrary: E out rule: drain_ready.induct)
  case (1 cd s)
  show ?case
  proof (cases "order s")
    case Nil
    with 1 show ?thesis
      by (intro exI [of _ "[]"]) (simp add: drain_ready.simps [of cd s] render_frames_def)
  next
    case (Cons fid fids)
    show ?thesis
    proof (cases "frame_ready s fid")
      case False
      with 1 Cons show ?thesis
        by (intro exI [of _ "[]"]) (simp add: drain_ready.simps [of cd s] render_frames_def)
    next
      case True
      obtain fr where fr: "map_of (frames s) fid = Some fr" and inv: "run_inv W fin cd e L (E @ [fr]) (pop_frame s)"
        by (rule pop_inv [OF "1.prems"(1) Cons True])
      obtain out' where d: "drain_ready cd (pop_frame s) = (s', out')"
        and out: "out = render_frame cd (Some fr) @ out'"
        using "1.prems"(2) Cons True fr
        by (cases "drain_ready cd (pop_frame s)") (simp add: drain_ready.simps [of cd s])
      from "1.IH" [OF Cons _ inv d] True obtain E' where "out' = render_frames cd E'"
        "run_inv W fin cd e L ((E @ [fr]) @ E') s'" "order s' = [] \<or> \<not> frame_ready s' (hd (order s'))"
        "choices s' = choices s \<and> line_buf s' = line_buf s \<and> sse_window s' = sse_window s \<and>
         sse_blocked s' = sse_blocked s"
        by auto
      with out show ?thesis
        by (intro exI [of _ "fr # E'"]) (simp add: render_frames_def)
    qed
  qed
qed

section \<open>Pushing\<close>

lemma ingest_line_same:
  "sse_window (fst (ingest_line cd e raw s)) = sse_window s"
  "sse_blocked (fst (ingest_line cd e raw s)) = sse_blocked s"
  by (simp_all add: ingest_line_def queue_frame_def ingest_contents_same Let_def
      split: classified_line.split sum.split verdict.split)

lemma split_inclusive_line:
  "break_line buf = Some (raw, rest) \<Longrightarrow> split_inclusive (buf @ x) = raw # split_inclusive (rest @ x)"
  by (subst split_inclusive_break_line) (simp add: break_line_append)

lemma run_inv_cong:
  assumes "order s' = order s" and "frames s' = frames s" and "awaiting s' = awaiting s"
    and "frame_seq s' = frame_seq s" and "get_choice s' = get_choice s"
    and "sse_window s' = sse_window s"
  shows "run_inv W fin cd e L E s' \<longleftrightarrow> run_inv W fin cd e L E s"
  by (simp add: run_inv_def sse_inv_def queue_inv_def text_inv_def unres_def resolved_text_def
      resolved_def [abs_def] queued_def aw_def assms cong: if_cong)

lemma run_inv_buf: "run_inv W fin cd e L E (s\<lparr>line_buf := b\<rparr>) \<longleftrightarrow> run_inv W fin cd e L E s"
  by (rule run_inv_cong) (simp_all add: get_choice_def fun_eq_iff)

lemma push_lines_inv:
  assumes "push_lines cd e s = (s', Inr None)" and "run_inv W False cd e L E s"
    and "list_all (line_ok cd) (split_inclusive (line_buf s @ x))"
  shows "\<exists>M. run_inv W False cd e (L @ M) E s' \<and>
    split_inclusive (line_buf s @ x) = M @ split_inclusive (line_buf s' @ x) \<and>
    newline \<notin> set (line_buf s') \<and> sse_window s' = sse_window s \<and> sse_blocked s' = sse_blocked s"
  using assms
proof (induction cd e s arbitrary: L rule: push_lines.induct)
  case (1 cd e s)
  show ?case
  proof (cases "break_line (line_buf s)")
    case None
    then have "s' = s" using "1.prems"(1) by (simp add: push_lines.simps [of cd e s])
    with None "1.prems"(2) show ?thesis
      by (intro exI [of _ "[]"]) (simp add: break_line_None)
  next
    case (Some p)
    then obtain raw rest where b: "break_line (line_buf s) = Some (raw, rest)" by (cases p) simp
    let ?s = "s\<lparr>line_buf := rest\<rparr>"
    obtain s1 where i: "ingest_line cd e raw ?s = (s1, Inr None)"
      and push: "push_lines cd e s1 = (s', Inr None)"
      using "1.prems"(1) b by (auto simp: push_lines.simps [of cd e s] split: prod.splits sum.splits option.splits)
    have buf: "line_buf s1 = rest" "sse_window s1 = sse_window s" "sse_blocked s1 = sse_blocked s"
      using ingest_line_buf [of cd e raw ?s] ingest_line_same [of cd e raw ?s] i by simp_all
    have ok: "line_ok cd raw" "list_all (line_ok cd) (split_inclusive (line_buf s1 @ x))"
      using "1.prems"(3) split_inclusive_line [OF b] buf(1) by simp_all
    have "run_inv W False cd e L E ?s" using "1.prems"(2) by (simp add: run_inv_buf)
    from ingest_line_inv [OF this ok(1) i] have "run_inv W False cd e (L @ [raw]) E s1" .
    from "1.IH" [OF b refl i [symmetric] refl refl push this ok(2)] obtain M where
      "run_inv W False cd e ((L @ [raw]) @ M) E s' \<and>
       split_inclusive (line_buf s1 @ x) = M @ split_inclusive (line_buf s' @ x) \<and>
       newline \<notin> set (line_buf s') \<and> sse_window s' = sse_window s1 \<and> sse_blocked s' = sse_blocked s1" ..
    then show ?thesis
      using split_inclusive_line [OF b, of x] buf by (intro exI [of _ "raw # M"]) simp
  qed
qed

lemma push_inv:
  assumes "SseHoldBack_push cd e s text = (s', Inr em)" and "\<forall>es. em \<noteq> SE_Blocked es"
    and "run_inv W False cd e L E s" and "\<not> sse_blocked s"
    and "list_all (line_ok cd) (split_inclusive (line_buf s @ text @ x))"
  shows "\<exists>M E'. run_inv W False cd e (L @ M) (E @ E') s' \<and> SseHoldBack_emit (render_frames cd E') = em \<and>
    split_inclusive (line_buf s @ text @ x) = M @ split_inclusive (line_buf s' @ x) \<and>
    newline \<notin> set (line_buf s') \<and> sse_window s' = sse_window s \<and> \<not> sse_blocked s'"
proof -
  let ?s = "s\<lparr>line_buf := line_buf s @ text\<rparr>"
  obtain s1 out where p: "push_lines cd e ?s = (s1, Inr None)" and d: "drain_ready cd s1 = (s', out)"
    and em: "em = SseHoldBack_emit out"
    using assms(1,2,4)
    by (auto simp: SseHoldBack_push_def split: prod.splits sum.splits option.splits)
  have "run_inv W False cd e L E ?s" using assms(3) by (simp add: run_inv_buf)
  from push_lines_inv [OF p this, of x] assms(5) obtain M where
    M: "run_inv W False cd e (L @ M) E s1" "split_inclusive (line_buf s @ text @ x) = M @ split_inclusive (line_buf s1 @ x)"
      "newline \<notin> set (line_buf s1)" "sse_window s1 = sse_window s" "sse_blocked s1 = sse_blocked s"
    by auto
  from drain_inv [OF M(1) d] obtain E' where "out = render_frames cd E'"
    "run_inv W False cd e (L @ M) (E @ E') s'" "line_buf s' = line_buf s1" "sse_window s' = sse_window s1"
    "sse_blocked s' = sse_blocked s1" by blast
  with M em assms(4) show ?thesis by (intro exI [of _ M] exI [of _ E']) simp
qed

section \<open>Flushing\<close>

definition spans_within :: "engine \<Rightarrow> bool" where
  "spans_within e \<longleftrightarrow> (\<forall>t ss. Engine_detect e t = Inr ss \<longrightarrow> (\<forall>s \<in> set ss. s_end s \<le> length t))"

lemma last_boundary_all:
  "bs \<noteq> [] \<Longrightarrow> \<forall>b \<in> set bs. fst b \<le> safe \<Longrightarrow> last_boundary bs safe b0 = fst (last bs)"
  by (induction bs safe b0 rule: last_boundary.induct) (auto split: if_splits)

lemma frame_cut_whole:
  assumes "cr_ok cr" and "cr_pending cr \<noteq> []" and "\<forall>s \<in> set ss. s_end s \<le> length (cr_pending cr)"
  shows "frame_cut (cr_pending cr) ss 0 (boundaries cr) (length (cr_pending cr)) = length (cr_pending cr)"
proof -
  have bs: "boundaries cr \<noteq> []" using assms(1,2) by (auto simp: cr_ok_def)
  then have "last_boundary (boundaries cr) (length (cr_pending cr)) 0 = length (cr_pending cr)"
    using last_boundary_all [OF bs] cr_ok_offset_le [OF assms(1)] assms(1) by (simp add: cr_ok_def)
  then show ?thesis
    by (subst frame_cut.simps) (simp add: safe_prefix_whole [OF assms(3)] Let_def)
qed

text \<open>At the end of the stream a redactor with pending text releases all of it at once.\<close>

lemma flush_all:
  assumes "cr_ok cr" and "cr_pending cr \<noteq> []" and "spans_within e"
    and "ChoiceRedactor_flush e w cr = (cr', Inr res)" and "\<forall>es. res \<noteq> CP_Blocked es"
  shows "\<exists>t fids. res = CP_Release t fids \<and> cr_pending cr' = [] \<and> boundaries cr' = []"
proof -
  obtain ss where ss: "Engine_detect e (cr_pending cr) = Inr ss"
    using assms(2,4) by (auto simp: ChoiceRedactor_flush_def ChoiceRedactor_advance_def split: sum.splits)
  have within: "\<forall>s \<in> set ss. s_end s \<le> length (cr_pending cr)"
    using assms(3) ss unfolding spans_within_def by blast
  have rel: "ChoiceRedactor_release e (length (cr_pending cr)) cr = (cr', Inr res)"
    using assms(2,4,5) ss frame_cut_whole [OF assms(1,2) within]
    by (auto simp: ChoiceRedactor_flush_def ChoiceRedactor_advance_def Let_def split: if_splits)
  obtain t fids where res: "res = CP_Release t fids"
    using rel assms(5) by (auto simp: ChoiceRedactor_release_def Let_def split: sum.splits verdict.splits)
  have "dropWhile (\<lambda>b. fst b \<le> length (cr_pending cr)) (boundaries cr) = []"
    using cr_ok_offset_le [OF assms(1)] by simp
  with release_result(1,2) [OF rel [unfolded res]] res show ?thesis by simp
qed

lemma release_run_inv:
  assumes "run_inv W fin cd e L E s"
    and "ChoiceRedactor_advance e W f (get_choice s key) = (cr', Inr (CP_Release t fids))"
    and "f \<Longrightarrow> fin"
  shows "run_inv W fin cd e L E (apply_release key t fids (put_choice key cr' s))"
proof -
  have inv: "sse_inv W fin e (read_text cd L) {} E s" using assms(1) by (simp add: run_inv_def)
  from release_inv [OF inv _ assms(2,3)]
    kept_queued [OF release_kept [OF inv _ assms(2)] _ queued_some [OF inv]] assms(1)
  show ?thesis by (simp add: run_inv_def)
qed

text \<open>What the flush of one field leaves: its redactor has nothing queued, or it had no text.\<close>

definition flushed :: "choice_redactor \<Rightarrow> choice_redactor \<Rightarrow> bool" where
  "flushed c c' \<longleftrightarrow> boundaries c' = [] \<or> (c' = c \<and> cr_pending c = [])"

lemma flush_key_inv:
  assumes "flush_key e key s = (s', Inr None)" and "run_inv W True cd e L E s"
  shows "run_inv W True cd e L E s' \<and> (\<forall>k. k \<noteq> key \<longrightarrow> get_choice s' k = get_choice s k) \<and>
    (spans_within e \<longrightarrow> flushed (get_choice s key) (get_choice s' key)) \<and> sse_blocked s' = sse_blocked s"
  using assms
proof (induction e key s rule: flush_key.induct)
  case (1 e key s)
  show ?case
  proof (cases "map_of (choices s) key")
    case None
    then have "s' = s" using "1.prems"(1) by (simp add: flush_key.simps [of e key s])
    moreover have "get_choice s key = ChoiceRedactor_default" using None by (simp add: get_choice_def)
    ultimately show ?thesis
      using "1.prems"(2) by (simp add: flushed_def ChoiceRedactor_default_def)
  next
    case (Some c)
    then have gc: "get_choice s key = c" by (simp add: get_choice_def)
    have ok: "cr_ok c"
      using "1.prems"(2) gc queue_invD(8) [of "{}" s key] by (simp add: run_inv_def sse_inv_def)
    obtain c' res where f: "ChoiceRedactor_flush e (sse_window s) c = (c', res)" by fastforce
    consider "res = Inr CP_Nothing" "s' = put_choice key c' s"
      | t fids where "res = Inr (CP_Release t fids)"
          "flush_key e key (apply_release key t fids (put_choice key c' s)) = (s', Inr None)"
      using "1.prems"(1) Some f
      by (auto simp: flush_key.simps [of e key s] split: sum.splits choice_push.splits)
    then show ?thesis
    proof cases
      case 1
      then have "c' = c" using f advance_nothing by (auto simp: ChoiceRedactor_flush_def)
      with 1 gc have "get_choice s' = get_choice s" by (auto simp: fun_eq_iff)
      moreover have "run_inv W True cd e L E s'"
        using run_inv_cong [of s' s W True cd e L E] "1.prems"(2) 1 \<open>get_choice s' = get_choice s\<close> by simp
      moreover have "spans_within e \<longrightarrow> cr_pending c = []" using flush_all [OF ok _ _ f [unfolded 1(1)]] by auto
      ultimately show ?thesis using gc 1(2) by (auto simp: flushed_def)
    next
      case 2
      let ?s2 = "apply_release key t fids (put_choice key c' s)"
      have "run_inv W True cd e L E ?s2"
        using release_run_inv [OF "1.prems"(2), of True key c' t fids] f 2(1) gc "1.prems"(2)
        by (simp add: ChoiceRedactor_flush_def run_inv_def)
      note IH = "1.IH" [OF Some f [symmetric] 2(1) refl 2(2) this]
      have gc2: "get_choice ?s2 k = (if k = key then c' else get_choice s k)" for k
        by (simp add: get_choice_cong [OF apply_release_choices])
      have "spans_within e \<longrightarrow> boundaries c' = []"
      proof
        assume w: "spans_within e"
        have "cr_pending c \<noteq> []"
          using f 2(1) by (auto simp: ChoiceRedactor_flush_def ChoiceRedactor_advance_def)
        from flush_all [OF ok this w f [unfolded 2(1)]] show "boundaries c' = []" by auto
      qed
      with IH gc2 show ?thesis by (auto simp: flushed_def)
    qed
  qed
qed

lemma flush_keys_inv:
  assumes "flush_keys e ks s = (s', Inr None)" and "run_inv W True cd e L E s" and "distinct ks"
  shows "run_inv W True cd e L E s' \<and> (\<forall>k. k \<notin> set ks \<longrightarrow> get_choice s' k = get_choice s k) \<and>
    (spans_within e \<longrightarrow> (\<forall>k \<in> set ks. flushed (get_choice s k) (get_choice s' k))) \<and>
    sse_blocked s' = sse_blocked s"
  using assms
proof (induction ks arbitrary: s)
  case (Cons key ks)
  then obtain s1 where f: "flush_key e key s = (s1, Inr None)" and r: "flush_keys e ks s1 = (s', Inr None)"
    by (auto split: prod.splits sum.splits option.splits)
  note one = flush_key_inv [OF f Cons.prems(2)]
  have d: "distinct ks" "key \<notin> set ks" using Cons.prems(3) by simp_all
  note rest = Cons.IH [OF r one [THEN conjunct1] d(1)]
  have "flushed (get_choice s k) (get_choice s' k)" if "spans_within e" "k \<in> set (key # ks)" for k
  proof (cases "k = key")
    case True
    with one rest that(1) d(2) show ?thesis by metis
  next
    case False
    with one rest that show ?thesis by (metis set_ConsD)
  qed
  with one rest show ?case by (metis list.set_intros)
qed simp

lemma flush_tail_inv:
  assumes "flush_tail cd e s = (s', Inr None)" and "run_inv W False cd e L E s"
    and "newline \<notin> set (line_buf s)" and "list_all (line_ok cd) (split_inclusive (line_buf s))"
  shows "run_inv W False cd e (L @ split_inclusive (line_buf s)) E s' \<and> sse_blocked s' = sse_blocked s"
proof (cases "line_buf s = []")
  case True
  with assms(1,2) show ?thesis by (simp add: flush_tail_def)
next
  case False
  have sp: "split_inclusive (line_buf s) = [line_buf s]"
    using False assms(3) break_line_None [of "line_buf s"]
    by (subst split_inclusive_break_line) simp
  let ?s = "s\<lparr>line_buf := []\<rparr>"
  have i: "ingest_line cd e (line_buf s) ?s = (s', Inr None)"
    using assms(1) False by (simp add: flush_tail_def)
  have "run_inv W False cd e L E ?s" using assms(2) by (simp add: run_inv_buf)
  from ingest_line_inv [OF this _ i] assms(4) show ?thesis
    using ingest_line_same [of cd e "line_buf s" ?s] i by (simp add: sp)
qed

text \<open>After a flush in which every field with queued frames has text, the queue is empty.\<close>

definition live :: "sse_holdback \<Rightarrow> bool" where
  "live s \<longleftrightarrow> (\<forall>k. boundaries (get_choice s k) \<noteq> [] \<longrightarrow> cr_pending (get_choice s k) \<noteq> [])"

lemma run_inv_fin: "run_inv W False cd e L E s \<Longrightarrow> run_inv W fin cd e L E s"
  unfolding run_inv_def sse_inv_def text_inv_def using segmented_fin by blast

lemma flush_inv:
  assumes "SseHoldBack_flush hord cd e s = (s', Inr em)" and "\<forall>es. em \<noteq> SE_Blocked es"
    and "visits_each_key_once hord" and "run_inv W False cd e L E s" and "\<not> sse_blocked s"
    and "newline \<notin> set (line_buf s)" and "list_all (line_ok cd) (split_inclusive (line_buf s))"
    and "\<And>s1. flush_tail cd e s = (s1, Inr None) \<Longrightarrow> distinct (hm_keys (choices s1))"
  shows "\<exists>E'. run_inv W True cd e (L @ split_inclusive (line_buf s)) (E @ E') s' \<and>
    SseHoldBack_emit (render_frames cd E') = em \<and>
    (spans_within e \<and> (\<forall>s1. flush_tail cd e s = (s1, Inr None) \<longrightarrow> live s1) \<longrightarrow> order s' = [])"
proof -
  obtain s1 s2 out where t: "flush_tail cd e s = (s1, Inr None)"
    and k: "flush_keys e (hord (hm_keys (choices s1))) s1 = (s2, Inr None)"
    and d: "drain_ready cd s2 = (s', out)" and em: "em = SseHoldBack_emit out"
    using assms(1,2,5)
    by (auto simp: SseHoldBack_flush_def split: prod.splits sum.splits option.splits)
  let ?L = "L @ split_inclusive (line_buf s)"
  have i1: "run_inv W True cd e ?L E s1"
    using flush_tail_inv [OF t assms(4,6,7)] run_inv_fin by blast
  have perm: "mset (hord (hm_keys (choices s1))) = mset (hm_keys (choices s1))"
    using assms(3) by (simp add: visits_each_key_once_def)
  have dist: "distinct (hord (hm_keys (choices s1)))"
    using assms(8) [OF t] mset_eq_imp_distinct_iff [OF perm] by simp
  have all: "set (hord (hm_keys (choices s1))) = set (hm_keys (choices s1))"
    by (rule mset_eq_setD [OF perm])
  note f = flush_keys_inv [OF k i1 dist]
  from drain_inv [OF f [THEN conjunct1] d] obtain E' where
    E': "out = render_frames cd E'" "run_inv W True cd e ?L (E @ E') s'"
      "order s' = [] \<or> \<not> frame_ready s' (hd (order s'))" "choices s' = choices s2" by blast
  have "order s' = []" if w: "spans_within e" and l: "live s1"
  proof -
    have none: "boundaries (get_choice s2 k) = []" for k
    proof (cases "k \<in> set (hm_keys (choices s1))")
      case True
      with f w all have "flushed (get_choice s1 k) (get_choice s2 k)" by blast
      with l show ?thesis unfolding flushed_def live_def by metis
    next
      case False
      then have "get_choice s1 k = ChoiceRedactor_default"
        using hm.keys_get [of k "choices s1"] by (simp add: get_choice_def)
      moreover have "get_choice s2 k = get_choice s1 k" using f False all by blast
      ultimately show ?thesis by (simp add: ChoiceRedactor_default_def)
    qed
    have q: "queue_inv {} s'" using E'(2) by (simp add: run_inv_def sse_inv_def)
    have "{k. unres s' {} x k} = {}" for x
      using none get_choice_cong [OF E'(4)] by (auto simp: unres_def)
    then have "aw s' x = 0" for x using queue_invD(6) [OF q, of x] by (simp only: card.empty)
    then show ?thesis using E'(3) by (simp add: frame_ready_def aw_def)
  qed
  with E' em t show ?thesis by auto
qed

section \<open>Fields stay open until the flush\<close>

text \<open>With a positive window a redactor that got text keeps some of it, so it is still open when the
  stream ends.\<close>

lemma push_keeps_text:
  assumes "0 < w" and "ChoiceRedactor_push e w fid t c = (c', Inr res)" and "\<forall>es. res \<noteq> CP_Blocked es"
    and "cr_pending c @ t \<noteq> []"
  shows "cr_pending c' \<noteq> []"
proof -
  define c1 where "c1 = c\<lparr>cr_pending := cr_pending c @ t,
      boundaries := boundaries c @ [(length (cr_pending c @ t), fid)]\<rparr>"
  have adv: "ChoiceRedactor_advance e w False c1 = (c', Inr res)"
    using assms(2) by (simp add: ChoiceRedactor_push_def Let_def c1_def)
  show ?thesis
  proof (cases res)
    case CP_Nothing
    with adv advance_nothing have "c' = c1" by blast
    with assms(4) show ?thesis by (simp add: c1_def)
  next
    case (CP_Release u fids)
    then obtain ss n where n: "n = frame_cut (cr_pending c1) ss w (boundaries c1) (length (cr_pending c1))"
      and "ChoiceRedactor_release e n c1 = (c', Inr (CP_Release u fids))"
      using adv by (auto simp: ChoiceRedactor_advance_def Let_def split: if_splits sum.splits)
    then have "cr_pending c' = drop n (cr_pending c1)" using release_result(1) by blast
    moreover have "n \<le> length (cr_pending c1) - w" unfolding n by (rule frame_cut_window)
    moreover have "0 < length (cr_pending c1)" using assms(4) by (auto simp: c1_def)
    ultimately have "n < length (cr_pending c1)" using assms(1) by linarith
    with \<open>cr_pending c' = drop n (cr_pending c1)\<close> show ?thesis by simp
  next
    case (CP_Blocked es)
    with assms(3) show ?thesis by simp
  qed
qed

definition open_inv :: "(content_key \<Rightarrow> string) \<Rightarrow> sse_holdback \<Rightarrow> bool" where
  "open_inv R s \<longleftrightarrow> distinct (hm_keys (choices s)) \<and>
     (0 < sse_window s \<longrightarrow> (\<forall>k. R k \<noteq> [] \<longrightarrow> cr_pending (get_choice s k) \<noteq> []))"

lemma distinct_put_choice:
  "distinct (hm_keys (choices s)) \<Longrightarrow> distinct (hm_keys (choices (put_choice key c s)))"
  by (simp add: put_choice_def)

lemma ingest_contents_open:
  assumes "ingest_contents e fid cs s = (s', Inr None)" and "open_inv R s"
  shows "open_inv (\<lambda>k. R k @ text_of k cs) s'"
  using assms
proof (induction cs arbitrary: s R)
  case (Cons p cs)
  obtain key t where p: "p = (key, t)" by fastforce
  obtain c' res where push: "ChoiceRedactor_push e (sse_window s) fid t (get_choice s key) = (c', res)"
    by fastforce
  define R1 where "R1 = R(key := R key @ t)"
  have R: "(\<lambda>k. R1 k @ text_of k cs) = (\<lambda>k. R k @ text_of k (p # cs))" by (auto simp: R1_def p)
  have o1: "open_inv R1 s1" if "get_choice s1 = (get_choice s)(key := c')" "sse_window s1 = sse_window s"
    "distinct (hm_keys (choices s1))" "res = Inr r" "\<forall>es. r \<noteq> CP_Blocked es" for s1 r
    using Cons.prems(2) push_keeps_text [OF _ push [unfolded that(4)] that(5)] that(1-3)
    unfolding open_inv_def R1_def by (metis append_is_Nil_conv fun_upd_apply)
  have dist: "distinct (hm_keys (choices (put_choice key c' s)))"
    using Cons.prems(2) by (simp add: open_inv_def distinct_put_choice)
  consider s1 r where "ingest_contents e fid cs s1 = (s', Inr None)" "res = Inr r" "\<forall>es. r \<noteq> CP_Blocked es"
      "get_choice s1 = (get_choice s)(key := c')" "sse_window s1 = sse_window s"
      "distinct (hm_keys (choices s1))"
  proof -
    assume *: "\<And>s1 r. ingest_contents e fid cs s1 = (s', Inr None) \<Longrightarrow> res = Inr r \<Longrightarrow>
      \<forall>es. r \<noteq> CP_Blocked es \<Longrightarrow> get_choice s1 = (get_choice s)(key := c') \<Longrightarrow>
      sse_window s1 = sse_window s \<Longrightarrow> distinct (hm_keys (choices s1)) \<Longrightarrow> thesis"
    consider "res = Inr CP_Nothing" | u fids where "res = Inr (CP_Release u fids)"
      using Cons.prems(1) push p by (cases res; cases "projr res") auto
    then show thesis
    proof cases
      case 1
      with Cons.prems(1) push p dist show thesis
        by (intro * [of "put_choice key c' s" CP_Nothing]) (auto simp: fun_eq_iff)
    next
      case 2
      with Cons.prems(1) push p dist show thesis
        by (intro * [of "apply_release key u fids (put_choice key c' s)" "CP_Release u fids"])
          (auto simp: fun_eq_iff get_choice_cong [OF apply_release_choices])
    qed
  qed
  then show ?case using Cons.IH o1 R by metis
qed simp

lemma ingest_line_open:
  assumes "ingest_line cd e raw s = (s', Inr None)" and "open_inv R s"
  shows "open_inv (\<lambda>k. R k @ line_text cd raw k) s'"
proof -
  have cong: "open_inv R s1" if "choices s1 = choices s" "sse_window s1 = sse_window s" for s1
    using assms(2) that get_choice_cong [OF that(1)] by (simp add: open_inv_def)
  show ?thesis
  proof (cases "classify_line cd raw")
    case (CL_Data chunk)
    then obtain s1 where "ingest_contents e (frame_seq s) (delta_contents chunk) s1 = (s', Inr None)"
      "choices s1 = choices s" "sse_window s1 = sse_window s"
      using assms(1) by (auto simp: ingest_line_def Let_def queue_frame_def split: if_splits)
    from ingest_contents_open [OF this(1) cong [OF this(2,3)]] CL_Data show ?thesis
      by (simp add: line_text_def)
  qed (use assms(1) in \<open>auto intro!: cong simp: line_text_def ingest_line_def queue_frame_def Let_def
      split: sum.splits verdict.splits\<close>)
qed

lemma open_inv_cong:
  "choices s' = choices s \<Longrightarrow> sse_window s' = sse_window s \<Longrightarrow> open_inv R s' \<longleftrightarrow> open_inv R s"
  using get_choice_cong [of s' s] by (simp add: open_inv_def)

lemma open_inv_more: "open_inv (\<lambda>k. R k @ S k) s \<Longrightarrow> open_inv R s"
  by (simp add: open_inv_def)

lemma push_lines_open:
  assumes "push_lines cd e s = (s', Inr None)" and "open_inv (read_text cd L) s"
  shows "\<exists>M. open_inv (read_text cd (L @ M)) s' \<and>
    (\<forall>x. split_inclusive (line_buf s @ x) = M @ split_inclusive (line_buf s' @ x))"
  using assms
proof (induction cd e s arbitrary: L rule: push_lines.induct)
  case (1 cd e s)
  show ?case
  proof (cases "break_line (line_buf s)")
    case None
    then have "s' = s" using "1.prems"(1) by (simp add: push_lines.simps [of cd e s])
    with "1.prems"(2) show ?thesis by (intro exI [of _ "[]"]) simp
  next
    case (Some p)
    then obtain raw rest where b: "break_line (line_buf s) = Some (raw, rest)" by (cases p) simp
    let ?s = "s\<lparr>line_buf := rest\<rparr>"
    obtain s1 where i: "ingest_line cd e raw ?s = (s1, Inr None)"
      and push: "push_lines cd e s1 = (s', Inr None)"
      using "1.prems"(1) b by (auto simp: push_lines.simps [of cd e s] split: prod.splits sum.splits option.splits)
    have "line_buf s1 = rest" using ingest_line_buf [of cd e raw ?s] i by simp
    moreover have "open_inv (read_text cd (L @ [raw])) s1"
      using ingest_line_open [OF i] "1.prems"(2) by (simp add: read_text_snoc open_inv_cong [of ?s s])
    from "1.IH" [OF b refl i [symmetric] refl refl push this] obtain M where
      "open_inv (read_text cd ((L @ [raw]) @ M)) s' \<and>
       (\<forall>x. split_inclusive (line_buf s1 @ x) = M @ split_inclusive (line_buf s' @ x))" ..
    ultimately show ?thesis
      using split_inclusive_line [OF b] by (intro exI [of _ "raw # M"]) simp
  qed
qed

text \<open>A field with queued frames occurs in a line that was read.\<close>

lemma unres_read:
  assumes "run_inv W fin cd e L E s" and "unres s {} f k"
  shows "k \<in> fst ` set (stream_contents (data_of cd L))"
proof -
  have q: "queue_inv {} s" using assms(1) by (simp add: run_inv_def sse_inv_def)
  from queue_invD(5) [OF q assms(2)] obtain chunk where
    chunk: "map_of (frames s) f = Some (F_Data chunk)" "k \<in> fst ` set (delta_contents chunk)"
    by (auto simp: has_key_def)
  have "F_Data chunk \<in> set (E @ queued s)"
    using unres_queued [OF q assms(2)] chunk(1) by (force simp: queued_def)
  then obtain i where i: "i < length L" "(E @ queued s) ! i = F_Data chunk"
    using assms(1) by (metis in_set_conv_nth list_all2_lengthD run_inv_def)
  then have "line_frame cd e (L ! i) (F_Data chunk)"
    using assms(1) by (metis list_all2_nthD run_inv_def)
  then obtain raw_chunk where rc: "classify_line cd (L ! i) = CL_Data raw_chunk"
    "fst ` set (delta_contents raw_chunk) = fst ` set (delta_contents chunk)"
    by (auto simp: line_frame_def same_kind_def split: classified_line.splits)
  have "raw_chunk \<in> set (data_of cd L)"
    using i(1) rc(1) by (induction L arbitrary: i) (auto simp: nth_Cons split: nat.splits classified_line.splits)
  with rc(2) chunk(2) show ?thesis by (force simp: stream_contents_def)
qed

lemma live_if_text:
  assumes "run_inv W fin cd e L E s" and "open_inv (read_text cd L) s" and "0 < sse_window s"
    and "\<forall>k \<in> fst ` set (stream_contents (data_of cd L)). read_text cd L k \<noteq> []"
  shows "live s"
  unfolding live_def
proof (intro allI impI)
  fix k assume "boundaries (get_choice s k) \<noteq> []"
  then obtain f where "unres s {} f k" by (cases "boundaries (get_choice s k)") (auto simp: unres_def)
  from unres_read [OF assms(1) this] assms(2-4) show "cr_pending (get_choice s k) \<noteq> []"
    unfolding open_inv_def by blast
qed

section \<open>A whole stream\<close>

text \<open>Feeding chunks and flushing, as the callers do: stop at an error, stop after a block.\<close>

fun sse_drive ::
  "(content_key list \<Rightarrow> content_key list) \<Rightarrow> json_codec \<Rightarrow> engine \<Rightarrow> sse_holdback \<Rightarrow> string list \<Rightarrow>
     error + sse_emit list" where
  "sse_drive hord cd e s [] = map_sum id (\<lambda>em. [em]) (snd (SseHoldBack_flush hord cd e s))"
| "sse_drive hord cd e s (c # cs) =
     (case SseHoldBack_push cd e s c of
        (s', Inl er) \<Rightarrow> Inl er
      | (s', Inr (SE_Blocked es)) \<Rightarrow> Inr [SE_Blocked es]
      | (s', Inr em) \<Rightarrow> map_sum id ((#) em) (sse_drive hord cd e s' cs))"

definition sse_emit_text :: "sse_emit \<Rightarrow> string" where
  "sse_emit_text em = (case em of SE_Release t \<Rightarrow> t | _ \<Rightarrow> [])"

definition is_sse_blocked :: "sse_emit \<Rightarrow> bool" where
  "is_sse_blocked em = (case em of SE_Blocked _ \<Rightarrow> True | _ \<Rightarrow> False)"

lemma emit_text_emit [simp]: "sse_emit_text (SseHoldBack_emit out) = out"
  by (simp add: sse_emit_text_def SseHoldBack_emit_def)

lemma not_sse_blocked: "\<not> is_sse_blocked em \<longleftrightarrow> (\<forall>es. em \<noteq> SE_Blocked es)"
  by (cases em) (auto simp: is_sse_blocked_def)

lemma render_frames_append: "render_frames cd (E @ F) = render_frames cd E @ render_frames cd F"
  by (simp add: render_frames_def)

lemma push_open:
  assumes "SseHoldBack_push cd e s text = (s', Inr em)" and "\<not> is_sse_blocked em"
    and "open_inv (read_text cd L) s" and "run_inv W False cd e L E s" and "\<not> sse_blocked s"
    and "list_all (line_ok cd) (split_inclusive (line_buf s @ text @ x))"
  shows "\<exists>M E'. run_inv W False cd e (L @ M) (E @ E') s' \<and> open_inv (read_text cd (L @ M)) s' \<and>
    SseHoldBack_emit (render_frames cd E') = em \<and>
    split_inclusive (line_buf s @ text @ x) = M @ split_inclusive (line_buf s' @ x) \<and>
    newline \<notin> set (line_buf s') \<and> sse_window s' = sse_window s \<and> \<not> sse_blocked s'"
proof -
  from push_inv [OF assms(1) _ assms(4-6)] assms(2) obtain M E' where
    p: "run_inv W False cd e (L @ M) (E @ E') s'" "SseHoldBack_emit (render_frames cd E') = em"
      "split_inclusive (line_buf s @ text @ x) = M @ split_inclusive (line_buf s' @ x)"
      "newline \<notin> set (line_buf s')" "sse_window s' = sse_window s" "\<not> sse_blocked s'" by (auto simp: not_sse_blocked)
  let ?s = "s\<lparr>line_buf := line_buf s @ text\<rparr>"
  obtain s1 out where l: "push_lines cd e ?s = (s1, Inr None)" and d: "drain_ready cd s1 = (s', out)"
    using assms(1,2,5)
    by (auto simp: SseHoldBack_push_def is_sse_blocked_def split: prod.splits sum.splits option.splits)
  have "open_inv (read_text cd L) ?s" using assms(3) by (simp add: open_inv_cong [of ?s s])
  from push_lines_open [OF l this] obtain M' where
    o: "open_inv (read_text cd (L @ M')) s1" and
    M': "split_inclusive ((line_buf s @ text) @ x) = M' @ split_inclusive (line_buf s1 @ x)"
    by auto
  have "run_inv W False cd e L E ?s" using assms(4) by (simp add: run_inv_buf)
  from push_lines_inv [OF l this, of x] assms(6) obtain M'' where r: "run_inv W False cd e (L @ M'') E s1" by auto
  from drain_inv [OF r d] have same: "choices s' = choices s1" "sse_window s' = sse_window s1"
    "line_buf s' = line_buf s1" by blast+
  have "M' = M" using M' p(3) same(3) by simp
  with o p same show ?thesis
    by (intro exI [of _ M] exI [of _ E']) (simp add: open_inv_cong [of s' s1])
qed

lemma flush_tail_open:
  assumes "flush_tail cd e s = (s', Inr None)" and "open_inv (read_text cd L) s"
    and "newline \<notin> set (line_buf s)"
  shows "open_inv (read_text cd (L @ split_inclusive (line_buf s))) s'" and "sse_window s' = sse_window s"
proof -
  let ?s = "s\<lparr>line_buf := []\<rparr>"
  have sp: "split_inclusive (line_buf s) = (if line_buf s = [] then [] else [line_buf s])"
    using assms(3) break_line_None [of "line_buf s"] by (subst split_inclusive_break_line) simp
  have "open_inv (read_text cd L) ?s" using assms(2) by (simp add: open_inv_cong [of ?s s])
  then show "open_inv (read_text cd (L @ split_inclusive (line_buf s))) s'"
    using assms(1,2) ingest_line_open [of cd e "line_buf s" ?s s'] unfolding sp
    by (simp add: flush_tail_def read_text_snoc split: if_splits)
  show "sse_window s' = sse_window s"
    using assms(1) ingest_line_same [of cd e "line_buf s" ?s] by (auto simp: flush_tail_def split: if_splits)
qed

definition all_text :: "json_codec \<Rightarrow> string list \<Rightarrow> bool" where
  "all_text cd L \<longleftrightarrow> (\<forall>k \<in> fst ` set (stream_contents (data_of cd L)). read_text cd L k \<noteq> [])"

lemma sse_drive_inv:
  assumes "visits_each_key_once hord" and "sse_drive hord cd e s chunks = Inr ems"
    and "\<forall>em \<in> set ems. \<not> is_sse_blocked em" and "run_inv W False cd e L E s"
    and "open_inv (read_text cd L) s" and "\<not> sse_blocked s" and "newline \<notin> set (line_buf s)"
    and "list_all (line_ok cd) (split_inclusive (line_buf s @ concat chunks))"
  shows "\<exists>E' s'. concat (map sse_emit_text ems) = render_frames cd E' \<and>
    run_inv W True cd e (L @ split_inclusive (line_buf s @ concat chunks)) (E @ E') s' \<and>
    (0 < sse_window s \<and> spans_within e \<and> all_text cd (L @ split_inclusive (line_buf s @ concat chunks)) \<longrightarrow>
       order s' = [])"
  using assms(2-)
proof (induction chunks arbitrary: s L E ems)
  case Nil
  then obtain s' em where f: "SseHoldBack_flush hord cd e s = (s', Inr em)" and ems: "ems = [em]"
    by (cases "SseHoldBack_flush hord cd e s"; cases "snd (SseHoldBack_flush hord cd e s)") auto
  have nb: "\<forall>es. em \<noteq> SE_Blocked es" using Nil.prems(2) ems by (simp add: not_sse_blocked)
  have t: "open_inv (read_text cd (L @ split_inclusive (line_buf s))) s1 \<and> sse_window s1 = sse_window s \<and>
      run_inv W False cd e (L @ split_inclusive (line_buf s)) E s1" if "flush_tail cd e s = (s1, Inr None)" for s1
    using flush_tail_open [OF that Nil.prems(4,6)] flush_tail_inv [OF that Nil.prems(3,6)] Nil.prems(7) by simp
  have l: "live s1" if "flush_tail cd e s = (s1, Inr None)" "0 < sse_window s"
    "all_text cd (L @ split_inclusive (line_buf s))" for s1
    using live_if_text [of W False cd e "L @ split_inclusive (line_buf s)" E s1] t [OF that(1)] that(2,3)
    by (auto simp: all_text_def)
  obtain E' where E': "run_inv W True cd e (L @ split_inclusive (line_buf s)) (E @ E') s'"
    "SseHoldBack_emit (render_frames cd E') = em"
    "spans_within e \<and> (\<forall>s1. flush_tail cd e s = (s1, Inr None) \<longrightarrow> live s1) \<longrightarrow> order s' = []"
    using flush_inv [OF f nb assms(1) Nil.prems(3,5,6)] Nil.prems(7) t by (auto simp: open_inv_def)
  with l ems show ?case by (intro exI [of _ E'] exI [of _ s']) auto
next
  case (Cons c cs)
  obtain s1 r where push: "SseHoldBack_push cd e s c = (s1, r)" by fastforce
  with Cons.prems(1) obtain em where r: "r = Inr em" by (cases r) auto
  from Cons.prems(1,2) push r have nb: "\<not> is_sse_blocked em"
    by (cases em) (auto simp: is_sse_blocked_def)
  with Cons.prems(1) push r obtain ems' where d: "sse_drive hord cd e s1 cs = Inr ems'" and ems: "ems = em # ems'"
    by (cases em; cases "sse_drive hord cd e s1 cs") (auto simp: is_sse_blocked_def)
  from push_open [OF push [unfolded r] nb Cons.prems(4,3,5), of "concat cs"] Cons.prems(7)
  obtain M E1 where p: "run_inv W False cd e (L @ M) (E @ E1) s1" "open_inv (read_text cd (L @ M)) s1"
    "SseHoldBack_emit (render_frames cd E1) = em"
    "split_inclusive (line_buf s @ c @ concat cs) = M @ split_inclusive (line_buf s1 @ concat cs)"
    "newline \<notin> set (line_buf s1)" "sse_window s1 = sse_window s" "\<not> sse_blocked s1" by auto
  have ok: "list_all (line_ok cd) (split_inclusive (line_buf s1 @ concat cs))"
    using Cons.prems(7) p(4) by simp
  have nb': "\<forall>em \<in> set ems'. \<not> is_sse_blocked em" using Cons.prems(2) ems by simp
  from Cons.IH [OF d nb' p(1,2,7,5) ok] obtain E2 s' where
    "concat (map sse_emit_text ems') = render_frames cd E2"
    "run_inv W True cd e ((L @ M) @ split_inclusive (line_buf s1 @ concat cs)) ((E @ E1) @ E2) s'"
    "0 < sse_window s1 \<and> spans_within e \<and> all_text cd ((L @ M) @ split_inclusive (line_buf s1 @ concat cs)) \<longrightarrow>
       order s' = []" by blast
  then show ?case
    using p ems by (intro exI [of _ "E1 @ E2"] exI [of _ s']) (auto simp: render_frames_append)
qed

lemma run_inv_new: "run_inv w fin cd e [] [] (SseHoldBack_with_window w)"
proof -
  let ?s = "SseHoldBack_with_window w"
  have gc: "get_choice ?s k = ChoiceRedactor_default" for k
    by (simp add: get_choice_def SseHoldBack_with_window_def)
  have un: "\<not> unres ?s {} f k" for f k by (simp add: unres_def gc ChoiceRedactor_default_def)
  have new: "order ?s = []" "frames ?s = []" "awaiting ?s = []"
    by (simp_all add: SseHoldBack_with_window_def)
  have "queue_inv {} ?s"
    by (rule queue_invI) (simp_all add: un gc new frame_ok_def aw_def)
  moreover have "text_inv w fin e (read_text cd []) {} [] ?s k" for k
    unfolding text_inv_def
    by (intro exI [of _ "[]"])
      (simp add: read_text_def gc ChoiceRedactor_default_def emitted_text_def resolved_text_def
        segmented_Nil new)
  ultimately show ?thesis by (simp add: run_inv_def sse_inv_def queued_def new SseHoldBack_with_window_def)
qed

lemma open_inv_new: "open_inv (read_text cd []) (SseHoldBack_with_window w)"
  by (simp add: open_inv_def read_text_def hm_keys_def SseHoldBack_with_window_def)

lemma line_ok_data: "list_all (line_ok cd) L \<longleftrightarrow> list_all chunk_ok (data_of cd L)"
  by (induction L) (auto simp: line_ok_def split: classified_line.split)

text \<open>Once the queue is empty, every field's text was emitted.\<close>

lemma run_inv_done:
  assumes "run_inv W fin cd e L E s" and "order s = []"
  shows "list_all2 (line_frame cd e) L E" and "segmented e W fin (read_text cd L k) [] (emitted_text E k)"
proof -
  have q: "queue_inv {} s" using assms(1) by (simp add: run_inv_def sse_inv_def)
  show "list_all2 (line_frame cd e) L E"
    using assms by (simp add: run_inv_def queued_def)
  have "boundaries (get_choice s k) = []"
  proof (rule ccontr)
    assume "boundaries (get_choice s k) \<noteq> []"
    then obtain f where "unres s {} f k" by (cases "boundaries (get_choice s k)") (auto simp: unres_def)
    with unres_queued [OF q] assms(2) show False by fastforce
  qed
  with queue_invD(8) [OF q, of k] have "cr_pending (get_choice s k) = []" by (simp add: cr_ok_def)
  moreover have "text_inv W fin e (read_text cd L) {} E s k"
    using assms(1) unfolding run_inv_def sse_inv_def by blast
  ultimately show "segmented e W fin (read_text cd L k) [] (emitted_text E k)"
    using assms(2) by (simp add: text_inv_def resolved_text_def)
qed

section \<open>The cut is the furthest one\<close>

lemma last_boundary_ge:
  assumes "sorted (map fst bs)" and "x \<in> fst ` set bs" and "x \<le> safe"
  shows "x \<le> last_boundary bs safe b0"
proof -
  have mono: "sorted (map fst bs) \<Longrightarrow> \<forall>b \<in> set bs. z \<le> fst b \<Longrightarrow> z \<le> last_boundary bs safe z" for z bs
  proof (induction bs arbitrary: z)
    case (Cons b bs)
    obtain o' fid where b: "b = (o', fid)" by fastforce
    from Cons.prems b have "o' \<le> last_boundary bs safe o'" by (intro Cons.IH) auto
    with Cons.prems b show ?case by auto
  qed simp
  show ?thesis using assms
  proof (induction bs arbitrary: b0)
    case (Cons b bs)
    obtain o' fid where b: "b = (o', fid)" by fastforce
    have le: "\<forall>b \<in> set bs. o' \<le> fst b" "sorted (map fst bs)" using Cons.prems(1) b by auto
    show ?case
    proof (cases "x \<in> fst ` set bs")
      case True
      with le(1) have "o' \<le> x" by auto
      with Cons.prems(3) Cons.IH [OF le(2) True Cons.prems(3), of o'] b show ?thesis by simp
    next
      case False
      with Cons.prems(2) b have "x = o'" by simp
      with Cons.prems(3) b mono [OF le(2,1)] show ?thesis by simp
    qed
  qed simp
qed

lemma frame_cut_greatest:
  assumes "spans_ok p ss" and "sorted (map fst bs)"
    and "x \<in> fst ` set bs" and "safe_cut_at p ss x" and "x \<le> length p - w" and "x \<le> c"
  shows "x \<le> frame_cut p ss w bs c"
  using assms
proof (induction p ss w bs c rule: frame_cut.induct)
  case (1 p ss w bs c)
  define b where "b = last_boundary bs (safe_prefix p ss w c) 0"
  have "x \<le> safe_prefix p ss w c"
    using safe_prefix_spec(2) [OF "1.prems"(1,4)] "1.prems"(5,6) by simp
  then have "x \<le> b" unfolding b_def by (rule last_boundary_ge [OF "1.prems"(2,3)])
  moreover have "frame_cut p ss w bs c = (if b = c \<or> b = 0 then b else frame_cut p ss w bs b)"
    by (subst frame_cut.simps) (simp add: b_def Let_def)
  ultimately show ?case
    using "1.IH" [OF refl refl] "1.prems" by (auto simp: b_def)
qed

section \<open>Blocking\<close>

lemma push_blocked:
  "SseHoldBack_push cd e s t = (s', Inr (SE_Blocked es)) \<Longrightarrow> \<exists>s0. s' = SseHoldBack_block s0"
  by (auto simp: SseHoldBack_push_def SseHoldBack_emit_def split: if_splits prod.splits sum.splits option.splits)

lemma flush_blocked:
  "SseHoldBack_flush hord cd e s = (s', Inr (SE_Blocked es)) \<Longrightarrow> \<exists>s0. s' = SseHoldBack_block s0"
  by (auto simp: SseHoldBack_flush_def SseHoldBack_emit_def split: if_splits prod.splits sum.splits option.splits)

section \<open>Lines without redactable content\<close>

text \<open>A line that is passed through, or whose document has no redactable field (a closing delta without
  content, say).\<close>

definition carries_nothing :: "json_codec \<Rightarrow> string \<Rightarrow> bool" where
  "carries_nothing cd raw \<longleftrightarrow>
     (case classify_line cd raw of
        CL_Passthrough \<Rightarrow> True
      | CL_Data chunk \<Rightarrow> delta_contents chunk = []
      | CL_Opaque \<Rightarrow> False)"

text \<open>Reading such lines only extends the queue.\<close>

definition extends :: "sse_holdback \<Rightarrow> sse_holdback \<Rightarrow> bool" where
  "extends s s' \<longleftrightarrow> choices s' = choices s \<and> awaiting s' = awaiting s \<and> sse_window s' = sse_window s \<and>
     sse_blocked s' = sse_blocked s \<and> (\<exists>xs. order s' = order s @ xs)"

lemma extends_trans: "extends s s' \<Longrightarrow> extends s' s'' \<Longrightarrow> extends s s''"
  by (auto simp: extends_def)

lemma ingest_passthrough:
  assumes "carries_nothing cd raw"
  shows "\<exists>s'. ingest_line cd e raw s = (s', Inr None) \<and> extends s s' \<and> line_buf s' = line_buf s"
  using assms
  by (cases "classify_line cd raw")
    (simp_all add: carries_nothing_def ingest_line_def queue_frame_def extends_def Let_def)

lemma push_lines_passthrough:
  assumes "list_all (carries_nothing cd) (split_inclusive (line_buf s))"
  shows "\<exists>s'. push_lines cd e s = (s', Inr None) \<and> extends s s' \<and>
    list_all (carries_nothing cd) (split_inclusive (line_buf s')) \<and>
    newline \<notin> set (line_buf s')"
  using assms
proof (induction cd e s rule: push_lines.induct)
  case (1 cd e s)
  show ?case
  proof (cases "break_line (line_buf s)")
    case None
    then have "push_lines cd e s = (s, Inr None)" by (simp add: push_lines.simps [of cd e s])
    with None "1.prems" show ?thesis by (auto simp: extends_def break_line_None)
  next
    case (Some p)
    then obtain raw rest where b: "break_line (line_buf s) = Some (raw, rest)" by (cases p) simp
    then have sp: "split_inclusive (line_buf s) = raw # split_inclusive rest"
      using split_inclusive_line [OF b, of "[]"] by simp
    let ?s = "s\<lparr>line_buf := rest\<rparr>"
    obtain s1 where i: "ingest_line cd e raw ?s = (s1, Inr None)" "extends ?s s1" "line_buf s1 = rest"
      using ingest_passthrough [of cd raw e ?s] "1.prems" sp by auto
    from "1.IH" [OF b refl i(1) [symmetric] refl refl] obtain s' where
      s': "push_lines cd e s1 = (s', Inr None)" "extends s1 s'"
      "list_all (carries_nothing cd) (split_inclusive (line_buf s'))"
      "newline \<notin> set (line_buf s')"
      using "1.prems" sp i(3) by auto
    have "extends s ?s" by (simp add: extends_def)
    then have "extends s s'" using i(2) s'(2) by (rule extends_trans [OF extends_trans])
    moreover have "push_lines cd e s = (s', Inr None)"
      using b i(1) s'(1) by (simp add: push_lines.simps [of cd e s])
    ultimately show ?thesis using s'(3,4) by blast
  qed
qed

lemma flush_tail_passthrough:
  assumes "list_all (carries_nothing cd) (split_inclusive (line_buf s))"
    and "newline \<notin> set (line_buf s)"
  shows "\<exists>s'. flush_tail cd e s = (s', Inr None) \<and> extends s s'"
proof (cases "line_buf s = []")
  case True
  then show ?thesis by (simp add: flush_tail_def extends_def)
next
  case False
  have "split_inclusive (line_buf s) = [line_buf s]"
    using False assms(2) break_line_None [of "line_buf s"] by (subst split_inclusive_break_line) simp
  with assms(1) obtain s' where "ingest_line cd e (line_buf s) (s\<lparr>line_buf := []\<rparr>) = (s', Inr None)"
    "extends (s\<lparr>line_buf := []\<rparr>) s'"
    using ingest_passthrough [of cd "line_buf s" e "s\<lparr>line_buf := []\<rparr>"] by auto
  with False show ?thesis by (simp add: flush_tail_def extends_def)
qed

section \<open>Streams without data lines\<close>

text \<open>The queue of a redactor that has read only lines that are passed through.\<close>

definition plain_queue :: "string list \<Rightarrow> sse_holdback \<Rightarrow> bool" where
  "plain_queue q s \<longleftrightarrow> choices s = [] \<and> awaiting s = [] \<and> \<not> sse_blocked s \<and> distinct (order s) \<and>
     (\<forall>f \<in> set (order s). f < frame_seq s) \<and>
     list_all2 (\<lambda>f x. map_of (frames s) f = Some (F_Passthrough x)) (order s) q"

lemma plain_queue_buf [simp]: "plain_queue q (s\<lparr>line_buf := b\<rparr>) = plain_queue q s"
  by (simp add: plain_queue_def)

lemma plain_ingest:
  assumes "plain_queue q s" and "classify_line cd raw = CL_Passthrough"
  shows "\<exists>s'. ingest_line cd e raw s = (s', Inr None) \<and> plain_queue (q @ [raw]) s' \<and> line_buf s' = line_buf s"
proof -
  let ?s = "queue_frame (frame_seq s) (F_Passthrough raw) (s\<lparr>frame_seq := Suc (frame_seq s)\<rparr>)"
  have q: "list_all2 (\<lambda>f x. map_of (frames s) f = Some (F_Passthrough x)) (order s) q"
    and lt: "f \<in> set (order s) \<Longrightarrow> f \<noteq> frame_seq s" for f
    using assms(1) by (auto simp: plain_queue_def)
  have "map_of (frames ?s) f = map_of (frames s) f" if "f \<in> set (order s)" for f
    using lt [OF that] by (simp add: queue_frame_def update_conv')
  with q have "list_all2 (\<lambda>f x. map_of (frames ?s) f = Some (F_Passthrough x)) (order s) q"
    by (simp add: list_all2_conv_all_nth)
  then have "list_all2 (\<lambda>f x. map_of (frames ?s) f = Some (F_Passthrough x)) (order ?s) (q @ [raw])"
    by (simp add: queue_frame_def update_conv' list_all2_appendI)
  with assms show ?thesis
    by (auto simp: ingest_line_def plain_queue_def queue_frame_def Let_def)
qed

lemma plain_drain:
  assumes "plain_queue q s"
  shows "\<exists>s'. drain_ready cd s = (s', concat q) \<and> plain_queue [] s' \<and> line_buf s' = line_buf s"
  using assms
proof (induction cd s arbitrary: q rule: drain_ready.induct)
  case (1 cd s)
  show ?case
  proof (cases "order s")
    case Nil
    with "1.prems" show ?thesis by (simp add: drain_ready.simps [of cd s] plain_queue_def)
  next
    case (Cons f fs)
    with "1.prems" obtain x q' where q: "q = x # q'" "map_of (frames s) f = Some (F_Passthrough x)"
      by (auto simp: plain_queue_def list_all2_Cons1)
    have r: "frame_ready s f" using "1.prems" by (simp add: frame_ready_def plain_queue_def)
    have p: "order (pop_frame s) = fs" "frames (pop_frame s) = AList.delete f (frames s)"
      "awaiting (pop_frame s) = AList.delete f (awaiting s)" "frame_seq (pop_frame s) = frame_seq s"
      by (simp_all add: pop_frame_def Cons)
    have "list_all2 (\<lambda>f x. map_of (frames s) f = Some (F_Passthrough x)) fs q'" "f \<notin> set fs"
      using "1.prems" Cons q(1) by (simp_all add: plain_queue_def)
    then have "list_all2 (\<lambda>f x. map_of (frames (pop_frame s)) f = Some (F_Passthrough x)) fs q'"
      unfolding p by (auto simp: delete_conv' list_all2_conv_all_nth)
    then have "plain_queue q' (pop_frame s)"
      using "1.prems" Cons by (simp add: plain_queue_def p)
    from "1.IH" [OF Cons _ this] r obtain s' where
      "drain_ready cd (pop_frame s) = (s', concat q')" "plain_queue [] s'" "line_buf s' = line_buf s" by auto
    with Cons r q show ?thesis
      by (simp add: drain_ready.simps [of cd s] render_frame_def)
  qed
qed

lemma plain_push_lines:
  assumes "plain_queue q s"
    and "list_all (\<lambda>l. classify_line cd l = CL_Passthrough) (split_inclusive (line_buf s @ x))"
  shows "\<exists>s' q'. push_lines cd e s = (s', Inr None) \<and> plain_queue q' s' \<and>
    concat q' @ line_buf s' = concat q @ line_buf s \<and>
    list_all (\<lambda>l. classify_line cd l = CL_Passthrough) (split_inclusive (line_buf s' @ x)) \<and>
    newline \<notin> set (line_buf s')"
  using assms
proof (induction cd e s arbitrary: q rule: push_lines.induct)
  case (1 cd e s)
  show ?case
  proof (cases "break_line (line_buf s)")
    case None
    then have "push_lines cd e s = (s, Inr None)" by (simp add: push_lines.simps [of cd e s])
    with None "1.prems" show ?thesis by (auto simp: break_line_None)
  next
    case (Some p)
    then obtain raw rest where b: "break_line (line_buf s) = Some (raw, rest)" by (cases p) simp
    have sp: "split_inclusive (line_buf s @ x) = raw # split_inclusive (rest @ x)"
      by (rule split_inclusive_line [OF b])
    let ?s = "s\<lparr>line_buf := rest\<rparr>"
    obtain s1 where i: "ingest_line cd e raw ?s = (s1, Inr None)" "plain_queue (q @ [raw]) s1" "line_buf s1 = rest"
      using plain_ingest [of q ?s cd raw e] "1.prems" sp by auto
    from "1.IH" [OF b refl i(1) [symmetric] refl refl i(2)] "1.prems"(2) sp i(3) obtain s' q' where
      s': "push_lines cd e s1 = (s', Inr None)" "plain_queue q' s'"
      "concat q' @ line_buf s' = concat (q @ [raw]) @ rest"
      "list_all (\<lambda>l. classify_line cd l = CL_Passthrough) (split_inclusive (line_buf s' @ x))"
      "newline \<notin> set (line_buf s')" by auto
    moreover have "line_buf s = raw @ rest" using break_line_Some [OF b] by simp
    moreover have "push_lines cd e s = (s', Inr None)"
      using b i(1) s'(1) by (simp add: push_lines.simps [of cd e s])
    ultimately show ?thesis by auto
  qed
qed

text \<open>A stream without data lines is emitted as it is, whatever the engine and the chunks.\<close>

lemma plain_drive:
  assumes "visits_each_key_once hord" and "plain_queue [] s" and "newline \<notin> set (line_buf s)"
    and "list_all (\<lambda>l. classify_line cd l = CL_Passthrough) (split_inclusive (line_buf s @ concat chunks))"
  shows "\<exists>ems. sse_drive hord cd e s chunks = Inr ems \<and> list_all (\<lambda>em. \<not> is_sse_blocked em) ems \<and>
    concat (map sse_emit_text ems) = line_buf s @ concat chunks"
  using assms(2-)
proof (induction chunks arbitrary: s)
  case Nil
  have h: "hord [] = []" using assms(1) unfolding visits_each_key_once_def by (metis mset_zero_iff)
  have nb: "\<not> sse_blocked s" using Nil.prems(1) by (simp add: plain_queue_def)
  have sp: "split_inclusive (line_buf s) = (if line_buf s = [] then [] else [line_buf s])"
    using Nil.prems(2) break_line_None [of "line_buf s"] by (subst split_inclusive_break_line) simp
  obtain s1 where t: "flush_tail cd e s = (s1, Inr None)"
    "plain_queue (if line_buf s = [] then [] else [line_buf s]) s1"
    using plain_ingest [of "[]" "s\<lparr>line_buf := []\<rparr>" cd "line_buf s" e] Nil.prems sp
    by (cases "line_buf s = []") (auto simp: flush_tail_def)
  have k: "hord (hm_keys (choices s1)) = []" using t(2) h by (simp add: plain_queue_def hm_keys_def)
  from plain_drain [OF t(2), of cd] obtain s2 where "drain_ready cd s1 = (s2, line_buf s)" by (auto split: if_splits)
  with t(1) k nb show ?case
    by (simp add: SseHoldBack_flush_def not_sse_blocked SseHoldBack_emit_def sse_emit_text_def)
next
  case (Cons c cs)
  have nb: "\<not> sse_blocked s" using Cons.prems(1) by (simp add: plain_queue_def)
  let ?s = "s\<lparr>line_buf := line_buf s @ c\<rparr>"
  obtain s1 q' where p: "push_lines cd e ?s = (s1, Inr None)" "plain_queue q' s1"
    "concat q' @ line_buf s1 = line_buf s @ c"
    "list_all (\<lambda>l. classify_line cd l = CL_Passthrough) (split_inclusive (line_buf s1 @ concat cs))"
    "newline \<notin> set (line_buf s1)"
    using plain_push_lines [of "[]" ?s cd "concat cs" e] Cons.prems by auto
  obtain s2 where d: "drain_ready cd s1 = (s2, concat q')" "plain_queue [] s2" "line_buf s2 = line_buf s1"
    using plain_drain [OF p(2)] by blast
  have push: "SseHoldBack_push cd e s c = (s2, Inr (SseHoldBack_emit (concat q')))"
    using nb p(1) d(1) by (simp add: SseHoldBack_push_def)
  have e: "\<not> is_sse_blocked (SseHoldBack_emit out)" for out
    by (simp add: not_sse_blocked SseHoldBack_emit_def)
  from Cons.IH [OF d(2)] p(4,5) d(3) obtain ems where
    r: "sse_drive hord cd e s2 cs = Inr ems" "list_all (\<lambda>em. \<not> is_sse_blocked em) ems"
    "concat (map sse_emit_text ems) = line_buf s1 @ concat cs" by auto
  have "sse_drive hord cd e s (c # cs) = Inr (SseHoldBack_emit (concat q') # ems)"
    using push r(1) e [of "concat q'"]
    by (cases "SseHoldBack_emit (concat q')") (simp_all add: is_sse_blocked_def)
  moreover have "concat q' @ line_buf s1 @ concat cs = line_buf s @ c @ concat cs"
    using p(3) by (metis append.assoc)
  ultimately show ?case using r(2,3) e by simp
qed

end
