(* ===== verification/Redact_Extproc.thy ===== *)
theory Redact_Extproc
  imports Redact_Sse_Correct Utf8
begin

text \<open>
  \<open>app/redact-extproc\<close>: the Envoy external processor. One gRPC stream is one HTTP exchange; every
  inbound message is dispatched on the phase of the exchange, and answered with a header reply, a
  body reply (with a mutation) or an immediate response that ends the exchange.

  Bytes and text share the type \<open>string\<close> (a list of bytes). What the service calls outside the
  repository is a field of the record \<open>ext_env\<close>: the JSON parser and printer, the gzip decoder (with
  the number of bytes it may produce) and encoder, and the iteration order of hash maps. The counters
  are the record \<open>metrics\<close>, passed through every handler. A panic is a value of \<open>outcome\<close>.
\<close>

section \<open>Interfaces\<close>

datatype 'a outcome = Returned 'a | Panicked

record gzip_lib =
  gz_read :: "nat \<Rightarrow> string \<Rightarrow> string + string"
  gz_write :: "string \<Rightarrow> string option"

record ext_env =
  codec :: json_codec
  gzip :: gzip_lib
  map_order :: "content_key list \<Rightarrow> content_key list"

record metrics =
  requests_total :: nat
  redactions_total :: nat
  blocked_total :: nat
  refused_total :: nat
  fail_open_total :: nat
  scanned_fields_total :: nat
  uninspected_total :: nat

definition metrics_zero :: metrics where
  "metrics_zero = \<lparr>requests_total = 0, redactions_total = 0, blocked_total = 0, refused_total = 0,
     fail_open_total = 0, scanned_fields_total = 0, uninspected_total = 0\<rparr>"

text \<open>The Envoy messages, with the fields the service reads or sets.\<close>

datatype status_code = UnprocessableEntity | BadGateway | InternalServerError

record common_response =
  remove_headers :: "string list option"
  body_mutation :: "string option"

record immediate =
  im_status :: status_code
  im_headers :: "(string \<times> string) list"
  im_body :: string
  im_details :: string

datatype processing_response =
    PR_RequestHeaders common_response
  | PR_ResponseHeaders common_response
  | PR_RequestBody common_response
  | PR_ResponseBody common_response
  | PR_Immediate immediate

record header_value =
  hv_key :: string
  hv_value :: string
  hv_raw_value :: string

datatype ext_request =
    RQ_RequestHeaders
  | RQ_ResponseHeaders "header_value list option"
  | RQ_RequestBody string bool
  | RQ_ResponseBody string bool
  | RQ_RequestTrailers
  | RQ_ResponseTrailers

text \<open>\<open>Display\<close> of an error.\<close>

definition error_message :: "error \<Rightarrow> string" where
  "error_message er =
     (case er of
        RecognizerBuild expected built \<Rightarrow>
          ''credential recognizers failed to build: expected '' @ show_nat expected @
          '', built '' @ show_nat built
      | Analyze m \<Rightarrow> ''detection failed: '' @ m
      | Anonymize m \<Rightarrow> ''anonymization failed: '' @ m
      | UnknownProfile m \<Rightarrow> ''unknown redaction profile: '' @ m)"

section \<open>Replies\<close>

datatype direction = Dir_Request | Dir_Response

definition continue_headers :: "direction \<Rightarrow> processing_response" where
  "continue_headers dir =
     (let common = \<lparr>remove_headers = None, body_mutation = None\<rparr>
      in case dir of
           Dir_Request \<Rightarrow> PR_RequestHeaders common
         | Dir_Response \<Rightarrow> PR_ResponseHeaders common)"

definition error_body :: "string \<Rightarrow> string \<Rightarrow> json" where
  "error_body code message =
     JObject [(''error'',
       JObject [(''message'', JString message), (''type'', JString code), (''code'', JString code)])]"

definition immediate_response ::
  "ext_env \<Rightarrow> direction \<Rightarrow> status_code \<Rightarrow> string \<Rightarrow> string \<Rightarrow> processing_response" where
  "immediate_response env dir status code message =
     PR_Immediate
       \<lparr>im_status = status,
        im_headers = [(''content-type'', ''application/json'')],
        im_body = render (codec env) (error_body code message),
        im_details = message\<rparr>"

definition body_response_with_original_length ::
  "direction \<Rightarrow> string \<Rightarrow> nat option \<Rightarrow> processing_response" where
  "body_response_with_original_length dir bytes original_length =
     (let header_mutation =
            Option.bind original_length
              (\<lambda>old_len. if length bytes = old_len then None else Some [''content-length'']);
          common = \<lparr>remove_headers = header_mutation, body_mutation = Some bytes\<rparr>
      in case dir of
           Dir_Request \<Rightarrow> PR_RequestBody common
         | Dir_Response \<Rightarrow> PR_ResponseBody common)"

definition body_response :: "direction \<Rightarrow> string \<Rightarrow> processing_response" where
  "body_response dir bytes = body_response_with_original_length dir bytes None"

definition record_report :: "metrics \<Rightarrow> scan_report \<Rightarrow> metrics" where
  "record_report m r =
     (let m1 = (if sr_redactions r > 0
                then m\<lparr>redactions_total := redactions_total m + sr_redactions r\<rparr> else m)
      in m1\<lparr>scanned_fields_total := scanned_fields_total m1 + scanned_fields r\<rparr>)"

definition refuse_or_block ::
  "ext_env \<Rightarrow> direction \<Rightarrow> engine \<Rightarrow> metrics \<Rightarrow> string \<Rightarrow> metrics \<times> processing_response" where
  "refuse_or_block env dir e m reason =
     (if fail_closed (engine_profile e)
      then (m\<lparr>refused_total := refused_total m + 1\<rparr>,
            immediate_response env dir BadGateway ''redaction_unavailable''
              (''request refused: redaction could not be completed ('' @ reason @ '')''))
      else (m\<lparr>fail_open_total := fail_open_total m + 1\<rparr>, continue_headers dir))"

section \<open>The request body\<close>

definition blocked_message :: "string \<Rightarrow> string list \<Rightarrow> string" where
  "blocked_message what entities =
     what @ '' blocked: content matched a prohibited category ('' @ join_with '', '' entities @ '')''"

definition handle_request_body ::
  "ext_env \<Rightarrow> engine \<Rightarrow> metrics \<Rightarrow> string \<Rightarrow> metrics \<times> processing_response" where
  "handle_request_body env e m raw =
     (let original_length = length raw
      in case from_str (codec env) raw of
           Inl _ \<Rightarrow> refuse_or_block env Dir_Request e m ''request body is not JSON''
         | Inr doc \<Rightarrow>
             (case scan_request e doc of
                Inr (doc', report) \<Rightarrow>
                  (let m1 = record_report m report
                   in if ScanReport_is_blocked report
                      then (m1\<lparr>blocked_total := blocked_total m1 + 1\<rparr>,
                            immediate_response env Dir_Request UnprocessableEntity ''content_blocked''
                              (blocked_message ''request'' (sr_blocked report)))
                      else let m2 = (if scanned_fields report = 0
                                     then m1\<lparr>uninspected_total := uninspected_total m1 + 1\<rparr> else m1)
                           in (m2, body_response_with_original_length Dir_Request
                                     (case to_str (codec env) doc' of Some s \<Rightarrow> s | None \<Rightarrow> raw)
                                     (Some original_length)))
              | Inl er \<Rightarrow>
                  refuse_or_block env Dir_Request e m
                    (''request scan failed: '' @ error_message er)))"

section \<open>The state of a response\<close>

datatype response_body_mode = M_Sse | M_Buffered string

record response_state =
  hold :: sse_holdback
  last_redactions :: nat
  utf8_carry :: string
  rs_mode :: response_body_mode
  content_type :: "string option"
  content_encoding :: "string option"
  gzip_buf :: "string option"

definition ResponseState_new :: "nat \<Rightarrow> response_state" where
  "ResponseState_new window =
     \<lparr>hold = SseHoldBack_with_window window, last_redactions = 0, utf8_carry = [],
      rs_mode = M_Buffered [], content_type = None, content_encoding = None, gzip_buf = None\<rparr>"

definition header_text :: "header_value \<Rightarrow> string" where
  "header_text h = (if hv_value h \<noteq> [] then hv_value h else from_utf8_lossy (hv_raw_value h))"

definition read_header ::
  "header_value \<Rightarrow> string option \<times> string option \<Rightarrow> string option \<times> string option" where
  "read_header h = (\<lambda>(ct, ce).
     (if eq_ignore_ascii_case (hv_key h) ''content-type'' then (Some (header_text h), ce)
      else if eq_ignore_ascii_case (hv_key h) ''content-encoding'' then (ct, Some (header_text h))
      else (ct, ce)))"

definition is_gzip_encoding :: "string option \<Rightarrow> bool" where
  "is_gzip_encoding ce = (case ce of None \<Rightarrow> False | Some v \<Rightarrow> eq_ignore_ascii_case v ''gzip'')"

definition set_mode_from_headers ::
  "header_value list option \<Rightarrow> response_state \<Rightarrow> response_state" where
  "set_mode_from_headers headers st =
     (case headers of
        None \<Rightarrow> st
      | Some hs \<Rightarrow>
          (let (ct, ce) = fold read_header hs (None, None);
               is_sse = (case ct of None \<Rightarrow> False
                         | Some v \<Rightarrow> starts_with ''text/event-stream'' (to_ascii_lowercase v));
               is_gzip = is_gzip_encoding ce;
               st1 = (if is_sse then st\<lparr>rs_mode := M_Sse\<rparr> else st);
               st2 = (if is_sse \<and> is_gzip then st1\<lparr>gzip_buf := Some []\<rparr> else st1)
           in st2\<lparr>content_type := ct, content_encoding := ce\<rparr>))"

section \<open>Decoding a chunked body\<close>

definition decode_chunk_with_carry :: "string \<Rightarrow> string \<Rightarrow> string \<times> (unit + string)" where
  "decode_chunk_with_carry carry chunk =
     (let buf = carry @ chunk
      in case from_utf8 buf of
           Inr s \<Rightarrow> ([], Inr s)
         | Inl er \<Rightarrow>
             (if error_len er \<noteq> None then (buf, Inl ())
              else let n = valid_up_to er;
                       s = (case from_utf8 (take n buf) of Inr t \<Rightarrow> t | Inl _ \<Rightarrow> [])
                   in (drop n buf, Inr s)))"

section \<open>Buffered responses\<close>

definition MAX_BUFFERED_RESPONSE_BYTES :: nat where
  "MAX_BUFFERED_RESPONSE_BYTES = 33554432"

definition decompress_gzip :: "gzip_lib \<Rightarrow> string \<Rightarrow> string + string" where
  "decompress_gzip gz buf =
     (if \<not> starts_with [CHR 0x1F, CHR 0x8B] buf then Inr buf
      else case gz_read gz (MAX_BUFFERED_RESPONSE_BYTES + 1) buf of
             Inl er \<Rightarrow> Inl (''gzip decompression failed: '' @ er)
           | Inr out \<Rightarrow>
               (if length out > MAX_BUFFERED_RESPONSE_BYTES
                then Inl (''decompressed output exceeds '' @ show_nat MAX_BUFFERED_RESPONSE_BYTES @ '' bytes'')
                else Inr out))"

definition compress_as_gzip :: "gzip_lib \<Rightarrow> string \<Rightarrow> string option \<Rightarrow> string option" where
  "compress_as_gzip gz data ce = (if \<not> is_gzip_encoding ce then None else gz_write gz data)"

text \<open>The scan of the complete, decompressed body.\<close>

definition scan_buffered ::
  "ext_env \<Rightarrow> engine \<Rightarrow> metrics \<Rightarrow> nat \<Rightarrow> string \<Rightarrow> string option \<Rightarrow> metrics \<times> processing_response" where
  "scan_buffered env e m compressed_len buf ce =
     (case from_str (codec env) buf of
        Inl _ \<Rightarrow> refuse_or_block env Dir_Response e m ''response body is not JSON''
      | Inr doc \<Rightarrow>
          (case scan_response e doc of
             Inr (doc', report) \<Rightarrow>
               (let m1 = record_report m report
                in if ScanReport_is_blocked report
                   then (m1\<lparr>blocked_total := blocked_total m1 + 1\<rparr>,
                         immediate_response env Dir_Response UnprocessableEntity ''content_blocked''
                           (blocked_message ''response'' (sr_blocked report)))
                   else let redacted = (case to_str (codec env) doc' of Some s \<Rightarrow> s | None \<Rightarrow> buf);
                            output = (case compress_as_gzip (gzip env) redacted ce of
                                        Some z \<Rightarrow> z | None \<Rightarrow> redacted)
                        in (m1, body_response_with_original_length Dir_Response output
                                  (Some compressed_len)))
           | Inl er \<Rightarrow>
               refuse_or_block env Dir_Response e m (''response scan failed: '' @ error_message er)))"

definition handle_buffered_response_chunk ::
  "ext_env \<Rightarrow> engine \<Rightarrow> metrics \<Rightarrow> string \<Rightarrow> string \<Rightarrow> bool \<Rightarrow> string option \<Rightarrow>
     string \<times> metrics \<times> processing_response" where
  "handle_buffered_response_chunk env e m buf chunk end_of_stream ce =
     (if length buf + length chunk > MAX_BUFFERED_RESPONSE_BYTES
      then (buf, refuse_or_block env Dir_Response e m
                   (''response exceeded '' @ show_nat MAX_BUFFERED_RESPONSE_BYTES @ '' bytes''))
      else let buf1 = buf @ chunk
           in if \<not> end_of_stream then (buf1, m, body_response Dir_Response [])
              else (case decompress_gzip (gzip env) buf1 of
                      Inl er \<Rightarrow>
                        (buf1, refuse_or_block env Dir_Response e m
                                 (''response body decompression failed: '' @ er))
                    | Inr buf2 \<Rightarrow> (buf2, scan_buffered env e m (length buf1) buf2 ce)))"

section \<open>Streamed responses\<close>

definition push_and_flush ::
  "ext_env \<Rightarrow> engine \<Rightarrow> sse_holdback \<Rightarrow> string \<Rightarrow> sse_holdback \<times> (error + sse_emit) outcome" where
  "push_and_flush env e h txt =
     (case SseHoldBack_push (codec env) e h txt of
        (h1, Inl er) \<Rightarrow> (h1, Returned (Inl er))
      | (h1, Inr (SE_Blocked entities)) \<Rightarrow> (h1, Returned (Inr (SE_Blocked entities)))
      | (h1, Inr em1) \<Rightarrow>
          (case SseHoldBack_flush (map_order env) (codec env) e h1 of
             (h2, Inl er) \<Rightarrow> (h2, Returned (Inl er))
           | (h2, Inr em2) \<Rightarrow>
               (h2,
                case em1 of
                  SE_Release a \<Rightarrow>
                    (case em2 of
                       SE_Release b \<Rightarrow> Returned (Inr (SE_Release (a @ b)))
                     | SE_Nothing \<Rightarrow> Returned (Inr (SE_Release a))
                     | SE_Blocked _ \<Rightarrow> Panicked)
                | _ \<Rightarrow> Returned (Inr em2))))"

definition record_delta :: "metrics \<Rightarrow> sse_holdback \<Rightarrow> nat \<Rightarrow> metrics \<times> nat" where
  "record_delta m h seen =
     (let delta = SseHoldBack_redactions h - seen
      in if delta > 0
         then (m\<lparr>redactions_total := redactions_total m + delta\<rparr>, SseHoldBack_redactions h)
         else (m, seen))"

definition emit_response ::
  "ext_env \<Rightarrow> engine \<Rightarrow> metrics \<Rightarrow> error + sse_emit \<Rightarrow> (string \<Rightarrow> string) \<Rightarrow>
     metrics \<times> processing_response" where
  "emit_response env e m em rel =
     (case em of
        Inr SE_Nothing \<Rightarrow> (m, body_response Dir_Response [])
      | Inr (SE_Release out) \<Rightarrow> (m, body_response Dir_Response (rel out))
      | Inr (SE_Blocked entities) \<Rightarrow>
          (m\<lparr>blocked_total := blocked_total m + 1\<rparr>,
           immediate_response env Dir_Response UnprocessableEntity ''content_blocked''
             (blocked_message ''response'' entities))
      | Inl er \<Rightarrow>
          refuse_or_block env Dir_Response e m (''response scan failed: '' @ error_message er))"

text \<open>The common tail of the two streamed handlers: count, and answer. A panic answers nothing.\<close>

definition answer_emit ::
  "ext_env \<Rightarrow> engine \<Rightarrow> metrics \<Rightarrow> response_state \<Rightarrow> sse_holdback \<times> (error + sse_emit) outcome \<Rightarrow>
     (string \<Rightarrow> string) \<Rightarrow> response_state \<times> metrics \<times> processing_response outcome" where
  "answer_emit env e m st res rel =
     (case res of
        (h, Panicked) \<Rightarrow> (st\<lparr>hold := h\<rparr>, m, Panicked)
      | (h, Returned em) \<Rightarrow>
          (let (m1, seen) = record_delta m h (last_redactions st);
               (m2, resp) = emit_response env e m1 em rel
           in (st\<lparr>hold := h, last_redactions := seen\<rparr>, m2, Returned resp)))"

definition refuse_chunk ::
  "ext_env \<Rightarrow> engine \<Rightarrow> metrics \<Rightarrow> response_state \<Rightarrow> string \<Rightarrow>
     response_state \<times> metrics \<times> processing_response outcome" where
  "refuse_chunk env e m st reason =
     (let (m1, resp) = refuse_or_block env Dir_Response e m reason in (st, m1, Returned resp))"

definition handle_gzip_sse_chunk ::
  "ext_env \<Rightarrow> engine \<Rightarrow> metrics \<Rightarrow> response_state \<Rightarrow> string \<Rightarrow> bool \<Rightarrow>
     response_state \<times> metrics \<times> processing_response outcome" where
  "handle_gzip_sse_chunk env e m st chunk end_of_stream =
     (case gzip_buf st of
        None \<Rightarrow> refuse_chunk env e m st ''gzip-SSE buffer not armed''
      | Some buf \<Rightarrow>
          (if length buf + length chunk > MAX_BUFFERED_RESPONSE_BYTES
           then refuse_chunk env e m st
                  (''gzip-SSE buffer exceeded '' @ show_nat MAX_BUFFERED_RESPONSE_BYTES @ '' bytes'')
           else let buf1 = buf @ chunk; st1 = st\<lparr>gzip_buf := Some buf1\<rparr>
                in if \<not> end_of_stream then (st1, m, Returned (body_response Dir_Response []))
                   else (case decompress_gzip (gzip env) buf1 of
                           Inl er \<Rightarrow>
                             refuse_chunk env e m st1 (''SSE gzip decompression failed: '' @ er)
                         | Inr buf2 \<Rightarrow>
                             (let st2 = st1\<lparr>gzip_buf := Some buf2\<rparr>
                              in case from_utf8 buf2 of
                                   Inl _ \<Rightarrow>
                                     refuse_chunk env e m st2
                                       ''decompressed SSE bytes are not valid UTF-8''
                                 | Inr txt \<Rightarrow>
                                     answer_emit env e m st2 (push_and_flush env e (hold st2) txt)
                                       (\<lambda>out. case compress_as_gzip (gzip env) out (content_encoding st2) of
                                                Some z \<Rightarrow> z | None \<Rightarrow> out)))))"

definition handle_sse_chunk ::
  "ext_env \<Rightarrow> engine \<Rightarrow> metrics \<Rightarrow> response_state \<Rightarrow> string \<Rightarrow> bool \<Rightarrow>
     response_state \<times> metrics \<times> processing_response outcome" where
  "handle_sse_chunk env e m st chunk end_of_stream =
     (case decode_chunk_with_carry (utf8_carry st) chunk of
        (carry, Inl _) \<Rightarrow>
          refuse_chunk env e m (st\<lparr>utf8_carry := carry\<rparr>) ''response bytes are not valid UTF-8''
      | (carry, Inr txt) \<Rightarrow>
          (let st1 = st\<lparr>utf8_carry := carry\<rparr>
           in if end_of_stream \<and> carry \<noteq> []
              then refuse_chunk env e m st1 ''response ended mid UTF-8 codepoint''
              else answer_emit env e m st1
                     (if end_of_stream then push_and_flush env e (hold st1) txt
                      else (let (h, r) = SseHoldBack_push (codec env) e (hold st1) txt
                            in (h, Returned r)))
                     (\<lambda>out. out)))"

definition handle_response_chunk ::
  "ext_env \<Rightarrow> engine \<Rightarrow> metrics \<Rightarrow> response_state \<Rightarrow> string \<Rightarrow> bool \<Rightarrow>
     response_state \<times> metrics \<times> processing_response outcome" where
  "handle_response_chunk env e m st chunk end_of_stream =
     (case rs_mode st of
        M_Buffered buf \<Rightarrow>
          (let (buf', m', resp) =
                 handle_buffered_response_chunk env e m buf chunk end_of_stream (content_encoding st)
           in (st\<lparr>rs_mode := M_Buffered buf'\<rparr>, m', Returned resp))
      | M_Sse \<Rightarrow>
          (if gzip_buf st \<noteq> None then handle_gzip_sse_chunk env e m st chunk end_of_stream
           else handle_sse_chunk env e m st chunk end_of_stream))"

section \<open>The message loop\<close>

datatype phase = P_RequestBody string | P_ResponseBody response_state

definition state_mismatch :: "ext_env \<Rightarrow> processing_response" where
  "state_mismatch env =
     immediate_response env Dir_Request InternalServerError ''internal_error'' ''processing state mismatch''"

definition dispatch ::
  "ext_env \<Rightarrow> nat \<Rightarrow> engine \<Rightarrow> metrics \<Rightarrow> phase \<Rightarrow> ext_request \<Rightarrow>
     phase \<times> metrics \<times> processing_response option outcome" where
  "dispatch env window e m phase req =
     (case req of
        RQ_RequestHeaders \<Rightarrow> (phase, m, Returned (Some (continue_headers Dir_Request)))
      | RQ_ResponseHeaders headers \<Rightarrow>
          (let st = (case phase of
                       P_RequestBody _ \<Rightarrow> ResponseState_new window
                     | P_ResponseBody st \<Rightarrow> st)
           in (P_ResponseBody (set_mode_from_headers headers st), m,
               Returned (Some (continue_headers Dir_Response))))
      | RQ_RequestBody body end_of_stream \<Rightarrow>
          (case phase of
             P_RequestBody buf \<Rightarrow>
               (let buf1 = buf @ body
                in if \<not> end_of_stream then (P_RequestBody buf1, m, Returned None)
                   else let m1 = m\<lparr>requests_total := requests_total m + 1\<rparr>;
                            (m2, resp) = handle_request_body env e m1 buf1
                        in (P_ResponseBody (ResponseState_new window), m2, Returned (Some resp)))
           | P_ResponseBody _ \<Rightarrow> (phase, m, Returned (Some (state_mismatch env))))
      | RQ_ResponseBody body end_of_stream \<Rightarrow>
          (case phase of
             P_ResponseBody st \<Rightarrow>
               (let (st', m', resp) = handle_response_chunk env e m st body end_of_stream
                in (P_ResponseBody st', m',
                    case resp of Returned x \<Rightarrow> Returned (Some x) | Panicked \<Rightarrow> Panicked))
           | P_RequestBody _ \<Rightarrow> (phase, m, Returned (Some (state_mismatch env))))
      | RQ_RequestTrailers \<Rightarrow> (phase, m, Returned (Some (state_mismatch env)))
      | RQ_ResponseTrailers \<Rightarrow> (phase, m, Returned (Some (state_mismatch env))))"

definition is_immediate :: "processing_response \<Rightarrow> bool" where
  "is_immediate r = (case r of PR_Immediate _ \<Rightarrow> True | _ \<Rightarrow> False)"

text \<open>The loop of \<open>process\<close> over the inbound messages up to the end of the stream (or its first read
  error). \<open>None\<close> is a message without a request. The client stays connected: every reply is sent. The
  result is the list of replies and whether the task panicked.\<close>

fun process ::
  "ext_env \<Rightarrow> nat \<Rightarrow> engine \<Rightarrow> metrics \<Rightarrow> phase \<Rightarrow> ext_request option list \<Rightarrow>
     metrics \<times> processing_response list \<times> bool" where
  "process env window e m phase [] = (m, [], False)"
| "process env window e m phase (None # msgs) = process env window e m phase msgs"
| "process env window e m phase (Some req # msgs) =
     (case dispatch env window e m phase req of
        (phase', m', Panicked) \<Rightarrow> (m', [], True)
      | (phase', m', Returned None) \<Rightarrow> process env window e m' phase' msgs
      | (phase', m', Returned (Some out)) \<Rightarrow>
          (if is_immediate out then (m', [out], False)
           else let (m'', outs, p) = process env window e m' phase' msgs in (m'', out # outs, p)))"

section \<open>Configuration\<close>

record ext_args =
  a_listen_addr :: string
  a_metrics_listen_addr :: string
  a_redact_profile :: string
  a_redact_hash_salt :: string
  a_response_hold_back_bytes :: nat

record 'addr ext_config =
  c_listen_addr :: 'addr
  c_metrics_listen_addr :: 'addr
  c_redact_profile :: string
  c_redact_hash_salt :: string
  c_response_hold_back_bytes :: nat

datatype config_error =
    Salt_empty
  | Window_zero
  | Bad_listen_addr string
  | Bad_metrics_addr string
  | Unknown_profile string

definition Config_validate ::
  "(string \<Rightarrow> 'addr option) \<Rightarrow> ext_args \<Rightarrow> config_error + 'addr ext_config" where
  "Config_validate parse_addr args =
     (if str_trim (a_redact_hash_salt args) = [] then Inl Salt_empty
      else if a_response_hold_back_bytes args = 0 then Inl Window_zero
      else case parse_addr (a_listen_addr args) of
             None \<Rightarrow> Inl (Bad_listen_addr (a_listen_addr args))
           | Some la \<Rightarrow>
               (case parse_addr (a_metrics_listen_addr args) of
                  None \<Rightarrow> Inl (Bad_metrics_addr (a_metrics_listen_addr args))
                | Some ma \<Rightarrow>
                    Inr \<lparr>c_listen_addr = la, c_metrics_listen_addr = ma,
                         c_redact_profile = a_redact_profile args,
                         c_redact_hash_salt = a_redact_hash_salt args,
                         c_response_hold_back_bytes = a_response_hold_back_bytes args\<rparr>))"

definition resolve_profile :: "(entity_type \<Rightarrow> string) \<Rightarrow> string \<Rightarrow> config_error + profile" where
  "resolve_profile nm name =
     (case by_name nm name of None \<Rightarrow> Inl (Unknown_profile name) | Some p \<Rightarrow> Inr p)"

section \<open>Lemmas\<close>

subsection \<open>Decoding\<close>

lemma decode_Inr:
  assumes "decode_chunk_with_carry c chunk = (c', Inr t)"
  shows "c @ chunk = t @ c'" and "valid_utf8 t" and "c' = [] \<or> next_code_point c' = Incomplete"
proof -
  have "c @ chunk = t @ c' \<and> valid_utf8 t \<and> (c' = [] \<or> next_code_point c' = Incomplete)"
  proof (cases "from_utf8 (c @ chunk)")
    case (Inr s)
    with assms show ?thesis by (simp add: decode_chunk_with_carry_def from_utf8_Inr_iff)
  next
    case (Inl er)
    with assms have none: "error_len er = None" by (auto simp: decode_chunk_with_carry_def Let_def split: if_splits)
    note spec = from_utf8_Inl [OF Inl]
    then have "from_utf8 (take (valid_up_to er) (c @ chunk)) = Inr (take (valid_up_to er) (c @ chunk))"
      by (simp add: valid_utf8_def)
    with assms Inl none have "t = take (valid_up_to er) (c @ chunk)" "c' = drop (valid_up_to er) (c @ chunk)"
      by (simp_all add: decode_chunk_with_carry_def Let_def)
    with spec none show ?thesis by (simp del: take_append drop_append)
  qed
  then show "c @ chunk = t @ c'" and "valid_utf8 t" and "c' = [] \<or> next_code_point c' = Incomplete"
    by blast+
qed

lemma decode_Inl:
  assumes "decode_chunk_with_carry c chunk = (c', Inl u)"
  shows "\<not> valid_utf8 (c @ chunk @ x)"
proof (cases "from_utf8 (c @ chunk)")
  case (Inr s)
  with assms show ?thesis by (simp add: decode_chunk_with_carry_def)
next
  case (Inl er)
  with assms obtain k where "error_len er = Some k"
    by (auto simp: decode_chunk_with_carry_def Let_def split: if_splits)
  from from_utf8_Inl_not_completable [OF Inl this, of x] show ?thesis by simp
qed

text \<open>Decoding a sequence of chunks.\<close>

fun decode_all :: "string \<Rightarrow> string list \<Rightarrow> string \<times> (unit + string)" where
  "decode_all c [] = (c, Inr [])"
| "decode_all c (chunk # chunks) =
     (case decode_chunk_with_carry c chunk of
        (c', Inl u) \<Rightarrow> (c', Inl u)
      | (c', Inr t) \<Rightarrow> (case decode_all c' chunks of (c'', r) \<Rightarrow> (c'', map_sum id ((@) t) r)))"

lemma decode_all_Inr:
  "decode_all c chunks = (c', Inr t) \<Longrightarrow> c = [] \<or> next_code_point c = Incomplete \<Longrightarrow>
     c @ concat chunks = t @ c' \<and> valid_utf8 t \<and> (c' = [] \<or> next_code_point c' = Incomplete)"
proof (induction chunks arbitrary: c t)
  case (Cons chunk chunks)
  obtain c1 r where d: "decode_chunk_with_carry c chunk = (c1, r)" by fastforce
  with Cons.prems(1) obtain t1 where r: "r = Inr t1" by (cases r) auto
  with Cons.prems(1) d obtain t2 where d2: "decode_all c1 chunks = (c', Inr t2)" and t: "t = t1 @ t2"
    by (cases "decode_all c1 chunks"; cases "snd (decode_all c1 chunks)") auto
  note s = decode_Inr [OF d [unfolded r]]
  from Cons.IH [OF d2 s(3)] s t show ?case
    by (metis append.assoc concat.simps(2) valid_utf8_append)
qed simp

lemma decode_all_Inl:
  "decode_all c chunks = (c', Inl u) \<Longrightarrow> \<not> valid_utf8 (c @ concat chunks @ x)"
proof (induction chunks arbitrary: c)
  case (Cons chunk chunks)
  obtain c1 r where d: "decode_chunk_with_carry c chunk = (c1, r)" by fastforce
  show ?case
  proof (cases r)
    case (Inl v)
    from decode_Inl [OF d [unfolded Inl], of "concat chunks @ x"] show ?thesis by simp
  next
    case (Inr t1)
    with Cons.prems d have d2: "decode_all c1 chunks = (c', Inl u)"
      by (cases "decode_all c1 chunks"; cases "snd (decode_all c1 chunks)") auto
    note s = decode_Inr [OF d [unfolded Inr]]
    have "\<not> valid_utf8 (t1 @ c1 @ concat chunks @ x)"
      using Cons.IH [OF d2] valid_utf8_appendD [OF s(2)] by blast
    with s(1) show ?thesis by (metis append.assoc concat.simps(2))
  qed
qed simp

subsection \<open>Replies\<close>

lemma refuse_fail_closed:
  "fail_closed (engine_profile e) \<Longrightarrow> refuse_or_block env dir e m reason = (m', resp) \<Longrightarrow>
     is_immediate resp \<and> m' = m\<lparr>refused_total := refused_total m + 1\<rparr>"
  by (auto simp: refuse_or_block_def is_immediate_def immediate_response_def)

lemma immediate_is_immediate [simp]: "is_immediate (immediate_response env dir st c msg)"
  by (simp add: is_immediate_def immediate_response_def)

lemma body_not_immediate [simp]:
  "\<not> is_immediate (body_response_with_original_length dir b n)" "\<not> is_immediate (body_response dir b)"
  "\<not> is_immediate (continue_headers dir)"
  by (simp_all add: is_immediate_def body_response_def body_response_with_original_length_def
      continue_headers_def Let_def split: direction.split)

text \<open>The body bytes a reply puts in place of a response chunk.\<close>

definition reply_body :: "processing_response \<Rightarrow> string" where
  "reply_body r =
     (case r of
        PR_ResponseBody c \<Rightarrow> (case body_mutation c of Some b \<Rightarrow> b | None \<Rightarrow> [])
      | _ \<Rightarrow> [])"

lemma reply_body_response [simp]: "reply_body (body_response Dir_Response b) = b"
  by (simp add: reply_body_def body_response_def body_response_with_original_length_def Let_def)

lemma process_immediate_last:
  "process env w e m phase msgs = (m', outs, p) \<Longrightarrow> list_all (\<lambda>r. \<not> is_immediate r) (butlast outs)"
proof (induction env w e m phase msgs arbitrary: m' outs p rule: process.induct)
  case (3 env w e m phase req msgs)
  obtain phase' m1 o' where d: "dispatch env w e m phase req = (phase', m1, o')" by (metis prod_cases3)
  show ?case
  proof (cases o')
    case Panicked
    with "3.prems" d show ?thesis by simp
  next
    case (Returned r)
    show ?thesis
    proof (cases r)
      case None
      with "3.prems" "3.IH"(1) d Returned show ?thesis by simp
    next
      case (Some out)
      with "3.prems" "3.IH"(2) d Returned show ?thesis
        by (auto split: if_splits prod.splits)
    qed
  qed
qed simp_all

end
