(* ===== verification/Redact_Gateway.thy ===== *)
theory Redact_Gateway
  imports Redact_Extproc
begin

text \<open>
  \<open>app/redact-gateway\<close>: the stand-alone redacting HTTP proxy (\<open>proxy.rs\<close>) and its configuration
  (\<open>config.rs\<close>).

  The upstream provider is the parameter \<open>upstream\<close>, a function from the request the proxy sends to
  a transport error or a response. A response body is the list of read events that \<open>chunk()\<close> yields:
  chunks, and possibly a read error. \<open>handle\<close> returns the requests it sent upstream beside its own
  response, so that properties can speak about what left the proxy. The client stays connected. The
  counters are those of the external processor, under the same names.
\<close>

section \<open>Data\<close>

record gateway_state =
  gw_engine :: engine
  provider_base_url :: string
  max_body_bytes :: nat

datatype refusal = R_Blocked "string list" | R_Undetermined string

datatype read_event = Chunk string | Read_error string

record up_request =
  up_url :: string
  up_headers :: "(string \<times> string) list"
  up_body :: json

record up_response =
  up_status :: nat
  up_content_type :: "string option"
  up_reads :: "read_event list"

datatype gw_response =
    GW_Json nat json
  | GW_Text nat string
  | GW_Stream nat "string list"

section \<open>Helpers\<close>

definition Refusal_into_response :: "refusal \<Rightarrow> gw_response" where
  "Refusal_into_response r =
     (case r of
        R_Blocked entities \<Rightarrow>
          GW_Json 422 (error_body ''content_blocked'' (blocked_message ''request'' entities))
      | R_Undetermined why \<Rightarrow>
          GW_Json 502 (error_body ''redaction_unavailable''
            (''request refused: redaction could not be completed ('' @ why @ '')'')))"

definition refuse :: "metrics \<Rightarrow> refusal \<Rightarrow> metrics \<times> gw_response" where
  "refuse m r = (m\<lparr>refused_total := refused_total m + 1\<rparr>, Refusal_into_response r)"

definition Metrics_record :: "metrics \<Rightarrow> nat \<Rightarrow> nat \<Rightarrow> metrics" where
  "Metrics_record m redactions nfields =
     (let m1 = (if redactions > 0
                then m\<lparr>redactions_total := redactions_total m + redactions\<rparr> else m)
      in m1\<lparr>scanned_fields_total := scanned_fields_total m1 + nfields\<rparr>)"

definition copy_header ::
  "(string \<times> string) list \<Rightarrow> string \<Rightarrow> (string \<times> string) list \<Rightarrow> (string \<times> string) list" where
  "copy_header headers name out =
     (case map_of headers name of None \<Rightarrow> out | Some v \<Rightarrow> AList.update name v out)"

definition forwarded_headers :: "(string \<times> string) list \<Rightarrow> (string \<times> string) list" where
  "forwarded_headers headers =
     fold (copy_header headers) [''traceparent'', ''tracestate'', ''x-request-id'']
       (fold (copy_header headers) [''authorization'', ''accept'', ''user-agent''] [])"

definition utf8_error_message :: "utf8_error \<Rightarrow> string" where
  "utf8_error_message er =
     (case error_len er of
        Some k \<Rightarrow>
          ''invalid utf-8 sequence of '' @ show_nat k @ '' bytes from index '' @ show_nat (valid_up_to er)
      | None \<Rightarrow> ''incomplete utf-8 byte sequence from index '' @ show_nat (valid_up_to er))"

fun read_capped :: "nat \<Rightarrow> string \<Rightarrow> read_event list \<Rightarrow> string + string" where
  "read_capped cap buf [] =
     (case from_utf8 buf of
        Inr s \<Rightarrow> Inr s
      | Inl er \<Rightarrow> Inl (''upstream response is not UTF-8: '' @ utf8_error_message er))"
| "read_capped cap buf (Read_error er # evs) = Inl er"
| "read_capped cap buf (Chunk c # evs) =
     (if length buf + length c > cap
      then Inl (''upstream response exceeded '' @ show_nat cap @ '' bytes'')
      else read_capped cap (buf @ c) evs)"

definition sse_error_event :: "json_codec \<Rightarrow> string \<Rightarrow> string \<Rightarrow> string" where
  "sse_error_event cd code message =
     ''data: '' @ render cd (error_body code message) @ [newline, newline]"

definition sse_blocked_event :: "json_codec \<Rightarrow> string list \<Rightarrow> string" where
  "sse_blocked_event cd entities =
     sse_error_event cd ''content_blocked'' (blocked_message ''response'' entities)"

definition gw_decode_chunk_with_carry ::
  "string \<Rightarrow> string \<Rightarrow> string \<times> (unit + string \<times> bool)" where
  "gw_decode_chunk_with_carry carry chunk =
     (let buf = carry @ chunk
      in case from_utf8 buf of
           Inr s \<Rightarrow> ([], Inr (s, False))
         | Inl er \<Rightarrow>
             (case error_len er of
                Some _ \<Rightarrow> (buf, Inl ())
              | None \<Rightarrow>
                  (let n = valid_up_to er;
                       s = (case from_utf8 (take n buf) of Inr t \<Rightarrow> t | Inl _ \<Rightarrow> [])
                   in (drop n buf, Inr (s, True)))))"

text \<open>\<open>str::lines\<close>, and the count of data lines.\<close>

definition strip_line_end :: "string \<Rightarrow> string" where
  "strip_line_end l =
     (if l \<noteq> [] \<and> last l = newline
      then (let l1 = butlast l
            in if l1 \<noteq> [] \<and> last l1 = carriage_return then butlast l1 else l1)
      else l)"

definition count_data_lines :: "string \<Rightarrow> nat" where
  "count_data_lines txt =
     length (filter (\<lambda>l. starts_with ''data:'' l \<and> l \<noteq> ''data: [DONE]'')
       (map strip_line_end (split_inclusive txt)))"

section \<open>The streamed response\<close>

record stream_state =
  sg_hold :: sse_holdback
  total_bytes :: nat
  carry :: string
  data_frames :: nat
  observe_passthrough :: bool
  sg_metrics :: metrics

definition stream_init :: "metrics \<Rightarrow> stream_state" where
  "stream_init m =
     \<lparr>sg_hold = SseHoldBack_with_window DEFAULT_WINDOW, total_bytes = 0, carry = [], data_frames = 0,
      observe_passthrough = False, sg_metrics = m\<rparr>"

definition stream_record :: "stream_state \<Rightarrow> metrics" where
  "stream_record st =
     Metrics_record (sg_metrics st) (SseHoldBack_redactions (sg_hold st)) (data_frames st)"

text \<open>Ending the task early: an error event when the profile fails closed, then the counters.\<close>

definition stream_abort :: "json_codec \<Rightarrow> bool \<Rightarrow> stream_state \<Rightarrow> string \<Rightarrow> metrics \<times> string list" where
  "stream_abort cd fc st why =
     (stream_record st, if fc then [sse_error_event cd ''redaction_unavailable'' why] else [])"

text \<open>After the loop: an incomplete trailing code point is a truncation; otherwise flush.\<close>

definition stream_finish ::
  "ext_env \<Rightarrow> engine \<Rightarrow> bool \<Rightarrow> stream_state \<Rightarrow> metrics \<times> string list" where
  "stream_finish env e fc st =
     (if carry st \<noteq> []
      then stream_abort (codec env) fc st ''upstream response ended mid UTF-8 codepoint''
      else case SseHoldBack_flush (map_order env) (codec env) e (sg_hold st) of
             (h, Inr (SE_Release out)) \<Rightarrow> (stream_record (st\<lparr>sg_hold := h\<rparr>), [out])
           | (h, Inr (SE_Blocked entities)) \<Rightarrow>
               (let m = sg_metrics st
                in (stream_record (st\<lparr>sg_hold := h, sg_metrics := m\<lparr>blocked_total := blocked_total m + 1\<rparr>\<rparr>),
                    [sse_blocked_event (codec env) entities]))
           | (h, Inr SE_Nothing) \<Rightarrow> (stream_record (st\<lparr>sg_hold := h\<rparr>), [])
           | (h, Inl er) \<Rightarrow>
               (stream_record (st\<lparr>sg_hold := h\<rparr>),
                [sse_error_event (codec env) ''redaction_unavailable'' (error_message er)]))"

text \<open>One chunk. \<open>Inl\<close> ends the task with its last events; \<open>Inr\<close> continues with the chunks sent.\<close>

definition stream_chunk ::
  "ext_env \<Rightarrow> engine \<Rightarrow> nat \<Rightarrow> bool \<Rightarrow> stream_state \<Rightarrow> string \<Rightarrow>
     metrics \<times> string list + stream_state \<times> string list" where
  "stream_chunk env e cap fc st chunk =
     (if observe_passthrough st then Inr (st, [chunk])
      else let st1 = st\<lparr>total_bytes := total_bytes st + length chunk\<rparr>
           in if total_bytes st1 > cap
              then Inl (stream_abort (codec env) fc st1
                          (''upstream response exceeded '' @ show_nat cap @ '' bytes''))
              else case gw_decode_chunk_with_carry (carry st1) chunk of
                     (c, Inl _) \<Rightarrow>
                       Inl (stream_abort (codec env) fc (st1\<lparr>carry := c\<rparr>) ''upstream chunk is corrupt UTF-8'')
                   | (c, Inr (txt, True)) \<Rightarrow>
                       (let st2 = st1\<lparr>carry := c\<rparr>
                        in if txt \<noteq> []
                           then Inr (st2\<lparr>sg_hold := fst (SseHoldBack_push (codec env) e (sg_hold st2) txt)\<rparr>, [])
                           else Inr (st2, []))
                   | (c, Inr (txt, False)) \<Rightarrow>
                       (let st2 = st1\<lparr>carry := c, data_frames := data_frames st1 + count_data_lines txt\<rparr>
                        in case SseHoldBack_push (codec env) e (sg_hold st2) txt of
                             (h, Inr (SE_Release out)) \<Rightarrow> Inr (st2\<lparr>sg_hold := h\<rparr>, [out])
                           | (h, Inr SE_Nothing) \<Rightarrow> Inr (st2\<lparr>sg_hold := h\<rparr>, [])
                           | (h, Inr (SE_Blocked entities)) \<Rightarrow>
                               (let m = sg_metrics st2;
                                    m1 = m\<lparr>blocked_total := blocked_total m + 1\<rparr>;
                                    st3 = st2\<lparr>sg_hold := h, sg_metrics := m1\<rparr>;
                                    m2 = stream_record st3
                                in if fc then Inl (m2, [sse_blocked_event (codec env) entities])
                                   else Inr (st3\<lparr>sg_metrics := m2\<lparr>fail_open_total := fail_open_total m2 + 1\<rparr>,
                                                 observe_passthrough := True\<rparr>, []))
                           | (h, Inl er) \<Rightarrow>
                               Inl (stream_abort (codec env) fc (st2\<lparr>sg_hold := h\<rparr>) (error_message er))))"

fun scan_sse_streaming ::
  "ext_env \<Rightarrow> engine \<Rightarrow> nat \<Rightarrow> bool \<Rightarrow> stream_state \<Rightarrow> read_event list \<Rightarrow> metrics \<times> string list" where
  "scan_sse_streaming env e cap fc st [] = stream_finish env e fc st"
| "scan_sse_streaming env e cap fc st (Read_error er # evs) =
     stream_abort (codec env) fc st (''upstream read error: '' @ er)"
| "scan_sse_streaming env e cap fc st (Chunk c # evs) =
     (case stream_chunk env e cap fc st c of
        Inl res \<Rightarrow> res
      | Inr (st', sent) \<Rightarrow>
          (let (m, outs) = scan_sse_streaming env e cap fc st' evs in (m, sent @ outs)))"

section \<open>One request\<close>

definition is_success :: "nat \<Rightarrow> bool" where
  "is_success status \<longleftrightarrow> 200 \<le> status \<and> status < 300"

text \<open>The response side of \<open>handle\<close>.\<close>

definition handle_response ::
  "ext_env \<Rightarrow> gateway_state \<Rightarrow> metrics \<Rightarrow> bool \<Rightarrow> up_response \<Rightarrow> metrics \<times> gw_response" where
  "handle_response env gs m streaming up =
     (let status = up_status up;
          ctype = (case up_content_type up of None \<Rightarrow> [] | Some v \<Rightarrow> v);
          is_streaming = (streaming \<or> starts_with ''text/event-stream'' ctype);
          fc = fail_closed (engine_profile (gw_engine gs))
      in if is_streaming
         then if \<not> is_success status
              then (case read_capped (max_body_bytes gs) [] (up_reads up) of
                      Inr body \<Rightarrow> (m, GW_Text status body)
                    | Inl why \<Rightarrow> refuse m (R_Undetermined (''could not read upstream response: '' @ why)))
              else (let (m', sent) = scan_sse_streaming env (gw_engine gs) (max_body_bytes gs) fc
                                       (stream_init m) (up_reads up)
                    in (m', GW_Stream status sent))
         else (case read_capped (max_body_bytes gs) [] (up_reads up) of
                 Inl why \<Rightarrow> refuse m (R_Undetermined (''could not read upstream response: '' @ why))
               | Inr body \<Rightarrow>
                   (if \<not> is_success status then (m, GW_Text status body)
                    else case from_str (codec env) body of
                           Inl er \<Rightarrow> refuse m (R_Undetermined (''upstream response is not JSON: '' @ er))
                         | Inr doc \<Rightarrow>
                             (case scan_response (gw_engine gs) doc of
                                Inl er \<Rightarrow>
                                  refuse m (R_Undetermined (''response scan failed: '' @ error_message er))
                              | Inr (doc', report) \<Rightarrow>
                                  (let m1 = Metrics_record m (sr_redactions report) (scanned_fields report)
                                   in if ScanReport_is_blocked report
                                      then (m1\<lparr>blocked_total := blocked_total m1 + 1\<rparr>,
                                            Refusal_into_response (R_Blocked (sr_blocked report)))
                                      else (m1, GW_Json status doc'))))))"

definition gw_handle ::
  "ext_env \<Rightarrow> gateway_state \<Rightarrow> (up_request \<Rightarrow> string + up_response) \<Rightarrow> metrics \<Rightarrow>
     (string \<times> string) list \<Rightarrow> string \<Rightarrow> string \<Rightarrow> metrics \<times> up_request list \<times> gw_response" where
  "gw_handle env gs upstream m0 headers path body =
     (let m = m0\<lparr>requests_total := requests_total m0 + 1\<rparr>
      in case from_str (codec env) body of
           Inl er \<Rightarrow>
             (let (m', r) = refuse m (R_Undetermined (''request body is not JSON: '' @ er)) in (m', [], r))
         | Inr doc \<Rightarrow>
             (let streaming = (case Option.bind (json_get ''stream'' doc) as_bool of
                                 None \<Rightarrow> False | Some b \<Rightarrow> b)
              in case scan_request (gw_engine gs) doc of
                   Inl er \<Rightarrow>
                     (let (m', r) = refuse m (R_Undetermined (''request scan failed: '' @ error_message er))
                      in (m', [], r))
                 | Inr (doc', report) \<Rightarrow>
                     (let m1 = Metrics_record m (sr_redactions report) (scanned_fields report)
                      in if ScanReport_is_blocked report
                         then (m1\<lparr>blocked_total := blocked_total m1 + 1\<rparr>, [],
                               Refusal_into_response (R_Blocked (sr_blocked report)))
                         else let m2 = (if scanned_fields report = 0
                                        then m1\<lparr>uninspected_total := uninspected_total m1 + 1\<rparr> else m1);
                                  req = \<lparr>up_url = provider_base_url gs @ path,
                                         up_headers = forwarded_headers headers, up_body = doc'\<rparr>
                              in case upstream req of
                                   Inl er \<Rightarrow>
                                     (m2, [req], Refusal_into_response
                                        (R_Undetermined (''upstream unavailable: '' @ er)))
                                 | Inr up \<Rightarrow>
                                     (let (m3, r) = handle_response env gs m2 streaming up
                                      in (m3, [req], r)))))"

section \<open>Configuration\<close>

record gw_args =
  ga_listen_addr :: string
  ga_provider_base_url :: string
  ga_profile :: string
  ga_hash_salt :: string
  ga_provider_ca_file :: "string option"
  ga_provider_timeout_secs :: nat
  ga_max_body_bytes :: nat

record gw_config =
  gc_listen_addr :: string
  gc_provider_base_url :: string
  gc_profile :: profile
  gc_hash_salt :: string
  gc_provider_ca_pem :: "string option"
  gc_provider_timeout_secs :: nat
  gc_max_body_bytes :: nat

datatype gw_config_error =
    GE_Unknown_profile string
  | GE_Base_url string
  | GE_Salt_empty
  | GE_Ca_file string string

text \<open>The CA file is read through the parameter \<open>read_file\<close>.\<close>

definition Config_from_args ::
  "(entity_type \<Rightarrow> string) \<Rightarrow> (string \<Rightarrow> string + string) \<Rightarrow> gw_args \<Rightarrow> gw_config_error + gw_config" where
  "Config_from_args nm read_file args =
     (case by_name nm (ga_profile args) of
        None \<Rightarrow> Inl (GE_Unknown_profile (ga_profile args))
      | Some p \<Rightarrow>
          (let url = ga_provider_base_url args
           in if \<not> starts_with ''http://'' url \<and> \<not> starts_with ''https://'' url then Inl (GE_Base_url url)
              else if str_trim (ga_hash_salt args) = [] then Inl GE_Salt_empty
              else res_bind
                (case ga_provider_ca_file args of
                   None \<Rightarrow> Inr None
                 | Some path \<Rightarrow>
                     (case read_file path of Inl er \<Rightarrow> Inl (GE_Ca_file path er) | Inr pem \<Rightarrow> Inr (Some pem)))
                (\<lambda>pem. Inr
                   \<lparr>gc_listen_addr = ga_listen_addr args,
                    gc_provider_base_url = trim_end_matches (\<lambda>c. c = CHR ''/'') url,
                    gc_profile = p, gc_hash_salt = ga_hash_salt args, gc_provider_ca_pem = pem,
                    gc_provider_timeout_secs = ga_provider_timeout_secs args,
                    gc_max_body_bytes = ga_max_body_bytes args\<rparr>)))"

end
