(* ===== verification/Redact_Samples.thy ===== *)
theory Redact_Samples
  imports Redact_Gateway
begin

text \<open>
  Concrete instances of the parameters, on which the witnesses of the properties evaluate the model:
  a detector that reports every \<open>#\<close> as a credential and every \<open>@\<close> as personal data, an anonymizer
  that overwrites a detected span with stars, and a codec that writes a document as one letter for
  its shape followed by its text.
\<close>

section \<open>A detector\<close>

fun sample_name :: "entity_type \<Rightarrow> string" where
  "sample_name (Custom s) = ''Custom '' @ s"
| "sample_name (Other s) = s"
| "sample_name CreditCard = ''CreditCard''"
| "sample_name Iban = ''Iban''"
| "sample_name BankAccount = ''BankAccount''"
| "sample_name Ssn = ''Ssn''"
| "sample_name Itin = ''Itin''"
| "sample_name TaxId = ''TaxId''"
| "sample_name Url = ''Url''"
| "sample_name Domain = ''Domain''"
| "sample_name Hostname = ''Hostname''"
| "sample_name Uuid = ''Uuid''"

fun sample_detections :: "nat \<Rightarrow> string \<Rightarrow> detection list" where
  "sample_detections n [] = []"
| "sample_detections n (c # cs) =
     (if c = CHR ''#'' then [\<lparr>d_start = n, d_end = Suc n, entity_type = secret_entity\<rparr>]
      else if c = CHR ''@'' then [\<lparr>d_start = n, d_end = Suc n, entity_type = Other ''Email''\<rparr>]
      else []) @ sample_detections (Suc n) cs"

definition sample_analyzer :: "string \<Rightarrow> string \<Rightarrow> string + detection list" where
  "sample_analyzer txt lang = Inr (sample_detections 0 txt)"

definition sample_anonymize ::
  "string \<Rightarrow> detection list \<Rightarrow> anonymize_config \<Rightarrow> string + anonymized" where
  "sample_anonymize txt ds cfg =
     Inr \<lparr>anon_text = fold (\<lambda>d t. take (d_start d) t @ replicate (d_end d - d_start d) (CHR ''*'') @
                                 drop (d_end d) t) ds txt,
          items = length ds\<rparr>"

definition sample_engine :: "profile \<Rightarrow> engine" where
  "sample_engine p =
     \<lparr>analyzer = sample_analyzer, engine_profile = p, salt = ''s'', language = ''en'',
      lib_as_str = sample_name, lib_anonymize = sample_anonymize\<rparr>"

definition strict_engine :: engine where
  "strict_engine = sample_engine (coding_assistant sample_name)"

definition lax_engine :: engine where
  "lax_engine = sample_engine observe_only"

section \<open>A codec\<close>

definition content_chunk :: "string \<Rightarrow> json" where
  "content_chunk t =
     JObject [(''choices'', JArray [JObject [(''index'', JNumber (PosInt 0)),
       (''delta'', JObject [(''content'', JString t)])]])]"

definition legacy_chunk :: "string \<Rightarrow> json" where
  "legacy_chunk t =
     JObject [(''choices'', JArray [JObject [(''index'', JNumber (PosInt 0)), (''text'', JString t)]])]"

definition tool_call :: "string \<Rightarrow> json" where
  "tool_call t = JObject [(''function'', JObject [(''arguments'', JString t)])]"

definition two_calls_chunk :: "string \<Rightarrow> string \<Rightarrow> json" where
  "two_calls_chunk a b =
     JObject [(''choices'', JArray [JObject [(''index'', JNumber (PosInt 0)),
       (''delta'', JObject [(''tool_calls'', JArray [tool_call a, tool_call b])])]])]"

definition chat_request :: "bool \<Rightarrow> string \<Rightarrow> json" where
  "chat_request stream t =
     JObject [(''messages'', JArray [JObject [(''role'', JString ''user''), (''content'', JString t)]]),
              (''stream'', JBool stream)]"

definition chat_response :: "string \<Rightarrow> json" where
  "chat_response t =
     JObject [(''choices'', JArray [JObject [(''message'', JObject [(''content'', JString t)])]])]"

fun sample_from_str :: "string \<Rightarrow> string + json" where
  "sample_from_str [] = Inl ''empty''"
| "sample_from_str (c # t) =
     (if c = CHR ''c'' then Inr (content_chunk t)
      else if c = CHR ''l'' then Inr (legacy_chunk t)
      else if c = CHR ''r'' then Inr (chat_request False t)
      else if c = CHR ''s'' then Inr (chat_request True t)
      else if c = CHR ''p'' then Inr (chat_response t)
      else Inl ''unknown'')"

text \<open>The printer inverts the parser on these shapes.\<close>

definition sample_text :: "json \<Rightarrow> string" where
  "sample_text v =
     (case Option.bind (json_get ''messages'' v) as_array of
        Some ms \<Rightarrow>
          (if json_get ''stream'' v = Some (JBool True) then ''s'' else ''r'') @
            concat (map (\<lambda>m. case Option.bind (json_get ''content'' m) as_str_val of
                               Some t \<Rightarrow> t | None \<Rightarrow> []) ms)
      | None \<Rightarrow>
          (case Option.bind (json_get ''choices'' v) as_array of
             Some (c # cs) \<Rightarrow>
               (case (Option.bind (json_get ''delta'' c) (json_get ''content''),
                      json_get ''text'' c,
                      Option.bind (json_get ''message'' c) (json_get ''content'')) of
                  (Some (JString t), _, _) \<Rightarrow> ''c'' @ t
                | (_, Some (JString t), _) \<Rightarrow> ''l'' @ t
                | (_, _, Some (JString t)) \<Rightarrow> ''p'' @ t
                | _ \<Rightarrow> ''?'')
           | _ \<Rightarrow> ''?''))"

definition sample_to_str :: "json \<Rightarrow> string option" where
  "sample_to_str v = Some (sample_text v)"

definition sample_codec :: json_codec where
  "sample_codec = \<lparr>from_str = sample_from_str, to_str = sample_to_str\<rparr>"

lemma sample_prints: "\<forall>v. to_str sample_codec v \<noteq> None"
  by (simp add: sample_codec_def sample_to_str_def)

definition sample_gzip :: gzip_lib where
  "sample_gzip = \<lparr>gz_read = (\<lambda>n z. Inr (take n (drop 2 z))), gz_write = (\<lambda>t. Some ([CHR 0x1F, CHR 0x8B] @ t))\<rparr>"

definition sample_env :: ext_env where
  "sample_env = \<lparr>codec = sample_codec, gzip = sample_gzip, map_order = id\<rparr>"

lemma visits_id [simp]: "visits_each_key_once id"
  by (simp add: visits_each_key_once_def)

definition nl :: string where
  "nl = [newline]"

definition data_line :: "string \<Rightarrow> string" where
  "data_line t = ''data: '' @ t @ nl"

end
