(* ===== verification/Redact_Props.thy ===== *)
theory Redact_Props
  imports Redact_Samples
begin

text \<open>
  The properties of the redaction crate (\<open>crates/governance-redact\<close>): construction and decisions of
  the engine, the hold-back buffer, request and response bodies, whole SSE streams and incremental
  SSE streams. The last section holds the behaviours that differ from what the sources say.
\<close>

section \<open>The engine\<close>

text \<open>An engine is built exactly when every credential pattern compiles; otherwise the error
  reports how many of the eleven patterns were built, which is fewer than eleven.\<close>

theorem engine_built_iff_patterns_compile:
  "case Engine_new lib p slt of
     Inr e \<Rightarrow> list_all (\<lambda>pat. build_recognizer lib pat \<noteq> None) PATTERNS \<and>
              engine_profile e = p \<and> salt e = slt
   | Inl er \<Rightarrow> \<not> list_all (\<lambda>pat. build_recognizer lib pat \<noteq> None) PATTERNS \<and>
               (\<exists>built. built < 11 \<and> er = RecognizerBuild 11 built)"
proof -
  have eq: "length (secret_recognizers lib) = pattern_count \<longleftrightarrow>
      list_all (\<lambda>pat. build_recognizer lib pat \<noteq> None) PATTERNS"
    by (simp only: secret_recognizers_def pattern_count_def length_map_filter_eq list_all_iff)
  have "length (secret_recognizers lib) \<le> 11"
    using length_map_filter_le [of "build_recognizer lib" PATTERNS]
    by (simp only: secret_recognizers_def pattern_count_def [symmetric] pattern_count_eq)
  with eq show ?thesis
    unfolding Engine_new_def Let_def
    by (cases "length (secret_recognizers lib) = pattern_count") simp_all
qed

text \<open>Locating and deciding agree on every text. Where locating fails, scanning fails with the same
  error; where a located span has the action block, the text is blocked, with the sorted set of the
  blocking entities; where nothing is located, it is clean; otherwise the verdict is what the
  anonymizer makes of the entities the spans were located for, and the scan fails exactly when the
  anonymizer does.\<close>

theorem scan_agrees_with_detect:
  "case Engine_detect e t of
     Inl er \<Rightarrow> Engine_scan e t = Inl er
   | Inr ss \<Rightarrow>
       if has_block ss then Engine_scan e t = Inr (Blocked (blocking_entities ss))
       else if ss = [] then Engine_scan e t = Inr Clean
       else \<exists>ents. mset ss = mset (map (span_of e) ents) \<and> list_all (\<lambda>d. action_of e d \<noteq> Allow) ents \<and>
         Engine_scan e t =
           (case lib_anonymize e t ents (operator_table e ents) of
              Inl m \<Rightarrow> Inl (Anonymize m) | Inr r \<Rightarrow> Inr (Redacted (anon_text r) (items r)))"
proof (cases "Engine_detect e t")
  case (Inl er)
  then show ?thesis by (simp add: eng.scan_error)
next
  case (Inr ss)
  show ?thesis
  proof (cases "has_block ss \<or> ss = []")
    case True
    with Inr show ?thesis by (auto simp: eng.scan_block eng.scan_clean has_block_def)
  next
    case False
    then have t: "t \<noteq> []" using Inr by (auto simp: Engine_detect_def)
    from detect_Inr [OF Inr t] obtain ents where a: "Engine_analyze e t = Inr ents"
      and ss: "ss = sort_key s_start (map (span_of e) (filter (\<lambda>d. action_of e d \<noteq> Allow) ents))" by blast
    let ?ents = "filter (\<lambda>d. action_of e d \<noteq> Allow) ents"
    have "filter (\<lambda>d. action_of e d = Block) ents = []"
      using False unfolding ss has_block_detect by simp
    moreover have "?ents \<noteq> []" using False ss by auto
    ultimately have "Engine_scan e t =
        (case lib_anonymize e t ?ents (operator_table e ?ents) of
           Inl m \<Rightarrow> Inl (Anonymize m) | Inr r \<Rightarrow> Inr (Redacted (anon_text r) (items r)))"
      by (simp add: Engine_scan_analyzed [OF t a] Let_def res_map_err_def res_bind_def split: sum.split)
    moreover have "mset ss = mset (map (span_of e) ?ents) \<and> list_all (\<lambda>d. action_of e d \<noteq> Allow) ?ents"
      by (simp add: ss list_all_iff)
    ultimately show ?thesis using Inr False by (simp only: sum.case if_False de_Morgan_disj) blast
  qed
qed

text \<open>C33: on the two enforcing profiles a text in which the detector finds a credential or a private
  key is blocked, and the reported entities name it, whatever else the text holds.\<close>

theorem credentials_never_pass:
  assumes "names_credentials_apart (lib_as_str e)"
    and "engine_profile e = coding_assistant (lib_as_str e) \<or> engine_profile e = secrets_only (lib_as_str e)"
    and "t \<noteq> []" and "analyzer e t (language e) = Inr ds" and "d \<in> set ds"
    and "entity_type d = secret_entity \<or> entity_type d = private_key_entity"
  shows "\<exists>es. Engine_scan e t = Inr (Blocked es) \<and> lib_as_str e (entity_type d) \<in> set es"
proof -
  have "action_of e d = Block"
    unfolding action_of_def using credentials_blocked [OF assms(1,2,6)] .
  with assms(5) have d: "d \<in> set (filter (\<lambda>d. action_of e d = Block) ds)" by simp
  then have "filter (\<lambda>d. action_of e d = Block) ds \<noteq> []" by (metis empty_iff empty_set)
  moreover have "ds \<noteq> []" using assms(5) by auto
  moreover have "Engine_analyze e t = Inr ds" using assms(4) by (simp add: Engine_analyze_def res_map_err_def)
  ultimately have "Engine_scan e t = Inr (Blocked (sort_dedup
      (map (\<lambda>d. lib_as_str e (entity_type d)) (filter (\<lambda>d. action_of e d = Block) ds))))"
    using assms(3) by (simp add: Engine_scan_def Let_def)
  with d show ?thesis by auto
qed

theorem credentials_never_pass_witness:
  "\<exists>es. Engine_scan strict_engine ''a#b'' = Inr (Blocked es) \<and> ''Custom Secret'' \<in> set es"
proof -
  have "analyzer strict_engine ''a#b'' (language strict_engine) =
      Inr [\<lparr>d_start = 1, d_end = 2, entity_type = secret_entity\<rparr>]"
    by code_simp
  moreover have "names_credentials_apart (lib_as_str strict_engine)" by code_simp
  ultimately show ?thesis
    using credentials_never_pass [of strict_engine "''a#b''"
        "[\<lparr>d_start = 1, d_end = 2, entity_type = secret_entity\<rparr>]"
        "\<lparr>d_start = 1, d_end = 2, entity_type = secret_entity\<rparr>"]
    by (simp add: strict_engine_def sample_engine_def secret_entity_def)
qed

text \<open>The observe-only profile never rewrites and never blocks: a scan is clean or the detector
  failed.\<close>

theorem observe_only_changes_nothing:
  assumes "engine_profile e = observe_only"
  shows "Engine_scan e t = Inr Clean \<or> (\<exists>m. Engine_scan e t = Inl (Analyze m))"
proof -
  have allow: "action_of e d = Allow" for d using assms by (simp add: action_of_def)
  show ?thesis
    by (cases "analyzer e t (language e)")
      (auto simp: Engine_scan_def Engine_analyze_def res_map_err_def allow Let_def)
qed

theorem observe_only_changes_nothing_witness:
  "engine_profile lax_engine = observe_only \<and> Engine_detect strict_engine ''a#b@c'' \<noteq> Inr [] \<and>
   (Engine_scan lax_engine ''a#b@c'' = Inr Clean \<or>
    (\<exists>m. Engine_scan lax_engine ''a#b@c'' = Inl (Analyze m)))"
proof (intro conjI)
  show p: "engine_profile lax_engine = observe_only" by (simp add: lax_engine_def sample_engine_def)
  show "Engine_detect strict_engine ''a#b@c'' \<noteq> Inr []" by code_simp
  show "Engine_scan lax_engine ''a#b@c'' = Inr Clean \<or>
    (\<exists>m. Engine_scan lax_engine ''a#b@c'' = Inl (Analyze m))"
    by (rule observe_only_changes_nothing [OF p])
qed

text \<open>The operator table handed to the anonymizer has, for every detection that is to be
  transformed, the operator of the action its own entity type resolves to; the table's default is
  never what a detection gets.\<close>

theorem operator_table_complete:
  assumes "d \<in> set ds" and "action_of e d \<noteq> Allow" and "action_of e d \<noteq> Block"
  shows "per_entity (operator_table e ds) (lib_as_str e (entity_type d)) =
      Action_operator (action_of e d) (salt e)"
proof -
  obtain op where op: "Action_operator (action_of e d) (salt e) = Some op"
    using Action_operator_Some [OF assms(2,3)] by blast
  have "table_ok e (fold (add_operator e) ds Map.empty)"
    by (rule table_ok_fold) (simp add: table_ok_def)
  with fold_add_operator_covers [OF assms(1) op, of Map.empty] op show ?thesis
    by (auto simp: operator_table_def table_ok_def action_of_def)
qed

theorem operator_table_complete_witness:
  "per_entity (operator_table strict_engine (sample_detections 0 ''a@b'')) ''Email'' = Some Op_Redact"
proof -
  let ?d = "\<lparr>d_start = 1, d_end = 2, entity_type = Other ''Email''\<rparr>"
  have "?d \<in> set (sample_detections 0 ''a@b'')" by code_simp
  moreover have "action_of strict_engine ?d = Replace" by code_simp
  ultimately show ?thesis
    using operator_table_complete [of ?d "sample_detections 0 ''a@b''" strict_engine]
    by (simp add: Action_operator_def strict_engine_def sample_engine_def)
qed

section \<open>The hold-back buffer\<close>

text \<open>The cut of the hold-back buffer is safe (a code point boundary, inside no span), keeps the
  window back, and is the furthest such cut.\<close>

theorem safe_prefix_is_furthest_safe_cut:
  assumes "spans_ok pending spans"
  shows "safe_cut_at pending spans (safe_prefix pending spans window limit) \<and>
    safe_prefix pending spans window limit \<le> min (length pending - window) limit \<and>
    (\<forall>b. b \<le> min (length pending - window) limit \<and> safe_cut_at pending spans b \<longrightarrow>
       b \<le> safe_prefix pending spans window limit)"
  using safe_prefix_spec [OF assms] safe_prefix_le by blast

theorem safe_prefix_is_furthest_safe_cut_witness:
  "safe_prefix ''abcdef'' [\<lparr>s_start = 2, s_end = 5, entity = ''E'', s_action = Replace\<rparr>] 2 6 = 2 \<and>
   safe_cut_at ''abcdef'' [\<lparr>s_start = 2, s_end = 5, entity = ''E'', s_action = Replace\<rparr>] 2"
proof -
  let ?ss = "[\<lparr>s_start = 2, s_end = 5, entity = ''E'', s_action = Replace\<rparr>]"
  have "spans_ok ''abcdef'' ?ss" by code_simp
  moreover have "safe_prefix ''abcdef'' ?ss 2 6 = 2" by code_simp
  ultimately show ?thesis using safe_prefix_is_furthest_safe_cut [of "''abcdef''" ?ss 2 6] by simp
qed

text \<open>What a hold-back buffer releases over a whole stream, however the stream is cut into chunks,
  is the text of the stream cut into segments, each scanned on its own, found not to be blocked, and
  replaced by its redaction; every cut was made with a window of text behind it or at the end of the
  stream, and inside no entity detected there. No byte is lost, repeated or released unscanned.\<close>

theorem holdback_releases_scanned_segments:
  assumes "hb_drive e (HoldBack_with_window w) chunks = Inr ems"
    and "list_all (\<lambda>em. \<not> is_emit_blocked em) ems"
  shows "\<exists>segs. concat segs = concat chunks \<and>
    concat (map emit_text ems) = concat (map (rewritten e) segs) \<and>
    list_all (\<lambda>seg. seg \<noteq> [] \<and> scanned_ok e seg) segs \<and> cuts_safe e w True segs []"
  using hb_drive_segmented [OF assms(1)] assms(2)
  by (auto simp: segmented_def list_all_iff HoldBack_with_window_def)

theorem holdback_releases_scanned_segments_witness:
  "\<exists>segs. concat segs = ''ab@cd'' \<and> ''ab*cd'' = concat (map (rewritten strict_engine) segs) \<and>
    list_all (\<lambda>seg. seg \<noteq> [] \<and> scanned_ok strict_engine seg) segs \<and> cuts_safe strict_engine 2 True segs []"
proof -
  have d: "hb_drive strict_engine (HoldBack_with_window 2) [''ab@'', ''cd''] =
      Inr [Emit_Release ''a'', Emit_Release ''b*'', Emit_Release ''cd'']" by code_simp
  show ?thesis
    using holdback_releases_scanned_segments [OF d]
    by (simp add: is_emit_blocked_def emit_text_def)
qed

section \<open>Request and response bodies\<close>

lemma blocks_nonempty: "(\<exists>es. Engine_scan e t = Inr (Blocked es) \<and> es \<noteq> []) \<longleftrightarrow> blocks e t"
  using Engine_scan_Blocked_nonempty [of e t] by (auto simp: blocks_def)

lemma report_blocked_sorted: "sorted (sr_blocked (merge_all ScanReport_default vs)) \<and>
    distinct (sr_blocked (merge_all ScanReport_default vs))"
  by (rule merge_all_blocked_sorted) (simp_all add: ScanReport_default_def)

text \<open>A scanned request body is the body with each of its text slots (message contents, their text
  parts, tool-call arguments, prompt and input) replaced by its redaction and nothing else changed;
  the report counts the slots, and is blocked exactly when the engine blocks one of them, with the
  entities sorted and without duplicates.\<close>

theorem scan_request_rewrites_slots:
  assumes "scan_request e body = Inr (body', r)"
  shows "body' = map_request (rewritten e) body \<and>
    request_slots body' = map (rewritten e) (request_slots body) \<and>
    scanned_fields r = length (request_slots body) \<and>
    (ScanReport_is_blocked r \<longleftrightarrow> list_ex (blocks e) (request_slots body)) \<and>
    sorted (sr_blocked r) \<and> distinct (sr_blocked r)"
proof -
  from assms have w: "walk_request e body ScanReport_default = Inr (body', r)"
    by (simp add: scan_request_walk)
  then obtain vs where vs: "scan_all (Engine_scan e) (request_slots body) = Inr vs"
    "body' = map_request (rewrite_by (Engine_scan e)) body" "r = merge_all ScanReport_default vs"
    by (auto simp: req.walk_Inr)
  moreover have "scanned_fields r = length (request_slots body)"
    using vs scan_all_length [OF vs(1)] by (simp add: merge_all_fields ScanReport_default_def)
  moreover have "ScanReport_is_blocked r \<longleftrightarrow> list_ex (blocks e) (request_slots body)"
    using req.walk_blocked_iff [OF w] blocks_nonempty [of e]
    by (simp add: ScanReport_default_def list_ex_iff)
  ultimately show ?thesis
    using req.walk_rewrites [OF w] report_blocked_sorted by (simp add: rewrite_by_Engine)
qed

theorem scan_request_rewrites_slots_witness:
  "\<exists>body' r. scan_request strict_engine (chat_request False ''hi@'') = Inr (body', r) \<and>
     request_slots body' = [''hi*''] \<and> scanned_fields r = 1 \<and> \<not> ScanReport_is_blocked r"
proof -
  have s: "scan_request strict_engine (chat_request False ''hi@'') =
      Inr (chat_request False ''hi*'', \<lparr>sr_blocked = [], sr_redactions = 1, scanned_fields = 1\<rparr>)"
    by code_simp
  have "request_slots (chat_request False ''hi@'') = [''hi@'']" "rewritten strict_engine ''hi@'' = ''hi*''"
    by code_simp+
  then show ?thesis using scan_request_rewrites_slots [OF s] s by (auto simp: ScanReport_is_blocked_def)
qed

text \<open>The same for a response body: message contents, tool-call arguments and the legacy text of
  every choice are replaced by their redaction, and the report is blocked exactly when one of them
  is.\<close>

theorem scan_response_rewrites_slots:
  assumes "scan_response e body = Inr (body', r)"
  shows "body' = map_response (rewritten e) body \<and>
    response_slots body' = map (rewritten e) (response_slots body) \<and>
    scanned_fields r = length (response_slots body) \<and>
    (ScanReport_is_blocked r \<longleftrightarrow> list_ex (blocks e) (response_slots body)) \<and>
    sorted (sr_blocked r) \<and> distinct (sr_blocked r)"
proof -
  from assms have w: "walk_response e body ScanReport_default = Inr (body', r)"
    by (simp add: scan_response_walk)
  then obtain vs where vs: "scan_all (Engine_scan e) (response_slots body) = Inr vs"
    "body' = map_response (rewrite_by (Engine_scan e)) body" "r = merge_all ScanReport_default vs"
    by (auto simp: resp.walk_Inr)
  moreover have "scanned_fields r = length (response_slots body)"
    using vs scan_all_length [OF vs(1)] by (simp add: merge_all_fields ScanReport_default_def)
  moreover have "ScanReport_is_blocked r \<longleftrightarrow> list_ex (blocks e) (response_slots body)"
    using resp.walk_blocked_iff [OF w] blocks_nonempty [of e]
    by (simp add: ScanReport_default_def list_ex_iff)
  ultimately show ?thesis
    using resp.walk_rewrites [OF w] report_blocked_sorted by (simp add: rewrite_by_Engine)
qed

theorem scan_response_rewrites_slots_witness:
  "\<exists>body' r. scan_response strict_engine (chat_response ''k#'') = Inr (body', r) \<and>
     scanned_fields r = 1 \<and> ScanReport_is_blocked r"
proof -
  have s: "scan_response strict_engine (chat_response ''k#'') =
      Inr (chat_response ''k#'', \<lparr>sr_blocked = [''Custom Secret''], sr_redactions = 0, scanned_fields = 1\<rparr>)"
    by code_simp
  have "response_slots (chat_response ''k#'') = [''k#'']" by code_simp
  then show ?thesis using scan_response_rewrites_slots [OF s] s by (auto simp: ScanReport_is_blocked_def)
qed

text \<open>A request in which every text slot is clean leaves the proxy as it came, and so does a
  response.\<close>

theorem clean_bodies_are_untouched:
  assumes "list_all (\<lambda>t. Engine_scan e t = Inr Clean) (request_slots req_body)"
    and "list_all (\<lambda>t. Engine_scan e t = Inr Clean) (response_slots resp_body)"
  shows "scan_request e req_body =
      Inr (req_body, \<lparr>sr_blocked = [], sr_redactions = 0, scanned_fields = length (request_slots req_body)\<rparr>) \<and>
    scan_response e resp_body =
      Inr (resp_body, \<lparr>sr_blocked = [], sr_redactions = 0, scanned_fields = length (response_slots resp_body)\<rparr>)"
  using req.walk_clean [of req_body e ScanReport_default] resp.walk_clean [of resp_body e ScanReport_default] assms
  by (simp add: scan_request_walk scan_response_walk ScanReport_default_def list_all_iff)

theorem clean_bodies_are_untouched_witness:
  "scan_request strict_engine (chat_request False ''hi'') =
      Inr (chat_request False ''hi'', \<lparr>sr_blocked = [], sr_redactions = 0, scanned_fields = 1\<rparr>)"
proof -
  have "request_slots (chat_request False ''hi'') = [''hi'']"
    "response_slots (chat_response ''hi'') = [''hi'']" "Engine_scan strict_engine ''hi'' = Inr Clean"
    by code_simp+
  then show ?thesis
    using clean_bodies_are_untouched [of strict_engine "chat_request False ''hi''" "chat_response ''hi''"]
    by simp
qed

section \<open>A complete stream\<close>

text \<open>A completed stream is blocked exactly when the engine blocks one of its unparsable data lines
  or the coalesced text of one of its fields, so that no credential escapes by being split over
  frames; a blocked stream has no body.\<close>

theorem scan_sse_blocks_exactly:
  assumes "visits_each_key_once hord" and "scan_sse hord cd e body = Inr out"
  shows "(ScanReport_is_blocked (so_report out) \<longleftrightarrow>
      list_ex (blocks e) (opaque_of cd (split_inclusive body)) \<or>
      (\<exists>k. blocks e (text_of k (stream_contents (data_of cd (split_inclusive body)))))) \<and>
    (ScanReport_is_blocked (so_report out) \<longrightarrow> so_body out = [])"
  using scan_sse_outcome(1,2) [OF assms] by (simp add: sse_blocks_def list_ex_iff)

theorem scan_sse_blocks_exactly_witness:
  "\<exists>out. scan_sse id sample_codec strict_engine (data_line ''ca#'' @ data_line ''cb'') = Inr out \<and>
     ScanReport_is_blocked (so_report out) \<and> so_body out = []"
proof -
  have s: "scan_sse id sample_codec strict_engine (data_line ''ca#'' @ data_line ''cb'') =
      Inr \<lparr>so_body = [], so_report = \<lparr>sr_blocked = [''Custom Secret''], sr_redactions = 0, scanned_fields = 1\<rparr>\<rparr>"
    by code_simp
  show ?thesis using scan_sse_blocks_exactly [OF visits_id s] s by (auto simp: ScanReport_is_blocked_def)
qed

text \<open>When a completed stream is not blocked and no chunk repeats a choice or a tool-call index, the
  output is the lines of the input in order, where every other line is kept (unparsable data lines
  in their redaction) and the text that the data lines carry for each field is, taken together, the
  redaction of that field's text.\<close>

theorem scan_sse_redacts_each_field:
  assumes "visits_each_key_once hord" and "scan_sse hord cd e body = Inr out"
    and "\<not> ScanReport_is_blocked (so_report out)"
    and "list_all chunk_ok (data_of cd (split_inclusive body))"
  shows "\<exists>chunks. so_body out =
        concat (map (render_line cd chunks) (line_plan cd e 0 (split_inclusive body))) \<and>
      length chunks = length (data_of cd (split_inclusive body)) \<and>
      (\<forall>k. text_of k (stream_contents chunks) =
             rewritten e (text_of k (stream_contents (data_of cd (split_inclusive body)))))"
proof -
  let ?data = "data_of cd (split_inclusive body)"
  from assms(3) scan_sse_outcome(1) [OF assms(1,2)] have "\<not> sse_blocks cd e body" by simp
  from scan_sse_outcome(3) [OF assms(1,2) this] obtain red where red: "distinct (hm_keys red)"
    "\<forall>k. map_of red k = replacement e (text_of k (stream_contents ?data))"
    "so_body out = concat (map (render_line cd (rewrite_chunks hord red ?data [])) (line_plan cd e 0 (split_inclusive body)))"
    by blast
  have "text_of k (stream_contents (rewrite_chunks hord red ?data [])) =
      rewritten e (text_of k (stream_contents ?data))" for k
    using rewrite_chunks_text [OF assms(1) red(1) assms(4), of k "[]"] red(2) [rule_format, of k]
      text_of_absent [of k "stream_contents ?data"]
    by (auto simp: rewritten_replacement done_keys_def split: option.splits)
  with red(3) rewrite_chunks_length show ?thesis by blast
qed

theorem scan_sse_redacts_each_field_witness:
  "\<exists>out chunks. scan_sse id sample_codec strict_engine (data_line ''ca@'' @ data_line ''cb'') = Inr out \<and>
     length chunks = 2 \<and> text_of (0, Content) (stream_contents chunks) = ''a*b''"
proof -
  have s: "scan_sse id sample_codec strict_engine (data_line ''ca@'' @ data_line ''cb'') =
      Inr \<lparr>so_body = data_line ''ca*b'' @ data_line ''c'',
           so_report = \<lparr>sr_blocked = [], sr_redactions = 1, scanned_fields = 1\<rparr>\<rparr>"
    by code_simp
  have "list_all chunk_ok (data_of sample_codec (split_inclusive (data_line ''ca@'' @ data_line ''cb'')))"
    "length (data_of sample_codec (split_inclusive (data_line ''ca@'' @ data_line ''cb''))) = 2"
    "rewritten strict_engine (text_of (0, Content) (stream_contents
       (data_of sample_codec (split_inclusive (data_line ''ca@'' @ data_line ''cb''))))) = ''a*b''"
    by code_simp+
  then show ?thesis
    using scan_sse_redacts_each_field [OF visits_id s] s by (fastforce simp: ScanReport_is_blocked_def)
qed

section \<open>An incremental stream\<close>

text \<open>A field of an incremental stream is cut at the furthest frame end that is outside the window,
  on a code point boundary and inside no detected span, or not at all.\<close>

theorem frame_cut_is_furthest_safe_frame_end:
  assumes "spans_ok pending spans" and "sorted (map fst bs)"
  shows "(frame_cut pending spans window bs (length pending) = 0 \<or>
     (frame_cut pending spans window bs (length pending) \<in> fst ` set bs \<and>
      safe_cut_at pending spans (frame_cut pending spans window bs (length pending)) \<and>
      frame_cut pending spans window bs (length pending) \<le> length pending - window)) \<and>
    (\<forall>x. x \<in> fst ` set bs \<and> safe_cut_at pending spans x \<and> x \<le> length pending - window \<longrightarrow>
       x \<le> frame_cut pending spans window bs (length pending))"
proof -
  let ?c = "frame_cut pending spans window bs (length pending)"
  have "?c = 0 \<or> (?c \<in> fst ` set bs \<and> safe_cut_at pending spans ?c)"
    using frame_cut_fixed [of pending spans window bs "length pending"]
      safe_prefix_spec(1) [OF assms(1), of window ?c] by auto
  moreover have "?c \<le> length pending - window" by (rule frame_cut_window)
  moreover have "x \<le> ?c" if "x \<in> fst ` set bs" "safe_cut_at pending spans x" "x \<le> length pending - window" for x
    using frame_cut_greatest [OF assms that, of "length pending"] that(3) by simp
  ultimately show ?thesis by blast
qed

theorem frame_cut_is_furthest_safe_frame_end_witness:
  "5 \<le> frame_cut ''ab@defg'' [\<lparr>s_start = 1, s_end = 4, entity = ''E'', s_action = Replace\<rparr>] 1
     [(1, 0), (3, 1), (5, 2), (7, 3)] (length ''ab@defg'')"
proof -
  let ?ss = "[\<lparr>s_start = 1, s_end = 4, entity = ''E'', s_action = Replace\<rparr>]"
  let ?bs = "[(1, 0), (3, 1), (5, 2), (7, 3)] :: (nat \<times> nat) list"
  have ok: "spans_ok ''ab@defg'' ?ss" "sorted (map fst ?bs)" "safe_cut_at ''ab@defg'' ?ss 5" by code_simp+
  have "5 \<in> fst ` set ?bs \<and> safe_cut_at ''ab@defg'' ?ss 5 \<and> 5 \<le> length ''ab@defg'' - 1"
    using ok(3) by simp
  with frame_cut_is_furthest_safe_frame_end [OF ok(1,2), of 1] show ?thesis by blast
qed

lemma drive_emits_redacted:
  assumes "visits_each_key_once hord"
    and "sse_drive hord cd e (SseHoldBack_with_window w) chunks = Inr ems"
    and "list_all (\<lambda>em. \<not> is_sse_blocked em) ems"
    and "list_all chunk_ok (data_of cd (split_inclusive (concat chunks)))"
  shows "\<exists>E. concat (map sse_emit_text ems) = render_frames cd E \<and>
    (\<exists>L M. split_inclusive (concat chunks) = L @ M \<and> list_all2 (line_frame cd e) L E) \<and>
    (\<forall>k. \<exists>d p out. text_of k (stream_contents (data_of cd (split_inclusive (concat chunks)))) = d @ p \<and>
       segmented e w True d p (emitted_text E k @ out))"
proof -
  let ?s = "SseHoldBack_with_window w" and ?L = "split_inclusive (concat chunks)"
  have s: "line_buf ?s = []" "\<not> sse_blocked ?s" by (simp_all add: SseHoldBack_with_window_def)
  obtain E s' where E: "concat (map sse_emit_text ems) = render_frames cd E" "run_inv w True cd e ?L E s'"
    using sse_drive_inv [OF assms(1,2) _ run_inv_new open_inv_new s(2)] assms(3,4)
    by (auto simp: s(1) list_all_iff [symmetric] line_ok_data)
  from E(2) obtain L M where LM: "?L = L @ M" "list_all2 (line_frame cd e) L E"
    by (auto simp: run_inv_def list_all2_append2)
  have "\<exists>d p out. text_of k (stream_contents (data_of cd ?L)) = d @ p \<and> segmented e w True d p (emitted_text E k @ out)" for k
  proof -
    have "text_inv w True e (read_text cd ?L) {} E s' k" using E(2) unfolding run_inv_def sse_inv_def by blast
    then show ?thesis unfolding text_inv_def read_text_def by blast
  qed
  with E(1) LM show ?thesis by blast
qed

text \<open>C2: take a stream that the incremental redactor reads to its end without an error and without a
  block, and in whose documents no choice index and no tool-call index of a choice is repeated
  (\<open>chunk_ok\<close>: the code does not check this of the provider, and without it raw text leaves, as
  \<open>repeated_tool_index_keeps_raw_text\<close> shows). However the stream was cut into chunks, what was emitted
  is a sequence of frames that corresponds in order to the first lines of the stream, and the text the
  frames carry for a field is a prefix of the redaction of a segmentation of a prefix of the text the
  stream carries for it. Every segment was scanned and not blocked, and ends at a safe cut: inside no
  entity that was detected in it and in the text behind it, of which there was a window or all that was
  left of the stream (\<open>cut_safe\<close>, for detections with well-formed spans).\<close>

theorem sse_emits_only_redacted_text:
  assumes "visits_each_key_once hord"
    and "sse_drive hord cd e (SseHoldBack_with_window w) chunks = Inr ems"
    and "list_all (\<lambda>em. \<not> is_sse_blocked em) ems"
    and "list_all chunk_ok (data_of cd (split_inclusive (concat chunks)))"
  shows "\<exists>E. concat (map sse_emit_text ems) = render_frames cd E \<and>
    (\<exists>L M. split_inclusive (concat chunks) = L @ M \<and> list_all2 (line_frame cd e) L E) \<and>
    (\<forall>k. \<exists>d p out. text_of k (stream_contents (data_of cd (split_inclusive (concat chunks)))) = d @ p \<and>
       segmented e w True d p (emitted_text E k @ out))"
  using assms by (rule drive_emits_redacted)

theorem sse_emits_only_redacted_text_witness:
  "\<exists>E. render_frames sample_codec E = data_line ''ca*b'' \<and>
     (\<exists>d p out. ''a@b'' = d @ p \<and> segmented strict_engine 2 True d p (emitted_text E (0, Content) @ out))"
proof -
  have d: "sse_drive id sample_codec strict_engine (SseHoldBack_with_window 2) [data_line ''ca@b''] =
      Inr [SE_Nothing, SE_Release (data_line ''ca*b'')]" by code_simp
  have ok: "list_all chunk_ok (data_of sample_codec (split_inclusive (concat [data_line ''ca@b''])))"
    and t: "text_of (0, Content) (stream_contents (data_of sample_codec
      (split_inclusive (concat [data_line ''ca@b''])))) = ''a@b''" by code_simp+
  from sse_emits_only_redacted_text [OF visits_id d _ ok] obtain E where
    "data_line ''ca*b'' = render_frames sample_codec E"
    "\<forall>k. \<exists>d p out. text_of k (stream_contents (data_of sample_codec
      (split_inclusive (concat [data_line ''ca@b''])))) = d @ p \<and> segmented strict_engine 2 True d p (emitted_text E k @ out)"
    by (auto simp: is_sse_blocked_def sse_emit_text_def)
  with t show ?thesis by metis
qed

text \<open>C3: take a positive window, a detector whose spans lie within the text, and a stream that is read
  to its end without an error and without a block, whose documents repeat no choice or tool-call index
  (\<open>chunk_ok\<close>) and in which every field that occurs carries some text. By its end it is emitted
  completely: one frame per line, in order, the lines without a document unchanged, and for every
  field the frames carry the redaction of a segmentation of all of the field's text, whose segments
  end at safe cuts.\<close>

theorem sse_stream_is_complete:
  assumes "visits_each_key_once hord"
    and "sse_drive hord cd e (SseHoldBack_with_window w) chunks = Inr ems"
    and "list_all (\<lambda>em. \<not> is_sse_blocked em) ems"
    and "list_all chunk_ok (data_of cd (split_inclusive (concat chunks)))"
    and "0 < w" and "spans_within e" and "all_text cd (split_inclusive (concat chunks))"
  shows "\<exists>E. concat (map sse_emit_text ems) = render_frames cd E \<and>
    list_all2 (line_frame cd e) (split_inclusive (concat chunks)) E \<and>
    (\<forall>k. segmented e w True
           (text_of k (stream_contents (data_of cd (split_inclusive (concat chunks))))) [] (emitted_text E k))"
proof -
  let ?s = "SseHoldBack_with_window w" and ?L = "split_inclusive (concat chunks)"
  have s: "line_buf ?s = []" "\<not> sse_blocked ?s" "sse_window ?s = w"
    by (simp_all add: SseHoldBack_with_window_def)
  obtain E s' where E: "concat (map sse_emit_text ems) = render_frames cd E" "run_inv w True cd e ?L E s'"
    "order s' = []"
    using sse_drive_inv [OF assms(1,2) _ run_inv_new open_inv_new s(2)] assms(3-7)
    by (auto simp: s(1,3) list_all_iff [symmetric] line_ok_data)
  with run_inv_done [OF E(2,3)] show ?thesis unfolding read_text_def by blast
qed

lemma sample_spans_within: "spans_within (sample_engine p)"
proof -
  have "d \<in> set (sample_detections n t) \<Longrightarrow> d_end d \<le> n + length t" for d n t
    by (induction n t rule: sample_detections.induct) (auto split: if_splits)
  from this [of _ 0] show ?thesis
    by (auto simp: spans_within_def Engine_detect_def Engine_analyze_def sample_engine_def
        sample_analyzer_def res_map_err_def span_of_def split: if_splits)
qed

theorem sse_stream_is_complete_witness:
  "\<exists>E. render_frames sample_codec E = data_line ''ca*b'' @ data_line ''[DONE]'' \<and> length E = 2 \<and>
     segmented strict_engine 2 True ''a@b'' [] (emitted_text E (0, Content))"
proof -
  let ?c = "[data_line ''ca@b'', data_line ''[DONE]'']"
  have d: "sse_drive id sample_codec strict_engine (SseHoldBack_with_window 2) ?c =
      Inr [SE_Nothing, SE_Nothing, SE_Release (data_line ''ca*b'' @ data_line ''[DONE]'')]" by code_simp
  have ok: "list_all chunk_ok (data_of sample_codec (split_inclusive (concat ?c)))"
    and t: "text_of (0, Content) (stream_contents (data_of sample_codec (split_inclusive (concat ?c)))) = ''a@b''"
    and n: "length (split_inclusive (concat ?c)) = 2"
    and a: "all_text sample_codec (split_inclusive (concat ?c))" by code_simp+
  have "spans_within strict_engine" unfolding strict_engine_def by (rule sample_spans_within)
  from sse_stream_is_complete [OF visits_id d _ ok _ this a] obtain E where
    "data_line ''ca*b'' @ data_line ''[DONE]'' = render_frames sample_codec E"
    "list_all2 (line_frame sample_codec strict_engine) (split_inclusive (concat ?c)) E"
    "\<forall>k. segmented strict_engine 2 True (text_of k (stream_contents (data_of sample_codec
       (split_inclusive (concat ?c))))) [] (emitted_text E k)"
    by (auto simp: is_sse_blocked_def sse_emit_text_def)
  with t n show ?thesis by (metis list_all2_lengthD)
qed

text \<open>C4: once a push or a flush reports a block, the redactor holds nothing any more, and every later
  push and flush returns nothing and changes nothing: no text leaves after a block.\<close>

theorem sse_block_latches:
  assumes "SseHoldBack_push cd e s t = (s', Inr (SE_Blocked es)) \<or>
    SseHoldBack_flush hord cd e s = (s', Inr (SE_Blocked es))"
  shows "sse_blocked s' \<and> order s' = [] \<and> frames s' = [] \<and> awaiting s' = [] \<and> choices s' = [] \<and>
    line_buf s' = [] \<and>
    SseHoldBack_push cd' e' s' t' = (s', Inr SE_Nothing) \<and>
    SseHoldBack_flush hord' cd' e' s' = (s', Inr SE_Nothing)"
proof -
  from assms push_blocked flush_blocked obtain s0 where "s' = SseHoldBack_block s0" by blast
  then show ?thesis
    by (simp add: SseHoldBack_block_def SseHoldBack_push_def SseHoldBack_flush_def)
qed

theorem sse_block_latches_witness:
  "SseHoldBack_push sample_codec strict_engine
     (fst (SseHoldBack_push sample_codec strict_engine (SseHoldBack_with_window 9) (data_line ''ck#'')))
     (data_line ''cx'') =
   (fst (SseHoldBack_push sample_codec strict_engine (SseHoldBack_with_window 9) (data_line ''ck#'')),
    Inr SE_Nothing)"
proof -
  have "snd (SseHoldBack_push sample_codec strict_engine (SseHoldBack_with_window 9) (data_line ''ck#'')) =
      Inr (SE_Blocked [''Custom Secret''])" by code_simp
  then have "SseHoldBack_push sample_codec strict_engine (SseHoldBack_with_window 9) (data_line ''ck#'') =
      (fst (SseHoldBack_push sample_codec strict_engine (SseHoldBack_with_window 9) (data_line ''ck#'')),
       Inr (SE_Blocked [''Custom Secret'']))" by (metis prod.collapse)
  with sse_block_latches show ?thesis by blast
qed

section \<open>Where the streaming code does less than it says\<close>

lemma drain_not_ready:
  "order s = fid # fids \<Longrightarrow> \<not> frame_ready s fid \<Longrightarrow> drain_ready cd s = (s, [])"
  by (simp add: drain_ready.simps [of cd s])

text \<open>The first frame of a stream waits for a field without text, and nothing but passed-through lines
  follows.\<close>

definition stalled :: "content_key \<Rightarrow> sse_holdback \<Rightarrow> bool" where
  "stalled k s \<longleftrightarrow> (\<exists>xs. order s = 0 # xs) \<and> awaiting s = [(0, 1)] \<and> \<not> sse_blocked s \<and>
     choices s = [(k, \<lparr>cr_pending = [], boundaries = [(0, 0)], cr_redactions = 0\<rparr>)]"

lemma stalled_extends: "stalled k s \<Longrightarrow> extends s s' \<Longrightarrow> stalled k s'"
  by (auto simp: stalled_def extends_def)

lemma stalled_drain: "stalled k s \<Longrightarrow> drain_ready cd s = (s, [])"
  by (auto simp: stalled_def frame_ready_def intro: drain_not_ready)

lemma stalled_flush_keys: "stalled k s \<Longrightarrow> \<exists>s'. flush_keys e [k] s = (s', Inr None) \<and> stalled k s'"
  by (auto simp: stalled_def flush_key.simps [of e k s] ChoiceRedactor_flush_def
      ChoiceRedactor_advance_def put_choice_def)

lemma visits_single: "visits_each_key_once hord \<Longrightarrow> hord [k] = [k]"
  by (auto simp: visits_each_key_once_def dest: spec [of _ "[k]"])

text \<open>Take a stream that arrives at once, whose first frame carries one field with the empty string
  and whose other lines carry no redactable field (passed-through lines, or documents such as the
  closing delta of a completion without content). Neither the push nor the flush at the end of the
  stream emits anything, without an error or a block: all its lines are lost. (Text for the same field
  later in the stream would resolve the frame.)\<close>

theorem empty_delta_loses_the_stream:
  assumes "visits_each_key_once hord"
    and "break_line first = Some (first, [])" and "classify_line cd first = CL_Data chunk"
    and "delta_contents chunk = [(k, [])]"
    and "list_all (carries_nothing cd) (split_inclusive rest)"
  shows "sse_drive hord cd e (SseHoldBack_with_window w) [first @ rest] = Inr [SE_Nothing, SE_Nothing]"
proof -
  let ?s0 = "SseHoldBack_with_window w\<lparr>line_buf := first @ rest\<rparr>"
  have b: "break_line (line_buf ?s0) = Some (first, rest)"
    using break_line_append [OF assms(2), of rest] by simp
  obtain s1 where i: "ingest_line cd e first (?s0\<lparr>line_buf := rest\<rparr>) = (s1, Inr None)"
    and s1: "stalled k s1" "line_buf s1 = rest"
    using assms(3,4)
    by (auto simp: ingest_line_def queue_frame_def SseHoldBack_with_window_def ChoiceRedactor_push_def
        ChoiceRedactor_advance_def ChoiceRedactor_default_def get_choice_def put_choice_def Let_def stalled_def)
  obtain s2 where p: "push_lines cd e s1 = (s2, Inr None)" "extends s1 s2"
    "list_all (carries_nothing cd) (split_inclusive (line_buf s2))"
    "newline \<notin> set (line_buf s2)"
    using push_lines_passthrough [of cd s1 e] assms(5) s1(2) by auto
  have s2: "stalled k s2" by (rule stalled_extends [OF s1(1) p(2)])
  have push: "SseHoldBack_push cd e (SseHoldBack_with_window w) (first @ rest) = (s2, Inr SE_Nothing)"
  proof -
    have "line_buf (SseHoldBack_with_window w) = []" "\<not> sse_blocked (SseHoldBack_with_window w)"
      by (simp_all add: SseHoldBack_with_window_def)
    moreover have "push_lines cd e ?s0 = (s2, Inr None)"
      by (subst push_lines.simps) (simp only: b i p(1) option.case prod.case sum.case)
    ultimately show ?thesis
      using stalled_drain [OF s2, of cd] by (simp add: SseHoldBack_push_def SseHoldBack_emit_def)
  qed
  obtain s3 where t: "flush_tail cd e s2 = (s3, Inr None)" "extends s2 s3"
    using flush_tail_passthrough [OF p(3,4)] by blast
  have s3: "stalled k s3" by (rule stalled_extends [OF s2 t(2)])
  then have "hord (hm_keys (choices s3)) = [k]"
    using visits_single [OF assms(1)] by (simp add: stalled_def hm_keys_def)
  moreover obtain s4 where f: "flush_keys e [k] s3 = (s4, Inr None)" "stalled k s4"
    using stalled_flush_keys [OF s3] by blast
  ultimately have "snd (SseHoldBack_flush hord cd e s2) = Inr SE_Nothing"
    using s2 t(1) stalled_drain [OF f(2)] f(1)
    by (simp add: SseHoldBack_flush_def SseHoldBack_emit_def stalled_def)
  with push show ?thesis by simp
qed

theorem empty_delta_loses_the_stream_witness:
  "sse_drive id sample_codec strict_engine (SseHoldBack_with_window 4096)
     [data_line ''c'' @ data_line ''l'' @ data_line ''[DONE]''] = Inr [SE_Nothing, SE_Nothing]"
proof -
  have "break_line (data_line ''c'') = Some (data_line ''c'', [])"
    "classify_line sample_codec (data_line ''c'') = CL_Data (content_chunk [])"
    "delta_contents (content_chunk []) = [((0, Content), [])]"
    "list_all (carries_nothing sample_codec) (split_inclusive (data_line ''l'' @ data_line ''[DONE]''))"
    by code_simp+
  from empty_delta_loses_the_stream [OF visits_id this] show ?thesis .
qed

text \<open>When two tool calls of a choice have the same index (it defaults to 0 when absent), both
  contribute under one key, but a rewrite reaches only the first: the text of the second stays as it
  was, in the incremental and in the buffered path.\<close>

theorem repeated_tool_index_keeps_raw_text:
  "delta_contents (two_calls_chunk a b) = [((0, ToolCallArguments 0), a), ((0, ToolCallArguments 0), b)] \<and>
   set_delta_content (two_calls_chunk a b) (0, ToolCallArguments 0) r = (two_calls_chunk r b, True) \<and>
   rewrite_chunks id [((0, ToolCallArguments 0), r)] [two_calls_chunk a b] [] = [two_calls_chunk r b]"
  by (simp add: two_calls_chunk_def tool_call_def delta_contents_def choice_contents_def call_contents_def
      call_args_def json_index_def set_delta_content_def field_slot_def set_field_slot_def put_args_def
      json_put_def rewrite_deltas_def rewrite_choice_def rewrite_key_def hm_keys_def map_filter_simps Let_def)

text \<open>The legacy text of a streamed completion is not a redactable field of the streaming paths,
  although the response scan covers it: a frame that carries it is passed on as it is.\<close>

theorem legacy_stream_text_is_not_scanned:
  "response_slots (legacy_chunk t) = [t] \<and> delta_contents (legacy_chunk t) = [] \<and>
   sse_drive id sample_codec strict_engine (SseHoldBack_with_window 4096) [data_line ''lkey#''] =
     Inr [SE_Release (data_line ''lkey#''), SE_Nothing] \<and>
   Engine_scan strict_engine ''key#'' = Inr (Blocked [''Custom Secret''])"
proof (intro conjI)
  show "response_slots (legacy_chunk t) = [t]" "delta_contents (legacy_chunk t) = []"
    by (simp_all add: legacy_chunk_def response_slots_def slots_key_def slots_each_def field_slots_def
        slot_text_def delta_contents_def choice_contents_def)
qed code_simp+

text \<open>A line without its newline is buffered whole, however long it is: the buffer of a redactor is
  not bounded by its window.\<close>

theorem unterminated_line_is_buffered_whole:
  assumes "\<not> sse_blocked s" and "newline \<notin> set (line_buf s @ t)"
  shows "line_buf (fst (SseHoldBack_push cd e s t)) = line_buf s @ t"
proof -
  let ?s = "s\<lparr>line_buf := line_buf s @ t\<rparr>"
  have p: "push_lines cd e ?s = (?s, Inr None)"
    using assms(2) break_line_None [of "line_buf s @ t"] by (simp add: push_lines.simps [of cd e ?s])
  have "line_buf (fst (drain_ready cd s')) = line_buf s'" for s'
    by (induction cd s' rule: drain_ready.induct)
      (subst drain_ready.simps, auto simp: case_prod_beta Let_def split: list.split)
  with p assms(1) show ?thesis by (simp add: SseHoldBack_push_def case_prod_beta)
qed

theorem unterminated_line_is_buffered_whole_witness:
  "line_buf (fst (SseHoldBack_push sample_codec strict_engine (SseHoldBack_with_window 2) ''data: cabcdefgh'')) =
     ''data: cabcdefgh''"
  using unterminated_line_is_buffered_whole [of "SseHoldBack_with_window 2" "''data: cabcdefgh''"]
  by (simp add: SseHoldBack_with_window_def)

end
