(* ===== verification/Proxy_Props.thy ===== *)
theory Proxy_Props
  imports Redact_Props
begin

text \<open>
  The properties of the two proxies that put the redaction crate in the path of the traffic: the
  Envoy external processor (\<open>app/redact-extproc\<close>) and the stand-alone gateway
  (\<open>app/redact-gateway\<close>).
\<close>

section \<open>Decoding\<close>

text \<open>Decoding a chunked body does not depend on where the transport cuts it: a valid body decodes
  to itself, whatever the chunks; what was decoded so far followed by the carry is what was read, and
  the carry is an incomplete code point of at most three bytes; decoding fails only on bytes that no
  continuation makes valid.\<close>

theorem decoding_ignores_chunk_boundaries:
  "(valid_utf8 (concat chunks) \<longrightarrow> decode_all [] chunks = ([], Inr (concat chunks))) \<and>
   (case decode_all [] chunks of
      (c, Inr t) \<Rightarrow> concat chunks = t @ c \<and> valid_utf8 t \<and> length c \<le> 3
    | (c, Inl u) \<Rightarrow> (\<forall>x. \<not> valid_utf8 (concat chunks @ x)))"
proof -
  obtain c r where d: "decode_all [] chunks = (c, r)" by fastforce
  show ?thesis
  proof (cases r)
    case (Inl u)
    with d decode_all_Inl [of "[]" chunks c u] show ?thesis
      using decode_all_Inl [of "[]" chunks c u "[]"] by simp
  next
    case (Inr t)
    note s = decode_all_Inr [OF d [unfolded Inr]]
    have "valid_utf8 (concat chunks) \<Longrightarrow> c = []"
    proof (rule ccontr)
      assume v: "valid_utf8 (concat chunks)" and "c \<noteq> []"
      from s \<open>c \<noteq> []\<close> have n: "next_code_point c = Incomplete" by blast
      from s have "concat chunks = t @ c" "valid_utf8 t" by simp_all
      with v valid_utf8_appendD [of t c] have "valid_utf8 c" by simp
      with n show False by (simp add: valid_utf8_def from_utf8.simps [of c])
    qed
    with s next_code_point_incomplete_length [of c] d Inr show ?thesis by auto
  qed
qed

theorem decoding_ignores_chunk_boundaries_witness:
  "decode_all [] [[CHR ''a'', CHR 0xC3], [CHR 0xA9]] = ([], Inr [CHR ''a'', CHR 0xC3, CHR 0xA9])"
proof -
  have "valid_utf8 (concat [[CHR ''a'', CHR 0xC3], [CHR 0xA9]])" by code_simp
  with decoding_ignores_chunk_boundaries [of "[[CHR ''a'', CHR 0xC3], [CHR 0xA9]]"] show ?thesis by simp
qed

text \<open>The two proxies decode alike; the gateway's extra flag is set exactly when a code point is
  carried over.\<close>

theorem decoders_agree:
  "gw_decode_chunk_with_carry c chunk =
     (case decode_chunk_with_carry c chunk of
        (c', Inl u) \<Rightarrow> (c', Inl u)
      | (c', Inr t) \<Rightarrow> (c', Inr (t, c' \<noteq> [])))"
proof (cases "from_utf8 (c @ chunk)")
  case (Inr s)
  then show ?thesis by (simp add: gw_decode_chunk_with_carry_def decode_chunk_with_carry_def)
next
  case (Inl er)
  note spec = from_utf8_Inl [OF Inl]
  show ?thesis
  proof (cases "error_len er")
    case None
    with spec have "next_code_point (drop (valid_up_to er) (c @ chunk)) = Incomplete" by simp
    then have "drop (valid_up_to er) (c @ chunk) \<noteq> []" by (metis next_code_point_End code_point.distinct(3))
    with Inl None show ?thesis
      by (simp add: gw_decode_chunk_with_carry_def decode_chunk_with_carry_def Let_def
          del: take_append drop_append)
  qed (simp add: Inl gw_decode_chunk_with_carry_def decode_chunk_with_carry_def Let_def)
qed

section \<open>The external processor\<close>

lemma request_not_blocked:
  "scan_request e doc = Inr (doc', r) \<Longrightarrow>
     ScanReport_is_blocked r \<longleftrightarrow> list_ex (blocks e) (request_slots doc)"
  using req.walk_blocked_iff [of e doc ScanReport_default doc' r] blocks_nonempty [of e]
  by (simp add: scan_request_walk ScanReport_default_def list_ex_iff)

lemma request_body_answer:
  assumes "fail_closed (engine_profile e)" and "handle_request_body env e m raw = (m', resp)"
    and "\<forall>v. to_str (codec env) v \<noteq> None" and "\<not> is_immediate resp"
  shows "\<exists>doc doc' r body. from_str (codec env) raw = Inr doc \<and> scan_request e doc = Inr (doc', r) \<and>
    \<not> list_ex (blocks e) (request_slots doc) \<and> to_str (codec env) doc' = Some body \<and>
    resp = PR_RequestBody
      \<lparr>remove_headers = (if length body = length raw then None else Some [''content-length'']),
       body_mutation = Some body\<rparr>"
proof -
  note refused = refuse_fail_closed [OF assms(1)]
  obtain doc where doc: "from_str (codec env) raw = Inr doc"
    using assms(2,4) refused by (cases "from_str (codec env) raw") (auto simp: handle_request_body_def)
  obtain doc' r where scan: "scan_request e doc = Inr (doc', r)"
    using assms(2,4) doc refused by (cases "scan_request e doc") (auto simp: handle_request_body_def)
  obtain body where body: "to_str (codec env) doc' = Some body" using assms(3) by blast
  have nb: "\<not> ScanReport_is_blocked r"
    using assms(2,4) doc scan by (auto simp: handle_request_body_def Let_def)
  have "resp = PR_RequestBody
      \<lparr>remove_headers = (if length body = length raw then None else Some [''content-length'']),
       body_mutation = Some body\<rparr>"
    using assms(2) doc scan body nb
    by (auto simp: handle_request_body_def body_response_with_original_length_def Let_def)
  with nb doc scan body request_not_blocked [OF scan] show ?thesis by blast
qed

text \<open>C34: on a fail-closed profile a request body is answered with an immediate refusal unless it
  parses, the scan succeeds and nothing is blocked; then Envoy is told to send the printed scanned
  document, and to drop the content length exactly when the length changed.\<close>

theorem request_body_fails_closed:
  assumes "fail_closed (engine_profile e)" and "handle_request_body env e m raw = (m', resp)"
    and "\<forall>v. to_str (codec env) v \<noteq> None"
  shows "(is_immediate resp \<longleftrightarrow>
      \<not> (\<exists>doc doc' r. from_str (codec env) raw = Inr doc \<and> scan_request e doc = Inr (doc', r) \<and>
           \<not> list_ex (blocks e) (request_slots doc))) \<and>
    (\<not> is_immediate resp \<longrightarrow>
      (\<exists>doc doc' r body. from_str (codec env) raw = Inr doc \<and> scan_request e doc = Inr (doc', r) \<and>
         to_str (codec env) doc' = Some body \<and>
         resp = PR_RequestBody
           \<lparr>remove_headers = (if length body = length raw then None else Some [''content-length'']),
            body_mutation = Some body\<rparr>))"
proof -
  have "\<not> is_immediate resp"
    if "from_str (codec env) raw = Inr doc" "scan_request e doc = Inr (doc', r)"
      "\<not> list_ex (blocks e) (request_slots doc)" for doc doc' r
    using assms(2) that request_not_blocked [OF that(2)] by (auto simp: handle_request_body_def Let_def)
  with request_body_answer [OF assms] show ?thesis by blast
qed

theorem request_body_fails_closed_witness:
  "\<exists>m. handle_request_body sample_env strict_engine metrics_zero ''rhi@'' =
     (m, PR_RequestBody \<lparr>remove_headers = None, body_mutation = Some ''rhi*''\<rparr>)"
proof -
  obtain m resp where h: "handle_request_body sample_env strict_engine metrics_zero ''rhi@'' = (m, resp)"
    by fastforce
  have doc: "from_str (codec sample_env) ''rhi@'' = Inr (chat_request False ''hi@'')"
    and scan: "scan_request strict_engine (chat_request False ''hi@'') =
      Inr (chat_request False ''hi*'', \<lparr>sr_blocked = [], sr_redactions = 1, scanned_fields = 1\<rparr>)"
    and print: "to_str (codec sample_env) (chat_request False ''hi*'') = Some ''rhi*''"
    by code_simp+
  have fc: "fail_closed (engine_profile strict_engine)" by code_simp
  have nb: "\<not> is_immediate (snd (handle_request_body sample_env strict_engine metrics_zero ''rhi@''))"
    by code_simp
  have prints: "\<forall>v. to_str (codec sample_env) v \<noteq> None" using sample_prints by (simp add: sample_env_def)
  from nb h have "\<not> is_immediate resp" by simp
  then obtain doc' r' d body where "from_str (codec sample_env) ''rhi@'' = Inr d"
    "scan_request strict_engine d = Inr (doc', r')" "to_str (codec sample_env) doc' = Some body"
    "resp = PR_RequestBody
       \<lparr>remove_headers = (if length body = length ''rhi@'' then None else Some [''content-length'']),
        body_mutation = Some body\<rparr>"
    using request_body_fails_closed [OF fc h prints] by blast
  with doc scan print have "resp = PR_RequestBody \<lparr>remove_headers = None, body_mutation = Some ''rhi*''\<rparr>"
    by simp
  with h show ?thesis by blast
qed

text \<open>In buffered mode on a fail-closed profile, nothing of a response reaches the client before its
  end (every earlier chunk is answered with an empty body), and what the last chunk is answered with
  is an immediate refusal or the printed scanned document, recompressed when the response was
  compressed.\<close>

theorem buffered_response_is_scanned_whole:
  assumes "fail_closed (engine_profile e)" and "\<forall>v. to_str (codec env) v \<noteq> None"
    and "handle_buffered_response_chunk env e m buf chunk eos ce = (buf', m', resp)"
    and "\<not> is_immediate resp"
  shows "if eos
    then (\<exists>plain doc doc' r out. decompress_gzip (gzip env) (buf @ chunk) = Inr plain \<and>
            from_str (codec env) plain = Inr doc \<and> scan_response e doc = Inr (doc', r) \<and>
            \<not> list_ex (blocks e) (response_slots doc) \<and> to_str (codec env) doc' = Some out \<and>
            reply_body resp = (case compress_as_gzip (gzip env) out ce of Some z \<Rightarrow> z | None \<Rightarrow> out))
    else resp = body_response Dir_Response [] \<and> buf' = buf @ chunk \<and>
         length buf' \<le> MAX_BUFFERED_RESPONSE_BYTES"
proof -
  note refused = refuse_fail_closed [OF assms(1)]
  have cap: "\<not> length buf + length chunk > MAX_BUFFERED_RESPONSE_BYTES"
    using assms(3,4) refused by (auto simp: handle_buffered_response_chunk_def)
  show ?thesis
  proof (cases eos)
    case False
    with cap assms(3) show ?thesis by (auto simp: handle_buffered_response_chunk_def Let_def)
  next
    case True
    obtain plain where plain: "decompress_gzip (gzip env) (buf @ chunk) = Inr plain"
      and sc: "scan_buffered env e m (length (buf @ chunk)) plain ce = (m', resp)"
      using True cap assms(3,4) refused
      by (cases "decompress_gzip (gzip env) (buf @ chunk)") (auto simp: handle_buffered_response_chunk_def Let_def)
    obtain doc where doc: "from_str (codec env) plain = Inr doc"
      using sc assms(4) refused by (cases "from_str (codec env) plain") (auto simp: scan_buffered_def)
    obtain doc' r where scan: "scan_response e doc = Inr (doc', r)"
      using sc doc assms(4) refused by (cases "scan_response e doc") (auto simp: scan_buffered_def)
    obtain out where out: "to_str (codec env) doc' = Some out" using assms(2) by blast
    from scan have w: "walk_response e doc ScanReport_default = Inr (doc', r)"
      by (simp add: scan_response_walk)
    have nb: "\<not> ScanReport_is_blocked r"
      using sc doc scan assms(4) by (auto simp: scan_buffered_def Let_def)
    then have "\<not> list_ex (blocks e) (response_slots doc)"
      using resp.walk_blocked_iff [OF w] blocks_nonempty [of e]
      by (simp add: ScanReport_default_def list_ex_iff)
    moreover have "reply_body resp = (case compress_as_gzip (gzip env) out ce of Some z \<Rightarrow> z | None \<Rightarrow> out)"
      using sc doc scan nb out
      by (auto simp: scan_buffered_def reply_body_def body_response_with_original_length_def Let_def
          split: option.split)
    ultimately show ?thesis using True plain doc scan out by auto
  qed
qed

theorem buffered_response_is_scanned_whole_witness:
  "reply_body (snd (snd (handle_buffered_response_chunk sample_env strict_engine metrics_zero ''ph'' ''i@'' True None)))
     = ''phi*''"
proof -
  obtain buf' m' resp where h: "handle_buffered_response_chunk sample_env strict_engine metrics_zero ''ph'' ''i@'' True None
      = (buf', m', resp)" by (metis prod_cases3)
  have fc: "fail_closed (engine_profile strict_engine)" by code_simp
  have steps: "decompress_gzip (gzip sample_env) (''ph'' @ ''i@'') = Inr ''phi@''"
    "from_str (codec sample_env) ''phi@'' = Inr (chat_response ''hi@'')"
    "scan_response strict_engine (chat_response ''hi@'') =
       Inr (chat_response ''hi*'', \<lparr>sr_blocked = [], sr_redactions = 1, scanned_fields = 1\<rparr>)"
    "to_str (codec sample_env) (chat_response ''hi*'') = Some ''phi*''" by code_simp+
  have z: "compress_as_gzip (gzip sample_env) ''phi*'' None = None" by code_simp
  have "\<not> is_immediate (snd (scan_buffered sample_env strict_engine metrics_zero (length (''ph'' @ ''i@''))
      ''phi@'' None))" by code_simp
  with steps(1) have nb: "\<not> is_immediate (snd (snd (handle_buffered_response_chunk sample_env strict_engine
      metrics_zero ''ph'' ''i@'' True None)))"
    by (simp add: handle_buffered_response_chunk_def MAX_BUFFERED_RESPONSE_BYTES_def Let_def)
  have prints: "\<forall>v. to_str (codec sample_env) v \<noteq> None" using sample_prints by (simp add: sample_env_def)
  from nb h have ni: "\<not> is_immediate resp" by simp
  obtain plain d d' r out where "decompress_gzip (gzip sample_env) (''ph'' @ ''i@'') = Inr plain"
    "from_str (codec sample_env) plain = Inr d" "scan_response strict_engine d = Inr (d', r)"
    "to_str (codec sample_env) d' = Some out"
    "reply_body resp = (case compress_as_gzip (gzip sample_env) out None of Some z \<Rightarrow> z | None \<Rightarrow> out)"
    using buffered_response_is_scanned_whole [OF fc prints h ni] unfolding if_True by blast
  with steps z have "reply_body resp = ''phi*''" by simp
  with h show ?thesis by simp
qed

subsection \<open>Streamed responses\<close>

text \<open>The text of the emissions of a stream.\<close>

lemma emit_of_text:
  assumes "fail_closed (engine_profile e)" and "emit_response env e m em (\<lambda>out. out) = (m', resp)"
    and "\<not> is_immediate resp"
  obtains x where "em = Inr x" "\<not> is_sse_blocked x" "reply_body resp = sse_emit_text x"
proof (cases em)
  case (Inl er)
  with assms refuse_fail_closed [OF assms(1)] show ?thesis by (simp add: emit_response_def)
next
  case (Inr x)
  with assms(2,3) that show ?thesis
    by (cases x) (auto simp: emit_response_def is_sse_blocked_def sse_emit_text_def)
qed

lemma answer_of_text:
  assumes "fail_closed (engine_profile e)"
    and "answer_emit env e m st (h, r) (\<lambda>out. out) = (st', m', Returned resp)" and "\<not> is_immediate resp"
  obtains x where "r = Returned (Inr x)" "\<not> is_sse_blocked x" "reply_body resp = sse_emit_text x"
    "hold st' = h" "utf8_carry st' = utf8_carry st" "rs_mode st' = rs_mode st" "gzip_buf st' = gzip_buf st"
proof -
  from assms(2) obtain em where r: "r = Returned em" by (cases r) (auto simp: answer_emit_def)
  obtain m1 seen where d: "record_delta m h (last_redactions st) = (m1, seen)" by fastforce
  obtain m2 resp2 where em: "emit_response env e m1 em (\<lambda>out. out) = (m2, resp2)" by fastforce
  from assms(2) r d em have st': "st' = st\<lparr>hold := h, last_redactions := seen\<rparr>" "resp2 = resp"
    by (simp_all add: answer_emit_def)
  from assms(3) st'(2) have "\<not> is_immediate resp2" by simp
  from emit_of_text [OF assms(1) em this] st' r that show ?thesis by (metis response_state.select_convs
    response_state.surjective response_state.update_convs)
qed

lemma refuse_chunk_immediate:
  "fail_closed (engine_profile e) \<Longrightarrow> refuse_chunk env e m st why = (st', m', Returned resp) \<Longrightarrow>
     is_immediate resp"
  using refuse_fail_closed [of e] by (auto simp: refuse_chunk_def split: prod.splits)

lemma sse_chunk_step:
  assumes "fail_closed (engine_profile e)"
    and "handle_sse_chunk env e m st chunk False = (st', m', Returned resp)" and "\<not> is_immediate resp"
  obtains t x where "utf8_carry st @ chunk = t @ utf8_carry st'"
    "SseHoldBack_push (codec env) e (hold st) t = (hold st', Inr x)" "\<not> is_sse_blocked x"
    "reply_body resp = sse_emit_text x" "rs_mode st' = rs_mode st" "gzip_buf st' = gzip_buf st"
proof -
  obtain c r where d: "decode_chunk_with_carry (utf8_carry st) chunk = (c, r)" by fastforce
  obtain t where r: "r = Inr t"
    using assms d refuse_chunk_immediate [OF assms(1)] by (cases r) (auto simp: handle_sse_chunk_def)
  obtain h em where p: "SseHoldBack_push (codec env) e (hold st) t = (h, em)" by fastforce
  from assms(2) d r p have "answer_emit env e m (st\<lparr>utf8_carry := c\<rparr>) (h, Returned em) (\<lambda>out. out) =
      (st', m', Returned resp)" by (simp add: handle_sse_chunk_def Let_def)
  from answer_of_text [OF assms(1) this assms(3)] obtain x where
    "em = Inr x" "\<not> is_sse_blocked x" "reply_body resp = sse_emit_text x" "hold st' = h"
    "utf8_carry st' = c" "rs_mode st' = rs_mode st" "gzip_buf st' = gzip_buf st" by auto
  with p decode_Inr(1) [OF d [unfolded r]] that show ?thesis by simp
qed

lemma sse_chunk_last:
  assumes "fail_closed (engine_profile e)"
    and "handle_sse_chunk env e m st chunk True = (st', m', Returned resp)" and "\<not> is_immediate resp"
  obtains ems where "sse_drive (map_order env) (codec env) e (hold st) [utf8_carry st @ chunk] = Inr ems"
    "list_all (\<lambda>em. \<not> is_sse_blocked em) ems" "reply_body resp = concat (map sse_emit_text ems)"
    "valid_utf8 (utf8_carry st @ chunk)"
proof -
  obtain c r where d: "decode_chunk_with_carry (utf8_carry st) chunk = (c, r)" by fastforce
  obtain t where r: "r = Inr t"
    using assms d refuse_chunk_immediate [OF assms(1)] by (cases r) (auto simp: handle_sse_chunk_def)
  have c: "c = []"
    using assms d r refuse_chunk_immediate [OF assms(1)] by (cases "c = []") (auto simp: handle_sse_chunk_def)
  note dd = decode_Inr [OF d [unfolded r c]]
  obtain h em where p: "push_and_flush env e (hold st) t = (h, em)" by fastforce
  from assms(2) d r c p have "answer_emit env e m (st\<lparr>utf8_carry := []\<rparr>) (h, em) (\<lambda>out. out) =
      (st', m', Returned resp)" by (simp add: handle_sse_chunk_def Let_def)
  from answer_of_text [OF assms(1) this assms(3)] obtain x where
    x: "em = Returned (Inr x)" "\<not> is_sse_blocked x" "reply_body resp = sse_emit_text x" by metis
  obtain h1 r1 where p1: "SseHoldBack_push (codec env) e (hold st) t = (h1, r1)" by fastforce
  obtain em1 where r1: "r1 = Inr em1" "\<not> is_sse_blocked em1"
    using p x p1 by (cases r1; cases "projr r1") (auto simp: push_and_flush_def is_sse_blocked_def)
  obtain h2 r2 where p2: "SseHoldBack_flush (map_order env) (codec env) e h1 = (h2, r2)" by fastforce
  obtain em2 where r2: "r2 = Inr em2" "\<not> is_sse_blocked em2" "sse_emit_text x = sse_emit_text em1 @ sse_emit_text em2"
    using p x p1 r1 p2 by (cases r2; cases em1; cases "projr r2")
      (auto simp: push_and_flush_def is_sse_blocked_def sse_emit_text_def)
  have "sse_drive (map_order env) (codec env) e (hold st) [t] = Inr [em1, em2]"
    using p1 r1 p2 r2 by (cases em1) (auto simp: is_sse_blocked_def)
  with dd r1(2) r2 x(3) that [of "[em1, em2]"] show ?thesis by simp
qed

text \<open>The messages of a streamed response body.\<close>

definition body_messages :: "string list \<Rightarrow> string \<Rightarrow> ext_request option list" where
  "body_messages chunks fin =
     map (\<lambda>c. Some (RQ_ResponseBody c False)) chunks @ [Some (RQ_ResponseBody fin True)]"

lemma sse_exchange:
  assumes "fail_closed (engine_profile e)"
  shows "process env w e m (P_ResponseBody st) (body_messages chunks fin) = (m', outs, False) \<Longrightarrow>
    list_all (\<lambda>r. \<not> is_immediate r) outs \<Longrightarrow> rs_mode st = M_Sse \<Longrightarrow> gzip_buf st = None \<Longrightarrow>
    \<exists>texts ems. concat texts = utf8_carry st @ concat chunks @ fin \<and>
      sse_drive (map_order env) (codec env) e (hold st) texts = Inr ems \<and>
      list_all (\<lambda>em. \<not> is_sse_blocked em) ems \<and>
      concat (map reply_body outs) = concat (map sse_emit_text ems)"
proof (induction chunks arbitrary: st m outs)
  case Nil
  obtain st1 m1 o1 where h: "handle_sse_chunk env e m st fin True = (st1, m1, o1)" by (metis prod_cases3)
  with Nil obtain resp where o1: "o1 = Returned resp" "outs = [resp]" "\<not> is_immediate resp"
    by (cases o1) (auto simp: body_messages_def dispatch_def handle_response_chunk_def split: if_splits)
  from sse_chunk_last [OF assms h [unfolded o1(1)] o1(3)] obtain ems where
    "sse_drive (map_order env) (codec env) e (hold st) [utf8_carry st @ fin] = Inr ems"
    "list_all (\<lambda>em. \<not> is_sse_blocked em) ems" "reply_body resp = concat (map sse_emit_text ems)" .
  then show ?case
    by (intro exI [of _ "[utf8_carry st @ fin]"] exI [of _ ems]) (simp add: o1(2))
next
  case (Cons c cs)
  obtain st1 m1 o1 where h: "handle_sse_chunk env e m st c False = (st1, m1, o1)" by (metis prod_cases3)
  from h Cons.prems obtain resp outs' where o1: "o1 = Returned resp" "outs = resp # outs'" "\<not> is_immediate resp"
    and rest: "process env w e m1 (P_ResponseBody st1) (body_messages cs fin) = (m', outs', False)"
    by (cases o1) (auto simp: body_messages_def dispatch_def handle_response_chunk_def
        split: if_splits prod.splits)
  from sse_chunk_step [OF assms h [unfolded o1(1)] o1(3)] obtain t x where
    s: "utf8_carry st @ c = t @ utf8_carry st1"
    "SseHoldBack_push (codec env) e (hold st) t = (hold st1, Inr x)" "\<not> is_sse_blocked x"
    "reply_body resp = sse_emit_text x" "rs_mode st1 = rs_mode st" "gzip_buf st1 = gzip_buf st" .
  from Cons.IH [OF rest] Cons.prems o1 s obtain texts ems where
    ih: "concat texts = utf8_carry st1 @ concat cs @ fin"
    "sse_drive (map_order env) (codec env) e (hold st1) texts = Inr ems"
    "list_all (\<lambda>em. \<not> is_sse_blocked em) ems"
    "concat (map reply_body outs') = concat (map sse_emit_text ems)" by auto
  have "sse_drive (map_order env) (codec env) e (hold st) (t # texts) = Inr (x # ems)"
    using s(2,3) ih(2) by (cases x) (auto simp: is_sse_blocked_def)
  moreover have "concat (t # texts) = utf8_carry st @ concat (c # cs) @ fin"
    using ih(1) s(1) by (metis append.assoc concat.simps(2))
  ultimately show ?case using ih(3,4) s(3,4) o1(2)
    by (intro exI [of _ "t # texts"] exI [of _ "x # ems"]) simp
qed

subsection \<open>The order of messages\<close>

text \<open>The order in which Envoy sends the messages of an exchange: headers at any time, the request body
  up to its end, then the response. \<open>req_done\<close> says that the request side is complete.\<close>

fun ordered :: "bool \<Rightarrow> ext_request option list \<Rightarrow> bool" where
  "ordered req_done [] = True"
| "ordered req_done (None # msgs) = ordered req_done msgs"
| "ordered req_done (Some req # msgs) =
     (case req of
        RQ_RequestHeaders \<Rightarrow> ordered req_done msgs
      | RQ_ResponseHeaders _ \<Rightarrow> ordered True msgs
      | RQ_RequestBody _ eos \<Rightarrow> \<not> req_done \<and> ordered eos msgs
      | RQ_ResponseBody _ _ \<Rightarrow> req_done \<and> ordered True msgs
      | _ \<Rightarrow> False)"

definition request_done :: "phase \<Rightarrow> bool" where
  "request_done ph = (case ph of P_RequestBody _ \<Rightarrow> False | P_ResponseBody _ \<Rightarrow> True)"

definition immediate_status :: "processing_response \<Rightarrow> status_code option" where
  "immediate_status r = (case r of PR_Immediate i \<Rightarrow> Some (im_status i) | _ \<Rightarrow> None)"

lemma status_simps [simp]:
  "immediate_status (immediate_response env dir s c msg) = Some s"
  "immediate_status (body_response_with_original_length dir b n) = None"
  "immediate_status (body_response dir b) = None" "immediate_status (continue_headers dir) = None"
  by (simp_all add: immediate_status_def immediate_response_def body_response_def Let_def
      body_response_with_original_length_def continue_headers_def split: direction.split)

lemma status_refuse [simp]:
  "immediate_status (snd (refuse_or_block env dir e m why)) \<noteq> Some InternalServerError"
  by (simp add: refuse_or_block_def)

lemma status_request:
  "immediate_status (snd (handle_request_body env e m raw)) \<noteq> Some InternalServerError"
  by (auto simp: handle_request_body_def Let_def split: sum.split prod.split)

lemma status_emit: "immediate_status (snd (emit_response env e m em rel)) \<noteq> Some InternalServerError"
  by (auto simp: emit_response_def split: sum.split sse_emit.split)

lemma status_answer:
  "answer_emit env e m st res rel = (st', m', Returned resp) \<Longrightarrow>
     immediate_status resp \<noteq> Some InternalServerError"
proof -
  assume a: "answer_emit env e m st res rel = (st', m', Returned resp)"
  obtain h r where res: "res = (h, r)" by fastforce
  from a res obtain em where r: "r = Returned em" by (cases r) (auto simp: answer_emit_def)
  obtain m1 seen where d: "record_delta m h (last_redactions st) = (m1, seen)" by fastforce
  from a res r d have "resp = snd (emit_response env e m1 em rel)"
    by (cases "emit_response env e m1 em rel") (simp add: answer_emit_def)
  with status_emit show ?thesis by simp
qed

lemma status_refuse_chunk:
  "refuse_chunk env e m st why = (st', m', Returned resp) \<Longrightarrow> immediate_status resp \<noteq> Some InternalServerError"
  using status_refuse [of env Dir_Response e m why]
  by (cases "refuse_or_block env Dir_Response e m why") (auto simp: refuse_chunk_def)

lemma status_buffered:
  "immediate_status (snd (snd (handle_buffered_response_chunk env e m buf chunk eos ce)))
     \<noteq> Some InternalServerError"
  by (auto simp: handle_buffered_response_chunk_def scan_buffered_def Let_def split: sum.split prod.split)

lemma status_response:
  assumes "handle_response_chunk env e m st chunk eos = (st', m', Returned resp)"
  shows "immediate_status resp \<noteq> Some InternalServerError"
proof (cases "rs_mode st")
  case (M_Buffered buf)
  with assms status_buffered [of env e m buf chunk eos "content_encoding st"] show ?thesis
    by (auto simp: handle_response_chunk_def split: prod.splits)
next
  case M_Sse
  show ?thesis
  proof (cases "gzip_buf st")
    case None
    with assms M_Sse have "handle_sse_chunk env e m st chunk eos = (st', m', Returned resp)"
      by (simp add: handle_response_chunk_def)
    then show ?thesis
      by (auto simp: handle_sse_chunk_def Let_def dest: status_refuse_chunk status_answer
          split: prod.splits sum.splits if_splits)
  next
    case (Some buf)
    with assms M_Sse have "handle_gzip_sse_chunk env e m st chunk eos = (st', m', Returned resp)"
      by (simp add: handle_response_chunk_def)
    with Some show ?thesis
      by (auto simp: handle_gzip_sse_chunk_def Let_def dest: status_refuse_chunk status_answer
          split: sum.splits if_splits)
  qed
qed

text \<open>One message in order keeps the exchange in order and is not answered with an internal error;
  a message out of order is.\<close>

lemma dispatch_ordered:
  assumes "ordered (request_done ph) (Some req # msgs)" and "dispatch env w e m ph req = (ph', m', out)"
  shows "ordered (request_done ph') msgs"
    and "out = Returned (Some r) \<Longrightarrow> immediate_status r \<noteq> Some InternalServerError"
proof -
  have "ordered (request_done ph') msgs \<and>
    (out = Returned (Some r) \<longrightarrow> immediate_status r \<noteq> Some InternalServerError)"
  proof (cases req)
    case (RQ_ResponseHeaders hs)
    with assms show ?thesis by (auto simp: dispatch_def request_done_def Let_def)
  next
    case (RQ_RequestBody b eos)
    with assms obtain buf where ph: "ph = P_RequestBody buf" by (cases ph) (auto simp: request_done_def)
    obtain m2 resp where h: "handle_request_body env e (m\<lparr>requests_total := requests_total m + 1\<rparr>) (buf @ b) = (m2, resp)"
      by fastforce
    from status_request [of env e "m\<lparr>requests_total := requests_total m + 1\<rparr>" "buf @ b"] h
    have "immediate_status resp \<noteq> Some InternalServerError" by simp
    with assms RQ_RequestBody ph h show ?thesis
      by (cases eos) (auto simp: dispatch_def request_done_def Let_def)
  next
    case (RQ_ResponseBody b eos)
    with assms obtain st where ph: "ph = P_ResponseBody st" by (cases ph) (auto simp: request_done_def)
    obtain st' m2 o2 where h: "handle_response_chunk env e m st b eos = (st', m2, o2)" by (metis prod_cases3)
    with assms RQ_ResponseBody ph status_response [of env e m st b eos st' m2] show ?thesis
      by (cases o2) (auto simp: dispatch_def request_done_def)
  qed (use assms in \<open>auto simp: dispatch_def\<close>)
  then show "ordered (request_done ph') msgs"
    and "out = Returned (Some r) \<Longrightarrow> immediate_status r \<noteq> Some InternalServerError" by blast+
qed

lemma dispatch_out_of_order:
  assumes "\<not> ordered (request_done ph) (Some req # msgs)" and "dispatch env w e m ph req = (ph', m', out)"
    and "\<not> ordered (request_done ph') msgs \<Longrightarrow> False"
  shows "out = Returned (Some (state_mismatch env))"
  using assms
  by (cases req; cases ph) (auto simp: dispatch_def request_done_def Let_def split: if_splits prod.splits)

lemma process_ordered:
  "process env w e m ph msgs = (m', outs, p) \<Longrightarrow> ordered (request_done ph) msgs \<Longrightarrow>
     list_all (\<lambda>r. immediate_status r \<noteq> Some InternalServerError) outs"
proof (induction env w e m ph msgs arbitrary: m' outs p rule: process.induct)
  case (3 env w e m ph req msgs)
  obtain ph' m1 out where d: "dispatch env w e m ph req = (ph', m1, out)" by (metis prod_cases3)
  note step = dispatch_ordered [OF "3.prems"(2) d]
  show ?case
  proof (cases out)
    case Panicked
    with "3.prems"(1) d show ?thesis by simp
  next
    case (Returned r)
    show ?thesis
    proof (cases r)
      case None
      with "3.prems"(1) "3.IH"(1) [OF d [symmetric] refl Returned None _ step(1)] d Returned show ?thesis by simp
    next
      case (Some x)
      with "3.prems"(1) "3.IH"(2) [OF d [symmetric] refl Returned Some _ _ step(1)] step(2) [of x] d Returned
      show ?thesis by (auto split: if_splits prod.splits)
    qed
  qed
qed simp_all

lemma process_out_of_order:
  "process env w e m ph msgs = (m', outs, p) \<Longrightarrow> \<not> ordered (request_done ph) msgs \<Longrightarrow>
     p \<or> outs \<noteq> [] \<and> is_immediate (last outs)"
proof (induction env w e m ph msgs arbitrary: m' outs p rule: process.induct)
  case (3 env w e m ph req msgs)
  obtain ph' m1 out where d: "dispatch env w e m ph req = (ph', m1, out)" by (metis prod_cases3)
  show ?case
  proof (cases out)
    case Panicked
    with "3.prems"(1) d show ?thesis by simp
  next
    case (Returned r)
    show ?thesis
    proof (cases r)
      case None
      have "\<not> ordered (request_done ph') msgs"
        using dispatch_out_of_order [OF "3.prems"(2) d] Returned None by auto
      with "3.prems"(1) "3.IH"(1) [OF d [symmetric] refl Returned None] d Returned None show ?thesis by simp
    next
      case (Some x)
      show ?thesis
      proof (cases "is_immediate x")
        case True
        with "3.prems"(1) d Returned Some show ?thesis by auto
      next
        case False
        then have "\<not> ordered (request_done ph') msgs"
          using dispatch_out_of_order [OF "3.prems"(2) d] Returned Some
          by (auto simp: state_mismatch_def)
        with "3.prems"(1) "3.IH"(2) [OF d [symmetric] refl Returned Some False] d Returned Some False
        show ?thesis by (auto split: prod.splits)
      qed
    qed
  qed
qed simp_all

text \<open>An exchange whose messages come in order is never answered with the internal-error reply, and
  an exchange that goes out of order always ends in an immediate response (or in a panic): no body
  message passes without having been handled in its phase.\<close>

theorem exchange_order_is_enforced:
  assumes "process env w e m (P_RequestBody []) msgs = (m', outs, p)"
  shows "list_all (\<lambda>r. \<not> is_immediate r) (butlast outs) \<and>
    (if ordered False msgs then list_all (\<lambda>r. immediate_status r \<noteq> Some InternalServerError) outs
     else p \<or> outs \<noteq> [] \<and> is_immediate (last outs))"
  using process_immediate_last [OF assms] process_ordered [OF assms] process_out_of_order [OF assms]
  by (simp add: request_done_def)

theorem exchange_order_is_enforced_witness:
  "\<exists>m' outs p. process sample_env 2 strict_engine metrics_zero (P_RequestBody [])
       [Some RQ_RequestHeaders, Some (RQ_ResponseBody ''x'' False)] = (m', outs, p) \<and>
     (p \<or> outs \<noteq> [] \<and> is_immediate (last outs))"
proof -
  let ?msgs = "[Some RQ_RequestHeaders, Some (RQ_ResponseBody ''x'' False)]"
  obtain m' outs p where "process sample_env 2 strict_engine metrics_zero (P_RequestBody []) ?msgs = (m', outs, p)"
    by (metis prod_cases3)
  moreover from exchange_order_is_enforced [OF this] have "p \<or> outs \<noteq> [] \<and> is_immediate (last outs)" by simp
  ultimately show ?thesis by blast
qed

text \<open>The panic branch of the streamed handler, which its comment calls unreachable, is reached by a
  final chunk whose last line has no newline: the complete lines are released by the push, and the
  flush finds a credential in the unterminated line.\<close>

theorem unreachable_branch_panics:
  "snd (push_and_flush sample_env strict_engine (SseHoldBack_with_window DEFAULT_WINDOW)
     (data_line ''[DONE]'' @ ''data: x#'')) = Panicked"
  by code_simp

text \<open>On a profile that does not fail closed, a request body that cannot be parsed is answered with a
  header reply, which is not a reply to a body message.\<close>

theorem fail_open_reply_has_wrong_kind:
  assumes "\<not> fail_closed (engine_profile e)" and "from_str (codec env) (buf @ raw) = Inl er"
  shows "\<exists>ph m'. dispatch env w e m (P_RequestBody buf) (RQ_RequestBody raw True) =
    (ph, m', Returned (Some (PR_RequestHeaders \<lparr>remove_headers = None, body_mutation = None\<rparr>)))"
  using assms by (simp add: dispatch_def handle_request_body_def refuse_or_block_def continue_headers_def Let_def)

theorem fail_open_reply_has_wrong_kind_witness:
  "\<exists>ph m'. dispatch sample_env 2 lax_engine metrics_zero (P_RequestBody []) (RQ_RequestBody ''?'' True) =
    (ph, m', Returned (Some (PR_RequestHeaders \<lparr>remove_headers = None, body_mutation = None\<rparr>)))"
proof -
  have "\<not> fail_closed (engine_profile lax_engine)"
    and "from_str (codec sample_env) ([] @ ''?'') = Inl ''unknown''" by code_simp+
  from fail_open_reply_has_wrong_kind [OF this, where w = 2] show ?thesis .
qed

section \<open>The gateway\<close>

text \<open>C35: the provider is called at most once, exactly when the request parses, the scan succeeds and
  nothing is blocked; what it is sent is the scanned document; and a client whose request was not
  sent is told so with a 422 or a 502.\<close>

theorem provider_sees_only_scanned_requests:
  assumes "gw_handle env gs upstream m headers path body = (m', reqs, resp)"
  shows "(\<exists>doc doc' r. from_str (codec env) body = Inr doc \<and> scan_request (gw_engine gs) doc = Inr (doc', r) \<and>
       \<not> list_ex (blocks (gw_engine gs)) (request_slots doc) \<and>
       reqs = [\<lparr>up_url = provider_base_url gs @ path, up_headers = forwarded_headers headers, up_body = doc'\<rparr>]) \<or>
    reqs = [] \<and> (\<exists>st b. resp = GW_Json st b \<and> st \<in> {422, 502}) \<and>
      \<not> (\<exists>doc doc' r. from_str (codec env) body = Inr doc \<and> scan_request (gw_engine gs) doc = Inr (doc', r) \<and>
          \<not> list_ex (blocks (gw_engine gs)) (request_slots doc))"
proof (cases "from_str (codec env) body")
  case (Inl er)
  with assms show ?thesis by (auto simp: gw_handle_def refuse_def Refusal_into_response_def)
next
  case doc: (Inr doc)
  show ?thesis
  proof (cases "scan_request (gw_engine gs) doc")
    case (Inl er)
    with assms doc show ?thesis by (auto simp: gw_handle_def refuse_def Refusal_into_response_def Let_def)
  next
    case (Inr p)
    obtain doc' r where p: "p = (doc', r)" by fastforce
    from Inr p have blk: "ScanReport_is_blocked r \<longleftrightarrow> list_ex (blocks (gw_engine gs)) (request_slots doc)"
      by (simp add: request_not_blocked)
    show ?thesis
    proof (cases "ScanReport_is_blocked r")
      case True
      with assms doc Inr p blk show ?thesis by (auto simp: gw_handle_def Refusal_into_response_def Let_def)
    next
      case False
      with assms doc Inr p have "reqs = [\<lparr>up_url = provider_base_url gs @ path,
          up_headers = forwarded_headers headers, up_body = doc'\<rparr>]"
        by (auto simp: gw_handle_def Let_def split: sum.splits prod.splits)
      with False blk doc Inr p show ?thesis by blast
    qed
  qed
qed

definition sample_gateway :: gateway_state where
  "sample_gateway = \<lparr>gw_engine = strict_engine, provider_base_url = ''u'', max_body_bytes = 50\<rparr>"

text \<open>A provider that answers every request with the same body.\<close>

definition sample_upstream :: "string \<Rightarrow> up_request \<Rightarrow> string + up_response" where
  "sample_upstream body req = Inr \<lparr>up_status = 200, up_content_type = Some ''application/json'', up_reads = [Chunk body]\<rparr>"

theorem provider_sees_only_scanned_requests_witness:
  "fst (snd (gw_handle sample_env sample_gateway (sample_upstream ''pok'') metrics_zero [] ''/v1'' ''rkey#'')) = []"
proof -
  obtain m' reqs resp where h: "gw_handle sample_env sample_gateway (sample_upstream ''pok'') metrics_zero []
      ''/v1'' ''rkey#'' = (m', reqs, resp)" by (metis prod_cases3)
  have "from_str (codec sample_env) ''rkey#'' = Inr (chat_request False ''key#'')"
    "list_ex (blocks (gw_engine sample_gateway)) (request_slots (chat_request False ''key#''))" by code_simp+
  with provider_sees_only_scanned_requests [OF h] have "reqs = []" by auto
  with h show ?thesis by simp
qed

lemma copy_header_spec:
  "distinct (map fst out) \<Longrightarrow>
     distinct (map fst (copy_header hs name out)) \<and>
     map_of (copy_header hs name out) k =
       (if k = name \<and> map_of hs name \<noteq> None then map_of hs name else map_of out k)"
  by (auto simp: copy_header_def update_conv distinct_update split: option.split)

lemma copy_headers_spec:
  "distinct (map fst out) \<Longrightarrow>
     distinct (map fst (fold (copy_header hs) names out)) \<and>
     map_of (fold (copy_header hs) names out) k =
       (if k \<in> set names \<and> map_of hs k \<noteq> None then map_of hs k else map_of out k)"
proof (induction names arbitrary: out)
  case (Cons n names)
  from Cons.IH [of "copy_header hs n out"] copy_header_spec [OF Cons.prems, of hs n k] show ?case by auto
qed simp

text \<open>The headers that reach the provider are the six listed ones, each with the client's value and
  at most once: no cookie, host or framing header of the client is passed on.\<close>

theorem forwarded_headers_are_the_listed_ones:
  "distinct (map fst (forwarded_headers hs)) \<and>
   map_of (forwarded_headers hs) k =
     (if k \<in> {''authorization'', ''accept'', ''user-agent'', ''traceparent'', ''tracestate'', ''x-request-id''}
      then map_of hs k else None)"
proof -
  let ?names = "[''authorization'', ''accept'', ''user-agent''] @ [''traceparent'', ''tracestate'', ''x-request-id'']"
  have "forwarded_headers hs = fold (copy_header hs) ?names []"
    by (simp only: forwarded_headers_def fold_append o_apply)
  moreover have "k \<in> set ?names \<longleftrightarrow>
      k \<in> {''authorization'', ''accept'', ''user-agent'', ''traceparent'', ''tracestate'', ''x-request-id''}"
    by simp
  ultimately show ?thesis
    using copy_headers_spec [of "[]" hs ?names k] by (simp del: fold.simps fold_append set_append set_simps)
qed

lemma read_capped_spec:
  "read_capped cap buf evs = Inr s \<longleftrightarrow>
     (\<exists>cs. evs = map Chunk cs \<and> s = buf @ concat cs \<and> valid_utf8 s \<and> (length s \<le> cap \<or> cs = []))"
proof (induction cap buf evs rule: read_capped.induct)
  case (1 cap buf)
  have "(case from_utf8 buf of Inr s \<Rightarrow> Inr s | Inl er \<Rightarrow> Inl (f er)) = Inr s \<longleftrightarrow> from_utf8 buf = Inr s"
    for f :: "utf8_error \<Rightarrow> string" by (simp split: sum.split)
  then show ?case by (auto simp: from_utf8_Inr_iff)
next
  case (2 cap buf er evs)
  then show ?case by (auto simp: Cons_eq_map_conv)
next
  case (3 cap buf c evs)
  show ?case
  proof (cases "length buf + length c > cap")
    case True
    then show ?thesis by (auto simp: Cons_eq_map_conv)
  next
    case False
    with 3 show ?thesis by (auto simp: Cons_eq_map_conv)
  qed
qed

text \<open>A response body read under a cap is accepted exactly when it was read to its end without a
  transport error, is no longer than the cap and is UTF-8; it is then the concatenation of the
  chunks.\<close>

theorem read_capped_accepts_exactly:
  "read_capped cap [] evs = Inr s \<longleftrightarrow>
     (\<exists>cs. evs = map Chunk cs \<and> s = concat cs \<and> valid_utf8 s \<and> length s \<le> cap)"
  by (auto simp: read_capped_spec)

subsection \<open>The streamed response\<close>

lemma starts_with_trim_end: "starts_with p (trim_end_matches P l) \<Longrightarrow> starts_with p l"
proof -
  have "l = trim_end_matches P l @ rev (takeWhile P (rev l))"
    unfolding trim_end_matches_def by (metis rev_append rev_rev_ident takeWhile_dropWhile_id)
  then show "starts_with p (trim_end_matches P l) \<Longrightarrow> starts_with p l"
    by (metis append.assoc starts_with_iff)
qed

lemma gw_decode_valid: "valid_utf8 c \<Longrightarrow> gw_decode_chunk_with_carry [] c = ([], Inr (c, False))"
  by (simp add: gw_decode_chunk_with_carry_def valid_utf8_def)

lemma stream_chunk_emits:
  assumes "\<not> observe_passthrough st" and "carry st = []" and "valid_utf8 c"
    and "total_bytes st + length c \<le> cap"
    and "SseHoldBack_push (codec env) e (sg_hold st) c = (h, Inr em)" and "\<not> is_sse_blocked em"
  obtains st' sent where "stream_chunk env e cap fc st c = Inr (st', sent)"
    "concat sent = sse_emit_text em" "sg_hold st' = h" "\<not> observe_passthrough st'" "carry st' = []"
    "total_bytes st' = total_bytes st + length c"
  using assms gw_decode_valid [OF assms(3)] that
  by (cases em) (auto simp: stream_chunk_def Let_def is_sse_blocked_def sse_emit_text_def)

lemma scan_sse_streaming_emits:
  "list_all valid_utf8 cs \<Longrightarrow> total_bytes st + length (concat cs) \<le> cap \<Longrightarrow>
     sse_drive (map_order env) (codec env) e (sg_hold st) cs = Inr ems \<Longrightarrow>
     list_all (\<lambda>em. \<not> is_sse_blocked em) ems \<Longrightarrow> \<not> observe_passthrough st \<Longrightarrow> carry st = [] \<Longrightarrow>
     concat (snd (scan_sse_streaming env e cap fc st (map Chunk cs))) = concat (map sse_emit_text ems)"
proof (induction cs arbitrary: st ems)
  case Nil
  obtain h r where f: "SseHoldBack_flush (map_order env) (codec env) e (sg_hold st) = (h, r)" by fastforce
  with Nil obtain em where r: "r = Inr em" "ems = [em]" by (cases r) auto
  with Nil f show ?case
    by (cases em) (auto simp: stream_finish_def is_sse_blocked_def sse_emit_text_def)
next
  case (Cons c cs)
  obtain h r where p: "SseHoldBack_push (codec env) e (sg_hold st) c = (h, r)" by fastforce
  from Cons.prems(3,4) p obtain em ems' where r: "r = Inr em" "ems = em # ems'" "\<not> is_sse_blocked em"
    "sse_drive (map_order env) (codec env) e h cs = Inr ems'"
    by (cases r; cases "projr r"; cases "sse_drive (map_order env) (codec env) e h cs")
      (auto simp: is_sse_blocked_def)
  obtain st' sent where st': "stream_chunk env e cap fc st c = Inr (st', sent)"
    "concat sent = sse_emit_text em" "sg_hold st' = h" "\<not> observe_passthrough st'" "carry st' = []"
    "total_bytes st' = total_bytes st + length c"
    using stream_chunk_emits [of st c cap env e h em fc] Cons.prems p r by auto
  have "concat (snd (scan_sse_streaming env e cap fc st' (map Chunk cs))) = concat (map sse_emit_text ems')"
    using Cons.IH [of st' ems'] Cons.prems r st' by simp
  with st' r(2) show ?case
    by (cases "scan_sse_streaming env e cap fc st' (map Chunk cs)") simp
qed

lemma streams_emitted:
  assumes "list_all valid_utf8 cs" and "length (concat cs) \<le> max_body_bytes gs"
    and "is_success (up_status up)" and "up_reads up = map Chunk cs"
    and "sse_drive (map_order env) (codec env) (gw_engine gs) (SseHoldBack_with_window DEFAULT_WINDOW) cs = Inr ems"
    and "list_all (\<lambda>em. \<not> is_sse_blocked em) ems"
  shows "\<exists>m' sent. handle_response env gs m True up = (m', GW_Stream (up_status up) sent) \<and>
    concat sent = concat (map sse_emit_text ems)"
proof -
  have "concat (snd (scan_sse_streaming env (gw_engine gs) (max_body_bytes gs)
      (fail_closed (engine_profile (gw_engine gs))) (stream_init m) (map Chunk cs))) =
      concat (map sse_emit_text ems)"
    using scan_sse_streaming_emits [of cs "stream_init m"] assms by (simp add: stream_init_def)
  with assms(3,4) show ?thesis by (auto simp: handle_response_def Let_def split: prod.split)
qed

text \<open>When no chunk ends inside a code point and the stream stays under the cap, the gateway sends
  the client exactly what the incremental redactor emits for the chunks.\<close>

theorem gateway_streams_what_redactor_emits:
  assumes "list_all valid_utf8 cs" and "length (concat cs) \<le> max_body_bytes gs"
    and "is_success (up_status up)" and "up_reads up = map Chunk cs"
    and "sse_drive (map_order env) (codec env) (gw_engine gs) (SseHoldBack_with_window DEFAULT_WINDOW) cs = Inr ems"
    and "list_all (\<lambda>em. \<not> is_sse_blocked em) ems"
  shows "\<exists>m' sent. handle_response env gs m True up = (m', GW_Stream (up_status up) sent) \<and>
    concat sent = concat (map sse_emit_text ems)"
  using assms by (rule streams_emitted)

definition sample_stream :: "read_event list \<Rightarrow> up_response" where
  "sample_stream evs = \<lparr>up_status = 200, up_content_type = Some ''text/event-stream'', up_reads = evs\<rparr>"

theorem gateway_streams_what_redactor_emits_witness:
  "\<exists>m' sent. handle_response sample_env sample_gateway metrics_zero True
       (sample_stream [Chunk (data_line ''ca@b''), Chunk (data_line ''[DONE]'')]) = (m', GW_Stream 200 sent) \<and>
     concat sent = data_line ''ca*b'' @ data_line ''[DONE]''"
proof -
  let ?cs = "[data_line ''ca@b'', data_line ''[DONE]'']"
  let ?up = "sample_stream (map Chunk ?cs)"
  have 1: "list_all valid_utf8 ?cs" "length (concat ?cs) \<le> max_body_bytes sample_gateway"
    "is_success (up_status ?up)" "up_reads ?up = map Chunk ?cs" 
    by (code_simp, code_simp, simp_all add: sample_stream_def is_success_def)
  have d: "sse_drive (map_order sample_env) (codec sample_env) (gw_engine sample_gateway)
      (SseHoldBack_with_window DEFAULT_WINDOW) ?cs =
      Inr [SE_Nothing, SE_Nothing, SE_Release (data_line ''ca*b'' @ data_line ''[DONE]'')]" by code_simp
  from gateway_streams_what_redactor_emits [OF 1 d, of metrics_zero] show ?thesis
    by (simp add: is_sse_blocked_def sse_emit_text_def sample_stream_def)
qed

text \<open>A chunk that ends inside a code point loses what the redactor releases for it: the client does
  not receive the frame that the same bytes cut elsewhere deliver.\<close>

theorem split_code_point_loses_release:
  "concat (snd (scan_sse_streaming sample_env strict_engine 50 True (stream_init metrics_zero)
     [Chunk (data_line ''[DONE]'' @ [CHR '':'', CHR 0xC3]), Chunk ([CHR 0xA9] @ nl)])) =
     [CHR '':'', CHR 0xC3, CHR 0xA9] @ nl \<and>
   concat (snd (scan_sse_streaming sample_env strict_engine 50 True (stream_init metrics_zero)
     [Chunk (data_line ''[DONE]'' @ [CHR '':'']), Chunk ([CHR 0xC3, CHR 0xA9] @ nl)])) =
     data_line ''[DONE]'' @ [CHR '':'', CHR 0xC3, CHR 0xA9] @ nl"
  by code_simp

text \<open>C37: when a client asks for a stream, the request passes the scan and the provider answers with
  success, every answer under the cap none of whose lines begins with \<open>data:\<close>, such as a plain JSON
  document, whatever its content type and its chunks (cut between code points), reaches the client byte
  for byte: nothing in it is scanned, whatever the engine and the profile.\<close>

theorem json_answer_to_streaming_request_is_not_scanned:
  assumes "visits_each_key_once (map_order env)"
    and "from_str (codec env) body = Inr doc" and "Option.bind (json_get ''stream'' doc) as_bool = Some True"
    and "scan_request (gw_engine gs) doc = Inr (doc', report)" and "\<not> ScanReport_is_blocked report"
    and "upstream \<lparr>up_url = provider_base_url gs @ path, up_headers = forwarded_headers headers, up_body = doc'\<rparr> = Inr up"
    and "is_success (up_status up)" and "up_reads up = map Chunk cs"
    and "list_all valid_utf8 cs" and "length (concat cs) \<le> max_body_bytes gs"
    and "list_all (\<lambda>l. \<not> starts_with ''data:'' l) (split_inclusive (concat cs))"
  shows "\<exists>m' reqs sent. gw_handle env gs upstream m headers path body = (m', reqs, GW_Stream (up_status up) sent) \<and>
    concat sent = concat cs"
proof -
  let ?s = "SseHoldBack_with_window DEFAULT_WINDOW"
  have "classify_line cd l = CL_Passthrough" if "\<not> starts_with ''data:'' l" for cd l
    using starts_with_trim_end that by (auto simp: classify_line_def strip_prefix_def Let_def)
  with assms(11) have "list_all (\<lambda>l. classify_line (codec env) l = CL_Passthrough)
      (split_inclusive (line_buf ?s @ concat cs))"
    by (simp add: SseHoldBack_with_window_def list_all_iff)
  moreover have "plain_queue [] ?s" "line_buf ?s = []"
    by (simp_all add: plain_queue_def SseHoldBack_with_window_def)
  ultimately obtain ems where ems: "sse_drive (map_order env) (codec env) (gw_engine gs) ?s cs = Inr ems"
    "list_all (\<lambda>em. \<not> is_sse_blocked em) ems" "concat (map sse_emit_text ems) = concat cs"
    using plain_drive [OF assms(1), of ?s "codec env" cs "gw_engine gs"] by auto
  have resp: "\<exists>m' sent. handle_response env gs m True up = (m', GW_Stream (up_status up) sent) \<and>
      concat sent = concat cs" for m
    using streams_emitted [OF assms(9,10,7,8) ems(1,2)] ems(3) by simp
  obtain m2 reqs where "gw_handle env gs upstream m headers path body =
      (fst (handle_response env gs m2 True up), reqs, snd (handle_response env gs m2 True up))"
    using assms(2-6) by (simp add: gw_handle_def Let_def case_prod_beta)
  with resp [of m2] show ?thesis by auto
qed

theorem json_answer_to_streaming_request_is_not_scanned_witness:
  "\<exists>m' reqs sent. gw_handle sample_env sample_gateway (sample_upstream ''pkey#'') metrics_zero [] ''/v1'' ''shi'' =
     (m', reqs, GW_Stream 200 sent) \<and> concat sent = ''pkey#'' \<and>
   Engine_scan strict_engine ''pkey#'' = Inr (Blocked [''Custom Secret''])"
proof -
  let ?up = "\<lparr>up_status = 200, up_content_type = Some ''application/json'', up_reads = [Chunk ''pkey#'']\<rparr>"
  have "visits_each_key_once (map_order sample_env)" by (simp add: sample_env_def visits_id)
  moreover have "from_str (codec sample_env) ''shi'' = Inr (chat_request True ''hi'')"
    "Option.bind (json_get ''stream'' (chat_request True ''hi'')) as_bool = Some True" by code_simp+
  moreover obtain doc' report where r: "scan_request (gw_engine sample_gateway) (chat_request True ''hi'') = Inr (doc', report)"
    "\<not> ScanReport_is_blocked report"
  proof -
    have "case scan_request (gw_engine sample_gateway) (chat_request True ''hi'') of
        Inl er \<Rightarrow> False | Inr (d, r) \<Rightarrow> \<not> ScanReport_is_blocked r" by code_simp
    with that show thesis by (auto split: sum.splits)
  qed
  moreover have "sample_upstream ''pkey#'' q = Inr ?up" for q by (simp add: sample_upstream_def)
  moreover have "is_success (up_status ?up)" "up_reads ?up = map Chunk [''pkey#'']"
    by (simp_all add: is_success_def)
  moreover have "list_all valid_utf8 [''pkey#'']" "length (concat [''pkey#'']) \<le> max_body_bytes sample_gateway"
    "list_all (\<lambda>l. \<not> starts_with ''data:'' l) (split_inclusive (concat [''pkey#'']))" by code_simp+
  ultimately have "\<exists>m' reqs sent. gw_handle sample_env sample_gateway (sample_upstream ''pkey#'') metrics_zero []
      ''/v1'' ''shi'' = (m', reqs, GW_Stream (up_status ?up) sent) \<and> concat sent = concat [''pkey#'']"
    by (rule json_answer_to_streaming_request_is_not_scanned)
  moreover have "Engine_scan strict_engine ''pkey#'' = Inr (Blocked [''Custom Secret''])" by code_simp
  ultimately show ?thesis by simp
qed

section \<open>Configuration\<close>

text \<open>The external processor starts exactly on a configuration whose salt is not blank, whose
  hold-back window is positive and whose addresses parse, and it runs with the given values; a blank
  salt is reported before anything else.\<close>

theorem ext_config_accepted_iff:
  "(Config_validate parse args = Inr c \<longleftrightarrow>
     str_trim (a_redact_hash_salt args) \<noteq> [] \<and> 0 < a_response_hold_back_bytes args \<and>
     parse (a_listen_addr args) = Some (c_listen_addr c) \<and>
     parse (a_metrics_listen_addr args) = Some (c_metrics_listen_addr c) \<and>
     c_redact_profile c = a_redact_profile args \<and> c_redact_hash_salt c = a_redact_hash_salt args \<and>
     c_response_hold_back_bytes c = a_response_hold_back_bytes args) \<and>
   (Config_validate parse args = Inl Salt_empty \<longleftrightarrow> str_trim (a_redact_hash_salt args) = [])"
  by (cases c) (auto simp: Config_validate_def split: option.split)

lemma trim_end_matches_last: "P c \<Longrightarrow> trim_end_matches P s \<noteq> u @ [c]"
proof
  assume p: "P c" and "trim_end_matches P s = u @ [c]"
  then have d: "dropWhile P (rev s) = c # rev u" by (simp add: trim_end_matches_def rev_swap)
  then have "\<not> P c" using hd_dropWhile [of P "rev s"] by simp
  with p show False by simp
qed

text \<open>The gateway starts exactly on a known profile, an http or https provider, a salt that is not
  blank and a readable CA file; the provider address it then uses does not end in a slash.\<close>

theorem gw_config_accepted_iff:
  "(\<exists>c. Config_from_args nm read_file args = Inr c \<and> gc_hash_salt c = ga_hash_salt args \<and>
       Some (gc_profile c) = by_name nm (ga_profile args) \<and>
       (\<nexists>u. gc_provider_base_url c = u @ ''/'')) \<longleftrightarrow>
     by_name nm (ga_profile args) \<noteq> None \<and>
     (starts_with ''http://'' (ga_provider_base_url args) \<or> starts_with ''https://'' (ga_provider_base_url args)) \<and>
     str_trim (ga_hash_salt args) \<noteq> [] \<and>
     (case ga_provider_ca_file args of None \<Rightarrow> True | Some path \<Rightarrow> \<exists>pem. read_file path = Inr pem)"
  using trim_end_matches_last [of "\<lambda>c. c = CHR ''/''" "CHR ''/''" "ga_provider_base_url args"]
  by (auto simp: Config_from_args_def res_bind_def Let_def split: option.split sum.split)

end
