(* ===== verification/Serde.thy ===== *)
theory Serde
  imports Json "HOL-Library.Monad_Syntax"
begin

text \<open>
  What the sources use of the standard library's numbers and of \<open>serde\<close>: reading an integer from its
  decimal text, comparing documents, and the readers \<open>serde\<close> derives from the declaration of a record,
  from a document already parsed and from the text itself.

  A double is its shortest decimal literal, as in \<open>Float\<close> of theory \<open>Json\<close>. The record \<open>f64_lib\<close> holds
  what the sources use of the type: the rational a literal denotes, and the double an integer is cast
  to.
\<close>

section \<open>Numbers\<close>

record f64_lib =
  fl_value :: "string \<Rightarrow> rat"
  fl_of_int :: "int \<Rightarrow> string"

definition as_f64 :: "f64_lib \<Rightarrow> json \<Rightarrow> string option" where
  "as_f64 fl v =
     (case v of
        JNumber (PosInt n) \<Rightarrow> Some (fl_of_int fl (int n))
      | JNumber (NegInt i) \<Rightarrow> Some (fl_of_int fl i)
      | JNumber (Float t) \<Rightarrow> Some t
      | _ \<Rightarrow> None)"

definition in_i64 :: "int \<Rightarrow> bool" where
  "in_i64 i \<longleftrightarrow> - 9223372036854775808 \<le> i \<and> i \<le> 9223372036854775807"

definition checked_i64 :: "int \<Rightarrow> int option" where
  "checked_i64 i = (if in_i64 i then Some i else None)"

definition as_i64 :: "json \<Rightarrow> int option" where
  "as_i64 v =
     (case v of
        JNumber (PosInt n) \<Rightarrow> checked_i64 (int n)
      | JNumber (NegInt i) \<Rightarrow> Some i
      | _ \<Rightarrow> None)"

text \<open>\<open>str::parse::<i64>\<close>: an optional sign, at least one digit, a value in range.\<close>

definition is_digit :: "char \<Rightarrow> bool" where
  "is_digit c \<longleftrightarrow> 48 \<le> (of_char c :: nat) \<and> (of_char c :: nat) \<le> 57"

definition decimal_value :: "string \<Rightarrow> nat option" where
  "decimal_value s =
     (if s \<noteq> [] \<and> list_all is_digit s
      then Some (foldl (\<lambda>n c. 10 * n + ((of_char c :: nat) - 48)) 0 s) else None)"

definition parse_i64 :: "string \<Rightarrow> int option" where
  "parse_i64 s =
     (case s of
        [] \<Rightarrow> None
      | c # r \<Rightarrow>
          (if c = CHR ''-'' then Option.bind (decimal_value r) (\<lambda>n. checked_i64 (- int n))
           else if c = CHR ''+'' then Option.bind (decimal_value r) (\<lambda>n. checked_i64 (int n))
           else Option.bind (decimal_value s) (\<lambda>n. checked_i64 (int n))))"

lemma foldl_digits_show_nat:
  "foldl (\<lambda>n c. 10 * n + ((of_char c :: nat) - 48)) 0 (show_nat n) = n \<and> list_all is_digit (show_nat n)"
proof (induction n rule: show_nat.induct)
  case (1 n)
  have "n mod 10 \<le> 9" using mod_less_divisor [of 10 n] by simp
  then show ?case
    using 1 by (cases "n < 10") (simp_all add: show_nat.simps [of n] is_digit_def [of "char_of _"])
qed

lemma decimal_value_show_nat [simp]: "decimal_value (show_nat n) = Some n"
  by (simp add: decimal_value_def foldl_digits_show_nat)

lemma show_nat_digit: "\<exists>c cs. show_nat n = c # cs \<and> is_digit c"
  using foldl_digits_show_nat [of n] by (cases "show_nat n") auto

text \<open>Printing and reading an integer agree.\<close>

lemma parse_i64_show_int: "in_i64 i \<Longrightarrow> parse_i64 (show_int i) = Some i"
proof -
  assume i: "in_i64 i"
  show ?thesis
  proof (cases "i < 0")
    case True
    with i show ?thesis by (simp add: parse_i64_def show_int_def checked_i64_def)
  next
    case False
    obtain c cs where s: "show_nat (nat i) = c # cs" "is_digit c" using show_nat_digit by blast
    then have "c \<noteq> CHR ''-''" "c \<noteq> CHR ''+''" by (auto simp: is_digit_def)
    with False i s decimal_value_show_nat [of "nat i"] show ?thesis
      by (simp add: parse_i64_def show_int_def checked_i64_def)
  qed
qed

lemma parse_i64_range: "parse_i64 s = Some i \<Longrightarrow> in_i64 i"
  by (auto simp: parse_i64_def checked_i64_def split: list.splits if_splits option.splits bind_splits)

text \<open>Equality of documents compares doubles as numbers, so the two zeros are equal. The objects that
  are compared list their keys in a fixed order, so the order of entries does not matter.\<close>

lemma size_snd_entry [termination_simp]:
  "p \<in> set es \<Longrightarrow> size (snd p) < Suc (size_list (size_prod (\<lambda>_. 0) size) es)"
  by (induction es) (auto simp: less_Suc_eq_le)

fun canon :: "json \<Rightarrow> json" where
  "canon (JNumber (Float t)) = JNumber (Float (if t = ''-0.0'' then ''0.0'' else t))"
| "canon (JArray xs) = JArray (map canon xs)"
| "canon (JObject es) = JObject (map (\<lambda>p. (fst p, canon (snd p))) es)"
| "canon v = v"

definition value_eq :: "json \<Rightarrow> json \<Rightarrow> bool" where
  "value_eq a c \<longleftrightarrow> canon a = canon c"

section \<open>Derived readers\<close>

text \<open>
  \<open>serde_json::from_value\<close> for the types the records are made of. A record is read from an object by the
  names of its fields, or from an array by their positions. A field with \<open>#[serde(default)]\<close> may be
  absent; a field of type \<open>Option\<close> may be absent from an object, but not from an array.
\<close>

type_synonym 'a decoder = "json \<Rightarrow> 'a option"

definition de_u32 :: "nat decoder" where
  "de_u32 j = (case as_u64 j of Some n \<Rightarrow> if n < 4294967296 then Some n else None | None \<Rightarrow> None)"

definition de_vec :: "'a decoder \<Rightarrow> 'a list decoder" where
  "de_vec d j = (case j of JArray xs \<Rightarrow> those (map d xs) | _ \<Rightarrow> None)"

definition de_map :: "(string \<times> json) list decoder" where
  "de_map j = (case j of JObject es \<Rightarrow> Some es | _ \<Rightarrow> None)"

definition de_option :: "'a decoder \<Rightarrow> 'a option decoder" where
  "de_option d j = (if j = JNull then Some None else map_option Some (d j))"

type_synonym struct_view = "bool \<times> (nat \<Rightarrow> json option)"

definition de_struct :: "string list \<Rightarrow> json \<Rightarrow> struct_view option" where
  "de_struct names j =
     (case j of
        JObject es \<Rightarrow> Some (False, \<lambda>i. map_of es (names ! i))
      | JArray xs \<Rightarrow>
          (if length xs \<le> length names
           then Some (True, \<lambda>i. if i < length xs then Some (xs ! i) else None) else None)
      | _ \<Rightarrow> None)"

definition field_default :: "'a decoder \<Rightarrow> 'a \<Rightarrow> struct_view \<Rightarrow> nat \<Rightarrow> 'a option" where
  "field_default d dflt v i = (case snd v i of None \<Rightarrow> Some dflt | Some j \<Rightarrow> d j)"

definition field_option :: "'a decoder \<Rightarrow> struct_view \<Rightarrow> nat \<Rightarrow> 'a option option" where
  "field_option d v i =
     (case snd v i of None \<Rightarrow> if fst v then None else Some None | Some j \<Rightarrow> de_option d j)"

text \<open>
  \<open>serde_json::from_slice\<close> reads a record from the text without building a document first, so an
  object's entries are those of the text, repeated names included: a field named twice, under one of its
  names or under two, is an error. Here the document is the tree of the text with every entry kept.
  A record with a flattened map is read from an object only.
\<close>

definition named_entries :: "string list \<Rightarrow> (string \<times> json) list \<Rightarrow> json list" where
  "named_entries ns es = map snd (filter (\<lambda>e. fst e \<in> set ns) es)"

definition de_object_text :: "string list list \<Rightarrow> json \<Rightarrow> struct_view option" where
  "de_object_text names j =
     (case j of
        JObject es \<Rightarrow>
          (if list_all (\<lambda>ns. length (named_entries ns es) \<le> 1) names
           then Some (False, \<lambda>i. case named_entries (names ! i) es of [] \<Rightarrow> None | v # _ \<Rightarrow> Some v)
           else None)
      | _ \<Rightarrow> None)"

definition de_struct_text :: "string list list \<Rightarrow> json \<Rightarrow> struct_view option" where
  "de_struct_text names j =
     (case j of
        JArray xs \<Rightarrow>
          (if length xs \<le> length names
           then Some (True, \<lambda>i. if i < length xs then Some (xs ! i) else None) else None)
      | _ \<Rightarrow> de_object_text names j)"

definition field_required :: "'a decoder \<Rightarrow> struct_view \<Rightarrow> nat \<Rightarrow> 'a option" where
  "field_required d v i = (case snd v i of None \<Rightarrow> None | Some j \<Rightarrow> d j)"

end
