(* ===== verification/Copilot_Record.thy ===== *)
theory Copilot_Record
  imports Serde Daemon_Tail
begin

text \<open>
  The records of the Copilot drain of \<open>app/governance-auth\<close>: the shapes Copilot's file exporter writes
  (\<open>copilot/record.rs\<close>) with the readers that \<open>serde\<close> derives from their declarations, the kind of a
  line (\<open>copilot/classify.rs\<close>), and the OTLP pieces both signals are built from (\<open>copilot/otlp.rs\<close>).
\<close>

section \<open>The shapes of a line\<close>

type_synonym hr_time = "int list"

record cp_resource =
  raw_attributes :: "json list"

record cp_scope =
  sc_name :: "string option"
  sc_version :: "string option"

record descriptor =
  de_name :: string
  de_description :: string
  de_unit :: string
  de_value_type :: "int option"

record data_point =
  dp_attributes :: "(string \<times> json) list"
  dp_start_time :: "hr_time option"
  dp_end_time :: "hr_time option"
  dp_value :: json

record cp_metric =
  cm_descriptor :: descriptor
  cm_data_point_type :: "int option"
  cm_aggregation_temporality :: "int option"
  cm_data_points :: "data_point list"
  cm_is_monotonic :: "bool option"

record cp_scope_metrics =
  sm_scope :: cp_scope
  sm_metrics :: "cp_metric list"

record metrics_record =
  mr_resource :: cp_resource
  mr_scope_metrics :: "cp_scope_metrics list"

record buckets =
  bk_boundaries :: "string list"
  bk_counts :: "nat list"

record histogram_value =
  hv_count :: "nat option"
  hv_sum :: "string option"
  hv_min :: "string option"
  hv_max :: "string option"
  hv_buckets :: buckets

record span_context =
  sx_trace_id :: "string option"
  sx_span_id :: "string option"
  sx_trace_flags :: "nat option"

record cp_log_record =
  lr_body :: "json option"
  lr_attributes :: "(string \<times> json) list"
  lr_hr_time :: "hr_time option"
  lr_hr_time_observed :: "hr_time option"
  lr_instrumentation_scope :: cp_scope
  lr_resource :: cp_resource
  lr_span_context :: "span_context option"

definition de_hr_time :: "hr_time decoder" where
  "de_hr_time = de_vec as_i64"

definition de_resource :: "cp_resource decoder" where
  "de_resource j = do {
     v \<leftarrow> de_struct [''_rawAttributes''] j;
     raw \<leftarrow> field_default (de_vec Some) [] v 0;
     Some \<lparr>raw_attributes = raw\<rparr> }"

definition de_scope :: "cp_scope decoder" where
  "de_scope j = do {
     v \<leftarrow> de_struct [''name'', ''version''] j;
     n \<leftarrow> field_default (de_option as_str_val) None v 0;
     r \<leftarrow> field_default (de_option as_str_val) None v 1;
     Some \<lparr>sc_name = n, sc_version = r\<rparr> }"

definition de_descriptor :: "descriptor decoder" where
  "de_descriptor j = do {
     v \<leftarrow> de_struct [''name'', ''description'', ''unit'', ''valueType''] j;
     n \<leftarrow> field_default as_str_val [] v 0;
     d \<leftarrow> field_default as_str_val [] v 1;
     u \<leftarrow> field_default as_str_val [] v 2;
     t \<leftarrow> field_option as_i64 v 3;
     Some \<lparr>de_name = n, de_description = d, de_unit = u, de_value_type = t\<rparr> }"

definition de_data_point :: "data_point decoder" where
  "de_data_point j = do {
     v \<leftarrow> de_struct [''attributes'', ''startTime'', ''endTime'', ''value''] j;
     a \<leftarrow> field_default de_map [] v 0;
     s \<leftarrow> field_option de_hr_time v 1;
     e \<leftarrow> field_option de_hr_time v 2;
     x \<leftarrow> field_default Some JNull v 3;
     Some \<lparr>dp_attributes = a, dp_start_time = s, dp_end_time = e, dp_value = x\<rparr> }"

definition de_metric :: "cp_metric decoder" where
  "de_metric j = do {
     v \<leftarrow> de_struct [''descriptor'', ''dataPointType'', ''aggregationTemporality'', ''dataPoints'', ''isMonotonic''] j;
     d \<leftarrow> field_default de_descriptor \<lparr>de_name = [], de_description = [], de_unit = [], de_value_type = None\<rparr> v 0;
     t \<leftarrow> field_option as_i64 v 1;
     a \<leftarrow> field_option as_i64 v 2;
     ps \<leftarrow> field_default (de_vec de_data_point) [] v 3;
     m \<leftarrow> field_option as_bool v 4;
     Some \<lparr>cm_descriptor = d, cm_data_point_type = t, cm_aggregation_temporality = a, cm_data_points = ps,
           cm_is_monotonic = m\<rparr> }"

definition de_scope_metrics :: "cp_scope_metrics decoder" where
  "de_scope_metrics j = do {
     v \<leftarrow> de_struct [''scope'', ''metrics''] j;
     s \<leftarrow> field_default de_scope \<lparr>sc_name = None, sc_version = None\<rparr> v 0;
     ms \<leftarrow> field_default (de_vec de_metric) [] v 1;
     Some \<lparr>sm_scope = s, sm_metrics = ms\<rparr> }"

definition de_metrics_record :: "metrics_record decoder" where
  "de_metrics_record j = do {
     v \<leftarrow> de_struct [''resource'', ''scopeMetrics''] j;
     r \<leftarrow> field_default de_resource \<lparr>raw_attributes = []\<rparr> v 0;
     sms \<leftarrow> field_default (de_vec de_scope_metrics) [] v 1;
     Some \<lparr>mr_resource = r, mr_scope_metrics = sms\<rparr> }"

definition de_buckets :: "f64_lib \<Rightarrow> buckets decoder" where
  "de_buckets fl j = do {
     v \<leftarrow> de_struct [''boundaries'', ''counts''] j;
     bs \<leftarrow> field_default (de_vec (as_f64 fl)) [] v 0;
     cs \<leftarrow> field_default (de_vec as_u64) [] v 1;
     Some \<lparr>bk_boundaries = bs, bk_counts = cs\<rparr> }"

definition de_histogram_value :: "f64_lib \<Rightarrow> histogram_value decoder" where
  "de_histogram_value fl j = do {
     v \<leftarrow> de_struct [''count'', ''sum'', ''min'', ''max'', ''buckets''] j;
     c \<leftarrow> field_option as_u64 v 0;
     s \<leftarrow> field_option (as_f64 fl) v 1;
     lo \<leftarrow> field_option (as_f64 fl) v 2;
     hi \<leftarrow> field_option (as_f64 fl) v 3;
     bs \<leftarrow> field_default (de_buckets fl) \<lparr>bk_boundaries = [], bk_counts = []\<rparr> v 4;
     Some \<lparr>hv_count = c, hv_sum = s, hv_min = lo, hv_max = hi, hv_buckets = bs\<rparr> }"

definition de_span_context :: "span_context decoder" where
  "de_span_context j = do {
     v \<leftarrow> de_struct [''traceId'', ''spanId'', ''traceFlags''] j;
     t \<leftarrow> field_option as_str_val v 0;
     s \<leftarrow> field_option as_str_val v 1;
     f \<leftarrow> field_option de_u32 v 2;
     Some \<lparr>sx_trace_id = t, sx_span_id = s, sx_trace_flags = f\<rparr> }"

definition de_log_record :: "cp_log_record decoder" where
  "de_log_record j = do {
     v \<leftarrow> de_struct [''_body'', ''attributes'', ''hrTime'', ''hrTimeObserved'', ''instrumentationScope'', ''resource'',
                     ''spanContext''] j;
     body \<leftarrow> field_option Some v 0;
     a \<leftarrow> field_default de_map [] v 1;
     t \<leftarrow> field_option de_hr_time v 2;
     o' \<leftarrow> field_option de_hr_time v 3;
     s \<leftarrow> field_default de_scope \<lparr>sc_name = None, sc_version = None\<rparr> v 4;
     r \<leftarrow> field_default de_resource \<lparr>raw_attributes = []\<rparr> v 5;
     x \<leftarrow> field_option de_span_context v 6;
     Some \<lparr>lr_body = body, lr_attributes = a, lr_hr_time = t, lr_hr_time_observed = o',
           lr_instrumentation_scope = s, lr_resource = r, lr_span_context = x\<rparr> }"

section \<open>The kind of a line\<close>

datatype line_kind = Kind_Metrics | Kind_Log | Kind_Empty | Kind_Unknown

definition classify :: "json \<Rightarrow> line_kind" where
  "classify j =
     (case j of
        JObject es \<Rightarrow>
          (if es = [] then Kind_Empty
           else if map_of es ''scopeMetrics'' \<noteq> None then Kind_Metrics
           else if map_of es ''_body'' \<noteq> None then Kind_Log
           else Kind_Unknown)
      | _ \<Rightarrow> Kind_Unknown)"

section \<open>OTLP pieces\<close>

definition key_value_json :: "string \<Rightarrow> json \<Rightarrow> json" where
  "key_value_json k v = JObject [(''key'', JString k), (''value'', v)]"

fun any_value :: "f64_lib \<Rightarrow> json \<Rightarrow> json" where
  "any_value fl (JString s) = JObject [(''stringValue'', JString s)]"
| "any_value fl (JBool b) = JObject [(''boolValue'', JBool b)]"
| "any_value fl (JNumber n) =
     (case as_i64 (JNumber n) of
        Some i \<Rightarrow> JObject [(''intValue'', JString (show_int i))]
      | None \<Rightarrow>
          JObject [(''doubleValue'',
            JNumber (Float (case as_f64 fl (JNumber n) of Some d \<Rightarrow> d | None \<Rightarrow> ''0.0'')))])"
| "any_value fl (JArray xs) =
     JObject [(''arrayValue'', JObject [(''values'', JArray (map (any_value fl) xs))])]"
| "any_value fl (JObject es) =
     JObject [(''kvlistValue'',
       JObject [(''values'', JArray (map (\<lambda>p. key_value_json (fst p) (any_value fl (snd p))) es))])]"
| "any_value fl JNull = JObject []"

definition otlp_attributes :: "f64_lib \<Rightarrow> (string \<times> json) list \<Rightarrow> json list" where
  "otlp_attributes fl m = map (\<lambda>p. key_value_json (fst p) (any_value fl (snd p))) m"

definition raw_pair :: "json \<Rightarrow> (string \<times> json) option" where
  "raw_pair en = do {
     pair \<leftarrow> as_array en;
     first \<leftarrow> (case pair of [] \<Rightarrow> None | k # _ \<Rightarrow> Some k);
     key \<leftarrow> as_str_val first;
     Some (key, if 1 < length pair then pair ! 1 else JNull) }"

definition resource_attributes :: "f64_lib \<Rightarrow> json list \<Rightarrow> json list" where
  "resource_attributes fl raw =
     map (\<lambda>p. key_value_json (fst p) (any_value fl (snd p))) (List.map_filter raw_pair raw)"

definition otlp_resource :: "f64_lib \<Rightarrow> cp_resource \<Rightarrow> json" where
  "otlp_resource fl r = JObject [(''attributes'', JArray (resource_attributes fl (raw_attributes r)))]"

definition otlp_scope :: "cp_scope \<Rightarrow> json" where
  "otlp_scope s =
     JObject ((''name'', JString (case sc_name s of Some n \<Rightarrow> n | None \<Rightarrow> [])) #
       (case sc_version s of Some r \<Rightarrow> [(''version'', JString r)] | None \<Rightarrow> []))"

definition time_unix_nano :: "hr_time option \<Rightarrow> string option" where
  "time_unix_nano t = do {
     ts \<leftarrow> t;
     seconds \<leftarrow> (case ts of [] \<Rightarrow> None | s # _ \<Rightarrow> Some s);
     prod \<leftarrow> checked_i64 (seconds * 1000000000);
     total \<leftarrow> checked_i64 (prod + (if 1 < length ts then ts ! 1 else 0));
     if 0 \<le> total then Some (show_nat (nat total)) else None }"

type_synonym json_object = "(string \<times> json) list"

definition insert_time :: "string \<Rightarrow> hr_time option \<Rightarrow> json_object \<Rightarrow> json_object" where
  "insert_time key t obj =
     (case time_unix_nano t of Some nanos \<Rightarrow> AList.update key (JString nanos) obj | None \<Rightarrow> obj)"

type_synonym grouped = "json \<times> json \<times> json list"

type_synonym by_resource = "(json \<times> (json \<times> json list) list) list"

fun add_scope :: "json \<Rightarrow> json list \<Rightarrow> (json \<times> json list) list \<Rightarrow> (json \<times> json list) list" where
  "add_scope sc items [] = [(sc, items)]"
| "add_scope sc items ((seen, existing) # rest) =
     (if value_eq seen sc then (seen, existing @ items) # rest else (seen, existing) # add_scope sc items rest)"

fun add_resource :: "json \<Rightarrow> json \<Rightarrow> json list \<Rightarrow> by_resource \<Rightarrow> by_resource" where
  "add_resource r sc items [] = [(r, add_scope sc items [])]"
| "add_resource r sc items ((seen, by_scope) # rest) =
     (if value_eq seen r then (seen, add_scope sc items by_scope) # rest
      else (seen, by_scope) # add_resource r sc items rest)"

definition group_entry :: "by_resource \<Rightarrow> grouped \<Rightarrow> by_resource" where
  "group_entry acc e =
     (case e of (r, sc, items) \<Rightarrow> if items = [] then acc else add_resource r sc items acc)"

definition group_fold :: "grouped list \<Rightarrow> by_resource" where
  "group_fold entries = foldl group_entry [] entries"

definition render_scope :: "string \<Rightarrow> json \<times> json list \<Rightarrow> json" where
  "render_scope item_field p =
     JObject (AList.update item_field (JArray (snd p)) [(''scope'', fst p)])"

definition render_resource :: "string \<Rightarrow> string \<Rightarrow> json \<times> (json \<times> json list) list \<Rightarrow> json" where
  "render_resource scope_field item_field p =
     JObject (AList.update scope_field (JArray (map (render_scope item_field) (snd p))) [(''resource'', fst p)])"

definition group :: "grouped list \<Rightarrow> string \<Rightarrow> string \<Rightarrow> json list" where
  "group entries scope_field item_field =
     map (render_resource scope_field item_field) (group_fold entries)"

section \<open>Laws\<close>

lemma value_eq_refl [simp]: "value_eq a a"
  by (simp add: value_eq_def)

lemma value_eq_sym: "value_eq a c \<Longrightarrow> value_eq c a"
  by (simp add: value_eq_def)

lemma value_eq_trans: "value_eq a c \<Longrightarrow> value_eq c d \<Longrightarrow> value_eq a d"
  by (simp add: value_eq_def)

text \<open>The items under one resource and one scope.\<close>

fun scope_items :: "json \<Rightarrow> (json \<times> json list) list \<Rightarrow> json list" where
  "scope_items s [] = []"
| "scope_items s ((k, items) # bs) = (if value_eq k s then items else []) @ scope_items s bs"

fun items_of :: "json \<Rightarrow> json \<Rightarrow> by_resource \<Rightarrow> json list" where
  "items_of r s [] = []"
| "items_of r s ((k, bs) # acc) = (if value_eq k r then scope_items s bs else []) @ items_of r s acc"

definition entry_items :: "json \<Rightarrow> json \<Rightarrow> grouped list \<Rightarrow> json list" where
  "entry_items r sc entries =
     concat (map (\<lambda>(r', sc', items). if value_eq r' r \<and> value_eq sc' sc then items else []) entries)"

fun ckeys :: "(json \<times> 'a) list \<Rightarrow> json list" where
  "ckeys [] = []"
| "ckeys ((k, _) # rest) = canon k # ckeys rest"

definition scopes_wf :: "(json \<times> json list) list \<Rightarrow> bool" where
  "scopes_wf bs \<longleftrightarrow> distinct (ckeys bs) \<and> bs \<noteq> [] \<and> (\<forall>(k, items) \<in> set bs. items \<noteq> [])"

definition by_resource_wf :: "by_resource \<Rightarrow> bool" where
  "by_resource_wf acc \<longleftrightarrow> distinct (ckeys acc) \<and> (\<forall>(k, bs) \<in> set acc. scopes_wf bs)"

lemma in_ckeys: "(k, v) \<in> set bs \<Longrightarrow> canon k \<in> set (ckeys bs)"
  by (induction bs rule: ckeys.induct) auto

lemma ckeys_add_scope [simp]: "set (ckeys (add_scope sc items bs)) = insert (canon sc) (set (ckeys bs))"
  by (induction sc items bs rule: add_scope.induct) (auto simp: value_eq_def)

lemma ckeys_add_resource [simp]: "set (ckeys (add_resource r sc items acc)) = insert (canon r) (set (ckeys acc))"
  by (induction r sc items acc rule: add_resource.induct) (auto simp: value_eq_def)

lemma add_scope_not_Nil [simp]: "add_scope sc items bs \<noteq> []"
  by (induction sc items bs rule: add_scope.induct) simp_all

lemma add_resource_not_Nil [simp]: "add_resource r sc items acc \<noteq> []"
  by (induction r sc items acc rule: add_resource.induct) simp_all

lemma distinct_add_scope: "distinct (ckeys bs) \<Longrightarrow> distinct (ckeys (add_scope sc items bs))"
  by (induction sc items bs rule: add_scope.induct) (auto simp: value_eq_def)

lemma add_scope_wf: "scopes_wf bs \<or> bs = [] \<Longrightarrow> items \<noteq> [] \<Longrightarrow> scopes_wf (add_scope sc items bs)"
proof -
  assume "scopes_wf bs \<or> bs = []" and "items \<noteq> []"
  moreover from this have "\<forall>(k, xs) \<in> set bs. xs \<noteq> []" by (auto simp: scopes_wf_def)
  then have "items \<noteq> [] \<Longrightarrow> \<forall>(k, xs) \<in> set (add_scope sc items bs). xs \<noteq> []"
    by (induction sc items bs rule: add_scope.induct) auto
  ultimately show ?thesis by (auto simp: scopes_wf_def distinct_add_scope)
qed

lemma add_resource_wf:
  "by_resource_wf acc \<Longrightarrow> items \<noteq> [] \<Longrightarrow> by_resource_wf (add_resource r sc items acc)"
proof (induction r sc items acc rule: add_resource.induct)
  case (1 r sc items)
  then show ?case by (simp add: by_resource_wf_def scopes_wf_def)
next
  case (2 r sc items seen by_scope rest)
  then show ?case by (auto simp: by_resource_wf_def value_eq_def intro: add_scope_wf)
qed

lemma group_fold_wf: "by_resource_wf (group_fold entries)"
proof -
  have "by_resource_wf acc \<Longrightarrow> by_resource_wf (foldl group_entry acc entries)" for acc
    by (induction entries arbitrary: acc) (auto simp: group_entry_def add_resource_wf split: prod.splits)
  from this [of "[]"] show ?thesis by (simp add: group_fold_def by_resource_wf_def)
qed

lemma scope_items_absent: "canon s \<notin> set (ckeys bs) \<Longrightarrow> scope_items s bs = []"
  by (induction s bs rule: scope_items.induct) (auto simp: value_eq_def)

lemma items_of_absent: "canon r \<notin> set (ckeys acc) \<Longrightarrow> items_of r s acc = []"
  by (induction r s acc rule: items_of.induct) (auto simp: value_eq_def)

lemma scope_items_add:
  "distinct (ckeys bs) \<Longrightarrow>
     scope_items s (add_scope sc items bs) = scope_items s bs @ (if value_eq sc s then items else [])"
  by (induction sc items bs rule: add_scope.induct) (auto simp: value_eq_def scope_items_absent)

lemma items_of_add_resource:
  assumes "by_resource_wf acc"
  shows "items_of r s (add_resource r' sc items acc) =
     items_of r s acc @ (if value_eq r' r \<and> value_eq sc s then items else [])"
  using assms
proof (induction r' sc items acc rule: add_resource.induct)
  case (2 r' sc items seen by_scope rest)
  have wf: "by_resource_wf rest" and d: "distinct (ckeys by_scope)" and f: "canon seen \<notin> set (ckeys rest)"
    using "2.prems" by (auto simp: by_resource_wf_def scopes_wf_def)
  show ?case
  proof (cases "value_eq seen r'")
    case True
    then have "value_eq seen r = value_eq r' r" by (simp add: value_eq_def)
    moreover from f have "value_eq seen r \<Longrightarrow> items_of r s rest = []"
      by (simp add: value_eq_def items_of_absent)
    ultimately show ?thesis using True by (auto simp: scope_items_add [OF d])
  next
    case False
    with 2 wf show ?thesis by simp
  qed
qed simp

lemma group_fold_items: "items_of r s (group_fold entries) = entry_items r s entries"
proof -
  have "by_resource_wf acc \<Longrightarrow> items_of r s (foldl group_entry acc entries) = items_of r s acc @ entry_items r s entries"
    for acc
  proof (induction entries arbitrary: acc)
    case (Cons e entries)
    obtain r' sc items where e: "e = (r', sc, items)" by (cases e)
    show ?case
    proof (cases "items = []")
      case True
      with Cons e show ?thesis by (simp add: group_entry_def entry_items_def)
    next
      case False
      with Cons e show ?thesis
        by (simp add: group_entry_def entry_items_def add_resource_wf items_of_add_resource)
    qed
  qed (simp add: entry_items_def)
  from this [of "[]"] show ?thesis
    by (simp add: group_fold_def by_resource_wf_def)
qed

lemma group_fold_Nil_iff: "group_fold entries = [] \<longleftrightarrow> (\<forall>e \<in> set entries. snd (snd e) = [])"
proof -
  have "foldl group_entry acc entries = [] \<longleftrightarrow> acc = [] \<and> (\<forall>e \<in> set entries. snd (snd e) = [])" for acc
  proof (induction entries arbitrary: acc)
    case (Cons e entries)
    then show ?case by (auto simp: group_entry_def split: prod.splits)
  qed simp
  then show ?thesis by (simp add: group_fold_def)
qed

lemma group_Nil_iff: "group entries f g = [] \<longleftrightarrow> (\<forall>e \<in> set entries. snd (snd e) = [])"
  by (simp add: group_def group_fold_Nil_iff)

text \<open>A timestamp is exact: no arithmetic wraps, and what does not fit is absent.\<close>

lemma time_unix_nano_exact:
  "time_unix_nano t = Some s \<longleftrightarrow>
     (\<exists>sec ns n. t = Some (sec # ns) \<and> 0 \<le> n \<and> n \<le> 9223372036854775807 \<and>
        in_i64 (sec * 1000000000) \<and> n = sec * 1000000000 + (case ns of [] \<Rightarrow> 0 | x # _ \<Rightarrow> x) \<and> s = show_nat (nat n))"
proof (cases t)
  case (Some ts)
  then show ?thesis
    by (cases ts)
      (auto simp: time_unix_nano_def checked_i64_def in_i64_def Option.bind_def Let_def
        split: if_splits option.splits list.splits)
qed (simp add: time_unix_nano_def)

end
