(* ===== verification/Copilot_Batch.thy ===== *)
theory Copilot_Batch
  imports Copilot_Record
begin

text \<open>
  Spool lines to the two OTLP payloads: data points (\<open>copilot/points.rs\<close>), metrics
  (\<open>copilot/metrics.rs\<close>), log records (\<open>copilot/logs.rs\<close>), and the batch with its tally of what did
  not make it (\<open>copilot/batch.rs\<close>). The laws say that a batch is the sum of its lines, and what
  becomes of each line.
\<close>

section \<open>Data points\<close>

definition point_base :: "f64_lib \<Rightarrow> data_point \<Rightarrow> json_object" where
  "point_base fl p =
     insert_time ''timeUnixNano'' (dp_end_time p)
       (insert_time ''startTimeUnixNano'' (dp_start_time p)
         [(''attributes'', JArray (otlp_attributes fl (dp_attributes p)))])"

definition JS_INT :: int where
  "JS_INT = 0"

definition EXACT_INTEGER_LIMIT :: rat where
  "EXACT_INTEGER_LIMIT = 9007199254740992"

definition integral :: "f64_lib \<Rightarrow> bool \<Rightarrow> json \<Rightarrow> string \<Rightarrow> int option" where
  "integral fl prefer_int v number =
     (if \<not> prefer_int then None
      else case as_i64 v of
             Some i \<Rightarrow> Some i
           | None \<Rightarrow>
               (let x = fl_value fl number
                in if of_int \<lfloor>x\<rfloor> = x \<and> \<bar>x\<bar> \<le> EXACT_INTEGER_LIMIT then Some \<lfloor>x\<rfloor> else None))"

text \<open>The two loops over the points of a metric: a point is kept, or dropped and counted.\<close>

definition keep_or_count :: "('a \<Rightarrow> 'b option) \<Rightarrow> 'b list \<times> nat \<Rightarrow> 'a \<Rightarrow> 'b list \<times> nat" where
  "keep_or_count f acc p =
     (case f p of None \<Rightarrow> (fst acc, sat_add (snd acc) 1) | Some v \<Rightarrow> (fst acc @ [v], snd acc))"

definition number_point :: "f64_lib \<Rightarrow> bool \<Rightarrow> data_point \<Rightarrow> json option" where
  "number_point fl prefer_int p =
     (case as_f64 fl (dp_value p) of
        None \<Rightarrow> None
      | Some number \<Rightarrow>
          Some (JObject
            (case integral fl prefer_int (dp_value p) number of
               Some i \<Rightarrow> AList.update ''asInt'' (JString (show_int i)) (point_base fl p)
             | None \<Rightarrow> AList.update ''asDouble'' (JNumber (Float number)) (point_base fl p))))"

definition points_number :: "f64_lib \<Rightarrow> cp_metric \<Rightarrow> json list \<times> nat" where
  "points_number fl m =
     foldl (keep_or_count (number_point fl (de_value_type (cm_descriptor m) = Some JS_INT))) ([], 0)
       (cm_data_points m)"

definition insert_float :: "string \<Rightarrow> string option \<Rightarrow> json_object \<Rightarrow> json_object" where
  "insert_float key d obj = (case d of Some t \<Rightarrow> AList.update key (JNumber (Float t)) obj | None \<Rightarrow> obj)"

definition histogram_point :: "f64_lib \<Rightarrow> data_point \<Rightarrow> json option" where
  "histogram_point fl p =
     (case de_histogram_value fl (dp_value p) of
        None \<Rightarrow> None
      | Some v \<Rightarrow>
          (if length (bk_counts (hv_buckets v)) \<noteq> length (bk_boundaries (hv_buckets v)) + 1 then None
           else Some (JObject
             (AList.update ''explicitBounds'' (JArray (map (\<lambda>t. JNumber (Float t)) (bk_boundaries (hv_buckets v))))
             (AList.update ''bucketCounts'' (JArray (map (\<lambda>n. JString (show_nat n)) (bk_counts (hv_buckets v))))
             (insert_float ''max'' (hv_max v) (insert_float ''min'' (hv_min v) (insert_float ''sum'' (hv_sum v)
             (AList.update ''count'' (JString (show_nat (case hv_count v of Some n \<Rightarrow> n | None \<Rightarrow> 0)))
               (point_base fl p))))))))))"

definition points_histogram :: "f64_lib \<Rightarrow> cp_metric \<Rightarrow> json list \<times> nat" where
  "points_histogram fl m = foldl (keep_or_count (histogram_point fl)) ([], 0) (cm_data_points m)"

section \<open>Metrics\<close>

definition JS_HISTOGRAM :: int where "JS_HISTOGRAM = 0"
definition JS_GAUGE :: int where "JS_GAUGE = 2"
definition JS_SUM :: int where "JS_SUM = 3"

definition JS_DELTA :: int where "JS_DELTA = 0"
definition JS_CUMULATIVE :: int where "JS_CUMULATIVE = 1"

definition OTLP_UNSPECIFIED :: nat where "OTLP_UNSPECIFIED = 0"
definition OTLP_DELTA :: nat where "OTLP_DELTA = 1"
definition OTLP_CUMULATIVE :: nat where "OTLP_CUMULATIVE = 2"

definition temporality :: "int option \<Rightarrow> nat" where
  "temporality js =
     (if js = Some JS_DELTA then OTLP_DELTA
      else if js = Some JS_CUMULATIVE then OTLP_CUMULATIVE else OTLP_UNSPECIFIED)"

datatype translated = T_Metric json nat | T_NoPoints nat | T_Unsupported

definition metric_data :: "f64_lib \<Rightarrow> cp_metric \<Rightarrow> (string \<times> json \<times> nat \<times> nat) option" where
  "metric_data fl m =
     (let t = (''aggregationTemporality'', JNumber (PosInt (temporality (cm_aggregation_temporality m))))
      in case cm_data_point_type m of
           None \<Rightarrow> None
         | Some kind \<Rightarrow>
             (if kind = JS_HISTOGRAM then
                let (ps, dropped) = points_histogram fl m
                in Some (''histogram'', JObject [(''dataPoints'', JArray ps), t], dropped, length ps)
              else if kind = JS_GAUGE then
                let (ps, dropped) = points_number fl m
                in Some (''gauge'', JObject [(''dataPoints'', JArray ps)], dropped, length ps)
              else if kind = JS_SUM then
                let (ps, dropped) = points_number fl m
                in Some (''sum'',
                     JObject [(''dataPoints'', JArray ps), t,
                              (''isMonotonic'', JBool (cm_is_monotonic m = Some True))], dropped, length ps)
              else None))"

definition metric_translate :: "f64_lib \<Rightarrow> cp_metric \<Rightarrow> translated" where
  "metric_translate fl m =
     (case metric_data fl m of
        None \<Rightarrow> T_Unsupported
      | Some (field, data, dropped, kept) \<Rightarrow>
          (if kept = 0 then T_NoPoints dropped
           else T_Metric
             (JObject [(''name'', JString (de_name (cm_descriptor m))),
                       (''description'', JString (de_description (cm_descriptor m))),
                       (''unit'', JString (de_unit (cm_descriptor m))), (field, data)]) dropped))"

record skipped =
  sk_unsupported :: nat
  sk_points :: nat

definition translate_one :: "f64_lib \<Rightarrow> json list \<times> skipped \<Rightarrow> cp_metric \<Rightarrow> json list \<times> skipped" where
  "translate_one fl acc m =
     (case metric_translate fl m of
        T_Metric v dropped \<Rightarrow> (fst acc @ [v], (snd acc)\<lparr>sk_points := sat_add (sk_points (snd acc)) dropped\<rparr>)
      | T_NoPoints dropped \<Rightarrow> (fst acc, (snd acc)\<lparr>sk_points := sat_add (sk_points (snd acc)) dropped\<rparr>)
      | T_Unsupported \<Rightarrow> (fst acc, (snd acc)\<lparr>sk_unsupported := sat_add (sk_unsupported (snd acc)) 1\<rparr>))"

definition transform_scope ::
  "f64_lib \<Rightarrow> json \<Rightarrow> grouped list \<times> skipped \<Rightarrow> cp_scope_metrics \<Rightarrow> grouped list \<times> skipped" where
  "transform_scope fl r acc sm =
     (let (metrics, sk) = foldl (translate_one fl) ([], snd acc) (sm_metrics sm)
      in (fst acc @ [(r, otlp_scope (sm_scope sm), metrics)], sk))"

definition metrics_transform :: "f64_lib \<Rightarrow> metrics_record \<Rightarrow> grouped list \<times> skipped" where
  "metrics_transform fl rec =
     foldl (transform_scope fl (otlp_resource fl (mr_resource rec)))
       ([], \<lparr>sk_unsupported = 0, sk_points = 0\<rparr>) (mr_scope_metrics rec)"

section \<open>Log records\<close>

definition logs_transform :: "f64_lib \<Rightarrow> cp_log_record \<Rightarrow> grouped" where
  "logs_transform fl rec =
     (let obj1 = insert_time ''observedTimeUnixNano'' (lr_hr_time_observed rec)
                   (insert_time ''timeUnixNano'' (lr_hr_time rec) []);
          obj2 = (case lr_body rec of Some body \<Rightarrow> AList.update ''body'' (any_value fl body) obj1 | None \<Rightarrow> obj1);
          obj3 = AList.update ''attributes'' (JArray (otlp_attributes fl (lr_attributes rec))) obj2;
          obj4 = (case lr_span_context rec of
                    None \<Rightarrow> obj3
                  | Some sx \<Rightarrow>
                      (let t = (case sx_trace_id sx of Some i \<Rightarrow> AList.update ''traceId'' (JString i) obj3 | None \<Rightarrow> obj3);
                           s = (case sx_span_id sx of Some i \<Rightarrow> AList.update ''spanId'' (JString i) t | None \<Rightarrow> t)
                       in case sx_trace_flags sx of
                            Some f \<Rightarrow> AList.update ''flags'' (JNumber (PosInt f)) s | None \<Rightarrow> s))
      in (otlp_resource fl (lr_resource rec), otlp_scope (lr_instrumentation_scope rec), [JObject obj4]))"

section \<open>The batch\<close>

text \<open>Parsing a line and hashing it are parameters.\<close>

record cp_lib =
  cl_f64 :: f64_lib
  cl_doc :: json_codec
  cl_sha :: "string \<Rightarrow> string"

record counts =
  ct_metrics :: nat
  ct_logs :: nat
  ct_unparsable :: nat
  ct_unknown :: nat
  ct_empty :: nat
  ct_unsupported_metrics :: nat
  ct_dropped_points :: nat
  ct_rejected :: nat

definition counts_default :: counts where
  "counts_default =
     \<lparr>ct_metrics = 0, ct_logs = 0, ct_unparsable = 0, ct_unknown = 0, ct_empty = 0,
      ct_unsupported_metrics = 0, ct_dropped_points = 0, ct_rejected = 0\<rparr>"

definition counts_discarded :: "counts \<Rightarrow> nat" where
  "counts_discarded c =
     sat_add (sat_add (sat_add (sat_add (ct_unparsable c) (ct_unknown c)) (ct_unsupported_metrics c))
       (ct_dropped_points c)) (ct_rejected c)"

definition counts_describe :: "counts \<Rightarrow> string" where
  "counts_describe c =
     show_nat (ct_metrics c) @ '' metric record(s), '' @ show_nat (ct_logs c) @ '' log record(s); '' @
     show_nat (ct_empty c) @ '' empty; discarded '' @ show_nat (counts_discarded c) @ '' ('' @
     show_nat (ct_unparsable c) @ '' unparsable, '' @ show_nat (ct_unknown c) @ '' unrecognised, '' @
     show_nat (ct_unsupported_metrics c) @ '' unsupported metric(s), '' @ show_nat (ct_dropped_points c) @
     '' bad data point(s))''"

record batch_acc =
  ba_counts :: counts
  ba_metric_groups :: "grouped list"
  ba_log_groups :: "grouped list"

definition declares_metrics :: "metrics_record \<Rightarrow> bool" where
  "declares_metrics rec \<longleftrightarrow> (\<exists>sm \<in> set (mr_scope_metrics rec). sm_metrics sm \<noteq> [])"

definition produces :: "grouped list \<Rightarrow> bool" where
  "produces groups \<longleftrightarrow> (\<exists>g \<in> set groups. snd (snd g) \<noteq> [])"

definition count_unknown :: "batch_acc \<Rightarrow> batch_acc" where
  "count_unknown acc = acc\<lparr>ba_counts := (ba_counts acc)\<lparr>ct_unknown := sat_add (ct_unknown (ba_counts acc)) 1\<rparr>\<rparr>"

definition build_metrics :: "cp_lib \<Rightarrow> batch_acc \<Rightarrow> metrics_record \<Rightarrow> batch_acc" where
  "build_metrics lib acc parsed =
     (let (groups, sk) = metrics_transform (cl_f64 lib) parsed;
          c = ba_counts acc;
          c1 = c\<lparr>ct_unsupported_metrics := sat_add (ct_unsupported_metrics c) (sk_unsupported sk),
                 ct_dropped_points := sat_add (ct_dropped_points c) (sk_points sk)\<rparr>;
          c2 = (if produces groups then c1\<lparr>ct_metrics := sat_add (ct_metrics c1) 1\<rparr>
                else if declares_metrics parsed \<and> sk_unsupported sk = 0 \<and> sk_points sk = 0
                then c1\<lparr>ct_unknown := sat_add (ct_unknown c1) 1\<rparr> else c1)
      in acc\<lparr>ba_counts := c2, ba_metric_groups := ba_metric_groups acc @ groups\<rparr>)"

definition build_line :: "cp_lib \<Rightarrow> batch_acc \<Rightarrow> string \<Rightarrow> batch_acc" where
  "build_line lib acc line =
     (case from_str (cl_doc lib) line of
        Inl _ \<Rightarrow> acc\<lparr>ba_counts := (ba_counts acc)\<lparr>ct_unparsable := sat_add (ct_unparsable (ba_counts acc)) 1\<rparr>\<rparr>
      | Inr v \<Rightarrow>
          (case classify v of
             Kind_Metrics \<Rightarrow>
               (case de_metrics_record v of
                  Some parsed \<Rightarrow> build_metrics lib acc parsed
                | None \<Rightarrow> count_unknown acc)
           | Kind_Log \<Rightarrow>
               (case de_log_record v of
                  Some parsed \<Rightarrow>
                    acc\<lparr>ba_counts := (ba_counts acc)\<lparr>ct_logs := sat_add (ct_logs (ba_counts acc)) 1\<rparr>,
                        ba_log_groups := ba_log_groups acc @ [logs_transform (cl_f64 lib) parsed]\<rparr>
                | None \<Rightarrow> count_unknown acc)
           | Kind_Empty \<Rightarrow> acc\<lparr>ba_counts := (ba_counts acc)\<lparr>ct_empty := sat_add (ct_empty (ba_counts acc)) 1\<rparr>\<rparr>
           | Kind_Unknown \<Rightarrow> count_unknown acc))"

definition payload :: "grouped list \<Rightarrow> string \<Rightarrow> string \<Rightarrow> string \<Rightarrow> json option" where
  "payload groups scope_field item_field resource_field =
     (let g = group groups scope_field item_field
      in if g = [] then None else Some (JObject [(resource_field, JArray g)]))"

record batch =
  bt_metrics :: "json option"
  bt_logs :: "json option"
  bt_counts :: counts

definition batch_build :: "cp_lib \<Rightarrow> string list \<Rightarrow> batch" where
  "batch_build lib lines =
     (let acc = foldl (build_line lib)
                  \<lparr>ba_counts = counts_default, ba_metric_groups = [], ba_log_groups = []\<rparr> lines
      in \<lparr>bt_metrics = payload (ba_metric_groups acc) ''scopeMetrics'' ''metrics'' ''resourceMetrics'',
          bt_logs = payload (ba_log_groups acc) ''scopeLogs'' ''logRecords'' ''resourceLogs'',
          bt_counts = ba_counts acc\<rparr>)"

datatype cp_signal = Sig_Metrics | Sig_Logs

definition batch_signal :: "batch \<Rightarrow> cp_signal \<Rightarrow> json option \<times> nat" where
  "batch_signal b sig =
     (case sig of
        Sig_Metrics \<Rightarrow> (bt_metrics b, ct_metrics (bt_counts b))
      | Sig_Logs \<Rightarrow> (bt_logs b, ct_logs (bt_counts b)))"

section \<open>A batch is the sum of its lines\<close>

lemma keep_or_count_fold:
  "n \<le> U64_MAX \<Longrightarrow>
     foldl (keep_or_count f) (acc, n) ps =
       (acc @ List.map_filter f ps, min (n + length (filter (\<lambda>p. f p = None) ps)) U64_MAX)"
proof (induction ps arbitrary: acc n)
  case (Cons p ps)
  show ?case
  proof (cases "f p")
    case None
    have "min (sat_add n 1 + k) U64_MAX = min (Suc (n + k)) U64_MAX" for k
      by (simp add: sat_add_def min_def)
    with None Cons.IH [of "sat_add n 1" acc] show ?thesis
      by (simp add: keep_or_count_def List.map_filter_simps)
  next
    case (Some v)
    with Cons show ?thesis by (simp add: keep_or_count_def List.map_filter_simps)
  qed
qed (simp add: List.map_filter_simps)

definition counts_ok :: "counts \<Rightarrow> bool" where
  "counts_ok c \<longleftrightarrow>
     ct_metrics c \<le> U64_MAX \<and> ct_logs c \<le> U64_MAX \<and> ct_unparsable c \<le> U64_MAX \<and> ct_unknown c \<le> U64_MAX \<and>
     ct_empty c \<le> U64_MAX \<and> ct_unsupported_metrics c \<le> U64_MAX \<and> ct_dropped_points c \<le> U64_MAX \<and>
     ct_rejected c \<le> U64_MAX"

definition counts_add :: "counts \<Rightarrow> counts \<Rightarrow> counts" where
  "counts_add c d =
     \<lparr>ct_metrics = sat_add (ct_metrics c) (ct_metrics d), ct_logs = sat_add (ct_logs c) (ct_logs d),
      ct_unparsable = sat_add (ct_unparsable c) (ct_unparsable d),
      ct_unknown = sat_add (ct_unknown c) (ct_unknown d), ct_empty = sat_add (ct_empty c) (ct_empty d),
      ct_unsupported_metrics = sat_add (ct_unsupported_metrics c) (ct_unsupported_metrics d),
      ct_dropped_points = sat_add (ct_dropped_points c) (ct_dropped_points d),
      ct_rejected = sat_add (ct_rejected c) (ct_rejected d)\<rparr>"

definition acc_add :: "batch_acc \<Rightarrow> batch_acc \<Rightarrow> batch_acc" where
  "acc_add a c =
     \<lparr>ba_counts = counts_add (ba_counts a) (ba_counts c),
      ba_metric_groups = ba_metric_groups a @ ba_metric_groups c,
      ba_log_groups = ba_log_groups a @ ba_log_groups c\<rparr>"

abbreviation acc_empty :: batch_acc where
  "acc_empty \<equiv> \<lparr>ba_counts = counts_default, ba_metric_groups = [], ba_log_groups = []\<rparr>"

lemma counts_ok_default [simp]: "counts_ok counts_default"
  by (simp add: counts_ok_def counts_default_def)

lemma counts_ok_add [simp]: "counts_ok (counts_add c d)"
  by (simp add: counts_ok_def counts_add_def)

lemma counts_add_assoc: "counts_add (counts_add c d) e = counts_add c (counts_add d e)"
  by (simp add: counts_add_def sat_add_assoc)

lemma acc_add_assoc: "acc_add (acc_add a c) d = acc_add a (acc_add c d)"
  by (simp add: acc_add_def counts_add_assoc)

lemma acc_add_empty: "counts_ok (ba_counts a) \<Longrightarrow> acc_add a acc_empty = a" "counts_ok (ba_counts a) \<Longrightarrow> acc_add acc_empty a = a"
  by (simp_all add: acc_add_def counts_add_def counts_default_def counts_ok_def sat_add_0)

lemma sat_add_0_1 [simp]: "sat_add 0 (Suc 0) = Suc 0" "sat_add 0 0 = 0"
  by (simp_all add: sat_add_def U64_MAX_def)

lemma sat_add_sat_0: "sat_add a (sat_add 0 c) = sat_add a c"
  by (simp add: sat_add_def min_def)

lemma build_line_split:
  assumes "counts_ok (ba_counts acc)"
  shows "build_line lib acc l = acc_add acc (build_line lib acc_empty l)"
  using assms
  by (auto simp: build_line_def build_metrics_def count_unknown_def acc_add_def counts_add_def
      counts_default_def counts_ok_def sat_add_0 sat_add_sat_0 Let_def
      split: sum.splits line_kind.splits option.splits prod.splits)

lemma counts_ok_build_line: "counts_ok (ba_counts acc) \<Longrightarrow> counts_ok (ba_counts (build_line lib acc l))"
  by (subst build_line_split) (simp_all add: acc_add_def)

lemma build_lines_split:
  "counts_ok (ba_counts acc) \<Longrightarrow>
     foldl (build_line lib) acc ls = acc_add acc (foldl (build_line lib) acc_empty ls)"
proof (induction ls arbitrary: acc)
  case (Cons l ls)
  have "foldl (build_line lib) (build_line lib acc l) ls =
      acc_add (build_line lib acc l) (foldl (build_line lib) acc_empty ls)"
    by (rule Cons.IH) (simp add: Cons.prems counts_ok_build_line)
  also have "\<dots> = acc_add acc (acc_add (build_line lib acc_empty l) (foldl (build_line lib) acc_empty ls))"
    using Cons.prems by (subst build_line_split) (simp_all add: acc_add_assoc)
  also have "acc_add (build_line lib acc_empty l) (foldl (build_line lib) acc_empty ls) =
      foldl (build_line lib) acc_empty (l # ls)"
    using Cons.IH [of "build_line lib acc_empty l"] by (simp add: counts_ok_build_line)
  finally show ?case by simp
qed (simp add: acc_add_empty)

definition line_acc :: "cp_lib \<Rightarrow> string \<Rightarrow> batch_acc" where
  "line_acc lib l = build_line lib acc_empty l"

lemma build_lines_Cons:
  "foldl (build_line lib) acc_empty (l # ls) = acc_add (line_acc lib l) (foldl (build_line lib) acc_empty ls)"
  by (simp add: line_acc_def build_lines_split [of "build_line lib acc_empty l"] counts_ok_build_line)

lemma counts_discarded_add:
  "counts_discarded (counts_add c d) = sat_add (counts_discarded c) (counts_discarded d)"
  by (simp add: counts_discarded_def counts_add_def sat_add_ac)

definition line_discarded :: "cp_lib \<Rightarrow> string \<Rightarrow> nat" where
  "line_discarded lib l = counts_discarded (bt_counts (batch_build lib [l]))"

lemma line_discarded_acc: "line_discarded lib l = counts_discarded (ba_counts (line_acc lib l))"
  by (simp add: line_discarded_def batch_build_def line_acc_def Let_def)

lemma discarded_sum:
  "counts_discarded (bt_counts (batch_build lib ls)) = min (sum_list (map (line_discarded lib) ls)) U64_MAX"
proof (induction ls)
  case Nil
  show ?case by (simp add: batch_build_def counts_discarded_def counts_default_def)
next
  case (Cons l ls)
  have "counts_discarded (bt_counts (batch_build lib (l # ls))) =
      sat_add (line_discarded lib l) (counts_discarded (bt_counts (batch_build lib ls)))"
    unfolding batch_build_def Let_def build_lines_Cons
    by (simp add: acc_add_def counts_discarded_add line_discarded_acc)
  with Cons show ?case by (simp add: sat_add_def min_def)
qed

lemma batch_groups:
  "ba_metric_groups (foldl (build_line lib) acc_empty ls) = concat (map (\<lambda>l. ba_metric_groups (line_acc lib l)) ls)"
  "ba_log_groups (foldl (build_line lib) acc_empty ls) = concat (map (\<lambda>l. ba_log_groups (line_acc lib l)) ls)"
  by (induction ls) (simp_all add: build_lines_Cons acc_add_def del: foldl_Cons)

lemma payload_None_iff: "payload gs f g h = None \<longleftrightarrow> \<not> produces gs"
  by (auto simp: payload_def Let_def group_Nil_iff produces_def)

text \<open>Whether a line carries anything of a signal.\<close>

definition line_carries :: "cp_lib \<Rightarrow> cp_signal \<Rightarrow> string \<Rightarrow> bool" where
  "line_carries lib sig l \<longleftrightarrow> fst (batch_signal (batch_build lib [l]) sig) \<noteq> None"

lemma line_carries_acc:
  "line_carries lib Sig_Metrics l \<longleftrightarrow> produces (ba_metric_groups (line_acc lib l))"
  "line_carries lib Sig_Logs l \<longleftrightarrow> produces (ba_log_groups (line_acc lib l))"
  by (simp_all add: line_carries_def batch_signal_def batch_build_def line_acc_def Let_def payload_None_iff)

lemma produces_concat: "produces (concat gss) \<longleftrightarrow> (\<exists>gs \<in> set gss. produces gs)"
  by (auto simp: produces_def)

lemma batch_carries:
  "fst (batch_signal (batch_build lib ls) sig) \<noteq> None \<longleftrightarrow> (\<exists>l \<in> set ls. line_carries lib sig l)"
  by (cases sig)
    (auto simp: batch_signal_def batch_build_def Let_def payload_None_iff batch_groups produces_concat
      line_carries_acc)

lemma line_record_count:
  "ct_metrics (ba_counts (line_acc lib l)) = (if line_carries lib Sig_Metrics l then 1 else 0)"
  "ct_logs (ba_counts (line_acc lib l)) = (if line_carries lib Sig_Logs l then 1 else 0)"
  by (auto simp: line_carries_acc line_acc_def build_line_def build_metrics_def count_unknown_def
      counts_default_def logs_transform_def Let_def produces_def
      split: sum.splits line_kind.splits option.splits prod.splits)

text \<open>The number of records a batch reports for a signal is the number of its lines that carry it.\<close>

lemma batch_record_count:
  "snd (batch_signal (batch_build lib ls) sig) = min (length (filter (line_carries lib sig) ls)) U64_MAX"
proof (induction ls)
  case Nil
  show ?case by (cases sig) (simp_all add: batch_signal_def batch_build_def counts_default_def)
next
  case (Cons l ls)
  have "snd (batch_signal (batch_build lib (l # ls)) sig) =
      sat_add (if line_carries lib sig l then 1 else 0) (snd (batch_signal (batch_build lib ls) sig))"
    unfolding batch_build_def Let_def build_lines_Cons
    by (cases sig) (simp_all add: batch_signal_def acc_add_def counts_add_def line_record_count)
  with Cons show ?case by (simp add: sat_add_def min_def)
qed

section \<open>What becomes of a line\<close>

lemma transform_undeclared:
  assumes "\<not> declares_metrics rec"
  shows "\<not> produces (fst (metrics_transform fl rec)) \<and> snd (metrics_transform fl rec) = \<lparr>sk_unsupported = 0, sk_points = 0\<rparr>"
proof -
  have "\<forall>sm \<in> set sms. sm_metrics sm = [] \<Longrightarrow> \<not> produces (fst acc) \<Longrightarrow>
      \<not> produces (fst (foldl (transform_scope fl r) acc sms)) \<and> snd (foldl (transform_scope fl r) acc sms) = snd acc"
    for acc sms r
  proof (induction sms arbitrary: acc)
    case (Cons sm sms)
    let ?acc = "(fst acc @ [(r, otlp_scope (sm_scope sm), [])], snd acc)"
    from Cons.prems have "transform_scope fl r acc sm = ?acc" "\<not> produces (fst ?acc)"
      by (auto simp: transform_scope_def produces_def)
    with Cons.IH [of ?acc] Cons.prems show ?case by simp
  qed simp
  from this [of "mr_scope_metrics rec" "([], \<lparr>sk_unsupported = 0, sk_points = 0\<rparr>)"] assms show ?thesis
    by (simp add: metrics_transform_def declares_metrics_def produces_def)
qed

text \<open>A line that is neither sent nor counted holds nothing: it is \<open>{}\<close>, or it declares no metric.\<close>

lemma quiet_line_iff:
  "\<not> line_carries lib Sig_Metrics l \<and> \<not> line_carries lib Sig_Logs l \<and> line_discarded lib l = 0 \<longleftrightarrow>
     (\<exists>v. from_str (cl_doc lib) l = Inr v \<and>
        (classify v = Kind_Empty \<or>
         classify v = Kind_Metrics \<and> (\<exists>r. de_metrics_record v = Some r \<and> \<not> declares_metrics r)))"
  (is "?quiet = ?idle")
proof
  assume ?quiet
  then show ?idle
    by (auto simp: line_carries_acc line_discarded_acc line_acc_def build_line_def build_metrics_def
        count_unknown_def counts_discarded_def counts_default_def logs_transform_def Let_def produces_def
        split: sum.splits line_kind.splits option.splits prod.splits if_splits)
next
  assume ?idle
  then show ?quiet
  proof (elim exE conjE disjE)
    fix v r assume "from_str (cl_doc lib) l = Inr v" "classify v = Kind_Metrics"
      "de_metrics_record v = Some r" "\<not> declares_metrics r"
    then show ?quiet
      using transform_undeclared [of r "cl_f64 lib"]
      by (cases "metrics_transform (cl_f64 lib) r")
        (auto simp: line_carries_acc line_discarded_acc line_acc_def build_line_def build_metrics_def
          counts_discarded_def counts_default_def produces_def Let_def)
  qed (auto simp: line_carries_acc line_discarded_acc line_acc_def build_line_def
      counts_discarded_def counts_default_def produces_def)
qed

section \<open>What becomes of a data point\<close>

lemma map_filter_length:
  "length (List.map_filter f xs) + length (filter (\<lambda>x. f x = None) xs) = length xs"
  by (induction xs) (auto simp: List.map_filter_simps split: option.splits)

lemma points_accounted:
  "foldl (keep_or_count f) ([], 0) ps = (List.map_filter f ps, min (length ps - length (List.map_filter f ps)) U64_MAX)"
  using map_filter_length [of f ps] by (simp add: keep_or_count_fold)

lemma map_filter_in: "y \<in> set (List.map_filter f xs) \<longleftrightarrow> (\<exists>x \<in> set xs. f x = Some y)"
  by (induction xs) (auto simp: List.map_filter_simps split: option.splits)

lemma histogram_point_buckets:
  assumes "histogram_point fl p = Some j"
  shows "\<exists>cs bs. json_get ''bucketCounts'' j = Some (JArray cs) \<and>
     json_get ''explicitBounds'' j = Some (JArray bs) \<and> length cs = length bs + 1"
  using assms
  by (auto simp: histogram_point_def update_conv' split: option.splits if_splits)

text \<open>A line whose body is \<open>null\<close> is sent as a log record without a body and not counted.\<close>

lemma null_body_decoded:
  assumes "from_str (cl_doc lib) l = Inr (JObject es)" "map_of es ''_body'' = Some JNull"
    and "map_of es ''scopeMetrics'' = None" "de_log_record (JObject es) = Some rec"
  shows "lr_body rec = None \<and> line_carries lib Sig_Logs l \<and> line_discarded lib l = 0 \<and>
     ba_log_groups (line_acc lib l) = [logs_transform (cl_f64 lib) rec]"
proof -
  from assms(4) have "field_option Some (False, \<lambda>i. map_of es
      ([''_body'', ''attributes'', ''hrTime'', ''hrTimeObserved'', ''instrumentationScope'', ''resource'', ''spanContext''] ! i)) 0
      = Some (lr_body rec)"
    by (auto simp: de_log_record_def de_struct_def bind_eq_Some_conv)
  with assms(2) have body: "lr_body rec = None"
    by (simp add: field_option_def de_option_def)
  from assms have "classify (JObject es) = Kind_Log"
    by (cases es) (auto simp: classify_def)
  with assms(1,4) body show ?thesis
    by (simp add: line_carries_acc line_discarded_acc line_acc_def build_line_def counts_discarded_def
        counts_default_def produces_def logs_transform_def Let_def)
qed

lemma bodyless_record:
  assumes "lr_body rec = None"
  shows "\<exists>r s obj. logs_transform fl rec = (r, s, [JObject obj]) \<and> map_of obj ''body'' = None"
  using assms
  by (auto simp: logs_transform_def Let_def insert_time_def update_conv' split: option.splits)

end
