(* ===== verification/Copilot_Journal.thy ===== *)
theory Copilot_Journal
  imports Copilot_Batch
begin

text \<open>
  How far the Copilot drain got: the checkpoint (\<open>copilot/checkpoint.rs\<close>), the state file it lives in
  (\<open>durable_state/mod.rs\<close>), and the journal that makes the progress of a wake durable while it happens
  (\<open>copilot/journal.rs\<close>). The journal promises its client, the pass over a signal, the interface
  \<open>recorder\<close>: a recorded advance is on disk when the call returns.

  The world outside is the record \<open>cp_outside\<close>, a function of the number of interactions so far: what
  the collector answers, what the clock reads, which file calls succeed, and what the editor did to
  the spool since the last file call. The log records what the drain did.
\<close>

section \<open>The checkpoint\<close>

record cp_checkpoint =
  cc_offset :: nat
  cc_spool :: "identity option"
  cc_metrics_offset :: "nat option"
  cc_logs_offset :: "nat option"
  cc_last_push_unix :: "nat option"
  cc_last_push_records :: nat
  cc_discarded_total :: nat
  cc_last_discard_unix :: "nat option"
  cc_held_since_unix :: "nat option"
  cc_quarantine :: quarantine

definition cc_default :: cp_checkpoint where
  "cc_default =
     \<lparr>cc_offset = 0, cc_spool = None, cc_metrics_offset = None, cc_logs_offset = None,
      cc_last_push_unix = None, cc_last_push_records = 0, cc_discarded_total = 0,
      cc_last_discard_unix = None, cc_held_since_unix = None, cc_quarantine = []\<rparr>"

definition signal_offset :: "cp_checkpoint \<Rightarrow> cp_signal \<Rightarrow> nat" where
  "signal_offset c sig =
     (case (case sig of Sig_Metrics \<Rightarrow> cc_metrics_offset c | Sig_Logs \<Rightarrow> cc_logs_offset c) of
        Some n \<Rightarrow> n | None \<Rightarrow> cc_offset c)"

definition cc_advance :: "cp_signal \<Rightarrow> nat \<Rightarrow> cp_checkpoint \<Rightarrow> cp_checkpoint" where
  "cc_advance sig reached c =
     (let c1 = (case sig of
                  Sig_Metrics \<Rightarrow> c\<lparr>cc_metrics_offset := Some reached\<rparr>
                | Sig_Logs \<Rightarrow> c\<lparr>cc_logs_offset := Some reached\<rparr>)
      in c1\<lparr>cc_offset := min (signal_offset c1 Sig_Metrics) (signal_offset c1 Sig_Logs)\<rparr>)"

definition cc_restart :: "cp_checkpoint \<Rightarrow> cp_checkpoint" where
  "cc_restart c = c\<lparr>cc_offset := 0, cc_metrics_offset := Some 0, cc_logs_offset := Some 0\<rparr>"

definition record_discards :: "nat option \<Rightarrow> nat \<Rightarrow> cp_checkpoint \<Rightarrow> cp_checkpoint \<times> (spool_error + unit)" where
  "record_discards clock n c =
     (if n = 0 then (c, Inr ())
      else let c1 = c\<lparr>cc_discarded_total := sat_add (cc_discarded_total c) n\<rparr>
           in case clock of
                None \<Rightarrow> (c1, Inl Clock_failed)
              | Some now \<Rightarrow> (c1\<lparr>cc_last_discard_unix := Some now\<rparr>, Inr ()))"

section \<open>The world\<close>

datatype stored = Absent | Unparsable | Stored cp_checkpoint

record cp_request =
  cq_url :: string
  cq_bearer :: string
  cq_payload :: json

text \<open>A posted request carries the offsets of the lines it was built from.\<close>

datatype cp_event =
    Ev_Posted cp_signal cp_request "nat list" "nat option"
  | Ev_Stored cp_checkpoint
  | Ev_Gave_up cp_signal nat
  | Ev_Truncated nat

record cp_outside =
  co_send :: "nat \<Rightarrow> cp_request \<Rightarrow> nat option"
  co_clock :: "nat \<Rightarrow> nat option"
  co_io :: "nat \<Rightarrow> io"
  co_writer :: "nat \<Rightarrow> disk_file option \<Rightarrow> disk_file option"

record cp_state =
  cs_file :: "disk_file option"
  cs_stored :: stored
  cs_now :: nat
  cs_log :: "cp_event list"

definition cs_tick :: "cp_state \<Rightarrow> cp_state" where
  "cs_tick s = s\<lparr>cs_now := Suc (cs_now s)\<rparr>"

definition cs_logged :: "cp_event list \<Rightarrow> cp_state \<Rightarrow> cp_state" where
  "cs_logged es s = s\<lparr>cs_log := cs_log s @ es\<rparr>"

section \<open>The state file\<close>

datatype cp_error = CE_spool spool_error | CE_unparsable | CE_no_collector | CE_no_state_dir | CE_no_session | CE_locked | CE_failures nat

definition durable_load :: "io \<Rightarrow> stored \<Rightarrow> cp_error + cp_checkpoint" where
  "durable_load io st =
     (if \<not> io IO_read then Inl (CE_spool (Io_failed IO_read))
      else case st of Absent \<Rightarrow> Inr cc_default | Unparsable \<Rightarrow> Inl CE_unparsable | Stored c \<Rightarrow> Inr c)"

text \<open>\<open>IO_tmp_write\<close> is the creation of the directory and the write of the temporary file. A failed sync of
  the directory is reported after the rename has replaced the file.\<close>

definition durable_store :: "cp_outside \<Rightarrow> cp_checkpoint \<Rightarrow> cp_state \<Rightarrow> cp_state \<times> (spool_error + unit)" where
  "durable_store out c s =
     (let io = co_io out (cs_now s); s1 = cs_tick s
      in if \<not> io IO_tmp_write then (s1, Inl (Io_failed IO_tmp_write))
         else if \<not> io IO_rename then (s1, Inl (Io_failed IO_rename))
         else let s2 = cs_logged [Ev_Stored c] (s1\<lparr>cs_stored := Stored c\<rparr>)
              in if \<not> io IO_sync_dir then (s2, Inl (Io_failed IO_sync_dir)) else (s2, Inr ()))"

section \<open>The journal\<close>

record journal =
  jr_lines :: "tail_line list"
  jr_state :: cp_checkpoint
  jr_stored :: cp_checkpoint
  jr_identity :: "identity option"
  jr_charged :: nat
  jr_lost :: nat
  jr_writes :: nat

definition journal_new :: "tail_line list \<Rightarrow> cp_checkpoint \<Rightarrow> identity option \<Rightarrow> bool \<Rightarrow> journal" where
  "journal_new lines c ident rst =
     \<lparr>jr_lines = lines, jr_state = (if rst then cc_restart c else c), jr_stored = c, jr_identity = ident,
      jr_charged = 0, jr_lost = 0, jr_writes = 0\<rparr>"

definition journal_commit :: "cp_outside \<Rightarrow> journal \<Rightarrow> cp_state \<Rightarrow> (journal \<times> cp_state) \<times> (spool_error + unit)" where
  "journal_commit out j s =
     (if jr_state j = jr_stored j then ((j, s), Inr ())
      else let j1 = j\<lparr>jr_state := (jr_state j)\<lparr>cc_spool := jr_identity j\<rparr>\<rparr>
           in case durable_store out (jr_state j1) s of
                (s1, Inl e) \<Rightarrow> ((j1, s1), Inl e)
              | (s1, Inr _) \<Rightarrow>
                  ((j1\<lparr>jr_stored := jr_state j1, jr_writes := sat_add (jr_writes j1) 1\<rparr>, s1), Inr ()))"

definition transform_loss :: "cp_lib \<Rightarrow> journal \<Rightarrow> journal \<times> nat" where
  "transform_loss lib j =
     (let through = cc_offset (jr_state j);
          start = jr_charged j;
          stop_at = start + length (takeWhile (\<lambda>l. tl_offset l < through) (drop start (jr_lines j)))
      in (j\<lparr>jr_charged := stop_at\<rparr>,
          counts_discarded (bt_counts (batch_build lib (map tl_text (take (stop_at - start) (drop start (jr_lines j))))))))"

definition journal_advance ::
  "cp_outside \<Rightarrow> cp_lib \<Rightarrow> cp_signal \<Rightarrow> nat \<Rightarrow> nat \<Rightarrow> journal \<times> cp_state \<Rightarrow> (journal \<times> cp_state) \<times> (spool_error + unit)" where
  "journal_advance out lib sig reached n js =
     (case js of (j, s) \<Rightarrow>
       (let j1 = (if reached > signal_offset (jr_state j) sig
                  then j\<lparr>jr_state := cc_advance sig reached (jr_state j)\<rparr> else j);
            (j2, loss) = transform_loss lib j1;
            lost = sat_add n loss;
            (c, r) = record_discards (co_clock out (cs_now s)) lost (jr_state j2);
            j3 = j2\<lparr>jr_state := c\<rparr>;
            s1 = cs_tick s
        in case r of
             Inl e \<Rightarrow> ((j3, s1), Inl e)
           | Inr _ \<Rightarrow> journal_commit out (j3\<lparr>jr_lost := sat_add (jr_lost j3) lost\<rparr>) s1))"

definition journal_finished :: "nat \<Rightarrow> bool \<Rightarrow> nat \<Rightarrow> journal \<Rightarrow> journal" where
  "journal_finished records stalled now j =
     (let c = jr_state j;
          c1 = (if records > 0 then c\<lparr>cc_last_push_records := records, cc_last_push_unix := Some now\<rparr> else c);
          c2 = (if stalled
                then c1\<lparr>cc_held_since_unix := Some (case cc_held_since_unix c1 of Some t \<Rightarrow> t | None \<Rightarrow> now)\<rparr>
                else c1\<lparr>cc_held_since_unix := None\<rparr>)
      in j\<lparr>jr_state := c2\<rparr>)"

definition journal_quarantine :: "(quarantine \<Rightarrow> quarantine) \<Rightarrow> journal \<Rightarrow> journal" where
  "journal_quarantine f j = j\<lparr>jr_state := (jr_state j)\<lparr>cc_quarantine := f (cc_quarantine (jr_state j))\<rparr>\<rparr>"

section \<open>Laws of the checkpoint\<close>

text \<open>The shared offset is the smaller of the two signal offsets.\<close>

definition cc_wf :: "cp_checkpoint \<Rightarrow> bool" where
  "cc_wf c \<longleftrightarrow> cc_offset c = min (signal_offset c Sig_Metrics) (signal_offset c Sig_Logs)"

lemma cc_wf_advance [simp]: "cc_wf (cc_advance sig reached c)"
  by (cases sig) (auto simp: cc_wf_def cc_advance_def signal_offset_def Let_def split: option.splits)

lemma cc_wf_restart [simp]: "cc_wf (cc_restart c)"
  by (simp add: cc_wf_def cc_restart_def signal_offset_def)

lemma cc_wf_default [simp]: "cc_wf cc_default"
  by (simp add: cc_wf_def cc_default_def signal_offset_def)

lemma signal_offset_advance [simp]: "signal_offset (cc_advance sig reached c) sig = reached"
  by (cases sig) (simp_all add: signal_offset_def cc_advance_def Let_def)

lemma signal_offset_advance_other:
  "cc_wf c \<Longrightarrow> signal_offset c sig \<le> reached \<Longrightarrow> sig' \<noteq> sig \<Longrightarrow>
     signal_offset (cc_advance sig reached c) sig' = signal_offset c sig'"
  by (cases sig; cases sig')
    (auto simp: cc_wf_def signal_offset_def cc_advance_def Let_def split: option.splits)

definition cc_same_offsets :: "cp_checkpoint \<Rightarrow> cp_checkpoint \<Rightarrow> bool" where
  "cc_same_offsets c d \<longleftrightarrow>
     cc_offset c = cc_offset d \<and> cc_metrics_offset c = cc_metrics_offset d \<and> cc_logs_offset c = cc_logs_offset d"

lemma cc_same_offsets_signal: "cc_same_offsets c d \<Longrightarrow> signal_offset c sig = signal_offset d sig"
  by (cases sig) (auto simp: cc_same_offsets_def signal_offset_def split: option.splits)

lemma cc_same_offsets_wf: "cc_same_offsets c d \<Longrightarrow> cc_wf c = cc_wf d"
  by (simp add: cc_wf_def cc_same_offsets_signal) (simp add: cc_same_offsets_def)

lemma cc_same_offsets_updates [simp]:
  "cc_same_offsets (c\<lparr>cc_spool := x\<rparr>) c" "cc_same_offsets (c\<lparr>cc_quarantine := q\<rparr>) c" "cc_same_offsets c c"
  "cc_same_offsets (fst (record_discards clock n c)) c"
  by (auto simp: cc_same_offsets_def record_discards_def Let_def split: option.splits)

lemma record_discards_ok:
  "record_discards clock n c = (c', Inr ()) \<Longrightarrow> cc_discarded_total c' = (if n = 0 then cc_discarded_total c else sat_add (cc_discarded_total c) n)"
  by (auto simp: record_discards_def Let_def split: if_splits option.splits)

section \<open>What the journal promises\<close>

locale recorder =
  fixes adv :: "'sig \<Rightarrow> nat \<Rightarrow> nat \<Rightarrow> 'x \<Rightarrow> 'x \<times> ('e + unit)"
    and off :: "'x \<Rightarrow> 'sig \<Rightarrow> nat"
    and dur :: "'x \<Rightarrow> 'sig \<Rightarrow> nat option"
    and clean :: "'x \<Rightarrow> bool"
  assumes adv_off: "adv sig reached n x = (x', r) \<Longrightarrow> off x' sig = max (off x sig) reached"
    and adv_clean: "adv sig reached n x = (x', Inr u) \<Longrightarrow> clean x'"
    and adv_dur: "adv sig reached n x = (x', Inr u) \<Longrightarrow> clean x \<Longrightarrow> off x sig < reached \<Longrightarrow> dur x' sig = Some (off x' sig)"
    and adv_write: "adv sig reached n x = (x', Inr u) \<Longrightarrow> dur x' sig = dur x sig \<or> dur x' sig = Some (off x' sig)"
begin

text \<open>What is on disk is never behind: it is nothing of this run, or the offset of the signal.\<close>

definition exact :: "'x \<Rightarrow> 'sig \<Rightarrow> bool" where
  "exact x sig \<longleftrightarrow> clean x \<and> (dur x sig = None \<or> dur x sig = Some (off x sig))"

lemma adv_exact:
  assumes "adv sig reached n x = (x', Inr u)" "exact x sig"
  shows "exact x' sig"
proof (cases "off x sig < reached")
  case True
  with assms show ?thesis by (auto simp: exact_def intro: adv_clean dest: adv_dur)
next
  case False
  with assms have "off x' sig = off x sig" by (simp add: adv_off)
  with assms show ?thesis by (auto simp: exact_def dest: adv_write adv_clean)
qed

lemma adv_exact_new:
  assumes "adv sig reached n x = (x', Inr u)" "exact x sig" "off x sig < reached"
  shows "dur x' sig = Some reached"
  using assms adv_dur [of sig reached n x x' u] adv_off [of sig reached n x x' "Inr u"]
  by (auto simp: exact_def)

lemma adv_keeps_below:
  assumes "adv sig reached n x = (x', Inr u)" "exact x sig" "dur x sig = Some d"
  shows "\<exists>d'. dur x' sig = Some d' \<and> d \<le> d'"
  using assms adv_write [of sig reached n x x' u] adv_off [of sig reached n x x' "Inr u"]
  by (auto simp: exact_def)

end

text \<open>The last checkpoint written according to a log.\<close>

fun last_stored :: "cp_event list \<Rightarrow> cp_checkpoint option" where
  "last_stored [] = None"
| "last_stored (e # es) =
     (case last_stored es of
        Some c \<Rightarrow> Some c
      | None \<Rightarrow> (case e of Ev_Stored c \<Rightarrow> Some c | _ \<Rightarrow> None))"

lemma last_stored_append:
  "last_stored (xs @ ys) = (case last_stored ys of Some c \<Rightarrow> Some c | None \<Rightarrow> last_stored xs)"
  by (induction xs) (auto split: option.splits)

definition js_off :: "journal \<times> cp_state \<Rightarrow> cp_signal \<Rightarrow> nat" where
  "js_off js sig = signal_offset (jr_state (fst js)) sig"

definition js_dur :: "journal \<times> cp_state \<Rightarrow> cp_signal \<Rightarrow> nat option" where
  "js_dur js sig = map_option (\<lambda>c. signal_offset c sig) (last_stored (cs_log (snd js)))"

definition js_clean :: "journal \<times> cp_state \<Rightarrow> bool" where
  "js_clean js \<longleftrightarrow> (\<forall>sig. signal_offset (jr_stored (fst js)) sig = signal_offset (jr_state (fst js)) sig)"

lemma durable_store_log:
  "durable_store out c s = (s', r) \<Longrightarrow> \<exists>es. cs_log s' = cs_log s @ es \<and> (es = [] \<or> es = [Ev_Stored c]) \<and> (r = Inr () \<longrightarrow> es = [Ev_Stored c])"
  by (auto simp: durable_store_def cs_tick_def cs_logged_def Let_def split: if_splits)

lemma journal_commit_cases:
  assumes "journal_commit out j s = ((j', s'), r)"
  obtains (same) "j' = j" "s' = s" "r = Inr ()" "jr_state j = jr_stored j"
  | (failed) e es where "jr_state j \<noteq> jr_stored j" "j' = j\<lparr>jr_state := (jr_state j)\<lparr>cc_spool := jr_identity j\<rparr>\<rparr>"
      "r = Inl e" "cs_log s' = cs_log s @ es" "es = [] \<or> es = [Ev_Stored (jr_state j')]"
  | (written) "jr_state j \<noteq> jr_stored j" "r = Inr ()" "jr_state j' = (jr_state j)\<lparr>cc_spool := jr_identity j\<rparr>"
      "jr_stored j' = jr_state j'" "jr_lines j' = jr_lines j" "jr_charged j' = jr_charged j" "jr_lost j' = jr_lost j"
      "jr_identity j' = jr_identity j" "cs_log s' = cs_log s @ [Ev_Stored (jr_state j')]"
proof (cases "jr_state j = jr_stored j")
  case True
  with assms same show ?thesis by (simp add: journal_commit_def)
next
  case False
  let ?c = "(jr_state j)\<lparr>cc_spool := jr_identity j\<rparr>"
  obtain s1 q where st: "durable_store out ?c s = (s1, q)" by fastforce
  from durable_store_log [OF st] obtain es where es: "cs_log s1 = cs_log s @ es" "es = [] \<or> es = [Ev_Stored ?c]"
    "q = Inr () \<longrightarrow> es = [Ev_Stored ?c]" by blast
  show ?thesis
  proof (cases q)
    case (Inl e)
    with assms False st es show ?thesis by (intro failed [of e es]) (auto simp: journal_commit_def Let_def)
  next
    case (Inr u)
    with assms False st es show ?thesis by (intro written) (auto simp: journal_commit_def Let_def)
  qed
qed

lemma journal_commit_state:
  assumes "journal_commit out j s = ((j', s'), r)"
  shows "cc_same_offsets (jr_state j') (jr_state j)" "jr_lines j' = jr_lines j" "jr_charged j' = jr_charged j"
    "jr_identity j' = jr_identity j" "cc_discarded_total (jr_state j') = cc_discarded_total (jr_state j)"
    "cc_quarantine (jr_state j') = cc_quarantine (jr_state j)" "jr_lost j' = jr_lost j"
  using assms by (cases rule: journal_commit_cases, auto)+

definition moved :: "cp_signal \<Rightarrow> nat \<Rightarrow> cp_checkpoint \<Rightarrow> cp_checkpoint" where
  "moved sig reached c = (if reached > signal_offset c sig then cc_advance sig reached c else c)"

lemma moved_offset [simp]: "signal_offset (moved sig reached c) sig = max (signal_offset c sig) reached"
  by (simp add: moved_def max_def)

lemma moved_wf: "cc_wf c \<Longrightarrow> cc_wf (moved sig reached c)"
  by (simp add: moved_def)

lemma moved_offset_other:
  "cc_wf c \<Longrightarrow> sig' \<noteq> sig \<Longrightarrow> signal_offset (moved sig reached c) sig' = signal_offset c sig'"
  by (simp add: moved_def signal_offset_advance_other)

lemma moved_mono: "cc_wf c \<Longrightarrow> cc_offset c \<le> cc_offset (moved sig reached c)"
proof -
  assume wf: "cc_wf c"
  have "signal_offset c sig' \<le> signal_offset (moved sig reached c) sig'" for sig'
    by (cases "sig' = sig") (simp_all add: moved_offset_other [OF wf])
  with wf moved_wf [OF wf, of sig reached] show ?thesis
    unfolding cc_wf_def by (metis min.mono)
qed

lemma moved_keeps [simp]:
  "cc_discarded_total (moved sig reached c) = cc_discarded_total c" "cc_quarantine (moved sig reached c) = cc_quarantine c"
  "cc_spool (moved sig reached c) = cc_spool c"
  by (cases sig; simp add: moved_def cc_advance_def Let_def)+

definition newly_passed :: "journal \<Rightarrow> cp_checkpoint \<Rightarrow> tail_line list" where
  "newly_passed j c = takeWhile (\<lambda>l. tl_offset l < cc_offset c) (drop (jr_charged j) (jr_lines j))"

definition charge :: "cp_lib \<Rightarrow> journal \<Rightarrow> cp_checkpoint \<Rightarrow> nat \<Rightarrow> nat" where
  "charge lib j c n = sat_add n (counts_discarded (bt_counts (batch_build lib (map tl_text (newly_passed j c)))))"

lemma journal_advance_cases:
  assumes "journal_advance out lib sig reached n (j, s) = ((j', s'), r)"
  obtains (clock) e c where "r = Inl e" "s' = cs_tick s" "jr_state j' = c"
      "cc_same_offsets c (moved sig reached (jr_state j))" "cc_quarantine c = cc_quarantine (jr_state j)"
      "jr_lines j' = jr_lines j" "jr_stored j' = jr_stored j" "jr_identity j' = jr_identity j"
      "jr_charged j' = jr_charged j + length (newly_passed j (moved sig reached (jr_state j)))"
      "cc_discarded_total c =
         (if charge lib j (moved sig reached (jr_state j)) n = 0 then cc_discarded_total (jr_state j)
          else sat_add (cc_discarded_total (jr_state j)) (charge lib j (moved sig reached (jr_state j)) n))"
  | (commit) j2 where "journal_commit out j2 (cs_tick s) = ((j', s'), r)"
      "cc_same_offsets (jr_state j2) (moved sig reached (jr_state j))"
      "cc_quarantine (jr_state j2) = cc_quarantine (jr_state j)"
      "jr_lines j2 = jr_lines j" "jr_stored j2 = jr_stored j" "jr_identity j2 = jr_identity j"
      "jr_charged j2 = jr_charged j + length (newly_passed j (moved sig reached (jr_state j)))"
      "cc_discarded_total (jr_state j2) =
         (if charge lib j (moved sig reached (jr_state j)) n = 0 then cc_discarded_total (jr_state j)
          else sat_add (cc_discarded_total (jr_state j)) (charge lib j (moved sig reached (jr_state j)) n))"
proof -
  let ?m = "moved sig reached (jr_state j)"
  let ?lost = "charge lib j ?m n"
  let ?j2 = "j\<lparr>jr_state := ?m, jr_charged := jr_charged j + length (newly_passed j ?m)\<rparr>"
  have j1: "(if reached > signal_offset (jr_state j) sig then j\<lparr>jr_state := cc_advance sig reached (jr_state j)\<rparr> else j)
      = j\<lparr>jr_state := ?m\<rparr>"
    by (simp add: moved_def)
  have tl: "transform_loss lib (j\<lparr>jr_state := ?m\<rparr>) =
      (?j2, counts_discarded (bt_counts (batch_build lib (map tl_text (newly_passed j ?m)))))"
    by (simp add: transform_loss_def newly_passed_def Let_def takeWhile_eq_take [symmetric])
  obtain c q where rd: "record_discards (co_clock out (cs_now s)) ?lost ?m = (c, q)" by fastforce
  have so: "cc_same_offsets c ?m" using cc_same_offsets_updates(4) [of "co_clock out (cs_now s)" ?lost ?m] rd by simp
  have cq: "cc_quarantine c = cc_quarantine (jr_state j)"
    using rd by (auto simp: record_discards_def Let_def split: if_splits option.splits)
  have eq: "journal_advance out lib sig reached n (j, s) =
      (case q of
         Inl e \<Rightarrow> ((?j2\<lparr>jr_state := c\<rparr>, cs_tick s), Inl e)
       | Inr _ \<Rightarrow> journal_commit out (?j2\<lparr>jr_state := c, jr_lost := sat_add (jr_lost j) ?lost\<rparr>) (cs_tick s))"
    using rd by (simp add: journal_advance_def j1 tl Let_def charge_def split: sum.splits)
  show ?thesis
  proof (cases q)
    case (Inl e)
    with rd have "cc_discarded_total c = (if ?lost = 0 then cc_discarded_total (jr_state j) else sat_add (cc_discarded_total (jr_state j)) ?lost)"
      by (auto simp: record_discards_def Let_def split: if_splits option.splits)
    with Inl eq assms so cq show ?thesis by (intro clock [of e c]) auto
  next
    case (Inr u)
    with eq assms so cq rd show ?thesis
      by (intro commit [of "?j2\<lparr>jr_state := c, jr_lost := sat_add (jr_lost j) ?lost\<rparr>"])
        (auto dest: record_discards_ok)
  qed
qed

lemma journal_advance_offset:
  assumes "journal_advance out lib sig reached n (j, s) = ((j', s'), r)"
  shows "cc_same_offsets (jr_state j') (moved sig reached (jr_state j))"
  using assms
proof (cases rule: journal_advance_cases)
  case (commit j2)
  from journal_commit_state(1) [OF commit(1)] commit(2) show ?thesis by (simp add: cc_same_offsets_def)
qed simp

interpretation jr: recorder "journal_advance out lib" js_off js_dur js_clean
proof unfold_locales
  fix sig reached n x x' r
  assume a: "journal_advance out lib sig reached n x = (x', r)"
  obtain j s j' s' where x: "x = (j, s)" "x' = (j', s')" by (cases x, cases x')
  from journal_advance_offset [of out lib sig reached n j s j' s' r] a x
  show "js_off x' sig = max (js_off x sig) reached"
    by (simp add: js_off_def cc_same_offsets_signal)
next
  fix sig reached n x x' u
  assume a: "journal_advance out lib sig reached n x = (x', Inr u)"
  obtain j s j' s' where x: "x = (j, s)" "x' = (j', s')" by (cases x, cases x')
  from a x have "journal_advance out lib sig reached n (j, s) = ((j', s'), Inr u)" by simp
  then obtain j2 where c: "journal_commit out j2 (cs_tick s) = ((j', s'), Inr u)"
      "cc_same_offsets (jr_state j2) (moved sig reached (jr_state j))" "jr_stored j2 = jr_stored j"
    by (cases rule: journal_advance_cases) auto
  from c(1) show "js_clean x'"
    by (cases rule: journal_commit_cases) (auto simp: x js_clean_def)
  from c(1) show "js_dur x' sig = js_dur x sig \<or> js_dur x' sig = Some (js_off x' sig)"
    by (cases rule: journal_commit_cases)
      (auto simp: x js_dur_def js_off_def last_stored_append cs_tick_def)
  show "js_dur x' sig = Some (js_off x' sig)" if "js_clean x" "js_off x sig < reached"
  proof -
    from that c(2) have "signal_offset (jr_state j2) sig = reached"
      by (simp add: x js_off_def cc_same_offsets_signal)
    with that c(3) have "jr_state j2 \<noteq> jr_stored j2"
      by (auto simp: x js_clean_def js_off_def)
    with c(1) show ?thesis
      by (cases rule: journal_commit_cases) (auto simp: x js_dur_def js_off_def last_stored_append)
  qed
qed

section \<open>Every line passed is charged once\<close>

definition passed :: "journal \<Rightarrow> tail_line list" where
  "passed j = takeWhile (\<lambda>l. tl_offset l < cc_offset (jr_state j)) (jr_lines j)"

definition accounts :: "cp_lib \<Rightarrow> nat \<Rightarrow> journal \<Rightarrow> bool" where
  "accounts lib d j \<longleftrightarrow>
     cc_wf (jr_state j) \<and> jr_charged j = length (passed j) \<and>
     cc_discarded_total (jr_state j) = min (d + sum_list (map (line_discarded lib \<circ> tl_text) (passed j))) U64_MAX"

lemma takeWhile_split:
  "(\<And>x. P x \<Longrightarrow> Q x) \<Longrightarrow> takeWhile Q xs = takeWhile P xs @ takeWhile Q (drop (length (takeWhile P xs)) xs)"
  by (induction xs) auto

lemma sat_total:
  fixes d p n q :: nat
  assumes "t = min (d + p) U64_MAX" "ch = min (n + q) U64_MAX" "t' = (if ch = 0 then t else sat_add t ch)"
  shows "t' = min (d + n + (p + q)) U64_MAX"
proof (cases "ch = 0")
  case True
  with assms have "n + q = 0" by (simp add: U64_MAX_def min_def split: if_splits)
  with True assms show ?thesis by simp
next
  case False
  with assms show ?thesis by (simp add: sat_add_def min_def)
qed

lemma accounts_advance:
  assumes a: "journal_advance out lib sig reached n (j, s) = ((j', s'), r)" and ok: "accounts lib d j"
  shows "accounts lib (d + n) j'"
proof -
  let ?m = "moved sig reached (jr_state j)"
  from a have c: "cc_same_offsets (jr_state j') ?m" "jr_lines j' = jr_lines j"
      "jr_charged j' = jr_charged j + length (newly_passed j ?m)"
      "cc_discarded_total (jr_state j') =
         (if charge lib j ?m n = 0 then cc_discarded_total (jr_state j)
          else sat_add (cc_discarded_total (jr_state j)) (charge lib j ?m n))"
    by (cases rule: journal_advance_cases; auto dest: journal_commit_state simp: cc_same_offsets_def)+
  from ok have wf: "cc_wf (jr_state j)" and len: "jr_charged j = length (passed j)" by (simp_all add: accounts_def)
  have off: "cc_offset (jr_state j') = cc_offset ?m"
    using c(1) by (simp add: cc_same_offsets_def)
  have p: "passed j' = passed j @ newly_passed j ?m"
    unfolding passed_def newly_passed_def off c(2) len
    using moved_mono [OF wf, of sig reached] by (intro takeWhile_split) auto
  have wf': "cc_wf (jr_state j')"
    using c(1) moved_wf [OF wf] by (simp add: cc_same_offsets_wf)
  have ch: "charge lib j ?m n = min (n + sum_list (map (line_discarded lib \<circ> tl_text) (newly_passed j ?m))) U64_MAX"
    by (simp add: charge_def discarded_sum sat_add_def min_def)
  from ok have tot: "cc_discarded_total (jr_state j) =
      min (d + sum_list (map (line_discarded lib \<circ> tl_text) (passed j))) U64_MAX" by (simp add: accounts_def)
  have "cc_discarded_total (jr_state j') =
      min (d + n + sum_list (map (line_discarded lib \<circ> tl_text) (passed j'))) U64_MAX"
    using sat_total [OF tot ch c(4)] by (simp add: p)
  with wf' p c(3) len show ?thesis by (simp add: accounts_def)
qed

lemma accounts_new:
  assumes "cc_wf c" "cc_discarded_total c \<le> U64_MAX"
    and "lines \<noteq> [] \<Longrightarrow> (if rst then 0 else cc_offset c) \<le> tl_offset (hd lines)"
  shows "accounts lib (cc_discarded_total c) (journal_new lines c ident rst)"
proof -
  have "cc_wf (if rst then cc_restart c else c)" using assms(1) by simp
  moreover have "takeWhile (\<lambda>l. tl_offset l < cc_offset (if rst then cc_restart c else c)) lines = []"
    using assms(3) by (cases lines) (auto simp: cc_restart_def split: if_splits)
  moreover have "cc_discarded_total (if rst then cc_restart c else c) = cc_discarded_total c"
    by (simp add: cc_restart_def)
  ultimately show ?thesis using assms(2) by (simp add: accounts_def passed_def journal_new_def)
qed

end
