(* ===== verification/Copilot_Export.thy ===== *)
theory Copilot_Export
  imports Copilot_Journal
begin

text \<open>
  Getting one signal's records to the collector (\<open>copilot/push.rs\<close>, \<open>copilot/export/*.rs\<close>) and
  offering both signals (\<open>copilot/pass.rs\<close>). A refused range is split in half, down to single records,
  strictly from left to right; what is resolved is a prefix of the lines, and it is recorded in the
  journal before the next request.
\<close>

section \<open>The POST\<close>

definition cp_signal_path :: "cp_signal \<Rightarrow> string" where
  "cp_signal_path sig = (case sig of Sig_Metrics \<Rightarrow> ''/v1/metrics'' | Sig_Logs \<Rightarrow> ''/v1/logs'')"

definition endpoint :: "string \<Rightarrow> cp_signal \<Rightarrow> string" where
  "endpoint base sig = trim_end_matches (\<lambda>c. c = CHR ''/'') base @ cp_signal_path sig"

datatype push_error = Push_unreachable | Push_rejected nat

definition answer_of :: "nat option \<Rightarrow> push_error + verdict" where
  "answer_of res =
     (case res of
        None \<Rightarrow> Inl Push_unreachable
      | Some status \<Rightarrow>
          (if is_success status then Inr Accepted
           else if is_permanent status then Inr (Refused status)
           else Inl (Push_rejected status)))"

definition push_post ::
  "cp_outside \<Rightarrow> string \<Rightarrow> cp_signal \<Rightarrow> string \<Rightarrow> json \<Rightarrow> nat list \<Rightarrow> cp_state \<Rightarrow> cp_state \<times> (push_error + verdict)" where
  "push_post out base sig bearer pl offs s =
     (let rq = \<lparr>cq_url = endpoint base sig, cq_bearer = bearer, cq_payload = pl\<rparr>;
          res = co_send out (cs_now s) rq
      in (cs_logged [Ev_Posted sig rq offs res] (cs_tick s), answer_of res))"

section \<open>Progress\<close>

datatype stop =
    Stop_commit spool_error
  | Stop_budget
  | Stop_range nat nat
  | Stop_post push_error
  | Stop_held nat bool

record progress =
  pg_resolved :: nat
  pg_accepted :: nat
  pg_discarded :: nat
  pg_held :: nat
  pg_exhausted :: bool
  pg_requests :: nat
  pg_stopped :: "stop option"
  pg_committed :: "nat option"
  pg_committed_discards :: nat

definition progress_default :: progress where
  "progress_default =
     \<lparr>pg_resolved = 0, pg_accepted = 0, pg_discarded = 0, pg_held = 0, pg_exhausted = False,
      pg_requests = 0, pg_stopped = None, pg_committed = None, pg_committed_discards = 0\<rparr>"

record offer =
  of_out :: cp_outside
  of_lib :: cp_lib
  of_base :: string
  of_signal :: cp_signal
  of_bearer :: string
  of_now :: nat
  of_end_offset :: nat

record pass_state =
  ps_progress :: progress
  ps_journal :: journal
  ps_world :: cp_state

definition on_progress :: "(progress \<Rightarrow> progress) \<Rightarrow> pass_state \<Rightarrow> pass_state" where
  "on_progress f x = x\<lparr>ps_progress := f (ps_progress x)\<rparr>"

definition stop_with :: "stop \<Rightarrow> pass_state \<Rightarrow> pass_state" where
  "stop_with e = on_progress (\<lambda>p. p\<lparr>pg_stopped := Some e\<rparr>)"

definition export_build :: "cp_lib \<Rightarrow> tail_line list \<Rightarrow> cp_signal \<Rightarrow> (json \<times> nat) option" where
  "export_build lib lines sig =
     (case batch_signal (batch_build lib (map tl_text lines)) sig of
        (Some pl, records) \<Rightarrow> Some (pl, records)
      | (None, _) \<Rightarrow> None)"

definition advanced_to :: "tail_line list \<Rightarrow> nat \<Rightarrow> nat \<Rightarrow> nat" where
  "advanced_to lines resolved end_of_range =
     (if resolved < length lines then tl_offset (lines ! resolved) else end_of_range)"

definition export_commit :: "offer \<Rightarrow> tail_line list \<Rightarrow> pass_state \<Rightarrow> pass_state \<times> (spool_error + unit)" where
  "export_commit o' lines x =
     (let p = ps_progress x
      in if pg_committed p = Some (pg_resolved p) then (x, Inr ())
         else let reached = advanced_to lines (pg_resolved p) (of_end_offset o');
                  n = pg_discarded p - pg_committed_discards p
              in case journal_advance (of_out o') (of_lib o') (of_signal o') reached n (ps_journal x, ps_world x) of
                   ((j, s), Inl e) \<Rightarrow> (x\<lparr>ps_journal := j, ps_world := s\<rparr>, Inl e)
                 | ((j, s), Inr _) \<Rightarrow>
                     (x\<lparr>ps_journal := j, ps_world := s,
                        ps_progress := p\<lparr>pg_committed := Some (pg_resolved p), pg_committed_discards := pg_discarded p\<rparr>\<rparr>,
                      Inr ()))"

definition export_post :: "offer \<Rightarrow> tail_line list \<Rightarrow> json \<Rightarrow> pass_state \<Rightarrow> pass_state \<times> (push_error + verdict)" where
  "export_post o' slice pl x =
     (let x1 = on_progress (\<lambda>p. p\<lparr>pg_requests := sat_add (pg_requests p) 1\<rparr>) x;
          (s, r) = push_post (of_out o') (of_base o') (of_signal o') (of_bearer o') pl (map tl_offset slice) (ps_world x1)
      in (x1\<lparr>ps_world := s\<rparr>, r))"

section \<open>A record refused on its own\<close>

text \<open>The loop over the lines behind the refused one; \<open>next\<close> is the index of the first of them.\<close>

fun isolate_probe :: "offer \<Rightarrow> nat \<Rightarrow> tail_line list \<Rightarrow> pass_state \<Rightarrow> pass_state \<times> nat option" where
  "isolate_probe o' nxt [] x = (on_progress (\<lambda>p. p\<lparr>pg_exhausted := True\<rparr>) x, None)"
| "isolate_probe o' nxt (l # rest) x =
     (case export_build (of_lib o') [l] (of_signal o') of
        None \<Rightarrow> isolate_probe o' (Suc nxt) rest x
      | Some (pl, records) \<Rightarrow>
          (case export_post o' [l] pl x of
             (x1, Inr Accepted) \<Rightarrow>
               (on_progress (\<lambda>p. p\<lparr>pg_accepted := sat_add (pg_accepted p) records\<rparr>) x1, Some (Suc nxt))
           | (x1, _) \<Rightarrow> (x1, None)))"

definition give_up :: "offer \<Rightarrow> tail_line \<Rightarrow> string \<Rightarrow> nat \<Rightarrow> pass_state \<Rightarrow> pass_state" where
  "give_up o' l key stop_at x =
     on_progress (\<lambda>p. p\<lparr>pg_discarded := sat_add (pg_discarded p) 1, pg_resolved := stop_at\<rparr>)
       (x\<lparr>ps_journal := journal_quarantine (forget key) (ps_journal x),
          ps_world := cs_logged [Ev_Gave_up (of_signal o') (tl_offset l)] (ps_world x)\<rparr>)"

definition isolate_refused :: "offer \<Rightarrow> tail_line list \<Rightarrow> nat \<Rightarrow> pass_state \<Rightarrow> pass_state \<times> bool" where
  "isolate_refused o' lines index x =
     (if \<not> index < length lines then (x, False)
      else let l = lines ! index;
               key = quarantine_key (cl_sha (of_lib o')) (tl_text l);
               (q, enough_wakes) = refused key (of_now o') 0 (cc_quarantine (jr_state (ps_journal x)));
               x1 = x\<lparr>ps_journal := journal_quarantine (\<lambda>_. q) (ps_journal x)\<rparr>;
               (x2, resolved_to) =
                 (if \<not> enough_wakes then (x1, None)
                  else if pg_accepted (ps_progress x1) > 0 then (x1, Some (Suc index))
                  else isolate_probe o' (Suc index) (drop (Suc index) lines) x1)
           in case resolved_to of
                Some stop_at \<Rightarrow> (give_up o' l key stop_at x2, True)
              | None \<Rightarrow>
                  (stop_with (Stop_held (tl_offset l) enough_wakes)
                     (on_progress (\<lambda>p. p\<lparr>pg_held := sat_add (pg_held p) 1\<rparr>) x2), False))"

section \<open>The pass over one signal\<close>

definition MAX_REQUESTS :: nat where
  "MAX_REQUESTS = 512"

datatype turn = Halt | Go "(nat \<times> nat) list"

text \<open>The body of the loop for a range popped from the stack, after the commit: the ranges pushed are
  listed with the one to pop first at the head.\<close>

definition signal_range :: "offer \<Rightarrow> tail_line list \<Rightarrow> nat \<times> nat \<Rightarrow> pass_state \<Rightarrow> pass_state \<times> turn" where
  "signal_range o' lines rng x =
     (let start = max (fst rng) (pg_resolved (ps_progress x)); stop_at = snd rng
      in if stop_at \<le> start then (x, Go [])
         else if pg_requests (ps_progress x) \<ge> MAX_REQUESTS then (stop_with Stop_budget x, Halt)
         else if \<not> stop_at \<le> length lines then (stop_with (Stop_range start stop_at) x, Halt)
         else let slice = take (stop_at - start) (drop start lines)
              in case export_build (of_lib o') slice (of_signal o') of
                   None \<Rightarrow> (on_progress (\<lambda>p. p\<lparr>pg_resolved := stop_at\<rparr>) x, Go [])
                 | Some (pl, records) \<Rightarrow>
                     (case export_post o' slice pl x of
                        (x1, Inl e) \<Rightarrow> (stop_with (Stop_post e) x1, Halt)
                      | (x1, Inr Accepted) \<Rightarrow>
                          (on_progress (\<lambda>p. p\<lparr>pg_accepted := sat_add (pg_accepted p) records, pg_resolved := stop_at\<rparr>) x1,
                           Go [])
                      | (x1, Inr (Refused _)) \<Rightarrow>
                          (if stop_at - start > 1
                           then (let middle = start + (stop_at - start) div 2 in (x1, Go [(start, middle), (middle, stop_at)]))
                           else (case isolate_refused o' lines start x1 of
                                   (x2, goes_on) \<Rightarrow> (x2, if goes_on then Go [] else Halt)))))"

definition signal_turn :: "offer \<Rightarrow> tail_line list \<Rightarrow> nat \<times> nat \<Rightarrow> pass_state \<Rightarrow> pass_state \<times> turn" where
  "signal_turn o' lines rng x =
     (case export_commit o' lines x of
        (x1, Inl e) \<Rightarrow> (stop_with (Stop_commit e) x1, Halt)
      | (x1, Inr _) \<Rightarrow> signal_range o' lines rng x1)"

definition range_weight :: "nat \<times> nat \<Rightarrow> nat" where
  "range_weight r = max 1 (2 * (snd r - fst r) - 1)"

lemma signal_range_weight:
  assumes "signal_range o' lines rng x = (x', Go ps)"
  shows "sum_list (map range_weight ps) < range_weight rng"
proof -
  let ?start = "max (fst rng) (pg_resolved (ps_progress x))" and ?stop_at = "snd rng"
  have "ps = [] \<or> (?stop_at - ?start > 1 \<and>
      ps = [(?start, ?start + (?stop_at - ?start) div 2), (?start + (?stop_at - ?start) div 2, ?stop_at)])"
    using assms
    by (auto simp: signal_range_def Let_def split: if_splits option.splits prod.splits sum.splits verdict.splits)
  then show ?thesis
  proof
    assume "ps = []"
    then show ?thesis by (simp add: range_weight_def)
  next
    assume *: "?stop_at - ?start > 1 \<and>
      ps = [(?start, ?start + (?stop_at - ?start) div 2), (?start + (?stop_at - ?start) div 2, ?stop_at)]"
    define n where "n = ?stop_at - ?start"
    from * have "n \<ge> 2" and le: "n \<le> snd rng - fst rng" by (auto simp: n_def)
    from * have "sum_list (map range_weight ps) = max 1 (2 * (n div 2) - 1) + max 1 (2 * (n - n div 2) - 1)"
      by (simp add: range_weight_def n_def)
    also have "\<dots> < 2 * n - 1" using \<open>n \<ge> 2\<close> by (cases "even n") (auto elim!: evenE oddE)
    also have "\<dots> \<le> range_weight rng" using le by (simp add: range_weight_def)
    finally show ?thesis .
  qed
qed

lemma signal_turn_weight:
  "signal_turn o' lines rng x = (x', Go ps) \<Longrightarrow> sum_list (map range_weight ps) < range_weight rng"
  by (auto simp: signal_turn_def split: prod.splits sum.splits dest: signal_range_weight)

function signal_loop :: "offer \<Rightarrow> tail_line list \<Rightarrow> (nat \<times> nat) list \<Rightarrow> pass_state \<Rightarrow> pass_state" where
  "signal_loop o' lines [] x = x"
| "signal_loop o' lines (rng # stack) x =
     (case signal_turn o' lines rng x of
        (x', Halt) \<Rightarrow> x'
      | (x', Go ps) \<Rightarrow> signal_loop o' lines (ps @ stack) x')"
  by pat_completeness auto
termination
  by (relation "measure (\<lambda>(o', lines, stack, x). sum_list (map range_weight stack))")
    (auto dest: signal_turn_weight [OF sym])

declare signal_loop.simps [simp del]

definition export_signal :: "offer \<Rightarrow> tail_line list \<Rightarrow> journal \<Rightarrow> cp_state \<Rightarrow> pass_state" where
  "export_signal o' lines j s =
     (let x = signal_loop o' lines [(0, length lines)] \<lparr>ps_progress = progress_default, ps_journal = j, ps_world = s\<rparr>
      in case export_commit o' lines x of
           (x1, Inl e) \<Rightarrow>
             on_progress (\<lambda>p. p\<lparr>pg_stopped := Some (case pg_stopped p of Some e' \<Rightarrow> e' | None \<Rightarrow> Stop_commit e)\<rparr>) x1
         | (x1, Inr _) \<Rightarrow> x1)"

section \<open>Both signals\<close>

record pass_outcome =
  po_pushed :: nat
  po_held :: nat
  po_stalled :: bool
  po_failures :: "stop list"

record pass_target =
  pt_lines :: "tail_line list"
  pt_end_offset :: nat
  pt_now :: nat

definition pending_for :: "cp_checkpoint \<Rightarrow> cp_signal \<Rightarrow> tail_line list \<Rightarrow> tail_line list" where
  "pending_for c sig lines = filter (\<lambda>l. tl_offset l \<ge> signal_offset c sig) lines"

record cp_endpoint =
  ep_out :: cp_outside
  ep_lib :: cp_lib
  ep_base :: string
  ep_bearer :: string

definition offer_for :: "cp_endpoint \<Rightarrow> pass_target \<Rightarrow> cp_signal \<Rightarrow> offer" where
  "offer_for ep tg sig =
     \<lparr>of_out = ep_out ep, of_lib = ep_lib ep, of_base = ep_base ep, of_signal = sig, of_bearer = ep_bearer ep,
      of_now = pt_now tg, of_end_offset = pt_end_offset tg\<rparr>"

definition offer_signal ::
  "cp_endpoint \<Rightarrow> pass_target \<Rightarrow> cp_signal \<Rightarrow> pass_outcome \<times> journal \<times> cp_state \<Rightarrow> pass_outcome \<times> journal \<times> cp_state" where
  "offer_signal ep tg sig st =
     (case st of (oc, j, s) \<Rightarrow>
       (let x = export_signal (offer_for ep tg sig) (pending_for (jr_state j) sig (pt_lines tg)) j s;
            p = ps_progress x
        in (oc\<lparr>po_pushed := sat_add (po_pushed oc) (pg_accepted p), po_held := sat_add (po_held oc) (pg_held p),
               po_stalled := po_stalled oc \<or> pg_exhausted p,
               po_failures := po_failures oc @ (case pg_stopped p of Some e \<Rightarrow> [e] | None \<Rightarrow> [])\<rparr>,
            ps_journal x, ps_world x)))"

definition pass_both :: "cp_endpoint \<Rightarrow> pass_target \<Rightarrow> journal \<Rightarrow> cp_state \<Rightarrow> pass_outcome \<times> journal \<times> cp_state" where
  "pass_both ep tg j s =
     (let oc = \<lparr>po_pushed = 0, po_held = 0, po_stalled = False, po_failures = []\<rparr>;
          j1 = journal_quarantine (prune (pt_now tg)) j
      in offer_signal ep tg Sig_Logs (offer_signal ep tg Sig_Metrics (oc, j1, s)))"

definition pass_settled :: "pass_outcome \<Rightarrow> cp_error + unit" where
  "pass_settled oc = (if po_failures oc = [] then Inr () else Inl (CE_failures (length (po_failures oc))))"

end
