(* ===== verification/Copilot_Drain.thy ===== *)
theory Copilot_Drain
  imports Copilot_Export
begin

text \<open>
  A wake of \<open>copilot push\<close>: authentication first (\<open>copilot/mod.rs\<close>), then sweeps over the spool until it
  is caught up or a bound says stop (\<open>copilot/drain.rs\<close>), each sweep one read, export and checkpoint
  (\<open>copilot/sweep.rs\<close>) that may end by truncating a fully delivered spool
  (\<open>copilot/spool/reclaim.rs\<close>), and what \<open>status\<close> reports of it (\<open>copilot/status.rs\<close>).

  The editor appends to the spool while the drain runs: \<open>editor\<close> lets the outside world change the file
  before each call that looks at it, also between the size check and the truncation.
\<close>

section \<open>Reclaiming the spool\<close>

definition editor :: "cp_outside \<Rightarrow> cp_state \<Rightarrow> cp_state" where
  "editor out s = cs_tick (s\<lparr>cs_file := co_writer out (cs_now s) (cs_file s)\<rparr>)"

definition CP_RECLAIM_ABOVE :: nat where
  "CP_RECLAIM_ABOVE = 1024 * 1024"

text \<open>\<open>set_len(0)\<close> acts on the open descriptor: on the inode that was opened, if the path still names it.\<close>

definition truncate_inode :: "nat \<Rightarrow> cp_state \<Rightarrow> cp_state" where
  "truncate_inode ino s =
     (case cs_file s of
        None \<Rightarrow> s
      | Some (i, bs) \<Rightarrow> (if i = ino then cs_logged [Ev_Truncated (length bs)] (s\<lparr>cs_file := Some (i, [])\<rparr>) else s))"

definition reclaim_current :: "io \<Rightarrow> (string \<Rightarrow> string) \<Rightarrow> disk_file option \<Rightarrow> cp_error + identity option" where
  "reclaim_current io sha path =
     (if \<not> io IO_stat then Inl (CE_spool (Io_failed IO_stat))
      else case path of
             None \<Rightarrow> Inr None
           | Some f \<Rightarrow> (if \<not> io IO_read then Inl (CE_spool (Io_failed IO_read)) else Inr (Some (identity_of sha f))))"

definition reclaim_maybe :: "cp_outside \<Rightarrow> cp_lib \<Rightarrow> cp_checkpoint \<Rightarrow> cp_state \<Rightarrow> cp_state \<times> (cp_error + nat option)" where
  "reclaim_maybe out lib c s =
     (let delivered = cc_offset c
      in if delivered \<le> CP_RECLAIM_ABOVE then (s, Inr None)
         else let s1 = editor out s; io = co_io out (cs_now s1)
              in if \<not> io IO_open then (s1, Inl (CE_spool (Io_failed IO_open)))
                 else case cs_file s1 of
                        None \<Rightarrow> (s1, Inl (CE_spool (Io_failed IO_open)))
                      | Some f \<Rightarrow>
                          (if \<not> io IO_stat then (s1, Inl (CE_spool (Io_failed IO_stat)))
                           else let size = length (snd f)
                                in if size \<noteq> delivered then (s1, Inr None)
                                   else if \<not> io IO_truncate then (s1, Inl (CE_spool (Io_failed IO_truncate)))
                                   else let s2 = editor out (truncate_inode (fst f) (editor out s1))
                                        in case reclaim_current (co_io out (cs_now s2)) (cl_sha lib) (cs_file s2) of
                                             Inl e \<Rightarrow> (s2, Inl e)
                                           | Inr ident \<Rightarrow>
                                               (case durable_store out ((cc_restart c)\<lparr>cc_spool := ident\<rparr>) s2 of
                                                  (s3, Inl e) \<Rightarrow> (s3, Inl (CE_spool e))
                                                | (s3, Inr _) \<Rightarrow> (s3, Inr (Some size)))))"

definition best_effort :: "cp_outside \<Rightarrow> cp_lib \<Rightarrow> cp_checkpoint \<Rightarrow> bool \<Rightarrow> cp_state \<Rightarrow> cp_state" where
  "best_effort out lib c dry_run s = (if dry_run then s else fst (reclaim_maybe out lib c s))"

section \<open>One sweep\<close>

record cp_wake =
  wk_to :: cp_endpoint
  wk_dry_run :: bool

record swept =
  sw_advanced :: nat
  sw_pushed :: nat
  sw_pending :: nat
  sw_complete :: bool
  sw_failed :: "cp_error option"

definition swept_nothing :: swept where
  "swept_nothing = \<lparr>sw_advanced = 0, sw_pushed = 0, sw_pending = 0, sw_complete = False, sw_failed = None\<rparr>"

text \<open>From the read of a spool that has complete lines, the clock included, to the end of the sweep.\<close>

definition sweep_lines :: "cp_wake \<Rightarrow> nat \<Rightarrow> nat \<Rightarrow> drain \<Rightarrow> journal \<Rightarrow> cp_state \<Rightarrow> cp_state \<times> (cp_error + swept)" where
  "sweep_lines w carried from d j s =
     (let out = ep_out (wk_to w)
      in case co_clock out (cs_now s) of
           None \<Rightarrow> (cs_tick s, Inl (CE_spool Clock_failed))
         | Some now \<Rightarrow>
             (case pass_both (wk_to w) \<lparr>pt_lines = dr_lines d, pt_end_offset = next_offset d, pt_now = now\<rparr> j (cs_tick s) of
                (oc, j1, s1) \<Rightarrow>
                  (case journal_commit out (journal_finished (sat_add carried (po_pushed oc)) (po_stalled oc) now j1) s1 of
                     ((j2, s2), Inl e) \<Rightarrow> (s2, Inl (CE_spool e))
                   | ((j2, s2), Inr _) \<Rightarrow>
                       (let reached = cc_offset (jr_state j2)
                        in (best_effort out (ep_lib (wk_to w)) (jr_state j2) (wk_dry_run w) s2,
                            Inr \<lparr>sw_advanced = reached - from, sw_pushed = po_pushed oc, sw_pending = dr_size d - reached,
                                 sw_complete = (next_offset d \<le> reached),
                                 sw_failed = (case pass_settled oc of Inl e \<Rightarrow> Some e | Inr _ \<Rightarrow> None)\<rparr>)))))"

definition sweep_read :: "cp_wake \<Rightarrow> nat \<Rightarrow> cp_checkpoint \<Rightarrow> drain \<Rightarrow> cp_state \<Rightarrow> cp_state \<times> (cp_error + swept)" where
  "sweep_read w carried c d s =
     (let out = ep_out (wk_to w);
          j = journal_new (dr_lines d) c (dr_identity d) (restarted d \<noteq> None)
      in if dr_lines d = [] then
           (case (if restarted d \<noteq> None \<and> \<not> wk_dry_run w then journal_commit out j s else ((j, s), Inr ())) of
              ((j1, s1), Inl e) \<Rightarrow> (s1, Inl (CE_spool e))
            | ((j1, s1), Inr _) \<Rightarrow>
                (best_effort out (ep_lib (wk_to w)) (jr_state j1) (wk_dry_run w) s1, Inr swept_nothing))
         else if wk_dry_run w then (s, Inr swept_nothing)
         else sweep_lines w carried (cc_offset c) d j s)"

definition sweep_once :: "cp_wake \<Rightarrow> nat \<Rightarrow> cp_state \<Rightarrow> cp_state \<times> (cp_error + swept)" where
  "sweep_once w carried s =
     (let out = ep_out (wk_to w)
      in case durable_load (co_io out (cs_now s)) (cs_stored s) of
           Inl e \<Rightarrow> (cs_tick s, Inl e)
         | Inr c \<Rightarrow>
             (let s1 = editor out (cs_tick s)
              in case tail_drain (co_io out (cs_now s1)) (cl_sha (ep_lib (wk_to w))) (cs_file s1) (cc_offset c) (cc_spool c) of
                   Inl e \<Rightarrow> (cs_tick s1, Inl (CE_spool e))
                 | Inr d \<Rightarrow>
                     (if missing d then (cs_tick s1, Inr swept_nothing) else sweep_read w carried c d (cs_tick s1))))"

section \<open>One wake\<close>

definition MAX_PASSES :: nat where
  "MAX_PASSES = 64"

definition BUDGET :: nat where
  "BUDGET = 60"

datatype bound = Bound_passes | Bound_budget

record tally =
  ta_passes :: nat
  ta_bytes :: nat
  ta_records :: nat
  ta_pending :: nat
  ta_stopped_on :: "bound option"

definition tally_default :: tally where
  "tally_default = \<lparr>ta_passes = 0, ta_bytes = 0, ta_records = 0, ta_pending = 0, ta_stopped_on = None\<rparr>"

definition tally_add :: "swept \<Rightarrow> tally \<Rightarrow> tally" where
  "tally_add sw t =
     t\<lparr>ta_passes := min (ta_passes t + 1) 4294967295, ta_bytes := sat_add (ta_bytes t) (sw_advanced sw),
       ta_records := sat_add (ta_records t) (sw_pushed sw), ta_pending := sw_pending sw\<rparr>"

text \<open>\<open>elapsed\<close> is the monotonic clock since the wake started, in whole seconds.\<close>

function cp_drain_loop ::
  "(nat \<Rightarrow> nat) \<Rightarrow> cp_wake \<Rightarrow> tally \<Rightarrow> cp_state \<Rightarrow> cp_state \<times> (cp_error + tally \<times> cp_error option)" where
  "cp_drain_loop elapsed w t s =
     (case sweep_once w (ta_records t) s of
        (s1, Inl e) \<Rightarrow> (s1, Inl e)
      | (s1, Inr sw) \<Rightarrow>
          (let t1 = tally_add sw t
           in if sw_failed sw \<noteq> None \<or> \<not> sw_complete sw \<or> sw_pending sw = 0 then (s1, Inr (t1, sw_failed sw))
              else if ta_passes t1 \<ge> MAX_PASSES then (s1, Inr (t1\<lparr>ta_stopped_on := Some Bound_passes\<rparr>, None))
              else if elapsed (cs_now s1) \<ge> BUDGET then (s1, Inr (t1\<lparr>ta_stopped_on := Some Bound_budget\<rparr>, None))
              else cp_drain_loop elapsed w t1 s1))"
  by pat_completeness auto
termination
  by (relation "measure (\<lambda>(elapsed, w, t, s). MAX_PASSES - ta_passes t)") (auto simp: tally_add_def MAX_PASSES_def)

declare cp_drain_loop.simps [simp del]

text \<open>\<open>locked\<close>: another drain held the lock until the wait was over.\<close>

definition cp_drain_once :: "(nat \<Rightarrow> nat) \<Rightarrow> bool \<Rightarrow> cp_wake \<Rightarrow> cp_state \<Rightarrow> cp_state \<times> (cp_error + tally)" where
  "cp_drain_once elapsed locked w s =
     (if locked then (s, Inl CE_locked)
      else case cp_drain_loop elapsed w tally_default s of
             (s1, Inl e) \<Rightarrow> (s1, Inl e)
           | (s1, Inr (t, Some e)) \<Rightarrow> (s1, Inl e)
           | (s1, Inr (t, None)) \<Rightarrow> (s1, Inr t))"

section \<open>The command\<close>

definition DEFAULT_FILE_NAME :: string where
  "DEFAULT_FILE_NAME = ''copilot-otel.jsonl''"

definition path_join :: "string \<Rightarrow> string \<Rightarrow> string" where
  "path_join dir name = (if dir = [] \<or> last dir = CHR ''/'' then dir @ name else dir @ ''/'' @ name)"

record cp_config =
  cf_otel_endpoint :: "string option"
  cf_copilot_spool_path :: "string option"

definition resolve_spool_path :: "string option \<Rightarrow> cp_config \<Rightarrow> string option" where
  "resolve_spool_path state_dir cf =
     (case cf_copilot_spool_path cf of
        Some p \<Rightarrow> Some p
      | None \<Rightarrow> map_option (\<lambda>d. path_join d DEFAULT_FILE_NAME) state_dir)"

text \<open>\<open>auth\<close> is the bearer that \<open>current_session\<close> and \<open>emit_token\<close> obtained, if they did. The file of the
  state is the one at the path resolved; without a state directory no path or lock is found.\<close>

definition cp_run ::
  "cp_outside \<Rightarrow> cp_lib \<Rightarrow> (nat \<Rightarrow> nat) \<Rightarrow> string option \<Rightarrow> string option \<Rightarrow> bool \<Rightarrow> cp_config \<Rightarrow> bool \<Rightarrow> cp_state \<Rightarrow>
     cp_state \<times> (cp_error + tally)" where
  "cp_run out lib elapsed state_dir auth locked cf dry_run s =
     (case cf_otel_endpoint cf of
        None \<Rightarrow> (s, Inl CE_no_collector)
      | Some base \<Rightarrow>
          (case resolve_spool_path state_dir cf of
             None \<Rightarrow> (s, Inl CE_no_state_dir)
           | Some spool_path \<Rightarrow>
               (case auth of
                  None \<Rightarrow> (s, Inl CE_no_session)
                | Some bearer \<Rightarrow>
                    (case state_dir of
                       None \<Rightarrow> (s, Inl CE_no_state_dir)
                     | Some _ \<Rightarrow>
                         cp_drain_once elapsed locked
                           \<lparr>wk_to = \<lparr>ep_out = out, ep_lib = lib, ep_base = base, ep_bearer = bearer\<rparr>, wk_dry_run = dry_run\<rparr> s))))"

section \<open>Status\<close>

record spool_status =
  ss_path :: string
  ss_size :: "nat option"
  ss_offset :: nat
  ss_pending :: nat
  ss_last_push_unix :: "nat option"
  ss_held_since_unix :: "nat option"
  ss_discarded_total :: nat
  ss_last_discard_unix :: "nat option"
  ss_checkpoint_unreadable :: bool

definition survey :: "io \<Rightarrow> string option \<Rightarrow> cp_config \<Rightarrow> disk_file option \<Rightarrow> stored \<Rightarrow> spool_status option" where
  "survey io state_dir cf path st =
     (case resolve_spool_path state_dir cf of
        None \<Rightarrow> None
      | Some p \<Rightarrow>
          (let size = (if io IO_stat then map_option (length \<circ> snd) path else None)
           in case state_dir of
                None \<Rightarrow> None
              | Some _ \<Rightarrow>
                  (let (c, unreadable) = (case durable_load io st of Inr c \<Rightarrow> (c, False) | Inl _ \<Rightarrow> (cc_default, True))
                   in Some \<lparr>ss_path = p, ss_size = size, ss_offset = cc_offset c,
                            ss_pending = (case size of Some n \<Rightarrow> n | None \<Rightarrow> 0) - cc_offset c,
                            ss_last_push_unix = cc_last_push_unix c, ss_held_since_unix = cc_held_since_unix c,
                            ss_discarded_total = cc_discarded_total c, ss_last_discard_unix = cc_last_discard_unix c,
                            ss_checkpoint_unreadable = unreadable\<rparr>)))"

definition spool_present :: "spool_status \<Rightarrow> bool" where
  "spool_present ss \<longleftrightarrow> ss_size ss \<noteq> None"

end
