(* ===== verification/Copilot_Export_Correct.thy ===== *)
theory Copilot_Export_Correct
  imports Copilot_Export Daemon_Quarantine
begin

text \<open>
  What a pass over one signal does, read off its log: what becomes of every line of the resolved prefix
  (\<open>fates\<close>), that everything the collector accepted is on disk before the next request
  (\<open>recorded\<close>), what a record is given up on, how many requests a pass makes, and that the loss counter
  moves with the offset. The invariant of the loop is \<open>pass_inv\<close>.
\<close>

section \<open>Reading the log\<close>

definition accepts :: "nat option \<Rightarrow> bool" where
  "accepts res \<longleftrightarrow> (\<exists>st. res = Some st \<and> is_success st)"

fun ev_accepted :: "cp_signal \<Rightarrow> cp_event \<Rightarrow> nat list" where
  "ev_accepted sig (Ev_Posted sig' rq offs res) = (if sig' = sig \<and> accepts res then offs else [])"
| "ev_accepted sig _ = []"

fun ev_given_up :: "cp_signal \<Rightarrow> cp_event \<Rightarrow> nat list" where
  "ev_given_up sig (Ev_Gave_up sig' off) = (if sig' = sig then [off] else [])"
| "ev_given_up sig _ = []"

definition accepted_lines :: "cp_signal \<Rightarrow> cp_event list \<Rightarrow> nat list" where
  "accepted_lines sig es = concat (map (ev_accepted sig) es)"

definition given_up :: "cp_signal \<Rightarrow> cp_event list \<Rightarrow> nat list" where
  "given_up sig es = concat (map (ev_given_up sig) es)"

fun is_post :: "cp_event \<Rightarrow> bool" where
  "is_post (Ev_Posted sig rq offs res) = True"
| "is_post _ = False"

definition posts :: "cp_event list \<Rightarrow> nat" where
  "posts es = length (filter is_post es)"

lemma log_append [simp]:
  "accepted_lines sig (xs @ ys) = accepted_lines sig xs @ accepted_lines sig ys"
  "given_up sig (xs @ ys) = given_up sig xs @ given_up sig ys"
  "posts (xs @ ys) = posts xs + posts ys"
  by (simp_all add: accepted_lines_def given_up_def posts_def)

lemma log_simps [simp]:
  "accepted_lines sig [] = []" "given_up sig [] = []" "posts [] = 0"
  "accepted_lines sig [e] = ev_accepted sig e" "given_up sig [e] = ev_given_up sig e"
  "posts [e] = (if is_post e then 1 else 0)"
  by (simp_all add: accepted_lines_def given_up_def posts_def)

text \<open>The requests for one signal, and the bound of a sweep on them.\<close>

fun is_post_for :: "cp_signal \<Rightarrow> cp_event \<Rightarrow> bool" where
  "is_post_for sig (Ev_Posted sig' rq offs res) \<longleftrightarrow> sig' = sig"
| "is_post_for sig _ \<longleftrightarrow> False"

definition posts_for :: "cp_signal \<Rightarrow> cp_event list \<Rightarrow> nat" where
  "posts_for sig es = length (filter (is_post_for sig) es)"

definition within_budget :: "cp_event list \<Rightarrow> bool" where
  "within_budget es \<longleftrightarrow> posts_for Sig_Metrics es \<le> MAX_REQUESTS + 1 \<and> posts_for Sig_Logs es \<le> MAX_REQUESTS + 1"

lemma posts_for_append [simp]: "posts_for sig (xs @ ys) = posts_for sig xs + posts_for sig ys"
  by (simp add: posts_for_def)

lemma posts_for_le: "posts_for sig es \<le> posts es"
proof -
  have "is_post_for sig e \<Longrightarrow> is_post e" for e by (cases e) simp_all
  then show ?thesis unfolding posts_for_def posts_def by (induction es) auto
qed

lemma within_budget_quiet:
  "within_budget []" "posts es = 0 \<Longrightarrow> within_budget es"
  "within_budget es \<Longrightarrow> posts fs = 0 \<Longrightarrow> within_budget (es @ fs)"
proof -
  show "within_budget []" by (simp add: within_budget_def posts_for_def)
  show "posts es = 0 \<Longrightarrow> within_budget es"
    using posts_for_le [of _ es] by (simp add: within_budget_def)
  show "within_budget es \<Longrightarrow> posts fs = 0 \<Longrightarrow> within_budget (es @ fs)"
    using posts_for_le [of _ fs] by (simp add: within_budget_def)
qed

lemma answer_accepts: "answer_of res = Inr Accepted \<longleftrightarrow> accepts res"
  by (auto simp: answer_of_def accepts_def split: option.splits)

text \<open>Whatever was accepted is on disk before the next request leaves.\<close>

definition on_disk :: "cp_signal \<Rightarrow> cp_event list \<Rightarrow> bool" where
  "on_disk sig es \<longleftrightarrow>
     (\<forall>off \<in> set (accepted_lines sig es). \<exists>c. last_stored es = Some c \<and> off < signal_offset c sig)"

definition recorded :: "cp_signal \<Rightarrow> cp_event list \<Rightarrow> bool" where
  "recorded sig es \<longleftrightarrow> (\<forall>xs e ys. es = xs @ e # ys \<longrightarrow> is_post e \<longrightarrow> on_disk sig xs)"

lemma recorded_Nil [simp]: "recorded sig []"
  by (simp add: recorded_def)

lemma recorded_snoc: "recorded sig (es @ [e]) \<longleftrightarrow> recorded sig es \<and> (is_post e \<longrightarrow> on_disk sig es)"
proof
  assume r: "recorded sig (es @ [e])"
  show "recorded sig es \<and> (is_post e \<longrightarrow> on_disk sig es)"
    using r unfolding recorded_def by (metis append.assoc append_Cons append_Nil)
next
  assume r: "recorded sig es \<and> (is_post e \<longrightarrow> on_disk sig es)"
  show "recorded sig (es @ [e])"
    unfolding recorded_def
  proof (intro allI impI)
    fix xs f ys assume eq: "es @ [e] = xs @ f # ys" and p: "is_post f"
    show "on_disk sig xs"
    proof (cases ys rule: rev_cases)
      case Nil
      with eq r p show ?thesis by simp
    next
      case (snoc zs z)
      with eq have "es = xs @ f # zs" by simp
      with r p show ?thesis by (auto simp: recorded_def)
    qed
  qed
qed

section \<open>The effect of each step\<close>

abbreviation plog :: "pass_state \<Rightarrow> cp_event list" where
  "plog x \<equiv> cs_log (ps_world x)"

lemma export_post_effect:
  assumes "export_post o' sl pl x = (x', r)"
  obtains rq res where "plog x' = plog x @ [Ev_Posted (of_signal o') rq (map tl_offset sl) res]"
    "r = answer_of res" "ps_journal x' = ps_journal x"
    "ps_progress x' = (ps_progress x)\<lparr>pg_requests := sat_add (pg_requests (ps_progress x)) 1\<rparr>"
  using assms
  by (auto simp: export_post_def push_post_def on_progress_def cs_logged_def cs_tick_def Let_def)

lemma export_build_carries:
  "export_build lib ls sig = None \<longleftrightarrow> (\<forall>l \<in> set ls. \<not> line_carries lib sig (tl_text l))"
proof -
  have "export_build lib ls sig = None \<longleftrightarrow> fst (batch_signal (batch_build lib (map tl_text ls)) sig) = None"
    by (auto simp: export_build_def split: prod.splits option.splits)
  also have "\<dots> \<longleftrightarrow> (\<forall>l \<in> set ls. \<not> line_carries lib sig (tl_text l))"
    using batch_carries [of lib "map tl_text ls" sig] by auto
  finally show ?thesis .
qed

lemma export_build_records:
  assumes "export_build lib ls sig = Some (pl, n)"
  shows "n > 0"
proof -
  from assms have c: "fst (batch_signal (batch_build lib (map tl_text ls)) sig) \<noteq> None"
    and n: "n = snd (batch_signal (batch_build lib (map tl_text ls)) sig)"
    by (auto simp: export_build_def split: prod.splits option.splits)
  from batch_carries [THEN iffD1, OF c] obtain l where "l \<in> set (map tl_text ls)" "line_carries lib sig l" ..
  then have "filter (line_carries lib sig) (map tl_text ls) \<noteq> []" by (auto simp: filter_empty_conv)
  with n show ?thesis by (simp add: batch_record_count U64_MAX_def filter_map)
qed

text \<open>The fields of the progress a probe leaves alone.\<close>

definition same_prefix :: "progress \<Rightarrow> progress \<Rightarrow> bool" where
  "same_prefix p q \<longleftrightarrow>
     pg_resolved p = pg_resolved q \<and> pg_discarded p = pg_discarded q \<and> pg_committed p = pg_committed q \<and>
     pg_committed_discards p = pg_committed_discards q \<and> pg_stopped p = pg_stopped q"

lemma isolate_probe_effect:
  assumes "isolate_probe o' n rest x = (x', r)"
  shows "ps_journal x' = ps_journal x \<and> same_prefix (ps_progress x') (ps_progress x) \<and>
     (case r of
        Some e \<Rightarrow> \<exists>pre l post rq res. rest = pre @ l # post \<and> e = n + length pre + 1 \<and>
          (\<forall>k \<in> set pre. \<not> line_carries (of_lib o') (of_signal o') (tl_text k)) \<and>
          plog x' = plog x @ [Ev_Posted (of_signal o') rq [tl_offset l] res] \<and> accepts res \<and>
          pg_accepted (ps_progress x') > 0 \<and> pg_requests (ps_progress x') = sat_add (pg_requests (ps_progress x)) 1
      | None \<Rightarrow>
          pg_accepted (ps_progress x') = pg_accepted (ps_progress x) \<and>
          (plog x' = plog x \<and> pg_requests (ps_progress x') = pg_requests (ps_progress x) \<or>
           (\<exists>rq offs res. plog x' = plog x @ [Ev_Posted (of_signal o') rq offs res] \<and> \<not> accepts res \<and>
              pg_requests (ps_progress x') = sat_add (pg_requests (ps_progress x)) 1)))"
  using assms
proof (induction o' n rest x rule: isolate_probe.induct)
  case (1 o' n x)
  then show ?case by (auto simp: on_progress_def same_prefix_def)
next
  case (2 o' n l rest x)
  show ?case
  proof (cases "export_build (of_lib o') [l] (of_signal o')")
    case None
    with "2.prems" have rec: "isolate_probe o' (Suc n) rest x = (x', r)" by simp
    have nc: "\<not> line_carries (of_lib o') (of_signal o') (tl_text l)"
      using None by (simp add: export_build_carries)
    show ?thesis
    proof (cases r)
      case None
      with "2.IH"(1) [OF \<open>export_build (of_lib o') [l] (of_signal o') = None\<close> rec] show ?thesis by simp
    next
      case (Some e)
      with "2.IH"(1) [OF None rec] obtain pre l' post rq res where
        *: "rest = pre @ l' # post" "e = Suc n + length pre + 1"
          "\<forall>k \<in> set pre. \<not> line_carries (of_lib o') (of_signal o') (tl_text k)"
          "plog x' = plog x @ [Ev_Posted (of_signal o') rq [tl_offset l'] res]" "accepts res"
          "pg_accepted (ps_progress x') > 0" "pg_requests (ps_progress x') = sat_add (pg_requests (ps_progress x)) 1"
        and j: "ps_journal x' = ps_journal x" "same_prefix (ps_progress x') (ps_progress x)" by auto
      with Some nc show ?thesis
        by (simp, intro exI [of _ "l # pre"] exI [of _ l'] exI [of _ post] exI [of _ rq] exI [of _ res]) simp
    qed
  next
    case (Some b)
    obtain pl records where b: "b = (pl, records)" by (cases b)
    obtain x1 v where ep: "export_post o' [l] pl x = (x1, v)" by fastforce
    from export_post_effect [OF ep] obtain rq res where e:
      "plog x1 = plog x @ [Ev_Posted (of_signal o') rq [tl_offset l] res]" "v = answer_of res"
      "ps_journal x1 = ps_journal x"
      "ps_progress x1 = (ps_progress x)\<lparr>pg_requests := sat_add (pg_requests (ps_progress x)) 1\<rparr>" by auto
    have pos: "records > 0" using export_build_records Some b by blast
    show ?thesis
    proof (cases "accepts res")
      case True
      then have "v = Inr Accepted" using e(2) answer_accepts by simp
      with "2.prems" Some b ep have x': "x' = on_progress (\<lambda>p. p\<lparr>pg_accepted := sat_add (pg_accepted p) records\<rparr>) x1"
        and r: "r = Some (Suc n)" by simp_all
      from x' r e pos True show ?thesis
        by (auto simp: on_progress_def same_prefix_def sat_add_pos intro!: exI [of _ "[]"])
    next
      case False
      then have "v \<noteq> Inr Accepted" using e(2) answer_accepts by metis
      with "2.prems" Some b ep have "x' = x1" "r = None" by (auto split: sum.splits verdict.splits)
      with e False show ?thesis by (auto simp: same_prefix_def)
    qed
  qed
qed

section \<open>The invariant of a pass\<close>

definition fates :: "cp_lib \<Rightarrow> cp_signal \<Rightarrow> tail_line list \<Rightarrow> nat \<Rightarrow> cp_event list \<Rightarrow> bool" where
  "fates lib sig lines n es \<longleftrightarrow>
     distinct (accepted_lines sig es @ given_up sig es) \<and>
     set (accepted_lines sig es @ given_up sig es) \<subseteq> tl_offset ` set (take n lines) \<and>
     (\<forall>l \<in> set (take n lines).
        tl_offset l \<in> set (accepted_lines sig es @ given_up sig es) \<or> \<not> line_carries lib sig (tl_text l))"

lemma fates_extend:
  assumes f: "fates lib sig lines n es" and d: "distinct (map tl_offset lines)" and le: "n \<le> e"
    and new: "distinct (accepted_lines sig es' @ given_up sig es')"
      "set (accepted_lines sig es' @ given_up sig es') \<subseteq> tl_offset ` set (take (e - n) (drop n lines))"
      "\<And>l. l \<in> set (take (e - n) (drop n lines)) \<Longrightarrow>
         tl_offset l \<in> set (accepted_lines sig es' @ given_up sig es') \<or> \<not> line_carries lib sig (tl_text l)"
  shows "fates lib sig lines e (es @ es')"
proof -
  have t: "take e lines = take n lines @ take (e - n) (drop n lines)"
    using le by (metis le_add_diff_inverse take_add)
  have "distinct (map tl_offset (take e lines))"
    using d by (metis distinct_take take_map)
  then have dis: "tl_offset ` set (take n lines) \<inter> tl_offset ` set (take (e - n) (drop n lines)) = {}"
    by (simp add: t)
  let ?F = "set (accepted_lines sig es @ given_up sig es)" and ?F' = "set (accepted_lines sig es' @ given_up sig es')"
  have sub: "?F \<subseteq> tl_offset ` set (take n lines)" using f by (simp only: fates_def)
  with new(2) dis have ff: "?F \<inter> ?F' = {}" by blast
  have "distinct (accepted_lines sig es @ given_up sig es)" using f by (simp only: fates_def)
  with new(1) ff have "distinct (accepted_lines sig (es @ es') @ given_up sig (es @ es'))" by auto
  moreover have "set (accepted_lines sig (es @ es') @ given_up sig (es @ es')) = ?F \<union> ?F'" by auto
  moreover have "?F \<union> ?F' \<subseteq> tl_offset ` set (take e lines)"
    unfolding t set_append image_Un using sub new(2) by (metis Un_mono set_append)
  moreover have "tl_offset l \<in> ?F \<union> ?F' \<or> \<not> line_carries lib sig (tl_text l)" if "l \<in> set (take e lines)" for l
  proof (cases "l \<in> set (take n lines)")
    case True
    with f show ?thesis by (auto simp: fates_def)
  next
    case False
    with that have "l \<in> set (take (e - n) (drop n lines))" by (simp add: t)
    from new(3) [OF this] show ?thesis by blast
  qed
  ultimately show ?thesis unfolding fates_def by metis
qed

lemma fates_same: "fates lib sig lines n es \<Longrightarrow> accepted_lines sig es' = [] \<Longrightarrow> given_up sig es' = [] \<Longrightarrow> fates lib sig lines n (es @ es')"
  by (simp add: fates_def)

text \<open>No checkpoint on disk passes a line of the signal that is not settled.\<close>

definition settled :: "cp_lib \<Rightarrow> cp_signal \<Rightarrow> cp_event list \<Rightarrow> tail_line \<Rightarrow> bool" where
  "settled lib sig es l \<longleftrightarrow>
     tl_offset l \<in> set (accepted_lines sig es) \<or> tl_offset l \<in> set (given_up sig es) \<or> \<not> line_carries lib sig (tl_text l)"

definition covered :: "cp_lib \<Rightarrow> cp_signal \<Rightarrow> tail_line list \<Rightarrow> cp_event list \<Rightarrow> bool" where
  "covered lib sig lines es \<longleftrightarrow>
     (\<forall>xs c ys. es = xs @ Ev_Stored c # ys \<longrightarrow>
        (\<forall>l \<in> set lines. tl_offset l < signal_offset c sig \<longrightarrow> settled lib sig xs l))"

lemma covered_Nil [simp]: "covered lib sig lines []"
  by (simp add: covered_def)

lemma covered_snoc:
  "covered lib sig lines (es @ [e]) \<longleftrightarrow> covered lib sig lines es \<and>
     (\<forall>c. e = Ev_Stored c \<longrightarrow> (\<forall>l \<in> set lines. tl_offset l < signal_offset c sig \<longrightarrow> settled lib sig es l))"
  (is "?L = ?R")
proof
  assume ?L
  then show ?R unfolding covered_def by (metis append.assoc append_Cons append_Nil)
next
  assume r: ?R
  show ?L
    unfolding covered_def
  proof (intro allI impI)
    fix xs c ys assume eq: "es @ [e] = xs @ Ev_Stored c # ys"
    show "\<forall>l \<in> set lines. tl_offset l < signal_offset c sig \<longrightarrow> settled lib sig xs l"
    proof (cases ys rule: rev_cases)
      case Nil
      with eq r show ?thesis by simp
    next
      case (snoc zs z)
      with eq have "es = xs @ Ev_Stored c # zs" by simp
      with r show ?thesis by (auto simp: covered_def)
    qed
  qed
qed

lemma fates_settled: "fates lib sig lines n es \<Longrightarrow> l \<in> set (take n lines) \<Longrightarrow> settled lib sig es l"
  by (auto simp: fates_def settled_def)

definition lines_ok :: "offer \<Rightarrow> tail_line list \<Rightarrow> bool" where
  "lines_ok o' lines \<longleftrightarrow>
     sorted_wrt (<) (map tl_offset lines) \<and> (\<forall>l \<in> set lines. tl_offset l < of_end_offset o')"

definition refused_before :: "offer \<Rightarrow> quarantine \<Rightarrow> tail_line \<Rightarrow> bool" where
  "refused_before o' q l \<longleftrightarrow>
     (\<exists>en. map_of q (quarantine_key (cl_sha (of_lib o')) (tl_text l)) = Some en \<and> refusals en \<ge> 1)"

text \<open>What holds at every point of a pass, and when it has stopped.\<close>

definition pass_base :: "offer \<Rightarrow> tail_line list \<Rightarrow> quarantine \<Rightarrow> pass_state \<Rightarrow> bool" where
  "pass_base o' lines q x \<longleftrightarrow>
     (let p = ps_progress x; es = plog x; sig = of_signal o'
      in pg_resolved p \<le> length lines \<and> fates (of_lib o') sig lines (pg_resolved p) es \<and> recorded sig es \<and>
         covered (of_lib o') sig lines es \<and>
         (lines \<noteq> [] \<longrightarrow> signal_offset (jr_state (ps_journal x)) sig \<le> advanced_to lines (pg_resolved p) (of_end_offset o')) \<and>
         posts es = pg_requests p \<and> pg_requests p \<le> MAX_REQUESTS + 1 \<and>
         (pg_accepted p > 0 \<longleftrightarrow> accepted_lines sig es \<noteq> []) \<and>
         length (given_up sig es) = pg_discarded p \<and> pg_discarded p \<le> pg_requests p \<and>
         (given_up sig es \<noteq> [] \<longrightarrow> accepted_lines sig es \<noteq> []) \<and>
         (\<forall>off \<in> set (given_up sig es). \<exists>l \<in> set lines. tl_offset l = off \<and> refused_before o' q l))"

text \<open>What holds besides while the pass goes on.\<close>

definition committed_ok :: "offer \<Rightarrow> tail_line list \<Rightarrow> pass_state \<Rightarrow> bool" where
  "committed_ok o' lines x \<longleftrightarrow>
     (let sig = of_signal o'; js = (ps_journal x, ps_world x)
      in case pg_committed (ps_progress x) of
           None \<Rightarrow> plog x = [] \<and> pg_resolved (ps_progress x) = 0 \<and> (lines \<noteq> [] \<longrightarrow> js_off js sig \<le> advanced_to lines 0 (of_end_offset o'))
         | Some c \<Rightarrow>
             c \<le> pg_resolved (ps_progress x) \<and>
             (c = pg_resolved (ps_progress x) \<longrightarrow> pg_committed_discards (ps_progress x) = pg_discarded (ps_progress x)) \<and>
             js_clean js \<and> (lines \<noteq> [] \<longrightarrow> js_off js sig = advanced_to lines c (of_end_offset o')) \<and>
             (js_dur js sig = None \<and> c = 0 \<or> js_dur js sig = Some (js_off js sig)))"

definition pass_books :: "offer \<Rightarrow> tail_line list \<Rightarrow> nat \<Rightarrow> pass_state \<Rightarrow> bool" where
  "pass_books o' lines d x \<longleftrightarrow>
     committed_ok o' lines x \<and>
     accounts (of_lib o') (d + pg_committed_discards (ps_progress x)) (ps_journal x) \<and>
     pg_committed_discards (ps_progress x) \<le> pg_discarded (ps_progress x)"

definition pass_go :: "offer \<Rightarrow> tail_line list \<Rightarrow> quarantine \<Rightarrow> nat \<Rightarrow> pass_state \<Rightarrow> bool" where
  "pass_go o' lines q d x \<longleftrightarrow>
     pass_base o' lines q x \<and> pg_stopped (ps_progress x) = None \<and>
     (pg_requests (ps_progress x) \<le> MAX_REQUESTS \<or> pg_accepted (ps_progress x) > 0) \<and>
     (\<forall>k en. map_of (cc_quarantine (jr_state (ps_journal x))) k = Some en \<longrightarrow> map_of q k = Some en) \<and>
     pass_books o' lines d x"

text \<open>What holds when the pass has stopped: the books are in order unless a commit failed.\<close>

definition pass_halt :: "offer \<Rightarrow> tail_line list \<Rightarrow> quarantine \<Rightarrow> nat \<Rightarrow> pass_state \<Rightarrow> bool" where
  "pass_halt o' lines q d x \<longleftrightarrow>
     pass_base o' lines q x \<and> pg_stopped (ps_progress x) \<noteq> None \<and>
     ((\<exists>e. pg_stopped (ps_progress x) = Some (Stop_commit e)) \<or> pass_books o' lines d x)"

lemma advanced_to_mono:
  assumes "lines_ok o' lines" "c < n" "n \<le> length lines"
  shows "advanced_to lines c (of_end_offset o') < advanced_to lines n (of_end_offset o')"
  using assms by (auto simp: lines_ok_def advanced_to_def sorted_wrt_iff_nth_less)

lemma advanced_to_above:
  assumes "lines_ok o' lines" "l \<in> set (take n lines)"
  shows "tl_offset l < advanced_to lines n (of_end_offset o')"
proof -
  from assms(2) obtain i where i: "i < n" "i < length lines" "l = lines ! i" by (auto simp: in_set_conv_nth)
  with assms(1) show ?thesis by (auto simp: lines_ok_def advanced_to_def sorted_wrt_iff_nth_less)
qed

lemma lines_ok_distinct: "lines_ok o' lines \<Longrightarrow> distinct (map tl_offset lines)"
  by (simp add: lines_ok_def strict_sorted_iff)

lemma below_advanced:
  assumes "lines_ok o' lines" "l \<in> set lines" "tl_offset l < advanced_to lines n (of_end_offset o')"
  shows "l \<in> set (take n lines)"
proof -
  from assms(2) obtain i where i: "i < length lines" "l = lines ! i" by (auto simp: in_set_conv_nth)
  have "i < n"
  proof (rule ccontr)
    assume "\<not> i < n"
    with i assms(1) have "advanced_to lines n (of_end_offset o') \<le> tl_offset l"
      by (cases "n = i") (auto simp: lines_ok_def advanced_to_def sorted_wrt_iff_nth_less intro: less_imp_le)
    with assms(3) show False by simp
  qed
  with i show ?thesis by (metis in_set_conv_nth length_take min_less_iff_conj nth_take)
qed

lemma advanced_to_le:
  "lines_ok o' lines \<Longrightarrow> c \<le> n \<Longrightarrow> n \<le> length lines \<Longrightarrow>
     advanced_to lines c (of_end_offset o') \<le> advanced_to lines n (of_end_offset o')"
  by (cases "c = n") (use advanced_to_mono [of o' lines c n] in auto)

lemma pass_base_store:
  assumes ok: "lines_ok o' lines" and base: "pass_base o' lines q x" and lg: "plog x' = plog x @ es"
    and es: "es = [] \<or> es = [Ev_Stored (jr_state (ps_journal x'))]"
    and off: "lines \<noteq> [] \<longrightarrow> signal_offset (jr_state (ps_journal x')) (of_signal o') \<le>
      advanced_to lines (pg_resolved (ps_progress x)) (of_end_offset o')"
    and pr: "pg_resolved (ps_progress x') = pg_resolved (ps_progress x)" "pg_requests (ps_progress x') = pg_requests (ps_progress x)"
      "pg_accepted (ps_progress x') = pg_accepted (ps_progress x)" "pg_discarded (ps_progress x') = pg_discarded (ps_progress x)"
  shows "pass_base o' lines q x'"
proof -
  have "settled (of_lib o') (of_signal o') (plog x) l"
    if "l \<in> set lines" "tl_offset l < signal_offset (jr_state (ps_journal x')) (of_signal o')" for l
  proof -
    from that off have "tl_offset l < advanced_to lines (pg_resolved (ps_progress x)) (of_end_offset o')" by auto
    from fates_settled [OF _ below_advanced [OF ok that(1) this]] base show ?thesis
      by (simp add: pass_base_def Let_def)
  qed
  then have "covered (of_lib o') (of_signal o') lines (plog x')"
    using base lg es by (elim disjE) (simp_all add: pass_base_def covered_snoc Let_def)
  with base lg es off pr show ?thesis
    by (elim disjE) (simp_all add: pass_base_def Let_def recorded_snoc fates_same)
qed

lemma pass_base_quiet:
  assumes "pass_base o' lines q x" "plog x' = plog x"
    and "signal_offset (jr_state (ps_journal x')) (of_signal o') = signal_offset (jr_state (ps_journal x)) (of_signal o')"
    and "pg_resolved (ps_progress x') = pg_resolved (ps_progress x)" "pg_requests (ps_progress x') = pg_requests (ps_progress x)"
      "pg_accepted (ps_progress x') = pg_accepted (ps_progress x)" "pg_discarded (ps_progress x') = pg_discarded (ps_progress x)"
  shows "pass_base o' lines q x'"
  using assms by (simp add: pass_base_def Let_def)

lemma pass_base_stop [simp]:
  "pass_base o' lines q (stop_with e x) = pass_base o' lines q x"
  "pass_base o' lines q (on_progress (\<lambda>p. p\<lparr>pg_held := f p\<rparr>) x) = pass_base o' lines q x"
  by (simp_all add: pass_base_def stop_with_def on_progress_def Let_def)

lemma pass_books_stop [simp]:
  "pass_books o' lines d (stop_with e x) = pass_books o' lines d x"
  "pass_books o' lines d (on_progress (\<lambda>p. p\<lparr>pg_held := f p\<rparr>) x) = pass_books o' lines d x"
  by (simp_all add: pass_books_def committed_ok_def stop_with_def on_progress_def Let_def split: option.splits)

lemma stop_with_stopped [simp]: "pg_stopped (ps_progress (stop_with e x)) = Some e"
  by (simp add: stop_with_def on_progress_def)

lemma journal_advance_effect:
  assumes "journal_advance out lib sig reached n (j, s) = ((j', s'), r)"
  obtains es where "cs_log s' = cs_log s @ es" "es = [] \<or> es = [Ev_Stored (jr_state j')]"
    "cc_quarantine (jr_state j') = cc_quarantine (jr_state j)"
  using assms
proof (cases rule: journal_advance_cases)
  case (clock e c)
  then show ?thesis by (intro that [of "[]"]) (simp_all add: cs_tick_def)
next
  case (commit j2)
  have q: "cc_quarantine (jr_state j') = cc_quarantine (jr_state j)"
    using journal_commit_state(6) [OF commit(1)] commit(3) by simp
  from commit(1) show ?thesis
  proof (cases rule: journal_commit_cases)
    case same
    then show ?thesis using q by (intro that [of "[]"]) (simp_all add: cs_tick_def)
  next
    case (failed e es)
    then show ?thesis using q by (intro that [of es]) (simp_all add: cs_tick_def)
  next
    case written
    then show ?thesis using q by (intro that [of "[Ev_Stored (jr_state j')]"]) (simp_all add: cs_tick_def)
  qed
qed

lemma on_disk_committed:
  assumes "lines_ok o' lines" "pass_base o' lines q x" "committed_ok o' lines x"
    and "pg_committed (ps_progress x) = Some (pg_resolved (ps_progress x))"
  shows "on_disk (of_signal o') (plog x)"
  unfolding on_disk_def
proof
  let ?R = "pg_resolved (ps_progress x)"
  fix off assume "off \<in> set (accepted_lines (of_signal o') (plog x))"
  with assms(2) obtain l where l: "l \<in> set (take ?R lines)" "off = tl_offset l"
    by (auto simp: pass_base_def fates_def Let_def)
  then have "?R \<noteq> 0" "lines \<noteq> []" by (metis empty_iff list.set(1) take_0, auto)
  with assms(3,4) have "js_dur (ps_journal x, ps_world x) (of_signal o') = Some (advanced_to lines ?R (of_end_offset o'))"
    by (auto simp: committed_ok_def Let_def)
  with advanced_to_above [OF assms(1) l(1)] l(2)
  show "\<exists>c. last_stored (plog x) = Some c \<and> off < signal_offset c (of_signal o')"
    by (auto simp: js_dur_def)
qed

lemma commit_progress:
  assumes "export_commit o' lines x = (x', r)"
  shows "pg_resolved (ps_progress x') = pg_resolved (ps_progress x)" "pg_requests (ps_progress x') = pg_requests (ps_progress x)"
    "pg_accepted (ps_progress x') = pg_accepted (ps_progress x)" "pg_discarded (ps_progress x') = pg_discarded (ps_progress x)"
    "pg_stopped (ps_progress x') = pg_stopped (ps_progress x)" "pg_held (ps_progress x') = pg_held (ps_progress x)"
    "pg_exhausted (ps_progress x') = pg_exhausted (ps_progress x)"
  using assms by (auto simp: export_commit_def Let_def split: if_splits prod.splits sum.splits)

lemma commit_effect:
  assumes "export_commit o' lines x = (x', r)"
  obtains es where "plog x' = plog x @ es" "es = [] \<or> es = [Ev_Stored (jr_state (ps_journal x'))]"
    "cc_quarantine (jr_state (ps_journal x')) = cc_quarantine (jr_state (ps_journal x))"
    "signal_offset (jr_state (ps_journal x')) (of_signal o') \<le>
       max (signal_offset (jr_state (ps_journal x)) (of_signal o')) (advanced_to lines (pg_resolved (ps_progress x)) (of_end_offset o'))"
proof (cases "pg_committed (ps_progress x) = Some (pg_resolved (ps_progress x))")
  case True
  with assms show ?thesis by (intro that [of "[]"]) (simp_all add: export_commit_def Let_def)
next
  case False
  obtain j s q where a: "journal_advance (of_out o') (of_lib o') (of_signal o')
      (advanced_to lines (pg_resolved (ps_progress x)) (of_end_offset o'))
      (pg_discarded (ps_progress x) - pg_committed_discards (ps_progress x)) (ps_journal x, ps_world x) = ((j, s), q)"
    by (metis prod.collapse)
  from journal_advance_effect [OF a] obtain es where "cs_log s = plog x @ es" "es = [] \<or> es = [Ev_Stored (jr_state j)]"
    "cc_quarantine (jr_state j) = cc_quarantine (jr_state (ps_journal x))" .
  with assms False a jr.adv_off [OF a] show ?thesis
    by (intro that [of es]) (auto simp: export_commit_def Let_def js_off_def split: sum.splits)
qed

lemma commit_base:
  assumes "lines_ok o' lines" "pass_base o' lines q x" "export_commit o' lines x = (x', r)"
  shows "pass_base o' lines q x'"
proof -
  from commit_effect [OF assms(3)] obtain es where es: "plog x' = plog x @ es" "es = [] \<or> es = [Ev_Stored (jr_state (ps_journal x'))]"
    "signal_offset (jr_state (ps_journal x')) (of_signal o') \<le>
       max (signal_offset (jr_state (ps_journal x)) (of_signal o')) (advanced_to lines (pg_resolved (ps_progress x)) (of_end_offset o'))" .
  from es(3) assms(2) have "lines \<noteq> [] \<longrightarrow> signal_offset (jr_state (ps_journal x')) (of_signal o') \<le>
      advanced_to lines (pg_resolved (ps_progress x)) (of_end_offset o')"
    by (auto simp: pass_base_def Let_def)
  from pass_base_store [OF assms(1,2) es(1,2) this commit_progress(1-4) [OF assms(3)]] show ?thesis .
qed

lemma commit_books:
  assumes ok: "lines_ok o' lines" and base: "pass_base o' lines q x" and books: "pass_books o' lines d x"
    and c: "export_commit o' lines x = (x', Inr u)"
  shows "pass_books o' lines d x' \<and> pg_committed (ps_progress x') = Some (pg_resolved (ps_progress x'))"
proof (cases "pg_committed (ps_progress x) = Some (pg_resolved (ps_progress x))")
  case True
  with c books show ?thesis by (simp add: export_commit_def Let_def)
next
  case False
  let ?p = "ps_progress x" and ?sig = "of_signal o'" and ?js = "(ps_journal x, ps_world x)"
  let ?reached = "advanced_to lines (pg_resolved ?p) (of_end_offset o')"
  let ?n = "pg_discarded ?p - pg_committed_discards ?p"
  obtain j s r where a: "journal_advance (of_out o') (of_lib o') ?sig ?reached ?n ?js = ((j, s), r)"
    by (metis prod.collapse)
  from c a False have r: "r = Inr u" and x': "x' = x\<lparr>ps_journal := j, ps_world := s,
      ps_progress := ?p\<lparr>pg_committed := Some (pg_resolved ?p), pg_committed_discards := pg_discarded ?p\<rparr>\<rparr>"
    by (auto simp: export_commit_def Let_def split: sum.splits)
  note a' = a [unfolded r]
  from books have com: "committed_ok o' lines x"
    and acc: "accounts (of_lib o') (d + pg_committed_discards ?p) (ps_journal x)"
    and le: "pg_committed_discards ?p \<le> pg_discarded ?p" by (simp_all add: pass_books_def)
  from base have R: "pg_resolved ?p \<le> length lines" by (simp add: pass_base_def Let_def)
  have off: "js_off (j, s) ?sig = max (js_off ?js ?sig) ?reached" and cl: "js_clean (j, s)"
    and wr: "js_dur (j, s) ?sig = js_dur ?js ?sig \<or> js_dur (j, s) ?sig = Some (js_off (j, s) ?sig)"
    using jr.adv_off [OF a'] jr.adv_clean [OF a'] jr.adv_write [OF a'] by simp_all
  have "(lines \<noteq> [] \<longrightarrow> js_off (j, s) ?sig = ?reached) \<and>
      (js_dur (j, s) ?sig = None \<and> pg_resolved ?p = 0 \<or> js_dur (j, s) ?sig = Some (js_off (j, s) ?sig))"
  proof (cases "pg_committed ?p")
    case None
    with com have "plog x = []" "pg_resolved ?p = 0" "lines \<noteq> [] \<longrightarrow> js_off ?js ?sig \<le> ?reached"
      by (simp_all add: committed_ok_def Let_def)
    moreover from this have "js_dur ?js ?sig = None" by (simp add: js_dur_def)
    ultimately show ?thesis using off wr by (simp add: max_def)
  next
    case (Some k)
    with com False R have k: "k < pg_resolved ?p" "js_clean ?js" "js_off ?js ?sig = advanced_to lines k (of_end_offset o')"
      by (auto simp: committed_ok_def Let_def)
    with advanced_to_mono [OF ok k(1) R] have lt: "js_off ?js ?sig < ?reached" by simp
    with off jr.adv_dur [OF a' k(2) lt] show ?thesis by simp
  qed
  then have com': "committed_ok o' lines x'"
    using cl by (auto simp: committed_ok_def x' Let_def)
  have "accounts (of_lib o') (d + pg_discarded ?p) j"
    using accounts_advance [OF a' acc] le by simp
  with com' show ?thesis by (simp add: pass_books_def x')
qed

lemma commit_quarantine:
  assumes "export_commit o' lines x = (x', r)"
  shows "cc_quarantine (jr_state (ps_journal x')) = cc_quarantine (jr_state (ps_journal x))"
  using commit_effect [OF assms] by metis

lemma commit_go:
  assumes "lines_ok o' lines" "pass_go o' lines q d x" "export_commit o' lines x = (x', Inr u)"
  shows "pass_go o' lines q d x' \<and> pg_committed (ps_progress x') = Some (pg_resolved (ps_progress x'))"
  using assms commit_books [OF assms(1) _ _ assms(3)] commit_base [OF assms(1) _ assms(3)] commit_progress [OF assms(3)]
    commit_quarantine [OF assms(3)]
  by (auto simp: pass_go_def)

section \<open>One turn\<close>

lemma sat_add_small: "n \<le> Suc MAX_REQUESTS \<Longrightarrow> sat_add n (Suc 0) = Suc n"
  by (simp add: sat_add_def MAX_REQUESTS_def U64_MAX_def)

lemma base_refused:
  assumes "pass_base o' lines q x" "on_disk (of_signal o') (plog x)" "pg_requests (ps_progress x) \<le> MAX_REQUESTS"
    and "plog x' = plog x @ [Ev_Posted (of_signal o') rq offs res]" "\<not> accepts res"
    and "pg_resolved (ps_progress x') = pg_resolved (ps_progress x)" "pg_requests (ps_progress x') = sat_add (pg_requests (ps_progress x)) 1"
    and "pg_accepted (ps_progress x') = pg_accepted (ps_progress x)" "pg_discarded (ps_progress x') = pg_discarded (ps_progress x)"
    and "ps_journal x' = ps_journal x"
  shows "pass_base o' lines q x' \<and> on_disk (of_signal o') (plog x') \<and> pg_discarded (ps_progress x') < pg_requests (ps_progress x')"
  using assms
  by (auto simp: pass_base_def Let_def recorded_snoc covered_snoc on_disk_def last_stored_append sat_add_small intro: fates_same)

lemma base_accepted:
  assumes ok: "lines_ok o' lines" and base: "pass_base o' lines q x" and disk: "on_disk (of_signal o') (plog x)"
    and req: "pg_requests (ps_progress x) \<le> MAX_REQUESTS"
    and e: "pg_resolved (ps_progress x) < e" "e \<le> length lines" "pg_resolved (ps_progress x') = e"
    and lg: "plog x' = plog x @ [Ev_Posted (of_signal o') rq
        (map tl_offset (take (e - pg_resolved (ps_progress x)) (drop (pg_resolved (ps_progress x)) lines))) res]" "accepts res"
    and pr: "pg_requests (ps_progress x') = sat_add (pg_requests (ps_progress x)) 1" "pg_accepted (ps_progress x') > 0"
      "pg_discarded (ps_progress x') = pg_discarded (ps_progress x)" "ps_journal x' = ps_journal x"
  shows "pass_base o' lines q x'"
proof -
  let ?R = "pg_resolved (ps_progress x)"
  let ?sl = "take (e - ?R) (drop ?R lines)"
  have d: "distinct (map tl_offset lines)" using ok by (rule lines_ok_distinct)
  then have ds: "distinct (map tl_offset ?sl)" by (simp add: drop_map [symmetric] take_map [symmetric])
  have "fates (of_lib o') (of_signal o') lines e (plog x')"
    unfolding lg(1) using base e(1) ds lg(2)
    by (intro fates_extend [OF _ d]) (auto simp: pass_base_def Let_def)
  moreover have "?sl \<noteq> []" using e by simp
  moreover have "advanced_to lines ?R (of_end_offset o') \<le> advanced_to lines e (of_end_offset o')"
    using e by (intro advanced_to_le [OF ok]) simp_all
  ultimately show ?thesis
    using base disk req e lg pr
    by (auto simp: pass_base_def Let_def recorded_snoc covered_snoc sat_add_small intro: le_trans)
qed

lemma base_gave_up:
  assumes ok: "lines_ok o' lines" and base: "pass_base o' lines q x" and disk: "on_disk (of_signal o') (plog x)"
    and R: "R = pg_resolved (ps_progress x)" "R < length lines"
    and few: "pg_discarded (ps_progress x) < pg_requests (ps_progress x)" and ref: "refused_before o' q (lines ! R)"
    and e: "lines ! R # pre @ post = take (e - R) (drop R lines)" "R < e" "e \<le> length lines"
      "\<forall>l \<in> set pre. \<not> line_carries (of_lib o') (of_signal o') (tl_text l)"
    and lg: "plog x' = plog x @ es @ [Ev_Gave_up (of_signal o') (tl_offset (lines ! R))]"
      "post = [] \<and> es = [] \<and> pg_accepted (ps_progress x) > 0 \<and> pg_requests (ps_progress x') = pg_requests (ps_progress x) \<or>
       (\<exists>l rq res. post = [l] \<and> es = [Ev_Posted (of_signal o') rq [tl_offset l] res] \<and> accepts res \<and>
          pg_requests (ps_progress x) \<le> MAX_REQUESTS \<and> pg_requests (ps_progress x') = sat_add (pg_requests (ps_progress x)) 1)"
    and pr: "pg_resolved (ps_progress x') = e" "pg_accepted (ps_progress x') > 0"
      "pg_discarded (ps_progress x') = Suc (pg_discarded (ps_progress x))"
      "signal_offset (jr_state (ps_journal x')) (of_signal o') = signal_offset (jr_state (ps_journal x)) (of_signal o')"
  shows "pass_base o' lines q x'"
proof -
  let ?sig = "of_signal o'" and ?g = "tl_offset (lines ! R)"
  have d: "distinct (map tl_offset lines)" using ok by (rule lines_ok_distinct)
  have ds: "distinct (map tl_offset (lines ! R # pre @ post))"
    unfolding e(1) using d by (simp add: drop_map [symmetric] take_map [symmetric])
  have acc: "accepted_lines ?sig es = map tl_offset post" "given_up ?sig es = []" "posts es = length post" "last_stored es = None"
    using lg(2) by auto
  have f: "fates (of_lib o') ?sig lines e (plog x @ es @ [Ev_Gave_up ?sig ?g])"
  proof (rule fates_extend [OF _ d])
    show "fates (of_lib o') ?sig lines R (plog x)" using base R by (simp add: pass_base_def Let_def)
    show "R \<le> e" using e by simp
    show "distinct (accepted_lines ?sig (es @ [Ev_Gave_up ?sig ?g]) @ given_up ?sig (es @ [Ev_Gave_up ?sig ?g]))"
      using ds by (auto simp: acc)
    show "set (accepted_lines ?sig (es @ [Ev_Gave_up ?sig ?g]) @ given_up ?sig (es @ [Ev_Gave_up ?sig ?g]))
        \<subseteq> tl_offset ` set (take (e - R) (drop R lines))"
      unfolding e(1) [symmetric] by (auto simp: acc)
    fix l assume "l \<in> set (take (e - R) (drop R lines))"
    then show "tl_offset l \<in> set (accepted_lines ?sig (es @ [Ev_Gave_up ?sig ?g]) @ given_up ?sig (es @ [Ev_Gave_up ?sig ?g]))
        \<or> \<not> line_carries (of_lib o') ?sig (tl_text l)"
      unfolding e(1) [symmetric] using e(4) by (auto simp: acc)
  qed
  have rec: "recorded ?sig (plog x')"
  proof -
    have "recorded ?sig (plog x @ es)"
      using lg(2) base disk by (auto simp: recorded_snoc pass_base_def Let_def)
    then show ?thesis unfolding lg(1) append.assoc [symmetric] by (simp add: recorded_snoc del: append_assoc)
  qed
  have "covered (of_lib o') ?sig lines (plog x @ es)"
    using lg(2) base by (auto simp: covered_snoc pass_base_def Let_def)
  then have cov: "covered (of_lib o') ?sig lines (plog x')"
    unfolding lg(1) append.assoc [symmetric] by (simp add: covered_snoc del: append_assoc)
  have adv: "advanced_to lines R (of_end_offset o') \<le> advanced_to lines e (of_end_offset o')"
    using e by (intro advanced_to_le [OF ok]) simp_all
  have mem: "lines ! R \<in> set lines" using R by simp
  show ?thesis
    unfolding pass_base_def Let_def
    using base f rec cov adv lg pr e few ref mem acc R(1)
    by (auto simp: pass_base_def Let_def sat_add_small)
qed

text \<open>With no minimal separation a refusal always counts, so a record eligible now was refused before; and
  counting a refusal and forgetting the record only removes entries.\<close>

lemma refused_eligible:
  assumes "refused key now 0 q = (q', True)"
  obtains en where "map_of q key = Some en" "refusals en \<ge> 1"
  using assms
  by (cases "map_of q key") (auto simp: refused_def Let_def REFUSALS_BEFORE_DISCARD_def)

lemma refused_forget:
  assumes "refused key now sep q = (q', r)" "map_of (forget key q') k = Some en"
  shows "map_of q k = Some en"
  using assms by (auto simp: refused_def forget_def Let_def bt.get_ins bt.get_rem split: if_splits)

lemma signal_offset_quarantine [simp]: "signal_offset (c\<lparr>cc_quarantine := t\<rparr>) sig = signal_offset c sig"
  by (rule cc_same_offsets_signal) simp

lemma accounts_quarantine [simp]: "accounts lib d (journal_quarantine f j) = accounts lib d j"
  by (simp add: accounts_def journal_quarantine_def passed_def cc_wf_def)

lemma js_quarantine [simp]:
  "js_off (journal_quarantine f j, s) sig = js_off (j, s) sig"
  "js_clean (journal_quarantine f j, s) = js_clean (j, s)"
  by (simp_all add: js_off_def js_clean_def journal_quarantine_def)

lemma js_world:
  "js_off (j, s') sig = js_off (j, s) sig" "js_clean (j, s') = js_clean (j, s)"
  "cs_log s' = cs_log s @ es \<Longrightarrow> last_stored es = None \<Longrightarrow> js_dur (j, s') sig = js_dur (k, s) sig"
  by (simp_all add: js_off_def js_clean_def js_dur_def last_stored_append)

lemma committed_ok_after:
  assumes "committed_ok o' lines x" "pg_committed (ps_progress x) = Some (pg_resolved (ps_progress x))"
    and "js_off (ps_journal x', ps_world x') (of_signal o') = js_off (ps_journal x, ps_world x) (of_signal o')"
    and "js_clean (ps_journal x', ps_world x') = js_clean (ps_journal x, ps_world x)"
    and "plog x' = plog x @ es" "last_stored es = None"
    and "pg_committed (ps_progress x') = pg_committed (ps_progress x)"
    and "pg_resolved (ps_progress x) < pg_resolved (ps_progress x') \<or>
      pg_resolved (ps_progress x') = pg_resolved (ps_progress x) \<and>
      pg_discarded (ps_progress x') = pg_discarded (ps_progress x) \<and>
      pg_committed_discards (ps_progress x') = pg_committed_discards (ps_progress x)"
  shows "committed_ok o' lines x'"
proof -
  have "js_dur (ps_journal x', ps_world x') (of_signal o') = js_dur (ps_journal x, ps_world x) (of_signal o')"
    using assms(5,6) by (rule js_world(3))
  note dur = this
  from assms(1,2) have c: "pg_committed_discards (ps_progress x) = pg_discarded (ps_progress x)"
    "js_clean (ps_journal x, ps_world x)"
    "lines \<noteq> [] \<longrightarrow> js_off (ps_journal x, ps_world x) (of_signal o') = advanced_to lines (pg_resolved (ps_progress x)) (of_end_offset o')"
    "js_dur (ps_journal x, ps_world x) (of_signal o') = None \<and> pg_resolved (ps_progress x) = 0 \<or>
     js_dur (ps_journal x, ps_world x) (of_signal o') = Some (js_off (ps_journal x, ps_world x) (of_signal o'))"
    by (auto simp: committed_ok_def Let_def)
  from assms(8) have "pg_resolved (ps_progress x) \<le> pg_resolved (ps_progress x')"
    "pg_resolved (ps_progress x) = pg_resolved (ps_progress x') \<longrightarrow>
       pg_committed_discards (ps_progress x') = pg_discarded (ps_progress x')"
    using c(1) by auto
  with c(4) show ?thesis
    unfolding committed_ok_def Let_def assms(7) assms(2) option.case dur assms(3,4) by (simp add: c(2,3))
qed

lemma books_after:
  assumes "pass_books o' lines d x" and com: "pg_committed (ps_progress x) = Some (pg_resolved (ps_progress x))"
    and f: "ps_journal x' = journal_quarantine f (ps_journal x)"
    and lg: "plog x' = plog x @ es" "last_stored es = None"
    and pr: "pg_committed (ps_progress x') = pg_committed (ps_progress x)"
      "pg_committed_discards (ps_progress x') = pg_committed_discards (ps_progress x)"
      "pg_resolved (ps_progress x) < pg_resolved (ps_progress x') \<and> pg_discarded (ps_progress x) \<le> pg_discarded (ps_progress x') \<or>
       pg_resolved (ps_progress x') = pg_resolved (ps_progress x) \<and> pg_discarded (ps_progress x') = pg_discarded (ps_progress x)"
  shows "pass_books o' lines d x'"
proof -
  have "js_off (ps_journal x', ps_world x') (of_signal o') = js_off (ps_journal x, ps_world x) (of_signal o')"
    "js_clean (ps_journal x', ps_world x') = js_clean (ps_journal x, ps_world x)"
    by (simp_all add: f js_off_def js_clean_def journal_quarantine_def)
  with assms(1) pr com have "committed_ok o' lines x'"
    by (intro committed_ok_after [OF _ com _ _ lg]) (auto simp: pass_books_def)
  with assms(1) pr show ?thesis by (auto simp: pass_books_def f)
qed

lemma journal_quarantine_id: "j = journal_quarantine (\<lambda>t. t) j"
  by (simp add: journal_quarantine_def)

lemma journal_quarantine_twice: "journal_quarantine f (journal_quarantine g j) = journal_quarantine (\<lambda>t. f (g t)) j"
  by (simp add: journal_quarantine_def)

text \<open>Where the pass may go on behind a record refused on its own, if it may.\<close>

definition decision :: "offer \<Rightarrow> tail_line list \<Rightarrow> nat \<Rightarrow> bool \<Rightarrow> pass_state \<Rightarrow> pass_state \<times> nat option" where
  "decision o' lines R enough x =
     (if \<not> enough then (x, None)
      else if pg_accepted (ps_progress x) > 0 then (x, Some (Suc R))
      else isolate_probe o' (Suc R) (drop (Suc R) lines) x)"

lemma decision_None:
  assumes base: "pass_base o' lines q x" and disk: "on_disk (of_signal o') (plog x)"
    and req: "pg_requests (ps_progress x) \<le> MAX_REQUESTS" and d: "decision o' lines R enough x = (x', None)"
  shows "pass_base o' lines q x' \<and> ps_journal x' = ps_journal x \<and> same_prefix (ps_progress x') (ps_progress x) \<and>
    (\<exists>es. plog x' = plog x @ es \<and> last_stored es = None)"
proof (cases "enough \<and> \<not> pg_accepted (ps_progress x) > 0")
  case False
  with d base show ?thesis by (auto simp: decision_def same_prefix_def split: if_splits)
next
  case True
  with d have "isolate_probe o' (Suc R) (drop (Suc R) lines) x = (x', None)" by (simp add: decision_def)
  from isolate_probe_effect [OF this] have j: "ps_journal x' = ps_journal x" and eff: "same_prefix (ps_progress x') (ps_progress x)"
    "pg_accepted (ps_progress x') = pg_accepted (ps_progress x)"
    "plog x' = plog x \<and> pg_requests (ps_progress x') = pg_requests (ps_progress x) \<or>
     (\<exists>rq offs res. plog x' = plog x @ [Ev_Posted (of_signal o') rq offs res] \<and> \<not> accepts res \<and>
        pg_requests (ps_progress x') = sat_add (pg_requests (ps_progress x)) 1)" by auto
  from eff(3) show ?thesis
  proof (elim disjE exE conjE)
    assume "plog x' = plog x" "pg_requests (ps_progress x') = pg_requests (ps_progress x)"
    moreover from this eff(1,2) have "pass_base o' lines q x'"
      by (intro pass_base_quiet [OF base]) (simp_all add: same_prefix_def j)
    ultimately show ?thesis using j eff(1) by simp
  next
    fix rq offs res
    assume "plog x' = plog x @ [Ev_Posted (of_signal o') rq offs res]" "\<not> accepts res"
      "pg_requests (ps_progress x') = sat_add (pg_requests (ps_progress x)) 1"
    with base_refused [OF base disk req] eff(1,2) j show ?thesis by (simp add: same_prefix_def)
  qed
qed

lemma decision_Some:
  assumes R: "R < length lines" and req: "pg_requests (ps_progress x) \<le> MAX_REQUESTS"
    and d: "decision o' lines R enough x = (x', Some e)"
  obtains pre post es where "enough" "ps_journal x' = ps_journal x" "same_prefix (ps_progress x') (ps_progress x)"
    "pg_accepted (ps_progress x') > 0" "lines ! R # pre @ post = take (e - R) (drop R lines)" "R < e" "e \<le> length lines"
    "\<forall>l \<in> set pre. \<not> line_carries (of_lib o') (of_signal o') (tl_text l)" "plog x' = plog x @ es"
    "post = [] \<and> es = [] \<and> pg_accepted (ps_progress x) > 0 \<and> pg_requests (ps_progress x') = pg_requests (ps_progress x) \<or>
     (\<exists>l rq res. post = [l] \<and> es = [Ev_Posted (of_signal o') rq [tl_offset l] res] \<and> accepts res \<and>
        pg_requests (ps_progress x) \<le> MAX_REQUESTS \<and> pg_requests (ps_progress x') = sat_add (pg_requests (ps_progress x)) 1)"
proof -
  from d have en: "enough" by (auto simp: decision_def split: if_splits)
  show ?thesis
  proof (cases "pg_accepted (ps_progress x) > 0")
    case True
    with d en have "x' = x" "e = Suc R" by (auto simp: decision_def)
    moreover have "lines ! R # [] @ [] = take (Suc R - R) (drop R lines)"
      using R by (simp add: Cons_nth_drop_Suc [symmetric])
    ultimately show ?thesis using True R en by (intro that [of "[]" "[]" "[]"]) (simp_all add: same_prefix_def)
  next
    case False
    with d en have "isolate_probe o' (Suc R) (drop (Suc R) lines) x = (x', Some e)" by (simp add: decision_def)
    from isolate_probe_effect [OF this] obtain pre l post rq res where eff:
      "ps_journal x' = ps_journal x" "same_prefix (ps_progress x') (ps_progress x)"
      "drop (Suc R) lines = pre @ l # post" "e = Suc R + length pre + 1"
      "\<forall>k \<in> set pre. \<not> line_carries (of_lib o') (of_signal o') (tl_text k)"
      "plog x' = plog x @ [Ev_Posted (of_signal o') rq [tl_offset l] res]" "accepts res"
      "pg_accepted (ps_progress x') > 0" "pg_requests (ps_progress x') = sat_add (pg_requests (ps_progress x)) 1" by auto
    have dr: "drop R lines = lines ! R # pre @ l # post" using R eff(3) by (metis Cons_nth_drop_Suc)
    then have "length lines - R = length (lines ! R # pre @ l # post)" by (metis length_drop)
    moreover have "lines ! R # pre @ [l] = take (e - R) (drop R lines)" using dr eff(4) by simp
    ultimately show ?thesis using eff req en
      by (intro that [of pre "[l]" "[Ev_Posted (of_signal o') rq [tl_offset l] res]"]) simp_all
  qed
qed

lemma isolate_refused_eq:
  assumes "R < length lines"
    and "refused (quarantine_key (cl_sha (of_lib o')) (tl_text (lines ! R))) (of_now o') 0
      (cc_quarantine (jr_state (ps_journal x))) = (t, enough)"
    and "decision o' lines R enough (x\<lparr>ps_journal := journal_quarantine (\<lambda>_. t) (ps_journal x)\<rparr>) = (x2, to)"
  shows "isolate_refused o' lines R x =
     (case to of
        Some e \<Rightarrow> (give_up o' (lines ! R) (quarantine_key (cl_sha (of_lib o')) (tl_text (lines ! R))) e x2, True)
      | None \<Rightarrow>
          (stop_with (Stop_held (tl_offset (lines ! R)) enough)
             (on_progress (\<lambda>p. p\<lparr>pg_held := sat_add (pg_held p) 1\<rparr>) x2), False))"
  using assms(1) unfolding isolate_refused_def Let_def assms(2) split_conv assms(3) [unfolded decision_def] by simp

lemma isolate_go:
  assumes ok: "lines_ok o' lines" and R: "R = pg_resolved (ps_progress x)" "R < length lines"
    and go: "pass_go o' lines q d x" and disk: "on_disk (of_signal o') (plog x)"
    and few: "pg_discarded (ps_progress x) < pg_requests (ps_progress x)"
    and req: "pg_requests (ps_progress x) \<le> MAX_REQUESTS"
    and com: "pg_committed (ps_progress x) = Some (pg_resolved (ps_progress x))"
    and i: "isolate_refused o' lines R x = (x', b)"
  shows "if b then pass_go o' lines q d x' \<and> R < pg_resolved (ps_progress x')
    else pass_halt o' lines q d x'"
proof -
  let ?l = "lines ! R" and ?q = "cc_quarantine (jr_state (ps_journal x))"
  let ?key = "quarantine_key (cl_sha (of_lib o')) (tl_text ?l)"
  obtain t enough where rf: "refused ?key (of_now o') 0 ?q = (t, enough)" by fastforce
  define x1 where "x1 = x\<lparr>ps_journal := journal_quarantine (\<lambda>_. t) (ps_journal x)\<rparr>"
  have x1: "plog x1 = plog x" "ps_progress x1 = ps_progress x" "ps_journal x1 = journal_quarantine (\<lambda>_. t) (ps_journal x)"
    by (simp_all add: x1_def)
  obtain x2 to where to: "decision o' lines R enough x1 = (x2, to)" by fastforce
  note res = isolate_refused_eq [OF R(2) rf to [unfolded x1_def], unfolded i]
  from go have base: "pass_base o' lines q x1"
    by (intro pass_base_quiet [of o' lines q x x1]) (simp_all add: pass_go_def x1 journal_quarantine_def)
  have disk1: "on_disk (of_signal o') (plog x1)" and req1: "pg_requests (ps_progress x1) \<le> MAX_REQUESTS"
    using disk req by (simp_all add: x1)
  show ?thesis
  proof (cases to)
    case None
    from decision_None [OF base disk1 req1 to [unfolded None]] obtain es where n: "pass_base o' lines q x2"
      "ps_journal x2 = ps_journal x1" "same_prefix (ps_progress x2) (ps_progress x1)" "plog x2 = plog x1 @ es"
      "last_stored es = None" by auto
    have "pass_books o' lines d x2"
      using go n by (intro books_after [OF _ com, where x' = x2 and es = es and f = "\<lambda>_. t"]) (simp_all add: pass_go_def x1 same_prefix_def)
    with None res n(1) show ?thesis by (simp add: pass_halt_def)
  next
    case (Some e)
    with res have b: "b" and x': "x' = give_up o' ?l ?key e x2" by simp_all
    from decision_Some [OF R(2) req1 to [unfolded Some]] obtain pre post es where en: "enough"
      and eff1: "ps_journal x2 = ps_journal x1" "same_prefix (ps_progress x2) (ps_progress x1)" "pg_accepted (ps_progress x2) > 0"
      and e: "?l # pre @ post = take (e - R) (drop R lines)" "R < e" "e \<le> length lines"
        "\<forall>l \<in> set pre. \<not> line_carries (of_lib o') (of_signal o') (tl_text l)" and lg: "plog x2 = plog x1 @ es"
        "post = [] \<and> es = [] \<and> pg_accepted (ps_progress x1) > 0 \<and> pg_requests (ps_progress x2) = pg_requests (ps_progress x1) \<or>
         (\<exists>l rq res. post = [l] \<and> es = [Ev_Posted (of_signal o') rq [tl_offset l] res] \<and> accepts res \<and>
            pg_requests (ps_progress x1) \<le> MAX_REQUESTS \<and> pg_requests (ps_progress x2) = sat_add (pg_requests (ps_progress x1)) 1)" .
    note eff = eff1 [unfolded x1(2)]
    from refused_eligible rf en obtain en0 where "map_of ?q ?key = Some en0" "refusals en0 \<ge> 1" by metis
    with go have ref: "refused_before o' q ?l" by (auto simp: refused_before_def pass_go_def)
    have p': "ps_progress x' = (ps_progress x2)\<lparr>pg_discarded := sat_add (pg_discarded (ps_progress x2)) 1, pg_resolved := e\<rparr>"
      and j': "ps_journal x' = journal_quarantine (forget ?key) (ps_journal x1)"
      and lg': "plog x' = plog x1 @ es @ [Ev_Gave_up (of_signal o') (tl_offset ?l)]"
      using eff lg by (simp_all add: x' give_up_def on_progress_def cs_logged_def)
    have dis: "pg_discarded (ps_progress x') = Suc (pg_discarded (ps_progress x1))"
      using eff(2) few req by (simp add: p' x1 same_prefix_def sat_add_small)
    have base': "pass_base o' lines q x'"
      using lg(2) R(1) few dis by (intro base_gave_up [OF ok base disk1 _ R(2) _ ref e lg']) (auto simp: p' j' eff x1 journal_quarantine_def)
    have ls: "last_stored (es @ [Ev_Gave_up (of_signal o') (tl_offset ?l)]) = None" using lg(2) by auto
    have "pg_resolved (ps_progress x) < e" using e(2) R(1) by simp
    then have "pass_books o' lines d x'"
      using go eff(2) dis
      by (intro books_after [OF _ com, where x' = x' and es = "es @ [Ev_Gave_up (of_signal o') (tl_offset ?l)]"
          and f = "\<lambda>_. forget ?key t"])
        (simp_all add: pass_go_def p' j' x1 lg' ls same_prefix_def journal_quarantine_twice)
    moreover have "map_of q k = Some en" if "map_of (cc_quarantine (jr_state (ps_journal x'))) k = Some en" for k en
      using that refused_forget [OF rf] go by (simp add: j' x1 journal_quarantine_def pass_go_def)
    ultimately have "pass_go o' lines q d x'"
      using base' eff go by (auto simp: pass_go_def p' same_prefix_def)
    with b e(2) show ?thesis by (simp add: p')
  qed
qed

text \<open>The stack holds consecutive ranges up to the end of the lines.\<close>

fun chain :: "nat \<Rightarrow> (nat \<times> nat) list \<Rightarrow> nat \<Rightarrow> bool" where
  "chain a [] n \<longleftrightarrow> a = n"
| "chain a ((s, e) # st) n \<longleftrightarrow> s = a \<and> s \<le> e \<and> chain e st n"

lemma chain_le: "chain a st n \<Longrightarrow> a \<le> n"
  by (induction a st n rule: chain.induct) auto

lemma go_step:
  assumes go: "pass_go o' lines q d x" and com: "pg_committed (ps_progress x) = Some (pg_resolved (ps_progress x))"
    and base: "pass_base o' lines q x'" and req: "pg_requests (ps_progress x') \<le> MAX_REQUESTS"
    and j: "ps_journal x' = ps_journal x" and lg: "plog x' = plog x @ es" "last_stored es = None"
    and pr: "pg_stopped (ps_progress x') = pg_stopped (ps_progress x)" "pg_committed (ps_progress x') = pg_committed (ps_progress x)"
      "pg_committed_discards (ps_progress x') = pg_committed_discards (ps_progress x)"
      "pg_discarded (ps_progress x') = pg_discarded (ps_progress x)"
      "pg_resolved (ps_progress x) \<le> pg_resolved (ps_progress x')"
  shows "pass_go o' lines q d x'"
proof -
  have jq: "ps_journal x' = journal_quarantine (\<lambda>t. t) (ps_journal x)" unfolding j by (rule journal_quarantine_id)
  from pr(4,5) have le: "pg_resolved (ps_progress x) < pg_resolved (ps_progress x') \<and> pg_discarded (ps_progress x) \<le> pg_discarded (ps_progress x') \<or>
      pg_resolved (ps_progress x') = pg_resolved (ps_progress x) \<and> pg_discarded (ps_progress x') = pg_discarded (ps_progress x)" by linarith
  from go have "pass_books o' lines d x" by (simp add: pass_go_def)
  from books_after [OF this com jq lg pr(2,3) le] have "pass_books o' lines d x'" .
  with go base req j pr show ?thesis by (simp add: pass_go_def)
qed

lemma base_nothing:
  assumes ok: "lines_ok o' lines" and base: "pass_base o' lines q x" and e: "pg_resolved (ps_progress x) \<le> e" "e \<le> length lines"
    and none: "\<forall>l \<in> set (take (e - pg_resolved (ps_progress x)) (drop (pg_resolved (ps_progress x)) lines)).
      \<not> line_carries (of_lib o') (of_signal o') (tl_text l)"
  shows "pass_base o' lines q (on_progress (\<lambda>p. p\<lparr>pg_resolved := e\<rparr>) x)"
proof -
  have "fates (of_lib o') (of_signal o') lines e (plog x @ [])"
    using base e(1) none by (intro fates_extend [OF _ lines_ok_distinct [OF ok]]) (auto simp: pass_base_def Let_def)
  moreover have "advanced_to lines (pg_resolved (ps_progress x)) (of_end_offset o') \<le> advanced_to lines e (of_end_offset o')"
    using e by (intro advanced_to_le [OF ok])
  ultimately show ?thesis using base e by (auto simp: pass_base_def on_progress_def Let_def)
qed

lemma range_post:
  assumes ok: "lines_ok o' lines" and go: "pass_go o' lines q d x"
    and com: "pg_committed (ps_progress x) = Some (pg_resolved (ps_progress x))"
    and req: "pg_requests (ps_progress x) < MAX_REQUESTS" and b: "export_build (of_lib o') sl (of_signal o') = Some (pl, records)"
    and sl: "sl = take (e - pg_resolved (ps_progress x)) (drop (pg_resolved (ps_progress x)) lines)"
    and e: "pg_resolved (ps_progress x) < e" "e \<le> length lines"
    and p: "export_post o' sl pl x = (x1, v)"
  shows "if v = Inr Accepted
     then pass_go o' lines q d (on_progress (\<lambda>p. p\<lparr>pg_accepted := sat_add (pg_accepted p) records, pg_resolved := e\<rparr>) x1)
     else pass_go o' lines q d x1 \<and> on_disk (of_signal o') (plog x1) \<and> pg_discarded (ps_progress x1) < pg_requests (ps_progress x1) \<and>
       pg_requests (ps_progress x1) \<le> MAX_REQUESTS \<and> pg_committed (ps_progress x1) = Some (pg_resolved (ps_progress x1)) \<and>
       pg_resolved (ps_progress x1) = pg_resolved (ps_progress x)"
proof -
  from export_post_effect [OF p] obtain rq res where eff:
    "plog x1 = plog x @ [Ev_Posted (of_signal o') rq (map tl_offset sl) res]" "v = answer_of res" "ps_journal x1 = ps_journal x"
    "ps_progress x1 = (ps_progress x)\<lparr>pg_requests := sat_add (pg_requests (ps_progress x)) 1\<rparr>" .
  from go have base: "pass_base o' lines q x" and cok: "committed_ok o' lines x" by (simp_all add: pass_go_def pass_books_def)
  have disk: "on_disk (of_signal o') (plog x)" by (rule on_disk_committed [OF ok base cok com])
  have req': "pg_requests (ps_progress x1) \<le> MAX_REQUESTS" using req by (simp add: eff(4) sat_add_small)
  show ?thesis
  proof (cases "v = Inr Accepted")
    case True
    then have acc: "accepts res" using eff(2) answer_accepts by metis
    let ?x = "on_progress (\<lambda>p. p\<lparr>pg_accepted := sat_add (pg_accepted p) records, pg_resolved := e\<rparr>) x1"
    have "records > 0" by (rule export_build_records [OF b])
    then have "pass_base o' lines q ?x"
      using eff acc req e sl
      by (intro base_accepted [OF ok base disk, of e ?x rq res]) (simp_all add: on_progress_def sat_add_pos)
    from go_step [OF go com this _ _, of "[Ev_Posted (of_signal o') rq (map tl_offset sl) res]"] True eff req' e show ?thesis
      by (simp add: on_progress_def)
  next
    case False
    then have "\<not> accepts res" using eff(2) answer_accepts by metis
    with base_refused [OF base disk, of x1 rq "map tl_offset sl" res] eff req
    have r: "pass_base o' lines q x1" "on_disk (of_signal o') (plog x1)" "pg_discarded (ps_progress x1) < pg_requests (ps_progress x1)"
      by simp_all
    from go_step [OF go com r(1) req' eff(3) eff(1)] eff(4) have "pass_go o' lines q d x1" by simp
    with False r req' eff(4) com show ?thesis by simp
  qed
qed

definition turn_ok :: "offer \<Rightarrow> tail_line list \<Rightarrow> quarantine \<Rightarrow> nat \<Rightarrow> (nat \<times> nat) list \<Rightarrow> pass_state \<times> turn \<Rightarrow> bool" where
  "turn_ok o' lines q d stack r \<longleftrightarrow>
     (case snd r of
        Halt \<Rightarrow> pass_halt o' lines q d (fst r)
      | Go ps \<Rightarrow> pass_go o' lines q d (fst r) \<and>
          (\<exists>a \<le> pg_resolved (ps_progress (fst r)). chain a (ps @ stack) (length lines)))"

lemma halt_stop: "pass_go o' lines q d x \<Longrightarrow> pass_halt o' lines q d (stop_with e x)"
  by (simp add: pass_halt_def pass_go_def)

lemma range_turn:
  assumes ok: "lines_ok o' lines" and go: "pass_go o' lines q d x"
    and com: "pg_committed (ps_progress x) = Some (pg_resolved (ps_progress x))"
    and ch: "chain a (rng # stack) (length lines)" "a \<le> pg_resolved (ps_progress x)"
  shows "turn_ok o' lines q d stack (signal_range o' lines rng x)"
proof -
  let ?R = "pg_resolved (ps_progress x)"
  obtain e where rng: "rng = (a, e)" and e: "e \<le> length lines" "chain e stack (length lines)"
    using ch(1) by (cases rng) (auto dest: chain_le)
  have mx: "max a ?R = ?R" using ch(2) by simp
  from go have base: "pass_base o' lines q x" by (simp add: pass_go_def)
  show ?thesis
  proof (cases "?R < e \<and> pg_requests (ps_progress x) < MAX_REQUESTS")
    case False
    with halt_stop [OF go] go e ch show ?thesis
      by (auto simp: signal_range_def rng mx Let_def turn_ok_def intro: exI [of _ e])
  next
    case True
    let ?sl = "take (e - ?R) (drop ?R lines)"
    show ?thesis
    proof (cases "export_build (of_lib o') ?sl (of_signal o')")
      case None
      with True e have r: "signal_range o' lines rng x = (on_progress (\<lambda>p. p\<lparr>pg_resolved := e\<rparr>) x, Go [])"
        by (simp add: signal_range_def rng mx Let_def)
      have "pass_base o' lines q (on_progress (\<lambda>p. p\<lparr>pg_resolved := e\<rparr>) x)"
        using None True e by (intro base_nothing [OF ok base]) (simp_all add: export_build_carries)
      from go_step [OF go com this, of "[]"] True e show ?thesis
        by (auto simp: r turn_ok_def on_progress_def intro: exI [of _ e])
    next
      case (Some b)
      obtain pl records where b: "b = (pl, records)" by (cases b)
      obtain x1 v where p: "export_post o' ?sl pl x = (x1, v)" by fastforce
      note post = range_post [OF ok go com _ Some [unfolded b] refl _ e(1) p]
      note r = signal_range_def [of o' lines rng x, unfolded Let_def rng fst_conv snd_conv mx]
      consider (failed) er where "v = Inl er" | (accepted) "v = Inr Accepted" | (refused) st where "v = Inr (Refused st)"
        by (cases v) (auto, metis verdict.exhaust)
      then show ?thesis
      proof cases
        case failed
        with post True Some b p e halt_stop [of o' lines q d x1] show ?thesis by (simp add: rng r turn_ok_def)
      next
        case accepted
        with post True Some b p e show ?thesis
          by (auto simp: rng r turn_ok_def on_progress_def intro: exI [of _ e])
      next
        case refused
        with post True have x1: "pass_go o' lines q d x1" "on_disk (of_signal o') (plog x1)"
          "pg_discarded (ps_progress x1) < pg_requests (ps_progress x1)" "pg_requests (ps_progress x1) \<le> MAX_REQUESTS"
          "pg_committed (ps_progress x1) = Some (pg_resolved (ps_progress x1))" "pg_resolved (ps_progress x1) = ?R"
          by simp_all
        show ?thesis
        proof (cases "e - ?R > 1")
          case True
          with refused Some b p e x1 show ?thesis
            using \<open>?R < e \<and> _\<close> by (auto simp: rng r turn_ok_def Let_def intro: exI [of _ ?R])
        next
          case False
          obtain x2 c where i: "isolate_refused o' lines ?R x1 = (x2, c)" by fastforce
          have "if c then pass_go o' lines q d x2 \<and> ?R < pg_resolved (ps_progress x2)
              else pass_halt o' lines q d x2"
            using True e by (intro isolate_go [OF ok _ _ x1(1-5) i]) (simp_all add: x1(6))
          moreover have "signal_range o' lines rng x = (x2, if c then Go [] else Halt)"
            using refused Some b p e i True False by (simp add: rng r)
          moreover from False True have "e = Suc ?R" by linarith
          ultimately show ?thesis using e by (auto simp: turn_ok_def intro: exI [of _ e] split: if_splits)
        qed
      qed
    qed
  qed
qed

lemma turn_go:
  assumes ok: "lines_ok o' lines" and go: "pass_go o' lines q d x"
    and ch: "chain a (rng # stack) (length lines)" "a \<le> pg_resolved (ps_progress x)"
  shows "turn_ok o' lines q d stack (signal_turn o' lines rng x)"
proof -
  obtain x1 r where c: "export_commit o' lines x = (x1, r)" by fastforce
  show ?thesis
  proof (cases r)
    case (Inl e)
    have "pass_base o' lines q x1" using commit_base [OF ok _ c] go by (simp add: pass_go_def)
    with Inl c show ?thesis by (simp add: signal_turn_def turn_ok_def pass_halt_def)
  next
    case (Inr u)
    from commit_go [OF ok go c [unfolded Inr]] have "pass_go o' lines q d x1"
      "pg_committed (ps_progress x1) = Some (pg_resolved (ps_progress x1))" by simp_all
    from range_turn [OF ok this ch(1)] ch(2) commit_progress(1) [OF c] Inr c show ?thesis
      by (simp add: signal_turn_def)
  qed
qed

section \<open>The whole pass\<close>

lemma loop_ok:
  assumes "lines_ok o' lines" "pass_go o' lines q d x" "chain a stack (length lines)" "a \<le> pg_resolved (ps_progress x)"
  shows "pass_halt o' lines q d (signal_loop o' lines stack x) \<or>
     pass_go o' lines q d (signal_loop o' lines stack x) \<and>
     pg_resolved (ps_progress (signal_loop o' lines stack x)) = length lines"
  using assms
proof (induction o' lines stack x arbitrary: a rule: signal_loop.induct)
  case (1 o' lines x)
  then have "pg_resolved (ps_progress x) = length lines"
    by (simp add: pass_go_def pass_base_def Let_def)
  with 1 show ?case by (simp add: signal_loop.simps)
next
  case (2 o' lines rng stack x)
  obtain x' tn where t: "signal_turn o' lines rng x = (x', tn)" by fastforce
  from turn_go [OF "2.prems"] t have ok: "turn_ok o' lines q d stack (x', tn)" by simp
  show ?case
  proof (cases tn)
    case Halt
    with ok t show ?thesis by (simp add: signal_loop.simps turn_ok_def)
  next
    case (Go ps)
    with ok obtain a' where "pass_go o' lines q d x'" "chain a' (ps @ stack) (length lines)" "a' \<le> pg_resolved (ps_progress x')"
      by (auto simp: turn_ok_def)
    from "2.IH" [OF t [symmetric] Go "2.prems"(1) this] t Go show ?thesis by (simp add: signal_loop.simps)
  qed
qed

definition pass_ready :: "offer \<Rightarrow> tail_line list \<Rightarrow> journal \<Rightarrow> cp_state \<Rightarrow> bool" where
  "pass_ready o' lines j s \<longleftrightarrow>
     lines_ok o' lines \<and> cs_log s = [] \<and>
     (\<forall>l \<in> set lines. signal_offset (jr_state j) (of_signal o') \<le> tl_offset l)"

lemma pass_start:
  assumes "pass_ready o' lines j s" "accounts (of_lib o') d j"
  shows "pass_go o' lines (cc_quarantine (jr_state j)) d \<lparr>ps_progress = progress_default, ps_journal = j, ps_world = s\<rparr>"
proof -
  have "lines \<noteq> [] \<longrightarrow> signal_offset (jr_state j) (of_signal o') \<le> advanced_to lines 0 (of_end_offset o')"
    using assms(1) by (auto simp: pass_ready_def js_off_def advanced_to_def)
  with assms show ?thesis
    by (simp add: pass_go_def pass_base_def pass_books_def committed_ok_def progress_default_def fates_def pass_ready_def
        js_off_def Let_def)
qed

lemma export_signal_ok:
  assumes ready: "pass_ready o' lines j s" and acc: "accounts (of_lib o') d j"
    and x: "x = export_signal o' lines j s"
  shows "pass_base o' lines (cc_quarantine (jr_state j)) x"
    and "pg_stopped (ps_progress x) = None \<longrightarrow>
      pg_resolved (ps_progress x) = length lines \<and> pg_committed (ps_progress x) = Some (pg_resolved (ps_progress x))"
    and "pg_committed (ps_progress x) = Some (pg_resolved (ps_progress x)) \<and> (\<nexists>e. pg_stopped (ps_progress x) = Some (Stop_commit e)) \<longrightarrow>
      pass_books o' lines d x"
proof -
  let ?q = "cc_quarantine (jr_state j)"
  define y where "y = signal_loop o' lines [(0, length lines)] \<lparr>ps_progress = progress_default, ps_journal = j, ps_world = s\<rparr>"
  from ready have ok: "lines_ok o' lines" by (simp add: pass_ready_def)
  have y: "pass_halt o' lines ?q d y \<or> pass_go o' lines ?q d y \<and> pg_resolved (ps_progress y) = length lines"
    unfolding y_def by (rule loop_ok [OF ok pass_start [OF ready acc], of 0]) simp_all
  then have base: "pass_base o' lines ?q y" by (auto simp: pass_halt_def pass_go_def)
  obtain z r where c: "export_commit o' lines y = (z, r)" by fastforce
  have bz: "pass_base o' lines ?q z" by (rule commit_base [OF ok base c])
  have xz: "x = (case r of Inl e \<Rightarrow> on_progress (\<lambda>p. p\<lparr>pg_stopped := Some (case pg_stopped p of Some e' \<Rightarrow> e' | None \<Rightarrow> Stop_commit e)\<rparr>) z
      | Inr _ \<Rightarrow> z)"
    using c by (simp add: x export_signal_def y_def [symmetric] split: sum.splits)
  note pz = commit_progress [OF c]
  show "pass_base o' lines ?q x"
  proof (cases r)
    case (Inl e)
    from bz show ?thesis by (simp add: xz Inl pass_base_def on_progress_def Let_def)
  next
    case (Inr u)
    with bz xz show ?thesis by simp
  qed
  show "pg_stopped (ps_progress x) = None \<longrightarrow>
      pg_resolved (ps_progress x) = length lines \<and> pg_committed (ps_progress x) = Some (pg_resolved (ps_progress x))"
  proof (cases r)
    case (Inr u)
    from y pz(1,5) have "pg_stopped (ps_progress z) = None \<longrightarrow> pg_resolved (ps_progress z) = length lines"
      by (auto simp: pass_halt_def)
    moreover have "pg_committed (ps_progress z) = Some (pg_resolved (ps_progress z))"
      using c Inr by (auto simp: export_commit_def Let_def split: if_splits prod.splits sum.splits)
    ultimately show ?thesis by (simp add: xz Inr)
  qed (simp add: xz on_progress_def)
  show "pg_committed (ps_progress x) = Some (pg_resolved (ps_progress x)) \<and> (\<nexists>e. pg_stopped (ps_progress x) = Some (Stop_commit e)) \<longrightarrow>
      pass_books o' lines d x"
  proof (cases r)
    case (Inl e)
    then have "pg_committed (ps_progress z) \<noteq> Some (pg_resolved (ps_progress z))"
      using c by (auto simp: export_commit_def Let_def split: if_splits prod.splits sum.splits)
    then show ?thesis by (simp add: xz Inl on_progress_def)
  next
    case (Inr u)
    have "(\<nexists>e. pg_stopped (ps_progress z) = Some (Stop_commit e)) \<longrightarrow> pass_books o' lines d y"
      using y pz(5) by (auto simp: pass_halt_def pass_go_def)
    with commit_books [OF ok base _ c [unfolded Inr]] show ?thesis by (simp add: xz Inr)
  qed
qed

end
