(* ===== verification/Copilot_Drain_Correct.thy ===== *)
theory Copilot_Drain_Correct
  imports Copilot_Drain Copilot_Export_Correct
begin

text \<open>
  What a sweep and a wake of the Copilot drain do. The pass over one signal neither reads the log nor
  touches the other signal's offset (\<open>pass_steps\<close>), so the two passes of a sweep compose; a
  sweep keeps every promise of the passes for both signals, and reclaims only what is delivered.
\<close>

section \<open>The log is only written\<close>

definition cs_after :: "cp_event list \<Rightarrow> cp_state \<Rightarrow> cp_state" where
  "cs_after es s = s\<lparr>cs_log := es @ cs_log s\<rparr>"

definition ps_after :: "cp_event list \<Rightarrow> pass_state \<Rightarrow> pass_state" where
  "ps_after es x = x\<lparr>ps_world := cs_after es (ps_world x)\<rparr>"

lemma cs_after_simps [simp]:
  "cs_log (cs_after es s) = es @ cs_log s" "cs_now (cs_after es s) = cs_now s"
  "cs_stored (cs_after es s) = cs_stored s" "cs_file (cs_after es s) = cs_file s"
  "cs_tick (cs_after es s) = cs_after es (cs_tick s)" "cs_logged fs (cs_after es s) = cs_after es (cs_logged fs s)"
  "(cs_after es s)\<lparr>cs_stored := st\<rparr> = cs_after es (s\<lparr>cs_stored := st\<rparr>)"
  by (simp_all add: cs_after_def cs_tick_def cs_logged_def)

lemma ps_after_simps [simp]:
  "ps_progress (ps_after es x) = ps_progress x" "ps_journal (ps_after es x) = ps_journal x"
  "ps_world (ps_after es x) = cs_after es (ps_world x)"
  "on_progress f (ps_after es x) = ps_after es (on_progress f x)" "stop_with e (ps_after es x) = ps_after es (stop_with e x)"
  "(ps_after es x)\<lparr>ps_journal := j\<rparr> = ps_after es (x\<lparr>ps_journal := j\<rparr>)"
  "(ps_after es x)\<lparr>ps_progress := p\<rparr> = ps_after es (x\<lparr>ps_progress := p\<rparr>)"
  "(ps_after es x)\<lparr>ps_world := cs_after es s\<rparr> = ps_after es (x\<lparr>ps_world := s\<rparr>)"
  by (simp_all add: ps_after_def on_progress_def stop_with_def)

named_theorems log_frame

lemma durable_store_after [log_frame]: "durable_store out c (cs_after es s) = apfst (cs_after es) (durable_store out c s)"
  by (simp add: durable_store_def Let_def)

lemma journal_commit_after [log_frame]:
  "journal_commit out j (cs_after es s) = apfst (apsnd (cs_after es)) (journal_commit out j s)"
  by (simp add: journal_commit_def log_frame Let_def split: prod.splits sum.splits)

lemma journal_advance_after [log_frame]:
  "journal_advance out lib sig r n (j, cs_after es s) = apfst (apsnd (cs_after es)) (journal_advance out lib sig r n (j, s))"
  by (simp add: journal_advance_def log_frame Let_def split: prod.splits sum.splits)

lemma export_commit_after [log_frame]:
  "export_commit o' lines (ps_after es x) = apfst (ps_after es) (export_commit o' lines x)"
  by (simp add: export_commit_def log_frame Let_def split: prod.splits sum.splits)

lemma export_post_after [log_frame]:
  "export_post o' sl pl (ps_after es x) = apfst (ps_after es) (export_post o' sl pl x)"
  by (simp add: export_post_def push_post_def Let_def)

lemma isolate_probe_after [log_frame]:
  "isolate_probe o' n rest (ps_after es x) = apfst (ps_after es) (isolate_probe o' n rest x)"
  by (induction o' n rest x rule: isolate_probe.induct)
    (simp_all add: log_frame split: option.splits prod.splits sum.splits verdict.splits)

lemma give_up_after [log_frame]: "give_up o' l key e (ps_after es x) = ps_after es (give_up o' l key e x)"
  by (simp add: give_up_def)

lemma isolate_refused_after [log_frame]:
  "isolate_refused o' lines i (ps_after es x) = apfst (ps_after es) (isolate_refused o' lines i x)"
  by (simp add: isolate_refused_def log_frame Let_def split: prod.splits option.splits)

lemma signal_range_after [log_frame]:
  "signal_range o' lines rng (ps_after es x) = apfst (ps_after es) (signal_range o' lines rng x)"
proof -
  let ?st = "max (fst rng) (pg_resolved (ps_progress x))"
  let ?sl = "take (snd rng - ?st) (drop ?st lines)"
  show ?thesis
  proof (cases "export_build (of_lib o') ?sl (of_signal o')")
    case None
    then show ?thesis by (simp add: signal_range_def Let_def)
  next
    case (Some y)
    obtain pl records where y: "y = (pl, records)" by (cases y)
    obtain x1 v where p: "export_post o' ?sl pl x = (x1, v)" by fastforce
    obtain x2 c where i: "isolate_refused o' lines ?st x1 = (x2, c)" by fastforce
    from Some y p i show ?thesis
      by (simp add: signal_range_def log_frame Let_def split: sum.splits verdict.splits)
  qed
qed

lemma signal_turn_after [log_frame]:
  "signal_turn o' lines rng (ps_after es x) = apfst (ps_after es) (signal_turn o' lines rng x)"
  by (simp add: signal_turn_def log_frame split: prod.splits sum.splits)

lemma signal_loop_after [log_frame]:
  "signal_loop o' lines stack (ps_after es x) = ps_after es (signal_loop o' lines stack x)"
proof (induction o' lines stack x rule: signal_loop.induct)
  case (2 o' lines rng stack x)
  then show ?case by (auto simp: signal_loop.simps log_frame split: prod.splits turn.splits)
qed (simp add: signal_loop.simps)

lemma export_signal_after [log_frame]:
  "export_signal o' lines j (cs_after es s) = ps_after es (export_signal o' lines j s)"
proof -
  have i: "\<lparr>ps_progress = progress_default, ps_journal = j, ps_world = cs_after es s\<rparr> =
      ps_after es \<lparr>ps_progress = progress_default, ps_journal = j, ps_world = s\<rparr>"
    by (simp add: ps_after_def)
  show ?thesis
    unfolding export_signal_def i log_frame by (simp add: log_frame Let_def split: prod.splits sum.splits)
qed

section \<open>What every step of a pass keeps\<close>

locale pass_steps =
  fixes o' :: offer and P :: "journal \<Rightarrow> cp_state \<Rightarrow> bool"
  assumes post: "P j s \<Longrightarrow> P j (fst (push_post (of_out o') (of_base o') (of_signal o') (of_bearer o') pl offs s))"
    and advance: "P j s \<Longrightarrow> journal_advance (of_out o') (of_lib o') (of_signal o') reached n (j, s) = ((j', s'), r) \<Longrightarrow> P j' s'"
    and quarantine: "P j s \<Longrightarrow> P (journal_quarantine f j) s"
    and gave_up: "P j s \<Longrightarrow> P j (cs_logged [Ev_Gave_up (of_signal o') off] s)"
begin

abbreviation Q :: "pass_state \<Rightarrow> bool" where
  "Q x \<equiv> P (ps_journal x) (ps_world x)"

lemma progress_irrelevant [simp]: "Q (on_progress f x) = Q x" "Q (stop_with e x) = Q x"
  by (simp_all add: on_progress_def stop_with_def)

lemma commit: "Q x \<Longrightarrow> export_commit o' lines x = (x', r) \<Longrightarrow> Q x'"
  by (auto simp: export_commit_def Let_def split: if_splits prod.splits sum.splits dest: advance)

lemma posted: "Q x \<Longrightarrow> export_post o' sl pl x = (x', r) \<Longrightarrow> Q x'"
  using post by (auto simp: export_post_def Let_def on_progress_def split: prod.splits) (metis fst_conv)

lemma probed: "isolate_probe o' n rest x = (x', r) \<Longrightarrow> Q x \<Longrightarrow> Q x'"
proof (induction rest arbitrary: n x)
  case (Cons l rest)
  then show ?case
    by (auto split: option.splits prod.splits sum.splits verdict.splits dest: posted)
qed auto

lemma gave: "Q x \<Longrightarrow> Q (give_up o' l key e x)"
  by (simp add: give_up_def quarantine gave_up)

lemma isolated:
  assumes "Q x" "isolate_refused o' lines i x = (x', r)"
  shows "Q x'"
proof -
  have q: "Q (x\<lparr>ps_journal := journal_quarantine f (ps_journal x)\<rparr>)" for f using assms(1) by (simp add: quarantine)
  note q' = q [simplified]
  from assms show ?thesis
    by (auto simp: isolate_refused_def Let_def intro!: gave q q'
        dest!: probed [OF _ q] split: if_splits prod.splits option.splits)
qed

lemma ranged: "Q x \<Longrightarrow> signal_range o' lines rng x = (x', r) \<Longrightarrow> Q x'"
  by (auto simp: signal_range_def Let_def split: if_splits option.splits prod.splits sum.splits verdict.splits
      dest: posted isolated)

lemma turned: "Q x \<Longrightarrow> signal_turn o' lines rng x = (x', r) \<Longrightarrow> Q x'"
  by (auto simp: signal_turn_def split: prod.splits sum.splits dest: commit ranged)

lemma looped: "Q x \<Longrightarrow> Q (signal_loop o' lines stack x)"
proof (induction oo\<equiv>o' lines stack x rule: signal_loop.induct)
  case (2 lines rng stack x)
  then show ?case by (auto simp: signal_loop.simps split: prod.splits turn.splits dest: turned)
qed (simp add: signal_loop.simps)

lemma passed_over: "P j s \<Longrightarrow> Q (export_signal o' lines j s)"
  using looped [of "\<lparr>ps_progress = progress_default, ps_journal = j, ps_world = s\<rparr>" lines "[(0, length lines)]"]
  by (auto simp: export_signal_def Let_def split: prod.splits sum.splits dest: commit)

end

text \<open>A pass posts and gives up for its own signal only, and a checkpoint it stores leaves the other
  signal's offset where the pass found it. What is on disk is the last checkpoint of the log.\<close>

fun ev_own :: "cp_signal \<Rightarrow> cp_checkpoint \<Rightarrow> cp_event \<Rightarrow> bool" where
  "ev_own sig c0 (Ev_Posted sig' rq offs res) \<longleftrightarrow> sig' = sig"
| "ev_own sig c0 (Ev_Gave_up sig' off) \<longleftrightarrow> sig' = sig"
| "ev_own sig c0 (Ev_Stored c) \<longleftrightarrow> cc_wf c \<and> (\<forall>sig'. sig' \<noteq> sig \<longrightarrow> signal_offset c sig' = signal_offset c0 sig')"
| "ev_own sig c0 (Ev_Truncated n) \<longleftrightarrow> False"

lemma posts_for_other: "\<forall>e \<in> set es. ev_own sig c0 e \<Longrightarrow> sig' \<noteq> sig \<Longrightarrow> posts_for sig' es = 0"
proof -
  have "ev_own sig c0 e \<Longrightarrow> sig' \<noteq> sig \<Longrightarrow> \<not> is_post_for sig' e" for e by (cases e) simp_all
  then show "\<forall>e \<in> set es. ev_own sig c0 e \<Longrightarrow> sig' \<noteq> sig \<Longrightarrow> posts_for sig' es = 0"
    by (auto simp: posts_for_def filter_empty_conv)
qed

definition stored_by :: "stored \<Rightarrow> cp_event list \<Rightarrow> stored" where
  "stored_by st es = (case last_stored es of Some c \<Rightarrow> Stored c | None \<Rightarrow> st)"

lemma stored_by_simps [simp]:
  "stored_by st [] = st" "stored_by st (es @ [Ev_Stored c]) = Stored c"
  "\<nexists>c. e = Ev_Stored c \<Longrightarrow> stored_by st (es @ [e]) = stored_by st es"
  by (auto simp: stored_by_def last_stored_append split: option.splits cp_event.splits)

lemma stored_by_append: "stored_by st (xs @ ys) = stored_by (stored_by st xs) ys"
  by (simp add: stored_by_def last_stored_append split: option.splits)

lemma durable_store_state:
  assumes "durable_store out c s = (s', r)" "cs_stored s = stored_by st (cs_log s)"
  shows "cs_stored s' = stored_by st (cs_log s')" "cs_file s' = cs_file s"
  using assms by (auto simp: durable_store_def cs_tick_def cs_logged_def Let_def split: if_splits)

lemma journal_commit_disk:
  assumes "journal_commit out j s = ((j', s'), r)"
  shows "cs_stored s = stored_by st (cs_log s) \<Longrightarrow> cs_stored s' = stored_by st (cs_log s')" "cs_file s' = cs_file s"
proof -
  let ?c = "(jr_state j)\<lparr>cc_spool := jr_identity j\<rparr>"
  obtain s1 q where st: "durable_store out ?c s = (s1, q)" by fastforce
  with assms have s': "s' = s \<or> s' = s1" by (auto simp: journal_commit_def Let_def split: if_splits sum.splits)
  have "cs_file s1 = cs_file s" using st by (auto simp: durable_store_def cs_tick_def cs_logged_def Let_def split: if_splits)
  with s' show "cs_file s' = cs_file s" by auto
  from s' durable_store_state(1) [OF st, of st] show "cs_stored s' = stored_by st (cs_log s')"
    if "cs_stored s = stored_by st (cs_log s)" using that by auto
qed

definition own_pass :: "cp_signal \<Rightarrow> cp_checkpoint \<Rightarrow> cp_state \<Rightarrow> journal \<Rightarrow> cp_state \<Rightarrow> bool" where
  "own_pass sig c0 s0 j s \<longleftrightarrow>
     cc_wf (jr_state j) \<and> (\<forall>sig'. sig' \<noteq> sig \<longrightarrow> signal_offset (jr_state j) sig' = signal_offset c0 sig') \<and>
     signal_offset c0 sig \<le> signal_offset (jr_state j) sig \<and> (\<forall>e \<in> set (cs_log s). ev_own sig c0 e) \<and>
     cs_stored s = stored_by (cs_stored s0) (cs_log s) \<and> cs_file s = cs_file s0"

lemma own_pass_same_offsets:
  "own_pass sig c0 s0 j s \<Longrightarrow> cc_same_offsets (jr_state j') (jr_state j) \<Longrightarrow> own_pass sig c0 s0 j' s"
  by (simp add: own_pass_def cc_same_offsets_signal cc_same_offsets_wf)

lemma own_pass_moved:
  "own_pass sig c0 s0 j s \<Longrightarrow> cc_same_offsets (jr_state j') (moved sig reached (jr_state j)) \<Longrightarrow> own_pass sig c0 s0 j' s"
  by (simp add: own_pass_def cc_same_offsets_signal cc_same_offsets_wf moved_wf moved_offset_other max.coboundedI1)

lemma own_pass_commit:
  assumes "own_pass sig c0 s0 j s" "journal_commit out j s = ((j', s'), r)"
  shows "own_pass sig c0 s0 j' s'"
proof -
  have j': "own_pass sig c0 s0 j' s"
    by (rule own_pass_same_offsets [OF assms(1) journal_commit_state(1) [OF assms(2)]])
  have "\<exists>es. cs_log s' = cs_log s @ es \<and> (es = [] \<or> es = [Ev_Stored (jr_state j')])"
    using assms(2) by (cases rule: journal_commit_cases) auto
  with j' journal_commit_disk [OF assms(2)] show ?thesis by (auto simp: own_pass_def)
qed

interpretation own: pass_steps o' "own_pass (of_signal o') c0 s0"
proof unfold_locales
  fix j s pl offs
  assume "own_pass (of_signal o') c0 s0 j s"
  then show "own_pass (of_signal o') c0 s0 j (fst (push_post (of_out o') (of_base o') (of_signal o') (of_bearer o') pl offs s))"
    by (simp add: own_pass_def push_post_def cs_tick_def cs_logged_def Let_def)
next
  fix j s j' s' r reached n
  assume own: "own_pass (of_signal o') c0 s0 j s"
    and a: "journal_advance (of_out o') (of_lib o') (of_signal o') reached n (j, s) = ((j', s'), r)"
  have tick: "own_pass (of_signal o') c0 s0 k (cs_tick t) = own_pass (of_signal o') c0 s0 k t" for k t
    by (simp add: own_pass_def cs_tick_def)
  from a show "own_pass (of_signal o') c0 s0 j' s'"
  proof (cases rule: journal_advance_cases)
    case (clock e c)
    with own show ?thesis by (auto simp: tick intro: own_pass_moved)
  next
    case (commit j2)
    have "own_pass (of_signal o') c0 s0 j2 (cs_tick s)"
      using own commit(2) by (auto simp: tick intro: own_pass_moved)
    then show ?thesis by (rule own_pass_commit [OF _ commit(1)])
  qed
next
  fix j s f
  assume "own_pass (of_signal o') c0 s0 j s"
  then show "own_pass (of_signal o') c0 s0 (journal_quarantine f j) s"
    by (rule own_pass_same_offsets) (simp add: journal_quarantine_def)
next
  fix j s off
  assume "own_pass (of_signal o') c0 s0 j s"
  then show "own_pass (of_signal o') c0 s0 j (cs_logged [Ev_Gave_up (of_signal o') off] s)"
    by (simp add: own_pass_def cs_logged_def)
qed

section \<open>Both signals\<close>

text \<open>The pass over one signal of a sweep, on a log of its own.\<close>

definition pass_of :: "cp_endpoint \<Rightarrow> pass_target \<Rightarrow> cp_signal \<Rightarrow> journal \<Rightarrow> cp_state \<Rightarrow> pass_state" where
  "pass_of ep tg sig j s =
     export_signal (offer_for ep tg sig) (pending_for (jr_state j) sig (pt_lines tg)) j (s\<lparr>cs_log := []\<rparr>)"

lemma pass_of_forgets [simp]: "pass_of ep tg sig j (cs_after es s) = pass_of ep tg sig j s"
  by (simp add: pass_of_def cs_after_def)

lemma offer_signal_pass:
  "offer_signal ep tg sig (oc, j, s) =
     (let x = pass_of ep tg sig j s; p = ps_progress x
      in (oc\<lparr>po_pushed := sat_add (po_pushed oc) (pg_accepted p), po_held := sat_add (po_held oc) (pg_held p),
             po_stalled := po_stalled oc \<or> pg_exhausted p,
             po_failures := po_failures oc @ (case pg_stopped p of Some e \<Rightarrow> [e] | None \<Rightarrow> [])\<rparr>,
          ps_journal x, cs_after (cs_log s) (ps_world x)))"
proof -
  have s: "s = cs_after (cs_log s) (s\<lparr>cs_log := []\<rparr>)" by (simp add: cs_after_def)
  have "export_signal (offer_for ep tg sig) (pending_for (jr_state j) sig (pt_lines tg)) j s =
      ps_after (cs_log s) (pass_of ep tg sig j s)"
    by (subst s) (simp only: export_signal_after pass_of_def)
  then show ?thesis by (simp add: offer_signal_def Let_def)
qed

definition target_ok :: "pass_target \<Rightarrow> bool" where
  "target_ok tg \<longleftrightarrow> sorted_wrt (<) (map tl_offset (pt_lines tg)) \<and> (\<forall>l \<in> set (pt_lines tg). tl_offset l < pt_end_offset tg)"

lemma target_lines_ok:
  "target_ok tg \<Longrightarrow> lines_ok (offer_for ep tg sig) (pending_for c sig (pt_lines tg))"
  by (auto simp: target_ok_def lines_ok_def pending_for_def offer_for_def sorted_wrt_map intro: sorted_wrt_filter)

lemma offer_for_simps [simp]:
  "of_signal (offer_for ep tg sig) = sig" "of_lib (offer_for ep tg sig) = ep_lib ep" "of_out (offer_for ep tg sig) = ep_out ep"
  "of_end_offset (offer_for ep tg sig) = pt_end_offset tg" "of_now (offer_for ep tg sig) = pt_now tg"
  by (simp_all add: offer_for_def)

text \<open>Every checkpoint written has its shared offset at the smaller of the two and a counter within its
  type.\<close>

definition cc_ok :: "cp_checkpoint \<Rightarrow> bool" where
  "cc_ok c \<longleftrightarrow> cc_wf c \<and> cc_discarded_total c \<le> U64_MAX"

definition log_ok :: "cp_event list \<Rightarrow> bool" where
  "log_ok es \<longleftrightarrow> (\<forall>c. Ev_Stored c \<in> set es \<longrightarrow> cc_ok c)"

lemma log_ok_simps [simp]: "log_ok []" "log_ok (xs @ ys) \<longleftrightarrow> log_ok xs \<and> log_ok ys"
  "log_ok [Ev_Stored c] \<longleftrightarrow> cc_ok c" "log_ok [Ev_Truncated n]" "log_ok [Ev_Posted sig rq offs res]" "log_ok [Ev_Gave_up sig off]"
  by (auto simp: log_ok_def)

lemma accounts_cc_ok: "accounts lib d j \<Longrightarrow> cc_ok (jr_state j)"
  by (simp add: accounts_def cc_ok_def)

interpretation counted: pass_steps o' "\<lambda>j s. (\<exists>d. accounts (of_lib o') d j) \<and> log_ok (cs_log s)"
proof unfold_locales
  fix j s j' s' r reached n
  assume a: "(\<exists>d. accounts (of_lib o') d j) \<and> log_ok (cs_log s)"
    and adv: "journal_advance (of_out o') (of_lib o') (of_signal o') reached n (j, s) = ((j', s'), r)"
  from a obtain d where "accounts (of_lib o') (d + n) j'" using accounts_advance [OF adv] by blast
  with a show "(\<exists>d. accounts (of_lib o') d j') \<and> log_ok (cs_log s')"
    using journal_advance_effect [OF adv] by (metis accounts_cc_ok log_ok_simps(1-3))
qed (auto simp: push_post_def cs_logged_def cs_tick_def Let_def)

lemma pass_of_ok:
  assumes acc: "accounts (ep_lib ep) d j" and tg: "target_ok tg"
  shows "pass_base (offer_for ep tg sig) (pending_for (jr_state j) sig (pt_lines tg)) (cc_quarantine (jr_state j)) (pass_of ep tg sig j s)"
    and "own_pass sig (jr_state j) s (ps_journal (pass_of ep tg sig j s)) (ps_world (pass_of ep tg sig j s))"
    and "\<exists>d. accounts (ep_lib ep) d (ps_journal (pass_of ep tg sig j s))"
    and "log_ok (plog (pass_of ep tg sig j s))"
proof -
  let ?o = "offer_for ep tg sig" and ?l = "pending_for (jr_state j) sig (pt_lines tg)"
  have "pass_ready ?o ?l j (s\<lparr>cs_log := []\<rparr>)"
    using target_lines_ok [OF tg] by (simp add: pass_ready_def pending_for_def)
  from export_signal_ok(1) [OF this, of d] acc
  show "pass_base ?o ?l (cc_quarantine (jr_state j)) (pass_of ep tg sig j s)" by (simp add: pass_of_def)
  have "own_pass sig (jr_state j) s j (s\<lparr>cs_log := []\<rparr>)" using acc by (simp add: own_pass_def accounts_def)
  with own.passed_over [of ?o "jr_state j" s j "s\<lparr>cs_log := []\<rparr>" ?l]
  show "own_pass sig (jr_state j) s (ps_journal (pass_of ep tg sig j s)) (ps_world (pass_of ep tg sig j s))"
    by (simp add: pass_of_def)
  from counted.passed_over [of ?o j "s\<lparr>cs_log := []\<rparr>" ?l] acc
  show "\<exists>d. accounts (ep_lib ep) d (ps_journal (pass_of ep tg sig j s))" "log_ok (plog (pass_of ep tg sig j s))"
    by (auto simp: pass_of_def)
qed

section \<open>What a sweep keeps\<close>

text \<open>Everything the collector accepted for a signal is on disk before the signal's next request.\<close>

definition recorded_own :: "cp_signal \<Rightarrow> cp_event list \<Rightarrow> bool" where
  "recorded_own sig es \<longleftrightarrow> (\<forall>xs rq offs res ys. es = xs @ Ev_Posted sig rq offs res # ys \<longrightarrow> on_disk sig xs)"

definition kept :: "cp_lib \<Rightarrow> cp_checkpoint \<Rightarrow> tail_line list \<Rightarrow> cp_event list \<Rightarrow> bool" where
  "kept lib c lines es \<longleftrightarrow>
     (\<forall>sig. covered lib sig (pending_for c sig lines) es \<and> distinct (accepted_lines sig es @ given_up sig es) \<and>
        set (accepted_lines sig es @ given_up sig es) \<subseteq> tl_offset ` set (pending_for c sig lines) \<and> recorded_own sig es)"

lemma append_mid_cases:
  assumes "xs @ ys = as @ e # bs"
  obtains (left) cs where "xs = as @ e # cs" | (right) us where "as = xs @ us" "ys = us @ e # bs"
  using assms by (auto simp: append_eq_append_conv2 append_eq_Cons_conv)

lemma settled_mono: "settled lib sig es l \<Longrightarrow> settled lib sig (fs @ es @ gs) l"
  by (auto simp: settled_def)

lemma covered_append:
  assumes "covered lib sig lines xs"
    and "\<And>us c vs l. ys = us @ Ev_Stored c # vs \<Longrightarrow> l \<in> set lines \<Longrightarrow> tl_offset l < signal_offset c sig \<Longrightarrow>
      settled lib sig (xs @ us) l"
  shows "covered lib sig lines (xs @ ys)"
  unfolding covered_def
proof (intro allI impI ballI)
  fix as c bs l assume eq: "xs @ ys = as @ Ev_Stored c # bs" and l: "l \<in> set lines" "tl_offset l < signal_offset c sig"
  from eq show "settled lib sig as l"
  proof (cases rule: append_mid_cases)
    case left
    with assms(1) l show ?thesis by (auto simp: covered_def)
  next
    case (right us)
    with assms(2) l show ?thesis by simp
  qed
qed

lemma recorded_own_append:
  assumes "recorded_own sig xs" "recorded_own sig ys" "accepted_lines sig xs = [] \<or> (\<forall>rq offs res. Ev_Posted sig rq offs res \<notin> set ys)"
  shows "recorded_own sig (xs @ ys)"
  unfolding recorded_own_def
proof (intro allI impI)
  fix as rq offs res bs assume eq: "xs @ ys = as @ Ev_Posted sig rq offs res # bs"
  from eq show "on_disk sig as"
  proof (cases rule: append_mid_cases)
    case left
    with assms(1) show ?thesis by (auto simp: recorded_own_def)
  next
    case (right us)
    with assms(3) have "accepted_lines sig xs = []" by auto
    moreover from assms(2) right(2) have "on_disk sig us" by (auto simp: recorded_own_def)
    ultimately show ?thesis by (auto simp: right(1) on_disk_def last_stored_append split: option.splits)
  qed
qed

lemma own_other:
  assumes "\<forall>e \<in> set es. ev_own sig c0 e" "sig' \<noteq> sig"
  shows "accepted_lines sig' es = []" "given_up sig' es = []" "Ev_Posted sig' rq offs res \<notin> set es"
    "Ev_Stored c \<in> set es \<Longrightarrow> signal_offset c sig' = signal_offset c0 sig'"
proof -
  have "ev_accepted sig' e = []" "ev_given_up sig' e = []" if "e \<in> set es" for e
    using assms that by (cases e; force)+
  then show "accepted_lines sig' es = []" "given_up sig' es = []"
    by (simp_all add: accepted_lines_def given_up_def)
  show "Ev_Posted sig' rq offs res \<notin> set es" using assms by force
  show "signal_offset c sig' = signal_offset c0 sig'" if "Ev_Stored c \<in> set es" using assms that by force
qed

lemma passed_settled:
  assumes "pass_base o' lines q x" "lines_ok o' lines" "l \<in> set lines"
    and "tl_offset l < signal_offset (jr_state (ps_journal x)) (of_signal o')"
  shows "settled (of_lib o') (of_signal o') (plog x) l"
proof -
  from assms(1,3,4) have "tl_offset l < advanced_to lines (pg_resolved (ps_progress x)) (of_end_offset o')"
    by (auto simp: pass_base_def Let_def)
  from below_advanced [OF assms(2,3) this] assms(1) show ?thesis by (auto simp: pass_base_def Let_def intro: fates_settled)
qed

lemma pass_base_kept:
  assumes "pass_base o' lines q x"
  shows "covered (of_lib o') (of_signal o') lines (plog x)" "recorded_own (of_signal o') (plog x)"
    "distinct (accepted_lines (of_signal o') (plog x) @ given_up (of_signal o') (plog x))"
    "set (accepted_lines (of_signal o') (plog x) @ given_up (of_signal o') (plog x)) \<subseteq> tl_offset ` set lines"
    "posts (plog x) \<le> MAX_REQUESTS + 1"
proof -
  from assms have b: "covered (of_lib o') (of_signal o') lines (plog x)" "recorded (of_signal o') (plog x)"
    "fates (of_lib o') (of_signal o') lines (pg_resolved (ps_progress x)) (plog x)" "posts (plog x) \<le> MAX_REQUESTS + 1"
    by (simp_all add: pass_base_def Let_def)
  from b(1,4) show "covered (of_lib o') (of_signal o') lines (plog x)" "posts (plog x) \<le> MAX_REQUESTS + 1" by simp_all
  from b(2) show "recorded_own (of_signal o') (plog x)" unfolding recorded_def recorded_own_def by (metis is_post.simps(1))
  from b(3) show "distinct (accepted_lines (of_signal o') (plog x) @ given_up (of_signal o') (plog x))"
    by (simp only: fates_def)
  from b(3) have "set (accepted_lines (of_signal o') (plog x) @ given_up (of_signal o') (plog x)) \<subseteq>
      tl_offset ` set (take (pg_resolved (ps_progress x)) lines)" by (simp only: fates_def)
  also have "\<dots> \<subseteq> tl_offset ` set lines" by (intro image_mono set_take_subset)
  finally show "set (accepted_lines (of_signal o') (plog x) @ given_up (of_signal o') (plog x)) \<subseteq> tl_offset ` set lines" .
qed

lemma recorded_own_none: "(\<And>rq offs res. Ev_Posted sig rq offs res \<notin> set es) \<Longrightarrow> recorded_own sig es"
  unfolding recorded_own_def by (metis in_set_conv_decomp)

definition end_settled :: "cp_lib \<Rightarrow> cp_checkpoint \<Rightarrow> tail_line list \<Rightarrow> cp_checkpoint \<Rightarrow> cp_event list \<Rightarrow> bool" where
  "end_settled lib c lines c' es \<longleftrightarrow>
     (\<forall>sig. \<forall>l \<in> set (pending_for c sig lines). tl_offset l < signal_offset c' sig \<longrightarrow> settled lib sig es l)"

text \<open>Two passes, one after the other, on the same lines.\<close>

lemma both_kept:
  assumes tg: "target_ok tg" and acc: "accounts (ep_lib ep) d j"
    and m: "xm = pass_of ep tg Sig_Metrics j s" and l: "xl = pass_of ep tg Sig_Logs (ps_journal xm) s'"
  shows "kept (ep_lib ep) (jr_state j) (pt_lines tg) (plog xm @ plog xl)"
    and "end_settled (ep_lib ep) (jr_state j) (pt_lines tg) (jr_state (ps_journal xl)) (plog xm @ plog xl)"
    and "within_budget (plog xm @ plog xl)"
proof -
  let ?c = "jr_state j" and ?cm = "jr_state (ps_journal xm)" and ?cl = "jr_state (ps_journal xl)"
  let ?M = "pending_for ?c Sig_Metrics (pt_lines tg)" and ?L = "pending_for ?c Sig_Logs (pt_lines tg)"
  note bm = pass_of_ok [OF acc tg, of Sig_Metrics s, folded m]
  from bm(3) obtain d' where acc': "accounts (ep_lib ep) d' (ps_journal xm)" ..
  note bl = pass_of_ok [OF acc' tg, of Sig_Logs s', folded l]
  have evm: "\<forall>e \<in> set (plog xm). ev_own Sig_Metrics ?c e" and evl: "\<forall>e \<in> set (plog xl). ev_own Sig_Logs ?cm e"
    using bm(2) bl(2) by (simp_all add: own_pass_def)
  have offm: "signal_offset ?cm Sig_Logs = signal_offset ?c Sig_Logs"
    and offl: "signal_offset ?cl Sig_Metrics = signal_offset ?cm Sig_Metrics"
    using bm(2) bl(2) by (simp_all add: own_pass_def)
  have L: "pending_for ?cm Sig_Logs (pt_lines tg) = ?L" by (simp add: pending_for_def offm)
  note om = own_other [OF evm, of Sig_Logs, simplified] and ol = own_other [OF evl, of Sig_Metrics, simplified]
  note km = pass_base_kept [OF bm(1), simplified] and kl = pass_base_kept [OF bl(1), simplified, unfolded L]
  have sm: "settled (ep_lib ep) Sig_Metrics (plog xm) k" if "k \<in> set ?M" "tl_offset k < signal_offset ?cm Sig_Metrics" for k
    using passed_settled [OF bm(1) target_lines_ok [OF tg]] that by simp
  have sl: "settled (ep_lib ep) Sig_Logs (plog xl) k" if "k \<in> set ?L" "tl_offset k < signal_offset ?cl Sig_Logs" for k
    using passed_settled [OF bl(1) target_lines_ok [OF tg]] that by (simp add: L)
  have cm: "covered (ep_lib ep) Sig_Metrics ?M (plog xm @ plog xl)"
  proof (rule covered_append [OF km(1)])
    fix us c vs k assume e: "plog xl = us @ Ev_Stored c # vs" and k: "k \<in> set ?M" "tl_offset k < signal_offset c Sig_Metrics"
    from e have "signal_offset c Sig_Metrics = signal_offset ?cm Sig_Metrics" by (intro ol(4)) simp
    with sm k have "settled (ep_lib ep) Sig_Metrics (plog xm) k" by simp
    from settled_mono [OF this, of "[]" us] show "settled (ep_lib ep) Sig_Metrics (plog xm @ us) k" by simp
  qed
  have "covered (ep_lib ep) Sig_Logs ?L (plog xm)"
    unfolding covered_def using om(4) by (fastforce simp: pending_for_def)
  then have cl: "covered (ep_lib ep) Sig_Logs ?L (plog xm @ plog xl)"
  proof (rule covered_append)
    fix us c vs k assume e: "plog xl = us @ Ev_Stored c # vs" and k: "k \<in> set ?L" "tl_offset k < signal_offset c Sig_Logs"
    with kl(1) have "settled (ep_lib ep) Sig_Logs us k" by (auto simp: covered_def)
    from settled_mono [OF this, of "plog xm" "[]"] show "settled (ep_lib ep) Sig_Logs (plog xm @ us) k" by simp
  qed
  have rm: "recorded_own Sig_Metrics (plog xm @ plog xl)"
    by (rule recorded_own_append [OF km(2) recorded_own_none]) (simp_all add: ol)
  have rl: "recorded_own Sig_Logs (plog xm @ plog xl)"
    by (rule recorded_own_append [OF recorded_own_none kl(2)]) (simp_all add: om)
  show "kept (ep_lib ep) ?c (pt_lines tg) (plog xm @ plog xl)"
    unfolding kept_def
  proof
    fix sig show "covered (ep_lib ep) sig (pending_for ?c sig (pt_lines tg)) (plog xm @ plog xl) \<and>
      distinct (accepted_lines sig (plog xm @ plog xl) @ given_up sig (plog xm @ plog xl)) \<and>
      set (accepted_lines sig (plog xm @ plog xl) @ given_up sig (plog xm @ plog xl)) \<subseteq>
        tl_offset ` set (pending_for ?c sig (pt_lines tg)) \<and> recorded_own sig (plog xm @ plog xl)"
      using cm cl rm rl km(3,4) kl(3,4) om(1,2) ol(1,2) by (cases sig) auto
  qed
  show "end_settled (ep_lib ep) ?c (pt_lines tg) ?cl (plog xm @ plog xl)"
    unfolding end_settled_def
  proof (intro allI ballI impI)
    fix sig k assume k: "k \<in> set (pending_for ?c sig (pt_lines tg))" "tl_offset k < signal_offset ?cl sig"
    show "settled (ep_lib ep) sig (plog xm @ plog xl) k"
    proof (cases sig)
      case Sig_Metrics
      with sm k offl settled_mono [of _ _ "plog xm" k "[]" "plog xl"] show ?thesis by simp
    next
      case Sig_Logs
      with sl k settled_mono [of _ _ "plog xl" k "plog xm" "[]"] show ?thesis by simp
    qed
  qed
  have "posts_for Sig_Logs (plog xm) = 0" "posts_for Sig_Metrics (plog xl) = 0"
    using posts_for_other [OF evm, of Sig_Logs] posts_for_other [OF evl, of Sig_Metrics] by simp_all
  then show "within_budget (plog xm @ plog xl)"
    using km(5) kl(5) posts_for_le [of Sig_Metrics "plog xm"] posts_for_le [of Sig_Logs "plog xl"]
    by (simp add: within_budget_def)
qed

lemma recorded_own_quiet: "recorded_own sig es \<Longrightarrow> \<not> is_post e \<Longrightarrow> recorded_own sig (es @ [e])"
  by (rule recorded_own_append [OF _ recorded_own_none]) auto

lemma kept_store:
  "kept lib c lines es \<Longrightarrow> end_settled lib c lines c' es \<Longrightarrow> kept lib c lines (es @ [Ev_Stored c'])"
  by (auto simp: kept_def end_settled_def covered_snoc intro!: recorded_own_quiet)

lemma kept_truncated: "kept lib c lines es \<Longrightarrow> kept lib c lines (es @ [Ev_Truncated n])"
  by (auto simp: kept_def covered_snoc intro!: recorded_own_quiet)

lemma kept_Nil [simp]: "kept lib c lines []"
  by (auto simp: kept_def intro: recorded_own_none)

lemma end_settled_restart: "end_settled lib c lines ((cc_restart c')\<lparr>cc_spool := i\<rparr>) es"
proof -
  have "signal_offset ((cc_restart c')\<lparr>cc_spool := i\<rparr>) sig = 0" for sig
    by (cases sig) (simp_all add: signal_offset_def cc_restart_def)
  then show ?thesis by (simp add: end_settled_def)
qed

section \<open>The reclaim\<close>

text \<open>What a step appends to the log; what is on disk is the last checkpoint of it.\<close>

definition wrote :: "cp_state \<Rightarrow> cp_event list \<Rightarrow> cp_state \<Rightarrow> bool" where
  "wrote s es s' \<longleftrightarrow> cs_log s' = cs_log s @ es \<and> cs_stored s' = stored_by (cs_stored s) es"

lemma wrote_refl [simp]: "wrote s [] s" "wrote s [] (editor out s)" "wrote s [] (cs_tick s)"
  by (simp_all add: wrote_def editor_def cs_tick_def)

lemma wrote_trans: "wrote s es s1 \<Longrightarrow> wrote s1 fs s2 \<Longrightarrow> wrote s (es @ fs) s2"
  by (simp add: wrote_def stored_by_append)

lemma wrote_truncate: "\<exists>es. wrote s es (truncate_inode ino s) \<and> (es = [] \<or> (\<exists>n. es = [Ev_Truncated n]))"
  by (auto simp: wrote_def truncate_inode_def cs_logged_def stored_by_def split: option.splits prod.splits)

lemma wrote_store: "durable_store out c s = (s', r) \<Longrightarrow> wrote s [] s' \<or> wrote s [Ev_Stored c] s'"
  by (auto simp: wrote_def durable_store_def cs_tick_def cs_logged_def stored_by_def Let_def split: if_splits)

lemma wrote_commit: "journal_commit out j s = ((j', s'), r) \<Longrightarrow> wrote s [] s' \<or> wrote s [Ev_Stored (jr_state j')] s'"
  using wrote_store by (fastforce simp: journal_commit_def Let_def split: if_splits prod.splits sum.splits)

lemma reclaim_cases:
  assumes "reclaim_maybe out lib c s = (s', r)"
  obtains (declined) "s' = s \<or> s' = editor out s"
  | (truncated) f s2 where "CP_RECLAIM_ABOVE < cc_offset c" "cs_file (editor out s) = Some f" "length (snd f) = cc_offset c"
      "s2 = editor out (truncate_inode (fst f) (editor out (editor out s)))"
      "s' = s2 \<or> (\<exists>ident q. durable_store out ((cc_restart c)\<lparr>cc_spool := ident\<rparr>) s2 = (s', q))"
  using assms by (fastforce simp: reclaim_maybe_def Let_def split: if_splits option.splits sum.splits prod.splits)

lemma reclaim_kept:
  assumes "reclaim_maybe out lib c' s = (s', r)" "kept lib' c lines es" "log_ok es" "cc_ok c'"
  shows "\<exists>fs. wrote s fs s' \<and> kept lib' c lines (es @ fs) \<and> log_ok (es @ fs) \<and> posts fs = 0"
  using assms(1)
proof (cases rule: reclaim_cases)
  case declined
  with assms show ?thesis by (intro exI [of _ "[]"]) auto
next
  case (truncated f s2)
  from wrote_truncate [of "editor out (editor out s)" "fst f"] obtain fs where
    fs: "wrote (editor out (editor out s)) fs (truncate_inode (fst f) (editor out (editor out s)))" "fs = [] \<or> (\<exists>n. fs = [Ev_Truncated n])"
    by blast
  have w: "wrote s fs s2"
    unfolding truncated(4)
    using wrote_trans [OF wrote_trans [OF wrote_trans [OF wrote_refl(2) wrote_refl(2)] fs(1)] wrote_refl(2)] by simp
  have k: "kept lib' c lines (es @ fs)" "log_ok (es @ fs)" "posts fs = 0"
    using fs(2) assms(2,3) by (auto intro: kept_truncated)
  from truncated(5) show ?thesis
  proof
    assume "s' = s2"
    with w k show ?thesis by blast
  next
    assume "\<exists>ident q. durable_store out ((cc_restart c')\<lparr>cc_spool := ident\<rparr>) s2 = (s', q)"
    then obtain ident q where st: "durable_store out ((cc_restart c')\<lparr>cc_spool := ident\<rparr>) s2 = (s', q)" by blast
    let ?c = "(cc_restart c')\<lparr>cc_spool := ident\<rparr>"
    have "cc_wf ?c = cc_wf (cc_restart c')" by (rule cc_same_offsets_wf) simp
    then have ok: "cc_ok ?c" using assms(4) by (simp add: cc_ok_def) (simp add: cc_restart_def)
    from wrote_store [OF st] show ?thesis
    proof
      assume "wrote s2 [] s'"
      from wrote_trans [OF w this] k show ?thesis by auto
    next
      assume "wrote s2 [Ev_Stored ?c] s'"
      from wrote_trans [OF w this] kept_store [OF k(1) end_settled_restart] ok k show ?thesis
        by (intro exI [of _ "fs @ [Ev_Stored ?c]"]) simp
    qed
  qed
qed

section \<open>The sweep\<close>

text \<open>What a read of the spool returns.\<close>

lemma collect_lines_ok:
  "sorted_wrt (<) (map tl_offset (collect_lines pos segs)) \<and>
   (\<forall>l \<in> set (collect_lines pos segs). pos \<le> tl_offset l \<and> tl_offset l + 1 < pos + sum_list (map (\<lambda>seg. length seg + 1) segs))"
proof (induction pos segs rule: collect_lines.induct)
  case (2 pos seg segs)
  have "str_trim (from_utf8_lossy seg) \<noteq> [] \<Longrightarrow> seg \<noteq> []" by (auto simp: str_trim_def from_utf8_lossy.simps [of "[]"])
  moreover define t rest where "t = str_trim (from_utf8_lossy seg)" and "rest = collect_lines (pos + length seg + 1) segs"
  ultimately have c: "collect_lines pos (seg # segs) = (if t = [] then rest else \<lparr>tl_offset = pos, tl_text = t\<rparr> # rest)"
    and ne: "t \<noteq> [] \<Longrightarrow> 0 < length seg" by (simp_all add: Let_def)
  from 2 [OF t_def, folded rest_def] have "sorted_wrt (<) (map tl_offset rest)"
    and b: "\<And>l. l \<in> set rest \<Longrightarrow> pos + length seg + 1 \<le> tl_offset l \<and>
      tl_offset l + 1 < pos + length seg + 1 + sum_list (map (\<lambda>seg. length seg + 1) segs)" by simp_all
  with ne show ?case unfolding c by (auto dest!: b)
qed simp

lemma drain_target_ok:
  assumes "tail_drain io sha path off known = Inr d"
  shows "target_ok \<lparr>pt_lines = dr_lines d, pt_end_offset = next_offset d, pt_now = now\<rparr>"
    and "dr_lines d \<noteq> [] \<Longrightarrow> (if restarted d \<noteq> None then 0 else off) \<le> tl_offset (hd (dr_lines d))"
proof -
  have "target_ok \<lparr>pt_lines = dr_lines d, pt_end_offset = next_offset d, pt_now = now\<rparr> \<and>
     (dr_lines d \<noteq> [] \<longrightarrow> (if restarted d \<noteq> None then 0 else off) \<le> tl_offset (hd (dr_lines d)))"
  proof (cases "dr_lines d = []")
    case False
    with assms obtain f i where f: "path = Some f" and i:
      "rposition_nl (take MAX_READ (drop (if restarted d \<noteq> None then 0 else off) (snd f))) = Some i"
      "dr_lines d = collect_lines (if restarted d \<noteq> None then 0 else off)
         (split_nl (take (Suc i) (take MAX_READ (drop (if restarted d \<noteq> None then 0 else off) (snd f)))))"
      "next_offset d = (if restarted d \<noteq> None then 0 else off) + i + 1"
      by (auto simp: tail_drain_def Let_def split: option.splits if_splits)
    define o' where "o' = (if restarted d \<noteq> None then 0 else off)"
    define b where "b = take MAX_READ (drop o' (snd f))"
    note i' = i [folded o'_def, folded b_def]
    have "Suc i \<le> length b" using rposition_nl_bound [OF i'(1)] by simp
    then have len: "length (take (Suc i) b) = Suc i" by simp
    from collect_lines_ok [of o' "split_nl (take (Suc i) b)", unfolded split_nl_lengths len] False i'(2,3)
    show ?thesis unfolding o'_def [symmetric] by (simp add: target_ok_def)
  qed (simp add: target_ok_def)
  then show "target_ok \<lparr>pt_lines = dr_lines d, pt_end_offset = next_offset d, pt_now = now\<rparr>"
    "dr_lines d \<noteq> [] \<Longrightarrow> (if restarted d \<noteq> None then 0 else off) \<le> tl_offset (hd (dr_lines d))" by simp_all
qed

lemma same_offsets_finished: "cc_same_offsets (jr_state (journal_finished n st now j)) (jr_state j)"
  by (simp add: journal_finished_def cc_same_offsets_def Let_def)

lemma end_settled_same:
  "end_settled lib c lines c1 es \<Longrightarrow> cc_same_offsets c2 c1 \<Longrightarrow> end_settled lib c lines c2 es"
  by (simp add: end_settled_def cc_same_offsets_signal)

definition swept_ok :: "cp_lib \<Rightarrow> cp_checkpoint \<Rightarrow> tail_line list \<Rightarrow> cp_state \<Rightarrow> cp_state \<Rightarrow> bool" where
  "swept_ok lib c lines s s' \<longleftrightarrow>
     (\<exists>es. wrote s es s' \<and> kept lib c lines es \<and> log_ok es \<and> within_budget es)"

lemma swept_ok_quiet: "wrote s [] s' \<Longrightarrow> swept_ok lib c lines s s'"
  unfolding swept_ok_def by (rule exI [of _ "[]"]) (simp add: within_budget_quiet)

lemma swept_ok_reclaim:
  assumes "wrote s es s1" "kept lib' c lines es" "log_ok es" "within_budget es" "cc_ok c'"
  shows "swept_ok lib' c lines s (best_effort out lib c' dry s1)"
proof (cases dry)
  case True
  with assms show ?thesis by (auto simp: best_effort_def swept_ok_def)
next
  case False
  obtain s2 r where r: "reclaim_maybe out lib c' s1 = (s2, r)" by fastforce
  from reclaim_kept [OF r assms(2,3,5)] obtain fs where fs: "wrote s1 fs s2" "kept lib' c lines (es @ fs)" "log_ok (es @ fs)" "posts fs = 0"
    by blast
  from wrote_trans [OF assms(1) fs(1)] fs(2,3) within_budget_quiet(3) [OF assms(4) fs(4)] False r show ?thesis
    by (auto simp: best_effort_def swept_ok_def intro!: exI [of _ "es @ fs"])
qed

lemma pass_both_eq:
  assumes xm: "xm = pass_of ep tg Sig_Metrics (journal_quarantine (prune (pt_now tg)) j) s"
    and xl: "xl = pass_of ep tg Sig_Logs (ps_journal xm) (ps_world xm)"
  obtains oc where "pass_both ep tg j s = (oc, ps_journal xl, cs_after (cs_log s @ plog xm) (ps_world xl))"
    "po_failures oc = (case pg_stopped (ps_progress xm) of Some e \<Rightarrow> [e] | None \<Rightarrow> []) @
       (case pg_stopped (ps_progress xl) of Some e \<Rightarrow> [e] | None \<Rightarrow> [])"
    "po_pushed oc = sat_add (sat_add 0 (pg_accepted (ps_progress xm))) (pg_accepted (ps_progress xl))"
proof -
  have "\<exists>oc. pass_both ep tg j s = (oc, ps_journal xl, cs_after (cs_log s @ plog xm) (ps_world xl)) \<and>
    po_failures oc = (case pg_stopped (ps_progress xm) of Some e \<Rightarrow> [e] | None \<Rightarrow> []) @
       (case pg_stopped (ps_progress xl) of Some e \<Rightarrow> [e] | None \<Rightarrow> []) \<and>
    po_pushed oc = sat_add (sat_add 0 (pg_accepted (ps_progress xm))) (pg_accepted (ps_progress xl))"
    by (simp add: pass_both_def offer_signal_pass Let_def xm [symmetric] xl [symmetric])
  then show ?thesis using that by blast
qed

lemma pass_both_ok:
  assumes acc: "accounts (ep_lib ep) d j" and tg: "target_ok tg" and b: "pass_both ep tg j s = (oc, j', s')"
  obtains es where "wrote s es s'" "kept (ep_lib ep) (jr_state j) (pt_lines tg) es" "log_ok es"
    "end_settled (ep_lib ep) (jr_state j) (pt_lines tg) (jr_state j') es" "within_budget es"
    "\<exists>d. accounts (ep_lib ep) d j'"
proof -
  define j1 where "j1 = journal_quarantine (prune (pt_now tg)) j"
  define xm where "xm = pass_of ep tg Sig_Metrics j1 s"
  define xl where "xl = pass_of ep tg Sig_Logs (ps_journal xm) (ps_world xm)"
  from pass_both_eq [OF xm_def [unfolded j1_def] xl_def] b
  have j': "j' = ps_journal xl" and s': "s' = cs_after (cs_log s @ plog xm) (ps_world xl)" by auto
  have acc1: "accounts (ep_lib ep) d j1" using acc by (simp add: j1_def)
  note m = pass_of_ok [OF acc1 tg, of Sig_Metrics s, folded xm_def]
  from m(3) obtain d' where acc': "accounts (ep_lib ep) d' (ps_journal xm)" ..
  note l = pass_of_ok [OF acc' tg, of Sig_Logs "ps_world xm", folded xl_def]
  have so: "cc_same_offsets (jr_state j1) (jr_state j)" by (simp add: j1_def journal_quarantine_def)
  then have p: "pending_for (jr_state j1) sig ls = pending_for (jr_state j) sig ls" for sig ls
    by (simp add: pending_for_def cc_same_offsets_signal)
  note k = both_kept [OF tg acc1 xm_def xl_def]
  have "cs_stored (ps_world xl) = stored_by (cs_stored s) (plog xm @ plog xl)"
    using m(2) l(2) by (simp add: own_pass_def stored_by_append)
  then have "wrote s (plog xm @ plog xl) s'" by (simp add: wrote_def s')
  moreover have "kept (ep_lib ep) (jr_state j) (pt_lines tg) (plog xm @ plog xl)"
    using k(1) by (simp add: kept_def p)
  moreover have "end_settled (ep_lib ep) (jr_state j) (pt_lines tg) (jr_state j') (plog xm @ plog xl)"
    using k(2) by (simp add: end_settled_def p j')
  ultimately show ?thesis using that m(4) l(3,4) k(3) by (simp add: j')
qed

lemma accounts_finished: "accounts lib d (journal_finished n st now j) = accounts lib d j"
proof -
  have "cc_wf (jr_state (journal_finished n st now j)) = cc_wf (jr_state j)"
    by (rule cc_same_offsets_wf [OF same_offsets_finished])
  then show ?thesis by (simp add: accounts_def passed_def) (simp add: journal_finished_def Let_def)
qed

lemma accounts_commit: "accounts lib d j \<Longrightarrow> journal_commit out j s = ((j', s'), r) \<Longrightarrow> accounts lib d j'"
proof -
  assume a: "accounts lib d j" and c: "journal_commit out j s = ((j', s'), r)"
  note st = journal_commit_state [OF c]
  have "cc_wf (jr_state j') = cc_wf (jr_state j)" by (rule cc_same_offsets_wf [OF st(1)])
  with a st show ?thesis by (simp add: accounts_def passed_def cc_same_offsets_def)
qed

lemma sweep_lines_ok:
  assumes d: "tail_drain io sha path (cc_offset c) (cc_spool c) = Inr d"
    and c: "cc_ok c" and j: "j = journal_new (dr_lines d) c (dr_identity d) (restarted d \<noteq> None)"
    and sw: "sweep_lines w carried from d j s = (s', r)"
  shows "swept_ok (ep_lib (wk_to w)) (jr_state j) (dr_lines d) s s'"
proof (cases "co_clock (ep_out (wk_to w)) (cs_now s)")
  case None
  with sw show ?thesis by (auto simp: sweep_lines_def Let_def intro: swept_ok_quiet)
next
  case (Some now)
  let ?tg = "\<lparr>pt_lines = dr_lines d, pt_end_offset = next_offset d, pt_now = now\<rparr>"
  have acc: "accounts (ep_lib (wk_to w)) (cc_discarded_total c) j"
    using c drain_target_ok(2) [OF d] unfolding j by (intro accounts_new) (simp_all add: cc_ok_def)
  obtain oc j1 s1 where b: "pass_both (wk_to w) ?tg j (cs_tick s) = (oc, j1, s1)" by (metis prod_cases3)
  let ?j = "journal_finished (sat_add carried (po_pushed oc)) (po_stalled oc) now j1"
  obtain j2 s2 q where cm: "journal_commit (ep_out (wk_to w)) ?j s1 = ((j2, s2), q)" by (metis prod.exhaust)
  from pass_both_ok [OF acc drain_target_ok(1) [OF d] b] obtain es d' where
    es: "wrote (cs_tick s) es s1" "kept (ep_lib (wk_to w)) (jr_state j) (dr_lines d) es" "log_ok es"
      "end_settled (ep_lib (wk_to w)) (jr_state j) (dr_lines d) (jr_state j1) es" "within_budget es"
      "accounts (ep_lib (wk_to w)) d' j1" by (metis pass_target.select_convs(1))
  from accounts_commit [OF _ cm, of "ep_lib (wk_to w)" d'] es(6)
  have ok2: "cc_ok (jr_state j2)" by (auto simp: accounts_finished intro: accounts_cc_ok)
  have "end_settled (ep_lib (wk_to w)) (jr_state j) (dr_lines d) (jr_state j2) es"
    by (rule end_settled_same [OF end_settled_same [OF es(4) same_offsets_finished] journal_commit_state(1) [OF cm]])
  from kept_store [OF es(2) this] es(2,3) ok2 wrote_commit [OF cm]
  obtain fs where fs: "wrote s1 fs s2" "kept (ep_lib (wk_to w)) (jr_state j) (dr_lines d) (es @ fs)" "log_ok (es @ fs)" "posts fs = 0"
    by (metis append_Nil2 is_post.simps(2) log_ok_simps(1-3) log_simps(3,6))
  have w: "wrote s (es @ fs) s2" using wrote_trans [OF wrote_trans [OF wrote_refl(3) es(1)] fs(1)] by simp
  have p: "within_budget (es @ fs)" by (rule within_budget_quiet(3) [OF es(5) fs(4)])
  show ?thesis
  proof (cases q)
    case (Inl e)
    with Some b cm sw have "s' = s2" by (simp add: sweep_lines_def Let_def)
    with w fs p show ?thesis by (auto simp: swept_ok_def)
  next
    case (Inr u)
    with Some b cm sw have "s' = best_effort (ep_out (wk_to w)) (ep_lib (wk_to w)) (jr_state j2) (wk_dry_run w) s2"
      by (simp add: sweep_lines_def Let_def)
    with swept_ok_reclaim [OF w fs(2,3) p ok2] show ?thesis by simp
  qed
qed

end
