(* ===== verification/Copilot_Wake.thy ===== *)
theory Copilot_Wake
  imports Copilot_Drain_Correct
begin

text \<open>
  The wake of the Copilot drain: what one sweep does to the checkpoint and to the log of posts and stores, the wake as a
  chain of sweeps (\<open>sweep_chain\<close>) with the bounds on their number and on the posts of each, and a sweep whose collector
  accepts everything.
\<close>

lemma sweep_read_ok:
  assumes d: "tail_drain io sha path (cc_offset c) (cc_spool c) = Inr d" and c: "cc_ok c"
    and sw: "sweep_read w carried c d s = (s', r)"
  shows "swept_ok (ep_lib (wk_to w)) (if restarted d \<noteq> None then cc_restart c else c) (dr_lines d) s s'"
proof -
  define j where "j = journal_new (dr_lines d) c (dr_identity d) (restarted d \<noteq> None)"
  have js: "jr_state j = (if restarted d \<noteq> None then cc_restart c else c)" by (simp add: j_def journal_new_def)
  have ok: "cc_ok (jr_state j)" using c unfolding js by (simp add: cc_ok_def) (simp add: cc_restart_def)
  consider (full) "dr_lines d \<noteq> []" "\<not> wk_dry_run w" | (dry) "dr_lines d \<noteq> []" "wk_dry_run w" | (none) "dr_lines d = []" by blast
  then show ?thesis
  proof cases
    case full
    with sw have "sweep_lines w carried (cc_offset c) d j s = (s', r)" by (simp add: sweep_read_def j_def Let_def)
    from sweep_lines_ok [OF d c j_def this] show ?thesis by (simp only: js)
  next
    case dry
    with sw show ?thesis by (auto simp: sweep_read_def Let_def intro: swept_ok_quiet)
  next
    case none
    define m where "m = (if restarted d \<noteq> None \<and> \<not> wk_dry_run w then journal_commit (ep_out (wk_to w)) j s else ((j, s), Inr ()))"
    obtain j1 s1 q where m: "m = ((j1, s1), q)" by (metis prod.exhaust)
    have st: "s' = s1 \<or> s' = best_effort (ep_out (wk_to w)) (ep_lib (wk_to w)) (jr_state j1) (wk_dry_run w) s1"
      using sw [unfolded sweep_read_def Let_def, folded j_def, folded m_def] none m by (cases q) simp_all
    have "cc_ok (jr_state j1) \<and> (wrote s [] s1 \<or> wrote s [Ev_Stored (jr_state j1)] s1)"
    proof (cases "restarted d \<noteq> None \<and> \<not> wk_dry_run w")
      case True
      with m have cm: "journal_commit (ep_out (wk_to w)) j s = ((j1, s1), q)" by (simp only: m_def if_True simp_thms)
      note so = journal_commit_state [OF cm]
      have "cc_ok (jr_state j1)" using ok cc_same_offsets_wf [OF so(1)] so(5) by (simp add: cc_ok_def)
      with wrote_commit [OF cm] show ?thesis by blast
    next
      case False
      with m have "j1 = j" "s1 = s" by (simp_all only: m_def if_False prod.inject simp_thms)
      with ok show ?thesis by simp
    qed
    then obtain es where es: "wrote s es s1" "log_ok es" "posts es = 0" "es = [] \<or> es = [Ev_Stored (jr_state j1)]" "cc_ok (jr_state j1)"
      by (metis is_post.simps(2) log_ok_simps(1,3) log_simps(3,6))
    have k: "kept (ep_lib (wk_to w)) c0 [] es" for c0
      using es(4) kept_store [of "ep_lib (wk_to w)" c0 "[]" "[]"] by (auto simp: end_settled_def pending_for_def)
    from st show ?thesis
    proof
      assume "s' = s1"
      with es k none within_budget_quiet(2) [OF es(3)] show ?thesis by (auto simp: swept_ok_def)
    next
      assume "s' = best_effort (ep_out (wk_to w)) (ep_lib (wk_to w)) (jr_state j1) (wk_dry_run w) s1"
      with swept_ok_reclaim [OF es(1) k es(2) within_budget_quiet(2) [OF es(3)] es(5)] none show ?thesis by simp
    qed
  qed
qed

definition stored_ok :: "stored \<Rightarrow> bool" where
  "stored_ok st \<longleftrightarrow> (\<forall>c. st = Stored c \<longrightarrow> cc_ok c)"

lemma stored_by_ok: "stored_ok st \<Longrightarrow> log_ok es \<Longrightarrow> stored_ok (stored_by st es)"
proof -
  have "last_stored es = Some c \<Longrightarrow> Ev_Stored c \<in> set es" for c
    by (induction es) (auto split: option.splits cp_event.splits)
  then show "stored_ok st \<Longrightarrow> log_ok es \<Longrightarrow> stored_ok (stored_by st es)"
    by (auto simp: stored_ok_def stored_by_def log_ok_def split: option.splits)
qed

lemma sweep_once_ok:
  assumes ok: "stored_ok (cs_stored s)" and sw: "sweep_once w carried s = (s', r)"
  obtains c lines where "swept_ok (ep_lib (wk_to w)) c lines s s'"
proof -
  let ?out = "ep_out (wk_to w)"
  let ?s1 = "editor ?out (cs_tick s)"
  have w1: "wrote s [] (cs_tick ?s1)"
    using wrote_trans [OF wrote_trans [OF wrote_refl(3) wrote_refl(2)] wrote_refl(3)] by simp
  show ?thesis
  proof (cases "durable_load (co_io ?out (cs_now s)) (cs_stored s)")
    case (Inl e)
    with sw show ?thesis by (intro that [OF swept_ok_quiet]) (auto simp: sweep_once_def)
  next
    case (Inr c)
    with ok have c: "cc_ok c" by (auto simp: durable_load_def stored_ok_def cc_ok_def cc_default_def U64_MAX_def split: if_splits stored.splits)
      (simp add: cc_default_def [symmetric])
    show ?thesis
    proof (cases "tail_drain (co_io ?out (cs_now ?s1)) (cl_sha (ep_lib (wk_to w))) (cs_file ?s1) (cc_offset c) (cc_spool c)")
      case (Inl e)
      with sw Inr w1 show ?thesis by (intro that [OF swept_ok_quiet]) (auto simp: sweep_once_def Let_def)
    next
      case d: (Inr d)
      show ?thesis
      proof (cases "missing d")
        case True
        with sw Inr d w1 show ?thesis by (intro that [OF swept_ok_quiet]) (auto simp: sweep_once_def Let_def)
      next
        case False
        with sw Inr d have "sweep_read w carried c d (cs_tick ?s1) = (s', r)" by (simp add: sweep_once_def Let_def)
        from sweep_read_ok [OF d c this] obtain es where
          es: "wrote (cs_tick ?s1) es s'" "kept (ep_lib (wk_to w)) (if restarted d \<noteq> None then cc_restart c else c) (dr_lines d) es"
            "log_ok es" "within_budget es" by (auto simp: swept_ok_def)
        from wrote_trans [OF w1 es(1)] es(2-4) show ?thesis by (intro that) (auto simp: swept_ok_def)
      qed
    qed
  qed
qed

section \<open>The wake\<close>

text \<open>\<open>sweep_chain w s sweeps s'\<close>: from \<open>s\<close> to \<open>s'\<close> by as many calls of \<open>sweep_once\<close> as \<open>sweeps\<close> has elements,
  each the events one call logged.\<close>

fun sweep_chain :: "cp_wake \<Rightarrow> cp_state \<Rightarrow> cp_event list list \<Rightarrow> cp_state \<Rightarrow> bool" where
  "sweep_chain w s [] s' \<longleftrightarrow> s' = s"
| "sweep_chain w s (es # sweeps) s' \<longleftrightarrow>
     (\<exists>carried s1 r. sweep_once w carried s = (s1, r) \<and> cs_log s1 = cs_log s @ es \<and> sweep_chain w s1 sweeps s')"

lemma sweep_chain_log: "sweep_chain w s sweeps s' \<Longrightarrow> cs_log s' = cs_log s @ concat sweeps"
  by (induction sweeps arbitrary: s) auto

lemma drain_loop_bounds:
  assumes "stored_ok (cs_stored s)" "ta_passes t < MAX_PASSES" "cp_drain_loop elapsed w t s = (s', r)"
  shows "stored_ok (cs_stored s') \<and> (\<exists>sweeps. sweep_chain w s sweeps s' \<and> list_all within_budget sweeps \<and>
      ta_passes t + length sweeps \<le> MAX_PASSES \<and>
      (\<forall>t' f. r = Inr (t', f) \<longrightarrow> ta_passes t' \<le> ta_passes t + length sweeps))"
  using assms
proof (induction elapsed w t s rule: cp_drain_loop.induct)
  case (1 elapsed w t s)
  obtain s1 q where sw: "sweep_once w (ta_records t) s = (s1, q)" by fastforce
  from sweep_once_ok [OF "1.prems"(1) sw] obtain es where es: "wrote s es s1" "log_ok es" "within_budget es"
    by (auto simp: swept_ok_def)
  have st: "stored_ok (cs_stored s1)" using es "1.prems"(1) stored_by_ok by (simp add: wrote_def)
  have log: "cs_log s1 = cs_log s @ es" using es(1) by (simp add: wrote_def)
  have p: "ta_passes (tally_add x t) = ta_passes t + 1" for x
    using "1.prems"(2) by (simp add: tally_add_def MAX_PASSES_def)
  show ?case
  proof (cases "s' = s1 \<and> (\<forall>t' f. r = Inr (t', f) \<longrightarrow> ta_passes t' \<le> ta_passes t + 1)")
    case True
    with es(3) sw log st "1.prems"(2) show ?thesis by (intro conjI exI [of _ "[es]"]) auto
  next
    case False
    with "1.prems"(2,3) sw obtain x where x: "q = Inr x" "\<not> (sw_failed x \<noteq> None \<or> \<not> sw_complete x \<or> sw_pending x = 0)"
        "\<not> MAX_PASSES \<le> ta_passes (tally_add x t)" "\<not> BUDGET \<le> elapsed (cs_now s1)"
        "cp_drain_loop elapsed w (tally_add x t) s1 = (s', r)"
      by (subst (asm) cp_drain_loop.simps) (auto simp: Let_def p split: sum.splits if_splits)
    from "1.IH" [OF sw [symmetric] x(1) refl x(2-4) st _ x(5)] x(3) obtain sweeps where
      ih: "stored_ok (cs_stored s')" "sweep_chain w s1 sweeps s'" "list_all within_budget sweeps"
        "ta_passes t + 1 + length sweeps \<le> MAX_PASSES"
        "\<forall>t' f. r = Inr (t', f) \<longrightarrow> ta_passes t' \<le> ta_passes t + 1 + length sweeps" unfolding p by auto
    with sw log es(3) show ?thesis by (intro conjI exI [of _ "es # sweeps"]) auto
  qed
qed

section \<open>The loss counter\<close>

lemma commit_accounts:
  assumes "pass_books o' lines d x" "export_commit o' lines x = (x', r)"
  shows "accounts (of_lib o') (d + pg_discarded (ps_progress x)) (ps_journal x')"
proof (cases "pg_committed (ps_progress x) = Some (pg_resolved (ps_progress x))")
  case True
  with assms show ?thesis by (auto simp: export_commit_def pass_books_def committed_ok_def Let_def)
next
  case False
  let ?p = "ps_progress x"
  obtain j s q where a: "journal_advance (of_out o') (of_lib o') (of_signal o')
      (advanced_to lines (pg_resolved ?p) (of_end_offset o')) (pg_discarded ?p - pg_committed_discards ?p) (ps_journal x, ps_world x) = ((j, s), q)"
    by (metis prod.collapse)
  with assms(2) False have "ps_journal x' = j" by (auto simp: export_commit_def Let_def split: sum.splits)
  with accounts_advance [OF a, of "d + pg_committed_discards ?p"] assms(1) show ?thesis by (simp add: pass_books_def)
qed

lemma export_signal_books:
  assumes ready: "pass_ready o' lines j s" and acc: "accounts (of_lib o') d j" and x: "x = export_signal o' lines j s"
    and ok: "\<nexists>e. pg_stopped (ps_progress x) = Some (Stop_commit e)"
  shows "accounts (of_lib o') (d + pg_discarded (ps_progress x)) (ps_journal x)"
proof -
  define y where "y = signal_loop o' lines [(0, length lines)] \<lparr>ps_progress = progress_default, ps_journal = j, ps_world = s\<rparr>"
  have y: "pass_halt o' lines (cc_quarantine (jr_state j)) d y \<or>
      pass_go o' lines (cc_quarantine (jr_state j)) d y \<and> pg_resolved (ps_progress y) = length lines"
    unfolding y_def using ready by (intro loop_ok [OF _ pass_start [OF ready acc], of 0]) (simp_all add: pass_ready_def)
  obtain z r where c: "export_commit o' lines y = (z, r)" by fastforce
  have xz: "ps_journal x = ps_journal z" "pg_discarded (ps_progress x) = pg_discarded (ps_progress z)"
    "pg_stopped (ps_progress z) = None \<or> pg_stopped (ps_progress x) = pg_stopped (ps_progress z)"
    using c by (auto simp: x export_signal_def y_def [symmetric] on_progress_def split: sum.splits option.splits)
  from y xz(3) ok commit_progress(5) [OF c] have "pass_books o' lines d y"
    by (auto simp: pass_halt_def pass_go_def)
  from commit_accounts [OF this c] xz commit_progress(4) [OF c] show ?thesis by simp
qed

interpretation same_lines: pass_steps o' "\<lambda>j s. jr_lines j = L"
proof unfold_locales
  fix j s j' s' r reached n
  assume "jr_lines j = L" and "journal_advance (of_out o') (of_lib o') (of_signal o') reached n (j, s) = ((j', s'), r)"
  from this(2,1) show "jr_lines j' = L"
    by (cases rule: journal_advance_cases) (auto dest: journal_commit_state)
qed (simp_all add: journal_quarantine_def)

text \<open>After both passes the counter has moved by the records given up on and by those lost in the transform
  of the lines that the shared offset passed.\<close>

lemma pass_both_books:
  assumes acc: "accounts (ep_lib ep) d j" and tg: "target_ok tg" and b: "pass_both ep tg j s = (oc, j', s')"
    and ok: "\<nexists>e. Stop_commit e \<in> set (po_failures oc)"
  obtains es where "cs_log s' = cs_log s @ es" "jr_lines j' = jr_lines j"
    "accounts (ep_lib ep) (d + length (given_up Sig_Metrics es) + length (given_up Sig_Logs es)) j'"
proof -
  define j1 where "j1 = journal_quarantine (prune (pt_now tg)) j"
  define xm where "xm = pass_of ep tg Sig_Metrics j1 s"
  define xl where "xl = pass_of ep tg Sig_Logs (ps_journal xm) (ps_world xm)"
  from pass_both_eq [OF xm_def [unfolded j1_def] xl_def] b obtain
    f: "po_failures oc = (case pg_stopped (ps_progress xm) of Some e \<Rightarrow> [e] | None \<Rightarrow> []) @
       (case pg_stopped (ps_progress xl) of Some e \<Rightarrow> [e] | None \<Rightarrow> [])"
    and j': "j' = ps_journal xl" and s': "s' = cs_after (cs_log s @ plog xm) (ps_world xl)" by (metis Pair_inject)
  have stm: "\<nexists>e. pg_stopped (ps_progress xm) = Some (Stop_commit e)" and stl: "\<nexists>e. pg_stopped (ps_progress xl) = Some (Stop_commit e)"
    using ok f by auto
  have ready: "pass_ready (offer_for ep tg sig) (pending_for (jr_state k) sig (pt_lines tg)) k (t\<lparr>cs_log := []\<rparr>)" for sig k t
    using target_lines_ok [OF tg] by (simp add: pass_ready_def pending_for_def)
  have acc1: "accounts (ep_lib ep) d j1" using acc by (simp add: j1_def)
  have accm: "accounts (ep_lib ep) (d + pg_discarded (ps_progress xm)) (ps_journal xm)"
    using export_signal_books [OF ready _ xm_def [unfolded pass_of_def] stm] acc1 by simp
  have accl: "accounts (ep_lib ep) (d + pg_discarded (ps_progress xm) + pg_discarded (ps_progress xl)) (ps_journal xl)"
    using export_signal_books [OF ready _ xl_def [unfolded pass_of_def] stl] accm by simp
  note m = pass_of_ok [OF acc1 tg, of Sig_Metrics s, folded xm_def] and l = pass_of_ok [OF accm tg, of Sig_Logs "ps_world xm", folded xl_def]
  have g: "given_up Sig_Logs (plog xm) = []" "given_up Sig_Metrics (plog xl) = []"
    using m(2) l(2) own_other(2) [of "plog xm" Sig_Metrics _ Sig_Logs] own_other(2) [of "plog xl" Sig_Logs _ Sig_Metrics]
    by (auto simp: own_pass_def)
  have "length (given_up Sig_Metrics (plog xm)) = pg_discarded (ps_progress xm)"
    "length (given_up Sig_Logs (plog xl)) = pg_discarded (ps_progress xl)"
    using m(1) l(1) by (simp_all add: pass_base_def Let_def)
  moreover have "jr_lines j' = jr_lines j"
    unfolding j' xl_def xm_def pass_of_def j1_def
    by (intro same_lines.passed_over) (simp add: journal_quarantine_def)
  ultimately show ?thesis using accl g by (intro that [of "plog xm @ plog xl"]) (simp_all add: s' j')
qed

section \<open>A collector that takes everything\<close>

definition healthy :: "cp_outside \<Rightarrow> bool" where
  "healthy out \<longleftrightarrow> (\<forall>n rq. accepts (co_send out n rq)) \<and> (\<forall>n op. co_io out n op) \<and> (\<forall>n. co_clock out n \<noteq> None)"

lemma healthy_commit:
  assumes "healthy out"
  obtains j' s' where "journal_commit out j s = ((j', s'), Inr ())"
proof -
  obtain j' s' r where a: "journal_commit out j s = ((j', s'), r)" by (metis prod.exhaust)
  moreover from a assms have "r = Inr ()"
    by (auto simp: journal_commit_def durable_store_def healthy_def Let_def split: if_splits)
  ultimately show ?thesis using that by simp
qed

lemma healthy_advance:
  assumes "healthy out"
  obtains j' s' where "journal_advance out lib sig reached n (j, s) = ((j', s'), Inr ())"
proof -
  obtain j' s' r where a: "journal_advance out lib sig reached n (j, s) = ((j', s'), r)" by (metis prod.exhaust)
  from assms obtain now where "co_clock out (cs_now s) = Some now" by (metis healthy_def not_None_eq)
  have "r = Inr ()"
  proof (rule ccontr)
    assume "r \<noteq> Inr ()"
    with a assms \<open>co_clock out (cs_now s) = Some now\<close> show False
      by (auto simp: journal_advance_def record_discards_def journal_commit_def durable_store_def healthy_def Let_def
          split: if_splits option.splits prod.splits)
  qed
  with a that show ?thesis by simp
qed

lemma healthy_export_commit:
  assumes "healthy (of_out o')" "pg_committed (ps_progress x) \<noteq> Some (pg_resolved (ps_progress x))"
  obtains x' es where "export_commit o' lines x = (x', Inr ())"
    "ps_progress x' = (ps_progress x)\<lparr>pg_committed := Some (pg_resolved (ps_progress x)), pg_committed_discards := pg_discarded (ps_progress x)\<rparr>"
    "signal_offset (jr_state (ps_journal x')) (of_signal o') =
       max (signal_offset (jr_state (ps_journal x)) (of_signal o')) (advanced_to lines (pg_resolved (ps_progress x)) (of_end_offset o'))"
    "plog x' = plog x @ es" "given_up (of_signal o') es = []" "posts es = 0"
proof -
  let ?p = "ps_progress x" and ?reached = "advanced_to lines (pg_resolved (ps_progress x)) (of_end_offset o')"
  from healthy_advance [OF assms(1), of "of_lib o'" "of_signal o'" ?reached "pg_discarded ?p - pg_committed_discards ?p" "ps_journal x" "ps_world x"]
  obtain j s where a: "journal_advance (of_out o') (of_lib o') (of_signal o') ?reached (pg_discarded ?p - pg_committed_discards ?p)
      (ps_journal x, ps_world x) = ((j, s), Inr ())" by blast
  from journal_advance_effect [OF a] obtain es where es: "cs_log s = cs_log (ps_world x) @ es" "es = [] \<or> es = [Ev_Stored (jr_state j)]"
    by blast
  from jr.adv_off [OF a] have "signal_offset (jr_state j) (of_signal o') = max (signal_offset (jr_state (ps_journal x)) (of_signal o')) ?reached"
    by (simp add: js_off_def)
  with a assms(2) es show ?thesis
    by (intro that [of "x\<lparr>ps_journal := j, ps_world := s,
          ps_progress := ?p\<lparr>pg_committed := Some (pg_resolved ?p), pg_committed_discards := pg_discarded ?p\<rparr>\<rparr>" es])
      (auto simp: export_commit_def Let_def)
qed

lemma healthy_pass:
  assumes h: "healthy (of_out o')" and x_def: "x = export_signal o' lines j s"
  shows "pg_stopped (ps_progress x) = None \<and> given_up (of_signal o') (plog x) = given_up (of_signal o') (cs_log s) \<and>
    of_end_offset o' \<le> signal_offset (jr_state (ps_journal x)) (of_signal o') \<and> posts (plog x) \<le> posts (cs_log s) + 1"
proof -
  let ?x0 = "\<lparr>ps_progress = progress_default, ps_journal = j, ps_world = s\<rparr>"
  from healthy_export_commit [OF h, of ?x0 lines] obtain x1 es where
    c: "export_commit o' lines ?x0 = (x1, Inr ())" "ps_progress x1 = progress_default\<lparr>pg_committed := Some 0\<rparr>"
    and off: "signal_offset (jr_state (ps_journal x1)) (of_signal o') =
       max (signal_offset (jr_state j) (of_signal o')) (advanced_to lines 0 (of_end_offset o'))"
    and lg: "plog x1 = cs_log s @ es" "given_up (of_signal o') es = []" "posts es = 0"
    by (auto simp: progress_default_def)
  show ?thesis
  proof (cases "lines = []")
    case True
    have r: "signal_range o' lines (0, 0) x1 = (x1, Go [])" by (simp add: signal_range_def Let_def)
    have "export_commit o' lines x1 = (x1, Inr ())" by (simp add: export_commit_def c(2) progress_default_def)
    then have "x = x1" using True c(1) r by (simp add: x_def export_signal_def signal_loop.simps signal_turn_def)
    with True off lg c show ?thesis by (simp add: advanced_to_def progress_default_def)
  next
    case False
    obtain x2 where x2: "signal_range o' lines (0, length lines) x1 = (x2, Go [])" "pg_resolved (ps_progress x2) = length lines"
        "pg_committed (ps_progress x2) = Some 0" "pg_stopped (ps_progress x2) = None"
        "given_up (of_signal o') (plog x2) = given_up (of_signal o') (plog x1)" "posts (plog x2) \<le> posts (plog x1) + 1"
    proof (cases "export_build (of_lib o') lines (of_signal o')")
      case None
      with False that [of "on_progress (\<lambda>p. p\<lparr>pg_resolved := length lines\<rparr>) x1"] show ?thesis
        by (simp add: signal_range_def c(2) progress_default_def MAX_REQUESTS_def on_progress_def Let_def)
    next
      case (Some b)
      obtain pl records where b: "b = (pl, records)" by (cases b)
      obtain y v where y: "export_post o' lines pl x1 = (y, v)" by fastforce
      from y h have v: "v = Inr Accepted"
        by (auto simp: export_post_def push_post_def Let_def healthy_def answer_accepts)
      from export_post_effect [OF y] obtain rq res where "plog y = plog x1 @ [Ev_Posted (of_signal o') rq (map tl_offset lines) res]"
        "ps_progress y = (ps_progress x1)\<lparr>pg_requests := sat_add (pg_requests (ps_progress x1)) 1\<rparr>" .
      with False Some b y v that [of "on_progress (\<lambda>p. p\<lparr>pg_accepted := sat_add (pg_accepted p) records, pg_resolved := length lines\<rparr>) y"]
      show ?thesis
        by (simp add: signal_range_def c(2) progress_default_def MAX_REQUESTS_def on_progress_def Let_def)
    qed
    from False x2(2,3) have "pg_committed (ps_progress x2) \<noteq> Some (pg_resolved (ps_progress x2))" by simp
    then obtain x3 fs where c3: "export_commit o' lines x2 = (x3, Inr ())" and p3:
        "ps_progress x3 = (ps_progress x2)\<lparr>pg_committed := Some (pg_resolved (ps_progress x2)), pg_committed_discards := pg_discarded (ps_progress x2)\<rparr>"
      and off3: "signal_offset (jr_state (ps_journal x3)) (of_signal o') =
       max (signal_offset (jr_state (ps_journal x2)) (of_signal o')) (advanced_to lines (pg_resolved (ps_progress x2)) (of_end_offset o'))"
      and lg3: "plog x3 = plog x2 @ fs" "given_up (of_signal o') fs = []" "posts fs = 0"
      by (rule healthy_export_commit [OF h])
    have "x = x3" by (simp add: x_def export_signal_def signal_loop.simps signal_turn_def c x2 c3 Let_def)
    with p3 off3 lg3 lg x2 show ?thesis by (simp add: advanced_to_def)
  qed
qed

lemma healthy_both:
  assumes h: "healthy (ep_out ep)" and acc: "accounts (ep_lib ep) d j" and tg: "target_ok tg"
    and b: "pass_both ep tg j s = (oc, j', s')"
  obtains es where "cs_log s' = cs_log s @ es" "po_failures oc = []" "pt_end_offset tg \<le> cc_offset (jr_state j')"
    "\<forall>sig. given_up sig es = []" "posts es \<le> 2"
    "\<forall>sig. \<forall>l \<in> set (pending_for (jr_state j) sig (pt_lines tg)). line_carries (ep_lib ep) sig (tl_text l) \<longrightarrow>
       tl_offset l \<in> set (accepted_lines sig es)"
proof -
  define j1 where "j1 = journal_quarantine (prune (pt_now tg)) j"
  define xm where "xm = pass_of ep tg Sig_Metrics j1 s"
  define xl where "xl = pass_of ep tg Sig_Logs (ps_journal xm) (ps_world xm)"
  from pass_both_eq [OF xm_def [unfolded j1_def] xl_def] b obtain
    f: "po_failures oc = (case pg_stopped (ps_progress xm) of Some e \<Rightarrow> [e] | None \<Rightarrow> []) @
       (case pg_stopped (ps_progress xl) of Some e \<Rightarrow> [e] | None \<Rightarrow> [])"
    and j': "j' = ps_journal xl" and s': "s' = cs_after (cs_log s @ plog xm) (ps_world xl)" by (metis Pair_inject)
  from pass_both_ok [OF acc tg b] obtain es where es: "wrote s es s'"
    "end_settled (ep_lib ep) (jr_state j) (pt_lines tg) (jr_state j') es" "\<exists>d. accounts (ep_lib ep) d j'" by blast
  have e: "es = plog xm @ plog xl" using es(1) by (simp add: wrote_def s')
  have acc1: "accounts (ep_lib ep) d j1" using acc by (simp add: j1_def)
  note m = pass_of_ok [OF acc1 tg, of Sig_Metrics s, folded xm_def]
  from m(3) obtain d' where acc': "accounts (ep_lib ep) d' (ps_journal xm)" ..
  note l = pass_of_ok [OF acc' tg, of Sig_Logs "ps_world xm", folded xl_def]
  have h': "healthy (of_out (offer_for ep tg sig))" for sig using h by simp
  note hm = healthy_pass [OF h' xm_def [unfolded pass_of_def], simplified] and hl = healthy_pass [OF h' xl_def [unfolded pass_of_def], simplified]
  have g: "given_up Sig_Logs (plog xm) = []" "given_up Sig_Metrics (plog xl) = []"
    using m(2) l(2) own_other(2) [of "plog xm" Sig_Metrics _ Sig_Logs] own_other(2) [of "plog xl" Sig_Logs _ Sig_Metrics]
    by (auto simp: own_pass_def)
  have none: "given_up sig es = []" for sig using g hm hl by (cases sig) (simp_all add: e)
  have off: "pt_end_offset tg \<le> signal_offset (jr_state j') sig" for sig
    using hm hl l(2) by (cases sig) (simp_all add: j' own_pass_def)
  with es(3) have "pt_end_offset tg \<le> cc_offset (jr_state j')" by (auto simp: accounts_def cc_wf_def)
  moreover have "tl_offset k \<in> set (accepted_lines sig es)"
    if "k \<in> set (pending_for (jr_state j) sig (pt_lines tg))" "line_carries (ep_lib ep) sig (tl_text k)" for sig k
  proof -
    from that(1) tg have "tl_offset k < pt_end_offset tg" by (simp add: pending_for_def target_ok_def)
    with off [of sig] have "tl_offset k < signal_offset (jr_state j') sig" by simp
    with es(2) that none show ?thesis by (auto simp: end_settled_def settled_def)
  qed
  ultimately show ?thesis using that [of es] es(1) none f hm hl by (simp add: wrote_def e)
qed

end
