(* ===== verification/Copilot_Props.thy ===== *)
theory Copilot_Props
  imports Copilot_Wake
begin

text \<open>
  The properties of the Copilot drain, with their witnesses on a small concrete instance: the line
  \<open>a\<close> parses as a log record, the line \<open>m\<close> as nothing, the digest is the identity, and the editor leaves the
  file alone.
\<close>

section \<open>A concrete instance\<close>

definition smc_record :: json where
  "smc_record = JObject [(''_body'', JString ''x'')]"

definition smc_lib :: cp_lib where
  "smc_lib =
     \<lparr>cl_f64 = \<lparr>fl_value = (\<lambda>_. 0), fl_of_int = (\<lambda>_. [])\<rparr>,
      cl_doc = \<lparr>from_str = (\<lambda>t. if t = ''a'' then Inr smc_record else Inl []), to_str = (\<lambda>_. Some [])\<rparr>,
      cl_sha = (\<lambda>s. s)\<rparr>"

definition smc_out :: cp_outside where
  "smc_out = \<lparr>co_send = (\<lambda>_ _. Some 200), co_clock = (\<lambda>_. Some 7), co_io = (\<lambda>_ _. True), co_writer = (\<lambda>_ f. f)\<rparr>"

definition smc_wake :: cp_wake where
  "smc_wake = \<lparr>wk_to = \<lparr>ep_out = smc_out, ep_lib = smc_lib, ep_base = ''u'', ep_bearer = ''b''\<rparr>, wk_dry_run = False\<rparr>"

definition smc_state :: cp_state where
  "smc_state = \<lparr>cs_file = Some (0, [CHR ''a'', newline, CHR ''m'', newline]), cs_stored = Absent, cs_now = 0, cs_log = []\<rparr>"

definition smc_drain :: drain where
  "smc_drain =
     \<lparr>dr_lines = [\<lparr>tl_offset = 0, tl_text = ''a''\<rparr>, \<lparr>tl_offset = 2, tl_text = ''m''\<rparr>], next_offset = 4, restarted = None,
      missing = False, dr_size = 4, dr_identity = Some (identity_of (\<lambda>s. s) (0, [CHR ''a'', newline, CHR ''m'', newline]))\<rparr>"

lemma smc_read:
  "tail_drain (co_io smc_out n) (cl_sha smc_lib) (cs_file smc_state) (cc_offset cc_default) (cc_spool cc_default) = Inr smc_drain"
proof -
  have l: "from_utf8_lossy ''a'' = ''a''" "from_utf8_lossy ''m'' = ''m''" "from_utf8_lossy [] = []"
    by (rule from_utf8_lossy_valid, code_simp)+
  have t: "str_trim ''a'' = ''a''" "str_trim ''m'' = ''m''" "str_trim [] = []" by code_simp+
  show ?thesis
    by (simp add: tail_drain_def smc_out_def smc_lib_def smc_state_def cc_default_def identity_restart_def MAX_READ_def
        smc_drain_def l t Let_def)
qed

lemma smc_carries: "line_carries smc_lib Sig_Logs ''a''"
proof -
  have "de_log_record smc_record \<noteq> None" "classify smc_record = Kind_Log" by code_simp+
  then show ?thesis
    by (auto simp: line_carries_acc line_acc_def build_line_def smc_lib_def logs_transform_def produces_def Let_def)
qed

lemma smc_healthy: "healthy smc_out"
  by (auto simp: healthy_def smc_out_def accepts_def is_success_def)

lemma smc_default: "durable_load (co_io smc_out n) (cs_stored smc_state) = Inr cc_default" "cc_ok cc_default"
  by (simp_all add: durable_load_def smc_out_def smc_state_def cc_ok_def) (simp add: cc_default_def)

lemma smc_editor [simp]: "cs_file (editor smc_out (cs_tick s)) = cs_file s"
  by (simp add: editor_def cs_tick_def smc_out_def)

lemma smc_wake_simps [simp]: "ep_out (wk_to smc_wake) = smc_out" "ep_lib (wk_to smc_wake) = smc_lib" "wk_dry_run smc_wake = False"
  by (simp_all add: smc_wake_def)

lemma smc_fields [simp]:
  "missing smc_drain = False" "restarted smc_drain = None" "cs_log smc_state = []" "signal_offset cc_default sig = 0"
  by (simp_all add: smc_drain_def smc_state_def signal_offset_def cc_default_def split: cp_signal.splits)

lemmas smc_reads = smc_read [folded smc_editor [of smc_state]]

section \<open>The sweep\<close>

lemma reclaim_events:
  assumes "reclaim_maybe out lib c s = (s', r)"
  obtains fs where "cs_log s' = cs_log s @ fs" "posts fs = 0" "\<forall>sig. given_up sig fs = []"
proof -
  have wt: "\<exists>es. cs_log (truncate_inode ino s) = cs_log s @ es \<and> (es = [] \<or> (\<exists>n. es = [Ev_Truncated n]))" for ino s
    using wrote_truncate [of s ino] by (auto simp: wrote_def)
  have ed: "cs_log (editor out s) = cs_log s" for s by (simp add: editor_def cs_tick_def)
  from assms show ?thesis
  proof (cases rule: reclaim_cases)
    case declined
    then show ?thesis by (intro that [of "[]"]) (auto simp: ed)
  next
    case (truncated f s2)
    from wt [of "fst f" "editor out (editor out s)"] obtain es where
      es: "cs_log s2 = cs_log s @ es" "es = [] \<or> (\<exists>n. es = [Ev_Truncated n])" by (auto simp: truncated(4) ed)
    from truncated(5) obtain gs where gs: "cs_log s' = cs_log s2 @ gs" "gs = [] \<or> (\<exists>c. gs = [Ev_Stored c])"
      using durable_store_log by fastforce
    with es show ?thesis by (intro that [of "es @ gs"]) auto
  qed
qed

lemma sweep_once_read:
  assumes "durable_load (co_io (ep_out (wk_to w)) (cs_now s)) (cs_stored s) = Inr c"
    and "tail_drain (co_io (ep_out (wk_to w)) (cs_now (editor (ep_out (wk_to w)) (cs_tick s)))) (cl_sha (ep_lib (wk_to w)))
      (cs_file (editor (ep_out (wk_to w)) (cs_tick s))) (cc_offset c) (cc_spool c) = Inr d"
    and "\<not> missing d" "cc_ok c"
  obtains es where "cs_log (fst (sweep_once w n s)) = cs_log s @ es" "log_ok es" "within_budget es"
    "kept (ep_lib (wk_to w)) (if restarted d \<noteq> None then cc_restart c else c) (dr_lines d) es"
proof -
  let ?s1 = "cs_tick (editor (ep_out (wk_to w)) (cs_tick s))"
  obtain s' r where sw: "sweep_read w n c d ?s1 = (s', r)" by fastforce
  from assms(1-3) sw have "fst (sweep_once w n s) = s'" by (simp add: sweep_once_def Let_def)
  with sweep_read_ok [OF assms(2,4) sw] that show ?thesis
    by (auto simp: swept_ok_def wrote_def editor_def cs_tick_def)
qed

text \<open>C7: no checkpoint that a sweep writes passes an unsettled record: whatever the collector, the clock and
  the file calls do, every line the sweep read that lies before the offset of a signal in a checkpoint
  written by it had by then been accepted by the collector for that signal, or given up on (and
  logged so), or carries nothing of the signal; and no line is delivered twice or both delivered and
  given up on in one sweep.\<close>

theorem copilot_sweep_conserves:
  assumes "durable_load (co_io (ep_out (wk_to w)) (cs_now s)) (cs_stored s) = Inr c" and "cc_ok c"
    and "tail_drain (co_io (ep_out (wk_to w)) (cs_now (editor (ep_out (wk_to w)) (cs_tick s)))) (cl_sha (ep_lib (wk_to w)))
      (cs_file (editor (ep_out (wk_to w)) (cs_tick s))) (cc_offset c) (cc_spool c) = Inr d" and "\<not> missing d"
    and "c0 = (if restarted d \<noteq> None then cc_restart c else c)"
  shows "\<exists>es. cs_log (fst (sweep_once w n s)) = cs_log s @ es \<and>
    (\<forall>xs c' ys sig l. es = xs @ Ev_Stored c' # ys \<and> l \<in> set (dr_lines d) \<and> signal_offset c0 sig \<le> tl_offset l \<and>
       tl_offset l < signal_offset c' sig \<longrightarrow> settled (ep_lib (wk_to w)) sig xs l) \<and>
    (\<forall>sig. distinct (accepted_lines sig es @ given_up sig es))"
proof -
  from sweep_once_read [OF assms(1,3,4,2), of n] obtain es where es: "cs_log (fst (sweep_once w n s)) = cs_log s @ es"
    and k: "kept (ep_lib (wk_to w)) c0 (dr_lines d) es" unfolding assms(5) by blast
  from k have "settled (ep_lib (wk_to w)) sig xs l"
    if "es = xs @ Ev_Stored c' # ys" "l \<in> set (dr_lines d)" "signal_offset c0 sig \<le> tl_offset l" "tl_offset l < signal_offset c' sig"
    for xs c' ys sig l using that by (auto simp: kept_def covered_def pending_for_def)
  moreover have "distinct (accepted_lines sig es @ given_up sig es)" for sig using k by (simp only: kept_def)
  ultimately show ?thesis using es by blast
qed

theorem copilot_sweep_conserves_witness:
  "\<exists>es. cs_log (fst (sweep_once smc_wake 0 smc_state)) = es \<and>
    (\<forall>xs c' ys sig l. es = xs @ Ev_Stored c' # ys \<and> l \<in> set (dr_lines smc_drain) \<and> tl_offset l < signal_offset c' sig \<longrightarrow>
       settled smc_lib sig xs l)"
proof -
  from copilot_sweep_conserves [of smc_wake smc_state cc_default smc_drain cc_default 0] smc_default smc_reads
  show ?thesis by simp blast
qed

text \<open>C8: at most one request is repeated after a kill: before any request of a signal leaves, the checkpoint on
  disk has passed every line the collector accepted for that signal so far in the sweep.\<close>

theorem copilot_delivery_recorded:
  assumes "durable_load (co_io (ep_out (wk_to w)) (cs_now s)) (cs_stored s) = Inr c" and "cc_ok c"
    and "tail_drain (co_io (ep_out (wk_to w)) (cs_now (editor (ep_out (wk_to w)) (cs_tick s)))) (cl_sha (ep_lib (wk_to w)))
      (cs_file (editor (ep_out (wk_to w)) (cs_tick s))) (cc_offset c) (cc_spool c) = Inr d" and "\<not> missing d"
  shows "\<exists>es. cs_log (fst (sweep_once w n s)) = cs_log s @ es \<and>
    (\<forall>xs sig rq offs res ys off. es = xs @ Ev_Posted sig rq offs res # ys \<and> off \<in> set (accepted_lines sig xs) \<longrightarrow>
       (\<exists>c'. last_stored xs = Some c' \<and> off < signal_offset c' sig))"
proof -
  from sweep_once_read [OF assms(1,3,4,2), of n] obtain es where es: "cs_log (fst (sweep_once w n s)) = cs_log s @ es"
    and k: "kept (ep_lib (wk_to w)) (if restarted d \<noteq> None then cc_restart c else c) (dr_lines d) es" by blast
  have "\<exists>c'. last_stored xs = Some c' \<and> off < signal_offset c' sig"
    if "es = xs @ Ev_Posted sig rq offs res # ys" "off \<in> set (accepted_lines sig xs)" for xs sig rq offs res ys off
  proof -
    from k have "recorded_own sig es" by (simp add: kept_def)
    with that show ?thesis unfolding recorded_own_def on_disk_def by blast
  qed
  with es show ?thesis by blast
qed

theorem copilot_delivery_recorded_witness:
  "\<exists>es. cs_log (fst (sweep_once smc_wake 0 smc_state)) = es \<and>
    (\<forall>xs sig rq offs res ys off. es = xs @ Ev_Posted sig rq offs res # ys \<and> off \<in> set (accepted_lines sig xs) \<longrightarrow>
       (\<exists>c'. last_stored xs = Some c' \<and> off < signal_offset c' sig))"
proof -
  from copilot_delivery_recorded [of smc_wake smc_state cc_default smc_drain 0] smc_default smc_reads
  show ?thesis by simp
qed

text \<open>C31: with a collector that accepts, file calls that succeed and a clock that reads, a sweep over a spool
  with new lines fails on nothing and resolves everything it read: each line that carries a signal is
  accepted for it, none is given up on, in at most two requests.\<close>

theorem copilot_healthy_sweep_delivers:
  assumes "healthy (ep_out (wk_to w))" and "\<not> wk_dry_run w"
    and "durable_load (co_io (ep_out (wk_to w)) (cs_now s)) (cs_stored s) = Inr c" and "cc_ok c"
    and "tail_drain (co_io (ep_out (wk_to w)) (cs_now (editor (ep_out (wk_to w)) (cs_tick s)))) (cl_sha (ep_lib (wk_to w)))
      (cs_file (editor (ep_out (wk_to w)) (cs_tick s))) (cc_offset c) (cc_spool c) = Inr d"
    and "\<not> missing d" and "dr_lines d \<noteq> []" and "c0 = (if restarted d \<noteq> None then cc_restart c else c)"
  shows "\<exists>es sw. cs_log (fst (sweep_once w n s)) = cs_log s @ es \<and> snd (sweep_once w n s) = Inr sw \<and>
    sw_failed sw = None \<and> sw_complete sw \<and> posts es \<le> 2 \<and>
    (\<forall>sig. given_up sig es = [] \<and> (\<forall>l \<in> set (dr_lines d). signal_offset c0 sig \<le> tl_offset l \<and>
       line_carries (ep_lib (wk_to w)) sig (tl_text l) \<longrightarrow> tl_offset l \<in> set (accepted_lines sig es)))"
proof -
  let ?out = "ep_out (wk_to w)" and ?lib = "ep_lib (wk_to w)"
  let ?s1 = "cs_tick (editor ?out (cs_tick s))"
  define j where "j = journal_new (dr_lines d) c (dr_identity d) (restarted d \<noteq> None)"
  have js: "jr_state j = c0" by (simp add: j_def journal_new_def assms(8))
  obtain now where now: "co_clock ?out (cs_now ?s1) = Some now" using assms(1) by (metis healthy_def not_None_eq)
  let ?tg = "\<lparr>pt_lines = dr_lines d, pt_end_offset = next_offset d, pt_now = now\<rparr>"
  have acc: "accounts ?lib (cc_discarded_total c) j"
    using assms(4) drain_target_ok(2) [OF assms(5)] unfolding j_def by (intro accounts_new) (simp_all add: cc_ok_def)
  obtain oc j1 s1 where b: "pass_both (wk_to w) ?tg j (cs_tick ?s1) = (oc, j1, s1)" by (metis prod_cases3)
  obtain es where lg: "cs_log s1 = cs_log (cs_tick ?s1) @ es" and f: "po_failures oc = []"
    and o: "pt_end_offset ?tg \<le> cc_offset (jr_state j1)" and g: "\<forall>sig. given_up sig es = []" and p: "posts es \<le> 2"
    and a: "\<forall>sig. \<forall>l \<in> set (pending_for c0 sig (pt_lines ?tg)). line_carries ?lib sig (tl_text l) \<longrightarrow>
       tl_offset l \<in> set (accepted_lines sig es)"
    using healthy_both [OF assms(1) acc drain_target_ok(1) [OF assms(5)] b, unfolded js] .
  have es: "cs_log s1 = cs_log s @ es" "po_failures oc = []" "next_offset d \<le> cc_offset (jr_state j1)" "posts es \<le> 2"
    using lg f o p by (simp_all add: editor_def cs_tick_def)
  let ?jf = "journal_finished (sat_add n (po_pushed oc)) (po_stalled oc) now j1"
  obtain j2 s2 where cm: "journal_commit ?out ?jf s1 = ((j2, s2), Inr ())" using healthy_commit [OF assms(1)] .
  have off: "cc_offset (jr_state j2) = cc_offset (jr_state j1)"
    using journal_commit_state(1) [OF cm] same_offsets_finished [of "sat_add n (po_pushed oc)" "po_stalled oc" now j1]
    by (simp add: cc_same_offsets_def)
  have sw: "sweep_once w n s = (best_effort ?out ?lib (jr_state j2) (wk_dry_run w) s2,
      Inr \<lparr>sw_advanced = cc_offset (jr_state j2) - cc_offset c, sw_pushed = po_pushed oc,
        sw_pending = dr_size d - cc_offset (jr_state j2), sw_complete = True, sw_failed = None\<rparr>)"
    using assms(2,3,5-7) now b [unfolded j_def] cm es(2,3) off
    by (simp add: sweep_once_def sweep_read_def sweep_lines_def pass_settled_def Let_def)
  obtain s3 r where rm: "reclaim_maybe ?out ?lib (jr_state j2) s2 = (s3, r)" by fastforce
  have "cs_log s2 = cs_log s1 \<or> cs_log s2 = cs_log s1 @ [Ev_Stored (jr_state j2)]"
    using wrote_commit [OF cm] by (auto simp: wrote_def)
  moreover obtain fs where "cs_log s3 = cs_log s2 @ fs" "posts fs = 0" "\<forall>sig. given_up sig fs = []"
    using reclaim_events [OF rm] .
  ultimately obtain gs where gs: "cs_log (fst (sweep_once w n s)) = cs_log s @ es @ gs" "posts gs = 0" "\<And>sig. given_up sig gs = []"
    using es(1) assms(2) sw rm by (auto simp: best_effort_def posts_def given_up_def)
  have "tl_offset l \<in> set (accepted_lines sig (es @ gs))"
    if "l \<in> set (dr_lines d)" "signal_offset c0 sig \<le> tl_offset l" "line_carries ?lib sig (tl_text l)" for sig l
    using a that by (simp add: pending_for_def)
  with gs g es(4) sw show ?thesis by (intro exI [of _ "es @ gs"]) auto
qed

theorem copilot_healthy_sweep_delivers_witness:
  "\<exists>es sw. cs_log (fst (sweep_once smc_wake 0 smc_state)) = es \<and> snd (sweep_once smc_wake 0 smc_state) = Inr sw \<and>
     sw_failed sw = None \<and> sw_complete sw \<and> 0 \<in> set (accepted_lines Sig_Logs es)"
proof -
  have l: "dr_lines smc_drain \<noteq> []" "\<lparr>tl_offset = 0, tl_text = ''a''\<rparr> \<in> set (dr_lines smc_drain)" by (simp_all add: smc_drain_def)
  from copilot_healthy_sweep_delivers [of smc_wake smc_state cc_default smc_drain cc_default 0]
    smc_default smc_reads smc_healthy l(1) obtain es sw where
    "cs_log (fst (sweep_once smc_wake 0 smc_state)) = es" "snd (sweep_once smc_wake 0 smc_state) = Inr sw" "sw_failed sw = None" "sw_complete sw"
    "\<forall>l \<in> set (dr_lines smc_drain). line_carries smc_lib Sig_Logs (tl_text l) \<longrightarrow> tl_offset l \<in> set (accepted_lines Sig_Logs es)"
    by auto
  with bspec [OF this(5) l(2)] smc_carries show ?thesis by auto
qed

section \<open>The wake\<close>

text \<open>C32: a wake that starts from a well-formed checkpoint is a chain of at most \<open>MAX_PASSES\<close> = 64 sweeps,
  whether it succeeds or fails; each of its sweeps posts at most 513 requests for metrics and at most 513
  for logs (one more than \<open>MAX_REQUESTS\<close>: the probe of an isolated record is not checked against the
  ceiling); a successful wake reports no more passes than it made sweeps; and the checkpoint it leaves is
  well-formed again.\<close>

theorem copilot_wake_is_bounded:
  assumes "stored_ok (cs_stored s)"
  shows "\<exists>sweeps. sweep_chain w s sweeps (fst (cp_drain_once elapsed locked w s)) \<and> length sweeps \<le> MAX_PASSES \<and>
    (\<forall>sig. list_all (\<lambda>es. posts_for sig es \<le> MAX_REQUESTS + 1) sweeps) \<and>
    stored_ok (cs_stored (fst (cp_drain_once elapsed locked w s))) \<and>
    (\<forall>t. snd (cp_drain_once elapsed locked w s) = Inr t \<longrightarrow> ta_passes t \<le> length sweeps)"
proof (cases locked)
  case True
  with assms show ?thesis by (intro exI [of _ "[]"]) (auto simp: cp_drain_once_def tally_default_def)
next
  case False
  obtain s' r where l: "cp_drain_loop elapsed w tally_default s = (s', r)" by fastforce
  have "ta_passes tally_default < MAX_PASSES" by (simp add: tally_default_def MAX_PASSES_def)
  from drain_loop_bounds [OF assms this l] obtain sweeps where
    b: "stored_ok (cs_stored s')" "sweep_chain w s sweeps s'" "list_all within_budget sweeps" "length sweeps \<le> MAX_PASSES"
      "\<forall>t' f. r = Inr (t', f) \<longrightarrow> ta_passes t' \<le> length sweeps" by (auto simp: tally_default_def)
  have "fst (cp_drain_once elapsed locked w s) = s'"
    using False l by (auto simp: cp_drain_once_def split: sum.splits prod.splits option.splits)
  moreover have "snd (cp_drain_once elapsed locked w s) = Inr t \<Longrightarrow> ta_passes t \<le> length sweeps" for t
    using False l b(5) by (auto simp: cp_drain_once_def split: sum.splits prod.splits option.splits)
  moreover have "list_all (\<lambda>es. posts_for sig es \<le> MAX_REQUESTS + 1) sweeps" for sig
    using b(3) by (cases sig) (auto simp: list_all_iff within_budget_def)
  ultimately show ?thesis using b by blast
qed

theorem copilot_wake_is_bounded_witness:
  "\<exists>sweeps. sweep_chain smc_wake smc_state sweeps (fst (cp_drain_once (\<lambda>_. 0) False smc_wake smc_state)) \<and>
     length sweeps \<le> 64 \<and> list_all (\<lambda>es. posts_for Sig_Logs es \<le> 513) sweeps"
  using copilot_wake_is_bounded [of smc_state smc_wake "\<lambda>_. 0" False]
  by (auto simp: stored_ok_def smc_state_def MAX_PASSES_def MAX_REQUESTS_def)

lemma dry_sweep_quiet:
  assumes "wk_dry_run w"
  shows "cs_log (fst (sweep_once w n s)) = cs_log s \<and> cs_stored (fst (sweep_once w n s)) = cs_stored s \<and>
    (snd (sweep_once w n s) = Inr sw \<longrightarrow> sw = swept_nothing)"
  using assms
  by (auto simp: sweep_once_def sweep_read_def best_effort_def editor_def cs_tick_def Let_def split: sum.splits)

text \<open>A run that has no collector, no state directory or no valid credential touches nothing, and a dry run
  posts nothing, stores nothing and leaves the spool to the editor.\<close>

theorem copilot_fails_closed:
  assumes "cf_otel_endpoint cf = None \<or> auth = None \<or> state_dir = None \<or> dry_run"
  shows "cs_log (fst (cp_run out lib elapsed state_dir auth locked cf dry_run s)) = cs_log s \<and>
    cs_stored (fst (cp_run out lib elapsed state_dir auth locked cf dry_run s)) = cs_stored s \<and>
    (\<not> dry_run \<longrightarrow> fst (cp_run out lib elapsed state_dir auth locked cf dry_run s) = s \<and>
      (\<exists>e. snd (cp_run out lib elapsed state_dir auth locked cf dry_run s) = Inl e))"
proof -
  have dry: "cs_log (fst (cp_drain_once elapsed locked w s)) = cs_log s \<and> cs_stored (fst (cp_drain_once elapsed locked w s)) = cs_stored s"
    if "wk_dry_run w" for w
  proof -
    obtain s1 q where sw: "sweep_once w (ta_records tally_default) s = (s1, q)" by fastforce
    with dry_sweep_quiet [OF that, of "ta_records tally_default" s] have
      q: "cs_log s1 = cs_log s" "cs_stored s1 = cs_stored s" "\<And>x. q = Inr x \<Longrightarrow> x = swept_nothing" by auto
    have "fst (cp_drain_loop elapsed w tally_default s) = s1"
      using q(3) sw by (subst cp_drain_loop.simps) (auto simp: Let_def swept_nothing_def split: sum.splits)
    then show ?thesis using q(1,2) by (auto simp: cp_drain_once_def split: prod.splits sum.splits option.splits)
  qed
  show ?thesis using assms dry by (auto simp: cp_run_def split: option.splits)
qed

theorem copilot_fails_closed_witness:
  "fst (cp_run smc_out smc_lib (\<lambda>_. 0) (Some ''d'') None False \<lparr>cf_otel_endpoint = Some ''u'', cf_copilot_spool_path = None\<rparr> False smc_state)
     = smc_state"
  using copilot_fails_closed [of "\<lparr>cf_otel_endpoint = Some ''u'', cf_copilot_spool_path = None\<rparr>" None "Some ''d''" False
      smc_out smc_lib "\<lambda>_. 0" False smc_state] by simp

section \<open>Giving up, and counting it\<close>

text \<open>C9: a record is given up on only after it was refused on its own before this pass, and only in a pass in
  which the collector accepted something: a collector that refuses everything empties no spool.\<close>

theorem copilot_give_up_needs_evidence:
  assumes "accounts (ep_lib ep) d j" and "target_ok tg"
    and "x = export_signal (offer_for ep tg sig) (pending_for (jr_state j) sig (pt_lines tg)) j s"
    and "cs_log (ps_world x) = cs_log s @ es"
  shows "(given_up sig es \<noteq> [] \<longrightarrow> accepted_lines sig es \<noteq> []) \<and>
    (\<forall>off \<in> set (given_up sig es). \<exists>l \<in> set (pt_lines tg). tl_offset l = off \<and>
       refused_before (offer_for ep tg sig) (cc_quarantine (jr_state j)) l)"
proof -
  let ?y = "pass_of ep tg sig j s"
  have "s = cs_after (cs_log s) (s\<lparr>cs_log := []\<rparr>)" by (simp add: cs_after_def)
  with assms(3) have "x = ps_after (cs_log s) ?y" by (metis export_signal_after pass_of_def)
  with assms(4) have "es = plog ?y" by simp
  with pass_of_ok(1) [OF assms(1,2), of sig s] show ?thesis by (auto simp: pass_base_def pending_for_def Let_def)
qed

definition smc_target :: pass_target where
  "smc_target = \<lparr>pt_lines = dr_lines smc_drain, pt_end_offset = 4, pt_now = 7\<rparr>"

definition smc_journal :: journal where
  "smc_journal = journal_new (dr_lines smc_drain) cc_default (dr_identity smc_drain) False"

lemma smc_accounts: "accounts smc_lib 0 smc_journal" "target_ok smc_target"
proof -
  have "accounts smc_lib (cc_discarded_total cc_default) smc_journal"
    unfolding smc_journal_def using smc_default(2) by (intro accounts_new) (simp_all add: cc_ok_def cc_default_def smc_drain_def)
  then show "accounts smc_lib 0 smc_journal" by (simp add: cc_default_def)
  show "target_ok smc_target" by (simp add: target_ok_def smc_target_def smc_drain_def)
qed

theorem copilot_give_up_needs_evidence_witness:
  "\<exists>es. cs_log (ps_world (export_signal (offer_for (wk_to smc_wake) smc_target Sig_Logs)
     (pending_for (jr_state smc_journal) Sig_Logs (pt_lines smc_target)) smc_journal smc_state)) = es \<and>
     (given_up Sig_Logs es \<noteq> [] \<longrightarrow> accepted_lines Sig_Logs es \<noteq> [])"
  using copilot_give_up_needs_evidence [of "wk_to smc_wake" 0 smc_journal smc_target _ Sig_Logs smc_state, OF _ smc_accounts(2) refl] smc_accounts(1)
  by simp

text \<open>C30: the loss counter is exact: unless a checkpoint failed to be written, after both passes it has grown by one
  for each record given up on, and by what the transform lost of each line that the shared offset has
  passed, and by nothing else.\<close>

theorem copilot_loss_counter_exact:
  assumes "tail_drain io sha path (cc_offset c) (cc_spool c) = Inr d" and "cc_ok c"
    and "j = journal_new (dr_lines d) c (dr_identity d) (restarted d \<noteq> None)"
    and "pass_both ep \<lparr>pt_lines = dr_lines d, pt_end_offset = next_offset d, pt_now = now\<rparr> j s = (oc, j', s')"
    and "\<nexists>e. Stop_commit e \<in> set (po_failures oc)"
  shows "\<exists>es. cs_log s' = cs_log s @ es \<and>
    cc_discarded_total (jr_state j') =
      min (cc_discarded_total c + length (given_up Sig_Metrics es) + length (given_up Sig_Logs es) +
           sum_list (map (line_discarded (ep_lib ep) \<circ> tl_text)
             (takeWhile (\<lambda>l. tl_offset l < cc_offset (jr_state j')) (dr_lines d)))) U64_MAX"
proof -
  have acc: "accounts (ep_lib ep) (cc_discarded_total c) j"
    using assms(2) drain_target_ok(2) [OF assms(1)] unfolding assms(3) by (intro accounts_new) (simp_all add: cc_ok_def)
  from pass_both_books [OF acc drain_target_ok(1) [OF assms(1)] assms(4,5)] obtain es where
    "cs_log s' = cs_log s @ es" "jr_lines j' = jr_lines j"
    "accounts (ep_lib ep) (cc_discarded_total c + length (given_up Sig_Metrics es) + length (given_up Sig_Logs es)) j'" .
  then show ?thesis by (intro exI [of _ es]) (simp add: accounts_def passed_def assms(3) journal_new_def)
qed

theorem copilot_loss_counter_exact_witness:
  "\<exists>oc j' s'. pass_both (wk_to smc_wake) smc_target smc_journal smc_state = (oc, j', s') \<and>
     cc_discarded_total (jr_state j') =
       min (length (given_up Sig_Metrics (cs_log s')) + length (given_up Sig_Logs (cs_log s')) +
           sum_list (map (line_discarded smc_lib \<circ> tl_text)
             (takeWhile (\<lambda>l. tl_offset l < cc_offset (jr_state j')) (dr_lines smc_drain)))) U64_MAX"
proof -
  obtain oc j' s' where b: "pass_both (wk_to smc_wake) smc_target smc_journal smc_state = (oc, j', s')" by (metis prod_cases3)
  have h: "healthy (ep_out (wk_to smc_wake))" "accounts (ep_lib (wk_to smc_wake)) 0 smc_journal" using smc_healthy smc_accounts(1) by simp_all
  have f: "po_failures oc = []" using healthy_both [OF h smc_accounts(2) b] by blast
  have b': "pass_both (wk_to smc_wake) \<lparr>pt_lines = dr_lines smc_drain, pt_end_offset = next_offset smc_drain, pt_now = 7\<rparr>
      (journal_new (dr_lines smc_drain) cc_default (dr_identity smc_drain) (restarted smc_drain \<noteq> None)) smc_state = (oc, j', s')"
    using b by (simp add: smc_target_def smc_journal_def) (simp add: smc_drain_def)
  from copilot_loss_counter_exact [OF smc_read [of 0] smc_default(2) refl b'] f b show ?thesis
    by (auto simp: cc_default_def)
qed

text \<open>A checkpoint write that fails is retried at the end of the pass, and the retry counts the records given
  up on since the last write once more: the counter has then grown by twice their number.\<close>

theorem copilot_failed_commit_counts_twice:
  assumes "accounts (of_lib o') d (ps_journal x)" and "export_commit o' lines x = (x1, Inl e)" and "export_commit o' lines x1 = (x2, r)"
  shows "accounts (of_lib o') (d + 2 * (pg_discarded (ps_progress x) - pg_committed_discards (ps_progress x))) (ps_journal x2)"
proof -
  let ?p = "ps_progress x"
  let ?reached = "advanced_to lines (pg_resolved ?p) (of_end_offset o')" and ?n = "pg_discarded ?p - pg_committed_discards ?p"
  obtain j s q where a: "journal_advance (of_out o') (of_lib o') (of_signal o') ?reached ?n (ps_journal x, ps_world x) = ((j, s), q)"
    by (metis prod.collapse)
  from assms(2) a have ne: "pg_committed ?p \<noteq> Some (pg_resolved ?p)" and x1: "x1 = x\<lparr>ps_journal := j, ps_world := s\<rparr>"
    by (auto simp: export_commit_def Let_def split: if_splits sum.splits)
  obtain j2 s2 q2 where a2: "journal_advance (of_out o') (of_lib o') (of_signal o') ?reached ?n (j, s) = ((j2, s2), q2)"
    by (metis prod.collapse)
  from assms(3) ne a2 have "ps_journal x2 = j2"
    by (auto simp: x1 export_commit_def Let_def split: sum.splits)
  with accounts_advance [OF a2 accounts_advance [OF a assms(1)]] show ?thesis by (simp add: mult_2 add.assoc)
qed

definition smc_flaky :: cp_outside where
  "smc_flaky = smc_out\<lparr>co_io := \<lambda>n _. n \<noteq> 1\<rparr>"

definition smc_offer :: offer where
  "smc_offer = \<lparr>of_out = smc_flaky, of_lib = smc_lib, of_base = ''u'', of_signal = Sig_Logs, of_bearer = ''b'', of_now = 7, of_end_offset = 4\<rparr>"

definition smc_pass :: pass_state where
  "smc_pass = \<lparr>ps_progress = progress_default\<lparr>pg_discarded := 1\<rparr>, ps_journal = smc_journal, ps_world = smc_state\<rparr>"

lemma smc_first_commit: "\<exists>x1 e. export_commit smc_offer [] smc_pass = (x1, Inl e)"
proof -
  obtain j s q where a: "journal_advance smc_flaky smc_lib Sig_Logs 4 1 (smc_journal, smc_state) = ((j, s), q)"
    by (metis prod.collapse)
  have "\<exists>e. q = Inl e"
    using a
  proof (cases rule: journal_advance_cases)
    case (commit j2)
    have c: "jr_state smc_journal = cc_default" "jr_stored smc_journal = cc_default" by (simp_all add: smc_journal_def journal_new_def)
    from commit(2) have "signal_offset (jr_state j2) Sig_Logs = 4" by (simp add: cc_same_offsets_signal c)
    moreover have "signal_offset (jr_stored j2) Sig_Logs = 0" by (simp add: commit(5) c)
    ultimately have "jr_state j2 \<noteq> jr_stored j2" by auto
    with commit(1) show ?thesis
      by (auto simp: journal_commit_def durable_store_def smc_flaky_def smc_state_def cs_tick_def Let_def)
  qed simp
  with a show ?thesis
    by (auto simp: export_commit_def smc_offer_def smc_pass_def progress_default_def advanced_to_def Let_def)
qed

theorem copilot_failed_commit_counts_twice_witness:
  "\<exists>x1 x2 e r. export_commit smc_offer [] smc_pass = (x1, Inl e) \<and> export_commit smc_offer [] x1 = (x2, r) \<and>
     accounts smc_lib 2 (ps_journal x2)"
proof -
  from smc_first_commit obtain x1 e where c1: "export_commit smc_offer [] smc_pass = (x1, Inl e)" by blast
  obtain x2 r where c2: "export_commit smc_offer [] x1 = (x2, r)" by fastforce
  have a: "accounts (of_lib smc_offer) 0 (ps_journal smc_pass)" using smc_accounts(1) by (simp add: smc_offer_def smc_pass_def)
  from copilot_failed_commit_counts_twice [OF a c1 c2] have "accounts smc_lib 2 (ps_journal x2)"
    by (simp add: smc_offer_def smc_pass_def progress_default_def numeral_2_eq_2)
  with c1 c2 show ?thesis by blast
qed

section \<open>The reclaim\<close>

text \<open>The spool is truncated only when it is larger than 1 MiB and was, at the last look, exactly as long as the
  offset that both signals have passed; what the truncation destroys beyond that are the bytes that
  the editor appended between the look and the truncation.\<close>

theorem copilot_reclaims_only_delivered:
  assumes "reclaim_maybe out lib c s = (s', r)" and "cs_log s' = cs_log s @ es" and "Ev_Truncated n \<in> set es"
  shows "CP_RECLAIM_ABOVE < cc_offset c \<and>
    (\<exists>ino bs bs'. cs_file (editor out s) = Some (ino, bs) \<and> length bs = cc_offset c \<and>
       cs_file (editor out (editor out s)) = Some (ino, bs') \<and> n = length bs')"
  using assms(1)
proof (cases rule: reclaim_cases)
  case declined
  with assms(2,3) show ?thesis by (auto simp: editor_def cs_tick_def)
next
  case (truncated f s2)
  let ?t = "truncate_inode (fst f) (editor out (editor out s))"
  have "\<exists>gs. cs_log s' = cs_log ?t @ gs \<and> (gs = [] \<or> (\<exists>c. gs = [Ev_Stored c]))"
    using truncated(5) durable_store_log by (fastforce simp: truncated(4) editor_def cs_tick_def)
  then have "Ev_Truncated n \<in> set (cs_log ?t) - set (cs_log s) \<or> (\<exists>fs. cs_log ?t = cs_log s @ fs \<and> Ev_Truncated n \<in> set fs)"
    using assms(2,3) by (auto simp: truncate_inode_def editor_def cs_tick_def cs_logged_def split: option.splits prod.splits if_splits)
  then have "\<exists>bs'. cs_file (editor out (editor out s)) = Some (fst f, bs') \<and> n = length bs'"
    by (auto simp: truncate_inode_def cs_logged_def split: option.splits prod.splits if_splits)
      (auto simp: editor_def cs_tick_def)
  with truncated show ?thesis by (cases f) auto
qed

definition smc_big :: cp_state where
  "smc_big = smc_state\<lparr>cs_file := Some (0, replicate (Suc CP_RECLAIM_ABOVE) CHR ''a'')\<rparr>"

definition smc_passed :: cp_checkpoint where
  "smc_passed = cc_default\<lparr>cc_offset := Suc CP_RECLAIM_ABOVE\<rparr>"

lemma smc_reclaims: "cs_log (fst (reclaim_maybe smc_out smc_lib smc_passed smc_big)) =
    [Ev_Truncated (Suc CP_RECLAIM_ABOVE), Ev_Stored ((cc_restart smc_passed)\<lparr>cc_spool := Some (identity_of (\<lambda>s. s) (0, []))\<rparr>)]"
  by (simp add: reclaim_maybe_def smc_passed_def smc_big_def smc_out_def smc_lib_def smc_state_def editor_def cs_tick_def
      truncate_inode_def cs_logged_def reclaim_current_def durable_store_def Let_def)

theorem copilot_reclaims_only_delivered_witness:
  "\<exists>ino bs. cs_file (editor smc_out smc_big) = Some (ino, bs) \<and> length bs = cc_offset smc_passed"
proof -
  obtain s' r where r: "reclaim_maybe smc_out smc_lib smc_passed smc_big = (s', r)" by fastforce
  with smc_reclaims have l: "cs_log s' = cs_log smc_big @
      [Ev_Truncated (Suc CP_RECLAIM_ABOVE), Ev_Stored ((cc_restart smc_passed)\<lparr>cc_spool := Some (identity_of (\<lambda>s. s) (0, []))\<rparr>)]"
    by (simp add: smc_big_def)
  from copilot_reclaims_only_delivered [OF r l, of "Suc CP_RECLAIM_ABOVE"] show ?thesis by auto
qed

section \<open>The transform\<close>

text \<open>Nothing is dropped quietly by the transform: a line that is sent for no signal and not counted as lost
  is the empty object or a metrics line that declares no metric.\<close>

theorem copilot_nothing_dropped_quietly:
  "\<not> (line_carries lib Sig_Metrics l \<or> line_carries lib Sig_Logs l \<or> line_discarded lib l > 0) \<longleftrightarrow>
     (\<exists>v. from_str (cl_doc lib) l = Inr v \<and>
        (classify v = Kind_Empty \<or>
         classify v = Kind_Metrics \<and> (\<exists>rec. de_metrics_record v = Some rec \<and> \<not> declares_metrics rec)))"
  using quiet_line_iff [of lib l] by simp

text \<open>Regrouping by resource and scope keeps every item: under each resource and scope the request holds the
  items of exactly the entries of that resource and scope, in their order.\<close>

theorem copilot_regrouping_keeps_items:
  "items_of r sc (group_fold entries) =
     concat (map (\<lambda>(r', sc', items). if value_eq r' r \<and> value_eq sc' sc then items else []) entries)"
  by (simp add: group_fold_items entry_items_def)

text \<open>A log line whose body is \<open>null\<close> is delivered as a log record without a body, and nothing counts it as
  lost.\<close>

theorem copilot_null_body_is_delivered_empty:
  assumes "from_str (cl_doc lib) l = Inr (JObject es)" and "map_of es ''_body'' = Some JNull"
    and "map_of es ''scopeMetrics'' = None" and "de_log_record (JObject es) = Some rec"
  shows "line_carries lib Sig_Logs l \<and> line_discarded lib l = 0 \<and>
    (\<exists>r sc obj. ba_log_groups (build_line lib \<lparr>ba_counts = counts_default, ba_metric_groups = [], ba_log_groups = []\<rparr> l) =
       [(r, sc, [JObject obj])] \<and> map_of obj ''body'' = None)"
  using null_body_decoded [OF assms] bodyless_record [of rec "cl_f64 lib"] by (auto simp: line_acc_def)

definition smc_null_lib :: cp_lib where
  "smc_null_lib = smc_lib\<lparr>cl_doc := \<lparr>from_str = (\<lambda>_. Inr (JObject [(''_body'', JNull)])), to_str = (\<lambda>_. None)\<rparr>\<rparr>"

theorem copilot_null_body_is_delivered_empty_witness:
  "line_carries smc_null_lib Sig_Logs ''n'' \<and> line_discarded smc_null_lib ''n'' = 0"
proof -
  have "de_log_record (JObject [(''_body'', JNull)]) \<noteq> None" by code_simp
  then obtain rec where r: "de_log_record (JObject [(''_body'', JNull)]) = Some rec" by blast
  have "from_str (cl_doc smc_null_lib) ''n'' = Inr (JObject [(''_body'', JNull)])" by (simp add: smc_null_lib_def)
  from copilot_null_body_is_delivered_empty [OF this _ _ r] show ?thesis by simp
qed

end
