(* ===== verification/Gov_Tables.thy ===== *)
theory Gov_Tables
  imports Gov_Prelude
begin

text \<open>
  The database of the governance service, as the sources use it: the statements they send are SQL, and
  the tables, keys and defaults they rely on are those of
  \<open>crates/governance-core/migrations/postgres\<close>. This theory holds what every statement has in common.

  A table is the list of its rows. The server is a parameter: \<open>env_fault\<close> says for every statement in
  turn whether the server refuses it, or executes it and loses the answer, and \<open>env_now\<close> is the clock
  that \<open>now()\<close> reads at the start of a transaction. A transaction that fails leaves the tables as they
  were, unless its commit was executed and only the answer was lost.
\<close>

section \<open>Statements and transactions\<close>

text \<open>The SQLSTATE codes the sources or the schema give a meaning to: a violated unique index, a value
  that is not of the column's type, a deadlock, and any other failure of the server or the connection.\<close>

datatype db_error = Unique_violation | Bad_value | Deadlock | Missing_reference | Server_error string

datatype db_fault = Refused db_error | Lost_reply db_error

fun fault_error :: "db_fault \<Rightarrow> db_error" where
  "fault_error (Refused e) = e"
| "fault_error (Lost_reply e) = e"

record db_env =
  env_fault :: "nat \<Rightarrow> db_fault option"
  env_now :: "nat \<Rightarrow> int"

text \<open>The state of a connection: the tables, and the number of statements sent so far.\<close>

record 't conn =
  tables :: 't
  sent :: nat

type_synonym ('t, 'a) stmt = "'t \<Rightarrow> db_error + ('a \<times> 't)"
type_synonym ('t, 'a) dbop = "'t conn \<Rightarrow> (db_error + 'a) \<times> 't conn"

text \<open>A statement outside a transaction commits by itself, so a lost answer leaves its effect.\<close>

definition exec_auto :: "db_env \<Rightarrow> ('t, 'a) stmt \<Rightarrow> ('t, 'a) dbop" where
  "exec_auto env q c =
     (let c' = c\<lparr>sent := Suc (sent c)\<rparr> in
      case env_fault env (sent c) of
        Some (Refused e) \<Rightarrow> (Inl e, c')
      | Some (Lost_reply e) \<Rightarrow>
          (case q (tables c) of
             Inl _ \<Rightarrow> (Inl e, c')
           | Inr (_, t) \<Rightarrow> (Inl e, c'\<lparr>tables := t\<rparr>))
      | None \<Rightarrow>
          (case q (tables c) of
             Inl e \<Rightarrow> (Inl e, c')
           | Inr (a, t) \<Rightarrow> (Inr a, c'\<lparr>tables := t\<rparr>)))"

text \<open>Inside a transaction a statement without an answer is a failed one.\<close>

definition exec_tx :: "db_env \<Rightarrow> ('t, 'a) stmt \<Rightarrow> ('t, 'a) dbop" where
  "exec_tx env q c =
     (let c' = c\<lparr>sent := Suc (sent c)\<rparr> in
      case env_fault env (sent c) of
        Some f \<Rightarrow> (Inl (fault_error f), c')
      | None \<Rightarrow>
          (case q (tables c) of
             Inl e \<Rightarrow> (Inl e, c')
           | Inr (a, t) \<Rightarrow> (Inr a, c'\<lparr>tables := t\<rparr>)))"

definition db_bind :: "('c \<Rightarrow> ('e + 'a) \<times> 'c) \<Rightarrow> ('a \<Rightarrow> 'c \<Rightarrow> ('e + 'b) \<times> 'c) \<Rightarrow> 'c \<Rightarrow> ('e + 'b) \<times> 'c" where
  "db_bind m f c = (case m c of (Inl e, c') \<Rightarrow> (Inl e, c') | (Inr a, c') \<Rightarrow> f a c')"

definition db_return :: "'a \<Rightarrow> 'c \<Rightarrow> ('e + 'a) \<times> 'c" where
  "db_return a c = (Inr a, c)"

fun db_each :: "('r \<Rightarrow> 'c \<Rightarrow> ('e + unit) \<times> 'c) \<Rightarrow> 'r list \<Rightarrow> 'c \<Rightarrow> ('e + unit) \<times> 'c" where
  "db_each f [] = db_return ()"
| "db_each f (r # rs) = db_bind (f r) (\<lambda>_. db_each f rs)"

text \<open>\<open>pool.begin()\<close>, the body, \<open>tx.commit()\<close>. A transaction that is dropped without a commit is
  rolled back.\<close>

definition transaction :: "db_env \<Rightarrow> (int \<Rightarrow> ('t, 'a) dbop) \<Rightarrow> ('t, 'a) dbop" where
  "transaction env body c =
     (let c1 = c\<lparr>sent := Suc (sent c)\<rparr> in
      case env_fault env (sent c) of
        Some f \<Rightarrow> (Inl (fault_error f), c1)
      | None \<Rightarrow>
          (case body (env_now env (sent c)) c1 of
             (Inl e, c2) \<Rightarrow> (Inl e, c2\<lparr>tables := tables c\<rparr>)
           | (Inr a, c2) \<Rightarrow>
               (let c3 = c2\<lparr>sent := Suc (sent c2)\<rparr> in
                case env_fault env (sent c2) of
                  Some (Refused e) \<Rightarrow> (Inl e, c3\<lparr>tables := tables c\<rparr>)
                | Some (Lost_reply e) \<Rightarrow> (Inl e, c3)
                | None \<Rightarrow> (Inr a, c3))))"

section \<open>Insert or update\<close>

text \<open>
  \<open>INSERT ... ON CONFLICT (nk) DO UPDATE\<close> on a table with the primary key \<open>pk\<close> and the unique index
  \<open>nk\<close>. The index named by the clause is consulted first; a row that conflicts there is updated in place.
  A row that does not is inserted, and then the primary key must be new: the clause does not cover it.
\<close>

definition upsert_row ::
  "('r \<Rightarrow> 'p) \<Rightarrow> ('r \<Rightarrow> 'k) \<Rightarrow> ('r \<Rightarrow> 'r \<Rightarrow> 'r) \<Rightarrow> 'r \<Rightarrow> 'r list \<Rightarrow> db_error + 'r list" where
  "upsert_row pk nk merge new rows =
     (if list_ex (\<lambda>old. nk old = nk new) rows
      then Inr (map (\<lambda>old. if nk old = nk new then merge old new else old) rows)
      else if list_ex (\<lambda>old. pk old = pk new) rows then Inl Unique_violation
      else Inr (rows @ [new]))"

fun upsert_rows ::
  "('r \<Rightarrow> 'p) \<Rightarrow> ('r \<Rightarrow> 'k) \<Rightarrow> ('r \<Rightarrow> 'r \<Rightarrow> 'r) \<Rightarrow> 'r list \<Rightarrow> 'r list \<Rightarrow> db_error + 'r list" where
  "upsert_rows pk nk merge [] rows = Inr rows"
| "upsert_rows pk nk merge (r # rs) rows =
     res_bind (upsert_row pk nk merge r rows) (upsert_rows pk nk merge rs)"

definition lookup_row :: "('r \<Rightarrow> 'k) \<Rightarrow> 'k \<Rightarrow> 'r list \<Rightarrow> 'r option" where
  "lookup_row nk k rows = find (\<lambda>r. nk r = k) rows"

definition table_ok :: "('r \<Rightarrow> 'p) \<Rightarrow> ('r \<Rightarrow> 'k) \<Rightarrow> 'r list \<Rightarrow> bool" where
  "table_ok pk nk rows \<longleftrightarrow> distinct (map pk rows) \<and> distinct (map nk rows)"

section \<open>Laws of statements\<close>

lemma db_bind_simps [simp]:
  "m c = (Inl e, c') \<Longrightarrow> db_bind m f c = (Inl e, c')"
  "m c = (Inr a, c') \<Longrightarrow> db_bind m f c = f a c'"
  by (simp_all add: db_bind_def)

lemma db_bind_return [simp]: "db_bind (db_return a) f = f a"
  by (rule ext) (simp add: db_bind_def db_return_def)

lemma db_bind_Inr:
  "db_bind m f c = (Inr b, c'') \<longleftrightarrow> (\<exists>a c'. m c = (Inr a, c') \<and> f a c' = (Inr b, c''))"
  by (auto simp: db_bind_def split: prod.splits sum.splits)

lemma db_bind_Inl:
  "db_bind m f c = (Inl e, c'') \<longleftrightarrow>
     m c = (Inl e, c'') \<or> (\<exists>a c'. m c = (Inr a, c') \<and> f a c' = (Inl e, c''))"
  by (auto simp: db_bind_def split: prod.splits sum.splits)

lemma db_each_append: "db_each f (xs @ ys) c = db_bind (db_each f xs) (\<lambda>_. db_each f ys) c"
  by (induction xs arbitrary: c) (auto simp: db_bind_def split: prod.splits sum.splits)

lemma exec_tx_Inr:
  "exec_tx env q c = (Inr a, c') \<longleftrightarrow>
     env_fault env (sent c) = None \<and>
     (\<exists>t. q (tables c) = Inr (a, t) \<and> c' = c\<lparr>sent := Suc (sent c), tables := t\<rparr>)"
  by (auto simp: exec_tx_def Let_def split: option.splits sum.splits prod.splits)

lemma exec_auto_Inr:
  "exec_auto env q c = (Inr a, c') \<longleftrightarrow>
     env_fault env (sent c) = None \<and>
     (\<exists>t. q (tables c) = Inr (a, t) \<and> c' = c\<lparr>sent := Suc (sent c), tables := t\<rparr>)"
  by (auto simp: exec_auto_def Let_def split: option.splits sum.splits prod.splits db_fault.splits)

text \<open>A transaction that returned a value ran its body to the end, and its tables are those the body
  left.\<close>

lemma transaction_Inr:
  assumes "transaction env body c = (Inr a, c')"
  obtains c2 where "env_fault env (sent c) = None"
    and "body (env_now env (sent c)) (c\<lparr>sent := Suc (sent c)\<rparr>) = (Inr a, c2)"
    and "tables c' = tables c2"
  using assms
  by (auto simp: transaction_def Let_def split: option.splits sum.splits prod.splits db_fault.splits)

text \<open>A transaction that failed left the tables as they were, or was committed without the sender
  learning of it.\<close>

lemma transaction_Inl:
  assumes "transaction env body c = (Inl e, c')"
  shows "tables c' = tables c \<or>
     (\<exists>a c2. body (env_now env (sent c)) (c\<lparr>sent := Suc (sent c)\<rparr>) = (Inr a, c2) \<and>
        env_fault env (sent c2) = Some (Lost_reply e) \<and> tables c' = tables c2)"
  using assms
  by (auto simp: transaction_def Let_def split: option.splits sum.splits prod.splits db_fault.splits)

definition no_lost_reply :: "db_env \<Rightarrow> bool" where
  "no_lost_reply env \<longleftrightarrow> (\<forall>i e. env_fault env i \<noteq> Some (Lost_reply e))"

lemma transaction_atomic:
  "no_lost_reply env \<Longrightarrow> transaction env body c = (Inl e, c') \<Longrightarrow> tables c' = tables c"
  using transaction_Inl [of env body c e c'] by (auto simp: no_lost_reply_def)

text \<open>A server that answers every statement.\<close>

definition healthy :: "db_env \<Rightarrow> bool" where
  "healthy env \<longleftrightarrow> (\<forall>i. env_fault env i = None)"

lemma healthyD [simp]: "healthy env \<Longrightarrow> env_fault env i = None"
  by (simp add: healthy_def)

lemma healthy_no_lost: "healthy env \<Longrightarrow> no_lost_reply env"
  by (simp add: healthy_def no_lost_reply_def)

lemma exec_healthy:
  assumes "healthy env"
  shows "exec_tx env q c =
      (case q (tables c) of Inl e \<Rightarrow> (Inl e, c\<lparr>sent := Suc (sent c)\<rparr>)
       | Inr (a, t) \<Rightarrow> (Inr a, c\<lparr>sent := Suc (sent c), tables := t\<rparr>))"
    and "exec_auto env q c = exec_tx env q c"
  using assms by (auto simp: exec_tx_def exec_auto_def Let_def split: sum.splits prod.splits)

section \<open>Laws of insert or update\<close>

lemma list_ex_key: "list_ex (\<lambda>old. f old = x) rows \<longleftrightarrow> x \<in> f ` set rows"
  by (induction rows) auto

text \<open>What a table whose statement updates by \<open>merge\<close> promises: the row keeps both keys.\<close>

locale keyed_table =
  fixes pk :: "'r \<Rightarrow> 'p" and nk :: "'r \<Rightarrow> 'k" and merge :: "'r \<Rightarrow> 'r \<Rightarrow> 'r"
  assumes merge_pk: "pk (merge old new) = pk old"
    and merge_nk: "nk (merge old new) = nk old"
begin

lemma map_keys_update:
  "map pk (map (\<lambda>old. if nk old = k then merge old new else old) rows) = map pk rows"
  "map nk (map (\<lambda>old. if nk old = k then merge old new else old) rows) = map nk rows"
  by (simp_all add: merge_pk merge_nk)

lemma upsert_cases:
  assumes "upsert_row pk nk merge new rows = Inr rows'"
  obtains (updated) "nk new \<in> nk ` set rows" "map pk rows' = map pk rows" "map nk rows' = map nk rows"
      "rows' = map (\<lambda>old. if nk old = nk new then merge old new else old) rows"
    | (inserted) "nk new \<notin> nk ` set rows" "pk new \<notin> pk ` set rows" "rows' = rows @ [new]"
proof (cases "nk new \<in> nk ` set rows")
  case True
  with assms have "rows' = map (\<lambda>old. if nk old = nk new then merge old new else old) rows"
    by (simp add: upsert_row_def list_ex_key)
  with True show ?thesis by (metis updated map_keys_update)
next
  case False
  with assms show ?thesis
    by (intro inserted) (simp_all add: upsert_row_def list_ex_key split: if_splits)
qed

lemma upsert_ok:
  assumes "upsert_row pk nk merge new rows = Inr rows'" and "table_ok pk nk rows"
  shows "table_ok pk nk rows'"
  using assms(1)
proof (cases rule: upsert_cases)
  case updated
  with assms(2) show ?thesis by (simp only: table_ok_def)
next
  case inserted
  with assms(2) show ?thesis by (auto simp: table_ok_def)
qed

lemma upsert_keys:
  assumes "upsert_row pk nk merge new rows = Inr rows'"
  shows "nk ` set rows' = insert (nk new) (nk ` set rows)"
  using assms
proof (cases rule: upsert_cases)
  case updated
  then show ?thesis by (metis insert_absorb list.set_map)
next
  case inserted
  then show ?thesis by simp
qed

lemma upsert_length:
  assumes "upsert_row pk nk merge new rows = Inr rows'"
  shows "length rows' = length rows + (if nk new \<in> nk ` set rows then 0 else 1)"
  using assms by (cases rule: upsert_cases) simp_all

lemma upsert_again:
  "nk new \<in> nk ` set rows \<Longrightarrow> \<exists>rows'. upsert_row pk nk merge new rows = Inr rows'"
  by (simp add: upsert_row_def list_ex_key)

text \<open>A new row is refused exactly when another row holds its primary key.\<close>

lemma upsert_refused_iff:
  "upsert_row pk nk merge new rows = Inl e \<longleftrightarrow>
     e = Unique_violation \<and> nk new \<notin> nk ` set rows \<and> pk new \<in> pk ` set rows"
  by (auto simp: upsert_row_def list_ex_key)

lemma find_updated:
  "find (\<lambda>r. nk r = k) (map (\<lambda>old. if nk old = j then merge old new else old) rows) =
     map_option (\<lambda>old. if nk old = j then merge old new else old) (find (\<lambda>r. nk r = k) rows)"
  by (induction rows) (auto simp: merge_nk)

lemma lookup_None: "lookup_row nk k rows = None \<longleftrightarrow> k \<notin> nk ` set rows"
  by (auto simp: lookup_row_def find_None_iff)

lemma lookup_key: "lookup_row nk k rows = Some r \<Longrightarrow> nk r = k"
  by (auto simp: lookup_row_def find_Some_iff)

lemma lookup_upsert:
  assumes "upsert_row pk nk merge new rows = Inr rows'"
  shows "lookup_row nk k rows' =
     (if k = nk new
      then Some (case lookup_row nk k rows of None \<Rightarrow> new | Some old \<Rightarrow> merge old new)
      else lookup_row nk k rows)"
  using assms
proof (cases rule: upsert_cases)
  case updated
  have r: "lookup_row nk k rows' =
      map_option (\<lambda>old. if nk old = nk new then merge old new else old) (lookup_row nk k rows)"
    by (simp add: lookup_row_def updated(4) find_updated)
  show ?thesis
  proof (cases "lookup_row nk k rows")
    case None
    with updated(1) have "k \<noteq> nk new" by (auto simp: lookup_None)
    with None r show ?thesis by simp
  next
    case (Some old)
    with r lookup_key [OF Some] show ?thesis by (cases "k = nk new") simp_all
  qed
next
  case inserted
  have "lookup_row nk k (rows @ [new]) =
      (case lookup_row nk k rows of None \<Rightarrow> if nk new = k then Some new else None | Some r \<Rightarrow> Some r)"
    by (induction rows) (auto simp: lookup_row_def)
  moreover have "k = nk new \<Longrightarrow> lookup_row nk k rows = None"
    using inserted by (simp add: lookup_None)
  ultimately show ?thesis
    using inserted by (auto split: option.splits)
qed

text \<open>The same for the rows of a batch.\<close>

lemma upserts_refused:
  "upsert_rows pk nk merge rs rows = Inl e \<Longrightarrow> e = Unique_violation"
  by (induction rs arbitrary: rows) (auto simp: res_bind_eq_Inl upsert_refused_iff)

lemma upserts_ok:
  "upsert_rows pk nk merge rs rows = Inr rows' \<Longrightarrow> table_ok pk nk rows \<Longrightarrow> table_ok pk nk rows'"
  by (induction rs arbitrary: rows) (auto simp: res_bind_eq_Inr dest: upsert_ok)

lemma upserts_keys:
  "upsert_rows pk nk merge rs rows = Inr rows' \<Longrightarrow> nk ` set rows' = nk ` set rs \<union> nk ` set rows"
proof (induction rs arbitrary: rows)
  case (Cons r rs)
  then obtain rows1 where u: "upsert_row pk nk merge r rows = Inr rows1"
    and us: "upsert_rows pk nk merge rs rows1 = Inr rows'" by (auto simp: res_bind_eq_Inr)
  show ?case unfolding Cons.IH [OF us] upsert_keys [OF u] by simp
qed simp

lemma upserts_again:
  "nk ` set rs \<subseteq> nk ` set rows \<Longrightarrow>
     \<exists>rows'. upsert_rows pk nk merge rs rows = Inr rows' \<and> map nk rows' = map nk rows \<and> map pk rows' = map pk rows"
proof (induction rs arbitrary: rows)
  case (Cons r rs)
  then have "nk r \<in> nk ` set rows" by simp
  then obtain rows1 where u: "upsert_row pk nk merge r rows = Inr rows1"
    using upsert_again by blast
  then have m: "map nk rows1 = map nk rows" "map pk rows1 = map pk rows"
    using \<open>nk r \<in> nk ` set rows\<close> by (cases rule: upsert_cases; simp)+
  then have "nk ` set rs \<subseteq> nk ` set rows1"
    using Cons.prems by (metis insert_subset list.set_map list.simps(15) image_insert)
  from Cons.IH [OF this] m u show ?case by auto
qed simp

text \<open>If rows with different natural keys never share a primary key, a batch is never refused.\<close>

lemma upserts_total:
  assumes "\<forall>a \<in> set rs \<union> set rows. \<forall>b \<in> set rs \<union> set rows. pk a = pk b \<longrightarrow> nk a = nk b"
  shows "\<exists>rows'. upsert_rows pk nk merge rs rows = Inr rows'"
  using assms
proof (induction rs arbitrary: rows)
  case (Cons r rs)
  have "nk r \<in> nk ` set rows" if "pk r \<in> pk ` set rows"
  proof -
    from that obtain b where b: "b \<in> set rows" "pk r = pk b" by auto
    with Cons.prems have "nk r = nk b" by simp
    with b show ?thesis by simp
  qed
  then have "upsert_row pk nk merge r rows \<noteq> Inl e" for e
    by (auto simp: upsert_refused_iff)
  then obtain rows1 where u: "upsert_row pk nk merge r rows = Inr rows1"
    by (metis sumE)
  have sub: "\<exists>b \<in> set (r # rs) \<union> set rows. pk a = pk b \<and> nk a = nk b" if "a \<in> set rs \<union> set rows1" for a
  proof (cases "a \<in> set rs")
    case True
    then show ?thesis by auto
  next
    case False
    with that have "a \<in> set rows1" by simp
    with u show ?thesis by (cases rule: upsert_cases) (auto simp: merge_pk merge_nk)
  qed
  have "\<forall>a \<in> set rs \<union> set rows1. \<forall>b \<in> set rs \<union> set rows1. pk a = pk b \<longrightarrow> nk a = nk b"
  proof (intro ballI impI)
    fix a b assume a: "a \<in> set rs \<union> set rows1" and b: "b \<in> set rs \<union> set rows1" and e: "pk a = pk b"
    from sub [OF a] obtain a' where a': "a' \<in> set (r # rs) \<union> set rows" "pk a = pk a'" "nk a = nk a'"
      by blast
    from sub [OF b] obtain b' where b': "b' \<in> set (r # rs) \<union> set rows" "pk b = pk b'" "nk b = nk b'"
      by blast
    have "nk a' = nk b'"
      using Cons.prems [rule_format, OF a'(1) b'(1)] a'(2) b'(2) e by simp
    with a'(3) b'(3) show "nk a = nk b" by simp
  qed
  from Cons.IH [OF this] u show ?case by auto
qed simp

text \<open>Where the primary key is computed from the natural key, a batch is accepted exactly when no two keys
  of the batch and the table get the same primary key.\<close>

lemma upserts_named:
  assumes "upsert_rows pk nk merge rs rows = Inr rows'"
    and "\<forall>x \<in> set rs \<union> set rows. pk x = f (nk x)"
  shows "\<forall>x \<in> set rows'. pk x = f (nk x)"
  using assms
proof (induction rs arbitrary: rows)
  case (Cons r rs)
  then obtain rows1 where u: "upsert_row pk nk merge r rows = Inr rows1"
    and us: "upsert_rows pk nk merge rs rows1 = Inr rows'" by (auto simp: res_bind_eq_Inr)
  from u Cons.prems(2) have "\<forall>x \<in> set rows1. pk x = f (nk x)"
    by (cases rule: upsert_cases) (auto simp: merge_pk merge_nk)
  with Cons.IH [OF us] Cons.prems(2) show ?case by auto
qed simp

lemma upserts_accepted_iff:
  assumes "table_ok pk nk rows" and "\<forall>x \<in> set rs \<union> set rows. pk x = f (nk x)"
  shows "(\<exists>rows'. upsert_rows pk nk merge rs rows = Inr rows') \<longleftrightarrow>
     inj_on f (nk ` set rs \<union> nk ` set rows)"
proof
  assume "\<exists>rows'. upsert_rows pk nk merge rs rows = Inr rows'"
  then obtain rows' where u: "upsert_rows pk nk merge rs rows = Inr rows'" ..
  have n: "\<forall>x \<in> set rows'. pk x = f (nk x)" by (rule upserts_named [OF u assms(2)])
  have "distinct (map pk rows')" using upserts_ok [OF u assms(1)] by (simp add: table_ok_def)
  also have "map pk rows' = map f (map nk rows')" using n by simp
  finally have "inj_on f (set (map nk rows'))" by (simp only: distinct_map)
  then show "inj_on f (nk ` set rs \<union> nk ` set rows)" using upserts_keys [OF u] by simp
next
  assume "inj_on f (nk ` set rs \<union> nk ` set rows)"
  then have "pk a = pk b \<longrightarrow> nk a = nk b" if "a \<in> set rs \<union> set rows" "b \<in> set rs \<union> set rows" for a b
    using that assms(2) by (auto dest: inj_onD)
  then show "\<exists>rows'. upsert_rows pk nk merge rs rows = Inr rows'"
    by (intro upserts_total) blast
qed

lemma lookup_upserts_other:
  "upsert_rows pk nk merge rs rows = Inr rows' \<Longrightarrow> k \<notin> nk ` set rs \<Longrightarrow>
     lookup_row nk k rows' = lookup_row nk k rows"
  by (induction rs arbitrary: rows) (auto simp: res_bind_eq_Inr lookup_upsert)

text \<open>Two tables with the same keys in the same order and the same row under every key are equal.\<close>

lemma table_ext:
  assumes "map nk xs = map nk ys" and "distinct (map nk xs)"
    and "\<And>k. lookup_row nk k xs = lookup_row nk k ys"
  shows "xs = ys"
  using assms
proof (induction xs arbitrary: ys)
  case (Cons x xs)
  then obtain y ys' where y: "ys = y # ys'" by (cases ys) auto
  with Cons.prems(1) have n: "nk x = nk y" "map nk xs = map nk ys'" by auto
  from Cons.prems(3) [of "nk x"] n y have "x = y" by (simp add: lookup_row_def)
  moreover have "lookup_row nk k xs = lookup_row nk k ys'" for k
  proof (cases "k = nk x")
    case True
    with Cons.prems(2) have "k \<notin> nk ` set xs" by simp
    moreover from this n(2) have "k \<notin> nk ` set ys'" by (metis list.set_map)
    ultimately show ?thesis by (metis lookup_None)
  next
    case False
    with Cons.prems(3) [of k] n y show ?thesis by (auto simp: lookup_row_def)
  qed
  ultimately show ?case
    using Cons.IH [of ys'] Cons.prems(2) n y by simp
qed simp

end

text \<open>A table whose statement overwrites every column it names: of several writes only the last one
  counts, and writing the row that is there changes nothing.\<close>

locale overwritten_table = keyed_table pk nk merge
  for pk :: "'r \<Rightarrow> 'p" and nk :: "'r \<Rightarrow> 'k" and merge :: "'r \<Rightarrow> 'r \<Rightarrow> 'r" +
  assumes merge_last: "merge (merge old a) b = merge old b"
    and merge_same: "merge new new = new"
begin

text \<open>A batch leaves under a key the last row it gives, over the row that was there or the first one it
  gives.\<close>

lemma lookup_upserts:
  assumes "upsert_rows pk nk merge rs rows = Inr rows'" and "k \<in> nk ` set rs"
  shows "lookup_row nk k rows' =
     Some (merge (case lookup_row nk k rows of Some old \<Rightarrow> old | None \<Rightarrow> the (lookup_row nk k rs))
       (the (lookup_row nk k (rev rs))))"
  using assms
proof (induction rs arbitrary: rows)
  case (Cons r rs)
  then obtain rows1 where u: "upsert_row pk nk merge r rows = Inr rows1"
    and us: "upsert_rows pk nk merge rs rows1 = Inr rows'" by (auto simp: res_bind_eq_Inr)
  define base where "base = (case lookup_row nk k rows of Some old \<Rightarrow> old | None \<Rightarrow> the (lookup_row nk k (r # rs)))"
  have app: "lookup_row nk k (rev rs @ [r]) =
      (case lookup_row nk k (rev rs) of None \<Rightarrow> if nk r = k then Some r else None | Some x \<Rightarrow> Some x)"
    for rs by (induction rs rule: rev_induct) (auto simp: lookup_row_def)
  have first: "lookup_row nk k (r # rs) = (if nk r = k then Some r else lookup_row nk k rs)"
    by (simp add: lookup_row_def)
  have l1: "lookup_row nk k rows1 = Some (merge base r)" if "k = nk r"
    using lookup_upsert [OF u, of k] that first
    by (cases "lookup_row nk k rows") (simp_all add: base_def merge_same)
  show ?case
  proof (cases "k \<in> nk ` set rs")
    case True
    then obtain x where x: "lookup_row nk k (rev rs) = Some x"
      by (metis lookup_None not_None_eq set_rev)
    have "lookup_row nk k rows' = Some (merge base x)"
    proof (cases "k = nk r")
      case k: True
      show ?thesis unfolding Cons.IH [OF us True] l1 [OF k] x by (simp add: merge_last)
    next
      case False
      then have "lookup_row nk k rows1 = lookup_row nk k rows"
        using lookup_upsert [OF u, of k] by simp
      with Cons.IH [OF us True] x False first show ?thesis
        by (cases "lookup_row nk k rows") (simp_all add: base_def)
    qed
    with x show ?thesis by (simp add: app base_def)
  next
    case False
    with Cons.prems have k: "k = nk r" by auto
    have "lookup_row nk k (rev rs) = None" using False by (simp add: lookup_None)
    then have "lookup_row nk k (rev (r # rs)) = Some r" using k by (simp add: app [simplified k])
    with lookup_upserts_other [OF us False] l1 [OF k] show ?thesis
      by (simp only: base_def option.sel)
  qed
qed simp

text \<open>Sending a batch again succeeds and changes nothing.\<close>

theorem upserts_twice:
  assumes "upsert_rows pk nk merge rs rows = Inr rows'" and "table_ok pk nk rows"
  shows "upsert_rows pk nk merge rs rows' = Inr rows'"
proof -
  have "nk ` set rs \<subseteq> nk ` set rows'" using upserts_keys [OF assms(1)] by simp
  from upserts_again [OF this] obtain rows'' where
    u: "upsert_rows pk nk merge rs rows' = Inr rows''" and m: "map nk rows'' = map nk rows'" by auto
  have "rows'' = rows'"
  proof (rule table_ext [OF m])
    show "distinct (map nk rows'')"
      using upserts_ok [OF assms] m by (simp add: table_ok_def)
    show "lookup_row nk k rows'' = lookup_row nk k rows'" for k
    proof (cases "k \<in> nk ` set rs")
      case True
      show ?thesis
        unfolding lookup_upserts [OF u True] lookup_upserts [OF assms(1) True]
        by (simp add: merge_last)
    next
      case False
      then show ?thesis by (rule lookup_upserts_other [OF u])
    qed
  qed
  with u show ?thesis by simp
qed

end

text \<open>A table with columns that a later write never changes.\<close>

locale history_table = keyed_table pk nk merge
  for pk :: "'r \<Rightarrow> 'p" and nk :: "'r \<Rightarrow> 'k" and merge :: "'r \<Rightarrow> 'r \<Rightarrow> 'r" +
  fixes history :: "'r \<Rightarrow> 'h"
  assumes merge_history: "history (merge old new) = history old"
begin

lemma upserts_history:
  assumes "upsert_rows pk nk merge rs rows = Inr rows'" and "lookup_row nk k rows = Some old"
  shows "\<exists>now. lookup_row nk k rows' = Some now \<and> history now = history old"
  using assms
proof (induction rs arbitrary: rows old)
  case (Cons r rs)
  then obtain rows1 where u: "upsert_row pk nk merge r rows = Inr rows1"
    and us: "upsert_rows pk nk merge rs rows1 = Inr rows'" by (auto simp: res_bind_eq_Inr)
  obtain old1 where "lookup_row nk k rows1 = Some old1" "history old1 = history old"
    using lookup_upsert [OF u, of k] Cons.prems(2) by (auto simp: merge_history split: if_splits)
  with Cons.IH [OF us] show ?case by auto
qed simp

end

end
