(* ===== verification/Gov_Batch.thy ===== *)
theory Gov_Batch
  imports Gov_Tables
begin

text \<open>
  Writing a batch of rows to one table: one transaction that sends one insert-or-update per row, which is
  what every \<open>upsert_*\<close> function of the connector's store does. The interface is the locale
  \<open>stored_table\<close>: a table of the database, its keys, its update, and the row a record is stored as.
\<close>

section \<open>Statements on one table\<close>

definition on_table :: "('t \<Rightarrow> 'r list) \<Rightarrow> ('r list \<Rightarrow> 't \<Rightarrow> 't) \<Rightarrow> ('r list \<Rightarrow> db_error + 'r list) \<Rightarrow> ('t, unit) stmt" where
  "on_table get_t put_t q t = (case q (get_t t) of Inl e \<Rightarrow> Inl e | Inr rows \<Rightarrow> Inr ((), put_t rows t))"

definition put_record :: "('r \<Rightarrow> 'p) \<Rightarrow> ('r \<Rightarrow> 'k) \<Rightarrow> ('r \<Rightarrow> 'r \<Rightarrow> 'r) \<Rightarrow> db_error + 'r \<Rightarrow> 'r list \<Rightarrow> db_error + 'r list" where
  "put_record pk nk merge mr rows = res_bind mr (\<lambda>n. upsert_row pk nk merge n rows)"

definition write_batch ::
  "db_env \<Rightarrow> ('t \<Rightarrow> 'r list) \<Rightarrow> ('r list \<Rightarrow> 't \<Rightarrow> 't) \<Rightarrow> ('r \<Rightarrow> 'p) \<Rightarrow> ('r \<Rightarrow> 'k) \<Rightarrow> ('r \<Rightarrow> 'r \<Rightarrow> 'r) \<Rightarrow>
     ('a \<Rightarrow> db_error + 'r) \<Rightarrow> 'a list \<Rightarrow> ('t, nat) dbop" where
  "write_batch env get_t put_t pk nk merge mk recs =
     transaction env (\<lambda>now.
       db_bind (db_each (\<lambda>r. exec_tx env (on_table get_t put_t (put_record pk nk merge (mk r)))) recs)
         (\<lambda>_. db_return (length recs)))"

text \<open>The rows a batch stands for, if every record has one.\<close>

fun rows_of :: "('a \<Rightarrow> db_error + 'r) \<Rightarrow> 'a list \<Rightarrow> db_error + 'r list" where
  "rows_of mk [] = Inr []"
| "rows_of mk (r # rs) = res_bind (mk r) (\<lambda>n. res_bind (rows_of mk rs) (\<lambda>ns. Inr (n # ns)))"

lemma length_rows_of: "rows_of mk recs = Inr ns \<Longrightarrow> length ns = length recs"
  by (induction recs arbitrary: ns) (auto simp: res_bind_eq_Inr)

lemma set_rows_of: "rows_of mk recs = Inr ns \<Longrightarrow> n \<in> set ns \<Longrightarrow> \<exists>r \<in> set recs. mk r = Inr n"
  by (induction recs arbitrary: ns) (auto simp: res_bind_eq_Inr)

lemma rows_of_in: "rows_of mk recs = Inr ns \<Longrightarrow> r \<in> set recs \<Longrightarrow> mk r = Inr n \<Longrightarrow> n \<in> set ns"
  by (induction recs arbitrary: ns) (auto simp: res_bind_eq_Inr)

lemma rows_of_total: "(\<And>r. r \<in> set recs \<Longrightarrow> \<exists>n. mk r = Inr n) \<Longrightarrow> \<exists>ns. rows_of mk recs = Inr ns"
  by (induction recs) (auto simp: res_bind_eq_Inr)

section \<open>The interface\<close>

locale stored_table = overwritten_table pk nk merge
  for pk :: "'r \<Rightarrow> 'p" and nk :: "'r \<Rightarrow> 'k" and merge :: "'r \<Rightarrow> 'r \<Rightarrow> 'r" +
  fixes get_t :: "'t \<Rightarrow> 'r list" and put_t :: "'r list \<Rightarrow> 't \<Rightarrow> 't"
  assumes get_put: "get_t (put_t rows t) = rows"
    and put_put: "put_t rows (put_t rows0 t) = put_t rows t"
    and put_get: "put_t (get_t t) t = t"
begin

lemma each_ok:
  assumes "db_each (\<lambda>r. exec_tx env (on_table get_t put_t (put_record pk nk merge (mk r)))) recs c = (Inr (), c')"
  shows "\<exists>ns rows. rows_of mk recs = Inr ns \<and> upsert_rows pk nk merge ns (get_t (tables c)) = Inr rows \<and>
     tables c' = put_t rows (tables c)"
  using assms
proof (induction recs arbitrary: c)
  case Nil
  then show ?case by (simp add: db_return_def put_get)
next
  case (Cons r recs)
  then obtain c1 where s: "exec_tx env (on_table get_t put_t (put_record pk nk merge (mk r))) c = (Inr (), c1)"
    and e: "db_each (\<lambda>r. exec_tx env (on_table get_t put_t (put_record pk nk merge (mk r)))) recs c1 = (Inr (), c')"
    by (auto simp: db_bind_Inr)
  from s obtain n rows1 where n: "mk r = Inr n" "upsert_row pk nk merge n (get_t (tables c)) = Inr rows1"
    and c1: "tables c1 = put_t rows1 (tables c)"
    by (auto simp: exec_tx_Inr on_table_def put_record_def res_bind_eq_Inr split: sum.splits)
  from Cons.IH [OF e] obtain ns rows where "rows_of mk recs = Inr ns"
    "upsert_rows pk nk merge ns rows1 = Inr rows" "tables c' = put_t rows (tables c)"
    by (auto simp: c1 get_put put_put)
  with n show ?case by auto
qed

lemma each_healthy:
  assumes "healthy env" and "rows_of mk recs = Inr ns"
    and "upsert_rows pk nk merge ns (get_t (tables c)) = Inr rows"
  shows "db_each (\<lambda>r. exec_tx env (on_table get_t put_t (put_record pk nk merge (mk r)))) recs c =
     (Inr (), c\<lparr>tables := put_t rows (tables c), sent := sent c + length recs\<rparr>)"
  using assms(2,3)
proof (induction recs arbitrary: c ns)
  case Nil
  then show ?case using put_get [of "tables c"] by (simp add: db_return_def)
next
  case (Cons r recs)
  then obtain n ns' rows1 where n: "mk r = Inr n" "rows_of mk recs = Inr ns'" "ns = n # ns'"
    and u: "upsert_row pk nk merge n (get_t (tables c)) = Inr rows1"
    and us: "upsert_rows pk nk merge ns' rows1 = Inr rows"
    by (auto simp: res_bind_eq_Inr)
  have "exec_tx env (on_table get_t put_t (put_record pk nk merge (mk r))) c =
      (Inr (), c\<lparr>sent := Suc (sent c), tables := put_t rows1 (tables c)\<rparr>)"
    using n(1) u by (simp add: exec_healthy [OF assms(1)] on_table_def put_record_def)
  with Cons.IH [OF n(2), of "c\<lparr>sent := Suc (sent c), tables := put_t rows1 (tables c)\<rparr>"] us
  show ?case by (simp add: db_bind_def get_put put_put)
qed

text \<open>A batch that was answered with a count was written whole, and the count is its length.\<close>

lemma write_ok:
  assumes "write_batch env get_t put_t pk nk merge mk recs c = (Inr n, c')"
  shows "n = length recs \<and> (\<exists>ns rows. rows_of mk recs = Inr ns \<and>
     upsert_rows pk nk merge ns (get_t (tables c)) = Inr rows \<and> tables c' = put_t rows (tables c))"
proof -
  from assms obtain c2 where b: "db_bind (db_each (\<lambda>r. exec_tx env (on_table get_t put_t (put_record pk nk merge (mk r)))) recs)
      (\<lambda>_. db_return (length recs)) (c\<lparr>sent := Suc (sent c)\<rparr>) = (Inr n, c2)"
    and t: "tables c' = tables c2"
    unfolding write_batch_def by (elim transaction_Inr)
  from b have "db_each (\<lambda>r. exec_tx env (on_table get_t put_t (put_record pk nk merge (mk r)))) recs
      (c\<lparr>sent := Suc (sent c)\<rparr>) = (Inr (), c2)" and "n = length recs"
    by (auto simp: db_bind_Inr db_return_def)
  from each_ok [OF this(1)] this(2) t show ?thesis by simp
qed

lemma write_healthy:
  assumes "healthy env" and "rows_of mk recs = Inr ns"
    and "upsert_rows pk nk merge ns (get_t (tables c)) = Inr rows"
  shows "write_batch env get_t put_t pk nk merge mk recs c =
     (Inr (length recs), c\<lparr>tables := put_t rows (tables c), sent := sent c + length recs + 2\<rparr>)"
  using each_healthy [OF assms(1,2), of "c\<lparr>sent := Suc (sent c)\<rparr>" rows] assms(1,3)
  by (simp add: write_batch_def transaction_def Let_def db_bind_def db_return_def)

lemma each_refused:
  assumes "healthy env" and "rows_of mk recs = Inr ns"
    and "upsert_rows pk nk merge ns (get_t (tables c)) = Inl e"
  shows "\<exists>c'. db_each (\<lambda>r. exec_tx env (on_table get_t put_t (put_record pk nk merge (mk r)))) recs c = (Inl e, c')"
  using assms(2,3)
proof (induction recs arbitrary: c ns)
  case (Cons r recs)
  then obtain n ns' where n: "mk r = Inr n" "rows_of mk recs = Inr ns'" "ns = n # ns'"
    by (auto simp: res_bind_eq_Inr)
  show ?case
  proof (cases "upsert_row pk nk merge n (get_t (tables c))")
    case (Inl e')
    with Cons.prems(2) n have "exec_tx env (on_table get_t put_t (put_record pk nk merge (mk r))) c =
        (Inl e, c\<lparr>sent := Suc (sent c)\<rparr>)"
      by (simp add: exec_healthy [OF assms(1)] on_table_def put_record_def)
    then show ?thesis by (simp add: db_bind_def)
  next
    case (Inr rows1)
    with n have "exec_tx env (on_table get_t put_t (put_record pk nk merge (mk r))) c =
        (Inr (), c\<lparr>sent := Suc (sent c), tables := put_t rows1 (tables c)\<rparr>)"
      by (simp add: exec_healthy [OF assms(1)] on_table_def put_record_def)
    with Cons.IH [OF n(2), of "c\<lparr>sent := Suc (sent c), tables := put_t rows1 (tables c)\<rparr>"] Cons.prems(2) n Inr
    show ?thesis by (simp add: db_bind_def get_put)
  qed
qed simp

text \<open>A batch with a row the table refuses fails with its error, and nothing of it is stored.\<close>

lemma write_refused:
  assumes "healthy env" and "rows_of mk recs = Inr ns"
    and "upsert_rows pk nk merge ns (get_t (tables c)) = Inl e"
  shows "\<exists>c'. write_batch env get_t put_t pk nk merge mk recs c = (Inl e, c') \<and> tables c' = tables c"
  using each_refused [OF assms(1,2), of "c\<lparr>sent := Suc (sent c)\<rparr>" e] assms(1,3)
  by (auto simp: write_batch_def transaction_def Let_def)

text \<open>A batch that was not answered with a count left the tables alone, unless its commit was executed
  and the answer lost.\<close>

lemma write_failed:
  assumes "no_lost_reply env" and "write_batch env get_t put_t pk nk merge mk recs c = (Inl e, c')"
  shows "tables c' = tables c"
  using transaction_atomic [OF assms(1)] assms(2) by (auto simp: write_batch_def)

lemma write_keeps_ok:
  assumes "write_batch env get_t put_t pk nk merge mk recs c = (Inr n, c')"
    and "table_ok pk nk (get_t (tables c))"
  shows "table_ok pk nk (get_t (tables c'))"
  using write_ok [OF assms(1)] assms(2) upserts_ok by (auto simp: get_put)

text \<open>Writing a batch a second time succeeds and changes nothing.\<close>

lemma write_twice:
  assumes "write_batch env get_t put_t pk nk merge mk recs c = (Inr n, c')"
    and "table_ok pk nk (get_t (tables c))"
    and "healthy env'" and "get_t (tables d) = get_t (tables c')"
  shows "\<exists>d'. write_batch env' get_t put_t pk nk merge mk recs d = (Inr n, d') \<and> tables d' = tables d"
proof -
  from write_ok [OF assms(1)] obtain ns rows where w: "n = length recs" "rows_of mk recs = Inr ns"
    "upsert_rows pk nk merge ns (get_t (tables c)) = Inr rows" "tables c' = put_t rows (tables c)"
    by blast
  have "upsert_rows pk nk merge ns rows = Inr rows"
    by (rule upserts_twice [OF w(3) assms(2)])
  moreover have d: "get_t (tables d) = rows" using w(4) assms(4) by (simp add: get_put)
  ultimately have "upsert_rows pk nk merge ns (get_t (tables d)) = Inr rows" by simp
  from write_healthy [OF assms(3) w(2) this] w(1) put_get [of "tables d"] d show ?thesis
    by simp
qed

end

end
