(* ===== verification/Gov_Report.thy ===== *)
theory Gov_Report
  imports Serde Gov_Tables
begin

text \<open>
  The reports of the Copilot connector (\<open>crates/governance-copilot\<close>): the rows of the NDJSON files GitHub
  publishes with the readers \<open>serde\<close> derives for them (\<open>model.rs\<close>), and the normalized rows the connector
  stores (\<open>parse/mod.rs\<close>, \<open>sync/mod.rs\<close>).

  The record \<open>report_lib\<close> holds what the sources call and this development does not contain: the JSON
  parser, the multiplication and rounding of doubles, and \<open>chrono\<close>'s reader and printer of RFC 3339
  timestamps.
\<close>

section \<open>Rows of the reports\<close>

record report_lib =
  rl_json :: "string \<Rightarrow> string + json"
  rl_f64 :: f64_lib
  rl_micro :: "string \<Rightarrow> int"
  rl_rfc3339 :: "string \<Rightarrow> int option"
  rl_show_time :: "int \<Rightarrow> string"

record org_report_row =
  or_day :: string
  or_organization_id :: "string option"
  or_total_active_users :: "nat option"
  or_total_engaged_users :: "nat option"
  or_total_completions :: "nat option"
  or_total_chat_engagements :: "nat option"

record user_report_row =
  ur_user_id :: "string option"
  ur_user_login :: "string option"
  ur_day :: string
  ur_total_engagements :: "nat option"
  ur_total_completions :: "nat option"
  ur_ai_credits :: "string option"

record repo_report_row =
  rr_repo_id :: "string option"
  rr_repo_name :: "string option"
  rr_day :: string
  rr_coding_agent_activity :: "nat option"
  rr_code_review_activity :: "nat option"
  rr_pull_request_activity :: "nat option"

record user_team_row =
  tr_user_id :: "string option"
  tr_user_login :: "string option"
  tr_team_id :: "string option"
  tr_slug :: "string option"
  tr_day :: string

record seat_assignee =
  sa_id :: "string option"
  sa_login :: "string option"

record seat_row =
  st_created_at :: "string option"
  st_last_activity_at :: "string option"
  st_last_activity_editor :: "string option"
  st_pending_cancellation_date :: "string option"
  st_assignee :: "seat_assignee option"

text \<open>An id is a string or an integer of 64 bits, which is then printed.\<close>

definition flexible_id :: "string option decoder" where
  "flexible_id j =
     (case j of
        JNull \<Rightarrow> Some None
      | JString s \<Rightarrow> Some (Some s)
      | _ \<Rightarrow> map_option (\<lambda>n. Some (show_int n)) (as_i64 j))"

abbreviation opt_u64 :: "struct_view \<Rightarrow> nat \<Rightarrow> nat option option" where
  "opt_u64 \<equiv> field_default (de_option as_u64) None"

abbreviation opt_str :: "struct_view \<Rightarrow> nat \<Rightarrow> string option option" where
  "opt_str \<equiv> field_default (de_option as_str_val) None"

abbreviation opt_id :: "struct_view \<Rightarrow> nat \<Rightarrow> string option option" where
  "opt_id \<equiv> field_default flexible_id None"

definition de_org_row :: "org_report_row decoder" where
  "de_org_row j = do {
     v \<leftarrow> de_object_text [[''day''], [''organization_id''], [''total_active_users''], [''total_engaged_users''],
            [''total_completions''], [''total_chat_engagements'']] j;
     day \<leftarrow> field_required as_str_val v 0;
     org \<leftarrow> opt_id v 1;
     active \<leftarrow> opt_u64 v 2;
     engaged \<leftarrow> opt_u64 v 3;
     completions \<leftarrow> opt_u64 v 4;
     chat \<leftarrow> opt_u64 v 5;
     Some \<lparr>or_day = day, or_organization_id = org, or_total_active_users = active,
           or_total_engaged_users = engaged, or_total_completions = completions,
           or_total_chat_engagements = chat\<rparr> }"

definition de_user_row :: "f64_lib \<Rightarrow> user_report_row decoder" where
  "de_user_row fl j = do {
     v \<leftarrow> de_struct_text [[''user_id''], [''user_login''], [''day''], [''total_engagements''],
            [''total_completions''], [''ai_credits'']] j;
     uid \<leftarrow> opt_id v 0;
     login \<leftarrow> opt_str v 1;
     day \<leftarrow> field_required as_str_val v 2;
     engagements \<leftarrow> opt_u64 v 3;
     completions \<leftarrow> opt_u64 v 4;
     credits \<leftarrow> field_default (de_option (as_f64 fl)) None v 5;
     Some \<lparr>ur_user_id = uid, ur_user_login = login, ur_day = day, ur_total_engagements = engagements,
           ur_total_completions = completions, ur_ai_credits = credits\<rparr> }"

definition de_repo_row :: "repo_report_row decoder" where
  "de_repo_row j = do {
     v \<leftarrow> de_struct_text [[''repo_id'', ''repository_id''], [''repo_name'', ''name''], [''day''],
            [''coding_agent_activity''], [''code_review_activity''], [''pull_request_activity'']] j;
     rid \<leftarrow> opt_id v 0;
     nm \<leftarrow> opt_str v 1;
     day \<leftarrow> field_required as_str_val v 2;
     coding \<leftarrow> opt_u64 v 3;
     review \<leftarrow> opt_u64 v 4;
     pr \<leftarrow> opt_u64 v 5;
     Some \<lparr>rr_repo_id = rid, rr_repo_name = nm, rr_day = day, rr_coding_agent_activity = coding,
           rr_code_review_activity = review, rr_pull_request_activity = pr\<rparr> }"

definition de_team_row :: "user_team_row decoder" where
  "de_team_row j = do {
     v \<leftarrow> de_struct_text [[''user_id''], [''user_login''], [''team_id''], [''slug''], [''day'']] j;
     uid \<leftarrow> opt_id v 0;
     login \<leftarrow> opt_str v 1;
     tid \<leftarrow> opt_id v 2;
     sl \<leftarrow> opt_str v 3;
     day \<leftarrow> field_required as_str_val v 4;
     Some \<lparr>tr_user_id = uid, tr_user_login = login, tr_team_id = tid, tr_slug = sl, tr_day = day\<rparr> }"

definition de_assignee :: "seat_assignee decoder" where
  "de_assignee j = do {
     v \<leftarrow> de_struct_text [[''id''], [''login'']] j;
     i \<leftarrow> opt_id v 0;
     l \<leftarrow> opt_str v 1;
     Some \<lparr>sa_id = i, sa_login = l\<rparr> }"

definition de_seat_row :: "seat_row decoder" where
  "de_seat_row j = do {
     v \<leftarrow> de_struct_text [[''created_at''], [''last_activity_at''], [''last_activity_editor''],
            [''pending_cancellation_date''], [''assignee'']] j;
     created \<leftarrow> opt_str v 0;
     act \<leftarrow> opt_str v 1;
     ed \<leftarrow> opt_str v 2;
     pending \<leftarrow> opt_str v 3;
     who \<leftarrow> field_default (de_option de_assignee) None v 4;
     Some \<lparr>st_created_at = created, st_last_activity_at = act, st_last_activity_editor = ed,
           st_pending_cancellation_date = pending, st_assignee = who\<rparr> }"

definition de_seats_page :: "seat_row list decoder" where
  "de_seats_page j = do {
     v \<leftarrow> de_struct_text [[''seats'']] j;
     field_default (de_vec de_seat_row) [] v 0 }"

record report_envelope =
  re_download_links :: "string list"
  re_report_day :: "string option"

definition de_report_envelope :: "report_envelope decoder" where
  "de_report_envelope j = do {
     v \<leftarrow> de_struct_text [[''download_links''], [''report_day'']] j;
     ls \<leftarrow> field_default (de_vec as_str_val) [] v 0;
     day \<leftarrow> opt_str v 1;
     Some \<lparr>re_download_links = ls, re_report_day = day\<rparr> }"

definition download_url :: "report_envelope \<Rightarrow> string option" where
  "download_url e = (case re_download_links e of [] \<Rightarrow> None | l # _ \<Rightarrow> Some l)"

section \<open>Normalized rows\<close>

record org_daily =
  od_organization_id :: string
  od_report_day :: string
  od_active_users :: nat
  od_engaged_users :: nat
  od_total_interactions :: nat
  od_total_completions :: nat
  od_ai_credits :: nat
  od_net_cost :: int

record user_daily =
  ud_provider_user_id :: string
  ud_user_login :: string
  ud_report_day :: string
  ud_total_interactions :: nat
  ud_total_completions :: nat
  ud_ai_credits :: nat
  ud_net_cost :: int

record user_team =
  ut_user_id :: string
  ut_team_id :: string
  ut_team_slug :: string
  ut_report_day :: string

record repo_daily =
  rd_repository_id :: string
  rd_report_day :: string
  rd_coding_agent_activity :: nat
  rd_code_review_activity :: nat
  rd_pull_request_activity :: nat

record seat_snapshot =
  ss_provider_user_id :: string
  ss_user_login :: string
  ss_snapshot_day :: string
  ss_seat_assigned_at :: "int option"
  ss_last_activity_at :: "int option"
  ss_last_activity_editor :: "string option"
  ss_seat_state :: string

text \<open>Errors of the connector. A parse error carries the report and the day; the text of the parser's
  message is not modelled.\<close>

datatype copilot_error =
    Github string nat string
  | Token_error string
  | Parse_error string string
  | Report_too_large string string nat nat
  | Transport_error
  | Archive_error string
  | Storage_error db_error

section \<open>Parsing\<close>

text \<open>The casts between \<open>u64\<close> and \<open>i64\<close> keep the bits.\<close>

definition u64_of_i64 :: "int \<Rightarrow> nat" where
  "u64_of_i64 i = nat (i mod 18446744073709551616)"

definition i64_of_u64 :: "nat \<Rightarrow> int" where
  "i64_of_u64 n = (let i = int n mod 18446744073709551616 in
     if i < 9223372036854775808 then i else i - 18446744073709551616)"

definition CREDIT_MICRO_USD :: int where
  "CREDIT_MICRO_USD = 10000"

text \<open>Division of \<open>i64\<close> rounds towards zero.\<close>

definition quot :: "int \<Rightarrow> int \<Rightarrow> int" where
  "quot a b = sgn a * sgn b * (\<bar>a\<bar> div \<bar>b\<bar>)"

definition credits_to_micro_usd :: "report_lib \<Rightarrow> string \<Rightarrow> int" where
  "credits_to_micro_usd lib credits = rl_micro lib credits"

definition nonempty_id :: "string option \<Rightarrow> string option" where
  "nonempty_id oid = (case oid of Some i \<Rightarrow> if i = [] then None else Some i | None \<Rightarrow> None)"

fun split_char :: "char \<Rightarrow> string \<Rightarrow> string list" where
  "split_char sep [] = [[]]"
| "split_char sep (c # cs) =
     (if c = sep then [] # split_char sep cs
      else (case split_char sep cs of [] \<Rightarrow> [[c]] | l # ls \<Rightarrow> (c # l) # ls))"

abbreviation split_bytes :: "string \<Rightarrow> string list" where
  "split_bytes \<equiv> split_char newline"

text \<open>Every \<open>parse_*\<close> function reads the lines that are not empty in turn, stops at the first one that is
  not a row, and drops a row without the identity it is stored under.\<close>

fun parse_lines :: "(string \<Rightarrow> string + json) \<Rightarrow> 'r decoder \<Rightarrow> ('r \<Rightarrow> 'n option) \<Rightarrow> string \<Rightarrow> string \<Rightarrow>
    string list \<Rightarrow> copilot_error + 'n list" where
  "parse_lines js d nz report day [] = Inr []"
| "parse_lines js d nz report day (l # ls) =
     (if l = [] then parse_lines js d nz report day ls
      else case js l of
        Inl _ \<Rightarrow> Inl (Parse_error report day)
      | Inr j \<Rightarrow>
          (case d j of
             None \<Rightarrow> Inl (Parse_error report day)
           | Some row \<Rightarrow>
               res_bind (parse_lines js d nz report day ls)
                 (\<lambda>ns. Inr (case nz row of None \<Rightarrow> ns | Some n \<Rightarrow> n # ns))))"

definition norm_org :: "org_report_row \<Rightarrow> org_daily option" where
  "norm_org row =
     (case nonempty_id (or_organization_id row) of
        None \<Rightarrow> None
      | Some org \<Rightarrow>
          Some \<lparr>od_organization_id = org, od_report_day = or_day row,
            od_active_users = (case or_total_active_users row of None \<Rightarrow> 0 | Some n \<Rightarrow> n),
            od_engaged_users = (case or_total_engaged_users row of None \<Rightarrow> 0 | Some n \<Rightarrow> n),
            od_total_interactions =
              sat_add (case or_total_completions row of None \<Rightarrow> 0 | Some n \<Rightarrow> n)
                (case or_total_chat_engagements row of None \<Rightarrow> 0 | Some n \<Rightarrow> n),
            od_total_completions = (case or_total_completions row of None \<Rightarrow> 0 | Some n \<Rightarrow> n),
            od_ai_credits = 0, od_net_cost = 0\<rparr>)"

definition norm_user :: "report_lib \<Rightarrow> user_report_row \<Rightarrow> user_daily option" where
  "norm_user lib row =
     (case nonempty_id (ur_user_id row) of
        None \<Rightarrow> None
      | Some uid \<Rightarrow>
          (let cost = credits_to_micro_usd lib (case ur_ai_credits row of None \<Rightarrow> ''0.0'' | Some c \<Rightarrow> c) in
           Some \<lparr>ud_provider_user_id = uid,
             ud_user_login = (case ur_user_login row of None \<Rightarrow> [] | Some l \<Rightarrow> l),
             ud_report_day = ur_day row,
             ud_total_interactions = (case ur_total_engagements row of None \<Rightarrow> 0 | Some n \<Rightarrow> n),
             ud_total_completions = (case ur_total_completions row of None \<Rightarrow> 0 | Some n \<Rightarrow> n),
             ud_ai_credits = u64_of_i64 (quot cost CREDIT_MICRO_USD),
             ud_net_cost = cost\<rparr>))"

definition norm_repo :: "repo_report_row \<Rightarrow> repo_daily option" where
  "norm_repo row =
     (case (case nonempty_id (rr_repo_id row) of Some i \<Rightarrow> Some i | None \<Rightarrow> nonempty_id (rr_repo_name row)) of
        None \<Rightarrow> None
      | Some rid \<Rightarrow>
          Some \<lparr>rd_repository_id = rid, rd_report_day = rr_day row,
            rd_coding_agent_activity = (case rr_coding_agent_activity row of None \<Rightarrow> 0 | Some n \<Rightarrow> n),
            rd_code_review_activity = (case rr_code_review_activity row of None \<Rightarrow> 0 | Some n \<Rightarrow> n),
            rd_pull_request_activity = (case rr_pull_request_activity row of None \<Rightarrow> 0 | Some n \<Rightarrow> n)\<rparr>)"

definition norm_team :: "user_team_row \<Rightarrow> user_team option" where
  "norm_team row =
     (case nonempty_id (tr_user_id row) of
        None \<Rightarrow> None
      | Some uid \<Rightarrow>
          (case nonempty_id (tr_team_id row) of
             None \<Rightarrow> None
           | Some tid \<Rightarrow>
               Some \<lparr>ut_user_id = uid, ut_team_id = tid,
                 ut_team_slug = (case tr_slug row of None \<Rightarrow> [] | Some s \<Rightarrow> s), ut_report_day = tr_day row\<rparr>))"

definition parse_org_daily :: "report_lib \<Rightarrow> string \<Rightarrow> string \<Rightarrow> string \<Rightarrow> copilot_error + org_daily list" where
  "parse_org_daily lib bytes report day =
     parse_lines (rl_json lib) de_org_row norm_org report day (split_bytes bytes)"

definition parse_user_daily :: "report_lib \<Rightarrow> string \<Rightarrow> string \<Rightarrow> string \<Rightarrow> copilot_error + user_daily list" where
  "parse_user_daily lib bytes report day =
     parse_lines (rl_json lib) (de_user_row (rl_f64 lib)) (norm_user lib) report day (split_bytes bytes)"

definition parse_repo_daily :: "report_lib \<Rightarrow> string \<Rightarrow> string \<Rightarrow> string \<Rightarrow> copilot_error + repo_daily list" where
  "parse_repo_daily lib bytes report day =
     parse_lines (rl_json lib) de_repo_row norm_repo report day (split_bytes bytes)"

definition parse_user_team :: "report_lib \<Rightarrow> string \<Rightarrow> string \<Rightarrow> string \<Rightarrow> copilot_error + user_team list" where
  "parse_user_team lib bytes report day =
     parse_lines (rl_json lib) de_team_row norm_team report day (split_bytes bytes)"

definition seat_state :: "string option \<Rightarrow> string" where
  "seat_state pending = (if pending \<noteq> None then ''pending_cancellation'' else ''active'')"

definition parse_seat_timestamp :: "report_lib \<Rightarrow> string option \<Rightarrow> int option" where
  "parse_seat_timestamp lib raw = Option.bind raw (rl_rfc3339 lib)"

definition norm_seat :: "report_lib \<Rightarrow> string \<Rightarrow> seat_row \<Rightarrow> seat_snapshot option" where
  "norm_seat lib snapshot_day seat =
     (case st_assignee seat of
        None \<Rightarrow> None
      | Some who \<Rightarrow>
          (case nonempty_id (sa_id who) of
             None \<Rightarrow> None
           | Some uid \<Rightarrow>
               Some \<lparr>ss_provider_user_id = uid,
                 ss_user_login = (case sa_login who of None \<Rightarrow> [] | Some l \<Rightarrow> l),
                 ss_snapshot_day = snapshot_day,
                 ss_seat_assigned_at = parse_seat_timestamp lib (st_created_at seat),
                 ss_last_activity_at = parse_seat_timestamp lib (st_last_activity_at seat),
                 ss_last_activity_editor = st_last_activity_editor seat,
                 ss_seat_state = seat_state (st_pending_cancellation_date seat)\<rparr>))"

definition parse_seats :: "report_lib \<Rightarrow> string \<Rightarrow> string \<Rightarrow> string \<Rightarrow> copilot_error + seat_snapshot list" where
  "parse_seats lib bytes report snapshot_day =
     (case rl_json lib bytes of
        Inl _ \<Rightarrow> Inl (Parse_error report snapshot_day)
      | Inr j \<Rightarrow>
          (case de_vec de_seats_page j of
             None \<Rightarrow> Inl (Parse_error report snapshot_day)
           | Some pages \<Rightarrow> Inr (List.map_filter (norm_seat lib snapshot_day) (concat pages))))"

section \<open>Reports by name\<close>

definition REPORTS :: "string list" where
  "REPORTS = [''organization-1-day'', ''users-1-day'', ''repos-1-day'', ''user-teams-1-day'']"

definition SEATS_REPORT_TYPE :: string where
  "SEATS_REPORT_TYPE = ''billing-seats''"

definition SCHEMA_VERSION :: int where
  "SCHEMA_VERSION = 1"

datatype parsed_rows =
    Org_rows "org_daily list"
  | User_rows "user_daily list"
  | Repo_rows "repo_daily list"
  | Team_rows "user_team list"
  | Seat_rows "seat_snapshot list"

fun rows_len :: "parsed_rows \<Rightarrow> nat" where
  "rows_len (Org_rows v) = length v"
| "rows_len (User_rows v) = length v"
| "rows_len (Repo_rows v) = length v"
| "rows_len (Team_rows v) = length v"
| "rows_len (Seat_rows v) = length v"

definition parse_report_rows :: "report_lib \<Rightarrow> string \<Rightarrow> string \<Rightarrow> string \<Rightarrow> copilot_error + parsed_rows" where
  "parse_report_rows lib report bytes day =
     (if report = ''organization-1-day''
      then res_bind (parse_org_daily lib bytes report day) (\<lambda>v. Inr (Org_rows v))
      else if report = ''users-1-day''
      then res_bind (parse_user_daily lib bytes report day) (\<lambda>v. Inr (User_rows v))
      else if report = ''repos-1-day''
      then res_bind (parse_repo_daily lib bytes report day) (\<lambda>v. Inr (Repo_rows v))
      else if report = ''user-teams-1-day''
      then res_bind (parse_user_team lib bytes report day) (\<lambda>v. Inr (Team_rows v))
      else if report = SEATS_REPORT_TYPE
      then res_bind (parse_seats lib bytes report day) (\<lambda>v. Inr (Seat_rows v))
      else Inl (Github ''sync'' 0 (''unknown report type '' @ report @ '' in REPORTS'')))"

definition archive_key :: "string \<Rightarrow> string \<Rightarrow> string \<Rightarrow> string" where
  "archive_key org report day = ''org='' @ org @ ''/day='' @ day @ ''/'' @ report @ ''.ndjson''"

definition seats_archive_key :: "string \<Rightarrow> string \<Rightarrow> string" where
  "seats_archive_key org snapshot_day =
     ''org='' @ org @ ''/day='' @ snapshot_day @ ''/'' @ SEATS_REPORT_TYPE @ ''.json''"

section \<open>What parsing guarantees\<close>

lemma cast_round_trip: "in_i64 i \<Longrightarrow> i64_of_u64 (u64_of_i64 i) = i"
proof -
  assume i: "in_i64 i"
  have "i mod 18446744073709551616 = (if i < 0 then i + 18446744073709551616 else i)"
  proof (cases "i < 0")
    case True
    have "(i + 18446744073709551616) mod 18446744073709551616 = i + 18446744073709551616"
      using i True by (intro mod_pos_pos_trivial) (simp_all add: in_i64_def)
    with True show ?thesis by simp
  next
    case False
    with i show ?thesis by (simp add: in_i64_def)
  qed
  with i show ?thesis by (simp add: i64_of_u64_def u64_of_i64_def in_i64_def Let_def)
qed

lemma quot_range: "in_i64 a \<Longrightarrow> in_i64 (quot a CREDIT_MICRO_USD)"
proof -
  assume a: "in_i64 a"
  have "0 \<le> \<bar>a\<bar> div 10000" "\<bar>a\<bar> div 10000 \<le> \<bar>a\<bar>"
    by (simp_all add: div_le_dividend zdiv_mono2 int_div_less_self)
  then show ?thesis using a
    by (auto simp: quot_def CREDIT_MICRO_USD_def in_i64_def sgn_if split: if_splits)
qed

text \<open>The lines of a file, joined with one newline, are the file.\<close>

lemma split_char_nonempty [simp]: "split_char sep s \<noteq> []"
  by (induction s) (auto split: list.splits)

lemma join_split_char: "join_with [sep] (split_char sep s) = s"
proof (induction s)
  case (Cons c s)
  obtain l ls where s: "split_char sep s = l # ls" by (cases "split_char sep s") auto
  with Cons show ?case by (cases ls) auto
qed simp

lemma split_char_no_sep: "l \<in> set (split_char sep s) \<Longrightarrow> sep \<notin> set l"
  by (induction s arbitrary: l) (auto split: list.splits if_splits)

text \<open>Parsing succeeds exactly when every line that is not empty reads as a row, and then the rows are
  those lines in order, less the ones without an identity.\<close>

definition line_row :: "(string \<Rightarrow> string + json) \<Rightarrow> 'r decoder \<Rightarrow> string \<Rightarrow> 'r option" where
  "line_row js d l = (case js l of Inl _ \<Rightarrow> None | Inr j \<Rightarrow> d j)"

lemma parse_lines_eq:
  "parse_lines js d nz report day ls =
     (case those (map (line_row js d) (filter (\<lambda>l. l \<noteq> []) ls)) of
        None \<Rightarrow> Inl (Parse_error report day)
      | Some rows \<Rightarrow> Inr (List.map_filter nz rows))"
  by (induction ls)
    (auto simp: line_row_def map_filter_simps res_bind_def split: option.splits sum.splits)

lemma parse_lines_Inl: "parse_lines js d nz report day ls = Inl e \<Longrightarrow> e = Parse_error report day"
  by (simp add: parse_lines_eq split: option.splits)

lemma set_map_filter_iff: "x \<in> set (List.map_filter f xs) \<longleftrightarrow> (\<exists>y \<in> set xs. f y = Some x)"
  by (force simp: map_filter_def)

lemma nonempty_id_Some: "nonempty_id oid = Some i \<longleftrightarrow> oid = Some i \<and> i \<noteq> []"
  by (auto simp: nonempty_id_def split: option.splits if_splits)

end
