(* ===== verification/Gov_Store.thy ===== *)
theory Gov_Store
  imports Gov_Batch Gov_Report
begin

text \<open>
  The store of the Copilot connector (\<open>crates/governance-copilot/src/store.rs\<close>): the five report tables and
  the ingest manifests, with the statements that write and read them. Keys are those of the migrations:
  every table has the primary key \<open>id\<close> and one unique index, the natural key its statement names.

  The record \<open>day_lib\<close> holds the conversions of a day: \<open>dl_cast\<close> is the server's \<open>CAST(... AS date)\<close>,
  which fails on a text that is not a date, \<open>dl_show\<close> is \<open>chrono\<close>'s printing of one and \<open>dl_parse\<close> its
  reading of the format \<open>%Y-%m-%d\<close>. A day is the number of the calendar day.
\<close>

section \<open>Tables\<close>

record day_lib =
  dl_cast :: "string \<Rightarrow> int option"
  dl_show :: "int \<Rightarrow> string"
  dl_parse :: "string \<Rightarrow> int option"

record org_table_row =
  og_id :: string
  og_tenant :: string
  og_organization :: string
  og_day :: int
  og_active_users :: int
  og_engaged_users :: int
  og_total_interactions :: int
  og_code_generations :: int
  og_code_acceptances :: int
  og_loc_suggested :: int
  og_loc_added :: int
  og_loc_deleted :: int
  og_ai_credits :: int
  og_net_cost :: int

record user_table_row =
  us_id :: string
  us_tenant :: string
  us_organization :: string
  us_day :: int
  us_provider_user :: string
  us_login :: string
  us_total_interactions :: int
  us_code_generations :: int
  us_code_acceptances :: int
  us_ai_credits :: int
  us_net_cost :: int

record repo_table_row =
  rp_id :: string
  rp_tenant :: string
  rp_organization :: string
  rp_day :: int
  rp_repository :: string
  rp_coding_agent :: int
  rp_code_review :: int
  rp_pull_request :: int

record team_table_row =
  tm_id :: string
  tm_tenant :: string
  tm_organization :: string
  tm_day :: int
  tm_user :: string
  tm_team :: string
  tm_slug :: string

record seat_table_row =
  sn_id :: string
  sn_tenant :: string
  sn_organization :: string
  sn_day :: int
  sn_provider_user :: string
  sn_login :: string
  sn_assigned_at :: "int option"
  sn_last_activity_at :: "int option"
  sn_last_activity_editor :: "string option"
  sn_state :: string

record manifest_row =
  mf_id :: string
  mf_tenant :: string
  mf_provider :: string
  mf_scope :: string
  mf_day :: int
  mf_report :: string
  mf_status :: string
  mf_record_count :: int
  mf_schema_version :: int
  mf_started_at :: int
  mf_completed_at :: "int option"

text \<open>The field \<open>db_tables\<close> names the telemetry tables that exist, for the statements that drop them.\<close>

record copilot_db =
  db_tables :: "string list"
  org_dailys :: "org_table_row list"
  user_dailys :: "user_table_row list"
  repo_dailys :: "repo_table_row list"
  user_teams :: "team_table_row list"
  seat_snapshots :: "seat_table_row list"
  ingest_manifests :: "manifest_row list"

definition row_id :: "string \<Rightarrow> string \<Rightarrow> string \<Rightarrow> string \<Rightarrow> string" where
  "row_id kind tenant scope day = kind @ '':'' @ tenant @ '':'' @ scope @ '':'' @ day"

definition cast_day :: "day_lib \<Rightarrow> string \<Rightarrow> db_error + int" where
  "cast_day dl day = (case dl_cast dl day of None \<Rightarrow> Inl Bad_value | Some d \<Rightarrow> Inr d)"

section \<open>Writing reports\<close>

definition org_key :: "org_table_row \<Rightarrow> string \<times> string \<times> int" where
  "org_key r = (og_tenant r, og_organization r, og_day r)"

definition org_merge :: "org_table_row \<Rightarrow> org_table_row \<Rightarrow> org_table_row" where
  "org_merge old new = old\<lparr>
     og_active_users := og_active_users new,
     og_engaged_users := og_engaged_users new,
     og_total_interactions := og_total_interactions new,
     og_code_generations := og_code_generations new,
     og_code_acceptances := og_code_acceptances new,
     og_loc_suggested := og_loc_suggested new,
     og_loc_added := og_loc_added new,
     og_loc_deleted := og_loc_deleted new,
     og_ai_credits := og_ai_credits new,
     og_net_cost := og_net_cost new\<rparr>"

definition org_row :: "day_lib \<Rightarrow> string \<Rightarrow> org_daily \<Rightarrow> db_error + org_table_row" where
  "org_row dl tenant r =
     res_bind (cast_day dl (od_report_day r)) (\<lambda>d. Inr \<lparr>
       og_id = row_id ''org'' tenant (od_organization_id r) (od_report_day r),
       og_tenant = tenant,
       og_organization = od_organization_id r,
       og_day = d,
       og_active_users = i64_of_u64 (od_active_users r),
       og_engaged_users = i64_of_u64 (od_engaged_users r),
       og_total_interactions = i64_of_u64 (od_total_interactions r),
       og_code_generations = 0, og_code_acceptances = 0,
       og_loc_suggested = 0, og_loc_added = 0, og_loc_deleted = 0,
       og_ai_credits = i64_of_u64 (od_ai_credits r),
       og_net_cost = od_net_cost r\<rparr>)"

definition upsert_org_daily :: "db_env \<Rightarrow> day_lib \<Rightarrow> string \<Rightarrow> org_daily list \<Rightarrow> (copilot_db, nat) dbop" where
  "upsert_org_daily env dl tenant recs =
     write_batch env org_dailys (\<lambda>rows. org_dailys_update (\<lambda>_. rows)) og_id org_key org_merge
       (org_row dl tenant) recs"

definition user_key :: "user_table_row \<Rightarrow> string \<times> string \<times> int \<times> string" where
  "user_key r = (us_tenant r, us_organization r, us_day r, us_provider_user r)"

definition user_merge :: "user_table_row \<Rightarrow> user_table_row \<Rightarrow> user_table_row" where
  "user_merge old new = old\<lparr>
     us_login := us_login new,
     us_total_interactions := us_total_interactions new,
     us_code_generations := us_code_generations new,
     us_code_acceptances := us_code_acceptances new,
     us_ai_credits := us_ai_credits new,
     us_net_cost := us_net_cost new\<rparr>"

definition user_row :: "day_lib \<Rightarrow> string \<Rightarrow> string \<Rightarrow> user_daily \<Rightarrow> db_error + user_table_row" where
  "user_row dl tenant org r =
     res_bind (cast_day dl (ud_report_day r)) (\<lambda>d. Inr \<lparr>
       us_id = row_id ''user'' tenant (ud_provider_user_id r) (ud_report_day r),
       us_tenant = tenant,
       us_organization = org,
       us_day = d,
       us_provider_user = ud_provider_user_id r,
       us_login = ud_user_login r,
       us_total_interactions = i64_of_u64 (ud_total_interactions r),
       us_code_generations = i64_of_u64 (ud_total_completions r),
       us_code_acceptances = 0,
       us_ai_credits = i64_of_u64 (ud_ai_credits r),
       us_net_cost = ud_net_cost r\<rparr>)"

definition upsert_user_daily ::
  "db_env \<Rightarrow> day_lib \<Rightarrow> string \<Rightarrow> string \<Rightarrow> user_daily list \<Rightarrow> (copilot_db, nat) dbop" where
  "upsert_user_daily env dl tenant org recs =
     write_batch env user_dailys (\<lambda>rows. user_dailys_update (\<lambda>_. rows)) us_id user_key user_merge
       (user_row dl tenant org) recs"

definition repo_key :: "repo_table_row \<Rightarrow> string \<times> string \<times> int \<times> string" where
  "repo_key r = (rp_tenant r, rp_organization r, rp_day r, rp_repository r)"

definition repo_merge :: "repo_table_row \<Rightarrow> repo_table_row \<Rightarrow> repo_table_row" where
  "repo_merge old new = old\<lparr>
     rp_coding_agent := rp_coding_agent new,
     rp_code_review := rp_code_review new,
     rp_pull_request := rp_pull_request new\<rparr>"

definition repo_row :: "day_lib \<Rightarrow> string \<Rightarrow> string \<Rightarrow> repo_daily \<Rightarrow> db_error + repo_table_row" where
  "repo_row dl tenant org r =
     res_bind (cast_day dl (rd_report_day r)) (\<lambda>d. Inr \<lparr>
       rp_id = row_id ''repo'' tenant (rd_repository_id r) (rd_report_day r),
       rp_tenant = tenant,
       rp_organization = org,
       rp_day = d,
       rp_repository = rd_repository_id r,
       rp_coding_agent = i64_of_u64 (rd_coding_agent_activity r),
       rp_code_review = i64_of_u64 (rd_code_review_activity r),
       rp_pull_request = i64_of_u64 (rd_pull_request_activity r)\<rparr>)"

definition upsert_repo_daily ::
  "db_env \<Rightarrow> day_lib \<Rightarrow> string \<Rightarrow> string \<Rightarrow> repo_daily list \<Rightarrow> (copilot_db, nat) dbop" where
  "upsert_repo_daily env dl tenant org recs =
     write_batch env repo_dailys (\<lambda>rows. repo_dailys_update (\<lambda>_. rows)) rp_id repo_key repo_merge
       (repo_row dl tenant org) recs"

definition team_key :: "team_table_row \<Rightarrow> string \<times> string \<times> int \<times> string \<times> string" where
  "team_key r = (tm_tenant r, tm_organization r, tm_day r, tm_user r, tm_team r)"

definition team_merge :: "team_table_row \<Rightarrow> team_table_row \<Rightarrow> team_table_row" where
  "team_merge old new = old\<lparr>tm_slug := tm_slug new\<rparr>"

definition team_row :: "day_lib \<Rightarrow> string \<Rightarrow> string \<Rightarrow> user_team \<Rightarrow> db_error + team_table_row" where
  "team_row dl tenant org r =
     res_bind (cast_day dl (ut_report_day r)) (\<lambda>d. Inr \<lparr>
       tm_id = row_id ''team'' tenant (ut_user_id r) (ut_report_day r),
       tm_tenant = tenant,
       tm_organization = org,
       tm_day = d,
       tm_user = ut_user_id r,
       tm_team = ut_team_id r,
       tm_slug = ut_team_slug r\<rparr>)"

definition upsert_user_team ::
  "db_env \<Rightarrow> day_lib \<Rightarrow> string \<Rightarrow> string \<Rightarrow> user_team list \<Rightarrow> (copilot_db, nat) dbop" where
  "upsert_user_team env dl tenant org recs =
     write_batch env user_teams (\<lambda>rows. user_teams_update (\<lambda>_. rows)) tm_id team_key team_merge
       (team_row dl tenant org) recs"

definition seat_key :: "seat_table_row \<Rightarrow> string \<times> string \<times> int \<times> string" where
  "seat_key r = (sn_tenant r, sn_organization r, sn_day r, sn_provider_user r)"

definition seat_merge :: "seat_table_row \<Rightarrow> seat_table_row \<Rightarrow> seat_table_row" where
  "seat_merge old new = old\<lparr>
     sn_login := sn_login new,
     sn_assigned_at := sn_assigned_at new,
     sn_last_activity_at := sn_last_activity_at new,
     sn_last_activity_editor := sn_last_activity_editor new,
     sn_state := sn_state new\<rparr>"

definition seat_table :: "day_lib \<Rightarrow> string \<Rightarrow> string \<Rightarrow> seat_snapshot \<Rightarrow> db_error + seat_table_row" where
  "seat_table dl tenant org r =
     res_bind (cast_day dl (ss_snapshot_day r)) (\<lambda>d. Inr \<lparr>
       sn_id = row_id ''seat'' tenant (ss_provider_user_id r) (ss_snapshot_day r),
       sn_tenant = tenant,
       sn_organization = org,
       sn_day = d,
       sn_provider_user = ss_provider_user_id r,
       sn_login = ss_user_login r,
       sn_assigned_at = ss_seat_assigned_at r,
       sn_last_activity_at = ss_last_activity_at r,
       sn_last_activity_editor = ss_last_activity_editor r,
       sn_state = ss_seat_state r\<rparr>)"

definition upsert_seat_snapshot ::
  "db_env \<Rightarrow> day_lib \<Rightarrow> string \<Rightarrow> string \<Rightarrow> seat_snapshot list \<Rightarrow> (copilot_db, nat) dbop" where
  "upsert_seat_snapshot env dl tenant org recs =
     write_batch env seat_snapshots (\<lambda>rows. seat_snapshots_update (\<lambda>_. rows)) sn_id seat_key seat_merge
       (seat_table dl tenant org) recs"

section \<open>Manifests\<close>

definition manifest_key :: "manifest_row \<Rightarrow> string \<times> string \<times> string \<times> int \<times> string" where
  "manifest_key r = (mf_tenant r, mf_provider r, mf_scope r, mf_day r, mf_report r)"

definition manifest_merge :: "int \<Rightarrow> manifest_row \<Rightarrow> manifest_row \<Rightarrow> manifest_row" where
  "manifest_merge now old new = old\<lparr>
     mf_status := mf_status new,
     mf_record_count := mf_record_count new,
     mf_schema_version := mf_schema_version new,
     mf_completed_at := Some now\<rparr>"

definition manifest_id :: "string \<Rightarrow> string \<Rightarrow> string \<Rightarrow> string \<Rightarrow> string" where
  "manifest_id tenant scope report day =
     ''manifest:'' @ tenant @ '':'' @ scope @ '':'' @ report @ '':'' @ day"

definition manifest_of :: "day_lib \<Rightarrow> int \<Rightarrow> string \<Rightarrow> string \<Rightarrow> string \<Rightarrow> string \<Rightarrow> string \<Rightarrow> string \<Rightarrow> nat \<Rightarrow>
    db_error + manifest_row" where
  "manifest_of dl now tenant provider scope report day status n =
     res_bind (cast_day dl day) (\<lambda>d. Inr \<lparr>
       mf_id = manifest_id tenant scope report day,
       mf_tenant = tenant, mf_provider = provider, mf_scope = scope, mf_day = d, mf_report = report,
       mf_status = status, mf_record_count = i64_of_u64 n, mf_schema_version = SCHEMA_VERSION,
       mf_started_at = now, mf_completed_at = Some now\<rparr>)"

definition upsert_manifest ::
  "db_env \<Rightarrow> day_lib \<Rightarrow> string \<Rightarrow> string \<Rightarrow> string \<Rightarrow> string \<Rightarrow> string \<Rightarrow> string \<Rightarrow> nat \<Rightarrow> (copilot_db, unit) dbop" where
  "upsert_manifest env dl tenant provider scope report day status n c =
     (let now = env_now env (sent c) in
      exec_auto env
        (on_table ingest_manifests (\<lambda>rows. ingest_manifests_update (\<lambda>_. rows))
           (put_record mf_id manifest_key (manifest_merge now)
              (manifest_of dl now tenant provider scope report day status n))) c)"

section \<open>Reading\<close>

text \<open>A query: it changes nothing.\<close>

definition query :: "('t \<Rightarrow> db_error + 'a) \<Rightarrow> ('t, 'a) stmt" where
  "query q t = (case q t of Inl e \<Rightarrow> Inl e | Inr a \<Rightarrow> Inr (a, t))"

definition max_option :: "int list \<Rightarrow> int option" where
  "max_option xs = (if xs = [] then None else Some (Max (set xs)))"

definition high_water_mark :: "db_env \<Rightarrow> string \<Rightarrow> string \<Rightarrow> (copilot_db, int option) dbop" where
  "high_water_mark env tenant provider =
     exec_auto env (query (\<lambda>t. Inr (max_option (map mf_day
       (filter (\<lambda>m. mf_tenant m = tenant \<and> mf_provider m = provider \<and> mf_report m \<noteq> SEATS_REPORT_TYPE)
          (ingest_manifests t))))))"

record manifest_drift =
  md_day :: string
  md_report :: string
  md_status :: string
  md_expected :: int
  md_actual :: int

definition count_where :: "('r \<Rightarrow> bool) \<Rightarrow> 'r list \<Rightarrow> int" where
  "count_where P rows = int (length (filter P rows))"

text \<open>The rows a manifest covers. The day is printed and cast back by the server.\<close>

definition counted :: "string \<Rightarrow> string \<Rightarrow> string \<Rightarrow> int \<Rightarrow> copilot_db \<Rightarrow> int option" where
  "counted tenant scope report d t =
     (if report = ''organization-1-day''
      then Some (count_where (\<lambda>r. og_tenant r = tenant \<and> og_day r = d) (org_dailys t))
      else if report = ''users-1-day''
      then Some (count_where (\<lambda>r. us_tenant r = tenant \<and> us_organization r = scope \<and> us_day r = d) (user_dailys t))
      else if report = ''repos-1-day''
      then Some (count_where (\<lambda>r. rp_tenant r = tenant \<and> rp_organization r = scope \<and> rp_day r = d) (repo_dailys t))
      else if report = ''user-teams-1-day''
      then Some (count_where (\<lambda>r. tm_tenant r = tenant \<and> tm_organization r = scope \<and> tm_day r = d) (user_teams t))
      else if report = SEATS_REPORT_TYPE
      then Some (count_where (\<lambda>r. sn_tenant r = tenant \<and> sn_organization r = scope \<and> sn_day r = d) (seat_snapshots t))
      else None)"

definition storage :: "(db_error + 'a) \<times> 'c \<Rightarrow> (copilot_error + 'a) \<times> 'c" where
  "storage r = (res_map_err Storage_error (fst r), snd r)"

definition count_rows :: "db_env \<Rightarrow> day_lib \<Rightarrow> string \<Rightarrow> string \<Rightarrow> string \<Rightarrow> int \<Rightarrow>
    copilot_db conn \<Rightarrow> (copilot_error + int) \<times> copilot_db conn" where
  "count_rows env dl tenant scope report day c =
     (if counted tenant scope report day (tables c) = None
      then (Inl (Github ''verify'' 0 (''unknown report type '' @ report)), c)
      else storage (exec_auto env (query (\<lambda>t.
        res_bind (cast_day dl (dl_show dl day)) (\<lambda>d. Inr (the (counted tenant scope report d t))))) c))"

fun check_manifests :: "db_env \<Rightarrow> day_lib \<Rightarrow> string \<Rightarrow> string \<Rightarrow> manifest_row list \<Rightarrow>
    copilot_db conn \<Rightarrow> (copilot_error + manifest_drift list) \<times> copilot_db conn" where
  "check_manifests env dl tenant scope [] c = (Inr [], c)"
| "check_manifests env dl tenant scope (m # ms) c =
     db_bind (count_rows env dl tenant scope (mf_report m) (mf_day m))
       (\<lambda>actual. db_bind (check_manifests env dl tenant scope ms)
          (\<lambda>drift. db_return
             (if actual \<noteq> mf_record_count m
              then \<lparr>md_day = dl_show dl (mf_day m), md_report = mf_report m, md_status = mf_status m,
                     md_expected = mf_record_count m, md_actual = actual\<rparr> # drift
              else drift))) c"

text \<open>\<open>ORDER BY report_day DESC\<close> leaves the order of the rows of one day to the server, which here is the
  order of the table.\<close>

definition verify_manifests :: "db_env \<Rightarrow> day_lib \<Rightarrow> string \<Rightarrow> string \<Rightarrow> string \<Rightarrow>
    copilot_db conn \<Rightarrow> (copilot_error + manifest_drift list) \<times> copilot_db conn" where
  "verify_manifests env dl tenant provider scope =
     db_bind (\<lambda>c. storage (exec_auto env (query (\<lambda>t. Inr (sort_key (\<lambda>m. - mf_day m)
         (filter (\<lambda>m. mf_tenant m = tenant \<and> mf_provider m = provider \<and> mf_scope m = scope)
            (ingest_manifests t))))) c))
       (check_manifests env dl tenant scope)"

definition unmapped_user_count :: "db_env \<Rightarrow> day_lib \<Rightarrow> string \<Rightarrow> string \<Rightarrow> string \<Rightarrow> (copilot_db, int) dbop" where
  "unmapped_user_count env dl tenant org day =
     exec_auto env (query (\<lambda>t. res_bind (cast_day dl day) (\<lambda>d. Inr (int (length (remdups
       (filter (\<lambda>u. u \<notin> set (map tm_user (filter (\<lambda>r. tm_tenant r = tenant \<and> tm_organization r = org \<and> tm_day r = d)
            (user_teams t))))
          (map us_provider_user (filter (\<lambda>r. us_tenant r = tenant \<and> us_organization r = org \<and> us_day r = d)
            (user_dailys t))))))))))"

definition manifest_schema_version :: "db_env \<Rightarrow> day_lib \<Rightarrow> string \<Rightarrow> string \<Rightarrow> string \<Rightarrow> string \<Rightarrow> string \<Rightarrow>
    (copilot_db, int option) dbop" where
  "manifest_schema_version env dl tenant provider scope report day =
     exec_auto env (query (\<lambda>t. res_bind (cast_day dl day) (\<lambda>d.
       Inr (map_option mf_schema_version
         (lookup_row manifest_key (tenant, provider, scope, d, report) (ingest_manifests t))))))"

section \<open>The tables meet the interface\<close>

interpretation orgs: stored_table og_id org_key org_merge org_dailys "\<lambda>rows. org_dailys_update (\<lambda>_. rows)"
  by unfold_locales (simp_all add: org_key_def org_merge_def)

interpretation users: stored_table us_id user_key user_merge user_dailys "\<lambda>rows. user_dailys_update (\<lambda>_. rows)"
  by unfold_locales (simp_all add: user_key_def user_merge_def)

interpretation repos: stored_table rp_id repo_key repo_merge repo_dailys "\<lambda>rows. repo_dailys_update (\<lambda>_. rows)"
  by unfold_locales (simp_all add: repo_key_def repo_merge_def)

interpretation teams: stored_table tm_id team_key team_merge user_teams "\<lambda>rows. user_teams_update (\<lambda>_. rows)"
  by unfold_locales (simp_all add: team_key_def team_merge_def)

interpretation seats: stored_table sn_id seat_key seat_merge seat_snapshots "\<lambda>rows. seat_snapshots_update (\<lambda>_. rows)"
  by unfold_locales (simp_all add: seat_key_def seat_merge_def)

interpretation manifests: keyed_table mf_id manifest_key "manifest_merge now" for now
  by unfold_locales (simp_all add: manifest_key_def manifest_merge_def)

text \<open>The time a report was first recorded is never rewritten.\<close>

interpretation manifest_start: history_table mf_id manifest_key "manifest_merge now" mf_started_at for now
  by unfold_locales (simp add: manifest_merge_def)

end
