(* ===== verification/Gov_Emit.thy ===== *)
theory Gov_Emit
  imports Gov_Report
begin

text \<open>
  The day-grain sink of \<open>app/governance-ctl\<close> (\<open>emit/\<close>): normalized rows encoded as OTLP log records, the
  organization's cost summed from its users, the guard against records that would merge at the receiver,
  and the accounting of what an export accepted.

  The OpenTelemetry SDK is a parameter: \<open>sk_flush\<close> is the answer of the next \<open>force_flush\<close>. The records
  handed to it are the sink's state.
\<close>

section \<open>Encoding\<close>

datatype attr_value = AStr string | AInt int

record log_record_data =
  lg_body :: string
  lg_attributes :: "(string \<times> attr_value) list"

text \<open>Errors of the command line tool.\<close>

datatype ctl_error =
    Copilot_failed copilot_error
  | Store_failed db_error
  | Count_overflow nat
  | Collisions "((string \<times> string \<times> string) \<times> nat) list"
  | Flush_failed string
  | No_sink string
  | Invalid_day string
  | Inverted_range int int
  | Archive_unreadable string
  | Frozen
  | Unconfirmed
  | Blocked nat

definition SOURCE :: string where
  "SOURCE = ''github-copilot''"

text \<open>\<open>i64::try_from\<close> on a count.\<close>

definition checked_count :: "nat \<Rightarrow> ctl_error + int" where
  "checked_count v = (if v \<le> 9223372036854775807 then Inr (int v) else Inl (Count_overflow v))"

definition common :: "string \<Rightarrow> string \<Rightarrow> string \<Rightarrow> string \<Rightarrow> string \<Rightarrow> string \<Rightarrow> (string \<times> attr_value) list" where
  "common tenant org report day kind subject =
     [(''source'', AStr SOURCE), (''tenant_id'', AStr tenant), (''org'', AStr org), (''report'', AStr report),
      (''day'', AStr day), (''subject_kind'', AStr kind), (''subject_id'', AStr subject)]"

definition encode_org_daily ::
  "string \<Rightarrow> string \<Rightarrow> org_daily \<Rightarrow> nat \<Rightarrow> int \<Rightarrow> ctl_error + log_record_data" where
  "encode_org_daily tenant org row credits cost =
     res_bind (checked_count (od_active_users row)) (\<lambda>active.
     res_bind (checked_count (od_engaged_users row)) (\<lambda>engaged.
     res_bind (checked_count (od_total_interactions row)) (\<lambda>interactions.
     res_bind (checked_count (od_total_completions row)) (\<lambda>completions.
     res_bind (checked_count credits) (\<lambda>cr.
       Inr \<lparr>lg_body = ''org '' @ od_organization_id row @ '' '' @ od_report_day row @ '': '' @
               show_nat (od_active_users row) @ '' active, '' @ show_nat (od_engaged_users row) @ '' engaged, '' @
               show_nat (od_total_interactions row) @ '' interactions'',
            lg_attributes =
              common tenant org ''organization-1-day'' (od_report_day row) ''org'' (od_organization_id row) @
              [(''active_users'', AInt active), (''engaged_users'', AInt engaged),
               (''total_interactions'', AInt interactions), (''total_completions'', AInt completions),
               (''ai_credits'', AInt cr), (''net_cost_micro_usd'', AInt cost)]\<rparr>)))))"

definition encode_user_daily :: "string \<Rightarrow> string \<Rightarrow> user_daily \<Rightarrow> ctl_error + log_record_data" where
  "encode_user_daily tenant org row =
     res_bind (checked_count (ud_total_interactions row)) (\<lambda>interactions.
     res_bind (checked_count (ud_total_completions row)) (\<lambda>completions.
     res_bind (checked_count (ud_ai_credits row)) (\<lambda>cr.
       Inr \<lparr>lg_body = ''user '' @ ud_provider_user_id row @ '' '' @ ud_report_day row @ '': '' @
               show_nat (ud_total_interactions row) @ '' interactions, '' @
               show_nat (ud_total_completions row) @ '' completions'',
            lg_attributes =
              common tenant org ''users-1-day'' (ud_report_day row) ''user'' (ud_provider_user_id row) @
              [(''user_login'', AStr (ud_user_login row)), (''total_interactions'', AInt interactions),
               (''total_completions'', AInt completions), (''ai_credits'', AInt cr),
               (''net_cost_micro_usd'', AInt (ud_net_cost row))]\<rparr>)))"

definition encode_repo_daily :: "string \<Rightarrow> string \<Rightarrow> repo_daily \<Rightarrow> ctl_error + log_record_data" where
  "encode_repo_daily tenant org row =
     res_bind (checked_count (rd_coding_agent_activity row)) (\<lambda>coding.
     res_bind (checked_count (rd_code_review_activity row)) (\<lambda>review.
     res_bind (checked_count (rd_pull_request_activity row)) (\<lambda>pr.
       Inr \<lparr>lg_body = ''repo '' @ rd_repository_id row @ '' '' @ rd_report_day row @ '': '' @
               show_nat (rd_coding_agent_activity row) @ '' coding, '' @
               show_nat (rd_code_review_activity row) @ '' review, '' @
               show_nat (rd_pull_request_activity row) @ '' pr'',
            lg_attributes =
              common tenant org ''repos-1-day'' (rd_report_day row) ''repo'' (rd_repository_id row) @
              [(''coding_agent_activity'', AInt coding), (''code_review_activity'', AInt review),
               (''pull_request_activity'', AInt pr)]\<rparr>)))"

definition encode_seat :: "report_lib \<Rightarrow> string \<Rightarrow> string \<Rightarrow> seat_snapshot \<Rightarrow> log_record_data" where
  "encode_seat lib tenant org row =
     \<lparr>lg_body = ''seat '' @ ss_provider_user_id row @ '' ('' @ ss_user_login row @ '') '' @ ss_seat_state row @
         '' '' @ ss_snapshot_day row,
      lg_attributes =
        common tenant org ''billing-seats'' (ss_snapshot_day row) ''org'' org @
        [(''provider_user_id'', AStr (ss_provider_user_id row)), (''user_login'', AStr (ss_user_login row))] @
        (case ss_seat_assigned_at row of None \<Rightarrow> [] | Some t \<Rightarrow> [(''seat_assigned_at'', AStr (rl_show_time lib t))]) @
        (case ss_last_activity_at row of None \<Rightarrow> [] | Some t \<Rightarrow> [(''last_activity_at'', AStr (rl_show_time lib t))]) @
        (case ss_last_activity_editor row of None \<Rightarrow> [] | Some e \<Rightarrow> [(''last_activity_editor'', AStr e)]) @
        [(''seat_state'', AStr (ss_seat_state row))]\<rparr>"

definition encode_user_team :: "string \<Rightarrow> string \<Rightarrow> user_team \<Rightarrow> log_record_data" where
  "encode_user_team tenant org row =
     \<lparr>lg_body = ''user '' @ ut_user_id row @ '' -> team '' @ ut_team_id row @ '' ('' @ ut_team_slug row @ '') '' @
         ut_report_day row,
      lg_attributes =
        common tenant org ''user-teams-1-day'' (ut_report_day row) ''user_team'' (ut_user_id row) @
        [(''team_id'', AStr (ut_team_id row)), (''team_slug'', AStr (ut_team_slug row))]\<rparr>"

text \<open>\<open>collect::<Result<Vec<_>>>\<close>.\<close>

fun res_map :: "('a \<Rightarrow> 'e + 'b) \<Rightarrow> 'a list \<Rightarrow> 'e + 'b list" where
  "res_map f [] = Inr []"
| "res_map f (x # xs) = res_bind (f x) (\<lambda>y. res_bind (res_map f xs) (\<lambda>ys. Inr (y # ys)))"

fun encode_report :: "report_lib \<Rightarrow> string \<Rightarrow> string \<Rightarrow> nat \<Rightarrow> int \<Rightarrow> parsed_rows \<Rightarrow>
    ctl_error + (string \<times> log_record_data list)" where
  "encode_report lib tenant org credits cost (Org_rows rs) =
     res_bind (res_map (\<lambda>r. encode_org_daily tenant org r credits cost) rs) (\<lambda>recs. Inr (''organization-1-day'', recs))"
| "encode_report lib tenant org credits cost (User_rows rs) =
     res_bind (res_map (encode_user_daily tenant org) rs) (\<lambda>recs. Inr (''users-1-day'', recs))"
| "encode_report lib tenant org credits cost (Repo_rows rs) =
     res_bind (res_map (encode_repo_daily tenant org) rs) (\<lambda>recs. Inr (''repos-1-day'', recs))"
| "encode_report lib tenant org credits cost (Team_rows rs) =
     Inr (''user-teams-1-day'', map (encode_user_team tenant org) rs)"
| "encode_report lib tenant org credits cost (Seat_rows rs) =
     Inr (''billing-seats'', map (encode_seat lib tenant org) rs)"

section \<open>Cost of the organization\<close>

definition sat_add_i64 :: "int \<Rightarrow> int \<Rightarrow> int" where
  "sat_add_i64 a b = max (- 9223372036854775808) (min 9223372036854775807 (a + b))"

definition add_user_cost :: "user_daily \<Rightarrow> nat \<times> int \<Rightarrow> nat \<times> int" where
  "add_user_cost r acc = (sat_add (fst acc) (ud_ai_credits r), sat_add_i64 (snd acc) (ud_net_cost r))"

fun aggregate_from :: "nat \<times> int \<Rightarrow> parsed_rows list \<Rightarrow> nat \<times> int" where
  "aggregate_from acc [] = acc"
| "aggregate_from acc (p # ps) =
     aggregate_from (case p of User_rows rs \<Rightarrow> fold add_user_cost rs acc | _ \<Rightarrow> acc) ps"

definition aggregate_org_cost :: "parsed_rows list \<Rightarrow> nat \<times> int" where
  "aggregate_org_cost rows = aggregate_from (0, 0) rows"

section \<open>Collisions\<close>

definition attr_str :: "(string \<times> attr_value) list \<Rightarrow> string \<Rightarrow> string option" where
  "attr_str attrs key =
     (case find (\<lambda>a. fst a = key) attrs of Some (_, AStr s) \<Rightarrow> Some s | _ \<Rightarrow> None)"

definition attr_or_empty :: "(string \<times> attr_value) list \<Rightarrow> string \<Rightarrow> string" where
  "attr_or_empty attrs key = (case attr_str attrs key of None \<Rightarrow> [] | Some s \<Rightarrow> s)"

definition collision_key :: "log_record_data \<Rightarrow> string \<times> string \<times> string" where
  "collision_key rec =
     (let report = attr_or_empty (lg_attributes rec) ''report'' in
      (report, attr_or_empty (lg_attributes rec) ''day'',
       if report = ''billing-seats'' then attr_or_empty (lg_attributes rec) ''provider_user_id''
       else attr_or_empty (lg_attributes rec) ''subject_id''))"

text \<open>The map from keys to counts; the order in which its entries appear in the message is the map's, here
  that of first occurrence.\<close>

definition bump :: "'k \<Rightarrow> ('k \<times> nat) list \<Rightarrow> ('k \<times> nat) list" where
  "bump k m = AList.update k (case map_of m k of None \<Rightarrow> 1 | Some n \<Rightarrow> Suc n) m"

definition seen_counts :: "log_record_data list \<Rightarrow> ((string \<times> string \<times> string) \<times> nat) list" where
  "seen_counts recs = fold (\<lambda>r. bump (collision_key r)) recs []"

definition detect_collisions :: "log_record_data list \<Rightarrow> bool \<Rightarrow> ctl_error + unit" where
  "detect_collisions recs strict =
     (let dupes = filter (\<lambda>e. snd e > 1) (seen_counts recs) in
      if dupes = [] then Inr ()
      else if strict then Inl (Collisions dupes)
      else Inr ())"

section \<open>The sink\<close>

record sink_state =
  sk_handed :: "log_record_data list"
  sk_accepted :: "(string \<times> nat) list"
  sk_rejected :: nat
  sk_flushes :: nat

record sink_lib =
  sk_flush :: "nat \<Rightarrow> string option"
  sk_report :: report_lib

text \<open>The records of a day and the count per report. The team report is left out.\<close>

fun encode_all :: "report_lib \<Rightarrow> string \<Rightarrow> string \<Rightarrow> nat \<Rightarrow> int \<Rightarrow> parsed_rows list \<Rightarrow>
    ctl_error + (log_record_data list \<times> (string \<times> nat) list)" where
  "encode_all lib tenant org credits cost [] = Inr ([], [])"
| "encode_all lib tenant org credits cost (p # ps) =
     (case p of
        Team_rows _ \<Rightarrow> encode_all lib tenant org credits cost ps
      | _ \<Rightarrow>
          res_bind (encode_report lib tenant org credits cost p) (\<lambda>(report, recs).
          res_bind (encode_all lib tenant org credits cost ps) (\<lambda>(more_recs, counts).
            Inr (recs @ more_recs, (report, length recs) # counts))))"

definition emit_rows :: "sink_lib \<Rightarrow> string \<Rightarrow> string \<Rightarrow> parsed_rows list \<Rightarrow> bool \<Rightarrow>
    sink_state \<Rightarrow> (ctl_error + nat) \<times> sink_state" where
  "emit_rows sl tenant org rows strict sk =
     (let (credits, cost) = aggregate_org_cost rows in
      case encode_all (sk_report sl) tenant org credits cost rows of
        Inl e \<Rightarrow> (Inl e, sk)
      | Inr (recs, per_report) \<Rightarrow>
          (case detect_collisions recs strict of
             Inl e \<Rightarrow> (Inl e, sk)
           | Inr _ \<Rightarrow>
               (let sk1 = sk\<lparr>sk_handed := sk_handed sk @ recs, sk_flushes := Suc (sk_flushes sk)\<rparr> in
                case sk_flush sl (sk_flushes sk) of
                  None \<Rightarrow> (Inr (length recs), sk1\<lparr>sk_accepted := sk_accepted sk1 @ per_report\<rparr>)
                | Some e \<Rightarrow> (Inl (Flush_failed e), sk1\<lparr>sk_rejected := sk_rejected sk1 + length recs\<rparr>))))"

section \<open>Laws\<close>

lemma res_map_Inr_length: "res_map f xs = Inr ys \<Longrightarrow> length ys = length xs"
  by (induction xs arbitrary: ys) (auto simp: res_bind_eq_Inr)

lemma res_map_Inr_nth: "res_map f xs = Inr ys \<Longrightarrow> i < length xs \<Longrightarrow> f (xs ! i) = Inr (ys ! i)"
  by (induction xs arbitrary: ys i) (auto simp: res_bind_eq_Inr nth_Cons split: nat.splits)

lemma map_of_bump: "map_of (bump k m) j = (if j = k then Some (case map_of m k of None \<Rightarrow> 1 | Some n \<Rightarrow> Suc n) else map_of m j)"
  by (simp add: bump_def update_conv')

lemma seen_counts_fold:
  "map_of (fold (\<lambda>r. bump (f r)) recs m) k =
     (case map_of m k of
        None \<Rightarrow> if k \<in> f ` set recs then Some (length (filter (\<lambda>r. f r = k) recs)) else None
      | Some n \<Rightarrow> Some (n + length (filter (\<lambda>r. f r = k) recs)))"
proof (induction recs arbitrary: m)
  case (Cons r recs)
  show ?case
    using Cons.IH [of "bump (f r) m"]
    by (cases "map_of m k"; cases "k = f r") (auto simp: map_of_bump filter_empty_conv)
qed (auto split: option.splits)

lemma keys_bump: "distinct (map fst m) \<Longrightarrow> distinct (map fst (bump k m))"
  by (simp add: bump_def distinct_update)

lemma keys_fold_bump: "distinct (map fst m) \<Longrightarrow> distinct (map fst (fold (\<lambda>r. bump (f r)) recs m))"
  by (induction recs arbitrary: m) (auto simp: keys_bump)

text \<open>The guard passes a strict batch exactly when no two of its records share their key.\<close>

lemma count_le_1_iff_distinct:
  "(\<forall>k. length (filter (\<lambda>r. f r = k) recs) \<le> 1) \<longleftrightarrow> distinct (map f recs)"
proof
  assume a: "\<forall>k. length (filter (\<lambda>r. f r = k) recs) \<le> 1"
  show "distinct (map f recs)"
    using a
  proof (induction recs)
    case (Cons r recs)
    have "length (filter (\<lambda>x. f x = k) recs) \<le> 1" for k
      using Cons.prems [rule_format, of k] by (auto split: if_splits)
    moreover have "f r \<notin> f ` set recs"
      using Cons.prems [rule_format, of "f r"] by (auto simp: filter_empty_conv)
    ultimately show ?case using Cons.IH by simp
  qed simp
next
  assume "distinct (map f recs)"
  then show "\<forall>k. length (filter (\<lambda>r. f r = k) recs) \<le> 1"
    by (induction recs) (auto simp: filter_empty_conv image_iff le_Suc_eq)
qed

lemma detect_collisions_strict:
  "detect_collisions recs True = Inr () \<longleftrightarrow> distinct (map collision_key recs)"
proof -
  let ?m = "seen_counts recs"
  have d: "distinct (map fst ?m)" by (simp add: seen_counts_def keys_fold_bump)
  have "filter (\<lambda>e. snd e > 1) ?m = [] \<longleftrightarrow> (\<forall>k. length (filter (\<lambda>r. collision_key r = k) recs) \<le> 1)"
  proof
    assume f: "filter (\<lambda>e. snd e > 1) ?m = []"
    show "\<forall>k. length (filter (\<lambda>r. collision_key r = k) recs) \<le> 1"
    proof
      fix k
      show "length (filter (\<lambda>r. collision_key r = k) recs) \<le> 1"
      proof (cases "k \<in> collision_key ` set recs")
        case True
        then have "map_of ?m k = Some (length (filter (\<lambda>r. collision_key r = k) recs))"
          by (simp add: seen_counts_def seen_counts_fold)
        then have "(k, length (filter (\<lambda>r. collision_key r = k) recs)) \<in> set ?m"
          by (rule map_of_SomeD)
        with f show ?thesis by (auto simp: filter_empty_conv)
      next
        case False
        then have "filter (\<lambda>r. collision_key r = k) recs = []" by (auto simp: filter_empty_conv)
        then show ?thesis by simp
      qed
    qed
  next
    assume a: "\<forall>k. length (filter (\<lambda>r. collision_key r = k) recs) \<le> 1"
    show "filter (\<lambda>e. snd e > 1) ?m = []"
    proof (rule ccontr)
      assume "filter (\<lambda>e. snd e > 1) ?m \<noteq> []"
      then obtain k n where "(k, n) \<in> set ?m" "n > 1" by (auto simp: filter_empty_conv)
      with d have "map_of ?m k = Some n" by simp
      then have "n = length (filter (\<lambda>r. collision_key r = k) recs)"
        by (auto simp: seen_counts_def seen_counts_fold split: if_splits)
      with a \<open>n > 1\<close> show False by (metis not_le)
    qed
  qed
  then have "filter (\<lambda>e. snd e > 1) ?m = [] \<longleftrightarrow> distinct (map collision_key recs)"
    by (simp only: count_le_1_iff_distinct)
  then show ?thesis by (simp add: detect_collisions_def Let_def del: One_nat_def)
qed

end
