(* ===== verification/Gov_Github.thy ===== *)
theory Gov_Github
  imports Gov_Store Gov_Emit Daemon_Receive
begin

text \<open>
  The GitHub side of the Copilot connector: the client with its bounded retry (\<open>client.rs\<close>), the exchange
  of the App's key for an installation token (\<open>auth.rs\<close>), the download of a report behind its signed link
  (\<open>report.rs\<close>) and the paginated listing of seats (\<open>seats.rs\<close>).

  GitHub is a parameter: \<open>gh_send\<close> gives the outcome of every request in turn. So are the decoding of a
  body's text by \<open>reqwest\<close>, and the signing of the App's token, which are not under \<open>src/\<close>.
\<close>

section \<open>Requests\<close>

record gh_request =
  rq_post :: bool
  rq_url :: string
  rq_bearer :: "string option"

text \<open>A response: the status, the headers the sources read, and the chunks of its body, after which the
  stream ends or breaks.\<close>

record gh_response =
  hp_status :: nat
  hp_retry_after :: "string option"
  hp_link :: "string option"
  hp_content_length :: "nat option"
  hp_chunks :: "string list"
  hp_broken :: bool

text \<open>A request without a response failed to connect or timed out, or failed in another way.\<close>

datatype gh_outcome = Gh_response gh_response | Gh_failed bool

record gh_lib =
  gh_send :: "nat \<Rightarrow> gh_request \<Rightarrow> gh_outcome"
  gh_text :: "string \<Rightarrow> string"
  gh_jwt :: "nat \<Rightarrow> string \<Rightarrow> copilot_error + string"
  gh_api_base :: string
  gh_report :: report_lib

text \<open>The state of a run: the connection to the database, the requests sent, the delays slept through in
  milliseconds, the archive with the number of writes to it, the number of App tokens minted, the bytes
  captured for the sink, and the sink.\<close>

record col_state =
  cs_conn :: "copilot_db conn"
  cs_requests :: "gh_request list"
  cs_waits :: "nat list"
  cs_archive :: "(string, string) hmap"
  cs_writes :: nat
  cs_minted :: nat
  cs_captured :: "(string \<times> string) list"
  cs_sink :: sink_state

type_synonym ('e, 'a) runop = "col_state \<Rightarrow> ('e + 'a) \<times> col_state"
type_synonym 'a colop = "(copilot_error, 'a) runop"

definition col_fail :: "'e \<Rightarrow> ('e, 'a) runop" where
  "col_fail e s = (Inl e, s)"

definition col_lift :: "'e + 'a \<Rightarrow> ('e, 'a) runop" where
  "col_lift r s = (r, s)"

text \<open>An operation of the store, in a run.\<close>

definition with_db :: "(copilot_db conn \<Rightarrow> ('e + 'a) \<times> copilot_db conn) \<Rightarrow> ('e, 'a) runop" where
  "with_db f s = (case f (cs_conn s) of (r, c) \<Rightarrow> (r, s\<lparr>cs_conn := c\<rparr>))"

section \<open>Retry\<close>

definition MAX_ATTEMPTS :: nat where
  "MAX_ATTEMPTS = 3"

definition RETRY_BASE_DELAY :: nat where
  "RETRY_BASE_DELAY = 500"

definition RETRY_MAX_DELAY :: nat where
  "RETRY_MAX_DELAY = 30000"

definition is_retryable_status :: "nat \<Rightarrow> bool" where
  "is_retryable_status st \<longleftrightarrow> 500 \<le> st \<and> st < 600 \<or> st = 429"

definition retry_delay :: "nat \<Rightarrow> string option \<Rightarrow> nat" where
  "retry_delay attempt hint =
     (case Option.bind hint (\<lambda>v. parse_u64 (str_trim v)) of
        Some secs \<Rightarrow> min (1000 * unat secs) RETRY_MAX_DELAY
      | None \<Rightarrow> min (RETRY_BASE_DELAY * min (2 ^ (attempt - 1)) 4294967295) RETRY_MAX_DELAY)"

function send_attempts :: "gh_lib \<Rightarrow> gh_request \<Rightarrow> nat \<Rightarrow> gh_response colop" where
  "send_attempts gh rq attempt s =
     (let s1 = s\<lparr>cs_requests := cs_requests s @ [rq]\<rparr> in
      case gh_send gh (length (cs_requests s)) rq of
        Gh_response resp \<Rightarrow>
          (if is_retryable_status (hp_status resp) \<and> attempt < MAX_ATTEMPTS
           then send_attempts gh rq (attempt + 1)
                  (s1\<lparr>cs_waits := cs_waits s1 @ [retry_delay attempt (hp_retry_after resp)]\<rparr>)
           else (Inr resp, s1))
      | Gh_failed transient \<Rightarrow>
          (if transient \<and> attempt < MAX_ATTEMPTS
           then send_attempts gh rq (attempt + 1)
                  (s1\<lparr>cs_waits := cs_waits s1 @ [retry_delay attempt None]\<rparr>)
           else (Inl Transport_error, s1)))"
  by pat_completeness auto
termination by (relation "measure (\<lambda>(_, _, a, _). MAX_ATTEMPTS - a)") auto

declare send_attempts.simps [simp del]

definition send_with_retry :: "gh_lib \<Rightarrow> gh_request \<Rightarrow> gh_response colop" where
  "send_with_retry gh rq = send_attempts gh rq 1"

text \<open>\<open>Response::text\<close>.\<close>

definition body_text :: "gh_lib \<Rightarrow> gh_response \<Rightarrow> copilot_error + string" where
  "body_text gh resp =
     (if hp_broken resp then Inl Transport_error else Inr (gh_text gh (concat (hp_chunks resp))))"

text \<open>A document keeps the last of several entries with one name. The tree \<open>rl_json\<close> gives has them
  all.\<close>

definition value_get :: "string \<Rightarrow> json \<Rightarrow> json option" where
  "value_get k v = (case v of JObject es \<Rightarrow> map_of (rev es) k | _ \<Rightarrow> None)"

definition gh_message :: "json \<Rightarrow> string" where
  "gh_message v =
     (case Option.bind (value_get ''message'' v) as_str_val of None \<Rightarrow> ''no message'' | Some m \<Rightarrow> m)"

section \<open>Authentication\<close>

definition app_jwt :: "gh_lib \<Rightarrow> string \<Rightarrow> string colop" where
  "app_jwt gh app_id s = (gh_jwt gh (cs_minted s) app_id, s\<lparr>cs_minted := Suc (cs_minted s)\<rparr>)"

fun has_infix :: "string \<Rightarrow> string \<Rightarrow> bool" where
  "has_infix p [] \<longleftrightarrow> p = []"
| "has_infix p (c # s) \<longleftrightarrow> starts_with p (c # s) \<or> has_infix p s"

definition kind_for :: "string \<Rightarrow> string" where
  "kind_for url = (if has_infix ''/app/installations'' url then ''app/installations'' else ''github'')"

definition gh_get :: "gh_lib \<Rightarrow> string \<Rightarrow> string \<Rightarrow> (nat \<times> json) colop" where
  "gh_get gh url bearer =
     db_bind (send_with_retry gh \<lparr>rq_post = False, rq_url = url, rq_bearer = Some bearer\<rparr>)
       (\<lambda>resp. db_bind (col_lift (body_text gh resp))
          (\<lambda>t. case rl_json (gh_report gh) t of
             Inr j \<Rightarrow> db_return (hp_status resp, j)
           | Inl msg \<Rightarrow>
               col_fail (Github (kind_for url) (hp_status resp)
                 (if hp_status resp = 200 then msg else ''unparseable (non-JSON) error body''))))"

fun find_installation :: "string \<Rightarrow> json list \<Rightarrow> nat option" where
  "find_installation org [] = None"
| "find_installation org (ins # rest) =
     (let account =
        (case Option.bind (Option.bind (value_get ''account'' ins) (value_get ''login'')) as_str_val of
           None \<Rightarrow> [] | Some l \<Rightarrow> to_ascii_lowercase l) in
      if account \<noteq> org then find_installation org rest
      else case Option.bind (value_get ''id'' ins) as_u64 of
        Some i \<Rightarrow> Some i
      | None \<Rightarrow> find_installation org rest)"

definition installation_id :: "gh_lib \<Rightarrow> string \<Rightarrow> string \<Rightarrow> string colop" where
  "installation_id gh app_id org =
     db_bind (app_jwt gh app_id)
       (\<lambda>jwt. db_bind (gh_get gh (gh_api_base gh @ ''/app/installations'') jwt)
          (\<lambda>(st, j).
             if st \<noteq> 200 then col_fail (Github ''app/installations'' st (gh_message j))
             else
               (let lorg = to_ascii_lowercase org in
                case find_installation lorg (case as_array j of None \<Rightarrow> [] | Some xs \<Rightarrow> xs) of
                  Some i \<Rightarrow> db_return (show_nat i)
                | None \<Rightarrow> col_fail (Token_error (''no App installation found for org '' @ lorg)))))"

definition token_for_org :: "gh_lib \<Rightarrow> string \<Rightarrow> string \<Rightarrow> string colop" where
  "token_for_org gh app_id org =
     db_bind (installation_id gh app_id org)
       (\<lambda>i. db_bind (app_jwt gh app_id)
         (\<lambda>jwt. db_bind (send_with_retry gh \<lparr>rq_post = True,
               rq_url = gh_api_base gh @ ''/app/installations/'' @ i @ ''/access_tokens'', rq_bearer = Some jwt\<rparr>)
           (\<lambda>resp. db_bind (col_lift (body_text gh resp))
             (\<lambda>t. case rl_json (gh_report gh) t of
                 Inl msg \<Rightarrow> col_fail (Token_error (''token response: '' @ msg))
               | Inr j \<Rightarrow>
                   (if hp_status resp \<noteq> 201
                    then col_fail (Github ''app/installations/{id}/access_tokens'' (hp_status resp) (gh_message j))
                    else case Option.bind (value_get ''token'' j) as_str_val of
                      None \<Rightarrow> col_fail (Token_error ''no token in response'')
                    | Some tok \<Rightarrow> db_return tok)))))"

section \<open>Bodies under a cap\<close>

text \<open>The body is read chunk by chunk; the first chunk that would exceed the cap ends the read with the
  size that was about to be reached.\<close>

datatype capped = Body string | Over nat | Broken

fun read_chunks :: "nat \<Rightarrow> string \<Rightarrow> string list \<Rightarrow> bool \<Rightarrow> capped" where
  "read_chunks cap acc [] broken = (if broken then Broken else Body acc)"
| "read_chunks cap acc (ch # chs) broken =
     (if length acc + length ch > cap then Over (length acc + length ch)
      else read_chunks cap (acc @ ch) chs broken)"

definition read_capped :: "nat \<Rightarrow> gh_response \<Rightarrow> capped" where
  "read_capped cap resp =
     (case hp_content_length resp of
        Some len \<Rightarrow>
          (if len > cap then Over len else read_chunks cap [] (hp_chunks resp) (hp_broken resp))
      | None \<Rightarrow> read_chunks cap [] (hp_chunks resp) (hp_broken resp))"

section \<open>Reports\<close>

record downloaded_report =
  dr_bytes :: string
  dr_host :: "string option"
  dr_empty :: bool

definition MAX_REPORT_BYTES :: nat where
  "MAX_REPORT_BYTES = 67108864"

text \<open>\<open>signed.split("://").nth(1)\<close>, and of it the part before the first slash.\<close>

fun split_once_str :: "string \<Rightarrow> string \<Rightarrow> (string \<times> string) option" where
  "split_once_str sep [] = None"
| "split_once_str sep (c # s) =
     (if starts_with sep (c # s) then Some ([], drop (length sep) (c # s))
      else map_option (\<lambda>(l, r). (c # l, r)) (split_once_str sep s))"

definition url_host :: "string \<Rightarrow> string option" where
  "url_host url =
     map_option (\<lambda>(_, r). takeWhile (\<lambda>c. c \<noteq> CHR ''/'')
         (case split_once_str ''://'' r of None \<Rightarrow> r | Some (l, _) \<Rightarrow> l))
       (split_once_str ''://'' url)"

definition fetch_report :: "gh_lib \<Rightarrow> string \<Rightarrow> string \<Rightarrow> string \<Rightarrow> string \<Rightarrow> downloaded_report colop" where
  "fetch_report gh org report day token =
     db_bind (send_with_retry gh \<lparr>rq_post = False,
         rq_url = gh_api_base gh @ ''/orgs/'' @ org @ ''/copilot/metrics/reports/'' @ report @ ''?day='' @ day,
         rq_bearer = Some token\<rparr>)
       (\<lambda>resp.
          if hp_status resp = 204
          then db_return \<lparr>dr_bytes = [], dr_host = None, dr_empty = True\<rparr>
          else db_bind (col_lift (body_text gh resp))
            (\<lambda>t.
               if hp_status resp \<noteq> 200
               then col_fail (Github ''copilot/metrics/reports/{report}'' (hp_status resp)
                      (gh_message (case rl_json (gh_report gh) t of Inl _ \<Rightarrow> JNull | Inr j \<Rightarrow> j)))
               else case (case rl_json (gh_report gh) t of Inl _ \<Rightarrow> None | Inr j \<Rightarrow> de_report_envelope j) of
                 None \<Rightarrow> col_fail (Parse_error report day)
               | Some env \<Rightarrow>
                   (case download_url env of
                      None \<Rightarrow> col_fail (Parse_error report day)
                    | Some link \<Rightarrow>
                        db_bind (send_with_retry gh \<lparr>rq_post = False, rq_url = link, rq_bearer = None\<rparr>)
                          (\<lambda>dl.
                             if \<not> (200 \<le> hp_status dl \<and> hp_status dl < 300)
                             then col_fail (Github ''copilot-reports download'' (hp_status dl)
                                    ''signed download returned a non-success status'')
                             else case read_capped MAX_REPORT_BYTES dl of
                               Over n \<Rightarrow> col_fail (Report_too_large report day n MAX_REPORT_BYTES)
                             | Broken \<Rightarrow> col_fail Transport_error
                             | Body bytes \<Rightarrow>
                                 db_return \<lparr>dr_bytes = bytes, dr_host = url_host link,
                                   dr_empty = (bytes = [])\<rparr>))))"

section \<open>Seats\<close>

definition SEATS_PER_PAGE :: nat where
  "SEATS_PER_PAGE = 100"

definition MAX_SEAT_PAGES :: nat where
  "MAX_SEAT_PAGES = 200"

definition MAX_SEATS_PAGE_BYTES :: nat where
  "MAX_SEATS_PAGE_BYTES = 16777216"

definition strip_suffix_char :: "char \<Rightarrow> string \<Rightarrow> string option" where
  "strip_suffix_char c s = (if s \<noteq> [] \<and> last s = c then Some (butlast s) else None)"

definition link_entry :: "string \<Rightarrow> string option" where
  "link_entry ent =
     (case map str_trim (split_char (CHR '';'') ent) of
        [] \<Rightarrow> None
      | bracketed # segments \<Rightarrow>
          (if list_ex (\<lambda>s. eq_ignore_ascii_case s ''rel=\"next\"'') segments
           then Option.bind (strip_prefix ''<'' bracketed) (strip_suffix_char (CHR ''>''))
           else None))"

fun find_map :: "('a \<Rightarrow> 'b option) \<Rightarrow> 'a list \<Rightarrow> 'b option" where
  "find_map f [] = None"
| "find_map f (x # xs) = (case f x of Some y \<Rightarrow> Some y | None \<Rightarrow> find_map f xs)"

definition next_link_url :: "string \<Rightarrow> string option" where
  "next_link_url header = find_map link_entry (split_char (CHR '','') header)"

definition to_archive_bytes :: "string list \<Rightarrow> string" where
  "to_archive_bytes pages = ''['' @ join_with '','' pages @ '']''"

definition seats_error :: "nat \<Rightarrow> string \<Rightarrow> copilot_error" where
  "seats_error st msg = Github ''copilot/billing/seats'' st msg"

function fetch_pages :: "gh_lib \<Rightarrow> string \<Rightarrow> nat \<Rightarrow> string option \<Rightarrow> string list \<Rightarrow> string list colop" where
  "fetch_pages gh token page_no next_url pages s =
     (case next_url of
        None \<Rightarrow> (Inr pages, s)
      | Some url \<Rightarrow>
          (if page_no + 1 > MAX_SEAT_PAGES
           then col_fail (seats_error 0 (''exceeded '' @ show_nat MAX_SEAT_PAGES @ '' pages without exhausting pagination; '' @
                  ''aborting rather than following a Link header forever'')) s
           else
             (case send_with_retry gh \<lparr>rq_post = False, rq_url = url, rq_bearer = Some token\<rparr> s of
                (Inl e, s1) \<Rightarrow> (Inl e, s1)
              | (Inr resp, s1) \<Rightarrow>
                  (case read_capped MAX_SEATS_PAGE_BYTES resp of
                     Over n \<Rightarrow> col_fail (seats_error 0 (''page '' @ show_nat (page_no + 1) @ '' body was '' @ show_nat n @
                         '' bytes, over the '' @ show_nat MAX_SEATS_PAGE_BYTES @ '' byte cap'')) s1
                   | Broken \<Rightarrow> col_fail Transport_error s1
                   | Body bytes \<Rightarrow>
                       (if hp_status resp \<noteq> 200
                        then col_fail (seats_error (hp_status resp)
                               (gh_message (case rl_json (gh_report gh) bytes of Inl _ \<Rightarrow> JNull | Inr j \<Rightarrow> j))) s1
                        else fetch_pages gh token (page_no + 1) (Option.bind (hp_link resp) next_link_url)
                               (pages @ [bytes]) s1)))))"
  by pat_completeness auto
termination by (relation "measure (\<lambda>(_, _, n, _). MAX_SEAT_PAGES - n)") auto

declare fetch_pages.simps [simp del]

definition fetch_seats :: "gh_lib \<Rightarrow> string \<Rightarrow> string \<Rightarrow> string list colop" where
  "fetch_seats gh org token =
     fetch_pages gh token 0
       (Some (gh_api_base gh @ ''/orgs/'' @ org @ ''/copilot/billing/seats?per_page='' @ show_nat SEATS_PER_PAGE @ ''&page=1''))
       []"

section \<open>Bounds\<close>

text \<open>What talking to GitHub leaves alone: the database, the archive and the sink.\<close>

definition same_stores :: "col_state \<Rightarrow> col_state \<Rightarrow> bool" where
  "same_stores s t \<longleftrightarrow> cs_conn t = cs_conn s \<and> cs_archive t = cs_archive s \<and> cs_writes t = cs_writes s \<and>
     cs_captured t = cs_captured s \<and> cs_sink t = cs_sink s"

lemma same_stores_refl [simp]: "same_stores s s"
  by (simp add: same_stores_def)

lemma same_stores_trans: "same_stores s t \<Longrightarrow> same_stores t u \<Longrightarrow> same_stores s u"
  by (simp add: same_stores_def)

lemma retry_delay_bound: "retry_delay attempt hint \<le> RETRY_MAX_DELAY"
  by (simp add: retry_delay_def split: option.split)

text \<open>A request is sent at most three times, with a bounded delay between two attempts.\<close>

lemma send_attempts_step:
  "send_attempts gh rq attempt s = (r, s') \<Longrightarrow>
     s' = s\<lparr>cs_requests := cs_requests s @ [rq]\<rparr> \<or>
     attempt < MAX_ATTEMPTS \<and>
     (\<exists>h. send_attempts gh rq (attempt + 1)
        (s\<lparr>cs_requests := cs_requests s @ [rq], cs_waits := cs_waits s @ [retry_delay attempt h]\<rparr>) = (r, s'))"
  by (auto simp: send_attempts.simps [of gh rq attempt s] Let_def split: gh_outcome.splits if_splits)

lemma send_attempts_bounds:
  assumes "send_attempts gh rq attempt s = (r, s')" and "attempt \<le> MAX_ATTEMPTS"
  shows "\<exists>n ws. cs_requests s' = cs_requests s @ replicate n rq \<and> 1 \<le> n \<and> n + attempt \<le> MAX_ATTEMPTS + 1 \<and>
     cs_waits s' = cs_waits s @ ws \<and> n = Suc (length ws) \<and> (\<forall>w \<in> set ws. w \<le> RETRY_MAX_DELAY) \<and>
     same_stores s s' \<and> cs_minted s' = cs_minted s"
  using assms
proof (induction "MAX_ATTEMPTS - attempt" arbitrary: attempt s rule: less_induct)
  case less
  from send_attempts_step [OF less.prems(1)] show ?case
  proof (elim disjE conjE exE)
    assume "s' = s\<lparr>cs_requests := cs_requests s @ [rq]\<rparr>"
    then show ?thesis
      using less.prems(2) by (intro exI [of _ 1] exI [of _ "[]"]) (simp add: same_stores_def)
  next
    fix h
    let ?s = "s\<lparr>cs_requests := cs_requests s @ [rq], cs_waits := cs_waits s @ [retry_delay attempt h]\<rparr>"
    assume a: "attempt < MAX_ATTEMPTS" and again: "send_attempts gh rq (attempt + 1) ?s = (r, s')"
    have "MAX_ATTEMPTS - (attempt + 1) < MAX_ATTEMPTS - attempt" "attempt + 1 \<le> MAX_ATTEMPTS" using a by simp_all
    from less.hyps [OF this(1) again this(2)]
    obtain n ws where "cs_requests s' = cs_requests ?s @ replicate n rq" "n + (attempt + 1) \<le> MAX_ATTEMPTS + 1"
      "cs_waits s' = cs_waits ?s @ ws" "n = Suc (length ws)" "\<forall>w \<in> set ws. w \<le> RETRY_MAX_DELAY"
      "same_stores ?s s'" "cs_minted s' = cs_minted ?s"
      by blast
    then show ?thesis
      by (intro exI [of _ "Suc n"] exI [of _ "retry_delay attempt h # ws"])
        (simp add: same_stores_def retry_delay_bound)
  qed
qed

lemma send_bounds:
  assumes "send_with_retry gh rq s = (r, s')"
  obtains n ws where "cs_requests s' = cs_requests s @ replicate n rq" "1 \<le> n" "n \<le> MAX_ATTEMPTS"
    "cs_waits s' = cs_waits s @ ws" "n = Suc (length ws)" "\<forall>w \<in> set ws. w \<le> RETRY_MAX_DELAY"
    "same_stores s s'"
proof -
  have "(1::nat) \<le> MAX_ATTEMPTS" by (simp add: MAX_ATTEMPTS_def)
  with send_attempts_bounds [OF assms [unfolded send_with_retry_def]] obtain n ws where
    "cs_requests s' = cs_requests s @ replicate n rq" "1 \<le> n" "n + 1 \<le> MAX_ATTEMPTS + 1"
    "cs_waits s' = cs_waits s @ ws" "n = Suc (length ws)" "\<forall>w \<in> set ws. w \<le> RETRY_MAX_DELAY"
    "same_stores s s'" by blast
  then show ?thesis by (intro that) simp_all
qed

lemma send_stores: "send_with_retry gh rq s = (r, s') \<Longrightarrow> same_stores s s'"
  by (elim send_bounds)

text \<open>A refusal that is not transient is returned after one request, and a transient one only after the
  last attempt.\<close>

lemma send_not_transient:
  assumes "gh_send gh (length (cs_requests s)) rq = Gh_response resp" and "\<not> is_retryable_status (hp_status resp)"
  shows "send_with_retry gh rq s = (Inr resp, s\<lparr>cs_requests := cs_requests s @ [rq]\<rparr>)"
  using assms by (simp add: send_with_retry_def send_attempts.simps Let_def)

lemma send_attempts_exhausts:
  assumes "send_attempts gh rq attempt s = (Inr resp, s')" and "is_retryable_status (hp_status resp)"
    and "attempt \<le> MAX_ATTEMPTS"
  shows "length (cs_requests s') = length (cs_requests s) + (MAX_ATTEMPTS + 1 - attempt)"
  using assms
proof (induction "MAX_ATTEMPTS - attempt" arbitrary: attempt s rule: less_induct)
  case less
  consider (last) "attempt = MAX_ATTEMPTS" "s' = s\<lparr>cs_requests := cs_requests s @ [rq]\<rparr>"
    | (again) h where "attempt < MAX_ATTEMPTS"
      "send_attempts gh rq (attempt + 1)
        (s\<lparr>cs_requests := cs_requests s @ [rq], cs_waits := cs_waits s @ [retry_delay attempt h]\<rparr>) = (Inr resp, s')"
    using less.prems
    by (auto simp: send_attempts.simps [of gh rq attempt s] Let_def split: gh_outcome.splits if_splits)
  then show ?case
  proof cases
    case last
    then show ?thesis by simp
  next
    case (again h)
    from less.hyps [OF _ again(2)] again(1) less.prems(2) show ?thesis by simp
  qed
qed

section \<open>Frames\<close>

text \<open>Operations that only talk to GitHub.\<close>

definition only_talks :: "('e, 'a) runop \<Rightarrow> bool" where
  "only_talks f \<longleftrightarrow> (\<forall>s r s'. f s = (r, s') \<longrightarrow> same_stores s s')"

lemma only_talksD: "only_talks f \<Longrightarrow> f s = (r, s') \<Longrightarrow> same_stores s s'"
  by (auto simp: only_talks_def)

named_theorems talks \<open>operations that leave the stores alone\<close>

lemma only_talks_simple [talks]:
  "only_talks (col_fail e)" "only_talks (col_lift r)" "only_talks (db_return a)"
  by (auto simp: only_talks_def col_fail_def col_lift_def db_return_def)

lemma only_talks_bind [talks]:
  assumes "only_talks m" and "\<And>a. only_talks (f a)"
  shows "only_talks (db_bind m f)"
  unfolding only_talks_def
proof (intro allI impI)
  fix s r s' assume b: "db_bind m f s = (r, s')"
  obtain r1 s1 where m: "m s = (r1, s1)" by (cases "m s")
  have 1: "same_stores s s1" by (rule only_talksD [OF assms(1) m])
  show "same_stores s s'"
  proof (cases r1)
    case (Inl e)
    with m b 1 show ?thesis by (simp add: db_bind_def)
  next
    case (Inr a)
    with m b have "f a s1 = (r, s')" by (simp add: db_bind_def)
    with assms(2) have "same_stores s1 s'" by (blast dest: only_talksD)
    with 1 show ?thesis by (rule same_stores_trans)
  qed
qed

lemma only_talks_send [talks]: "only_talks (send_with_retry gh rq)"
  by (auto simp: only_talks_def dest: send_stores)

lemma only_talks_jwt [talks]: "only_talks (app_jwt gh a)"
  by (auto simp: only_talks_def app_jwt_def same_stores_def)

lemma only_talks_get [talks]: "only_talks (gh_get gh url b)"
  unfolding gh_get_def by (intro talks) (auto split: sum.split intro!: talks)

lemma only_talks_installation [talks]: "only_talks (installation_id gh a org)"
  unfolding installation_id_def
  by (intro talks) (auto simp: Let_def split: option.split intro!: talks)

lemma only_talks_token [talks]: "only_talks (token_for_org gh a org)"
  unfolding token_for_org_def
  by (intro talks) (auto split: sum.split option.split intro!: talks)

lemma only_talks_fetch_report [talks]: "only_talks (fetch_report gh org report day token)"
  unfolding fetch_report_def
  by (intro talks) (auto split: option.split capped.split intro!: talks)

lemma fetch_pages_stores:
  "fetch_pages gh token page_no u pages s = (r, s') \<Longrightarrow> same_stores s s'"
proof (induction gh token page_no u pages s rule: fetch_pages.induct)
  case (1 gh token page_no u pages s)
  show ?case
  proof (cases "u = None \<or> page_no + 1 > MAX_SEAT_PAGES")
    case True
    with "1.prems" show ?thesis
      by (auto simp: fetch_pages.simps [of gh token page_no] col_fail_def split: option.splits if_splits)
  next
    case False
    then obtain url where u: "u = Some url" "\<not> page_no + 1 > MAX_SEAT_PAGES" by auto
    obtain r1 s1 where m: "send_with_retry gh \<lparr>rq_post = False, rq_url = url, rq_bearer = Some token\<rparr> s = (r1, s1)"
      by (cases "send_with_retry gh \<lparr>rq_post = False, rq_url = url, rq_bearer = Some token\<rparr> s")
    then have st: "same_stores s s1" by (rule send_stores)
    show ?thesis
    proof (cases "\<exists>resp bytes. r1 = Inr resp \<and> read_capped MAX_SEATS_PAGE_BYTES resp = Body bytes \<and> hp_status resp = 200")
      case True
      then obtain resp bytes where rb: "r1 = Inr resp" "read_capped MAX_SEATS_PAGE_BYTES resp = Body bytes"
        "hp_status resp = 200" by blast
      with "1.prems" m u have "fetch_pages gh token (page_no + 1) (Option.bind (hp_link resp) next_link_url)
          (pages @ [bytes]) s1 = (r, s')"
        by (simp add: fetch_pages.simps [of gh token page_no])
      with "1.IH" [OF u m [symmetric] rb(1,2)] rb(3) st show ?thesis by (blast intro: same_stores_trans)
    next
      case False
      with "1.prems" m u st show ?thesis
        by (auto simp: fetch_pages.simps [of gh token page_no] col_fail_def
            split: sum.splits capped.splits if_splits)
    qed
  qed
qed

lemma only_talks_fetch_seats [talks]: "only_talks (fetch_seats gh org token)"
  unfolding only_talks_def fetch_seats_def by (blast dest: fetch_pages_stores)

section \<open>Bodies and pages\<close>

lemma read_chunks_Body:
  "read_chunks cap acc chs broken = Body b \<Longrightarrow> length acc \<le> cap \<Longrightarrow> b = acc @ concat chs \<and> length b \<le> cap \<and> \<not> broken"
proof (induction chs arbitrary: acc)
  case (Cons ch chs)
  from Cons.prems have "length acc + length ch \<le> cap" "read_chunks cap (acc @ ch) chs broken = Body b"
    by (auto split: if_splits)
  with Cons.IH [of "acc @ ch"] show ?case by auto
qed (auto split: if_splits)

lemma read_capped_Body:
  "read_capped cap resp = Body b \<Longrightarrow> b = concat (hp_chunks resp) \<and> length b \<le> cap"
  by (auto simp: read_capped_def dest!: read_chunks_Body split: option.splits if_splits)

text \<open>Following the links ends: at most 200 pages are asked for, each at most three times.\<close>

lemma fetch_pages_bounds:
  assumes "fetch_pages gh token page_no u pages s = (r, s')" and "page_no \<le> MAX_SEAT_PAGES"
    and "length pages = page_no" and "\<forall>p \<in> set pages. length p \<le> MAX_SEATS_PAGE_BYTES"
  shows "length (cs_requests s') \<le> length (cs_requests s) + MAX_ATTEMPTS * (MAX_SEAT_PAGES - page_no) \<and>
     (\<forall>ps. r = Inr ps \<longrightarrow> length ps \<le> MAX_SEAT_PAGES \<and> (\<forall>p \<in> set ps. length p \<le> MAX_SEATS_PAGE_BYTES))"
  using assms
proof (induction gh token page_no u pages s rule: fetch_pages.induct)
  case (1 gh token page_no u pages s)
  show ?case
  proof (cases "u = None \<or> page_no + 1 > MAX_SEAT_PAGES")
    case True
    with "1.prems" show ?thesis
      by (auto simp: fetch_pages.simps [of gh token page_no] col_fail_def split: option.splits if_splits)
  next
    case False
    then obtain url where u: "u = Some url" "\<not> page_no + 1 > MAX_SEAT_PAGES" by auto
    let ?rq = "\<lparr>rq_post = False, rq_url = url, rq_bearer = Some token\<rparr>"
    obtain r1 s1 where m: "send_with_retry gh ?rq s = (r1, s1)" by (cases "send_with_retry gh ?rq s")
    then have l1: "length (cs_requests s1) \<le> length (cs_requests s) + MAX_ATTEMPTS"
      by (elim send_bounds) simp
    have k: "MAX_ATTEMPTS * (MAX_SEAT_PAGES - page_no) = MAX_ATTEMPTS + MAX_ATTEMPTS * (MAX_SEAT_PAGES - (page_no + 1))"
      using u(2) by (simp add: Suc_diff_Suc flip: mult_Suc_right)
    show ?thesis
    proof (cases "\<exists>resp bytes. r1 = Inr resp \<and> read_capped MAX_SEATS_PAGE_BYTES resp = Body bytes \<and> hp_status resp = 200")
      case True
      then obtain resp bytes where rb: "r1 = Inr resp" "read_capped MAX_SEATS_PAGE_BYTES resp = Body bytes"
        "hp_status resp = 200" by blast
      with "1.prems"(1) m u have f: "fetch_pages gh token (page_no + 1) (Option.bind (hp_link resp) next_link_url)
          (pages @ [bytes]) s1 = (r, s')"
        by (simp add: fetch_pages.simps [of gh token page_no])
      have "\<forall>p \<in> set (pages @ [bytes]). length p \<le> MAX_SEATS_PAGE_BYTES"
        using "1.prems"(4) read_capped_Body [OF rb(2)] by auto
      moreover have "\<not> (hp_status resp \<noteq> 200)" using rb(3) by simp
      ultimately have "length (cs_requests s') \<le> length (cs_requests s1) + MAX_ATTEMPTS * (MAX_SEAT_PAGES - (page_no + 1)) \<and>
         (\<forall>ps. r = Inr ps \<longrightarrow> length ps \<le> MAX_SEAT_PAGES \<and> (\<forall>p \<in> set ps. length p \<le> MAX_SEATS_PAGE_BYTES))"
        using "1.IH" [OF u(1) u(2) m [symmetric] rb(1) rb(2)] f "1.prems"(3) u(2) by simp
      with l1 k show ?thesis by auto
    next
      case False
      with "1.prems" m u l1 k show ?thesis
        by (auto simp: fetch_pages.simps [of gh token page_no] col_fail_def
            split: sum.splits capped.splits if_splits)
    qed
  qed
qed

end
