(* ===== verification/Gov_Sync.thy ===== *)
theory Gov_Sync
  imports Gov_Github
begin

text \<open>
  The runs of the Copilot connector: storing a report (\<open>crates/governance-copilot/src/replay.rs\<close>), one day
  and one snapshot of seats (\<open>sync/\<close> of the same crate), and the operators of \<open>app/governance-ctl/src/sync\<close>
  that call them: the backfill with its window, a single day, the replay of the archive, the comparison of
  manifests with tables, and the status.

  The archive is part of the state of a run. Its parameters are the writes that fail, the keys that cannot
  be read, and the order in which a listing returns its keys.
\<close>

section \<open>Storing a report\<close>

definition PROVIDER :: string where
  "PROVIDER = ''github_copilot''"

record store_lib =
  sl_env :: db_env
  sl_days :: day_lib

definition put_manifest :: "store_lib \<Rightarrow> string \<Rightarrow> string \<Rightarrow> string \<Rightarrow> string \<Rightarrow> string \<Rightarrow> nat \<Rightarrow> unit colop" where
  "put_manifest sl tenant org report day status n =
     with_db (\<lambda>c. storage (upsert_manifest (sl_env sl) (sl_days sl) tenant PROVIDER org report day status n c))"

definition replay_report :: "store_lib \<Rightarrow> report_lib \<Rightarrow> string \<Rightarrow> string \<Rightarrow> string \<Rightarrow> string \<Rightarrow> string \<Rightarrow> nat colop" where
  "replay_report sl lib tenant org day report bytes =
     (if report = ''organization-1-day'' then
        db_bind (col_lift (parse_org_daily lib bytes report day)) (\<lambda>rows.
        db_bind (with_db (\<lambda>c. storage (upsert_org_daily (sl_env sl) (sl_days sl) tenant rows c))) (\<lambda>n.
        db_bind (put_manifest sl tenant org report day ''ok'' n) (\<lambda>_. db_return n)))
      else if report = ''users-1-day'' then
        db_bind (col_lift (parse_user_daily lib bytes report day)) (\<lambda>rows.
        db_bind (with_db (\<lambda>c. storage (upsert_user_daily (sl_env sl) (sl_days sl) tenant org rows c))) (\<lambda>n.
        db_bind (put_manifest sl tenant org report day ''ok'' n) (\<lambda>_. db_return n)))
      else if report = ''repos-1-day'' then
        db_bind (col_lift (parse_repo_daily lib bytes report day)) (\<lambda>rows.
        db_bind (with_db (\<lambda>c. storage (upsert_repo_daily (sl_env sl) (sl_days sl) tenant org rows c))) (\<lambda>n.
        db_bind (put_manifest sl tenant org report day ''ok'' n) (\<lambda>_. db_return n)))
      else if report = ''user-teams-1-day'' then
        db_bind (col_lift (parse_user_team lib bytes report day)) (\<lambda>rows.
        db_bind (with_db (\<lambda>c. storage (upsert_user_team (sl_env sl) (sl_days sl) tenant org rows c))) (\<lambda>n.
        db_bind (put_manifest sl tenant org report day ''ok'' n) (\<lambda>_. db_return n)))
      else if report = SEATS_REPORT_TYPE then
        db_bind (col_lift (parse_seats lib bytes report day)) (\<lambda>rows.
        db_bind (with_db (\<lambda>c. storage (upsert_seat_snapshot (sl_env sl) (sl_days sl) tenant org rows c))) (\<lambda>n.
        db_bind (put_manifest sl tenant org report day ''ok'' n) (\<lambda>_. db_return n)))
      else col_fail (Github ''sync'' 0 (''unknown report type '' @ report @ '' in REPORTS'')))"

section \<open>One day and one snapshot\<close>

record report_outcome =
  ro_report :: string
  ro_day :: string
  ro_status :: string
  ro_record_count :: nat
  ro_host :: "string option"

type_synonym archive_op = "string \<Rightarrow> string \<Rightarrow> unit colop"

definition ingest_one :: "gh_lib \<Rightarrow> store_lib \<Rightarrow> string \<Rightarrow> string \<Rightarrow> string \<Rightarrow> string \<Rightarrow> archive_op \<Rightarrow> bool \<Rightarrow> string \<Rightarrow>
    report_outcome colop" where
  "ingest_one gh sl tenant org day token archive freeze_writes report =
     db_bind (fetch_report gh org report day token) (\<lambda>dl.
       if dr_empty dl then
         db_bind (if freeze_writes then db_return () else put_manifest sl tenant org report day ''empty'' 0)
           (\<lambda>_. db_return \<lparr>ro_report = report, ro_day = day, ro_status = ''empty'', ro_record_count = 0,
                  ro_host = dr_host dl\<rparr>)
       else
         db_bind (archive (archive_key org report day) (dr_bytes dl)) (\<lambda>_.
         db_bind (if freeze_writes
                  then db_bind (col_lift (parse_report_rows (gh_report gh) report (dr_bytes dl) day))
                         (\<lambda>p. db_return (rows_len p))
                  else replay_report sl (gh_report gh) tenant org day report (dr_bytes dl))
           (\<lambda>n. db_return \<lparr>ro_report = report, ro_day = day, ro_status = ''ok'', ro_record_count = n,
                  ro_host = dr_host dl\<rparr>)))"

fun ingest_reports :: "(string \<Rightarrow> report_outcome colop) \<Rightarrow> string list \<Rightarrow> report_outcome list colop" where
  "ingest_reports one [] = db_return []"
| "ingest_reports one (r # rs) =
     db_bind (one r) (\<lambda>o1. db_bind (ingest_reports one rs) (\<lambda>os. db_return (o1 # os)))"

definition sync_day :: "gh_lib \<Rightarrow> store_lib \<Rightarrow> string \<Rightarrow> string \<Rightarrow> string \<Rightarrow> string \<Rightarrow> archive_op \<Rightarrow> bool \<Rightarrow>
    report_outcome list colop" where
  "sync_day gh sl app_id tenant org day archive freeze_writes =
     db_bind (token_for_org gh app_id org)
       (\<lambda>token. ingest_reports (ingest_one gh sl tenant org day token archive freeze_writes) REPORTS)"

definition sync_seats :: "gh_lib \<Rightarrow> store_lib \<Rightarrow> string \<Rightarrow> string \<Rightarrow> string \<Rightarrow> string \<Rightarrow> archive_op \<Rightarrow> bool \<Rightarrow>
    report_outcome colop" where
  "sync_seats gh sl app_id tenant org snapshot_day archive freeze_writes =
     db_bind (token_for_org gh app_id org) (\<lambda>token.
     db_bind (fetch_seats gh org token) (\<lambda>pages.
     let raw = to_archive_bytes pages in
     db_bind (archive (seats_archive_key org snapshot_day) raw) (\<lambda>_.
     db_bind (if freeze_writes
              then db_bind (col_lift (parse_report_rows (gh_report gh) SEATS_REPORT_TYPE raw snapshot_day))
                     (\<lambda>p. db_return (rows_len p))
              else replay_report sl (gh_report gh) tenant org snapshot_day SEATS_REPORT_TYPE raw)
       (\<lambda>n. db_return \<lparr>ro_report = SEATS_REPORT_TYPE, ro_day = snapshot_day, ro_status = ''ok'',
              ro_record_count = n, ro_host = None\<rparr>))))"

section \<open>The command line tool\<close>

record archive_lib =
  ar_fault :: "nat \<Rightarrow> string option"
  ar_readable :: "string \<Rightarrow> bool"
  ar_order :: "string list \<Rightarrow> string list"

record ctl_config =
  cf_tenant :: string
  cf_org :: string
  cf_app_id :: string
  cf_lookback_days :: int
  cf_max_backfill_days :: int
  cf_freeze_writes :: bool

text \<open>The services a run talks to; the sink is there when its endpoint is configured.\<close>

record ctl_lib =
  cl_gh :: gh_lib
  cl_store :: store_lib
  cl_archive :: archive_lib
  cl_sink :: "sink_lib option"

definition DEFAULT_LOOKBACK_DAYS :: int where
  "DEFAULT_LOOKBACK_DAYS = 3"

definition DEFAULT_MAX_BACKFILL_DAYS :: int where
  "DEFAULT_MAX_BACKFILL_DAYS = 28"

definition COPILOT_DATA_LAG_DAYS :: int where
  "COPILOT_DATA_LAG_DAYS = 1"

definition positive_env_i64 :: "string option \<Rightarrow> int \<Rightarrow> int" where
  "positive_env_i64 v dflt =
     (case v of
        None \<Rightarrow> dflt
      | Some t \<Rightarrow> (case parse_i64 t of Some n \<Rightarrow> if n > 0 then n else dflt | None \<Rightarrow> dflt))"

definition env_bool :: "string option \<Rightarrow> bool" where
  "env_bool v =
     (case v of
        None \<Rightarrow> False
      | Some t \<Rightarrow> to_ascii_lowercase (str_trim t) \<in> {''1'', ''true'', ''yes'', ''on''})"

definition in_ctl :: "'a colop \<Rightarrow> (ctl_error, 'a) runop" where
  "in_ctl f s = (case f s of (r, s') \<Rightarrow> (res_map_err Copilot_failed r, s'))"

definition in_store :: "(copilot_db, 'a) dbop \<Rightarrow> (ctl_error, 'a) runop" where
  "in_store f = in_ctl (with_db (\<lambda>c. storage (f c)))"

subsection \<open>Archive\<close>

definition archive_write :: "archive_lib \<Rightarrow> string \<Rightarrow> string \<Rightarrow> (string, unit) runop" where
  "archive_write al key bytes s =
     (case ar_fault al (cs_writes s) of
        Some e \<Rightarrow> (Inl e, s\<lparr>cs_writes := Suc (cs_writes s)\<rparr>)
      | None \<Rightarrow>
          (Inr (), s\<lparr>cs_writes := Suc (cs_writes s), cs_archive := AList.update key bytes (cs_archive s)\<rparr>))"

definition archive_read :: "archive_lib \<Rightarrow> string \<Rightarrow> (ctl_error, string) runop" where
  "archive_read al key s =
     (if ar_readable al key
      then (case map_of (cs_archive s) key of
              Some b \<Rightarrow> (Inr b, s)
            | None \<Rightarrow> (Inl (Archive_unreadable key), s))
      else (Inl (Archive_unreadable key), s))"

definition list_day :: "archive_lib \<Rightarrow> string \<Rightarrow> string \<Rightarrow> (ctl_error, string list) runop" where
  "list_day al org day s =
     (Inr (ar_order al (filter (starts_with (''org='' @ org @ ''/day='' @ day @ ''/'')) (hm_keys (cs_archive s)))), s)"

definition strip_suffix :: "string \<Rightarrow> string \<Rightarrow> string option" where
  "strip_suffix suf s = map_option rev (strip_prefix (rev suf) (rev s))"

definition report_of_key :: "string \<Rightarrow> string" where
  "report_of_key key =
     (let f = last (split_char (CHR ''/'') key) in
      case strip_suffix ''.ndjson'' f of
        Some r \<Rightarrow> r
      | None \<Rightarrow> (case strip_suffix ''.json'' f of Some r \<Rightarrow> r | None \<Rightarrow> key))"

definition archive_fn :: "archive_lib \<Rightarrow> bool \<Rightarrow> archive_op" where
  "archive_fn al capture key bytes s =
     (let s1 = (if capture then s\<lparr>cs_captured := cs_captured s @ [(report_of_key key, bytes)]\<rparr> else s) in
      case archive_write al key bytes s1 of (r, s2) \<Rightarrow> (res_map_err Archive_error r, s2))"

subsection \<open>Ingesting\<close>

fun parse_captured :: "report_lib \<Rightarrow> string \<Rightarrow> (string \<times> string) list \<Rightarrow> copilot_error + parsed_rows list" where
  "parse_captured lib day [] = Inr []"
| "parse_captured lib day ((report, bytes) # cs) =
     res_bind (parse_report_rows lib report bytes day)
       (\<lambda>p. res_bind (parse_captured lib day cs) (\<lambda>ps. Inr (p # ps)))"

definition with_sink :: "(sink_state \<Rightarrow> ('e + 'a) \<times> sink_state) \<Rightarrow> ('e, 'a) runop" where
  "with_sink f s = (case f (cs_sink s) of (r, k) \<Rightarrow> (r, s\<lparr>cs_sink := k\<rparr>))"

definition emit_captured :: "ctl_lib \<Rightarrow> ctl_config \<Rightarrow> string \<Rightarrow> string \<Rightarrow> (ctl_error, unit) runop" where
  "emit_captured cl cfg day refusal =
     (case cl_sink cl of
        Some sink \<Rightarrow>
          (\<lambda>s. db_bind (col_lift (res_map_err Copilot_failed
                 (parse_captured (gh_report (cl_gh cl)) day (cs_captured s))))
             (\<lambda>rows. db_bind (with_sink (emit_rows sink (cf_tenant cfg) (cf_org cfg) rows (cf_freeze_writes cfg)))
                (\<lambda>_. db_return ())) s)
      | None \<Rightarrow> (if cf_freeze_writes cfg then col_fail (No_sink refusal) else db_return ()))"

definition forget_captured :: "('e, unit) runop" where
  "forget_captured s = (Inr (), s\<lparr>cs_captured := []\<rparr>)"

definition ingest_day :: "ctl_lib \<Rightarrow> ctl_config \<Rightarrow> string \<Rightarrow> (ctl_error, report_outcome list) runop" where
  "ingest_day cl cfg day =
     db_bind forget_captured (\<lambda>_.
     db_bind (in_ctl (sync_day (cl_gh cl) (cl_store cl) (cf_app_id cfg) (cf_tenant cfg) (cf_org cfg) day
                (archive_fn (cl_archive cl) (cl_sink cl \<noteq> None)) (cf_freeze_writes cfg))) (\<lambda>outcomes.
     db_bind (emit_captured cl cfg day (''refusing to ingest day '' @ day @ '' with no write path'')) (\<lambda>_.
       db_return outcomes)))"

definition ingest_seats :: "ctl_lib \<Rightarrow> ctl_config \<Rightarrow> string \<Rightarrow> (ctl_error, report_outcome) runop" where
  "ingest_seats cl cfg snapshot_day =
     db_bind forget_captured (\<lambda>_.
     db_bind (in_ctl (sync_seats (cl_gh cl) (cl_store cl) (cf_app_id cfg) (cf_tenant cfg) (cf_org cfg) snapshot_day
                (archive_fn (cl_archive cl) (cl_sink cl \<noteq> None)) (cf_freeze_writes cfg))) (\<lambda>outcome.
     db_bind (emit_captured cl cfg snapshot_day ''refusing to snapshot seats with no write path'') (\<lambda>_.
       db_return outcome)))"

subsection \<open>Backfill\<close>

definition backfill_window :: "int option \<Rightarrow> int \<Rightarrow> int \<Rightarrow> int \<Rightarrow> int \<times> int" where
  "backfill_window hwm today lookback_days max_backfill_days =
     (let stop = today - COPILOT_DATA_LAG_DAYS;
          lookback_bound = today - max lookback_days 0;
          max_backfill_bound = today - max max_backfill_days 0;
          start = (case hwm of
                     Some h \<Rightarrow> max (min (min (h + 1) stop) lookback_bound) max_backfill_bound
                   | None \<Rightarrow> max_backfill_bound)
      in (start, stop))"

record backfill_outcome =
  bo_outcomes :: "report_outcome list"
  bo_covered :: nat
  bo_failed :: "(string \<times> ctl_error) list"
  bo_window_days :: nat
  bo_seats :: "ctl_error + nat"

fun backfill_days :: "(string \<Rightarrow> (ctl_error, report_outcome list) runop) \<Rightarrow> string list \<Rightarrow>
    report_outcome list \<times> nat \<times> (string \<times> ctl_error) list \<Rightarrow> col_state \<Rightarrow>
    (report_outcome list \<times> nat \<times> (string \<times> ctl_error) list) \<times> col_state" where
  "backfill_days one [] acc s = (acc, s)"
| "backfill_days one (d # ds) (all, covered, failed) s =
     (case one d s of
        (Inr os, s1) \<Rightarrow> backfill_days one ds (all @ os, covered + 1, failed) s1
      | (Inl e, s1) \<Rightarrow> backfill_days one ds (all, covered, failed @ [(d, e)]) s1)"

definition run_backfill_at :: "ctl_lib \<Rightarrow> ctl_config \<Rightarrow> int \<Rightarrow> (ctl_error, backfill_outcome) runop" where
  "run_backfill_at cl cfg today =
     db_bind (in_store (high_water_mark (sl_env (cl_store cl)) (cf_tenant cfg) PROVIDER))
       (\<lambda>hwm s.
          let (start, stop) = backfill_window hwm today (cf_lookback_days cfg) (cf_max_backfill_days cfg);
              show_day = dl_show (sl_days (cl_store cl));
              days = rev (map show_day [start..stop]);
              ((all, covered, failed), s1) = backfill_days (ingest_day cl cfg) days ([], 0, []) s
          in case ingest_seats cl cfg (show_day today) s1 of
               (Inr o1, s2) \<Rightarrow>
                 (Inr \<lparr>bo_outcomes = all @ [o1], bo_covered = covered, bo_failed = failed,
                        bo_window_days = length days, bo_seats = Inr (ro_record_count o1)\<rparr>, s2)
             | (Inl e, s2) \<Rightarrow>
                 (Inr \<lparr>bo_outcomes = all, bo_covered = covered, bo_failed = failed,
                        bo_window_days = length days, bo_seats = Inl e\<rparr>, s2))"

definition exit_result :: "backfill_outcome \<Rightarrow> bool" where
  "exit_result b =
     (let reports_failed = (bo_window_days b > 0 \<and> bo_covered b = 0);
          seats_failed = (case bo_seats b of Inl _ \<Rightarrow> True | Inr _ \<Rightarrow> False)
      in \<not> reports_failed \<and> \<not> seats_failed)"

subsection \<open>Operators\<close>

definition run_sync_day :: "ctl_lib \<Rightarrow> ctl_config \<Rightarrow> string \<Rightarrow> (ctl_error, report_outcome list) runop" where
  "run_sync_day cl cfg day =
     (case dl_parse (sl_days (cl_store cl)) day of
        None \<Rightarrow> col_fail (Invalid_day day)
      | Some _ \<Rightarrow> ingest_day cl cfg day)"

definition run_verify :: "ctl_lib \<Rightarrow> ctl_config \<Rightarrow> (ctl_error, nat) runop" where
  "run_verify cl cfg =
     db_bind (in_ctl (with_db (verify_manifests (sl_env (cl_store cl)) (sl_days (cl_store cl))
                (cf_tenant cfg) PROVIDER (cf_org cfg))))
       (\<lambda>drift. db_return (length drift))"

datatype sync_status = Never_synced | Synced int int

definition run_status :: "ctl_lib \<Rightarrow> ctl_config \<Rightarrow> int \<Rightarrow> (ctl_error, sync_status) runop" where
  "run_status cl cfg today =
     db_bind (in_store (high_water_mark (sl_env (cl_store cl)) (cf_tenant cfg) PROVIDER)) (\<lambda>hwm.
       case hwm of
         None \<Rightarrow> db_return Never_synced
       | Some lst \<Rightarrow>
           db_bind (in_store (unmapped_user_count (sl_env (cl_store cl)) (sl_days (cl_store cl)) (cf_tenant cfg)
                      (cf_org cfg) (dl_show (sl_days (cl_store cl)) lst)))
             (\<lambda>unmapped. db_return (Synced (today - lst) unmapped)))"

definition read_archived_report :: "ctl_lib \<Rightarrow> ctl_config \<Rightarrow> string \<Rightarrow> string \<Rightarrow> (ctl_error, string \<times> string) runop" where
  "read_archived_report cl cfg ds key =
     db_bind (archive_read (cl_archive cl) key) (\<lambda>bytes.
     db_bind (in_store (manifest_schema_version (sl_env (cl_store cl)) (sl_days (cl_store cl)) (cf_tenant cfg)
                PROVIDER (cf_org cfg) (report_of_key key) ds))
       (\<lambda>_. db_return (report_of_key key, bytes)))"

fun replay_keys_frozen :: "ctl_lib \<Rightarrow> ctl_config \<Rightarrow> string \<Rightarrow> string list \<Rightarrow> (ctl_error, parsed_rows list) runop" where
  "replay_keys_frozen cl cfg ds [] = db_return []"
| "replay_keys_frozen cl cfg ds (k # ks) =
     db_bind (read_archived_report cl cfg ds k) (\<lambda>(report, bytes).
     db_bind (col_lift (res_map_err Copilot_failed (parse_report_rows (gh_report (cl_gh cl)) report bytes ds))) (\<lambda>p.
     db_bind (replay_keys_frozen cl cfg ds ks) (\<lambda>ps. db_return (p # ps))))"

fun replay_keys :: "ctl_lib \<Rightarrow> ctl_config \<Rightarrow> string \<Rightarrow> string list \<Rightarrow> (ctl_error, unit) runop" where
  "replay_keys cl cfg ds [] = db_return ()"
| "replay_keys cl cfg ds (k # ks) =
     db_bind (read_archived_report cl cfg ds k) (\<lambda>(report, bytes).
     db_bind (in_ctl (replay_report (cl_store cl) (gh_report (cl_gh cl)) (cf_tenant cfg) (cf_org cfg) ds report bytes))
       (\<lambda>_. replay_keys cl cfg ds ks))"

definition replay_day :: "ctl_lib \<Rightarrow> ctl_config \<Rightarrow> string \<Rightarrow> (ctl_error, unit) runop" where
  "replay_day cl cfg ds =
     db_bind (list_day (cl_archive cl) (cf_org cfg) ds) (\<lambda>keys.
       if cf_freeze_writes cfg then
         (case cl_sink cl of
            None \<Rightarrow> col_fail (No_sink ''refusing to replay with no write path'')
          | Some sink \<Rightarrow>
              db_bind (replay_keys_frozen cl cfg ds keys) (\<lambda>rows.
              db_bind (with_sink (emit_rows sink (cf_tenant cfg) (cf_org cfg) rows True)) (\<lambda>_. db_return ())))
       else replay_keys cl cfg ds keys)"

fun replay_days :: "ctl_lib \<Rightarrow> ctl_config \<Rightarrow> int list \<Rightarrow> (ctl_error, unit) runop" where
  "replay_days cl cfg [] = db_return ()"
| "replay_days cl cfg (d # ds) =
     db_bind (replay_day cl cfg (dl_show (sl_days (cl_store cl)) d)) (\<lambda>_. replay_days cl cfg ds)"

definition run_replay :: "ctl_lib \<Rightarrow> ctl_config \<Rightarrow> string \<Rightarrow> string \<Rightarrow> (ctl_error, unit) runop" where
  "run_replay cl cfg from_day to_day =
     (case dl_parse (sl_days (cl_store cl)) from_day of
        None \<Rightarrow> col_fail (Invalid_day from_day)
      | Some a \<Rightarrow>
          (case dl_parse (sl_days (cl_store cl)) to_day of
             None \<Rightarrow> col_fail (Invalid_day to_day)
           | Some b \<Rightarrow> (if b < a then col_fail (Inverted_range a b) else replay_days cl cfg [a..b])))"

end
