(* ===== verification/Gov_Cutover.thy ===== *)
theory Gov_Cutover
  imports Gov_Sync
begin

text \<open>
  The cutover of \<open>app/governance-ctl/src/sync/cutover\<close>: the comparison of the archive with the manifests,
  and the removal of the telemetry tables that depends on it.
\<close>

section \<open>Comparing the archive with the manifests\<close>

record count_mismatch =
  cm_day :: string
  cm_report :: string
  cm_expected :: int
  cm_actual :: int

definition refuse_during_freeze :: "ctl_config \<Rightarrow> ctl_error + unit" where
  "refuse_during_freeze cfg = (if cf_freeze_writes cfg then Inl Frozen else Inr ())"

definition archived_under :: "ctl_config \<Rightarrow> string \<Rightarrow> string \<Rightarrow> string" where
  "archived_under cfg report ds =
     (if report = SEATS_REPORT_TYPE then seats_archive_key (cf_org cfg) ds else archive_key (cf_org cfg) report ds)"

text \<open>One manifest: the count its archive disagrees with, if it does. A missing archive counts as 0, one
  that does not parse as -1.\<close>

definition check_archive :: "ctl_lib \<Rightarrow> ctl_config \<Rightarrow> (string, string) hmap \<Rightarrow> manifest_row \<Rightarrow> count_mismatch option" where
  "check_archive cl cfg arch m =
     (let ds = dl_show (sl_days (cl_store cl)) (mf_day m);
          key = archived_under cfg (mf_report m) ds;
          found = (if ar_readable (cl_archive cl) key then map_of arch key else None);
          mism = (\<lambda>actual. Some \<lparr>cm_day = ds, cm_report = mf_report m, cm_expected = mf_record_count m,
                                 cm_actual = actual\<rparr>)
      in if mf_status m = ''empty'' then None
         else case found of
           None \<Rightarrow> mism 0
         | Some bytes \<Rightarrow>
             (case parse_report_rows (gh_report (cl_gh cl)) (mf_report m) bytes ds of
                Inl _ \<Rightarrow> mism (- 1)
              | Inr p \<Rightarrow>
                  (if i64_of_u64 (rows_len p) \<noteq> mf_record_count m then mism (i64_of_u64 (rows_len p)) else None)))"

definition manifests_of :: "ctl_config \<Rightarrow> copilot_db \<Rightarrow> manifest_row list" where
  "manifests_of cfg t =
     sort_key mf_day (sort_key mf_report
       (filter (\<lambda>m. mf_tenant m = cf_tenant cfg \<and> mf_provider m = PROVIDER \<and> mf_scope m = cf_org cfg)
          (ingest_manifests t)))"

definition verify_archive_counts :: "ctl_lib \<Rightarrow> ctl_config \<Rightarrow> (ctl_error, count_mismatch list) runop" where
  "verify_archive_counts cl cfg =
     db_bind (col_lift (refuse_during_freeze cfg)) (\<lambda>_.
     db_bind (with_db (\<lambda>c. case exec_auto (sl_env (cl_store cl)) (query (\<lambda>t. Inr (manifests_of cfg t))) c of
                (r, c') \<Rightarrow> (res_map_err Store_failed r, c')))
       (\<lambda>ms s. (Inr (List.map_filter (check_archive cl cfg (cs_archive s)) ms), s)))"

section \<open>Removing the tables\<close>

definition COPILOT_DAY_TABLES :: "string list" where
  "COPILOT_DAY_TABLES = [''copilot_org_dailys'', ''copilot_user_dailys'', ''copilot_repo_dailys'', ''copilot_seat_snapshots'']"

definition SHARED_TABLES :: "string list" where
  "SHARED_TABLES = [''model_calls'', ''tool_calls'', ''executions'']"

text \<open>\<open>DROP TABLE IF EXISTS\<close>. A table that another one refers to is not dropped: \<open>model_calls\<close> and
  \<open>tool_calls\<close> refer to \<open>executions\<close>.\<close>

definition clear_table :: "string \<Rightarrow> copilot_db \<Rightarrow> copilot_db" where
  "clear_table name t =
     (if name = ''copilot_org_dailys'' then t\<lparr>org_dailys := []\<rparr>
      else if name = ''copilot_user_dailys'' then t\<lparr>user_dailys := []\<rparr>
      else if name = ''copilot_repo_dailys'' then t\<lparr>repo_dailys := []\<rparr>
      else if name = ''copilot_seat_snapshots'' then t\<lparr>seat_snapshots := []\<rparr>
      else t)"

definition drop_table :: "string \<Rightarrow> (copilot_db, unit) stmt" where
  "drop_table name t =
     (if name \<notin> set (db_tables t) then Inr ((), t)
      else if name = ''executions'' \<and> (''model_calls'' \<in> set (db_tables t) \<or> ''tool_calls'' \<in> set (db_tables t))
      then Inl Missing_reference
      else Inr ((), (clear_table name t)\<lparr>db_tables := removeAll name (db_tables t)\<rparr>))"

definition decommission :: "ctl_lib \<Rightarrow> ctl_config \<Rightarrow> bool \<Rightarrow> bool \<Rightarrow> (ctl_error, string list) runop" where
  "decommission cl cfg confirm include_shared =
     (if \<not> confirm then col_fail Unconfirmed
      else db_bind (col_lift (refuse_during_freeze cfg)) (\<lambda>_.
        db_bind (verify_archive_counts cl cfg) (\<lambda>mismatches.
          if mismatches \<noteq> [] then col_fail (Blocked (length mismatches))
          else
            (let names = COPILOT_DAY_TABLES @ (if include_shared then SHARED_TABLES else []) in
             with_db (\<lambda>c. case transaction (sl_env (cl_store cl)) (\<lambda>now.
                   db_bind (db_each (\<lambda>name. exec_tx (sl_env (cl_store cl)) (drop_table name)) names)
                     (\<lambda>_. db_return names)) c of
               (r, c') \<Rightarrow> (res_map_err Store_failed r, c'))))))"

section \<open>What the guards give\<close>

text \<open>A manifest whose archive agrees with it.\<close>

definition archive_agrees :: "ctl_lib \<Rightarrow> ctl_config \<Rightarrow> (string, string) hmap \<Rightarrow> manifest_row \<Rightarrow> bool" where
  "archive_agrees cl cfg arch m \<longleftrightarrow>
     mf_status m = ''empty'' \<or>
     (\<exists>bytes p. map_of arch (archived_under cfg (mf_report m) (dl_show (sl_days (cl_store cl)) (mf_day m))) = Some bytes \<and>
        parse_report_rows (gh_report (cl_gh cl)) (mf_report m) bytes (dl_show (sl_days (cl_store cl)) (mf_day m)) = Inr p \<and>
        i64_of_u64 (rows_len p) = mf_record_count m)"

lemma check_archive_None: "check_archive cl cfg arch m = None \<Longrightarrow> archive_agrees cl cfg arch m"
  by (auto simp: check_archive_def archive_agrees_def Let_def split: if_splits option.splits sum.splits)

lemma check_archive_complete:
  "archive_agrees cl cfg arch m \<Longrightarrow>
     ar_readable (cl_archive cl) (archived_under cfg (mf_report m) (dl_show (sl_days (cl_store cl)) (mf_day m))) \<Longrightarrow>
     check_archive cl cfg arch m = None"
  by (auto simp: check_archive_def archive_agrees_def Let_def)

lemma map_filter_Nil: "List.map_filter f xs = [] \<longleftrightarrow> (\<forall>x \<in> set xs. f x = None)"
  by (induction xs) (auto simp: map_filter_simps split: option.splits)

lemma verify_archive_Inr:
  assumes "verify_archive_counts cl cfg s = (Inr ms, s')"
  shows "\<not> cf_freeze_writes cfg \<and> cs_archive s' = cs_archive s \<and>
     tables (cs_conn s') = tables (cs_conn s) \<and>
     ms = List.map_filter (check_archive cl cfg (cs_archive s)) (manifests_of cfg (tables (cs_conn s)))"
  using assms
  by (auto simp: verify_archive_counts_def db_bind_Inr col_lift_def refuse_during_freeze_def with_db_def
      query_def exec_auto_Inr res_map_err_def split: if_splits prod.splits sum.splits)

lemma verify_archive_Inl:
  assumes "verify_archive_counts cl cfg s = (Inl e, s')"
  shows "tables (cs_conn s') = tables (cs_conn s)"
  using assms
  by (auto simp: verify_archive_counts_def db_bind_Inl col_lift_def refuse_during_freeze_def with_db_def
      query_def exec_auto_def Let_def res_map_err_def
      split: if_splits prod.splits sum.splits option.splits db_fault.splits)

end
