(* ===== verification/Gov_Sync_Correct.thy ===== *)
theory Gov_Sync_Correct
  imports Gov_Sync
begin

text \<open>
  What the runs of the connector guarantee: storing a report is parsing it, writing its rows and recording
  the count, whichever report it is; storing it again changes nothing; a frozen run leaves the database
  alone; and the raw bytes are archived before anything can go wrong with them.
\<close>

section \<open>Storing a report is one operation\<close>

fun store_rows :: "store_lib \<Rightarrow> string \<Rightarrow> string \<Rightarrow> parsed_rows \<Rightarrow> (copilot_db, nat) dbop" where
  "store_rows sl tenant org (Org_rows rs) = upsert_org_daily (sl_env sl) (sl_days sl) tenant rs"
| "store_rows sl tenant org (User_rows rs) = upsert_user_daily (sl_env sl) (sl_days sl) tenant org rs"
| "store_rows sl tenant org (Repo_rows rs) = upsert_repo_daily (sl_env sl) (sl_days sl) tenant org rs"
| "store_rows sl tenant org (Team_rows rs) = upsert_user_team (sl_env sl) (sl_days sl) tenant org rs"
| "store_rows sl tenant org (Seat_rows rs) = upsert_seat_snapshot (sl_env sl) (sl_days sl) tenant org rs"

lemma bind_lift: "db_bind (col_lift (res_bind r f)) g = db_bind (col_lift r) (\<lambda>a. db_bind (col_lift (f a)) g)"
  by (rule ext) (cases r; simp add: db_bind_def col_lift_def)

lemma bind_lift_Inr [simp]: "db_bind (col_lift (Inr a)) g = g a"
  by (rule ext) (simp add: db_bind_def col_lift_def)

lemma bind_lift_Inl [simp]: "db_bind (col_lift (Inl e)) g = col_fail e"
  by (rule ext) (simp add: db_bind_def col_lift_def col_fail_def)

lemma report_names [simp]:
  "SEATS_REPORT_TYPE \<noteq> ''organization-1-day''" "SEATS_REPORT_TYPE \<noteq> ''users-1-day''"
  "SEATS_REPORT_TYPE \<noteq> ''repos-1-day''" "SEATS_REPORT_TYPE \<noteq> ''user-teams-1-day''"
  by (simp_all add: SEATS_REPORT_TYPE_def)

lemma replay_report_eq:
  "replay_report sl lib tenant org day report bytes =
     db_bind (col_lift (parse_report_rows lib report bytes day)) (\<lambda>p.
     db_bind (with_db (\<lambda>c. storage (store_rows sl tenant org p c))) (\<lambda>n.
     db_bind (put_manifest sl tenant org report day ''ok'' n) (\<lambda>_. db_return n)))"
proof -
  consider "report = ''organization-1-day''" | "report = ''users-1-day''" | "report = ''repos-1-day''"
    | "report = ''user-teams-1-day''" | "report = SEATS_REPORT_TYPE"
    | "report \<notin> {''organization-1-day'', ''users-1-day'', ''repos-1-day'', ''user-teams-1-day'', SEATS_REPORT_TYPE}"
    by auto
  then show ?thesis
    by cases (simp_all add: replay_report_def parse_report_rows_def bind_lift)
qed

section \<open>Storing again\<close>

definition db_ok :: "copilot_db \<Rightarrow> bool" where
  "db_ok t \<longleftrightarrow> table_ok og_id org_key (org_dailys t) \<and> table_ok us_id user_key (user_dailys t) \<and>
     table_ok rp_id repo_key (repo_dailys t) \<and> table_ok tm_id team_key (user_teams t) \<and>
     table_ok sn_id seat_key (seat_snapshots t) \<and> table_ok mf_id manifest_key (ingest_manifests t)"

text \<open>Everything but the manifests.\<close>

definition reports_only :: "copilot_db \<Rightarrow> copilot_db" where
  "reports_only t = t\<lparr>ingest_manifests := []\<rparr>"

lemma reports_onlyD:
  assumes "reports_only t = reports_only u"
  shows "org_dailys t = org_dailys u" "user_dailys t = user_dailys u" "repo_dailys t = repo_dailys u"
    "user_teams t = user_teams u" "seat_snapshots t = seat_snapshots u" "db_tables t = db_tables u"
  using arg_cong [OF assms, of org_dailys] arg_cong [OF assms, of user_dailys]
    arg_cong [OF assms, of repo_dailys] arg_cong [OF assms, of user_teams]
    arg_cong [OF assms, of seat_snapshots] arg_cong [OF assms, of db_tables]
  by (simp_all add: reports_only_def)

lemmas upsert_ops = upsert_org_daily_def upsert_user_daily_def upsert_repo_daily_def upsert_user_team_def
  upsert_seat_snapshot_def

lemma store_rows_ok:
  assumes "store_rows sl tenant org p c = (Inr n, c')" and "db_ok (tables c)"
  shows "n = rows_len p \<and> db_ok (tables c') \<and> ingest_manifests (tables c') = ingest_manifests (tables c)"
proof (cases p)
  case (Org_rows rs)
  with assms orgs.write_ok orgs.write_keeps_ok show ?thesis
    by (fastforce simp: upsert_ops db_ok_def)
next
  case (User_rows rs)
  with assms users.write_ok users.write_keeps_ok show ?thesis
    by (fastforce simp: upsert_ops db_ok_def)
next
  case (Repo_rows rs)
  with assms repos.write_ok repos.write_keeps_ok show ?thesis
    by (fastforce simp: upsert_ops db_ok_def)
next
  case (Team_rows rs)
  with assms teams.write_ok teams.write_keeps_ok show ?thesis
    by (fastforce simp: upsert_ops db_ok_def)
next
  case (Seat_rows rs)
  with assms seats.write_ok seats.write_keeps_ok show ?thesis
    by (fastforce simp: upsert_ops db_ok_def)
qed

lemma store_rows_again:
  assumes "store_rows sl tenant org p c = (Inr n, c')" and "db_ok (tables c)"
    and "healthy env" and "reports_only (tables d) = reports_only (tables c')"
  shows "\<exists>d'. store_rows (sl\<lparr>sl_env := env\<rparr>) tenant org p d = (Inr n, d') \<and> tables d' = tables d"
proof -
  note eq = reports_onlyD [OF assms(4)]
  show ?thesis
  proof (cases p)
    case (Org_rows rs)
    with assms(1,2) show ?thesis
      by (auto simp: upsert_ops db_ok_def intro!: orgs.write_twice [OF _ _ assms(3) eq(1)])
  next
    case (User_rows rs)
    with assms(1,2) show ?thesis
      by (auto simp: upsert_ops db_ok_def intro!: users.write_twice [OF _ _ assms(3) eq(2)])
  next
    case (Repo_rows rs)
    with assms(1,2) show ?thesis
      by (auto simp: upsert_ops db_ok_def intro!: repos.write_twice [OF _ _ assms(3) eq(3)])
  next
    case (Team_rows rs)
    with assms(1,2) show ?thesis
      by (auto simp: upsert_ops db_ok_def intro!: teams.write_twice [OF _ _ assms(3) eq(4)])
  next
    case (Seat_rows rs)
    with assms(1,2) show ?thesis
      by (auto simp: upsert_ops db_ok_def intro!: seats.write_twice [OF _ _ assms(3) eq(5)])
  qed
qed

lemma with_db_Inr:
  "with_db f s = (Inr a, s') \<longleftrightarrow> (\<exists>c. f (cs_conn s) = (Inr a, c) \<and> s' = s\<lparr>cs_conn := c\<rparr>)"
  by (auto simp: with_db_def split: prod.splits)

lemma storage_Inr: "storage r = (Inr a, c) \<longleftrightarrow> r = (Inr a, c)"
  by (cases r; cases "fst r") (auto simp: storage_def)

text \<open>A manifest that was recorded is there, whatever was there before.\<close>

lemma put_manifest_ok:
  assumes "put_manifest sl tenant org report day status n s = (Inr (), s')" and "db_ok (tables (cs_conn s))"
  shows "\<exists>d m. dl_cast (sl_days sl) day = Some d \<and>
     lookup_row manifest_key (tenant, PROVIDER, org, d, report) (ingest_manifests (tables (cs_conn s'))) = Some m \<and>
     mf_status m = status \<and> mf_record_count m = i64_of_u64 n \<and>
     reports_only (tables (cs_conn s')) = reports_only (tables (cs_conn s)) \<and> db_ok (tables (cs_conn s')) \<and>
     (\<exists>c. s' = s\<lparr>cs_conn := c\<rparr>)"
proof -
  define now where "now = env_now (sl_env sl) (sent (cs_conn s))"
  from assms(1) obtain rows new where
    d: "manifest_of (sl_days sl) now tenant PROVIDER org report day status n = Inr new"
    and u: "upsert_row mf_id manifest_key (manifest_merge now) new (ingest_manifests (tables (cs_conn s))) = Inr rows"
    and s': "\<exists>c. s' = s\<lparr>cs_conn := c\<rparr>"
    and t: "tables (cs_conn s') = (tables (cs_conn s))\<lparr>ingest_manifests := rows\<rparr>"
    by (auto simp: put_manifest_def with_db_Inr storage_Inr upsert_manifest_def Let_def exec_auto_Inr now_def
        on_table_def put_record_def res_bind_eq_Inr split: sum.splits)
  from d obtain dd where dd: "dl_cast (sl_days sl) day = Some dd"
    and new: "manifest_key new = (tenant, PROVIDER, org, dd, report)" "mf_status new = status" "mf_record_count new = i64_of_u64 n"
    by (auto simp: manifest_of_def cast_day_def manifest_key_def split: option.splits)
  obtain m where m: "lookup_row manifest_key (manifest_key new) rows = Some m" "mf_status m = status"
      "mf_record_count m = i64_of_u64 n"
    using manifests.lookup_upsert [OF u, of "manifest_key new"] new(2,3)
    by (cases "lookup_row manifest_key (manifest_key new) (ingest_manifests (tables (cs_conn s)))")
      (auto simp: manifest_merge_def)
  have "db_ok (tables (cs_conn s'))"
    using assms(2) manifests.upsert_ok [OF u] by (simp add: t db_ok_def)
  with dd m new(1) s' t show ?thesis by (auto simp: reports_only_def)
qed

text \<open>A manifest whose key is there can be recorded again.\<close>

lemma put_manifest_again:
  assumes "healthy (sl_env sl)" and "dl_cast (sl_days sl) day = Some d"
    and "lookup_row manifest_key (tenant, PROVIDER, org, d, report) (ingest_manifests (tables (cs_conn s))) \<noteq> None"
  shows "\<exists>s'. put_manifest sl tenant org report day status n s = (Inr (), s') \<and>
     reports_only (tables (cs_conn s')) = reports_only (tables (cs_conn s)) \<and>
     map manifest_key (ingest_manifests (tables (cs_conn s'))) = map manifest_key (ingest_manifests (tables (cs_conn s)))"
proof -
  define now where "now = env_now (sl_env sl) (sent (cs_conn s))"
  obtain new where new: "manifest_of (sl_days sl) now tenant PROVIDER org report day status n = Inr new"
    "manifest_key new = (tenant, PROVIDER, org, d, report)"
    using assms(2) by (simp add: manifest_of_def cast_day_def manifest_key_def)
  have k: "manifest_key new \<in> manifest_key ` set (ingest_manifests (tables (cs_conn s)))"
    using assms(3) new(2) by (simp add: manifests.lookup_None)
  then obtain rows where u: "upsert_row mf_id manifest_key (manifest_merge now) new
      (ingest_manifests (tables (cs_conn s))) = Inr rows"
    using manifests.upsert_again by blast
  from u k have "map manifest_key rows = map manifest_key (ingest_manifests (tables (cs_conn s)))"
    by (cases rule: manifests.upsert_cases) simp_all
  with new u show ?thesis
    by (simp add: put_manifest_def with_db_def storage_def upsert_manifest_def Let_def exec_healthy [OF assms(1)]
        on_table_def put_record_def reports_only_def flip: now_def)
qed

text \<open>A report that was stored is stored again with the same count, and nothing but the completion time
  of its manifest can change.\<close>

lemma replay_report_Inr:
  assumes "replay_report sl lib tenant org day report bytes s = (Inr n, s')" and "db_ok (tables (cs_conn s))"
  obtains p c1 d m where "parse_report_rows lib report bytes day = Inr p" "n = rows_len p"
    "store_rows sl tenant org p (cs_conn s) = (Inr n, c1)" "db_ok (tables c1)"
    "dl_cast (sl_days sl) day = Some d"
    "lookup_row manifest_key (tenant, PROVIDER, org, d, report) (ingest_manifests (tables (cs_conn s'))) = Some m"
    "mf_status m = ''ok''" "mf_record_count m = i64_of_u64 n"
    "reports_only (tables (cs_conn s')) = reports_only (tables c1)" "db_ok (tables (cs_conn s'))"
    "\<exists>c. s' = s\<lparr>cs_conn := c\<rparr>"
proof -
  from assms(1) obtain p c1 s2 where p: "parse_report_rows lib report bytes day = Inr p"
    and st: "store_rows sl tenant org p (cs_conn s) = (Inr n, c1)"
    and mf: "put_manifest sl tenant org report day ''ok'' n (s\<lparr>cs_conn := c1\<rparr>) = (Inr (), s2)" and s2: "s2 = s'"
    unfolding replay_report_eq
    by (auto simp: db_bind_Inr col_lift_def with_db_Inr storage_Inr db_return_def)
  note r = store_rows_ok [OF st assms(2)]
  have "db_ok (tables (cs_conn (s\<lparr>cs_conn := c1\<rparr>)))" using r by simp
  from put_manifest_ok [OF mf this] p st r s2 that show ?thesis by (auto; metis)
qed

lemma replay_report_again:
  assumes "replay_report sl lib tenant org day report bytes s = (Inr n, s')" and "db_ok (tables (cs_conn s))"
    and "healthy env" and "cs_conn u = cs_conn s'"
  shows "\<exists>u'. replay_report (sl\<lparr>sl_env := env\<rparr>) lib tenant org day report bytes u = (Inr n, u') \<and>
     reports_only (tables (cs_conn u')) = reports_only (tables (cs_conn s')) \<and>
     map manifest_key (ingest_manifests (tables (cs_conn u'))) = map manifest_key (ingest_manifests (tables (cs_conn s')))"
  using assms(1,2)
proof (rule replay_report_Inr)
  fix p c1 d m
  assume p: "parse_report_rows lib report bytes day = Inr p"
    and st: "store_rows sl tenant org p (cs_conn s) = (Inr n, c1)"
    and d: "dl_cast (sl_days sl) day = Some d"
    and m: "lookup_row manifest_key (tenant, PROVIDER, org, d, report) (ingest_manifests (tables (cs_conn s'))) = Some m"
    and ro: "reports_only (tables (cs_conn s')) = reports_only (tables c1)"
  have "reports_only (tables (cs_conn u)) = reports_only (tables c1)" using ro assms(4) by simp
  from store_rows_again [OF st assms(2,3) this] obtain c2 where
    st2: "store_rows (sl\<lparr>sl_env := env\<rparr>) tenant org p (cs_conn u) = (Inr n, c2)" and t2: "tables c2 = tables (cs_conn u)"
    by blast
  have "\<exists>u'. put_manifest (sl\<lparr>sl_env := env\<rparr>) tenant org report day ''ok'' n (u\<lparr>cs_conn := c2\<rparr>) = (Inr (), u') \<and>
     reports_only (tables (cs_conn u')) = reports_only (tables c2) \<and>
     map manifest_key (ingest_manifests (tables (cs_conn u'))) = map manifest_key (ingest_manifests (tables c2))"
    using put_manifest_again [of "sl\<lparr>sl_env := env\<rparr>" day d tenant org report "u\<lparr>cs_conn := c2\<rparr>" "''ok''" n]
      assms(3,4) d m t2 by simp
  then show ?thesis
    using p st2 t2 assms(4)
    by (auto simp: replay_report_eq db_bind_def with_db_def storage_def db_return_def)
qed

section \<open>What an operation leaves alone\<close>

definition keeps :: "(col_state \<Rightarrow> 'o) \<Rightarrow> ('e, 'a) runop \<Rightarrow> bool" where
  "keeps obs f \<longleftrightarrow> (\<forall>s r s'. f s = (r, s') \<longrightarrow> obs s' = obs s)"

abbreviation run_tables :: "col_state \<Rightarrow> copilot_db" where
  "run_tables s \<equiv> tables (cs_conn s)"

named_theorems kept \<open>operations that leave an observation alone\<close>

lemma keepsD: "keeps obs f \<Longrightarrow> f s = (r, s') \<Longrightarrow> obs s' = obs s"
  by (auto simp: keeps_def)

lemma keeps_simple [kept]: "keeps obs (col_fail e)" "keeps obs (col_lift r)" "keeps obs (db_return a)"
  by (auto simp: keeps_def col_fail_def col_lift_def db_return_def)

lemma keeps_bind [kept]:
  assumes "keeps obs m" and "\<And>a. keeps obs (f a)"
  shows "keeps obs (db_bind m f)"
  unfolding keeps_def
proof (intro allI impI)
  fix s r s' assume b: "db_bind m f s = (r, s')"
  obtain r1 s1 where m: "m s = (r1, s1)" by (cases "m s")
  with assms(1) have 1: "obs s1 = obs s" by (rule keepsD)
  show "obs s' = obs s"
  proof (cases r1)
    case (Inl e)
    with m b 1 show ?thesis by (simp add: db_bind_def)
  next
    case (Inr a)
    with m b have "f a s1 = (r, s')" by (simp add: db_bind_def)
    with assms(2) have "obs s' = obs s1" by (blast dest: keepsD)
    with 1 show ?thesis by simp
  qed
qed

lemma keeps_in_ctl [kept]: "keeps obs f \<Longrightarrow> keeps obs (in_ctl f)"
  unfolding keeps_def in_ctl_def by (auto split: prod.splits)

lemma talks_keeps_tables: "only_talks f \<Longrightarrow> keeps run_tables f"
  unfolding keeps_def by (auto dest!: only_talksD simp: same_stores_def)

lemma talks_keeps_archive: "only_talks f \<Longrightarrow> keeps cs_archive f"
  unfolding keeps_def by (auto dest!: only_talksD simp: same_stores_def)

lemmas github_keeps [kept] =
  only_talks_token [THEN talks_keeps_tables] only_talks_token [THEN talks_keeps_archive]
  only_talks_fetch_report [THEN talks_keeps_tables] only_talks_fetch_report [THEN talks_keeps_archive]
  only_talks_fetch_seats [THEN talks_keeps_tables] only_talks_fetch_seats [THEN talks_keeps_archive]

lemma with_db_keeps_archive [kept]: "keeps cs_archive (with_db f)"
  unfolding keeps_def with_db_def by (auto split: prod.splits)

lemma with_sink_keeps [kept]: "keeps run_tables (with_sink f)" "keeps cs_archive (with_sink f)"
  unfolding keeps_def with_sink_def by (auto split: prod.splits)

lemma forget_keeps [kept]: "keeps run_tables forget_captured" "keeps cs_archive forget_captured"
  unfolding keeps_def forget_captured_def by auto

lemma archive_fn_keeps_tables [kept]: "keeps run_tables (archive_fn al capture key bytes)"
  unfolding keeps_def archive_fn_def archive_write_def by (auto simp: Let_def split: option.splits prod.splits)

lemma query_keeps_tables: "exec_auto env (query q) c = (r, c') \<Longrightarrow> tables c' = tables c"
  by (auto simp: exec_auto_def query_def Let_def split: option.splits sum.splits db_fault.splits)

lemma in_store_query [kept]: "keeps run_tables (in_store (exec_auto env (query q)))"
  unfolding in_store_def
  by (intro kept)
    (auto simp: keeps_def with_db_def storage_def split: prod.splits
      intro: query_keeps_tables [OF prod.collapse [symmetric]])

lemma hwm_keeps_tables [kept]: "keeps run_tables (in_store (high_water_mark env tenant provider))"
  unfolding high_water_mark_def by (rule in_store_query)

lemma schema_version_keeps_tables [kept]:
  "keeps run_tables (in_store (manifest_schema_version env dl tenant provider scope report day))"
  unfolding manifest_schema_version_def by (rule in_store_query)

lemma replay_report_keeps_archive [kept]: "keeps cs_archive (replay_report sl lib tenant org day report bytes)"
  unfolding replay_report_eq put_manifest_def by (intro kept)

section \<open>A frozen run leaves the database alone\<close>

lemma ingest_one_frozen [kept]:
  assumes "\<And>key bytes. keeps run_tables (archive key bytes)"
  shows "keeps run_tables (ingest_one gh sl tenant org day token archive True report)"
  unfolding ingest_one_def
  by (intro kept) (auto intro!: kept assms)

lemma ingest_reports_keeps [kept]:
  "(\<And>r. keeps obs (one r)) \<Longrightarrow> keeps obs (ingest_reports one rs)"
  by (induction rs) (auto intro!: kept)

lemma sync_day_frozen [kept]:
  "(\<And>key bytes. keeps run_tables (archive key bytes)) \<Longrightarrow>
     keeps run_tables (sync_day gh sl app tenant org day archive True)"
  unfolding sync_day_def by (intro kept)

lemma sync_seats_frozen [kept]:
  "(\<And>key bytes. keeps run_tables (archive key bytes)) \<Longrightarrow>
     keeps run_tables (sync_seats gh sl app tenant org day archive True)"
  unfolding sync_seats_def Let_def by (auto intro!: kept)

lemma emit_captured_keeps [kept]: "keeps run_tables (emit_captured cl cfg day refusal)"
proof -
  have "keeps run_tables (\<lambda>s. db_bind (col_lift (r s)) (\<lambda>rows. db_bind (with_sink (e rows)) (\<lambda>_. db_return ())) s)"
    for r :: "col_state \<Rightarrow> ctl_error + parsed_rows list" and e :: "parsed_rows list \<Rightarrow> sink_state \<Rightarrow> (ctl_error + nat) \<times> sink_state"
    unfolding keeps_def
  proof (intro allI impI)
    fix s q s' assume a: "db_bind (col_lift (r s)) (\<lambda>rows. db_bind (with_sink (e rows)) (\<lambda>_. db_return ())) s = (q, s')"
    have "keeps run_tables (db_bind (col_lift (r s)) (\<lambda>rows. db_bind (with_sink (e rows)) (\<lambda>_. db_return ())))"
      by (intro kept)
    from keepsD [OF this a] show "run_tables s' = run_tables s" .
  qed
  then show ?thesis
    unfolding emit_captured_def by (auto split: option.split intro!: kept)
qed

lemma ingest_day_frozen [kept]: "cf_freeze_writes cfg \<Longrightarrow> keeps run_tables (ingest_day cl cfg day)"
  unfolding ingest_day_def by (auto intro!: kept)

lemma ingest_seats_frozen [kept]: "cf_freeze_writes cfg \<Longrightarrow> keeps run_tables (ingest_seats cl cfg day)"
  unfolding ingest_seats_def by (auto intro!: kept)

lemma backfill_days_keeps:
  "(\<And>d. keeps obs (one d)) \<Longrightarrow> backfill_days one ds acc s = (r, s') \<Longrightarrow> obs s' = obs s"
proof (induction ds arbitrary: acc s)
  case (Cons d ds)
  obtain all cov fl where acc: "acc = (all, cov, fl)" by (cases acc)
  obtain q s1 where o: "one d s = (q, s1)" by (cases "one d s")
  have 1: "obs s1 = obs s" by (rule keepsD [OF Cons.prems(1) o])
  from Cons.prems(2) have "\<exists>acc. backfill_days one ds acc s1 = (r, s')"
    by (cases q) (auto simp: acc o)
  with Cons.IH Cons.prems(1) 1 show ?case by metis
qed simp

lemma run_backfill_frozen:
  assumes "cf_freeze_writes cfg" and "run_backfill_at cl cfg today s = (r, s')"
  shows "run_tables s' = run_tables s"
proof -
  have "keeps run_tables (run_backfill_at cl cfg today)"
    unfolding run_backfill_at_def
  proof (intro kept)
    fix hwm
    show "keeps run_tables (\<lambda>s.
          let (start, stop) = backfill_window hwm today (cf_lookback_days cfg) (cf_max_backfill_days cfg);
              show_day = dl_show (sl_days (cl_store cl));
              days = rev (map show_day [start..stop]);
              ((all, covered, failed), s1) = backfill_days (ingest_day cl cfg) days ([], 0, []) s
          in case ingest_seats cl cfg (show_day today) s1 of
               (Inr o1, s2) \<Rightarrow>
                 (Inr \<lparr>bo_outcomes = all @ [o1], bo_covered = covered, bo_failed = failed,
                        bo_window_days = length days, bo_seats = Inr (ro_record_count o1)\<rparr>, s2)
             | (Inl e, s2) \<Rightarrow>
                 (Inr \<lparr>bo_outcomes = all, bo_covered = covered, bo_failed = failed,
                        bo_window_days = length days, bo_seats = Inl e\<rparr>, s2))"
      unfolding keeps_def
      by (auto simp: Let_def split: prod.splits sum.splits
          dest!: backfill_days_keeps [OF ingest_day_frozen [OF assms(1)], rotated]
            keepsD [OF ingest_seats_frozen [OF assms(1)]])
  qed
  from keepsD [OF this assms(2)] show ?thesis .
qed

section \<open>Archived before it is read\<close>

lemma archive_fn_stores:
  assumes "archive_fn al capture key bytes s = (r, s')" and "ar_fault al (cs_writes s) = None"
  shows "r = Inr () \<and> map_of (cs_archive s') key = Some bytes \<and> cs_conn s' = cs_conn s"
  using assms
  by (cases capture) (auto simp: archive_fn_def archive_write_def Let_def update_conv')

lemma ingest_one_archived:
  assumes "ingest_one gh sl tenant org day token (archive_fn al capture) freeze report s = (r, s')"
    and "fetch_report gh org report day token s = (Inr dl, s1)" and "\<not> dr_empty dl"
    and "ar_fault al (cs_writes s1) = None"
  shows "map_of (cs_archive s') (archive_key org report day) = Some (dr_bytes dl)"
proof -
  let ?rest = "\<lambda>_ :: unit. db_bind (if freeze
        then db_bind (col_lift (parse_report_rows (gh_report gh) report (dr_bytes dl) day)) (\<lambda>p. db_return (rows_len p))
        else replay_report sl (gh_report gh) tenant org day report (dr_bytes dl))
      (\<lambda>n. db_return \<lparr>ro_report = report, ro_day = day, ro_status = ''ok'', ro_record_count = n, ro_host = dr_host dl\<rparr>)"
  obtain q s2 where a: "archive_fn al capture (archive_key org report day) (dr_bytes dl) s1 = (q, s2)"
    by (cases "archive_fn al capture (archive_key org report day) (dr_bytes dl) s1")
  from archive_fn_stores [OF this assms(4)] have q: "q = Inr ()"
    and m: "map_of (cs_archive s2) (archive_key org report day) = Some (dr_bytes dl)" by simp_all
  have "ingest_one gh sl tenant org day token (archive_fn al capture) freeze report s =
      db_bind (archive_fn al capture (archive_key org report day) (dr_bytes dl)) ?rest s1"
    by (simp only: ingest_one_def 
        db_bind_simps(2) [where m = "fetch_report gh org report day token", OF assms(2)] assms(3) if_False)
  also have "\<dots> = ?rest () s2" by (rule db_bind_simps(2)) (simp only: a q)
  finally have r: "?rest () s2 = (r, s')" using assms(1) by simp
  have "keeps cs_archive (?rest ())"
    by (cases freeze) (auto intro!: kept)
  from keepsD [OF this r] m show ?thesis by simp
qed

text \<open>A report that a run stored and archived is stored by a replay of the archive with the same
  outcome.\<close>

lemma ingest_one_then_replay:
  assumes "ingest_one gh sl tenant org day token (archive_fn al capture) False report s = (Inr out, s')"
    and "ro_status out = ''ok''" and "db_ok (run_tables s)" and "healthy env"
  shows "\<exists>dl s1 s''. fetch_report gh org report day token s = (Inr dl, s1) \<and> \<not> dr_empty dl \<and>
     map_of (cs_archive s') (archive_key org report day) = Some (dr_bytes dl) \<and>
     replay_report (sl\<lparr>sl_env := env\<rparr>) (gh_report gh) tenant org day report (dr_bytes dl) s' =
       (Inr (ro_record_count out), s'') \<and>
     reports_only (run_tables s'') = reports_only (run_tables s')"
proof -
  from assms(1) obtain dl s1 where f: "fetch_report gh org report day token s = (Inr dl, s1)"
    by (auto simp: ingest_one_def db_bind_Inr)
  have ne: "\<not> dr_empty dl"
    using assms(1,2) f by (auto simp: ingest_one_def db_bind_Inr db_return_def split: if_splits)
  from assms(1) f ne obtain s2 n where a: "archive_fn al capture (archive_key org report day) (dr_bytes dl) s1 = (Inr (), s2)"
    and rp: "replay_report sl (gh_report gh) tenant org day report (dr_bytes dl) s2 = (Inr n, s')"
    and n: "ro_record_count out = n"
    by (auto simp: ingest_one_def db_bind_Inr db_return_def)
  have "run_tables s1 = run_tables s"
    using only_talksD [OF only_talks_fetch_report f] by (simp add: same_stores_def)
  moreover have "run_tables s2 = run_tables s1" by (rule keepsD [OF archive_fn_keeps_tables a])
  ultimately have ok: "db_ok (run_tables s2)" using assms(3) by simp
  have ar: "ar_fault al (cs_writes s1) = None"
    using a by (cases capture) (auto simp: archive_fn_def archive_write_def Let_def split: option.splits)
  have "map_of (cs_archive s') (archive_key org report day) = Some (dr_bytes dl)"
    by (rule ingest_one_archived [OF assms(1) f ne ar])
  with f ne replay_report_again [OF rp ok assms(4) refl] n show ?thesis by auto
qed

section \<open>The window of a run\<close>

lemma backfill_days_account:
  "backfill_days one ds (all, cov, fl) s = ((all', cov', fl'), s') \<Longrightarrow>
     cov' + length fl' = cov + length fl + length ds \<and> set (map fst fl') \<subseteq> set (map fst fl) \<union> set ds"
proof (induction ds arbitrary: all cov fl s)
  case (Cons d ds)
  obtain q s1 where o: "one d s = (q, s1)" by (cases "one d s")
  show ?case
  proof (cases q)
    case (Inl e)
    with Cons.prems o have "backfill_days one ds (all, cov, fl @ [(d, e)]) s1 = ((all', cov', fl'), s')" by simp
    from Cons.IH [OF this] show ?thesis by auto
  next
    case (Inr os)
    with Cons.prems o have "backfill_days one ds (all @ os, cov + 1, fl) s1 = ((all', cov', fl'), s')" by simp
    from Cons.IH [OF this] show ?thesis by auto
  qed
qed simp

lemma run_backfill_account:
  assumes "run_backfill_at cl cfg today s = (Inr b, s')"
  shows "bo_covered b + length (bo_failed b) = bo_window_days b"
proof -
  let ?hwm = "in_store (high_water_mark (sl_env (cl_store cl)) (cf_tenant cfg) PROVIDER)"
  from assms obtain hwm s1 where h: "?hwm s = (Inr hwm, s1)"
    by (auto simp: run_backfill_at_def db_bind_Inr)
  note run = assms [unfolded run_backfill_at_def db_bind_simps(2) [where m = ?hwm, OF h]]
  obtain start stop where w: "backfill_window hwm today (cf_lookback_days cfg) (cf_max_backfill_days cfg) = (start, stop)"
    by (cases "backfill_window hwm today (cf_lookback_days cfg) (cf_max_backfill_days cfg)")
  obtain all cov fl s2 where b: "backfill_days (ingest_day cl cfg)
      (rev (map (dl_show (sl_days (cl_store cl))) [start..stop])) ([], 0, []) s1 = ((all, cov, fl), s2)"
    by (metis prod.collapse)
  from run have "bo_covered b = cov \<and> bo_failed b = fl \<and> bo_window_days b = length [start..stop]"
    by (auto simp: w b Let_def split: prod.splits sum.splits)
  with backfill_days_account [OF b] show ?thesis by simp
qed

end
