(* ===== verification/Gov_Connector.thy ===== *)
theory Gov_Connector
  imports Gov_Cutover Gov_Sync_Correct
begin

text \<open>
  What the properties of the Copilot connector rest on, beyond the laws of its parts: the batches a table
  refuses, the operators that leave the database alone while writes are frozen, the days of a backfill,
  the records a strict emission hands over, and the tables a decommission drops.
\<close>

section \<open>Memberships under one identifier\<close>

text \<open>A membership stored the way this code stores it, with its day in the server's printing.\<close>

definition plain_membership :: "day_lib \<Rightarrow> team_table_row \<Rightarrow> bool" where
  "plain_membership dl x \<longleftrightarrow> tm_id x = row_id ''team'' (tm_tenant x) (tm_user x) (dl_show dl (tm_day x))"

definition plain_day :: "day_lib \<Rightarrow> string \<Rightarrow> bool" where
  "plain_day dl day \<longleftrightarrow> (case dl_cast dl day of None \<Rightarrow> False | Some d \<Rightarrow> dl_show dl d = day)"

lemma plain_day_Some: "plain_day dl day \<longleftrightarrow> (\<exists>d. dl_cast dl day = Some d \<and> dl_show dl d = day)"
  by (auto simp: plain_day_def split: option.splits)

lemma plain_team_row: "plain_day dl (ut_report_day r) \<Longrightarrow> \<exists>x. team_row dl tenant org r = Inr x"
  by (auto simp: plain_day_Some team_row_def cast_day_def)

lemma team_row_plain:
  "team_row dl tenant org r = Inr x \<Longrightarrow> plain_day dl (ut_report_day r) \<Longrightarrow> plain_membership dl x"
  by (auto simp: plain_day_Some team_row_def cast_day_def plain_membership_def)

lemma two_teams_refused:
  assumes "healthy env" and "table_ok tm_id team_key (user_teams (tables c))"
    and "\<forall>x \<in> set (user_teams (tables c)). plain_membership dl x"
    and "\<forall>r \<in> set recs. plain_day dl (ut_report_day r)"
    and "r1 \<in> set recs" "r2 \<in> set recs" "ut_user_id r1 = ut_user_id r2" "ut_report_day r1 = ut_report_day r2"
      "ut_team_id r1 \<noteq> ut_team_id r2"
  shows "\<exists>c'. upsert_user_team env dl tenant org recs c = (Inl Unique_violation, c') \<and> tables c' = tables c"
proof -
  let ?f = "\<lambda>(t, o1, d, u, g :: string). row_id ''team'' t u (dl_show dl d)"
  obtain ns where ns: "rows_of (team_row dl tenant org) recs = Inr ns"
    using rows_of_total [of recs "team_row dl tenant org"] plain_team_row assms(4) by metis
  have "\<forall>x \<in> set ns \<union> set (user_teams (tables c)). tm_id x = ?f (team_key x)"
    using assms(3,4) set_rows_of [OF ns] team_row_plain
    by (fastforce simp: team_key_def plain_membership_def)
  note iff = teams.upserts_accepted_iff [OF assms(2) this]
  obtain x1 x2 where x: "team_row dl tenant org r1 = Inr x1" "team_row dl tenant org r2 = Inr x2"
    using plain_team_row assms(4-6) by metis
  then have "x1 \<in> set ns" "x2 \<in> set ns"
    using rows_of_in [OF ns] assms(5,6) by blast+
  moreover have "?f (team_key x1) = ?f (team_key x2)" "team_key x1 \<noteq> team_key x2"
    using x assms(7-9) by (auto simp: team_row_def team_key_def res_bind_eq_Inr)
  ultimately have "\<not> inj_on ?f (team_key ` set ns \<union> team_key ` set (user_teams (tables c)))"
    by (auto simp: inj_on_def)
  with iff obtain e where e: "upsert_rows tm_id team_key team_merge ns (user_teams (tables c)) = Inl e"
    by (cases "upsert_rows tm_id team_key team_merge ns (user_teams (tables c))") auto
  then have "e = Unique_violation" by (rule teams.upserts_refused)
  with teams.write_refused [OF assms(1) ns e] show ?thesis by (simp add: upsert_user_team_def)
qed

section \<open>Operators of a frozen run\<close>

lemma archive_read_keeps [kept]: "keeps obs (archive_read al key)"
  unfolding keeps_def archive_read_def by (auto split: option.splits if_splits)

lemma list_day_keeps [kept]: "keeps obs (list_day al org day)"
  unfolding keeps_def list_day_def by auto

lemma read_archived_keeps [kept]: "keeps run_tables (read_archived_report cl cfg ds key)"
  unfolding read_archived_report_def by (intro kept)

lemma replay_keys_frozen_keeps [kept]: "keeps run_tables (replay_keys_frozen cl cfg ds ks)"
  by (induction ks) (auto intro!: kept split: prod.splits)

lemma replay_day_frozen [kept]: "cf_freeze_writes cfg \<Longrightarrow> keeps run_tables (replay_day cl cfg ds)"
  unfolding replay_day_def by (auto intro!: kept split: option.splits)

lemma replay_days_frozen [kept]: "cf_freeze_writes cfg \<Longrightarrow> keeps run_tables (replay_days cl cfg ds)"
  by (induction ds) (auto intro!: kept)

lemma run_replay_frozen: "cf_freeze_writes cfg \<Longrightarrow> keeps run_tables (run_replay cl cfg a b)"
  unfolding run_replay_def by (auto intro!: kept split: option.splits)

lemma run_sync_day_frozen: "cf_freeze_writes cfg \<Longrightarrow> keeps run_tables (run_sync_day cl cfg day)"
  unfolding run_sync_day_def by (auto intro!: kept split: option.splits)

lemma decommission_frozen:
  "cf_freeze_writes cfg \<Longrightarrow> decommission cl cfg confirm shared s = (Inl (if confirm then Frozen else Unconfirmed), s)"
  by (simp add: decommission_def col_fail_def col_lift_def refuse_during_freeze_def db_bind_def)

section \<open>The days of a backfill\<close>

text \<open>The days a run should cover: none before the bound, none after the last published one, and of these
  every day after the high-water mark, every day of the trailing window, and the last one.\<close>

definition wanted_day :: "int option \<Rightarrow> int \<Rightarrow> int \<Rightarrow> int \<Rightarrow> int \<Rightarrow> bool" where
  "wanted_day hwm today lookback_days max_backfill_days x \<longleftrightarrow>
     today - max max_backfill_days 0 \<le> x \<and> x \<le> today - COPILOT_DATA_LAG_DAYS \<and>
     (case hwm of
        None \<Rightarrow> True
      | Some h \<Rightarrow> h < x \<or> today - max lookback_days 0 \<le> x \<or> x = today - COPILOT_DATA_LAG_DAYS)"

lemma window_wanted:
  "backfill_window hwm today lb mb = (start, stop) \<Longrightarrow> start \<le> x \<and> x \<le> stop \<longleftrightarrow> wanted_day hwm today lb mb x"
  by (cases hwm) (auto simp: backfill_window_def wanted_day_def Let_def COPILOT_DATA_LAG_DAYS_def)

lemma window_length:
  assumes "backfill_window hwm today lb mb = (start, stop)"
  shows "length [start..stop] = card {x. wanted_day hwm today lb mb x}"
proof -
  have "{x. wanted_day hwm today lb mb x} = {start..stop}"
    using window_wanted [OF assms] by auto
  then show ?thesis by simp
qed

definition mark_of :: "ctl_config \<Rightarrow> copilot_db \<Rightarrow> int option" where
  "mark_of cfg t = max_option (map mf_day (filter (\<lambda>m. mf_tenant m = cf_tenant cfg \<and> mf_provider m = PROVIDER \<and>
     mf_report m \<noteq> SEATS_REPORT_TYPE) (ingest_manifests t)))"

lemma high_water_mark_Inr:
  "in_store (high_water_mark env (cf_tenant cfg) PROVIDER) s = (Inr hwm, s1) \<Longrightarrow> hwm = mark_of cfg (run_tables s)"
  by (auto simp: in_store_def in_ctl_def with_db_def storage_def high_water_mark_def mark_of_def query_def
      exec_auto_def Let_def res_map_err_def split: prod.splits sum.splits option.splits db_fault.splits)

lemma run_backfill_days:
  assumes "run_backfill_at cl cfg today s = (Inr b, s')"
  shows "bo_window_days b = card {x. wanted_day (mark_of cfg (run_tables s)) today (cf_lookback_days cfg)
       (cf_max_backfill_days cfg) x} \<and>
     set (map fst (bo_failed b)) \<subseteq> dl_show (sl_days (cl_store cl)) `
       {x. wanted_day (mark_of cfg (run_tables s)) today (cf_lookback_days cfg) (cf_max_backfill_days cfg) x}"
proof -
  let ?hwm = "in_store (high_water_mark (sl_env (cl_store cl)) (cf_tenant cfg) PROVIDER)"
  let ?show = "dl_show (sl_days (cl_store cl))"
  from assms obtain hwm s1 where h: "?hwm s = (Inr hwm, s1)"
    by (auto simp: run_backfill_at_def db_bind_Inr)
  note run = assms [unfolded run_backfill_at_def db_bind_simps(2) [where m = ?hwm, OF h]]
  obtain start stop where w: "backfill_window hwm today (cf_lookback_days cfg) (cf_max_backfill_days cfg) = (start, stop)"
    by (cases "backfill_window hwm today (cf_lookback_days cfg) (cf_max_backfill_days cfg)")
  obtain all cov fl s2 where b: "backfill_days (ingest_day cl cfg) (rev (map ?show [start..stop])) ([], 0, []) s1 =
      ((all, cov, fl), s2)"
    by (metis prod.collapse)
  from run have "bo_window_days b = length [start..stop] \<and> bo_failed b = fl"
    by (auto simp: w b Let_def split: prod.splits sum.splits)
  moreover have "set (map fst fl) \<subseteq> ?show ` {start..stop}"
    using backfill_days_account [OF b] by simp
  moreover have "{start..stop} = {x. wanted_day hwm today (cf_lookback_days cfg) (cf_max_backfill_days cfg) x}"
    using window_wanted [OF w] by auto
  ultimately show ?thesis using window_length [OF w] high_water_mark_Inr [OF h] by simp
qed

text \<open>Only the query for the high-water mark can stop a backfill.\<close>

lemma run_backfill_returns:
  assumes "healthy (sl_env (cl_store cl))"
  shows "\<exists>b s'. run_backfill_at cl cfg today s = (Inr b, s')"
proof -
  have "\<exists>hwm s1. in_store (high_water_mark (sl_env (cl_store cl)) (cf_tenant cfg) PROVIDER) s = (Inr hwm, s1)"
    by (simp add: in_store_def in_ctl_def with_db_def storage_def high_water_mark_def query_def exec_healthy [OF assms])
  then show ?thesis
    by (auto simp: run_backfill_at_def Let_def split: prod.splits sum.splits)
qed

section \<open>What a strict emission hands over\<close>

lemma encode_all_counts:
  "encode_all lib tenant org credits cost ps = Inr (recs, counts) \<Longrightarrow> sum_list (map snd counts) = length recs"
proof (induction ps arbitrary: recs counts)
  case (Cons p ps)
  then show ?case by (cases p) (auto simp: res_bind_eq_Inr)
qed simp

lemma emit_rows_strict:
  assumes "emit_rows sl tenant org rows True sk = (r, sk')"
  shows "\<exists>recs. sk_handed sk' = sk_handed sk @ recs \<and> distinct (map collision_key recs) \<and>
     (\<forall>n. r = Inr n \<longrightarrow> n = length recs)"
proof -
  obtain credits cost where a: "aggregate_org_cost rows = (credits, cost)" by (cases "aggregate_org_cost rows")
  show ?thesis
  proof (cases "encode_all (sk_report sl) tenant org credits cost rows")
    case (Inl e)
    with assms a show ?thesis by (auto simp: emit_rows_def)
  next
    case (Inr p)
    obtain recs per where p: "p = (recs, per)" by (cases p)
    show ?thesis
    proof (cases "detect_collisions recs True")
      case (Inl e)
      with assms a Inr p show ?thesis by (auto simp: emit_rows_def)
    next
      case d: (Inr u)
      then have "distinct (map collision_key recs)" using detect_collisions_strict [of recs] by simp
      with assms a Inr p d show ?thesis
        by (auto simp: emit_rows_def Let_def split: option.splits intro!: exI [of _ recs])
    qed
  qed
qed

section \<open>What a decommission drops\<close>

lemma drop_table_Inr:
  assumes "drop_table name t = Inr ((), t')"
  shows "user_teams t' = user_teams t \<and> ingest_manifests t' = ingest_manifests t \<and>
     set (db_tables t') = set (db_tables t) - {name}"
  using assms by (auto simp: drop_table_def clear_table_def split: if_splits)

lemma each_drop_Inr:
  "db_each (\<lambda>name. exec_tx env (drop_table name)) names c = (Inr (), c') \<Longrightarrow>
     user_teams (tables c') = user_teams (tables c) \<and> ingest_manifests (tables c') = ingest_manifests (tables c) \<and>
     set (db_tables (tables c')) = set (db_tables (tables c)) - set names"
  by (induction names arbitrary: c)
    (auto simp: db_return_def db_bind_Inr exec_tx_Inr dest!: drop_table_Inr)

text \<open>With \<open>executions\<close> after the tables that refer to it, no drop is refused.\<close>

lemma each_drop_accepted:
  assumes "healthy env"
    and "''executions'' \<in> set names \<longrightarrow> (\<exists>as. names = as @ [''executions''] \<and> ''executions'' \<notin> set as \<and>
       ''model_calls'' \<in> set as \<and> ''tool_calls'' \<in> set as)"
  shows "\<exists>c'. db_each (\<lambda>name. exec_tx env (drop_table name)) names c = (Inr (), c')"
proof -
  have plain: "\<exists>c'. db_each (\<lambda>name. exec_tx env (drop_table name)) ns c = (Inr (), c')"
    if "''executions'' \<notin> set ns" for ns c
    using that
  proof (induction ns arbitrary: c)
    case (Cons n ns)
    then have "\<exists>t. drop_table n (tables c) = Inr ((), t)" by (auto simp: drop_table_def)
    then obtain t where "exec_tx env (drop_table n) c = (Inr (), c\<lparr>sent := Suc (sent c), tables := t\<rparr>)"
      by (auto simp: exec_healthy [OF assms(1)])
    with Cons show ?case by (simp add: db_bind_def)
  qed (simp add: db_return_def)
  show ?thesis
  proof (cases "''executions'' \<in> set names")
    case True
    with assms(2) obtain as where n: "names = as @ [''executions'']" "''executions'' \<notin> set as"
      "''model_calls'' \<in> set as" "''tool_calls'' \<in> set as" by blast
    obtain c1 where c1: "db_each (\<lambda>name. exec_tx env (drop_table name)) as c = (Inr (), c1)"
      using plain [OF n(2)] by blast
    have "''model_calls'' \<notin> set (db_tables (tables c1)) \<and> ''tool_calls'' \<notin> set (db_tables (tables c1))"
      using each_drop_Inr [OF c1] n(3,4) by auto
    then have "\<exists>t. drop_table ''executions'' (tables c1) = Inr ((), t)" by (auto simp: drop_table_def)
    then obtain c2 where "exec_tx env (drop_table ''executions'') c1 = (Inr (), c2)"
      by (auto simp: exec_healthy [OF assms(1)])
    then have "db_each (\<lambda>name. exec_tx env (drop_table name)) names c = (Inr (), c2)"
      using c1 n(1) by (simp add: db_each_append db_bind_def db_return_def)
    then show ?thesis by blast
  qed (use plain in blast)
qed

definition dropped_tables :: "bool \<Rightarrow> string list" where
  "dropped_tables include_shared = COPILOT_DAY_TABLES @ (if include_shared then SHARED_TABLES else [])"

definition drop_all :: "db_env \<Rightarrow> string list \<Rightarrow> (copilot_db, string list) dbop" where
  "drop_all env names = transaction env (\<lambda>now.
     db_bind (db_each (\<lambda>name. exec_tx env (drop_table name)) names) (\<lambda>_. db_return names))"

lemma decommission_eq:
  assumes "confirm" and "\<not> cf_freeze_writes cfg"
    and "verify_archive_counts cl cfg s = (Inr ms, s1)"
  shows "decommission cl cfg confirm shared s =
     (if ms \<noteq> [] then (Inl (Blocked (length ms)), s1)
      else (case drop_all (sl_env (cl_store cl)) (dropped_tables shared) (cs_conn s1) of
              (r, c) \<Rightarrow> (res_map_err Store_failed r, s1\<lparr>cs_conn := c\<rparr>)))"
  using assms
  by (auto simp: decommission_def refuse_during_freeze_def db_bind_def col_fail_def with_db_def drop_all_def
      dropped_tables_def Let_def split: prod.splits)

lemma drop_all_effect:
  assumes "drop_all env names c = (r, c')"
  shows "tables c' = tables c \<and> (\<exists>e. r = Inl e) \<or>
     user_teams (tables c') = user_teams (tables c) \<and> ingest_manifests (tables c') = ingest_manifests (tables c) \<and>
     set (db_tables (tables c')) = set (db_tables (tables c)) - set names"
proof -
  have body: "db_bind (db_each (\<lambda>name. exec_tx env (drop_table name)) names) (\<lambda>_. db_return names) c1 = (Inr a, c2) \<Longrightarrow>
      user_teams (tables c2) = user_teams (tables c1) \<and> ingest_manifests (tables c2) = ingest_manifests (tables c1) \<and>
      set (db_tables (tables c2)) = set (db_tables (tables c1)) - set names" for c1 c2 a
    using each_drop_Inr by (auto simp: db_bind_Inr db_return_def)
  show ?thesis
  proof (cases r)
    case (Inl e)
    with transaction_Inl [OF assms [unfolded drop_all_def Inl]] body show ?thesis by fastforce
  next
    case (Inr a)
    from assms [unfolded drop_all_def Inr] show ?thesis
      by (rule transaction_Inr) (use body in fastforce)
  qed
qed

lemma decommission_effect:
  assumes "decommission cl cfg confirm shared s = (r, s')"
  shows "run_tables s' = run_tables s \<and> (\<exists>e. r = Inl e) \<or>
     confirm \<and> \<not> cf_freeze_writes cfg \<and>
     (\<forall>m \<in> set (manifests_of cfg (run_tables s)). archive_agrees cl cfg (cs_archive s) m) \<and>
     user_teams (run_tables s') = user_teams (run_tables s) \<and>
     ingest_manifests (run_tables s') = ingest_manifests (run_tables s) \<and>
     set (db_tables (run_tables s')) = set (db_tables (run_tables s)) - set (dropped_tables shared)"
proof (cases "confirm \<and> \<not> cf_freeze_writes cfg")
  case False
  with assms show ?thesis
    by (auto simp: decommission_def col_fail_def col_lift_def refuse_during_freeze_def db_bind_def split: if_splits)
next
  case True
  obtain q s1 where v: "verify_archive_counts cl cfg s = (q, s1)" by (cases "verify_archive_counts cl cfg s")
  show ?thesis
  proof (cases q)
    case (Inl e)
    with assms v True verify_archive_Inl [of cl cfg s e s1] show ?thesis
      by (auto simp: decommission_def refuse_during_freeze_def db_bind_def)
  next
    case (Inr ms)
    note vi = verify_archive_Inr [OF v [unfolded Inr]]
    obtain q2 c2 where d: "drop_all (sl_env (cl_store cl)) (dropped_tables shared) (cs_conn s1) = (q2, c2)"
      by (cases "drop_all (sl_env (cl_store cl)) (dropped_tables shared) (cs_conn s1)")
    note eq = decommission_eq [of confirm cfg cl s ms s1 shared, unfolded assms]
    show ?thesis
    proof (cases "ms = []")
      case False
      with eq v Inr True vi show ?thesis by auto
    next
      case empty: True
      then have "\<forall>m \<in> set (manifests_of cfg (run_tables s)). archive_agrees cl cfg (cs_archive s) m"
        using vi check_archive_None by (metis map_filter_Nil)
      with eq v Inr True empty d vi drop_all_effect [OF d] show ?thesis
        by (auto simp: res_map_err_def split: sum.splits)
    qed
  qed
qed

text \<open>On a server that answers, the guards are all that can stop a decommission.\<close>

lemma decommission_accepted:
  assumes "healthy (sl_env (cl_store cl))" and "\<not> cf_freeze_writes cfg"
    and "\<forall>m \<in> set (manifests_of cfg (run_tables s)). check_archive cl cfg (cs_archive s) m = None"
  shows "\<exists>s'. decommission cl cfg True shared s = (Inr (dropped_tables shared), s')"
proof -
  have "\<exists>s1. verify_archive_counts cl cfg s = (Inr [], s1)"
    using assms
    by (simp add: verify_archive_counts_def refuse_during_freeze_def col_lift_def db_bind_def with_db_def query_def
        exec_healthy [OF assms(1)] map_filter_Nil)
  then obtain s1 where v: "verify_archive_counts cl cfg s = (Inr [], s1)" ..
  have "''executions'' \<in> set (dropped_tables shared) \<longrightarrow> (\<exists>as. dropped_tables shared = as @ [''executions''] \<and>
      ''executions'' \<notin> set as \<and> ''model_calls'' \<in> set as \<and> ''tool_calls'' \<in> set as)"
    by (auto simp: dropped_tables_def COPILOT_DAY_TABLES_def SHARED_TABLES_def
        intro!: exI [of _ "COPILOT_DAY_TABLES @ [''model_calls'', ''tool_calls'']"])
  note each = each_drop_accepted [OF assms(1) this]
  have "\<exists>c. drop_all (sl_env (cl_store cl)) (dropped_tables shared) (cs_conn s1) = (Inr (dropped_tables shared), c)"
    using each [of "cs_conn s1\<lparr>sent := Suc (sent (cs_conn s1))\<rparr>"] assms(1)
    by (auto simp: drop_all_def transaction_def Let_def db_bind_def db_return_def)
  with decommission_eq [of True cfg cl s "[]" s1 shared] assms(2) v show ?thesis by auto
qed

section \<open>What a comparison of manifests with tables says\<close>

text \<open>The tables hold as many rows as the manifest recorded.\<close>

definition rows_agree :: "string \<Rightarrow> string \<Rightarrow> copilot_db \<Rightarrow> manifest_row \<Rightarrow> bool" where
  "rows_agree tenant scope t m \<longleftrightarrow> counted tenant scope (mf_report m) (mf_day m) t = Some (mf_record_count m)"

lemma count_rows_Inr:
  assumes "count_rows env dl tenant scope report d c = (Inr n, c')" and "dl_cast dl (dl_show dl d) = Some d"
  shows "counted tenant scope report d (tables c) = Some n \<and> tables c' = tables c"
  using assms
  by (auto simp: count_rows_def storage_def query_def exec_auto_def Let_def cast_day_def res_map_err_def
      split: if_splits option.splits sum.splits db_fault.splits prod.splits)

lemma check_manifests_Inr:
  "check_manifests env dl tenant scope ms c = (Inr drift, c') \<Longrightarrow>
     (\<And>m. m \<in> set ms \<Longrightarrow> dl_cast dl (dl_show dl (mf_day m)) = Some (mf_day m)) \<Longrightarrow>
     tables c' = tables c \<and>
     map (\<lambda>x. (md_day x, md_report x, md_expected x)) drift =
       map (\<lambda>m. (dl_show dl (mf_day m), mf_report m, mf_record_count m))
         (filter (\<lambda>m. \<not> rows_agree tenant scope (tables c) m) ms)"
proof (induction ms arbitrary: c drift)
  case (Cons m ms)
  from Cons.prems(1) obtain n c1 rest where n: "count_rows env dl tenant scope (mf_report m) (mf_day m) c = (Inr n, c1)"
    and r: "check_manifests env dl tenant scope ms c1 = (Inr rest, c')"
    and d: "drift = (if n \<noteq> mf_record_count m
        then \<lparr>md_day = dl_show dl (mf_day m), md_report = mf_report m, md_status = mf_status m,
               md_expected = mf_record_count m, md_actual = n\<rparr> # rest else rest)"
    by (auto simp: db_bind_Inr db_return_def)
  have "dl_cast dl (dl_show dl (mf_day m)) = Some (mf_day m)" by (rule Cons.prems(2)) simp
  note c = count_rows_Inr [OF n this]
  from Cons.IH [OF r] Cons.prems(2) c d show ?case by (simp add: rows_agree_def)
qed simp

lemma verify_manifests_Inr:
  assumes "verify_manifests env dl tenant provider scope c = (Inr drift, c')"
    and "\<forall>m \<in> set (ingest_manifests (tables c)). dl_cast dl (dl_show dl (mf_day m)) = Some (mf_day m)"
  shows "tables c' = tables c \<and>
     map (\<lambda>x. (md_day x, md_report x, md_expected x)) drift =
       map (\<lambda>m. (dl_show dl (mf_day m), mf_report m, mf_record_count m))
         (filter (\<lambda>m. \<not> rows_agree tenant scope (tables c) m)
            (sort_key (\<lambda>m. - mf_day m) (filter (\<lambda>m. mf_tenant m = tenant \<and> mf_provider m = provider \<and> mf_scope m = scope)
               (ingest_manifests (tables c)))))"
proof -
  from assms(1) obtain c1 where
    "check_manifests env dl tenant scope (sort_key (\<lambda>m. - mf_day m) (filter (\<lambda>m. mf_tenant m = tenant \<and> mf_provider m = provider \<and> mf_scope m = scope)
               (ingest_manifests (tables c)))) c1 = (Inr drift, c')" and "tables c1 = tables c"
    by (auto simp: verify_manifests_def db_bind_Inr storage_Inr exec_auto_Inr query_def)
  with check_manifests_Inr [OF this(1)] assms(2) show ?thesis by simp
qed

end
