(* ===== verification/Gov_Props.thy ===== *)
theory Gov_Props
  imports Gov_Connector
begin

text \<open>
  The properties of the Copilot connector, with the concrete run that shows their hypotheses can hold: a
  server that answers every statement, a GitHub that publishes one report of one user, and an archive that
  takes every write.
\<close>

section \<open>A concrete run\<close>

definition sgv_env :: db_env where
  "sgv_env = \<lparr>env_fault = \<lambda>_. None, env_now = \<lambda>n. int n\<rparr>"

definition sgv_days :: day_lib where
  "sgv_days = \<lparr>dl_cast = (\<lambda>t. if t = ''D'' then Some 1 else if t = ''N'' then Some 2 else None),
     dl_show = (\<lambda>d. if d = 1 then ''D'' else ''N''),
     dl_parse = (\<lambda>t. if t = ''D'' then Some 1 else None)\<rparr>"

definition sgv_store :: store_lib where
  "sgv_store = \<lparr>sl_env = sgv_env, sl_days = sgv_days\<rparr>"

text \<open>The texts of the run: the envelope \<open>E\<close>, a row \<open>U\<close> of a user, and two memberships \<open>A\<close>, \<open>B\<close> of one
  user on one day.\<close>

definition sgv_json :: "string \<Rightarrow> string + json" where
  "sgv_json t =
     (if t = ''E'' then Inr (JObject [(''download_links'', JArray [JString ''h://x/y''])])
      else if t = ''U'' then Inr (JObject [(''user_id'', JString ''u''), (''day'', JString ''D'')])
      else if t = ''A'' then Inr (JObject [(''user_id'', JString ''u''), (''team_id'', JString ''a''), (''day'', JString ''D'')])
      else if t = ''B'' then Inr (JObject [(''user_id'', JString ''u''), (''team_id'', JString ''b''), (''day'', JString ''D'')])
      else Inl ''syntax'')"

definition sgv_report :: report_lib where
  "sgv_report = \<lparr>rl_json = sgv_json, rl_f64 = \<lparr>fl_value = (\<lambda>_. 0), fl_of_int = show_int\<rparr>, rl_micro = (\<lambda>_. 0),
     rl_rfc3339 = (\<lambda>_. None), rl_show_time = show_int\<rparr>"

definition sgv_response :: "string \<Rightarrow> gh_response" where
  "sgv_response b = \<lparr>hp_status = 200, hp_retry_after = None, hp_link = None, hp_content_length = None,
     hp_chunks = [b], hp_broken = False\<rparr>"

definition sgv_gh :: gh_lib where
  "sgv_gh = \<lparr>gh_send = (\<lambda>_ rq. Gh_response (sgv_response (if rq_bearer rq = None then ''U'' else ''E''))),
     gh_text = (\<lambda>t. t), gh_jwt = (\<lambda>_ _. Inr ''j''), gh_api_base = ''b'', gh_report = sgv_report\<rparr>"

definition sgv_archive :: archive_lib where
  "sgv_archive = \<lparr>ar_fault = (\<lambda>_. None), ar_readable = (\<lambda>_. True), ar_order = (\<lambda>ks. ks)\<rparr>"

definition sgv_ctl :: ctl_lib where
  "sgv_ctl = \<lparr>cl_gh = sgv_gh, cl_store = sgv_store, cl_archive = sgv_archive, cl_sink = None\<rparr>"

definition sgv_config :: "bool \<Rightarrow> ctl_config" where
  "sgv_config freeze = \<lparr>cf_tenant = ''t'', cf_org = ''o'', cf_app_id = ''1'', cf_lookback_days = 1,
     cf_max_backfill_days = 1, cf_freeze_writes = freeze\<rparr>"

definition sgv_db :: copilot_db where
  "sgv_db = \<lparr>db_tables = COPILOT_DAY_TABLES @ SHARED_TABLES, org_dailys = [], user_dailys = [], repo_dailys = [],
     user_teams = [], seat_snapshots = [], ingest_manifests = []\<rparr>"

definition sgv_state :: col_state where
  "sgv_state = \<lparr>cs_conn = \<lparr>tables = sgv_db, sent = 0\<rparr>, cs_requests = [], cs_waits = [], cs_archive = [],
     cs_writes = 0, cs_minted = 0, cs_captured = [],
     cs_sink = \<lparr>sk_handed = [], sk_accepted = [], sk_rejected = 0, sk_flushes = 0\<rparr>\<rparr>"

lemma sgv_healthy: "healthy sgv_env" "healthy (sl_env sgv_store)" "healthy (sl_env (cl_store sgv_ctl))"
  by (simp_all add: healthy_def sgv_env_def sgv_store_def sgv_ctl_def)

lemma sgv_send:
  "send_with_retry sgv_gh rq s =
     (Inr (sgv_response (if rq_bearer rq = None then ''U'' else ''E'')), s\<lparr>cs_requests := cs_requests s @ [rq]\<rparr>)"
  unfolding send_with_retry_def
  by (subst send_attempts.simps) (simp add: sgv_gh_def sgv_response_def is_retryable_status_def)

lemma sgv_envelope: "de_report_envelope (JObject [(''download_links'', JArray [JString ''h://x/y''])]) =
    Some \<lparr>re_download_links = [''h://x/y''], re_report_day = None\<rparr>"
  by code_simp

lemma sgv_host: "url_host ''h://x/y'' = Some ''x''"
  by code_simp

definition sgv_fetched :: "string \<Rightarrow> col_state \<Rightarrow> col_state" where
  "sgv_fetched report s = s\<lparr>cs_requests := cs_requests s @
     [\<lparr>rq_post = False, rq_url = ''b/orgs/o/copilot/metrics/reports/'' @ report @ ''?day=D'', rq_bearer = Some ''k''\<rparr>,
      \<lparr>rq_post = False, rq_url = ''h://x/y'', rq_bearer = None\<rparr>]\<rparr>"

lemma sgv_fetch:
  "fetch_report sgv_gh ''o'' report ''D'' ''k'' s =
     (Inr \<lparr>dr_bytes = ''U'', dr_host = Some ''x'', dr_empty = False\<rparr>, sgv_fetched report s)"
proof -
  have "gh_report sgv_gh = sgv_report" "gh_api_base sgv_gh = ''b''" "gh_text sgv_gh = (\<lambda>t. t)"
    by (simp_all add: sgv_gh_def)
  then show ?thesis
    by (simp add: fetch_report_def db_bind_def sgv_send sgv_response_def body_text_def col_lift_def sgv_report_def
        sgv_json_def sgv_envelope download_url_def read_capped_def MAX_REPORT_BYTES_def db_return_def sgv_host sgv_fetched_def)
qed

lemma sgv_archived:
  "archive_fn sgv_archive False key bytes s = (Inr (), s\<lparr>cs_writes := Suc (cs_writes s), cs_archive := AList.update key bytes (cs_archive s)\<rparr>)"
  by (simp add: archive_fn_def archive_write_def sgv_archive_def)

definition sgv_before :: col_state where
  "sgv_before = (sgv_fetched ''users-1-day'' sgv_state)\<lparr>cs_writes := 1,
     cs_archive := [(archive_key ''o'' ''users-1-day'' ''D'', ''U'')]\<rparr>"

definition sgv_after :: col_state where
  "sgv_after = snd (replay_report sgv_store sgv_report ''t'' ''o'' ''D'' ''users-1-day'' ''U'' sgv_before)"

lemma sgv_replayed:
  "replay_report sgv_store sgv_report ''t'' ''o'' ''D'' ''users-1-day'' ''U'' sgv_before = (Inr 1, sgv_after)"
proof -
  have "fst (replay_report sgv_store sgv_report ''t'' ''o'' ''D'' ''users-1-day'' ''U'' sgv_before) = Inr 1"
    by code_simp
  then show ?thesis by (simp add: sgv_after_def prod_eq_iff)
qed

definition sgv_outcome :: report_outcome where
  "sgv_outcome = \<lparr>ro_report = ''users-1-day'', ro_day = ''D'', ro_status = ''ok'', ro_record_count = 1, ro_host = Some ''x''\<rparr>"

lemma sgv_ingested:
  "ingest_one sgv_gh sgv_store ''t'' ''o'' ''D'' ''k'' (archive_fn sgv_archive False) False ''users-1-day'' sgv_state =
     (Inr sgv_outcome, sgv_after)"
proof -
  have "gh_report sgv_gh = sgv_report" by (simp add: sgv_gh_def)
  moreover have "(sgv_fetched ''users-1-day'' sgv_state)\<lparr>cs_writes := Suc (cs_writes (sgv_fetched ''users-1-day'' sgv_state)),
      cs_archive := AList.update (archive_key ''o'' ''users-1-day'' ''D'') ''U''
        (cs_archive (sgv_fetched ''users-1-day'' sgv_state))\<rparr> = sgv_before"
    by (simp add: sgv_before_def sgv_fetched_def sgv_state_def)
  ultimately show ?thesis
    by (simp add: ingest_one_def db_bind_def sgv_fetch sgv_archived sgv_replayed db_return_def sgv_outcome_def)
qed

lemma sgv_db_ok: "db_ok (run_tables sgv_state)"
  by (simp add: db_ok_def table_ok_def sgv_state_def sgv_db_def)

section \<open>Reports and their archive\<close>

text \<open>C10: When a run reports a report as stored, the archive holds, under the key of its day, the bytes
  the run downloaded, byte for byte, and replaying those bytes on a server that answers stores the report
  again with the same count and leaves every report table as it is.\<close>

theorem archived_report_replays:
  assumes "ingest_one gh sl tenant org day token (archive_fn al capture) False report s = (Inr out, s')"
    and "ro_status out = ''ok''" and "db_ok (run_tables s)" and "healthy env"
  shows "\<exists>dl s1 s''. fetch_report gh org report day token s = (Inr dl, s1) \<and> \<not> dr_empty dl \<and>
     map_of (cs_archive s') (archive_key org report day) = Some (dr_bytes dl) \<and>
     replay_report (sl\<lparr>sl_env := env\<rparr>) (gh_report gh) tenant org day report (dr_bytes dl) s' =
       (Inr (ro_record_count out), s'') \<and>
     reports_only (run_tables s'') = reports_only (run_tables s')"
  by (rule ingest_one_then_replay [OF assms])

theorem archived_report_replays_witness:
  "map_of (cs_archive sgv_after) (archive_key ''o'' ''users-1-day'' ''D'') = Some ''U'' \<and>
   (\<exists>s''. replay_report (sgv_store\<lparr>sl_env := sgv_env\<rparr>) (gh_report sgv_gh) ''t'' ''o'' ''D'' ''users-1-day'' ''U'' sgv_after =
       (Inr (ro_record_count sgv_outcome), s'') \<and>
     reports_only (run_tables s'') = reports_only (run_tables sgv_after))"
  using archived_report_replays [OF sgv_ingested _ sgv_db_ok sgv_healthy(1)]
  by (auto simp: sgv_outcome_def sgv_fetch)

text \<open>Whatever becomes of a report after its download, whether it does not parse, is refused by the
  database or is stored, its bytes are in the archive under the key of its day, provided the archive took
  the write.\<close>

theorem raw_report_archived_first:
  assumes "ingest_one gh sl tenant org day token (archive_fn al capture) freeze report s = (r, s')"
    and "fetch_report gh org report day token s = (Inr dl, s1)" and "\<not> dr_empty dl"
    and "ar_fault al (cs_writes s1) = None"
  shows "map_of (cs_archive s') (archive_key org report day) = Some (dr_bytes dl)"
  by (rule ingest_one_archived [OF assms])

theorem raw_report_archived_first_witness:
  "map_of (cs_archive sgv_after) (archive_key ''o'' ''users-1-day'' ''D'') = Some ''U''"
  using raw_report_archived_first [OF sgv_ingested sgv_fetch] by (simp add: sgv_archive_def)

text \<open>C38: A report with one user in two teams on one day is never stored: the identifier of a membership
  leaves out the team, so the second row violates the primary key, which the statement's conflict clause
  does not cover, and the whole batch is rolled back.\<close>

theorem user_in_two_teams_never_stored:
  assumes "healthy (sl_env sl)" and "table_ok tm_id team_key (user_teams (run_tables s))"
    and "\<forall>x \<in> set (user_teams (run_tables s)). plain_membership (sl_days sl) x"
    and "parse_user_team lib bytes ''user-teams-1-day'' day = Inr recs"
    and "\<forall>r \<in> set recs. plain_day (sl_days sl) (ut_report_day r)"
    and "r1 \<in> set recs" "r2 \<in> set recs" "ut_user_id r1 = ut_user_id r2" "ut_report_day r1 = ut_report_day r2"
      "ut_team_id r1 \<noteq> ut_team_id r2"
  shows "\<exists>s'. replay_report sl lib tenant org day ''user-teams-1-day'' bytes s =
       (Inl (Storage_error Unique_violation), s') \<and> run_tables s' = run_tables s"
proof -
  from two_teams_refused [OF assms(1-3,5-10)] obtain c where
    "upsert_user_team (sl_env sl) (sl_days sl) tenant org recs (cs_conn s) = (Inl Unique_violation, c)"
    "tables c = run_tables s" by blast
  then show ?thesis
    using assms(4) by (simp add: replay_report_def col_lift_def db_bind_def with_db_def storage_def)
qed

definition sgv_teams :: "user_team list" where
  "sgv_teams = [\<lparr>ut_user_id = ''u'', ut_team_id = ''a'', ut_team_slug = [], ut_report_day = ''D''\<rparr>,
     \<lparr>ut_user_id = ''u'', ut_team_id = ''b'', ut_team_slug = [], ut_report_day = ''D''\<rparr>]"

lemma sgv_parsed_teams:
  "parse_user_team sgv_report (''A'' @ newline # ''B'') ''user-teams-1-day'' ''D'' = Inr sgv_teams"
  by code_simp

theorem user_in_two_teams_never_stored_witness:
  "\<exists>s'. replay_report sgv_store sgv_report ''t'' ''o'' ''D'' ''user-teams-1-day'' (''A'' @ newline # ''B'') sgv_state =
     (Inl (Storage_error Unique_violation), s') \<and> run_tables s' = run_tables sgv_state"
  by (rule user_in_two_teams_never_stored [OF sgv_healthy(2) _ _ sgv_parsed_teams, where
        ?r1.0 = "sgv_teams ! 0" and ?r2.0 = "sgv_teams ! 1"])
    (simp_all add: sgv_teams_def sgv_state_def sgv_db_def table_ok_def plain_day_def sgv_store_def sgv_days_def)

section \<open>Runs\<close>

text \<open>C11: While writes are frozen, neither a backfill, nor a single day, nor a replay changes a table, and a
  decommission is refused, whatever GitHub, the archive, the sink and the server answer.\<close>

theorem freeze_window_is_read_only:
  assumes "cf_freeze_writes cfg"
  shows "run_tables (snd (run_backfill_at cl cfg today s)) = run_tables s \<and>
     run_tables (snd (run_sync_day cl cfg day s)) = run_tables s \<and>
     run_tables (snd (run_replay cl cfg from_day to_day s)) = run_tables s \<and>
     decommission cl cfg True shared s = (Inl Frozen, s)"
  using run_backfill_frozen [OF assms prod.collapse [symmetric]]
    keepsD [OF run_sync_day_frozen [OF assms] prod.collapse [symmetric]]
    keepsD [OF run_replay_frozen [OF assms] prod.collapse [symmetric]]
    decommission_frozen [OF assms, of cl True]
  by simp

theorem freeze_window_is_read_only_witness:
  "run_tables (snd (run_backfill_at sgv_ctl (sgv_config True) 2 sgv_after)) = run_tables sgv_after \<and>
     run_tables (snd (run_sync_day sgv_ctl (sgv_config True) ''D'' sgv_after)) = run_tables sgv_after \<and>
     run_tables (snd (run_replay sgv_ctl (sgv_config True) ''D'' ''D'' sgv_after)) = run_tables sgv_after \<and>
     decommission sgv_ctl (sgv_config True) True True sgv_after = (Inl Frozen, sgv_after)"
  by (rule freeze_window_is_read_only) (simp add: sgv_config_def)

text \<open>C13: A backfill whose query for the high-water mark is answered returns an account of exactly the wanted
  days: of those not older than the bound and not after the last published one, every day past the
  high-water mark, every day of the trailing window, and the last one. Each is counted as covered or listed
  as failed, and the run exits with success only if it covered a day, or none failed, and took its seat
  snapshot.\<close>

theorem backfill_accounts_for_every_day:
  assumes "run_backfill_at cl cfg today s = (Inr b, s')"
  shows "bo_covered b + length (bo_failed b) =
       card {x. wanted_day (mark_of cfg (run_tables s)) today (cf_lookback_days cfg) (cf_max_backfill_days cfg) x} \<and>
     set (map fst (bo_failed b)) \<subseteq> dl_show (sl_days (cl_store cl)) `
       {x. wanted_day (mark_of cfg (run_tables s)) today (cf_lookback_days cfg) (cf_max_backfill_days cfg) x} \<and>
     (exit_result b \<longleftrightarrow> (bo_failed b = [] \<or> bo_covered b > 0) \<and> (\<exists>n. bo_seats b = Inr n))"
proof -
  have "exit_result b \<longleftrightarrow> (bo_window_days b = 0 \<or> bo_covered b > 0) \<and> (\<exists>n. bo_seats b = Inr n)"
    by (auto simp: exit_result_def Let_def split: sum.splits)
  with run_backfill_days [OF assms] run_backfill_account [OF assms] show ?thesis by auto
qed

theorem backfill_accounts_for_every_day_witness:
  "\<exists>b s'. run_backfill_at sgv_ctl (sgv_config False) 2 sgv_state = (Inr b, s') \<and> bo_covered b + length (bo_failed b) = 1"
proof -
  obtain b s' where b: "run_backfill_at sgv_ctl (sgv_config False) 2 sgv_state = (Inr b, s')"
    using run_backfill_returns [OF sgv_healthy(3)] by blast
  have "mark_of (sgv_config False) (run_tables sgv_state) = None"
    by (simp add: mark_of_def max_option_def sgv_state_def sgv_db_def)
  then have "{x. wanted_day (mark_of (sgv_config False) (run_tables sgv_state)) 2
      (cf_lookback_days (sgv_config False)) (cf_max_backfill_days (sgv_config False)) x} = {1}"
    by (auto simp: wanted_day_def sgv_config_def COPILOT_DATA_LAG_DAYS_def)
  with backfill_accounts_for_every_day [OF b] b show ?thesis by auto
qed

section \<open>Cutover\<close>

text \<open>C12: A decommission that changes a table was confirmed, ran outside the freeze window, and found every
  manifest of its tenant and organization in agreement with the archive; it drops only the tables of its
  list, in one step, and keeps the team memberships, the manifests and the archive. On a server that
  answers nothing else stands in its way: the referring tables are dropped before the one they refer to.\<close>

theorem decommission_needs_matching_archive:
  assumes "decommission cl cfg confirm shared s = (r, s')"
  shows "(run_tables s' \<noteq> run_tables s \<longrightarrow>
       confirm \<and> \<not> cf_freeze_writes cfg \<and>
       (\<forall>m \<in> set (manifests_of cfg (run_tables s)). archive_agrees cl cfg (cs_archive s) m) \<and>
       user_teams (run_tables s') = user_teams (run_tables s) \<and>
       ingest_manifests (run_tables s') = ingest_manifests (run_tables s) \<and>
       set (db_tables (run_tables s')) = set (db_tables (run_tables s)) - set (dropped_tables shared)) \<and>
     (healthy (sl_env (cl_store cl)) \<and> confirm \<and> \<not> cf_freeze_writes cfg \<and>
        (\<forall>m \<in> set (manifests_of cfg (run_tables s)). check_archive cl cfg (cs_archive s) m = None) \<longrightarrow>
      r = Inr (dropped_tables shared))"
  using decommission_effect [OF assms] decommission_accepted [of cl cfg s shared] assms by auto

lemma sgv_decommissioned:
  "\<exists>s'. decommission sgv_ctl (sgv_config False) True True sgv_state = (Inr (dropped_tables True), s') \<and>
     run_tables s' \<noteq> run_tables sgv_state"
proof -
  have "manifests_of (sgv_config False) (run_tables sgv_state) = []"
    by (simp add: manifests_of_def sgv_state_def sgv_db_def)
  then obtain s' where d: "decommission sgv_ctl (sgv_config False) True True sgv_state = (Inr (dropped_tables True), s')"
    using decommission_accepted [OF sgv_healthy(3), of "sgv_config False" sgv_state True] by (auto simp: sgv_config_def)
  have "''executions'' \<in> set (db_tables (run_tables sgv_state)) - set (db_tables (run_tables s'))"
    using decommission_effect [OF d] by (auto simp: sgv_state_def sgv_db_def dropped_tables_def SHARED_TABLES_def)
  with d show ?thesis by auto
qed

theorem decommission_needs_matching_archive_witness:
  "\<exists>s'. decommission sgv_ctl (sgv_config False) True True sgv_state = (Inr (dropped_tables True), s') \<and>
     user_teams (run_tables s') = user_teams (run_tables sgv_state)"
proof -
  obtain s' where s': "decommission sgv_ctl (sgv_config False) True True sgv_state = (Inr (dropped_tables True), s')"
    "run_tables s' \<noteq> run_tables sgv_state" using sgv_decommissioned by blast
  with decommission_needs_matching_archive [OF s'(1)] show ?thesis by blast
qed

text \<open>An emission in strict mode, which is how every run emits while writes are frozen, hands the sink
  records with pairwise different keys or hands it nothing, and the count it answers is their number.\<close>

theorem strict_emission_never_collides:
  assumes "emit_rows sl tenant org rows True sk = (r, sk')"
  shows "\<exists>recs. sk_handed sk' = sk_handed sk @ recs \<and> distinct (map collision_key recs) \<and>
     (\<forall>n. r = Inr n \<longrightarrow> n = length recs)"
  by (rule emit_rows_strict [OF assms])

definition sgv_sink :: sink_lib where
  "sgv_sink = \<lparr>sk_flush = (\<lambda>_. None), sk_report = sgv_report\<rparr>"

theorem strict_emission_never_collides_witness:
  "\<exists>recs. sk_handed (snd (emit_rows sgv_sink ''t'' ''o'' [] True (cs_sink sgv_state))) =
     sk_handed (cs_sink sgv_state) @ recs \<and> distinct (map collision_key recs)"
  using strict_emission_never_collides [OF prod.collapse [symmetric], of sgv_sink "''t''" "''o''" "[]" "cs_sink sgv_state"]
  by blast

text \<open>Listing the seats ends whatever the links say: it asks for at most 200 pages, each at most three
  times, and keeps no page of more than 16 MiB.\<close>

theorem seat_listing_is_bounded:
  assumes "fetch_seats gh org token s = (r, s')"
  shows "length (cs_requests s') \<le> length (cs_requests s) + 600 \<and>
     (\<forall>ps. r = Inr ps \<longrightarrow> length ps \<le> 200 \<and> (\<forall>p \<in> set ps. length p \<le> 16777216))"
  using fetch_pages_bounds [OF assms [unfolded fetch_seats_def]]
  by (simp add: MAX_SEAT_PAGES_def MAX_ATTEMPTS_def MAX_SEATS_PAGE_BYTES_def)

theorem seat_listing_is_bounded_witness:
  "length (cs_requests (snd (fetch_seats sgv_gh ''o'' ''k'' sgv_state))) \<le> 600"
  using seat_listing_is_bounded [OF prod.collapse [symmetric], of sgv_gh "''o''" "''k''" sgv_state]
  by (simp add: sgv_state_def)

text \<open>The comparison of manifests with tables lists exactly the manifests of the organization whose
  count differs from the rows the tables hold for their report and day, newest day first, and changes
  nothing, provided the server reads back the days it prints.\<close>

theorem verify_lists_exactly_the_drift:
  assumes "verify_manifests env dl tenant provider scope c = (Inr drift, c')"
    and "\<forall>m \<in> set (ingest_manifests (tables c)). dl_cast dl (dl_show dl (mf_day m)) = Some (mf_day m)"
  shows "tables c' = tables c \<and>
     map (\<lambda>x. (md_day x, md_report x, md_expected x)) drift =
       map (\<lambda>m. (dl_show dl (mf_day m), mf_report m, mf_record_count m))
         (filter (\<lambda>m. \<not> rows_agree tenant scope (tables c) m)
            (sort_key (\<lambda>m. - mf_day m) (filter (\<lambda>m. mf_tenant m = tenant \<and> mf_provider m = provider \<and> mf_scope m = scope)
               (ingest_manifests (tables c)))))"
  by (rule verify_manifests_Inr [OF assms])

lemma sgv_manifests:
  "map (\<lambda>m. (mf_day m, mf_report m, mf_record_count m)) (ingest_manifests (run_tables sgv_after)) = [(1, ''users-1-day'', 1)]"
  "fst (verify_manifests sgv_env sgv_days ''t'' PROVIDER ''o'' (cs_conn sgv_after)) = Inr []"
  by code_simp+

theorem verify_lists_exactly_the_drift_witness:
  "tables (snd (verify_manifests sgv_env sgv_days ''t'' PROVIDER ''o'' (cs_conn sgv_after))) = run_tables sgv_after"
proof -
  have v: "verify_manifests sgv_env sgv_days ''t'' PROVIDER ''o'' (cs_conn sgv_after) =
      (Inr [], snd (verify_manifests sgv_env sgv_days ''t'' PROVIDER ''o'' (cs_conn sgv_after)))"
    using sgv_manifests(2) by (simp add: prod_eq_iff)
  have "mf_day ` set (ingest_manifests (run_tables sgv_after)) = {1}"
    using arg_cong [OF sgv_manifests(1), of "\<lambda>xs. fst ` set xs"] by (simp add: image_image)
  then have "\<forall>m \<in> set (ingest_manifests (run_tables sgv_after)). dl_cast sgv_days (dl_show sgv_days (mf_day m)) = Some (mf_day m)"
    by (auto simp: sgv_days_def)
  from verify_lists_exactly_the_drift [OF v this] show ?thesis ..
qed

end
