(* ===== verification/Gov_Credential.thy ===== *)
theory Gov_Credential
  imports Gov_Batch Gov_Store
begin

text \<open>
  Integration credentials: their issue, revocation and lookup (\<open>crates/governance-core/src/credential.rs\<close>),
  the review of a caller's token by the Kubernetes API server (\<open>app/lightbridge-governance/src/authn.rs\<close>),
  and the endpoint \<open>/internal/v1/resolve\<close> with its cache (\<open>resolve.rs\<close>).

  The tables hold the columns the sources read or write. What is not under \<open>src/\<close> is a parameter: the
  digest, the generated reads of \<open>cratestack\<close> with their policies, the Kubernetes API server, the JSON
  parser, and the entries the cache drops before their time.
\<close>

section \<open>Tables\<close>

record application_row =
  ap_id :: string
  ap_tenant :: string

record environment_row =
  ev_id :: string
  ev_application :: string
  ev_name :: string

record integration_row =
  in_id :: string
  in_tenant :: string
  in_application :: string
  in_environment :: string
  in_provider :: string
  in_prefix :: string
  in_hash :: string
  in_status :: string
  in_content_capture :: string
  in_internal_user :: "string option"
  in_revoked_at :: "int option"
  in_last_telemetry_at :: "int option"

record identity_map_row =
  im_id :: string
  im_tenant :: string
  im_provider :: string
  im_provider_user :: string
  im_internal_user :: "string option"
  im_source :: string
  im_valid_from :: int
  im_valid_to :: "int option"

record execution_row =
  ex_id :: string
  ex_tenant :: string
  ex_integration :: string
  ex_provider :: string
  ex_trace :: string
  ex_span :: string
  ex_user_email :: "string option"
  ex_internal_user :: "string option"
  ex_started_at :: int
  ex_duration :: int
  ex_cost :: "int option"
  ex_updated_at :: int

record model_call_row =
  mc_id :: string
  mc_execution :: string
  mc_trace :: string
  mc_span :: string
  mc_model :: string
  mc_input_tokens :: "int option"
  mc_output_tokens :: "int option"
  mc_cost :: "int option"
  mc_updated_at :: int

record tool_call_row =
  tc_id :: string
  tc_execution :: string
  tc_trace :: string
  tc_span :: string
  tc_name :: string
  tc_duration :: int
  tc_updated_at :: int

record pricing_row =
  pr_model :: string
  pr_input_rate :: int
  pr_output_rate :: int
  pr_effective_from :: int
  pr_effective_to :: "int option"

record gov_db =
  gv_tenants :: "string list"
  gv_applications :: "application_row list"
  gv_environments :: "environment_row list"
  gv_integrations :: "integration_row list"
  gv_identity_maps :: "identity_map_row list"
  gv_executions :: "execution_row list"
  gv_model_calls :: "model_call_row list"
  gv_tool_calls :: "tool_call_row list"
  gv_pricing :: "pricing_row list"

datatype core_error =
    Not_found string
  | Validation string
  | Internal string
  | Storage db_error

type_synonym 'a coreop = "gov_db conn \<Rightarrow> (core_error + 'a) \<times> gov_db conn"

definition core_op :: "(gov_db, 'a) dbop \<Rightarrow> 'a coreop" where
  "core_op f c = (case f c of (r, c') \<Rightarrow> (res_map_err Storage r, c'))"

definition core_fail :: "core_error \<Rightarrow> 'a coreop" where
  "core_fail e c = (Inl e, c)"

definition core_lift :: "core_error + 'a \<Rightarrow> 'a coreop" where
  "core_lift r c = (r, c)"

section \<open>Credentials\<close>

text \<open>\<open>cl_application\<close>, \<open>cl_environment\<close> and \<open>cl_integration\<close> are the generated reads for one caller;
  \<open>cl_sha256\<close> is the hexadecimal digest and \<open>cl_base64\<close> the encoding of the random bytes.\<close>

record core_lib =
  cl_sha256 :: "string \<Rightarrow> string"
  cl_base64 :: "string \<Rightarrow> string"
  cl_application :: "gov_db \<Rightarrow> string \<Rightarrow> application_row option"
  cl_environment :: "gov_db \<Rightarrow> string \<Rightarrow> environment_row option"
  cl_integration :: "gov_db \<Rightarrow> string \<Rightarrow> integration_row option"

definition SECRET_PREFIX :: string where
  "SECRET_PREFIX = ''gov_''"

definition DISPLAY_PREFIX_LEN :: nat where
  "DISPLAY_PREFIX_LEN = 12"

definition DEFAULT_CONTENT_CAPTURE :: string where
  "DEFAULT_CONTENT_CAPTURE = ''metadata_only''"

definition generate_secret :: "core_lib \<Rightarrow> string option \<Rightarrow> core_error + string" where
  "generate_secret lib random =
     (case random of
        None \<Rightarrow> Inl (Internal ''csprng failure'')
      | Some bytes \<Rightarrow> Inr (SECRET_PREFIX @ cl_base64 lib bytes))"

definition hash_secret :: "core_lib \<Rightarrow> string \<Rightarrow> string" where
  "hash_secret lib secret = cl_sha256 lib secret"

definition display_prefix :: "string \<Rightarrow> string" where
  "display_prefix secret = take DISPLAY_PREFIX_LEN secret"

record issue_input =
  ii_application :: string
  ii_environment :: string
  ii_provider :: string
  ii_content_capture :: "string option"
  ii_internal_user :: "string option"

record integration_credential =
  ic_integration :: integration_row
  ic_secret :: string

text \<open>An insert checks the primary key and the three references.\<close>

definition insert_integration :: "integration_row \<Rightarrow> (gov_db, unit) stmt" where
  "insert_integration r t =
     (if list_ex (\<lambda>i. in_id i = in_id r) (gv_integrations t) then Inl Unique_violation
      else if \<not> (List.member (gv_tenants t) (in_tenant r) \<and>
                  list_ex (\<lambda>a. ap_id a = in_application r) (gv_applications t) \<and>
                  list_ex (\<lambda>e. ev_id e = in_environment r) (gv_environments t))
      then Inl Missing_reference
      else Inr ((), t\<lparr>gv_integrations := gv_integrations t @ [r]\<rparr>))"

definition find_unique :: "db_env \<Rightarrow> (gov_db \<Rightarrow> 'r option) \<Rightarrow> 'r option coreop" where
  "find_unique env q = core_op (exec_auto env (query (\<lambda>t. Inr (q t))))"

definition new_integration :: "core_lib \<Rightarrow> string \<Rightarrow> string \<Rightarrow> issue_input \<Rightarrow> string \<Rightarrow> integration_row" where
  "new_integration lib new_id tenant args secret =
     \<lparr>in_id = new_id, in_tenant = tenant, in_application = ii_application args,
      in_environment = ii_environment args, in_provider = ii_provider args,
      in_prefix = display_prefix secret, in_hash = hash_secret lib secret, in_status = ''active'',
      in_content_capture = (case ii_content_capture args of None \<Rightarrow> DEFAULT_CONTENT_CAPTURE | Some m \<Rightarrow> m),
      in_internal_user = ii_internal_user args, in_revoked_at = None, in_last_telemetry_at = None\<rparr>"

definition issue :: "db_env \<Rightarrow> core_lib \<Rightarrow> string \<Rightarrow> string option \<Rightarrow> issue_input \<Rightarrow> integration_credential coreop" where
  "issue env lib new_id random args =
     db_bind (find_unique env (\<lambda>t. cl_application lib t (ii_application args))) (\<lambda>app_opt.
       case app_opt of
         None \<Rightarrow> core_fail (Validation ''application not found'')
       | Some app \<Rightarrow>
           db_bind (find_unique env (\<lambda>t. cl_environment lib t (ii_environment args))) (\<lambda>env_opt.
             case env_opt of
               None \<Rightarrow> core_fail (Validation ''environment not found'')
             | Some en \<Rightarrow>
                 (if ev_application en \<noteq> ii_application args
                  then core_fail (Validation ''environment does not belong to the given application'')
                  else
                    db_bind (core_lift (generate_secret lib random)) (\<lambda>secret.
                    db_bind (core_op (exec_auto env (insert_integration
                      (new_integration lib new_id (ap_tenant app) args secret))))
                      (\<lambda>_. db_bind (find_unique env (\<lambda>t. cl_integration lib t new_id)) (\<lambda>i_opt.
                         case i_opt of
                           None \<Rightarrow> core_fail (Internal ''just-inserted integration not found'')
                         | Some i \<Rightarrow> db_return \<lparr>ic_integration = i, ic_secret = secret\<rparr>))))))"

definition mark_revoked :: "int \<Rightarrow> string \<Rightarrow> integration_row \<Rightarrow> integration_row" where
  "mark_revoked now iid i =
     (if in_id i = iid \<and> in_status i = ''active'' then i\<lparr>in_status := ''revoked'', in_revoked_at := Some now\<rparr> else i)"

definition revoke :: "db_env \<Rightarrow> core_lib \<Rightarrow> string \<Rightarrow> integration_row coreop" where
  "revoke env lib iid c =
     (let now = env_now env (sent c) in
      db_bind (core_op (exec_auto env (\<lambda>t. Inr ((), t\<lparr>gv_integrations := map (mark_revoked now iid) (gv_integrations t)\<rparr>))))
        (\<lambda>_. db_bind (find_unique env (\<lambda>t. cl_integration lib t iid)) (\<lambda>i_opt.
           case i_opt of
             None \<Rightarrow> core_fail (Not_found ''integration not found'')
           | Some i \<Rightarrow> db_return i)) c)"

record resolved_identity =
  ri_tenant :: string
  ri_application :: string
  ri_environment :: string
  ri_integration :: string

text \<open>The join of the integrations with their environments, under one digest. \<open>fetch_optional\<close> takes the
  first row; without an index on the digest the order is the server's, which here is the table's.\<close>

definition resolve_row :: "string \<Rightarrow> gov_db \<Rightarrow> (integration_row \<times> environment_row) option" where
  "resolve_row hash t =
     find (\<lambda>(i, e). in_hash i = hash \<and> ev_id e = in_environment i)
       (List.product (gv_integrations t) (gv_environments t))"

definition resolve_identity :: "db_env \<Rightarrow> core_lib \<Rightarrow> string \<Rightarrow> gov_db conn \<Rightarrow> resolved_identity option \<times> gov_db conn" where
  "resolve_identity env lib presented c =
     (case exec_auto env (query (\<lambda>t. Inr (resolve_row (hash_secret lib presented) t))) c of
        (Inl _, c') \<Rightarrow> (None, c')
      | (Inr None, c') \<Rightarrow> (None, c')
      | (Inr (Some (i, e)), c') \<Rightarrow>
          (if in_status i = ''active''
           then (Some \<lparr>ri_tenant = in_tenant i, ri_application = in_application i, ri_environment = ev_name e,
                       ri_integration = in_id i\<rparr>, c')
           else (None, c')))"

section \<open>Review of a caller's token\<close>

datatype verify_error = Unreachable | Rejected | Not_allowed

record token_review_status =
  tr_authenticated :: bool
  tr_audiences :: "string list"
  tr_user :: "string option"

definition de_token_review_user :: "string decoder" where
  "de_token_review_user j = do { v \<leftarrow> de_struct_text [[''username'']] j; field_required as_str_val v 0 }"

definition de_token_review_status :: "token_review_status decoder" where
  "de_token_review_status j = do {
     v \<leftarrow> de_struct_text [[''authenticated''], [''audiences''], [''user'']] j;
     a \<leftarrow> field_required as_bool v 0;
     auds \<leftarrow> field_default (de_vec as_str_val) [] v 1;
     u \<leftarrow> field_default (de_option de_token_review_user) None v 2;
     Some \<lparr>tr_authenticated = a, tr_audiences = auds, tr_user = u\<rparr> }"

definition de_token_review :: "token_review_status decoder" where
  "de_token_review j = do { v \<leftarrow> de_struct_text [[''status'']] j; field_required de_token_review_status v 0 }"

text \<open>A request without an answer, or the status of the answer and its document if it is one.\<close>

datatype kube_answer = No_answer | Kube_answer nat "json option"

record verifier =
  vf_kube :: "string \<Rightarrow> string \<Rightarrow> string list \<Rightarrow> kube_answer"
  vf_own_token :: "string option"
  vf_audiences :: "string list"
  vf_allowed :: "string list"

definition normalize_username :: "string \<Rightarrow> string" where
  "normalize_username username =
     (case strip_prefix ''system:serviceaccount:'' username of
        None \<Rightarrow> username
      | Some s \<Rightarrow> map (\<lambda>ch. if ch = CHR '':'' then CHR ''/'' else ch) s)"

definition verify_token :: "verifier \<Rightarrow> string \<Rightarrow> verify_error + unit" where
  "verify_token vf bearer_token =
     (let own = (case vf_own_token vf of None \<Rightarrow> [] | Some t \<Rightarrow> str_trim t) in
      case vf_kube vf own bearer_token (vf_audiences vf) of
        No_answer \<Rightarrow> Inl Unreachable
      | Kube_answer status body \<Rightarrow>
          (if \<not> (200 \<le> status \<and> status < 300) then Inl Unreachable
           else case Option.bind body de_token_review of
             None \<Rightarrow> Inl Unreachable
           | Some review \<Rightarrow>
               (if \<not> tr_authenticated review then Inl Rejected
                else if \<not> list_ex (\<lambda>a. List.member (vf_audiences vf) a) (tr_audiences review) then Inl Rejected
                else if \<not> List.member (vf_allowed vf)
                       (normalize_username (case tr_user review of None \<Rightarrow> [] | Some u \<Rightarrow> u)) then Inl Not_allowed
                else Inr ())))"

section \<open>The cache\<close>

text \<open>Entries with the time of their insertion. An entry is served before its time to live has passed,
  unless the cache dropped it earlier, which \<open>dropped\<close> says.\<close>

record cache_entry =
  ce_identity :: resolved_identity
  ce_at :: nat

type_synonym resolve_cache = "(string, cache_entry) hmap"

definition cache_get :: "(string \<Rightarrow> bool) \<Rightarrow> nat \<Rightarrow> nat \<Rightarrow> string \<Rightarrow> resolve_cache \<Rightarrow> resolved_identity option" where
  "cache_get dropped ttl now key m =
     (case map_of m key of
        None \<Rightarrow> None
      | Some e \<Rightarrow> (if now < ce_at e + ttl \<and> \<not> dropped key then Some (ce_identity e) else None))"

definition cache_insert :: "nat \<Rightarrow> string \<Rightarrow> resolved_identity \<Rightarrow> resolve_cache \<Rightarrow> resolve_cache" where
  "cache_insert now key identity m = AList.update key \<lparr>ce_identity = identity, ce_at = now\<rparr> m"

section \<open>The endpoint\<close>

datatype reject_reason = Missing_token | Token_review_failed | Malformed_body | Credential_rejected | Timeout

record resolve_lib =
  rs_core :: core_lib
  rs_env :: db_env
  rs_json :: "string \<Rightarrow> json option"
  rs_verifier :: verifier
  rs_ttl :: nat
  rs_timeout :: nat
  rs_dropped :: "nat \<Rightarrow> string \<Rightarrow> bool"

definition visible_ascii :: "char \<Rightarrow> bool" where
  "visible_ascii ch = (let b = of_char ch :: nat in 32 \<le> b \<and> b < 127 \<or> b = 9)"

definition extract_bearer_token :: "(string \<times> string) list \<Rightarrow> string option" where
  "extract_bearer_token headers =
     (case map_of headers ''authorization'' of
        None \<Rightarrow> None
      | Some v \<Rightarrow> (if list_all visible_ascii v then strip_prefix ''Bearer '' v else None))"

definition cache_key :: "core_lib \<Rightarrow> string \<Rightarrow> string" where
  "cache_key lib credential = cl_sha256 lib credential"

definition de_resolve_request :: "string decoder" where
  "de_resolve_request j = do { v \<leftarrow> de_struct_text [[''credential'']] j; field_required as_str_val v 0 }"

text \<open>What a request asks for, once its caller and its body have passed.\<close>

definition admit :: "resolve_lib \<Rightarrow> (string \<times> string) list \<Rightarrow> string \<Rightarrow> reject_reason + string" where
  "admit rl headers body =
     (case extract_bearer_token headers of
        None \<Rightarrow> Inl Missing_token
      | Some bearer \<Rightarrow>
          (case verify_token (rs_verifier rl) bearer of
             Inl _ \<Rightarrow> Inl Token_review_failed
           | Inr _ \<Rightarrow>
               (case Option.bind (rs_json rl body) de_resolve_request of
                  None \<Rightarrow> Inl Malformed_body
                | Some credential \<Rightarrow> Inr credential)))"

text \<open>The handler, from start to end: \<open>now\<close> is the time at its start and \<open>took\<close> the time its lookup takes.\<close>

definition handle :: "resolve_lib \<Rightarrow> (string \<times> string) list \<Rightarrow> string \<Rightarrow> nat \<Rightarrow> nat \<Rightarrow> resolve_cache \<Rightarrow> gov_db conn \<Rightarrow>
    (reject_reason + resolved_identity) \<times> resolve_cache \<times> gov_db conn" where
  "handle rl headers body now took m c =
     (case admit rl headers body of
        Inl e \<Rightarrow> (Inl e, m, c)
      | Inr credential \<Rightarrow>
          (let key = cache_key (rs_core rl) credential in
           case cache_get (rs_dropped rl now) (rs_ttl rl) now key m of
             Some identity \<Rightarrow> (Inr identity, m, c)
           | None \<Rightarrow>
               (case resolve_identity (rs_env rl) (rs_core rl) credential c of
                  (found, c') \<Rightarrow>
                    (if took > rs_timeout rl then (Inl Timeout, m, c')
                     else case found of
                       None \<Rightarrow> (Inl Credential_rejected, m, c')
                     | Some identity \<Rightarrow>
                         (Inr identity, cache_insert (now + took) key identity m, c')))))"

text \<open>Every rejection is the same answer.\<close>

definition resolve_response :: "reject_reason + resolved_identity \<Rightarrow> nat \<times> resolved_identity option" where
  "resolve_response r = (case r of Inr identity \<Rightarrow> (200, Some identity) | Inl _ \<Rightarrow> (401, None))"

end
