(* ===== verification/Gov_Resolve.thy ===== *)
theory Gov_Resolve
  imports Gov_Credential
begin

text \<open>
  What the endpoint promises: an answer needs a reviewed caller and an active row, a credential that was
  issued resolves to its integration, and a revoked one stops resolving. For the last, the handler is a
  machine whose requests interleave: a lookup is read from the database at one time and answered and
  cached at a later one, and a revocation may fall in between.
\<close>

section \<open>Lookups\<close>

lemma resolve_row_Some:
  "resolve_row h t = Some (i, e) \<Longrightarrow> i \<in> set (gv_integrations t) \<and> e \<in> set (gv_environments t) \<and>
     in_hash i = h \<and> ev_id e = in_environment i"
proof -
  assume a: "resolve_row h t = Some (i, e)"
  then have "(i, e) \<in> set (List.product (gv_integrations t) (gv_environments t))"
    unfolding resolve_row_def find_Some_iff by (metis nth_mem)
  with a show ?thesis by (auto simp: resolve_row_def find_Some_iff)
qed

lemma resolve_identity_Some:
  assumes "resolve_identity env lib presented c = (Some identity, c')"
  shows "tables c' = tables c \<and> (\<exists>i \<in> set (gv_integrations (tables c)). \<exists>e \<in> set (gv_environments (tables c)).
     in_hash i = hash_secret lib presented \<and> in_status i = ''active'' \<and> ev_id e = in_environment i \<and>
     identity = \<lparr>ri_tenant = in_tenant i, ri_application = in_application i, ri_environment = ev_name e,
       ri_integration = in_id i\<rparr>)"
  using assms
  by (auto simp: resolve_identity_def exec_auto_Inr query_def split: prod.splits sum.splits option.splits if_splits
      dest!: resolve_row_Some)

lemma resolve_identity_tables: "resolve_identity env lib presented c = (r, c') \<Longrightarrow> tables c' = tables c"
  by (auto simp: resolve_identity_def exec_auto_def query_def Let_def
      split: prod.splits sum.splits option.splits if_splits db_fault.splits)

section \<open>The machine\<close>

record lookup_read =
  lr_key :: string
  lr_identity :: resolved_identity
  lr_at :: nat

record service =
  sv_conn :: "gov_db conn"
  sv_cache :: resolve_cache
  sv_now :: nat
  sv_flight :: "lookup_read list"

datatype svc_event = Answered resolved_identity | Quiet

inductive svc_step :: "resolve_lib \<Rightarrow> service \<Rightarrow> svc_event \<Rightarrow> service \<Rightarrow> bool" for rl where
  hit: "admit rl headers body = Inr credential \<Longrightarrow>
     cache_get (rs_dropped rl (sv_now s)) (rs_ttl rl) (sv_now s) (cache_key (rs_core rl) credential) (sv_cache s) = Some identity \<Longrightarrow>
     svc_step rl s (Answered identity) s"
| read: "admit rl headers body = Inr credential \<Longrightarrow>
     resolve_identity (rs_env rl) (rs_core rl) credential (sv_conn s) = (Some identity, c) \<Longrightarrow>
     svc_step rl s Quiet (s\<lparr>sv_conn := c,
       sv_flight := \<lparr>lr_key = cache_key (rs_core rl) credential, lr_identity = identity, lr_at = sv_now s\<rparr> # sv_flight s\<rparr>)"
| refuse: "resolve_identity (rs_env rl) (rs_core rl) credential (sv_conn s) = (None, c) \<Longrightarrow>
     svc_step rl s Quiet (s\<lparr>sv_conn := c\<rparr>)"
| finish: "x \<in> set (sv_flight s) \<Longrightarrow> sv_now s \<le> lr_at x + rs_timeout rl \<Longrightarrow>
     svc_step rl s (Answered (lr_identity x))
       (s\<lparr>sv_cache := cache_insert (sv_now s) (lr_key x) (lr_identity x) (sv_cache s),
          sv_flight := remove1 x (sv_flight s)\<rparr>)"
| abandon: "x \<in> set (sv_flight s) \<Longrightarrow> svc_step rl s Quiet (s\<lparr>sv_flight := remove1 x (sv_flight s)\<rparr>)"
| revoke: "revoke (rs_env rl) (rs_core rl) iid (sv_conn s) = (r, c) \<Longrightarrow> svc_step rl s Quiet (s\<lparr>sv_conn := c\<rparr>)"
| issue: "issue (rs_env rl) (rs_core rl) new_id random args (sv_conn s) = (q, c) \<Longrightarrow> svc_step rl s Quiet (s\<lparr>sv_conn := c\<rparr>)"
| tick: "svc_step rl s Quiet (s\<lparr>sv_now := sv_now s + d\<rparr>)"

inductive svc_reach :: "resolve_lib \<Rightarrow> service \<Rightarrow> service \<Rightarrow> bool" for rl where
  here: "svc_reach rl s s"
| more_steps: "svc_reach rl s s1 \<Longrightarrow> svc_step rl s1 ev s2 \<Longrightarrow> svc_reach rl s s2"

text \<open>One run of the handler with an undisturbed lookup is a run of the machine.\<close>

lemma handle_is_a_run:
  assumes "handle rl headers body (sv_now s) took (sv_cache s) (sv_conn s) = (Inr identity, m, c)"
  shows "svc_step rl s (Answered identity) s \<and> m = sv_cache s \<and> c = sv_conn s \<or>
     (\<exists>s1 s2. svc_reach rl s s1 \<and> svc_step rl s1 (Answered identity) s2 \<and> sv_cache s2 = m \<and> sv_conn s2 = c \<and>
        sv_now s2 = sv_now s + took \<and> sv_flight s2 = sv_flight s)"
proof -
  from assms obtain credential where a: "admit rl headers body = Inr credential"
    by (auto simp: handle_def split: sum.splits)
  let ?key = "cache_key (rs_core rl) credential"
  show ?thesis
  proof (cases "cache_get (rs_dropped rl (sv_now s)) (rs_ttl rl) (sv_now s) ?key (sv_cache s)")
    case (Some identity')
    with assms a have "identity' = identity" "m = sv_cache s" "c = sv_conn s" by (simp_all add: handle_def)
    with a Some show ?thesis by (auto intro: svc_step.hit)
  next
    case None
    obtain found c1 where r: "resolve_identity (rs_env rl) (rs_core rl) credential (sv_conn s) = (found, c1)"
      by (cases "resolve_identity (rs_env rl) (rs_core rl) credential (sv_conn s)")
    with assms a None have t: "took \<le> rs_timeout rl" and f: "found = Some identity" "c1 = c"
        "m = cache_insert (sv_now s + took) ?key identity (sv_cache s)"
      by (auto simp: handle_def split: if_splits option.splits)
    let ?x = "\<lparr>lr_key = ?key, lr_identity = identity, lr_at = sv_now s\<rparr>"
    let ?s1 = "s\<lparr>sv_conn := c, sv_flight := ?x # sv_flight s\<rparr>"
    let ?s2 = "?s1\<lparr>sv_now := sv_now ?s1 + took\<rparr>"
    have "svc_reach rl s ?s2"
      using svc_step.read [OF a r [unfolded f]] svc_step.tick [of rl ?s1 took]
      by (blast intro: svc_reach.intros)
    moreover have "svc_step rl ?s2 (Answered (lr_identity ?x))
        (?s2\<lparr>sv_cache := cache_insert (sv_now ?s2) (lr_key ?x) (lr_identity ?x) (sv_cache ?s2),
             sv_flight := remove1 ?x (sv_flight ?s2)\<rparr>)"
      using t by (intro svc_step.finish) simp_all
    ultimately show ?thesis using f by (intro disjI2 exI conjI) (assumption | simp)+
  qed
qed

section \<open>Revocation\<close>

text \<open>An integration that is there and not active.\<close>

definition inactive :: "string \<Rightarrow> gov_db \<Rightarrow> bool" where
  "inactive iid t \<longleftrightarrow> iid \<in> in_id ` set (gv_integrations t) \<and>
     (\<forall>i \<in> set (gv_integrations t). in_id i = iid \<longrightarrow> in_status i \<noteq> ''active'')"

lemma inactive_not_found:
  "resolve_identity env lib presented c = (Some identity, c') \<Longrightarrow> inactive iid (tables c) \<Longrightarrow> ri_integration identity \<noteq> iid"
  by (auto simp: inactive_def dest!: resolve_identity_Some)

lemma mark_revoked_id [simp]: "in_id (mark_revoked now iid i) = in_id i"
  by (simp add: mark_revoked_def)

lemma mark_revoked_status: "in_status (mark_revoked now iid i) = ''active'' \<Longrightarrow> in_status i = ''active'' \<and> in_id i \<noteq> iid"
  by (auto simp: mark_revoked_def split: if_splits)

lemma find_unique_tables: "find_unique env q c = (r, c') \<Longrightarrow> tables c' = tables c"
  by (auto simp: find_unique_def core_op_def query_def exec_auto_def Let_def
      split: prod.splits option.splits db_fault.splits)

text \<open>What the three operations on credentials do to the tables.\<close>

lemma update_Inr:
  "core_op (exec_auto env (\<lambda>t. Inr ((), f t))) c = (r, c') \<Longrightarrow> tables c' = tables c \<or> tables c' = f (tables c)"
  by (auto simp: core_op_def exec_auto_def Let_def split: option.splits db_fault.splits)

lemma revoke_tables:
  assumes "revoke env lib iid c = (r, c')"
  shows "tables c' = tables c \<and> (\<exists>e. r = Inl e) \<or>
     tables c' = (tables c)\<lparr>gv_integrations := map (mark_revoked (env_now env (sent c)) iid) (gv_integrations (tables c))\<rparr>"
proof -
  let ?u = "core_op (exec_auto env (\<lambda>t. Inr ((), t\<lparr>gv_integrations :=
      map (mark_revoked (env_now env (sent c)) iid) (gv_integrations t)\<rparr>)))"
  obtain q c1 where u: "?u c = (q, c1)" by (cases "?u c")
  show ?thesis
  proof (cases q)
    case (Inl e)
    with assms u update_Inr [OF u] show ?thesis by (auto simp: revoke_def Let_def db_bind_def)
  next
    case (Inr x)
    with u have t1: "tables c1 = (tables c)\<lparr>gv_integrations :=
        map (mark_revoked (env_now env (sent c)) iid) (gv_integrations (tables c))\<rparr>"
      by (auto simp: core_op_def exec_auto_def Let_def res_map_err_def split: option.splits db_fault.splits sum.splits)
    obtain q2 c2 where f: "find_unique env (\<lambda>t. cl_integration lib t iid) c1 = (q2, c2)"
      by (cases "find_unique env (\<lambda>t. cl_integration lib t iid) c1")
    have "c' = c2"
      using assms u Inr f
      by (auto simp: revoke_def Let_def db_bind_def core_fail_def db_return_def split: sum.splits option.splits)
    with t1 find_unique_tables [OF f] show ?thesis by simp
  qed
qed

lemma issue_tables:
  assumes "issue env lib new_id random args c = (r, c')"
  shows "tables c' = tables c \<or>
     (new_id \<notin> in_id ` set (gv_integrations (tables c)) \<and>
      (\<exists>i. in_id i = new_id \<and> tables c' = (tables c)\<lparr>gv_integrations := gv_integrations (tables c) @ [i]\<rparr>))"
proof -
  have ins: "core_op (exec_auto env (insert_integration i)) c1 = (q, c2) \<Longrightarrow> tables c2 = tables c1 \<or>
      in_id i \<notin> in_id ` set (gv_integrations (tables c1)) \<and>
      tables c2 = (tables c1)\<lparr>gv_integrations := gv_integrations (tables c1) @ [i]\<rparr>" for i q c1 c2
    by (auto simp: core_op_def exec_auto_def insert_integration_def Let_def list_ex_key
        split: prod.splits option.splits db_fault.splits sum.splits if_splits)
  obtain q1 c1 where f1: "find_unique env (\<lambda>t. cl_application lib t (ii_application args)) c = (q1, c1)"
    by (cases "find_unique env (\<lambda>t. cl_application lib t (ii_application args)) c")
  note t1 = find_unique_tables [OF f1]
  show ?thesis
  proof (cases "\<exists>app. q1 = Inr (Some app)")
    case False
    with assms f1 t1 show ?thesis
      by (auto simp: issue_def db_bind_def core_fail_def split: sum.splits option.splits)
  next
    case True
    then obtain app where q1: "q1 = Inr (Some app)" ..
    obtain q2 c2 where f2: "find_unique env (\<lambda>t. cl_environment lib t (ii_environment args)) c1 = (q2, c2)"
      by (cases "find_unique env (\<lambda>t. cl_environment lib t (ii_environment args)) c1")
    note t2 = find_unique_tables [OF f2]
    show ?thesis
    proof (cases "\<exists>en secret. q2 = Inr (Some en) \<and> ev_application en = ii_application args \<and> generate_secret lib random = Inr secret")
      case False
      with assms f1 q1 f2 t1 t2 show ?thesis
        by (cases "generate_secret lib random")
          (auto simp: issue_def db_bind_def core_fail_def core_lift_def split: sum.splits option.splits if_splits)
    next
      case True
      then obtain en secret where q2: "q2 = Inr (Some en)" "ev_application en = ii_application args"
        "generate_secret lib random = Inr secret" by blast
      let ?i = "new_integration lib new_id (ap_tenant app) args secret"
      have i: "in_id ?i = new_id" by (simp add: new_integration_def)
      obtain q3 c3 where e: "core_op (exec_auto env (insert_integration ?i)) c2 = (q3, c3)"
        by (cases "core_op (exec_auto env (insert_integration ?i)) c2")
      obtain q4 c4 where f4: "find_unique env (\<lambda>t. cl_integration lib t new_id) c3 = (q4, c4)"
        by (cases "find_unique env (\<lambda>t. cl_integration lib t new_id) c3")
      have "tables c' = tables c3"
        using assms f1 q1 f2 q2 e f4 find_unique_tables [OF f4]
        by (auto simp: issue_def db_bind_def core_fail_def core_lift_def db_return_def split: sum.splits option.splits)
      with ins [OF e] t1 t2 i show ?thesis by metis
    qed
  qed
qed

lemma inactive_step:
  assumes "svc_step rl s ev s'" and "inactive iid (tables (sv_conn s))"
  shows "inactive iid (tables (sv_conn s'))"
  using assms
proof (cases rule: svc_step.cases)
  case (revoke iid' r c)
  with assms(2) revoke_tables [OF revoke(3)] show ?thesis
    by (fastforce simp: inactive_def image_image dest: mark_revoked_status)
next
  case (issue new_id random args q c)
  with assms(2) issue_tables [OF issue(3)] show ?thesis by (auto simp: inactive_def)
qed (use assms(2) in \<open>auto dest: resolve_identity_tables\<close>)

text \<open>Nothing is dated after the present.\<close>

definition dated :: "service \<Rightarrow> bool" where
  "dated s \<longleftrightarrow> (\<forall>x \<in> set (sv_flight s). lr_at x \<le> sv_now s) \<and> (\<forall>k e. map_of (sv_cache s) k = Some e \<longrightarrow> ce_at e \<le> sv_now s)"

lemma dated_step:
  assumes "svc_step rl s ev s'" and "dated s"
  shows "dated s'"
  using assms
proof (cases rule: svc_step.cases)
  case (finish x)
  with assms(2) show ?thesis
    by (auto simp: dated_def cache_insert_def update_conv' dest: set_remove1_subset [THEN subsetD])
next
  case (abandon x)
  with assms(2) show ?thesis by (auto simp: dated_def dest: set_remove1_subset [THEN subsetD])
qed (use assms(2) in \<open>auto simp: dated_def intro: trans_le_add1\<close>)

text \<open>After a revocation at the time \<open>r\<close>: what is still on its way was read before, and what is cached was
  cached at most the timeout later.\<close>

definition fading :: "resolve_lib \<Rightarrow> string \<Rightarrow> nat \<Rightarrow> service \<Rightarrow> bool" where
  "fading rl iid r s \<longleftrightarrow> inactive iid (tables (sv_conn s)) \<and>
     (\<forall>x \<in> set (sv_flight s). ri_integration (lr_identity x) = iid \<longrightarrow> lr_at x \<le> r) \<and>
     (\<forall>k e. map_of (sv_cache s) k = Some e \<longrightarrow> ri_integration (ce_identity e) = iid \<longrightarrow> ce_at e \<le> r + rs_timeout rl)"

lemma fading_step:
  assumes "svc_step rl s ev s'" and "fading rl iid r s"
  shows "fading rl iid r s'"
proof -
  have i: "inactive iid (tables (sv_conn s'))"
    using inactive_step [OF assms(1)] assms(2) by (simp add: fading_def)
  from assms(1) show ?thesis
  proof (cases rule: svc_step.cases)
    case (read headers body credential identity c)
    have "ri_integration identity \<noteq> iid"
      using inactive_not_found [OF read(4)] assms(2) by (simp add: fading_def)
    with read assms(2) i show ?thesis by (auto simp: fading_def)
  next
    case (finish x)
    with assms(2) i show ?thesis
      by (auto simp: fading_def cache_insert_def update_conv' dest: set_remove1_subset [THEN subsetD])
  next
    case (abandon x)
    with assms(2) i show ?thesis by (auto simp: fading_def dest: set_remove1_subset [THEN subsetD])
  qed (use assms(2) i in \<open>auto simp: fading_def\<close>)
qed

lemma fading_reach: "svc_reach rl s s' \<Longrightarrow> fading rl iid r s \<Longrightarrow> fading rl iid r s'"
  by (induction rule: svc_reach.induct) (auto intro: fading_step)

lemma dated_reach: "svc_reach rl s s' \<Longrightarrow> dated s \<Longrightarrow> dated s'"
  by (induction rule: svc_reach.induct) (auto intro: dated_step)

lemma fading_answer:
  assumes "svc_step rl s (Answered identity) s'" and "fading rl iid r s" and "ri_integration identity = iid"
  shows "sv_now s \<le> r + rs_timeout rl + rs_ttl rl"
  using assms(1)
proof (cases rule: svc_step.cases)
  case (hit headers body credential)
  then obtain e where e: "map_of (sv_cache s) (cache_key (rs_core rl) credential) = Some e"
    "sv_now s < ce_at e + rs_ttl rl" "ce_identity e = identity"
    by (auto simp: cache_get_def split: option.splits if_splits)
  with assms(2,3) have "ce_at e \<le> r + rs_timeout rl" by (auto simp: fading_def)
  with e(2) show ?thesis by simp
next
  case (finish x)
  with assms(2,3) have "lr_at x \<le> r" by (auto simp: fading_def)
  with finish show ?thesis by simp
qed

text \<open>A revocation that was answered starts it.\<close>

lemma revoke_fades:
  assumes "revoke (rs_env rl) (rs_core rl) iid (sv_conn s) = (Inr i, c)" and "dated s"
    and "\<And>t i. cl_integration (rs_core rl) t iid = Some i \<Longrightarrow> i \<in> set (gv_integrations t) \<and> in_id i = iid"
  shows "fading rl iid (sv_now s) (s\<lparr>sv_conn := c\<rparr>)"
proof -
  from revoke_tables [OF assms(1)] have t: "tables c = (tables (sv_conn s))\<lparr>gv_integrations :=
      map (mark_revoked (env_now (rs_env rl) (sent (sv_conn s))) iid) (gv_integrations (tables (sv_conn s)))\<rparr>"
    by simp
  have "\<exists>t. cl_integration (rs_core rl) t iid = Some i \<and> tables c = t"
    using assms(1)
    by (auto simp: revoke_def Let_def db_bind_Inr core_op_def find_unique_def query_def exec_auto_Inr core_fail_def
        db_return_def res_map_err_def split: prod.splits sum.splits option.splits)
  then have "iid \<in> in_id ` set (gv_integrations (tables c))" using assms(3) by blast
  then have "inactive iid (tables c)"
    by (auto simp: inactive_def t image_image dest: mark_revoked_status)
  with assms(2) show ?thesis by (auto simp: fading_def dated_def intro: trans_le_add1)
qed

section \<open>Issue and lookup\<close>

lemma issue_Inr:
  assumes "issue env lib new_id random args c = (Inr cred, c')"
  obtains app en where "cl_application lib (tables c) (ii_application args) = Some app"
    and "cl_environment lib (tables c) (ii_environment args) = Some en"
    and "ev_application en = ii_application args"
    and "generate_secret lib random = Inr (ic_secret cred)"
    and "new_id \<notin> in_id ` set (gv_integrations (tables c))"
    and "tables c' = (tables c)\<lparr>gv_integrations := gv_integrations (tables c) @
       [new_integration lib new_id (ap_tenant app) args (ic_secret cred)]\<rparr>"
    and "cl_integration lib (tables c') new_id = Some (ic_integration cred)"
proof -
  from assms obtain app c1 en c2 secret c3 i where
    1: "find_unique env (\<lambda>t. cl_application lib t (ii_application args)) c = (Inr (Some app), c1)"
    and 2: "find_unique env (\<lambda>t. cl_environment lib t (ii_environment args)) c1 = (Inr (Some en), c2)"
    and en: "ev_application en = ii_application args" and g: "generate_secret lib random = Inr secret"
    and 3: "core_op (exec_auto env (insert_integration (new_integration lib new_id (ap_tenant app) args secret))) c2 = (Inr (), c3)"
    and 4: "find_unique env (\<lambda>t. cl_integration lib t new_id) c3 = (Inr (Some i), c')"
    and cred: "cred = \<lparr>ic_integration = i, ic_secret = secret\<rparr>"
    by (auto simp: issue_def db_bind_Inr core_lift_def core_fail_def db_return_def
        split: option.splits if_splits)
  have f: "find_unique env q d = (Inr r, d') \<Longrightarrow> q (tables d) = r \<and> tables d' = tables d" for q d r d'
    by (auto simp: find_unique_def core_op_def query_def exec_auto_def Let_def res_map_err_def
        split: prod.splits option.splits db_fault.splits sum.splits)
  have "tables c3 = (tables c2)\<lparr>gv_integrations := gv_integrations (tables c2) @
      [new_integration lib new_id (ap_tenant app) args secret]\<rparr> \<and> new_id \<notin> in_id ` set (gv_integrations (tables c2))"
    using 3 by (auto simp: core_op_def exec_auto_def insert_integration_def Let_def list_ex_key res_map_err_def
        new_integration_def split: prod.splits option.splits db_fault.splits sum.splits if_splits)
  with f [OF 1] f [OF 2] f [OF 4] en g cred that show ?thesis by simp
qed

lemma resolve_row_issued:
  assumes "\<forall>i \<in> set is. in_hash i \<noteq> h" and "in_hash n = h" and "en \<in> set (gv_environments t)"
    and "ev_id en = in_environment n" and "distinct (map ev_id (gv_environments t))"
    and "gv_integrations t = is @ [n]"
  shows "resolve_row h t = Some (n, en)"
proof -
  have none: "find (\<lambda>(i, e). in_hash i = h \<and> ev_id e = in_environment i) (List.product is es) = None" for es
    using assms(1) by (auto simp: find_None_iff)
  have app: "find P (xs @ ys) = (case find P xs of None \<Rightarrow> find P ys | Some x \<Rightarrow> Some x)" for P xs and ys :: "'z list"
    by (induction xs) auto
  have prod: "List.product (xs @ [n]) es = List.product xs es @ map (Pair n) es" for xs es
    by (induction xs) simp_all
  have one: "find (\<lambda>(i, e). in_hash i = h \<and> ev_id e = in_environment i) (map (Pair n) es) = Some (n, en)"
    if "en \<in> set es" "distinct (map ev_id es)" for es
    using that assms(2,4) by (induction es) (auto simp: image_iff)
  show ?thesis
    using one [OF assms(3,5)] by (simp add: resolve_row_def assms(6) prod app none)
qed

end
