(* ===== verification/Gov_Identity.thy ===== *)
theory Gov_Identity
  imports Gov_Credential
begin

text \<open>
  Attribution of telemetry to people (\<open>crates/governance-core/src/identity.rs\<close>): the identity bound to an
  integration, the comparison of the mail addresses of a payload with it, the import of the identity
  directory with the parser of its file (\<open>app/governance-ctl/src/directory.rs\<close>), and the report on stored
  executions.

  A mapping is valid from one time on and, once closed, up to another. Rows of one time come in the order
  of the table, where SQL leaves it open.
\<close>

section \<open>Identity of an integration\<close>

definition get_integration_identity :: "db_env \<Rightarrow> string \<Rightarrow> string \<Rightarrow> (gov_db, string option) dbop" where
  "get_integration_identity env tenant iid =
     exec_auto env (query (\<lambda>t. Inr (Option.bind
       (find (\<lambda>i. in_id i = iid \<and> in_tenant i = tenant) (gv_integrations t)) in_internal_user)))"

section \<open>Mail addresses of a payload\<close>

definition still_valid :: "int \<Rightarrow> identity_map_row \<Rightarrow> bool" where
  "still_valid now m = (case im_valid_to m of None \<Rightarrow> True | Some x \<Rightarrow> x > now)"

definition latest_first :: "identity_map_row list \<Rightarrow> identity_map_row list" where
  "latest_first = sort_key (\<lambda>m. - im_valid_from m)"

text \<open>The rows are read as pairs of texts, so a row without an internal user is an error.\<close>

definition mapped_pairs :: "identity_map_row list \<Rightarrow> db_error + (string \<times> string) list" where
  "mapped_pairs ms =
     (case those (map im_internal_user ms) of
        None \<Rightarrow> Inl Bad_value
      | Some us \<Rightarrow> Inr (zip (map im_provider_user ms) us))"

definition email_mappings :: "int \<Rightarrow> string \<Rightarrow> string \<Rightarrow> string list \<Rightarrow> gov_db \<Rightarrow> db_error + (string \<times> string) list" where
  "email_mappings now tenant provider emails t =
     mapped_pairs (latest_first (filter (\<lambda>m. im_tenant m = tenant \<and> im_provider m = provider \<and>
       List.member emails (im_provider_user m) \<and> still_valid now m) (gv_identity_maps t)))"

definition email_mismatch :: "string option \<Rightarrow> (string \<times> string) list \<Rightarrow> string option \<Rightarrow> bool" where
  "email_mismatch token mappings email =
     (case (token, email) of
        (Some token_id, Some em) \<Rightarrow>
          (case map_of mappings em of Some mapped \<Rightarrow> mapped \<noteq> token_id | None \<Rightarrow> False)
      | _ \<Rightarrow> False)"

definition check_email_mismatches :: "db_env \<Rightarrow> string \<Rightarrow> string \<Rightarrow> string option \<Rightarrow> string option list \<Rightarrow>
    gov_db conn \<Rightarrow> (string option \<times> bool list \<times> bool) \<times> gov_db conn" where
  "check_email_mismatches env tenant provider token payload_emails c =
     (let unique_emails = remdups (List.map_filter (\<lambda>e. e) payload_emails);
          ((mappings, failed), c') =
            (if unique_emails = [] then (([], False), c)
             else case exec_auto env (query (email_mappings (env_now env (sent c)) tenant provider unique_emails)) c of
               (Inr ps, c1) \<Rightarrow> ((ps, False), c1)
             | (Inl _, c1) \<Rightarrow> (([], True), c1))
      in ((token, map (email_mismatch token mappings) payload_emails, failed), c'))"

section \<open>Import of the directory\<close>

record directory_entry =
  de_provider_user :: string
  de_internal_user :: string

record identity_sync_report =
  sr_inserted :: nat
  sr_repointed :: nat
  sr_unchanged :: nat

definition im_key :: "identity_map_row \<Rightarrow> string \<times> string \<times> string \<times> int" where
  "im_key m = (im_tenant m, im_provider m, im_provider_user m, im_valid_from m)"

definition insert_identity_map :: "int \<Rightarrow> string \<Rightarrow> string \<Rightarrow> string \<Rightarrow> directory_entry \<Rightarrow> (gov_db, unit) stmt" where
  "insert_identity_map now new_id tenant provider entry t =
     (let m = \<lparr>im_id = ''idmap-'' @ new_id, im_tenant = tenant, im_provider = provider,
               im_provider_user = de_provider_user entry, im_internal_user = Some (de_internal_user entry),
               im_source = ''key_directory'', im_valid_from = now, im_valid_to = None\<rparr> in
      if list_ex (\<lambda>x. im_id x = im_id m \<or> im_key x = im_key m) (gv_identity_maps t) then Inl Unique_violation
      else if \<not> List.member (gv_tenants t) tenant then Inl Missing_reference
      else Inr ((), t\<lparr>gv_identity_maps := gv_identity_maps t @ [m]\<rparr>))"

definition close_map :: "int \<Rightarrow> string \<Rightarrow> string \<Rightarrow> string \<Rightarrow> identity_map_row \<Rightarrow> identity_map_row" where
  "close_map now tenant provider user m =
     (if im_tenant m = tenant \<and> im_provider m = provider \<and> im_provider_user m = user \<and> im_valid_to m = None
      then m\<lparr>im_valid_to := Some now\<rparr> else m)"

definition close_active_identity_map :: "int \<Rightarrow> string \<Rightarrow> string \<Rightarrow> string \<Rightarrow> (gov_db, unit) stmt" where
  "close_active_identity_map now tenant provider user t =
     Inr ((), t\<lparr>gv_identity_maps := map (close_map now tenant provider user) (gv_identity_maps t)\<rparr>)"

definition active_mappings :: "string \<Rightarrow> string \<Rightarrow> gov_db \<Rightarrow> db_error + (string \<times> string) list" where
  "active_mappings tenant provider t =
     mapped_pairs (latest_first (filter (\<lambda>m. im_tenant m = tenant \<and> im_provider m = provider \<and> im_valid_to m = None)
       (gv_identity_maps t)))"

definition sync_entry :: "db_env \<Rightarrow> (nat \<Rightarrow> string) \<Rightarrow> int \<Rightarrow> string \<Rightarrow> string \<Rightarrow> (string \<times> string) list \<Rightarrow> directory_entry \<Rightarrow>
    identity_sync_report \<Rightarrow> (gov_db, identity_sync_report) dbop" where
  "sync_entry env fresh now tenant provider active entry rep =
     (case map_of active (de_provider_user entry) of
        None \<Rightarrow>
          (\<lambda>c. db_bind (exec_tx env (insert_identity_map now (fresh (sent c)) tenant provider entry))
             (\<lambda>_. db_return (rep\<lparr>sr_inserted := sr_inserted rep + 1\<rparr>)) c)
      | Some current \<Rightarrow>
          (if current = de_internal_user entry then db_return (rep\<lparr>sr_unchanged := sr_unchanged rep + 1\<rparr>)
           else
             (\<lambda>c. db_bind (exec_tx env (close_active_identity_map now tenant provider (de_provider_user entry)))
                (\<lambda>_ c1. db_bind (exec_tx env (insert_identity_map now (fresh (sent c1)) tenant provider entry))
                   (\<lambda>_. db_return (rep\<lparr>sr_repointed := sr_repointed rep + 1\<rparr>)) c1) c)))"

fun sync_entries :: "db_env \<Rightarrow> (nat \<Rightarrow> string) \<Rightarrow> int \<Rightarrow> string \<Rightarrow> string \<Rightarrow> (string \<times> string) list \<Rightarrow> directory_entry list \<Rightarrow>
    identity_sync_report \<Rightarrow> (gov_db, identity_sync_report) dbop" where
  "sync_entries env fresh now tenant provider active [] rep = db_return rep"
| "sync_entries env fresh now tenant provider active (e # es) rep =
     db_bind (sync_entry env fresh now tenant provider active e rep)
       (sync_entries env fresh now tenant provider active es)"

definition sync_identity_directory :: "db_env \<Rightarrow> (nat \<Rightarrow> string) \<Rightarrow> string \<Rightarrow> string \<Rightarrow> directory_entry list \<Rightarrow>
    (gov_db, identity_sync_report) dbop" where
  "sync_identity_directory env fresh tenant provider entries =
     transaction env (\<lambda>now.
       db_bind (exec_tx env (query (active_mappings tenant provider))) (\<lambda>active.
         sync_entries env fresh now tenant provider active entries
           \<lparr>sr_inserted = 0, sr_repointed = 0, sr_unchanged = 0\<rparr>))"

subsection \<open>The file\<close>

definition de_directory_entry :: "directory_entry decoder" where
  "de_directory_entry j = do {
     v \<leftarrow> de_struct_text [[''provider_user_id''], [''internal_user_id'']] j;
     p \<leftarrow> field_required as_str_val v 0;
     i \<leftarrow> field_required as_str_val v 1;
     Some \<lparr>de_provider_user = p, de_internal_user = i\<rparr> }"

text \<open>\<open>str::lines\<close>: the pieces between newlines, each without a carriage return at its end, and no last
  piece after a final newline.\<close>

definition str_lines :: "string \<Rightarrow> string list" where
  "str_lines s =
     (let ps = split_char newline s;
          qs = (if last ps = [] then butlast ps else ps)
      in map (\<lambda>l. if l \<noteq> [] \<and> last l = CHR 0x0D then butlast l else l) qs)"

fun parse_directory_lines :: "(string \<Rightarrow> json option) \<Rightarrow> string list \<Rightarrow> directory_entry list option" where
  "parse_directory_lines js [] = Some []"
| "parse_directory_lines js (l # ls) =
     (let line = str_trim l in
      if line = [] then parse_directory_lines js ls
      else case Option.bind (js line) (de_vec de_directory_entry) of
        Some es \<Rightarrow> map_option (\<lambda>rest. es @ rest) (parse_directory_lines js ls)
      | None \<Rightarrow>
          (case Option.bind (js line) de_directory_entry of
             None \<Rightarrow> None
           | Some e \<Rightarrow> map_option (\<lambda>rest. e # rest) (parse_directory_lines js ls)))"

definition parse_directory :: "(string \<Rightarrow> json option) \<Rightarrow> string \<Rightarrow> directory_entry list option" where
  "parse_directory js raw =
     (case Option.bind (js raw) (de_vec de_directory_entry) of
        Some es \<Rightarrow> Some es
      | None \<Rightarrow> parse_directory_lines js (str_lines raw))"

section \<open>The report\<close>

record provider_attribution =
  pa_provider :: string
  pa_attributed :: int
  pa_unattributed :: int
  pa_mismatched :: int

text \<open>The mapping of an address that was valid at a time, the latest if there are several.\<close>

definition mapping_at :: "string \<Rightarrow> string \<Rightarrow> string \<Rightarrow> int \<Rightarrow> gov_db \<Rightarrow> identity_map_row option" where
  "mapping_at tenant provider user x t =
     (case latest_first (filter (\<lambda>m. im_tenant m = tenant \<and> im_provider m = provider \<and> im_provider_user m = user \<and>
          im_valid_from m \<le> x \<and> still_valid x m) (gv_identity_maps t)) of
        [] \<Rightarrow> None
      | m # _ \<Rightarrow> Some m)"

definition stored_mismatch :: "gov_db \<Rightarrow> execution_row \<Rightarrow> bool" where
  "stored_mismatch t e =
     (case (ex_user_email e, ex_internal_user e) of
        (Some email, Some user) \<Rightarrow>
          (case Option.bind (mapping_at (ex_tenant e) (ex_provider e) email (ex_started_at e) t) im_internal_user of
             Some mapped \<Rightarrow> user \<noteq> mapped
           | None \<Rightarrow> False)
      | _ \<Rightarrow> False)"

definition attribution_of :: "gov_db \<Rightarrow> execution_row list \<Rightarrow> string \<Rightarrow> provider_attribution" where
  "attribution_of t es provider =
     (let ps = filter (\<lambda>e. ex_provider e = provider) es in
      \<lparr>pa_provider = provider,
       pa_attributed = count_where (\<lambda>e. ex_internal_user e \<noteq> None) ps,
       pa_unattributed = count_where (\<lambda>e. ex_internal_user e = None) ps,
       pa_mismatched = count_where (stored_mismatch t) ps\<rparr>)"

definition verify_attribution :: "db_env \<Rightarrow> string \<Rightarrow> (gov_db, provider_attribution list) dbop" where
  "verify_attribution env tenant =
     exec_auto env (query (\<lambda>t.
       let es = filter (\<lambda>e. ex_tenant e = tenant) (gv_executions t)
       in Inr (map (attribution_of t es) (sort (remdups (map ex_provider es))))))"

definition has_unattributed :: "provider_attribution list \<Rightarrow> bool" where
  "has_unattributed ps = list_ex (\<lambda>p. pa_unattributed p > 0) ps"

end
