(* ===== verification/Gov_Frames.thy ===== *)
theory Gov_Frames
  imports Gov_Batch
begin

text \<open>
  How an operation may change the tables, as a preorder between the tables before and after. The interface
  is the locale \<open>table_preorder\<close>: what holds for every statement holds for sequences, loops and
  transactions, committed, rolled back or committed without an answer.
\<close>

definition moves :: "('t \<Rightarrow> 't \<Rightarrow> bool) \<Rightarrow> ('t conn \<Rightarrow> ('e + 'a) \<times> 't conn) \<Rightarrow> bool" where
  "moves R f \<longleftrightarrow> (\<forall>c r c'. f c = (r, c') \<longrightarrow> R (tables c) (tables c'))"

lemma movesD: "moves R f \<Longrightarrow> f c = (r, c') \<Longrightarrow> R (tables c) (tables c')"
  by (auto simp: moves_def)

locale table_preorder =
  fixes R :: "'t \<Rightarrow> 't \<Rightarrow> bool"
  assumes refl: "R t t"
    and trans: "R t u \<Longrightarrow> R u v \<Longrightarrow> R t v"
begin

lemma moves_return: "moves R (db_return a)"
  by (auto simp: moves_def db_return_def refl)

lemma moves_bind: "moves R m \<Longrightarrow> (\<And>a. moves R (f a)) \<Longrightarrow> moves R (db_bind m f)"
  unfolding moves_def by (auto simp: db_bind_def split: prod.splits sum.splits intro: trans) (metis trans)

lemma moves_each: "(\<And>x. moves R (f x)) \<Longrightarrow> moves R (db_each f xs)"
  by (induction xs) (simp_all add: moves_return moves_bind)

lemma moves_each_in: "(\<And>x. x \<in> set xs \<Longrightarrow> moves R (f x)) \<Longrightarrow> moves R (db_each f xs)"
  by (induction xs) (simp_all add: moves_return moves_bind)

lemma moves_stmt:
  assumes "\<And>t a t'. q t = Inr (a, t') \<Longrightarrow> R t t'"
  shows "moves R (exec_tx env q)" "moves R (exec_auto env q)"
  using assms
  by (auto simp: moves_def exec_tx_def exec_auto_def Let_def refl
      split: option.splits sum.splits prod.splits db_fault.splits)

lemma moves_transaction:
  assumes "\<And>now. moves R (body now)"
  shows "moves R (transaction env body)"
  unfolding moves_def
proof (intro allI impI)
  fix c r c' assume t: "transaction env body c = (r, c')"
  show "R (tables c) (tables c')"
  proof (cases r)
    case (Inl e)
    with transaction_Inl t movesD [OF assms] show ?thesis by (fastforce intro: refl)
  next
    case (Inr a)
    with t have "transaction env body c = (Inr a, c')" by simp
    then show ?thesis
      by (rule transaction_Inr) (use movesD [OF assms] in fastforce)
  qed
qed

text \<open>What every round of a loop establishes, and no later round destroys, holds for all at the end.\<close>

lemma each_establishes:
  assumes "\<And>x c c'. f x c = (Inr (), c') \<Longrightarrow> P x (tables c')"
    and "\<And>x t t'. P x t \<Longrightarrow> R t t' \<Longrightarrow> P x t'" and "\<And>x. moves R (f x)"
    and "db_each f xs c = (Inr (), c')"
  shows "\<forall>x \<in> set xs. P x (tables c')"
  using assms(4)
proof (induction xs arbitrary: c)
  case (Cons x xs)
  then obtain c1 where 1: "f x c = (Inr (), c1)" and 2: "db_each f xs c1 = (Inr (), c')" by (auto simp: db_bind_Inr)
  from movesD [OF moves_each [OF assms(3)] 2] have "R (tables c1) (tables c')" .
  with assms(1) [OF 1] assms(2) Cons.IH [OF 2] show ?case by auto
qed simp

end

text \<open>A loop whose rounds all succeed succeeds.\<close>

lemma each_succeeds:
  assumes "\<And>x c. x \<in> set xs \<Longrightarrow> I (tables c) \<Longrightarrow> \<exists>c'. f x c = (Inr (), c') \<and> I (tables c')"
    and "I (tables c)"
  shows "\<exists>c'. db_each f xs c = (Inr (), c') \<and> I (tables c')"
  using assms
proof (induction xs arbitrary: c)
  case Nil
  then show ?case by (simp add: db_return_def)
next
  case (Cons x xs)
  then obtain c1 where "f x c = (Inr (), c1)" "I (tables c1)" by (meson list.set_intros(1))
  with Cons show ?case by (simp add: db_bind_def)
qed

section \<open>Rows that stay\<close>

text \<open>Every row keeps its place and what the history of it is.\<close>

definition rows_stay :: "('r \<Rightarrow> 'k) \<Rightarrow> ('r \<Rightarrow> 'h) \<Rightarrow> 'r list \<Rightarrow> 'r list \<Rightarrow> bool" where
  "rows_stay nk history xs ys \<longleftrightarrow>
     (\<forall>k old. lookup_row nk k xs = Some old \<longrightarrow> (\<exists>now. lookup_row nk k ys = Some now \<and> history now = history old))"

lemma rows_stay_refl: "rows_stay nk history xs xs"
  by (simp add: rows_stay_def)

lemma rows_stay_trans: "rows_stay nk history xs ys \<Longrightarrow> rows_stay nk history ys zs \<Longrightarrow> rows_stay nk history xs zs"
  unfolding rows_stay_def by metis

context history_table
begin

lemma upsert_stays:
  assumes "upsert_row pk nk merge new rows = Inr rows'"
  shows "rows_stay nk history rows rows'"
  unfolding rows_stay_def
  using upserts_history [of "[new]" rows rows'] assms by simp

end

end
