(* ===== verification/Gov_Ingest.thy ===== *)
theory Gov_Ingest
  imports Gov_Identity Gov_Emit Gov_Frames
begin

text \<open>
  Ingest of normalized telemetry (\<open>crates/governance-core/src/ingest\<close>): validation, identifiers, the price
  of a model call, the three statements, and the transaction with its retries. A batch is written in one
  transaction; the two reads of identities use connections of their own, which see the tables as they were
  when it began.
\<close>

section \<open>Input\<close>

text \<open>The texts of validation errors are kept without the values they print.\<close>

record model_call_input =
  mi_trace :: string
  mi_span :: string
  mi_model :: string
  mi_input_tokens :: "int option"
  mi_output_tokens :: "int option"

record tool_call_input =
  ti_trace :: string
  ti_span :: string
  ti_name :: string
  ti_duration :: int

record execution_input =
  ei_trace :: string
  ei_span :: string
  ei_user_email :: "string option"
  ei_started_at :: int
  ei_duration :: int
  ei_model_calls :: "model_call_input list"
  ei_tool_calls :: "tool_call_input list"

record ingest_result =
  ir_executions :: nat
  ir_model_calls :: nat
  ir_tool_calls :: nat
  ir_detection_failed :: bool
  ir_mismatches :: nat

definition deterministic_id :: "core_lib \<Rightarrow> string \<Rightarrow> string \<Rightarrow> string \<Rightarrow> string" where
  "deterministic_id lib prefix_text trace_id span_id =
     prefix_text @ ''-'' @ take 24 (cl_sha256 lib (trace_id @ '':'' @ span_id))"

definition negative :: "int option \<Rightarrow> bool" where
  "negative n = (case n of None \<Rightarrow> False | Some i \<Rightarrow> i < 0)"

fun validate_model_calls :: "model_call_input list \<Rightarrow> core_error + unit" where
  "validate_model_calls [] = Inr ()"
| "validate_model_calls (m # ms) =
     (if mi_trace m = [] \<or> mi_span m = []
      then Inl (Validation ''trace_id and span_id are required on every model call'')
      else if negative (mi_input_tokens m) \<or> negative (mi_output_tokens m)
      then Inl (Validation ''token counts must be non-negative'')
      else validate_model_calls ms)"

fun validate_tool_calls :: "tool_call_input list \<Rightarrow> core_error + unit" where
  "validate_tool_calls [] = Inr ()"
| "validate_tool_calls (c # cs) =
     (if ti_trace c = [] \<or> ti_span c = []
      then Inl (Validation ''trace_id and span_id are required on every tool call'')
      else if ti_duration c < 0 then Inl (Validation ''tool duration_ms must be non-negative'')
      else validate_tool_calls cs)"

fun validate_input :: "execution_input list \<Rightarrow> core_error + unit" where
  "validate_input [] = Inr ()"
| "validate_input (e # es) =
     (if ei_trace e = [] \<or> ei_span e = []
      then Inl (Validation ''trace_id and span_id are required on every execution'')
      else if ei_duration e < 0 then Inl (Validation ''duration_ms must be non-negative'')
      else res_bind (validate_model_calls (ei_model_calls e)) (\<lambda>_.
           res_bind (validate_tool_calls (ei_tool_calls e)) (\<lambda>_. validate_input es)))"

section \<open>Prices\<close>

definition pricing_at :: "int \<Rightarrow> string \<Rightarrow> gov_db \<Rightarrow> (int \<times> int) option" where
  "pricing_at now model t =
     (case sort_key (\<lambda>p. - pr_effective_from p)
        (filter (\<lambda>p. pr_model p = model \<and> pr_effective_from p \<le> now \<and>
           (case pr_effective_to p of None \<Rightarrow> True | Some x \<Rightarrow> x > now)) (gv_pricing t)) of
        [] \<Rightarrow> None
      | p # _ \<Rightarrow> Some (pr_input_rate p, pr_output_rate p))"

definition I64_MAX :: int where
  "I64_MAX = 9223372036854775807"

text \<open>The products are computed in 128 bits, where they cannot overflow: both factors have 64.\<close>

definition token_cost :: "int \<Rightarrow> int \<Rightarrow> int \<Rightarrow> int \<Rightarrow> int" where
  "token_cost input_tokens output_tokens input_rate output_rate =
     (let total = quot (input_tokens * input_rate) 1000000 + quot (output_tokens * output_rate) 1000000
      in if in_i64 total then total else I64_MAX)"

definition calculate_model_cost :: "db_env \<Rightarrow> int \<Rightarrow> model_call_input \<Rightarrow> (gov_db, int option) dbop" where
  "calculate_model_cost env now m =
     (case (mi_input_tokens m, mi_output_tokens m) of
        (Some i, Some out) \<Rightarrow>
          db_bind (exec_tx env (query (\<lambda>t. Inr (pricing_at now (mi_model m) t)))) (\<lambda>pricing.
            db_return (map_option (\<lambda>(ir, our). token_cost i out ir our) pricing))
      | _ \<Rightarrow> db_return None)"

fun model_costs :: "db_env \<Rightarrow> int \<Rightarrow> model_call_input list \<Rightarrow> (gov_db, int option list) dbop" where
  "model_costs env now [] = db_return []"
| "model_costs env now (m # ms) =
     db_bind (calculate_model_cost env now m) (\<lambda>cost.
     db_bind (model_costs env now ms) (\<lambda>costs. db_return (cost # costs)))"

definition add_cost :: "int option \<Rightarrow> int option \<Rightarrow> int option" where
  "add_cost so_far cost =
     (case cost of
        None \<Rightarrow> None
      | Some known \<Rightarrow> map_option (\<lambda>x. sat_add_i64 x known) so_far)"

definition total_cost :: "int option list \<Rightarrow> int option" where
  "total_cost costs = foldl add_cost (Some 0) costs"

section \<open>Statements\<close>

definition ex_key :: "execution_row \<Rightarrow> string \<times> string" where
  "ex_key e = (ex_trace e, ex_span e)"

definition ex_merge :: "int \<Rightarrow> execution_row \<Rightarrow> execution_row \<Rightarrow> execution_row" where
  "ex_merge now old new = old\<lparr>
     ex_tenant := ex_tenant new,
     ex_integration := ex_integration new,
     ex_provider := ex_provider new,
     ex_user_email := ex_user_email new,
     ex_internal_user := ex_internal_user new,
     ex_duration := ex_duration new,
     ex_updated_at := now\<rparr>"

definition execution_of :: "int \<Rightarrow> string \<Rightarrow> string \<Rightarrow> string \<Rightarrow> string \<Rightarrow> execution_input \<Rightarrow> int option \<Rightarrow> string option \<Rightarrow>
    execution_row" where
  "execution_of now eid tenant iid provider e cost user =
     \<lparr>ex_id = eid, ex_tenant = tenant, ex_integration = iid, ex_provider = provider, ex_trace = ei_trace e,
      ex_span = ei_span e, ex_user_email = ei_user_email e, ex_internal_user = user,
      ex_started_at = ei_started_at e, ex_duration = ei_duration e, ex_cost = cost, ex_updated_at = now\<rparr>"

definition upsert_execution :: "db_env \<Rightarrow> int \<Rightarrow> string \<Rightarrow> string \<Rightarrow> string \<Rightarrow> string \<Rightarrow> execution_input \<Rightarrow> int option \<Rightarrow>
    string option \<Rightarrow> (gov_db, unit) dbop" where
  "upsert_execution env now eid tenant iid provider e cost user =
     exec_tx env (on_table gv_executions (\<lambda>rows. gv_executions_update (\<lambda>_. rows))
       (upsert_row ex_id ex_key (ex_merge now) (execution_of now eid tenant iid provider e cost user)))"

definition mc_key :: "model_call_row \<Rightarrow> string \<times> string" where
  "mc_key m = (mc_trace m, mc_span m)"

definition mc_merge :: "int \<Rightarrow> model_call_row \<Rightarrow> model_call_row \<Rightarrow> model_call_row" where
  "mc_merge now old new = old\<lparr>
     mc_model := mc_model new,
     mc_input_tokens := mc_input_tokens new,
     mc_output_tokens := mc_output_tokens new,
     mc_updated_at := now\<rparr>"

definition model_call_of :: "int \<Rightarrow> string \<Rightarrow> string \<Rightarrow> model_call_input \<Rightarrow> int option \<Rightarrow> model_call_row" where
  "model_call_of now mid eid m cost =
     \<lparr>mc_id = mid, mc_execution = eid, mc_trace = mi_trace m, mc_span = mi_span m, mc_model = mi_model m,
      mc_input_tokens = mi_input_tokens m, mc_output_tokens = mi_output_tokens m, mc_cost = cost,
      mc_updated_at = now\<rparr>"

text \<open>A child row that is inserted must refer to an execution that is there.\<close>

definition referring :: "('r \<Rightarrow> 'k) \<Rightarrow> ('r \<Rightarrow> string) \<Rightarrow> (gov_db \<Rightarrow> 'r list) \<Rightarrow> 'r \<Rightarrow> (gov_db, unit) stmt \<Rightarrow> (gov_db, unit) stmt" where
  "referring nk parent get_t new q t =
     (case q t of
        Inl e \<Rightarrow> Inl e
      | Inr r \<Rightarrow>
          (if list_ex (\<lambda>old. nk old = nk new) (get_t t) \<or> list_ex (\<lambda>e. ex_id e = parent new) (gv_executions t)
           then Inr r else Inl Missing_reference))"

definition upsert_model_call :: "db_env \<Rightarrow> int \<Rightarrow> string \<Rightarrow> string \<Rightarrow> model_call_input \<Rightarrow> int option \<Rightarrow> (gov_db, unit) dbop" where
  "upsert_model_call env now mid eid m cost =
     (let new = model_call_of now mid eid m cost in
      exec_tx env (referring mc_key mc_execution gv_model_calls new
        (on_table gv_model_calls (\<lambda>rows. gv_model_calls_update (\<lambda>_. rows))
          (upsert_row mc_id mc_key (mc_merge now) new))))"

definition tc_key :: "tool_call_row \<Rightarrow> string \<times> string" where
  "tc_key c = (tc_trace c, tc_span c)"

definition tc_merge :: "int \<Rightarrow> tool_call_row \<Rightarrow> tool_call_row \<Rightarrow> tool_call_row" where
  "tc_merge now old new = old\<lparr>tc_name := tc_name new, tc_duration := tc_duration new, tc_updated_at := now\<rparr>"

definition tool_call_of :: "int \<Rightarrow> string \<Rightarrow> string \<Rightarrow> tool_call_input \<Rightarrow> tool_call_row" where
  "tool_call_of now tid eid c =
     \<lparr>tc_id = tid, tc_execution = eid, tc_trace = ti_trace c, tc_span = ti_span c, tc_name = ti_name c,
      tc_duration = ti_duration c, tc_updated_at = now\<rparr>"

definition upsert_tool_call :: "db_env \<Rightarrow> int \<Rightarrow> string \<Rightarrow> string \<Rightarrow> tool_call_input \<Rightarrow> (gov_db, unit) dbop" where
  "upsert_tool_call env now tid eid c =
     (let new = tool_call_of now tid eid c in
      exec_tx env (referring tc_key tc_execution gv_tool_calls new
        (on_table gv_tool_calls (\<lambda>rows. gv_tool_calls_update (\<lambda>_. rows))
          (upsert_row tc_id tc_key (tc_merge now) new))))"

section \<open>The batch\<close>

definition ingest_model_call :: "db_env \<Rightarrow> core_lib \<Rightarrow> int \<Rightarrow> string \<Rightarrow> model_call_input \<times> int option \<Rightarrow> (gov_db, unit) dbop" where
  "ingest_model_call env lib now eid mc =
     upsert_model_call env now (deterministic_id lib ''mc'' (mi_trace (fst mc)) (mi_span (fst mc))) eid (fst mc) (snd mc)"

definition ingest_tool_call :: "db_env \<Rightarrow> core_lib \<Rightarrow> int \<Rightarrow> string \<Rightarrow> tool_call_input \<Rightarrow> (gov_db, unit) dbop" where
  "ingest_tool_call env lib now eid c =
     upsert_tool_call env now (deterministic_id lib ''tc'' (ti_trace c) (ti_span c)) eid c"

definition ingest_execution :: "db_env \<Rightarrow> core_lib \<Rightarrow> int \<Rightarrow> string \<Rightarrow> string \<Rightarrow> string \<Rightarrow> string option \<Rightarrow> execution_input \<Rightarrow>
    (gov_db, unit) dbop" where
  "ingest_execution env lib now tenant iid provider user e =
     (let eid = deterministic_id lib ''exec'' (ei_trace e) (ei_span e) in
      db_bind (model_costs env now (ei_model_calls e)) (\<lambda>costs.
      db_bind (upsert_execution env now eid tenant iid provider e (total_cost costs) user) (\<lambda>_.
      db_bind (db_each (ingest_model_call env lib now eid) (zip (ei_model_calls e) costs)) (\<lambda>_.
        db_each (ingest_tool_call env lib now eid) (ei_tool_calls e)))))"

definition touch_integration :: "int \<Rightarrow> string \<Rightarrow> string \<Rightarrow> (gov_db, unit) stmt" where
  "touch_integration now tenant iid t =
     Inr ((), t\<lparr>gv_integrations := map (\<lambda>i. if in_id i = iid \<and> in_tenant i = tenant
       then i\<lparr>in_last_telemetry_at := Some now\<rparr> else i) (gv_integrations t)\<rparr>)"

definition count_flags :: "bool list \<Rightarrow> nat" where
  "count_flags bs = length (filter (\<lambda>b. b) bs)"

definition ingest_telemetry_inner :: "db_env \<Rightarrow> core_lib \<Rightarrow> string \<Rightarrow> string \<Rightarrow> string \<Rightarrow> execution_input list \<Rightarrow>
    (gov_db, ingest_result) dbop" where
  "ingest_telemetry_inner env lib tenant iid provider executions =
     transaction env (\<lambda>now.
       db_bind (get_integration_identity env tenant iid) (\<lambda>user c.
         let ((_, mismatches, failed), c1) =
               check_email_mismatches env tenant provider user (map ei_user_email executions) c
         in db_bind (db_each (ingest_execution env lib now tenant iid provider user) executions) (\<lambda>_.
            db_bind (exec_tx env (touch_integration now tenant iid)) (\<lambda>_.
              db_return \<lparr>ir_executions = length executions,
                ir_model_calls = length (concat (map ei_model_calls executions)),
                ir_tool_calls = length (concat (map ei_tool_calls executions)),
                ir_detection_failed = failed, ir_mismatches = count_flags mismatches\<rparr>)) c1))"

definition MAX_DEADLOCK_RETRIES :: nat where
  "MAX_DEADLOCK_RETRIES = 3"

definition DEADLOCK_RETRY_BASE_MS :: nat where
  "DEADLOCK_RETRY_BASE_MS = 10"

definition is_deadlock :: "db_error \<Rightarrow> bool" where
  "is_deadlock e \<longleftrightarrow> e = Deadlock"

text \<open>The retries, with the delays slept through in milliseconds.\<close>

function ingest_attempts :: "(gov_db, ingest_result) dbop \<Rightarrow> nat \<Rightarrow> gov_db conn \<times> nat list \<Rightarrow>
    (core_error + ingest_result) \<times> gov_db conn \<times> nat list" where
  "ingest_attempts inner attempt s =
     (case inner (fst s) of
        (Inr r, c) \<Rightarrow> (Inr r, c, snd s)
      | (Inl e, c) \<Rightarrow>
          (if is_deadlock e \<and> attempt < MAX_DEADLOCK_RETRIES
           then ingest_attempts inner (attempt + 1) (c, snd s @ [DEADLOCK_RETRY_BASE_MS * 2 ^ attempt])
           else (Inl (Storage e), c, snd s)))"
  by pat_completeness auto
termination by (relation "measure (\<lambda>(_, a, _). MAX_DEADLOCK_RETRIES - a)") auto

declare ingest_attempts.simps [simp del]

definition ingest_telemetry :: "db_env \<Rightarrow> core_lib \<Rightarrow> string \<Rightarrow> string \<Rightarrow> string \<Rightarrow> execution_input list \<Rightarrow>
    gov_db conn \<times> nat list \<Rightarrow> (core_error + ingest_result) \<times> gov_db conn \<times> nat list" where
  "ingest_telemetry env lib tenant iid provider executions s =
     (case validate_input executions of
        Inl e \<Rightarrow> (Inl e, s)
      | Inr _ \<Rightarrow> ingest_attempts (ingest_telemetry_inner env lib tenant iid provider executions) 0 s)"

section \<open>The tables meet the interface\<close>

interpretation execs: keyed_table ex_id ex_key "ex_merge now" for now
  by unfold_locales (simp_all add: ex_key_def ex_merge_def)

interpretation calls: keyed_table mc_id mc_key "mc_merge now" for now
  by unfold_locales (simp_all add: mc_key_def mc_merge_def)

interpretation tools: keyed_table tc_id tc_key "tc_merge now" for now
  by unfold_locales (simp_all add: tc_key_def tc_merge_def)

text \<open>What a later write never changes: the cost and the start of an execution, the cost and the parent of a
  model call, and the parent of a tool call.\<close>

interpretation exec_history: history_table ex_id ex_key "ex_merge now" "\<lambda>e. (ex_id e, ex_started_at e, ex_cost e)" for now
  by unfold_locales (simp add: ex_merge_def)

interpretation call_history: history_table mc_id mc_key "mc_merge now" "\<lambda>m. (mc_id m, mc_execution m, mc_cost m)" for now
  by unfold_locales (simp add: mc_merge_def)

interpretation tool_history: history_table tc_id tc_key "tc_merge now" "\<lambda>c. (tc_id c, tc_execution c)" for now
  by unfold_locales (simp add: tc_merge_def)

end
