(* ===== verification/Gov_Ingest_Correct.thy ===== *)
theory Gov_Ingest_Correct
  imports Gov_Ingest
begin

text \<open>
  What an ingest guarantees: it is all or nothing, it never rewrites a cost, and ingesting a batch again adds
  no row.
\<close>

section \<open>History\<close>

text \<open>The parts of the tables an ingest may not change.\<close>

definition history_kept :: "gov_db \<Rightarrow> gov_db \<Rightarrow> bool" where
  "history_kept t u \<longleftrightarrow>
     rows_stay ex_key (\<lambda>e. (ex_id e, ex_started_at e, ex_cost e)) (gv_executions t) (gv_executions u) \<and>
     rows_stay mc_key (\<lambda>m. (mc_id m, mc_execution m, mc_cost m)) (gv_model_calls t) (gv_model_calls u) \<and>
     rows_stay tc_key (\<lambda>c. (tc_id c, tc_execution c)) (gv_tool_calls t) (gv_tool_calls u)"

interpretation hist: table_preorder history_kept
  by unfold_locales (auto simp: history_kept_def intro: rows_stay_refl rows_stay_trans)

named_theorems ingest_moves \<open>how the statements of an ingest change the tables\<close>

lemma query_Inr: "query q t = Inr (a, t') \<Longrightarrow> t' = t"
  by (auto simp: query_def split: sum.splits)

lemma on_table_Inr:
  "on_table get_t put_t q t = Inr ((), t') \<longleftrightarrow> (\<exists>rows. q (get_t t) = Inr rows \<and> t' = put_t rows t)"
  by (auto simp: on_table_def split: sum.splits)

lemma referring_Inr: "referring nk parent get_t new q t = Inr (u, t') \<Longrightarrow> q t = Inr (u, t')"
  by (auto simp: referring_def split: sum.splits if_splits)

lemma upsert_execution_history [ingest_moves]:
  "moves history_kept (upsert_execution env now eid tenant iid provider e cost user)"
  unfolding upsert_execution_def
proof (rule hist.moves_stmt)
  fix t t' :: gov_db and a :: unit
  assume "on_table gv_executions (\<lambda>rows. gv_executions_update (\<lambda>_. rows))
      (upsert_row ex_id ex_key (ex_merge now) (execution_of now eid tenant iid provider e cost user)) t = Inr (a, t')"
  then show "history_kept t t'"
    using exec_history.upsert_stays by (fastforce simp: on_table_Inr history_kept_def rows_stay_refl)
qed

lemma upsert_model_call_history [ingest_moves]: "moves history_kept (upsert_model_call env now mid eid m cost)"
  unfolding upsert_model_call_def Let_def
proof (rule hist.moves_stmt, drule referring_Inr)
  fix t t' :: gov_db and a :: unit
  assume "on_table gv_model_calls (\<lambda>rows. gv_model_calls_update (\<lambda>_. rows))
      (upsert_row mc_id mc_key (mc_merge now) (model_call_of now mid eid m cost)) t = Inr (a, t')"
  then show "history_kept t t'"
    using call_history.upsert_stays by (fastforce simp: on_table_Inr history_kept_def rows_stay_refl)
qed

lemma upsert_tool_call_history [ingest_moves]: "moves history_kept (upsert_tool_call env now tid eid c)"
  unfolding upsert_tool_call_def Let_def
proof (rule hist.moves_stmt, drule referring_Inr)
  fix t t' :: gov_db and a :: unit
  assume "on_table gv_tool_calls (\<lambda>rows. gv_tool_calls_update (\<lambda>_. rows))
      (upsert_row tc_id tc_key (tc_merge now) (tool_call_of now tid eid c)) t = Inr (a, t')"
  then show "history_kept t t'"
    using tool_history.upsert_stays by (fastforce simp: on_table_Inr history_kept_def rows_stay_refl)
qed

lemma touch_history: "moves history_kept (exec_tx env (touch_integration now tenant iid))"
  by (rule hist.moves_stmt) (auto simp: touch_integration_def history_kept_def rows_stay_refl)

lemma identity_read_tables: "get_integration_identity env tenant iid c = (r, c') \<Longrightarrow> tables c' = tables c"
  by (auto simp: get_integration_identity_def query_def exec_auto_def Let_def
      split: option.splits db_fault.splits)

lemma check_emails_tables: "check_email_mismatches env tenant provider user emails c = (r, c') \<Longrightarrow> tables c' = tables c"
  by (auto simp: check_email_mismatches_def query_def exec_auto_def Let_def
      split: if_splits option.splits db_fault.splits sum.splits prod.splits)

lemma calculate_cost_tables: "calculate_model_cost env now m c = (r, c') \<Longrightarrow> tables c' = tables c"
  by (auto simp: calculate_model_cost_def db_bind_def db_return_def exec_tx_def query_def Let_def
      split: option.splits sum.splits prod.splits)

lemma model_costs_tables: "model_costs env now ms c = (r, c') \<Longrightarrow> tables c' = tables c"
proof (induction ms arbitrary: c r c')
  case (Cons m ms)
  obtain q c1 where 1: "calculate_model_cost env now m c = (q, c1)" by (cases "calculate_model_cost env now m c")
  note t1 = calculate_cost_tables [OF 1]
  show ?case
  proof (cases q)
    case (Inl e)
    with Cons.prems 1 t1 show ?thesis by (simp add: db_bind_def)
  next
    case (Inr cost)
    obtain q2 c2 where 2: "model_costs env now ms c1 = (q2, c2)" by (cases "model_costs env now ms c1")
    from Cons.IH [OF 2] Cons.prems 1 2 Inr t1 show ?thesis
      by (cases q2) (auto simp: db_bind_def db_return_def)
  qed
qed (simp add: db_return_def)

lemma model_costs_length: "model_costs env now ms c = (Inr costs, c') \<Longrightarrow> length costs = length ms"
  by (induction ms arbitrary: c costs c') (auto simp: db_return_def db_bind_Inr)

text \<open>Reading moves nothing, so a preorder that the four writing statements respect is respected by the
  whole batch.\<close>

context table_preorder
begin

lemma moves_reads: "(\<And>c r c'. f c = (r, c') \<Longrightarrow> tables c' = tables c) \<Longrightarrow> moves R f"
  by (auto simp: moves_def) (metis refl)

end

lemma ingest_execution_moves:
  assumes "table_preorder R"
    and "\<And>eid cost. moves R (upsert_execution env now eid tenant iid provider e cost user)"
    and "\<And>mid eid m cost. m \<in> set (ei_model_calls e) \<Longrightarrow> moves R (upsert_model_call env now mid eid m cost)"
    and "\<And>tid eid c. c \<in> set (ei_tool_calls e) \<Longrightarrow> moves R (upsert_tool_call env now tid eid c)"
  shows "moves R (ingest_execution env lib now tenant iid provider user e)"
proof -
  note pre = table_preorder.moves_bind [OF assms(1)] table_preorder.moves_each_in [OF assms(1)]
  have "moves R (model_costs env now ms)" for ms
    by (rule table_preorder.moves_reads [OF assms(1)]) (rule model_costs_tables)
  moreover have "moves R (db_each (ingest_model_call env lib now eid) (zip (ei_model_calls e) costs))" for eid costs
    by (rule pre(2)) (metis assms(3) in_set_zipE ingest_model_call_def prod.collapse)
  moreover have "moves R (db_each (ingest_tool_call env lib now eid) (ei_tool_calls e))" for eid
    by (rule pre(2)) (simp add: ingest_tool_call_def assms(4))
  ultimately show ?thesis
    unfolding ingest_execution_def Let_def by (intro pre(1) assms(2))
qed

lemma ingest_inner_moves:
  assumes "table_preorder R"
    and "\<And>now user e. e \<in> set executions \<Longrightarrow> moves R (ingest_execution env lib now tenant iid provider user e)"
    and "\<And>now. moves R (exec_tx env (touch_integration now tenant iid))"
  shows "moves R (ingest_telemetry_inner env lib tenant iid provider executions)"
  unfolding ingest_telemetry_inner_def
proof (rule table_preorder.moves_transaction [OF assms(1)], rule table_preorder.moves_bind [OF assms(1)])
  fix now
  show "moves R (get_integration_identity env tenant iid)"
    by (rule table_preorder.moves_reads [OF assms(1)]) (rule identity_read_tables)
  fix user
  let ?rest = "\<lambda>mismatches failed. db_bind (db_each (ingest_execution env lib now tenant iid provider user) executions) (\<lambda>_.
      db_bind (exec_tx env (touch_integration now tenant iid)) (\<lambda>_.
        db_return \<lparr>ir_executions = length executions, ir_model_calls = length (concat (map ei_model_calls executions)),
          ir_tool_calls = length (concat (map ei_tool_calls executions)),
          ir_detection_failed = failed, ir_mismatches = count_flags mismatches\<rparr>))"
  have rest: "moves R (?rest mismatches failed)" for mismatches failed
    by (intro table_preorder.moves_bind [OF assms(1)] table_preorder.moves_each_in [OF assms(1)]
        table_preorder.moves_return [OF assms(1)] assms(2,3))
  show "moves R (\<lambda>c. let ((_, mismatches, failed), c1) =
      check_email_mismatches env tenant provider user (map ei_user_email executions) c in ?rest mismatches failed c1)"
    unfolding moves_def
  proof (intro allI impI)
    fix c r c'
    assume a: "(let ((_, mismatches, failed), c1) =
      check_email_mismatches env tenant provider user (map ei_user_email executions) c in ?rest mismatches failed c1) = (r, c')"
    obtain tok ms fl c1 where e: "check_email_mismatches env tenant provider user (map ei_user_email executions) c =
        ((tok, ms, fl), c1)" by (metis prod.collapse)
    with a have "?rest ms fl c1 = (r, c')" by simp
    from movesD [OF rest this] check_emails_tables [OF e] show "R (tables c) (tables c')" by simp
  qed
qed

lemma ingest_attempts_moves:
  assumes "table_preorder R" and "moves R inner" and "ingest_attempts inner attempt s = (r, c', w)"
  shows "R (tables (fst s)) (tables c')"
  using assms(2,3)
proof (induction inner attempt s rule: ingest_attempts.induct)
  case (1 inner attempt s)
  obtain q c where i: "inner (fst s) = (q, c)" by (cases "inner (fst s)")
  from movesD [OF "1.prems"(1) i] have m: "R (tables (fst s)) (tables c)" .
  show ?case
  proof (cases "\<exists>e. q = Inl e \<and> is_deadlock e \<and> attempt < MAX_DEADLOCK_RETRIES")
    case True
    then obtain e where e: "q = Inl e" "is_deadlock e" "attempt < MAX_DEADLOCK_RETRIES" by blast
    with "1.prems"(2) i have "ingest_attempts inner (attempt + 1) (c, snd s @ [DEADLOCK_RETRY_BASE_MS * 2 ^ attempt]) = (r, c', w)"
      by (simp add: ingest_attempts.simps [of inner attempt])
    from "1.IH" [OF i [symmetric] e(1) conjI [OF e(2,3)] "1.prems"(1) this]
    show ?thesis using m table_preorder.trans [OF assms(1)] by fastforce
  next
    case False
    with "1.prems"(2) i m show ?thesis
      by (auto simp: ingest_attempts.simps [of inner attempt] split: sum.splits if_splits)
  qed
qed

lemma ingest_telemetry_moves:
  assumes "table_preorder R" and "moves R (ingest_telemetry_inner env lib tenant iid provider executions)"
    and "ingest_telemetry env lib tenant iid provider executions (c, w) = (r, c', w')"
  shows "R (tables c) (tables c')"
  using assms(3) ingest_attempts_moves [OF assms(1,2)] table_preorder.refl [OF assms(1)]
  by (fastforce simp: ingest_telemetry_def split: sum.splits)

lemma ingest_keeps_history:
  assumes "ingest_telemetry env lib tenant iid provider executions (c, w) = (r, c', w')"
  shows "history_kept (tables c) (tables c')"
proof -
  note pre = hist.table_preorder_axioms
  have "moves history_kept (ingest_execution env lib now tenant iid provider user e)" for now user e
    by (intro ingest_execution_moves [OF pre] ingest_moves)
  from ingest_telemetry_moves [OF pre ingest_inner_moves [OF pre this touch_history] assms] show ?thesis .
qed

section \<open>All or nothing\<close>

lemma ingest_attempts_failed:
  assumes "\<And>c e c'. inner c = (Inl e, c') \<Longrightarrow> tables c' = tables c" and "ingest_attempts inner attempt s = (Inl e, c', w)"
  shows "tables c' = tables (fst s)"
  using assms
proof (induction inner attempt s rule: ingest_attempts.induct)
  case (1 inner attempt s)
  obtain q c where i: "inner (fst s) = (q, c)" by (cases "inner (fst s)")
  with "1.prems"(2) obtain e' where q: "q = Inl e'"
    by (cases q) (auto simp: ingest_attempts.simps [of inner attempt])
  from "1.prems"(1) i q have t: "tables c = tables (fst s)" by blast
  show ?case
  proof (cases "is_deadlock e' \<and> attempt < MAX_DEADLOCK_RETRIES")
    case True
    with "1.prems"(2) i q have "ingest_attempts inner (attempt + 1) (c, snd s @ [DEADLOCK_RETRY_BASE_MS * 2 ^ attempt]) = (Inl e, c', w)"
      by (simp add: ingest_attempts.simps [of inner attempt])
    from "1.IH" [OF i [symmetric] q True "1.prems"(1) this] t show ?thesis by simp
  next
    case False
    with "1.prems"(2) i q t show ?thesis by (auto simp: ingest_attempts.simps [of inner attempt])
  qed
qed

lemma ingest_failed:
  assumes "no_lost_reply env" and "ingest_telemetry env lib tenant iid provider executions (c, w) = (Inl e, c', w')"
  shows "tables c' = tables c"
proof (cases "validate_input executions")
  case (Inl x)
  with assms(2) show ?thesis by (simp add: ingest_telemetry_def)
next
  case (Inr x)
  let ?inner = "ingest_telemetry_inner env lib tenant iid provider executions"
  have "?inner d = (Inl e, d') \<Longrightarrow> tables d' = tables d" for d e d'
    unfolding ingest_telemetry_inner_def by (rule transaction_atomic [OF assms(1)])
  moreover have "ingest_attempts ?inner 0 (c, w) = (Inl e, c', w')"
    using assms(2) Inr by (simp add: ingest_telemetry_def)
  ultimately show ?thesis using ingest_attempts_failed [of ?inner 0 "(c, w)" e c' w'] by simp
qed

text \<open>The delays are 10, 20 and 40 milliseconds, and there is no fifth attempt.\<close>

lemma ingest_attempts_waits:
  assumes "ingest_attempts inner attempt s = (r, c', w)" and "attempt \<le> MAX_DEADLOCK_RETRIES"
  shows "\<exists>n \<le> MAX_DEADLOCK_RETRIES. attempt \<le> n \<and> w = snd s @ map (\<lambda>k. DEADLOCK_RETRY_BASE_MS * 2 ^ k) [attempt..<n]"
  using assms
proof (induction inner attempt s rule: ingest_attempts.induct)
  case (1 inner attempt s)
  obtain q c where i: "inner (fst s) = (q, c)" by (cases "inner (fst s)")
  show ?case
  proof (cases "\<exists>e. q = Inl e \<and> is_deadlock e \<and> attempt < MAX_DEADLOCK_RETRIES")
    case True
    then obtain e where e: "q = Inl e" "is_deadlock e" "attempt < MAX_DEADLOCK_RETRIES" by blast
    with "1.prems"(1) i have "ingest_attempts inner (attempt + 1) (c, snd s @ [DEADLOCK_RETRY_BASE_MS * 2 ^ attempt]) = (r, c', w)"
      by (simp add: ingest_attempts.simps [of inner attempt])
    from "1.IH" [OF i [symmetric] e(1) conjI [OF e(2,3)] this] e(3) obtain n where
      "n \<le> MAX_DEADLOCK_RETRIES" "attempt + 1 \<le> n"
      "w = (snd s @ [DEADLOCK_RETRY_BASE_MS * 2 ^ attempt]) @ map (\<lambda>k. DEADLOCK_RETRY_BASE_MS * 2 ^ k) [attempt + 1..<n]"
      by auto
    then show ?thesis by (intro exI [of _ n]) (simp add: upt_conv_Cons)
  next
    case False
    then have "ingest_attempts inner attempt s = (case q of Inr r \<Rightarrow> (Inr r, c, snd s) | Inl e \<Rightarrow> (Inl (Storage e), c, snd s))"
      using i by (auto simp: ingest_attempts.simps [of inner attempt] split: sum.splits)
    with "1.prems"(1) have "w = snd s" by (cases q) simp_all
    with "1.prems"(2) show ?thesis by (intro exI [of _ attempt]) simp
  qed
qed

section \<open>Types of the stored rows\<close>

text \<open>The keys are unique, every call refers to an execution that is there, and durations and token counts are
  not negative.\<close>

definition core_ok :: "gov_db \<Rightarrow> bool" where
  "core_ok t \<longleftrightarrow>
     table_ok ex_id ex_key (gv_executions t) \<and> table_ok mc_id mc_key (gv_model_calls t) \<and> table_ok tc_id tc_key (gv_tool_calls t) \<and>
     (\<forall>e \<in> set (gv_executions t). 0 \<le> ex_duration e) \<and>
     (\<forall>m \<in> set (gv_model_calls t). mc_execution m \<in> ex_id ` set (gv_executions t) \<and>
        \<not> negative (mc_input_tokens m) \<and> \<not> negative (mc_output_tokens m)) \<and>
     (\<forall>c \<in> set (gv_tool_calls t). tc_execution c \<in> ex_id ` set (gv_executions t) \<and> 0 \<le> tc_duration c)"

abbreviation typed :: "gov_db \<Rightarrow> gov_db \<Rightarrow> bool" where
  "typed t u \<equiv> (core_ok t \<longrightarrow> core_ok u)"

interpretation types: table_preorder typed
  by unfold_locales simp_all

lemma upsert_execution_typed:
  assumes "0 \<le> ei_duration e"
  shows "moves typed (upsert_execution env now eid tenant iid provider e cost user)"
  unfolding upsert_execution_def
proof (rule types.moves_stmt, rule impI)
  fix t t' :: gov_db and a :: unit
  let ?new = "execution_of now eid tenant iid provider e cost user"
  assume "on_table gv_executions (\<lambda>rows. gv_executions_update (\<lambda>_. rows))
      (upsert_row ex_id ex_key (ex_merge now) ?new) t = Inr (a, t')" and ok: "core_ok t"
  then obtain rows where u: "upsert_row ex_id ex_key (ex_merge now) ?new (gv_executions t) = Inr rows"
    and t': "t' = t\<lparr>gv_executions := rows\<rparr>" by (auto simp: on_table_Inr)
  have d: "0 \<le> ex_duration ?new" "ex_duration (ex_merge now old ?new) = ex_duration ?new" for old
    using assms by (simp_all add: execution_of_def ex_merge_def)
  have "table_ok ex_id ex_key rows" using execs.upsert_ok [OF u] ok by (simp add: core_ok_def)
  moreover from u have "ex_id ` set (gv_executions t) \<subseteq> ex_id ` set rows"
  proof (cases rule: execs.upsert_cases)
    case updated
    then show ?thesis by (metis list.set_map order_refl)
  qed auto
  moreover from u d ok have "\<forall>x \<in> set rows. 0 \<le> ex_duration x"
    by (cases rule: execs.upsert_cases) (auto simp: core_ok_def)
  ultimately show "core_ok t'" using ok unfolding core_ok_def t' by auto
qed

lemma upsert_model_call_typed:
  assumes "\<not> negative (mi_input_tokens m)" and "\<not> negative (mi_output_tokens m)"
  shows "moves typed (upsert_model_call env now mid eid m cost)"
  unfolding upsert_model_call_def Let_def
proof (rule types.moves_stmt, rule impI)
  fix t t' :: gov_db and a :: unit
  let ?new = "model_call_of now mid eid m cost"
  assume r: "referring mc_key mc_execution gv_model_calls ?new (on_table gv_model_calls (\<lambda>rows. gv_model_calls_update (\<lambda>_. rows))
      (upsert_row mc_id mc_key (mc_merge now) ?new)) t = Inr (a, t')" and ok: "core_ok t"
  then obtain rows where u: "upsert_row mc_id mc_key (mc_merge now) ?new (gv_model_calls t) = Inr rows"
    and t': "t' = t\<lparr>gv_model_calls := rows\<rparr>" using referring_Inr [OF r] by (auto simp: on_table_Inr)
  have p: "mc_key ?new \<in> mc_key ` set (gv_model_calls t) \<or> mc_execution ?new \<in> ex_id ` set (gv_executions t)"
    using r by (auto simp: referring_def list_ex_key split: sum.splits if_splits)
  have "table_ok mc_id mc_key rows" using calls.upsert_ok [OF u] ok by (simp add: core_ok_def)
  moreover from u p ok assms have "\<forall>x \<in> set rows. mc_execution x \<in> ex_id ` set (gv_executions t) \<and>
      \<not> negative (mc_input_tokens x) \<and> \<not> negative (mc_output_tokens x)"
    by (cases rule: calls.upsert_cases) (auto simp: core_ok_def mc_merge_def model_call_of_def)
  ultimately show "core_ok t'" using ok unfolding core_ok_def t' by auto
qed

lemma upsert_tool_call_typed:
  assumes "0 \<le> ti_duration x"
  shows "moves typed (upsert_tool_call env now tid eid x)"
  unfolding upsert_tool_call_def Let_def
proof (rule types.moves_stmt, rule impI)
  fix t t' :: gov_db and a :: unit
  let ?new = "tool_call_of now tid eid x"
  assume r: "referring tc_key tc_execution gv_tool_calls ?new (on_table gv_tool_calls (\<lambda>rows. gv_tool_calls_update (\<lambda>_. rows))
      (upsert_row tc_id tc_key (tc_merge now) ?new)) t = Inr (a, t')" and ok: "core_ok t"
  then obtain rows where u: "upsert_row tc_id tc_key (tc_merge now) ?new (gv_tool_calls t) = Inr rows"
    and t': "t' = t\<lparr>gv_tool_calls := rows\<rparr>" using referring_Inr [OF r] by (auto simp: on_table_Inr)
  have p: "tc_key ?new \<in> tc_key ` set (gv_tool_calls t) \<or> tc_execution ?new \<in> ex_id ` set (gv_executions t)"
    using r by (auto simp: referring_def list_ex_key split: sum.splits if_splits)
  have "table_ok tc_id tc_key rows" using tools.upsert_ok [OF u] ok by (simp add: core_ok_def)
  moreover from u p ok assms have "\<forall>x \<in> set rows. tc_execution x \<in> ex_id ` set (gv_executions t) \<and> 0 \<le> tc_duration x"
    by (cases rule: tools.upsert_cases) (auto simp: core_ok_def tc_merge_def tool_call_of_def)
  ultimately show "core_ok t'" using ok unfolding core_ok_def t' by auto
qed

lemma validate_model_calls_Inr:
  "validate_model_calls ms = Inr () \<Longrightarrow> m \<in> set ms \<Longrightarrow> \<not> negative (mi_input_tokens m) \<and> \<not> negative (mi_output_tokens m)"
  by (induction ms) (auto split: if_splits)

lemma validate_tool_calls_Inr: "validate_tool_calls cs = Inr () \<Longrightarrow> c \<in> set cs \<Longrightarrow> 0 \<le> ti_duration c"
  by (induction cs) (auto split: if_splits)

lemma validate_input_Inr:
  assumes "validate_input es = Inr ()" and "e \<in> set es"
  shows "0 \<le> ei_duration e" "validate_model_calls (ei_model_calls e) = Inr ()" "validate_tool_calls (ei_tool_calls e) = Inr ()"
  using assms by (induction es) (auto simp: res_bind_def split: if_splits sum.splits)

lemma ingest_keeps_types:
  assumes "ingest_telemetry env lib tenant iid provider executions (c, w) = (r, c', w')" and "core_ok (tables c)"
  shows "core_ok (tables c')"
proof (cases "validate_input executions = Inr ()")
  case True
  note pre = types.table_preorder_axioms
  have "moves typed (ingest_execution env lib now tenant iid provider user e)" if "e \<in> set executions" for now user e
    by (intro ingest_execution_moves [OF pre] upsert_execution_typed upsert_model_call_typed upsert_tool_call_typed)
      (use validate_input_Inr [OF True that] validate_model_calls_Inr validate_tool_calls_Inr in blast)+
  moreover have "moves typed (exec_tx env (touch_integration now tenant iid))" for now
    by (rule types.moves_stmt) (auto simp: touch_integration_def core_ok_def)
  ultimately have "moves typed (ingest_telemetry_inner env lib tenant iid provider executions)"
    by (rule ingest_inner_moves [OF pre])
  from ingest_telemetry_moves [OF pre this assms(1)] assms(2) show ?thesis by simp
next
  case False
  with assms show ?thesis by (cases "validate_input executions") (auto simp: ingest_telemetry_def)
qed

section \<open>Ingesting again\<close>

definition keys_grow :: "gov_db \<Rightarrow> gov_db \<Rightarrow> bool" where
  "keys_grow t u \<longleftrightarrow> ex_key ` set (gv_executions t) \<subseteq> ex_key ` set (gv_executions u) \<and>
     mc_key ` set (gv_model_calls t) \<subseteq> mc_key ` set (gv_model_calls u) \<and>
     tc_key ` set (gv_tool_calls t) \<subseteq> tc_key ` set (gv_tool_calls u)"

interpretation grow: table_preorder keys_grow
proof
  fix t u v :: gov_db
  show "keys_grow t t" by (simp add: keys_grow_def)
  show "keys_grow t u \<Longrightarrow> keys_grow u v \<Longrightarrow> keys_grow t v"
    unfolding keys_grow_def by (elim conjE, intro conjI) (erule (1) subset_trans)+
qed

text \<open>Every row of an execution is there.\<close>

definition known :: "execution_input \<Rightarrow> gov_db \<Rightarrow> bool" where
  "known e t \<longleftrightarrow> (ei_trace e, ei_span e) \<in> ex_key ` set (gv_executions t) \<and>
     (\<forall>m \<in> set (ei_model_calls e). (mi_trace m, mi_span m) \<in> mc_key ` set (gv_model_calls t)) \<and>
     (\<forall>c \<in> set (ei_tool_calls e). (ti_trace c, ti_span c) \<in> tc_key ` set (gv_tool_calls t))"

lemma known_grows: "known e t \<Longrightarrow> keys_grow t u \<Longrightarrow> known e u"
  by (auto simp: known_def keys_grow_def)

lemma keys_of_rows [simp]:
  "ex_key (execution_of now eid tenant iid provider e cost user) = (ei_trace e, ei_span e)"
  "mc_key (model_call_of now mid eid m cost) = (mi_trace m, mi_span m)"
  "tc_key (tool_call_of now tid eid c) = (ti_trace c, ti_span c)"
  by (simp_all add: ex_key_def execution_of_def mc_key_def model_call_of_def tc_key_def tool_call_of_def)

lemma upsert_execution_Inr:
  assumes "upsert_execution env now eid tenant iid provider e cost user c = (r, c')"
  shows "tables c' = tables c \<and> r \<noteq> Inr () \<or>
     (\<exists>rows. upsert_row ex_id ex_key (ex_merge now) (execution_of now eid tenant iid provider e cost user)
        (gv_executions (tables c)) = Inr rows \<and> tables c' = (tables c)\<lparr>gv_executions := rows\<rparr>)"
  using assms
  by (auto simp: upsert_execution_def exec_tx_def on_table_def Let_def split: option.splits sum.splits)

lemma upsert_model_call_Inr:
  assumes "upsert_model_call env now mid eid m cost c = (r, c')"
  shows "tables c' = tables c \<and> r \<noteq> Inr () \<or>
     (\<exists>rows. upsert_row mc_id mc_key (mc_merge now) (model_call_of now mid eid m cost)
        (gv_model_calls (tables c)) = Inr rows \<and> tables c' = (tables c)\<lparr>gv_model_calls := rows\<rparr>)"
  using assms
  by (auto simp: upsert_model_call_def exec_tx_def referring_def on_table_def Let_def
      split: option.splits sum.splits if_splits)

lemma upsert_tool_call_Inr:
  assumes "upsert_tool_call env now tid eid tc c = (r, c')"
  shows "tables c' = tables c \<and> r \<noteq> Inr () \<or>
     (\<exists>rows. upsert_row tc_id tc_key (tc_merge now) (tool_call_of now tid eid tc)
        (gv_tool_calls (tables c)) = Inr rows \<and> tables c' = (tables c)\<lparr>gv_tool_calls := rows\<rparr>)"
  using assms
  by (auto simp: upsert_tool_call_def exec_tx_def referring_def on_table_def Let_def
      split: option.splits sum.splits if_splits)

lemma statements_grow:
  "moves keys_grow (upsert_execution env now eid tenant iid provider e cost user)"
  "moves keys_grow (upsert_model_call env now mid eid m cost)"
  "moves keys_grow (upsert_tool_call env now tid eid tc)"
  unfolding moves_def
  by (auto simp: keys_grow_def dest!: upsert_execution_Inr upsert_model_call_Inr upsert_tool_call_Inr
      execs.upsert_keys calls.upsert_keys tools.upsert_keys)

lemma ingest_execution_known:
  assumes "ingest_execution env lib now tenant iid provider user e c = (Inr (), c')"
  shows "known e (tables c')"
proof -
  let ?eid = "deterministic_id lib ''exec'' (ei_trace e) (ei_span e)"
  from assms obtain costs c1 c2 c3 where
    1: "model_costs env now (ei_model_calls e) c = (Inr costs, c1)"
    and 2: "upsert_execution env now ?eid tenant iid provider e (total_cost costs) user c1 = (Inr (), c2)"
    and 3: "db_each (ingest_model_call env lib now ?eid) (zip (ei_model_calls e) costs) c2 = (Inr (), c3)"
    and 4: "db_each (ingest_tool_call env lib now ?eid) (ei_tool_calls e) c3 = (Inr (), c')"
    by (auto simp: ingest_execution_def Let_def db_bind_Inr)
  have k2: "(ei_trace e, ei_span e) \<in> ex_key ` set (gv_executions (tables c2))"
    using upsert_execution_Inr [OF 2] by (auto dest!: execs.upsert_keys)
  have g: "moves keys_grow (ingest_model_call env lib now ?eid x)" "moves keys_grow (ingest_tool_call env lib now ?eid y)" for x y
    by (simp_all add: ingest_model_call_def ingest_tool_call_def statements_grow)
  have "\<forall>x \<in> set (zip (ei_model_calls e) costs). (mi_trace (fst x), mi_span (fst x)) \<in> mc_key ` set (gv_model_calls (tables c3))"
  proof (rule grow.each_establishes [OF _ _ g(1) 3])
    show "ingest_model_call env lib now ?eid x d = (Inr (), d') \<Longrightarrow>
        (mi_trace (fst x), mi_span (fst x)) \<in> mc_key ` set (gv_model_calls (tables d'))" for x d d'
      by (auto simp: ingest_model_call_def dest!: upsert_model_call_Inr calls.upsert_keys)
  qed (auto simp: keys_grow_def)
  then have k3: "\<forall>m \<in> set (ei_model_calls e). (mi_trace m, mi_span m) \<in> mc_key ` set (gv_model_calls (tables c3))"
    using model_costs_length [OF 1] by (metis (no_types, lifting) in_set_impl_in_set_zip1 fst_conv)
  have k4: "\<forall>tc \<in> set (ei_tool_calls e). (ti_trace tc, ti_span tc) \<in> tc_key ` set (gv_tool_calls (tables c'))"
  proof (rule grow.each_establishes [OF _ _ g(2) 4])
    show "ingest_tool_call env lib now ?eid x d = (Inr (), d') \<Longrightarrow>
        (ti_trace x, ti_span x) \<in> tc_key ` set (gv_tool_calls (tables d'))" for x d d'
      by (auto simp: ingest_tool_call_def dest!: upsert_tool_call_Inr tools.upsert_keys)
  qed (auto simp: keys_grow_def)
  have "keys_grow (tables c2) (tables c3)" "keys_grow (tables c3) (tables c')"
    using movesD [OF grow.moves_each [OF g(1)] 3] movesD [OF grow.moves_each [OF g(2)] 4] .
  from this(2) grow.trans [OF this] have "ex_key ` set (gv_executions (tables c2)) \<subseteq> ex_key ` set (gv_executions (tables c'))"
    "mc_key ` set (gv_model_calls (tables c3)) \<subseteq> mc_key ` set (gv_model_calls (tables c'))"
    by (simp_all add: keys_grow_def)
  with k2 k3 k4 show ?thesis unfolding known_def by (meson subsetD)
qed

lemma ingest_execution_grows: "moves keys_grow (ingest_execution env lib now tenant iid provider user e)"
  by (intro ingest_execution_moves [OF grow.table_preorder_axioms] statements_grow)

lemma ingest_inner_executions:
  assumes "ingest_telemetry_inner env lib tenant iid provider executions c = (Inr r, c')"
  obtains now user d1 d2 where "db_each (ingest_execution env lib now tenant iid provider user) executions d1 = (Inr (), d2)"
    and "\<exists>x. tables c' = (tables d2)\<lparr>gv_integrations := x\<rparr>"
  using assms unfolding ingest_telemetry_inner_def
proof (rule transaction_Inr)
  fix c2
  let ?now = "env_now env (sent c)"
  let ?rest = "\<lambda>user mismatches failed. db_bind (db_each (ingest_execution env lib ?now tenant iid provider user) executions) (\<lambda>_.
      db_bind (exec_tx env (touch_integration ?now tenant iid)) (\<lambda>_.
        db_return \<lparr>ir_executions = length executions, ir_model_calls = length (concat (map ei_model_calls executions)),
          ir_tool_calls = length (concat (map ei_tool_calls executions)),
          ir_detection_failed = failed, ir_mismatches = count_flags mismatches\<rparr>))"
  assume "db_bind (get_integration_identity env tenant iid) (\<lambda>user c. let ((_, mismatches, failed), c1) =
      check_email_mismatches env tenant provider user (map ei_user_email executions) c in ?rest user mismatches failed c1)
      (c\<lparr>sent := Suc (sent c)\<rparr>) = (Inr r, c2)" and t: "tables c' = tables c2"
  then obtain user d0 where d0: "(let ((_, mismatches, failed), c1) =
      check_email_mismatches env tenant provider user (map ei_user_email executions) d0 in ?rest user mismatches failed c1) =
      (Inr r, c2)" unfolding db_bind_Inr by blast
  obtain tok ms fl d1 where "check_email_mismatches env tenant provider user (map ei_user_email executions) d0 =
      ((tok, ms, fl), d1)" by (metis prod.collapse)
  with d0 obtain d2 where e: "db_each (ingest_execution env lib ?now tenant iid provider user) executions d1 = (Inr (), d2)"
    and u: "exec_tx env (touch_integration ?now tenant iid) d2 = (Inr (), c2)"
    by (auto simp: db_bind_Inr db_return_def)
  from u t have "\<exists>x. tables c' = (tables d2)\<lparr>gv_integrations := x\<rparr>"
    by (auto simp: exec_tx_Inr touch_integration_def)
  with e that show ?thesis by blast
qed

lemma ingest_inner_known:
  assumes "ingest_telemetry_inner env lib tenant iid provider executions c = (Inr r, c')"
  shows "\<forall>e \<in> set executions. known e (tables c')"
proof -
  from ingest_inner_executions [OF assms] obtain now user d1 d2 where
    d: "db_each (ingest_execution env lib now tenant iid provider user) executions d1 = (Inr (), d2)"
    and t: "\<exists>x. tables c' = (tables d2)\<lparr>gv_integrations := x\<rparr>" .
  have "\<forall>e \<in> set executions. known e (tables d2)"
    by (rule grow.each_establishes [where P = known, OF ingest_execution_known known_grows ingest_execution_grows d])
  with t show ?thesis by (auto simp: known_def)
qed

lemma ingest_attempts_Inr:
  assumes "ingest_attempts inner attempt s = (Inr r, c', w)"
  shows "\<exists>c. inner c = (Inr r, c')"
  using assms
proof (induction inner attempt s rule: ingest_attempts.induct)
  case (1 inner attempt s)
  obtain q c where i: "inner (fst s) = (q, c)" by (cases "inner (fst s)")
  show ?case
  proof (cases q)
    case (Inl e)
    with i "1.prems" have d: "is_deadlock e \<and> attempt < MAX_DEADLOCK_RETRIES"
      and "ingest_attempts inner (attempt + 1) (c, snd s @ [DEADLOCK_RETRY_BASE_MS * 2 ^ attempt]) = (Inr r, c', w)"
      by (auto simp: ingest_attempts.simps [of inner attempt] split: if_splits)
    with "1.IH" [OF i [symmetric] Inl] show ?thesis by blast
  next
    case (Inr r')
    with i "1.prems" show ?thesis by (auto simp: ingest_attempts.simps [of inner attempt])
  qed
qed

lemma ingest_Inr:
  assumes "ingest_telemetry env lib tenant iid provider executions s = (Inr r, c', w)"
  obtains c where "ingest_telemetry_inner env lib tenant iid provider executions c = (Inr r, c')"
    and "validate_input executions = Inr ()"
  using assms ingest_attempts_Inr by (fastforce simp: ingest_telemetry_def split: sum.splits)

text \<open>The tables hold the same rows under their keys, in the same order.\<close>

definition same_keys :: "gov_db \<Rightarrow> gov_db \<Rightarrow> bool" where
  "same_keys t u \<longleftrightarrow> map ex_key (gv_executions u) = map ex_key (gv_executions t) \<and>
     map mc_key (gv_model_calls u) = map mc_key (gv_model_calls t) \<and>
     map tc_key (gv_tool_calls u) = map tc_key (gv_tool_calls t)"

interpretation same: table_preorder same_keys
  by unfold_locales (simp_all add: same_keys_def)

lemma same_keys_sets:
  assumes "same_keys t u"
  shows "ex_key ` set (gv_executions u) = ex_key ` set (gv_executions t)"
    "mc_key ` set (gv_model_calls u) = mc_key ` set (gv_model_calls t)"
    "tc_key ` set (gv_tool_calls u) = tc_key ` set (gv_tool_calls t)"
  using assms unfolding same_keys_def by (metis list.set_map)+

lemma same_keys_known: "same_keys t u \<Longrightarrow> known e u \<longleftrightarrow> known e t"
  by (simp add: known_def same_keys_sets)

lemma upsert_execution_again:
  assumes "healthy env" and "(ei_trace e, ei_span e) \<in> ex_key ` set (gv_executions (tables c))"
  shows "\<exists>c'. upsert_execution env now eid tenant iid provider e cost user c = (Inr (), c') \<and>
     same_keys (tables c) (tables c')"
proof -
  let ?new = "execution_of now eid tenant iid provider e cost user"
  obtain rows where u: "upsert_row ex_id ex_key (ex_merge now) ?new (gv_executions (tables c)) = Inr rows"
    using execs.upsert_again [of ?new "gv_executions (tables c)" now] assms(2) by auto
  from u have "map ex_key rows = map ex_key (gv_executions (tables c))"
    using assms(2) by (cases rule: execs.upsert_cases) simp_all
  with u show ?thesis
    by (simp add: upsert_execution_def exec_healthy [OF assms(1)] on_table_def same_keys_def)
qed

lemma upsert_model_call_again:
  assumes "healthy env" and "(mi_trace m, mi_span m) \<in> mc_key ` set (gv_model_calls (tables c))"
  shows "\<exists>c'. upsert_model_call env now mid eid m cost c = (Inr (), c') \<and> same_keys (tables c) (tables c')"
proof -
  let ?new = "model_call_of now mid eid m cost"
  obtain rows where u: "upsert_row mc_id mc_key (mc_merge now) ?new (gv_model_calls (tables c)) = Inr rows"
    using calls.upsert_again [of ?new "gv_model_calls (tables c)" now] assms(2) by auto
  from u have "map mc_key rows = map mc_key (gv_model_calls (tables c))"
    using assms(2) by (cases rule: calls.upsert_cases) simp_all
  with u assms(2) show ?thesis
    by (simp add: upsert_model_call_def Let_def referring_def list_ex_key exec_healthy [OF assms(1)]
        on_table_def same_keys_def)
qed

lemma upsert_tool_call_again:
  assumes "healthy env" and "(ti_trace x, ti_span x) \<in> tc_key ` set (gv_tool_calls (tables c))"
  shows "\<exists>c'. upsert_tool_call env now tid eid x c = (Inr (), c') \<and> same_keys (tables c) (tables c')"
proof -
  let ?new = "tool_call_of now tid eid x"
  obtain rows where u: "upsert_row tc_id tc_key (tc_merge now) ?new (gv_tool_calls (tables c)) = Inr rows"
    using tools.upsert_again [of ?new "gv_tool_calls (tables c)" now] assms(2) by auto
  from u have "map tc_key rows = map tc_key (gv_tool_calls (tables c))"
    using assms(2) by (cases rule: tools.upsert_cases) simp_all
  with u assms(2) show ?thesis
    by (simp add: upsert_tool_call_def Let_def referring_def list_ex_key exec_healthy [OF assms(1)]
        on_table_def same_keys_def)
qed

lemma model_costs_healthy:
  assumes "healthy env"
  shows "\<exists>costs c'. model_costs env now ms c = (Inr costs, c')"
proof (induction ms arbitrary: c)
  case (Cons m ms)
  obtain cost c1 where "calculate_model_cost env now m c = (Inr cost, c1)"
    by (cases "mi_input_tokens m"; cases "mi_output_tokens m")
      (auto simp: calculate_model_cost_def db_return_def db_bind_def query_def exec_healthy [OF assms])
  with Cons.IH [of c1] show ?case by (auto simp: db_return_def)
qed (simp add: db_return_def)

lemma ingest_execution_again:
  assumes "healthy env" and "known e (tables c)"
  shows "\<exists>c'. ingest_execution env lib now tenant iid provider user e c = (Inr (), c') \<and>
     same_keys (tables c) (tables c')"
proof -
  let ?eid = "deterministic_id lib ''exec'' (ei_trace e) (ei_span e)"
  obtain costs c1 where 1: "model_costs env now (ei_model_calls e) c = (Inr costs, c1)"
    using model_costs_healthy [OF assms(1)] by blast
  note t1 = model_costs_tables [OF 1]
  from assms(2) t1 have "(ei_trace e, ei_span e) \<in> ex_key ` set (gv_executions (tables c1))" by (simp add: known_def)
  from upsert_execution_again [OF assms(1) this, of now ?eid tenant iid provider "total_cost costs" user] t1
  obtain c2 where 2: "upsert_execution env now ?eid tenant iid provider e (total_cost costs) user c1 = (Inr (), c2)"
    and s2: "same_keys (tables c) (tables c2)" by auto
  obtain c3 where 3: "db_each (ingest_model_call env lib now ?eid) (zip (ei_model_calls e) costs) c2 = (Inr (), c3)"
    and s3: "same_keys (tables c) (tables c3)"
  proof (atomize_elim, rule each_succeeds [where I = "same_keys (tables c)", OF _ s2])
    fix x and d :: "gov_db conn" assume x: "x \<in> set (zip (ei_model_calls e) costs)" and d: "same_keys (tables c) (tables d)"
    then have "fst x \<in> set (ei_model_calls e)" by (metis in_set_zipE prod.collapse)
    with assms(2) have "(mi_trace (fst x), mi_span (fst x)) \<in> mc_key ` set (gv_model_calls (tables d))"
      by (simp add: known_def same_keys_sets [OF d])
    from upsert_model_call_again [OF assms(1) this]
    show "\<exists>d'. ingest_model_call env lib now ?eid x d = (Inr (), d') \<and> same_keys (tables c) (tables d')"
      using d same.trans unfolding ingest_model_call_def by blast
  qed
  obtain c4 where 4: "db_each (ingest_tool_call env lib now ?eid) (ei_tool_calls e) c3 = (Inr (), c4)"
    and s4: "same_keys (tables c) (tables c4)"
  proof (atomize_elim, rule each_succeeds [where I = "same_keys (tables c)", OF _ s3])
    fix x and d :: "gov_db conn" assume x: "x \<in> set (ei_tool_calls e)" and d: "same_keys (tables c) (tables d)"
    with assms(2) have "(ti_trace x, ti_span x) \<in> tc_key ` set (gv_tool_calls (tables d))"
      by (simp add: known_def same_keys_sets [OF d])
    from upsert_tool_call_again [OF assms(1) this]
    show "\<exists>d'. ingest_tool_call env lib now ?eid x d = (Inr (), d') \<and> same_keys (tables c) (tables d')"
      using d same.trans unfolding ingest_tool_call_def by blast
  qed
  from 1 2 3 4 s4 show ?thesis by (simp add: ingest_execution_def Let_def)
qed

lemma ingest_inner_again:
  assumes "healthy env" and "\<forall>e \<in> set executions. known e (tables c)"
  shows "\<exists>r c'. ingest_telemetry_inner env lib tenant iid provider executions c = (Inr r, c') \<and>
     same_keys (tables c) (tables c')"
proof -
  let ?now = "env_now env (sent c)"
  let ?c0 = "c\<lparr>sent := Suc (sent c)\<rparr>"
  obtain user d0 where 0: "get_integration_identity env tenant iid ?c0 = (Inr user, d0)"
    by (simp add: get_integration_identity_def query_def exec_healthy [OF assms(1)])
  obtain tok ms fl d1 where 1: "check_email_mismatches env tenant provider user (map ei_user_email executions) d0 =
      ((tok, ms, fl), d1)" by (metis prod.collapse)
  have t: "tables d1 = tables c" using identity_read_tables [OF 0] check_emails_tables [OF 1] by simp
  obtain d2 where 2: "db_each (ingest_execution env lib ?now tenant iid provider user) executions d1 = (Inr (), d2)"
    and s: "same_keys (tables c) (tables d2)"
  proof (atomize_elim, rule each_succeeds [where I = "same_keys (tables c)"])
    show "same_keys (tables c) (tables d1)" using t same.refl by simp
    fix e and d :: "gov_db conn" assume "e \<in> set executions" and d: "same_keys (tables c) (tables d)"
    with assms(2) have "known e (tables d)" by (simp add: same_keys_known)
    from ingest_execution_again [OF assms(1) this]
    show "\<exists>d'. ingest_execution env lib ?now tenant iid provider user e d = (Inr (), d') \<and> same_keys (tables c) (tables d')"
      using d same.trans by blast
  qed
  have "same_keys (tables c) (tables d2\<lparr>gv_integrations := x\<rparr>)" for x using s by (simp add: same_keys_def)
  with 0 1 2 show ?thesis
    by (simp add: ingest_telemetry_inner_def transaction_def Let_def assms(1) touch_integration_def
        exec_healthy [OF assms(1)] db_return_def)
qed

lemma ingest_again:
  assumes "healthy env" and "validate_input executions = Inr ()" and "\<forall>e \<in> set executions. known e (tables c)"
  shows "\<exists>r c'. ingest_telemetry env lib tenant iid provider executions (c, w) = (Inr r, c', w) \<and>
     same_keys (tables c) (tables c')"
proof -
  from ingest_inner_again [OF assms(1,3), of lib tenant iid provider] obtain r c' where
    "ingest_telemetry_inner env lib tenant iid provider executions c = (Inr r, c')" "same_keys (tables c) (tables c')" by blast
  with assms(2) show ?thesis by (simp add: ingest_telemetry_def ingest_attempts.simps)
qed


section \<open>Whose execution it is\<close>

text \<open>The statement names no tenant where it looks for the row to update, so the last writer owns it.\<close>

definition owned :: "string \<Rightarrow> string \<times> string \<Rightarrow> gov_db \<Rightarrow> bool" where
  "owned tenant k t \<longleftrightarrow> (\<exists>r. lookup_row ex_key k (gv_executions t) = Some r \<and> ex_tenant r = tenant)"

definition owned_stay :: "string \<Rightarrow> gov_db \<Rightarrow> gov_db \<Rightarrow> bool" where
  "owned_stay tenant t u \<longleftrightarrow> (\<forall>k. owned tenant k t \<longrightarrow> owned tenant k u)"

interpretation own: table_preorder "owned_stay tenant" for tenant
  by unfold_locales (simp_all add: owned_stay_def)

lemma same_executions_owned: "gv_executions u = gv_executions t \<Longrightarrow> owned_stay tenant t u"
  by (simp add: owned_stay_def owned_def)

lemma upsert_execution_owned:
  assumes "upsert_row ex_id ex_key (ex_merge now) (execution_of now eid tenant iid provider e cost user)
      (gv_executions t) = Inr rows"
  shows "owned tenant (ei_trace e, ei_span e) (t\<lparr>gv_executions := rows\<rparr>)"
    and "owned_stay tenant t (t\<lparr>gv_executions := rows\<rparr>)"
proof -
  let ?new = "execution_of now eid tenant iid provider e cost user"
  have n: "ex_tenant ?new = tenant" "ex_tenant (ex_merge now old ?new) = tenant" for old
    by (simp_all add: execution_of_def ex_merge_def)
  note l = execs.lookup_upsert [OF assms]
  show "owned tenant (ei_trace e, ei_span e) (t\<lparr>gv_executions := rows\<rparr>)"
    by (auto simp: owned_def l n split: option.splits)
  show "owned_stay tenant t (t\<lparr>gv_executions := rows\<rparr>)"
    by (auto simp: owned_stay_def owned_def l n split: option.splits)
qed

lemma statements_own:
  "moves (owned_stay tenant) (upsert_execution env now eid tenant iid provider e cost user)"
  "moves (owned_stay tenant) (upsert_model_call env now mid eid m cost)"
  "moves (owned_stay tenant) (upsert_tool_call env now tid eid tc)"
  unfolding moves_def
  by (auto simp: own.refl same_executions_owned dest!: upsert_execution_Inr upsert_model_call_Inr upsert_tool_call_Inr
      upsert_execution_owned(2))

lemma ingest_execution_owned:
  assumes "ingest_execution env lib now tenant iid provider user e c = (Inr (), c')"
  shows "owned tenant (ei_trace e, ei_span e) (tables c')"
proof -
  let ?eid = "deterministic_id lib ''exec'' (ei_trace e) (ei_span e)"
  from assms obtain costs c1 c2 c3 where
    2: "upsert_execution env now ?eid tenant iid provider e (total_cost costs) user c1 = (Inr (), c2)"
    and 3: "db_each (ingest_model_call env lib now ?eid) (zip (ei_model_calls e) costs) c2 = (Inr (), c3)"
    and 4: "db_each (ingest_tool_call env lib now ?eid) (ei_tool_calls e) c3 = (Inr (), c')"
    by (auto simp: ingest_execution_def Let_def db_bind_Inr)
  have "owned tenant (ei_trace e, ei_span e) (tables c2)"
    using upsert_execution_Inr [OF 2] upsert_execution_owned(1) by auto
  moreover have "owned_stay tenant (tables c2) (tables c3)"
    by (rule movesD [OF own.moves_each 3]) (simp add: ingest_model_call_def statements_own)
  moreover have "owned_stay tenant (tables c3) (tables c')"
    by (rule movesD [OF own.moves_each 4]) (simp add: ingest_tool_call_def statements_own)
  ultimately show ?thesis by (simp add: owned_stay_def)
qed

lemma ingest_takes_over:
  assumes "ingest_telemetry env lib tenant iid provider executions s = (Inr r, c', w)" and "e \<in> set executions"
  shows "owned tenant (ei_trace e, ei_span e) (tables c')"
proof -
  obtain c where "ingest_telemetry_inner env lib tenant iid provider executions c = (Inr r, c')"
    using ingest_Inr [OF assms(1)] by blast
  from ingest_inner_executions [OF this] obtain now user d1 d2 where
    d: "db_each (ingest_execution env lib now tenant iid provider user) executions d1 = (Inr (), d2)"
    and t: "\<exists>x. tables c' = (tables d2)\<lparr>gv_integrations := x\<rparr>" .
  have "\<forall>e \<in> set executions. owned tenant (ei_trace e, ei_span e) (tables d2)"
  proof (rule own.each_establishes [where P = "\<lambda>e. owned tenant (ei_trace e, ei_span e)", OF _ _ _ d])
    show "moves (owned_stay tenant) (ingest_execution env lib now tenant iid provider user e)" for e
      by (intro ingest_execution_moves [OF own.table_preorder_axioms] statements_own)
  qed (auto simp: owned_stay_def dest: ingest_execution_owned)
  with assms(2) t show ?thesis by (auto simp: owned_def)
qed

end
