(* ===== verification/Gov_Identity_Correct.thy ===== *)
theory Gov_Identity_Correct
  imports Gov_Identity Gov_Frames
begin

text \<open>
  What the identity map guarantees: the check of a payload and the report read the same mapping, and an
  import of the directory points every entry at its user without changing the past.
\<close>

section \<open>The mapping of an address\<close>

definition user_maps :: "string \<Rightarrow> string \<Rightarrow> string \<Rightarrow> gov_db \<Rightarrow> identity_map_row list" where
  "user_maps tenant provider user t =
     filter (\<lambda>m. im_tenant m = tenant \<and> im_provider m = provider \<and> im_provider_user m = user) (gv_identity_maps t)"

definition latest_user :: "identity_map_row list \<Rightarrow> string option" where
  "latest_user ms = (case latest_first ms of [] \<Rightarrow> None | m # _ \<Rightarrow> im_internal_user m)"

text \<open>The user an address is mapped to now, and the one it was mapped to at a time.\<close>

definition current_user :: "string \<Rightarrow> string \<Rightarrow> string \<Rightarrow> gov_db \<Rightarrow> string option" where
  "current_user tenant provider user t =
     latest_user (filter (\<lambda>m. im_valid_to m = None) (user_maps tenant provider user t))"

definition user_at :: "string \<Rightarrow> string \<Rightarrow> string \<Rightarrow> int \<Rightarrow> gov_db \<Rightarrow> string option" where
  "user_at tenant provider user x t =
     latest_user (filter (\<lambda>m. im_valid_from m \<le> x \<and> still_valid x m) (user_maps tenant provider user t))"

lemma those_map_Some: "those (map f xs) = Some ys \<longleftrightarrow> (\<forall>x \<in> set xs. f x \<noteq> None) \<and> ys = map (the \<circ> f) xs"
  by (induction xs arbitrary: ys) (auto split: option.splits)

lemma mapped_pairs_Inr:
  "mapped_pairs ms = Inr ps \<longleftrightarrow> (\<forall>m \<in> set ms. im_internal_user m \<noteq> None) \<and>
     ps = map (\<lambda>m. (im_provider_user m, the (im_internal_user m))) ms"
proof -
  have "zip (map im_provider_user ms) (map (the \<circ> im_internal_user) ms) =
      map (\<lambda>m. (im_provider_user m, the (im_internal_user m))) ms"
    by (induction ms) simp_all
  then show ?thesis
    by (auto simp: mapped_pairs_def those_map_Some split: option.splits dest: those_map_Some [THEN iffD1])
      (metis option.distinct(1) those_map_Some)+
qed

lemma set_latest_first [simp]: "set (latest_first ms) = set ms"
  by (simp add: latest_first_def)

lemma filter_latest_first: "filter P (latest_first ms) = latest_first (filter P ms)"
  by (simp add: latest_first_def filter_sort)

lemma map_of_pairs:
  assumes "\<forall>m \<in> set ms. im_internal_user m \<noteq> None"
  shows "map_of (map (\<lambda>m. (im_provider_user m, the (im_internal_user m))) ms) u =
     (case filter (\<lambda>m. im_provider_user m = u) ms of [] \<Rightarrow> None | m # _ \<Rightarrow> im_internal_user m)"
  using assms by (induction ms) auto

lemma map_of_mapped:
  assumes "mapped_pairs (latest_first ms) = Inr ps"
  shows "map_of ps u = latest_user (filter (\<lambda>m. im_provider_user m = u) ms)"
proof -
  from assms have n: "\<forall>m \<in> set (latest_first ms). im_internal_user m \<noteq> None"
    and p: "ps = map (\<lambda>m. (im_provider_user m, the (im_internal_user m))) (latest_first ms)"
    unfolding mapped_pairs_Inr by blast+
  show ?thesis unfolding p map_of_pairs [OF n] by (simp add: latest_user_def filter_latest_first)
qed

lemma active_mappings_current:
  assumes "active_mappings tenant provider t = Inr active"
  shows "map_of active u = current_user tenant provider u t"
  using map_of_mapped [OF assms [unfolded active_mappings_def]]
  by (simp add: current_user_def user_maps_def conj_ac)

lemma active_mappings_Inr:
  "(\<exists>active. active_mappings tenant provider t = Inr active) \<longleftrightarrow>
     (\<forall>m \<in> set (gv_identity_maps t). im_tenant m = tenant \<and> im_provider m = provider \<and> im_valid_to m = None \<longrightarrow>
        im_internal_user m \<noteq> None)"
  by (auto simp: active_mappings_def mapped_pairs_Inr)

lemma mapping_at_user: "Option.bind (mapping_at tenant provider user x t) im_internal_user = user_at tenant provider user x t"
  by (simp add: mapping_at_def user_at_def user_maps_def latest_user_def conj_ac split: list.splits)

text \<open>The check of a payload reads the mapping the report reads for an execution that starts now, provided no
  mapping lies in the future.\<close>

lemma email_mappings_at:
  assumes "email_mappings now tenant provider emails t = Inr ps" and "email \<in> set emails"
    and "\<forall>m \<in> set (user_maps tenant provider email t). im_valid_from m \<le> now"
  shows "map_of ps email = user_at tenant provider email now t"
proof -
  have "map_of ps email = latest_user (filter (still_valid now) (user_maps tenant provider email t))"
    using map_of_mapped [OF assms(1) [unfolded email_mappings_def]] assms(2)
    by (simp add: user_maps_def conj_ac cong: filter_cong)
      (metis (mono_tags, lifting) filter_cong)
  also have "filter (still_valid now) (user_maps tenant provider email t) =
      filter (\<lambda>m. im_valid_from m \<le> now \<and> still_valid now m) (user_maps tenant provider email t)"
    using assms(3) by (auto intro: filter_cong)
  finally show ?thesis by (simp add: user_at_def)
qed


section \<open>Import of the directory\<close>

abbreviation shut :: "int \<Rightarrow> identity_map_row \<Rightarrow> identity_map_row" where
  "shut now m \<equiv> (if im_valid_to m = None then m\<lparr>im_valid_to := Some now\<rparr> else m)"

text \<open>The row an entry opens.\<close>

definition opened :: "int \<Rightarrow> string \<Rightarrow> string \<Rightarrow> string \<Rightarrow> directory_entry \<Rightarrow> identity_map_row" where
  "opened now i tenant provider e =
     \<lparr>im_id = i, im_tenant = tenant, im_provider = provider, im_provider_user = de_provider_user e,
      im_internal_user = Some (de_internal_user e), im_source = ''key_directory'', im_valid_from = now,
      im_valid_to = None\<rparr>"

lemma opened_fields [simp]:
  "im_id (opened now i tenant provider e) = i" "im_tenant (opened now i tenant provider e) = tenant"
  "im_provider (opened now i tenant provider e) = provider"
  "im_provider_user (opened now i tenant provider e) = de_provider_user e"
  "im_internal_user (opened now i tenant provider e) = Some (de_internal_user e)"
  "im_valid_from (opened now i tenant provider e) = now" "im_valid_to (opened now i tenant provider e) = None"
  by (simp_all add: opened_def)

text \<open>What an entry does to the rows of its address: nothing when they already point at its user, else they
  are closed and a new one follows.\<close>

definition entry_done :: "int \<Rightarrow> string \<Rightarrow> string \<Rightarrow> directory_entry \<Rightarrow> identity_map_row list \<Rightarrow> identity_map_row list \<Rightarrow> bool" where
  "entry_done now tenant provider e rows rows' \<longleftrightarrow>
     (if latest_user (filter (\<lambda>m. im_valid_to m = None) rows) = Some (de_internal_user e) then rows' = rows
      else \<exists>i. rows' = map (shut now) rows @ [opened now i tenant provider e])"

lemma sort_key_map: "(\<And>x. f (g x) = f x) \<Longrightarrow> sort_key f (map g xs) = map g (sort_key f xs)"
proof (induction xs)
  case (Cons x xs)
  have "insort_key f (g x) (map g ys) = map g (insort_key f x ys)" for ys
    using Cons.prems by (induction ys) simp_all
  with Cons show ?case by simp
qed simp

lemma latest_user_map:
  assumes "\<And>m. im_valid_from (g m) = im_valid_from m" and "\<And>m. im_internal_user (g m) = im_internal_user m"
  shows "latest_user (map g ms) = latest_user ms"
  unfolding latest_user_def latest_first_def
  using assms by (simp add: sort_key_map split: list.splits)

lemma entry_done_current:
  assumes "entry_done now tenant provider e rows rows'"
  shows "latest_user (filter (\<lambda>m. im_valid_to m = None) rows') = Some (de_internal_user e)"
proof -
  have "filter (\<lambda>m. im_valid_to m = None) (map (shut now) rows) = []" by (induction rows) auto
  with assms show ?thesis
    by (auto simp: entry_done_def latest_user_def latest_first_def split: if_splits)
qed

lemma entry_done_past:
  assumes "entry_done now tenant provider e rows rows'" and "x < now"
  shows "latest_user (filter (\<lambda>m. im_valid_from m \<le> x \<and> still_valid x m) rows') =
     latest_user (filter (\<lambda>m. im_valid_from m \<le> x \<and> still_valid x m) rows)"
proof -
  have "filter (\<lambda>m. im_valid_from m \<le> x \<and> still_valid x m) (map (shut now) rows) =
      map (shut now) (filter (\<lambda>m. im_valid_from m \<le> x \<and> still_valid x m) rows)"
    using assms(2) by (induction rows) (auto simp: still_valid_def)
  moreover have "latest_user (map (shut now) ms) = latest_user ms" for ms
    by (rule latest_user_map) simp_all
  ultimately show ?thesis using assms by (auto simp: entry_done_def split: if_splits)
qed


text \<open>The tables an import starts from: the tenant exists, no open row lacks a user, no identifier to come is
  taken, and every row of the addresses at hand is older than the transaction.\<close>

definition import_ready :: "(nat \<Rightarrow> string) \<Rightarrow> int \<Rightarrow> string \<Rightarrow> string \<Rightarrow> string set \<Rightarrow> gov_db conn \<Rightarrow> bool" where
  "import_ready fresh now tenant provider users c \<longleftrightarrow>
     List.member (gv_tenants (tables c)) tenant \<and>
     (\<forall>u \<in> users. \<forall>m \<in> set (user_maps tenant provider u (tables c)).
        im_valid_from m < now \<and> (im_valid_to m = None \<longrightarrow> im_internal_user m \<noteq> None)) \<and>
     (\<forall>m \<in> set (gv_identity_maps (tables c)). \<forall>k \<ge> sent c. im_id m \<noteq> ''idmap-'' @ fresh k)"

text \<open>Rows of other addresses stay.\<close>

definition others_stay :: "string \<Rightarrow> string \<Rightarrow> string set \<Rightarrow> gov_db \<Rightarrow> gov_db \<Rightarrow> bool" where
  "others_stay tenant provider users t u \<longleftrightarrow>
     (\<forall>tn pv v. \<not> (tn = tenant \<and> pv = provider \<and> v \<in> users) \<longrightarrow> user_maps tn pv v u = user_maps tn pv v t)"

definition entries_of :: "identity_sync_report \<Rightarrow> nat" where
  "entries_of rep = sr_inserted rep + sr_repointed rep + sr_unchanged rep"

lemma close_map_fields [simp]:
  "im_id (close_map now tenant provider user m) = im_id m"
  "im_tenant (close_map now tenant provider user m) = im_tenant m"
  "im_provider (close_map now tenant provider user m) = im_provider m"
  "im_provider_user (close_map now tenant provider user m) = im_provider_user m"
  "im_valid_from (close_map now tenant provider user m) = im_valid_from m"
  by (simp_all add: close_map_def)

lemma user_maps_close:
  "user_maps tn pv v (t\<lparr>gv_identity_maps := map (close_map now tenant provider user) (gv_identity_maps t)\<rparr>) =
     (if tn = tenant \<and> pv = provider \<and> v = user then map (shut now) (user_maps tn pv v t) else user_maps tn pv v t)"
proof (cases "tn = tenant \<and> pv = provider \<and> v = user")
  case True
  have "map (close_map now tenant provider user) (user_maps tn pv v t) = map (shut now) (user_maps tn pv v t)"
    using True by (intro map_cong) (auto simp: user_maps_def close_map_def)
  with True show ?thesis by (simp add: user_maps_def filter_map o_def)
next
  case False
  have "map (close_map now tenant provider user) (user_maps tn pv v t) = user_maps tn pv v t"
    using False by (intro map_idI) (auto simp: user_maps_def close_map_def)
  with False show ?thesis by (auto simp: user_maps_def filter_map o_def)
qed

lemma insert_map_works:
  assumes "healthy env" and "import_ready fresh now tenant provider {de_provider_user e} c" and "inj fresh"
  obtains c' i where "exec_tx env (insert_identity_map now (fresh (sent c)) tenant provider e) c = (Inr (), c')"
    and "\<forall>tn pv v. user_maps tn pv v (tables c') = user_maps tn pv v (tables c) @
      (if tn = tenant \<and> pv = provider \<and> v = de_provider_user e then [opened now i tenant provider e] else [])"
    and "import_ready fresh now tenant provider {} c'"
proof
  let ?i = "''idmap-'' @ fresh (sent c)"
  let ?c' = "c\<lparr>sent := Suc (sent c), tables := (tables c)\<lparr>gv_identity_maps := gv_identity_maps (tables c) @
    [opened now ?i tenant provider e]\<rparr>\<rparr>"
  have tn: "List.member (gv_tenants (tables c)) tenant" using assms(2) by (simp add: import_ready_def)
  have id: "im_id m \<noteq> ''idmap-'' @ fresh k" if "m \<in> set (gv_identity_maps (tables c))" "sent c \<le> k" for m k
    using assms(2) that unfolding import_ready_def by blast
  have key: "im_key m \<noteq> im_key (opened now ?i tenant provider e)" if "m \<in> set (gv_identity_maps (tables c))" for m
  proof
    assume "im_key m = im_key (opened now ?i tenant provider e)"
    then have "m \<in> set (user_maps tenant provider (de_provider_user e) (tables c))" "im_valid_from m = now"
      using that by (simp_all add: im_key_def user_maps_def)
    with assms(2) show False by (auto simp: import_ready_def)
  qed
  have "\<not> list_ex (\<lambda>x. im_id x = ?i \<or> im_key x = im_key (opened now ?i tenant provider e)) (gv_identity_maps (tables c))"
    unfolding list_ex_iff using id key by blast
  then show "exec_tx env (insert_identity_map now (fresh (sent c)) tenant provider e) c = (Inr (), ?c')"
    using tn by (simp add: exec_healthy [OF assms(1)] insert_identity_map_def Let_def opened_def)
  show "\<forall>tn pv v. user_maps tn pv v (tables ?c') = user_maps tn pv v (tables c) @
      (if tn = tenant \<and> pv = provider \<and> v = de_provider_user e then [opened now ?i tenant provider e] else [])"
    by (auto simp: user_maps_def)
  have "fresh (sent c) \<noteq> fresh k" if "Suc (sent c) \<le> k" for k
    using that inj_eq [OF assms(3)] by auto
  with tn id show "import_ready fresh now tenant provider {} ?c'" by (auto simp: import_ready_def)
qed

lemma sync_entry_works:
  assumes "healthy env" and "inj fresh" and "import_ready fresh now tenant provider {de_provider_user e} c"
    and "map_of active (de_provider_user e) = current_user tenant provider (de_provider_user e) (tables c)"
  shows "\<exists>rep' c'. sync_entry env fresh now tenant provider active e rep c = (Inr rep', c') \<and>
     entry_done now tenant provider e (user_maps tenant provider (de_provider_user e) (tables c))
       (user_maps tenant provider (de_provider_user e) (tables c')) \<and>
     others_stay tenant provider {de_provider_user e} (tables c) (tables c') \<and>
     import_ready fresh now tenant provider {} c' \<and> entries_of rep' = Suc (entries_of rep)"
proof (cases "map_of active (de_provider_user e)")
  case None
  let ?rows = "user_maps tenant provider (de_provider_user e) (tables c)"
  from None assms(4) have n: "latest_user (filter (\<lambda>m. im_valid_to m = None) ?rows) = None" by (simp add: current_user_def)
  have "filter (\<lambda>m. im_valid_to m = None) ?rows = []"
  proof (rule ccontr)
    assume "filter (\<lambda>m. im_valid_to m = None) ?rows \<noteq> []"
    then obtain m ms where m: "latest_first (filter (\<lambda>m. im_valid_to m = None) ?rows) = m # ms"
      by (metis list.exhaust set_empty set_latest_first)
    then have "m \<in> set (filter (\<lambda>m. im_valid_to m = None) ?rows)" by (metis list.set_intros(1) set_latest_first)
    with assms(3) have "im_internal_user m \<noteq> None" by (auto simp: import_ready_def)
    with n m show False by (simp add: latest_user_def)
  qed
  then have r: "map (shut now) ?rows = ?rows" by (auto simp: filter_empty_conv intro: map_idI)
  obtain c' i where
    1: "exec_tx env (insert_identity_map now (fresh (sent c)) tenant provider e) c = (Inr (), c')"
    and u: "\<forall>tn pv v. user_maps tn pv v (tables c') = user_maps tn pv v (tables c) @
      (if tn = tenant \<and> pv = provider \<and> v = de_provider_user e then [opened now i tenant provider e] else [])"
    and "import_ready fresh now tenant provider {} c'" by (rule insert_map_works [OF assms(1,3,2)])
  moreover have "entry_done now tenant provider e ?rows (user_maps tenant provider (de_provider_user e) (tables c'))"
    using n r by (auto simp: entry_done_def u)
  moreover have "others_stay tenant provider {de_provider_user e} (tables c) (tables c')" by (auto simp: others_stay_def u)
  ultimately show ?thesis using None by (simp add: sync_entry_def db_return_def entries_of_def)
next
  case (Some current)
  show ?thesis
  proof (cases "current = de_internal_user e")
    case True
    with Some assms(3,4) show ?thesis
      by (auto simp: sync_entry_def db_return_def entry_done_def current_user_def others_stay_def import_ready_def entries_of_def)
  next
    case False
    let ?t1 = "tables c\<lparr>gv_identity_maps := map (close_map now tenant provider (de_provider_user e)) (gv_identity_maps (tables c))\<rparr>"
    let ?c1 = "c\<lparr>sent := Suc (sent c), tables := ?t1\<rparr>"
    have 1: "exec_tx env (close_active_identity_map now tenant provider (de_provider_user e)) c = (Inr (), ?c1)"
      by (simp add: exec_healthy [OF assms(1)] close_active_identity_map_def)
    have r: "import_ready fresh now tenant provider {de_provider_user e} ?c1"
      using assms(3) by (auto simp: import_ready_def user_maps_close)
    obtain c2 i where
      2: "exec_tx env (insert_identity_map now (fresh (sent ?c1)) tenant provider e) ?c1 = (Inr (), c2)"
      and u: "\<forall>tn pv v. user_maps tn pv v (tables c2) = user_maps tn pv v (tables ?c1) @
        (if tn = tenant \<and> pv = provider \<and> v = de_provider_user e then [opened now i tenant provider e] else [])"
      and i: "import_ready fresh now tenant provider {} c2" by (rule insert_map_works [OF assms(1) r assms(2)])
    have "entry_done now tenant provider e (user_maps tenant provider (de_provider_user e) (tables c))
       (user_maps tenant provider (de_provider_user e) (tables c2))"
      using Some False assms(4) by (auto simp: entry_done_def u user_maps_close current_user_def)
    moreover have "others_stay tenant provider {de_provider_user e} (tables c) (tables c2)"
      by (auto simp: others_stay_def u user_maps_close)
    ultimately show ?thesis
      using Some False 1 2 i by (simp add: sync_entry_def db_return_def entries_of_def)
  qed
qed

lemma import_ready_users:
  assumes "import_ready fresh now tenant provider us c" and "import_ready fresh now tenant provider {} c'"
    and "\<And>u. u \<in> vs \<Longrightarrow> u \<in> us \<and> user_maps tenant provider u (tables c') = user_maps tenant provider u (tables c)"
  shows "import_ready fresh now tenant provider vs c'"
  using assms by (auto simp: import_ready_def)

lemma sync_entries_work:
  assumes "healthy env" and "inj fresh"
    and "import_ready fresh now tenant provider (de_provider_user ` set es) c" and "distinct (map de_provider_user es)"
    and "\<forall>e \<in> set es. map_of active (de_provider_user e) = current_user tenant provider (de_provider_user e) (tables c)"
  shows "\<exists>rep' c'. sync_entries env fresh now tenant provider active es rep c = (Inr rep', c') \<and>
     (\<forall>e \<in> set es. entry_done now tenant provider e (user_maps tenant provider (de_provider_user e) (tables c))
       (user_maps tenant provider (de_provider_user e) (tables c'))) \<and>
     others_stay tenant provider (de_provider_user ` set es) (tables c) (tables c') \<and>
     import_ready fresh now tenant provider {} c' \<and> entries_of rep' = entries_of rep + length es"
  using assms(3-)
proof (induction es arbitrary: c rep)
  case Nil
  then show ?case by (simp add: db_return_def others_stay_def)
next
  case (Cons e es)
  have "import_ready fresh now tenant provider {de_provider_user e} c"
    using Cons.prems(1) by (simp add: import_ready_def)
  from sync_entry_works [OF assms(1,2) this] Cons.prems(3) obtain rep1 c1 where
    1: "sync_entry env fresh now tenant provider active e rep c = (Inr rep1, c1)"
    and d1: "entry_done now tenant provider e (user_maps tenant provider (de_provider_user e) (tables c))
       (user_maps tenant provider (de_provider_user e) (tables c1))"
    and o1: "others_stay tenant provider {de_provider_user e} (tables c) (tables c1)"
    and r1: "import_ready fresh now tenant provider {} c1" and n1: "entries_of rep1 = Suc (entries_of rep)"
    by (metis list.set_intros(1))
  have same: "user_maps tenant provider u (tables c1) = user_maps tenant provider u (tables c)"
    if "u \<in> de_provider_user ` set es" for u
  proof -
    from that Cons.prems(2) have "u \<noteq> de_provider_user e" by (metis distinct.simps(2) list.simps(9) set_map)
    with o1 show ?thesis by (simp add: others_stay_def)
  qed
  have "import_ready fresh now tenant provider (de_provider_user ` set es) c1"
    by (rule import_ready_users [OF Cons.prems(1) r1]) (use same in auto)
  moreover have "\<forall>x \<in> set es. map_of active (de_provider_user x) = current_user tenant provider (de_provider_user x) (tables c1)"
    using Cons.prems(3) same by (auto simp: current_user_def)
  ultimately obtain rep2 c2 where 2: "sync_entries env fresh now tenant provider active es rep1 c1 = (Inr rep2, c2)"
    and d2: "\<forall>x \<in> set es. entry_done now tenant provider x (user_maps tenant provider (de_provider_user x) (tables c1))
       (user_maps tenant provider (de_provider_user x) (tables c2))"
    and o2: "others_stay tenant provider (de_provider_user ` set es) (tables c1) (tables c2)"
    and r2: "import_ready fresh now tenant provider {} c2" and n2: "entries_of rep2 = entries_of rep1 + length es"
    using Cons.IH [of c1 rep1] Cons.prems(2) by auto
  have "user_maps tenant provider (de_provider_user e) (tables c2) = user_maps tenant provider (de_provider_user e) (tables c1)"
    using o2 Cons.prems(2) by (auto simp: others_stay_def)
  with d1 d2 same have "\<forall>x \<in> set (e # es). entry_done now tenant provider x (user_maps tenant provider (de_provider_user x) (tables c))
       (user_maps tenant provider (de_provider_user x) (tables c2))" by auto
  moreover have "others_stay tenant provider (de_provider_user ` set (e # es)) (tables c) (tables c2)"
    using o1 o2 by (auto simp: others_stay_def)
  ultimately show ?case using 1 2 r2 n1 n2 by simp
qed


lemma sync_works:
  assumes "healthy env" and "inj fresh"
    and "import_ready fresh (env_now env (sent c)) tenant provider (de_provider_user ` set es) c"
    and "distinct (map de_provider_user es)" and "\<exists>active. active_mappings tenant provider (tables c) = Inr active"
  obtains rep c' where "sync_identity_directory env fresh tenant provider es c = (Inr rep, c')"
    and "\<forall>e \<in> set es. entry_done (env_now env (sent c)) tenant provider e
       (user_maps tenant provider (de_provider_user e) (tables c)) (user_maps tenant provider (de_provider_user e) (tables c'))"
    and "others_stay tenant provider (de_provider_user ` set es) (tables c) (tables c')"
    and "entries_of rep = length es"
proof -
  let ?now = "env_now env (sent c)" and ?c1 = "c\<lparr>sent := Suc (Suc (sent c))\<rparr>"
  let ?rep = "\<lparr>sr_inserted = 0, sr_repointed = 0, sr_unchanged = 0\<rparr>"
  obtain active where a: "active_mappings tenant provider (tables c) = Inr active" using assms(5) by blast
  have r: "import_ready fresh ?now tenant provider (de_provider_user ` set es) ?c1" using assms(3) by (auto simp: import_ready_def)
  have m: "\<forall>e \<in> set es. map_of active (de_provider_user e) = current_user tenant provider (de_provider_user e) (tables ?c1)"
    using active_mappings_current [OF a] by simp
  from sync_entries_work [OF assms(1,2) r assms(4) m, of ?rep] obtain rep c2 where
    2: "sync_entries env fresh ?now tenant provider active es ?rep ?c1 = (Inr rep, c2)"
    and e: "\<forall>e \<in> set es. entry_done ?now tenant provider e (user_maps tenant provider (de_provider_user e) (tables c))
       (user_maps tenant provider (de_provider_user e) (tables c2))"
      "others_stay tenant provider (de_provider_user ` set es) (tables c) (tables c2)"
      "entries_of rep = length es"
    by (auto simp: entries_of_def)
  have "exec_tx env (query (active_mappings tenant provider)) (c\<lparr>sent := Suc (sent c)\<rparr>) = (Inr active, ?c1)"
    by (simp add: exec_healthy [OF assms(1)] query_def a)
  with 2 have "sync_identity_directory env fresh tenant provider es c = (Inr rep, c2\<lparr>sent := Suc (sent c2)\<rparr>)"
    by (simp add: sync_identity_directory_def transaction_def Let_def assms(1))
  from that [OF this] e show ?thesis by simp
qed

lemma sync_entries_unchanged:
  assumes "\<forall>e \<in> set es. map_of active (de_provider_user e) = Some (de_internal_user e)"
  shows "sync_entries env fresh now tenant provider active es rep c =
     (Inr (rep\<lparr>sr_unchanged := sr_unchanged rep + length es\<rparr>), c)"
  using assms by (induction es arbitrary: rep) (simp_all add: sync_entry_def db_return_def)

text \<open>When every entry points at its user, an import changes nothing.\<close>

lemma sync_unchanged:
  assumes "healthy env" and "\<forall>e \<in> set es. current_user tenant provider (de_provider_user e) (tables c) = Some (de_internal_user e)"
    and "\<exists>active. active_mappings tenant provider (tables c) = Inr active"
  shows "\<exists>c'. sync_identity_directory env fresh tenant provider es c =
     (Inr \<lparr>sr_inserted = 0, sr_repointed = 0, sr_unchanged = length es\<rparr>, c') \<and> tables c' = tables c"
proof -
  obtain active where a: "active_mappings tenant provider (tables c) = Inr active" using assms(3) by blast
  have "\<forall>e \<in> set es. map_of active (de_provider_user e) = Some (de_internal_user e)"
    using assms(2) active_mappings_current [OF a] by simp
  then show ?thesis
    by (simp add: sync_identity_directory_def transaction_def Let_def assms(1) exec_healthy [OF assms(1)] query_def a
        sync_entries_unchanged)
qed

lemma open_rows_after:
  assumes "\<exists>active. active_mappings tenant provider t = Inr active"
    and "\<forall>e \<in> set es. entry_done now tenant provider e (user_maps tenant provider (de_provider_user e) t)
       (user_maps tenant provider (de_provider_user e) u)"
    and "others_stay tenant provider (de_provider_user ` set es) t u"
  shows "\<exists>active. active_mappings tenant provider u = Inr active"
  unfolding active_mappings_Inr
proof (intro ballI impI)
  fix m assume m: "m \<in> set (gv_identity_maps u)" "im_tenant m = tenant \<and> im_provider m = provider \<and> im_valid_to m = None"
  let ?v = "im_provider_user m"
  have old: "x \<in> set (user_maps tenant provider ?v t) \<Longrightarrow> im_valid_to x = None \<Longrightarrow> im_internal_user x \<noteq> None" for x
    using assms(1) by (auto simp: active_mappings_Inr user_maps_def)
  have mu: "m \<in> set (user_maps tenant provider ?v u)" using m by (simp add: user_maps_def)
  show "im_internal_user m \<noteq> None"
  proof (cases "?v \<in> de_provider_user ` set es")
    case False
    with assms(3) mu have "m \<in> set (user_maps tenant provider ?v t)" by (simp add: others_stay_def)
    with old m(2) show ?thesis by blast
  next
    case True
    then obtain e where "e \<in> set es" "de_provider_user e = ?v" by auto
    with assms(2) have "entry_done now tenant provider e (user_maps tenant provider ?v t) (user_maps tenant provider ?v u)" by metis
    then have "m \<in> set (user_maps tenant provider ?v t) \<or> (\<exists>i. m = opened now i tenant provider e)"
      using mu m(2) by (auto simp: entry_done_def split: if_splits)
    then show ?thesis
    proof
      assume "\<exists>i. m = opened now i tenant provider e"
      then obtain i where "m = opened now i tenant provider e" ..
      then show ?thesis by (simp only: opened_fields) simp
    qed (use old m(2) in blast)
  qed
qed

section \<open>Duplicate addresses\<close>

lemma insert_map_Inr:
  assumes "exec_tx env (insert_identity_map now i tenant provider e) c = (Inr (), c')"
  shows "(tenant, provider, de_provider_user e, now) \<notin> im_key ` set (gv_identity_maps (tables c))"
    "im_key ` set (gv_identity_maps (tables c')) =
       insert (tenant, provider, de_provider_user e, now) (im_key ` set (gv_identity_maps (tables c)))"
  using assms
  by (auto simp: exec_tx_Inr insert_identity_map_def Let_def im_key_def list_ex_iff split: if_splits)

lemma sync_entry_keys:
  assumes "sync_entry env fresh now tenant provider active e rep c = (Inr rep', c')"
  shows "if map_of active (de_provider_user e) = Some (de_internal_user e) then tables c' = tables c
    else (tenant, provider, de_provider_user e, now) \<notin> im_key ` set (gv_identity_maps (tables c)) \<and>
      im_key ` set (gv_identity_maps (tables c')) =
        insert (tenant, provider, de_provider_user e, now) (im_key ` set (gv_identity_maps (tables c)))"
proof (cases "map_of active (de_provider_user e)")
  case None
  with assms have "exec_tx env (insert_identity_map now (fresh (sent c)) tenant provider e) c = (Inr (), c')"
    by (auto simp: sync_entry_def db_bind_Inr db_return_def)
  with None insert_map_Inr show ?thesis by (metis option.distinct(1))
next
  case (Some current)
  show ?thesis
  proof (cases "current = de_internal_user e")
    case True
    with Some assms show ?thesis by (simp add: sync_entry_def db_return_def)
  next
    case False
    with Some assms obtain c1 where 1: "exec_tx env (close_active_identity_map now tenant provider (de_provider_user e)) c = (Inr (), c1)"
      and 2: "exec_tx env (insert_identity_map now (fresh (sent c1)) tenant provider e) c1 = (Inr (), c')"
      by (auto simp: sync_entry_def db_bind_Inr db_return_def)
    from 1 have "im_key ` set (gv_identity_maps (tables c1)) = im_key ` set (gv_identity_maps (tables c))"
      by (auto simp: exec_tx_Inr close_active_identity_map_def im_key_def image_image)
    with insert_map_Inr [OF 2] Some False show ?thesis by simp
  qed
qed

lemma sync_entries_keys:
  assumes "sync_entries env fresh now tenant provider active es rep c = (Inr rep', c')"
  shows "distinct (map de_provider_user (filter (\<lambda>e. map_of active (de_provider_user e) \<noteq> Some (de_internal_user e)) es)) \<and>
    (\<forall>e \<in> set es. map_of active (de_provider_user e) \<noteq> Some (de_internal_user e) \<longrightarrow>
      (tenant, provider, de_provider_user e, now) \<notin> im_key ` set (gv_identity_maps (tables c)))"
  using assms
proof (induction es arbitrary: rep c)
  case (Cons e es)
  then obtain rep1 c1 where 1: "sync_entry env fresh now tenant provider active e rep c = (Inr rep1, c1)"
    and 2: "sync_entries env fresh now tenant provider active es rep1 c1 = (Inr rep', c')" by (auto simp: db_bind_Inr)
  from sync_entry_keys [OF 1] Cons.IH [OF 2] show ?case by (force split: if_splits)
qed simp

lemma sync_duplicates:
  assumes "sync_identity_directory env fresh tenant provider es c = (Inr rep, c')"
  obtains active where "active_mappings tenant provider (tables c) = Inr active"
    and "distinct (map de_provider_user (filter (\<lambda>e. map_of active (de_provider_user e) \<noteq> Some (de_internal_user e)) es))"
proof -
  from assms obtain active c1 c2 where
    "exec_tx env (query (active_mappings tenant provider)) (c\<lparr>sent := Suc (sent c)\<rparr>) = (Inr active, c1)"
    "sync_entries env fresh (env_now env (sent c)) tenant provider active es
       \<lparr>sr_inserted = 0, sr_repointed = 0, sr_unchanged = 0\<rparr> c1 = (Inr rep, c2)"
    unfolding sync_identity_directory_def by (elim transaction_Inr) (auto simp: db_bind_Inr)
  then show ?thesis using sync_entries_keys that
    by (auto simp: exec_tx_Inr query_def split: sum.splits)
qed

end
