(* ===== verification/Gov_Normalize.thy ===== *)
theory Gov_Normalize
  imports Gov_Ingest
begin

text \<open>
  The push connector (\<open>crates/governance-foundry/src/normalizer\<close>): the readers of OTLP in JSON, the
  three normalizers and their table. The three differ in the attributes that carry the token counts; what
  they share is written once. Times are nanoseconds; a rejected value is kept as the document the error
  prints.
\<close>

section \<open>Errors\<close>

datatype normalizer_error =
    MissingField string
  | InvalidFieldType string string json
  | InvalidDuration int int
  | UnsupportedProvider string

section \<open>Readers\<close>

definition array_field :: "string \<Rightarrow> json \<Rightarrow> string \<Rightarrow> normalizer_error + json list" where
  "array_field name obj ctx =
     (case json_get name obj of
        None \<Rightarrow> Inr []
      | Some JNull \<Rightarrow> Inr []
      | Some (JArray xs) \<Rightarrow> Inr xs
      | Some v \<Rightarrow> Inl (InvalidFieldType (ctx @ ''.'' @ name) ''array'' v))"

definition otlp_attributes_of :: "json \<Rightarrow> string \<Rightarrow> normalizer_error + json list" where
  "otlp_attributes_of = array_field ''attributes''"

definition otlp_events :: "json \<Rightarrow> string \<Rightarrow> normalizer_error + json list" where
  "otlp_events = array_field ''events''"

fun attribute_value :: "json list \<Rightarrow> string \<Rightarrow> string \<Rightarrow> normalizer_error + json option" where
  "attribute_value [] key ctx = Inr None"
| "attribute_value (attr # attrs) key ctx =
     (case json_get ''key'' attr of
        None \<Rightarrow> attribute_value attrs key ctx
      | Some (JString k) \<Rightarrow> (if k = key then Inr (Some attr) else attribute_value attrs key ctx)
      | Some v \<Rightarrow> Inl (InvalidFieldType (ctx @ ''.attributes[].key'') ''string'' v))"

definition attr_field :: "string \<Rightarrow> string \<Rightarrow> string" where
  "attr_field key ctx = ctx @ ''.attributes['' @ key @ '']''"

definition value_of :: "json \<Rightarrow> string \<Rightarrow> string \<Rightarrow> normalizer_error + json" where
  "value_of attr key ctx =
     (case json_get ''value'' attr of
        None \<Rightarrow> Inl (MissingField (attr_field key ctx @ ''.value''))
      | Some (JObject es) \<Rightarrow> Inr (JObject es)
      | Some v \<Rightarrow> Inl (InvalidFieldType (attr_field key ctx @ ''.value'') ''object'' v))"

definition attr_string :: "json \<Rightarrow> string \<Rightarrow> string \<Rightarrow> normalizer_error + string option" where
  "attr_string obj key ctx =
     res_bind (otlp_attributes_of obj ctx) (\<lambda>attrs.
     res_bind (attribute_value attrs key ctx) (\<lambda>found.
       case found of
         None \<Rightarrow> Inr None
       | Some attr \<Rightarrow>
           res_bind (value_of attr key ctx) (\<lambda>v.
             case json_get ''stringValue'' v of
               None \<Rightarrow> Inr None
             | Some JNull \<Rightarrow> Inr None
             | Some (JString s) \<Rightarrow> Inr (Some s)
             | Some x \<Rightarrow> Inl (InvalidFieldType (attr_field key ctx @ ''.stringValue'') ''string'' x))))"

definition attr_i64 :: "json \<Rightarrow> string \<Rightarrow> string \<Rightarrow> normalizer_error + int option" where
  "attr_i64 obj key ctx =
     res_bind (otlp_attributes_of obj ctx) (\<lambda>attrs.
     res_bind (attribute_value attrs key ctx) (\<lambda>found.
       case found of
         None \<Rightarrow> Inr None
       | Some attr \<Rightarrow>
           res_bind (value_of attr key ctx) (\<lambda>v.
             case json_get ''intValue'' v of
               None \<Rightarrow> Inr None
             | Some JNull \<Rightarrow> Inr None
             | Some (JString s) \<Rightarrow>
                 (case parse_i64 s of
                    None \<Rightarrow> Inl (InvalidFieldType (attr_field key ctx @ ''.intValue'') ''int64 string'' (JString s))
                  | Some i \<Rightarrow> Inr (Some i))
             | Some (JNumber n) \<Rightarrow>
                 (case as_i64 (JNumber n) of
                    None \<Rightarrow> Inl (InvalidFieldType (attr_field key ctx @ ''.intValue'') ''int64'' (JNumber n))
                  | Some i \<Rightarrow> Inr (Some i))
             | Some x \<Rightarrow> Inl (InvalidFieldType (attr_field key ctx @ ''.intValue'') ''int64'' x))))"

definition span_i64 :: "json \<Rightarrow> string \<Rightarrow> normalizer_error + int" where
  "span_i64 sp key =
     (case json_get key sp of
        None \<Rightarrow> Inl (MissingField key)
      | Some (JString s) \<Rightarrow>
          (case parse_i64 s of
             None \<Rightarrow> Inl (InvalidFieldType key ''int64 string'' (JString s))
           | Some i \<Rightarrow> Inr i)
      | Some (JNumber n) \<Rightarrow>
          (case as_i64 (JNumber n) of
             None \<Rightarrow> Inl (InvalidFieldType key ''int64'' (JNumber n))
           | Some i \<Rightarrow> Inr i)
      | Some v \<Rightarrow> Inl (InvalidFieldType key ''int64'' v))"

definition duration_ms :: "int \<Rightarrow> int \<Rightarrow> normalizer_error + int" where
  "duration_ms start_nanos end_nanos =
     (case checked_i64 (end_nanos - start_nanos) of
        None \<Rightarrow> Inl (InvalidDuration start_nanos end_nanos)
      | Some nanos \<Rightarrow>
          (if nanos \<ge> 0 then Inr (quot nanos 1000000) else Inl (InvalidDuration start_nanos end_nanos)))"

definition span_string :: "json \<Rightarrow> string \<Rightarrow> normalizer_error + string option" where
  "span_string sp key =
     (case json_get key sp of
        None \<Rightarrow> Inr None
      | Some JNull \<Rightarrow> Inr None
      | Some (JString s) \<Rightarrow> Inr (Some s)
      | Some v \<Rightarrow> Inl (InvalidFieldType key ''string'' v))"

section \<open>Spans\<close>

definition required :: "string \<Rightarrow> normalizer_error + 'a option \<Rightarrow> normalizer_error + 'a" where
  "required name r = res_bind r (\<lambda>v. case v of None \<Rightarrow> Inl (MissingField name) | Some x \<Rightarrow> Inr x)"

fun tool_calls_of :: "string \<Rightarrow> string \<Rightarrow> nat \<Rightarrow> json list \<Rightarrow> normalizer_error + tool_call_input list" where
  "tool_calls_of trace_id span_id idx [] = Inr []"
| "tool_calls_of trace_id span_id idx (ev # evs) =
     res_bind (span_string ev ''name'') (\<lambda>name.
       if name = Some ''tool.call'' then
         res_bind (required ''tool.name'' (attr_string ev ''tool.name'' ''event'')) (\<lambda>tool.
         res_bind (required ''duration.ms'' (attr_i64 ev ''duration.ms'' ''event'')) (\<lambda>ms.
         res_bind (tool_calls_of trace_id span_id (idx + 1) evs) (\<lambda>rest.
           Inr (\<lparr>ti_trace = trace_id, ti_span = span_id @ '':tc:'' @ show_nat idx, ti_name = tool, ti_duration = ms\<rparr> # rest))))
       else tool_calls_of trace_id span_id (idx + 1) evs)"

text \<open>\<open>tokens\<close> reads the two token counts, the only part in which the providers differ.\<close>

definition normalize_span :: "(json \<Rightarrow> normalizer_error + int option \<times> int option) \<Rightarrow> json \<Rightarrow> string option \<Rightarrow>
    normalizer_error + execution_input" where
  "normalize_span tokens sp user_email =
     res_bind (required ''traceId'' (span_string sp ''traceId'')) (\<lambda>trace_id.
     res_bind (required ''spanId'' (span_string sp ''spanId'')) (\<lambda>span_id.
     res_bind (attr_string sp ''session.id'' ''span'') (\<lambda>_.
     res_bind (required ''model.name'' (attr_string sp ''model.name'' ''span'')) (\<lambda>model.
     res_bind (tokens sp) (\<lambda>(input_tokens, output_tokens).
     res_bind (span_i64 sp ''startTimeUnixNano'') (\<lambda>start_nanos.
     res_bind (span_i64 sp ''endTimeUnixNano'') (\<lambda>end_nanos.
     res_bind (duration_ms start_nanos end_nanos) (\<lambda>ms.
     res_bind (otlp_events sp ''span'') (\<lambda>evs.
     res_bind (tool_calls_of trace_id span_id 0 evs) (\<lambda>tool_calls.
       Inr \<lparr>ei_trace = trace_id, ei_span = span_id, ei_user_email = user_email, ei_started_at = start_nanos,
            ei_duration = ms,
            ei_model_calls = [\<lparr>mi_trace = trace_id, mi_span = span_id @ '':mc'', mi_model = model,
              mi_input_tokens = input_tokens, mi_output_tokens = output_tokens\<rparr>],
            ei_tool_calls = tool_calls\<rparr>))))))))))"

fun traverse :: "('a \<Rightarrow> 'e + 'b) \<Rightarrow> 'a list \<Rightarrow> 'e + 'b list" where
  "traverse f [] = Inr []"
| "traverse f (x # xs) = res_bind (f x) (\<lambda>y. res_bind (traverse f xs) (\<lambda>ys. Inr (y # ys)))"

definition required_array :: "string \<Rightarrow> json \<Rightarrow> normalizer_error + json list" where
  "required_array name obj =
     (case Option.bind (json_get name obj) as_array of None \<Rightarrow> Inl (MissingField name) | Some xs \<Rightarrow> Inr xs)"

definition normalize_scope :: "(json \<Rightarrow> string option \<Rightarrow> normalizer_error + execution_input) \<Rightarrow> string option \<Rightarrow> json \<Rightarrow>
    normalizer_error + execution_input list" where
  "normalize_scope span_fn user_email scope_span =
     res_bind (required_array ''spans'' scope_span) (traverse (\<lambda>sp. span_fn sp user_email))"

definition normalize_resource :: "(json \<Rightarrow> string option \<Rightarrow> normalizer_error + execution_input) \<Rightarrow> json \<Rightarrow>
    normalizer_error + execution_input list" where
  "normalize_resource span_fn resource_span =
     (case json_get ''resource'' resource_span of
        None \<Rightarrow> Inl (MissingField ''resource'')
      | Some resource \<Rightarrow>
          res_bind (attr_string resource ''user.email'' ''resource'') (\<lambda>user_email.
          res_bind (required_array ''scopeSpans'' resource_span) (\<lambda>scope_spans.
          res_bind (traverse (normalize_scope span_fn user_email) scope_spans) (\<lambda>ess. Inr (concat ess)))))"

definition normalize_payload :: "(json \<Rightarrow> string option \<Rightarrow> normalizer_error + execution_input) \<Rightarrow> json \<Rightarrow>
    normalizer_error + execution_input list" where
  "normalize_payload span_fn payload =
     res_bind (required_array ''resourceSpans'' payload) (\<lambda>resource_spans.
     res_bind (traverse (normalize_resource span_fn) resource_spans) (\<lambda>ess. Inr (concat ess)))"

section \<open>Providers\<close>

definition span_tokens :: "json \<Rightarrow> normalizer_error + int option \<times> int option" where
  "span_tokens sp =
     res_bind (attr_i64 sp ''tokens.input'' ''span'') (\<lambda>i.
     res_bind (attr_i64 sp ''tokens.output'' ''span'') (\<lambda>out. Inr (i, out)))"

definition first_i64 :: "json \<Rightarrow> string \<Rightarrow> string \<Rightarrow> normalizer_error + int option" where
  "first_i64 sp key other =
     res_bind (attr_i64 sp key ''span'') (\<lambda>v. case v of Some i \<Rightarrow> Inr (Some i) | None \<Rightarrow> attr_i64 sp other ''span'')"

definition codex_tokens :: "json \<Rightarrow> normalizer_error + int option \<times> int option" where
  "codex_tokens sp =
     res_bind (first_i64 sp ''input_token_count'' ''codex.turn.input_tokens'') (\<lambda>i.
     res_bind (first_i64 sp ''output_token_count'' ''codex.turn.output_tokens'') (\<lambda>out. Inr (i, out)))"

definition claude_code_normalize :: "json \<Rightarrow> normalizer_error + execution_input list" where
  "claude_code_normalize = normalize_payload (normalize_span span_tokens)"

definition codex_normalize :: "json \<Rightarrow> normalizer_error + execution_input list" where
  "codex_normalize = normalize_payload (normalize_span codex_tokens)"

definition foundry_normalize :: "json \<Rightarrow> normalizer_error + execution_input list" where
  "foundry_normalize = normalize_payload (normalize_span span_tokens)"

definition NORMALIZERS :: "(string \<times> (json \<Rightarrow> normalizer_error + execution_input list)) list" where
  "NORMALIZERS = [(''claude_code'', claude_code_normalize), (''codex'', codex_normalize), (''microsoft_foundry'', foundry_normalize)]"

definition dispatch_normalizer :: "string \<Rightarrow> normalizer_error + (json \<Rightarrow> normalizer_error + execution_input list)" where
  "dispatch_normalizer provider =
     (case map_of NORMALIZERS provider of None \<Rightarrow> Inl (UnsupportedProvider provider) | Some f \<Rightarrow> Inr f)"


section \<open>What a normalizer returns\<close>

lemma traverse_Inr: "traverse f xs = Inr ys \<longleftrightarrow> list_all2 (\<lambda>x y. f x = Inr y) xs ys"
  by (induction xs arbitrary: ys) (auto simp: res_bind_eq_Inr list_all2_Cons1)

text \<open>The spans of a payload in their order, each with the mail address of its resource.\<close>

definition array_at :: "string \<Rightarrow> json \<Rightarrow> json list" where
  "array_at name obj = (case Option.bind (json_get name obj) as_array of None \<Rightarrow> [] | Some xs \<Rightarrow> xs)"

definition spans_of :: "json \<Rightarrow> (json \<times> string option) list" where
  "spans_of payload =
     concat (map (\<lambda>rs. map (\<lambda>sp. (sp, case json_get ''resource'' rs of None \<Rightarrow> None
           | Some r \<Rightarrow> (case attr_string r ''user.email'' ''resource'' of Inr em \<Rightarrow> em | Inl _ \<Rightarrow> None)))
         (concat (map (array_at ''spans'') (array_at ''scopeSpans'' rs))))
       (array_at ''resourceSpans'' payload))"

lemma required_array_Inr: "required_array name obj = Inr xs \<Longrightarrow> array_at name obj = xs"
  by (auto simp: required_array_def array_at_def split: option.splits)

lemma list_all2_concat:
  "list_all2 (\<lambda>x ys. list_all2 P (f x) ys) xs yss \<Longrightarrow> list_all2 P (concat (map f xs)) (concat yss)"
  by (induction xs yss rule: list_all2_induct) (auto intro: list_all2_appendI)

lemma normalize_scope_Inr:
  "normalize_scope span_fn em sc = Inr es \<Longrightarrow> list_all2 (\<lambda>sp e. span_fn sp em = Inr e) (array_at ''spans'' sc) es"
  by (auto simp: normalize_scope_def res_bind_eq_Inr traverse_Inr dest: required_array_Inr)

lemma normalize_resource_Inr:
  assumes "normalize_resource span_fn rs = Inr es"
  shows "list_all2 (\<lambda>(sp, em) e. span_fn sp em = Inr e)
     (map (\<lambda>sp. (sp, case json_get ''resource'' rs of None \<Rightarrow> None
           | Some r \<Rightarrow> (case attr_string r ''user.email'' ''resource'' of Inr em \<Rightarrow> em | Inl _ \<Rightarrow> None)))
       (concat (map (array_at ''spans'') (array_at ''scopeSpans'' rs)))) es"
proof -
  from assms obtain r em scs ess where r: "json_get ''resource'' rs = Some r" "attr_string r ''user.email'' ''resource'' = Inr em"
    and sc: "required_array ''scopeSpans'' rs = Inr scs" and t: "traverse (normalize_scope span_fn em) scs = Inr ess"
    and es: "es = concat ess"
    by (auto simp: normalize_resource_def res_bind_eq_Inr split: option.splits)
  from t have "list_all2 (\<lambda>sc es. list_all2 (\<lambda>sp e. span_fn sp em = Inr e) (array_at ''spans'' sc) es) scs ess"
    unfolding traverse_Inr by (rule list_all2_mono) (rule normalize_scope_Inr)
  from list_all2_concat [OF this] show ?thesis
    by (simp add: r es required_array_Inr [OF sc] list_all2_map1)
qed

text \<open>Every span is normalized, in order, and none is left out.\<close>

lemma normalize_payload_Inr:
  assumes "normalize_payload span_fn payload = Inr es"
  shows "list_all2 (\<lambda>(sp, em) e. span_fn sp em = Inr e) (spans_of payload) es"
proof -
  from assms obtain rss ess where r: "required_array ''resourceSpans'' payload = Inr rss"
    and t: "traverse (normalize_resource span_fn) rss = Inr ess" and es: "es = concat ess"
    by (auto simp: normalize_payload_def res_bind_eq_Inr)
  from t have "list_all2 (\<lambda>rs es. list_all2 (\<lambda>(sp, em) e. span_fn sp em = Inr e)
     (map (\<lambda>sp. (sp, case json_get ''resource'' rs of None \<Rightarrow> None
           | Some r \<Rightarrow> (case attr_string r ''user.email'' ''resource'' of Inr em \<Rightarrow> em | Inl _ \<Rightarrow> None)))
       (concat (map (array_at ''spans'') (array_at ''scopeSpans'' rs)))) es) rss ess"
    unfolding traverse_Inr by (rule list_all2_mono) (rule normalize_resource_Inr)
  from list_all2_concat [OF this] show ?thesis by (simp add: spans_of_def es required_array_Inr [OF r])
qed

lemma tool_calls_of_Inr:
  assumes "tool_calls_of tr sp idx evs = Inr cs"
  shows "\<exists>ks. distinct ks \<and> (\<forall>i \<in> set ks. idx \<le> i) \<and>
     map (\<lambda>c. (ti_trace c, ti_span c)) cs = map (\<lambda>i. (tr, sp @ '':tc:'' @ show_nat i)) ks"
  using assms
proof (induction evs arbitrary: idx cs)
  case Nil
  then show ?case by (auto intro: exI [of _ "[]"])
next
  case (Cons ev evs)
  then obtain name where n: "span_string ev ''name'' = Inr name" by (auto simp: res_bind_eq_Inr)
  show ?case
  proof (cases "name = Some ''tool.call''")
    case True
    with Cons.prems n obtain tool ms rest where r: "tool_calls_of tr sp (idx + 1) evs = Inr rest"
      and cs: "cs = \<lparr>ti_trace = tr, ti_span = sp @ '':tc:'' @ show_nat idx, ti_name = tool, ti_duration = ms\<rparr> # rest"
      by (auto simp: res_bind_eq_Inr)
    from Cons.IH [OF r] obtain ks where "distinct ks" "\<forall>i \<in> set ks. idx + 1 \<le> i"
      "map (\<lambda>c. (ti_trace c, ti_span c)) rest = map (\<lambda>i. (tr, sp @ '':tc:'' @ show_nat i)) ks" by blast
    with cs show ?thesis by (intro exI [of _ "idx # ks"]) force
  next
    case False
    with Cons.prems n have "tool_calls_of tr sp (idx + 1) evs = Inr cs" by simp
    from Cons.IH [OF this] obtain ks where "distinct ks" "\<forall>i \<in> set ks. idx + 1 \<le> i"
      "map (\<lambda>c. (ti_trace c, ti_span c)) cs = map (\<lambda>i. (tr, sp @ '':tc:'' @ show_nat i)) ks" by blast
    then show ?thesis by (intro exI [of _ ks]) auto
  qed
qed

lemma duration_ms_bounds: "duration_ms a b = Inr ms \<Longrightarrow> 0 \<le> ms \<and> ms \<le> 9223372036854"
  by (auto simp: duration_ms_def checked_i64_def in_i64_def quot_def sgn_if split: option.splits if_splits)

lemma normalize_span_Inr:
  assumes "normalize_span tokens sp em = Inr e"
  shows "ei_user_email e = em" "0 \<le> ei_duration e"
    "\<exists>m. ei_model_calls e = [m] \<and> mi_trace m = ei_trace e \<and> mi_span m = ei_span e @ '':mc''"
    "\<exists>evs. tool_calls_of (ei_trace e) (ei_span e) 0 evs = Inr (ei_tool_calls e)"
    "span_string sp ''traceId'' = Inr (Some (ei_trace e))" "span_string sp ''spanId'' = Inr (Some (ei_span e))"
  using assms duration_ms_bounds
  by (auto simp: normalize_span_def required_def res_bind_eq_Inr split: option.splits)

section \<open>Keys of the rows\<close>

lemma tool_span_inj:
  assumes "s @ '':tc:'' @ show_nat i = s' @ '':tc:'' @ show_nat j"
  shows "s = s' \<and> i = j"
proof -
  have d: "CHR '':'' \<notin> set (show_nat n)" for n
    using foldl_digits_show_nat [of n] by (auto simp: list_all_iff is_digit_def)
  have t: "takeWhile (\<lambda>c. c \<noteq> CHR '':'') (rev (s @ '':tc:'' @ show_nat n)) = rev (show_nat n)" for s n
  proof -
    have "takeWhile (\<lambda>c. c \<noteq> CHR '':'') (rev (show_nat n) @ CHR '':'' # xs) = rev (show_nat n)" for xs
      using d [of n] by (subst takeWhile_append2) auto
    then show ?thesis by simp
  qed
  from arg_cong [OF assms, of "\<lambda>x. takeWhile (\<lambda>c. c \<noteq> CHR '':'') (rev x)"] have "show_nat i = show_nat j"
    unfolding t by simp
  then show ?thesis using assms by (metis append_same_eq show_nat_inj)
qed

text \<open>Rows of different executions have different keys in every table.\<close>

definition from_span :: "execution_input \<Rightarrow> bool" where
  "from_span e \<longleftrightarrow> (\<exists>tokens sp em. normalize_span tokens sp em = Inr e)"

lemma from_span_calls:
  assumes "from_span e"
  shows "\<exists>m. ei_model_calls e = [m] \<and> mi_trace m = ei_trace e \<and> mi_span m = ei_span e @ '':mc''"
    and "\<exists>ks. distinct ks \<and> map (\<lambda>c. (ti_trace c, ti_span c)) (ei_tool_calls e) =
      map (\<lambda>i. (ei_trace e, ei_span e @ '':tc:'' @ show_nat i)) ks"
proof -
  from assms obtain tokens sp em where n: "normalize_span tokens sp em = Inr e" by (auto simp: from_span_def)
  show "\<exists>m. ei_model_calls e = [m] \<and> mi_trace m = ei_trace e \<and> mi_span m = ei_span e @ '':mc''"
    by (rule normalize_span_Inr(3) [OF n])
  obtain evs where "tool_calls_of (ei_trace e) (ei_span e) 0 evs = Inr (ei_tool_calls e)"
    using normalize_span_Inr(4) [OF n] by blast
  from tool_calls_of_Inr [OF this] show "\<exists>ks. distinct ks \<and> map (\<lambda>c. (ti_trace c, ti_span c)) (ei_tool_calls e) =
      map (\<lambda>i. (ei_trace e, ei_span e @ '':tc:'' @ show_nat i)) ks" by blast
qed

lemma normalized_model_keys:
  assumes "\<forall>e \<in> set es. from_span e" and "distinct (map (\<lambda>e. (ei_trace e, ei_span e)) es)"
  shows "distinct (map (\<lambda>m. (mi_trace m, mi_span m)) (concat (map ei_model_calls es)))"
proof -
  have "map (\<lambda>m. (mi_trace m, mi_span m)) (concat (map ei_model_calls es)) =
      map (\<lambda>(t, s). (t, s @ '':mc'')) (map (\<lambda>e. (ei_trace e, ei_span e)) es)"
    using assms(1) from_span_calls(1) by (induction es) fastforce+
  moreover have "distinct (map (\<lambda>(t, s :: string). (t, s @ '':mc'')) xs) \<longleftrightarrow> distinct xs" for xs :: "(string \<times> string) list"
    by (auto simp: distinct_map inj_on_def)
  ultimately show ?thesis using assms(2) by (simp only:)
qed

lemma tool_key_span:
  assumes "from_span e" and "c \<in> set (ei_tool_calls e)"
  shows "\<exists>i. ti_trace c = ei_trace e \<and> ti_span c = ei_span e @ '':tc:'' @ show_nat i"
proof -
  obtain ks where "map (\<lambda>c. (ti_trace c, ti_span c)) (ei_tool_calls e) =
      map (\<lambda>i. (ei_trace e, ei_span e @ '':tc:'' @ show_nat i)) ks" using from_span_calls(2) [OF assms(1)] by blast
  then have "(ti_trace c, ti_span c) \<in> set (map (\<lambda>i. (ei_trace e, ei_span e @ '':tc:'' @ show_nat i)) ks)"
    using assms(2) by (metis (no_types, lifting) image_eqI list.set_map)
  then show ?thesis by auto
qed

lemma normalized_tool_keys:
  assumes "\<forall>e \<in> set es. from_span e" and "distinct (map (\<lambda>e. (ei_trace e, ei_span e)) es)"
  shows "distinct (map (\<lambda>c. (ti_trace c, ti_span c)) (concat (map ei_tool_calls es)))"
  using assms
proof (induction es)
  case (Cons e es)
  then have e: "from_span e" by simp
  obtain ks where "distinct ks" "map (\<lambda>c. (ti_trace c, ti_span c)) (ei_tool_calls e) =
      map (\<lambda>i. (ei_trace e, ei_span e @ '':tc:'' @ show_nat i)) ks" using from_span_calls(2) [OF e] by blast
  then have "distinct (map (\<lambda>c. (ti_trace c, ti_span c)) (ei_tool_calls e))"
    by (simp add: distinct_map inj_on_def show_nat_inj)
  moreover have "(\<lambda>c. (ti_trace c, ti_span c)) ` set (ei_tool_calls e) \<inter> (\<lambda>c. (ti_trace c, ti_span c)) ` set (ei_tool_calls x) = {}"
    if x: "x \<in> set es" for x
  proof -
    have fx: "from_span x" and ne: "(ei_trace e, ei_span e) \<noteq> (ei_trace x, ei_span x)" using Cons.prems x by auto
    have "(ti_trace c, ti_span c) \<noteq> (ti_trace d, ti_span d)"
      if cd: "c \<in> set (ei_tool_calls e)" "d \<in> set (ei_tool_calls x)" for c d
    proof
      assume eq: "(ti_trace c, ti_span c) = (ti_trace d, ti_span d)"
      obtain i where c: "ti_trace c = ei_trace e" "ti_span c = ei_span e @ '':tc:'' @ show_nat i"
        using tool_key_span [OF e cd(1)] by blast
      obtain j where d: "ti_trace d = ei_trace x" "ti_span d = ei_span x @ '':tc:'' @ show_nat j"
        using tool_key_span [OF fx cd(2)] by blast
      from c(2) d(2) eq have "ei_span e = ei_span x" using tool_span_inj [of "ei_span e" i "ei_span x" j] by simp
      with c(1) d(1) eq ne show False by simp
    qed
    then show ?thesis by blast
  qed
  ultimately show ?case using Cons by (auto simp: disjoint_iff)
qed simp

section \<open>Validation\<close>

lemma validate_model_calls_iff:
  "validate_model_calls ms = Inr () \<longleftrightarrow> (\<forall>m \<in> set ms. mi_trace m \<noteq> [] \<and> mi_span m \<noteq> [] \<and>
     \<not> negative (mi_input_tokens m) \<and> \<not> negative (mi_output_tokens m))"
  by (induction ms) auto

lemma validate_tool_calls_iff:
  "validate_tool_calls cs = Inr () \<longleftrightarrow> (\<forall>c \<in> set cs. ti_trace c \<noteq> [] \<and> ti_span c \<noteq> [] \<and> 0 \<le> ti_duration c)"
  by (induction cs) auto

lemma validate_input_iff:
  "validate_input es = Inr () \<longleftrightarrow> (\<forall>e \<in> set es. ei_trace e \<noteq> [] \<and> ei_span e \<noteq> [] \<and> 0 \<le> ei_duration e \<and>
     validate_model_calls (ei_model_calls e) = Inr () \<and> validate_tool_calls (ei_tool_calls e) = Inr ())"
  by (induction es) (auto simp: res_bind_eq_Inr)

end
