(* ===== verification/Gov_Core_Props.thy ===== *)
theory Gov_Core_Props
  imports Gov_Resolve Gov_Ingest_Correct Gov_Identity_Correct Gov_Normalize
begin

text \<open>
  The properties of the governance core: credentials and their resolution, ingest with the normalizers before it, and the identity map; with
  the concrete database and service that show their hypotheses can hold.
\<close>

section \<open>A concrete service\<close>

definition sgc_env :: db_env where
  "sgc_env = \<lparr>env_fault = \<lambda>_. None, env_now = \<lambda>n. int n + 10\<rparr>"

definition sgc_lib :: core_lib where
  "sgc_lib = \<lparr>cl_sha256 = (\<lambda>s. s), cl_base64 = (\<lambda>s. s),
     cl_application = (\<lambda>t i. find (\<lambda>a. ap_id a = i) (gv_applications t)),
     cl_environment = (\<lambda>t i. find (\<lambda>e. ev_id e = i) (gv_environments t)),
     cl_integration = (\<lambda>t i. find (\<lambda>x. in_id x = i) (gv_integrations t))\<rparr>"

definition sgc_row :: integration_row where
  "sgc_row = \<lparr>in_id = ''i'', in_tenant = ''t'', in_application = ''a'', in_environment = ''e'', in_provider = ''p'',
     in_prefix = ''gov_x'', in_hash = ''gov_x'', in_status = ''active'', in_content_capture = ''metadata_only'',
     in_internal_user = Some ''u'', in_revoked_at = None, in_last_telemetry_at = None\<rparr>"

definition sgc_map :: "string \<Rightarrow> identity_map_row" where
  "sgc_map user = \<lparr>im_id = ''m'', im_tenant = ''t'', im_provider = ''p'', im_provider_user = ''x@y'',
     im_internal_user = Some user, im_source = ''key_directory'', im_valid_from = 1, im_valid_to = None\<rparr>"

definition sgc_db :: gov_db where
  "sgc_db = \<lparr>gv_tenants = [''t''], gv_applications = [\<lparr>ap_id = ''a'', ap_tenant = ''t''\<rparr>],
     gv_environments = [\<lparr>ev_id = ''e'', ev_application = ''a'', ev_name = ''prod''\<rparr>],
     gv_integrations = [sgc_row], gv_identity_maps = [sgc_map ''v''], gv_executions = [], gv_model_calls = [],
     gv_tool_calls = [], gv_pricing = []\<rparr>"

definition sgc_conn :: "gov_db conn" where
  "sgc_conn = \<lparr>tables = sgc_db, sent = 0\<rparr>"

definition sgc_identity :: resolved_identity where
  "sgc_identity = \<lparr>ri_tenant = ''t'', ri_application = ''a'', ri_environment = ''prod'', ri_integration = ''i''\<rparr>"

definition sgc_review :: json where
  "sgc_review = JObject [(''status'', JObject [(''authenticated'', JBool True), (''audiences'', JArray [JString ''g'']),
     (''user'', JObject [(''username'', JString ''system:serviceaccount:ns:sa'')])])]"

definition sgc_verifier :: verifier where
  "sgc_verifier = \<lparr>vf_kube = (\<lambda>_ _ _. Kube_answer 201 (Some sgc_review)), vf_own_token = Some ''k'',
     vf_audiences = [''g''], vf_allowed = [''ns/sa'']\<rparr>"

definition sgc_rl :: resolve_lib where
  "sgc_rl = \<lparr>rs_core = sgc_lib, rs_env = sgc_env,
     rs_json = (\<lambda>t. if t = ''B'' then Some (JObject [(''credential'', JString ''gov_x'')]) else None),
     rs_verifier = sgc_verifier, rs_ttl = 30, rs_timeout = 2, rs_dropped = (\<lambda>_ _. False)\<rparr>"

definition sgc_headers :: "(string \<times> string) list" where
  "sgc_headers = [(''authorization'', ''Bearer b'')]"

lemma sgc_healthy [simp]: "healthy sgc_env" "healthy (rs_env sgc_rl)"
  by (simp_all add: healthy_def sgc_env_def sgc_rl_def)

lemma sgc_admit: "admit sgc_rl sgc_headers ''B'' = Inr ''gov_x''"
  by code_simp

lemma sgc_resolved: "resolve_identity sgc_env sgc_lib ''gov_x'' sgc_conn = (Some sgc_identity, sgc_conn\<lparr>sent := 1\<rparr>)"
  by code_simp

lemma sgc_reads: "\<forall>t i. cl_integration (rs_core sgc_rl) t ''i'' = Some i \<longrightarrow> i \<in> set (gv_integrations t) \<and> in_id i = ''i''"
  by (auto simp: sgc_rl_def sgc_lib_def find_Some_iff)

section \<open>Credentials\<close>

text \<open>C14: A revoked credential fades. In any run of the endpoint that starts with an empty cache and no lookup
  on its way, once a revocation was answered with its row no request is answered with the identity of that
  integration later than the timeout of a lookup plus the time to live of the cache, however lookups,
  revocations, issues and the passing of time interleave.\<close>

theorem revoked_credential_fades:
  assumes "svc_reach rl s0 s" and "sv_cache s0 = []" and "sv_flight s0 = []"
    and "revoke (rs_env rl) (rs_core rl) iid (sv_conn s) = (Inr i, c)"
    and "\<forall>t i. cl_integration (rs_core rl) t iid = Some i \<longrightarrow> i \<in> set (gv_integrations t) \<and> in_id i = iid"
    and "svc_reach rl (s\<lparr>sv_conn := c\<rparr>) s1"
    and "svc_step rl s1 (Answered identity) s2" and "ri_integration identity = iid"
  shows "sv_now s1 \<le> sv_now s + rs_timeout rl + rs_ttl rl"
proof -
  have "dated s0" using assms(2,3) by (simp add: dated_def)
  then have "dated s" by (rule dated_reach [OF assms(1)])
  then have "fading rl iid (sv_now s) (s\<lparr>sv_conn := c\<rparr>)"
    by (rule revoke_fades [OF assms(4)]) (use assms(5) in auto)
  then have "fading rl iid (sv_now s) s1" by (rule fading_reach [OF assms(6)])
  then show ?thesis by (rule fading_answer [OF assms(7) _ assms(8)])
qed

definition sgc_start :: service where
  "sgc_start = \<lparr>sv_conn = sgc_conn, sv_cache = [], sv_now = 0, sv_flight = []\<rparr>"

definition sgc_cached :: service where
  "sgc_cached = \<lparr>sv_conn = sgc_conn\<lparr>sent := 1\<rparr>, sv_cache = [(''gov_x'', \<lparr>ce_identity = sgc_identity, ce_at = 0\<rparr>)],
     sv_now = 0, sv_flight = []\<rparr>"

lemma sgc_run: "svc_reach sgc_rl sgc_start sgc_cached"
proof -
  have k: "cache_key (rs_core sgc_rl) ''gov_x'' = ''gov_x''" by (simp add: cache_key_def sgc_rl_def sgc_lib_def)
  let ?x = "\<lparr>lr_key = ''gov_x'', lr_identity = sgc_identity, lr_at = 0\<rparr>"
  let ?s1 = "\<lparr>sv_conn = sgc_conn\<lparr>sent := 1\<rparr>, sv_cache = [], sv_now = 0, sv_flight = [?x]\<rparr>"
  have r: "resolve_identity (rs_env sgc_rl) (rs_core sgc_rl) ''gov_x'' (sv_conn sgc_start) = (Some sgc_identity, sgc_conn\<lparr>sent := 1\<rparr>)"
    using sgc_resolved by (simp add: sgc_rl_def sgc_start_def)
  have "svc_step sgc_rl sgc_start Quiet ?s1"
    using svc_step.read [OF sgc_admit r] k by (simp add: sgc_start_def)
  moreover have "svc_step sgc_rl ?s1 (Answered (lr_identity ?x)) sgc_cached"
    using svc_step.finish [of ?x ?s1 sgc_rl] by (simp add: sgc_cached_def cache_insert_def)
  ultimately show ?thesis using svc_reach.intros by blast
qed

definition sgc_revoked :: "gov_db conn" where
  "sgc_revoked = snd (revoke sgc_env sgc_lib ''i'' (sv_conn sgc_cached))"

lemma sgc_revocation: "\<exists>i. revoke sgc_env sgc_lib ''i'' (sv_conn sgc_cached) = (Inr i, sgc_revoked)"
  by (simp add: sgc_revoked_def revoke_def Let_def db_bind_def core_op_def exec_healthy find_unique_def query_def
      res_map_err_def sgc_cached_def sgc_conn_def sgc_db_def sgc_lib_def sgc_row_def mark_revoked_def db_return_def)

theorem revoked_credential_fades_witness:
  "\<exists>s1 s2. svc_reach sgc_rl (sgc_cached\<lparr>sv_conn := sgc_revoked\<rparr>) s1 \<and> svc_step sgc_rl s1 (Answered sgc_identity) s2 \<and>
     sv_now s1 = 29 \<and> sv_now s1 \<le> sv_now sgc_cached + rs_timeout sgc_rl + rs_ttl sgc_rl"
proof -
  let ?s = "sgc_cached\<lparr>sv_conn := sgc_revoked\<rparr>" let ?s1 = "?s\<lparr>sv_now := sv_now ?s + 29\<rparr>"
  have r1: "svc_reach sgc_rl ?s ?s1" using svc_step.tick svc_reach.intros by blast
  have "cache_get (rs_dropped sgc_rl (sv_now ?s1)) (rs_ttl sgc_rl) (sv_now ?s1) (cache_key (rs_core sgc_rl) ''gov_x'')
      (sv_cache ?s1) = Some sgc_identity"
    by (simp add: cache_get_def sgc_cached_def sgc_rl_def cache_key_def sgc_lib_def)
  then have h: "svc_step sgc_rl ?s1 (Answered sgc_identity) ?s1" by (rule svc_step.hit [OF sgc_admit])
  have i: "ri_integration sgc_identity = ''i''" by (simp add: sgc_identity_def)
  obtain row where rv: "revoke (rs_env sgc_rl) (rs_core sgc_rl) ''i'' (sv_conn sgc_cached) = (Inr row, sgc_revoked)"
    using sgc_revocation by (auto simp: sgc_rl_def)
  have "sv_now ?s1 \<le> sv_now sgc_cached + rs_timeout sgc_rl + rs_ttl sgc_rl"
    by (rule revoked_credential_fades [OF sgc_run _ _ rv sgc_reads r1 h i]) (simp_all add: sgc_start_def)
  moreover have "sv_now ?s1 = 29" by (simp add: sgc_cached_def)
  ultimately show ?thesis using r1 h by blast
qed

text \<open>A caller the API server vouches for.\<close>

definition reviewed :: "verifier \<Rightarrow> string \<Rightarrow> bool" where
  "reviewed vf bearer \<longleftrightarrow> (\<exists>own status doc review user.
     vf_kube vf own bearer (vf_audiences vf) = Kube_answer status (Some doc) \<and> 200 \<le> status \<and> status < 300 \<and>
     de_token_review doc = Some review \<and> tr_authenticated review \<and>
     (\<exists>a \<in> set (tr_audiences review). a \<in> set (vf_audiences vf)) \<and>
     user = (case tr_user review of None \<Rightarrow> [] | Some u \<Rightarrow> u) \<and> normalize_username user \<in> set (vf_allowed vf))"

lemma verify_token_Inr:
  assumes "verify_token vf bearer = Inr ()"
  shows "reviewed vf bearer"
proof -
  let ?own = "case vf_own_token vf of None \<Rightarrow> [] | Some t \<Rightarrow> str_trim t"
  from assms obtain status body where k: "vf_kube vf ?own bearer (vf_audiences vf) = Kube_answer status body"
    by (cases "vf_kube vf ?own bearer (vf_audiences vf)") (simp_all add: verify_token_def Let_def)
  with assms obtain review where r: "Option.bind body de_token_review = Some review" "200 \<le> status" "status < 300"
      "tr_authenticated review" "list_ex (\<lambda>a. List.member (vf_audiences vf) a) (tr_audiences review)"
      "List.member (vf_allowed vf) (normalize_username (case tr_user review of None \<Rightarrow> [] | Some u \<Rightarrow> u))"
    by (cases "Option.bind body de_token_review") (auto simp: verify_token_def Let_def list_ex_iff split: if_splits)
  then obtain doc where "body = Some doc" "de_token_review doc = Some review" by (auto simp: bind_eq_Some_conv)
  moreover have "\<exists>a \<in> set (tr_audiences review). a \<in> set (vf_audiences vf)"
    "normalize_username (case tr_user review of None \<Rightarrow> [] | Some u \<Rightarrow> u) \<in> set (vf_allowed vf)"
    using r(5,6) by (simp_all add: list_ex_iff)
  ultimately show ?thesis using k r(2-4) unfolding reviewed_def by blast
qed

text \<open>C15: The endpoint fails closed. An answer with an identity needs a bearer token that the API server reviewed as
  authenticated, for one of the configured audiences and for an allowed service account, a well-formed body,
  and either a cache entry for the digest of the credential whose time to live has not passed or an active
  row with that digest, read within the timeout. Every other request gets the same answer, a 401 without a
  reason, and leaves the cache as it is.\<close>

theorem resolve_fails_closed:
  "(case handle rl headers body now took m c of
      (Inl reason, m', c') \<Rightarrow> m' = m \<and> tables c' = tables c \<and> resolve_response (Inl reason) = (401, None)
    | (Inr identity, m', c') \<Rightarrow>
        \<exists>bearer doc credential. extract_bearer_token headers = Some bearer \<and> reviewed (rs_verifier rl) bearer \<and>
          rs_json rl body = Some doc \<and> de_resolve_request doc = Some credential \<and>
          ((\<exists>e. map_of m (cache_key (rs_core rl) credential) = Some e \<and> ce_identity e = identity \<and>
              now < ce_at e + rs_ttl rl \<and> m' = m) \<or>
           (took \<le> rs_timeout rl \<and>
            (\<exists>i \<in> set (gv_integrations (tables c)). \<exists>e \<in> set (gv_environments (tables c)).
              in_hash i = hash_secret (rs_core rl) credential \<and> in_status i = ''active'' \<and> ev_id e = in_environment i \<and>
              identity = \<lparr>ri_tenant = in_tenant i, ri_application = in_application i, ri_environment = ev_name e,
                ri_integration = in_id i\<rparr>))))"
proof (cases "admit rl headers body")
  case (Inl reason)
  then show ?thesis by (simp add: handle_def resolve_response_def)
next
  case (Inr credential)
  then obtain bearer doc where a: "extract_bearer_token headers = Some bearer" "reviewed (rs_verifier rl) bearer"
    "rs_json rl body = Some doc" "de_resolve_request doc = Some credential"
    by (auto simp: admit_def bind_eq_Some_conv split: option.splits sum.splits dest!: verify_token_Inr)
  let ?key = "cache_key (rs_core rl) credential"
  show ?thesis
  proof (cases "cache_get (rs_dropped rl now) (rs_ttl rl) now ?key m")
    case (Some identity)
    then obtain e where "map_of m ?key = Some e" "ce_identity e = identity" "now < ce_at e + rs_ttl rl"
      by (auto simp: cache_get_def split: option.splits if_splits)
    with Inr Some a show ?thesis by (simp add: handle_def)
  next
    case None
    obtain found c' where r: "resolve_identity (rs_env rl) (rs_core rl) credential c = (found, c')"
      by (cases "resolve_identity (rs_env rl) (rs_core rl) credential c")
    note t = resolve_identity_tables [OF r]
    show ?thesis
    proof (cases "took \<le> rs_timeout rl \<and> found \<noteq> None")
      case True
      then obtain identity where f: "found = Some identity" by blast
      from resolve_identity_Some [OF r [unfolded f]] True f Inr None r a show ?thesis by (simp add: handle_def)
    next
      case False
      with Inr None r t show ?thesis by (auto simp: handle_def resolve_response_def split: option.splits)
    qed
  qed
qed

text \<open>C22: An issued credential resolves to its integration: after an issue was answered, presenting the secret it
  returned is answered with the tenant of the application, the application, the name of the environment and
  the new integration, provided no row that was there before has the digest of the secret.\<close>

theorem issued_credential_resolves:
  assumes "issue env lib new_id random args c = (Inr cred, c')"
    and "\<forall>t i e. cl_environment lib t i = Some e \<longrightarrow> e \<in> set (gv_environments t) \<and> ev_id e = i"
    and "distinct (map ev_id (gv_environments (tables c)))"
    and "\<forall>i \<in> set (gv_integrations (tables c)). in_hash i \<noteq> hash_secret lib (ic_secret cred)"
    and "tables d = tables c'" and "env_fault env' (sent d) = None"
  shows "\<exists>app en. cl_application lib (tables c) (ii_application args) = Some app \<and>
     cl_environment lib (tables c) (ii_environment args) = Some en \<and> ev_application en = ii_application args \<and>
     fst (resolve_identity env' lib (ic_secret cred) d) =
       Some \<lparr>ri_tenant = ap_tenant app, ri_application = ii_application args, ri_environment = ev_name en,
             ri_integration = new_id\<rparr>"
  using assms(1)
proof (rule issue_Inr)
  fix app :: application_row and en :: environment_row
  let ?n = "new_integration lib new_id (ap_tenant app) args (ic_secret cred)"
  assume app: "cl_application lib (tables c) (ii_application args) = Some app"
    and en: "cl_environment lib (tables c) (ii_environment args) = Some en" "ev_application en = ii_application args"
    and t: "tables c' = (tables c)\<lparr>gv_integrations := gv_integrations (tables c) @ [?n]\<rparr>"
  have "resolve_row (hash_secret lib (ic_secret cred)) (tables d) = Some (?n, en)"
    by (rule resolve_row_issued [OF assms(4)]) (use assms(2,3,5) en t in \<open>auto simp: new_integration_def\<close>)
  then have "resolve_identity env' lib (ic_secret cred) d =
      (Some \<lparr>ri_tenant = in_tenant ?n, ri_application = in_application ?n, ri_environment = ev_name en, ri_integration = in_id ?n\<rparr>,
       d\<lparr>sent := Suc (sent d)\<rparr>)"
    by (simp add: resolve_identity_def exec_auto_def query_def assms(6) new_integration_def)
  with app en show ?thesis by (simp add: new_integration_def)
qed

definition sgc_args :: issue_input where
  "sgc_args = \<lparr>ii_application = ''a'', ii_environment = ''e'', ii_provider = ''p'', ii_content_capture = None, ii_internal_user = None\<rparr>"

definition sgc_issued :: "gov_db conn" where
  "sgc_issued = snd (issue sgc_env sgc_lib ''j'' (Some ''z'') sgc_args sgc_conn)"

lemma sgc_issue: "issue sgc_env sgc_lib ''j'' (Some ''z'') sgc_args sgc_conn =
    (Inr \<lparr>ic_integration = new_integration sgc_lib ''j'' ''t'' sgc_args ''gov_z'', ic_secret = ''gov_z''\<rparr>, sgc_issued)"
  unfolding sgc_issued_def by code_simp

theorem issued_credential_resolves_witness:
  "fst (resolve_identity sgc_env sgc_lib ''gov_z'' sgc_issued) =
     Some \<lparr>ri_tenant = ''t'', ri_application = ''a'', ri_environment = ''prod'', ri_integration = ''j''\<rparr>"
proof -
  have 1: "\<forall>t i e. cl_environment sgc_lib t i = Some e \<longrightarrow> e \<in> set (gv_environments t) \<and> ev_id e = i"
    by (auto simp: sgc_lib_def find_Some_iff)
  have 2: "distinct (map ev_id (gv_environments (tables sgc_conn)))"
    "\<forall>i \<in> set (gv_integrations (tables sgc_conn)). in_hash i \<noteq> hash_secret sgc_lib ''gov_z''"
    by (simp_all add: sgc_conn_def sgc_db_def sgc_row_def hash_secret_def sgc_lib_def)
  from issued_credential_resolves [OF sgc_issue 1 2(1) _ refl, of sgc_env] 2(2) obtain app en where
    "cl_application sgc_lib (tables sgc_conn) (ii_application sgc_args) = Some app"
    "cl_environment sgc_lib (tables sgc_conn) (ii_environment sgc_args) = Some en"
    "fst (resolve_identity sgc_env sgc_lib ''gov_z'' sgc_issued) =
       Some \<lparr>ri_tenant = ap_tenant app, ri_application = ii_application sgc_args, ri_environment = ev_name en,
             ri_integration = ''j''\<rparr>" by auto
  then show ?thesis by (auto simp: sgc_lib_def sgc_conn_def sgc_db_def sgc_args_def)
qed

section \<open>Ingest\<close>

definition sgc_execution :: execution_input where
  "sgc_execution = \<lparr>ei_trace = ''T'', ei_span = ''S'', ei_user_email = Some ''x@y'', ei_started_at = 5, ei_duration = 7,
     ei_model_calls = [\<lparr>mi_trace = ''T'', mi_span = ''M'', mi_model = ''g'', mi_input_tokens = Some 1, mi_output_tokens = Some 2\<rparr>],
     ei_tool_calls = [\<lparr>ti_trace = ''T'', ti_span = ''U'', ti_name = ''n'', ti_duration = 3\<rparr>]\<rparr>"

definition sgc_first :: "(core_error + ingest_result) \<times> gov_db conn \<times> nat list" where
  "sgc_first = ingest_telemetry sgc_env sgc_lib ''t'' ''i'' ''p'' [sgc_execution] (sgc_conn, [])"

definition sgc_result :: ingest_result where
  "sgc_result = \<lparr>ir_executions = 1, ir_model_calls = 1, ir_tool_calls = 1, ir_detection_failed = False, ir_mismatches = 1\<rparr>"

definition sgc_loaded :: "gov_db conn" where
  "sgc_loaded = fst (snd sgc_first)"

lemma sgc_ingest: "ingest_telemetry sgc_env sgc_lib ''t'' ''i'' ''p'' [sgc_execution] (sgc_conn, []) = (Inr sgc_result, sgc_loaded, [])"
  unfolding sgc_loaded_def sgc_first_def by code_simp

text \<open>C16: An ingest never rewrites history. Whatever it is given, whatever the server answers and however often
  it is retried, the executions, model calls and tool calls that were stored keep their identifiers and
  parents, executions keep their start, and executions and model calls keep the cost they were given first,
  also when prices have changed since.\<close>

theorem ingest_never_rewrites_history:
  assumes "ingest_telemetry env lib tenant iid provider executions (c, w) = (r, c', w')"
  shows "(\<forall>k e. lookup_row ex_key k (gv_executions (tables c)) = Some e \<longrightarrow>
      (\<exists>e'. lookup_row ex_key k (gv_executions (tables c')) = Some e' \<and>
        ex_id e' = ex_id e \<and> ex_started_at e' = ex_started_at e \<and> ex_cost e' = ex_cost e)) \<and>
    (\<forall>k m. lookup_row mc_key k (gv_model_calls (tables c)) = Some m \<longrightarrow>
      (\<exists>m'. lookup_row mc_key k (gv_model_calls (tables c')) = Some m' \<and>
        mc_id m' = mc_id m \<and> mc_execution m' = mc_execution m \<and> mc_cost m' = mc_cost m)) \<and>
    (\<forall>k x. lookup_row tc_key k (gv_tool_calls (tables c)) = Some x \<longrightarrow>
      (\<exists>x'. lookup_row tc_key k (gv_tool_calls (tables c')) = Some x' \<and>
        tc_id x' = tc_id x \<and> tc_execution x' = tc_execution x))"
  using ingest_keeps_history [OF assms] by (simp add: history_kept_def rows_stay_def)

theorem ingest_never_rewrites_history_witness:
  "\<exists>e e' c'. ingest_telemetry sgc_env sgc_lib ''t'' ''i'' ''p'' [sgc_execution] (sgc_loaded, []) = (Inr sgc_result, c', []) \<and>
     lookup_row ex_key (''T'', ''S'') (gv_executions (tables sgc_loaded)) = Some e \<and>
     lookup_row ex_key (''T'', ''S'') (gv_executions (tables c')) = Some e' \<and> ex_cost e' = ex_cost e"
proof -
  let ?c' = "fst (snd (ingest_telemetry sgc_env sgc_lib ''t'' ''i'' ''p'' [sgc_execution] (sgc_loaded, [])))"
  have i: "ingest_telemetry sgc_env sgc_lib ''t'' ''i'' ''p'' [sgc_execution] (sgc_loaded, []) = (Inr sgc_result, ?c', [])"
    unfolding sgc_loaded_def sgc_first_def by code_simp
  have "lookup_row ex_key (''T'', ''S'') (gv_executions (tables sgc_loaded)) \<noteq> None"
    unfolding sgc_loaded_def sgc_first_def by code_simp
  then obtain e where e: "lookup_row ex_key (''T'', ''S'') (gv_executions (tables sgc_loaded)) = Some e" by blast
  from ingest_never_rewrites_history [OF i] i e show ?thesis by blast
qed

text \<open>C17: An ingest is all or nothing. Unless the answer to a commit is lost, an ingest that fails leaves the
  tables as they were; and whatever happens it is tried at most four times, after pauses of 10, 20 and 40
  milliseconds.\<close>

theorem ingest_is_all_or_nothing:
  assumes "ingest_telemetry env lib tenant iid provider executions (c, w) = (r, c', w')"
  shows "(no_lost_reply env \<and> r \<in> range Inl \<longrightarrow> tables c' = tables c) \<and> (\<exists>n \<le> 3. w' = w @ take n [10, 20, 40])"
proof
  show "no_lost_reply env \<and> r \<in> range Inl \<longrightarrow> tables c' = tables c"
    using ingest_failed assms by blast
  show "\<exists>n \<le> 3. w' = w @ take n [10, 20, 40]"
  proof (cases "validate_input executions")
    case (Inl x)
    with assms show ?thesis by (auto simp: ingest_telemetry_def intro: exI [of _ 0])
  next
    case (Inr x)
    with assms have "ingest_attempts (ingest_telemetry_inner env lib tenant iid provider executions) 0 (c, w) = (r, c', w')"
      by (simp add: ingest_telemetry_def)
    from ingest_attempts_waits [OF this] obtain n where n: "n \<le> 3"
      "w' = w @ map (\<lambda>k. DEADLOCK_RETRY_BASE_MS * 2 ^ k) [0..<n]" by (auto simp: MAX_DEADLOCK_RETRIES_def)
    moreover have "map (\<lambda>k. DEADLOCK_RETRY_BASE_MS * 2 ^ k) [0..<n] = take n [10, 20, 40]"
    proof -
      from n(1) have "n = 0 \<or> n = 1 \<or> n = 2 \<or> n = 3" by auto
      then show ?thesis by (auto simp: DEADLOCK_RETRY_BASE_MS_def upt_rec)
    qed
    ultimately show ?thesis by auto
  qed
qed

definition sgc_deadlocked :: db_env where
  "sgc_deadlocked = \<lparr>env_fault = \<lambda>_. Some (Refused Deadlock), env_now = \<lambda>n. int n + 10\<rparr>"

theorem ingest_is_all_or_nothing_witness:
  "\<exists>c'. ingest_telemetry sgc_deadlocked sgc_lib ''t'' ''i'' ''p'' [sgc_execution] (sgc_conn, []) =
     (Inl (Storage Deadlock), c', [10, 20, 40]) \<and> tables c' = tables sgc_conn"
proof -
  let ?c' = "fst (snd (ingest_telemetry sgc_deadlocked sgc_lib ''t'' ''i'' ''p'' [sgc_execution] (sgc_conn, [])))"
  have i: "ingest_telemetry sgc_deadlocked sgc_lib ''t'' ''i'' ''p'' [sgc_execution] (sgc_conn, []) =
      (Inl (Storage Deadlock), ?c', [10, 20, 40])" by code_simp
  have "no_lost_reply sgc_deadlocked" by (simp add: no_lost_reply_def sgc_deadlocked_def)
  with ingest_is_all_or_nothing [OF i] i show ?thesis by blast
qed

text \<open>C18: Ingesting a batch again adds no row. After a batch was ingested, a server that answers ingests it a
  second time at the first attempt, under any integration, and every table holds the same keys in the same
  order as before.\<close>

theorem ingest_again_adds_no_row:
  assumes "ingest_telemetry env lib tenant iid provider executions s = (Inr r, c, w)"
    and "healthy env'" and "tables d = tables c"
  shows "\<exists>r' d'. ingest_telemetry env' lib tenant' iid' provider' executions (d, w') = (Inr r', d', w') \<and>
     map ex_key (gv_executions (tables d')) = map ex_key (gv_executions (tables c)) \<and>
     map mc_key (gv_model_calls (tables d')) = map mc_key (gv_model_calls (tables c)) \<and>
     map tc_key (gv_tool_calls (tables d')) = map tc_key (gv_tool_calls (tables c))"
proof -
  from ingest_Inr [OF assms(1)] obtain c0 where
    i: "ingest_telemetry_inner env lib tenant iid provider executions c0 = (Inr r, c)" and v: "validate_input executions = Inr ()" .
  from ingest_inner_known [OF i] assms(3) have "\<forall>e \<in> set executions. known e (tables d)" by simp
  from ingest_again [OF assms(2) v this] show ?thesis unfolding same_keys_def assms(3) .
qed

theorem ingest_again_adds_no_row_witness:
  "\<exists>r' d'. ingest_telemetry sgc_env sgc_lib ''t'' ''i'' ''p'' [sgc_execution] (sgc_loaded, [5]) = (Inr r', d', [5]) \<and>
     map ex_key (gv_executions (tables d')) = map ex_key (gv_executions (tables sgc_loaded))"
  using ingest_again_adds_no_row [OF sgc_ingest sgc_healthy(1) refl] by blast

text \<open>C19: An ingest keeps the stored rows well formed: unique keys, calls that refer to executions that are
  there, and durations and token counts that are not negative, whatever it is given and whatever the server
  answers.\<close>

theorem ingest_keeps_rows_well_formed:
  assumes "ingest_telemetry env lib tenant iid provider executions (c, w) = (r, c', w')" and "core_ok (tables c)"
  shows "core_ok (tables c')"
  by (rule ingest_keeps_types [OF assms])

theorem ingest_keeps_rows_well_formed_witness: "core_ok (tables sgc_loaded) \<and> gv_model_calls (tables sgc_loaded) \<noteq> []"
proof -
  have "core_ok (tables sgc_conn)" by (simp add: core_ok_def sgc_conn_def sgc_db_def table_ok_def)
  from ingest_keeps_rows_well_formed [OF sgc_ingest this] show ?thesis
    unfolding sgc_loaded_def sgc_first_def by (rule conjI) code_simp
qed

text \<open>C39: An ingest takes over executions of other tenants. After an ingest succeeded, the row under the trace
  and span of each of its executions belongs to the tenant of the ingest, also when it belonged to another
  tenant before; that row keeps its old identifier and cost.\<close>

theorem ingest_takes_over_foreign_executions:
  assumes "ingest_telemetry env lib tenant iid provider executions (c, w) = (Inr r, c', w')" and "e \<in> set executions"
    and "lookup_row ex_key (ei_trace e, ei_span e) (gv_executions (tables c)) = Some old" and "ex_tenant old \<noteq> tenant"
  shows "\<exists>row. lookup_row ex_key (ei_trace e, ei_span e) (gv_executions (tables c')) = Some row \<and>
     ex_tenant row = tenant \<and> ex_id row = ex_id old \<and> ex_cost row = ex_cost old"
proof -
  from ingest_takes_over [OF assms(1,2)] obtain row where
    "lookup_row ex_key (ei_trace e, ei_span e) (gv_executions (tables c')) = Some row" "ex_tenant row = tenant"
    by (auto simp: owned_def)
  moreover from ingest_keeps_history [OF assms(1)] assms(3) obtain row' where
    "lookup_row ex_key (ei_trace e, ei_span e) (gv_executions (tables c')) = Some row'" "ex_id row' = ex_id old" "ex_cost row' = ex_cost old"
    unfolding history_kept_def rows_stay_def by blast
  ultimately show ?thesis by auto
qed

theorem ingest_takes_over_foreign_executions_witness:
  "\<exists>r c' row. ingest_telemetry sgc_env sgc_lib ''other'' ''i'' ''p'' [sgc_execution] (sgc_loaded, []) = (Inr r, c', []) \<and>
     lookup_row ex_key (''T'', ''S'') (gv_executions (tables c')) = Some row \<and> ex_tenant row = ''other''"
proof -
  let ?i = "ingest_telemetry sgc_env sgc_lib ''other'' ''i'' ''p'' [sgc_execution] (sgc_loaded, [])"
  have "map_option ex_tenant (lookup_row ex_key (''T'', ''S'') (gv_executions (tables sgc_loaded))) = Some ''t''"
    unfolding sgc_loaded_def sgc_first_def by code_simp
  then obtain old where old: "lookup_row ex_key (''T'', ''S'') (gv_executions (tables sgc_loaded)) = Some old" "ex_tenant old = ''t''"
    by auto
  have "(case fst ?i of Inr _ \<Rightarrow> True | Inl _ \<Rightarrow> False) \<and> snd (snd ?i) = []"
    unfolding sgc_loaded_def sgc_first_def by code_simp
  then obtain r c' where i: "?i = (Inr r, c', [])" by (cases ?i) (auto split: sum.splits)
  have k: "ei_trace sgc_execution = ''T''" "ei_span sgc_execution = ''S''" by (simp_all add: sgc_execution_def)
  from ingest_takes_over_foreign_executions [OF i, of sgc_execution old] old k i show ?thesis by auto
qed

section \<open>Identities\<close>

text \<open>C23: The flag raised at ingest agrees with the report. For a mail address of a payload, a token with an
  identity and mappings none of which starts in the future, the check of the payload flags the address
  exactly when the report counts an execution with that address, that identity and a start now as
  mismatched.\<close>

theorem mismatch_flag_agrees_with_report:
  assumes "email_mappings now tenant provider emails t = Inr mappings" and "email \<in> set emails"
    and "\<forall>m \<in> set (gv_identity_maps t). im_valid_from m \<le> now"
    and "ex_tenant e = tenant" and "ex_provider e = provider" and "ex_started_at e = now"
    and "ex_user_email e = Some email" and "ex_internal_user e = token"
  shows "email_mismatch token mappings (Some email) \<longleftrightarrow> stored_mismatch t e"
proof -
  have "\<forall>m \<in> set (user_maps tenant provider email t). im_valid_from m \<le> now" using assms(3) by (simp add: user_maps_def)
  then have "map_of mappings email = user_at tenant provider email now t" by (rule email_mappings_at [OF assms(1,2)])
  with assms(4-8) show ?thesis
    by (auto simp: email_mismatch_def stored_mismatch_def mapping_at_user split: option.splits)
qed

definition sgc_stored :: execution_row where
  "sgc_stored = \<lparr>ex_id = ''x'', ex_tenant = ''t'', ex_integration = ''i'', ex_provider = ''p'', ex_trace = ''T'', ex_span = ''S'',
     ex_user_email = Some ''x@y'', ex_internal_user = Some ''u'', ex_started_at = 9, ex_duration = 1, ex_cost = None, ex_updated_at = 9\<rparr>"

theorem mismatch_flag_agrees_with_report_witness:
  "email_mappings 9 ''t'' ''p'' [''x@y''] sgc_db = Inr [(''x@y'', ''v'')] \<and>
   email_mismatch (Some ''u'') [(''x@y'', ''v'')] (Some ''x@y'') \<and> stored_mismatch sgc_db sgc_stored"
proof -
  have m: "email_mappings 9 ''t'' ''p'' [''x@y''] sgc_db = Inr [(''x@y'', ''v'')]" by code_simp
  have "email_mismatch (Some ''u'') [(''x@y'', ''v'')] (Some ''x@y'') \<longleftrightarrow> stored_mismatch sgc_db sgc_stored"
    by (rule mismatch_flag_agrees_with_report [OF m]) (simp_all add: sgc_db_def sgc_map_def sgc_stored_def)
  moreover have "email_mismatch (Some ''u'') [(''x@y'', ''v'')] (Some ''x@y'')" by (simp add: email_mismatch_def)
  ultimately show ?thesis using m by blast
qed

text \<open>C20: An import of the directory points every entry at its user. On a server that answers, with addresses
  that occur once and rows older than the import, it succeeds and accounts for every entry; afterwards each
  address is mapped to the user of its entry, addresses without an entry keep their rows, the user any
  address was mapped to at an earlier time is the same as before, and importing the directory again changes
  nothing.\<close>

theorem directory_import_points_every_entry:
  assumes "healthy env" and "inj fresh" and "distinct (map de_provider_user es)"
    and "import_ready fresh (env_now env (sent c)) tenant provider (de_provider_user ` set es) c"
    and "\<exists>active. active_mappings tenant provider (tables c) = Inr active"
  shows "\<exists>rep c'. sync_identity_directory env fresh tenant provider es c = (Inr rep, c') \<and>
     sr_inserted rep + sr_repointed rep + sr_unchanged rep = length es \<and>
     (\<forall>e \<in> set es. current_user tenant provider (de_provider_user e) (tables c') = Some (de_internal_user e)) \<and>
     (\<forall>tn pv v. \<not> (tn = tenant \<and> pv = provider \<and> v \<in> de_provider_user ` set es) \<longrightarrow>
        user_maps tn pv v (tables c') = user_maps tn pv v (tables c)) \<and>
     (\<forall>tn pv v x. x < env_now env (sent c) \<longrightarrow> user_at tn pv v x (tables c') = user_at tn pv v x (tables c)) \<and>
     (\<exists>c''. sync_identity_directory env fresh tenant provider es c' =
        (Inr \<lparr>sr_inserted = 0, sr_repointed = 0, sr_unchanged = length es\<rparr>, c'') \<and> tables c'' = tables c')"
  using assms(1,2,4,3,5)
proof (rule sync_works)
  fix rep c'
  let ?now = "env_now env (sent c)"
  assume s: "sync_identity_directory env fresh tenant provider es c = (Inr rep, c')"
    and d: "\<forall>e \<in> set es. entry_done ?now tenant provider e
       (user_maps tenant provider (de_provider_user e) (tables c)) (user_maps tenant provider (de_provider_user e) (tables c'))"
    and o: "others_stay tenant provider (de_provider_user ` set es) (tables c) (tables c')" and n: "entries_of rep = length es"
  have cur: "\<forall>e \<in> set es. current_user tenant provider (de_provider_user e) (tables c') = Some (de_internal_user e)"
    using d entry_done_current by (auto simp: current_user_def)
  have past: "user_at tn pv v x (tables c') = user_at tn pv v x (tables c)" if "x < ?now" for tn pv v x
  proof (cases "tn = tenant \<and> pv = provider \<and> v \<in> de_provider_user ` set es")
    case True
    then obtain e where "e \<in> set es" "v = de_provider_user e" by blast
    with d True entry_done_past that show ?thesis by (auto simp: user_at_def)
  next
    case False
    with o have "user_maps tn pv v (tables c') = user_maps tn pv v (tables c)" unfolding others_stay_def by blast
    then show ?thesis by (simp add: user_at_def)
  qed
  have "\<exists>c''. sync_identity_directory env fresh tenant provider es c' =
      (Inr \<lparr>sr_inserted = 0, sr_repointed = 0, sr_unchanged = length es\<rparr>, c'') \<and> tables c'' = tables c'"
    by (rule sync_unchanged [OF assms(1) cur open_rows_after [OF assms(5) d o]])
  with s n cur past o show ?thesis unfolding others_stay_def entries_of_def by blast
qed

definition sgc_fresh :: "nat \<Rightarrow> string" where
  "sgc_fresh n = replicate n CHR ''i''"

definition sgc_directory :: "directory_entry list" where
  "sgc_directory = [\<lparr>de_provider_user = ''x@y'', de_internal_user = ''u''\<rparr>, \<lparr>de_provider_user = ''z@y'', de_internal_user = ''w''\<rparr>]"

lemma sgc_importable:
  "inj sgc_fresh" "import_ready sgc_fresh (env_now sgc_env (sent sgc_conn)) ''t'' ''p'' (de_provider_user ` set sgc_directory) sgc_conn"
  "\<exists>active. active_mappings ''t'' ''p'' (tables sgc_conn) = Inr active"
proof -
  show "inj sgc_fresh" by (auto simp: inj_def sgc_fresh_def)
  show "import_ready sgc_fresh (env_now sgc_env (sent sgc_conn)) ''t'' ''p'' (de_provider_user ` set sgc_directory) sgc_conn"
    by (simp add: import_ready_def sgc_conn_def sgc_db_def sgc_directory_def user_maps_def sgc_map_def sgc_env_def)
  show "\<exists>active. active_mappings ''t'' ''p'' (tables sgc_conn) = Inr active"
    by (simp add: active_mappings_Inr sgc_conn_def sgc_db_def sgc_map_def)
qed

theorem directory_import_points_every_entry_witness:
  "\<exists>rep c'. sync_identity_directory sgc_env sgc_fresh ''t'' ''p'' sgc_directory sgc_conn = (Inr rep, c') \<and>
     current_user ''t'' ''p'' ''x@y'' (tables sgc_conn) = Some ''v'' \<and> current_user ''t'' ''p'' ''x@y'' (tables c') = Some ''u'' \<and>
     user_at ''t'' ''p'' ''x@y'' 9 (tables c') = Some ''v''"
proof -
  have d: "distinct (map de_provider_user sgc_directory)" by (simp add: sgc_directory_def)
  have b: "current_user ''t'' ''p'' ''x@y'' (tables sgc_conn) = Some ''v''" "user_at ''t'' ''p'' ''x@y'' 9 (tables sgc_conn) = Some ''v''"
    "9 < env_now sgc_env (sent sgc_conn)" by code_simp+
  have e: "\<lparr>de_provider_user = ''x@y'', de_internal_user = ''u''\<rparr> \<in> set sgc_directory" by (simp add: sgc_directory_def)
  from directory_import_points_every_entry [OF sgc_healthy(1) sgc_importable(1) d sgc_importable(2,3)] obtain rep c' where
    s: "sync_identity_directory sgc_env sgc_fresh ''t'' ''p'' sgc_directory sgc_conn = (Inr rep, c')"
    and cur: "\<forall>e \<in> set sgc_directory. current_user ''t'' ''p'' (de_provider_user e) (tables c') = Some (de_internal_user e)"
    and past: "\<forall>tn pv v x. x < env_now sgc_env (sent sgc_conn) \<longrightarrow> user_at tn pv v x (tables c') = user_at tn pv v x (tables sgc_conn)"
    by blast
  have "current_user ''t'' ''p'' ''x@y'' (tables c') = Some ''u''" using bspec [OF cur e] by simp
  moreover have "user_at ''t'' ''p'' ''x@y'' 9 (tables c') = Some ''v''" using past b(2,3) by metis
  ultimately show ?thesis using s b(1) by blast
qed

text \<open>C40: One repeated address fails the whole import. When two entries of the directory have the same address and
  neither is already mapped to its user, the import fails and, unless the answer to its commit is lost, no
  entry of it is stored.\<close>

theorem repeated_address_fails_the_import:
  assumes "i < j" and "j < length es" and "de_provider_user (es ! i) = de_provider_user (es ! j)"
    and "\<forall>k \<in> {i, j}. current_user tenant provider (de_provider_user (es ! k)) (tables c) \<noteq> Some (de_internal_user (es ! k))"
    and "no_lost_reply env"
  shows "\<exists>e c'. sync_identity_directory env fresh tenant provider es c = (Inl e, c') \<and> tables c' = tables c"
proof -
  obtain r c' where s: "sync_identity_directory env fresh tenant provider es c = (r, c')"
    by (cases "sync_identity_directory env fresh tenant provider es c")
  have "r \<noteq> Inr rep" for rep
  proof
    assume "r = Inr rep"
    with s have "sync_identity_directory env fresh tenant provider es c = (Inr rep, c')" by simp
    then show False
    proof (rule sync_duplicates)
      fix active assume a: "active_mappings tenant provider (tables c) = Inr active"
        and d: "distinct (map de_provider_user (filter (\<lambda>e. map_of active (de_provider_user e) \<noteq> Some (de_internal_user e)) es))"
      let ?P = "\<lambda>e. map_of active (de_provider_user e) \<noteq> Some (de_internal_user e)"
      have p: "?P (es ! i)" "?P (es ! j)" using assms(4) active_mappings_current [OF a] by auto
      have "es = take j es @ es ! j # drop (Suc j) es" using assms(2) by (rule id_take_nth_drop)
      then have f: "filter ?P es = filter ?P (take j es) @ es ! j # filter ?P (drop (Suc j) es)"
        using p(2) by (metis (mono_tags, lifting) filter.simps(2) filter_append)
      have "es ! i \<in> set (take j es)" using assms(1,2) by (auto simp: in_set_conv_nth intro!: exI [of _ i])
      with p(1) have "de_provider_user (es ! i) \<in> de_provider_user ` set (filter ?P (take j es))" by simp
      with d assms(3) show False unfolding f by simp
    qed
  qed
  then obtain e where e: "r = Inl e" by (cases r) auto
  with s have "tables c' = tables c"
    unfolding sync_identity_directory_def using transaction_atomic [OF assms(5)] by blast
  with s e show ?thesis by blast
qed

theorem repeated_address_fails_the_import_witness:
  "\<exists>e c'. sync_identity_directory sgc_env sgc_fresh ''t'' ''p'' (sgc_directory @ sgc_directory) sgc_conn = (Inl e, c') \<and>
     tables c' = tables sgc_conn"
proof (rule repeated_address_fails_the_import [of 0 2])
  show "\<forall>k \<in> {0, 2}. current_user ''t'' ''p'' (de_provider_user ((sgc_directory @ sgc_directory) ! k)) (tables sgc_conn) \<noteq>
      Some (de_internal_user ((sgc_directory @ sgc_directory) ! k))"
    by (simp add: sgc_directory_def) code_simp
qed (simp_all add: sgc_directory_def healthy_no_lost)


section \<open>Push connectors\<close>

text \<open>C21: A normalizer leaves nothing out. What a registered normalizer makes of a payload are the executions of
  its spans, one for each in their order, with the trace and span of the span, the mail address of its resource
  and one model call; spans with different keys give model calls and tool calls with different keys; and the
  executions pass the validation of the ingest exactly when no trace or span is empty and no token count or
  tool duration is negative.\<close>

theorem normalizer_leaves_nothing_out:
  assumes "dispatch_normalizer provider = Inr f" and "f payload = Inr es"
  shows "list_all2 (\<lambda>(sp, em) e. span_string sp ''traceId'' = Inr (Some (ei_trace e)) \<and>
       span_string sp ''spanId'' = Inr (Some (ei_span e)) \<and> ei_user_email e = em \<and> length (ei_model_calls e) = 1)
       (spans_of payload) es \<and>
     (distinct (map (\<lambda>e. (ei_trace e, ei_span e)) es) \<longrightarrow>
       distinct (map (\<lambda>m. (mi_trace m, mi_span m)) (concat (map ei_model_calls es))) \<and>
       distinct (map (\<lambda>c. (ti_trace c, ti_span c)) (concat (map ei_tool_calls es)))) \<and>
     (validate_input es = Inr () \<longleftrightarrow> (\<forall>e \<in> set es. ei_trace e \<noteq> [] \<and> ei_span e \<noteq> [] \<and>
       (\<forall>m \<in> set (ei_model_calls e). \<not> negative (mi_input_tokens m) \<and> \<not> negative (mi_output_tokens m)) \<and>
       (\<forall>c \<in> set (ei_tool_calls e). 0 \<le> ti_duration c)))"
proof -
  from assms obtain tokens where p: "normalize_payload (normalize_span tokens) payload = Inr es"
    by (auto simp: dispatch_normalizer_def NORMALIZERS_def claude_code_normalize_def codex_normalize_def
        foundry_normalize_def split: option.splits if_splits)
  note a = normalize_payload_Inr [OF p]
  have f: "\<forall>e \<in> set es. from_span e"
    using a by (induction rule: list_all2_induct) (auto simp: from_span_def)
  have "list_all2 (\<lambda>(sp, em) e. span_string sp ''traceId'' = Inr (Some (ei_trace e)) \<and>
      span_string sp ''spanId'' = Inr (Some (ei_span e)) \<and> ei_user_email e = em \<and> length (ei_model_calls e) = 1)
      (spans_of payload) es"
    using a by (rule list_all2_mono) (use normalize_span_Inr in fastforce)
  moreover have "validate_input es = Inr () \<longleftrightarrow> (\<forall>e \<in> set es. ei_trace e \<noteq> [] \<and> ei_span e \<noteq> [] \<and>
       (\<forall>m \<in> set (ei_model_calls e). \<not> negative (mi_input_tokens m) \<and> \<not> negative (mi_output_tokens m)) \<and>
       (\<forall>c \<in> set (ei_tool_calls e). 0 \<le> ti_duration c))"
    unfolding validate_input_iff validate_model_calls_iff validate_tool_calls_iff
  proof (intro ball_cong refl)
    fix e assume "e \<in> set es"
    with f have fe: "from_span e" by blast
    then have "0 \<le> ei_duration e" using normalize_span_Inr(2) by (auto simp: from_span_def)
    moreover obtain m where "ei_model_calls e = [m]" "mi_trace m = ei_trace e" "mi_span m = ei_span e @ '':mc''"
      using from_span_calls(1) [OF fe] by blast
    moreover have "ti_trace c = ei_trace e" "ti_span c \<noteq> []" if "c \<in> set (ei_tool_calls e)" for c
      using tool_key_span [OF fe that] by auto
    ultimately show "(ei_trace e \<noteq> [] \<and> ei_span e \<noteq> [] \<and> 0 \<le> ei_duration e \<and>
        (\<forall>m \<in> set (ei_model_calls e). mi_trace m \<noteq> [] \<and> mi_span m \<noteq> [] \<and>
           \<not> negative (mi_input_tokens m) \<and> \<not> negative (mi_output_tokens m)) \<and>
        (\<forall>c \<in> set (ei_tool_calls e). ti_trace c \<noteq> [] \<and> ti_span c \<noteq> [] \<and> 0 \<le> ti_duration c)) =
      (ei_trace e \<noteq> [] \<and> ei_span e \<noteq> [] \<and>
        (\<forall>m \<in> set (ei_model_calls e). \<not> negative (mi_input_tokens m) \<and> \<not> negative (mi_output_tokens m)) \<and>
        (\<forall>c \<in> set (ei_tool_calls e). 0 \<le> ti_duration c))" by auto
  qed
  ultimately show ?thesis using normalized_model_keys [OF f] normalized_tool_keys [OF f] by blast
qed

definition sgc_attr :: "string \<Rightarrow> string \<Rightarrow> string \<Rightarrow> json" where
  "sgc_attr key kind v = JObject [(''key'', JString key), (''value'', JObject [(kind, JString v)])]"

definition sgc_payload :: json where
  "sgc_payload = JObject [(''resourceSpans'', JArray [JObject [
     (''resource'', JObject [(''attributes'', JArray [sgc_attr ''user.email'' ''stringValue'' ''x@y''])]),
     (''scopeSpans'', JArray [JObject [(''spans'', JArray [JObject [
       (''traceId'', JString ''T''), (''spanId'', JString ''S''),
       (''startTimeUnixNano'', JString ''1''), (''endTimeUnixNano'', JString ''2''),
       (''attributes'', JArray [sgc_attr ''model.name'' ''stringValue'' ''g'', sgc_attr ''tokens.input'' ''intValue'' ''1'']),
       (''events'', JArray [JObject [(''name'', JString ''tool.call''),
         (''attributes'', JArray [sgc_attr ''tool.name'' ''stringValue'' ''n'', sgc_attr ''duration.ms'' ''intValue'' ''3''])]])]])]])]])]"

definition sgc_normalized :: "execution_input list" where
  "sgc_normalized = [\<lparr>ei_trace = ''T'', ei_span = ''S'', ei_user_email = Some ''x@y'', ei_started_at = 1, ei_duration = 0,
     ei_model_calls = [\<lparr>mi_trace = ''T'', mi_span = ''S:mc'', mi_model = ''g'', mi_input_tokens = Some 1, mi_output_tokens = None\<rparr>],
     ei_tool_calls = [\<lparr>ti_trace = ''T'', ti_span = ''S:tc:0'', ti_name = ''n'', ti_duration = 3\<rparr>]\<rparr>]"

theorem normalizer_leaves_nothing_out_witness:
  "claude_code_normalize sgc_payload = Inr sgc_normalized \<and> length (spans_of sgc_payload) = 1 \<and> validate_input sgc_normalized = Inr ()"
proof -
  have d: "dispatch_normalizer ''claude_code'' = Inr claude_code_normalize" by (simp add: dispatch_normalizer_def NORMALIZERS_def)
  have n: "claude_code_normalize sgc_payload = Inr sgc_normalized" by code_simp
  from normalizer_leaves_nothing_out [OF d n] have "length (spans_of sgc_payload) = length sgc_normalized"
    "validate_input sgc_normalized = Inr ()"
    by (auto dest: list_all2_lengthD simp: sgc_normalized_def negative_def)
  with n show ?thesis by (simp add: sgc_normalized_def)
qed

end
