(* ===== verification/Auth_World.thy ===== *)
theory Auth_World
  imports Gov_Tables Json Utf8
begin

text \<open>
  What the command line tool of the developer's machine (\<open>app/governance-auth/src\<close>) finds outside itself, where it puts
  its files (\<open>paths.rs\<close>) and which addresses it may send a credential to (\<open>security.rs\<close>).

  The outside is a parameter: every file call, every reading of the clock, every request and every lock has a number,
  and the parameter says what becomes of it. A write that fails may leave anything in the file. URL, JSON and TOML
  text, the digest, randomness and the environment are parameters too. Messages on standard error are left out, but for the
  address a user is asked to visit; what a command prints on standard output is its result. A directory is created or not; which
  files lie in it does not depend on it.
\<close>

section \<open>The outside\<close>

datatype url_host = Domain string | Ipv4 nat nat nat nat | Ipv6 nat

text \<open>A parsed URL, with the port it names or the default one of its scheme.\<close>

record parsed_url =
  ur_scheme :: string
  ur_host :: "url_host option"
  ur_port :: nat

datatype io_outcome = Io_done | Io_refused | Io_torn string

record http_request =
  hq_url :: string
  hq_form :: "(string \<times> string) list option"

datatype http_answer = No_reply | Reply nat "string option"

record cached_session =
  se_issuer :: string
  se_client_id :: string
  se_access_token :: string
  se_refresh_token :: "string option"
  se_expires_at :: nat
  se_lifetime :: "nat option"

record oidc_metadata =
  om_issuer :: string
  om_authorization :: "string option"
  om_token :: string
  om_device :: "string option"
  om_revocation :: "string option"

record raw_token_response =
  rt_access_token :: string
  rt_refresh_token :: "string option"
  rt_expires_in :: "nat option"

datatype ip_addr = V4 nat nat nat nat | V6 nat

datatype toml_item = T_string string | T_int int | T_bool bool | T_other

record device_grant =
  dg_device_code :: string
  dg_verification_uri :: string
  dg_verification_uri_complete :: "string option"
  dg_expires_in :: nat
  dg_interval :: nat

record auth_lib =
  al_io :: "nat \<Rightarrow> io_outcome"
  al_clock :: "nat \<Rightarrow> nat option"
  al_send :: "nat \<Rightarrow> http_request \<Rightarrow> http_answer"
  al_hops :: "nat \<Rightarrow> http_request \<Rightarrow> string list"
  al_lock :: "nat \<Rightarrow> bool"
  al_env :: "string \<Rightarrow> string option"
  al_macos :: bool
  al_url :: "string \<Rightarrow> parsed_url option"
  al_sha256 :: "string \<Rightarrow> string"
  al_read_session :: "string \<Rightarrow> cached_session option"
  al_print_session :: "cached_session \<Rightarrow> string"
  al_read_discovery :: "string \<Rightarrow> (nat \<times> oidc_metadata) option"
  al_print_discovery :: "nat \<times> oidc_metadata \<Rightarrow> string"
  al_read_metadata :: "string \<Rightarrow> oidc_metadata option"
  al_read_token :: "string \<Rightarrow> raw_token_response option"
  al_read_error :: "string \<Rightarrow> string option"
  al_read_toml :: "string \<Rightarrow> (string, toml_item) hmap option"
  al_print_toml :: "(string, toml_item) hmap \<Rightarrow> string"
  al_mode :: "string \<Rightarrow> nat option"
  al_ip :: "string \<Rightarrow> ip_addr option"
  al_bind :: "nat \<Rightarrow> ip_addr \<Rightarrow> nat \<Rightarrow> bool"
  al_random :: "nat \<Rightarrow> nat \<Rightarrow> string option"
  al_base64 :: "string \<Rightarrow> string"
  al_sha256_base64 :: "string \<Rightarrow> string"
  al_with_query :: "string \<Rightarrow> (string \<times> string) list \<Rightarrow> string option"
  al_accept :: "nat \<Rightarrow> string option"
  al_query :: "string \<Rightarrow> (string \<times> string) list option"
  al_read_device :: "string \<Rightarrow> device_grant option"
  al_overshoot :: "nat \<Rightarrow> nat"
  al_latency :: "nat \<Rightarrow> nat"

record auth_world =
  aw_files :: "(string, string) hmap"
  aw_calls :: nat
  aw_requests :: "http_request list"
  aw_hops :: "string list"
  aw_shown :: "string list"
  aw_pages :: "bool list"

datatype auth_error =
    No_directory
  | Io_error string
  | Clock_error
  | Lock_error
  | Bad_session string
  | No_session
  | No_refresh_token
  | Bad_url string
  | Insecure_url string
  | Other_origin string
  | Other_issuer
  | Discovery_error
  | Token_error nat "string option"
  | Revocation_error
  | Bad_config string
  | Open_permissions string
  | Two_tokens string
  | Empty_token_file string
  | Missing_settings "string list"
  | Unknown_profile string
  | Bad_callback_port nat
  | Bad_callback_bind string
  | No_exchange_client
  | No_exchange_endpoint
  | Debounce_too_long
  | Ports_in_use "nat list"
  | No_randomness
  | No_authorization_endpoint
  | No_device_endpoint
  | Device_error
  | Device_expired
  | Callback_error
  | Callback_refused string
  | State_mismatch
  | Exchange_error auth_error

type_synonym 'a auth_op = "auth_world \<Rightarrow> (auth_error + 'a) \<times> auth_world"

definition counted_call :: "auth_world \<Rightarrow> auth_world" where
  "counted_call w = w\<lparr>aw_calls := Suc (aw_calls w)\<rparr>"

definition auth_fail :: "auth_error \<Rightarrow> 'a auth_op" where
  "auth_fail e w = (Inl e, w)"

definition auth_lift :: "auth_error \<Rightarrow> 'a option \<Rightarrow> 'a auth_op" where
  "auth_lift e r w = (case r of None \<Rightarrow> (Inl e, w) | Some a \<Rightarrow> (Inr a, w))"

text \<open>What a failed call leaves to its caller, as a value.\<close>

definition attempt :: "'a auth_op \<Rightarrow> (auth_error + 'a) auth_op" where
  "attempt f w = (case f w of (r, w') \<Rightarrow> (Inr r, w'))"

text \<open>The file calls. Reading tells a file that is not there from one that cannot be read.\<close>

definition fs_read :: "auth_lib \<Rightarrow> string \<Rightarrow> string option auth_op" where
  "fs_read al path w =
     (case al_io al (aw_calls w) of
        Io_done \<Rightarrow> (Inr (map_of (aw_files w) path), counted_call w)
      | _ \<Rightarrow> (Inl (Io_error path), counted_call w))"

definition fs_present :: "auth_lib \<Rightarrow> string \<Rightarrow> bool auth_op" where
  "fs_present al path w = (Inr (al_io al (aw_calls w) = Io_done \<and> map_of (aw_files w) path \<noteq> None), counted_call w)"

definition fs_create_dir :: "auth_lib \<Rightarrow> string \<Rightarrow> unit auth_op" where
  "fs_create_dir al dir w = (if al_io al (aw_calls w) = Io_done then Inr () else Inl (Io_error dir), counted_call w)"

definition fs_write :: "auth_lib \<Rightarrow> string \<Rightarrow> string \<Rightarrow> unit auth_op" where
  "fs_write al path bytes w =
     (case al_io al (aw_calls w) of
        Io_done \<Rightarrow> (Inr (), (counted_call w)\<lparr>aw_files := AList.update path bytes (aw_files w)\<rparr>)
      | Io_refused \<Rightarrow> (Inl (Io_error path), counted_call w)
      | Io_torn part \<Rightarrow> (Inl (Io_error path), (counted_call w)\<lparr>aw_files := AList.update path part (aw_files w)\<rparr>))"

definition fs_rename :: "auth_lib \<Rightarrow> string \<Rightarrow> string \<Rightarrow> unit auth_op" where
  "fs_rename al from_path to_path w =
     (case (al_io al (aw_calls w), map_of (aw_files w) from_path) of
        (Io_done, Some bytes) \<Rightarrow>
          (Inr (), (counted_call w)\<lparr>aw_files := AList.update to_path bytes (AList.delete from_path (aw_files w))\<rparr>)
      | _ \<Rightarrow> (Inl (Io_error to_path), counted_call w))"

text \<open>Removing a file that is not there is an error of its own, which some callers forgive.\<close>

definition fs_remove :: "auth_lib \<Rightarrow> string \<Rightarrow> bool auth_op" where
  "fs_remove al path w =
     (if al_io al (aw_calls w) = Io_done
      then (Inr (map_of (aw_files w) path \<noteq> None), (counted_call w)\<lparr>aw_files := AList.delete path (aw_files w)\<rparr>)
      else (Inl (Io_error path), counted_call w))"

definition auth_now :: "auth_lib \<Rightarrow> nat auth_op" where
  "auth_now al w = (case al_clock al (aw_calls w) of None \<Rightarrow> (Inl Clock_error, counted_call w) | Some x \<Rightarrow> (Inr x, counted_call w))"

text \<open>The addresses a credential may be sent to over the wire, which every hop of a redirected request has to be one of.\<close>

definition is_loopback :: "url_host \<Rightarrow> bool" where
  "is_loopback h =
     (case h of
        Domain d \<Rightarrow> eq_ignore_ascii_case d ''localhost''
      | Ipv4 a _ _ _ \<Rightarrow> a = 127
      | Ipv6 n \<Rightarrow> n = 1)"

definition require_secure :: "parsed_url \<Rightarrow> bool" where
  "require_secure u \<longleftrightarrow> ur_scheme u = ''https'' \<or>
     ur_scheme u = ''http'' \<and> (case ur_host u of None \<Rightarrow> False | Some h \<Rightarrow> is_loopback h)"

definition redirect_policy :: "auth_lib \<Rightarrow> string \<Rightarrow> bool" where
  "redirect_policy al address = (case al_url al address of None \<Rightarrow> False | Some u \<Rightarrow> require_secure u)"

text \<open>A request, with the addresses its redirects lead to. A hop the policy refuses ends the request with an error.\<close>

definition http_send :: "auth_lib \<Rightarrow> http_request \<Rightarrow> http_answer auth_op" where
  "http_send al rq w =
     (let hops = al_hops al (aw_calls w) rq; followed = takeWhile (redirect_policy al) hops
      in (Inr (if followed = hops then al_send al (aw_calls w) rq else No_reply),
          (counted_call w)\<lparr>aw_requests := aw_requests w @ [rq], aw_hops := aw_hops w @ followed\<rparr>))"

definition acquire_lock :: "auth_lib \<Rightarrow> unit auth_op" where
  "acquire_lock al w = (if al_lock al (aw_calls w) then Inr () else Inl Lock_error, counted_call w)"

section \<open>Paths\<close>

definition path_join :: "string \<Rightarrow> string \<Rightarrow> string" where
  "path_join p q = (if p = [] then q else if last p = CHR ''/'' then p @ q else p @ ''/'' @ q)"

definition base_dir :: "auth_lib \<Rightarrow> string \<Rightarrow> string list \<Rightarrow> string list \<Rightarrow> auth_error + string" where
  "base_dir al var macos_dirs other_dirs =
     (case al_env al var of
        Some (c # cs) \<Rightarrow> Inr (path_join (c # cs) ''governance-auth'')
      | _ \<Rightarrow>
          (case al_env al ''HOME'' of
             None \<Rightarrow> Inl No_directory
           | Some home \<Rightarrow>
               Inr (path_join (foldl path_join home (if al_macos al then macos_dirs else other_dirs)) ''governance-auth'')))"

definition of_res :: "auth_error + 'a \<Rightarrow> 'a auth_op" where
  "of_res r w = (r, w)"

end
