(* ===== verification/Auth_Config.thy ===== *)
theory Auth_Config
  imports Auth_World
begin

text \<open>
  The settings of the command line tool (\<open>app/governance-auth/src\<close>): the two configuration files (\<open>config_file/\<close>), their
  layering under flags and environment (\<open>config/mod.rs\<close>, \<open>config/token_exchange.rs\<close>), the telemetry profile
  (\<open>profile.rs\<close>, \<open>oauth/telemetry_wiring/\<close>), the ports of the browser callback (\<open>oauth/callback_port/\<close>), and the
  writing back of what a login used (\<open>config_persist/\<close>).

  A TOML document is its top-level table; comments and the order of keys are not kept. The flags arrive as clap leaves them, one
  option per setting, with the environment folded in.
\<close>

section \<open>The telemetry profile\<close>

datatype profile = Daemon | Manual

definition profile_as_str :: "profile \<Rightarrow> string" where
  "profile_as_str p = (case p of Daemon \<Rightarrow> ''daemon'' | Manual \<Rightarrow> ''manual'')"

definition profile_default :: profile where
  "profile_default = Manual"

definition profile_from_str :: "string \<Rightarrow> auth_error + profile" where
  "profile_from_str s =
     (if s = ''daemon'' then Inr Daemon else if s = ''manual'' then Inr Manual else Inl (Unknown_profile s))"

section \<open>Ports of the browser callback\<close>

definition CALLBACK_PORTS :: "nat list" where
  "CALLBACK_PORTS = [17452, 17453, 17454, 17455, 17456]"

definition DEFAULT_BIND :: ip_addr where
  "DEFAULT_BIND = V4 127 0 0 1"

definition validate_port :: "nat \<Rightarrow> auth_error + unit" where
  "validate_port port = (if port \<in> set CALLBACK_PORTS then Inr () else Inl (Bad_callback_port port))"

section \<open>Configuration files\<close>

type_synonym toml_table = "(string, toml_item) hmap"

record config_file =
  cf_issuer :: "string option"
  cf_client_id :: "string option"
  cf_scopes :: "string option"
  cf_audience :: "string option"
  cf_otel_endpoint :: "string option"
  cf_otel_token :: "string option"
  cf_otel_token_file :: "string option"
  cf_gateway_url :: "string option"
  cf_profile :: "string option"
  cf_copilot_spool_path :: "string option"
  cf_otel_headers_debounce_ms :: "nat option"
  cf_open_browser :: "bool option"
  cf_token_exchange :: "bool option"
  cf_exchange_issuer :: "string option"
  cf_exchange_token_endpoint :: "string option"
  cf_exchange_client_id :: "string option"
  cf_exchange_scopes :: "string option"
  cf_no_claude :: "bool option"
  cf_no_codex :: "bool option"
  cf_no_vscode :: "bool option"
  cf_codex_telemetry_only :: "bool option"
  cf_callback_port :: "nat option"
  cf_callback_bind :: "string option"

definition string_keys :: "string list" where
  "string_keys = [''issuer'', ''client_id'', ''scopes'', ''audience'', ''otel_endpoint'', ''otel_token'', ''otel_token_file'',
     ''gateway_url'', ''profile'', ''copilot_spool_path'', ''exchange_issuer'', ''exchange_token_endpoint'',
     ''exchange_client_id'', ''exchange_scopes'', ''callback_bind'']"

definition bool_keys :: "string list" where
  "bool_keys = [''open_browser'', ''token_exchange'', ''no_claude'', ''no_codex'', ''no_vscode'', ''codex_telemetry_only'']"

text \<open>A key of the file is known and its item has the type of the field: \<open>deny_unknown_fields\<close>, \<open>u64\<close> and \<open>u16\<close>.\<close>

definition item_ok :: "string \<times> toml_item \<Rightarrow> bool" where
  "item_ok entry \<longleftrightarrow>
     (case snd entry of
        T_string _ \<Rightarrow> fst entry \<in> set string_keys
      | T_bool _ \<Rightarrow> fst entry \<in> set bool_keys
      | T_int n \<Rightarrow>
          fst entry = ''otel_headers_debounce_ms'' \<and> 0 \<le> n \<or> fst entry = ''callback_port'' \<and> 0 \<le> n \<and> n < 65536
      | T_other \<Rightarrow> False)"

definition get_str :: "toml_table \<Rightarrow> string \<Rightarrow> string option" where
  "get_str t key = (case map_of t key of Some (T_string s) \<Rightarrow> Some s | _ \<Rightarrow> None)"

definition get_bool :: "toml_table \<Rightarrow> string \<Rightarrow> bool option" where
  "get_bool t key = (case map_of t key of Some (T_bool b) \<Rightarrow> Some b | _ \<Rightarrow> None)"

definition get_nat :: "toml_table \<Rightarrow> string \<Rightarrow> nat option" where
  "get_nat t key = (case map_of t key of Some (T_int n) \<Rightarrow> Some (nat n) | _ \<Rightarrow> None)"

definition config_of_table :: "toml_table \<Rightarrow> config_file option" where
  "config_of_table t =
     (if list_all item_ok t
      then Some \<lparr>cf_issuer = get_str t ''issuer'', cf_client_id = get_str t ''client_id'', cf_scopes = get_str t ''scopes'',
        cf_audience = get_str t ''audience'', cf_otel_endpoint = get_str t ''otel_endpoint'',
        cf_otel_token = get_str t ''otel_token'', cf_otel_token_file = get_str t ''otel_token_file'',
        cf_gateway_url = get_str t ''gateway_url'', cf_profile = get_str t ''profile'',
        cf_copilot_spool_path = get_str t ''copilot_spool_path'',
        cf_otel_headers_debounce_ms = get_nat t ''otel_headers_debounce_ms'',
        cf_open_browser = get_bool t ''open_browser'', cf_token_exchange = get_bool t ''token_exchange'',
        cf_exchange_issuer = get_str t ''exchange_issuer'',
        cf_exchange_token_endpoint = get_str t ''exchange_token_endpoint'',
        cf_exchange_client_id = get_str t ''exchange_client_id'', cf_exchange_scopes = get_str t ''exchange_scopes'',
        cf_no_claude = get_bool t ''no_claude'', cf_no_codex = get_bool t ''no_codex'', cf_no_vscode = get_bool t ''no_vscode'',
        cf_codex_telemetry_only = get_bool t ''codex_telemetry_only'', cf_callback_port = get_nat t ''callback_port'',
        cf_callback_bind = get_str t ''callback_bind''\<rparr>
      else None)"

definition MACHINE_CONFIG_PATH :: string where
  "MACHINE_CONFIG_PATH = ''/etc/governance-auth/config.toml''"

definition per_user_config_path :: "auth_lib \<Rightarrow> auth_error + string" where
  "per_user_config_path al =
     res_bind (base_dir al ''XDG_CONFIG_HOME'' [''.config''] [''.config'']) (\<lambda>d. Inr (path_join d ''config.toml''))"

definition refuse_if_group_or_other_readable :: "auth_lib \<Rightarrow> string \<Rightarrow> unit auth_op" where
  "refuse_if_group_or_other_readable al path =
     (case al_mode al path of
        None \<Rightarrow> auth_fail (Io_error path)
      | Some mode \<Rightarrow> if mode mod 64 \<noteq> 0 then auth_fail (Open_permissions path) else db_return ())"

definition read_token_file :: "auth_lib \<Rightarrow> string \<Rightarrow> string auth_op" where
  "read_token_file al path =
     db_bind (refuse_if_group_or_other_readable al path) (\<lambda>_.
     db_bind (fs_read al path) (\<lambda>found.
       case found of
         None \<Rightarrow> auth_fail (Io_error path)
       | Some bytes \<Rightarrow>
           (if \<not> valid_utf8 bytes then auth_fail (Io_error path)
            else let token = trim_end_matches (\<lambda>ch. ch = newline \<or> ch = CHR 0x0D) bytes in
              if token = [] then auth_fail (Empty_token_file path) else db_return token)))"

definition file_otel_token :: "auth_lib \<Rightarrow> config_file option \<Rightarrow> string \<Rightarrow> string option auth_op" where
  "file_otel_token al file source =
     (case file of
        None \<Rightarrow> db_return None
      | Some cf \<Rightarrow>
          (case (cf_otel_token cf, cf_otel_token_file cf) of
             (Some _, Some _) \<Rightarrow> auth_fail (Two_tokens source)
           | (Some token, None) \<Rightarrow> db_return (Some token)
           | (None, Some path) \<Rightarrow> db_bind (read_token_file al path) (\<lambda>token. db_return (Some token))
           | (None, None) \<Rightarrow> db_return None))"

definition load_config :: "auth_lib \<Rightarrow> string \<Rightarrow> config_file option auth_op" where
  "load_config al path =
     db_bind (fs_read al path) (\<lambda>found.
       case found of
         None \<Rightarrow> db_return None
       | Some bytes \<Rightarrow>
           (case Option.bind (al_read_toml al bytes) config_of_table of
              None \<Rightarrow> auth_fail (Bad_config path)
            | Some cf \<Rightarrow>
                db_bind (if cf_otel_token cf \<noteq> None then refuse_if_group_or_other_readable al path else db_return ()) (\<lambda>_.
                  db_return (Some cf))))"

section \<open>Resolution\<close>

datatype exchange_endpoint = Explicit string | Issuer string

record exchange_config =
  xc_endpoint :: exchange_endpoint
  xc_client_id :: string
  xc_scopes :: "string option"

record oauth_args =
  oa_issuer :: "string option"
  oa_client_id :: "string option"
  oa_scopes :: "string option"
  oa_audience :: "string option"
  oa_otel_endpoint :: "string option"
  oa_otel_token :: "string option"
  oa_gateway_url :: "string option"
  oa_profile :: "string option"
  oa_copilot_spool_path :: "string option"
  oa_otel_headers_debounce_ms :: "nat option"
  oa_open_browser :: "bool option"
  oa_callback_port :: "nat option"
  oa_callback_bind :: "string option"
  oa_token_exchange :: "bool option"
  oa_exchange_issuer :: "string option"
  oa_exchange_token_endpoint :: "string option"
  oa_exchange_client_id :: "string option"
  oa_exchange_scopes :: "string option"

record oauth_config =
  oc_issuer :: string
  oc_client_id :: string
  oc_scopes :: string
  oc_audience :: "string option"
  oc_otel_endpoint :: "string option"
  oc_otel_token :: "string option"
  oc_gateway_url :: "string option"
  oc_profile :: profile
  oc_profile_explicit :: "profile option"
  oc_copilot_spool_path :: "string option"
  oc_debounce_ms :: nat
  oc_open_browser :: bool
  oc_callback_port :: "nat option"
  oc_callback_bind :: ip_addr
  oc_exchange :: "exchange_config option"
  oc_last_no_claude :: bool
  oc_last_no_codex :: bool
  oc_last_no_vscode :: bool
  oc_last_codex_telemetry_only :: bool

definition DEFAULT_SCOPES :: string where
  "DEFAULT_SCOPES = ''openid profile offline_access''"

definition DEFAULT_OTEL_HEADERS_DEBOUNCE_MS :: nat where
  "DEFAULT_OTEL_HEADERS_DEBOUNCE_MS = 240000"

definition unwrap_or :: "'a \<Rightarrow> 'a option \<Rightarrow> 'a" where
  "unwrap_or d r = (case r of None \<Rightarrow> d | Some a \<Rightarrow> a)"

text \<open>A setting from its flag, else the user's file, else the machine's file.\<close>

definition layered :: "'a option \<Rightarrow> (config_file \<Rightarrow> 'a option) \<Rightarrow> config_file option \<Rightarrow> config_file option \<Rightarrow> 'a option" where
  "layered flag get user machine =
     (case flag of
        Some v \<Rightarrow> Some v
      | None \<Rightarrow> (case Option.bind user get of Some v \<Rightarrow> Some v | None \<Rightarrow> Option.bind machine get))"

definition parse_url :: "auth_lib \<Rightarrow> string \<Rightarrow> string \<Rightarrow> auth_error + string" where
  "parse_url al label raw =
     (case al_url al raw of
        None \<Rightarrow> Inl (Bad_url label)
      | Some u \<Rightarrow> if require_secure u then Inr raw else Inl (Insecure_url label))"

definition parse_issuer :: "auth_lib \<Rightarrow> string \<Rightarrow> auth_error + string" where
  "parse_issuer al = parse_url al ''issuer''"

definition parse_exchange_token_endpoint :: "auth_lib \<Rightarrow> string \<Rightarrow> auth_error + string" where
  "parse_exchange_token_endpoint al = parse_url al ''endpoint''"

definition parse_callback_bind :: "auth_lib \<Rightarrow> string \<Rightarrow> auth_error + ip_addr" where
  "parse_callback_bind al raw = (case al_ip al raw of None \<Rightarrow> Inl (Bad_callback_bind raw) | Some ip \<Rightarrow> Inr ip)"

text \<open>\<open>Option::map(..).transpose()\<close>.\<close>

definition transpose_map :: "('a \<Rightarrow> auth_error + 'b) \<Rightarrow> 'a option \<Rightarrow> auth_error + 'b option" where
  "transpose_map f r = (case r of None \<Rightarrow> Inr None | Some a \<Rightarrow> res_bind (f a) (\<lambda>b. Inr (Some b)))"

definition exchange_resolve ::
  "auth_lib \<Rightarrow> oauth_args \<Rightarrow> config_file option \<Rightarrow> config_file option \<Rightarrow> auth_error + exchange_config option" where
  "exchange_resolve al args user machine =
     (if \<not> unwrap_or False (layered (oa_token_exchange args) cf_token_exchange user machine) then Inr None
      else
        res_bind (transpose_map (parse_issuer al) (layered (oa_exchange_issuer args) cf_exchange_issuer user machine)) (\<lambda>issuer.
        res_bind (transpose_map (parse_exchange_token_endpoint al)
            (layered (oa_exchange_token_endpoint args) cf_exchange_token_endpoint user machine)) (\<lambda>endpoint.
          case layered (oa_exchange_client_id args) cf_exchange_client_id user machine of
            None \<Rightarrow> Inl No_exchange_client
          | Some client_id \<Rightarrow>
              (let scopes = layered (oa_exchange_scopes args) cf_exchange_scopes user machine in
               case (endpoint, issuer) of
                 (Some e, _) \<Rightarrow> Inr (Some \<lparr>xc_endpoint = Explicit e, xc_client_id = client_id, xc_scopes = scopes\<rparr>)
               | (None, Some i) \<Rightarrow> Inr (Some \<lparr>xc_endpoint = Issuer i, xc_client_id = client_id, xc_scopes = scopes\<rparr>)
               | (None, None) \<Rightarrow> Inl No_exchange_endpoint))))"

definition required_settings ::
  "oauth_args \<Rightarrow> config_file option \<Rightarrow> config_file option \<Rightarrow> auth_error + string \<times> string" where
  "required_settings args user machine =
     (case (layered (oa_issuer args) cf_issuer user machine, layered (oa_client_id args) cf_client_id user machine) of
        (Some issuer, Some client_id) \<Rightarrow> Inr (issuer, client_id)
      | (issuer, client_id) \<Rightarrow>
          Inl (Missing_settings ((if issuer = None then [''--issuer''] else []) @
            (if client_id = None then [''--client-id''] else []))))"

definition valid_port :: "nat option \<Rightarrow> auth_error + unit" where
  "valid_port port = (case port of None \<Rightarrow> Inr () | Some p \<Rightarrow> validate_port p)"

definition config_of_layers ::
  "oauth_args \<Rightarrow> config_file option \<Rightarrow> config_file option \<Rightarrow> string \<times> string \<Rightarrow> string option \<times> string option \<Rightarrow>
     string option \<Rightarrow> string option \<Rightarrow> profile option \<Rightarrow> exchange_config option \<Rightarrow> ip_addr option \<Rightarrow> oauth_config" where
  "config_of_layers args user machine required tokens otel_endpoint gateway_url profile_explicit exchange bind =
     \<lparr>oc_issuer = fst required, oc_client_id = snd required,
      oc_scopes = unwrap_or DEFAULT_SCOPES (layered (oa_scopes args) cf_scopes user machine),
      oc_audience = layered (oa_audience args) cf_audience user machine,
      oc_otel_endpoint = otel_endpoint,
      oc_otel_token = (case oa_otel_token args of
          Some token \<Rightarrow> Some token
        | None \<Rightarrow> (case fst tokens of Some token \<Rightarrow> Some token | None \<Rightarrow> snd tokens)),
      oc_gateway_url = gateway_url,
      oc_profile = unwrap_or profile_default profile_explicit, oc_profile_explicit = profile_explicit,
      oc_copilot_spool_path = layered (oa_copilot_spool_path args) cf_copilot_spool_path user machine,
      oc_debounce_ms = unwrap_or DEFAULT_OTEL_HEADERS_DEBOUNCE_MS
        (layered (oa_otel_headers_debounce_ms args) cf_otel_headers_debounce_ms user machine),
      oc_open_browser = unwrap_or False (layered (oa_open_browser args) cf_open_browser user machine),
      oc_callback_port = layered (oa_callback_port args) cf_callback_port user machine,
      oc_callback_bind = unwrap_or DEFAULT_BIND bind, oc_exchange = exchange,
      oc_last_no_claude = unwrap_or False (layered None cf_no_claude user machine),
      oc_last_no_codex = unwrap_or False (layered None cf_no_codex user machine),
      oc_last_no_vscode = unwrap_or False (layered None cf_no_vscode user machine),
      oc_last_codex_telemetry_only = unwrap_or False (layered None cf_codex_telemetry_only user machine)\<rparr>"

definition resolve_layers ::
  "auth_lib \<Rightarrow> oauth_args \<Rightarrow> config_file option \<Rightarrow> string \<Rightarrow> config_file option \<Rightarrow> string \<Rightarrow> oauth_config auth_op" where
  "resolve_layers al args user user_path machine machine_path =
     db_bind (of_res (required_settings args user machine)) (\<lambda>required.
     db_bind (of_res (parse_issuer al (fst required))) (\<lambda>issuer.
     db_bind (of_res (transpose_map (parse_issuer al) (layered (oa_otel_endpoint args) cf_otel_endpoint user machine))) (\<lambda>otel_endpoint.
     db_bind (file_otel_token al user user_path) (\<lambda>user_token.
     db_bind (file_otel_token al machine machine_path) (\<lambda>machine_token.
     db_bind (of_res (transpose_map (parse_issuer al) (layered (oa_gateway_url args) cf_gateway_url user machine))) (\<lambda>gateway_url.
     db_bind (of_res (transpose_map profile_from_str (layered (oa_profile args) cf_profile user machine))) (\<lambda>profile_explicit.
     db_bind (of_res (exchange_resolve al args user machine)) (\<lambda>exchange.
     db_bind (of_res (valid_port (layered (oa_callback_port args) cf_callback_port user machine))) (\<lambda>_.
     db_bind (of_res (transpose_map (parse_callback_bind al)
         (layered (oa_callback_bind args) cf_callback_bind user machine))) (\<lambda>bind.
       db_return (config_of_layers args user machine (issuer, snd required) (user_token, machine_token)
         otel_endpoint gateway_url profile_explicit exchange bind)))))))))))"

definition resolve_with_paths :: "auth_lib \<Rightarrow> oauth_args \<Rightarrow> string \<Rightarrow> string \<Rightarrow> oauth_config auth_op" where
  "resolve_with_paths al args user_path machine_path =
     db_bind (load_config al user_path) (\<lambda>user.
     db_bind (load_config al machine_path) (\<lambda>machine.
       resolve_layers al args user user_path machine machine_path))"

definition resolve_config :: "auth_lib \<Rightarrow> oauth_args \<Rightarrow> oauth_config auth_op" where
  "resolve_config al args =
     db_bind (of_res (per_user_config_path al)) (\<lambda>user_path. resolve_with_paths al args user_path MACHINE_CONFIG_PATH)"

section \<open>Writing back\<close>

record client_opt_out =
  co_claude :: bool
  co_codex :: bool
  co_codex_telemetry_only :: bool
  co_vscode :: bool

definition toml_set :: "string \<Rightarrow> toml_item \<Rightarrow> toml_table \<Rightarrow> toml_table" where
  "toml_set key item t = AList.update key item t"

definition toml_clear :: "string \<Rightarrow> toml_table \<Rightarrow> toml_table" where
  "toml_clear key t = AList.delete key t"

definition set_or_clear :: "string \<Rightarrow> string option \<Rightarrow> toml_table \<Rightarrow> toml_table" where
  "set_or_clear key r t = (case r of None \<Rightarrow> toml_clear key t | Some s \<Rightarrow> toml_set key (T_string s) t)"

definition remember_exchange :: "exchange_config option \<Rightarrow> toml_table \<Rightarrow> toml_table" where
  "remember_exchange exchange t =
     (case exchange of
        None \<Rightarrow>
          foldl (\<lambda>d key. toml_clear key d) t [''token_exchange'', ''exchange_issuer'', ''exchange_token_endpoint'',
            ''exchange_client_id'', ''exchange_scopes'']
      | Some xc \<Rightarrow>
          (let t1 = toml_set ''token_exchange'' (T_bool True) t;
               t2 = toml_set ''exchange_client_id'' (T_string (xc_client_id xc)) t1;
               t3 = set_or_clear ''exchange_scopes'' (xc_scopes xc) t2
           in case xc_endpoint xc of
                Explicit url \<Rightarrow> toml_clear ''exchange_issuer'' (toml_set ''exchange_token_endpoint'' (T_string url) t3)
              | Issuer url \<Rightarrow> toml_clear ''exchange_token_endpoint'' (toml_set ''exchange_issuer'' (T_string url) t3)))"

definition remember_table :: "oauth_config \<Rightarrow> client_opt_out \<Rightarrow> toml_table \<Rightarrow> toml_table" where
  "remember_table cfg optout t =
     (let t1 = toml_set ''issuer'' (T_string (oc_issuer cfg)) t;
          t2 = toml_set ''client_id'' (T_string (oc_client_id cfg)) t1;
          t3 = toml_set ''scopes'' (T_string (oc_scopes cfg)) t2;
          t4 = toml_set ''otel_headers_debounce_ms'' (T_int (int (oc_debounce_ms cfg))) t3;
          t5 = toml_set ''open_browser'' (T_bool (oc_open_browser cfg)) t4;
          t6 = toml_set ''no_claude'' (T_bool (co_claude optout)) t5;
          t7 = toml_set ''no_codex'' (T_bool (co_codex optout)) t6;
          t8 = toml_set ''no_vscode'' (T_bool (co_vscode optout)) t7;
          t9 = toml_set ''codex_telemetry_only'' (T_bool (co_codex_telemetry_only optout)) t8;
          t10 = set_or_clear ''audience'' (oc_audience cfg) t9;
          t11 = set_or_clear ''otel_endpoint'' (oc_otel_endpoint cfg) t10;
          t12 = set_or_clear ''gateway_url'' (oc_gateway_url cfg) t11;
          t13 = set_or_clear ''profile'' (map_option profile_as_str (oc_profile_explicit cfg)) t12;
          t14 = set_or_clear ''copilot_spool_path'' (oc_copilot_spool_path cfg) t13
      in remember_exchange (oc_exchange cfg) t14)"

text \<open>The debounce has to fit the signed integer of TOML; the directory is created before the file is written.\<close>

definition remember :: "auth_lib \<Rightarrow> oauth_config \<Rightarrow> client_opt_out \<Rightarrow> string \<Rightarrow> unit auth_op" where
  "remember al cfg optout path =
     db_bind (fs_read al path) (\<lambda>found.
       case al_read_toml al (unwrap_or [] found) of
         None \<Rightarrow> auth_fail (Bad_config path)
       | Some t \<Rightarrow>
           (if oc_debounce_ms cfg \<ge> 2 ^ 63 then auth_fail Debounce_too_long
            else
              db_bind (fs_create_dir al path) (\<lambda>_.
                fs_write al path (al_print_toml al (remember_table cfg optout t)))))"

section \<open>Telemetry wiring\<close>

record telemetry_wiring =
  tw_endpoint :: "string option"
  tw_token :: "string option"
  tw_wants_headers_helper :: bool
  tw_copilot_drain_available :: bool
  tw_copilot_otlp_direct :: bool

definition OTEL_LOOPBACK_ENDPOINT :: string where
  "OTEL_LOOPBACK_ENDPOINT = ''http://127.0.0.1:17457''"

definition wiring_resolve :: "oauth_config \<Rightarrow> telemetry_wiring" where
  "wiring_resolve cfg =
     (let is_daemon = (oc_profile cfg = Daemon)
      in \<lparr>tw_endpoint = map_option (\<lambda>real. if is_daemon then OTEL_LOOPBACK_ENDPOINT else real) (oc_otel_endpoint cfg),
          tw_token = (if is_daemon then None else oc_otel_token cfg),
          tw_wants_headers_helper = (\<not> is_daemon),
          tw_copilot_drain_available = (\<not> is_daemon \<and> oc_otel_endpoint cfg \<noteq> None),
          tw_copilot_otlp_direct = (is_daemon \<and> oc_otel_endpoint cfg \<noteq> None)\<rparr>)"

end
