(* ===== verification/Auth_Session.thy ===== *)
theory Auth_Session
  imports Auth_Config
begin

text \<open>
  The session of the developer's machine (\<open>app/governance-auth/src\<close>): where it is kept (\<open>cache.rs\<close>), when it still
  counts as usable (\<open>freshness.rs\<close>), which endpoints are trusted (\<open>oauth/discovery.rs\<close>), how it is renewed and exchanged
  (\<open>oauth/token_endpoint.rs\<close>, \<open>oauth/refresh.rs\<close>, \<open>oauth/exchange.rs\<close>), and the commands over it (\<open>oauth/mod.rs\<close>).
\<close>

section \<open>Paths\<close>

definition state_dir :: "auth_lib \<Rightarrow> auth_error + string" where
  "state_dir al = base_dir al ''XDG_STATE_HOME'' [''Library'', ''Application Support''] [''.local'', ''state'']"

definition cache_dir :: "auth_lib \<Rightarrow> auth_error + string" where
  "cache_dir al = base_dir al ''XDG_CACHE_HOME'' [''Library'', ''Caches''] [''.cache'']"

definition session_key :: "auth_lib \<Rightarrow> string \<Rightarrow> string \<Rightarrow> string" where
  "session_key al issuer client_id = al_sha256 al (issuer @ CHR 0x00 # client_id)"

definition session_path :: "auth_lib \<Rightarrow> string \<Rightarrow> string \<Rightarrow> auth_error + string" where
  "session_path al issuer client_id =
     res_bind (state_dir al) (\<lambda>d. Inr (path_join d (session_key al issuer client_id @ ''.json'')))"

definition legacy_session_path :: "auth_lib \<Rightarrow> string \<Rightarrow> string \<Rightarrow> auth_error + string" where
  "legacy_session_path al issuer client_id =
     res_bind (cache_dir al) (\<lambda>d. Inr (path_join d (session_key al issuer client_id @ ''.json'')))"

text \<open>\<open>with_extension("json.tmp")\<close> of a path that ends in \<open>.json\<close>.\<close>

definition tmp_path :: "string \<Rightarrow> string" where
  "tmp_path path = path @ ''.tmp''"

section \<open>The store\<close>

definition read_session :: "auth_lib \<Rightarrow> string \<Rightarrow> cached_session option auth_op" where
  "read_session al path =
     db_bind (fs_read al path) (\<lambda>found.
       case found of
         None \<Rightarrow> db_return None
       | Some bytes \<Rightarrow>
           (case al_read_session al bytes of
              None \<Rightarrow> auth_fail (Bad_session path)
            | Some s \<Rightarrow> db_return (Some s)))"

definition migrate_legacy_session :: "auth_lib \<Rightarrow> string \<Rightarrow> string \<Rightarrow> unit auth_op" where
  "migrate_legacy_session al legacy target =
     db_bind (fs_read al legacy) (\<lambda>found.
       case found of
         None \<Rightarrow> auth_fail (Io_error legacy)
       | Some bytes \<Rightarrow>
           db_bind (fs_create_dir al target) (\<lambda>_.
           db_bind (fs_write al (tmp_path target) bytes) (\<lambda>_.
           db_bind (fs_rename al (tmp_path target) target) (\<lambda>_.
           db_bind (fs_read al target) (\<lambda>again.
             case again of
               None \<Rightarrow> auth_fail (Io_error target)
             | Some _ \<Rightarrow>
                 db_bind (fs_remove al legacy) (\<lambda>was_there.
                   if was_there then db_return () else auth_fail (Io_error legacy)))))))"

definition load_session :: "auth_lib \<Rightarrow> string \<Rightarrow> string \<Rightarrow> cached_session option auth_op" where
  "load_session al issuer client_id =
     db_bind (of_res (session_path al issuer client_id)) (\<lambda>path.
     db_bind (fs_present al path) (\<lambda>here.
       if here then read_session al path
       else case legacy_session_path al issuer client_id of
         Inl _ \<Rightarrow> read_session al path
       | Inr legacy \<Rightarrow>
           db_bind (fs_present al legacy) (\<lambda>old.
             if \<not> old then read_session al path
             else db_bind (attempt (migrate_legacy_session al legacy path)) (\<lambda>moved.
               case moved of
                 Inr _ \<Rightarrow> read_session al path
               | Inl _ \<Rightarrow> read_session al legacy))))"

definition store_session :: "auth_lib \<Rightarrow> cached_session \<Rightarrow> unit auth_op" where
  "store_session al s =
     db_bind (of_res (state_dir al)) (\<lambda>dir.
     db_bind (fs_create_dir al dir) (\<lambda>_.
     db_bind (of_res (session_path al (se_issuer s) (se_client_id s))) (\<lambda>path.
     db_bind (attempt (db_bind (fs_write al (tmp_path path) (al_print_session al s)) (\<lambda>_. fs_rename al (tmp_path path) path))) (\<lambda>put.
       case put of
         Inr _ \<Rightarrow> db_return ()
       | Inl e \<Rightarrow> db_bind (attempt (fs_remove al (tmp_path path))) (\<lambda>_. auth_fail e)))))"

definition clear_session :: "auth_lib \<Rightarrow> string \<Rightarrow> string \<Rightarrow> unit auth_op" where
  "clear_session al issuer client_id =
     db_bind (of_res (session_path al issuer client_id)) (\<lambda>path.
     db_bind (of_res (legacy_session_path al issuer client_id)) (\<lambda>legacy.
     db_bind (fs_remove al path) (\<lambda>_. db_bind (fs_remove al legacy) (\<lambda>_. db_return ()))))"

section \<open>Freshness\<close>

definition SKEW_SECONDS :: nat where
  "SKEW_SECONDS = 30"

datatype freshness = Skew | OutlivesCache nat

definition for_helper :: "nat \<Rightarrow> freshness" where
  "for_helper debounce_ms = OutlivesCache (debounce_ms div 1000)"

definition required_remaining_secs :: "freshness \<Rightarrow> cached_session \<Rightarrow> nat" where
  "required_remaining_secs f s =
     (case f of
        Skew \<Rightarrow> SKEW_SECONDS
      | OutlivesCache window_secs \<Rightarrow>
          (let req = sat_add window_secs SKEW_SECONDS in
           case se_lifetime s of
             None \<Rightarrow> req
           | Some lifetime \<Rightarrow> (let cap = max (lifetime div 2) SKEW_SECONDS in if req \<le> cap then req else cap)))"

definition is_fresh_for :: "auth_lib \<Rightarrow> cached_session \<Rightarrow> nat \<Rightarrow> bool auth_op" where
  "is_fresh_for al s min_remaining = db_bind (auth_now al) (\<lambda>x. db_return (se_expires_at s > sat_add x min_remaining))"

section \<open>Trusted servers\<close>

text \<open>\<open>Url::origin\<close> of an http or https URL.\<close>

definition url_origin :: "parsed_url \<Rightarrow> string \<times> url_host option \<times> nat" where
  "url_origin u = (ur_scheme u, ur_host u, ur_port u)"

definition require_same_origin :: "auth_lib \<Rightarrow> parsed_url \<Rightarrow> string \<Rightarrow> string \<Rightarrow> auth_error + unit" where
  "require_same_origin al issuer_url endpoint field =
     (case al_url al endpoint of
        None \<Rightarrow> Inl (Bad_url field)
      | Some u \<Rightarrow>
          (if \<not> require_secure u then Inl (Insecure_url field)
           else if url_origin u \<noteq> url_origin issuer_url then Inl (Other_origin field)
           else Inr ()))"

definition same_origin_if :: "auth_lib \<Rightarrow> parsed_url \<Rightarrow> string option \<Rightarrow> string \<Rightarrow> auth_error + unit" where
  "same_origin_if al issuer_url endpoint field =
     (case endpoint of None \<Rightarrow> Inr () | Some e \<Rightarrow> require_same_origin al issuer_url e field)"

definition trim_slashes :: "string \<Rightarrow> string" where
  "trim_slashes s = rev (dropWhile (\<lambda>ch. ch = CHR ''/'') (rev s))"

definition validate_metadata :: "auth_lib \<Rightarrow> string \<Rightarrow> parsed_url \<Rightarrow> oidc_metadata \<Rightarrow> auth_error + unit" where
  "validate_metadata al issuer issuer_url m =
     (if trim_slashes (om_issuer m) \<noteq> issuer then Inl Other_issuer
      else
        res_bind (same_origin_if al issuer_url (om_authorization m) ''authorization_endpoint'') (\<lambda>_.
        res_bind (require_same_origin al issuer_url (om_token m) ''token_endpoint'') (\<lambda>_.
        res_bind (same_origin_if al issuer_url (om_device m) ''device_authorization_endpoint'') (\<lambda>_.
          same_origin_if al issuer_url (om_revocation m) ''revocation_endpoint''))))"

definition DISCOVERY_TTL :: nat where
  "DISCOVERY_TTL = 24 * 60 * 60"

definition discovery_cache_path :: "auth_lib \<Rightarrow> string \<Rightarrow> auth_error + string" where
  "discovery_cache_path al issuer =
     res_bind (cache_dir al) (\<lambda>d. Inr (path_join d (''discovery-'' @ al_sha256 al issuer @ ''.json'')))"

definition discovery_now :: "auth_lib \<Rightarrow> nat auth_op" where
  "discovery_now al w = (Inr (case al_clock al (aw_calls w) of None \<Rightarrow> 0 | Some x \<Rightarrow> x), counted_call w)"

definition load_cached :: "auth_lib \<Rightarrow> string \<Rightarrow> parsed_url \<Rightarrow> oidc_metadata option auth_op" where
  "load_cached al issuer issuer_url =
     (case discovery_cache_path al issuer of
        Inl _ \<Rightarrow> db_return None
      | Inr path \<Rightarrow>
          db_bind (attempt (fs_read al path)) (\<lambda>found.
            case found of
              Inr (Some bytes) \<Rightarrow>
                (case al_read_discovery al bytes of
                   None \<Rightarrow> db_return None
                 | Some (fetched_at, m) \<Rightarrow>
                     db_bind (discovery_now al) (\<lambda>x.
                       if x - fetched_at > DISCOVERY_TTL then db_return None
                       else case validate_metadata al issuer issuer_url m of
                         Inl _ \<Rightarrow> db_return None
                       | Inr _ \<Rightarrow> db_return (Some m)))
            | _ \<Rightarrow> db_return None))"

definition store_cached :: "auth_lib \<Rightarrow> string \<Rightarrow> oidc_metadata \<Rightarrow> unit auth_op" where
  "store_cached al issuer m =
     (case discovery_cache_path al issuer of
        Inl _ \<Rightarrow> db_return ()
      | Inr path \<Rightarrow>
          db_bind (attempt (fs_create_dir al path)) (\<lambda>made.
            case made of
              Inl _ \<Rightarrow> db_return ()
            | Inr _ \<Rightarrow>
                db_bind (discovery_now al) (\<lambda>x.
                db_bind (attempt (fs_write al path (al_print_discovery al (x, m)))) (\<lambda>_. db_return ()))))"

definition discover_uncached :: "auth_lib \<Rightarrow> string \<Rightarrow> parsed_url \<Rightarrow> oidc_metadata auth_op" where
  "discover_uncached al issuer issuer_url =
     db_bind (http_send al \<lparr>hq_url = issuer @ ''/.well-known/openid-configuration'', hq_form = None\<rparr>) (\<lambda>answer.
       case answer of
         No_reply \<Rightarrow> auth_fail Discovery_error
       | Reply status body \<Rightarrow>
           (if 400 \<le> status \<and> status < 600 then auth_fail Discovery_error
            else case Option.bind body (al_read_metadata al) of
              None \<Rightarrow> auth_fail Discovery_error
            | Some m \<Rightarrow>
                db_bind (of_res (validate_metadata al issuer issuer_url m)) (\<lambda>_.
                db_bind (store_cached al issuer m) (\<lambda>_. db_return m))))"

definition discover :: "auth_lib \<Rightarrow> string \<Rightarrow> oidc_metadata auth_op" where
  "discover al raw_issuer =
     (let issuer = trim_slashes raw_issuer in
      case al_url al issuer of
        None \<Rightarrow> auth_fail (Bad_url ''issuer'')
      | Some issuer_url \<Rightarrow>
          (if \<not> require_secure issuer_url then auth_fail (Insecure_url ''issuer'')
           else db_bind (load_cached al issuer issuer_url) (\<lambda>cached.
             case cached of
               Some m \<Rightarrow> db_return m
             | None \<Rightarrow> discover_uncached al issuer issuer_url)))"

section \<open>The token endpoint\<close>

definition token_request :: "auth_lib \<Rightarrow> string \<Rightarrow> (string \<times> string) list \<Rightarrow> raw_token_response auth_op" where
  "token_request al endpoint params =
     db_bind (http_send al \<lparr>hq_url = endpoint, hq_form = Some params\<rparr>) (\<lambda>answer.
       case answer of
         Reply status (Some body) \<Rightarrow>
           (if \<not> (200 \<le> status \<and> status < 300) then auth_fail (Token_error status (al_read_error al body))
            else case al_read_token al body of
              None \<Rightarrow> auth_fail (Token_error status None)
            | Some r \<Rightarrow> db_return r)
       | _ \<Rightarrow> auth_fail (Token_error 500 None))"

definition into_session :: "auth_lib \<Rightarrow> oauth_config \<Rightarrow> raw_token_response \<Rightarrow> cached_session auth_op" where
  "into_session al cfg r =
     db_bind (auth_now al) (\<lambda>x.
       let lifetime = (case rt_expires_in r of None \<Rightarrow> 60 | Some n \<Rightarrow> n)
       in db_return \<lparr>se_issuer = oc_issuer cfg, se_client_id = oc_client_id cfg, se_access_token = rt_access_token r,
            se_refresh_token = rt_refresh_token r, se_expires_at = sat_add x lifetime, se_lifetime = Some lifetime\<rparr>)"

definition refresh_params :: "oauth_config \<Rightarrow> string \<Rightarrow> (string \<times> string) list" where
  "refresh_params cfg refresh_token =
     [(''grant_type'', ''refresh_token''), (''refresh_token'', refresh_token), (''client_id'', oc_client_id cfg)] @
     (case oc_audience cfg of None \<Rightarrow> [] | Some a \<Rightarrow> [(''audience'', a)])"

definition token_refresh :: "auth_lib \<Rightarrow> oidc_metadata \<Rightarrow> oauth_config \<Rightarrow> string \<Rightarrow> cached_session auth_op" where
  "token_refresh al m cfg refresh_token =
     db_bind (token_request al (om_token m) (refresh_params cfg refresh_token)) (\<lambda>r.
     db_bind (into_session al cfg r) (\<lambda>s.
       db_return (if se_refresh_token s = None then s\<lparr>se_refresh_token := Some refresh_token\<rparr> else s)))"

section \<open>Commands\<close>

definition refresh_or_fail :: "auth_lib \<Rightarrow> oauth_config \<Rightarrow> cached_session \<Rightarrow> cached_session auth_op" where
  "refresh_or_fail al cfg s =
     (case se_refresh_token s of
        None \<Rightarrow> auth_fail No_refresh_token
      | Some refresh_token \<Rightarrow>
          db_bind (discover al (oc_issuer cfg)) (\<lambda>m. token_refresh al m cfg refresh_token))"

definition current_session :: "auth_lib \<Rightarrow> oauth_config \<Rightarrow> freshness \<Rightarrow> cached_session auth_op" where
  "current_session al cfg f =
     db_bind (acquire_lock al) (\<lambda>_.
     db_bind (load_session al (oc_issuer cfg) (oc_client_id cfg)) (\<lambda>found.
       case found of
         None \<Rightarrow> auth_fail No_session
       | Some s \<Rightarrow>
           db_bind (is_fresh_for al s (required_remaining_secs f s)) (\<lambda>fresh.
             if fresh then db_return s
             else
               db_bind (refresh_or_fail al cfg s) (\<lambda>refreshed.
               db_bind (store_session al refreshed) (\<lambda>_. db_return refreshed)))))"

definition exchange_token_endpoint :: "auth_lib \<Rightarrow> exchange_config \<Rightarrow> string auth_op" where
  "exchange_token_endpoint al xc =
     (case xc_endpoint xc of
        Explicit endpoint \<Rightarrow> db_return endpoint
      | Issuer issuer \<Rightarrow> db_bind (discover al issuer) (\<lambda>m. db_return (om_token m)))"

definition exchange_params :: "exchange_config \<Rightarrow> string \<Rightarrow> (string \<times> string) list" where
  "exchange_params xc subject_token =
     [(''grant_type'', ''urn:ietf:params:oauth:grant-type:token-exchange''), (''client_id'', xc_client_id xc),
      (''subject_token'', subject_token), (''subject_token_type'', ''urn:ietf:params:oauth:token-type:access_token'')] @
     (case xc_scopes xc of None \<Rightarrow> [] | Some s \<Rightarrow> [(''scope'', s)])"

definition exchange_run :: "auth_lib \<Rightarrow> exchange_config \<Rightarrow> string \<Rightarrow> string auth_op" where
  "exchange_run al xc subject_token =
     db_bind (exchange_token_endpoint al xc) (\<lambda>endpoint.
     db_bind (token_request al endpoint (exchange_params xc subject_token)) (\<lambda>r. db_return (rt_access_token r)))"

definition emit_token :: "auth_lib \<Rightarrow> oauth_config \<Rightarrow> cached_session \<Rightarrow> string auth_op" where
  "emit_token al cfg s =
     (case oc_exchange cfg of
        None \<Rightarrow> db_return (se_access_token s)
      | Some xc \<Rightarrow>
          db_bind (attempt (exchange_run al xc (se_access_token s))) (\<lambda>r. of_res (res_map_err Exchange_error r)))"

definition token_command :: "auth_lib \<Rightarrow> oauth_config \<Rightarrow> string auth_op" where
  "token_command al cfg =
     db_bind (current_session al cfg (for_helper (oc_debounce_ms cfg))) (\<lambda>s.
     db_bind (emit_token al cfg s) (\<lambda>t. db_return (t @ [newline])))"

definition otel_headers_command :: "auth_lib \<Rightarrow> oauth_config \<Rightarrow> json auth_op" where
  "otel_headers_command al cfg =
     db_bind (current_session al cfg (for_helper (oc_debounce_ms cfg))) (\<lambda>s.
     db_bind (emit_token al cfg s) (\<lambda>t. db_return (JObject [(''Authorization'', JString (''Bearer '' @ t))])))"

definition refresh_command :: "auth_lib \<Rightarrow> oauth_config \<Rightarrow> unit auth_op" where
  "refresh_command al cfg =
     db_bind (acquire_lock al) (\<lambda>_.
     db_bind (load_session al (oc_issuer cfg) (oc_client_id cfg)) (\<lambda>found.
       case found of
         None \<Rightarrow> auth_fail No_session
       | Some s \<Rightarrow>
           db_bind (refresh_or_fail al cfg s) (\<lambda>refreshed.
           db_bind (auth_now al) (\<lambda>_. store_session al refreshed))))"

definition revoke_token :: "auth_lib \<Rightarrow> oauth_config \<Rightarrow> string \<Rightarrow> unit auth_op" where
  "revoke_token al cfg refresh_token =
     db_bind (discover al (oc_issuer cfg)) (\<lambda>m.
       case om_revocation m of
         None \<Rightarrow> db_return ()
       | Some endpoint \<Rightarrow>
           db_bind (http_send al \<lparr>hq_url = endpoint, hq_form = Some [(''token'', refresh_token),
               (''token_type_hint'', ''refresh_token''), (''client_id'', oc_client_id cfg)]\<rparr>) (\<lambda>answer.
             case answer of
               No_reply \<Rightarrow> auth_fail Revocation_error
             | Reply status _ \<Rightarrow>
                 (if 200 \<le> status \<and> status < 300 then db_return () else auth_fail Revocation_error)))"

definition logout_command :: "auth_lib \<Rightarrow> oauth_config \<Rightarrow> unit auth_op" where
  "logout_command al cfg =
     db_bind (acquire_lock al) (\<lambda>_.
     db_bind (load_session al (oc_issuer cfg) (oc_client_id cfg)) (\<lambda>found.
     db_bind (case Option.bind found se_refresh_token of
                None \<Rightarrow> db_return ()
              | Some refresh_token \<Rightarrow>
                  db_bind (attempt (revoke_token al cfg refresh_token)) (\<lambda>_. db_return ())) (\<lambda>_.
       clear_session al (oc_issuer cfg) (oc_client_id cfg))))"

end
