(* ===== verification/Auth_Login.thy ===== *)
theory Auth_Login
  imports Auth_Session
begin

text \<open>
  Signing in (\<open>app/governance-auth/src/oauth\<close>): the proof of possession (\<open>pkce.rs\<close>), the browser flow with its callback
  (\<open>authcode.rs\<close>, \<open>callback_port/\<close>), the device flow with its polling (\<open>device.rs\<close>), and the command that stores
  the session and the settings (\<open>mod.rs\<close>).

  Time in the device flow is counted in milliseconds from its start: a sleep lasts what was asked for and possibly longer,
  and a request takes some time. Which clients are then configured is not part of the model.
\<close>

section \<open>Proof of possession\<close>

record pkce =
  pk_verifier :: string
  pk_challenge :: string

definition random_bytes :: "auth_lib \<Rightarrow> nat \<Rightarrow> string auth_op" where
  "random_bytes al n w =
     (case al_random al (aw_calls w) n of None \<Rightarrow> (Inl No_randomness, counted_call w) | Some b \<Rightarrow> (Inr b, counted_call w))"

definition pkce_generate :: "auth_lib \<Rightarrow> pkce auth_op" where
  "pkce_generate al =
     db_bind (random_bytes al 32) (\<lambda>bytes.
       let verifier = al_base64 al bytes
       in db_return \<lparr>pk_verifier = verifier, pk_challenge = al_sha256_base64 al verifier\<rparr>)"

definition random_state :: "auth_lib \<Rightarrow> string auth_op" where
  "random_state al = db_bind (random_bytes al 16) (\<lambda>bytes. db_return (al_base64 al bytes))"

definition show_user :: "string \<Rightarrow> unit auth_op" where
  "show_user url w = (Inr (), w\<lparr>aw_shown := aw_shown w @ [url]\<rparr>)"

text \<open>Writing the page of the browser tab may fail; the callers ignore that, or report this failure in place of their own, so it is left out.\<close>

definition write_callback_response :: "bool \<Rightarrow> unit auth_op" where
  "write_callback_response success w = (Inr (), w\<lparr>aw_pages := aw_pages w @ [success]\<rparr>)"

section \<open>The callback\<close>

fun bind_ports :: "auth_lib \<Rightarrow> ip_addr \<Rightarrow> nat list \<Rightarrow> nat auth_op" where
  "bind_ports al addr [] w = (Inl (Ports_in_use CALLBACK_PORTS), w)"
| "bind_ports al addr (p # ps) w =
     (if al_bind al (aw_calls w) addr p then (Inr p, counted_call w) else bind_ports al addr ps (counted_call w))"

definition bind_any :: "auth_lib \<Rightarrow> ip_addr \<Rightarrow> nat auth_op" where
  "bind_any al addr = bind_ports al addr CALLBACK_PORTS"

definition bind_with :: "auth_lib \<Rightarrow> ip_addr \<Rightarrow> nat option \<Rightarrow> nat auth_op" where
  "bind_with al addr port =
     (case port of
        None \<Rightarrow> bind_any al addr
      | Some p \<Rightarrow> (\<lambda>w. if al_bind al (aw_calls w) addr p then (Inr p, counted_call w) else (Inl (Ports_in_use [p]), counted_call w)))"

text \<open>\<open>split_whitespace\<close>: a word runs up to the next white space, which \<open>trim_start\<close> removes.\<close>

fun take_word :: "string \<Rightarrow> string \<times> string" where
  "take_word [] = ([], [])"
| "take_word (c # cs) = (if trim_start (c # cs) \<noteq> c # cs then ([], c # cs) else case take_word cs of (a, b) \<Rightarrow> (c # a, b))"

definition second_word :: "string \<Rightarrow> string option" where
  "second_word s = (case take_word (trim_start (snd (take_word (trim_start s)))) of (a, _) \<Rightarrow> if a = [] then None else Some a)"

text \<open>The parameters of the callback: the last of each name counts, and an error ends the reading.\<close>

fun callback_pairs :: "(string \<times> string) list \<Rightarrow> string option \<Rightarrow> string option \<Rightarrow> string + string option \<times> string option" where
  "callback_pairs [] code state = Inr (code, state)"
| "callback_pairs ((key, v) # ps) code state =
     (if key = ''code'' then callback_pairs ps (Some v) state
      else if key = ''state'' then callback_pairs ps code (Some v)
      else if key = ''error'' then Inl v
      else callback_pairs ps code state)"

definition parse_callback_request :: "auth_lib \<Rightarrow> string \<Rightarrow> (string \<times> string) auth_op" where
  "parse_callback_request al request_line =
     (case Option.bind (second_word request_line) (al_query al) of
        None \<Rightarrow> auth_fail Callback_error
      | Some pairs \<Rightarrow>
          (case callback_pairs pairs None None of
             Inl v \<Rightarrow> db_bind (write_callback_response False) (\<lambda>_. auth_fail (Callback_refused v))
           | Inr (Some code, Some state) \<Rightarrow> db_return (code, state)
           | Inr _ \<Rightarrow> db_bind (write_callback_response False) (\<lambda>_. auth_fail Callback_error)))"

definition await_callback :: "auth_lib \<Rightarrow> (string \<times> string) auth_op" where
  "await_callback al w =
     (case al_accept al (aw_calls w) of
        None \<Rightarrow> (Inl Callback_error, counted_call w)
      | Some request_line \<Rightarrow> parse_callback_request al request_line (counted_call w))"

definition authorize_params :: "oauth_config \<Rightarrow> string \<Rightarrow> pkce \<Rightarrow> string \<Rightarrow> (string \<times> string) list" where
  "authorize_params cfg redirect_uri pk state =
     [(''response_type'', ''code''), (''client_id'', oc_client_id cfg), (''redirect_uri'', redirect_uri), (''scope'', oc_scopes cfg),
      (''state'', state), (''code_challenge'', pk_challenge pk), (''code_challenge_method'', ''S256'')] @
     (case oc_audience cfg of None \<Rightarrow> [] | Some a \<Rightarrow> [(''audience'', a)])"

definition build_authorize_url :: "auth_lib \<Rightarrow> oidc_metadata \<Rightarrow> oauth_config \<Rightarrow> string \<Rightarrow> pkce \<Rightarrow> string \<Rightarrow> auth_error + string" where
  "build_authorize_url al m cfg redirect_uri pk state =
     (case om_authorization m of
        None \<Rightarrow> Inl No_authorization_endpoint
      | Some endpoint \<Rightarrow>
          (case al_with_query al endpoint (authorize_params cfg redirect_uri pk state) of
             None \<Rightarrow> Inl (Bad_url ''authorization_endpoint'')
           | Some url \<Rightarrow> Inr url))"

section \<open>The browser flow\<close>

definition code_params :: "oauth_config \<Rightarrow> string \<Rightarrow> string \<Rightarrow> pkce \<Rightarrow> (string \<times> string) list" where
  "code_params cfg code redirect_uri pk =
     [(''grant_type'', ''authorization_code''), (''code'', code), (''redirect_uri'', redirect_uri), (''client_id'', oc_client_id cfg),
      (''code_verifier'', pk_verifier pk)] @
     (case oc_audience cfg of None \<Rightarrow> [] | Some a \<Rightarrow> [(''audience'', a)])"

definition authcode_run :: "auth_lib \<Rightarrow> oauth_config \<Rightarrow> oidc_metadata \<Rightarrow> cached_session auth_op" where
  "authcode_run al cfg m =
     db_bind (bind_with al (oc_callback_bind cfg) (oc_callback_port cfg)) (\<lambda>port.
     let redirect_uri = ''http://127.0.0.1:'' @ show_nat port @ ''/callback'' in
     db_bind (pkce_generate al) (\<lambda>pk.
     db_bind (random_state al) (\<lambda>state.
     db_bind (of_res (build_authorize_url al m cfg redirect_uri pk state)) (\<lambda>url.
     db_bind (show_user url) (\<lambda>_.
     db_bind (await_callback al) (\<lambda>(code, returned_state).
       if returned_state \<noteq> state then db_bind (write_callback_response False) (\<lambda>_. auth_fail State_mismatch)
       else
         db_bind (attempt (token_request al (om_token m) (code_params cfg code redirect_uri pk))) (\<lambda>response.
         db_bind (write_callback_response (case response of Inl _ \<Rightarrow> False | Inr _ \<Rightarrow> True)) (\<lambda>_.
         db_bind (of_res response) (\<lambda>r. into_session al cfg r)))))))))"

section \<open>The device flow\<close>

definition poll_params :: "oauth_config \<Rightarrow> device_grant \<Rightarrow> string \<Rightarrow> (string \<times> string) list" where
  "poll_params cfg dv code_verifier =
     [(''grant_type'', ''urn:ietf:params:oauth:grant-type:device_code''), (''device_code'', dg_device_code dv),
      (''client_id'', oc_client_id cfg), (''code_verifier'', code_verifier)]"

text \<open>One round of polling: sleep, look at the deadline, ask. \<open>slowed\<close> is what \<open>slow_down\<close> added to the interval.\<close>

function poll_from ::
  "auth_lib \<Rightarrow> oidc_metadata \<Rightarrow> oauth_config \<Rightarrow> device_grant \<Rightarrow> string \<Rightarrow> nat \<Rightarrow> nat \<Rightarrow> cached_session auth_op" where
  "poll_from al m cfg dv verifier slowed t w =
     (let interval = max (dg_interval dv) 1 + slowed;
          woken = t + 1000 * interval + al_overshoot al (aw_calls w)
      in if woken \<ge> 1000 * dg_expires_in dv then (Inl Device_expired, w)
         else case token_request al (om_token m) (poll_params cfg dv verifier) w of
           (Inr r, w1) \<Rightarrow> into_session al cfg r w1
         | (Inl e, w1) \<Rightarrow>
             (let later = woken + al_latency al (aw_calls w) in
              case e of
                Token_error status code \<Rightarrow>
                  (if code = Some ''authorization_pending'' then poll_from al m cfg dv verifier slowed later w1
                   else if code = Some ''slow_down'' then poll_from al m cfg dv verifier (slowed + 5) later w1
                   else (Inl e, w1))
              | _ \<Rightarrow> (Inl e, w1)))"
  by pat_completeness auto

termination
  by (relation "measure (\<lambda>(al, m, cfg, dv, verifier, slowed, t, w). 1000 * dg_expires_in dv - t)") auto

declare poll_from.simps [simp del]

definition poll :: "auth_lib \<Rightarrow> oidc_metadata \<Rightarrow> oauth_config \<Rightarrow> device_grant \<Rightarrow> string \<Rightarrow> cached_session auth_op" where
  "poll al m cfg dv verifier = poll_from al m cfg dv verifier 0 0"

definition device_params :: "oauth_config \<Rightarrow> pkce \<Rightarrow> (string \<times> string) list" where
  "device_params cfg pk =
     [(''client_id'', oc_client_id cfg), (''scope'', oc_scopes cfg), (''code_challenge'', pk_challenge pk),
      (''code_challenge_method'', ''S256'')] @
     (case oc_audience cfg of None \<Rightarrow> [] | Some a \<Rightarrow> [(''audience'', a)])"

definition device_run :: "auth_lib \<Rightarrow> oauth_config \<Rightarrow> oidc_metadata \<Rightarrow> cached_session auth_op" where
  "device_run al cfg m =
     (case om_device m of
        None \<Rightarrow> auth_fail No_device_endpoint
      | Some endpoint \<Rightarrow>
          db_bind (pkce_generate al) (\<lambda>pk.
          db_bind (http_send al \<lparr>hq_url = endpoint, hq_form = Some (device_params cfg pk)\<rparr>) (\<lambda>answer.
            case answer of
              No_reply \<Rightarrow> auth_fail Device_error
            | Reply status body \<Rightarrow>
                (if 400 \<le> status \<and> status < 600 then auth_fail Device_error
                 else case Option.bind body (al_read_device al) of
                   None \<Rightarrow> auth_fail Device_error
                 | Some dv \<Rightarrow>
                     db_bind (show_user (unwrap_or (dg_verification_uri dv) (dg_verification_uri_complete dv))) (\<lambda>_.
                       poll al m cfg dv (pk_verifier pk))))))"

section \<open>The command\<close>

definition remember_settings :: "auth_lib \<Rightarrow> oauth_config \<Rightarrow> client_opt_out \<Rightarrow> unit auth_op" where
  "remember_settings al cfg optout =
     (case per_user_config_path al of
        Inl _ \<Rightarrow> db_return ()
      | Inr path \<Rightarrow> db_bind (attempt (remember al cfg optout path)) (\<lambda>_. db_return ()))"

definition login_command :: "auth_lib \<Rightarrow> oauth_config \<Rightarrow> bool \<Rightarrow> client_opt_out \<Rightarrow> unit auth_op" where
  "login_command al cfg device_code optout =
     db_bind (acquire_lock al) (\<lambda>_.
     db_bind (discover al (oc_issuer cfg)) (\<lambda>m.
     db_bind (if device_code then device_run al cfg m else authcode_run al cfg m) (\<lambda>s.
     db_bind (auth_now al) (\<lambda>_.
     db_bind (store_session al s) (\<lambda>_. remember_settings al cfg optout)))))"

end
