(* ===== verification/Auth_Config_Correct.thy ===== *)
theory Auth_Config_Correct
  imports Auth_Config
begin

text \<open>
  What the resolution of settings guarantees: every address it hands on may carry a credential, every callback port is a
  registered one, and what a run writes back makes the next run without flags resolve to the same settings.
\<close>

section \<open>Operations that succeed and fail\<close>

lemma bind_of_res [simp]: "db_bind (of_res (Inr a)) f = f a"
  by (rule ext) (simp add: db_bind_def of_res_def)

lemma bind_ok:
  assumes "db_bind m f w = (Inr b, w')"
  obtains a v where "m w = (Inr a, v)" "f a v = (Inr b, w')"
  using assms by (auto simp: db_bind_Inr)

lemma bind_failed:
  assumes "db_bind m f w = (Inl e, w')"
  obtains "m w = (Inl e, w')" | a v where "m w = (Inr a, v)" "f a v = (Inl e, w')"
  using assms by (auto simp: db_bind_Inl)

lemma of_res_ok: "of_res r w = (Inr a, w') \<longleftrightarrow> r = Inr a \<and> w' = w"
  by (auto simp: of_res_def)

section \<open>Addresses\<close>

definition secure_address :: "auth_lib \<Rightarrow> string \<Rightarrow> bool" where
  "secure_address al address \<longleftrightarrow> (case al_url al address of None \<Rightarrow> False | Some u \<Rightarrow> require_secure u)"

lemma parse_url_ok: "parse_url al label raw = Inr a \<longleftrightarrow> a = raw \<and> secure_address al raw"
  by (auto simp: parse_url_def secure_address_def split: option.splits)

lemmas parse_ok = parse_issuer_def parse_exchange_token_endpoint_def parse_url_ok

lemma transpose_ok:
  "transpose_map f r = Inr q \<longleftrightarrow> (case r of None \<Rightarrow> q = None | Some a \<Rightarrow> (\<exists>b. f a = Inr b \<and> q = Some b))"
  by (auto simp: transpose_map_def res_bind_def split: option.splits sum.splits)

lemma transpose_parse_ok:
  "transpose_map (parse_issuer al) r = Inr q \<longleftrightarrow> q = r \<and> (\<forall>a. r = Some a \<longrightarrow> secure_address al a)"
  "transpose_map (parse_exchange_token_endpoint al) r = Inr q \<longleftrightarrow> q = r \<and> (\<forall>a. r = Some a \<longrightarrow> secure_address al a)"
  by (auto simp: transpose_ok parse_ok split: option.splits)

text \<open>What every resolved configuration satisfies.\<close>

definition config_secure :: "auth_lib \<Rightarrow> oauth_config \<Rightarrow> bool" where
  "config_secure al c \<longleftrightarrow>
     secure_address al (oc_issuer c) \<and>
     (\<forall>a. oc_otel_endpoint c = Some a \<longrightarrow> secure_address al a) \<and>
     (\<forall>a. oc_gateway_url c = Some a \<longrightarrow> secure_address al a) \<and>
     (\<forall>xc. oc_exchange c = Some xc \<longrightarrow>
        (case xc_endpoint xc of Explicit a \<Rightarrow> secure_address al a | Issuer a \<Rightarrow> secure_address al a)) \<and>
     (\<forall>p. oc_callback_port c = Some p \<longrightarrow> p \<in> set CALLBACK_PORTS)"

lemma exchange_secure:
  "exchange_resolve al args user machine = Inr (Some xc) \<Longrightarrow>
     (case xc_endpoint xc of Explicit a \<Rightarrow> secure_address al a | Issuer a \<Rightarrow> secure_address al a)"
  by (auto simp: exchange_resolve_def Let_def res_bind_def transpose_parse_ok split: if_split_asm sum.split_asm option.split_asm)

lemma valid_port_ok: "valid_port p = Inr () \<longleftrightarrow> (\<forall>q. p = Some q \<longrightarrow> q \<in> set CALLBACK_PORTS)"
  by (auto simp: valid_port_def validate_port_def split: option.splits)

text \<open>When the resolution of two files succeeds, and what it then gives.\<close>

lemma resolve_layers_ok:
  "resolve_layers al args user up machine mp w = (Inr c, w') \<longleftrightarrow>
     (\<exists>issuer client_id ut v mt pe xc b.
        required_settings args user machine = Inr (issuer, client_id) \<and> secure_address al issuer \<and>
        (\<forall>a. layered (oa_otel_endpoint args) cf_otel_endpoint user machine = Some a \<longrightarrow> secure_address al a) \<and>
        file_otel_token al user up w = (Inr ut, v) \<and> file_otel_token al machine mp v = (Inr mt, w') \<and>
        (\<forall>a. layered (oa_gateway_url args) cf_gateway_url user machine = Some a \<longrightarrow> secure_address al a) \<and>
        transpose_map profile_from_str (layered (oa_profile args) cf_profile user machine) = Inr pe \<and>
        exchange_resolve al args user machine = Inr xc \<and>
        valid_port (layered (oa_callback_port args) cf_callback_port user machine) = Inr () \<and>
        transpose_map (parse_callback_bind al) (layered (oa_callback_bind args) cf_callback_bind user machine) = Inr b \<and>
        c = config_of_layers args user machine (issuer, client_id) (ut, mt)
          (layered (oa_otel_endpoint args) cf_otel_endpoint user machine)
          (layered (oa_gateway_url args) cf_gateway_url user machine) pe xc b)"
  unfolding resolve_layers_def db_bind_Inr of_res_ok db_return_def transpose_parse_ok parse_issuer_def parse_url_ok
  by (fastforce simp: transpose_parse_ok [unfolded parse_issuer_def])

lemma resolve_layers_secure:
  assumes "resolve_layers al args user up machine mp w = (Inr c, w')"
  shows "config_secure al c"
  using assms exchange_secure unfolding resolve_layers_ok
  by (auto simp: config_secure_def config_of_layers_def valid_port_ok)

lemma resolve_secure: "resolve_with_paths al args up mp w = (Inr c, w') \<Longrightarrow> config_secure al c"
  unfolding resolve_with_paths_def by (elim bind_ok) (rule resolve_layers_secure)

section \<open>What is written back\<close>

text \<open>The file a run leaves, as the settings it then holds.\<close>

definition remembered :: "oauth_config \<Rightarrow> client_opt_out \<Rightarrow> config_file \<Rightarrow> config_file" where
  "remembered c optout cf = cf\<lparr>cf_issuer := Some (oc_issuer c), cf_client_id := Some (oc_client_id c), cf_scopes := Some (oc_scopes c),
     cf_otel_headers_debounce_ms := Some (oc_debounce_ms c), cf_open_browser := Some (oc_open_browser c),
     cf_no_claude := Some (co_claude optout), cf_no_codex := Some (co_codex optout), cf_no_vscode := Some (co_vscode optout),
     cf_codex_telemetry_only := Some (co_codex_telemetry_only optout),
     cf_audience := oc_audience c, cf_otel_endpoint := oc_otel_endpoint c, cf_gateway_url := oc_gateway_url c,
     cf_profile := map_option profile_as_str (oc_profile_explicit c), cf_copilot_spool_path := oc_copilot_spool_path c,
     cf_token_exchange := map_option (\<lambda>_. True) (oc_exchange c),
     cf_exchange_client_id := map_option xc_client_id (oc_exchange c),
     cf_exchange_scopes := Option.bind (oc_exchange c) xc_scopes,
     cf_exchange_token_endpoint := Option.bind (oc_exchange c) (\<lambda>xc. case xc_endpoint xc of Explicit a \<Rightarrow> Some a | Issuer _ \<Rightarrow> None),
     cf_exchange_issuer := Option.bind (oc_exchange c) (\<lambda>xc. case xc_endpoint xc of Explicit _ \<Rightarrow> None | Issuer a \<Rightarrow> Some a)\<rparr>"

named_theorems table_change \<open>what a change of one key keeps of a table\<close>

lemma map_of_changes [simp]:
  "map_of (toml_set k i t) k' = (if k' = k then Some i else map_of t k')"
  "map_of (toml_clear k t) k' = (if k' = k then None else map_of t k')"
  "map_of (set_or_clear k r t) k' = (if k' = k then map_option T_string r else map_of t k')"
  by (auto simp: toml_set_def toml_clear_def set_or_clear_def update_conv' delete_conv' split: option.splits)

lemma items_set [table_change]: "list_all item_ok t \<Longrightarrow> item_ok (k, i) \<Longrightarrow> list_all item_ok (toml_set k i t)"
  unfolding toml_set_def by (induction t) auto

lemma items_clear [table_change]: "list_all item_ok t \<Longrightarrow> list_all item_ok (toml_clear k t)"
  unfolding toml_clear_def by (auto simp: list_all_iff AList.delete_eq)

lemma items_set_or_clear [table_change]:
  "list_all item_ok t \<Longrightarrow> k \<in> set string_keys \<Longrightarrow> list_all item_ok (set_or_clear k r t)"
  unfolding set_or_clear_def by (auto intro!: items_set items_clear simp: item_ok_def split: option.split)

lemma string_keys_in: "k \<in> set string_keys \<Longrightarrow> item_ok (k, T_string s)" by (simp add: item_ok_def)

lemma bool_keys_in: "k \<in> set bool_keys \<Longrightarrow> item_ok (k, T_bool b)" by (simp add: item_ok_def)

lemma remember_exchange_items: "list_all item_ok t \<Longrightarrow> list_all item_ok (remember_exchange x t)"
  unfolding remember_exchange_def Let_def
  by (auto intro!: table_change string_keys_in bool_keys_in simp: string_keys_def bool_keys_def split: option.split exchange_endpoint.split)

lemma remember_table_items: "list_all item_ok t \<Longrightarrow> list_all item_ok (remember_table c optout t)"
  unfolding remember_table_def Let_def
  by (intro remember_exchange_items table_change string_keys_in bool_keys_in)
    (simp_all add: string_keys_def bool_keys_def item_ok_def)

lemma map_of_remember_exchange:
  "map_of (remember_exchange x t) k =
     (if k = ''token_exchange'' then map_option (\<lambda>_. T_bool True) x
      else if k = ''exchange_client_id'' then map_option (\<lambda>xc. T_string (xc_client_id xc)) x
      else if k = ''exchange_scopes'' then map_option T_string (Option.bind x xc_scopes)
      else if k = ''exchange_token_endpoint''
        then map_option T_string (Option.bind x (\<lambda>xc. case xc_endpoint xc of Explicit a \<Rightarrow> Some a | Issuer _ \<Rightarrow> None))
      else if k = ''exchange_issuer''
        then map_option T_string (Option.bind x (\<lambda>xc. case xc_endpoint xc of Explicit _ \<Rightarrow> None | Issuer a \<Rightarrow> Some a))
      else map_of t k)"
  by (cases x) (simp_all add: remember_exchange_def Let_def split: exchange_endpoint.split)

lemma getters:
  "get_str t k = Option.bind (map_of t k) (\<lambda>i. case i of T_string s \<Rightarrow> Some s | _ \<Rightarrow> None)"
  "get_bool t k = Option.bind (map_of t k) (\<lambda>i. case i of T_bool b \<Rightarrow> Some b | _ \<Rightarrow> None)"
  "get_nat t k = Option.bind (map_of t k) (\<lambda>i. case i of T_int n \<Rightarrow> Some (nat n) | _ \<Rightarrow> None)"
  by (simp_all add: get_str_def get_bool_def get_nat_def split: option.split)

lemma bind_map_Some [simp]:
  "Option.bind (map_option f r) g = Option.bind r (\<lambda>a. g (f a))" "Option.bind r (\<lambda>a. Some (f a)) = map_option f r"
  by (cases r; simp)+

lemma remember_refines:
  assumes "config_of_table t = Some cf"
  shows "config_of_table (remember_table c optout t) = Some (remembered c optout cf)"
proof -
  have ok: "list_all item_ok t" using assms by (simp add: config_of_table_def split: if_splits)
  have cf: "cf = the (config_of_table t)" using assms by simp
  show ?thesis
    using ok remember_table_items [OF ok, of c optout] unfolding cf
    by (simp add: config_of_table_def remembered_def)
      (simp add: getters remember_table_def Let_def map_of_remember_exchange option.map_ident)
qed

section \<open>Resolving what was written back\<close>

definition no_args :: oauth_args where
  "no_args = \<lparr>oa_issuer = None, oa_client_id = None, oa_scopes = None, oa_audience = None, oa_otel_endpoint = None,
     oa_otel_token = None, oa_gateway_url = None, oa_profile = None, oa_copilot_spool_path = None,
     oa_otel_headers_debounce_ms = None, oa_open_browser = None, oa_callback_port = None, oa_callback_bind = None,
     oa_token_exchange = None, oa_exchange_issuer = None, oa_exchange_token_endpoint = None, oa_exchange_client_id = None,
     oa_exchange_scopes = None\<rparr>"

lemma no_args_fields [simp]:
  "oa_issuer no_args = None" "oa_client_id no_args = None" "oa_scopes no_args = None" "oa_audience no_args = None"
  "oa_otel_endpoint no_args = None" "oa_otel_token no_args = None" "oa_gateway_url no_args = None" "oa_profile no_args = None"
  "oa_copilot_spool_path no_args = None" "oa_otel_headers_debounce_ms no_args = None" "oa_open_browser no_args = None"
  "oa_callback_port no_args = None" "oa_callback_bind no_args = None" "oa_token_exchange no_args = None"
  "oa_exchange_issuer no_args = None" "oa_exchange_token_endpoint no_args = None" "oa_exchange_client_id no_args = None"
  "oa_exchange_scopes no_args = None"
  by (simp_all add: no_args_def)

text \<open>A value that some layer gave, written into the user's file, is what the layers give without the flag.\<close>

lemma layered_again: "layered flag get user machine = r \<Longrightarrow> get cf = r \<Longrightarrow> layered None get (Some cf) machine = r"
  by (auto simp: layered_def split: option.splits)

lemma layered_some: "get cf = Some v \<Longrightarrow> layered None get (Some cf) machine = Some v"
  by (simp add: layered_def)

lemma layered_kept:
  "(\<And>cf. user = Some cf \<Longrightarrow> get cf' = get cf) \<Longrightarrow> (user = None \<Longrightarrow> get cf' = None) \<Longrightarrow>
     layered None get (Some cf') machine = layered None get user machine"
  by (cases user) (auto simp: layered_def)

lemma profile_round [simp]: "profile_from_str (profile_as_str p) = Inr p"
  by (cases p) (simp_all add: profile_from_str_def profile_as_str_def)

lemma profile_again:
  assumes "transpose_map profile_from_str (layered flag cf_profile user machine) = Inr pe" and "cf_profile cf = map_option profile_as_str pe"
  shows "transpose_map profile_from_str (layered None cf_profile (Some cf) machine) = Inr pe"
proof (cases pe)
  case None
  then have "layered flag cf_profile user machine = None" using assms(1) by (auto simp: transpose_ok split: option.splits)
  then have "layered None cf_profile (Some cf) machine = None" by (rule layered_again) (simp add: assms(2) None)
  with None show ?thesis by (simp add: transpose_map_def)
next
  case (Some p)
  then show ?thesis using assms(2) by (simp add: layered_def transpose_map_def res_bind_def)
qed

definition exchange_kept :: "auth_lib \<Rightarrow> config_file option \<Rightarrow> oauth_config \<Rightarrow> bool" where
  "exchange_kept al machine c \<longleftrightarrow>
     (case oc_exchange c of
        None \<Rightarrow> \<not> unwrap_or False (Option.bind machine cf_token_exchange)
      | Some _ \<Rightarrow> (case Option.bind machine cf_exchange_issuer of None \<Rightarrow> True | Some i \<Rightarrow> secure_address al i))"

lemma exchange_again:
  assumes "exchange_resolve al args user machine = Inr (oc_exchange c)" and "exchange_kept al machine c"
  shows "exchange_resolve al no_args (Some (remembered c optout cf)) machine = Inr (oc_exchange c)"
proof (cases "oc_exchange c")
  case None
  then show ?thesis using assms(2)
    by (simp add: exchange_resolve_def remembered_def exchange_kept_def layered_def split: option.splits)
next
  case (Some xc)
  let ?cf = "remembered c optout cf"
  have l: "layered (oa_exchange_client_id args) cf_exchange_client_id user machine = Some (xc_client_id xc)"
    "layered (oa_exchange_scopes args) cf_exchange_scopes user machine = xc_scopes xc"
    and e: "case xc_endpoint xc of Explicit a \<Rightarrow> secure_address al a
      | Issuer a \<Rightarrow> secure_address al a \<and> layered (oa_exchange_token_endpoint args) cf_exchange_token_endpoint user machine = None"
    using assms(1) Some
    by (auto simp: exchange_resolve_def Let_def res_bind_def transpose_parse_ok split: if_split_asm sum.split_asm option.split_asm)
  have again: "layered None cf_token_exchange (Some ?cf) machine = Some True"
    "layered None cf_exchange_client_id (Some ?cf) machine = Some (xc_client_id xc)"
    "layered None cf_exchange_scopes (Some ?cf) machine = xc_scopes xc"
    by (rule layered_some layered_again [OF l(2)], simp add: remembered_def Some)+
  show ?thesis
  proof (cases "xc_endpoint xc")
    case (Explicit a)
    moreover have "layered None cf_exchange_token_endpoint (Some ?cf) machine = Some a"
      by (rule layered_some) (simp add: remembered_def Some Explicit)
    moreover have "layered None cf_exchange_issuer (Some ?cf) machine = Option.bind machine cf_exchange_issuer"
      by (simp add: layered_def remembered_def Some Explicit)
    moreover have "case Option.bind machine cf_exchange_issuer of None \<Rightarrow> True | Some i \<Rightarrow> secure_address al i"
      using assms(2) Some by (simp add: exchange_kept_def)
    ultimately show ?thesis using again e Some
      by (auto simp: exchange_resolve_def unwrap_or_def Let_def res_bind_def transpose_map_def parse_ok parse_url_def
          secure_address_def split: option.splits)
  next
    case (Issuer a)
    moreover have "layered None cf_exchange_issuer (Some ?cf) machine = Some a"
      by (rule layered_some) (simp add: remembered_def Some Issuer)
    moreover have "layered None cf_exchange_token_endpoint (Some ?cf) machine = None"
      using e Issuer by (intro layered_again [of "oa_exchange_token_endpoint args" _ user machine]) (simp_all add: remembered_def Some)
    ultimately show ?thesis using again e Some
      by (auto simp: exchange_resolve_def unwrap_or_def Let_def res_bind_def transpose_map_def parse_ok parse_url_def
          secure_address_def split: option.splits)
  qed
qed

text \<open>Where the file calls do what they are asked, an operation that only reads gives the same again while its files are the same.\<close>

definition reliable :: "auth_lib \<Rightarrow> bool" where
  "reliable al \<longleftrightarrow> (\<forall>n. al_io al n = Io_done)"

definition file_at :: "auth_lib \<Rightarrow> auth_world \<Rightarrow> string \<Rightarrow> config_file option" where
  "file_at al w path = Option.bind (map_of (aw_files w) path) (\<lambda>bytes. Option.bind (al_read_toml al bytes) config_of_table)"

definition reads_only :: "string set \<Rightarrow> 'a auth_op \<Rightarrow> bool" where
  "reads_only P m \<longleftrightarrow> (\<forall>w a w'. m w = (Inr a, w') \<longrightarrow> aw_files w' = aw_files w \<and>
     (\<forall>v. (\<forall>p \<in> P. map_of (aw_files v) p = map_of (aw_files w) p) \<longrightarrow> (\<exists>v'. m v = (Inr a, v') \<and> aw_files v' = aw_files v)))"

lemma reads_onlyD:
  assumes "reads_only P m" "m w = (Inr a, w')"
  shows "aw_files w' = aw_files w"
    and "(\<And>p. p \<in> P \<Longrightarrow> map_of (aw_files v) p = map_of (aw_files w) p) \<Longrightarrow> \<exists>v'. m v = (Inr a, v') \<and> aw_files v' = aw_files v"
  using assms unfolding reads_only_def by blast+

lemma counted_files [simp]: "aw_files (counted_call w) = aw_files w"
  by (simp add: counted_call_def)

lemma load_reads_only: "reliable al \<Longrightarrow> reads_only {path} (load_config al path)"
  unfolding reads_only_def load_config_def
  by (auto simp: fs_read_def reliable_def db_bind_def db_return_def auth_fail_def refuse_if_group_or_other_readable_def
      split: option.splits if_splits)

lemma load_finds: "reliable al \<Longrightarrow> load_config al path w = (Inr f, w') \<Longrightarrow> f = file_at al w path"
  unfolding load_config_def
  by (auto simp: fs_read_def reliable_def file_at_def db_bind_def db_return_def auth_fail_def split: option.splits prod.splits sum.splits)

lemma token_reads_only:
  "reliable al \<Longrightarrow> reads_only (set_option (Option.bind f cf_otel_token_file)) (file_otel_token al f source)"
  unfolding reads_only_def file_otel_token_def read_token_file_def
  by (auto simp: fs_read_def reliable_def db_bind_def db_return_def auth_fail_def refuse_if_group_or_other_readable_def Let_def
      split: option.splits if_splits)

text \<open>The settings resolve again over the file that was written from them.\<close>

lemma resolve_again:
  assumes first: "resolve_layers al args user up machine mp w = (Inr c, w')"
    and flags: "oa_otel_token args = None" "oa_callback_port args = None" "oa_callback_bind args = None"
    and kept: "exchange_kept al machine c"
    and cf: "\<And>f. user = Some f \<Longrightarrow> cf = f"
      "user = None \<Longrightarrow> cf_otel_token cf = None \<and> cf_otel_token_file cf = None \<and> cf_callback_port cf = None \<and> cf_callback_bind cf = None"
    and al: "reliable al"
    and tokens: "\<And>p. p \<in> set_option (Option.bind user cf_otel_token_file) \<union> set_option (Option.bind machine cf_otel_token_file) \<Longrightarrow>
      map_of (aw_files v) p = map_of (aw_files w) p"
  shows "\<exists>v'. resolve_layers al no_args (Some (remembered c optout cf)) up machine mp v =
     (Inr (c\<lparr>oc_last_no_claude := co_claude optout, oc_last_no_codex := co_codex optout, oc_last_no_vscode := co_vscode optout,
        oc_last_codex_telemetry_only := co_codex_telemetry_only optout\<rparr>), v')"
proof -
  let ?cf = "remembered c optout cf"
  from first obtain issuer client_id ut x mt pe xc b where
    req: "required_settings args user machine = Inr (issuer, client_id)" "secure_address al issuer"
    and oe: "\<And>a. layered (oa_otel_endpoint args) cf_otel_endpoint user machine = Some a \<Longrightarrow> secure_address al a"
    and ut: "file_otel_token al user up w = (Inr ut, x)" and mt: "file_otel_token al machine mp x = (Inr mt, w')"
    and gw: "\<And>a. layered (oa_gateway_url args) cf_gateway_url user machine = Some a \<Longrightarrow> secure_address al a"
    and pe: "transpose_map profile_from_str (layered (oa_profile args) cf_profile user machine) = Inr pe"
    and xc: "exchange_resolve al args user machine = Inr xc"
    and port: "valid_port (layered (oa_callback_port args) cf_callback_port user machine) = Inr ()"
    and b: "transpose_map (parse_callback_bind al) (layered (oa_callback_bind args) cf_callback_bind user machine) = Inr b"
    and c: "c = config_of_layers args user machine (issuer, client_id) (ut, mt)
          (layered (oa_otel_endpoint args) cf_otel_endpoint user machine)
          (layered (oa_gateway_url args) cf_gateway_url user machine) pe xc b"
    unfolding resolve_layers_ok by blast
  note fields = c config_of_layers_def remembered_def
  have same: "layered None cf_otel_endpoint (Some ?cf) machine = oc_otel_endpoint c"
    "layered None cf_gateway_url (Some ?cf) machine = oc_gateway_url c"
    "layered None cf_audience (Some ?cf) machine = oc_audience c"
    "layered None cf_copilot_spool_path (Some ?cf) machine = oc_copilot_spool_path c"
    by (rule layered_again; simp add: fields)+
  have ports: "layered None cf_callback_port (Some ?cf) machine = layered None cf_callback_port user machine"
    "layered None cf_callback_bind (Some ?cf) machine = layered None cf_callback_bind user machine"
    using cf by (intro layered_kept; auto simp: remembered_def)+
  have prof: "transpose_map profile_from_str (layered None cf_profile (Some ?cf) machine) = Inr pe"
    using profile_again [OF pe] by (simp add: fields)
  have "exchange_resolve al args user machine = Inr (oc_exchange c)" using xc by (simp add: fields)
  from exchange_again [OF this kept] have ex: "exchange_resolve al no_args (Some ?cf) machine = Inr xc" by (simp add: fields)
  have tok: "file_otel_token al (Some ?cf) up = file_otel_token al user up"
    using cf by (cases user) (auto simp: file_otel_token_def remembered_def)
  obtain v1 where v1: "file_otel_token al user up v = (Inr ut, v1)" "aw_files v1 = aw_files v"
    using reads_onlyD(2) [OF token_reads_only [OF al] ut] tokens by blast
  have "aw_files x = aw_files w" using reads_onlyD(1) [OF token_reads_only [OF al] ut] .
  then obtain v2 where v2: "file_otel_token al machine mp v1 = (Inr mt, v2)"
    using reads_onlyD(2) [OF token_reads_only [OF al] mt, of v1] tokens v1(2) by auto
  have got: "oc_issuer c = issuer" "oc_client_id c = client_id" "oc_otel_token c = (case ut of None \<Rightarrow> mt | Some t \<Rightarrow> Some t)"
    "oc_profile c = unwrap_or profile_default pe" "oc_profile_explicit c = pe" "oc_exchange c = xc"
    "oc_callback_port c = layered None cf_callback_port user machine" "oc_callback_bind c = unwrap_or DEFAULT_BIND b"
    using flags by (simp_all add: c config_of_layers_def split: option.split)
  have set: "layered None cf_issuer (Some ?cf) machine = Some issuer" "layered None cf_client_id (Some ?cf) machine = Some client_id"
    "layered None cf_scopes (Some ?cf) machine = Some (oc_scopes c)" "layered None cf_otel_headers_debounce_ms (Some ?cf) machine = Some (oc_debounce_ms c)"
    "layered None cf_open_browser (Some ?cf) machine = Some (oc_open_browser c)"
    "layered None cf_no_claude (Some ?cf) machine = Some (co_claude optout)" "layered None cf_no_codex (Some ?cf) machine = Some (co_codex optout)"
    "layered None cf_no_vscode (Some ?cf) machine = Some (co_vscode optout)"
    "layered None cf_codex_telemetry_only (Some ?cf) machine = Some (co_codex_telemetry_only optout)"
    by (rule layered_some; simp add: remembered_def got)+
  have eq: "c\<lparr>oc_last_no_claude := co_claude optout, oc_last_no_codex := co_codex optout, oc_last_no_vscode := co_vscode optout,
      oc_last_codex_telemetry_only := co_codex_telemetry_only optout\<rparr> =
     config_of_layers no_args (Some ?cf) machine (issuer, client_id) (ut, mt) (oc_otel_endpoint c) (oc_gateway_url c) pe xc b"
    by (intro oauth_config.equality) (simp_all add: config_of_layers_def got set same ports unwrap_or_def split: option.split)
  have "required_settings no_args (Some ?cf) machine = Inr (issuer, client_id)" by (simp add: required_settings_def set)
  moreover have "\<And>a. oc_otel_endpoint c = Some a \<Longrightarrow> secure_address al a" "\<And>a. oc_gateway_url c = Some a \<Longrightarrow> secure_address al a"
    using oe gw by (simp_all add: c config_of_layers_def)
  ultimately show ?thesis
    unfolding resolve_layers_ok eq using req(2) v1(1) v2 prof ex port b flags tok
    by (intro exI conjI; (rule refl)?) (auto simp: same ports)
qed

text \<open>The whole round: resolve, write back, resolve without flags.\<close>

definition written_reads_back :: "auth_lib \<Rightarrow> auth_world \<Rightarrow> string \<Rightarrow> oauth_config \<Rightarrow> client_opt_out \<Rightarrow> bool" where
  "written_reads_back al w path c optout \<longleftrightarrow>
     (case al_read_toml al (unwrap_or [] (map_of (aw_files w) path)) of
        None \<Rightarrow> False
      | Some t \<Rightarrow> al_read_toml al (al_print_toml al (remember_table c optout t)) = Some (remember_table c optout t))"

lemma load_empty: "config_of_table [] = Some cf \<Longrightarrow>
   cf_otel_token cf = None \<and> cf_otel_token_file cf = None \<and> cf_callback_port cf = None \<and> cf_callback_bind cf = None"
  by (auto simp: config_of_table_def get_str_def get_nat_def)

lemma load_plain:
  assumes "reliable al" "map_of (aw_files v) path = Some bytes" "al_read_toml al bytes = Some t" "config_of_table t = Some cf"
    and "cf_otel_token cf \<noteq> None \<Longrightarrow> \<exists>m. al_mode al path = Some m \<and> m mod 64 = 0"
  shows "\<exists>v'. load_config al path v = (Inr (Some cf), v') \<and> aw_files v' = aw_files v"
  using assms by (auto simp: load_config_def fs_read_def reliable_def db_bind_def db_return_def refuse_if_group_or_other_readable_def)

lemma loaded_file_is_private:
  "reliable al \<Longrightarrow> load_config al path w = (Inr (Some cf), w') \<Longrightarrow> cf_otel_token cf \<noteq> None \<Longrightarrow> \<exists>m. al_mode al path = Some m \<and> m mod 64 = 0"
  by (auto simp: load_config_def fs_read_def reliable_def db_bind_def db_return_def auth_fail_def refuse_if_group_or_other_readable_def
      split: option.splits if_splits)

lemma remember_writes:
  assumes "reliable al" "remember al c optout path w = (Inr (), w')"
  obtains t where "al_read_toml al (unwrap_or [] (map_of (aw_files w) path)) = Some t"
    "aw_files w' = AList.update path (al_print_toml al (remember_table c optout t)) (aw_files w)"
  using assms
  by (auto simp: remember_def fs_read_def fs_create_dir_def fs_write_def reliable_def db_bind_def auth_fail_def counted_call_def
      split: option.splits if_splits)

lemma found_table:
  assumes "reliable al" "al_read_toml al [] = Some []" "load_config al path w = (Inr f, w')"
    and "al_read_toml al (unwrap_or [] (map_of (aw_files w) path)) = Some t"
  shows "\<exists>cf. config_of_table t = Some cf \<and> (\<forall>g. f = Some g \<longrightarrow> cf = g) \<and> (f = None \<longrightarrow> t = [])"
  using assms
  by (auto simp: load_config_def fs_read_def reliable_def db_bind_def db_return_def auth_fail_def unwrap_or_def config_of_table_def
      split: option.splits prod.splits sum.splits if_splits)

lemma resolve_layers_files:
  assumes "reliable al" "resolve_layers al args user up machine mp w = (Inr c, w')"
  shows "aw_files w' = aw_files w"
  using assms(2) reads_onlyD(1) [OF token_reads_only [OF assms(1)]] unfolding resolve_layers_ok by metis

lemma settings_round:
  assumes first: "resolve_with_paths al args up mp w = (Inr c, w1)" and wrote: "remember al c optout up w1 = (Inr (), w2)"
    and flags: "oa_otel_token args = None" "oa_callback_port args = None" "oa_callback_bind args = None"
    and al: "reliable al" "al_read_toml al [] = Some []" "written_reads_back al w up c optout"
    and paths: "up \<noteq> mp" "Option.bind (file_at al w up) cf_otel_token_file \<noteq> Some up" "Option.bind (file_at al w mp) cf_otel_token_file \<noteq> Some up"
    and kept: "exchange_kept al (file_at al w mp) c"
  shows "\<exists>w3. resolve_with_paths al no_args up mp w2 =
     (Inr (c\<lparr>oc_last_no_claude := co_claude optout, oc_last_no_codex := co_codex optout, oc_last_no_vscode := co_vscode optout,
        oc_last_codex_telemetry_only := co_codex_telemetry_only optout\<rparr>), w3)"
proof -
  from first obtain user machine x y where
    u: "load_config al up w = (Inr user, x)" and m: "load_config al mp x = (Inr machine, y)" and l: "resolve_layers al args user up machine mp y = (Inr c, w1)"
    unfolding resolve_with_paths_def by (elim bind_ok)
  note lo = load_reads_only [OF al(1)]
  have x: "aw_files x = aw_files w" and y: "aw_files y = aw_files w" using reads_onlyD(1) [OF lo u] reads_onlyD(1) [OF lo m] by simp_all
  have fu: "user = file_at al w up" and fm: "machine = file_at al w mp"
    using load_finds [OF al(1) u] load_finds [OF al(1) m] x by (simp_all add: file_at_def)
  have w1: "aw_files w1 = aw_files w" using y resolve_layers_files [OF al(1) l] by simp
  obtain t where t: "al_read_toml al (unwrap_or [] (map_of (aw_files w) up)) = Some t"
    and w2: "aw_files w2 = AList.update up (al_print_toml al (remember_table c optout t)) (aw_files w)"
    using remember_writes [OF al(1) wrote] unfolding w1 by metis
  obtain cf where cf: "config_of_table t = Some cf" and u1: "\<And>f. user = Some f \<Longrightarrow> cf = f" and u2: "user = None \<Longrightarrow> t = []"
    using found_table [OF al(1,2) u t] by blast
  have reread: "al_read_toml al (al_print_toml al (remember_table c optout t)) = Some (remember_table c optout t)"
    using al(3) t by (simp add: written_reads_back_def)
  have priv: "\<exists>k. al_mode al up = Some k \<and> k mod 64 = 0" if "cf_otel_token (remembered c optout cf) \<noteq> None"
    using that u1 u2 loaded_file_is_private [OF al(1)] u cf load_empty by (cases user) (auto simp: remembered_def)
  obtain z where z: "load_config al up w2 = (Inr (Some (remembered c optout cf)), z)" "aw_files z = aw_files w2"
    using load_plain [OF al(1) _ reread remember_refines [OF cf] priv, of w2] by (auto simp: w2 update_conv')
  obtain z2 where z2: "load_config al mp z = (Inr machine, z2)" "aw_files z2 = aw_files z"
    using reads_onlyD(2) [OF lo m, of z] paths(1) by (auto simp: z(2) w2 x update_conv')
  have "\<exists>v'. resolve_layers al no_args (Some (remembered c optout cf)) up machine mp z2 = (Inr (c\<lparr>oc_last_no_claude := co_claude optout,
      oc_last_no_codex := co_codex optout, oc_last_no_vscode := co_vscode optout,
      oc_last_codex_telemetry_only := co_codex_telemetry_only optout\<rparr>), v')"
  proof (rule resolve_again [OF l flags])
    show "exchange_kept al machine c" using kept fm by simp
    show "cf_otel_token cf = None \<and> cf_otel_token_file cf = None \<and> cf_callback_port cf = None \<and> cf_callback_bind cf = None" if "user = None"
      using load_empty cf u2 that by simp
    show "map_of (aw_files z2) p = map_of (aw_files y) p"
      if "p \<in> set_option (Option.bind user cf_otel_token_file) \<union> set_option (Option.bind machine cf_otel_token_file)" for p
      using that paths(2,3) by (auto simp: z(2) z2(2) w2 y update_conv' fu fm)
  qed (use u1 al in auto)
  then show ?thesis unfolding resolve_with_paths_def using z z2 by (auto simp: db_bind_def)
qed

text \<open>An exchange that is switched off leaves no trace in the user's file, so that the machine's file decides the next time.\<close>

lemma cleared_exchange:
  assumes "oc_exchange c = None" "config_of_table (remember_table c optout t) = Some cf"
  shows "cf_token_exchange cf = None"
  using assms by (auto simp: config_of_table_def getters remember_table_def Let_def map_of_remember_exchange split: if_splits)

lemma exchange_on:
  "layered (oa_token_exchange args) cf_token_exchange user machine = Some True \<Longrightarrow> exchange_resolve al args user machine = Inr x \<Longrightarrow> x \<noteq> None"
  by (auto simp: exchange_resolve_def unwrap_or_def res_bind_def Let_def split: sum.split_asm option.split_asm)

lemma exchange_comes_back:
  assumes al: "reliable al" "written_reads_back al w up c optout" and "up \<noteq> mp" and off: "oc_exchange c = None"
    and on: "Option.bind (file_at al w mp) cf_token_exchange = Some True"
    and wrote: "remember al c optout up w = (Inr (), w')" and again: "resolve_with_paths al no_args up mp w' = (Inr c', w'')"
  shows "oc_exchange c' \<noteq> None"
proof -
  obtain t where t: "al_read_toml al (unwrap_or [] (map_of (aw_files w) up)) = Some t"
    and w': "aw_files w' = AList.update up (al_print_toml al (remember_table c optout t)) (aw_files w)"
    using remember_writes [OF al(1) wrote] .
  from again obtain user machine x y where
    u: "load_config al up w' = (Inr user, x)" and m: "load_config al mp x = (Inr machine, y)"
    and l: "resolve_layers al no_args user up machine mp y = (Inr c', w'')"
    unfolding resolve_with_paths_def by (elim bind_ok)
  have "aw_files x = aw_files w'" using reads_onlyD(1) [OF load_reads_only [OF al(1)] u] .
  then have "machine = file_at al w mp" using load_finds [OF al(1) m] \<open>up \<noteq> mp\<close> by (simp add: file_at_def w' update_conv')
  moreover have "user = config_of_table (remember_table c optout t)"
    using load_finds [OF al(1) u] al(2) t by (simp add: file_at_def w' update_conv' written_reads_back_def)
  then have "Option.bind user cf_token_exchange = None" using cleared_exchange [OF off, of optout t] by (cases "config_of_table (remember_table c optout t)") auto
  ultimately have "layered None cf_token_exchange user machine = Some True" using on by (simp add: layered_def)
  moreover have "exchange_resolve al no_args user machine = Inr (oc_exchange c')"
    using l by (auto simp: resolve_layers_ok config_of_layers_def)
  ultimately show ?thesis using exchange_on [of no_args user machine al "oc_exchange c'"] by simp
qed

end
