(* ===== verification/Auth_Session_Correct.thy ===== *)
theory Auth_Session_Correct
  imports Auth_Login Auth_Config_Correct
begin

text \<open>
  What the session commands guarantee: which requests they send, which files they change, and when a token
  is handed out. The interface is the locale \<open>auth_frame\<close>: a reflexive and transitive relation between
  worlds that holds for every call of the outside holds for every command.
\<close>

section \<open>Relations between worlds\<close>

definition steps :: "(auth_world \<Rightarrow> auth_world \<Rightarrow> bool) \<Rightarrow> 'a auth_op \<Rightarrow> bool" where
  "steps R f \<longleftrightarrow> (\<forall>w. R w (snd (f w)))"

lemma stepsD: "steps R f \<Longrightarrow> f w = (r, w') \<Longrightarrow> R w w'"
  unfolding steps_def by (metis snd_conv)

locale auth_frame =
  fixes R :: "auth_world \<Rightarrow> auth_world \<Rightarrow> bool"
  assumes refl: "R w w"
    and trans: "R u v \<Longrightarrow> R v w \<Longrightarrow> R u w"
begin

lemma steps_return: "steps R (db_return a)" "steps R (auth_fail e)" "steps R (of_res r)"
  by (simp_all add: steps_def db_return_def auth_fail_def of_res_def refl)

lemma steps_attempt: "steps R m \<Longrightarrow> steps R (attempt m)"
  by (auto simp: steps_def attempt_def split: prod.splits) (metis snd_conv)

lemma steps_bind: "steps R m \<Longrightarrow> (\<And>a. steps R (f a)) \<Longrightarrow> steps R (db_bind m f)"
  unfolding steps_def db_bind_def by (auto split: prod.splits sum.splits) (metis snd_conv trans)+

text \<open>What is known of a result carries over to the rest of the operation.\<close>

lemma steps_bind_post:
  "steps R m \<Longrightarrow> (\<And>a w w'. m w = (Inr a, w') \<Longrightarrow> Q a) \<Longrightarrow> (\<And>a. Q a \<Longrightarrow> steps R (f a)) \<Longrightarrow> steps R (db_bind m f)"
  unfolding steps_def db_bind_def by (auto split: prod.splits sum.splits) (metis snd_conv trans)+

lemmas steps_intros = steps_return steps_attempt steps_bind

lemma steps_option: "(r = None \<Longrightarrow> steps R f) \<Longrightarrow> (\<And>a. r = Some a \<Longrightarrow> steps R (g a)) \<Longrightarrow> steps R (case r of None \<Rightarrow> f | Some a \<Rightarrow> g a)"
  by (cases r) simp_all

lemma steps_sum: "(\<And>e. steps R (f e)) \<Longrightarrow> (\<And>a. steps R (g a)) \<Longrightarrow> steps R (case r of Inl e \<Rightarrow> f e | Inr a \<Rightarrow> g a)"
  by (cases r) simp_all

lemma steps_if: "(b \<Longrightarrow> steps R f) \<Longrightarrow> (\<not> b \<Longrightarrow> steps R g) \<Longrightarrow> steps R (if b then f else g)"
  by simp

lemmas steps_cases = steps_option steps_sum steps_if

end

text \<open>The calls of the outside that only count, and the file calls, as one contract.\<close>

locale auth_file_frame = auth_frame +
  fixes al :: auth_lib
  assumes calls: "aw_files w' = aw_files w \<Longrightarrow> aw_requests w' = aw_requests w \<Longrightarrow> aw_hops w' = aw_hops w \<Longrightarrow> R w w'"
begin

lemma steps_calls:
  "steps R (fs_read al path)" "steps R (fs_present al path)" "steps R (fs_create_dir al path)" "steps R (auth_now al)"
  "steps R (discovery_now al)" "steps R (acquire_lock al)"
  by (auto simp: steps_def fs_read_def fs_present_def fs_create_dir_def auth_now_def discovery_now_def acquire_lock_def
      counted_call_def intro!: calls split: io_outcome.splits option.splits)

lemma steps_read_session: "steps R (read_session al path)"
  unfolding read_session_def by (intro steps_intros steps_calls steps_cases)

lemma steps_is_fresh: "steps R (is_fresh_for al s n)"
  unfolding is_fresh_for_def by (intro steps_intros steps_calls)

lemma steps_random: "steps R (random_bytes al n)" "steps R (pkce_generate al)" "steps R (random_state al)"
proof -
  show 1: "steps R (random_bytes al k)" for k
    by (auto simp: steps_def random_bytes_def counted_call_def intro!: calls split: option.splits)
  show "steps R (pkce_generate al)" "steps R (random_state al)"
    unfolding pkce_generate_def random_state_def Let_def by (intro steps_intros 1)+
qed

lemma steps_tell: "steps R (show_user url)" "steps R (write_callback_response b)"
  by (auto simp: steps_def show_user_def write_callback_response_def intro!: calls)

lemma steps_bind_ports: "steps R (bind_ports al addr ps)"
proof -
  have "R w (snd (bind_ports al addr ps w))" for w
  proof (induction ps arbitrary: w)
    case (Cons p ps)
    have "R w (counted_call w)" by (simp add: calls counted_call_def)
    with Cons [of "counted_call w"] show ?case by (auto intro: trans)
  qed (simp add: refl)
  then show ?thesis by (simp add: steps_def)
qed

lemma steps_bind_with: "steps R (bind_with al addr port)"
  by (auto simp: bind_with_def bind_any_def steps_bind_ports intro!: calls split: option.split)
    (auto simp: steps_def counted_call_def intro!: calls)

lemma steps_callback: "steps R (await_callback al)"
proof -
  have p: "steps R (parse_callback_request al line)" for line
    unfolding parse_callback_request_def by (auto intro!: steps_intros steps_tell split: option.split sum.split prod.split)
  have c: "R w (counted_call w)" for w by (simp add: calls counted_call_def)
  show ?thesis using p trans [OF c] unfolding steps_def
    by (auto simp: await_callback_def c split: option.split)
qed

lemma steps_load_cached: "steps R (load_cached al issuer u)"
  unfolding load_cached_def
  by (intro steps_intros steps_calls steps_cases) (auto intro!: steps_intros steps_calls split: sum.splits option.splits)

end

section \<open>Pinned addresses\<close>

text \<open>An address at the origin of an issuer, over a transport that may carry a credential.\<close>

definition pinned :: "auth_lib \<Rightarrow> string \<Rightarrow> string \<Rightarrow> bool" where
  "pinned al issuer address \<longleftrightarrow>
     (case (al_url al (trim_slashes issuer), al_url al address) of
        (Some i, Some u) \<Rightarrow> require_secure i \<and> require_secure u \<and> url_origin u = url_origin i
      | _ \<Rightarrow> False)"

definition trusted :: "auth_lib \<Rightarrow> oauth_config \<Rightarrow> string \<Rightarrow> bool" where
  "trusted al cfg address \<longleftrightarrow> pinned al (oc_issuer cfg) address \<or>
     (case oc_exchange cfg of
        None \<Rightarrow> False
      | Some xc \<Rightarrow> (case xc_endpoint xc of Explicit e \<Rightarrow> address = e | Issuer i \<Rightarrow> pinned al i address))"

lemma same_origin_pins:
  assumes "require_same_origin al i e field = Inr ()" and "al_url al (trim_slashes issuer) = Some i" and "require_secure i"
  shows "pinned al issuer e"
  using assms by (auto simp: require_same_origin_def pinned_def split: option.splits if_splits)

lemma validated_is_pinned:
  assumes "validate_metadata al (trim_slashes issuer) i m = Inr ()" and "al_url al (trim_slashes issuer) = Some i" and "require_secure i"
  shows "pinned al issuer (om_token m)" and "om_revocation m = Some e \<Longrightarrow> pinned al issuer e"
    and "om_device m = Some e \<Longrightarrow> pinned al issuer e" and "om_authorization m = Some e \<Longrightarrow> pinned al issuer e"
  using assms same_origin_pins [OF _ assms(2,3)]
  by (auto simp: validate_metadata_def same_origin_if_def res_bind_def split: if_splits sum.splits option.splits)

definition discovered :: "auth_lib \<Rightarrow> string \<Rightarrow> oidc_metadata \<Rightarrow> bool" where
  "discovered al issuer m \<longleftrightarrow> pinned al issuer (om_token m) \<and>
     (\<forall>e \<in> set_option (om_revocation m) \<union> set_option (om_device m) \<union> set_option (om_authorization m). pinned al issuer e)"

lemma cached_is_validated:
  "load_cached al issuer u w = (Inr (Some m), w') \<Longrightarrow> validate_metadata al issuer u m = Inr ()"
  by (auto simp: load_cached_def db_return_def elim!: bind_ok split: sum.split_asm option.split_asm if_split_asm)

lemma fetched_is_validated:
  "discover_uncached al issuer u w = (Inr m, w') \<Longrightarrow> validate_metadata al issuer u m = Inr ()"
  by (auto simp: discover_uncached_def db_return_def auth_fail_def of_res_def elim!: bind_ok
      split: http_answer.split_asm option.split_asm if_split_asm)

lemma discover_is_pinned: "discover al issuer w = (Inr m, w') \<Longrightarrow> discovered al issuer m"
  unfolding discover_def Let_def
  by (auto simp: db_bind_Inr db_return_def auth_fail_def discovered_def split: option.splits if_splits
      dest!: cached_is_validated fetched_is_validated intro: validated_is_pinned)

section \<open>Relations over the commands\<close>

text \<open>
  What a relation has to allow so that it holds over the network half of a command: keeping a discovery document, and a
  request with a form to a trusted address.
\<close>

locale session_frame = auth_file_frame +
  fixes cfg :: oauth_config
  assumes keep: "steps R (store_cached al issuer m)"
    and send: "hq_form rq = None \<or> trusted al cfg (hq_url rq) \<Longrightarrow> steps R (http_send al rq)"
begin

lemma steps_discover_uncached: "steps R (discover_uncached al issuer u)"
  unfolding discover_uncached_def
  by (intro steps_intros send) (auto intro!: steps_intros keep split: http_answer.splits option.splits)

lemma steps_discover: "steps R (discover al issuer)"
  unfolding discover_def Let_def
  by (intro steps_cases steps_intros steps_load_cached) (auto intro!: steps_intros steps_discover_uncached split: option.splits)

lemma steps_token_request: "trusted al cfg endpoint \<Longrightarrow> steps R (token_request al endpoint params)"
  unfolding token_request_def
  by (intro steps_intros send) (auto intro!: steps_intros split: http_answer.splits option.splits)

lemma steps_into_session: "steps R (into_session al cfg r)"
  unfolding into_session_def by (intro steps_intros steps_calls) (simp add: Let_def steps_return)

lemma steps_refresh_or_fail: "steps R (refresh_or_fail al cfg s)"
  unfolding refresh_or_fail_def
proof (intro steps_cases steps_return)
  fix t
  show "steps R (db_bind (discover al (oc_issuer cfg)) (\<lambda>m. token_refresh al m cfg t))"
  proof (rule steps_bind_post [where Q = "discovered al (oc_issuer cfg)", OF steps_discover discover_is_pinned])
    fix m assume "discovered al (oc_issuer cfg) m"
    then have "trusted al cfg (om_token m)" by (simp add: trusted_def discovered_def)
    then show "steps R (token_refresh al m cfg t)"
      unfolding token_refresh_def by (intro steps_intros steps_token_request steps_into_session)
  qed
qed

lemma steps_exchange: "oc_exchange cfg = Some xc \<Longrightarrow> steps R (exchange_run al xc t)"
  unfolding exchange_run_def
proof (rule steps_bind_post [where Q = "trusted al cfg"])
  assume x: "oc_exchange cfg = Some xc"
  show "steps R (exchange_token_endpoint al xc)"
    unfolding exchange_token_endpoint_def by (auto intro!: steps_intros steps_discover split: exchange_endpoint.splits)
  show "steps R (db_bind (token_request al endpoint (exchange_params xc t)) (\<lambda>r. db_return (rt_access_token r)))"
    if "trusted al cfg endpoint" for endpoint
    using that by (intro steps_intros steps_token_request)
  show "trusted al cfg endpoint" if "exchange_token_endpoint al xc w = (Inr endpoint, w')" for endpoint w w'
    using that x by (auto simp: exchange_token_endpoint_def trusted_def db_return_def discovered_def elim!: bind_ok
        dest!: discover_is_pinned split: exchange_endpoint.splits)
qed

lemma steps_emit: "steps R (emit_token al cfg s)"
  unfolding emit_token_def by (auto intro!: steps_intros steps_exchange split: option.splits)

lemma steps_revoke: "steps R (revoke_token al cfg t)"
  unfolding revoke_token_def
proof (rule steps_bind_post [where Q = "discovered al (oc_issuer cfg)", OF steps_discover discover_is_pinned])
  fix m assume "discovered al (oc_issuer cfg) m"
  then have "trusted al cfg e" if "om_revocation m = Some e" for e using that by (simp add: trusted_def discovered_def)
  then show "steps R (case om_revocation m of None \<Rightarrow> db_return ()
     | Some endpoint \<Rightarrow>
         db_bind (http_send al \<lparr>hq_url = endpoint, hq_form = Some [(''token'', t), (''token_type_hint'', ''refresh_token''),
             (''client_id'', oc_client_id cfg)]\<rparr>) (\<lambda>answer.
           case answer of No_reply \<Rightarrow> auth_fail Revocation_error
           | Reply status x \<Rightarrow> (if 200 \<le> status \<and> status < 300 then db_return () else auth_fail Revocation_error)))"
    by (intro steps_cases steps_intros send) (auto intro!: steps_intros split: http_answer.splits)
qed

lemma steps_poll_from: "trusted al cfg (om_token m) \<Longrightarrow> R w (snd (poll_from al m cfg dv v slowed t w))"
proof (induction "1000 * dg_expires_in dv - t" arbitrary: slowed t w rule: less_induct)
  case less
  obtain x w1 where rq: "token_request al (om_token m) (poll_params cfg dv v) w = (x, w1)" by (cases "token_request al (om_token m) (poll_params cfg dv v) w")
  have w1: "R w w1" using stepsD [OF steps_token_request [OF less.prems] rq] .
  have s: "R w1 (snd (into_session al cfg r w1))" for r using steps_into_session unfolding steps_def by blast
  have again: "R w1 (snd (poll_from al m cfg dv v k t' w1))"
    if "t < t'" "t < 1000 * dg_expires_in dv" for k t'
    using that less.hyps [OF _ less.prems] by simp
  show ?case
    by (subst poll_from.simps)
      (auto simp: Let_def rq refl w1 intro!: trans [OF w1] s again split: sum.split auth_error.split)
qed

lemma steps_poll: "trusted al cfg (om_token m) \<Longrightarrow> steps R (poll al m cfg dv v)"
  by (simp add: steps_def poll_def steps_poll_from)

lemma steps_device: "discovered al (oc_issuer cfg) m \<Longrightarrow> steps R (device_run al cfg m)"
  unfolding device_run_def
  by (intro steps_cases steps_intros steps_random send)
    (auto intro!: steps_intros steps_tell steps_poll simp: trusted_def discovered_def split: http_answer.split option.split)

lemma steps_authcode: "discovered al (oc_issuer cfg) m \<Longrightarrow> steps R (authcode_run al cfg m)"
  unfolding authcode_run_def Let_def
  by (intro steps_intros steps_bind_with steps_random steps_tell steps_callback)
    (auto intro!: steps_intros steps_tell steps_token_request steps_into_session simp: trusted_def discovered_def)

end

text \<open>A relation that allows loading, storing and clearing the session as well holds over the whole commands.\<close>

locale command_frame = session_frame +
  assumes load: "steps R (load_session al (oc_issuer cfg) (oc_client_id cfg))"
    and store: "steps R (store_session al s)"
    and clear: "steps R (clear_session al issuer client_id)"
    and settings: "steps R (remember_settings al cfg optout)"
begin

lemma steps_login: "steps R (login_command al cfg device_code optout)"
  unfolding login_command_def
  by (intro steps_intros steps_calls steps_bind_post [where Q = "discovered al (oc_issuer cfg)", OF steps_discover discover_is_pinned]
      steps_cases steps_device steps_authcode store settings)

lemma steps_current: "steps R (current_session al cfg f)"
  unfolding current_session_def
  by (intro steps_intros steps_calls steps_cases load steps_is_fresh steps_refresh_or_fail store)

lemma steps_token: "steps R (token_command al cfg)"
  unfolding token_command_def by (intro steps_intros steps_current steps_emit)

lemma steps_headers: "steps R (otel_headers_command al cfg)"
  unfolding otel_headers_command_def by (intro steps_intros steps_current steps_emit)

lemma steps_refresh: "steps R (refresh_command al cfg)"
  unfolding refresh_command_def by (intro steps_intros steps_calls steps_cases load steps_refresh_or_fail store)

lemma steps_logout: "steps R (logout_command al cfg)"
  unfolding logout_command_def by (intro steps_intros steps_calls steps_cases load steps_revoke clear)

end

section \<open>Requests\<close>

text \<open>
  Requests are only added, and what is added with a form goes to an allowed address; a redirect is followed to a secure
  address only.
\<close>

definition posts_to :: "auth_lib \<Rightarrow> (string \<Rightarrow> bool) \<Rightarrow> auth_world \<Rightarrow> auth_world \<Rightarrow> bool" where
  "posts_to al P w w' \<longleftrightarrow> (\<exists>rqs hops. aw_requests w' = aw_requests w @ rqs \<and>
     (\<forall>rq \<in> set rqs. hq_form rq \<noteq> None \<longrightarrow> P (hq_url rq)) \<and>
     aw_hops w' = aw_hops w @ hops \<and> list_all (redirect_policy al) hops)"

lemma posts_to_trans: "posts_to al P u v \<Longrightarrow> posts_to al P v w \<Longrightarrow> posts_to al P u w"
proof -
  assume "posts_to al P u v" "posts_to al P v w"
  then obtain rqs hops rqs' hops' where
    "aw_requests v = aw_requests u @ rqs" "aw_requests w = aw_requests v @ rqs'"
    "\<forall>rq \<in> set rqs. hq_form rq \<noteq> None \<longrightarrow> P (hq_url rq)" "\<forall>rq \<in> set rqs'. hq_form rq \<noteq> None \<longrightarrow> P (hq_url rq)"
    "aw_hops v = aw_hops u @ hops" "aw_hops w = aw_hops v @ hops'"
    "list_all (redirect_policy al) hops" "list_all (redirect_policy al) hops'"
    unfolding posts_to_def by blast
  then show "posts_to al P u w" unfolding posts_to_def by (intro exI [of _ "rqs @ rqs'"] exI [of _ "hops @ hops'"]) auto
qed

interpretation posts: auth_file_frame "posts_to al P" al for P al
proof
  fix u v w
  show "posts_to al P w w" by (simp add: posts_to_def)
  show "posts_to al P u w" if "posts_to al P u v" "posts_to al P v w" using that by (rule posts_to_trans)
  show "posts_to al P v w" if "aw_requests w = aw_requests v" "aw_hops w = aw_hops v" using that by (simp add: posts_to_def)
qed

lemma changes_post_nothing:
  "steps (posts_to al P) (fs_write al path b)" "steps (posts_to al P) (fs_rename al path q)" "steps (posts_to al P) (fs_remove al path)"
  by (auto simp: steps_def fs_write_def fs_rename_def fs_remove_def posts_to_def counted_call_def split: io_outcome.splits option.splits)

lemma migration_posts_nothing: "steps (posts_to al P) (migrate_legacy_session al legacy target)"
  unfolding migrate_legacy_session_def
  by (intro posts.steps_intros posts.steps_calls posts.steps_cases changes_post_nothing)

interpretation sends: command_frame "posts_to al (trusted al cfg)" al cfg for al cfg
proof
  note st = posts.steps_intros posts.steps_cases posts.steps_calls changes_post_nothing
  show "steps (posts_to al (trusted al cfg)) (load_session al (oc_issuer cfg) (oc_client_id cfg))"
    unfolding load_session_def
    by (intro st posts.steps_read_session migration_posts_nothing)
  show "steps (posts_to al (trusted al cfg)) (store_cached al issuer m)" for issuer m
    unfolding store_cached_def by (intro st)
  show "steps (posts_to al (trusted al cfg)) (http_send al rq)" if "hq_form rq = None \<or> trusted al cfg (hq_url rq)" for rq
    using that by (auto simp: steps_def http_send_def posts_to_def counted_call_def Let_def list_all_iff dest: set_takeWhileD)
  show "steps (posts_to al (trusted al cfg)) (store_session al s)" for s
    unfolding store_session_def by (intro st)
  show "steps (posts_to al (trusted al cfg)) (clear_session al issuer client_id)" for issuer client_id
    unfolding clear_session_def by (intro st)
  show "steps (posts_to al (trusted al cfg)) (remember_settings al cfg optout)" for optout
    unfolding remember_settings_def remember_def by (intro st)
qed

section \<open>The stored session\<close>

text \<open>
  The bytes a load would find: those at the path of the session, or those an older build left. The two places do not
  contradict each other when at most one is there, or both hold the same.
\<close>

definition kept_bytes :: "string \<Rightarrow> string \<Rightarrow> auth_world \<Rightarrow> string option" where
  "kept_bytes path legacy w = (case map_of (aw_files w) path of None \<Rightarrow> map_of (aw_files w) legacy | Some b \<Rightarrow> Some b)"

definition coherent :: "string \<Rightarrow> string \<Rightarrow> auth_world \<Rightarrow> bool" where
  "coherent path legacy w \<longleftrightarrow> map_of (aw_files w) path = None \<or> map_of (aw_files w) legacy = None \<or>
     map_of (aw_files w) path = map_of (aw_files w) legacy"

definition keeps :: "string \<Rightarrow> string \<Rightarrow> auth_world \<Rightarrow> auth_world \<Rightarrow> bool" where
  "keeps path legacy w w' \<longleftrightarrow> (coherent path legacy w \<longrightarrow> coherent path legacy w' \<and> kept_bytes path legacy w' = kept_bytes path legacy w)"

text \<open>The two places of a session, for a digest that prints as 64 characters.\<close>

definition session_places :: "auth_lib \<Rightarrow> oauth_config \<Rightarrow> string \<Rightarrow> string \<Rightarrow> bool" where
  "session_places al cfg path legacy \<longleftrightarrow>
     (\<forall>x. length (al_sha256 al x) = 64) \<and> path \<noteq> legacy \<and>
     session_path al (oc_issuer cfg) (oc_client_id cfg) = Inr path \<and>
     legacy_session_path al (oc_issuer cfg) (oc_client_id cfg) = Inr legacy"

lemma keepsI:
  "map_of (aw_files w') path = map_of (aw_files w) path \<Longrightarrow> map_of (aw_files w') legacy = map_of (aw_files w) legacy \<Longrightarrow>
     keeps path legacy w w'"
  by (auto simp: keeps_def coherent_def kept_bytes_def split: option.splits)

interpretation keeps: auth_file_frame "keeps path legacy" al for path legacy al
proof
  fix u v w
  show "keeps path legacy w w" by (simp add: keeps_def)
  show "keeps path legacy u w" if "keeps path legacy u v" "keeps path legacy v w" using that by (simp add: keeps_def)
  show "keeps path legacy v w" if "aw_files w = aw_files v" using that by (simp add: keepsI)
qed

lemma base_dir_ends: "base_dir al var ms os = Inr d \<Longrightarrow> d \<noteq> [] \<and> last d = CHR ''h''"
  by (auto simp: base_dir_def path_join_def Let_def split: option.splits list.splits if_splits)

lemma file_in_dir: "base_dir al var ms os = Inr d \<Longrightarrow> path_join d name = d @ CHR ''/'' # name"
  using base_dir_ends by (fastforce simp: path_join_def)

lemma discovery_is_elsewhere:
  assumes "base_dir al v1 m1 o1 = Inr d" and "base_dir al v2 m2 o2 = Inr c" and "length k = length h"
  shows "path_join d (k @ ''.json'') \<noteq> path_join c (''discovery-'' @ h @ ''.json'')"
proof
  assume "path_join d (k @ ''.json'') = path_join c (''discovery-'' @ h @ ''.json'')"
  then have "(d @ ''/'') @ k = (c @ ''/discovery-'') @ h" using assms(1,2) by (simp add: file_in_dir)
  then have "d @ ''/'' = c @ ''/discovery-''" using assms(3) by (metis append_eq_append_conv)
  then have "last (d @ ''/'') = last (c @ ''/discovery-'')" by simp
  then show False by simp
qed

lemma places_apart:
  assumes "session_places al cfg path legacy"
  shows "tmp_path path \<noteq> path" "tmp_path path \<noteq> legacy" "path \<noteq> legacy"
    and "discovery_cache_path al issuer = Inr p \<Longrightarrow> p \<noteq> path \<and> p \<noteq> legacy"
proof -
  show "path \<noteq> legacy" using assms by (simp add: session_places_def)
  show "tmp_path path \<noteq> path" by (simp add: tmp_path_def)
  obtain c where c: "cache_dir al = Inr c" "legacy = path_join c (session_key al (oc_issuer cfg) (oc_client_id cfg) @ ''.json'')"
    using assms by (auto simp: session_places_def legacy_session_path_def res_bind_def split: sum.splits)
  obtain d where d: "state_dir al = Inr d" "path = path_join d (session_key al (oc_issuer cfg) (oc_client_id cfg) @ ''.json'')"
    using assms by (auto simp: session_places_def session_path_def res_bind_def split: sum.splits)
  have "last legacy = CHR ''n''" using c file_in_dir by (simp add: cache_dir_def)
  then show "tmp_path path \<noteq> legacy" by (auto simp: tmp_path_def)
  assume "discovery_cache_path al issuer = Inr p"
  then have "p = path_join c (''discovery-'' @ al_sha256 al issuer @ ''.json'')"
    using c by (simp add: discovery_cache_path_def res_bind_def)
  moreover have "length (al_sha256 al x) = length (al_sha256 al y)" for x y using assms by (simp add: session_places_def)
  ultimately show "p \<noteq> path \<and> p \<noteq> legacy"
    using c d discovery_is_elsewhere unfolding cache_dir_def state_dir_def session_key_def by metis
qed

lemma other_file_kept:
  assumes "p \<noteq> path" "p \<noteq> legacy"
  shows "steps (keeps path legacy) (fs_write al p b)" "steps (keeps path legacy) (fs_remove al p)"
  using assms by (auto simp: steps_def fs_write_def fs_remove_def counted_call_def update_conv' delete_conv'
      intro!: keepsI split: io_outcome.splits)

text \<open>
  Migration moves the bytes from the old place to the new one, and an interrupted migration leaves them in one of the two.
\<close>

lemma migration_keeps:
  assumes "session_places al cfg path legacy"
  shows "steps (keeps path legacy) (migrate_legacy_session al legacy path)"
  unfolding steps_def
proof
  fix w
  note apart = places_apart(1-3) [OF assms]
  show "keeps path legacy w (snd (migrate_legacy_session al legacy path w))"
    using apart
    by (auto simp: migrate_legacy_session_def db_bind_def db_return_def auth_fail_def fs_read_def fs_create_dir_def fs_write_def
        fs_rename_def fs_remove_def counted_call_def update_conv' delete_conv' keeps_def coherent_def kept_bytes_def
        split: io_outcome.splits option.splits)
qed

lemma load_keeps:
  assumes "session_places al cfg path legacy"
  shows "steps (keeps path legacy) (load_session al (oc_issuer cfg) (oc_client_id cfg))"
proof -
  have places: "session_path al (oc_issuer cfg) (oc_client_id cfg) = Inr path" "legacy_session_path al (oc_issuer cfg) (oc_client_id cfg) = Inr legacy"
    using assms by (simp_all add: session_places_def)
  have eq: "load_session al (oc_issuer cfg) (oc_client_id cfg) =
     db_bind (fs_present al path) (\<lambda>here. if here then read_session al path
       else db_bind (fs_present al legacy) (\<lambda>old. if \<not> old then read_session al path
         else db_bind (attempt (migrate_legacy_session al legacy path)) (\<lambda>moved.
           case moved of Inr _ \<Rightarrow> read_session al path | Inl _ \<Rightarrow> read_session al legacy)))"
    unfolding load_session_def places bind_of_res sum.case ..
  show ?thesis unfolding eq
    by (intro keeps.steps_intros keeps.steps_cases keeps.steps_calls keeps.steps_read_session migration_keeps [OF assms])
qed

lemma keeps_frame: "session_places al cfg path legacy \<Longrightarrow> session_frame (keeps path legacy) al cfg"
proof unfold_locales
  assume places: "session_places al cfg path legacy"
  show "steps (keeps path legacy) (store_cached al issuer m)" for issuer m
    unfolding store_cached_def using places_apart(4) [OF places]
    by (auto intro!: keeps.steps_intros keeps.steps_cases keeps.steps_calls other_file_kept split: sum.split)
  show "steps (keeps path legacy) (http_send al rq)" for rq
    by (auto simp: steps_def http_send_def counted_call_def Let_def intro: keepsI)
qed

text \<open>A session that could not be stored leaves the earlier one, and one that could be is what is then at its path.\<close>

lemma store_failed_keeps:
  assumes places: "session_places al cfg path legacy" and s: "se_issuer s = oc_issuer cfg" "se_client_id s = oc_client_id cfg"
    and "store_session al s w = (Inl e, w')"
  shows "keeps path legacy w w'"
proof -
  have "session_path al (se_issuer s) (se_client_id s) = Inr path" using places s by (simp add: session_places_def)
  then show ?thesis using assms(4) places_apart(1,2) [OF places]
    by (auto simp: store_session_def db_bind_def db_return_def auth_fail_def attempt_def of_res_def fs_create_dir_def fs_write_def
        fs_rename_def fs_remove_def counted_call_def update_conv' delete_conv' intro!: keepsI split: io_outcome.splits option.splits
        sum.splits if_splits)
qed

lemma stored_is_there:
  assumes "session_path al (se_issuer s) (se_client_id s) = Inr path" and "store_session al s w = (Inr (), w')"
  shows "map_of (aw_files w') path = Some (al_print_session al s)" and "aw_requests w' = aw_requests w"
  using assms by (auto simp: store_session_def db_bind_def db_return_def auth_fail_def attempt_def of_res_def fs_create_dir_def
      fs_write_def fs_rename_def fs_remove_def counted_call_def update_conv' split: io_outcome.splits option.splits sum.splits if_splits)

lemma refreshed_is_the_same_session:
  "refresh_or_fail al cfg s w = (Inr r, w') \<Longrightarrow> se_issuer r = oc_issuer cfg \<and> se_client_id r = oc_client_id cfg"
  by (auto simp: refresh_or_fail_def token_refresh_def into_session_def Let_def db_return_def auth_fail_def elim!: bind_ok
      split: option.split_asm)

end
