(* ===== verification/Auth_Commands.thy ===== *)
theory Auth_Commands
  imports Auth_Session_Correct
begin

text \<open>
  The commands as a whole: what a token that is handed out rests on, what a failed command leaves, what logging out
  removes, and what the two ways of signing in ask of the server.
\<close>

section \<open>Handing out a token\<close>

interpretation silent: auth_file_frame "\<lambda>w w'. aw_requests w' = aw_requests w" al for al
  by unfold_locales simp_all

lemma silent_changes:
  "steps (\<lambda>w w'. aw_requests w' = aw_requests w) (fs_write al path b)"
  "steps (\<lambda>w w'. aw_requests w' = aw_requests w) (fs_rename al path q)"
  "steps (\<lambda>w w'. aw_requests w' = aw_requests w) (fs_remove al path)"
  by (auto simp: steps_def fs_write_def fs_rename_def fs_remove_def counted_call_def split: io_outcome.splits option.splits)

lemma load_is_silent: "steps (\<lambda>w w'. aw_requests w' = aw_requests w) (load_session al issuer client_id)"
  unfolding load_session_def migrate_legacy_session_def
  by (intro silent.steps_intros silent.steps_cases silent.steps_calls silent.steps_read_session silent_changes)

lemma fresh_means:
  "is_fresh_for al s n w = (Inr True, w') \<Longrightarrow>
     aw_requests w' = aw_requests w \<and> (\<exists>k x. al_clock al k = Some x \<and> sat_add x n < se_expires_at s)"
  by (auto simp: is_fresh_for_def auth_now_def db_bind_def db_return_def counted_call_def split: option.splits)

lemma current_is_fresh_or_stored:
  assumes "current_session al cfg f w = (Inr s, w')"
  shows "(aw_requests w' = aw_requests w \<and> (\<exists>k x. al_clock al k = Some x \<and> sat_add x (required_remaining_secs f s) < se_expires_at s)) \<or>
     (\<exists>path. session_path al (oc_issuer cfg) (oc_client_id cfg) = Inr path \<and> map_of (aw_files w') path = Some (al_print_session al s))"
proof -
  from assms obtain w1 found w2 where 1: "acquire_lock al w = (Inr (), w1)"
    and 2: "load_session al (oc_issuer cfg) (oc_client_id cfg) w1 = (Inr found, w2)"
    and 3: "(case found of None \<Rightarrow> auth_fail No_session | Some s \<Rightarrow>
       db_bind (is_fresh_for al s (required_remaining_secs f s)) (\<lambda>fresh. if fresh then db_return s
         else db_bind (refresh_or_fail al cfg s) (\<lambda>refreshed. db_bind (store_session al refreshed) (\<lambda>_. db_return refreshed)))) w2 = (Inr s, w')"
    unfolding current_session_def by (elim bind_ok) auto
  have rq: "aw_requests w2 = aw_requests w"
    using stepsD [OF load_is_silent 2] stepsD [OF silent.steps_calls(6) 1] by simp
  from 3 obtain q fresh w3 where q: "found = Some q" and 4: "is_fresh_for al q (required_remaining_secs f q) w2 = (Inr fresh, w3)"
    and 5: "(if fresh then db_return q else db_bind (refresh_or_fail al cfg q) (\<lambda>refreshed. db_bind (store_session al refreshed)
       (\<lambda>_. db_return refreshed))) w3 = (Inr s, w')"
    by (auto simp: auth_fail_def elim!: bind_ok split: option.splits)
  show ?thesis
  proof (cases fresh)
    case True
    then show ?thesis using 4 5 rq fresh_means [of al q] by (auto simp: db_return_def)
  next
    case False
    with 5 obtain w4 w5 where r: "refresh_or_fail al cfg q w3 = (Inr s, w4)" and st: "store_session al s w4 = (Inr (), w5)" and "w' = w5"
      by (auto simp: db_return_def elim!: bind_ok)
    have "\<exists>path. session_path al (oc_issuer cfg) (oc_client_id cfg) = Inr path"
      using st refreshed_is_the_same_session [OF r] by (auto simp: store_session_def of_res_ok elim!: bind_ok)
    then show ?thesis using stored_is_there(1) st \<open>w' = w5\<close> refreshed_is_the_same_session [OF r] by auto
  qed
qed

text \<open>With an exchange configured, only the exchanged token is printed.\<close>

lemma token_request_ok:
  "token_request al endpoint params w = (Inr r, w') \<Longrightarrow>
     \<exists>k status body. al_send al k \<lparr>hq_url = endpoint, hq_form = Some params\<rparr> = Reply status (Some body) \<and> 200 \<le> status \<and> status < 300 \<and>
       al_read_token al body = Some r"
  by (auto simp: token_request_def http_send_def db_return_def auth_fail_def Let_def elim!: bind_ok
      split: http_answer.split_asm option.split_asm if_split_asm)

lemma token_is_exchanged:
  assumes "oc_exchange cfg = Some xc" and "token_command al cfg w = (Inr t, w')"
  shows "\<exists>endpoint subject k status body r.
     al_send al k \<lparr>hq_url = endpoint, hq_form = Some (exchange_params xc subject)\<rparr> = Reply status (Some body) \<and> 200 \<le> status \<and> status < 300 \<and>
     al_read_token al body = Some r \<and> t = rt_access_token r @ [newline]"
  using assms
  by (auto simp: token_command_def emit_token_def exchange_run_def attempt_def of_res_def res_map_err_def db_return_def elim!: bind_ok
      split: prod.splits sum.split_asm dest!: token_request_ok) blast

section \<open>What a failure leaves\<close>

lemma refresh_failed_keeps:
  assumes places: "session_places al cfg path legacy" and "refresh_command al cfg w = (Inl e, w')"
  shows "keeps path legacy w w'"
proof -
  note frame = keeps_frame [OF places]
  note tr = keeps.trans
  have l: "keeps path legacy x y" if "load_session al (oc_issuer cfg) (oc_client_id cfg) x = (r, y)" for r x y
    using stepsD [OF load_keeps [OF places] that] .
  have rf: "keeps path legacy x y" if "refresh_or_fail al cfg s x = (r, y)" for s r x y
    using stepsD [OF session_frame.steps_refresh_or_fail [OF frame] that] .
  have c: "keeps path legacy x y" if "acquire_lock al x = (r, y)" for r x y using stepsD [OF keeps.steps_calls(6) that] .
  have n: "keeps path legacy x y" if "auth_now al x = (r, y)" for r x y using stepsD [OF keeps.steps_calls(4) that] .
  have st: "keeps path legacy x y" if "store_session al s x = (Inl d, y)" "refresh_or_fail al cfg q u = (Inr s, v)" for s d x y q u v
    using store_failed_keeps [OF places _ _ that(1)] refreshed_is_the_same_session [OF that(2)] by simp
  show ?thesis using assms(2) unfolding refresh_command_def
    by (auto simp: auth_fail_def elim!: bind_failed split: option.split_asm dest: c l intro: tr) (metis c l rf n st tr)+
qed

section \<open>Logging out\<close>

lemma clear_removes:
  assumes "clear_session al issuer client_id w = (Inr (), w')"
    and "session_path al issuer client_id = Inr path" and "legacy_session_path al issuer client_id = Inr legacy"
  shows "map_of (aw_files w') path = None \<and> map_of (aw_files w') legacy = None"
  using assms by (auto simp: clear_session_def db_bind_def db_return_def of_res_def fs_remove_def counted_call_def delete_conv'
      split: if_splits)

lemma logout_removes:
  assumes "logout_command al cfg w = (Inr (), w')"
    and "session_path al (oc_issuer cfg) (oc_client_id cfg) = Inr path" and "legacy_session_path al (oc_issuer cfg) (oc_client_id cfg) = Inr legacy"
  shows "map_of (aw_files w') path = None \<and> map_of (aw_files w') legacy = None"
  using assms(1) clear_removes [OF _ assms(2,3)] unfolding logout_command_def by (auto elim!: bind_ok)

text \<open>Any other file is left to itself by the network half of a command, but for the discovery document.\<close>

lemma same_file_frame:
  assumes "\<And>issuer. discovery_cache_path al issuer \<noteq> Inr p"
  shows "session_frame (\<lambda>w w'. map_of (aw_files w') p = map_of (aw_files w) p) al cfg"
proof unfold_locales
  show "steps (\<lambda>w w'. map_of (aw_files w') p = map_of (aw_files w) p) (store_cached al issuer m)" for issuer m
    using assms [of issuer]
    by (auto simp: steps_def store_cached_def db_bind_def db_return_def attempt_def fs_create_dir_def discovery_now_def fs_write_def
        counted_call_def update_conv' split: sum.split io_outcome.split)
  show "steps (\<lambda>w w'. map_of (aw_files w') p = map_of (aw_files w) p) (http_send al rq)" for rq
    by (simp add: steps_def http_send_def counted_call_def Let_def)
qed simp_all

text \<open>A rename that fails while a session is migrated leaves the copy it was to rename, and logging out does not look for it.\<close>

lemma migration_leaves_copy:
  assumes places: "session_places al cfg path legacy" and "map_of (aw_files w) path = None" "map_of (aw_files w) legacy = Some bytes"
    and io: "\<And>k. k \<noteq> aw_calls w + 5 \<Longrightarrow> al_io al k = Io_done" "al_io al (aw_calls w + 5) = Io_refused"
    and s: "al_read_session al bytes = Some s"
  shows "\<exists>w'. load_session al (oc_issuer cfg) (oc_client_id cfg) w = (Inr (Some s), w') \<and> map_of (aw_files w') (tmp_path path) = Some bytes"
  using assms(2,3) io(1) io(2) [unfolded numeral_eq_Suc pred_numeral_simps numeral_One One_nat_def add_Suc_right add_0_right] s
    places places_apart(1-3) [OF places]
  by (auto simp: session_places_def load_session_def migrate_legacy_session_def read_session_def of_res_def attempt_def db_bind_def db_return_def
      auth_fail_def fs_present_def fs_read_def fs_create_dir_def fs_write_def fs_rename_def counted_call_def update_conv')

lemma logout_leaves_copy:
  assumes places: "session_places al cfg path legacy" and "map_of (aw_files w) path = None" "map_of (aw_files w) legacy = Some bytes"
    and io: "\<And>k. k \<noteq> aw_calls w + 6 \<Longrightarrow> al_io al k = Io_done" "al_io al (aw_calls w + 6) = Io_refused"
    and s: "al_read_session al bytes = Some s" and out: "logout_command al cfg w = (Inr (), w')"
  shows "map_of (aw_files w') (tmp_path path) = Some bytes"
proof -
  let ?t = "tmp_path path"
  have d: "discovery_cache_path al issuer \<noteq> Inr ?t" for issuer
  proof
    assume "discovery_cache_path al issuer = Inr ?t"
    then have "last ?t = CHR ''n''"
      by (auto simp: discovery_cache_path_def cache_dir_def res_bind_def file_in_dir dest!: arg_cong [where f = last] split: sum.splits)
    then show False by (simp add: tmp_path_def)
  qed
  from out obtain w1 found w2 w3 where 1: "acquire_lock al w = (Inr (), w1)"
    and 2: "load_session al (oc_issuer cfg) (oc_client_id cfg) w1 = (Inr found, w2)"
    and 3: "(case Option.bind found se_refresh_token of None \<Rightarrow> db_return ()
       | Some refresh_token \<Rightarrow> db_bind (attempt (revoke_token al cfg refresh_token)) (\<lambda>_. db_return ())) w2 = (Inr (), w3)"
    and 4: "clear_session al (oc_issuer cfg) (oc_client_id cfg) w3 = (Inr (), w')"
    unfolding logout_command_def by (elim bind_ok) auto
  have w1: "w1 = counted_call w" using 1 by (auto simp: acquire_lock_def split: if_splits)
  have "map_of (aw_files w2) ?t = Some bytes"
    using migration_leaves_copy [OF places, of w1 bytes s] assms(2,3) io s 2 by (auto simp: w1 counted_call_def add.commute)
  moreover have "map_of (aw_files w3) ?t = map_of (aw_files w2) ?t"
    using 3 session_frame.steps_revoke [OF same_file_frame [OF d], of cfg]
    by (auto simp: db_return_def attempt_def steps_def elim!: bind_ok split: option.split_asm prod.split_asm) (metis snd_conv)
  moreover have "map_of (aw_files w') ?t = map_of (aw_files w3) ?t"
    using 4 places places_apart(1,2) [OF places]
    by (auto simp: session_places_def clear_session_def db_bind_def db_return_def of_res_def fs_remove_def counted_call_def delete_conv'
        split: if_splits)
  ultimately show ?thesis by simp
qed

section \<open>A stored session is used again\<close>

lemma required_within_half:
  "se_lifetime s = Some l \<Longrightarrow> required_remaining_secs f s \<le> max (l div 2) SKEW_SECONDS"
  by (cases f) (auto simp: required_remaining_secs_def Let_def)

lemma reads_stored:
  assumes "reliable al" "session_path al issuer client_id = Inr path" "map_of (aw_files w) path = Some bytes" "al_read_session al bytes = Some s"
  shows "\<exists>w'. load_session al issuer client_id w = (Inr (Some s), w') \<and> aw_requests w' = aw_requests w"
  using assms
  by (auto simp: load_session_def read_session_def fs_present_def fs_read_def reliable_def db_bind_def db_return_def of_res_def counted_call_def)

lemma stored_session_is_reused:
  assumes al: "reliable al" "\<And>n. al_lock al n" "\<And>n. al_clock al n = Some y"
    and s: "se_issuer s = oc_issuer cfg" "se_client_id s = oc_client_id cfg" "se_lifetime s = Some l" "al_read_session al (al_print_session al s) = Some s"
    and half: "y + max (l div 2) SKEW_SECONDS < se_expires_at s"
    and stored: "store_session al s w = (Inr (), w1)"
  shows "\<exists>w2. current_session al cfg f w1 = (Inr s, w2) \<and> aw_requests w2 = aw_requests w1"
proof -
  obtain path where path: "session_path al (oc_issuer cfg) (oc_client_id cfg) = Inr path"
    using stored s by (auto simp: store_session_def of_res_ok elim!: bind_ok)
  have there: "map_of (aw_files w1) path = Some (al_print_session al s)" using stored_is_there(1) [OF _ stored] path s by simp
  obtain v where v: "load_session al (oc_issuer cfg) (oc_client_id cfg) (counted_call w1) = (Inr (Some s), v)" "aw_requests v = aw_requests w1"
    using reads_stored [OF al(1) path, of "counted_call w1"] there s(4) by (auto simp: counted_call_def)
  have "sat_add y (required_remaining_secs f s) < se_expires_at s"
    using required_within_half [OF s(3), of f] half by (simp add: sat_add_def)
  then have "is_fresh_for al s (required_remaining_secs f s) v = (Inr True, counted_call v)"
    using al(3) by (simp add: is_fresh_for_def auth_now_def db_bind_def db_return_def)
  then show ?thesis using v al(2)
    by (auto simp: current_session_def acquire_lock_def db_bind_def db_return_def counted_call_def)
qed

section \<open>Signing in\<close>

lemma token_request_sends: "aw_requests (snd (token_request al e ps w)) = aw_requests w @ [\<lparr>hq_url = e, hq_form = Some ps\<rparr>]"
  by (auto simp: token_request_def http_send_def db_bind_def db_return_def auth_fail_def counted_call_def Let_def split: http_answer.split option.split)

lemma into_session_sends: "aw_requests (snd (into_session al cfg r w)) = aw_requests w"
  by (auto simp: into_session_def auth_now_def db_bind_def db_return_def Let_def counted_call_def split: option.split)

lemma poll_from_sends:
  "\<exists>n. aw_requests (snd (poll_from al m cfg dv v slowed t w)) =
     aw_requests w @ replicate n \<lparr>hq_url = om_token m, hq_form = Some (poll_params cfg dv v)\<rparr> \<and>
     (n = 0 \<or> t + n * (1000 * max (dg_interval dv) 1) < 1000 * dg_expires_in dv)"
proof (induction "1000 * dg_expires_in dv - t" arbitrary: slowed t w rule: less_induct)
  case less
  let ?rq = "\<lparr>hq_url = om_token m, hq_form = Some (poll_params cfg dv v)\<rparr>" and ?i = "1000 * max (dg_interval dv) 1"
  define woken where "woken = t + 1000 * (max (dg_interval dv) 1 + slowed) + al_overshoot al (aw_calls w)"
  obtain x w1 where rq: "token_request al (om_token m) (poll_params cfg dv v) w = (x, w1)" by (cases "token_request al (om_token m) (poll_params cfg dv v) w")
  have w1: "aw_requests w1 = aw_requests w @ [?rq]" using token_request_sends [of al "om_token m" "poll_params cfg dv v" w] rq by simp
  show ?case
  proof (cases "woken \<ge> 1000 * dg_expires_in dv")
    case True
    then show ?thesis by (subst poll_from.simps) (auto simp: Let_def woken_def intro!: exI [of _ 0])
  next
    case False
    have far: "t + ?i \<le> woken" by (simp add: woken_def algebra_simps)
    have more: "\<exists>n. aw_requests (snd (poll_from al m cfg dv v k (woken + d) w1)) = aw_requests w @ replicate n ?rq \<and>
       (n = 0 \<or> t + n * ?i < 1000 * dg_expires_in dv)" for k d
    proof -
      have "1000 * dg_expires_in dv - (woken + d) < 1000 * dg_expires_in dv - t" using False far by simp
      from less [OF this, of k w1] obtain n where n: "aw_requests (snd (poll_from al m cfg dv v k (woken + d) w1)) = aw_requests w1 @ replicate n ?rq"
        "n = 0 \<or> woken + d + n * ?i < 1000 * dg_expires_in dv" by blast
      then show ?thesis using w1 far False by (intro exI [of _ "Suc n"]) (auto simp: algebra_simps)
    qed
    have one: "\<exists>n. aw_requests w1 = aw_requests w @ replicate n ?rq \<and> (n = 0 \<or> t + n * ?i < 1000 * dg_expires_in dv)"
      using w1 far False by (intro exI [of _ 1]) auto
    show ?thesis using False more one into_session_sends [of al cfg _ w1] unfolding woken_def
      by (subst poll_from.simps) (simp add: Let_def rq split: sum.split auth_error.split)
  qed
qed

lemma poll_sends:
  "\<exists>n. aw_requests (snd (poll al m cfg dv v w)) =
     aw_requests w @ replicate n \<lparr>hq_url = om_token m, hq_form = Some (poll_params cfg dv v)\<rparr> \<and>
     n * max (dg_interval dv) 1 \<le> dg_expires_in dv"
proof -
  obtain n where "aw_requests (snd (poll al m cfg dv v w)) = aw_requests w @ replicate n \<lparr>hq_url = om_token m, hq_form = Some (poll_params cfg dv v)\<rparr>"
    "n = 0 \<or> 0 + n * (1000 * max (dg_interval dv) 1) < 1000 * dg_expires_in dv"
    using poll_from_sends [of al m cfg dv v 0 0 w] unfolding poll_def by blast
  moreover from this(2) have "n * max (dg_interval dv) 1 \<le> dg_expires_in dv" by (auto simp: mult.left_commute)
  ultimately show ?thesis by blast
qed

text \<open>An operation that sent something got past its silent part.\<close>

lemma past_silent:
  assumes "aw_requests (snd (db_bind m f w)) \<noteq> aw_requests w" and "steps (\<lambda>w w'. aw_requests w' = aw_requests w) m"
  obtains a v where "m w = (Inr a, v)" "aw_requests v = aw_requests w" "snd (db_bind m f w) = snd (f a v)" "aw_requests (snd (f a v)) \<noteq> aw_requests v"
proof (cases "m w")
  case (Pair x v)
  have v: "aw_requests v = aw_requests w" using stepsD [OF assms(2) Pair] .
  then show ?thesis using that assms(1) Pair by (cases x) (auto simp: db_bind_def)
qed

text \<open>
  A code is redeemed only when the callback returned the state of the address the user was shown, and with the verifier of
  the challenge in that address.
\<close>

lemma redeem_sends:
  "aw_requests (snd (db_bind (attempt (token_request al e ps)) (\<lambda>response. db_bind (write_callback_response (b response)) (\<lambda>_.
     db_bind (of_res response) (\<lambda>r. into_session al cfg r))) w)) = aw_requests w @ [\<lparr>hq_url = e, hq_form = Some ps\<rparr>]"
proof (cases "token_request al e ps w")
  case (Pair x v)
  have "aw_requests v = aw_requests w @ [\<lparr>hq_url = e, hq_form = Some ps\<rparr>]" using token_request_sends [of al e ps w] Pair by simp
  then show ?thesis using Pair
    by (cases x) (simp_all add: db_bind_def attempt_def of_res_def write_callback_response_def into_session_sends)
qed

lemma callback_ok:
  "await_callback al w = (Inr (code, state), w') \<Longrightarrow>
     \<exists>k request_line pairs. al_accept al k = Some request_line \<and> Option.bind (second_word request_line) (al_query al) = Some pairs \<and>
       callback_pairs pairs None None = Inr (Some code, Some state)"
  by (auto simp: await_callback_def parse_callback_request_def db_return_def auth_fail_def elim!: bind_ok
      split: option.split_asm sum.split_asm prod.split_asm)

lemma code_is_bound:
  assumes sent: "aw_requests (snd (authcode_run al cfg m w)) \<noteq> aw_requests w"
  shows "\<exists>endpoint redirect pk state url k request_line pairs code.
     om_authorization m = Some endpoint \<and> al_with_query al endpoint (authorize_params cfg redirect pk state) = Some url \<and>
     pk_challenge pk = al_sha256_base64 al (pk_verifier pk) \<and>
     al_accept al k = Some request_line \<and> Option.bind (second_word request_line) (al_query al) = Some pairs \<and>
     callback_pairs pairs None None = Inr (Some code, Some state) \<and>
     aw_requests (snd (authcode_run al cfg m w)) =
       aw_requests w @ [\<lparr>hq_url = om_token m, hq_form = Some (code_params cfg code redirect pk)\<rparr>]"
proof -
  note s = silent.steps_bind_with silent.steps_random silent.steps_tell silent.steps_callback silent.steps_return
  from sent obtain port w1 pk w2 state w3 url w4 w5 cb w6 where
    pk: "pkce_generate al w1 = (Inr pk, w2)" and url: "build_authorize_url al m cfg (''http://127.0.0.1:'' @ show_nat port @ ''/callback'') pk state = Inr url"
    and cb: "await_callback al w5 = (Inr cb, w6)" and rq: "aw_requests w6 = aw_requests w"
    and last: "snd (authcode_run al cfg m w) = snd ((case cb of (code, returned_state) \<Rightarrow>
       if returned_state \<noteq> state then db_bind (write_callback_response False) (\<lambda>_. auth_fail State_mismatch)
       else db_bind (attempt (token_request al (om_token m) (code_params cfg code (''http://127.0.0.1:'' @ show_nat port @ ''/callback'') pk))) (\<lambda>response.
         db_bind (write_callback_response (case response of Inl _ \<Rightarrow> False | Inr _ \<Rightarrow> True)) (\<lambda>_.
         db_bind (of_res response) (\<lambda>r. into_session al cfg r)))) w6)"
    and more: "aw_requests (snd (authcode_run al cfg m w)) \<noteq> aw_requests w6"
    unfolding authcode_run_def Let_def of_res_ok
    by (elim past_silent [OF _ s(1)] past_silent [OF _ s(3)] past_silent [OF _ s(4)] past_silent [OF _ s(5)] past_silent [OF _ s(7)]
        past_silent [OF _ s(10)]) (auto simp: of_res_ok)
  obtain code returned where c: "cb = (code, returned)" by (cases cb)
  have "returned = state"
    using more unfolding last c by (auto simp: db_bind_def write_callback_response_def auth_fail_def split: if_splits)
  then have "aw_requests (snd (authcode_run al cfg m w)) = aw_requests w @
      [\<lparr>hq_url = om_token m, hq_form = Some (code_params cfg code (''http://127.0.0.1:'' @ show_nat port @ ''/callback'') pk)\<rparr>]"
    unfolding last c using rq by (simp add: redeem_sends)
  moreover have "pk_challenge pk = al_sha256_base64 al (pk_verifier pk)"
    using pk by (auto simp: pkce_generate_def Let_def db_return_def elim!: bind_ok)
  ultimately show ?thesis using url callback_ok [OF cb [unfolded c]] \<open>returned = state\<close>
    by (fastforce simp: build_authorize_url_def split: option.splits)
qed

end
