(* ===== verification/Auth_Props.thy ===== *)
theory Auth_Props
  imports Auth_Commands
begin

text \<open>
  The properties of signing in, of the session and of the settings on the developer's machine, with the concrete
  servers and files that show their hypotheses can hold.
\<close>

section \<open>A concrete machine\<close>

definition sga_meta :: oidc_metadata where
  "sga_meta = \<lparr>om_issuer = ''https://idp'', om_authorization = Some ''https://idp/a'', om_token = ''https://idp/t'',
     om_device = None, om_revocation = None\<rparr>"

definition sga_session :: cached_session where
  "sga_session = \<lparr>se_issuer = ''https://idp'', se_client_id = ''c'', se_access_token = ''at'', se_refresh_token = Some ''rt'',
     se_expires_at = 5000, se_lifetime = Some 600\<rparr>"

definition sga_url :: "string \<Rightarrow> parsed_url option" where
  "sga_url s = (if take 11 s = ''https://idp'' then Some \<lparr>ur_scheme = ''https'', ur_host = Some (Domain ''idp''), ur_port = 443\<rparr> else None)"

definition sga_opt :: client_opt_out where
  "sga_opt = \<lparr>co_claude = True, co_codex = False, co_codex_telemetry_only = False, co_vscode = False\<rparr>"

definition sga_cfg :: oauth_config where
  "sga_cfg = \<lparr>oc_issuer = ''https://idp'', oc_client_id = ''c'', oc_scopes = DEFAULT_SCOPES, oc_audience = None,
     oc_otel_endpoint = None, oc_otel_token = None, oc_gateway_url = None, oc_profile = Manual, oc_profile_explicit = None,
     oc_copilot_spool_path = None, oc_debounce_ms = DEFAULT_OTEL_HEADERS_DEBOUNCE_MS, oc_open_browser = False,
     oc_callback_port = None, oc_callback_bind = DEFAULT_BIND, oc_exchange = None, oc_last_no_claude = False,
     oc_last_no_codex = False, oc_last_no_vscode = False, oc_last_codex_telemetry_only = False\<rparr>"

definition sga_xc :: exchange_config where
  "sga_xc = \<lparr>xc_endpoint = Explicit ''https://idp/x'', xc_client_id = ''d'', xc_scopes = None\<rparr>"

definition sga_machine :: "(nat \<Rightarrow> io_outcome) \<Rightarrow> (nat \<Rightarrow> http_request \<Rightarrow> http_answer) \<Rightarrow> auth_lib" where
  "sga_machine io send = \<lparr>al_io = io, al_clock = (\<lambda>_. Some 1000), al_send = send, al_hops = (\<lambda>_ _. []), al_lock = (\<lambda>_. True),
     al_env = map_of [(''XDG_STATE_HOME'', ''/s''), (''XDG_CACHE_HOME'', ''/c''), (''XDG_CONFIG_HOME'', ''/g'')], al_macos = False,
     al_url = sga_url, al_sha256 = (\<lambda>_. replicate 64 (CHR ''a'')),
     al_read_session = (\<lambda>b. if b = ''S'' then Some sga_session else None), al_print_session = (\<lambda>_. ''S''),
     al_read_discovery = (\<lambda>_. None), al_print_discovery = (\<lambda>_. ''D''),
     al_read_metadata = (\<lambda>_. Some sga_meta),
     al_read_token = (\<lambda>_. Some \<lparr>rt_access_token = ''new'', rt_refresh_token = None, rt_expires_in = Some 600\<rparr>),
     al_read_error = (\<lambda>_. None),
     al_read_toml = map_of [([], []), (''P'', remember_table sga_cfg sga_opt []),
       (''X'', [(''token_exchange'', T_bool True), (''exchange_client_id'', T_string ''d''), (''exchange_token_endpoint'', T_string ''https://idp/x'')])],
     al_print_toml = (\<lambda>_. ''P''), al_mode = (\<lambda>_. Some 0), al_ip = (\<lambda>_. None), al_bind = (\<lambda>_ _ _. True),
     al_random = (\<lambda>_ _. Some ''R''), al_base64 = (\<lambda>b. b), al_sha256_base64 = (\<lambda>v. CHR ''C'' # v),
     al_with_query = (\<lambda>u _. Some u), al_accept = (\<lambda>_. Some ''G /q H''),
     al_query = (\<lambda>_. Some [(''code'', ''k''), (''state'', ''R'')]), al_read_device = (\<lambda>_. None),
     al_overshoot = (\<lambda>_. 0), al_latency = (\<lambda>_. 0)\<rparr>"

definition sga_lib :: auth_lib where
  "sga_lib = sga_machine (\<lambda>_. Io_done) (\<lambda>_ _. Reply 200 (Some ''T''))"

definition sga_world :: "(string \<times> string) list \<Rightarrow> auth_world" where
  "sga_world fs = \<lparr>aw_files = fs, aw_calls = 0, aw_requests = [], aw_hops = [], aw_shown = [], aw_pages = []\<rparr>"

definition sga_path :: string where
  "sga_path = ''/s/governance-auth/'' @ replicate 64 (CHR ''a'') @ ''.json''"

definition sga_legacy :: string where
  "sga_legacy = ''/c/governance-auth/'' @ replicate 64 (CHR ''a'') @ ''.json''"

definition sga_args :: oauth_args where
  "sga_args = no_args\<lparr>oa_issuer := Some ''https://idp'', oa_client_id := Some ''c''\<rparr>"

lemma sga_dirs [simp]:
  "state_dir (sga_machine io send) = Inr ''/s/governance-auth''" "cache_dir (sga_machine io send) = Inr ''/c/governance-auth''"
  by (simp_all add: sga_machine_def state_dir_def cache_dir_def base_dir_def path_join_def)

lemma sga_places: "session_places (sga_machine io send) sga_cfg sga_path sga_legacy"
  by (simp add: session_places_def sga_path_def sga_legacy_def session_path_def legacy_session_path_def res_bind_def path_join_def
      session_key_def) (simp add: sga_machine_def)

lemma sga_fields [simp]:
  "al_io (sga_machine io send) = io" "al_clock (sga_machine io send) n = Some 1000" "al_send (sga_machine io send) = send"
  "al_hops (sga_machine io send) k rq = []"
  "al_lock (sga_machine io send) n" "al_url (sga_machine io send) = sga_url" "al_read_discovery (sga_machine io send) b = None"
  "al_read_session (sga_machine io send) b = (if b = ''S'' then Some sga_session else None)"
  "al_print_session (sga_machine io send) t = ''S''" "al_read_metadata (sga_machine io send) b = Some sga_meta"
  "al_read_token (sga_machine io send) b = Some \<lparr>rt_access_token = ''new'', rt_refresh_token = None, rt_expires_in = Some 600\<rparr>"
  by (simp_all add: sga_machine_def)

lemma sga_reliable [simp]: "reliable sga_lib"
  by (simp add: reliable_def sga_lib_def sga_machine_def)

section \<open>Requests\<close>

text \<open>C24: Whatever the servers answer and whatever a cached discovery document says, every request with a form that the commands
  send (tokens, refresh tokens, codes, verifiers) goes to a secure address at the origin of the configured issuer, to one at
  the origin of the issuer configured for the exchange, or to the exchange endpoint that was configured itself. Where a server
  redirects a request, the client follows to secure addresses only (which need not be at that origin).\<close>

theorem credentials_go_to_pinned_addresses:
  assumes "w' \<in> {snd (token_command al cfg w), snd (otel_headers_command al cfg w), snd (refresh_command al cfg w),
     snd (logout_command al cfg w), snd (login_command al cfg device_code optout w)}"
  shows "\<exists>rqs hops. aw_requests w' = aw_requests w @ rqs \<and> (\<forall>rq \<in> set rqs. hq_form rq \<noteq> None \<longrightarrow> trusted al cfg (hq_url rq)) \<and>
     aw_hops w' = aw_hops w @ hops \<and> list_all (redirect_policy al) hops"
  using assms sends.steps_token [of al cfg] sends.steps_headers [of al cfg] sends.steps_refresh [of al cfg] sends.steps_logout [of al cfg]
    sends.steps_login [of al cfg device_code optout]
  unfolding steps_def posts_to_def by auto

theorem credentials_go_to_pinned_addresses_witness:
  "\<exists>rqs hops. aw_requests (snd (refresh_command sga_lib sga_cfg (sga_world [(sga_path, ''S'')]))) = aw_requests (sga_world [(sga_path, ''S'')]) @ rqs \<and>
     (\<forall>rq \<in> set rqs. hq_form rq \<noteq> None \<longrightarrow> trusted sga_lib sga_cfg (hq_url rq)) \<and>
     aw_hops (snd (refresh_command sga_lib sga_cfg (sga_world [(sga_path, ''S'')]))) = aw_hops (sga_world [(sga_path, ''S'')]) @ hops \<and>
     list_all (redirect_policy sga_lib) hops"
  by (rule credentials_go_to_pinned_addresses [where device_code = True and optout = sga_opt]) simp




text \<open>The polling of the device flow ends whatever the server answers: it sends nothing but the same question to the token
  endpoint, no more often than once in the interval the server asked for (or a second) over the lifetime of the device code.\<close>

theorem device_polling_is_bounded:
  "\<exists>n. aw_requests (snd (poll al m cfg dv verifier w)) =
     aw_requests w @ replicate n \<lparr>hq_url = om_token m, hq_form = Some (poll_params cfg dv verifier)\<rparr> \<and>
     n * max (dg_interval dv) 1 \<le> dg_expires_in dv"
  by (rule poll_sends)

section \<open>The session\<close>







text \<open>When the rename of a migrating session fails, a logout that reports success leaves a copy of the session, with its refresh
  token, under the temporary name.\<close>

theorem logout_leaves_a_copy_of_the_session:
  assumes "session_places al cfg path legacy" and "map_of (aw_files w) path = None" and "map_of (aw_files w) legacy = Some bytes"
    and "\<And>k. k \<noteq> aw_calls w + 6 \<Longrightarrow> al_io al k = Io_done" and "al_io al (aw_calls w + 6) = Io_refused"
    and "al_read_session al bytes = Some s" and "logout_command al cfg w = (Inr (), w')"
  shows "map_of (aw_files w') (tmp_path path) = Some bytes"
  by (rule logout_leaves_copy [OF assms])

definition sga_worn :: auth_lib where
  "sga_worn = sga_machine (\<lambda>k. if k = 6 then Io_refused else Io_done) (\<lambda>_ _. No_reply)"

lemma sga_worn_logs_out: "fst (logout_command sga_worn sga_cfg (sga_world [(sga_legacy, ''S'')])) = Inr ()"
proof -
  have p: "session_places sga_worn sga_cfg sga_path sga_legacy" unfolding sga_worn_def by (rule sga_places)
  note places = p [unfolded session_places_def] places_apart(1-3) [OF p] places_apart(4) [OF p, of "''https://idp''"]
  show ?thesis using places
    by (simp add: sga_worn_def sga_world_def logout_command_def acquire_lock_def load_session_def migrate_legacy_session_def read_session_def
        fs_present_def fs_read_def fs_create_dir_def fs_write_def fs_rename_def counted_call_def attempt_def update_conv' auth_fail_def
        sga_session_def revoke_token_def discover_def sga_cfg_def trim_slashes_def sga_url_def require_secure_def load_cached_def
        discovery_cache_path_def res_bind_def discover_uncached_def http_send_def clear_session_def fs_remove_def db_bind_def db_return_def Let_def
        split: option.split)
qed

theorem logout_leaves_a_copy_of_the_session_witness:
  "map_of (aw_files (snd (logout_command sga_worn sga_cfg (sga_world [(sga_legacy, ''S'')])))) (tmp_path sga_path) = Some ''S''"
proof -
  let ?w = "sga_world [(sga_legacy, ''S'')]"
  have p: "session_places sga_worn sga_cfg sga_path sga_legacy" unfolding sga_worn_def by (rule sga_places)
  obtain w' where "logout_command sga_worn sga_cfg ?w = (Inr (), w')"
    using sga_worn_logs_out by (cases "logout_command sga_worn sga_cfg ?w") auto
  moreover have "map_of (aw_files ?w) sga_path = None" "map_of (aw_files ?w) sga_legacy = Some ''S''"
    using places_apart(3) [OF p] by (simp_all add: sga_world_def)
  ultimately show ?thesis
    using logout_leaves_a_copy_of_the_session [OF p, of ?w "''S''" sga_session w'] by (simp add: sga_worn_def sga_world_def)
qed

text \<open>With an exchange configured, the command that prints a token prints the one the exchange endpoint answered with and never
  the token of the session.\<close>

theorem only_the_exchanged_token_is_printed:
  assumes "oc_exchange cfg = Some xc" and "token_command al cfg w = (Inr t, w')"
  shows "\<exists>endpoint subject k status body r.
     al_send al k \<lparr>hq_url = endpoint, hq_form = Some (exchange_params xc subject)\<rparr> = Reply status (Some body) \<and> 200 \<le> status \<and> status < 300 \<and>
     al_read_token al body = Some r \<and> t = rt_access_token r @ [newline]"
  by (rule token_is_exchanged [OF assms])

lemma sga_prints:
  "fst (token_command sga_lib (sga_cfg\<lparr>oc_exchange := Some sga_xc\<rparr>) (sga_world [(sga_path, ''S'')])) = Inr (''new'' @ [newline])"
proof -
  let ?w = "sga_world [(sga_path, ''S'')]"
  have "session_path sga_lib (oc_issuer sga_cfg) (oc_client_id sga_cfg) = Inr sga_path"
    using sga_places unfolding session_places_def sga_lib_def by blast
  then obtain v where v: "load_session sga_lib (oc_issuer sga_cfg) (oc_client_id sga_cfg) (counted_call ?w) = (Inr (Some sga_session), v)"
    using reads_stored [OF sga_reliable, of _ _ sga_path "counted_call ?w" "''S''" sga_session] by (auto simp: sga_lib_def sga_world_def)
  have "is_fresh_for sga_lib sga_session (required_remaining_secs (for_helper (oc_debounce_ms sga_cfg)) sga_session) v = (Inr True, counted_call v)"
    by (simp add: is_fresh_for_def auth_now_def sga_lib_def db_bind_def db_return_def required_remaining_secs_def for_helper_def sga_session_def
        SKEW_SECONDS_def sat_add_def U64_MAX_def Let_def sga_cfg_def DEFAULT_OTEL_HEADERS_DEBOUNCE_MS_def)
  then have "current_session sga_lib (sga_cfg\<lparr>oc_exchange := Some sga_xc\<rparr>) (for_helper (oc_debounce_ms sga_cfg)) ?w = (Inr sga_session, counted_call v)"
    using v by (simp add: current_session_def acquire_lock_def db_bind_def db_return_def) (simp add: sga_lib_def)
  then show ?thesis
    by (simp add: token_command_def db_bind_def emit_token_def attempt_def exchange_run_def exchange_token_endpoint_def sga_xc_def db_return_def
        token_request_def http_send_def sga_lib_def of_res_def res_map_err_def Let_def)
qed

theorem only_the_exchanged_token_is_printed_witness:
  "\<exists>endpoint subject k status body r.
     al_send sga_lib k \<lparr>hq_url = endpoint, hq_form = Some (exchange_params sga_xc subject)\<rparr> = Reply status (Some body) \<and> 200 \<le> status \<and>
     status < 300 \<and> al_read_token sga_lib body = Some r \<and> ''new'' @ [newline] = rt_access_token r @ [newline]"
proof -
  obtain w' where "token_command sga_lib (sga_cfg\<lparr>oc_exchange := Some sga_xc\<rparr>) (sga_world [(sga_path, ''S'')]) = (Inr (''new'' @ [newline]), w')"
    using sga_prints by (cases "token_command sga_lib (sga_cfg\<lparr>oc_exchange := Some sga_xc\<rparr>) (sga_world [(sga_path, ''S'')])") auto
  from only_the_exchanged_token_is_printed [OF _ this] show ?thesis by simp
qed

section \<open>Settings\<close>

text \<open>What a run resolved from flags and files and wrote back makes the next run, with no flag at all, resolve to the same settings, with
  the choice of clients of the run that wrote. The token and the callback are not written, and have to come from the files; an
  exchange that the run switched off must not be switched on by the machine's file.\<close>

theorem settings_survive_the_round_trip:
  assumes "resolve_with_paths al args up mp w = (Inr c, w1)" and "remember al c optout up w1 = (Inr (), w2)"
    and "oa_otel_token args = None" and "oa_callback_port args = None" and "oa_callback_bind args = None"
    and "reliable al" and "al_read_toml al [] = Some []" and "written_reads_back al w up c optout"
    and "up \<noteq> mp" and "Option.bind (file_at al w up) cf_otel_token_file \<noteq> Some up"
    and "Option.bind (file_at al w mp) cf_otel_token_file \<noteq> Some up" and "exchange_kept al (file_at al w mp) c"
  shows "\<exists>w3. resolve_with_paths al no_args up mp w2 =
     (Inr (c\<lparr>oc_last_no_claude := co_claude optout, oc_last_no_codex := co_codex optout, oc_last_no_vscode := co_vscode optout,
        oc_last_codex_telemetry_only := co_codex_telemetry_only optout\<rparr>), w3)"
  by (rule settings_round [OF assms])

lemma sga_resolves:
  "resolve_with_paths sga_lib sga_args ''u'' ''m'' (sga_world []) = (Inr sga_cfg, sga_world []\<lparr>aw_calls := 2\<rparr>)"
  by (simp add: resolve_with_paths_def load_config_def fs_read_def sga_lib_def sga_world_def counted_call_def db_bind_def db_return_def
      resolve_layers_def required_settings_def layered_def sga_args_def parse_issuer_def parse_url_def sga_url_def require_secure_def
      transpose_map_def file_otel_token_def exchange_resolve_def unwrap_or_def valid_port_def of_res_def config_of_layers_def sga_cfg_def
      profile_default_def)

lemma sga_toml [simp]:
  "al_read_toml (sga_machine io send) [] = Some []" "al_read_toml (sga_machine io send) ''P'' = Some (remember_table sga_cfg sga_opt [])"
  "al_print_toml (sga_machine io send) t = ''P''"
  "al_read_toml (sga_machine io send) ''X'' = Some [(''token_exchange'', T_bool True), (''exchange_client_id'', T_string ''d''),
     (''exchange_token_endpoint'', T_string ''https://idp/x'')]"
  by (simp_all add: sga_machine_def)

lemma sga_remembers:
  "map_of (aw_files w) ''u'' = None \<Longrightarrow>
     remember sga_lib sga_cfg sga_opt ''u'' w = (Inr (), w\<lparr>aw_calls := aw_calls w + 3, aw_files := AList.update ''u'' ''P'' (aw_files w)\<rparr>)"
  by (simp add: remember_def fs_read_def sga_lib_def counted_call_def db_bind_def unwrap_or_def sga_cfg_def DEFAULT_OTEL_HEADERS_DEBOUNCE_MS_def
      fs_create_dir_def fs_write_def)

theorem settings_survive_the_round_trip_witness:
  "\<exists>w3. resolve_with_paths sga_lib no_args ''u'' ''m'' (sga_world [(''u'', ''P'')]\<lparr>aw_calls := 5\<rparr>) = (Inr (sga_cfg\<lparr>oc_last_no_claude := True\<rparr>), w3)"
proof -
  have wrote: "remember sga_lib sga_cfg sga_opt ''u'' (sga_world []\<lparr>aw_calls := 2\<rparr>) = (Inr (), sga_world [(''u'', ''P'')]\<lparr>aw_calls := 5\<rparr>)"
    using sga_remembers by (simp add: sga_world_def)
  have files: "file_at sga_lib (sga_world []) ''u'' = None" "file_at sga_lib (sga_world []) ''m'' = None"
    by (simp_all add: file_at_def sga_world_def)
  have "written_reads_back sga_lib (sga_world []) ''u'' sga_cfg sga_opt"
    by (simp add: written_reads_back_def sga_lib_def sga_world_def unwrap_or_def)
  moreover have "exchange_kept sga_lib None sga_cfg" by (simp add: exchange_kept_def sga_cfg_def unwrap_or_def)
  ultimately show ?thesis
    using settings_survive_the_round_trip [OF sga_resolves wrote]
    by (simp add: sga_args_def sga_lib_def [symmetric] files) (simp add: sga_lib_def sga_opt_def sga_cfg_def)
qed

text \<open>An exchange that a run switched off by a flag is on again in the next run without flags, when the machine's file switches it on:
  writing the settings back removes the setting from the user's file instead of storing that it is off.\<close>

theorem exchange_opt_out_is_forgotten:
  assumes "reliable al" and "written_reads_back al w up c optout" and "up \<noteq> mp" and "oc_exchange c = None"
    and "Option.bind (file_at al w mp) cf_token_exchange = Some True"
    and "remember al c optout up w = (Inr (), w')" and "resolve_with_paths al no_args up mp w' = (Inr c', w'')"
  shows "oc_exchange c' \<noteq> None"
  by (rule exchange_comes_back [OF assms])

definition sga_switched :: auth_world where
  "sga_switched = sga_world [(''m'', ''X'')]"

definition sga_user_file :: config_file where
  "sga_user_file = the (config_of_table (remember_table sga_cfg sga_opt []))"

definition sga_machine_file :: config_file where
  "sga_machine_file = the (config_of_table [(''token_exchange'', T_bool True), (''exchange_client_id'', T_string ''d''),
     (''exchange_token_endpoint'', T_string ''https://idp/x'')])"

lemma sga_user_file:
  "config_of_table (remember_table sga_cfg sga_opt []) = Some sga_user_file"
  "cf_issuer sga_user_file = Some ''https://idp''" "cf_client_id sga_user_file = Some ''c''" "cf_otel_endpoint sga_user_file = None"
  "cf_otel_token sga_user_file = None" "cf_otel_token_file sga_user_file = None" "cf_gateway_url sga_user_file = None"
  "cf_profile sga_user_file = None" "cf_token_exchange sga_user_file = None" "cf_exchange_issuer sga_user_file = None"
  "cf_exchange_token_endpoint sga_user_file = None" "cf_exchange_client_id sga_user_file = None" "cf_exchange_scopes sga_user_file = None"
  "cf_callback_port sga_user_file = None" "cf_callback_bind sga_user_file = None"
proof -
  obtain cf where cf: "config_of_table [] = Some cf" "cf_otel_token cf = None" "cf_otel_token_file cf = None"
    "cf_callback_port cf = None" "cf_callback_bind cf = None"
    using load_empty by (fastforce simp: config_of_table_def)
  from remember_refines [OF cf(1), of sga_cfg sga_opt]
  have u: "sga_user_file = remembered sga_cfg sga_opt cf" by (simp add: sga_user_file_def)
  then show "config_of_table (remember_table sga_cfg sga_opt []) = Some sga_user_file"
    using remember_refines [OF cf(1), of sga_cfg sga_opt] by simp
  show "cf_issuer sga_user_file = Some ''https://idp''" "cf_client_id sga_user_file = Some ''c''" "cf_otel_endpoint sga_user_file = None"
    "cf_otel_token sga_user_file = None" "cf_otel_token_file sga_user_file = None" "cf_gateway_url sga_user_file = None"
    "cf_profile sga_user_file = None" "cf_token_exchange sga_user_file = None" "cf_exchange_issuer sga_user_file = None"
    "cf_exchange_token_endpoint sga_user_file = None" "cf_exchange_client_id sga_user_file = None" "cf_exchange_scopes sga_user_file = None"
    "cf_callback_port sga_user_file = None" "cf_callback_bind sga_user_file = None"
    unfolding u using cf by (simp_all add: remembered_def sga_cfg_def)
qed

lemma sga_machine_file:
  "config_of_table [(''token_exchange'', T_bool True), (''exchange_client_id'', T_string ''d''),
     (''exchange_token_endpoint'', T_string ''https://idp/x'')] = Some sga_machine_file"
  "cf_otel_endpoint sga_machine_file = None" "cf_otel_token sga_machine_file = None" "cf_otel_token_file sga_machine_file = None"
  "cf_gateway_url sga_machine_file = None" "cf_profile sga_machine_file = None" "cf_token_exchange sga_machine_file = Some True"
  "cf_exchange_issuer sga_machine_file = None" "cf_exchange_token_endpoint sga_machine_file = Some ''https://idp/x''"
  "cf_exchange_client_id sga_machine_file = Some ''d''" "cf_callback_port sga_machine_file = None" "cf_callback_bind sga_machine_file = None"
  by (simp_all add: sga_machine_file_def config_of_table_def item_ok_def string_keys_def bool_keys_def get_str_def get_bool_def get_nat_def)

lemma sga_switched_reads:
  "\<exists>c' w''. resolve_with_paths sga_lib no_args ''u'' ''m''
     (sga_switched\<lparr>aw_calls := aw_calls sga_switched + 3, aw_files := AList.update ''u'' ''P'' (aw_files sga_switched)\<rparr>) = (Inr c', w'')"
proof -
  let ?w = "sga_switched\<lparr>aw_calls := aw_calls sga_switched + 3, aw_files := AList.update ''u'' ''P'' (aw_files sga_switched)\<rparr>"
  have f: "map_of (aw_files ?w) ''u'' = Some ''P''" "map_of (aw_files ?w) ''m'' = Some ''X''"
    by (simp_all add: sga_switched_def sga_world_def)
  obtain w1 where 1: "load_config sga_lib ''u'' ?w = (Inr (Some sga_user_file), w1)" "aw_files w1 = aw_files ?w"
    using load_plain [OF sga_reliable f(1) _ sga_user_file(1)] sga_user_file(5) by (auto simp: sga_lib_def)
  obtain w2 where 2: "load_config sga_lib ''m'' w1 = (Inr (Some sga_machine_file), w2)"
    using load_plain [OF sga_reliable f(2) [folded 1(2)] _ sga_machine_file(1)] sga_machine_file(3) by (auto simp: sga_lib_def)
  have "resolve_with_paths sga_lib no_args ''u'' ''m'' ?w =
      resolve_layers sga_lib no_args (Some sga_user_file) ''u'' (Some sga_machine_file) ''m'' w2"
    by (simp add: resolve_with_paths_def db_bind_def 1 2)
  then show ?thesis
    by (simp add: resolve_layers_def required_settings_def layered_def sga_user_file(2-) sga_machine_file(2-) of_res_def parse_issuer_def
        parse_url_def parse_exchange_token_endpoint_def transpose_map_def file_otel_token_def exchange_resolve_def unwrap_or_def valid_port_def
        db_return_def db_bind_def sga_lib_def sga_url_def require_secure_def)
qed

theorem exchange_opt_out_is_forgotten_witness:
  "\<exists>c' w''. resolve_with_paths sga_lib no_args ''u'' ''m''
     (sga_switched\<lparr>aw_calls := aw_calls sga_switched + 3, aw_files := AList.update ''u'' ''P'' (aw_files sga_switched)\<rparr>) = (Inr c', w'') \<and>
     oc_exchange sga_cfg = None \<and> oc_exchange c' \<noteq> None"
proof -
  have wrote: "remember sga_lib sga_cfg sga_opt ''u'' sga_switched =
      (Inr (), sga_switched\<lparr>aw_calls := aw_calls sga_switched + 3, aw_files := AList.update ''u'' ''P'' (aw_files sga_switched)\<rparr>)"
    by (rule sga_remembers) (simp add: sga_switched_def sga_world_def)
  have "Option.bind (file_at sga_lib sga_switched ''m'') cf_token_exchange = Some True"
    using sga_machine_file(1,7) by (simp add: file_at_def sga_switched_def sga_world_def sga_lib_def)
  moreover have "written_reads_back sga_lib sga_switched ''u'' sga_cfg sga_opt"
    by (simp add: written_reads_back_def sga_lib_def sga_switched_def sga_world_def unwrap_or_def)
  moreover have "oc_exchange sga_cfg = None" by (simp add: sga_cfg_def)
  moreover obtain c' w'' where r: "resolve_with_paths sga_lib no_args ''u'' ''m''
      (sga_switched\<lparr>aw_calls := aw_calls sga_switched + 3, aw_files := AList.update ''u'' ''P'' (aw_files sga_switched)\<rparr>) = (Inr c', w'')"
    using sga_switched_reads by blast
  ultimately have "oc_exchange c' \<noteq> None"
    using exchange_opt_out_is_forgotten [OF sga_reliable _ _ _ _ wrote r] by simp
  with r show ?thesis by (auto simp: sga_cfg_def)
qed

end
