(* ===== verification/Spec2Isabelle.thy ===== *)
theory Spec2Isabelle
  imports Daemon_Props Proxy_Props Copilot_Props Gov_Props Gov_Core_Props Auth_Props
begin

text \<open>
  A verification development for \<open>lightbridge-governance\<close>, the Rust programs that govern the use of model
  providers in an organization. Five subsystems are modelled.

  \<^item> The redaction subsystem: \<open>crates/governance-redact\<close> detects credentials and personal data in the text of
    model requests and responses and blocks or rewrites it; \<open>app/redact-extproc\<close> (an Envoy external
    processor) and \<open>app/redact-gateway\<close> (a stand-alone proxy) put it in the path of the traffic.
  \<^item> The telemetry daemon, \<open>otel_daemon\<close> of \<open>app/governance-auth\<close>: it admits OTLP payloads on a loopback
    port, keeps them in a durable spool, and forwards them with the developer's credential.
  \<^item> The Copilot drain, \<open>copilot\<close> of \<open>app/governance-auth\<close>: it translates the file that the editor writes
    into OTLP, posts it signal by signal, and remembers how far it got.
  \<^item> The login client, the rest of \<open>app/governance-auth\<close>: settings, signing in, the session, the tokens it
    hands out, and logging out.
  \<^item> The governance service: \<open>crates/governance-core\<close> (credentials, identities, ingest),
    \<open>crates/governance-foundry\<close> (normalizers), \<open>app/lightbridge-governance\<close> (resolution of credentials),
    and the connector that collects Copilot reports, \<open>crates/governance-copilot\<close> with \<open>app/governance-ctl\<close>.

  \<^bold>\<open>How the parts of the redaction subsystem interact.\<close> A \<open>Profile\<close> says which action each entity type
  gets; an \<open>Engine\<close> runs the detector of the \<open>pii\<close> crate on a text and turns its detections into a verdict
  (clean, rewritten, blocked) or into spans. \<open>payload.rs\<close> applies the engine to every text field of a JSON
  request or response. Streams are handled by three components: \<open>scan_sse\<close> on a complete stream,
  \<open>HoldBack\<close> on plain text with a window of bytes held back, and \<open>SseHoldBack\<close>, which holds back whole
  frames of an event stream per choice and field. The services parse messages, call these components,
  and answer with a mutation or a refusal; on a fail-closed profile an unknown result is a refusal.

  \<^bold>\<open>How the parts of the daemon interact.\<close> The request handler checks host and content type, classifies
  the body, stamps its source and its cost, and retains it: one line of the spool file per payload, with
  a checkpoint that says how far the file has been delivered and an identity that says which file the
  offset belongs to. The drain reads the next line, stamps the identity of the credential on it, posts it
  and advances; a record that is refused for good is given up on only after separate refusals and when a
  later record is accepted. The delivered prefix is reclaimed by truncation at a commit or by a compaction
  on a timer. The spool is locked per call, so admission and compaction run between the calls of the drain.

  \<^bold>\<open>How the parts of the Copilot drain interact.\<close> A wake runs sweeps until nothing is left, a sweep fails
  or the bound is reached. A sweep reads the tail of the file from the checkpoint and exports metrics and
  logs in turn: the lines are classified and grouped into batches, a batch is posted, and a batch that is
  refused for good is halved until a single record is isolated, which is probed and given up on only with
  evidence. The journal stores the checkpoint after what was delivered; a fully delivered file is truncated.

  \<^bold>\<open>How the parts of the login client interact.\<close> Flags, the user's file and the machine's file are resolved
  into one configuration. A login discovers the endpoints of the issuer, runs the browser or the device flow,
  stores the session and writes the settings back. The helpers load the session under a lock, renew it
  when it does not live long enough, exchange its token where that is configured, and print the result.

  \<^bold>\<open>How the parts of the governance service interact.\<close> An integration has a secret of which only the digest is
  stored; the resolve endpoint, open to callers the API server vouches for, turns a secret into an identity
  through a cache with a time to live. Telemetry is normalized into executions with their calls and ingested in
  one transaction that is retried on a deadlock. The connector fetches the reports of a day, archives the
  bytes, parses them and upserts the rows with a manifest; a backfill does so for a window of days, a replay
  from the archive, and a cutover compares the archive with the manifests before it drops tables.

  \<^bold>\<open>Shared theories.\<close>
  \<^item> \<open>Gov_Prelude\<close>: results as sums, strings as lists of bytes with the string functions of the Rust
    standard library the sources call, \<open>sort\<close> and \<open>dedup\<close>, and the interface of a map (locale \<open>hash_map\<close>,
    interpreted on association lists).
  \<^item> \<open>Utf8\<close>: \<open>str::from_utf8\<close> with \<open>valid_up_to\<close> and \<open>error_len\<close>, its lossy variant, and the facts that make
    decoding compositional.
  \<^item> \<open>Json\<close>: \<open>serde_json::Value\<close> with insertion-ordered objects, its accessors, and the record of the parser
    and the printer. \<open>Serde\<close>: the derived readers of structs.
  \<^item> \<open>Gov_Tables\<close>: tables with primary and unique keys, upserts, transactions and their locale; statements run
    against a server that may refuse a statement, or execute it and lose the answer.

  \<^bold>\<open>Theories of the redaction subsystem.\<close>
  \<^item> \<open>Redact_Profile\<close> (\<open>error.rs\<close>, \<open>secrets.rs\<close>, \<open>profile.rs\<close>) and \<open>Redact_Engine\<close> (\<open>engine.rs\<close>), with the
    locale \<open>detector\<close>: what a client may rely on between \<open>detect\<close> and \<open>scan\<close>, interpreted on the engine.
  \<^item> \<open>Redact_HoldBack\<close> (\<open>holdback.rs\<close>): the window, the cut, and that the releases are scanned segments
    that end at safe cuts (\<open>cut_safe\<close>, \<open>segmented\<close>).
  \<^item> \<open>Redact_Payload\<close> (\<open>payload.rs\<close>): the walks, with the locale \<open>walker\<close> relating a walk to the list of
    text slots it visits and the map that rewrites them, interpreted for requests and responses.
  \<^item> \<open>Redact_Streaming\<close> (\<open>streaming/mod.rs\<close>): the buffered stream scan and its specification by field.
  \<^item> \<open>Redact_Sse\<close> (\<open>sse/mod.rs\<close>): the incremental redactor; \<open>Redact_Sse_Correct\<close>: its invariants (the
    queue, the text of every field, the frames already emitted) and their preservation by every step.
  \<^item> \<open>Redact_Extproc\<close> (\<open>service/*.rs\<close>, \<open>config.rs\<close>): phases, handlers, replies, the message loop.
  \<^item> \<open>Redact_Gateway\<close> (\<open>proxy.rs\<close>, \<open>config.rs\<close>): the handler and the streamed response task.
  \<^item> \<open>Redact_Samples\<close>: concrete instances of the parameters; \<open>Redact_Props\<close> and \<open>Proxy_Props\<close>: the
    properties of the crate and of the services, with their witnesses. This theory adds the property
    that spans a whole exchange.

  \<^bold>\<open>Theories of the daemon.\<close>
  \<^item> \<open>Daemon_Tail\<close> (\<open>copilot/spool/mod.rs\<close>, \<open>copilot/spool/identity.rs\<close>, \<open>copilot/quarantine.rs\<close>): the tail of
    an append-only file, the identity of a file, the table of refused records.
  \<^item> \<open>Daemon_Receive\<close> (\<open>receive\<close>, \<open>classify\<close>, \<open>protobuf\<close>, \<open>signal\<close>, \<open>source_stamp\<close>, \<open>codex_cost\<close>): admission;
    prices are computed on 64- and 128-bit words.
  \<^item> \<open>Daemon_Spool\<close> (\<open>spool/*.rs\<close>, \<open>checkpoint.rs\<close>): the spool with all its operations.
  \<^item> \<open>Daemon_Normalize\<close> (\<open>normalize/mod.rs\<close>, \<open>identity_attributes\<close>): the identity stamp.
  \<^item> \<open>Daemon_Drain\<close> (\<open>drain/*.rs\<close>, \<open>forward.rs\<close>, \<open>mint.rs\<close>, \<open>request.rs\<close>): the drain and the request handler.
  \<^item> \<open>Daemon_Quarantine\<close>: the table of refusals as an ordered map (locale \<open>ordered_map\<close>, which extends
    \<open>hash_map\<close>), its bound, and what an entry proves about the history of refusals.
  \<^item> \<open>Daemon_Spool_Correct\<close>: files as renderings of lines, the queue a checkpoint stands for, reading and
    committing as operations on the queue, termination of the read loop. \<open>Daemon_Spool_Safety\<close>: the spool
    as a step relation with crashes and failing file calls, and the invariant of its reachable states.
  \<^item> \<open>Daemon_Drain_Correct\<close>: the events an attempt of the drain can produce, each tied to the record it
    concerns; bounds; admission; envelopes. \<open>Daemon_Props\<close>: the properties with their witnesses.

  \<^bold>\<open>Theories of the Copilot drain.\<close> \<open>Copilot_Record\<close> (\<open>record.rs\<close>, \<open>classify.rs\<close>, \<open>otlp.rs\<close>), \<open>Copilot_Batch\<close>
  (\<open>points.rs\<close>, \<open>metrics.rs\<close>, \<open>logs.rs\<close>, \<open>batch.rs\<close>), \<open>Copilot_Journal\<close> (\<open>checkpoint.rs\<close>, \<open>journal.rs\<close>,
  \<open>durable_state\<close>), \<open>Copilot_Export\<close> (\<open>push.rs\<close>, \<open>export/*.rs\<close>), \<open>Copilot_Drain\<close> (\<open>sweep.rs\<close>, \<open>drain.rs\<close>,
  \<open>spool/reclaim.rs\<close>); \<open>Copilot_Export_Correct\<close>, \<open>Copilot_Drain_Correct\<close> and \<open>Copilot_Wake\<close> hold the invariants of
  an export, a sweep and a wake over the log of posts and stores, \<open>Copilot_Props\<close> the properties.

  \<^bold>\<open>Theories of the login client.\<close> \<open>Auth_World\<close> (\<open>paths.rs\<close>, \<open>security.rs\<close>, and what lies outside),
  \<open>Auth_Config\<close> (\<open>config/\<close>, \<open>config_file/\<close>, \<open>config_persist/\<close>, \<open>profile.rs\<close>), \<open>Auth_Session\<close> (\<open>cache.rs\<close>,
  \<open>freshness.rs\<close>, \<open>oauth/discovery.rs\<close>, \<open>token_endpoint.rs\<close>, \<open>exchange.rs\<close>, \<open>refresh.rs\<close>), \<open>Auth_Login\<close> (\<open>pkce.rs\<close>,
  \<open>authcode.rs\<close>, \<open>device.rs\<close>, the login command); \<open>Auth_Config_Correct\<close>: writing back refines an update of the
  file's record; \<open>Auth_Session_Correct\<close>: the locales \<open>auth_frame\<close>, \<open>auth_file_frame\<close>, \<open>session_frame\<close> and
  \<open>command_frame\<close>, which carry a relation between worlds from the calls of the outside to whole commands, with
  their interpretations (requests only to trusted addresses; the stored session kept); \<open>Auth_Commands\<close>: lemmas
  on whole commands; \<open>Auth_Props\<close>: the properties.

  \<^bold>\<open>Theories of the governance service.\<close>
  \<^item> \<open>Gov_Credential\<close> and \<open>Gov_Resolve\<close> (\<open>credential.rs\<close>, \<open>authn.rs\<close>, \<open>resolve.rs\<close>): issue, revocation, lookup,
    and the endpoint as a machine whose requests interleave with revocations and time.
  \<^item> \<open>Gov_Identity\<close>, \<open>Gov_Identity_Correct\<close> (\<open>identity.rs\<close>, \<open>directory.rs\<close>): the mapping of addresses to users in
    time. \<open>Gov_Frames\<close>: how an operation may change the tables. \<open>Gov_Ingest\<close>, \<open>Gov_Ingest_Correct\<close> (\<open>ingest/\<close>): the ingest with
    its transaction. \<open>Gov_Normalize\<close> (\<open>governance-foundry\<close>): the normalizers. \<open>Gov_Core_Props\<close>: the properties.
  \<^item> \<open>Gov_Report\<close> (\<open>model.rs\<close>, \<open>parse/\<close>), \<open>Gov_Batch\<close> and \<open>Gov_Store\<close> (\<open>store.rs\<close>), \<open>Gov_Emit\<close> (\<open>emit/\<close>), \<open>Gov_Github\<close>
    (\<open>client.rs\<close>, \<open>auth.rs\<close>, \<open>report.rs\<close>, \<open>seats.rs\<close>), \<open>Gov_Sync\<close> (\<open>sync/\<close>, \<open>replay.rs\<close>, \<open>archive.rs\<close>, the operators),
    \<open>Gov_Cutover\<close> (\<open>sync/cutover/\<close>); \<open>Gov_Sync_Correct\<close> and \<open>Gov_Connector\<close>: what a run and a backfill leave in
    archive and tables; \<open>Gov_Props\<close>: the properties of the connector.

  \<^bold>\<open>Correspondence.\<close> A struct is a record, an enum a datatype, a method \<open>T::f\<close> the definition \<open>T_f\<close> (or
  \<open>f\<close> where no clash arises) taking and returning the state it mutates. Text and bytes are both
  \<open>string\<close>; offsets are byte offsets. \<open>Result\<close> is a sum with the error on the left. Loops are recursive
  functions with a proved termination measure; the read loop of the spool is a partial function into
  \<open>option\<close> that is proved to return; bounded \<open>for\<close> loops recurse on the number of turns left (64 sweeps of a
  wake, 200 pages of seats, three tries of a request, four of a transaction), and the polling of the device
  flow on the time left. Counters and lengths are natural numbers: the sources use saturating arithmetic on
  lengths bounded by memory; saturation is written out where a counter is kept for ever, and integers that
  come from outside are kept in the range of their type. A panic is the value \<open>Panicked\<close>. Hash maps
  are association lists whose iteration order is a parameter, of which only \<open>visits_each_key_once\<close> is
  assumed; an ordered map is the list of its entries in the order of its keys. A file is its inode and
  its bytes; a file call may fail, a rename may succeed and its sync fail, and a crash is a failing call
  followed by a reopening. Within one operation of the spool, calls of one kind have one outcome, but for the
  second store that a reclaim makes, which has its own.

  \<^bold>\<open>Parameters.\<close> The detector and anonymizer of the \<open>pii\<close> crate are fields of \<open>engine\<close>, \<open>serde_json\<close>'s
  parser and printer are the record \<open>json_codec\<close>, gzip is \<open>gzip_lib\<close>, and the provider is a function. For
  the daemon, SHA-256, base64 and the generated serialisation of envelopes are \<open>spool_lib\<close>, the decoders
  of OTLP messages are \<open>otlp_lib\<close>, and minting, the collector, the clock, the outcome of file calls and what
  other tasks do to the spool are \<open>outside\<close>, a function of the number of interactions so far. The login client
  has its files, servers, clock, lock and parsers in \<open>auth_lib\<close> in the same way; the database, GitHub, the
  archive and the API server are parameters of the definitions that call them. Hypotheses on
  them are stated where they are used: that a detector's spans lie within the text, that printing a
  document succeeds, that decoding inverts encoding (\<open>codec_laws\<close>), sizes (\<open>size_laws\<close>), a server that
  answers (\<open>healthy\<close>). One hypothesis is on input the code does not check: \<open>chunk_ok\<close>, that no document of a
  stream repeats a choice index or a tool-call index; \<open>repeated_tool_index_keeps_raw_text\<close> shows what
  happens without it.

  \<^bold>\<open>What is shown of the redaction subsystem.\<close> Engine: blocking and rewriting agree with detection;
  credentials are blocked on the two strict profiles. Hold-back: the chosen cut is the furthest safe one,
  and what is released is the rewriting of consecutive segments that end at safe cuts. Payload: exactly the
  recognised fields are rewritten. Streams: per field, the emitted text is redacted text; nothing follows a
  block; under the stated conditions everything is emitted. Services: refusals on every failure of a
  fail-closed profile, the order of messages, decoding independent of chunks, and that the provider receives
  scanned documents only. Several theorems record behaviour that the comments of the sources do not expect: a
  field that only ever carries the empty string stalls the end of a stream, a repeated tool-call index leaves
  raw text, the legacy completion stream is not scanned, a panic branch is reachable, a split code point loses
  a release, a JSON answer to a streaming request is not scanned, and a reply of the wrong kind on a fail-open
  profile.

  \<^bold>\<open>What is shown of the daemon.\<close> No written line leaves the queue, in memory or on disk, unless the drain
  settled it or it cannot be decoded, whatever fails and whenever the process dies, along the steps of
  \<open>spool_step\<close>. That relation leaves out steps the code can take and that are treated apart: a compaction in
  flight or on a checkpoint not yet read against its file, a line that grows to the read limit, and an append
  that makes a replaced file look like the old one. Reading and advancing
  refine a queue; reading always returns; a record is discarded only on the evidence the comments demand;
  a success answer means the payload is in the spool; a pass is bounded; envelopes round-trip; identity
  attributes of a client are stripped; prices are exact. Recorded against the comments: a compaction after
  a crash can drop undelivered lines, as can one while a record is in flight; a line that grows to the read
  limit after admission, or an undecodable line behind a refused record, stops the drain for good; a
  failed store still moves the offset in memory.

  \<^bold>\<open>What is shown of the Copilot drain.\<close> A sweep accounts for every line it passes as delivered, given up on,
  skipped or lost in translation, with exact counters; what was delivered is on disk before the next post; a
  record is given up on only with evidence of the same pass; an accepting collector gets everything; a wake makes
  at most 64 sweeps of at most 513 posts per signal (the comment says 512).

  \<^bold>\<open>What is shown of the login client.\<close> Forms with credentials go to pinned addresses, and redirects stay on
  secure ones; a code is redeemed only with the state and verifier of its own login; polling is bounded; a failed
  refresh keeps the session; only the exchanged token is printed where an exchange is configured; settings
  survive a round trip through the file, but an exchange that was switched off does not stay off, and a logout can
  leave a copy of the session behind.

  \<^bold>\<open>What is shown of the governance service.\<close> Resolution fails closed, and a revoked credential fades within the
  timeout and the time to live; an ingest is all or nothing, adds nothing the second time, keeps rows well-formed
  and never rewrites identifiers and first costs; a directory import points every entry and keeps the past; the
  normalizers leave nothing out. A stored report is in the archive byte for byte and replays; frozen runs write
  nothing; tables are dropped only after the comparison; a backfill accounts for every day. Recorded against the
  comments: an ingest takes over executions of another tenant, a user in two teams fails a report, and a repeated
  address fails an import.

  \<^bold>\<open>Not modelled.\<close> Transport (gRPC, HTTP, channels; the client is assumed to stay connected; the gateway's
  call to the provider is one call, whatever redirects its client follows), logging, counter registration,
  command-line parsing, partial writes of the spool (a failed append writes nothing), the start and the shutdown
  of the daemon, its log rotation and status report. Lookups that time out and the insertion into the cache are
  instantaneous steps of the machine of \<open>Gov_Resolve\<close>. Days are unbounded integers, so the range of the calendar
  library, beyond which it panics, is left out. A dropped table is remembered by name; the upserts do not ask for
  it. The programs' entry points, metrics, dashboards and their queries, the runner of the migrations, managed
  settings and the settings written for other programs, scheduling, updates and diagnostics are left out as calls
  into libraries or operating-system effects.
\<close>

section \<open>A whole exchange\<close>






end
